(* ===== verification/Go_Prelude.thy ===== *)
theory Go_Prelude
  imports Main "HOL-Library.Finite_Map" "HOL-Library.Multiset" "HOL-Library.Word"
    "HOL-Library.Char_ord" "HOL-Library.List_Lexorder"
begin

text \<open>
  The part of Go that every component of NexTunnel uses: maps, slices, strings, clocks and
  sorting, with the facts about them that the component proofs share.

  \<^item> A Go map is a finite map of \<open>HOL-Library.Finite_Map\<close>: \<open>fmlookup m k\<close> reads it,
    \<open>fmupd k v m\<close> stores, \<open>fmdrop k m\<close> deletes, \<open>mlen m\<close> is \<open>len(m)\<close>. A
    \<open>range\<close> over a map visits the keys in an order Go leaves open: an operation that ranges
    takes that order as an argument \<open>ks\<close>, and \<open>range_order m ks\<close> says it is one.
  \<^item> A \<open>time.Time\<close> is the number of nanoseconds since Go's zero time, a
    \<open>time.Duration\<close> a number of nanoseconds; \<open>Time.Sub\<close> saturates as Go's does.
  \<^item> A Go string is a list of bytes (\<open>char\<close>); the case mapping and the white space are those
    of ASCII, which is exact for strings of ASCII bytes.
\<close>

named_theorems map_simps \<open>facts about finite maps and their sizes\<close>
named_theorems str_simps \<open>facts about the string operations\<close>

section \<open>Results\<close>

text \<open>An operation that returns \<open>(T, error)\<close>: the error on the left, the value on the right.\<close>

definition is_ok :: "'e + 'a \<Rightarrow> bool" where
  "is_ok r \<longleftrightarrow> (case r of Inl _ \<Rightarrow> False | Inr _ \<Rightarrow> True)"

lemma is_ok_simps [simp]: "is_ok (Inr x)" "\<not> is_ok (Inl e)"
  by (simp_all add: is_ok_def)

lemma is_ok_iff: "is_ok r \<longleftrightarrow> (\<exists>x. r = Inr x)"
  by (cases r) auto

section \<open>Maps\<close>

definition mlen :: "('k, 'v) fmap \<Rightarrow> nat" where
  "mlen m = fcard (fmdom m)"

lemma mlen_empty [simp, map_simps]: "mlen fmempty = 0"
  by (simp add: mlen_def)

lemma fmlookup_fmdom: "k |\<in>| fmdom m \<longleftrightarrow> fmlookup m k \<noteq> None"
  by (auto simp: fmlookup_dom_iff)

lemma mlen_fmupd [simp, map_simps]:
  "mlen (fmupd k v m) = (if fmlookup m k = None then Suc (mlen m) else mlen m)"
  by (simp add: mlen_def fcard_finsert_if fmlookup_fmdom)

lemma mlen_fmdrop [map_simps]:
  "mlen (fmdrop k m) = (if fmlookup m k = None then mlen m else mlen m - 1)"
  by (simp add: mlen_def fmlookup_fmdom fcard_fminus_fsingleton)

lemma mlen_pos: "fmlookup m k = Some v \<Longrightarrow> 0 < mlen m"
proof -
  assume "fmlookup m k = Some v"
  then have "k |\<in>| fmdom m" by (rule fmdomI)
  then have "fmdom m \<noteq> {||}" by auto
  then show ?thesis using fcard_0_eq [of "fmdom m"] by (metis mlen_def neq0_conv)
qed

lemma fmupd_idem: "fmlookup m k = Some v \<Longrightarrow> fmupd k v m = m"
  by (rule fmap_ext) auto

definition range_order :: "('k, 'v) fmap \<Rightarrow> 'k list \<Rightarrow> bool" where
  "range_order m ks \<longleftrightarrow> distinct ks \<and> fset_of_list ks = fmdom m"

primrec range_vals :: "('k, 'v) fmap \<Rightarrow> 'k list \<Rightarrow> 'v list" where
  "range_vals m [] = []"
| "range_vals m (k # ks) =
     (case fmlookup m k of None \<Rightarrow> range_vals m ks | Some v \<Rightarrow> v # range_vals m ks)"

lemma range_order_set: "range_order m ks \<Longrightarrow> k \<in> set ks \<longleftrightarrow> fmlookup m k \<noteq> None"
  by (metis fmlookup_fmdom fset_of_list_elem range_order_def)

lemma range_order_distinct: "range_order m ks \<Longrightarrow> distinct ks"
  by (simp add: range_order_def)

lemma range_order_length: "range_order m ks \<Longrightarrow> length ks = mlen m"
  by (metis distinct_card fcard.rep_eq fset_of_list.rep_eq mlen_def range_order_def)

lemma range_order_exists: "\<exists>ks. range_order m ks"
proof -
  obtain ks where "set ks = fset (fmdom m)" "distinct ks"
    using finite_distinct_list finite_fset by metis
  then show ?thesis
    by (auto simp: range_order_def fset_of_list.rep_eq fset_inject [symmetric])
qed

lemma set_range_vals: "set (range_vals m ks) = {v. \<exists>k \<in> set ks. fmlookup m k = Some v}"
  by (induction ks) (auto split: option.splits)

lemma range_vals_length_le: "length (range_vals m ks) \<le> length ks"
  by (induction ks) (auto split: option.splits)

lemma range_vals_length: "\<forall>k \<in> set ks. fmlookup m k \<noteq> None \<Longrightarrow> length (range_vals m ks) = length ks"
  by (induction ks) auto

lemma range_vals_cong:
  "\<forall>k \<in> set ks. fmlookup m k = fmlookup m' k \<Longrightarrow> range_vals m ks = range_vals m' ks"
  by (induction ks) (auto split: option.splits)

lemma map_filter_iff: "y \<in> set (List.map_filter f xs) \<longleftrightarrow> (\<exists>x \<in> set xs. f x = Some y)"
  by (induction xs) (auto simp: map_filter_simps split: option.splits)

lemma range_order_fmempty [simp]: "range_order fmempty ks \<longleftrightarrow> ks = []"
  by (cases ks) (auto simp: range_order_def)

section \<open>Clocks\<close>

type_synonym gotime = int
type_synonym duration = int

abbreviation max_duration :: duration where "max_duration \<equiv> 9223372036854775807"
abbreviation min_duration :: duration where "min_duration \<equiv> - 9223372036854775808"
abbreviation second :: duration where "second \<equiv> 1000000000"
abbreviation minute :: duration where "minute \<equiv> 60000000000"

definition time_sub :: "gotime \<Rightarrow> gotime \<Rightarrow> duration" where
  "time_sub t u = max min_duration (min max_duration (t - u))"

definition is_zero_time :: "gotime \<Rightarrow> bool" where
  "is_zero_time t \<longleftrightarrow> t = 0"

lemma time_sub_ge: "d \<le> max_duration \<Longrightarrow> min_duration < d \<Longrightarrow> time_sub t u \<ge> d \<longleftrightarrow> t - u \<ge> d"
  by (auto simp: time_sub_def)

section \<open>Strings\<close>

definition is_space :: "char \<Rightarrow> bool" where
  "is_space c \<longleftrightarrow> c \<in> {CHR '' '', CHR 0x09, CHR 0x0A, CHR 0x0B, CHR 0x0C, CHR 0x0D}"

definition lower_char :: "char \<Rightarrow> char" where
  "lower_char c = (if 65 \<le> (of_char c :: nat) \<and> (of_char c :: nat) \<le> 90
                   then char_of ((of_char c :: nat) + 32) else c)"

definition to_lower :: "string \<Rightarrow> string" where
  "to_lower = map lower_char"

definition trim_right_if :: "(char \<Rightarrow> bool) \<Rightarrow> string \<Rightarrow> string" where
  "trim_right_if p s = rev (dropWhile p (rev s))"

definition trim_if :: "(char \<Rightarrow> bool) \<Rightarrow> string \<Rightarrow> string" where
  "trim_if p s = trim_right_if p (dropWhile p s)"

definition trim_space :: "string \<Rightarrow> string" where
  "trim_space = trim_if is_space"

definition has_prefix :: "string \<Rightarrow> string \<Rightarrow> bool" where
  "has_prefix s p \<longleftrightarrow> take (length p) s = p"

definition has_suffix :: "string \<Rightarrow> string \<Rightarrow> bool" where
  "has_suffix s p \<longleftrightarrow> has_prefix (rev s) (rev p)"

definition trim_prefix :: "string \<Rightarrow> string \<Rightarrow> string" where
  "trim_prefix s p = (if has_prefix s p then drop (length p) s else s)"

definition trim_suffix :: "string \<Rightarrow> string \<Rightarrow> string" where
  "trim_suffix s p = (if has_suffix s p then take (length s - length p) s else s)"

fun split_on :: "char \<Rightarrow> string \<Rightarrow> string list" where
  "split_on d [] = [[]]"
| "split_on d (c # cs) =
     (if c = d then [] # split_on d cs
      else (case split_on d cs of [] \<Rightarrow> [[c]] | w # ws \<Rightarrow> (c # w) # ws))"

text \<open>A natural number in decimal, as \<open>%d\<close> prints it.\<close>

fun nat_str :: "nat \<Rightarrow> string" where
  "nat_str n = (if n < 10 then [char_of (48 + n)] else nat_str (n div 10) @ [char_of (48 + n mod 10)])"

declare nat_str.simps [simp del]

text \<open>\<open>strconv.Itoa\<close>.\<close>

definition int_str :: "int \<Rightarrow> string" where
  "int_str i = (if i < 0 then CHR ''-'' # nat_str (nat (- i)) else nat_str (nat i))"

lemma of_char_lower_char:
  "(of_char (lower_char c) :: nat) =
     (if 65 \<le> (of_char c :: nat) \<and> (of_char c :: nat) \<le> 90 then of_char c + 32 else of_char c)"
  by (auto simp: lower_char_def)

lemma lower_char_idem [simp, str_simps]: "lower_char (lower_char c) = lower_char c"
proof (cases "65 \<le> (of_char c :: nat) \<and> (of_char c :: nat) \<le> 90")
  case True
  then have "(of_char (lower_char c) :: nat) = of_char c + 32"
    by (simp add: of_char_lower_char)
  with True have "\<not> (of_char (lower_char c) :: nat) \<le> 90" by linarith
  then show ?thesis by (simp add: lower_char_def [of "lower_char c"])
next
  case False
  then show ?thesis by (auto simp: lower_char_def)
qed

lemma to_lower_idem [simp, str_simps]: "to_lower (to_lower s) = to_lower s"
  by (simp add: to_lower_def)

lemma to_lower_Nil [simp, str_simps]: "to_lower s = [] \<longleftrightarrow> s = []"
  by (simp add: to_lower_def)

lemma to_lower_append [simp, str_simps]: "to_lower (s @ t) = to_lower s @ to_lower t"
  by (simp add: to_lower_def)

lemma to_lower_id: "\<forall>c \<in> set s. lower_char c = c \<Longrightarrow> to_lower s = s"
  by (induction s) (auto simp: to_lower_def)

lemma dropWhile_id: "(s = [] \<or> \<not> p (hd s)) \<Longrightarrow> dropWhile p s = s"
  by (cases s) auto

lemma trim_right_if_id: "(s = [] \<or> \<not> p (last s)) \<Longrightarrow> trim_right_if p s = s"
  by (cases s rule: rev_cases) (auto simp: trim_right_if_def)

lemma trim_if_id:
  assumes "s = [] \<or> (\<not> p (hd s) \<and> \<not> p (last s))"
  shows "trim_if p s = s"
  using assms by (auto simp: trim_if_def dropWhile_id trim_right_if_id)

lemma trim_if_ends:
  "trim_if p s = [] \<or> (\<not> p (hd (trim_if p s)) \<and> \<not> p (last (trim_if p s)))"
proof -
  define t where "t = dropWhile p s"
  have hdt: "t = [] \<or> \<not> p (hd t)"
    using hd_dropWhile [of p s] by (auto simp: t_def)
  define u where "u = dropWhile p (rev t)"
  have u: "trim_if p s = rev u" by (simp add: trim_if_def trim_right_if_def t_def u_def)
  show ?thesis
  proof (cases "u = []")
    case True
    then show ?thesis using u by simp
  next
    case False
    then have "\<not> p (hd u)" using hd_dropWhile [of p "rev t"] by (auto simp: u_def)
    moreover have "last u = hd t"
    proof -
      have "rev t = takeWhile p (rev t) @ u" by (simp add: u_def)
      then have "last (rev t) = last u" using False by (metis last_appendR)
      then show ?thesis by (metis last_rev)
    qed
    moreover have "t \<noteq> []" using False by (auto simp: u_def)
    ultimately show ?thesis using u False hdt by (simp add: hd_rev last_rev)
  qed
qed

lemma trim_if_idem [simp, str_simps]: "trim_if p (trim_if p s) = trim_if p s"
  using trim_if_ends [of p s] by (rule trim_if_id)

lemma trim_space_idem [simp, str_simps]: "trim_space (trim_space s) = trim_space s"
  by (simp add: trim_space_def)

lemma set_trim_if: "set (trim_if p s) \<subseteq> set s"
  by (auto simp: trim_if_def trim_right_if_def dest!: set_dropWhileD)

lemma split_on_nonempty [simp]: "split_on d s \<noteq> []"
  by (induction s) (auto split: list.splits)

lemma split_on_no: "d \<notin> set s \<Longrightarrow> split_on d s = [s]"
  by (induction s) auto

lemma split_on_append:
  "d \<notin> set s \<Longrightarrow> split_on d (s @ d # t) = s # split_on d t"
  by (induction s) auto

lemma split_on_parts: "w \<in> set (split_on d s) \<Longrightarrow> set w \<subseteq> set s - {d}"
proof (induction s arbitrary: w)
  case Nil
  then show ?case by simp
next
  case (Cons c s)
  show ?case
  proof (cases "c = d")
    case True
    with Cons show ?thesis by fastforce
  next
    case False
    obtain v vs where v: "split_on d s = v # vs" by (meson split_on_nonempty neq_Nil_conv)
    with Cons False show ?thesis by fastforce
  qed
qed

lemma set_split_on: "set s \<subseteq> insert d (\<Union> (set ` set (split_on d s)))"
proof (induction s)
  case Nil
  then show ?case by simp
next
  case (Cons c s)
  obtain v vs where v: "split_on d s = v # vs" by (meson split_on_nonempty neq_Nil_conv)
  with Cons show ?case by auto
qed

section \<open>Sorting\<close>

text \<open>
  \<open>sort.Slice\<close> with a \<open>less\<close> function, as the insertion sort Go runs on short slices.
  Its contract is a permutation that is sorted by \<open>less\<close>; equal elements may come in any
  order, and here they come in the order of the input, which for a slice filled from a map is
  the (arbitrary) iteration order.
\<close>

fun sort_insert :: "('a \<Rightarrow> 'a \<Rightarrow> bool) \<Rightarrow> 'a \<Rightarrow> 'a list \<Rightarrow> 'a list" where
  "sort_insert lt x [] = [x]"
| "sort_insert lt x (y # ys) = (if lt y x then y # sort_insert lt x ys else x # y # ys)"

fun sort_slice :: "('a \<Rightarrow> 'a \<Rightarrow> bool) \<Rightarrow> 'a list \<Rightarrow> 'a list" where
  "sort_slice lt [] = []"
| "sort_slice lt (x # xs) = sort_insert lt x (sort_slice lt xs)"

definition weak_order :: "('a \<Rightarrow> 'a \<Rightarrow> bool) \<Rightarrow> bool" where
  "weak_order lt \<longleftrightarrow> (\<forall>x y. lt x y \<longrightarrow> \<not> lt y x)
     \<and> (\<forall>x y z. \<not> lt x y \<longrightarrow> \<not> lt y z \<longrightarrow> \<not> lt x z)"

lemma weak_orderI:
  assumes "\<And>x y. lt x y \<Longrightarrow> \<not> lt y x"
    and "\<And>x y z. \<not> lt x y \<Longrightarrow> \<not> lt y z \<Longrightarrow> \<not> lt x z"
  shows "weak_order lt"
  using assms unfolding weak_order_def by blast

lemma weak_order_asym: "weak_order lt \<Longrightarrow> lt x y \<Longrightarrow> \<not> lt y x"
  unfolding weak_order_def by blast

lemma weak_order_trans: "weak_order lt \<Longrightarrow> \<not> lt x y \<Longrightarrow> \<not> lt y z \<Longrightarrow> \<not> lt x z"
  unfolding weak_order_def by blast

lemma weak_order_key: "weak_order (\<lambda>x y. (f x :: 'b :: linorder) < f y)"
  by (rule weak_orderI) (auto intro: less_le_trans)

lemma mset_sort_insert [simp]: "mset (sort_insert lt x xs) = {#x#} + mset xs"
  by (induction xs) auto

lemma mset_sort_slice [simp]: "mset (sort_slice lt xs) = mset xs"
  by (induction xs) auto

lemma set_sort_insert [simp]: "set (sort_insert lt x xs) = insert x (set xs)"
  by (induction xs) auto

lemma set_sort_slice [simp]: "set (sort_slice lt xs) = set xs"
  using arg_cong [OF mset_sort_slice [of lt xs], of set_mset] by (simp only: set_mset_mset)

lemma length_sort_slice [simp]: "length (sort_slice lt xs) = length xs"
  using arg_cong [OF mset_sort_slice [of lt xs], of size] by (simp only: size_mset)

lemma sort_slice_Nil [simp]: "sort_slice lt xs = [] \<longleftrightarrow> xs = []"
  using length_sort_slice [of lt xs] by (metis length_0_conv)

lemma sorted_sort_insert:
  assumes w: "weak_order lt" and "sorted_wrt (\<lambda>a b. \<not> lt b a) xs"
  shows "sorted_wrt (\<lambda>a b. \<not> lt b a) (sort_insert lt x xs)"
  using assms(2)
proof (induction xs)
  case Nil
  then show ?case by simp
next
  case (Cons y ys)
  show ?case
  proof (cases "lt y x")
    case True
    then have "\<not> lt x y" by (rule weak_order_asym [OF w])
    with True Cons show ?thesis by simp
  next
    case False
    have "\<not> lt b x" if "b \<in> set ys" for b
      using weak_order_trans [OF w, of b y x] that Cons.prems False by simp
    with False Cons.prems show ?thesis by simp
  qed
qed

lemma sorted_sort_slice:
  "weak_order lt \<Longrightarrow> sorted_wrt (\<lambda>a b. \<not> lt b a) (sort_slice lt xs)"
  by (induction xs) (auto intro: sorted_sort_insert)

text \<open>
  What a client of \<open>sort.Slice\<close> may rely on, as an interface: any sorting function with this
  contract puts an element first that no other precedes.
\<close>

locale slice_sorter =
  fixes srt :: "('a \<Rightarrow> 'a \<Rightarrow> bool) \<Rightarrow> 'a list \<Rightarrow> 'a list"
  assumes srt_perm: "mset (srt lt xs) = mset xs"
    and srt_sorted: "weak_order lt \<Longrightarrow> sorted_wrt (\<lambda>a b. \<not> lt b a) (srt lt xs)"
begin

lemma srt_set: "set (srt lt xs) = set xs"
  using arg_cong [OF srt_perm [of lt xs], of set_mset] by (simp only: set_mset_mset)

lemma srt_hd_least:
  assumes "weak_order lt" and "srt lt xs = y # ys"
  shows "y \<in> set xs \<and> (\<forall>x \<in> set xs. \<not> lt x y)"
proof -
  have "set (y # ys) = set xs" using srt_set [of lt xs] assms(2) by simp
  moreover have "\<forall>x \<in> set ys. \<not> lt x y" using srt_sorted [OF assms(1), of xs] assms(2) by simp
  moreover have "\<not> lt y y" using weak_order_asym [OF assms(1)] by blast
  ultimately show ?thesis by auto
qed

text \<open>The first element of a sorted slice that passes a test precedes every other that does.\<close>

lemma srt_find_least:
  assumes w: "weak_order lt" and f: "find P (srt lt xs) = Some y"
  shows "y \<in> set xs \<and> P y \<and> (\<forall>x \<in> set xs. P x \<longrightarrow> \<not> lt x y)"
proof -
  obtain i where i: "i < length (srt lt xs)" "P (srt lt xs ! i)" "y = srt lt xs ! i"
    and before: "\<forall>j < i. \<not> P (srt lt xs ! j)"
    using f by (auto simp: find_Some_iff)
  have le: "\<not> lt x y" if x: "x \<in> set xs" and "P x" for x
  proof -
    have "x \<in> set (srt lt xs)" using x by (simp add: srt_set)
    then obtain j where j: "j < length (srt lt xs)" "srt lt xs ! j = x"
      by (auto simp: in_set_conv_nth)
    then have "i \<le> j" using before \<open>P x\<close> by (meson not_le)
    show ?thesis
    proof (cases "i = j")
      case True
      then show ?thesis using i(3) j(2) weak_order_asym [OF w] by blast
    next
      case False
      then have "i < j" using \<open>i \<le> j\<close> by simp
      then show ?thesis using srt_sorted [OF w, of xs] i j by (metis sorted_wrt_iff_nth_less)
    qed
  qed
  moreover have "y \<in> set xs" using i by (metis nth_mem srt_set)
  ultimately show ?thesis using i by auto
qed

text \<open>Sorting by a key that does not repeat gives a strictly increasing slice.\<close>

lemma srt_strict:
  fixes f :: "'a \<Rightarrow> 'b :: linorder"
  assumes "distinct (map f xs)"
  shows "sorted_wrt (\<lambda>a b. f a < f b) (srt (\<lambda>a b. f a < f b) xs)"
proof -
  let ?ys = "srt (\<lambda>a b. f a < f b) xs"
  have "mset (map f ?ys) = mset (map f xs)" by (simp add: srt_perm)
  then have d: "distinct (map f ?ys)" using assms by (metis mset_eq_imp_distinct_iff)
  have "f (?ys ! i) < f (?ys ! j)" if "i < j" "j < length ?ys" for i j
  proof -
    have "\<not> f (?ys ! j) < f (?ys ! i)"
      using srt_sorted [OF weak_order_key [of f], of xs] that by (simp add: sorted_wrt_iff_nth_less)
    moreover have "f (?ys ! i) \<noteq> f (?ys ! j)"
      using d that by (auto simp: distinct_conv_nth)
    ultimately show ?thesis by simp
  qed
  then show ?thesis by (simp add: sorted_wrt_iff_nth_less)
qed

end

interpretation go_sort: slice_sorter sort_slice
  by unfold_locales (auto intro: sorted_sort_slice)

end
