(* ===== verification/Messages.thy ===== *)
theory Messages
  imports Go_Prelude
begin

text \<open>
  The messages of the NexTunnel control channel (\<open>pkg/protocol/message.go\<close>): the type byte,
  one record per payload struct (the fields carry the struct's Go names after a two-letter
  prefix), the factory functions and \<open>DecodePayload\<close>. The JSON text of a payload is
  produced and read by \<open>encoding/json\<close>: \<open>marshal\<close> and \<open>unmarshal\<close> are
  arguments of the operations that call it, \<open>unmarshal\<close> getting the struct it decodes into.
\<close>

type_synonym byte = "8 word"
type_synonym MsgType = "8 word"

section \<open>Message types\<close>

abbreviation TypeAuth :: MsgType where "TypeAuth \<equiv> 0x01"
abbreviation TypeAuthResp :: MsgType where "TypeAuthResp \<equiv> 0x02"
abbreviation TypeNewProxy :: MsgType where "TypeNewProxy \<equiv> 0x03"
abbreviation TypeNewProxyResp :: MsgType where "TypeNewProxyResp \<equiv> 0x04"
abbreviation TypeCloseProxy :: MsgType where "TypeCloseProxy \<equiv> 0x05"
abbreviation TypeStartWorkConn :: MsgType where "TypeStartWorkConn \<equiv> 0x06"
abbreviation TypeWorkConn :: MsgType where "TypeWorkConn \<equiv> 0x07"
abbreviation TypeHeartbeat :: MsgType where "TypeHeartbeat \<equiv> 0x08"
abbreviation TypeHeartbeatResp :: MsgType where "TypeHeartbeatResp \<equiv> 0x09"
abbreviation TypeNATDetectReq :: MsgType where "TypeNATDetectReq \<equiv> 0x0A"
abbreviation TypeNATDetectResp :: MsgType where "TypeNATDetectResp \<equiv> 0x0B"
abbreviation TypeP2POffer :: MsgType where "TypeP2POffer \<equiv> 0x0C"
abbreviation TypeP2PAnswer :: MsgType where "TypeP2PAnswer \<equiv> 0x0D"
abbreviation TypeP2PClose :: MsgType where "TypeP2PClose \<equiv> 0x10"
abbreviation TypeMeshJoin :: MsgType where "TypeMeshJoin \<equiv> 0x11"
abbreviation TypeMeshPeerList :: MsgType where "TypeMeshPeerList \<equiv> 0x12"
abbreviation TypeMeshLeave :: MsgType where "TypeMeshLeave \<equiv> 0x13"
abbreviation TypeMeshPing :: MsgType where "TypeMeshPing \<equiv> 0x14"
abbreviation TypeMeshPong :: MsgType where "TypeMeshPong \<equiv> 0x15"
abbreviation TypeQUICOffer :: MsgType where "TypeQUICOffer \<equiv> 0x16"
abbreviation TypeQUICAnswer :: MsgType where "TypeQUICAnswer \<equiv> 0x17"
abbreviation TypeSchedulerSwitch :: MsgType where "TypeSchedulerSwitch \<equiv> 0x18"
abbreviation TypeSchedulerLock :: MsgType where "TypeSchedulerLock \<equiv> 0x19"
abbreviation TypeProbeRequest :: MsgType where "TypeProbeRequest \<equiv> 0x1A"
abbreviation TypeProbeResponse :: MsgType where "TypeProbeResponse \<equiv> 0x1B"
abbreviation TypeRelayQUICOffer :: MsgType where "TypeRelayQUICOffer \<equiv> 0x1C"

definition ProtocolVersion :: "8 word" where
  "ProtocolVersion = 1"

record Message =
  Type :: MsgType
  Payload :: "byte list"

section \<open>Payloads\<close>

record AuthMessage =
  am_Version :: "8 word"
  am_ClientID :: string
  am_AuthToken :: string

record AuthRespMessage =
  ar_Success :: bool
  ar_Error :: string

record NewProxyMessage =
  np_ProxyName :: string
  np_ProxyType :: string
  np_LocalAddr :: string
  np_RemotePort :: "16 word"
  np_Domain :: string
  np_HostHeader :: string
  np_UseHTTPS :: bool
  np_PublicURL :: string
  np_AccessPolicyID :: string
  np_InspectEnabled :: bool
  np_ExpiresAt :: string

record NewProxyRespMessage =
  nr_ProxyName :: string
  nr_Success :: bool
  nr_RemotePort :: "16 word"
  nr_PublicURL :: string
  nr_Error :: string

record CloseProxyMessage =
  cp_ProxyName :: string

record StartWorkConnMessage =
  sw_ProxyName :: string
  sw_SessionID :: string

record WorkConnMessage =
  wc_ProxyName :: string
  wc_SessionID :: string
  wc_AuthToken :: string

record ICECandidateJSON =
  ic_ID :: string
  ic_Type :: string
  ic_Addr :: string
  ic_Priority :: "32 word"
  ic_Foundation :: string

record NATDetectReqMessage =
  nq_ClientID :: string

record NATDetectRespMessage =
  nd_NATType :: string
  nd_PublicAddr :: string
  nd_MappedPort :: "16 word"

record P2POfferMessage =
  po_SessionID :: string
  po_FromClientID :: string
  po_ToClientID :: string
  po_Candidates :: "ICECandidateJSON list"
  po_NATType :: string
  po_WGPublicKey :: string

record P2PAnswerMessage =
  pa_SessionID :: string
  pa_FromClientID :: string
  pa_ToClientID :: string
  pa_Candidates :: "ICECandidateJSON list"
  pa_NATType :: string
  pa_WGPublicKey :: string
  pa_Accept :: bool
  pa_Reason :: string

record P2PCloseMessage =
  pc_SessionID :: string
  pc_Reason :: string

record MeshPeerJSON =
  mp_ClientID :: string
  mp_NATType :: string
  mp_WGPubKey :: string
  mp_Subnet :: string

record MeshJoinMessage =
  mj_ClientID :: string
  mj_WGPubKey :: string
  mj_NATType :: string
  mj_Subnet :: string

record MeshPeerListMessage =
  ml_Peers :: "MeshPeerJSON list"

record MeshLeaveMessage =
  mv_ClientID :: string

record MeshPingMessage =
  mi_FromClientID :: string
  mi_ToClientID :: string

record MeshPongMessage =
  mo_FromClientID :: string
  mo_ToClientID :: string

record QUICOfferMessage =
  qo_SessionID :: string
  qo_FromClientID :: string
  qo_ToClientID :: string
  qo_ListenAddr :: string
  qo_ALPN :: string

record QUICAnswerMessage =
  qa_SessionID :: string
  qa_FromClientID :: string
  qa_ToClientID :: string
  qa_ListenAddr :: string
  qa_Accept :: bool
  qa_Reason :: string

record SchedulerSwitchMessage =
  ss_SessionID :: string
  ss_OldPathType :: string
  ss_NewPathType :: string

record SchedulerLockMessage =
  sl_SessionID :: string
  sl_PathType :: string
  sl_Locked :: bool

record ProbeRequestMessage =
  pq_FromClientID :: string
  pq_ToClientID :: string
  pq_PathType :: string
  pq_SeqNum :: "16 word"
  pq_TimestampNs :: "64 word"

record ProbeResponseMessage =
  pr_FromClientID :: string
  pr_ToClientID :: string
  pr_PathType :: string
  pr_SeqNum :: "16 word"
  pr_TimestampNs :: "64 word"

record RelayQUICOfferMessage =
  rq_SessionID :: string
  rq_RelayAddr :: string
  rq_ProxyName :: string
  rq_ClientID :: string

text \<open>The struct a message type stands for, and a decoded payload.\<close>

datatype payload_kind =
    KAuth
  | KAuthResp
  | KNewProxy
  | KNewProxyResp
  | KCloseProxy
  | KStartWorkConn
  | KWorkConn
  | KNATDetectReq
  | KNATDetectResp
  | KP2POffer
  | KP2PAnswer
  | KP2PClose
  | KMeshJoin
  | KMeshPeerList
  | KMeshLeave
  | KMeshPing
  | KMeshPong
  | KQUICOffer
  | KQUICAnswer
  | KSchedulerSwitch
  | KSchedulerLock
  | KProbeRequest
  | KProbeResponse
  | KRelayQUICOffer

datatype payload =
    PAuth AuthMessage
  | PAuthResp AuthRespMessage
  | PNewProxy NewProxyMessage
  | PNewProxyResp NewProxyRespMessage
  | PCloseProxy CloseProxyMessage
  | PStartWorkConn StartWorkConnMessage
  | PWorkConn WorkConnMessage
  | PNATDetectReq NATDetectReqMessage
  | PNATDetectResp NATDetectRespMessage
  | PP2POffer P2POfferMessage
  | PP2PAnswer P2PAnswerMessage
  | PP2PClose P2PCloseMessage
  | PMeshJoin MeshJoinMessage
  | PMeshPeerList MeshPeerListMessage
  | PMeshLeave MeshLeaveMessage
  | PMeshPing MeshPingMessage
  | PMeshPong MeshPongMessage
  | PQUICOffer QUICOfferMessage
  | PQUICAnswer QUICAnswerMessage
  | PSchedulerSwitch SchedulerSwitchMessage
  | PSchedulerLock SchedulerLockMessage
  | PProbeRequest ProbeRequestMessage
  | PProbeResponse ProbeResponseMessage
  | PRelayQUICOffer RelayQUICOfferMessage

fun kind_of :: "payload \<Rightarrow> payload_kind" where
  "kind_of (PAuth v) = KAuth"
| "kind_of (PAuthResp v) = KAuthResp"
| "kind_of (PNewProxy v) = KNewProxy"
| "kind_of (PNewProxyResp v) = KNewProxyResp"
| "kind_of (PCloseProxy v) = KCloseProxy"
| "kind_of (PStartWorkConn v) = KStartWorkConn"
| "kind_of (PWorkConn v) = KWorkConn"
| "kind_of (PNATDetectReq v) = KNATDetectReq"
| "kind_of (PNATDetectResp v) = KNATDetectResp"
| "kind_of (PP2POffer v) = KP2POffer"
| "kind_of (PP2PAnswer v) = KP2PAnswer"
| "kind_of (PP2PClose v) = KP2PClose"
| "kind_of (PMeshJoin v) = KMeshJoin"
| "kind_of (PMeshPeerList v) = KMeshPeerList"
| "kind_of (PMeshLeave v) = KMeshLeave"
| "kind_of (PMeshPing v) = KMeshPing"
| "kind_of (PMeshPong v) = KMeshPong"
| "kind_of (PQUICOffer v) = KQUICOffer"
| "kind_of (PQUICAnswer v) = KQUICAnswer"
| "kind_of (PSchedulerSwitch v) = KSchedulerSwitch"
| "kind_of (PSchedulerLock v) = KSchedulerLock"
| "kind_of (PProbeRequest v) = KProbeRequest"
| "kind_of (PProbeResponse v) = KProbeResponse"
| "kind_of (PRelayQUICOffer v) = KRelayQUICOffer"

fun type_of_kind :: "payload_kind \<Rightarrow> MsgType" where
  "type_of_kind KAuth = TypeAuth"
| "type_of_kind KAuthResp = TypeAuthResp"
| "type_of_kind KNewProxy = TypeNewProxy"
| "type_of_kind KNewProxyResp = TypeNewProxyResp"
| "type_of_kind KCloseProxy = TypeCloseProxy"
| "type_of_kind KStartWorkConn = TypeStartWorkConn"
| "type_of_kind KWorkConn = TypeWorkConn"
| "type_of_kind KNATDetectReq = TypeNATDetectReq"
| "type_of_kind KNATDetectResp = TypeNATDetectResp"
| "type_of_kind KP2POffer = TypeP2POffer"
| "type_of_kind KP2PAnswer = TypeP2PAnswer"
| "type_of_kind KP2PClose = TypeP2PClose"
| "type_of_kind KMeshJoin = TypeMeshJoin"
| "type_of_kind KMeshPeerList = TypeMeshPeerList"
| "type_of_kind KMeshLeave = TypeMeshLeave"
| "type_of_kind KMeshPing = TypeMeshPing"
| "type_of_kind KMeshPong = TypeMeshPong"
| "type_of_kind KQUICOffer = TypeQUICOffer"
| "type_of_kind KQUICAnswer = TypeQUICAnswer"
| "type_of_kind KSchedulerSwitch = TypeSchedulerSwitch"
| "type_of_kind KSchedulerLock = TypeSchedulerLock"
| "type_of_kind KProbeRequest = TypeProbeRequest"
| "type_of_kind KProbeResponse = TypeProbeResponse"
| "type_of_kind KRelayQUICOffer = TypeRelayQUICOffer"

section \<open>Errors\<close>

datatype proto_error =
    EOF
  | UnexpectedEOF
  | ErrPayloadTooLarge
  | ErrUnknownMsgType
  | ErrConnClosed
  | ErrJSON
  | ErrIO

section \<open>Decoding\<close>

text \<open>The switch of \<open>DecodePayload\<close>: which struct each type byte decodes into.\<close>

definition kind_of_type :: "MsgType \<Rightarrow> payload_kind option" where
  "kind_of_type t =
     (if t = TypeAuth then Some KAuth else
     (if t = TypeAuthResp then Some KAuthResp else
     (if t = TypeNewProxy then Some KNewProxy else
     (if t = TypeNewProxyResp then Some KNewProxyResp else
     (if t = TypeCloseProxy then Some KCloseProxy else
     (if t = TypeStartWorkConn then Some KStartWorkConn else
     (if t = TypeWorkConn then Some KWorkConn else
     (if t = TypeNATDetectReq then Some KNATDetectReq else
     (if t = TypeNATDetectResp then Some KNATDetectResp else
     (if t = TypeP2POffer then Some KP2POffer else
     (if t = TypeP2PAnswer then Some KP2PAnswer else
     (if t = TypeP2PClose then Some KP2PClose else
     (if t = TypeMeshJoin then Some KMeshJoin else
     (if t = TypeMeshPeerList then Some KMeshPeerList else
     (if t = TypeMeshLeave then Some KMeshLeave else
     (if t = TypeMeshPing then Some KMeshPing else
     (if t = TypeMeshPong then Some KMeshPong else
     (if t = TypeQUICOffer then Some KQUICOffer else
     (if t = TypeQUICAnswer then Some KQUICAnswer else
     (if t = TypeSchedulerSwitch then Some KSchedulerSwitch else
     (if t = TypeSchedulerLock then Some KSchedulerLock else
     (if t = TypeProbeRequest then Some KProbeRequest else
     (if t = TypeProbeResponse then Some KProbeResponse else
     (if t = TypeRelayQUICOffer then Some KRelayQUICOffer else
      None))))))))))))))))))))))))"

definition DecodePayload ::
    "(payload_kind \<Rightarrow> byte list \<Rightarrow> payload option) \<Rightarrow> Message \<Rightarrow> proto_error + payload option" where
  "DecodePayload unmarshal m =
     (if Type m = TypeHeartbeat \<or> Type m = TypeHeartbeatResp then Inr None
      else (case kind_of_type (Type m) of
              None \<Rightarrow> Inl ErrUnknownMsgType
            | Some k \<Rightarrow> (case unmarshal k (Payload m) of
                           None \<Rightarrow> Inl ErrJSON
                         | Some v \<Rightarrow> Inr (Some v))))"

section \<open>Factories\<close>

type_synonym json_marshal = "payload \<Rightarrow> byte list option"

definition marshalMessage :: "json_marshal \<Rightarrow> MsgType \<Rightarrow> payload \<Rightarrow> proto_error + Message" where
  "marshalMessage marshal t v =
     (case marshal v of None \<Rightarrow> Inl ErrJSON | Some data \<Rightarrow> Inr \<lparr>Type = t, Payload = data\<rparr>)"

definition NewAuthMessageWithToken ::
    "json_marshal \<Rightarrow> string \<Rightarrow> string \<Rightarrow> proto_error +
      Message" where
  "NewAuthMessageWithToken marshal clientID authToken =
     marshalMessage marshal TypeAuth (PAuth \<lparr>am_Version = ProtocolVersion, am_ClientID
     = clientID, am_AuthToken = authToken\<rparr>)"

definition NewAuthMessage :: "json_marshal \<Rightarrow> string \<Rightarrow> proto_error + Message" where
  "NewAuthMessage marshal clientID = NewAuthMessageWithToken marshal clientID []"

definition NewAuthRespMessage ::
    "json_marshal \<Rightarrow> bool \<Rightarrow> string \<Rightarrow> proto_error + Message" where
  "NewAuthRespMessage marshal success errMsg =
     marshalMessage marshal TypeAuthResp (PAuthResp \<lparr>ar_Success = success, ar_Error =
     errMsg\<rparr>)"

definition NewNewProxyMessage ::
    "json_marshal \<Rightarrow> string \<Rightarrow> string \<Rightarrow> string
      \<Rightarrow> 16 word \<Rightarrow> proto_error + Message" where
  "NewNewProxyMessage marshal name proxyType localAddr remotePort =
     marshalMessage marshal TypeNewProxy (PNewProxy \<lparr>np_ProxyName = name, np_ProxyType
     = proxyType, np_LocalAddr = localAddr, np_RemotePort = remotePort, np_Domain = [],
     np_HostHeader = [], np_UseHTTPS = False, np_PublicURL = [], np_AccessPolicyID = [],
     np_InspectEnabled = False, np_ExpiresAt = []\<rparr>)"

definition NewHTTPProxyMessage ::
    "json_marshal \<Rightarrow> string \<Rightarrow> string \<Rightarrow> 16 word
      \<Rightarrow> string \<Rightarrow> string \<Rightarrow> bool \<Rightarrow> proto_error +
      Message" where
  "NewHTTPProxyMessage marshal name localAddr remotePort domain hostHeader useHTTPS =
     marshalMessage marshal TypeNewProxy (PNewProxy \<lparr>np_ProxyName = name, np_ProxyType
     = ''http'', np_LocalAddr = localAddr, np_RemotePort = remotePort, np_Domain = domain,
     np_HostHeader = hostHeader, np_UseHTTPS = useHTTPS, np_PublicURL = [], np_AccessPolicyID
     = [], np_InspectEnabled = False, np_ExpiresAt = []\<rparr>)"

definition NewHTTPProxyMessageWithEndpoint ::
    "json_marshal \<Rightarrow> string \<Rightarrow> string \<Rightarrow> 16 word
      \<Rightarrow> string \<Rightarrow> string \<Rightarrow> bool \<Rightarrow> string
      \<Rightarrow> string \<Rightarrow> bool \<Rightarrow> string \<Rightarrow> proto_error +
      Message" where
  "NewHTTPProxyMessageWithEndpoint marshal name localAddr remotePort domain hostHeader useHTTPS publicURL accessPolicyID inspectEnabled expiresAt =
     marshalMessage marshal TypeNewProxy (PNewProxy \<lparr>np_ProxyName = name, np_ProxyType
     = ''http'', np_LocalAddr = localAddr, np_RemotePort = remotePort, np_Domain = domain,
     np_HostHeader = hostHeader, np_UseHTTPS = useHTTPS, np_PublicURL = publicURL,
     np_AccessPolicyID = accessPolicyID, np_InspectEnabled = inspectEnabled, np_ExpiresAt =
     expiresAt\<rparr>)"

definition NewNewProxyRespMessageWithURL ::
    "json_marshal \<Rightarrow> string \<Rightarrow> bool \<Rightarrow> 16 word \<Rightarrow>
      string \<Rightarrow> string \<Rightarrow> proto_error + Message" where
  "NewNewProxyRespMessageWithURL marshal name success remotePort publicURL errMsg =
     marshalMessage marshal TypeNewProxyResp (PNewProxyResp \<lparr>nr_ProxyName = name,
     nr_Success = success, nr_RemotePort = remotePort, nr_PublicURL = publicURL, nr_Error =
     errMsg\<rparr>)"

definition NewNewProxyRespMessage ::
    "json_marshal \<Rightarrow> string \<Rightarrow> bool \<Rightarrow> 16 word \<Rightarrow>
      string \<Rightarrow> proto_error + Message" where
  "NewNewProxyRespMessage marshal name success remotePort errMsg =
     marshalMessage marshal TypeNewProxyResp (PNewProxyResp \<lparr>nr_ProxyName = name,
     nr_Success = success, nr_RemotePort = remotePort, nr_PublicURL = [], nr_Error =
     errMsg\<rparr>)"

definition NewCloseProxyMessage ::
    "json_marshal \<Rightarrow> string \<Rightarrow> proto_error + Message" where
  "NewCloseProxyMessage marshal name =
     marshalMessage marshal TypeCloseProxy (PCloseProxy \<lparr>cp_ProxyName = name\<rparr>)"

definition NewStartWorkConnMessage ::
    "json_marshal \<Rightarrow> string \<Rightarrow> string \<Rightarrow> proto_error +
      Message" where
  "NewStartWorkConnMessage marshal proxyName sessionID =
     marshalMessage marshal TypeStartWorkConn (PStartWorkConn \<lparr>sw_ProxyName =
     proxyName, sw_SessionID = sessionID\<rparr>)"

definition NewWorkConnMessageWithToken ::
    "json_marshal \<Rightarrow> string \<Rightarrow> string \<Rightarrow> string
      \<Rightarrow> proto_error + Message" where
  "NewWorkConnMessageWithToken marshal proxyName sessionID authToken =
     marshalMessage marshal TypeWorkConn (PWorkConn \<lparr>wc_ProxyName = proxyName,
     wc_SessionID = sessionID, wc_AuthToken = authToken\<rparr>)"

definition NewWorkConnMessage ::
    "json_marshal \<Rightarrow> string \<Rightarrow> string \<Rightarrow> proto_error + Message" where
  "NewWorkConnMessage marshal proxyName sessionID =
     NewWorkConnMessageWithToken marshal proxyName sessionID []"

definition NewHeartbeat :: Message where
  "NewHeartbeat = \<lparr>Type = TypeHeartbeat, Payload = []\<rparr>"

definition NewHeartbeatResp :: Message where
  "NewHeartbeatResp = \<lparr>Type = TypeHeartbeatResp, Payload = []\<rparr>"

definition NewNATDetectReqMessage ::
    "json_marshal \<Rightarrow> string \<Rightarrow> proto_error + Message" where
  "NewNATDetectReqMessage marshal clientID =
     marshalMessage marshal TypeNATDetectReq (PNATDetectReq \<lparr>nq_ClientID =
     clientID\<rparr>)"

definition NewNATDetectRespMessage ::
    "json_marshal \<Rightarrow> string \<Rightarrow> string \<Rightarrow> 16 word
      \<Rightarrow> proto_error + Message" where
  "NewNATDetectRespMessage marshal natType publicAddr mappedPort =
     marshalMessage marshal TypeNATDetectResp (PNATDetectResp \<lparr>nd_NATType = natType,
     nd_PublicAddr = publicAddr, nd_MappedPort = mappedPort\<rparr>)"

definition NewP2POfferMessage ::
    "json_marshal \<Rightarrow> string \<Rightarrow> string \<Rightarrow> string
      \<Rightarrow> string \<Rightarrow> string \<Rightarrow> ICECandidateJSON list
      \<Rightarrow> proto_error + Message" where
  "NewP2POfferMessage marshal sessionID fromClientID toClientID natType wgPubKey candidates =
     marshalMessage marshal TypeP2POffer (PP2POffer \<lparr>po_SessionID = sessionID,
     po_FromClientID = fromClientID, po_ToClientID = toClientID, po_Candidates = candidates,
     po_NATType = natType, po_WGPublicKey = wgPubKey\<rparr>)"

definition NewP2PAnswerMessage ::
    "json_marshal \<Rightarrow> string \<Rightarrow> string \<Rightarrow> string
      \<Rightarrow> string \<Rightarrow> string \<Rightarrow> ICECandidateJSON list
      \<Rightarrow> bool \<Rightarrow> string \<Rightarrow> proto_error + Message" where
  "NewP2PAnswerMessage marshal sessionID fromClientID toClientID natType wgPubKey candidates accept reason =
     marshalMessage marshal TypeP2PAnswer (PP2PAnswer \<lparr>pa_SessionID = sessionID,
     pa_FromClientID = fromClientID, pa_ToClientID = toClientID, pa_Candidates = candidates,
     pa_NATType = natType, pa_WGPublicKey = wgPubKey, pa_Accept = accept, pa_Reason =
     reason\<rparr>)"

definition NewP2PCloseMessage ::
    "json_marshal \<Rightarrow> string \<Rightarrow> string \<Rightarrow> proto_error +
      Message" where
  "NewP2PCloseMessage marshal sessionID reason =
     marshalMessage marshal TypeP2PClose (PP2PClose \<lparr>pc_SessionID = sessionID,
     pc_Reason = reason\<rparr>)"

definition NewMeshJoinMessage ::
    "json_marshal \<Rightarrow> string \<Rightarrow> string \<Rightarrow> string
      \<Rightarrow> string \<Rightarrow> proto_error + Message" where
  "NewMeshJoinMessage marshal clientID wgPubKey natType subnet =
     marshalMessage marshal TypeMeshJoin (PMeshJoin \<lparr>mj_ClientID = clientID,
     mj_WGPubKey = wgPubKey, mj_NATType = natType, mj_Subnet = subnet\<rparr>)"

definition NewMeshPeerListMessage ::
    "json_marshal \<Rightarrow> MeshPeerJSON list \<Rightarrow> proto_error + Message" where
  "NewMeshPeerListMessage marshal peers =
     marshalMessage marshal TypeMeshPeerList (PMeshPeerList \<lparr>ml_Peers = peers\<rparr>)"

definition NewMeshLeaveMessage ::
    "json_marshal \<Rightarrow> string \<Rightarrow> proto_error + Message" where
  "NewMeshLeaveMessage marshal clientID =
     marshalMessage marshal TypeMeshLeave (PMeshLeave \<lparr>mv_ClientID = clientID\<rparr>)"

definition NewMeshPingMessage ::
    "json_marshal \<Rightarrow> string \<Rightarrow> string \<Rightarrow> proto_error +
      Message" where
  "NewMeshPingMessage marshal fromClientID toClientID =
     marshalMessage marshal TypeMeshPing (PMeshPing \<lparr>mi_FromClientID = fromClientID,
     mi_ToClientID = toClientID\<rparr>)"

definition NewMeshPongMessage ::
    "json_marshal \<Rightarrow> string \<Rightarrow> string \<Rightarrow> proto_error +
      Message" where
  "NewMeshPongMessage marshal fromClientID toClientID =
     marshalMessage marshal TypeMeshPong (PMeshPong \<lparr>mo_FromClientID = fromClientID,
     mo_ToClientID = toClientID\<rparr>)"

definition NewQUICOfferMessage ::
    "json_marshal \<Rightarrow> string \<Rightarrow> string \<Rightarrow> string
      \<Rightarrow> string \<Rightarrow> string \<Rightarrow> proto_error + Message" where
  "NewQUICOfferMessage marshal sessionID fromClientID toClientID listenAddr alpn =
     marshalMessage marshal TypeQUICOffer (PQUICOffer \<lparr>qo_SessionID = sessionID,
     qo_FromClientID = fromClientID, qo_ToClientID = toClientID, qo_ListenAddr = listenAddr,
     qo_ALPN = alpn\<rparr>)"

definition NewQUICAnswerMessage ::
    "json_marshal \<Rightarrow> string \<Rightarrow> string \<Rightarrow> string
      \<Rightarrow> string \<Rightarrow> bool \<Rightarrow> string \<Rightarrow> proto_error +
      Message" where
  "NewQUICAnswerMessage marshal sessionID fromClientID toClientID listenAddr accept reason =
     marshalMessage marshal TypeQUICAnswer (PQUICAnswer \<lparr>qa_SessionID = sessionID,
     qa_FromClientID = fromClientID, qa_ToClientID = toClientID, qa_ListenAddr = listenAddr,
     qa_Accept = accept, qa_Reason = reason\<rparr>)"

definition NewSchedulerSwitchMessage ::
    "json_marshal \<Rightarrow> string \<Rightarrow> string \<Rightarrow> string
      \<Rightarrow> proto_error + Message" where
  "NewSchedulerSwitchMessage marshal sessionID oldPath newPath =
     marshalMessage marshal TypeSchedulerSwitch (PSchedulerSwitch \<lparr>ss_SessionID =
     sessionID, ss_OldPathType = oldPath, ss_NewPathType = newPath\<rparr>)"

definition NewSchedulerLockMessage ::
    "json_marshal \<Rightarrow> string \<Rightarrow> string \<Rightarrow> bool \<Rightarrow>
      proto_error + Message" where
  "NewSchedulerLockMessage marshal sessionID pathType locked =
     marshalMessage marshal TypeSchedulerLock (PSchedulerLock \<lparr>sl_SessionID =
     sessionID, sl_PathType = pathType, sl_Locked = locked\<rparr>)"

definition NewProbeRequestMessage ::
    "json_marshal \<Rightarrow> string \<Rightarrow> string \<Rightarrow> string
      \<Rightarrow> 16 word \<Rightarrow> 64 word \<Rightarrow> proto_error + Message" where
  "NewProbeRequestMessage marshal fromClientID toClientID pathType seqNum timestampNs =
     marshalMessage marshal TypeProbeRequest (PProbeRequest \<lparr>pq_FromClientID =
     fromClientID, pq_ToClientID = toClientID, pq_PathType = pathType, pq_SeqNum = seqNum,
     pq_TimestampNs = timestampNs\<rparr>)"

definition NewProbeResponseMessage ::
    "json_marshal \<Rightarrow> string \<Rightarrow> string \<Rightarrow> string
      \<Rightarrow> 16 word \<Rightarrow> 64 word \<Rightarrow> proto_error + Message" where
  "NewProbeResponseMessage marshal fromClientID toClientID pathType seqNum timestampNs =
     marshalMessage marshal TypeProbeResponse (PProbeResponse \<lparr>pr_FromClientID =
     fromClientID, pr_ToClientID = toClientID, pr_PathType = pathType, pr_SeqNum = seqNum,
     pr_TimestampNs = timestampNs\<rparr>)"

definition NewRelayQUICOfferMessage ::
    "json_marshal \<Rightarrow> string \<Rightarrow> string \<Rightarrow> string
      \<Rightarrow> string \<Rightarrow> proto_error + Message" where
  "NewRelayQUICOfferMessage marshal sessionID relayAddr proxyName clientID =
     marshalMessage marshal TypeRelayQUICOffer (PRelayQUICOffer \<lparr>rq_SessionID =
     sessionID, rq_RelayAddr = relayAddr, rq_ProxyName = proxyName, rq_ClientID =
     clientID\<rparr>)"

lemmas factory_defs =
  NewAuthMessageWithToken_def NewAuthMessage_def NewAuthRespMessage_def
  NewNewProxyMessage_def NewHTTPProxyMessage_def NewHTTPProxyMessageWithEndpoint_def
  NewNewProxyRespMessageWithURL_def NewNewProxyRespMessage_def NewCloseProxyMessage_def
  NewStartWorkConnMessage_def NewWorkConnMessageWithToken_def NewWorkConnMessage_def
  NewNATDetectReqMessage_def NewNATDetectRespMessage_def NewP2POfferMessage_def
  NewP2PAnswerMessage_def NewP2PCloseMessage_def NewMeshJoinMessage_def
  NewMeshPeerListMessage_def NewMeshLeaveMessage_def NewMeshPingMessage_def
  NewMeshPongMessage_def NewQUICOfferMessage_def NewQUICAnswerMessage_def
  NewSchedulerSwitchMessage_def NewSchedulerLockMessage_def NewProbeRequestMessage_def
  NewProbeResponseMessage_def NewRelayQUICOfferMessage_def

section \<open>Every message type decodes into its own struct\<close>

text \<open>
  What the code relies on of \<open>encoding/json\<close>: \<open>json.Unmarshal\<close> into a struct gives a
  value of that struct (this is Go's typing), and reading back what \<open>json.Marshal\<close> wrote
  gives the value marshalled.
\<close>

definition json_typed :: "(payload_kind \<Rightarrow> byte list \<Rightarrow> payload option) \<Rightarrow> bool" where
  "json_typed unmarshal \<longleftrightarrow> (\<forall>k bs v. unmarshal k bs = Some v \<longrightarrow> kind_of v = k)"

lemma kind_of_type_of_kind [simp]: "kind_of_type (type_of_kind k) = Some k"
  by (cases k) (simp_all add: kind_of_type_def)

lemma kind_of_type_Some: "kind_of_type t = Some k \<Longrightarrow> t = type_of_kind k"
  by (auto simp: kind_of_type_def split: if_splits)

lemma type_of_kind_inject: "type_of_kind k = type_of_kind k' \<longleftrightarrow> k = k'"
  by (metis kind_of_type_of_kind option.inject)

lemma type_of_kind_not_heartbeat:
  "type_of_kind k \<noteq> TypeHeartbeat" "type_of_kind k \<noteq> TypeHeartbeatResp"
  by (cases k; simp)+

lemma DecodePayload_kind:
  assumes "json_typed unmarshal" and "DecodePayload unmarshal m = Inr (Some v)"
  shows "Type m = type_of_kind (kind_of v)"
  using assms kind_of_type_Some [of "Type m"]
  by (fastforce simp: DecodePayload_def json_typed_def split: if_splits option.splits)

lemma marshalMessage_type: "marshalMessage marshal t v = Inr m \<Longrightarrow> Type m = t \<and> marshal v = Some (Payload m)"
  by (auto simp: marshalMessage_def split: option.splits)

lemma decode_marshalled:
  assumes "marshalMessage marshal (type_of_kind (kind_of v)) v = Inr m"
    and "\<forall>bs. marshal v = Some bs \<longrightarrow> unmarshal (kind_of v) bs = Some v"
  shows "DecodePayload unmarshal m = Inr (Some v)"
  using marshalMessage_type [OF assms(1)] assms(2) type_of_kind_not_heartbeat [of "kind_of v"]
  by (simp add: DecodePayload_def)

end
