(* ===== verification/Wire.thy ===== *)
theory Wire
  imports Messages
begin

text \<open>
  The wire format (\<open>pkg/protocol/codec.go\<close>): a frame is one type byte, the payload length as
  a big-endian 32-bit word, and the payload. \<open>ReadMessage\<close> and \<open>WriteMessage\<close>, and the
  connection wrapper \<open>Conn\<close> with its closed flag.

  A reader is the bytes that remain before the stream ends; \<open>io.ReadFull\<close> takes what it needs
  or fails with \<open>EOF\<close> (nothing left) or \<open>UnexpectedEOF\<close> (some bytes left, which it
  consumes). A writer is a function that accepts a chunk of bytes and may fail.
\<close>

unbundle bit_operations_syntax

definition maxPayloadSize :: nat where
  "maxPayloadSize = 16 * 1024 * 1024"

definition headerSize :: nat where
  "headerSize = 5"

section \<open>Big-endian words\<close>

definition put_uint32 :: "32 word \<Rightarrow> byte list" where
  "put_uint32 n = [ucast (drop_bit 24 n), ucast (drop_bit 16 n), ucast (drop_bit 8 n), ucast n]"

fun get_uint32 :: "byte list \<Rightarrow> 32 word" where
  "get_uint32 (a # b # c # d # _) =
     push_bit 24 (ucast a) OR push_bit 16 (ucast b) OR push_bit 8 (ucast c) OR ucast d"
| "get_uint32 _ = 0"

lemma length_put_uint32 [simp]: "length (put_uint32 n) = 4"
  by (simp add: put_uint32_def)

lemma get_put_uint32 [simp]: "get_uint32 (put_uint32 n @ bs) = n"
proof (rule bit_word_eqI)
  fix i assume "i < LENGTH(32)"
  then show "bit (get_uint32 (put_uint32 n @ bs)) i = bit n i"
    by (cases "i < 8"; cases "i < 16"; cases "i < 24") (auto simp: put_uint32_def bit_simps)
qed

lemma get_put_uint32' [simp]: "get_uint32 (put_uint32 n) = n"
  using get_put_uint32 [of n "[]"] by simp

lemma put_get_uint32:
  assumes "length bs = 4"
  shows "put_uint32 (get_uint32 bs) = bs"
proof -
  obtain a b c d where bs: "bs = [a, b, c, d]"
    using assms by (auto simp: numeral_eq_Suc length_Suc_conv)
  let ?n = "get_uint32 [a, b, c, d]"
  have "ucast (drop_bit 24 ?n) = a" "ucast (drop_bit 16 ?n) = b"
    "ucast (drop_bit 8 ?n) = c" "ucast ?n = d"
    by (rule bit_word_eqI, auto simp: bit_simps dest: bit_imp_le_length)+
  then show ?thesis by (simp add: bs put_uint32_def)
qed

section \<open>Reading\<close>

definition read_full :: "nat \<Rightarrow> byte list \<Rightarrow> (proto_error + byte list) \<times> byte list" where
  "read_full n bs =
     (if n \<le> length bs then (Inr (take n bs), drop n bs)
      else if bs = [] then (Inl EOF, [])
      else (Inl UnexpectedEOF, []))"

definition ReadMessage :: "byte list \<Rightarrow> (proto_error + Message) \<times> byte list" where
  "ReadMessage r =
     (case read_full headerSize r of
        (Inl e, r) \<Rightarrow> (Inl e, r)
      | (Inr header, r) \<Rightarrow>
          (let msgType = header ! 0; len = get_uint32 (drop 1 header) in
           if unat len > maxPayloadSize then (Inl ErrPayloadTooLarge, r)
           else if len > 0 then
             (case read_full (unat len) r of
                (Inl e, r) \<Rightarrow> (Inl e, r)
              | (Inr payload, r) \<Rightarrow> (Inr \<lparr>Type = msgType, Payload = payload\<rparr>, r))
           else (Inr \<lparr>Type = msgType, Payload = []\<rparr>, r)))"

section \<open>Writing\<close>

type_synonym 'w writer = "byte list \<Rightarrow> 'w \<Rightarrow> proto_error option \<times> 'w"

definition WriteMessage :: "'w writer \<Rightarrow> Message \<Rightarrow> 'w \<Rightarrow> proto_error option \<times> 'w" where
  "WriteMessage wr msg w =
     (let len = (word_of_nat (length (Payload msg)) :: 32 word) in
      if unat len > maxPayloadSize then (Some ErrPayloadTooLarge, w)
      else (case wr (Type msg # put_uint32 len) w of
              (Some e, w) \<Rightarrow> (Some e, w)
            | (None, w) \<Rightarrow>
                if len > 0 then
                  (case wr (Payload msg) w of
                     (Some e, w) \<Rightarrow> (Some e, w)
                   | (None, w) \<Rightarrow> (None, w))
                else (None, w)))"

text \<open>The writer that accepts everything (a connection in working order).\<close>

definition buf_write :: "byte list writer" where
  "buf_write bs out = (None, out @ bs)"

definition frame :: "Message \<Rightarrow> byte list" where
  "frame m = Type m # put_uint32 (word_of_nat (length (Payload m))) @ Payload m"

definition sendable :: "Message \<Rightarrow> bool" where
  "sendable m \<longleftrightarrow> length (Payload m) \<le> maxPayloadSize"

lemma unat_len: "length p \<le> maxPayloadSize \<Longrightarrow> unat (word_of_nat (length p) :: 32 word) = length p"
  by (simp add: unat_of_nat maxPayloadSize_def)

lemma len_pos: "(0 :: 32 word) < l \<longleftrightarrow> 0 < unat l"
  by (simp add: word_less_nat_alt)

lemma WriteMessage_buf:
  assumes "sendable m"
  shows "WriteMessage buf_write m out = (None, out @ frame m)"
  using assms unat_len [of "Payload m"]
  by (auto simp: WriteMessage_def buf_write_def frame_def sendable_def len_pos Let_def)

section \<open>Frames\<close>

lemma length_frame: "length (frame m) = headerSize + length (Payload m)"
  by (simp add: frame_def headerSize_def)

lemma read_full_append: "length xs = n \<Longrightarrow> read_full n (xs @ ys) = (Inr xs, ys)"
  by (simp add: read_full_def)

lemma frame_split:
  "frame m = (Type m # put_uint32 (word_of_nat (length (Payload m)))) @ Payload m"
  by (simp add: frame_def)

lemma ReadMessage_header:
  assumes "length h = 4"
  shows "ReadMessage ((t # h) @ rest) =
     (let len = get_uint32 h in
      if unat len > maxPayloadSize then (Inl ErrPayloadTooLarge, rest)
      else if len > 0 then
        (case read_full (unat len) rest of
           (Inl e, r) \<Rightarrow> (Inl e, r)
         | (Inr payload, r) \<Rightarrow> (Inr \<lparr>Type = t, Payload = payload\<rparr>, r))
      else (Inr \<lparr>Type = t, Payload = []\<rparr>, rest))"
  using assms read_full_append [of "t # h" headerSize rest]
  by (simp add: ReadMessage_def headerSize_def)

lemma ReadMessage_frame: "sendable m \<Longrightarrow> ReadMessage (frame m @ rest) = (Inr m, rest)"
  using unat_len [of "Payload m"]
    ReadMessage_header [of "put_uint32 (word_of_nat (length (Payload m)))" "Type m" "Payload m @ rest"]
  by (auto simp: frame_def sendable_def Let_def len_pos read_full_append)

lemma ReadMessage_frame_only: "sendable m \<Longrightarrow> ReadMessage (frame m) = (Inr m, [])"
  using ReadMessage_frame [of m "[]"] by simp

lemma read_full_Inr: "read_full n bs = (Inr xs, r) \<longleftrightarrow> length xs = n \<and> bs = xs @ r"
  by (auto simp: read_full_def)

lemma ReadMessage_Inr:
  assumes "ReadMessage bs = (Inr m, r)"
  shows "sendable m \<and> bs = frame m @ r"
proof -
  obtain h r' where h: "read_full headerSize bs = (Inr h, r')"
    using assms by (auto simp: ReadMessage_def split: prod.splits sum.splits)
  then have "length h = 5" and bs: "bs = h @ r'" by (auto simp: read_full_Inr headerSize_def)
  then obtain t l where tl: "h = t # l" "length l = 4" by (cases h) auto
  let ?n = "get_uint32 l"
  have res: "(if unat ?n > maxPayloadSize then (Inl ErrPayloadTooLarge, r')
      else if ?n > 0 then
        (case read_full (unat ?n) r' of
           (Inl e, r) \<Rightarrow> (Inl e, r)
         | (Inr payload, r) \<Rightarrow> (Inr \<lparr>Type = t, Payload = payload\<rparr>, r))
      else (Inr \<lparr>Type = t, Payload = []\<rparr>, r')) = (Inr m, r)"
    using assms ReadMessage_header [OF tl(2), of t r'] by (simp add: bs tl(1) Let_def)
  then have le: "unat ?n \<le> maxPayloadSize" by (auto split: if_splits)
  have p: "length (Payload m) = unat ?n \<and> r' = Payload m @ r \<and> Type m = t"
    using res le by (auto simp: len_pos read_full_Inr split: if_splits prod.splits sum.splits)
  then have "word_of_nat (length (Payload m)) = ?n" by simp
  then have "frame m @ r = t # put_uint32 ?n @ r'" using p by (simp add: frame_def)
  then show ?thesis using le p tl bs by (simp add: sendable_def put_get_uint32)
qed

section \<open>The connection\<close>

text \<open>
  \<open>Conn\<close>: the stream still to be read, what was written, and the closed flag. A read that finds
  the flag set fails before it touches the stream; \<open>wfail\<close> is the state of the network: the
  next write fails.
\<close>

record Conn =
  rd :: "byte list"
  wr :: "byte list"
  wfail :: bool
  closed :: bool

definition NewConn :: "byte list \<Rightarrow> Conn" where
  "NewConn input = \<lparr>rd = input, wr = [], wfail = False, closed = False\<rparr>"

definition Conn_Read :: "Conn \<Rightarrow> (proto_error + Message) \<times> Conn" where
  "Conn_Read c =
     (if closed c then (Inl ErrConnClosed, c)
      else (case ReadMessage (rd c) of (res, r) \<Rightarrow> (res, c\<lparr>rd := r\<rparr>)))"

definition conn_sink :: "Conn writer" where
  "conn_sink bs c = (if wfail c then (Some ErrIO, c) else (None, c\<lparr>wr := wr c @ bs\<rparr>))"

definition Conn_Write :: "Message \<Rightarrow> Conn \<Rightarrow> proto_error option \<times> Conn" where
  "Conn_Write msg c =
     (if closed c then (Some ErrConnClosed, c) else WriteMessage conn_sink msg c)"

definition Conn_Close :: "Conn \<Rightarrow> Conn" where
  "Conn_Close c = (if closed c then c else c\<lparr>closed := True\<rparr>)"

text \<open>\<open>n\<close> messages read one after the other, as a read loop does.\<close>

fun read_n :: "nat \<Rightarrow> byte list \<Rightarrow> (proto_error + Message list) \<times> byte list" where
  "read_n 0 r = (Inr [], r)"
| "read_n (Suc n) r =
     (case ReadMessage r of
        (Inl e, r) \<Rightarrow> (Inl e, r)
      | (Inr m, r) \<Rightarrow> (case read_n n r of
                         (Inl e, r) \<Rightarrow> (Inl e, r)
                       | (Inr ms, r) \<Rightarrow> (Inr (m # ms), r)))"

lemma read_n_frames:
  "\<forall>m \<in> set ms. sendable m \<Longrightarrow> read_n (length ms) (concat (map frame ms) @ rest) = (Inr ms, rest)"
  by (induction ms) (auto simp: ReadMessage_frame)

lemma frame_inject: "sendable m \<Longrightarrow> sendable m' \<Longrightarrow> frame m @ r = frame m' @ r' \<Longrightarrow> m = m' \<and> r = r'"
  by (metis ReadMessage_frame Pair_inject sum.inject(2))

lemma conn_sink_writes:
  assumes "sendable m" and "\<not> closed c" and "\<not> wfail c"
  shows "Conn_Write m c = (None, c\<lparr>wr := wr c @ frame m\<rparr>)"
  using assms unat_len [of "Payload m"]
  by (auto simp: Conn_Write_def WriteMessage_def conn_sink_def frame_def sendable_def len_pos Let_def)

text \<open>A sequence of messages written by one sender, stopping at the first error.\<close>

fun write_all :: "'w writer \<Rightarrow> Message list \<Rightarrow> 'w \<Rightarrow> proto_error option \<times> 'w" where
  "write_all w [] s = (None, s)"
| "write_all w (m # ms) s =
     (case WriteMessage w m s of
        (Some e, s) \<Rightarrow> (Some e, s)
      | (None, s) \<Rightarrow> write_all w ms s)"

lemma write_all_buf:
  "\<forall>m \<in> set ms. sendable m \<Longrightarrow> write_all buf_write ms out = (None, out @ concat (map frame ms))"
  by (induction ms arbitrary: out) (auto simp: WriteMessage_buf)

lemma read_full_short: "length bs < n \<Longrightarrow> read_full n bs = (Inl (if bs = [] then EOF else UnexpectedEOF), [])"
  by (auto simp: read_full_def)

section \<open>Properties\<close>

text \<open>
  C7: Round trip of the stream. Whatever sequence of messages of legal size one side writes
  through \<open>WriteMessage\<close>, the other side's \<open>ReadMessage\<close> loop reads back exactly that
  sequence, in order, and leaves the bytes that follow untouched.
\<close>

theorem wire_stream_roundtrip:
  assumes "\<forall>m \<in> set ms. sendable m"
  shows "write_all buf_write ms [] = (None, concat (map frame ms)) \<and>
    read_n (length ms) (snd (write_all buf_write ms []) @ rest) = (Inr ms, rest)"
  using read_n_frames [OF assms] write_all_buf [OF assms, of "[]"] by simp

theorem wire_stream_roundtrip_witness:
  "read_n (length [NewHeartbeat, \<lparr>Type = TypeAuth, Payload = [1, 2]\<rparr>])
     (snd (write_all buf_write [NewHeartbeat, \<lparr>Type = TypeAuth, Payload = [1, 2]\<rparr>] []) @ [7])
     = (Inr [NewHeartbeat, \<lparr>Type = TypeAuth, Payload = [1, 2]\<rparr>], [7])"
proof -
  have "\<forall>m \<in> set [NewHeartbeat, \<lparr>Type = TypeAuth, Payload = [1, 2]\<rparr>]. sendable m"
    by (simp add: sendable_def NewHeartbeat_def maxPayloadSize_def)
  then show ?thesis by (rule conjunct2 [OF wire_stream_roundtrip])
qed

text \<open>
  The reader accepts canonical frames only. If \<open>ReadMessage\<close> returns a message, its payload
  is at most 16 MiB and the bytes consumed are exactly the frame \<open>WriteMessage\<close> would write for
  it, so no two byte strings mean the same message and nothing past the frame is consumed.
\<close>

theorem wire_canonical:
  assumes "ReadMessage bs = (Inr m, r)"
  shows "length (Payload m) \<le> 16777216 \<and> bs = snd (WriteMessage buf_write m []) @ r"
  using ReadMessage_Inr [OF assms] WriteMessage_buf [of m "[]"]
  by (simp add: sendable_def maxPayloadSize_def)

theorem wire_canonical_witness:
  "[1, 0, 0, 0, 1, 9, 5] =
     snd (WriteMessage buf_write \<lparr>Type = 1, Payload = [9]\<rparr> []) @ ([5] :: byte list)"
proof -
  have "ReadMessage [1, 0, 0, 0, 1, 9, 5] = (Inr \<lparr>Type = 1, Payload = [9]\<rparr>, [5])"
    by (simp add: ReadMessage_def read_full_def headerSize_def maxPayloadSize_def)
  from wire_canonical [OF this] show ?thesis by simp
qed

text \<open>
  A frame cut short is never taken for a message. Every proper prefix of a frame makes
  \<open>ReadMessage\<close> fail: with \<open>io.EOF\<close> when the cut is before the first byte or right after the
  header, with \<open>io.ErrUnexpectedEOF\<close> everywhere else.
\<close>

theorem wire_truncated:
  assumes "sendable m" and "k < length (frame m)"
  shows "ReadMessage (take k (frame m)) =
    (Inl (if k = 0 \<or> k = headerSize then EOF else UnexpectedEOF), [])"
proof (cases "k < headerSize")
  case True
  then show ?thesis
    using assms(2) read_full_short [of "take k (frame m)" headerSize]
    by (auto simp: ReadMessage_def length_frame frame_def)
next
  case False
  let ?h = "put_uint32 (word_of_nat (length (Payload m)))"
  let ?q = "take (k - headerSize) (Payload m)"
  have n: "unat (word_of_nat (length (Payload m)) :: 32 word) = length (Payload m)"
    using assms(1) by (simp add: sendable_def unat_len)
  have pos: "length ?q < length (Payload m)"
    using assms(2) False by (simp add: length_frame)
  have "take k (frame m) = take k (Type m # ?h) @ take (k - length (Type m # ?h)) (Payload m)"
    unfolding frame_split by (rule take_append)
  then have "take k (frame m) = (Type m # ?h) @ ?q"
    using False by (simp add: headerSize_def)
  then have "ReadMessage (take k (frame m)) = (Inl (if ?q = [] then EOF else UnexpectedEOF), [])"
    using ReadMessage_header [of ?h "Type m" ?q] read_full_short [OF pos] n pos assms(1)
    by (auto simp: Let_def len_pos sendable_def)
  moreover have "?q = [] \<longleftrightarrow> k = headerSize" using False pos by auto
  moreover have "k \<noteq> 0" using False by (simp add: headerSize_def)
  ultimately show ?thesis by simp
qed

theorem wire_truncated_witness:
  "ReadMessage (take 6 (frame \<lparr>Type = 1, Payload = [9, 8]\<rparr>)) = (Inl UnexpectedEOF, [])"
proof -
  have "sendable \<lparr>Type = 1, Payload = [9, 8]\<rparr>" by (simp add: sendable_def maxPayloadSize_def)
  moreover have "6 < length (frame \<lparr>Type = 1, Payload = [9, 8]\<rparr>)"
    by (simp add: length_frame headerSize_def)
  ultimately show ?thesis
    using wire_truncated [of "\<lparr>Type = 1, Payload = [9, 8]\<rparr>" 6] by (simp add: headerSize_def)
qed

text \<open>
  The size check of \<open>WriteMessage\<close> is made on \<open>uint32(len(payload))\<close>, which wraps. A
  payload of exactly 2^32 bytes passes it: the call reports success and sends a frame with an
  empty payload, where a payload one byte over the limit is refused.
\<close>

theorem wire_length_wraps:
  assumes "length p = 2 ^ 32" and "length q = 16777217"
  shows "WriteMessage buf_write \<lparr>Type = t, Payload = p\<rparr> out = (None, out @ frame \<lparr>Type = t, Payload = []\<rparr>)
    \<and> WriteMessage buf_write \<lparr>Type = t, Payload = q\<rparr> out = (Some ErrPayloadTooLarge, out)"
proof -
  have "(word_of_nat (length p) :: 32 word) = 0" using assms(1) by (simp add: word_of_nat_eq_0_iff)
  moreover have "unat (word_of_nat (length q) :: 32 word) = 16777217"
    using assms(2) by (simp add: unat_of_nat)
  ultimately show ?thesis
    by (simp add: WriteMessage_def buf_write_def frame_def maxPayloadSize_def Let_def)
qed

theorem wire_length_wraps_witness:
  "WriteMessage buf_write \<lparr>Type = 3, Payload = replicate (2 ^ 32) 0\<rparr> [] =
     (None, frame \<lparr>Type = 3, Payload = []\<rparr>)"
  using wire_length_wraps [of "replicate (2 ^ 32) 0" "replicate 16777217 0" 3 "[]"]
  by (simp only: length_replicate append_Nil simp_thms)

text \<open>
  Typed round trip. A payload marshalled by a factory, sent over the wire and decoded gives
  back the payload, and what \<open>DecodePayload\<close> returns for any message is a value of the struct
  its type byte stands for, so the type assertions of the handlers never panic. The hypotheses
  are what the code relies on of \<open>encoding/json\<close>: it decodes what it encoded, and it decodes
  into the struct it is given.
\<close>

theorem typed_roundtrip:
  assumes "json_typed unmarshal"
    and "marshalMessage marshal (type_of_kind (kind_of v)) v = Inr m" and "sendable m"
    and "unmarshal (kind_of v) (Payload m) = Some v"
  shows "(case ReadMessage (snd (WriteMessage buf_write m []) @ rest) of
            (Inr m', r) \<Rightarrow> r = rest \<and> DecodePayload unmarshal m' = Inr (Some v)
          | _ \<Rightarrow> False)
    \<and> (\<forall>m' v'. DecodePayload unmarshal m' = Inr (Some v') \<longrightarrow> Type m' = type_of_kind (kind_of v'))"
proof -
  have "DecodePayload unmarshal m = Inr (Some v)"
    using decode_marshalled [OF assms(2)] assms(4) marshalMessage_type [OF assms(2)] by simp
  then show ?thesis
    using assms(1,3) DecodePayload_kind by (auto simp: WriteMessage_buf ReadMessage_frame)
qed

theorem typed_roundtrip_witness:
  "DecodePayload (\<lambda>k bs. if k = KCloseProxy then Some (PCloseProxy \<lparr>cp_ProxyName = ''web''\<rparr>) else None)
     \<lparr>Type = TypeCloseProxy, Payload = [123, 125]\<rparr> = Inr (Some (PCloseProxy \<lparr>cp_ProxyName = ''web''\<rparr>))"
proof -
  let ?u = "\<lambda>k (bs :: byte list). if k = KCloseProxy then Some (PCloseProxy \<lparr>cp_ProxyName = ''web''\<rparr>) else None"
  let ?m = "\<lparr>Type = TypeCloseProxy, Payload = [123, 125]\<rparr>"
  let ?v = "PCloseProxy \<lparr>cp_ProxyName = ''web''\<rparr>"
  have u: "json_typed ?u" by (simp add: json_typed_def)
  have m: "marshalMessage (\<lambda>_. Some [123, 125]) (type_of_kind (kind_of ?v)) ?v = Inr ?m"
    by (simp add: marshalMessage_def)
  have s: "sendable ?m" by (simp add: sendable_def maxPayloadSize_def)
  have d: "?u (kind_of ?v) (Payload ?m) = Some ?v" by simp
  show ?thesis
    using conjunct1 [OF typed_roundtrip [OF u m s d, of "[]"]] s
    by (simp add: WriteMessage_buf ReadMessage_frame_only)
qed

text \<open>
  A closed connection is dead. After \<open>Close\<close>, reads and writes fail with
  \<open>ErrConnClosed\<close> without consuming or producing a byte, and closing again changes nothing.
\<close>

theorem conn_closed_stays_closed:
  "Conn_Read (Conn_Close c) = (Inl ErrConnClosed, Conn_Close c)
   \<and> Conn_Write m (Conn_Close c) = (Some ErrConnClosed, Conn_Close c)
   \<and> Conn_Close (Conn_Close c) = Conn_Close c
   \<and> rd (Conn_Close c) = rd c \<and> wr (Conn_Close c) = wr c"
  by (simp add: Conn_Close_def Conn_Read_def Conn_Write_def)

end
