(* ===== verification/Net_Addr.thy ===== *)
theory Net_Addr
  imports Go_Prelude
begin

text \<open>
  The values of Go's package \<open>net\<close> that the address management uses. A \<open>net.IP\<close> is nil, a
  4-byte or a 16-byte slice; a \<open>net.IPNet\<close> is an address with a mask of \<open>bits\<close> bits whose
  first \<open>ones\<close> are set, as \<open>net.ParseCIDR\<close> makes them. \<open>To4\<close>, \<open>Equal\<close> and
  \<open>Contains\<close> treat IPv4-mapped 16-byte addresses as Go does.
\<close>

unbundle bit_operations_syntax

datatype netip = NilIP | IP4 "32 word" | IP16 "128 word"

fun To4 :: "netip \<Rightarrow> 32 word option" where
  "To4 NilIP = None"
| "To4 (IP4 w) = Some w"
| "To4 (IP16 w) = (if drop_bit 32 w = 0xFFFF then Some (ucast w) else None)"

fun ip_equal :: "netip \<Rightarrow> netip \<Rightarrow> bool" where
  "ip_equal NilIP NilIP = True"
| "ip_equal (IP4 a) (IP4 b) = (a = b)"
| "ip_equal (IP16 a) (IP16 b) = (a = b)"
| "ip_equal (IP4 a) (IP16 b) = (To4 (IP16 b) = Some a)"
| "ip_equal (IP16 a) (IP4 b) = (To4 (IP16 a) = Some b)"
| "ip_equal _ _ = False"

record ipnet =
  net_ip :: netip
  ones :: nat
  bits :: nat

definition host_bits :: "ipnet \<Rightarrow> nat" where
  "host_bits n = bits n - ones n"

text \<open>\<open>IPNet.Contains\<close>: both sides are brought to 4 bytes when they can be.\<close>

definition net_contains :: "ipnet \<Rightarrow> netip \<Rightarrow> bool" where
  "net_contains n ip =
     (case To4 (net_ip n) of
        Some nw \<Rightarrow> (case To4 ip of
                      Some w \<Rightarrow> w AND NOT (mask (host_bits n)) = nw AND NOT (mask (host_bits n))
                    | None \<Rightarrow> False)
      | None \<Rightarrow> (case (net_ip n, ip) of
                   (IP16 nw, IP16 w) \<Rightarrow> To4 ip = None \<and>
                     w AND NOT (mask (host_bits n)) = nw AND NOT (mask (host_bits n))
                 | (NilIP, NilIP) \<Rightarrow> True
                 | _ \<Rightarrow> False))"

text \<open>What \<open>net.ParseCIDR\<close> returns: the address is masked, the mask has its full length.\<close>

definition cidr_ok :: "ipnet \<Rightarrow> bool" where
  "cidr_ok n \<longleftrightarrow> ones n \<le> bits n \<and>
     (case net_ip n of
        NilIP \<Rightarrow> False
      | IP4 w \<Rightarrow> bits n = 32 \<and> w AND mask (host_bits n) = 0
      | IP16 w \<Rightarrow> bits n = 128 \<and> w AND mask (host_bits n) = 0)"

section \<open>Prefixes of 32-bit addresses\<close>

lemma and_mask_0_iff: "(w :: 'a::len word) AND mask h = 0 \<longleftrightarrow> take_bit h w = 0"
  by (simp add: take_bit_eq_mask)

lemma unat_dvd_of_masked:
  fixes w :: "32 word"
  assumes "w AND mask h = 0"
  shows "2 ^ h dvd unat w"
proof -
  have "take_bit h (unat w) = 0"
    using assms by (metis and_mask_0_iff unat_0 unsigned_take_bit_eq)
  then show ?thesis by (simp add: take_bit_eq_mod dvd_eq_mod_eq_0)
qed

lemma masked_room:
  fixes w :: "32 word"
  assumes "w AND mask h = 0" and "h \<le> 32"
  shows "unat w + 2 ^ h \<le> 2 ^ 32"
proof -
  obtain k where k: "unat w = 2 ^ h * k" using unat_dvd_of_masked [OF assms(1)] by blast
  have lt: "unat w < 2 ^ 32" using unsigned_less [of w] by simp
  have p: "(2::nat) ^ 32 = 2 ^ h * 2 ^ (32 - h)" using assms(2) by (simp flip: power_add)
  then have "k < 2 ^ (32 - h)" using lt k by (metis mult_less_cancel1)
  then have "2 ^ h * (k + 1) \<le> 2 ^ h * 2 ^ (32 - h)" by (intro mult_le_mono2) simp
  then show ?thesis using k p by simp
qed

lemma unat_mask32: "h \<le> 32 \<Longrightarrow> unat (mask h :: 32 word) = 2 ^ h - 1"
proof -
  assume "h \<le> 32"
  then have "unat (take_bit h (- 1) :: 32 word) = mask h"
    unfolding unsigned_take_bit_eq unsigned_minus_1_eq_mask by (simp add: take_bit_of_mask min_def)
  then show ?thesis by (simp add: take_bit_minus_one_eq_mask mask_eq_exp_minus_1)
qed

lemma unat_broadcast:
  fixes w :: "32 word"
  assumes "w AND mask h = 0" and "h \<le> 32"
  shows "unat (w OR mask h) = unat w + (2 ^ h - 1)"
proof -
  have "w OR mask h = w + mask h" using disjunctive_add_eq_or [OF assms(1)] by simp
  then show ?thesis
    using masked_room [OF assms] assms(2) by (simp add: unat_word_ariths unat_mask32)
qed

lemma prefix_split:
  fixes w a :: "32 word"
  assumes "w AND mask h = 0" and "a AND NOT (mask h) = w AND NOT (mask h)"
  shows "a = w + (a AND mask h)"
proof -
  have b: "bit a i = bit (w OR (a AND mask h)) i" for i
    using arg_cong [OF assms(1), of "\<lambda>x. bit x i"] arg_cong [OF assms(2), of "\<lambda>x. bit x i"]
    by (auto simp: bit_simps dest: bit_imp_le_length)
  have "a = w OR (a AND mask h)" by (rule bit_word_eqI) (rule b)
  moreover have "w AND (a AND mask h) = 0"
    using assms(1) by (metis and.assoc and.left_commute and_zero_eq)
  ultimately show ?thesis using disjunctive_add_eq_or by metis
qed

lemma prefix_bounds:
  fixes w a :: "32 word"
  assumes "w AND mask h = 0" and "h \<le> 32" and "a AND NOT (mask h) = w AND NOT (mask h)"
  shows "w \<le> a \<and> a \<le> w OR mask h"
proof -
  have "a AND mask h \<le> mask h" by (rule word_and_le1)
  then have le: "unat (a AND mask h) \<le> 2 ^ h - 1"
    using unat_mask32 [OF assms(2)] by (simp add: word_le_nat_alt)
  have pow: "0 < (2 :: nat) ^ h" by simp
  have "unat w + unat (a AND mask h) < 2 ^ 32"
    using masked_room [OF assms(1,2)] le pow by linarith
  then have "unat a = unat w + unat (a AND mask h)"
    using arg_cong [OF prefix_split [OF assms(1,3)], of unat]
    by (simp add: unat_word_ariths)
  then show ?thesis using unat_broadcast [OF assms(1,2)] le pow
    unfolding word_le_nat_alt by linarith
qed

lemma bounds_prefix:
  fixes w a :: "32 word"
  assumes "w AND mask h = 0" and "h \<le> 32" and "w \<le> a" and "a \<le> w OR mask h"
  shows "a AND NOT (mask h) = w AND NOT (mask h)"
proof -
  obtain k where k: "unat w = 2 ^ h * k" using unat_dvd_of_masked [OF assms(1)] by blast
  have p: "0 < (2 :: nat) ^ h" by simp
  have le: "unat w \<le> unat a" "unat a \<le> unat w + (2 ^ h - 1)"
    using assms(3,4) unat_broadcast [OF assms(1,2)] by (simp_all add: word_le_nat_alt)
  have "unat a < unat w + 2 ^ h" using le(2) p by linarith
  then have "unat a div 2 ^ h = k"
    using k le(1) by (intro div_nat_eqI) (auto simp: algebra_simps)
  then have "drop_bit h (unat a) = drop_bit h (unat w)"
    using k by (simp add: drop_bit_eq_div)
  then have "unat (drop_bit h a) = unat (drop_bit h w)"
    by (simp add: unat_drop_bit_eq)
  then have d: "drop_bit h a = drop_bit h w" by (rule unsigned_word_eqI)
  show ?thesis
  proof (rule bit_word_eqI)
    fix i assume "i < LENGTH(32)"
    then show "bit (a AND NOT (mask h)) i = bit (w AND NOT (mask h)) i"
      using arg_cong [OF d, of "\<lambda>x. bit x (i - h)"] by (auto simp: bit_simps)
  qed
qed

lemma cidr_ok_v4:
  assumes "cidr_ok n" and "To4 (net_ip n) = Some w"
  shows "host_bits n \<le> 32 \<and> w AND mask (host_bits n) = 0"
proof (cases "net_ip n")
  case NilIP
  then show ?thesis using assms by simp
next
  case (IP4 v)
  then show ?thesis using assms by (auto simp: cidr_ok_def host_bits_def)
next
  case (IP16 v)
  let ?h = "host_bits n"
  have v: "drop_bit 32 v = 0xFFFF" "w = ucast v" "v AND mask ?h = 0"
    using assms IP16 by (auto simp: cidr_ok_def split: if_splits)
  have "bit v 32"
    using arg_cong [OF v(1), of "\<lambda>x. bit x 0"] by (simp add: bit_simps)
  moreover have "\<not> bit (v AND mask ?h) 32" using v(3) by simp
  ultimately have h: "?h \<le> 32" by (simp add: bit_simps)
  have "w AND mask ?h = 0"
  proof (rule bit_word_eqI)
    fix i assume "i < LENGTH(32)"
    then show "bit (w AND mask ?h) i = bit (0 :: 32 word) i"
      using arg_cong [OF v(3), of "\<lambda>x. bit x i"] v(2) by (auto simp: bit_simps)
  qed
  with h show ?thesis by simp
qed

text \<open>An IPv4 network holds exactly the addresses between its first and its last one.\<close>

lemma net_contains_v4:
  assumes "To4 (net_ip n) = Some w" and "To4 ip = Some a"
  shows "net_contains n ip \<longleftrightarrow> a AND NOT (mask (host_bits n)) = w AND NOT (mask (host_bits n))"
  using assms by (simp add: net_contains_def)

end
