(* ===== verification/Ipam.thy ===== *)
theory Ipam
  imports Net_Addr
begin

text \<open>
  The address allocator of the virtual network (\<open>pkg/ipam/ipam.go\<close>): the record \<open>IPAM\<close>, its
  constructor and the operations \<open>Allocate\<close>, \<open>Reserve\<close>, \<open>Release\<close>,
  \<open>GetAllocation\<close> and \<open>ListAllocations\<close>. Addresses are \<open>uint32\<close> values and all the
  arithmetic on them wraps; \<open>ipam_inv\<close> is what keeps it from doing so.

  The parsers \<open>net.ParseCIDR\<close> and \<open>net.ParseIP\<close> are arguments of the constructor. The two
  search loops of \<open>Allocate\<close> are \<open>scan_up\<close> and \<open>scan_wrap\<close>. The abstract view is
  \<open>free_hosts\<close>, the set of addresses that may be handed out.
\<close>

unbundle bit_operations_syntax

datatype ipam_error =
    ErrParseCIDR string
  | ErrNotIPv4CIDR string
  | ErrInvalidGateway string
  | ErrGatewayNotInSubnet
  | ErrSubnetTooSmall
  | ErrExhausted
  | ErrInvalidIPv4
  | ErrNotInSubnet
  | ErrReservedIP
  | ErrNodeHasIP "32 word"
  | ErrIPTaken

record IPAM =
  im_subnet :: ipnet
  im_gateway :: "32 word"
  im_allocated :: "(string, 32 word) fmap"
  im_nextHost :: "32 word"
  im_network :: "32 word"
  im_broadcast :: "32 word"

definition NewIPAM ::
    "(string \<Rightarrow> ipnet option) \<Rightarrow> (string \<Rightarrow> netip) \<Rightarrow> string \<Rightarrow> string \<Rightarrow> ipam_error + IPAM" where
  "NewIPAM ParseCIDR ParseIP subnetCIDR gatewayIP =
     (case ParseCIDR subnetCIDR of
        None \<Rightarrow> Inl (ErrParseCIDR subnetCIDR)
      | Some subnet \<Rightarrow>
          (case To4 (net_ip subnet) of
             None \<Rightarrow> Inl (ErrNotIPv4CIDR subnetCIDR)
           | Some networkIP \<Rightarrow>
               (case To4 (ParseIP gatewayIP) of
                  None \<Rightarrow> Inl (ErrInvalidGateway gatewayIP)
                | Some gateway \<Rightarrow>
                    if \<not> net_contains subnet (IP4 gateway) then Inl ErrGatewayNotInSubnet
                    else if host_bits subnet < 2 then Inl ErrSubnetTooSmall
                    else Inr \<lparr>im_subnet = subnet, im_gateway = gateway,
                              im_allocated = fmempty, im_nextHost = 1,
                              im_network = networkIP,
                              im_broadcast = networkIP OR (push_bit (host_bits subnet) 1 - 1)\<rparr>)))"

section \<open>Allocation\<close>

text \<open>The set \<open>used\<close> that \<open>Allocate\<close> collects before it searches.\<close>

definition ip_taken :: "(string, 32 word) fmap \<Rightarrow> 32 word \<Rightarrow> bool" where
  "ip_taken al c \<longleftrightarrow> fBex (fmdom al) (\<lambda>n. fmlookup al n = Some c)"

definition ip_used :: "IPAM \<Rightarrow> 32 word \<Rightarrow> bool" where
  "ip_used m c \<longleftrightarrow> Some c = To4 (net_ip (im_subnet m)) \<or> c = im_broadcast m \<or> c = im_gateway m
     \<or> ip_taken (im_allocated m) c"

function scan_up :: "(32 word \<Rightarrow> bool) \<Rightarrow> 32 word \<Rightarrow> 32 word \<Rightarrow> 32 word \<Rightarrow> 32 word option" where
  "scan_up used network broadcast offset =
     (if network + offset < broadcast then
        (if \<not> used (network + offset) then Some offset
         else scan_up used network broadcast (offset + 1))
      else None)"
  by pat_completeness auto

lemma word_inc:
  fixes a b :: "32 word"
  assumes "a < b"
  shows "unat (a + 1) = unat a + 1"
proof -
  have "unat a + 1 < 2 ^ 32"
    using assms unsigned_less [of b, where 'a = nat] by (simp add: word_less_nat_alt)
  then show ?thesis by (simp add: unat_word_ariths)
qed

termination scan_up
proof (relation "measure (\<lambda>(used, network, broadcast, offset). unat broadcast - unat (network + offset))")
  fix used and network broadcast offset :: "32 word"
  assume "network + offset < broadcast"
  then have "unat (network + (offset + 1)) = unat (network + offset) + 1"
    and "unat (network + offset) < unat broadcast"
    using word_inc [of "network + offset" broadcast] by (simp_all add: add.assoc word_less_nat_alt)
  then show "((used, network, broadcast, offset + 1), used, network, broadcast, offset) \<in>
      measure (\<lambda>(used, network, broadcast, offset). unat broadcast - unat (network + offset))"
    by simp
qed simp

function scan_wrap ::
    "(32 word \<Rightarrow> bool) \<Rightarrow> 32 word \<Rightarrow> 32 word \<Rightarrow> 32 word \<Rightarrow> 32 word \<Rightarrow> 32 word option" where
  "scan_wrap used network broadcast start offset =
     (if offset < start then
        (if network + offset \<ge> broadcast then None
         else if \<not> used (network + offset) then Some offset
         else scan_wrap used network broadcast start (offset + 1))
      else None)"
  by pat_completeness auto
termination
proof (relation "measure (\<lambda>(used, network, broadcast, start, offset). unat start - unat offset)")
  fix used and network broadcast start offset :: "32 word"
  assume "offset < start"
  then show "((used, network, broadcast, start, offset + 1), used, network, broadcast, start, offset) \<in>
      measure (\<lambda>(used, network, broadcast, start, offset). unat start - unat offset)"
    using word_inc [of offset start] by (simp add: word_less_nat_alt)
qed simp

declare scan_up.simps [simp del] scan_wrap.simps [simp del]

definition Allocate :: "string \<Rightarrow> IPAM \<Rightarrow> (ipam_error + 32 word) \<times> IPAM" where
  "Allocate nodeID m =
     (case fmlookup (im_allocated m) nodeID of
        Some ip \<Rightarrow> (Inr ip, m)
      | None \<Rightarrow>
          (case scan_up (ip_used m) (im_network m) (im_broadcast m) (im_nextHost m) of
             Some offset \<Rightarrow>
               (Inr (im_network m + offset),
                m\<lparr>im_allocated := fmupd nodeID (im_network m + offset) (im_allocated m),
                  im_nextHost := offset + 1\<rparr>)
           | None \<Rightarrow>
               (case scan_wrap (ip_used m) (im_network m) (im_broadcast m) (im_nextHost m) 1 of
                  Some offset \<Rightarrow>
                    (Inr (im_network m + offset),
                     m\<lparr>im_allocated := fmupd nodeID (im_network m + offset) (im_allocated m),
                       im_nextHost := offset + 1\<rparr>)
                | None \<Rightarrow> (Inl ErrExhausted, m))))"

definition Reserve :: "string \<Rightarrow> netip \<Rightarrow> IPAM \<Rightarrow> ipam_error option \<times> IPAM" where
  "Reserve nodeID ip m =
     (case To4 ip of
        None \<Rightarrow> (Some ErrInvalidIPv4, m)
      | Some candidate \<Rightarrow>
          if \<not> net_contains (im_subnet m) (IP4 candidate) then (Some ErrNotInSubnet, m)
          else if candidate = im_network m \<or> candidate = im_broadcast m \<or> candidate = im_gateway m
          then (Some ErrReservedIP, m)
          else (case fmlookup (im_allocated m) nodeID of
                  Some existingIP \<Rightarrow>
                    (if existingIP = candidate then (None, m)
                     else (Some (ErrNodeHasIP existingIP), m))
                | None \<Rightarrow>
                    if ip_taken (im_allocated m) candidate then (Some ErrIPTaken, m)
                    else
                      let m' = m\<lparr>im_allocated := fmupd nodeID candidate (im_allocated m)\<rparr>;
                          nextHost = candidate - im_network m + 1
                      in (None,
                          if nextHost > im_nextHost m \<and> nextHost < im_broadcast m - im_network m
                          then m'\<lparr>im_nextHost := nextHost\<rparr> else m')))"

definition Release :: "string \<Rightarrow> IPAM \<Rightarrow> IPAM" where
  "Release nodeID m = m\<lparr>im_allocated := fmdrop nodeID (im_allocated m)\<rparr>"

definition GetAllocation :: "string \<Rightarrow> IPAM \<Rightarrow> 32 word option" where
  "GetAllocation nodeID m = fmlookup (im_allocated m) nodeID"

definition ListAllocations :: "IPAM \<Rightarrow> (string, 32 word) fmap" where
  "ListAllocations m = im_allocated m"

section \<open>The invariant\<close>

text \<open>
  The network and broadcast addresses are those of the subnet, the next host to try lies
  inside it, and the allocated addresses are hosts of the subnet other than the gateway, no two
  nodes holding the same one.
\<close>

definition is_host :: "IPAM \<Rightarrow> 32 word \<Rightarrow> bool" where
  "is_host m c \<longleftrightarrow> im_network m < c \<and> c < im_broadcast m \<and> c \<noteq> im_gateway m"

definition free_hosts :: "IPAM \<Rightarrow> 32 word set" where
  "free_hosts m = {c. is_host m c \<and> \<not> ip_taken (im_allocated m) c}"

definition ipam_geometry :: "IPAM \<Rightarrow> bool" where
  "ipam_geometry m \<longleftrightarrow>
     To4 (net_ip (im_subnet m)) = Some (im_network m) \<and>
     im_network m AND mask (host_bits (im_subnet m)) = 0 \<and>
     2 \<le> host_bits (im_subnet m) \<and> host_bits (im_subnet m) \<le> 32 \<and>
     im_broadcast m = im_network m OR mask (host_bits (im_subnet m))"

definition ipam_inv :: "IPAM \<Rightarrow> bool" where
  "ipam_inv m \<longleftrightarrow> ipam_geometry m \<and>
     0 < im_nextHost m \<and> unat (im_network m) + unat (im_nextHost m) \<le> unat (im_broadcast m) \<and>
     (\<forall>n c. fmlookup (im_allocated m) n = Some c \<longrightarrow> is_host m c) \<and>
     (\<forall>n n' c. fmlookup (im_allocated m) n = Some c \<and> fmlookup (im_allocated m) n' = Some c
        \<longrightarrow> n = n')"

lemma ipam_invD:
  assumes "ipam_inv m"
  shows "ipam_geometry m" "0 < im_nextHost m"
    "unat (im_network m) + unat (im_nextHost m) \<le> unat (im_broadcast m)"
    "fmlookup (im_allocated m) n = Some c \<Longrightarrow> is_host m c"
    "fmlookup (im_allocated m) n = Some c \<Longrightarrow> fmlookup (im_allocated m) n' = Some c \<Longrightarrow> n = n'"
  using assms unfolding ipam_inv_def by blast+

lemma ip_taken_iff: "ip_taken al c \<longleftrightarrow> (\<exists>n. fmlookup al n = Some c)"
  by (auto simp: ip_taken_def intro!: fBexI fmdomI)

lemma geometry_size:
  assumes "ipam_geometry m"
  shows "unat (im_broadcast m) = unat (im_network m) + (2 ^ host_bits (im_subnet m) - 1)"
    and "unat (im_network m) + 3 \<le> unat (im_broadcast m)"
proof -
  let ?h = "host_bits (im_subnet m)"
  show b: "unat (im_broadcast m) = unat (im_network m) + (2 ^ ?h - 1)"
    using assms unat_broadcast by (simp add: ipam_geometry_def)
  have "(2 :: nat) ^ 2 \<le> 2 ^ ?h" using assms by (intro power_increasing) (simp_all add: ipam_geometry_def)
  then show "unat (im_network m) + 3 \<le> unat (im_broadcast m)" using b by simp
qed

lemma contains_in_range:
  assumes "ipam_geometry m" and "net_contains (im_subnet m) (IP4 c)"
  shows "im_network m \<le> c \<and> c \<le> im_broadcast m"
  using assms prefix_bounds [of "im_network m" "host_bits (im_subnet m)" c]
  by (simp add: ipam_geometry_def net_contains_v4)

text \<open>Every address between the first and the last one is in the subnet.\<close>

lemma host_contained:
  assumes "ipam_inv m" and "is_host m c"
  shows "net_contains (im_subnet m) (IP4 c)"
proof -
  have g: "ipam_geometry m" by (rule ipam_invD(1) [OF assms(1)])
  have "im_network m \<le> c" "c \<le> im_network m OR mask (host_bits (im_subnet m))"
    using assms(2) g by (auto simp: is_host_def ipam_geometry_def)
  then show ?thesis
    using g bounds_prefix [of "im_network m" "host_bits (im_subnet m)" c]
    by (simp add: ipam_geometry_def net_contains_v4)
qed

section \<open>The search loops\<close>

lemma scan_up_Some:
  "scan_up used net bc off = Some o' \<Longrightarrow>
     net + o' < bc \<and> \<not> used (net + o') \<and> net + off \<le> net + o'"
proof (induction used net bc off rule: scan_up.induct)
  case (1 used net bc off)
  show ?case
  proof (cases "net + off < bc \<and> used (net + off)")
    case True
    then have rec: "scan_up used net bc (off + 1) = Some o'"
      using "1.prems" by (simp add: scan_up.simps [of used net bc off])
    have "net + off \<le> net + (off + 1)"
      using word_inc [of "net + off" bc] True by (simp add: add.assoc word_le_nat_alt)
    then show ?thesis using "1.IH" True rec by (meson order_trans)
  next
    case False
    then show ?thesis
      using "1.prems" by (auto simp: scan_up.simps [of used net bc off] split: if_splits)
  qed
qed

lemma scan_up_None:
  "scan_up used net bc off = None \<Longrightarrow> net + off \<le> c \<Longrightarrow> c < bc \<Longrightarrow> used c"
proof (induction used net bc off rule: scan_up.induct)
  case (1 used net bc off)
  have lt: "net + off < bc" using "1.prems" by simp
  then have u: "used (net + off)" and rec: "scan_up used net bc (off + 1) = None"
    using "1.prems"(1) by (auto simp: scan_up.simps [of used net bc off] split: if_splits)
  show ?case
  proof (cases "c = net + off")
    case True
    then show ?thesis using u by simp
  next
    case False
    then have "net + off < c" using "1.prems"(2) by simp
    then have "net + (off + 1) \<le> c"
      using word_inc [OF lt] by (simp add: add.assoc word_le_nat_alt word_less_nat_alt)
    then show ?thesis using "1.IH" lt u rec "1.prems"(3) by simp
  qed
qed

lemma scan_wrap_Some:
  "scan_wrap used net bc start off = Some o' \<Longrightarrow>
     off \<le> o' \<and> o' < start \<and> net + o' < bc \<and> \<not> used (net + o')"
proof (induction used net bc start off rule: scan_wrap.induct)
  case (1 used net bc start off)
  show ?case
  proof (cases "off < start \<and> net + off < bc \<and> used (net + off)")
    case True
    then have rec: "scan_wrap used net bc start (off + 1) = Some o'"
      using "1.prems" by (auto simp: scan_wrap.simps [of used net bc start off] not_le split: if_splits)
    have "off \<le> off + 1" using word_inc [of off start] True by (simp add: word_le_nat_alt)
    then show ?thesis using "1.IH" True rec by fastforce
  next
    case False
    then show ?thesis
      using "1.prems" by (auto simp: scan_wrap.simps [of used net bc start off] not_le split: if_splits)
  qed
qed

lemma unat_net_add:
  fixes net off :: "32 word"
  shows "unat net + unat off < 2 ^ 32 \<Longrightarrow> unat (net + off) = unat net + unat off"
  by (simp add: unat_word_ariths)

lemma scan_wrap_None:
  "scan_wrap used net bc start off = None \<Longrightarrow> unat net + unat start < 2 ^ 32 \<Longrightarrow>
     unat net + unat off \<le> unat c \<Longrightarrow> unat c < unat net + unat start \<Longrightarrow> c < bc \<Longrightarrow> used c"
proof (induction used net bc start off rule: scan_wrap.induct)
  case (1 used net bc start off)
  have lt: "off < start" using "1.prems" by (simp add: word_less_nat_alt)
  have na: "unat (net + off) = unat net + unat off"
    using "1.prems" by (intro unat_net_add) simp
  then have nb: "net + off < bc"
    using "1.prems" by (simp add: word_less_nat_alt)
  have u: "used (net + off)" and rec: "scan_wrap used net bc start (off + 1) = None"
    using "1.prems"(1) lt nb by (auto simp: scan_wrap.simps [of used net bc start off] split: if_splits)
  show ?case
  proof (cases "c = net + off")
    case True
    then show ?thesis using u by simp
  next
    case False
    then have "unat c \<noteq> unat (net + off)" by (metis unsigned_word_eqI)
    then have "unat net + unat (off + 1) \<le> unat c"
      using "1.prems"(3) na word_inc [OF lt] by simp
    then show ?thesis using "1.IH" lt nb u rec "1.prems" by simp
  qed
qed

section \<open>What \<open>Allocate\<close> does\<close>

lemma unat_diff_add:
  fixes net off :: "32 word"
  assumes "net \<le> net + off"
  shows "unat (net + off) = unat net + unat off"
proof -
  have "unat (net + off - net) = unat (net + off) - unat net" using assms by (rule unat_sub)
  then show ?thesis using assms by (simp add: word_le_nat_alt)
qed

lemma not_used_is_free:
  assumes "\<not> ip_used m c" and "im_network m < c" and "c < im_broadcast m"
  shows "c \<in> free_hosts m"
  using assms by (simp add: ip_used_def free_hosts_def is_host_def)

lemma free_not_used:
  assumes "ipam_inv m" and "c \<in> free_hosts m"
  shows "\<not> ip_used m c"
  using assms ipam_invD(1) [OF assms(1)]
  by (auto simp: ip_used_def free_hosts_def is_host_def ipam_geometry_def)

lemma ipam_inv_alloc:
  assumes inv: "ipam_inv m" and free: "im_network m + off \<in> free_hosts m"
  shows "ipam_inv (m\<lparr>im_allocated := fmupd n (im_network m + off) (im_allocated m),
    im_nextHost := off + 1\<rparr>)"
proof -
  let ?c = "im_network m + off"
  let ?m = "m\<lparr>im_allocated := fmupd n ?c (im_allocated m), im_nextHost := off + 1\<rparr>"
  have host: "is_host m ?c" and nt: "\<And>k. fmlookup (im_allocated m) k \<noteq> Some ?c"
    using free by (auto simp: free_hosts_def ip_taken_iff)
  have lt: "im_network m < ?c" "?c < im_broadcast m" using host by (auto simp: is_host_def)
  have eq: "unat ?c = unat (im_network m) + unat off" using lt by (intro unat_diff_add) simp
  have lim: "unat (im_network m) + unat off < unat (im_broadcast m)"
    using lt(2) eq by (simp add: word_less_nat_alt)
  then have inc: "unat (off + 1) = unat off + 1"
    using unsigned_less [of "im_broadcast m", where 'a = nat] by (simp add: unat_word_ariths)
  have "ipam_geometry ?m" using ipam_invD(1) [OF inv] by (simp add: ipam_geometry_def)
  moreover have "0 < off + 1" using inc by (simp add: word_less_nat_alt)
  moreover have "is_host ?m = is_host m" by (simp add: is_host_def fun_eq_iff)
  moreover have "unat (im_network m) + unat (off + 1) \<le> unat (im_broadcast m)" using lim inc by simp
  ultimately show ?thesis
    using host nt ipam_invD(4,5) [OF inv] unfolding ipam_inv_def by simp metis
qed

lemma Allocate_new:
  assumes inv: "ipam_inv m" and new: "fmlookup (im_allocated m) n = None"
  shows "(\<exists>off. im_network m + off \<in> free_hosts m \<and>
            Allocate n m = (Inr (im_network m + off),
              m\<lparr>im_allocated := fmupd n (im_network m + off) (im_allocated m), im_nextHost := off + 1\<rparr>))
       \<or> (free_hosts m = {} \<and> Allocate n m = (Inl ErrExhausted, m))"
proof -
  let ?net = "im_network m" and ?bc = "im_broadcast m" and ?nh = "im_nextHost m"
  have sum: "unat ?net + unat ?nh < 2 ^ 32"
    using ipam_invD(3) [OF inv] unsigned_less [of ?bc, where 'a = nat] by simp
  have start: "unat (?net + ?nh) = unat ?net + unat ?nh" using sum by (rule unat_net_add)
  show ?thesis
  proof (cases "scan_up (ip_used m) ?net ?bc ?nh")
    case (Some off)
    then have s: "?net + off < ?bc" "\<not> ip_used m (?net + off)" "?net + ?nh \<le> ?net + off"
      using scan_up_Some by blast+
    have "?net < ?net + off"
      using s(3) start ipam_invD(2) [OF inv] by (simp add: word_less_nat_alt word_le_nat_alt)
    then have "?net + off \<in> free_hosts m" using s by (intro not_used_is_free)
    then show ?thesis using Some new by (auto simp: Allocate_def)
  next
    case None
    note up = None
    show ?thesis
    proof (cases "scan_wrap (ip_used m) ?net ?bc ?nh 1")
      case (Some off)
      then have s: "1 \<le> off" "off < ?nh" "?net + off < ?bc" "\<not> ip_used m (?net + off)"
        using scan_wrap_Some by blast+
      have "unat (?net + off) = unat ?net + unat off"
        using s(2) sum by (intro unat_net_add) (simp add: word_less_nat_alt)
      then have "?net < ?net + off" using s(1) by (simp add: word_less_nat_alt word_le_nat_alt)
      then have "?net + off \<in> free_hosts m" using s by (intro not_used_is_free)
      then show ?thesis using Some up new by (auto simp: Allocate_def)
    next
      case None
      have "ip_used m c" if "?net < c" "c < ?bc" for c
      proof (cases "?net + ?nh \<le> c")
        case True
        then show ?thesis using scan_up_None [OF up] that by blast
      next
        case False
        then have "unat c < unat ?net + unat ?nh" using start by (simp add: word_le_nat_alt)
        then show ?thesis
          using scan_wrap_None [OF None sum, of c] that by (simp add: word_less_nat_alt)
      qed
      then have "free_hosts m = {}" using free_not_used [OF inv] by (auto simp: free_hosts_def is_host_def)
      then show ?thesis using None up new by (simp add: Allocate_def)
    qed
  qed
qed

lemma Allocate_known: "fmlookup (im_allocated m) n = Some ip \<Longrightarrow> Allocate n m = (Inr ip, m)"
  by (simp add: Allocate_def)

lemma Allocate_inv: "ipam_inv m \<Longrightarrow> ipam_inv (snd (Allocate n m))"
  using Allocate_new [of m n] ipam_inv_alloc [of m]
  by (cases "fmlookup (im_allocated m) n") (auto simp: Allocate_known)

section \<open>\<open>Reserve\<close>, \<open>Release\<close> and the constructor\<close>

lemma Reserve_host:
  assumes "ipam_inv m" and "net_contains (im_subnet m) (IP4 c)"
    and "\<not> (c = im_network m \<or> c = im_broadcast m \<or> c = im_gateway m)"
  shows "is_host m c"
  using contains_in_range [OF ipam_invD(1) [OF assms(1)] assms(2)] assms(3)
  by (auto simp: is_host_def order_less_le)

lemma Reserve_ok:
  assumes inv: "ipam_inv m" and ok: "Reserve n ip m = (None, m')"
  shows "\<exists>c. To4 ip = Some c \<and> fmlookup (im_allocated m') n = Some c \<and>
    im_allocated m' = fmupd n c (im_allocated m) \<and>
    (\<forall>k. fmlookup (im_allocated m) k = Some c \<longrightarrow> k = n) \<and> is_host m c \<and>
    (m' = m \<or> (fmlookup (im_allocated m) n = None \<and>
       (m' = m\<lparr>im_allocated := fmupd n c (im_allocated m)\<rparr> \<or>
        (c - im_network m + 1 > im_nextHost m \<and> c - im_network m + 1 < im_broadcast m - im_network m \<and>
         m' = m\<lparr>im_allocated := fmupd n c (im_allocated m), im_nextHost := c - im_network m + 1\<rparr>))))"
proof -
  obtain c where c: "To4 ip = Some c" using ok by (auto simp: Reserve_def split: option.splits)
  have host: "is_host m c"
    using ok c by (intro Reserve_host [OF inv]) (auto simp: Reserve_def split: if_splits)
  show ?thesis
  proof (cases "fmlookup (im_allocated m) n")
    case None
    then show ?thesis
      using ok c host by (auto simp: Reserve_def Let_def ip_taken_iff split: if_splits)
  next
    case (Some e)
    then have "e = c" "m' = m" using ok c by (auto simp: Reserve_def split: if_splits)
    then show ?thesis using Some c host ipam_invD(5) [OF inv] by (metis fmupd_idem)
  qed
qed

lemma Reserve_err: "Reserve n ip m = (Some e, m') \<Longrightarrow> m' = m"
  by (auto simp: Reserve_def Let_def split: option.splits if_splits)

lemma NewIPAM_inv:
  assumes "NewIPAM pc pi s g = Inr m" and "\<And>n. pc s = Some n \<Longrightarrow> cidr_ok n"
  shows "ipam_inv m \<and> im_allocated m = fmempty"
proof -
  obtain n net gw where n: "pc s = Some n" "To4 (net_ip n) = Some net" "To4 (pi g) = Some gw"
      "2 \<le> host_bits n"
    and m: "m = \<lparr>im_subnet = n, im_gateway = gw, im_allocated = fmempty, im_nextHost = 1,
              im_network = net, im_broadcast = net OR (push_bit (host_bits n) 1 - 1)\<rparr>"
    using assms(1) by (auto simp: NewIPAM_def split: option.splits if_splits)
  have g: "ipam_geometry m"
    using cidr_ok_v4 [OF assms(2) n(2)] n by (simp add: m ipam_geometry_def mask_eq_exp_minus_1)
  then show ?thesis
    using geometry_size(2) [OF g] by (simp add: ipam_inv_def m)
qed

lemma ipam_inv_insert:
  assumes inv: "ipam_inv m" and host: "is_host m c"
    and nt: "\<forall>k. fmlookup (im_allocated m) k \<noteq> Some c"
  shows "ipam_inv (m\<lparr>im_allocated := fmupd n c (im_allocated m)\<rparr>)"
proof -
  let ?m = "m\<lparr>im_allocated := fmupd n c (im_allocated m)\<rparr>"
  have "ipam_geometry ?m = ipam_geometry m" by (simp add: ipam_geometry_def)
  moreover have "is_host ?m = is_host m" by (simp add: is_host_def fun_eq_iff)
  ultimately show ?thesis
    using inv host nt unfolding ipam_inv_def by simp
qed

lemma ipam_inv_nextHost:
  assumes inv: "ipam_inv m" and h: "im_nextHost m < h" "h < im_broadcast m - im_network m"
  shows "ipam_inv (m\<lparr>im_nextHost := h\<rparr>)"
proof -
  have "im_network m \<le> im_broadcast m"
    using geometry_size(2) [OF ipam_invD(1) [OF inv]] by (simp add: word_le_nat_alt)
  then have "unat (im_broadcast m - im_network m) = unat (im_broadcast m) - unat (im_network m)"
    by (rule unat_sub)
  then have "unat (im_network m) + unat h \<le> unat (im_broadcast m)"
    using h(2) by (simp add: word_less_nat_alt)
  moreover have "0 < h" using h(1) by (simp add: word_less_nat_alt)
  moreover have "ipam_geometry (m\<lparr>im_nextHost := h\<rparr>) = ipam_geometry m"
    and "is_host (m\<lparr>im_nextHost := h\<rparr>) = is_host m"
    by (simp_all add: ipam_geometry_def is_host_def fun_eq_iff)
  ultimately show ?thesis using inv unfolding ipam_inv_def by simp
qed

lemma Reserve_inv:
  assumes inv: "ipam_inv m"
  shows "ipam_inv (snd (Reserve n ip m))"
proof (cases "fst (Reserve n ip m)")
  case (Some e)
  then have "snd (Reserve n ip m) = m" using Reserve_err by (metis prod.collapse)
  then show ?thesis using inv by simp
next
  case None
  let ?m = "snd (Reserve n ip m)"
  have ok: "Reserve n ip m = (None, ?m)" using None by (metis prod.collapse)
  then obtain c where c: "\<forall>k. fmlookup (im_allocated m) k = Some c \<longrightarrow> k = n" "is_host m c"
    and cases: "?m = m \<or> (fmlookup (im_allocated m) n = None \<and>
       (?m = m\<lparr>im_allocated := fmupd n c (im_allocated m)\<rparr> \<or>
        (c - im_network m + 1 > im_nextHost m \<and> c - im_network m + 1 < im_broadcast m - im_network m \<and>
         ?m = m\<lparr>im_allocated := fmupd n c (im_allocated m), im_nextHost := c - im_network m + 1\<rparr>)))"
    using Reserve_ok [OF inv ok] by blast
  show ?thesis
  proof (cases "?m = m")
    case True
    then show ?thesis using inv by simp
  next
    case False
    then have "\<forall>k. fmlookup (im_allocated m) k \<noteq> Some c" using c(1) cases by auto
    then have i: "ipam_inv (m\<lparr>im_allocated := fmupd n c (im_allocated m)\<rparr>)"
      using ipam_inv_insert [OF inv c(2)] by blast
    then show ?thesis
      using cases False ipam_inv_nextHost [OF i, of "c - im_network m + 1"] by auto
  qed
qed

lemma Release_inv: "ipam_inv m \<Longrightarrow> ipam_inv (Release n m)"
  unfolding ipam_inv_def Release_def
  by (simp add: ipam_geometry_def is_host_def) (metis option.distinct(1))

section \<open>The interface \<open>Allocator\<close>\<close>

text \<open>
  The interface of the package as its clients use it, with the laws an implementation keeps:
  what an allocation or reservation records, that a failing call changes nothing, and that no
  address is held twice. \<open>host\<close> is the set of addresses a state of the allocator serves.
\<close>

fun reserve_list ::
    "('n \<Rightarrow> 'a \<Rightarrow> 's \<Rightarrow> 'e option \<times> 's) \<Rightarrow> ('n \<times> 'a) list \<Rightarrow> 's \<Rightarrow> 'e option \<times> 's" where
  "reserve_list reserve [] s = (None, s)"
| "reserve_list reserve ((n, a) # xs) s =
     (case reserve n a s of
        (Some e, s) \<Rightarrow> (Some e, s)
      | (None, s) \<Rightarrow> reserve_list reserve xs s)"

locale ip_allocator =
  fixes alloc :: "'n \<Rightarrow> 's \<Rightarrow> ('e + 'a) \<times> 's"
    and reserve :: "'n \<Rightarrow> 'a \<Rightarrow> 's \<Rightarrow> 'e option \<times> 's"
    and release :: "'n \<Rightarrow> 's \<Rightarrow> 's"
    and get :: "'n \<Rightarrow> 's \<Rightarrow> 'a option"
    and host :: "'s \<Rightarrow> 'a \<Rightarrow> bool"
    and inv :: "'s \<Rightarrow> bool"
  assumes alloc_inv: "inv s \<Longrightarrow> inv (snd (alloc n s))"
    and reserve_inv: "inv s \<Longrightarrow> inv (snd (reserve n a s))"
    and release_inv: "inv s \<Longrightarrow> inv (release n s)"
    and alloc_get: "inv s \<Longrightarrow> alloc n s = (Inr a, s') \<Longrightarrow> get k s' = (if k = n then Some a else get k s)"
    and alloc_err: "inv s \<Longrightarrow> alloc n s = (Inl e, s') \<Longrightarrow> s' = s"
    and reserve_get: "inv s \<Longrightarrow> reserve n a s = (None, s') \<Longrightarrow> get k s' = (if k = n then Some a else get k s)"
    and reserve_err: "reserve n a s = (Some er, s') \<Longrightarrow> s' = s"
    and reserve_host: "host (snd (reserve n a s)) = host s"
    and reserve_free: "inv s \<Longrightarrow> host s a \<Longrightarrow> get n s = None \<Longrightarrow> \<forall>k. get k s \<noteq> Some a \<Longrightarrow> fst (reserve n a s) = None"
    and release_get: "get k (release n s) = (if k = n then None else get k s)"
    and get_host: "inv s \<Longrightarrow> get n s = Some a \<Longrightarrow> host s a"
    and get_inj: "inv s \<Longrightarrow> get n s = Some a \<Longrightarrow> get n' s = Some a \<Longrightarrow> n = n'"
begin

lemma alloc_fresh:
  assumes "inv s" and "alloc n s = (Inr a, s')" and "get k s = Some a"
  shows "k = n"
proof (rule ccontr)
  assume k: "k \<noteq> n"
  have "inv s'" using alloc_inv [OF assms(1), of n] assms(2) by simp
  moreover have "get k s' = Some a" "get n s' = Some a"
    using alloc_get [OF assms(1,2)] assms(3) k by simp_all
  ultimately show False using get_inj k by blast
qed

text \<open>
  Replaying a table of reservations into an allocator that holds none of them succeeds, when
  the table names hosts and repeats neither a node nor an address, and the allocator then holds
  exactly the table on top of what it held.
\<close>

lemma reserve_list_ok:
  assumes "inv s" and "distinct (map fst xs)" and "distinct (map snd xs)"
    and "\<forall>(n, a) \<in> set xs. host s a \<and> get n s = None \<and> (\<forall>k. get k s \<noteq> Some a)"
  shows "\<exists>s'. reserve_list reserve xs s = (None, s') \<and> inv s' \<and>
    (\<forall>k. get k s' = (case map_of xs k of Some a \<Rightarrow> Some a | None \<Rightarrow> get k s))"
  using assms
proof (induction xs arbitrary: s)
  case Nil
  then show ?case by simp
next
  case (Cons x xs)
  obtain n a where x: "x = (n, a)" by (cases x)
  have h: "host s a" "get n s = None" "\<forall>k. get k s \<noteq> Some a" using Cons.prems(4) x by auto
  then obtain s1 where s1: "reserve n a s = (None, s1)"
    using reserve_free [OF Cons.prems(1)] by (metis prod.collapse)
  have g: "get k s1 = (if k = n then Some a else get k s)" for k
    by (rule reserve_get [OF Cons.prems(1) s1])
  have i1: "inv s1" using reserve_inv [OF Cons.prems(1), of n a] s1 by simp
  have h1: "host s1 = host s" using reserve_host [of n a s] s1 by simp
  have "\<forall>(m, b) \<in> set xs. host s1 b \<and> get m s1 = None \<and> (\<forall>k. get k s1 \<noteq> Some b)"
  proof (clarify)
    fix m b assume mb: "(m, b) \<in> set xs"
    then have "m \<noteq> n" "b \<noteq> a"
      using Cons.prems(2,3) x by (force simp: in_set_conv_decomp)+
    then show "host s1 b \<and> get m s1 = None \<and> (\<forall>k. get k s1 \<noteq> Some b)"
      using Cons.prems(4) mb g h1 by auto
  qed
  then obtain s' where s': "reserve_list reserve xs s1 = (None, s')" "inv s'"
      "\<forall>k. get k s' = (case map_of xs k of Some a \<Rightarrow> Some a | None \<Rightarrow> get k s1)"
    using Cons.IH [OF i1] Cons.prems(2,3) by auto
  have "n \<notin> set (map fst xs)" using Cons.prems(2) x by simp
  then have "map_of xs n = None" by (simp add: map_of_eq_None_iff)
  then have "\<forall>k. get k s' = (case map_of (x # xs) k of Some a \<Rightarrow> Some a | None \<Rightarrow> get k s)"
    using s'(3) g by (simp add: x split: option.splits)
  then show ?case using s' s1 x by simp
qed

end

lemma Allocate_get:
  assumes "ipam_inv m" and "Allocate n m = (Inr a, m')"
  shows "GetAllocation k m' = (if k = n then Some a else GetAllocation k m)"
  using Allocate_new [OF assms(1), of n] assms(2)
  by (cases "fmlookup (im_allocated m) n") (auto simp: Allocate_known GetAllocation_def)

interpretation ipam: ip_allocator Allocate "\<lambda>n c. Reserve n (IP4 c)" Release GetAllocation is_host ipam_inv
proof unfold_locales
  fix m m' n n' k a and e :: ipam_error
  show "ipam_inv m \<Longrightarrow> ipam_inv (snd (Allocate n m))" by (rule Allocate_inv)
  show "ipam_inv m \<Longrightarrow> ipam_inv (snd (Reserve n (IP4 a) m))" by (rule Reserve_inv)
  show "ipam_inv m \<Longrightarrow> ipam_inv (Release n m)" by (rule Release_inv)
  show "ipam_inv m \<Longrightarrow> Allocate n m = (Inr a, m') \<Longrightarrow>
      GetAllocation k m' = (if k = n then Some a else GetAllocation k m)" by (rule Allocate_get)
  show "ipam_inv m \<Longrightarrow> Allocate n m = (Inl e, m') \<Longrightarrow> m' = m"
    using Allocate_new [of m n] by (cases "fmlookup (im_allocated m) n") (auto simp: Allocate_known)
  show "ipam_inv m \<Longrightarrow> Reserve n (IP4 a) m = (None, m') \<Longrightarrow>
      GetAllocation k m' = (if k = n then Some a else GetAllocation k m)"
    using Reserve_ok [of m n "IP4 a" m'] by (auto simp: GetAllocation_def)
  show "Reserve n (IP4 a) m = (Some e, m') \<Longrightarrow> m' = m" by (rule Reserve_err)
  show "is_host (snd (Reserve n (IP4 a) m)) = is_host m"
    by (simp add: Reserve_def Let_def is_host_def fun_eq_iff split: option.splits)
  show "GetAllocation k (Release n m) = (if k = n then None else GetAllocation k m)"
    by (simp add: GetAllocation_def Release_def)
  show "ipam_inv m \<Longrightarrow> GetAllocation n m = Some a \<Longrightarrow> is_host m a"
    using ipam_invD(4) by (simp add: GetAllocation_def)
  show "ipam_inv m \<Longrightarrow> GetAllocation n m = Some a \<Longrightarrow> GetAllocation n' m = Some a \<Longrightarrow> n = n'"
    using ipam_invD(5) by (simp add: GetAllocation_def)
  show "ipam_inv m \<Longrightarrow> is_host m a \<Longrightarrow> GetAllocation n m = None \<Longrightarrow>
      \<forall>k. GetAllocation k m \<noteq> Some a \<Longrightarrow> fst (Reserve n (IP4 a) m) = None"
    using host_contained [of m a]
    by (auto simp: Reserve_def GetAllocation_def ip_taken_iff is_host_def Let_def)
qed

section \<open>Runs\<close>

text \<open>What the control plane does with an allocator over its life.\<close>

datatype ipam_op =
    OpAllocate string
  | OpReserve string netip
  | OpRelease string

fun ipam_step :: "ipam_op \<Rightarrow> IPAM \<Rightarrow> IPAM" where
  "ipam_step (OpAllocate n) m = snd (Allocate n m)"
| "ipam_step (OpReserve n ip) m = snd (Reserve n ip m)"
| "ipam_step (OpRelease n) m = Release n m"

definition ipam_run :: "ipam_op list \<Rightarrow> IPAM \<Rightarrow> IPAM" where
  "ipam_run = fold ipam_step"

lemma ipam_step_inv: "ipam_inv m \<Longrightarrow> ipam_inv (ipam_step op m)"
  by (cases op) (auto intro: Allocate_inv Reserve_inv Release_inv)

lemma ipam_run_inv: "ipam_inv m \<Longrightarrow> ipam_inv (ipam_run ops m)"
  by (induction ops arbitrary: m) (auto simp: ipam_run_def intro: ipam_step_inv)

lemma ipam_step_subnet: "im_subnet (ipam_step op m) = im_subnet m"
  by (cases op) (auto simp: Allocate_def Reserve_def Release_def Let_def split: option.splits)

lemma ipam_run_subnet: "im_subnet (ipam_run ops m) = im_subnet m"
  by (induction ops arbitrary: m) (auto simp: ipam_run_def ipam_step_subnet)

section \<open>Properties\<close>

text \<open>
  C6: \<open>Allocate\<close> refines the choice of a free address. For a node that has none it returns a
  host of the subnet that no node holds, records it and takes it out of the free addresses; it
  fails only when no address is free, and then it changes nothing. In particular the two search
  loops together miss no address and the \<open>uint32\<close> arithmetic never wraps.
\<close>

theorem ipam_allocate_refines:
  assumes "ipam_inv m" and "GetAllocation n m = None"
  shows "case Allocate n m of
      (Inr ip, m') \<Rightarrow> ip \<in> free_hosts m \<and> free_hosts m' = free_hosts m - {ip}
        \<and> ListAllocations m' = fmupd n ip (ListAllocations m) \<and> ipam_inv m'
    | (Inl e, m') \<Rightarrow> e = ErrExhausted \<and> free_hosts m = {} \<and> m' = m"
proof -
  have new: "fmlookup (im_allocated m) n = None" using assms(2) by (simp add: GetAllocation_def)
  from Allocate_new [OF assms(1) new] show ?thesis
  proof
    assume "\<exists>off. im_network m + off \<in> free_hosts m \<and> Allocate n m = (Inr (im_network m + off),
      m\<lparr>im_allocated := fmupd n (im_network m + off) (im_allocated m), im_nextHost := off + 1\<rparr>)"
    then obtain off where "im_network m + off \<in> free_hosts m"
      and "Allocate n m = (Inr (im_network m + off),
        m\<lparr>im_allocated := fmupd n (im_network m + off) (im_allocated m), im_nextHost := off + 1\<rparr>)"
      by blast
    then show ?thesis
      using ipam_inv_alloc [OF assms(1)] new
      by (auto simp: ListAllocations_def free_hosts_def is_host_def ip_taken_iff split: if_splits)
  qed simp
qed

theorem ipam_allocate_refines_witness:
  "\<exists>m. ipam_inv m \<and> (case Allocate ''a'' m of (Inr ip, m') \<Rightarrow> ip \<in> free_hosts m | _ \<Rightarrow> False)"
proof -
  let ?n = "\<lparr>net_ip = IP4 0x0A000000, ones = 29, bits = 32\<rparr>"
  let ?m = "\<lparr>im_subnet = ?n, im_gateway = 0x0A000001, im_allocated = fmempty, im_nextHost = 1,
      im_network = 0x0A000000, im_broadcast = 0x0A000007\<rparr>"
  have "NewIPAM (\<lambda>_. Some ?n) (\<lambda>_. IP4 0x0A000001) [] [] = Inr ?m"
    by (simp add: NewIPAM_def net_contains_def host_bits_def mask_eq_exp_minus_1)
  then have inv: "ipam_inv ?m"
    using NewIPAM_inv [of "\<lambda>_. Some ?n" "\<lambda>_. IP4 0x0A000001" "[]" "[]" ?m]
    by (simp add: cidr_ok_def host_bits_def mask_eq_exp_minus_1)
  have "GetAllocation ''a'' ?m = None" by (simp add: GetAllocation_def)
  note r = ipam_allocate_refines [OF inv this]
  have f: "0x0A000002 \<in> free_hosts ?m" by (simp add: free_hosts_def is_host_def ip_taken_def)
  obtain x m' where a: "Allocate ''a'' ?m = (x, m')" by (cases "Allocate ''a'' ?m")
  have "case (x, m') of (Inr ip, m') \<Rightarrow> ip \<in> free_hosts ?m | _ \<Rightarrow> False"
  proof (cases x)
    case (Inl e)
    then have "free_hosts ?m = {}" using r unfolding a by (simp only: prod.case sum.case)
    then show ?thesis using f by blast
  next
    case (Inr ip)
    then have "ip \<in> free_hosts ?m" using r unfolding a by (simp only: prod.case sum.case)
    then show ?thesis using Inr by (simp only: prod.case sum.case)
  qed
  then show ?thesis using inv a by metis
qed

text \<open>
  No two nodes ever share a virtual address. From a fresh allocator over any CIDR that
  \<open>net.ParseCIDR\<close> accepted, whatever sequence of allocations, reservations and releases runs,
  every recorded address lies in the subnet, is neither the network, nor the broadcast, nor the
  gateway address, and belongs to one node. The hypothesis is the documented form of
  \<open>net.ParseCIDR\<close>'s result: the address is masked.
\<close>

theorem ipam_no_sharing:
  assumes "NewIPAM ParseCIDR ParseIP s g = Inr m" and "\<forall>n. ParseCIDR s = Some n \<longrightarrow> cidr_ok n"
    and "fmlookup (ListAllocations (ipam_run ops m)) node = Some ip"
  shows "net_contains (im_subnet m) (IP4 ip) \<and> ip \<noteq> im_network (ipam_run ops m) \<and>
    ip \<noteq> im_broadcast (ipam_run ops m) \<and> ip \<noteq> im_gateway (ipam_run ops m) \<and>
    (\<forall>node'. fmlookup (ListAllocations (ipam_run ops m)) node' = Some ip \<longrightarrow> node' = node)"
proof -
  let ?m = "ipam_run ops m"
  have inv: "ipam_inv ?m" using NewIPAM_inv [OF assms(1)] assms(2) ipam_run_inv by blast
  have get: "GetAllocation node ?m = Some ip"
    using assms(3) by (simp add: GetAllocation_def ListAllocations_def)
  have host: "is_host ?m ip" by (rule ipam.get_host [OF inv get])
  have "net_contains (im_subnet m) (IP4 ip)"
    using host_contained [OF inv host] by (simp add: ipam_run_subnet)
  then show ?thesis
    using host ipam.get_inj [OF inv get]
    by (auto simp: is_host_def GetAllocation_def ListAllocations_def)
qed

theorem ipam_no_sharing_witness:
  "\<exists>m. NewIPAM (\<lambda>_. Some \<lparr>net_ip = IP4 0x0A000000, ones = 29, bits = 32\<rparr>) (\<lambda>_. IP4 0x0A000001) [] [] = Inr m
     \<and> net_contains (im_subnet m) (IP4 0x0A000003)
     \<and> fmlookup (ListAllocations (ipam_run [OpReserve ''a'' (IP4 0x0A000003)] m)) ''a'' = Some 0x0A000003"
proof -
  let ?n = "\<lparr>net_ip = IP4 0x0A000000, ones = 29, bits = 32\<rparr>"
  let ?m = "\<lparr>im_subnet = ?n, im_gateway = 0x0A000001, im_allocated = fmempty, im_nextHost = 1,
      im_network = 0x0A000000, im_broadcast = 0x0A000007\<rparr>"
  have n: "NewIPAM (\<lambda>_. Some ?n) (\<lambda>_. IP4 0x0A000001) [] [] = Inr ?m"
    by (simp add: NewIPAM_def net_contains_def host_bits_def mask_eq_exp_minus_1)
  have c: "\<forall>n. (\<lambda>_ :: string. Some ?n) [] = Some n \<longrightarrow> cidr_ok n"
    by (simp add: cidr_ok_def host_bits_def mask_eq_exp_minus_1)
  have a: "fmlookup (ListAllocations (ipam_run [OpReserve ''a'' (IP4 0x0A000003)] ?m)) ''a'' = Some 0x0A000003"
    by (simp add: ipam_run_def Reserve_def net_contains_def host_bits_def mask_eq_exp_minus_1
        ip_taken_def ListAllocations_def Let_def)
  show ?thesis using ipam_no_sharing [OF n c a] n a by blast
qed

text \<open>
  Releasing a node's address gives exactly that address back: it becomes free again, the
  other nodes keep theirs, and a node that holds an address is given the same one again without
  any change of the allocator.
\<close>

theorem ipam_release_restores:
  assumes "ipam_inv m" and "GetAllocation n m = Some ip"
  shows "free_hosts (Release n m) = insert ip (free_hosts m) \<and> GetAllocation n (Release n m) = None
    \<and> (\<forall>k. k \<noteq> n \<longrightarrow> GetAllocation k (Release n m) = GetAllocation k m)
    \<and> Allocate n m = (Inr ip, m)"
proof -
  have l: "fmlookup (im_allocated m) n = Some ip" using assms(2) by (simp add: GetAllocation_def)
  have "is_host m ip" by (rule ipam.get_host [OF assms])
  moreover have inj: "k = n" if "fmlookup (im_allocated m) k = Some ip" for k
    using ipam_invD(5) [OF assms(1) that l] .
  have "ip_taken (im_allocated (Release n m)) c \<longleftrightarrow> ip_taken (im_allocated m) c \<and> c \<noteq> ip" for c
  proof -
    have "(\<exists>k. fmlookup (im_allocated (Release n m)) k = Some c) \<longleftrightarrow>
        (\<exists>k. k \<noteq> n \<and> fmlookup (im_allocated m) k = Some c)"
      by (rule ex_cong1) (simp add: Release_def)
    also have "\<dots> \<longleftrightarrow> (\<exists>k. fmlookup (im_allocated m) k = Some c) \<and> c \<noteq> ip"
      using l inj by (metis option.inject)
    finally show ?thesis unfolding ip_taken_iff .
  qed
  moreover have "is_host (Release n m) = is_host m"
    by (simp add: is_host_def Release_def fun_eq_iff)
  ultimately have "free_hosts (Release n m) = insert ip (free_hosts m)"
    unfolding free_hosts_def by auto
  then show ?thesis using l by (simp add: ipam.release_get Allocate_known)
qed

theorem ipam_release_restores_witness:
  "\<exists>m ip. GetAllocation ''a'' m = Some ip \<and> free_hosts (Release ''a'' m) = insert ip (free_hosts m)"
proof -
  let ?n = "\<lparr>net_ip = IP4 0x0A000000, ones = 29, bits = 32\<rparr>"
  let ?m = "\<lparr>im_subnet = ?n, im_gateway = 0x0A000001, im_allocated = fmempty, im_nextHost = 1,
      im_network = 0x0A000000, im_broadcast = 0x0A000007\<rparr>"
  let ?m1 = "snd (Reserve ''a'' (IP4 0x0A000003) ?m)"
  have "NewIPAM (\<lambda>_. Some ?n) (\<lambda>_. IP4 0x0A000001) [] [] = Inr ?m"
    by (simp add: NewIPAM_def net_contains_def host_bits_def mask_eq_exp_minus_1)
  then have "ipam_inv ?m"
    using NewIPAM_inv [of "\<lambda>_. Some ?n" "\<lambda>_. IP4 0x0A000001" "[]" "[]" ?m]
    by (simp add: cidr_ok_def host_bits_def mask_eq_exp_minus_1)
  then have inv: "ipam_inv ?m1" by (rule Reserve_inv)
  have a: "GetAllocation ''a'' ?m1 = Some 0x0A000003"
    by (simp add: Reserve_def net_contains_def host_bits_def mask_eq_exp_minus_1
        ip_taken_def GetAllocation_def Let_def)
  show ?thesis using ipam_release_restores [OF inv a] a by blast
qed

end
