(* ===== verification/Route_Table.thy ===== *)
theory Route_Table
  imports Net_Addr
begin

text \<open>
  The routing table of the virtual network (\<open>pkg/ipam/route.go\<close>): a slice of routes with
  \<open>AddRoute\<close>, \<open>RemoveRoute\<close>, \<open>ListRoutes\<close> and the longest-prefix lookup
  \<open>FindRoute\<close>. Destinations are compared by \<open>IPNet.String\<close>, which depends on the address
  brought to 4 bytes where possible and on the length of its mask: \<open>net_key\<close>.
\<close>

record Route =
  rt_Destination :: ipnet
  rt_Gateway :: netip
  rt_Interface :: string
  rt_Metric :: int

type_synonym RouteManager = "Route list"

datatype route_error = ErrRouteExists | ErrRouteNotFound

definition net_key :: "ipnet \<Rightarrow> netip \<times> nat" where
  "net_key n = (case To4 (net_ip n) of
                  Some w \<Rightarrow> (IP4 w, 32 - host_bits n)
                | None \<Rightarrow> (net_ip n, if net_ip n = NilIP then 0 else ones n))"

definition NewRouteManager :: RouteManager where
  "NewRouteManager = []"

definition AddRoute :: "Route \<Rightarrow> RouteManager \<Rightarrow> route_error option \<times> RouteManager" where
  "AddRoute route rm =
     (if \<exists>r \<in> set rm. net_key (rt_Destination r) = net_key (rt_Destination route)
                     \<and> ip_equal (rt_Gateway r) (rt_Gateway route)
      then (Some ErrRouteExists, rm) else (None, rm @ [route]))"

fun RemoveRoute :: "ipnet \<Rightarrow> RouteManager \<Rightarrow> route_error option \<times> RouteManager" where
  "RemoveRoute d [] = (Some ErrRouteNotFound, [])"
| "RemoveRoute d (r # rm) =
     (if net_key (rt_Destination r) = net_key d then (None, rm)
      else (case RemoveRoute d rm of (e, rm') \<Rightarrow> (e, r # rm')))"

definition ListRoutes :: "RouteManager \<Rightarrow> Route list" where
  "ListRoutes rm = rm"

fun find_loop :: "netip \<Rightarrow> Route option \<Rightarrow> nat \<Rightarrow> Route list \<Rightarrow> Route option" where
  "find_loop ip best bestMask [] = best"
| "find_loop ip best bestMask (r # rs) =
     (if net_contains (rt_Destination r) ip \<and> ones (rt_Destination r) > bestMask
      then find_loop ip (Some r) (ones (rt_Destination r)) rs
      else find_loop ip best bestMask rs)"

definition FindRoute :: "netip \<Rightarrow> RouteManager \<Rightarrow> Route option" where
  "FindRoute ip rm = find_loop ip None 0 rm"

section \<open>The lookup\<close>

definition matching :: "netip \<Rightarrow> Route list \<Rightarrow> Route set" where
  "matching ip rm = {r \<in> set rm. net_contains (rt_Destination r) ip \<and> 0 < ones (rt_Destination r)}"

lemma find_loop_keeps:
  "\<forall>r \<in> set rs. net_contains (rt_Destination r) ip \<longrightarrow> ones (rt_Destination r) \<le> k \<Longrightarrow>
     find_loop ip best k rs = best"
  by (induction rs) auto

text \<open>
  The result is either the route the loop started with, when no later one is longer, or the
  first of the longest matching routes that beat it.
\<close>

lemma find_loop_spec:
  "(find_loop ip best k rs = best \<and> (\<forall>r \<in> set rs. net_contains (rt_Destination r) ip \<longrightarrow> ones (rt_Destination r) \<le> k))
   \<or> (\<exists>r ys zs. rs = ys @ r # zs \<and> find_loop ip best k rs = Some r \<and>
        net_contains (rt_Destination r) ip \<and> k < ones (rt_Destination r) \<and>
        (\<forall>y \<in> set ys. net_contains (rt_Destination y) ip \<longrightarrow> ones (rt_Destination y) < ones (rt_Destination r)) \<and>
        (\<forall>z \<in> set zs. net_contains (rt_Destination z) ip \<longrightarrow> ones (rt_Destination z) \<le> ones (rt_Destination r)))"
proof (induction rs arbitrary: best k)
  case Nil
  then show ?case by simp
next
  case (Cons x rs)
  show ?case
  proof (cases "net_contains (rt_Destination x) ip \<and> ones (rt_Destination x) > k")
    case True
    then have eq: "find_loop ip best k (x # rs) = find_loop ip (Some x) (ones (rt_Destination x)) rs"
      by simp
    from Cons.IH [of "Some x" "ones (rt_Destination x)"] show ?thesis
    proof (elim disjE exE conjE)
      assume "find_loop ip (Some x) (ones (rt_Destination x)) rs = Some x"
        and "\<forall>r \<in> set rs. net_contains (rt_Destination r) ip \<longrightarrow> ones (rt_Destination r) \<le> ones (rt_Destination x)"
      then show ?thesis using True eq by (intro disjI2 exI [of _ x] exI [of _ "[]"] exI [of _ rs]) simp
    next
      fix r ys zs
      assume "rs = ys @ r # zs" "find_loop ip (Some x) (ones (rt_Destination x)) rs = Some r"
        "net_contains (rt_Destination r) ip" "ones (rt_Destination x) < ones (rt_Destination r)"
        "\<forall>y \<in> set ys. net_contains (rt_Destination y) ip \<longrightarrow> ones (rt_Destination y) < ones (rt_Destination r)"
        "\<forall>z \<in> set zs. net_contains (rt_Destination z) ip \<longrightarrow> ones (rt_Destination z) \<le> ones (rt_Destination r)"
      then show ?thesis using True eq
        by (intro disjI2 exI [of _ r] exI [of _ "x # ys"] exI [of _ zs]) auto
    qed
  next
    case False
    then have eq: "find_loop ip best k (x # rs) = find_loop ip best k rs" by auto
    from Cons.IH [of best k] show ?thesis
    proof (elim disjE exE conjE)
      assume "find_loop ip best k rs = best"
        and "\<forall>r \<in> set rs. net_contains (rt_Destination r) ip \<longrightarrow> ones (rt_Destination r) \<le> k"
      then show ?thesis using False eq by (intro disjI1) auto
    next
      fix r ys zs
      assume "rs = ys @ r # zs" "find_loop ip best k rs = Some r"
        "net_contains (rt_Destination r) ip" "k < ones (rt_Destination r)"
        "\<forall>y \<in> set ys. net_contains (rt_Destination y) ip \<longrightarrow> ones (rt_Destination y) < ones (rt_Destination r)"
        "\<forall>z \<in> set zs. net_contains (rt_Destination z) ip \<longrightarrow> ones (rt_Destination z) \<le> ones (rt_Destination r)"
      then show ?thesis using False eq
        by (intro disjI2 exI [of _ r] exI [of _ "x # ys"] exI [of _ zs]) auto
    qed
  qed
qed

lemma FindRoute_None: "FindRoute ip rm = None \<longleftrightarrow> matching ip rm = {}"
  using find_loop_spec [of ip None 0 rm] by (auto simp: FindRoute_def matching_def)

lemma RemoveRoute_cases:
  "(\<exists>ys r zs. rm = ys @ r # zs \<and> net_key (rt_Destination r) = net_key d \<and>
      (\<forall>y \<in> set ys. net_key (rt_Destination y) \<noteq> net_key d) \<and> RemoveRoute d rm = (None, ys @ zs))
   \<or> ((\<forall>y \<in> set rm. net_key (rt_Destination y) \<noteq> net_key d) \<and> RemoveRoute d rm = (Some ErrRouteNotFound, rm))"
proof (induction rm)
  case Nil
  then show ?case by simp
next
  case (Cons x rm)
  show ?case
  proof (cases "net_key (rt_Destination x) = net_key d")
    case True
    then show ?thesis by (intro disjI1 exI [of _ "[]"] exI [of _ x] exI [of _ rm]) simp
  next
    case False
    from Cons.IH show ?thesis
    proof (elim disjE exE conjE)
      fix ys r zs
      assume "rm = ys @ r # zs" "net_key (rt_Destination r) = net_key d"
        "\<forall>y \<in> set ys. net_key (rt_Destination y) \<noteq> net_key d" "RemoveRoute d rm = (None, ys @ zs)"
      then show ?thesis using False
        by (intro disjI1 exI [of _ "x # ys"] exI [of _ r] exI [of _ zs]) simp
    next
      assume "\<forall>y \<in> set rm. net_key (rt_Destination y) \<noteq> net_key d"
        "RemoveRoute d rm = (Some ErrRouteNotFound, rm)"
      then show ?thesis using False by (intro disjI2) simp
    qed
  qed
qed

section \<open>Properties\<close>

text \<open>
  C35: Longest-prefix match. \<open>FindRoute\<close> returns a route that contains the address and whose
  prefix is the longest among those that do, the earliest one of that length in the table; it
  returns nothing only if no route with a non-empty prefix contains the address.
\<close>

theorem find_route_longest_prefix:
  "case FindRoute ip rm of
     Some r \<Rightarrow> r \<in> matching ip rm \<and>
       (\<exists>ys zs. rm = ys @ r # zs \<and>
          (\<forall>y \<in> matching ip ys. ones (rt_Destination y) < ones (rt_Destination r)) \<and>
          (\<forall>z \<in> matching ip zs. ones (rt_Destination z) \<le> ones (rt_Destination r)))
   | None \<Rightarrow> matching ip rm = {}"
proof (cases "FindRoute ip rm")
  case None
  then show ?thesis using FindRoute_None [of ip rm] by simp
next
  case (Some r)
  then obtain ys zs where "rm = ys @ r # zs" "net_contains (rt_Destination r) ip" "0 < ones (rt_Destination r)"
      "\<forall>y \<in> set ys. net_contains (rt_Destination y) ip \<longrightarrow> ones (rt_Destination y) < ones (rt_Destination r)"
      "\<forall>z \<in> set zs. net_contains (rt_Destination z) ip \<longrightarrow> ones (rt_Destination z) \<le> ones (rt_Destination r)"
    using find_loop_spec [of ip None 0 rm] unfolding FindRoute_def by auto
  then have "r \<in> matching ip rm \<and> rm = ys @ r # zs \<and>
      (\<forall>y \<in> matching ip ys. ones (rt_Destination y) < ones (rt_Destination r)) \<and>
      (\<forall>z \<in> matching ip zs. ones (rt_Destination z) \<le> ones (rt_Destination r))"
    by (simp add: matching_def)
  then show ?thesis unfolding Some option.case by blast
qed

theorem find_route_longest_prefix_witness:
  "\<exists>r. r \<in> matching (IP4 0x0A000005)
     [\<lparr>rt_Destination = \<lparr>net_ip = IP4 0x0A000000, ones = 8, bits = 32\<rparr>, rt_Gateway = IP4 1, rt_Interface = ''a'', rt_Metric = 0\<rparr>,
      \<lparr>rt_Destination = \<lparr>net_ip = IP4 0x0A000000, ones = 24, bits = 32\<rparr>, rt_Gateway = IP4 2, rt_Interface = ''b'', rt_Metric = 0\<rparr>]
     \<and> ones (rt_Destination r) = 24"
proof -
  let ?r = "\<lparr>rt_Destination = \<lparr>net_ip = IP4 0x0A000000, ones = 24, bits = 32\<rparr>, rt_Gateway = IP4 2, rt_Interface = ''b'', rt_Metric = 0\<rparr>"
  let ?t = "[\<lparr>rt_Destination = \<lparr>net_ip = IP4 0x0A000000, ones = 8, bits = 32\<rparr>, rt_Gateway = IP4 1, rt_Interface = ''a'', rt_Metric = 0\<rparr>, ?r]"
  have f: "FindRoute (IP4 0x0A000005) ?t = Some ?r"
    by (simp add: FindRoute_def net_contains_def host_bits_def mask_eq_exp_minus_1)
  have "?r \<in> matching (IP4 0x0A000005) ?t"
    using find_route_longest_prefix [of "IP4 0x0A000005" ?t] unfolding f option.case by (rule conjunct1)
  moreover have "ones (rt_Destination ?r) = 24" by simp
  ultimately show ?thesis by blast
qed

text \<open>
  A default route is never used. The lookup starts with a best mask of 0 and wants a
  longer one, so a route to \<open>0.0.0.0/0\<close>, which contains every IPv4 address and which
  \<open>AddRoute\<close> accepts, is not found for any address.
\<close>

theorem default_route_ignored:
  assumes "rt_Destination r = \<lparr>net_ip = IP4 0, ones = 0, bits = 32\<rparr>"
  shows "AddRoute r NewRouteManager = (None, [r]) \<and> net_contains (rt_Destination r) (IP4 w)
    \<and> FindRoute (IP4 w) [r] = None"
proof -
  have "mask 32 = (- 1 :: 32 word)" by (rule bit_word_eqI) (simp add: bit_simps)
  then show ?thesis using assms
    by (simp add: AddRoute_def NewRouteManager_def FindRoute_def net_contains_def host_bits_def)
qed

theorem default_route_ignored_witness:
  "FindRoute (IP4 0x08080808) [\<lparr>rt_Destination = \<lparr>net_ip = IP4 0, ones = 0, bits = 32\<rparr>,
     rt_Gateway = IP4 0x0A000001, rt_Interface = ''nt0'', rt_Metric = 100\<rparr>] = None"
  using default_route_ignored [of "\<lparr>rt_Destination = \<lparr>net_ip = IP4 0, ones = 0, bits = 32\<rparr>,
     rt_Gateway = IP4 0x0A000001, rt_Interface = ''nt0'', rt_Metric = 100\<rparr>"] by simp

text \<open>
  Adding and removing are inverse where they succeed. Adding a route to a destination the
  table does not have and removing that destination gives the table back; removing takes out
  the first route to the destination and no other, and an unknown destination changes nothing.
\<close>

theorem add_remove_route:
  assumes "\<forall>r \<in> set rm. net_key (rt_Destination r) \<noteq> net_key (rt_Destination route)"
  shows "AddRoute route rm = (None, rm @ [route]) \<and>
    RemoveRoute (rt_Destination route) (rm @ [route]) = (None, rm) \<and>
    RemoveRoute (rt_Destination route) rm = (Some ErrRouteNotFound, rm)"
proof -
  have "RemoveRoute (rt_Destination route) rm = (Some ErrRouteNotFound, rm)"
    using RemoveRoute_cases [of rm "rt_Destination route"] assms by auto
  moreover have "RemoveRoute (rt_Destination route) (rm @ [route]) = (None, rm)"
    using assms by (induction rm) auto
  ultimately show ?thesis using assms by (auto simp: AddRoute_def)
qed

theorem add_remove_route_witness:
  "RemoveRoute \<lparr>net_ip = IP4 0x0A000000, ones = 24, bits = 32\<rparr>
     ([] @ [\<lparr>rt_Destination = \<lparr>net_ip = IP4 0x0A000000, ones = 24, bits = 32\<rparr>, rt_Gateway = IP4 2,
             rt_Interface = ''b'', rt_Metric = 0\<rparr>]) = (None, [])"
  using add_remove_route [of "[]" "\<lparr>rt_Destination = \<lparr>net_ip = IP4 0x0A000000, ones = 24, bits = 32\<rparr>,
     rt_Gateway = IP4 2, rt_Interface = ''b'', rt_Metric = 0\<rparr>"] by simp

end
