(* ===== verification/Relay_Config.thy ===== *)
theory Relay_Config
  imports Go_Prelude
begin

text \<open>
  The relay's configuration (\<open>server/internal/relay/config.go\<close>), its defaults and the checks
  \<open>Validate\<close> makes before the server starts, with the shared-token check of
  \<open>server/internal/relay/server.go\<close>. \<open>Validate\<close> changes the configuration it checks, so it
  returns the new one next to the error.
\<close>

record TLSConfig =
  CACert :: string
  Cert :: string
  Key :: string
  InsecureSkipVerify :: bool

definition TLS_Enabled :: "TLSConfig \<Rightarrow> bool" where
  "TLS_Enabled c \<longleftrightarrow> CACert c \<noteq> [] \<and> Cert c \<noteq> [] \<and> Key c \<noteq> []"

record Config =
  BindAddr :: string
  ControlPort :: int
  QUICPort :: int
  AuthToken :: string
  RequireAuth :: bool
  AdminListenAddr :: string
  AdminToken :: string
  HeartbeatTimeout :: duration
  MaxProxiesPerClient :: int
  WorkConnTimeout :: duration
  TLSEnabled :: bool
  TLS :: TLSConfig
  PublicHTTPListen :: string
  PublicHTTPSListen :: string
  DomainSuffix :: string
  PublicTLSMode :: string
  PublicTLSCert :: string
  PublicTLSKey :: string
  ACMEEmail :: string
  RequestLogRetention :: int

definition DefaultConfig :: Config where
  "DefaultConfig =
     \<lparr>BindAddr = ''0.0.0.0'', ControlPort = 7000, QUICPort = 7443, AuthToken = [],
      RequireAuth = False, AdminListenAddr = [], AdminToken = [],
      HeartbeatTimeout = 90 * second, MaxProxiesPerClient = 100, WorkConnTimeout = 30 * second,
      TLSEnabled = False, TLS = \<lparr>CACert = [], Cert = [], Key = [], InsecureSkipVerify = False\<rparr>,
      PublicHTTPListen = [], PublicHTTPSListen = [], DomainSuffix = [], PublicTLSMode = ''off'',
      PublicTLSCert = [], PublicTLSKey = [], ACMEEmail = [], RequestLogRetention = 1000\<rparr>"

datatype config_error =
    AuthTokenRequired string
  | AdminTokenRequired
  | InvalidControlPort int
  | HTTPSRequiresFile
  | FileRequiresCert
  | ACMENotImplemented
  | UnsupportedTLSMode string
  | NegativeRetention

definition auto_require_auth :: "Config \<Rightarrow> Config" where
  "auto_require_auth c =
     (if \<not> RequireAuth c \<and> BindAddr c \<noteq> ''127.0.0.1'' \<and> BindAddr c \<noteq> ''localhost'' \<and> BindAddr c \<noteq> ''::1''
      then c\<lparr>RequireAuth := True\<rparr> else c)"

definition check_tls_mode :: "Config \<Rightarrow> config_error option \<times> Config" where
  "check_tls_mode c =
     (if PublicTLSMode c = '''' \<or> PublicTLSMode c = ''off'' then
        (let c = c\<lparr>PublicTLSMode := ''off''\<rparr> in
         if PublicHTTPSListen c \<noteq> [] then (Some HTTPSRequiresFile, c) else (None, c))
      else if PublicTLSMode c = ''file'' then
        (if PublicHTTPSListen c \<noteq> [] \<and> (PublicTLSCert c = [] \<or> PublicTLSKey c = [])
         then (Some FileRequiresCert, c) else (None, c))
      else if PublicTLSMode c = ''acme'' then (Some ACMENotImplemented, c)
      else (Some (UnsupportedTLSMode (PublicTLSMode c)), c))"

definition Validate :: "Config \<Rightarrow> config_error option \<times> Config" where
  "Validate c0 =
     (let c = auto_require_auth c0 in
      if RequireAuth c \<and> AuthToken c = [] then (Some (AuthTokenRequired (BindAddr c)), c)
      else if AdminListenAddr c \<noteq> [] \<and> AdminToken c = [] then (Some AdminTokenRequired, c)
      else if ControlPort c \<le> 0 \<or> ControlPort c > 65535 then (Some (InvalidControlPort (ControlPort c)), c)
      else (case check_tls_mode c of
              (Some e, c) \<Rightarrow> (Some e, c)
            | (None, c) \<Rightarrow>
                if RequestLogRetention c < 0 then (Some NegativeRetention, c)
                else (None, if TLS_Enabled (TLS c) then c\<lparr>TLSEnabled := True\<rparr> else c)))"

text \<open>\<open>validAuthToken\<close>: the empty token switches the check off.\<close>

definition validAuthToken :: "Config \<Rightarrow> string \<Rightarrow> bool" where
  "validAuthToken cfg token \<longleftrightarrow> AuthToken cfg = [] \<or> token = AuthToken cfg"

text \<open>The addresses on which the relay may run without a token.\<close>

definition loopback :: "string \<Rightarrow> bool" where
  "loopback a \<longleftrightarrow> a \<in> {''127.0.0.1'', ''localhost'', ''::1''}"

definition secure :: "Config \<Rightarrow> bool" where
  "secure c \<longleftrightarrow>
     (\<not> loopback (BindAddr c) \<longrightarrow> AuthToken c \<noteq> []) \<and>
     (RequireAuth c \<longrightarrow> AuthToken c \<noteq> []) \<and>
     (AdminListenAddr c \<noteq> [] \<longrightarrow> AdminToken c \<noteq> []) \<and>
     0 < ControlPort c \<and> ControlPort c \<le> 65535 \<and>
     (PublicTLSMode c = ''off'' \<or> PublicTLSMode c = ''file'') \<and>
     (PublicHTTPSListen c \<noteq> [] \<longrightarrow>
        PublicTLSMode c = ''file'' \<and> PublicTLSCert c \<noteq> [] \<and> PublicTLSKey c \<noteq> []) \<and>
     0 \<le> RequestLogRetention c"

lemma auto_require_auth_fields [simp]:
  "BindAddr (auto_require_auth c) = BindAddr c" "AuthToken (auto_require_auth c) = AuthToken c"
  "AdminListenAddr (auto_require_auth c) = AdminListenAddr c"
  "AdminToken (auto_require_auth c) = AdminToken c" "ControlPort (auto_require_auth c) = ControlPort c"
  "PublicTLSMode (auto_require_auth c) = PublicTLSMode c"
  "PublicHTTPSListen (auto_require_auth c) = PublicHTTPSListen c"
  "PublicTLSCert (auto_require_auth c) = PublicTLSCert c" "PublicTLSKey (auto_require_auth c) = PublicTLSKey c"
  "RequestLogRetention (auto_require_auth c) = RequestLogRetention c" "TLS (auto_require_auth c) = TLS c"
  by (simp_all add: auto_require_auth_def)

lemma auto_require_auth_remote: "\<not> loopback (BindAddr c) \<Longrightarrow> RequireAuth (auto_require_auth c)"
  by (auto simp: auto_require_auth_def loopback_def)

lemma auto_require_auth_local:
  "loopback (BindAddr c) \<Longrightarrow> auto_require_auth c = c"
  by (auto simp: auto_require_auth_def loopback_def)

lemma auto_require_auth_idem [simp]: "auto_require_auth (auto_require_auth c) = auto_require_auth c"
  by (auto simp: auto_require_auth_def)

lemma check_tls_mode_cases:
  assumes "check_tls_mode c = (None, c')"
  shows "(c' = c\<lparr>PublicTLSMode := ''off''\<rparr> \<and> PublicHTTPSListen c = []) \<or>
    (c' = c \<and> PublicTLSMode c = ''file'' \<and>
      (PublicHTTPSListen c \<noteq> [] \<longrightarrow> PublicTLSCert c \<noteq> [] \<and> PublicTLSKey c \<noteq> []))"
proof -
  consider (m_off) "PublicTLSMode c = '''' \<or> PublicTLSMode c = ''off''" | (m_file) "PublicTLSMode c = ''file''"
    | (m_other) "\<not> (PublicTLSMode c = '''' \<or> PublicTLSMode c = ''off'')" "PublicTLSMode c \<noteq> ''file''"
    by blast
  then show ?thesis
  proof cases
    case m_off
    then show ?thesis using assms unfolding check_tls_mode_def Let_def
      by (simp only: if_True simp_thms split: if_split_asm) simp_all
  next
    case m_file
    then show ?thesis using assms unfolding check_tls_mode_def Let_def
      by (cases "PublicHTTPSListen c = []") (simp_all split: if_split_asm)
  next
    case m_other
    then show ?thesis using assms unfolding check_tls_mode_def Let_def
      by (simp split: if_split_asm)
  qed
qed

lemma check_tls_mode_off:
  "PublicTLSMode c = ''off'' \<Longrightarrow> PublicHTTPSListen c = [] \<Longrightarrow> check_tls_mode c = (None, c)"
  by (simp add: check_tls_mode_def Let_def)

lemma check_tls_mode_file:
  "PublicTLSMode c = ''file'' \<Longrightarrow>
     (PublicHTTPSListen c \<noteq> [] \<longrightarrow> PublicTLSCert c \<noteq> [] \<and> PublicTLSKey c \<noteq> []) \<Longrightarrow>
     check_tls_mode c = (None, c)"
  by (cases "PublicHTTPSListen c = []") (simp_all add: check_tls_mode_def)

lemma Validate_ok:
  assumes "Validate c = (None, c')"
  obtains d where "check_tls_mode (auto_require_auth c) = (None, d)"
    "c' = (if TLS_Enabled (TLS d) then d\<lparr>TLSEnabled := True\<rparr> else d)"
    "\<not> (RequireAuth (auto_require_auth c) \<and> AuthToken c = [])"
    "\<not> (AdminListenAddr c \<noteq> [] \<and> AdminToken c = [])" "0 < ControlPort c" "ControlPort c \<le> 65535"
    "0 \<le> RequestLogRetention d"
proof -
  obtain r d where d: "check_tls_mode (auto_require_auth c) = (r, d)" by (cases "check_tls_mode (auto_require_auth c)")
  note v = assms [unfolded Validate_def Let_def d prod.case auto_require_auth_fields]
  have a: "\<not> (RequireAuth (auto_require_auth c) \<and> AuthToken c = [])" using v by (auto split: if_split_asm)
  have b: "\<not> (AdminListenAddr c \<noteq> [] \<and> AdminToken c = [])" using v a by (auto split: if_split_asm)
  have e: "0 < ControlPort c \<and> ControlPort c \<le> 65535" using v a b by (simp split: if_split_asm)
  have w: "(case r of None \<Rightarrow> if RequestLogRetention d < 0 then (Some NegativeRetention, d)
      else (None, if TLS_Enabled (TLS d) then d\<lparr>TLSEnabled := True\<rparr> else d) | Some e \<Rightarrow> (Some e, d)) = (None, c')"
    using v a b e by (simp split: if_split_asm)
  then have r: "r = None" by (cases r) simp_all
  have f: "0 \<le> RequestLogRetention d" and g: "c' = (if TLS_Enabled (TLS d) then d\<lparr>TLSEnabled := True\<rparr> else d)"
    using w unfolding r option.case by (simp_all split: if_split_asm)
  show ?thesis using that [of d] d a b e f g unfolding r by blast
qed

lemma Validate_intro:
  assumes "auto_require_auth c = c" and "check_tls_mode c = (None, c)"
    and "\<not> (RequireAuth c \<and> AuthToken c = [])"
    and "\<not> (AdminListenAddr c \<noteq> [] \<and> AdminToken c = [])" and "0 < ControlPort c" and "ControlPort c \<le> 65535"
    and "0 \<le> RequestLogRetention c" and "TLS_Enabled (TLS c) \<longrightarrow> TLSEnabled c"
  shows "Validate c = (None, c)"
  using assms by (cases "TLS_Enabled (TLS c)") (simp_all add: Validate_def Let_def)

section \<open>Properties\<close>

text \<open>
  A configuration that \<open>Validate\<close> accepts is secure: a relay reachable from outside the
  machine has a shared token, an admin API has its own, the public HTTPS listener has a
  certificate and key, and the ports and the retention are in range; and a client is then let
  in only with the token. Validating again changes nothing.
\<close>

theorem validate_secure:
  assumes "Validate c = (None, c')"
  shows "secure c' \<and> Validate c' = (None, c') \<and>
    (\<not> loopback (BindAddr c') \<longrightarrow> (\<forall>t. validAuthToken c' t \<longleftrightarrow> t = AuthToken c'))"
proof -
  obtain d where d: "check_tls_mode (auto_require_auth c) = (None, d)"
      and c': "c' = (if TLS_Enabled (TLS d) then d\<lparr>TLSEnabled := True\<rparr> else d)"
      and g: "\<not> (RequireAuth (auto_require_auth c) \<and> AuthToken c = [])"
        "\<not> (AdminListenAddr c \<noteq> [] \<and> AdminToken c = [])" "0 < ControlPort c" "ControlPort c \<le> 65535"
        "0 \<le> RequestLogRetention d"
    using Validate_ok [OF assms] .
  have same: "BindAddr c' = BindAddr c" "AuthToken c' = AuthToken c" "AdminListenAddr c' = AdminListenAddr c"
    "AdminToken c' = AdminToken c" "ControlPort c' = ControlPort c"
    "RequireAuth c' = RequireAuth (auto_require_auth c)" "RequestLogRetention c' = RequestLogRetention d"
    "TLS_Enabled (TLS c') \<longrightarrow> TLSEnabled c'"
    using check_tls_mode_cases [OF d] unfolding c' by (auto split: if_split)
  have mode: "PublicTLSMode c' = ''off'' \<and> PublicHTTPSListen c' = [] \<or> PublicTLSMode c' = ''file'' \<and>
      (PublicHTTPSListen c' \<noteq> [] \<longrightarrow> PublicTLSCert c' \<noteq> [] \<and> PublicTLSKey c' \<noteq> [])"
    using check_tls_mode_cases [OF d] unfolding c' by (elim disjE) (auto split: if_split)
  then have chk: "check_tls_mode c' = (None, c')"
    using check_tls_mode_off [of c'] check_tls_mode_file [of c'] by blast
  have remote: "\<not> loopback (BindAddr c) \<longrightarrow> AuthToken c \<noteq> []"
    using g(1) auto_require_auth_remote [of c] by blast
  have auto_id: "auto_require_auth c' = c'"
  proof (cases "loopback (BindAddr c)")
    case True
    then show ?thesis using auto_require_auth_local [of c'] same by simp
  next
    case False
    then have "RequireAuth c'" using auto_require_auth_remote same by simp
    then show ?thesis by (simp add: auto_require_auth_def)
  qed
  have sec: "secure c'"
    unfolding secure_def same(1-5,7) using g mode remote same(6) by auto
  moreover have "Validate c' = (None, c')"
    by (rule Validate_intro [OF auto_id chk]) (use g same in simp_all)
  moreover have "\<forall>t. validAuthToken c' t \<longleftrightarrow> t = AuthToken c'" if "\<not> loopback (BindAddr c')"
    using remote that same by (simp add: validAuthToken_def)
  ultimately show ?thesis by blast
qed

theorem validate_secure_witness:
  "secure (DefaultConfig\<lparr>AuthToken := ''s3cret'', RequireAuth := True\<rparr>)"
proof -
  have "Validate (DefaultConfig\<lparr>AuthToken := ''s3cret''\<rparr>) =
      (None, DefaultConfig\<lparr>AuthToken := ''s3cret'', RequireAuth := True\<rparr>)"
    by (simp add: Validate_def auto_require_auth_def check_tls_mode_def DefaultConfig_def TLS_Enabled_def)
  from validate_secure [OF this] show ?thesis by (rule conjunct1)
qed

end
