(* ===== verification/Endpoint_Domain.thy ===== *)
theory Endpoint_Domain
  imports Relay_Config
begin

text \<open>
  Host names of public endpoints (\<open>server/internal/relay/gateway.go\<close>, lines 258 to 317 and 356
  to 385): the normal form in which the gateway registers and looks up a domain, the domain a
  proxy gets, and the syntax check on registration. \<open>net.SplitHostPort\<close> of the Go library is
  written out.
\<close>

section \<open>\<open>net.SplitHostPort\<close>\<close>

definition before_last :: "char \<Rightarrow> string \<Rightarrow> string" where
  "before_last c s = rev (drop 1 (dropWhile (\<lambda>x. x \<noteq> c) (rev s)))"

definition after_last :: "char \<Rightarrow> string \<Rightarrow> string" where
  "after_last c s = rev (takeWhile (\<lambda>x. x \<noteq> c) (rev s))"

fun split_bracket :: "string \<Rightarrow> (string \<times> string) option" where
  "split_bracket (CHR '']'' # rest) =
     (case rest of
        [] \<Rightarrow> None
      | c # port \<Rightarrow>
          if c = CHR '':'' \<and> CHR '':'' \<notin> set port \<and> CHR ''['' \<notin> set port \<and> CHR '']'' \<notin> set port
          then Some ([], port) else None)"
| "split_bracket (c # rest) =
     (if c = CHR ''['' then None
      else map_option (\<lambda>(h, p). (c # h, p)) (split_bracket rest))"
| "split_bracket [] = None"

definition SplitHostPort :: "string \<Rightarrow> (string \<times> string) option" where
  "SplitHostPort hostport =
     (if CHR '':'' \<notin> set hostport then None
      else if hd hostport = CHR ''['' then split_bracket (tl hostport)
      else if CHR '':'' \<in> set (before_last CHR '':'' hostport) \<or> CHR ''['' \<in> set hostport
              \<or> CHR '']'' \<in> set hostport then None
      else Some (before_last CHR '':'' hostport, after_last CHR '':'' hostport))"

lemma before_after_last:
  assumes "CHR '':'' \<notin> set p"
  shows "before_last CHR '':'' (h @ CHR '':'' # p) = h" "after_last CHR '':'' (h @ CHR '':'' # p) = p"
proof -
  have p: "\<And>a. a \<in> set (rev p) \<Longrightarrow> a \<noteq> CHR '':''" using assms by auto
  show "before_last CHR '':'' (h @ CHR '':'' # p) = h"
    using dropWhile_append2 [of "rev p" "\<lambda>x. x \<noteq> CHR '':''" "CHR '':'' # rev h"] p
    by (simp add: before_last_def)
  show "after_last CHR '':'' (h @ CHR '':'' # p) = p"
    using takeWhile_append2 [of "rev p" "\<lambda>x. x \<noteq> CHR '':''" "CHR '':'' # rev h"] p
    by (simp add: after_last_def)
qed

lemma SplitHostPort_plain:
  assumes "\<forall>c \<in> set h \<union> set p. c \<noteq> CHR '':'' \<and> c \<noteq> CHR ''['' \<and> c \<noteq> CHR '']''"
  shows "SplitHostPort (h @ CHR '':'' # p) = Some (h, p)"
proof -
  have h: "CHR '':'' \<notin> set h" "CHR ''['' \<notin> set h" "CHR '']'' \<notin> set h"
    and p: "CHR '':'' \<notin> set p" "CHR ''['' \<notin> set p" "CHR '']'' \<notin> set p"
    using assms by auto
  have "hd (h @ CHR '':'' # p) \<noteq> CHR ''[''" using h(2) by (cases h) auto
  then show ?thesis using h p by (simp add: SplitHostPort_def before_after_last)
qed

lemma SplitHostPort_none: "CHR '':'' \<notin> set s \<Longrightarrow> SplitHostPort s = None"
  by (simp add: SplitHostPort_def)

section \<open>The normal form\<close>

definition normalizeEndpointHost :: "string \<Rightarrow> string" where
  "normalizeEndpointHost host =
     (let host = trim_space (to_lower host);
          host = (case SplitHostPort host of Some (h, _) \<Rightarrow> h | None \<Rightarrow> host)
      in trim_suffix host ''.'')"

definition is_lower_alpha :: "char \<Rightarrow> bool" where
  "is_lower_alpha r \<longleftrightarrow> 97 \<le> (of_char r :: nat) \<and> (of_char r :: nat) \<le> 122"

definition is_digit_char :: "char \<Rightarrow> bool" where
  "is_digit_char r \<longleftrightarrow> 48 \<le> (of_char r :: nat) \<and> (of_char r :: nat) \<le> 57"

definition label_char :: "char \<Rightarrow> bool" where
  "label_char r \<longleftrightarrow> is_lower_alpha r \<or> is_digit_char r \<or> r = CHR ''-''"

primrec safe_runes :: "string \<Rightarrow> string" where
  "safe_runes [] = []"
| "safe_runes (r # rs) =
     (if is_lower_alpha r then r # safe_runes rs
      else if is_digit_char r then r # safe_runes rs
      else if r = CHR ''-'' \<or> r = CHR ''_'' then CHR ''-'' # safe_runes rs
      else safe_runes rs)"

definition safeEndpointLabel :: "string \<Rightarrow> string" where
  "safeEndpointLabel value =
     (let label = trim_if (\<lambda>c. c = CHR ''-'') (safe_runes (to_lower (trim_space value)))
      in if label = [] then ''endpoint'' else label)"

definition endpointDomainFromProxy :: "Config \<Rightarrow> string \<Rightarrow> string \<Rightarrow> string" where
  "endpointDomainFromProxy cfg npDomain proxyName =
     (let domain = normalizeEndpointHost npDomain;
          suffix = normalizeEndpointHost (DomainSuffix cfg);
          domain = (if domain = [] \<and> suffix \<noteq> [] then safeEndpointLabel proxyName @ ''.'' @ suffix
                    else domain)
      in if domain \<noteq> [] \<and> suffix \<noteq> [] \<and> CHR ''.'' \<notin> set domain then domain @ ''.'' @ suffix
         else domain)"

definition publicURLForDomain :: "Config \<Rightarrow> string \<Rightarrow> bool \<Rightarrow> string" where
  "publicURLForDomain cfg domain useHTTPS =
     (if trim_space domain = [] then []
      else (if useHTTPS \<or> trim_space (PublicHTTPSListen cfg) \<noteq> [] then ''https'' else ''http'')
             @ ''://'' @ domain)"

section \<open>The syntax check\<close>

datatype domain_error =
    DomainRequired
  | DomainTooLong
  | DomainInvalidChars
  | EmptyLabel
  | LabelTooLong string
  | LabelHyphen string
  | LabelInvalidChar string

fun check_labels :: "string list \<Rightarrow> domain_error option" where
  "check_labels [] = None"
| "check_labels (label # labels) =
     (if label = [] then Some EmptyLabel
      else if length label > 63 then Some (LabelTooLong label)
      else if has_prefix label ''-'' \<or> has_suffix label ''-'' then Some (LabelHyphen label)
      else if \<not> list_all label_char label then Some (LabelInvalidChar label)
      else check_labels labels)"

definition validateEndpointDomain :: "string \<Rightarrow> domain_error option" where
  "validateEndpointDomain domain =
     (if domain = [] then Some DomainRequired
      else if length domain > 253 then Some DomainTooLong
      else if list_ex (\<lambda>c. c \<in> {CHR ''/'', CHR 0x5C, CHR '':'', CHR '' '', CHR 0x09, CHR 0x0D, CHR 0x0A}) domain
      then Some DomainInvalidChars
      else check_labels (split_on CHR ''.'' domain))"

text \<open>The reference: a domain is dot-separated labels.\<close>

definition dns_label :: "string \<Rightarrow> bool" where
  "dns_label l \<longleftrightarrow> l \<noteq> [] \<and> length l \<le> 63 \<and> (\<forall>c \<in> set l. label_char c) \<and> hd l \<noteq> CHR ''-'' \<and> last l \<noteq> CHR ''-''"

fun dot_join :: "string list \<Rightarrow> string" where
  "dot_join [] = []"
| "dot_join [l] = l"
| "dot_join (l # ls) = l @ CHR ''.'' # dot_join ls"

section \<open>Lemmas\<close>

lemma label_char_plain:
  assumes "label_char c"
  shows "lower_char c = c" "\<not> is_space c" "c \<noteq> CHR ''.''" "c \<noteq> CHR '':''" "c \<noteq> CHR ''['' " "c \<noteq> CHR '']''"
    "c \<noteq> CHR ''/''" "c \<noteq> CHR 0x5C" "c \<noteq> CHR '' ''" "c \<noteq> CHR 0x09" "c \<noteq> CHR 0x0D" "c \<noteq> CHR 0x0A"
  using assms by (auto simp: label_char_def is_lower_alpha_def is_digit_char_def lower_char_def is_space_def)

lemma has_prefix_char: "has_prefix s [c] \<longleftrightarrow> s \<noteq> [] \<and> hd s = c"
  by (cases s) (auto simp: has_prefix_def)

lemma has_suffix_char: "has_suffix s [c] \<longleftrightarrow> s \<noteq> [] \<and> last s = c"
  using has_prefix_char [of "rev s" c] by (simp add: has_suffix_def hd_rev)

lemma check_labels_ok: "check_labels ls = None \<longleftrightarrow> (\<forall>l \<in> set ls. dns_label l)"
  by (induction ls) (auto simp: dns_label_def has_prefix_char has_suffix_char list_all_iff)

lemma split_dot_join:
  "ls \<noteq> [] \<Longrightarrow> \<forall>l \<in> set ls. CHR ''.'' \<notin> set l \<Longrightarrow> split_on CHR ''.'' (dot_join ls) = ls"
  by (induction ls rule: dot_join.induct) (auto simp: split_on_no split_on_append)

lemma dot_join_Cons: "ls \<noteq> [] \<Longrightarrow> dot_join (l # ls) = l @ CHR ''.'' # dot_join ls"
  by (cases ls) auto

lemma dot_join_split: "dot_join (split_on CHR ''.'' s) = s"
proof (induction s)
  case Nil
  then show ?case by simp
next
  case (Cons c s)
  obtain w ws where w: "split_on CHR ''.'' s = w # ws" by (meson split_on_nonempty neq_Nil_conv)
  show ?case
  proof (cases "c = CHR ''.''")
    case True
    then show ?thesis using Cons.IH w by (simp add: dot_join_Cons)
  next
    case False
    then show ?thesis using Cons.IH w by (cases ws) (auto simp: dot_join_Cons)
  qed
qed

lemma split_on_snoc: "split_on d (s @ [d]) = split_on d s @ [[]]"
proof (induction s)
  case Nil
  then show ?case by simp
next
  case (Cons c s)
  obtain w ws where w: "split_on d s = w # ws" by (meson split_on_nonempty neq_Nil_conv)
  then show ?case using Cons by simp
qed

lemma dns_label_no_dot: "dns_label l \<Longrightarrow> CHR ''.'' \<notin> set l"
  using label_char_plain(3) by (auto simp: dns_label_def)

lemma dot_join_nonempty: "ls \<noteq> [] \<Longrightarrow> \<forall>l \<in> set ls. l \<noteq> [] \<Longrightarrow> dot_join ls \<noteq> []"
  by (induction ls rule: dot_join.induct) auto

lemma set_dot_join: "set (dot_join ls) \<subseteq> insert CHR ''.'' (\<Union> (set ` set ls))"
  by (induction ls rule: dot_join.induct) auto

lemma valid_iff:
  "validateEndpointDomain d = None \<longleftrightarrow>
     length d \<le> 253 \<and> (\<forall>l \<in> set (split_on CHR ''.'' d). dns_label l)"
proof -
  have "list_ex (\<lambda>c. c \<in> {CHR ''/'', CHR 0x5C, CHR '':'', CHR '' '', CHR 0x09, CHR 0x0D, CHR 0x0A}) d = False"
    if l: "\<forall>l \<in> set (split_on CHR ''.'' d). dns_label l"
  proof -
    have "label_char c \<or> c = CHR ''.''" if "c \<in> set d" for c
      using set_split_on [of d "CHR ''.''"] that l by (auto simp: dns_label_def)
    moreover have "c \<notin> {CHR ''/'', CHR 0x5C, CHR '':'', CHR '' '', CHR 0x09, CHR 0x0D, CHR 0x0A}"
      if "label_char c \<or> c = CHR ''.''" for c
      using that
    proof
      assume "label_char c"
      then show ?thesis using label_char_plain(4,7-12) [of c] by (simp only: insert_iff empty_iff simp_thms) 
    qed simp
    ultimately show ?thesis unfolding list_ex_iff by blast
  qed
  moreover have "d \<noteq> []" if "\<forall>l \<in> set (split_on CHR ''.'' d). dns_label l"
    using that by (cases d) (auto simp: dns_label_def)
  ultimately show ?thesis
    by (auto simp: validateEndpointDomain_def check_labels_ok)
qed

lemma valid_chars:
  "validateEndpointDomain d = None \<Longrightarrow> c \<in> set d \<Longrightarrow> label_char c \<or> c = CHR ''.''"
  using set_split_on [of d "CHR ''.''"] by (auto simp: valid_iff dns_label_def)

lemma valid_nonempty: "validateEndpointDomain d = None \<Longrightarrow> d \<noteq> []"
  by (auto simp: validateEndpointDomain_def)

lemma valid_last: "validateEndpointDomain d = None \<Longrightarrow> last d \<noteq> CHR ''.''"
proof
  assume v: "validateEndpointDomain d = None" and "last d = CHR ''.''"
  then have "d = butlast d @ [CHR ''.'']" using valid_nonempty [OF v] by (metis append_butlast_last_id)
  then have "[] \<in> set (split_on CHR ''.'' d)" using split_on_snoc [of "CHR ''.''" "butlast d"] by (metis in_set_conv_decomp)
  then show False using v by (auto simp: valid_iff dns_label_def)
qed

lemma valid_char_facts:
  assumes "validateEndpointDomain d = None" and "c \<in> set d"
  shows "lower_char c = c" "\<not> is_space c" "c \<noteq> CHR '':''" "c \<noteq> CHR ''[''" "c \<noteq> CHR '']''"
proof -
  have "label_char c \<or> c = CHR ''.''" using valid_chars [OF assms] .
  then have "lower_char c = c \<and> \<not> is_space c \<and> c \<noteq> CHR '':'' \<and> c \<noteq> CHR ''['' \<and> c \<noteq> CHR '']''"
  proof
    assume "label_char c"
    then show ?thesis using label_char_plain by blast
  qed (simp add: lower_char_def is_space_def)
  then show "lower_char c = c" "\<not> is_space c" "c \<noteq> CHR '':''" "c \<noteq> CHR ''[''" "c \<noteq> CHR '']''" by auto
qed

lemma trim_suffix_dot: "trim_suffix (s @ ''.'') ''.'' = s"
  by (simp add: trim_suffix_def has_suffix_char)

lemma trim_suffix_none: "last s \<noteq> CHR ''.'' \<Longrightarrow> trim_suffix s ''.'' = s"
  by (simp add: trim_suffix_def has_suffix_char)

lemma normalize_valid:
  assumes v: "validateEndpointDomain d = None" and l: "to_lower h = d @ dot @ port"
    and dot: "dot = [] \<or> dot = ''.''"
    and port: "port = [] \<or> (\<exists>p. port = CHR '':'' # p \<and> (\<forall>c \<in> set p. is_digit_char c))"
  shows "normalizeEndpointHost h = d"
proof -
  have dig: "\<not> is_space c \<and> c \<noteq> CHR '':'' \<and> c \<noteq> CHR ''['' \<and> c \<noteq> CHR '']''" if "is_digit_char c" for c
    using that label_char_plain [of c] by (simp add: label_char_def)
  have ne: "d \<noteq> []" by (rule valid_nonempty [OF v])
  have sp: "\<not> is_space c" if "c \<in> set (d @ dot @ port)" for c
  proof -
    have "\<not> is_space CHR ''.''" "\<not> is_space CHR '':''" by (simp_all add: is_space_def)
    then show ?thesis using that dot port dig valid_char_facts(2) [OF v] by auto
  qed
  have t: "trim_space (to_lower h) = d @ dot @ port"
    unfolding trim_space_def l
    by (rule trim_if_id) (use sp ne in \<open>metis Nil_is_append_conv hd_in_set last_in_set\<close>)
  have s: "(case SplitHostPort (d @ dot @ port) of Some (h, _) \<Rightarrow> h | None \<Rightarrow> d @ dot @ port) = d @ dot"
    using port
  proof
    assume "port = []"
    moreover have "CHR '':'' \<notin> set (d @ dot)" using valid_char_facts(3) [OF v] dot by auto
    ultimately show ?thesis by (simp add: SplitHostPort_none)
  next
    assume "\<exists>p. port = CHR '':'' # p \<and> (\<forall>c \<in> set p. is_digit_char c)"
    then obtain p where p: "port = CHR '':'' # p" "\<forall>c \<in> set p. is_digit_char c" by blast
    have "\<forall>c \<in> set d. c \<noteq> CHR '':'' \<and> c \<noteq> CHR ''['' \<and> c \<noteq> CHR '']''"
      using valid_char_facts(3-5) [OF v] by blast
    moreover have "\<forall>c \<in> set dot. c \<noteq> CHR '':'' \<and> c \<noteq> CHR ''['' \<and> c \<noteq> CHR '']''"
      using dot by (elim disjE) simp_all
    moreover have "\<forall>c \<in> set p. c \<noteq> CHR '':'' \<and> c \<noteq> CHR ''['' \<and> c \<noteq> CHR '']''"
      using p(2) dig by blast
    ultimately have "\<forall>c \<in> set (d @ dot) \<union> set p. c \<noteq> CHR '':'' \<and> c \<noteq> CHR ''['' \<and> c \<noteq> CHR '']''"
      unfolding set_append ball_Un by (intro conjI)
    then have "SplitHostPort ((d @ dot) @ CHR '':'' # p) = Some (d @ dot, p)"
      by (rule SplitHostPort_plain)
    then show ?thesis by (simp add: p(1))
  qed
  show ?thesis
    unfolding normalizeEndpointHost_def t s Let_def
    using dot valid_last [OF v] by (auto simp: trim_suffix_dot trim_suffix_none)
qed

lemma normalize_id: "validateEndpointDomain d = None \<Longrightarrow> normalizeEndpointHost d = d"
proof -
  assume v: "validateEndpointDomain d = None"
  have "to_lower d = d @ [] @ []" using valid_char_facts(1) [OF v] by (simp add: to_lower_id)
  from normalize_valid [OF v this] show ?thesis by blast
qed

lemma safe_runes_chars: "c \<in> set (safe_runes s) \<Longrightarrow> label_char c"
  by (induction s) (auto simp: label_char_def split: if_splits)

lemma safe_label: 
  "safeEndpointLabel v \<noteq> [] \<and> (\<forall>c \<in> set (safeEndpointLabel v). label_char c) \<and>
   hd (safeEndpointLabel v) \<noteq> CHR ''-'' \<and> last (safeEndpointLabel v) \<noteq> CHR ''-''"
proof -
  let ?r = "safe_runes (to_lower (trim_space v))"
  let ?l = "trim_if (\<lambda>c. c = CHR ''-'') ?r"
  show ?thesis
  proof (cases "?l = []")
    case True
    then have "safeEndpointLabel v = ''endpoint''" by (simp add: safeEndpointLabel_def)
    moreover have "\<forall>c \<in> set ''endpoint''. label_char c"
      by (simp add: label_char_def is_lower_alpha_def)
    ultimately show ?thesis by simp
  next
    case False
    then have "safeEndpointLabel v = ?l" by (simp add: safeEndpointLabel_def)
    moreover have "\<forall>c \<in> set ?l. label_char c"
      using set_trim_if [of _ ?r] safe_runes_chars by blast
    ultimately show ?thesis using False trim_if_ends [of "\<lambda>c. c = CHR ''-''" ?r] by auto
  qed
qed

lemma safe_label_dns: "length (safeEndpointLabel v) \<le> 63 \<Longrightarrow> dns_label (safeEndpointLabel v)"
  using safe_label [of v] by (simp add: dns_label_def)

section \<open>Properties\<close>

text \<open>
  C34: The syntax check decides exactly the intended language: a domain passes iff it is a
  non-empty list of labels joined by dots, each of 1 to 63 lower-case letters, digits and inner
  hyphens, with at most 253 characters in all. (The test for separator characters that comes
  first in the code only chooses the error.)
\<close>

theorem validate_domain_iff:
  "validateEndpointDomain d = None \<longleftrightarrow>
     (\<exists>ls. ls \<noteq> [] \<and> (\<forall>l \<in> set ls. dns_label l) \<and> d = dot_join ls \<and> length d \<le> 253)"
proof
  assume "validateEndpointDomain d = None"
  then show "\<exists>ls. ls \<noteq> [] \<and> (\<forall>l \<in> set ls. dns_label l) \<and> d = dot_join ls \<and> length d \<le> 253"
    using dot_join_split [of d] by (intro exI [of _ "split_on CHR ''.'' d"]) (auto simp: valid_iff)
next
  assume "\<exists>ls. ls \<noteq> [] \<and> (\<forall>l \<in> set ls. dns_label l) \<and> d = dot_join ls \<and> length d \<le> 253"
  then obtain ls where ls: "ls \<noteq> []" "\<forall>l \<in> set ls. dns_label l" "d = dot_join ls" "length d \<le> 253" by blast
  then have "split_on CHR ''.'' d = ls" using split_dot_join [of ls] dns_label_no_dot by blast
  then show "validateEndpointDomain d = None" using ls by (simp add: valid_iff)
qed

theorem validate_domain_iff_witness:
  "validateEndpointDomain ''a-1.example'' = None"
proof -
  have "dns_label ''a-1''" "dns_label ''example''"
    by (simp_all add: dns_label_def label_char_def is_lower_alpha_def is_digit_char_def)
  then have "\<exists>ls. ls \<noteq> [] \<and> (\<forall>l \<in> set ls. dns_label l) \<and> ''a-1.example'' = dot_join ls \<and> length ''a-1.example'' \<le> 253"
    by (intro exI [of _ "[''a-1'', ''example'']"]) simp
  then show ?thesis unfolding validate_domain_iff .
qed

text \<open>
  A request reaches the endpoint however its host is spelled. If a registered domain passed
  the check, then a \<open>Host\<close> header with the domain in any case, with or without a trailing dot
  and with or without a port normalises to exactly that domain; in particular the domain itself
  is its own normal form, so the key stored on registration is the key of the lookup.
\<close>

theorem normalize_finds_domain:
  assumes "validateEndpointDomain d = None" and "to_lower h = d"
    and "dot = '''' \<or> dot = ''.''" and "\<forall>c \<in> set p. is_digit_char c"
  shows "normalizeEndpointHost (h @ dot) = d \<and> normalizeEndpointHost (h @ dot @ '':'' @ p) = d
    \<and> normalizeEndpointHost d = d"
proof -
  have p: "to_lower p = p"
    using assms(4) label_char_plain(1) by (intro to_lower_id) (auto simp: label_char_def)
  have dot: "to_lower dot = dot" using assms(3) by (auto simp: to_lower_def lower_char_def)
  have colon: "to_lower (CHR '':'' # p) = CHR '':'' # p"
    using p by (simp add: to_lower_def lower_char_def)
  have "normalizeEndpointHost (h @ dot) = d"
    using assms(2,3) dot by (intro normalize_valid [OF assms(1), of _ dot "[]"]) auto
  moreover have "normalizeEndpointHost (h @ dot @ '':'' @ p) = d"
    using assms(2,3,4) dot colon
    by (intro normalize_valid [OF assms(1), of _ dot "CHR '':'' # p"]) auto
  ultimately show ?thesis using normalize_id [OF assms(1)] by blast
qed

theorem normalize_finds_domain_witness:
  "normalizeEndpointHost (''App.Example.com'' @ ''.'' @ '':'' @ ''8443'') = ''app.example.com''"
proof -
  have v: "validateEndpointDomain ''app.example.com'' = None"
    by (simp add: validateEndpointDomain_def has_prefix_def has_suffix_def label_char_def
        is_lower_alpha_def)
  have l: "to_lower ''App.Example.com'' = ''app.example.com''"
    by code_simp
  have "\<forall>c \<in> set ''8443''. is_digit_char c" by (simp add: is_digit_char_def)
  from normalize_finds_domain [OF v l _ this, of "''.''"] show ?thesis by simp
qed

text \<open>
  A generated domain always registers. With a configured domain suffix, a client that asks
  for no domain gets \<open>label.suffix\<close>, and a client that asks for a bare label gets it under
  the suffix; if the suffix is a valid domain and the lengths stay in the limits, the generated
  name passes the check whatever the proxy is called, and is its own normal form.
\<close>

theorem generated_domain_valid:
  assumes "normalizeEndpointHost (DomainSuffix cfg) = suffix" and "validateEndpointDomain suffix = None"
    and "normalizeEndpointHost npDomain = '''' "
    and "length (safeEndpointLabel name) \<le> 63" and "length (safeEndpointLabel name) + 1 + length suffix \<le> 253"
  shows "validateEndpointDomain (endpointDomainFromProxy cfg npDomain name) = None \<and>
    endpointDomainFromProxy cfg npDomain name = safeEndpointLabel name @ ''.'' @ suffix \<and>
    normalizeEndpointHost (endpointDomainFromProxy cfg npDomain name) = endpointDomainFromProxy cfg npDomain name"
proof -
  let ?l = "safeEndpointLabel name"
  have ne: "suffix \<noteq> []" by (rule valid_nonempty [OF assms(2)])
  have eq: "endpointDomainFromProxy cfg npDomain name = ?l @ ''.'' @ suffix"
    using assms(1,3) ne safe_label [of name] by (simp add: endpointDomainFromProxy_def Let_def)
  have dns: "dns_label ?l" by (rule safe_label_dns [OF assms(4)])
  have "split_on CHR ''.'' (?l @ ''.'' @ suffix) = ?l # split_on CHR ''.'' suffix"
    using split_on_append [OF dns_label_no_dot [OF dns], of suffix] by simp
  then have v: "validateEndpointDomain (?l @ ''.'' @ suffix) = None"
    using assms(2,5) dns by (simp add: valid_iff)
  show ?thesis using eq v normalize_id [OF v] by simp
qed

theorem generated_domain_valid_witness:
  "validateEndpointDomain (endpointDomainFromProxy (DefaultConfig\<lparr>DomainSuffix := ''Tun.io.''\<rparr>) '''' ''My_App!'') = None"
proof -
  have a: "normalizeEndpointHost (DomainSuffix (DefaultConfig\<lparr>DomainSuffix := ''Tun.io.''\<rparr>)) = ''tun.io''"
    by code_simp
  have b: "validateEndpointDomain ''tun.io'' = None"
    by (simp add: validateEndpointDomain_def has_prefix_def has_suffix_def label_char_def is_lower_alpha_def)
  have c: "normalizeEndpointHost '''' = ''''"
    by (simp add: normalizeEndpointHost_def to_lower_def trim_space_def trim_if_def trim_right_if_def
        SplitHostPort_def trim_suffix_def has_suffix_def has_prefix_def)
  have l: "safeEndpointLabel ''My_App!'' = ''my-app''"
    by code_simp
  have "length (safeEndpointLabel ''My_App!'') \<le> 63"
    "length (safeEndpointLabel ''My_App!'') + 1 + length ''tun.io'' \<le> 253"
    unfolding l by simp_all
  from generated_domain_valid [OF a b c this] show ?thesis by (rule conjunct1)
qed

end
