(* ===== verification/Endpoint_Policy.thy ===== *)
theory Endpoint_Policy
  imports Endpoint_Domain
begin

text \<open>
  Access policies of public endpoints (\<open>server/internal/relay/gateway.go\<close>, lines 22 to 48 and
  420 to 597; \<open>EndpointPolicy\<close> of \<open>pkg/types/types.go\<close>): storing, listing and deleting
  policies, and the decision on a request: validity period, IP lists, authentication, the rate
  limit per client and minute, and the limit on concurrent requests with its release closure.

  The server keeps pointers to policy states, and a request keeps the state it was admitted
  under even if the policy is replaced meanwhile. The states therefore live in an explicit
  store, and the release closure is the address of the state and the client it was made for.
  The parsers of \<open>net/netip\<close> and \<open>Request.BasicAuth\<close> are fields of \<open>netlib\<close>.
\<close>

section \<open>Addresses\<close>

datatype netip_addr = Addr4 "32 word" | Addr6 "128 word" string

record netip_prefix =
  pf_addr :: netip_addr
  pf_bits :: nat

fun prefix_contains :: "netip_prefix \<Rightarrow> netip_addr \<Rightarrow> bool" where
  "prefix_contains p (Addr4 w) =
     (case pf_addr p of
        Addr4 v \<Rightarrow> drop_bit (32 - pf_bits p) w = drop_bit (32 - pf_bits p) v
      | Addr6 _ _ \<Rightarrow> False)"
| "prefix_contains p (Addr6 w zone) =
     (zone = [] \<and>
      (case pf_addr p of
         Addr4 _ \<Rightarrow> False
       | Addr6 v _ \<Rightarrow> drop_bit (128 - pf_bits p) w = drop_bit (128 - pf_bits p) v))"

record netlib =
  ParseAddr :: "string \<Rightarrow> netip_addr option"
  ParsePrefix :: "string \<Rightarrow> netip_prefix option"
  BasicAuth :: "string \<Rightarrow> (string \<times> string) option"

fun match_patterns :: "netlib \<Rightarrow> netip_addr \<Rightarrow> string list \<Rightarrow> bool" where
  "match_patterns lib ip [] = False"
| "match_patterns lib ip (pattern # patterns) =
     (let pattern = trim_space pattern in
      if pattern = [] then match_patterns lib ip patterns
      else (case ParsePrefix lib pattern of
              Some prefix \<Rightarrow> if prefix_contains prefix ip then True else match_patterns lib ip patterns
            | None \<Rightarrow> if ParseAddr lib pattern = Some ip then True else match_patterns lib ip patterns))"

definition ipMatchesAny :: "netlib \<Rightarrow> string \<Rightarrow> string list \<Rightarrow> bool" where
  "ipMatchesAny lib rawIP patterns =
     (case ParseAddr lib (trim_space rawIP) of
        None \<Rightarrow> False
      | Some ip \<Rightarrow> match_patterns lib ip patterns)"

section \<open>Requests and policies\<close>

record Request =
  rq_Host :: string
  rq_Method :: string
  rq_URL :: "(string \<times> string) option"
  rq_ContentLength :: int
  rq_TLS :: bool
  rq_RemoteAddr :: string
  rq_Authorization :: string

definition clientIPFromRequest :: "Request \<Rightarrow> string" where
  "clientIPFromRequest r =
     (case SplitHostPort (rq_RemoteAddr r) of Some (host, _) \<Rightarrow> host | None \<Rightarrow> rq_RemoteAddr r)"

record EndpointPolicy =
  ep_ID :: string
  ep_Name :: string
  ep_AuthMode :: string
  ep_BasicUsername :: string
  ep_BasicPassword :: string
  ep_BearerToken :: string
  ep_AllowedIPs :: "string list"
  ep_DeniedIPs :: "string list"
  ep_NotBefore :: gotime
  ep_NotAfter :: gotime
  ep_RateLimitPerMinute :: int
  ep_MaxConcurrent :: int
  ep_CreatedAt :: gotime
  ep_UpdatedAt :: gotime

record rateWindow =
  rw_start :: gotime
  rw_count :: int

record endpointPolicyState =
  ps_policy :: EndpointPolicy
  ps_rateWindows :: "(string, rateWindow) fmap"
  ps_concurrent :: "(string, int) fmap"

abbreviation defaultPolicyRateWindow :: duration where
  "defaultPolicyRateWindow \<equiv> minute"

datatype reject_reason =
    PolicyNotFound
  | NotActiveYet
  | PolicyExpired
  | ClientIPDenied
  | ClientIPNotAllowed
  | BasicAuthRequired
  | BearerTokenRequired
  | UnsupportedAuthMode
  | RateLimitExceeded
  | MaxConcurrentExceeded

text \<open>A decision: allowed, perhaps with a release closure, or rejected with a status.\<close>

datatype 'rel decision = Allowed "'rel option" | Rejected nat reject_reason

section \<open>The decision on one policy state\<close>

definition bearer_ok :: "EndpointPolicy \<Rightarrow> Request \<Rightarrow> bool" where
  "bearer_ok policy r \<longleftrightarrow>
     (let token = trim_prefix (rq_Authorization r) ''Bearer '' in
      token \<noteq> rq_Authorization r \<and> token = ep_BearerToken policy)"

definition basic_ok :: "netlib \<Rightarrow> EndpointPolicy \<Rightarrow> Request \<Rightarrow> bool" where
  "basic_ok lib policy r \<longleftrightarrow>
     (case BasicAuth lib (rq_Authorization r) of
        None \<Rightarrow> False
      | Some (username, password) \<Rightarrow>
          username = ep_BasicUsername policy \<and> password = ep_BasicPassword policy)"

definition check_access :: "netlib \<Rightarrow> gotime \<Rightarrow> Request \<Rightarrow> EndpointPolicy \<Rightarrow> (nat \<times> reject_reason) option" where
  "check_access lib now r policy =
     (if \<not> is_zero_time (ep_NotBefore policy) \<and> now < ep_NotBefore policy then Some (403, NotActiveYet)
      else if \<not> is_zero_time (ep_NotAfter policy) \<and> now > ep_NotAfter policy then Some (403, PolicyExpired)
      else let clientIP = clientIPFromRequest r in
        if ipMatchesAny lib clientIP (ep_DeniedIPs policy) then Some (403, ClientIPDenied)
        else if ep_AllowedIPs policy \<noteq> [] \<and> \<not> ipMatchesAny lib clientIP (ep_AllowedIPs policy)
        then Some (403, ClientIPNotAllowed)
        else if ep_AuthMode policy = ''none'' then None
        else if ep_AuthMode policy = ''basic_auth'' then
          (if basic_ok lib policy r then None else Some (401, BasicAuthRequired))
        else if ep_AuthMode policy = ''bearer_token'' then
          (if bearer_ok policy r then None else Some (401, BearerTokenRequired))
        else Some (403, UnsupportedAuthMode))"

definition next_window :: "gotime \<Rightarrow> string \<Rightarrow> endpointPolicyState \<Rightarrow> rateWindow" where
  "next_window now clientIP st =
     (let window = (case fmlookup (ps_rateWindows st) clientIP of
                      Some w \<Rightarrow> w | None \<Rightarrow> \<lparr>rw_start = 0, rw_count = 0\<rparr>);
          window = (if is_zero_time (rw_start window)
                      \<or> time_sub now (rw_start window) \<ge> defaultPolicyRateWindow
                    then \<lparr>rw_start = now, rw_count = 0\<rparr> else window)
      in window\<lparr>rw_count := rw_count window + 1\<rparr>)"

definition conc_count :: "endpointPolicyState \<Rightarrow> string \<Rightarrow> int" where
  "conc_count st clientIP = (case fmlookup (ps_concurrent st) clientIP of Some n \<Rightarrow> n | None \<Rightarrow> 0)"

definition check_concurrent :: "string \<Rightarrow> endpointPolicyState \<Rightarrow> string decision \<times> endpointPolicyState" where
  "check_concurrent clientIP st =
     (if ep_MaxConcurrent (ps_policy st) > 0 then
        (if conc_count st clientIP \<ge> ep_MaxConcurrent (ps_policy st)
         then (Rejected 429 MaxConcurrentExceeded, st)
         else (Allowed (Some clientIP),
               st\<lparr>ps_concurrent := fmupd clientIP (conc_count st clientIP + 1) (ps_concurrent st)\<rparr>))
      else (Allowed None, st))"

definition evaluate :: "netlib \<Rightarrow> gotime \<Rightarrow> Request \<Rightarrow> endpointPolicyState \<Rightarrow> string decision \<times> endpointPolicyState" where
  "evaluate lib now r st =
     (case check_access lib now r (ps_policy st) of
        Some (status, reason) \<Rightarrow> (Rejected status reason, st)
      | None \<Rightarrow>
          let clientIP = clientIPFromRequest r in
          if ep_RateLimitPerMinute (ps_policy st) > 0 then
            (let window = next_window now clientIP st;
                 st = st\<lparr>ps_rateWindows := fmupd clientIP window (ps_rateWindows st)\<rparr>
             in if rw_count window > ep_RateLimitPerMinute (ps_policy st)
                then (Rejected 429 RateLimitExceeded, st)
                else check_concurrent clientIP st)
          else check_concurrent clientIP st)"

definition release :: "string \<Rightarrow> endpointPolicyState \<Rightarrow> endpointPolicyState" where
  "release clientIP st =
     (if conc_count st clientIP > 1
      then st\<lparr>ps_concurrent := fmupd clientIP (conc_count st clientIP - 1) (ps_concurrent st)\<rparr>
      else st\<lparr>ps_concurrent := fmdrop clientIP (ps_concurrent st)\<rparr>)"

section \<open>The table of policies\<close>

datatype policy_error =
    PolicyIDRequired
  | BasicAuthNeedsCredentials
  | BearerNeedsToken
  | NegativeRateLimit
  | NegativeMaxConcurrent
  | ErrPolicyNotFound string

record PolicyTable =
  pt_store :: "(nat, endpointPolicyState) fmap"
  pt_next :: nat
  pt_policies :: "(string, nat) fmap"

definition newPolicyTable :: PolicyTable where
  "newPolicyTable = \<lparr>pt_store = fmempty, pt_next = 0, pt_policies = fmempty\<rparr>"

definition policy_state :: "PolicyTable \<Rightarrow> string \<Rightarrow> endpointPolicyState option" where
  "policy_state T i =
     (case fmlookup (pt_policies T) i of Some a \<Rightarrow> fmlookup (pt_store T) a | None \<Rightarrow> None)"

definition normalizeAuthMode :: "string \<Rightarrow> string" where
  "normalizeAuthMode value =
     (let v = to_lower (trim_space value) in
      if v = '''' \<or> v = ''none'' then ''none''
      else if v = ''basic'' \<or> v = ''basic_auth'' then ''basic_auth''
      else if v = ''bearer'' \<or> v = ''bearer_token'' then ''bearer_token''
      else value)"

definition check_policy :: "EndpointPolicy \<Rightarrow> policy_error option" where
  "check_policy policy =
     (if ep_AuthMode policy = ''basic_auth'' \<and> (ep_BasicUsername policy = [] \<or> ep_BasicPassword policy = [])
      then Some BasicAuthNeedsCredentials
      else if ep_AuthMode policy = ''bearer_token'' \<and> ep_BearerToken policy = [] then Some BearerNeedsToken
      else if ep_RateLimitPerMinute policy < 0 then Some NegativeRateLimit
      else if ep_MaxConcurrent policy < 0 then Some NegativeMaxConcurrent
      else None)"

definition UpsertEndpointPolicy ::
    "gotime \<Rightarrow> EndpointPolicy \<Rightarrow> PolicyTable \<Rightarrow> (policy_error + EndpointPolicy) \<times> PolicyTable" where
  "UpsertEndpointPolicy now policy0 T =
     (let policy = policy0\<lparr>ep_ID := trim_space (ep_ID policy0)\<rparr> in
      if ep_ID policy = [] then (Inl PolicyIDRequired, T)
      else let policy = policy\<lparr>ep_AuthMode := normalizeAuthMode (ep_AuthMode policy)\<rparr> in
        (case check_policy policy of
           Some e \<Rightarrow> (Inl e, T)
         | None \<Rightarrow>
             let policy = (if is_zero_time (ep_CreatedAt policy) then policy\<lparr>ep_CreatedAt := now\<rparr> else policy);
                 policy = policy\<lparr>ep_UpdatedAt := now\<rparr>;
                 policy = (case policy_state T (ep_ID policy) of
                     Some existing \<Rightarrow>
                       if \<not> is_zero_time (ep_CreatedAt (ps_policy existing))
                       then policy\<lparr>ep_CreatedAt := ep_CreatedAt (ps_policy existing)\<rparr> else policy
                   | None \<Rightarrow> policy)
             in (Inr policy,
                 \<lparr>pt_store = fmupd (pt_next T)
                    \<lparr>ps_policy = policy, ps_rateWindows = fmempty, ps_concurrent = fmempty\<rparr> (pt_store T),
                  pt_next = pt_next T + 1,
                  pt_policies = fmupd (ep_ID policy) (pt_next T) (pt_policies T)\<rparr>)))"

definition redact :: "EndpointPolicy \<Rightarrow> EndpointPolicy" where
  "redact p = p\<lparr>ep_BasicPassword := [], ep_BearerToken := []\<rparr>"

definition ListEndpointPolicies :: "string list \<Rightarrow> PolicyTable \<Rightarrow> EndpointPolicy list" where
  "ListEndpointPolicies ks T =
     sort_slice (\<lambda>p q. ep_ID p < ep_ID q)
       (map (redact \<circ> ps_policy) (List.map_filter (policy_state T) ks))"

definition DeleteEndpointPolicy :: "string \<Rightarrow> PolicyTable \<Rightarrow> policy_error option \<times> PolicyTable" where
  "DeleteEndpointPolicy i0 T =
     (let i = trim_space i0 in
      if i = [] then (Some PolicyIDRequired, T)
      else (case fmlookup (pt_policies T) i of
              None \<Rightarrow> (Some (ErrPolicyNotFound i), T)
            | Some _ \<Rightarrow> (None, T\<lparr>pt_policies := fmdrop i (pt_policies T)\<rparr>)))"

definition evaluateEndpointPolicy ::
    "netlib \<Rightarrow> gotime \<Rightarrow> string \<Rightarrow> Request \<Rightarrow> PolicyTable \<Rightarrow> (nat \<times> string) decision \<times> PolicyTable" where
  "evaluateEndpointPolicy lib now policyID0 r T =
     (let policyID = trim_space policyID0 in
      if policyID = [] \<or> policyID = ''none'' then (Allowed None, T)
      else (case fmlookup (pt_policies T) policyID of
              None \<Rightarrow> (Rejected 403 PolicyNotFound, T)
            | Some a \<Rightarrow>
                (case fmlookup (pt_store T) a of
                   None \<Rightarrow> (Rejected 403 PolicyNotFound, T)
                 | Some st \<Rightarrow>
                     (case evaluate lib now r st of
                        (d, st') \<Rightarrow>
                          (case d of Allowed None \<Rightarrow> Allowed None
                           | Allowed (Some c) \<Rightarrow> Allowed (Some (a, c))
                           | Rejected s e \<Rightarrow> Rejected s e,
                           T\<lparr>pt_store := fmupd a st' (pt_store T)\<rparr>)))))"

definition release_at :: "nat \<times> string \<Rightarrow> PolicyTable \<Rightarrow> PolicyTable" where
  "release_at tok T =
     (case fmlookup (pt_store T) (fst tok) of
        None \<Rightarrow> T
      | Some st \<Rightarrow> T\<lparr>pt_store := fmupd (fst tok) (release (snd tok) st) (pt_store T)\<rparr>)"

section \<open>What the checks decide\<close>

definition pattern_matches :: "netlib \<Rightarrow> netip_addr \<Rightarrow> string \<Rightarrow> bool" where
  "pattern_matches lib ip pattern \<longleftrightarrow>
     trim_space pattern \<noteq> [] \<and>
     (case ParsePrefix lib (trim_space pattern) of
        Some prefix \<Rightarrow> prefix_contains prefix ip
      | None \<Rightarrow> ParseAddr lib (trim_space pattern) = Some ip)"

lemma match_patterns_iff: "match_patterns lib ip ps \<longleftrightarrow> (\<exists>p \<in> set ps. pattern_matches lib ip p)"
  by (induction ps) (auto simp: pattern_matches_def Let_def split: option.splits)

lemma ipMatchesAny_iff:
  "ipMatchesAny lib raw ps \<longleftrightarrow>
     (\<exists>ip. ParseAddr lib (trim_space raw) = Some ip \<and> (\<exists>p \<in> set ps. pattern_matches lib ip p))"
  by (auto simp: ipMatchesAny_def match_patterns_iff split: option.splits)

definition auth_ok :: "netlib \<Rightarrow> Request \<Rightarrow> EndpointPolicy \<Rightarrow> bool" where
  "auth_ok lib r p \<longleftrightarrow>
     ep_AuthMode p = ''none''
     \<or> ep_AuthMode p = ''basic_auth'' \<and>
         BasicAuth lib (rq_Authorization r) = Some (ep_BasicUsername p, ep_BasicPassword p)
     \<or> ep_AuthMode p = ''bearer_token'' \<and> rq_Authorization r = ''Bearer '' @ ep_BearerToken p"

definition access_ok :: "netlib \<Rightarrow> gotime \<Rightarrow> Request \<Rightarrow> EndpointPolicy \<Rightarrow> bool" where
  "access_ok lib now r p \<longleftrightarrow>
     (ep_NotBefore p \<noteq> 0 \<longrightarrow> ep_NotBefore p \<le> now) \<and> (ep_NotAfter p \<noteq> 0 \<longrightarrow> now \<le> ep_NotAfter p) \<and>
     \<not> ipMatchesAny lib (clientIPFromRequest r) (ep_DeniedIPs p) \<and>
     (ep_AllowedIPs p \<noteq> [] \<longrightarrow> ipMatchesAny lib (clientIPFromRequest r) (ep_AllowedIPs p)) \<and>
     auth_ok lib r p"

lemma trim_prefix_neq: "p \<noteq> [] \<Longrightarrow> trim_prefix s p \<noteq> s \<and> trim_prefix s p = t \<longleftrightarrow> s = p @ t"
proof -
  assume p: "p \<noteq> []"
  show ?thesis
  proof (cases "has_prefix s p")
    case True
    then have s: "s = p @ drop (length p) s" by (metis append_take_drop_id has_prefix_def)
    have "drop (length p) s \<noteq> s" using s p by (metis append_self_conv2)
    then show ?thesis using True s by (auto simp: trim_prefix_def)
  next
    case False
    then show ?thesis by (auto simp: trim_prefix_def has_prefix_def)
  qed
qed

lemma bearer_ok_iff: "bearer_ok p r \<longleftrightarrow> rq_Authorization r = ''Bearer '' @ ep_BearerToken p"
  unfolding bearer_ok_def Let_def by (rule trim_prefix_neq) simp

lemma basic_ok_iff:
  "basic_ok lib p r \<longleftrightarrow> BasicAuth lib (rq_Authorization r) = Some (ep_BasicUsername p, ep_BasicPassword p)"
  by (auto simp: basic_ok_def split: option.splits)

lemma check_access_None: "check_access lib now r p = None \<longleftrightarrow> access_ok lib now r p"
proof -
  consider "ep_AuthMode p = ''none''" | "ep_AuthMode p = ''basic_auth''" | "ep_AuthMode p = ''bearer_token''"
    | "ep_AuthMode p \<noteq> ''none''" "ep_AuthMode p \<noteq> ''basic_auth''" "ep_AuthMode p \<noteq> ''bearer_token''" by blast
  then have "(if ep_AuthMode p = ''none'' then None
      else if ep_AuthMode p = ''basic_auth'' then
        (if basic_ok lib p r then None else Some (401 :: nat, BasicAuthRequired))
      else if ep_AuthMode p = ''bearer_token'' then
        (if bearer_ok p r then None else Some (401, BearerTokenRequired))
      else Some (403, UnsupportedAuthMode)) = None \<longleftrightarrow> auth_ok lib r p"
    by cases (simp_all add: auth_ok_def basic_ok_iff bearer_ok_iff)
  then show ?thesis
    unfolding check_access_def access_ok_def is_zero_time_def Let_def
    by (simp split: if_split add: linorder_not_less)
qed

lemma check_concurrent_policy [simp]: "ps_policy (snd (check_concurrent c st)) = ps_policy st"
  by (simp add: check_concurrent_def)

lemma check_concurrent_windows [simp]: "ps_rateWindows (snd (check_concurrent c st)) = ps_rateWindows st"
  by (simp add: check_concurrent_def)

lemma evaluate_policy [simp]: "ps_policy (snd (evaluate lib now r st)) = ps_policy st"
  by (simp add: evaluate_def Let_def split: option.split prod.split)

lemma evaluate_policy': "evaluate lib now r st = (d, st') \<Longrightarrow> ps_policy st' = ps_policy st"
  by (metis evaluate_policy snd_conv)

lemma release_policy [simp]: "ps_policy (release c st) = ps_policy st"
  by (simp add: release_def)

lemma release_windows [simp]: "ps_rateWindows (release c st) = ps_rateWindows st"
  by (simp add: release_def)

definition is_allowed :: "'rel decision \<Rightarrow> bool" where
  "is_allowed d \<longleftrightarrow> (case d of Allowed _ \<Rightarrow> True | Rejected _ _ \<Rightarrow> False)"

lemma is_allowed_simps [simp]: "is_allowed (Allowed x)" "\<not> is_allowed (Rejected s e)"
  by (simp_all add: is_allowed_def)

lemma check_concurrent_allowed:
  "is_allowed (fst (check_concurrent c st)) \<longleftrightarrow>
     (ep_MaxConcurrent (ps_policy st) > 0 \<longrightarrow> conc_count st c < ep_MaxConcurrent (ps_policy st))"
  by (auto simp: check_concurrent_def)

lemma conc_count_windows [simp]: "conc_count (st\<lparr>ps_rateWindows := w\<rparr>) c = conc_count st c"
  by (simp add: conc_count_def)

lemma evaluate_allowed:
  "is_allowed (fst (evaluate lib now r st)) \<longleftrightarrow>
     access_ok lib now r (ps_policy st) \<and>
     (ep_RateLimitPerMinute (ps_policy st) > 0 \<longrightarrow>
        rw_count (next_window now (clientIPFromRequest r) st) \<le> ep_RateLimitPerMinute (ps_policy st)) \<and>
     (ep_MaxConcurrent (ps_policy st) > 0 \<longrightarrow>
        conc_count st (clientIPFromRequest r) < ep_MaxConcurrent (ps_policy st))"
proof (cases "check_access lib now r (ps_policy st)")
  case None
  then have "access_ok lib now r (ps_policy st)" by (simp add: check_access_None)
  then show ?thesis
    by (simp add: evaluate_def None Let_def check_concurrent_allowed not_le)
next
  case (Some x)
  then have "\<not> access_ok lib now r (ps_policy st)" using check_access_None [of lib now r "ps_policy st"] by simp
  moreover obtain a b where "x = (a, b)" by (cases x)
  ultimately show ?thesis by (simp add: evaluate_def Some)
qed

section \<open>The rate limit over time\<close>

definition bump :: "gotime \<Rightarrow> (gotime \<times> int) option \<Rightarrow> gotime \<times> int" where
  "bump t w = (case w of Some (s, k) \<Rightarrow> if s = 0 \<or> t - s \<ge> minute then (t, 1) else (s, k + 1)
                       | None \<Rightarrow> (t, 1))"

definition win :: "endpointPolicyState \<Rightarrow> string \<Rightarrow> (gotime \<times> int) option" where
  "win st c = map_option (\<lambda>w. (rw_start w, rw_count w)) (fmlookup (ps_rateWindows st) c)"

lemma next_window_bump: "(rw_start (next_window t c st), rw_count (next_window t c st)) = bump t (win st c)"
  using time_sub_ge [of minute t]
  by (cases "fmlookup (ps_rateWindows st) c")
    (auto simp: next_window_def bump_def win_def Let_def is_zero_time_def)

lemma win_release [simp]: "win (release d st) c = win st c"
  by (simp add: win_def)

lemma evaluate_windows:
  assumes "check_access lib t r (ps_policy st) = None" and "ep_RateLimitPerMinute (ps_policy st) > 0"
  shows "ps_rateWindows (snd (evaluate lib t r st)) =
    fmupd (clientIPFromRequest r) (next_window t (clientIPFromRequest r) st) (ps_rateWindows st)"
  using assms by (simp add: evaluate_def Let_def split: if_split)

lemma win_evaluate:
  assumes "evaluate lib t r st = (d, st')" and L: "ep_RateLimitPerMinute (ps_policy st) > 0"
  shows "(clientIPFromRequest r \<noteq> c \<longrightarrow> win st' c = win st c) \<and>
    (clientIPFromRequest r = c \<longrightarrow> win st' c = win st c \<and> \<not> is_allowed d \<or>
       win st' c = Some (bump t (win st c)) \<and>
       (is_allowed d \<longrightarrow> snd (bump t (win st c)) \<le> ep_RateLimitPerMinute (ps_policy st)))"
proof (cases "check_access lib t r (ps_policy st)")
  case (Some x)
  then show ?thesis using assms(1) by (cases x) (auto simp: evaluate_def)
next
  case None
  let ?c = "clientIPFromRequest r"
  let ?w = "next_window t ?c st"
  have st': "ps_rateWindows st' = fmupd ?c ?w (ps_rateWindows st)"
    using evaluate_windows [OF None L] assms(1) by simp
  have "rw_count ?w \<le> ep_RateLimitPerMinute (ps_policy st)" if "is_allowed d"
    using evaluate_allowed [of lib t r st] assms L that by simp
  moreover have "snd (bump t (win st ?c)) = rw_count ?w" by (metis next_window_bump snd_conv)
  moreover have "win st' ?c = Some (bump t (win st ?c))"
    by (simp add: win_def [of st'] st' next_window_bump)
  moreover have "win st' c = win st c" if "?c \<noteq> c" using that by (simp add: win_def st')
  ultimately show ?thesis by auto
qed

text \<open>What happens to one policy state: requests at their times, and releases.\<close>

datatype pol_event = Req gotime Request | Rel string

fun event_times :: "pol_event list \<Rightarrow> gotime list" where
  "event_times [] = []"
| "event_times (Req t r # es) = t # event_times es"
| "event_times (Rel c # es) = event_times es"

fun admitted :: "netlib \<Rightarrow> pol_event list \<Rightarrow> endpointPolicyState \<Rightarrow> string \<Rightarrow> gotime list" where
  "admitted lib [] st c = []"
| "admitted lib (Rel d # es) st c = admitted lib es (release d st) c"
| "admitted lib (Req t r # es) st c =
     (case evaluate lib t r st of
        (d, st') \<Rightarrow>
          if is_allowed d \<and> clientIPFromRequest r = c then t # admitted lib es st' c
          else admitted lib es st' c)"

definition in_span :: "gotime \<Rightarrow> gotime \<Rightarrow> bool" where
  "in_span t0 t \<longleftrightarrow> t0 \<le> t \<and> t < t0 + minute"

definition span_count :: "gotime \<Rightarrow> gotime list \<Rightarrow> int" where
  "span_count t0 ts = int (length (filter (in_span t0) ts))"

lemma span_count_simps [simp]:
  "span_count t0 [] = 0"
  "span_count t0 (t # ts) = (if in_span t0 t then 1 else 0) + span_count t0 ts"
  by (simp_all add: span_count_def)

lemma admitted_times: "set (admitted lib es st c) \<subseteq> set (event_times es)"
proof (induction es arbitrary: st)
  case (Cons e es)
  show ?case
  proof (cases e)
    case (Req t r)
    obtain d st' where "evaluate lib t r st = (d, st')" by fastforce
    then show ?thesis using Cons.IH [of st'] Req by auto
  next
    case (Rel d)
    then show ?thesis using Cons.IH by simp
  qed
qed simp

lemma span_count_past:
  assumes "\<forall>t \<in> set (event_times es). t0 + minute \<le> t"
  shows "span_count t0 (admitted lib es st c) = 0"
proof -
  have "filter (in_span t0) (admitted lib es st c) = []"
    using admitted_times [of lib es st c] assms by (fastforce simp: filter_empty_conv in_span_def)
  then show ?thesis by (simp add: span_count_def)
qed

abbreviation rate_of :: "endpointPolicyState \<Rightarrow> int" where
  "rate_of st \<equiv> ep_RateLimitPerMinute (ps_policy st)"

lemma admitted_step:
  assumes "0 < rate_of st"
  obtains st' b where "rate_of st' = rate_of st"
    "span_count t0 (admitted lib (Req t r # es) st c) =
       (if b \<and> in_span t0 t then 1 else 0) + span_count t0 (admitted lib es st' c)"
    "win st' c = win st c \<and> \<not> b \<or>
     win st' c = Some (bump t (win st c)) \<and> (b \<longrightarrow> snd (bump t (win st c)) \<le> rate_of st)"
proof -
  obtain d st' where e: "evaluate lib t r st = (d, st')" by fastforce
  let ?b = "is_allowed d \<and> clientIPFromRequest r = c"
  have "rate_of st' = rate_of st" using evaluate_policy [of lib t r st] by (simp add: e)
  moreover have "span_count t0 (admitted lib (Req t r # es) st c) =
       (if ?b \<and> in_span t0 t then 1 else 0) + span_count t0 (admitted lib es st' c)"
    by (simp add: e)
  moreover have "win st' c = win st c \<and> \<not> ?b \<or>
     win st' c = Some (bump t (win st c)) \<and> (?b \<longrightarrow> snd (bump t (win st c)) \<le> rate_of st)"
    using win_evaluate [OF e assms] by blast
  ultimately show ?thesis by (rule that)
qed

lemma span_same_window:
  assumes "0 < rate_of st" "sorted (event_times es)" "\<forall>t \<in> set (event_times es). s \<le> t"
    "win st c = Some (s, k)" "s \<noteq> 0" "t0 \<le> s"
  shows "span_count t0 (admitted lib es st c) \<le> max 0 (rate_of st - k)"
  using assms
proof (induction es arbitrary: st k)
  case (Cons e es)
  show ?case
  proof (cases e)
    case (Req t r)
    have t: "s \<le> t" "\<forall>u \<in> set (event_times es). t \<le> u" "sorted (event_times es)"
      "\<forall>u \<in> set (event_times es). s \<le> u"
      using Cons.prems(2,3) Req by auto
    obtain st' b where st': "rate_of st' = rate_of st"
        "span_count t0 (admitted lib (Req t r # es) st c) =
           (if b \<and> in_span t0 t then 1 else 0) + span_count t0 (admitted lib es st' c)"
        "win st' c = win st c \<and> \<not> b \<or>
         win st' c = Some (bump t (win st c)) \<and> (b \<longrightarrow> snd (bump t (win st c)) \<le> rate_of st)"
      using admitted_step [OF Cons.prems(1), of t0 lib t r es c] .
    have IH: "win st' c = Some (s, k') \<Longrightarrow>
        span_count t0 (admitted lib es st' c) \<le> max 0 (rate_of st - k')" for k'
      using Cons.IH [of st' k'] st'(1) Cons.prems t by auto
    show ?thesis
    proof (cases "t - s \<ge> minute")
      case True
      then have "\<not> in_span t0 t" "\<forall>u \<in> set (event_times es). t0 + minute \<le> u"
        using t Cons.prems(6) by (auto simp: in_span_def)
      then show ?thesis using st'(2) span_count_past [of es t0 lib st' c] Req by simp
    next
      case False
      then have "bump t (win st c) = (s, k + 1)" using Cons.prems(4,5) by (simp add: bump_def)
      then consider "win st' c = Some (s, k)" "\<not> b"
        | "win st' c = Some (s, k + 1)" "b \<longrightarrow> k + 1 \<le> rate_of st"
        using st'(3) Cons.prems(4) by auto
      then show ?thesis
      proof cases
        case 1
        then show ?thesis using IH [of k] st'(2) Req by simp
      next
        case 2
        then show ?thesis using IH [of "k + 1"] st'(2) Req by (auto split: if_splits)
      qed
    qed
  next
    case (Rel d)
    then show ?thesis using Cons.IH [of "release d st" k] Cons.prems by simp
  qed
qed simp

lemma span_two_windows:
  assumes "0 < rate_of st" "sorted (event_times es)" "\<forall>t \<in> set (event_times es). s \<le> t \<and> 0 < t"
    "win st c = Some (s, k)" "s \<noteq> 0" "t0 - minute \<le> s"
  shows "span_count t0 (admitted lib es st c) \<le> max 0 (rate_of st - k) + rate_of st"
  using assms
proof (induction es arbitrary: st k)
  case (Cons e es)
  show ?case
  proof (cases e)
    case (Req t r)
    have t: "s \<le> t" "0 < t" "\<forall>u \<in> set (event_times es). t \<le> u" "sorted (event_times es)"
      "\<forall>u \<in> set (event_times es). s \<le> u \<and> 0 < u"
      using Cons.prems(2,3) Req by auto
    obtain st' b where st': "rate_of st' = rate_of st"
        "span_count t0 (admitted lib (Req t r # es) st c) =
           (if b \<and> in_span t0 t then 1 else 0) + span_count t0 (admitted lib es st' c)"
        "win st' c = win st c \<and> \<not> b \<or>
         win st' c = Some (bump t (win st c)) \<and> (b \<longrightarrow> snd (bump t (win st c)) \<le> rate_of st)"
      using admitted_step [OF Cons.prems(1), of t0 lib t r es c] .
    have IH: "win st' c = Some (s, k') \<Longrightarrow>
        span_count t0 (admitted lib es st' c) \<le> max 0 (rate_of st - k') + rate_of st" for k'
      using Cons.IH [of st' k'] st'(1) Cons.prems t by auto
    show ?thesis
    proof (cases "t - s \<ge> minute")
      case True
      then have bmp: "bump t (win st c) = (t, 1)" using Cons.prems(4) by (simp add: bump_def)
      consider "win st' c = Some (s, k)" "\<not> b" | "win st' c = Some (t, 1)"
        using st'(3) Cons.prems(4) bmp by auto
      then show ?thesis
      proof cases
        case 1
        then show ?thesis using IH [of k] st'(2) Req by simp
      next
        case 2
        have "span_count t0 (admitted lib es st' c) \<le> max 0 (rate_of st' - 1)"
          using span_same_window [OF _ t(4,3) 2, of t0 lib] st'(1) Cons.prems(1,6) t(2) True by simp
        moreover have "0 \<le> max 0 (rate_of st - k)" by simp
        ultimately show ?thesis using st'(1,2) Req Cons.prems(1)
          by (cases "b \<and> in_span t0 t") (simp_all del: admitted.simps)
      qed
    next
      case False
      then have "bump t (win st c) = (s, k + 1)" using Cons.prems(4,5) by (simp add: bump_def)
      then consider "win st' c = Some (s, k)" "\<not> b"
        | "win st' c = Some (s, k + 1)" "b \<longrightarrow> k + 1 \<le> rate_of st"
        using st'(3) Cons.prems(4) by auto
      then show ?thesis
      proof cases
        case 1
        then show ?thesis using IH [of k] st'(2) Req by simp
      next
        case 2
        then show ?thesis using IH [of "k + 1"] st'(2) Req by (auto split: if_splits)
      qed
    qed
  next
    case (Rel d)
    then show ?thesis using Cons.IH [of "release d st" k] Cons.prems by simp
  qed
qed simp

lemma span_bound:
  assumes "0 < rate_of st" "sorted (event_times es)"
    "\<forall>t \<in> set (event_times es). 0 < t \<and> (\<forall>s k. win st c = Some (s, k) \<longrightarrow> s \<le> t)"
    "\<forall>s k. win st c = Some (s, k) \<longrightarrow> s \<noteq> 0 \<and> 1 \<le> k"
  shows "span_count t0 (admitted lib es st c) \<le> 2 * rate_of st - 1"
  using assms
proof (induction es arbitrary: st)
  case (Cons e es)
  show ?case
  proof (cases e)
    case (Req t r)
    have t: "0 < t" "\<forall>u \<in> set (event_times es). t \<le> u" "sorted (event_times es)"
      using Cons.prems(2,3) Req by auto
    show ?thesis
    proof (cases "\<exists>s k. win st c = Some (s, k) \<and> t0 - minute \<le> s")
      case True
      then obtain s k where w: "win st c = Some (s, k)" "t0 - minute \<le> s" by blast
      have "span_count t0 (admitted lib (e # es) st c) \<le> max 0 (rate_of st - k) + rate_of st"
        by (rule span_two_windows [OF Cons.prems(1,2) _ w(1) _ w(2)]) (use Cons.prems(3,4) w(1) in auto)
      moreover have "1 \<le> k" using Cons.prems(4) w(1) by blast
      ultimately show ?thesis using Cons.prems(1) by simp
    next
      case False
      obtain st' b where st': "rate_of st' = rate_of st"
          "span_count t0 (admitted lib (Req t r # es) st c) =
             (if b \<and> in_span t0 t then 1 else 0) + span_count t0 (admitted lib es st' c)"
          "win st' c = win st c \<and> \<not> b \<or>
           win st' c = Some (bump t (win st c)) \<and> (b \<longrightarrow> snd (bump t (win st c)) \<le> rate_of st)"
        using admitted_step [OF Cons.prems(1), of t0 lib t r es c] .
      have pos: "\<forall>u \<in> set (event_times es). 0 < u" using t by auto
      consider (same) "win st' c = win st c" "\<not> b"
        | (new) "win st' c = Some (t, 1)"
        | (old) s k where "win st c = Some (s, k)" "win st' c = Some (s, k + 1)" "t - s < minute"
        using st'(3) by (auto simp: bump_def split: option.splits if_splits)
      then show ?thesis
      proof cases
        case same
        have "span_count t0 (admitted lib es st' c) \<le> 2 * rate_of st' - 1"
          by (rule Cons.IH) (use st'(1) Cons.prems same t(3) Req in auto)
        then show ?thesis using st'(1,2) same Req by simp
      next
        case new
        show ?thesis
        proof (cases "in_span t0 t")
          case True
          have "span_count t0 (admitted lib es st' c) \<le> max 0 (rate_of st' - 1)"
            by (rule span_same_window [OF _ t(3,2) new]) (use st'(1) Cons.prems(1) t(1) True in \<open>auto simp: in_span_def\<close>)
          then show ?thesis using st'(1,2) Req Cons.prems(1) by simp
        next
          case False
          have "span_count t0 (admitted lib es st' c) \<le> 2 * rate_of st' - 1"
            by (rule Cons.IH) (use st'(1) Cons.prems(1) new t pos in auto)
          then show ?thesis using st'(1,2) False Req by simp
        qed
      next
        case old
        then have "s < t0 - minute" using False by force
        then have "\<not> in_span t0 t" using old(3) by (simp add: in_span_def)
        moreover have "span_count t0 (admitted lib es st' c) \<le> 2 * rate_of st' - 1"
          by (rule Cons.IH) (use st'(1) Cons.prems old t pos Req in auto)
        ultimately show ?thesis using st'(1,2) Req by simp
      qed
    qed
  next
    case (Rel d)
    then show ?thesis using Cons.IH [of "release d st"] Cons.prems by simp
  qed
qed simp

section \<open>Concurrent requests\<close>

text \<open>
  A policy state with the requests in flight that hold a release closure, one entry per request,
  under the client it was admitted for. A request calls its closure once, when it is done.
\<close>

inductive pol_step ::
    "netlib \<Rightarrow> endpointPolicyState \<times> string multiset \<Rightarrow> endpointPolicyState \<times> string multiset \<Rightarrow> bool"
  for lib where
  req_admit: "evaluate lib t r st = (Allowed (Some c), st') \<Longrightarrow> pol_step lib (st, M) (st', add_mset c M)"
| req_pass: "evaluate lib t r st = (Allowed None, st') \<Longrightarrow> pol_step lib (st, M) (st', M)"
| req_deny: "evaluate lib t r st = (Rejected s e, st') \<Longrightarrow> pol_step lib (st, M) (st', M)"
| req_done: "c \<in># M \<Longrightarrow> pol_step lib (st, M) (release c st, M - {#c#})"

inductive pol_reach :: "netlib \<Rightarrow> EndpointPolicy \<Rightarrow> endpointPolicyState \<times> string multiset \<Rightarrow> bool"
  for lib p where
  init: "pol_reach lib p (\<lparr>ps_policy = p, ps_rateWindows = fmempty, ps_concurrent = fmempty\<rparr>, {#})"
| step: "pol_reach lib p x \<Longrightarrow> pol_step lib x y \<Longrightarrow> pol_reach lib p y"

inductive_simps pol_step_iff: "pol_step lib (st, M) (st', M')"

definition conc_inv :: "endpointPolicyState \<Rightarrow> string multiset \<Rightarrow> bool" where
  "conc_inv st M \<longleftrightarrow>
     (\<forall>c. fmlookup (ps_concurrent st) c = (if c \<in># M then Some (int (count M c)) else None)) \<and>
     (ep_MaxConcurrent (ps_policy st) > 0 \<longrightarrow> (\<forall>c. int (count M c) \<le> ep_MaxConcurrent (ps_policy st)))"

lemma conc_inv_count: "conc_inv st M \<Longrightarrow> conc_count st c = int (count M c)"
  by (auto simp: conc_inv_def conc_count_def not_in_iff)

lemma check_concurrent_cases:
  assumes "check_concurrent c st = (d, st')"
  shows "d = Allowed (Some c) \<and> conc_count st c < ep_MaxConcurrent (ps_policy st) \<and>
      ps_concurrent st' = fmupd c (conc_count st c + 1) (ps_concurrent st) \<or>
    (\<forall>k. d \<noteq> Allowed (Some k)) \<and> ps_concurrent st' = ps_concurrent st"
  using assms by (auto simp: check_concurrent_def split: if_splits)

lemma evaluate_concurrent:
  assumes "evaluate lib t r st = (d, st')"
  shows "d = Allowed (Some (clientIPFromRequest r)) \<and>
      conc_count st (clientIPFromRequest r) < ep_MaxConcurrent (ps_policy st) \<and>
      ps_concurrent st' =
        fmupd (clientIPFromRequest r) (conc_count st (clientIPFromRequest r) + 1) (ps_concurrent st) \<or>
    (\<forall>c. d \<noteq> Allowed (Some c)) \<and> ps_concurrent st' = ps_concurrent st"
proof (cases "check_access lib t r (ps_policy st)")
  case (Some x)
  then show ?thesis using assms by (cases x) (auto simp: evaluate_def)
next
  case None
  let ?c = "clientIPFromRequest r" and ?w = "next_window t (clientIPFromRequest r) st"
  let ?s = "st\<lparr>ps_rateWindows := fmupd ?c ?w (ps_rateWindows st)\<rparr>"
  consider "check_concurrent ?c ?s = (d, st')" | "(d, st') = (Rejected 429 RateLimitExceeded, ?s)"
    | "check_concurrent ?c st = (d, st')"
    using assms unfolding evaluate_def None Let_def option.case
    by (cases "0 < rate_of st"; cases "rate_of st < rw_count ?w") simp_all
  then show ?thesis
  proof cases
    case 1
    from check_concurrent_cases [OF this] show ?thesis
      by simp
  next
    case 2
    then show ?thesis by simp
  next
    case 3
    then show ?thesis by (rule check_concurrent_cases)
  qed
qed

lemma pol_step_policy: "pol_step lib (st, M) (st', M') \<Longrightarrow> ps_policy st' = ps_policy st"
  by (auto simp: pol_step_iff dest: evaluate_policy')

lemma conc_inv_step:
  assumes "pol_step lib (st, M) (st', M')" and inv: "conc_inv st M"
  shows "conc_inv st' M'"
  using assms(1)
proof (cases rule: pol_step.cases)
  case (req_admit t r c)
  then obtain "conc_count st c < ep_MaxConcurrent (ps_policy st)"
      "ps_concurrent st' = fmupd c (conc_count st c + 1) (ps_concurrent st)"
    using evaluate_concurrent [OF req_admit(2)] by auto
  then show ?thesis
    using inv conc_inv_count [OF inv, of c] pol_step_policy [OF assms(1)] req_admit(1)
    by (auto simp: conc_inv_def)
next
  case (req_pass t r)
  then show ?thesis using inv evaluate_concurrent [OF req_pass(2)] pol_step_policy [OF assms(1)]
    by (simp add: conc_inv_def)
next
  case (req_deny t r s e)
  then show ?thesis using inv evaluate_concurrent [OF req_deny(2)] pol_step_policy [OF assms(1)]
    by (simp add: conc_inv_def)
next
  case (req_done c)
  have l: "fmlookup (ps_concurrent st') k =
      (if k = c then (if count M c > 1 then Some (int (count M c) - 1) else None) else fmlookup (ps_concurrent st) k)" for k
    using conc_inv_count [OF inv, of c] by (simp add: req_done(1) release_def)
  have k: "k \<in># M - {#c#} \<longleftrightarrow> (if k = c then count M c > 1 else k \<in># M)" for k
    by (metis One_nat_def Suc_lessI count_diff count_greater_zero_iff count_single diff_is_0_eq' in_diff_count
        less_Suc0 linorder_not_less nat_less_le zero_less_diff)
  have "fmlookup (ps_concurrent st') a = (if a \<in># M' then Some (int (count M' a)) else None)" for a
    using inv l [of a] k [of a] req_done(3) by (auto simp: conc_inv_def req_done(2) of_nat_diff)
  moreover have "int (count M' a) \<le> int (count M a)" for a by (simp add: req_done(2))
  then have "ep_MaxConcurrent (ps_policy st) > 0 \<longrightarrow> (\<forall>a. int (count M' a) \<le> ep_MaxConcurrent (ps_policy st))"
    using inv unfolding conc_inv_def by (meson order_trans)
  ultimately show ?thesis by (simp add: conc_inv_def pol_step_policy [OF assms(1)])
qed

lemma pol_reach_inv: "pol_reach lib p x \<Longrightarrow> conc_inv (fst x) (snd x) \<and> ps_policy (fst x) = p"
proof (induction rule: pol_reach.induct)
  case init
  then show ?case by (simp add: conc_inv_def)
next
  case (step x y)
  then show ?case using conc_inv_step [of lib "fst x" "snd x" "fst y" "snd y"]
      pol_step_policy [of lib "fst x" "snd x" "fst y" "snd y"] by simp
qed

section \<open>The invariant of the table\<close>

definition policy_wf :: "EndpointPolicy \<Rightarrow> bool" where
  "policy_wf p \<longleftrightarrow> ep_ID p \<noteq> [] \<and> trim_space (ep_ID p) = ep_ID p \<and> check_policy p = None
     \<and> normalizeAuthMode (ep_AuthMode p) = ep_AuthMode p"

definition pt_inv :: "PolicyTable \<Rightarrow> bool" where
  "pt_inv T \<longleftrightarrow>
     (\<forall>a st. fmlookup (pt_store T) a = Some st \<longrightarrow> a < pt_next T) \<and>
     (\<forall>i a. fmlookup (pt_policies T) i = Some a \<longrightarrow>
        (\<exists>st. fmlookup (pt_store T) a = Some st \<and> ep_ID (ps_policy st) = i \<and> policy_wf (ps_policy st)))"

lemma pt_inv_init: "pt_inv newPolicyTable"
  by (simp add: pt_inv_def newPolicyTable_def)

lemma normalizeAuthMode_idem: "normalizeAuthMode (normalizeAuthMode m) = normalizeAuthMode m"
proof -
  have "normalizeAuthMode ''none'' = ''none''" "normalizeAuthMode ''basic_auth'' = ''basic_auth''"
    "normalizeAuthMode ''bearer_token'' = ''bearer_token''" by code_simp+
  then show ?thesis unfolding normalizeAuthMode_def [of m] Let_def
    by (simp split: if_split) (simp add: normalizeAuthMode_def)
qed

lemma policy_state_Some:
  "policy_state T i = Some st \<longleftrightarrow> (\<exists>a. fmlookup (pt_policies T) i = Some a \<and> fmlookup (pt_store T) a = Some st)"
  by (auto simp: policy_state_def split: option.splits)

lemma pt_inv_state:
  "pt_inv T \<Longrightarrow> fmlookup (pt_policies T) i = Some a \<Longrightarrow>
     \<exists>st. policy_state T i = Some st \<and> ep_ID (ps_policy st) = i \<and> policy_wf (ps_policy st)"
  by (fastforce simp: pt_inv_def policy_state_def)

lemma Upsert_ok:
  assumes "UpsertEndpointPolicy now p T = (Inr q, T')"
  shows "policy_wf q \<and> ep_ID q = trim_space (ep_ID p) \<and> ep_AuthMode q = normalizeAuthMode (ep_AuthMode p) \<and>
    ep_UpdatedAt q = now \<and>
    ep_CreatedAt q = (case policy_state T (ep_ID q) of
        Some old \<Rightarrow> if ep_CreatedAt (ps_policy old) \<noteq> 0 then ep_CreatedAt (ps_policy old)
                    else if ep_CreatedAt p = 0 then now else ep_CreatedAt p
      | None \<Rightarrow> if ep_CreatedAt p = 0 then now else ep_CreatedAt p) \<and>
    T' = \<lparr>pt_store = fmupd (pt_next T) \<lparr>ps_policy = q, ps_rateWindows = fmempty, ps_concurrent = fmempty\<rparr> (pt_store T),
          pt_next = pt_next T + 1, pt_policies = fmupd (ep_ID q) (pt_next T) (pt_policies T)\<rparr>"
proof -
  define p1 where "p1 = p\<lparr>ep_ID := trim_space (ep_ID p)\<rparr>"
  define p2 where "p2 = p1\<lparr>ep_AuthMode := normalizeAuthMode (ep_AuthMode p1)\<rparr>"
  define p3 where "p3 = (if is_zero_time (ep_CreatedAt p2) then p2\<lparr>ep_CreatedAt := now\<rparr> else p2)\<lparr>ep_UpdatedAt := now\<rparr>"
  define p4 where "p4 = (case policy_state T (ep_ID p3) of
      Some existing \<Rightarrow> if \<not> is_zero_time (ep_CreatedAt (ps_policy existing))
        then p3\<lparr>ep_CreatedAt := ep_CreatedAt (ps_policy existing)\<rparr> else p3
    | None \<Rightarrow> p3)"
  have eq: "UpsertEndpointPolicy now p T =
      (if ep_ID p1 = [] then (Inl PolicyIDRequired, T)
       else (case check_policy p2 of
               Some e \<Rightarrow> (Inl e, T)
             | None \<Rightarrow> (Inr p4,
                 \<lparr>pt_store = fmupd (pt_next T) \<lparr>ps_policy = p4, ps_rateWindows = fmempty, ps_concurrent = fmempty\<rparr> (pt_store T),
                  pt_next = pt_next T + 1, pt_policies = fmupd (ep_ID p4) (pt_next T) (pt_policies T)\<rparr>)))"
    unfolding UpsertEndpointPolicy_def p4_def p3_def p2_def p1_def Let_def by (rule refl)
  have ne: "ep_ID p1 \<noteq> []" using assms unfolding eq by (auto split: if_split_asm)
  have chk: "check_policy p2 = None"
    using assms ne unfolding eq by (auto split: if_split_asm option.split_asm)
  have "p4 = q \<and> \<lparr>pt_store = fmupd (pt_next T) \<lparr>ps_policy = p4, ps_rateWindows = fmempty, ps_concurrent = fmempty\<rparr> (pt_store T),
          pt_next = pt_next T + 1, pt_policies = fmupd (ep_ID p4) (pt_next T) (pt_policies T)\<rparr> = T'"
    using assms [unfolded eq chk option.case if_not_P [OF ne] prod.inject sum.inject] .
  then have q: "q = p4" and T': "T' = \<lparr>pt_store = fmupd (pt_next T) \<lparr>ps_policy = p4, ps_rateWindows = fmempty, ps_concurrent = fmempty\<rparr> (pt_store T),
          pt_next = pt_next T + 1, pt_policies = fmupd (ep_ID p4) (pt_next T) (pt_policies T)\<rparr>"
    by (blast intro: sym)+
  have id: "ep_ID p4 = trim_space (ep_ID p)" "ep_AuthMode p4 = normalizeAuthMode (ep_AuthMode p)"
    "ep_UpdatedAt p4 = now" "ep_ID p3 = trim_space (ep_ID p)"
    by (simp_all add: p4_def p3_def p2_def p1_def split: option.split)
  have "check_policy p4 = check_policy p2"
    by (simp add: p4_def p3_def check_policy_def split: option.split)
  then have "policy_wf p4"
    using ne chk id by (simp add: policy_wf_def normalizeAuthMode_idem p1_def)
  moreover have "ep_CreatedAt p4 = (case policy_state T (trim_space (ep_ID p)) of
        Some old \<Rightarrow> if ep_CreatedAt (ps_policy old) \<noteq> 0 then ep_CreatedAt (ps_policy old)
                    else if ep_CreatedAt p = 0 then now else ep_CreatedAt p
      | None \<Rightarrow> if ep_CreatedAt p = 0 then now else ep_CreatedAt p)"
    unfolding p4_def id(4) by (simp add: p3_def p2_def p1_def is_zero_time_def split: option.split)
  ultimately show ?thesis using id T' unfolding q by simp
qed

lemma Upsert_err: "UpsertEndpointPolicy now p T = (Inl e, T') \<Longrightarrow> T' = T"
  unfolding UpsertEndpointPolicy_def Let_def by (simp split: if_split_asm option.split_asm)

lemma pt_inv_upsert: "pt_inv T \<Longrightarrow> pt_inv (snd (UpsertEndpointPolicy now p T))"
proof -
  assume inv: "pt_inv T"
  obtain r T' where u: "UpsertEndpointPolicy now p T = (r, T')" by fastforce
  show ?thesis
  proof (cases r)
    case (Inl e)
    then show ?thesis using inv Upsert_err [OF u [unfolded Inl]] u by simp
  next
    case (Inr q)
    note ok = Upsert_ok [OF u [unfolded Inr]]
    have store: "fmlookup (pt_store T') a =
        (if a = pt_next T then Some \<lparr>ps_policy = q, ps_rateWindows = fmempty, ps_concurrent = fmempty\<rparr>
         else fmlookup (pt_store T) a)" for a using ok by simp
    have pols: "fmlookup (pt_policies T') i = (if i = ep_ID q then Some (pt_next T) else fmlookup (pt_policies T) i)" for i
      using ok by simp
    have "a < pt_next T'" if "fmlookup (pt_store T') a = Some st" for a st
    proof -
      have "a = pt_next T \<or> a < pt_next T" using that inv by (auto simp: store pt_inv_def split: if_splits)
      then show ?thesis using ok by auto
    qed
    moreover have "\<exists>st. fmlookup (pt_store T') a = Some st \<and> ep_ID (ps_policy st) = i \<and> policy_wf (ps_policy st)"
      if "fmlookup (pt_policies T') i = Some a" for i a
    proof (cases "i = ep_ID q")
      case True
      then have "a = pt_next T" using that by (simp add: pols)
      then show ?thesis using True ok store [of a] by simp
    next
      case False
      then have "fmlookup (pt_policies T) i = Some a" using that by (simp add: pols)
      then obtain st where st: "fmlookup (pt_store T) a = Some st" "ep_ID (ps_policy st) = i" "policy_wf (ps_policy st)"
        using inv unfolding pt_inv_def by blast
      then have "a \<noteq> pt_next T" using inv by (auto simp: pt_inv_def)
      then show ?thesis using st store [of a] by simp
    qed
    ultimately show ?thesis by (simp add: u pt_inv_def)
  qed
qed

lemma pt_inv_delete: "pt_inv T \<Longrightarrow> pt_inv (snd (DeleteEndpointPolicy i T))"
  by (auto simp: DeleteEndpointPolicy_def Let_def pt_inv_def split: option.split)

lemma pt_inv_store:
  assumes "pt_inv T" and "fmlookup (pt_store T) a = Some st" and "ps_policy st' = ps_policy st"
  shows "pt_inv (T\<lparr>pt_store := fmupd a st' (pt_store T)\<rparr>)"
  using assms unfolding pt_inv_def by (auto split: if_splits) (metis option.inject)+

lemma pt_inv_evaluate: "pt_inv T \<Longrightarrow> pt_inv (snd (evaluateEndpointPolicy lib now i r T))"
  by (auto simp: evaluateEndpointPolicy_def Let_def split: option.split prod.split
      intro!: pt_inv_store dest: evaluate_policy')

lemma pt_inv_release: "pt_inv T \<Longrightarrow> pt_inv (release_at tok T)"
  by (auto simp: release_at_def split: option.split intro!: pt_inv_store)

section \<open>Properties\<close>

text \<open>
  Access control is sound and complete. A request to an endpoint with a policy is let
  through exactly when the policy exists and the request is inside its validity period, comes
  from an address that is not denied and is on the allow list if there is one, carries the
  credentials of the policy's mode, and is within the client's rate and concurrency limits. An
  unknown policy and an unknown mode let nothing through.
\<close>

theorem policy_admits_iff:
  assumes "trim_space policyID \<noteq> ''''" and "trim_space policyID \<noteq> ''none''"
  shows "is_allowed (fst (evaluateEndpointPolicy lib now policyID r T)) \<longleftrightarrow>
    (\<exists>st. policy_state T (trim_space policyID) = Some st \<and> access_ok lib now r (ps_policy st) \<and>
      (ep_RateLimitPerMinute (ps_policy st) > 0 \<longrightarrow>
         rw_count (next_window now (clientIPFromRequest r) st) \<le> ep_RateLimitPerMinute (ps_policy st)) \<and>
      (ep_MaxConcurrent (ps_policy st) > 0 \<longrightarrow>
         conc_count st (clientIPFromRequest r) < ep_MaxConcurrent (ps_policy st)))"
proof (cases "policy_state T (trim_space policyID)")
  case None
  then have "fst (evaluateEndpointPolicy lib now policyID r T) = Rejected 403 PolicyNotFound"
    using assms by (auto simp: evaluateEndpointPolicy_def policy_state_def Let_def split: option.splits)
  then show ?thesis using None by simp
next
  case (Some st)
  then obtain a where a: "fmlookup (pt_policies T) (trim_space policyID) = Some a" "fmlookup (pt_store T) a = Some st"
    by (auto simp: policy_state_Some)
  obtain d st' where e: "evaluate lib now r st = (d, st')" by fastforce
  have "is_allowed (fst (evaluateEndpointPolicy lib now policyID r T)) = is_allowed d"
    using assms a e by (auto simp: evaluateEndpointPolicy_def Let_def split: decision.split option.split)
  then show ?thesis using evaluate_allowed [of lib now r st] e Some by simp
qed

theorem policy_admits_iff_witness:
  "\<not> is_allowed (fst (evaluateEndpointPolicy
      \<lparr>ParseAddr = \<lambda>_. None, ParsePrefix = \<lambda>_. None, BasicAuth = \<lambda>_. None\<rparr> 5 '' gone ''
      \<lparr>rq_Host = '''', rq_Method = ''GET'', rq_URL = None, rq_ContentLength = 0, rq_TLS = False,
       rq_RemoteAddr = ''10.0.0.9:1'', rq_Authorization = ''''\<rparr> newPolicyTable))"
proof -
  have i: "trim_space '' gone '' = ''gone''" by code_simp
  have n: "trim_space '' gone '' \<noteq> ''''" "trim_space '' gone '' \<noteq> ''none''" unfolding i by simp_all
  have "policy_state newPolicyTable k = None" for k by (simp add: policy_state_def newPolicyTable_def)
  then show ?thesis using policy_admits_iff [OF n] by simp
qed



text \<open>
  C9: The concurrency limit holds and its counters do not leak. In every interleaving of
  requests and releases of one policy state, the counter of a client is the number of its
  requests in flight, never more than \<open>MaxConcurrent\<close>, and a client without a request in
  flight has no entry.
\<close>

theorem concurrency_limit:
  assumes "pol_reach lib p (st, M)"
  shows "(ep_MaxConcurrent p > 0 \<longrightarrow> (\<forall>c. int (count M c) \<le> ep_MaxConcurrent p)) \<and>
    (\<forall>c. conc_count st c = int (count M c)) \<and>
    (\<forall>c. fmlookup (ps_concurrent st) c \<noteq> None \<longleftrightarrow> c \<in># M)"
proof -
  have "conc_inv st M" "ps_policy st = p" using pol_reach_inv [OF assms] by simp_all
  then show ?thesis using conc_inv_count [of st M] unfolding conc_inv_def by auto
qed

theorem concurrency_limit_witness:
  "let p = \<lparr>ep_ID = ''p'', ep_Name = '''', ep_AuthMode = ''none'', ep_BasicUsername = '''', ep_BasicPassword = '''',
       ep_BearerToken = '''', ep_AllowedIPs = [], ep_DeniedIPs = [], ep_NotBefore = 0, ep_NotAfter = 0,
       ep_RateLimitPerMinute = 0, ep_MaxConcurrent = 1, ep_CreatedAt = 0, ep_UpdatedAt = 0\<rparr>
   in conc_count \<lparr>ps_policy = p, ps_rateWindows = fmempty, ps_concurrent = fmupd ''9'' 1 fmempty\<rparr> ''9'' = 1"
proof -
  let ?p = "\<lparr>ep_ID = ''p'', ep_Name = '''', ep_AuthMode = ''none'', ep_BasicUsername = '''', ep_BasicPassword = '''',
       ep_BearerToken = '''', ep_AllowedIPs = [], ep_DeniedIPs = [], ep_NotBefore = 0, ep_NotAfter = 0,
       ep_RateLimitPerMinute = 0, ep_MaxConcurrent = 1, ep_CreatedAt = 0, ep_UpdatedAt = 0\<rparr>"
  let ?r = "\<lparr>rq_Host = '''', rq_Method = ''GET'', rq_URL = None, rq_ContentLength = 0, rq_TLS = False,
       rq_RemoteAddr = ''9'', rq_Authorization = ''''\<rparr>"
  let ?lib = "\<lparr>ParseAddr = \<lambda>_. None, ParsePrefix = \<lambda>_. None, BasicAuth = \<lambda>_. None\<rparr>"
  let ?s = "\<lparr>ps_policy = ?p, ps_rateWindows = fmempty, ps_concurrent = fmempty\<rparr>"
  let ?s' = "\<lparr>ps_policy = ?p, ps_rateWindows = fmempty, ps_concurrent = fmupd ''9'' 1 fmempty\<rparr>"
  have "clientIPFromRequest ?r = ''9''" by (simp add: clientIPFromRequest_def SplitHostPort_def)
  moreover have "check_access ?lib 7 ?r ?p = None"
    by (simp add: check_access_def is_zero_time_def ipMatchesAny_def)
  ultimately have "evaluate ?lib 7 ?r ?s = (Allowed (Some ''9''), ?s')"
    by (simp add: evaluate_def check_concurrent_def conc_count_def Let_def)
  then have "pol_reach ?lib ?p (?s', add_mset ''9'' {#})"
    by (intro pol_reach.intros(2) [OF pol_reach.intros(1)] pol_step.intros(1))
  then show ?thesis using concurrency_limit [of ?lib ?p ?s' "add_mset ''9'' {#}"]
    unfolding Let_def by (metis count_add_mset count_empty of_nat_1 One_nat_def)
qed

text \<open>
  Storing a policy. A policy that \<open>UpsertEndpointPolicy\<close> accepts is stored under its trimmed
  identifier with a normalised mode and the credentials its mode needs, keeps the creation time
  of the policy it replaces, leaves every other policy and every state that requests in flight
  were admitted under as it was, and starts with empty counters; a rejected one changes nothing.
\<close>

theorem upsert_policy:
  assumes "pt_inv T" and "UpsertEndpointPolicy now p T = (res, T')"
  shows "pt_inv T' \<and> (case res of
      Inl e \<Rightarrow> T' = T
    | Inr q \<Rightarrow> ep_ID q = trim_space (ep_ID p) \<and> policy_wf q \<and> ep_UpdatedAt q = now \<and>
        policy_state T' (ep_ID q) = Some \<lparr>ps_policy = q, ps_rateWindows = fmempty, ps_concurrent = fmempty\<rparr> \<and>
        (\<forall>old. policy_state T (ep_ID q) = Some old \<and> ep_CreatedAt (ps_policy old) \<noteq> 0 \<longrightarrow>
           ep_CreatedAt q = ep_CreatedAt (ps_policy old)) \<and>
        (\<forall>i. i \<noteq> ep_ID q \<longrightarrow> policy_state T' i = policy_state T i) \<and>
        (\<forall>a st. fmlookup (pt_store T) a = Some st \<longrightarrow> fmlookup (pt_store T') a = Some st))"
proof -
  have inv: "pt_inv T'" using pt_inv_upsert [OF assms(1), of now p] assms(2) by simp
  show ?thesis
  proof (cases res)
    case (Inl e)
    then show ?thesis using inv Upsert_err assms(2) by auto
  next
    case (Inr q)
    note ok = Upsert_ok [OF assms(2) [unfolded Inr]]
    have lt: "a \<noteq> pt_next T" if "fmlookup (pt_store T) a = Some st" for a st
      using that assms(1) by (auto simp: pt_inv_def)
    have "policy_state T' i = policy_state T i" if "i \<noteq> ep_ID q" for i
    proof (cases "fmlookup (pt_policies T) i")
      case (Some a)
      then have "a \<noteq> pt_next T" using assms(1) lt unfolding pt_inv_def by blast
      then show ?thesis using ok that Some by (simp add: policy_state_def)
    qed (use ok that in \<open>simp add: policy_state_def\<close>)
    moreover have "policy_state T' (ep_ID q) = Some \<lparr>ps_policy = q, ps_rateWindows = fmempty, ps_concurrent = fmempty\<rparr>"
      using ok by (simp add: policy_state_def)
    moreover have "\<forall>a st. fmlookup (pt_store T) a = Some st \<longrightarrow> fmlookup (pt_store T') a = Some st"
      using ok lt by auto
    ultimately show ?thesis using inv ok Inr by simp
  qed
qed

theorem upsert_policy_witness:
  "let p = \<lparr>ep_ID = '' p '', ep_Name = '''', ep_AuthMode = ''Bearer'', ep_BasicUsername = '''', ep_BasicPassword = '''',
       ep_BearerToken = ''tok'', ep_AllowedIPs = [], ep_DeniedIPs = [], ep_NotBefore = 0, ep_NotAfter = 0,
       ep_RateLimitPerMinute = 0, ep_MaxConcurrent = 1, ep_CreatedAt = 0, ep_UpdatedAt = 0\<rparr>
   in pt_inv (snd (UpsertEndpointPolicy 77 p newPolicyTable))"
  unfolding Let_def
  by (rule conjunct1, rule upsert_policy [OF pt_inv_init], rule surjective_pairing)

text \<open>
  Listing policies shows each stored policy once, in increasing order of the identifiers,
  and never a password or a bearer token, whatever order the map is traversed in.
\<close>

theorem list_policies_redacted:
  assumes "pt_inv T" and "range_order (pt_policies T) ks"
  shows "sorted_wrt (\<lambda>p q. ep_ID p < ep_ID q) (ListEndpointPolicies ks T) \<and>
    set (ListEndpointPolicies ks T) = {redact (ps_policy st) | i st. policy_state T i = Some st} \<and>
    (\<forall>p \<in> set (ListEndpointPolicies ks T). ep_BasicPassword p = [] \<and> ep_BearerToken p = [])"
proof -
  let ?xs = "map (redact \<circ> ps_policy) (List.map_filter (policy_state T) ks)"
  have st: "\<exists>st. policy_state T i = Some st \<and> ep_ID (ps_policy st) = i" if "i \<in> set ks" for i
    using pt_inv_state [OF assms(1)] that range_order_set [OF assms(2)] by fastforce
  have "\<forall>i \<in> set ls. \<exists>st. policy_state T i = Some st \<and> ep_ID (ps_policy st) = i \<Longrightarrow>
      map ep_ID (map (redact \<circ> ps_policy) (List.map_filter (policy_state T) ls)) = ls" for ls
    by (induction ls) (auto simp: map_filter_simps redact_def)
  then have "map ep_ID ?xs = ks" using st by blast
  then have "distinct (map ep_ID ?xs)" using range_order_distinct [OF assms(2)] by simp
  then have "sorted_wrt (\<lambda>p q. ep_ID p < ep_ID q) (ListEndpointPolicies ks T)"
    unfolding ListEndpointPolicies_def by (rule go_sort.srt_strict)
  moreover have "set ?xs = {redact (ps_policy st) | i st. policy_state T i = Some st}"
  proof -
    have "i \<in> set ks" if "policy_state T i = Some st" for i st
      using that range_order_set [OF assms(2), of i] by (auto simp: policy_state_Some)
    then have "st \<in> set (List.map_filter (policy_state T) ks) \<longleftrightarrow> (\<exists>i. policy_state T i = Some st)" for st
      by (auto simp: map_filter_iff)
    then have "set (List.map_filter (policy_state T) ks) = {st. \<exists>i. policy_state T i = Some st}" by blast
    then show ?thesis unfolding set_map comp_def by blast
  qed
  ultimately show ?thesis by (auto simp: ListEndpointPolicies_def redact_def)
qed

theorem list_policies_redacted_witness:
  "sorted_wrt (\<lambda>p q. ep_ID p < ep_ID q) (ListEndpointPolicies [] newPolicyTable)"
  by (rule conjunct1, rule list_policies_redacted [OF pt_inv_init]) (simp add: newPolicyTable_def)

end
