(* ===== verification/Relay_Session.thy ===== *)
theory Relay_Session
  imports Endpoint_Policy Messages
begin

text \<open>
  One proxy and its pending sessions (\<open>server/internal/relay/proxy.go\<close>). An external connection
  waits on a channel of capacity one until the client opens a work connection for its session;
  the channel is found through \<open>pendingSessions\<close> and taken out of it, under the lock, by
  whoever delivers to it, gives up on it or stops the proxy.

  Channels live in an explicit heap. A send is \<open>Sent\<close>, finds the buffer full (the \<open>default\<close>
  branch of the select), or panics on a closed channel, as in Go.
\<close>

section \<open>The proxy\<close>

record ProxyInfo =
  pi_ProxyName :: string
  pi_ProxyType :: string
  pi_LocalAddr :: string
  pi_RemotePort :: "16 word"
  pi_Domain :: string
  pi_HostHeader :: string
  pi_PublicURL :: string
  pi_AccessPolicyID :: string
  pi_InspectEnabled :: bool
  pi_ExpiresAt :: gotime
  pi_Status :: string
  pi_BytesIn :: "64 word"
  pi_BytesOut :: "64 word"
  pi_Sessions :: "64 word"

record Proxy =
  px_info :: ProxyInfo
  px_client :: nat
  px_listening :: bool
  px_pending :: "(string, nat) fmap"
  px_bytesIn :: "64 word"
  px_bytesOut :: "64 word"
  px_sessionCnt :: "64 word"
  px_cancelled :: bool

definition NewProxy :: "ProxyInfo \<Rightarrow> nat \<Rightarrow> Proxy" where
  "NewProxy info cc =
     \<lparr>px_info = info, px_client = cc, px_listening = False, px_pending = fmempty,
      px_bytesIn = 0, px_bytesOut = 0, px_sessionCnt = 0, px_cancelled = False\<rparr>"

text \<open>\<open>Start\<close>: \<open>listen\<close> is \<open>net.Listen\<close>, which gives the port it is bound to or fails.\<close>

definition proxy_Start :: "(string \<Rightarrow> 16 word \<Rightarrow> 16 word option) \<Rightarrow> string \<Rightarrow> Proxy \<Rightarrow> bool \<times> Proxy" where
  "proxy_Start listen bindAddr p =
     (case listen bindAddr (pi_RemotePort (px_info p)) of
        None \<Rightarrow> (False, p)
      | Some port \<Rightarrow>
          (True, p\<lparr>px_listening := True, px_info := (px_info p)\<lparr>pi_RemotePort := port\<rparr>\<rparr>))"

definition onSessionComplete :: "64 word \<Rightarrow> 64 word \<Rightarrow> Proxy \<Rightarrow> Proxy" where
  "onSessionComplete bytesIn bytesOut p =
     p\<lparr>px_bytesIn := px_bytesIn p + bytesIn, px_bytesOut := px_bytesOut p + bytesOut,
       px_sessionCnt := px_sessionCnt p + 1\<rparr>"

definition proxy_Stats :: "Proxy \<Rightarrow> 64 word \<times> 64 word \<times> 64 word" where
  "proxy_Stats p = (px_bytesIn p, px_bytesOut p, px_sessionCnt p)"

definition proxy_Snapshot :: "Proxy \<Rightarrow> ProxyInfo" where
  "proxy_Snapshot p =
     (case proxy_Stats p of (bi, bo, n) \<Rightarrow>
        (px_info p)\<lparr>pi_BytesIn := bi, pi_BytesOut := bo, pi_Sessions := n\<rparr>)"

section \<open>Channels\<close>

record chan =
  ch_buf :: "nat option"
  ch_closed :: bool

record chan_heap =
  ch_next :: nat
  ch_tab :: "(nat, chan) fmap"

definition make_chan :: "chan_heap \<Rightarrow> nat \<times> chan_heap" where
  "make_chan H = (ch_next H, \<lparr>ch_next = ch_next H + 1,
     ch_tab = fmupd (ch_next H) \<lparr>ch_buf = None, ch_closed = False\<rparr> (ch_tab H)\<rparr>)"

datatype send_result = Sent | ChanFull | SendPanic

definition chan_send :: "nat \<Rightarrow> nat \<Rightarrow> chan_heap \<Rightarrow> send_result \<times> chan_heap" where
  "chan_send ch w H =
     (case fmlookup (ch_tab H) ch of
        None \<Rightarrow> (ChanFull, H)
      | Some c \<Rightarrow>
          if ch_closed c then (SendPanic, H)
          else if ch_buf c \<noteq> None then (ChanFull, H)
          else (Sent, H\<lparr>ch_tab := fmupd ch (c\<lparr>ch_buf := Some w\<rparr>) (ch_tab H)\<rparr>))"

datatype recv_result = RecvConn nat | RecvClosed | RecvBlocked

definition chan_recv :: "nat \<Rightarrow> chan_heap \<Rightarrow> recv_result \<times> chan_heap" where
  "chan_recv ch H =
     (case fmlookup (ch_tab H) ch of
        None \<Rightarrow> (RecvBlocked, H)
      | Some c \<Rightarrow>
          (case ch_buf c of
             Some w \<Rightarrow> (RecvConn w, H\<lparr>ch_tab := fmupd ch (c\<lparr>ch_buf := None\<rparr>) (ch_tab H)\<rparr>)
           | None \<Rightarrow> (if ch_closed c then RecvClosed else RecvBlocked, H)))"

definition chan_close :: "nat \<Rightarrow> chan_heap \<Rightarrow> chan_heap" where
  "chan_close ch H =
     (case fmlookup (ch_tab H) ch of
        None \<Rightarrow> H
      | Some c \<Rightarrow> H\<lparr>ch_tab := fmupd ch (c\<lparr>ch_closed := True\<rparr>) (ch_tab H)\<rparr>)"

section \<open>Pending sessions\<close>

definition register_pending :: "string \<Rightarrow> Proxy \<Rightarrow> chan_heap \<Rightarrow> nat \<times> Proxy \<times> chan_heap" where
  "register_pending sid p H =
     (case make_chan H of (ch, H) \<Rightarrow> (ch, p\<lparr>px_pending := fmupd sid ch (px_pending p)\<rparr>, H))"

definition removePending :: "string \<Rightarrow> Proxy \<Rightarrow> Proxy" where
  "removePending sid p = p\<lparr>px_pending := fmdrop sid (px_pending p)\<rparr>"

definition deliver_take :: "string \<Rightarrow> Proxy \<Rightarrow> nat option \<times> Proxy" where
  "deliver_take sid p =
     (case fmlookup (px_pending p) sid of
        None \<Rightarrow> (None, p)
      | Some ch \<Rightarrow> (Some ch, p\<lparr>px_pending := fmdrop sid (px_pending p)\<rparr>))"

datatype delivery = Delivered | NoPendingSession | SessionChannelFull | DeliveryPanic

definition DeliverWorkConn :: "string \<Rightarrow> nat \<Rightarrow> Proxy \<Rightarrow> chan_heap \<Rightarrow> delivery \<times> Proxy \<times> chan_heap" where
  "DeliverWorkConn sid w p H =
     (case deliver_take sid p of
        (None, p) \<Rightarrow> (NoPendingSession, p, H)
      | (Some ch, p) \<Rightarrow>
          (case chan_send ch w H of
             (Sent, H) \<Rightarrow> (Delivered, p, H)
           | (ChanFull, H) \<Rightarrow> (SessionChannelFull, p, H)
           | (SendPanic, H) \<Rightarrow> (DeliveryPanic, p, H)))"

fun close_pending :: "string list \<Rightarrow> Proxy \<Rightarrow> chan_heap \<Rightarrow> Proxy \<times> chan_heap" where
  "close_pending [] p H = (p, H)"
| "close_pending (sid # sids) p H =
     (case fmlookup (px_pending p) sid of
        None \<Rightarrow> close_pending sids p H
      | Some ch \<Rightarrow> close_pending sids (p\<lparr>px_pending := fmdrop sid (px_pending p)\<rparr>) (chan_close ch H))"

definition proxy_Stop :: "string list \<Rightarrow> Proxy \<Rightarrow> chan_heap \<Rightarrow> Proxy \<times> chan_heap" where
  "proxy_Stop sids p H = close_pending sids (p\<lparr>px_cancelled := True, px_listening := False\<rparr>) H"

section \<open>The threads around one proxy\<close>

text \<open>
  The sessions of one proxy at the granularity of its locks. \<open>sx_wait\<close> are the goroutines in
  \<open>OpenWorkConn\<close> or \<open>waitForWorkConn\<close> with the channel each holds, \<open>sx_fly\<close> the work
  connections between the two halves of \<open>DeliverWorkConn\<close>, \<open>sx_done\<close> the connection each session
  was joined to, \<open>sx_closed\<close> the work connections the relay closed, \<open>sx_claim\<close> the session
  each work connection named, \<open>sx_owner\<close> the session each channel was made for.
\<close>

record sess =
  sx_proxy :: Proxy
  sx_heap :: chan_heap
  sx_wait :: "(string, nat) fmap"
  sx_fly :: "(nat, nat) fmap"
  sx_done :: "(string, nat) fmap"
  sx_closed :: "nat list"
  sx_claim :: "(nat, string) fmap"
  sx_owner :: "(nat, string) fmap"
  sx_panic :: bool

definition sess_init :: "Proxy \<Rightarrow> sess" where
  "sess_init p =
     \<lparr>sx_proxy = p\<lparr>px_pending := fmempty\<rparr>, sx_heap = \<lparr>ch_next = 0, ch_tab = fmempty\<rparr>, sx_wait = fmempty,
      sx_fly = fmempty, sx_done = fmempty, sx_closed = [], sx_claim = fmempty,
      sx_owner = fmempty, sx_panic = False\<rparr>"

definition ev_open :: "string \<Rightarrow> sess \<Rightarrow> sess" where
  "ev_open sid s =
     (case register_pending sid (sx_proxy s) (sx_heap s) of
        (ch, p, H) \<Rightarrow> s\<lparr>sx_proxy := p, sx_heap := H, sx_wait := fmupd sid ch (sx_wait s),
                        sx_owner := fmupd ch sid (sx_owner s)\<rparr>)"

definition ev_give_up :: "string \<Rightarrow> sess \<Rightarrow> sess" where
  "ev_give_up sid s =
     s\<lparr>sx_proxy := removePending sid (sx_proxy s), sx_wait := fmdrop sid (sx_wait s)\<rparr>"

definition ev_abandon :: "string \<Rightarrow> sess \<Rightarrow> sess" where
  "ev_abandon sid s = s\<lparr>sx_wait := fmdrop sid (sx_wait s)\<rparr>"

definition ev_take :: "nat \<Rightarrow> string \<Rightarrow> sess \<Rightarrow> sess" where
  "ev_take w sid s0 =
     (let s = s0\<lparr>sx_claim := fmupd w sid (sx_claim s0)\<rparr> in
      case deliver_take sid (sx_proxy s) of
        (None, p) \<Rightarrow> s\<lparr>sx_proxy := p, sx_closed := w # sx_closed s\<rparr>
      | (Some ch, p) \<Rightarrow> s\<lparr>sx_proxy := p, sx_fly := fmupd w ch (sx_fly s)\<rparr>)"

definition ev_send :: "nat \<Rightarrow> nat \<Rightarrow> sess \<Rightarrow> sess" where
  "ev_send w ch s0 =
     (let s = s0\<lparr>sx_fly := fmdrop w (sx_fly s0)\<rparr> in
      case chan_send ch w (sx_heap s) of
        (Sent, H) \<Rightarrow> s\<lparr>sx_heap := H\<rparr>
      | (ChanFull, H) \<Rightarrow> s\<lparr>sx_heap := H, sx_closed := w # sx_closed s\<rparr>
      | (SendPanic, H) \<Rightarrow> s\<lparr>sx_panic := True\<rparr>)"

definition ev_recv :: "string \<Rightarrow> nat \<Rightarrow> sess \<Rightarrow> sess" where
  "ev_recv sid ch s =
     (case chan_recv ch (sx_heap s) of
        (RecvConn w, H) \<Rightarrow> s\<lparr>sx_heap := H, sx_wait := fmdrop sid (sx_wait s),
                              sx_done := fmupd sid w (sx_done s)\<rparr>
      | (RecvClosed, H) \<Rightarrow> s\<lparr>sx_wait := fmdrop sid (sx_wait s)\<rparr>
      | (RecvBlocked, H) \<Rightarrow> s)"

definition ev_stop :: "string list \<Rightarrow> sess \<Rightarrow> sess" where
  "ev_stop sids s =
     (case proxy_Stop sids (sx_proxy s) (sx_heap s) of (p, H) \<Rightarrow> s\<lparr>sx_proxy := p, sx_heap := H\<rparr>)"

text \<open>
  A session identifier is a fresh UUID, so a step that opens a session uses one that no channel
  was made for; a work connection is handed over once. \<open>OpenWorkConn\<close> gives up on a failed
  send, a cancelled context or its timeout; \<open>waitForWorkConn\<close> abandons its channel when the
  proxy's context is done, its own or that of its client, which may be at any time.
\<close>

inductive sess_step :: "sess \<Rightarrow> sess \<Rightarrow> bool" where
  s_open: "sid \<notin> fmran' (sx_owner s) \<Longrightarrow> sess_step s (ev_open sid s)"
| s_give_up: "fmlookup (sx_wait s) sid = Some ch \<Longrightarrow> sess_step s (ev_give_up sid s)"
| s_abandon: "fmlookup (sx_wait s) sid = Some ch \<Longrightarrow> sess_step s (ev_abandon sid s)"
| s_take: "fmlookup (sx_claim s) w = None \<Longrightarrow> sess_step s (ev_take w sid s)"
| s_send: "fmlookup (sx_fly s) w = Some ch \<Longrightarrow> sess_step s (ev_send w ch s)"
| s_recv: "fmlookup (sx_wait s) sid = Some ch \<Longrightarrow> sess_step s (ev_recv sid ch s)"
| s_stop: "range_order (px_pending (sx_proxy s)) sids \<Longrightarrow> sess_step s (ev_stop sids s)"

inductive sess_reach :: "Proxy \<Rightarrow> sess \<Rightarrow> bool" for p where
  sr_init: "sess_reach p (sess_init p)"
| sr_step: "sess_reach p s \<Longrightarrow> sess_step s s' \<Longrightarrow> sess_reach p s'"

definition chan_free :: "sess \<Rightarrow> nat \<Rightarrow> bool" where
  "chan_free s ch \<longleftrightarrow> fmlookup (ch_tab (sx_heap s)) ch = Some \<lparr>ch_buf = None, ch_closed = False\<rparr>"

section \<open>The invariant\<close>

text \<open>
  A channel is made for one session. While it is in \<open>pendingSessions\<close>, or held by the one
  delivery that took it from there, it is open and empty; what its buffer holds later is a work
  connection that named its session.
\<close>

definition sess_inv :: "sess \<Rightarrow> bool" where
  "sess_inv s \<longleftrightarrow>
     (\<forall>ch sid. fmlookup (sx_owner s) ch = Some sid \<longrightarrow> ch < ch_next (sx_heap s)) \<and>
     (\<forall>ch ch' sid. fmlookup (sx_owner s) ch = Some sid \<and> fmlookup (sx_owner s) ch' = Some sid \<longrightarrow> ch = ch') \<and>
     (\<forall>sid ch. fmlookup (px_pending (sx_proxy s)) sid = Some ch \<longrightarrow>
        fmlookup (sx_owner s) ch = Some sid \<and> chan_free s ch \<and> (\<forall>w. fmlookup (sx_fly s) w \<noteq> Some ch)) \<and>
     (\<forall>sid ch. fmlookup (sx_wait s) sid = Some ch \<longrightarrow> fmlookup (sx_owner s) ch = Some sid) \<and>
     (\<forall>w ch. fmlookup (sx_fly s) w = Some ch \<longrightarrow>
        chan_free s ch \<and> fmlookup (sx_owner s) ch = fmlookup (sx_claim s) w \<and> fmlookup (sx_claim s) w \<noteq> None) \<and>
     (\<forall>w w' ch. fmlookup (sx_fly s) w = Some ch \<and> fmlookup (sx_fly s) w' = Some ch \<longrightarrow> w = w') \<and>
     (\<forall>ch c w. fmlookup (ch_tab (sx_heap s)) ch = Some c \<and> ch_buf c = Some w \<longrightarrow>
        fmlookup (sx_owner s) ch = fmlookup (sx_claim s) w \<and> fmlookup (sx_claim s) w \<noteq> None) \<and>
     (\<forall>sid w. fmlookup (sx_done s) sid = Some w \<longrightarrow> fmlookup (sx_claim s) w = Some sid) \<and>
     \<not> sx_panic s"

lemma sess_invD:
  assumes "sess_inv s"
  shows "fmlookup (sx_owner s) ch = Some sid \<Longrightarrow> ch < ch_next (sx_heap s)"
    "fmlookup (sx_owner s) ch = Some sid \<Longrightarrow> fmlookup (sx_owner s) ch' = Some sid \<Longrightarrow> ch = ch'"
    "fmlookup (px_pending (sx_proxy s)) sid = Some ch \<Longrightarrow> fmlookup (sx_owner s) ch = Some sid"
    "fmlookup (px_pending (sx_proxy s)) sid = Some ch \<Longrightarrow> chan_free s ch"
    "fmlookup (px_pending (sx_proxy s)) sid = Some ch \<Longrightarrow> fmlookup (sx_fly s) w \<noteq> Some ch"
    "fmlookup (sx_wait s) sid = Some ch \<Longrightarrow> fmlookup (sx_owner s) ch = Some sid"
    "fmlookup (sx_fly s) w = Some ch \<Longrightarrow> chan_free s ch"
    "fmlookup (sx_fly s) w = Some ch \<Longrightarrow> fmlookup (sx_owner s) ch = fmlookup (sx_claim s) w"
    "fmlookup (sx_fly s) w = Some ch \<Longrightarrow> fmlookup (sx_claim s) w \<noteq> None"
    "fmlookup (sx_fly s) w = Some ch \<Longrightarrow> fmlookup (sx_fly s) w' = Some ch \<Longrightarrow> w = w'"
    "fmlookup (ch_tab (sx_heap s)) ch = Some c \<Longrightarrow> ch_buf c = Some w \<Longrightarrow> fmlookup (sx_owner s) ch = fmlookup (sx_claim s) w"
    "fmlookup (ch_tab (sx_heap s)) ch = Some c \<Longrightarrow> ch_buf c = Some w \<Longrightarrow> fmlookup (sx_claim s) w \<noteq> None"
    "fmlookup (sx_done s) sid = Some w \<Longrightarrow> fmlookup (sx_claim s) w = Some sid"
    "\<not> sx_panic s"
  using assms unfolding sess_inv_def by blast+

lemma sess_inv_init: "sess_inv (sess_init p)"
  by (simp add: sess_inv_def sess_init_def)

lemma sess_inv_open:
  assumes inv: "sess_inv s" and fresh: "sid \<notin> fmran' (sx_owner s)"
  shows "sess_inv (ev_open sid s)"
proof -
  let ?n = "ch_next (sx_heap s)"
  have no: "fmlookup (sx_owner s) ?n = None"
    using sess_invD(1) [OF inv, of ?n] by (cases "fmlookup (sx_owner s) ?n") auto
  have nf: "fmlookup (sx_fly s) w \<noteq> Some ?n" for w
    using sess_invD(8,9) [OF inv, of w ?n] no by auto
  have free: "chan_free (ev_open sid s) ch \<longleftrightarrow> ch = ?n \<or> chan_free s ch" for ch
    by (simp add: chan_free_def ev_open_def register_pending_def make_chan_def)
  have nosid: "fmlookup (sx_owner s) ch \<noteq> Some sid" for ch
    using fresh by (auto intro: fmran'I)
  have fields: "sx_owner (ev_open sid s) = fmupd ?n sid (sx_owner s)"
    "sx_wait (ev_open sid s) = fmupd sid ?n (sx_wait s)" "sx_fly (ev_open sid s) = sx_fly s"
    "px_pending (sx_proxy (ev_open sid s)) = fmupd sid ?n (px_pending (sx_proxy s))"
    "sx_claim (ev_open sid s) = sx_claim s" "sx_done (ev_open sid s) = sx_done s"
    "sx_panic (ev_open sid s) = sx_panic s" "ch_next (sx_heap (ev_open sid s)) = Suc ?n"
    "ch_tab (sx_heap (ev_open sid s)) = fmupd ?n \<lparr>ch_buf = None, ch_closed = False\<rparr> (ch_tab (sx_heap s))"
    by (simp_all add: ev_open_def register_pending_def make_chan_def)
  show ?thesis
    unfolding sess_inv_def fields free
    using sess_invD [OF inv] no nf nosid
    by (auto split: if_splits simp: less_Suc_eq)
qed

lemma sess_inv_give_up: "sess_inv s \<Longrightarrow> sess_inv (ev_give_up sid s)"
  by (auto simp: sess_inv_def ev_give_up_def removePending_def chan_free_def split: if_splits)

lemma sess_inv_abandon: "sess_inv s \<Longrightarrow> sess_inv (ev_abandon sid s)"
  by (auto simp: sess_inv_def ev_abandon_def chan_free_def split: if_splits)

lemma sess_inv_take:
  assumes inv: "sess_inv s" and w: "fmlookup (sx_claim s) w = None"
  shows "sess_inv (ev_take w sid s)"
proof -
  have nw: "fmlookup (sx_fly s) w = None"
    using sess_invD(9) [OF inv, of w] w by (cases "fmlookup (sx_fly s) w") auto
  have nb: "ch_buf c \<noteq> Some w" if "fmlookup (ch_tab (sx_heap s)) ch = Some c" for ch c
    using sess_invD(12) [OF inv that, of w] w by auto
  have nd: "fmlookup (sx_done s) k \<noteq> Some w" for k using sess_invD(13) [OF inv, of k w] w by auto
  show ?thesis
  proof (cases "fmlookup (px_pending (sx_proxy s)) sid")
    case None
    then have "ev_take w sid s = s\<lparr>sx_claim := fmupd w sid (sx_claim s), sx_closed := w # sx_closed s\<rparr>"
      by (simp add: ev_take_def deliver_take_def)
    then show ?thesis
      unfolding sess_inv_def using sess_invD [OF inv] nw nb nd
      by (auto simp: chan_free_def split: if_splits)
  next
    case (Some ch)
    have eq: "ev_take w sid s = s\<lparr>sx_claim := fmupd w sid (sx_claim s),
        sx_proxy := (sx_proxy s)\<lparr>px_pending := fmdrop sid (px_pending (sx_proxy s))\<rparr>,
        sx_fly := fmupd w ch (sx_fly s)\<rparr>"
      by (simp add: ev_take_def deliver_take_def Some)
    note own = sess_invD(3,4,5) [OF inv Some]
    have uniq: "k = sid" if "fmlookup (px_pending (sx_proxy s)) k = Some ch" for k
      using sess_invD(3) [OF inv that] own(1) by simp
    show ?thesis
      unfolding sess_inv_def eq using sess_invD [OF inv] nw nb nd own uniq
      by (auto simp: chan_free_def split: if_splits)
  qed
qed

lemma sess_inv_send:
  assumes inv: "sess_inv s" and f: "fmlookup (sx_fly s) w = Some ch"
  shows "sess_inv (ev_send w ch s)"
proof -
  have free: "fmlookup (ch_tab (sx_heap s)) ch = Some \<lparr>ch_buf = None, ch_closed = False\<rparr>"
    using sess_invD(7) [OF inv f] by (simp add: chan_free_def)
  have eq: "ev_send w ch s = s\<lparr>sx_fly := fmdrop w (sx_fly s),
      sx_heap := (sx_heap s)\<lparr>ch_tab := fmupd ch \<lparr>ch_buf = Some w, ch_closed = False\<rparr> (ch_tab (sx_heap s))\<rparr>\<rparr>"
    by (simp add: ev_send_def chan_send_def free)
  have np: "fmlookup (px_pending (sx_proxy s)) k \<noteq> Some ch" for k
    using sess_invD(5) [OF inv, of k ch w] f by auto
  have nf: "fmlookup (sx_fly s) k = Some ch \<Longrightarrow> k = w" for k using sess_invD(10) [OF inv _ f] .
  have fr: "chan_free (ev_send w ch s) k \<longleftrightarrow> k \<noteq> ch \<and> chan_free s k" for k
    by (simp add: chan_free_def eq)
  show ?thesis
    unfolding sess_inv_def fr unfolding eq using sess_invD [OF inv] np nf f
    by (auto split: if_splits)
qed

lemma chan_recv_cases:
  "chan_recv ch H = (RecvBlocked, H) \<or> chan_recv ch H = (RecvClosed, H) \<or>
   (\<exists>c w. fmlookup (ch_tab H) ch = Some c \<and> ch_buf c = Some w \<and>
      chan_recv ch H = (RecvConn w, H\<lparr>ch_tab := fmupd ch (c\<lparr>ch_buf := None\<rparr>) (ch_tab H)\<rparr>))"
  by (auto simp: chan_recv_def split: option.splits)

lemma sess_inv_recv:
  assumes inv: "sess_inv s" and f: "fmlookup (sx_wait s) sid = Some ch"
  shows "sess_inv (ev_recv sid ch s)"
proof -
  consider "ev_recv sid ch s = s" | "ev_recv sid ch s = ev_abandon sid s"
    | c w where "fmlookup (ch_tab (sx_heap s)) ch = Some c" "ch_buf c = Some w"
      "ev_recv sid ch s = s\<lparr>sx_heap := (sx_heap s)\<lparr>ch_tab := fmupd ch (c\<lparr>ch_buf := None\<rparr>) (ch_tab (sx_heap s))\<rparr>,
         sx_wait := fmdrop sid (sx_wait s), sx_done := fmupd sid w (sx_done s)\<rparr>"
    using chan_recv_cases [of ch "sx_heap s"] by (auto simp: ev_recv_def ev_abandon_def)
  then show ?thesis
  proof cases
    case 1
    then show ?thesis using inv by simp
  next
    case 2
    then show ?thesis using sess_inv_abandon [OF inv] by simp
  next
    case (3 c w)
    have cl: "fmlookup (sx_claim s) w = Some sid"
      using sess_invD(11) [OF inv 3(1,2)] sess_invD(6) [OF inv f] by simp
    have nfree: "\<not> chan_free s ch" using 3(1,2) by (auto simp: chan_free_def)
    have fr: "k \<noteq> ch \<Longrightarrow> chan_free (ev_recv sid ch s) k \<longleftrightarrow> chan_free s k" for k
      by (simp add: chan_free_def 3(3))
    have np: "fmlookup (px_pending (sx_proxy s)) k \<noteq> Some ch" "fmlookup (sx_fly s) w' \<noteq> Some ch" for k w'
      using sess_invD(4,7) [OF inv] nfree by blast+
    have frees: "chan_free (ev_recv sid ch s) k" if "chan_free s k" for k
      using that fr nfree by (cases "k = ch") auto
    show ?thesis
      unfolding sess_inv_def using sess_invD [OF inv] np cl frees 3
      by (auto split: if_splits)
  qed
qed

text \<open>Stopping closes exactly the channels that are pending.\<close>

lemma chan_close_other: "fmlookup (ch_tab (chan_close ch H)) k =
    (if k = ch then map_option (\<lambda>c. c\<lparr>ch_closed := True\<rparr>) (fmlookup (ch_tab H) ch) else fmlookup (ch_tab H) k)"
  by (auto simp: chan_close_def split: option.split)

lemma chan_close_next [simp]: "ch_next (chan_close ch H) = ch_next H"
  by (simp add: chan_close_def split: option.split)

lemma close_pending_proxy [simp]:
  "px_info (fst (close_pending sids p H)) = px_info p"
  "px_client (fst (close_pending sids p H)) = px_client p"
  "px_cancelled (fst (close_pending sids p H)) = px_cancelled p"
  "px_listening (fst (close_pending sids p H)) = px_listening p"
  "ch_next (snd (close_pending sids p H)) = ch_next H"
  by (induction sids p H rule: close_pending.induct) (simp_all split: option.split)

lemma close_pending_lookup:
  "fmlookup (px_pending (fst (close_pending sids p H))) k =
     (if k \<in> set sids then None else fmlookup (px_pending p) k)"
  by (induction sids p H rule: close_pending.induct) (auto split: option.split)

lemma close_pending_chan:
  assumes "inj_on (fmlookup (px_pending p)) (fset (fmdom (px_pending p)))"
  shows "fmlookup (ch_tab (snd (close_pending sids p H))) k =
    (if \<exists>sid \<in> set sids. fmlookup (px_pending p) sid = Some k
     then map_option (\<lambda>c. c\<lparr>ch_closed := True\<rparr>) (fmlookup (ch_tab H) k) else fmlookup (ch_tab H) k)"
  using assms
proof (induction sids arbitrary: p H)
  case (Cons a sids)
  show ?case
  proof (cases "fmlookup (px_pending p) a")
    case None
    then show ?thesis using Cons by auto
  next
    case (Some ch)
    let ?p = "p\<lparr>px_pending := fmdrop a (px_pending p)\<rparr>"
    have inj: "sid = a" if "fmlookup (px_pending p) sid = Some ch" for sid
      using Cons.prems that Some by (metis fmdomI inj_onD)
    have "fset (fmdom (px_pending ?p)) \<subseteq> fset (fmdom (px_pending p)) - {a}" by (auto simp: fmlookup_dom_iff split: if_splits)
    then have "inj_on (fmlookup (px_pending ?p)) (fset (fmdom (px_pending ?p)))"
      using Cons.prems by (simp add: inj_on_def subset_iff)
    then have IH: "fmlookup (ch_tab (snd (close_pending sids ?p (chan_close ch H)))) k =
      (if \<exists>sid \<in> set sids. fmlookup (px_pending ?p) sid = Some k
       then map_option (\<lambda>c. c\<lparr>ch_closed := True\<rparr>) (fmlookup (ch_tab (chan_close ch H)) k)
       else fmlookup (ch_tab (chan_close ch H)) k)" by (rule Cons.IH)
    have eq: "close_pending (a # sids) p H = close_pending sids ?p (chan_close ch H)" by (simp add: Some)
    show ?thesis
    proof (cases "k = ch")
      case True
      then have "\<not> (\<exists>sid \<in> set sids. fmlookup (px_pending ?p) sid = Some k)" using inj by auto
      then show ?thesis using IH True Some unfolding eq by (simp add: chan_close_other)
    next
      case False
      have "fmlookup (px_pending ?p) sid = Some k \<longleftrightarrow> fmlookup (px_pending p) sid = Some k" for sid
        using False Some by (cases "sid = a") simp_all
      moreover have "fmlookup (px_pending p) a \<noteq> Some k" using False Some by simp
      ultimately have "(\<exists>sid \<in> set sids. fmlookup (px_pending ?p) sid = Some k) \<longleftrightarrow>
          (\<exists>sid \<in> set (a # sids). fmlookup (px_pending p) sid = Some k)"
        unfolding list.set bex_simps by blast
      then show ?thesis using IH False unfolding eq by (simp add: chan_close_other)
    qed
  qed
qed simp

lemma sess_inv_stop:
  assumes inv: "sess_inv s" and r: "range_order (px_pending (sx_proxy s)) sids"
  shows "sess_inv (ev_stop sids s)"
proof -
  let ?p = "(sx_proxy s)\<lparr>px_cancelled := True, px_listening := False\<rparr>" and ?H = "sx_heap s"
  let ?c = "close_pending sids ?p ?H"
  have "inj_on (fmlookup (px_pending ?p)) (fset (fmdom (px_pending ?p)))"
    using sess_invD(3) [OF inv] by (auto simp: inj_on_def fmlookup_dom_iff) (metis option.inject)
  note tab = close_pending_chan [OF this, of sids ?H]
  have pend: "fmlookup (px_pending (fst ?c)) k = None" for k
    using range_order_set [OF r, of k] by (auto simp: close_pending_lookup)
  have fields: "ev_stop sids s = s\<lparr>sx_proxy := fst ?c, sx_heap := snd ?c\<rparr>"
    by (simp add: ev_stop_def proxy_Stop_def split: prod.split)
  have same: "fmlookup (ch_tab (snd ?c)) ch = fmlookup (ch_tab ?H) ch"
    if "\<forall>k. fmlookup (px_pending (sx_proxy s)) k \<noteq> Some ch" for ch
    using that by (simp add: tab)
  have buf: "\<exists>d. fmlookup (ch_tab ?H) ch = Some d \<and> ch_buf d = ch_buf c"
    if "fmlookup (ch_tab (snd ?c)) ch = Some c" for ch c
    using that by (auto simp: tab split: if_splits)
  have fly: "fmlookup (ch_tab (snd ?c)) ch = fmlookup (ch_tab ?H) ch" if "fmlookup (sx_fly s) w = Some ch" for w ch
    using same sess_invD(5) [OF inv] that by metis
  have 1: "fmlookup (sx_owner s) ch = fmlookup (sx_claim s) w \<and> fmlookup (sx_claim s) w \<noteq> None"
    if "fmlookup (ch_tab (snd ?c)) ch = Some c" "ch_buf c = Some w" for ch c w
    using buf [OF that(1)] that(2) sess_invD(11,12) [OF inv] by metis
  have 2: "fmlookup (ch_tab (snd ?c)) ch = Some \<lparr>ch_buf = None, ch_closed = False\<rparr>"
    if "fmlookup (sx_fly s) w = Some ch" for w ch
    using fly [OF that] sess_invD(7) [OF inv that] by (simp add: chan_free_def)
  show ?thesis
    unfolding sess_inv_def fields chan_free_def
    using sess_invD(1,2,6,8-10,13,14) [OF inv] pend 1 2 by auto
qed

lemma sess_step_inv: "sess_step s s' \<Longrightarrow> sess_inv s \<Longrightarrow> sess_inv s'"
  by (induction rule: sess_step.induct)
    (auto intro: sess_inv_open sess_inv_give_up sess_inv_abandon sess_inv_take sess_inv_send
      sess_inv_recv sess_inv_stop)

lemma sess_reach_inv: "sess_reach p s \<Longrightarrow> sess_inv s"
  by (induction rule: sess_reach.induct) (auto intro: sess_inv_init sess_step_inv)

section \<open>A connection nobody reads\<close>

definition orphaned :: "nat \<Rightarrow> sess \<Rightarrow> bool" where
  "orphaned w s \<longleftrightarrow> w \<notin> set (sx_closed s) \<and> (\<forall>sid. fmlookup (sx_done s) sid \<noteq> Some w) \<and>
     fmlookup (sx_fly s) w = None \<and>
     (\<exists>ch c. fmlookup (ch_tab (sx_heap s)) ch = Some c \<and> ch_buf c = Some w \<and>
        (\<forall>sid. fmlookup (sx_wait s) sid \<noteq> Some ch))"

lemma buf_owner_unique:
  assumes inv: "sess_inv s" and "fmlookup (ch_tab (sx_heap s)) ch = Some c" "ch_buf c = Some w"
    and "fmlookup (ch_tab (sx_heap s)) ch' = Some c'" "ch_buf c' = Some w"
  shows "ch = ch'"
proof -
  obtain sid where "fmlookup (sx_claim s) w = Some sid" using sess_invD(12) [OF inv assms(2,3)] by blast
  then show ?thesis
    using sess_invD(11) [OF inv assms(2,3)] sess_invD(11) [OF inv assms(4,5)] sess_invD(2) [OF inv] by metis
qed

lemma orphaned_step:
  assumes st: "sess_step s s'" and inv: "sess_inv s" and o: "orphaned w s"
  shows "orphaned w s'"
proof -
  obtain ch c where ch: "fmlookup (ch_tab (sx_heap s)) ch = Some c" "ch_buf c = Some w"
      "\<forall>sid. fmlookup (sx_wait s) sid \<noteq> Some ch"
    and w: "w \<notin> set (sx_closed s)" "\<forall>sid. fmlookup (sx_done s) sid \<noteq> Some w" "fmlookup (sx_fly s) w = None"
    using o by (auto simp: orphaned_def)
  obtain k where k: "fmlookup (sx_claim s) w = Some k" using sess_invD(12) [OF inv ch(1,2)] by blast
  then have own: "fmlookup (sx_owner s) ch = Some k" using sess_invD(11) [OF inv ch(1,2)] by simp
  have nfree: "\<not> chan_free s ch" using ch by (auto simp: chan_free_def)
  show ?thesis
    using st
  proof (cases rule: sess_step.cases)
    case (s_open sid)
    have "ch < ch_next (sx_heap s)" by (rule sess_invD(1) [OF inv own])
    then show ?thesis unfolding s_open(1) orphaned_def using ch w
      by (intro conjI exI [of _ ch] exI [of _ c]) (auto simp: ev_open_def register_pending_def make_chan_def)
  next
    case (s_give_up sid ch')
    then show ?thesis unfolding orphaned_def using ch w
      by (intro conjI exI [of _ ch] exI [of _ c]) (auto simp: ev_give_up_def)
  next
    case (s_abandon sid ch')
    then show ?thesis unfolding orphaned_def using ch w
      by (intro conjI exI [of _ ch] exI [of _ c]) (auto simp: ev_abandon_def)
  next
    case (s_take w' sid)
    then have "w' \<noteq> w" using k by auto
    then show ?thesis unfolding s_take(1) orphaned_def using ch w
      by (intro conjI exI [of _ ch] exI [of _ c])
        (auto simp: ev_take_def deliver_take_def Let_def split: option.split)
  next
    case (s_send w' ch')
    have free: "fmlookup (ch_tab (sx_heap s)) ch' = Some \<lparr>ch_buf = None, ch_closed = False\<rparr>"
      using sess_invD(7) [OF inv s_send(2)] by (simp add: chan_free_def)
    then have "ch' \<noteq> ch" using ch by auto
    then show ?thesis unfolding s_send(1) orphaned_def using ch w free
      by (intro conjI exI [of _ ch] exI [of _ c]) (auto simp: ev_send_def chan_send_def)
  next
    case (s_recv sid ch')
    then have ne: "ch' \<noteq> ch" using ch(3) by auto
    consider "s' = s" | "s' = ev_abandon sid s"
      | c' w' where "fmlookup (ch_tab (sx_heap s)) ch' = Some c'" "ch_buf c' = Some w'"
        "s' = s\<lparr>sx_heap := (sx_heap s)\<lparr>ch_tab := fmupd ch' (c'\<lparr>ch_buf := None\<rparr>) (ch_tab (sx_heap s))\<rparr>,
           sx_wait := fmdrop sid (sx_wait s), sx_done := fmupd sid w' (sx_done s)\<rparr>"
      using chan_recv_cases [of ch' "sx_heap s"] by (auto simp: s_recv(1) ev_recv_def ev_abandon_def)
    then show ?thesis
    proof cases
      case 1
      then show ?thesis using o by simp
    next
      case 2
      then show ?thesis unfolding orphaned_def using ch w
        by (intro conjI exI [of _ ch] exI [of _ c]) (auto simp: ev_abandon_def)
    next
      case (3 c' w')
      then have "w' \<noteq> w" using buf_owner_unique [OF inv ch(1,2), of ch' c'] ne by auto
      then show ?thesis unfolding 3(3) orphaned_def using ch w ne
        by (intro conjI exI [of _ ch] exI [of _ c]) auto
    qed
  next
    case (s_stop sids)
    have "\<forall>sid. fmlookup (px_pending (sx_proxy s)) sid \<noteq> Some ch"
      using sess_invD(4) [OF inv] nfree by blast
    moreover have "inj_on (fmlookup (px_pending (sx_proxy s))) (fset (fmdom (px_pending (sx_proxy s))))"
      using sess_invD(3) [OF inv] by (auto simp: inj_on_def fmlookup_dom_iff) (metis option.inject)
    ultimately have "fmlookup (ch_tab (sx_heap s')) ch = Some c"
      using ch(1) close_pending_chan [of "(sx_proxy s)\<lparr>px_cancelled := True, px_listening := False\<rparr>" sids "sx_heap s" ch]
      by (auto simp: s_stop(1) ev_stop_def proxy_Stop_def split: prod.split)
    moreover have "sx_closed s' = sx_closed s" "sx_done s' = sx_done s" "sx_fly s' = sx_fly s" "sx_wait s' = sx_wait s"
      by (simp_all add: s_stop(1) ev_stop_def split: prod.split)
    ultimately show ?thesis unfolding orphaned_def using ch w by auto
  qed
qed

section \<open>Properties\<close>

text \<open>
  C33: Delivering a work connection never blocks, never overflows and never panics. However the
  external connections, the work connections, the timeouts and the stop of a proxy interleave, a
  delivery that took a channel out of \<open>pendingSessions\<close> finds it open and empty, so the
  \<open>channel full\<close> branch is dead code and no send hits a closed channel.
\<close>

theorem delivery_safe:
  assumes "sess_reach p s"
  shows "\<not> sx_panic s \<and> (\<forall>w ch. fmlookup (sx_fly s) w = Some ch \<longrightarrow> fst (chan_send ch w (sx_heap s)) = Sent)"
  using sess_invD(7,14) [OF sess_reach_inv [OF assms]]
  by (auto simp: chan_send_def chan_free_def)

theorem delivery_safe_witness:
  "\<forall>info. \<not> sx_panic (ev_open ''s1'' (sess_init (NewProxy info 0)))"
proof
  fix info
  have "sess_reach (NewProxy info 0) (ev_open ''s1'' (sess_init (NewProxy info 0)))"
    by (rule sr_step [OF sr_init s_open]) (simp add: sess_init_def fmran'_def)
  from delivery_safe [OF this]
  show "\<not> sx_panic (ev_open ''s1'' (sess_init (NewProxy info 0)))" by (rule conjunct1)
qed

text \<open>
  C10: Sessions are not mixed up. Every session that got a work connection got one that named
  this very session, and no work connection is joined to two sessions.
\<close>

theorem session_isolation:
  assumes "sess_reach p s" and "fmlookup (sx_done s) sid = Some w"
  shows "fmlookup (sx_claim s) w = Some sid \<and> (\<forall>sid'. fmlookup (sx_done s) sid' = Some w \<longrightarrow> sid' = sid)"
proof -
  have claim: "fmlookup (sx_done s) k = Some v \<Longrightarrow> fmlookup (sx_claim s) v = Some k" for k v
    by (rule sess_invD(13) [OF sess_reach_inv [OF assms(1)]])
  show ?thesis using claim [OF assms(2)] claim [of _ w] by simp
qed

theorem session_isolation_witness:
  "\<forall>info. \<exists>s. sess_reach (NewProxy info 0) s \<and> fmlookup (sx_claim s) 9 = Some ''s1''"
proof
  fix info
  let ?p = "NewProxy info 0"
  let ?s1 = "ev_open ''s1'' (sess_init ?p)"
  let ?s2 = "ev_take 9 ''s1'' ?s1"
  let ?s3 = "ev_send 9 0 ?s2"
  let ?s4 = "ev_recv ''s1'' 0 ?s3"
  note defs = sess_init_def ev_open_def register_pending_def make_chan_def ev_take_def deliver_take_def
    ev_send_def chan_send_def ev_recv_def chan_recv_def NewProxy_def
  have "sess_reach ?p ?s1" by (rule sr_step [OF sr_init s_open]) (simp add: sess_init_def fmran'_def)
  then have "sess_reach ?p ?s2" by (rule sr_step [OF _ s_take]) (simp add: defs)
  then have "sess_reach ?p ?s3" by (rule sr_step [OF _ s_send]) (simp add: defs)
  then have r: "sess_reach ?p ?s4" by (rule sr_step [OF _ s_recv]) (simp add: defs)
  have "fmlookup (sx_done ?s4) ''s1'' = Some 9" by (simp add: defs)
  from session_isolation [OF r this] r
  show "\<exists>s. sess_reach (NewProxy info 0) s \<and> fmlookup (sx_claim s) 9 = Some ''s1''" by blast
qed

text \<open>
  A work connection can be lost. If a session gives up (timeout, cancelled request) between
  the two halves of a delivery, the connection is put into a channel that nobody will ever read:
  from then on, in every continuation, it is neither joined to a session nor closed by the relay.
\<close>

theorem work_conn_orphaned:
  "\<exists>s. sess_reach p s \<and> orphaned w s \<and> (\<forall>s'. sess_step\<^sup>*\<^sup>* s s' \<longrightarrow> orphaned w s')"
proof -
  let ?s1 = "ev_open ''s'' (sess_init p)"
  let ?s2 = "ev_take w ''s'' ?s1"
  let ?s3 = "ev_give_up ''s'' ?s2"
  let ?s4 = "ev_send w 0 ?s3"
  note defs = sess_init_def ev_open_def register_pending_def make_chan_def ev_take_def deliver_take_def
    ev_send_def chan_send_def ev_give_up_def removePending_def
  have "sess_reach p ?s1" by (rule sr_step [OF sr_init s_open]) (simp add: sess_init_def fmran'_def)
  then have "sess_reach p ?s2" by (rule sr_step [OF _ s_take]) (simp add: defs)
  then have "sess_reach p ?s3" by (rule sr_step [OF _ s_give_up]) (simp add: defs)
  then have r: "sess_reach p ?s4" by (rule sr_step [OF _ s_send]) (simp add: defs)
  have o: "orphaned w ?s4" by (simp add: orphaned_def defs)
  have "orphaned w s'" if "sess_step\<^sup>*\<^sup>* ?s4 s'" for s'
  proof -
    from that have "orphaned w s' \<and> sess_inv s'"
      by (induction rule: rtranclp_induct)
        (use o sess_reach_inv [OF r] orphaned_step sess_step_inv in blast)+
    then show ?thesis ..
  qed
  with r o show ?thesis by blast
qed

theorem work_conn_orphaned_witness:
  "\<forall>info. \<exists>s. sess_reach (NewProxy info 0) s \<and> orphaned 9 s"
  using work_conn_orphaned by blast

end
