(* ===== verification/Request_Log.thy ===== *)
theory Request_Log
  imports Go_Prelude
begin

text \<open>
  The request log of the public gateway (\<open>server/internal/relay/gateway.go\<close>, lines 599 to
  638; \<open>HTTPRequestLog\<close> of \<open>pkg/types/types.go\<close>): appending with a retention and listing the
  newest entries first.
\<close>

record HTTPRequestLog =
  hl_ID :: string
  hl_Timestamp :: gotime
  hl_ClientID :: string
  hl_ProxyName :: string
  hl_Host :: string
  hl_Method :: string
  hl_Path :: string
  hl_StatusCode :: int
  hl_DurationMS :: int
  hl_RequestBytes :: int
  hl_ResponseBytes :: int
  hl_RemoteAddr :: string
  hl_PolicyID :: string
  hl_PolicyResult :: string
  hl_RejectReason :: string
  hl_BodyCaptured :: bool
  hl_BodyCaptureSize :: int

definition append_log :: "int \<Rightarrow> 'a \<Rightarrow> 'a list \<Rightarrow> 'a list" where
  "append_log retention0 entry logs =
     (if retention0 = 0 then logs
      else let retention = (if retention0 < 0 then 0 else retention0);
               logs = logs @ [entry]
           in if int (length logs) > retention
              then take (nat retention) (drop (length logs - nat retention) logs)
              else logs)"

fun list_from :: "nat \<Rightarrow> nat \<Rightarrow> 'a list \<Rightarrow> 'a list \<Rightarrow> 'a list" where
  "list_from limit 0 logs acc = acc"
| "list_from limit (Suc i) logs acc =
     (if length acc < limit then list_from limit i logs (acc @ [logs ! i]) else acc)"

definition list_logs :: "int \<Rightarrow> 'a list \<Rightarrow> 'a list" where
  "list_logs limit0 logs =
     (let limit = (if limit0 \<le> 0 \<or> limit0 > 500 then 100 else limit0);
          limit = (if limit > int (length logs) then int (length logs) else limit)
      in list_from (nat limit) (length logs) logs [])"

lemma append_log_pos:
  assumes "0 < r"
  shows "append_log r x logs = drop (Suc (length logs) - nat r) (logs @ [x])"
  using assms by (auto simp: append_log_def Let_def)

lemma append_log_length: "0 < r \<Longrightarrow> length (append_log r x logs) \<le> nat r"
  by (simp add: append_log_pos)

lemma list_from_acc:
  "i \<le> length logs \<Longrightarrow> length acc \<le> limit \<Longrightarrow>
     list_from limit i logs acc = acc @ take (limit - length acc) (rev (take i logs))"
proof (induction i arbitrary: acc)
  case (Suc i)
  then show ?case
    by (cases "length acc < limit")
      (auto simp: take_Suc_conv_app_nth Suc_diff_Suc [symmetric] take_Suc_Cons)
qed simp

lemma list_logs_eq:
  "list_logs l logs = take (nat (if l \<le> 0 \<or> l > 500 then 100 else l)) (rev logs)"
  by (auto simp: list_logs_def Let_def list_from_acc)

lemma fold_append_log:
  assumes "0 < r"
  shows "fold (append_log r) xs logs = (if xs = [] then logs else drop (length logs + length xs - nat r) (logs @ xs))"
  using assms
proof (induction xs arbitrary: logs)
  case (Cons x xs)
  let ?l = "append_log r x logs"
  have l: "?l = drop (Suc (length logs) - nat r) (logs @ [x])" by (rule append_log_pos [OF assms])
  show ?case
  proof (cases "xs = []")
    case True
    then show ?thesis using l by simp
  next
    case False
    have d: "?l @ xs = drop (Suc (length logs) - nat r) (logs @ x # xs)"
      using assms by (simp add: l)
    have "fold (append_log r) (x # xs) logs = drop (length ?l + length xs - nat r) (?l @ xs)"
      using Cons.IH [of ?l] Cons.prems False by simp
    also have "\<dots> = drop (length logs + length (x # xs) - nat r) (logs @ x # xs)"
      unfolding d drop_drop using assms False
      by (intro arg_cong2 [where f = drop] refl) (auto simp: l neq_Nil_conv)
    finally show ?thesis by simp
  qed
qed simp

section \<open>Properties\<close>

text \<open>
  The log is the list of the most recent requests. With a retention of \<open>r\<close> entries, after
  any sequence of requests the log holds the last \<open>r\<close> of them in order, and listing it with a
  limit from 1 to 500 gives the newest of them, newest first; a limit outside that range means
  100, and a retention of 0 keeps nothing.
\<close>

theorem request_log_recent:
  assumes "0 < r"
  shows "fold (append_log r) xs [] = drop (length xs - nat r) xs \<and>
    list_logs l (fold (append_log r) xs []) =
      take (min (nat r) (nat (if l \<le> 0 \<or> l > 500 then 100 else l))) (rev xs) \<and>
    fold (append_log 0) xs [] = []"
proof -
  have f: "fold (append_log r) xs [] = drop (length xs - nat r) xs"
    using fold_append_log [OF assms, of xs "[]"] by auto
  have "fold (append_log 0) xs ys = ys" for ys
    by (induction xs arbitrary: ys) (auto simp: append_log_def)
  moreover have "rev (drop (length xs - nat r) xs) = take (nat r) (rev xs)"
    by (cases "nat r \<le> length xs") (simp_all add: rev_drop)
  ultimately show ?thesis unfolding f list_logs_eq by (simp add: min.commute)
qed

theorem request_log_recent_witness:
  "list_logs 2 (fold (append_log 3) [1 :: nat, 2, 3, 4, 5] []) = [5, 4]"
proof -
  have "list_logs 2 (fold (append_log 3) [1 :: nat, 2, 3, 4, 5] []) =
      take (min (nat 3) (nat (if (2 :: int) \<le> 0 \<or> (2 :: int) > 500 then 100 else 2))) (rev [1, 2, 3, 4, 5])"
    by (rule request_log_recent [THEN conjunct2, THEN conjunct1]) simp
  then show ?thesis by (rule trans) simp
qed

end
