(* ===== verification/Relay_Server.thy ===== *)
theory Relay_Server
  imports Relay_Session Request_Log Wire
begin

text \<open>
  The relay server and its client connections (\<open>server/internal/relay/server.go\<close>,
  \<open>client_conn.go\<close>, \<open>admin.go\<close> and the endpoint routes of \<open>gateway.go\<close>).

  The server, its clients and its proxies point at each other, so they live in a store: a
  \<open>Server\<close> record holds the maps of the Go struct with addresses as values, and the heaps
  \<open>sv_cc\<close> of client connections and \<open>sv_px\<close> of proxies. Each operation is one function on that
  record, the body of one Go function; the mutexes make the map operations atomic.

  The flags \<open>sv_cancelled\<close>, \<open>cc_cancelled\<close> and \<open>px_cancelled\<close> are the calls of \<open>cancel\<close> on the
  contexts; a context is done if its own flag or that of one of its parents is set
  (\<open>cc_done\<close>, \<open>px_done\<close>).

  \<open>RelayEnv\<close> is what surrounds one call: the JSON codec, \<open>net.Listen\<close>, \<open>time.Parse\<close> and the
  order in which this call ranges over maps. Every step may have a different one.
\<close>

record RelayEnv =
  env_marshal :: json_marshal
  env_unmarshal :: "payload_kind \<Rightarrow> byte list \<Rightarrow> payload option"
  env_listen :: "string \<Rightarrow> 16 word \<Rightarrow> 16 word option"
  env_parse_time :: "string \<Rightarrow> gotime option"
  env_order :: "string fset \<Rightarrow> string list"

definition env_ok :: "RelayEnv \<Rightarrow> bool" where
  "env_ok env \<longleftrightarrow> (\<forall>S. distinct (env_order env S) \<and> fset_of_list (env_order env S) = S)"

definition range_keys :: "RelayEnv \<Rightarrow> (string, 'v) fmap \<Rightarrow> string list" where
  "range_keys env m = env_order env (fmdom m)"

record ClientConn =
  cc_clientID :: string
  cc_conn :: Conn
  cc_remoteAddr :: string
  cc_connectedAt :: gotime
  cc_lastSeen :: gotime
  cc_proxies :: "(string, nat) fmap"
  cc_deadline :: "gotime option"
  cc_cancelled :: bool

record Server =
  sv_config :: Config
  sv_clients :: "(string, nat) fmap"
  sv_proxies :: "(string, nat) fmap"
  sv_routes :: "(string, nat) fmap"
  sv_policies :: PolicyTable
  sv_logs :: "HTTPRequestLog list"
  sv_mesh :: "(string, MeshPeerJSON) fmap"
  sv_cancelled :: bool
  sv_cc :: "(nat, ClientConn) fmap"
  sv_px :: "(nat, Proxy) fmap"
  sv_chans :: chan_heap
  sv_next :: nat

definition NewServer :: "Config \<Rightarrow> Server" where
  "NewServer cfg =
     \<lparr>sv_config = cfg, sv_clients = fmempty, sv_proxies = fmempty, sv_routes = fmempty,
      sv_policies = newPolicyTable, sv_logs = [], sv_mesh = fmempty, sv_cancelled = False,
      sv_cc = fmempty, sv_px = fmempty, sv_chans = \<lparr>ch_next = 0, ch_tab = fmempty\<rparr>, sv_next = 0\<rparr>"

definition upd_cc :: "nat \<Rightarrow> (ClientConn \<Rightarrow> ClientConn) \<Rightarrow> Server \<Rightarrow> Server" where
  "upd_cc a f s = (case fmlookup (sv_cc s) a of None \<Rightarrow> s | Some cc \<Rightarrow> s\<lparr>sv_cc := fmupd a (f cc) (sv_cc s)\<rparr>)"

definition upd_px :: "nat \<Rightarrow> Proxy \<Rightarrow> Server \<Rightarrow> Server" where
  "upd_px p px s = s\<lparr>sv_px := fmupd p px (sv_px s)\<rparr>"

definition cc_done :: "Server \<Rightarrow> nat \<Rightarrow> bool" where
  "cc_done s a \<longleftrightarrow> sv_cancelled s \<or> (case fmlookup (sv_cc s) a of Some cc \<Rightarrow> cc_cancelled cc | None \<Rightarrow> False)"

definition px_done :: "Server \<Rightarrow> nat \<Rightarrow> bool" where
  "px_done s p \<longleftrightarrow> (case fmlookup (sv_px s) p of
     Some px \<Rightarrow> px_cancelled px \<or> cc_done s (px_client px) | None \<Rightarrow> False)"

section \<open>Writing to a client\<close>

definition cc_write :: "nat \<Rightarrow> Message \<Rightarrow> Server \<Rightarrow> proto_error option \<times> Server" where
  "cc_write a msg s =
     (case fmlookup (sv_cc s) a of
        None \<Rightarrow> (Some ErrConnClosed, s)
      | Some cc \<Rightarrow> (case Conn_Write msg (cc_conn cc) of
                      (e, c) \<Rightarrow> (e, s\<lparr>sv_cc := fmupd a (cc\<lparr>cc_conn := c\<rparr>) (sv_cc s)\<rparr>)))"

definition sendProxyResp ::
    "RelayEnv \<Rightarrow> nat \<Rightarrow> string \<Rightarrow> bool \<Rightarrow> 16 word \<Rightarrow> string \<Rightarrow> string \<Rightarrow> Server \<Rightarrow> Server" where
  "sendProxyResp env a name success port publicURL errMsg s =
     (case NewNewProxyRespMessageWithURL (env_marshal env) name success port publicURL errMsg of
        Inl _ \<Rightarrow> s
      | Inr msg \<Rightarrow> snd (cc_write a msg s))"

definition sendStartWorkConn :: "RelayEnv \<Rightarrow> nat \<Rightarrow> string \<Rightarrow> string \<Rightarrow> Server \<Rightarrow> proto_error option \<times> Server" where
  "sendStartWorkConn env a proxyName sessionID s =
     (case NewStartWorkConnMessage (env_marshal env) proxyName sessionID of
        Inl e \<Rightarrow> (Some e, s)
      | Inr msg \<Rightarrow> cc_write a msg s)"

section \<open>Registries\<close>

definition findClient :: "string \<Rightarrow> Server \<Rightarrow> nat option" where
  "findClient clientID s = fmlookup (sv_clients s) clientID"

definition removeClient :: "string \<Rightarrow> Server \<Rightarrow> Server" where
  "removeClient clientID s = s\<lparr>sv_clients := fmdrop clientID (sv_clients s)\<rparr>"

definition registerProxy :: "string \<Rightarrow> nat \<Rightarrow> Server \<Rightarrow> Server" where
  "registerProxy key p s = s\<lparr>sv_proxies := fmupd key p (sv_proxies s)\<rparr>"

definition unregisterProxy :: "string \<Rightarrow> Server \<Rightarrow> Server" where
  "unregisterProxy key s = s\<lparr>sv_proxies := fmdrop key (sv_proxies s)\<rparr>"

datatype route_error =
    InvalidDomain domain_error
  | DomainTaken string

definition registerEndpointRoute :: "string \<Rightarrow> nat \<Rightarrow> Server \<Rightarrow> route_error option \<times> Server" where
  "registerEndpointRoute domain0 p s =
     (let domain = normalizeEndpointHost domain0 in
      if domain = [] then (None, s)
      else (case validateEndpointDomain domain of
              Some e \<Rightarrow> (Some (InvalidDomain e), s)
            | None \<Rightarrow>
                (case fmlookup (sv_routes s) domain of
                   Some existing \<Rightarrow>
                     if existing \<noteq> p then (Some (DomainTaken domain), s)
                     else (None, s\<lparr>sv_routes := fmupd domain p (sv_routes s)\<rparr>)
                 | None \<Rightarrow> (None, s\<lparr>sv_routes := fmupd domain p (sv_routes s)\<rparr>))))"

definition unregisterEndpointRoute :: "string \<Rightarrow> nat \<Rightarrow> Server \<Rightarrow> Server" where
  "unregisterEndpointRoute domain0 p s =
     (let domain = normalizeEndpointHost domain0 in
      if domain = [] then s
      else if fmlookup (sv_routes s) domain = Some p then s\<lparr>sv_routes := fmdrop domain (sv_routes s)\<rparr>
      else s)"

definition findEndpointProxy :: "string \<Rightarrow> Server \<Rightarrow> nat option" where
  "findEndpointProxy domain s = fmlookup (sv_routes s) (normalizeEndpointHost domain)"

section \<open>Proxies of a client\<close>

definition getProxy :: "nat \<Rightarrow> string \<Rightarrow> Server \<Rightarrow> nat option" where
  "getProxy a name s =
     (case fmlookup (sv_cc s) a of None \<Rightarrow> None | Some cc \<Rightarrow> fmlookup (cc_proxies cc) name)"

definition stop_proxy :: "RelayEnv \<Rightarrow> nat \<Rightarrow> Server \<Rightarrow> Server" where
  "stop_proxy env p s =
     (case fmlookup (sv_px s) p of
        None \<Rightarrow> s
      | Some px \<Rightarrow> (case proxy_Stop (range_keys env (px_pending px)) px (sv_chans s) of
                      (px, H) \<Rightarrow> s\<lparr>sv_px := fmupd p px (sv_px s), sv_chans := H\<rparr>))"

definition proxy_key :: "string \<Rightarrow> string \<Rightarrow> string" where
  "proxy_key clientID name = clientID @ ''/'' @ name"

text \<open>The text of an error as the client is told it.\<close>

fun domain_error_text :: "domain_error \<Rightarrow> string" where
  "domain_error_text DomainRequired = ''domain is required''"
| "domain_error_text DomainTooLong = ''domain is too long''"
| "domain_error_text DomainInvalidChars = ''domain contains invalid characters''"
| "domain_error_text EmptyLabel = ''domain contains empty label''"
| "domain_error_text (LabelTooLong l) = ''domain label is too long: '' @ l"
| "domain_error_text (LabelHyphen l) = ''domain label cannot start or end with hyphen: '' @ l"
| "domain_error_text (LabelInvalidChar l) = ''domain label contains invalid character: '' @ l"

fun route_error_text :: "route_error \<Rightarrow> string" where
  "route_error_text (InvalidDomain e) = domain_error_text e"
| "route_error_text (DomainTaken d) = ''domain already registered: '' @ d"

definition new_proxy_info :: "Config \<Rightarrow> NewProxyMessage \<Rightarrow> gotime \<Rightarrow> ProxyInfo" where
  "new_proxy_info cfg np expires =
     (let domain = endpointDomainFromProxy cfg (np_Domain np) (np_ProxyName np) in
      \<lparr>pi_ProxyName = np_ProxyName np, pi_ProxyType = np_ProxyType np, pi_LocalAddr = np_LocalAddr np,
       pi_RemotePort = np_RemotePort np, pi_Domain = domain, pi_HostHeader = np_HostHeader np,
       pi_PublicURL = (if np_PublicURL np = [] \<and> domain \<noteq> []
                       then publicURLForDomain cfg domain (np_UseHTTPS np) else np_PublicURL np),
       pi_AccessPolicyID = np_AccessPolicyID np, pi_InspectEnabled = np_InspectEnabled np,
       pi_ExpiresAt = expires, pi_Status = ''active'', pi_BytesIn = 0, pi_BytesOut = 0, pi_Sessions = 0\<rparr>)"

text \<open>The store half of \<open>NewProxy\<close>: a new address.\<close>

definition alloc_proxy :: "ProxyInfo \<Rightarrow> nat \<Rightarrow> Server \<Rightarrow> nat \<times> Server" where
  "alloc_proxy info a s =
     (sv_next s, s\<lparr>sv_px := fmupd (sv_next s) (NewProxy info a) (sv_px s), sv_next := sv_next s + 1\<rparr>)"

text \<open>From \<open>Start\<close> to the end of \<open>handleNewProxy\<close>: bind, publish, answer.\<close>

definition start_new_proxy :: "RelayEnv \<Rightarrow> nat \<Rightarrow> NewProxyMessage \<Rightarrow> ProxyInfo \<Rightarrow> nat \<Rightarrow> Server \<Rightarrow> Server" where
  "start_new_proxy env a np info p s =
     (case fmlookup (sv_px s) p of
        None \<Rightarrow> s
      | Some px \<Rightarrow>
          (case (if np_RemotePort np \<noteq> 0 \<or> pi_Domain info = []
                 then proxy_Start (env_listen env) (BindAddr (sv_config s)) px else (True, px)) of
             (False, _) \<Rightarrow>
               (let s = (if pi_Domain info \<noteq> [] then unregisterEndpointRoute (pi_Domain info) p s else s) in
                sendProxyResp env a (np_ProxyName np) False 0 [] ''failed to listen'' s)
           | (True, px) \<Rightarrow>
               (let s = upd_px p px s;
                    s = upd_cc a (\<lambda>cc. cc\<lparr>cc_proxies := fmupd (np_ProxyName np) p (cc_proxies cc)\<rparr>) s;
                    s = (case fmlookup (sv_cc s) a of
                           None \<Rightarrow> s
                         | Some cc \<Rightarrow> registerProxy (proxy_key (cc_clientID cc) (np_ProxyName np)) p s)
                in sendProxyResp env a (np_ProxyName np) True (pi_RemotePort (px_info px)) (pi_PublicURL info) [] s)))"

definition handleNewProxy :: "RelayEnv \<Rightarrow> nat \<Rightarrow> Message \<Rightarrow> Server \<Rightarrow> Server" where
  "handleNewProxy env a msg s =
     (case (DecodePayload (env_unmarshal env) msg, fmlookup (sv_cc s) a) of
        (Inr (Some (PNewProxy np)), Some cc) \<Rightarrow>
          if int (mlen (cc_proxies cc)) \<ge> MaxProxiesPerClient (sv_config s) then
            sendProxyResp env a (np_ProxyName np) False 0 [] ''max proxies exceeded'' s
          else if fmlookup (cc_proxies cc) (np_ProxyName np) \<noteq> None then
            sendProxyResp env a (np_ProxyName np) False 0 [] ''proxy name already in use'' s
          else
            let expires = (if trim_space (np_ExpiresAt np) = [] then Some 0
                           else env_parse_time env (trim_space (np_ExpiresAt np))) in
            (case expires of
               None \<Rightarrow> sendProxyResp env a (np_ProxyName np) False 0 [] ''invalid expires_at'' s
             | Some expiresAt \<Rightarrow>
                 let info = new_proxy_info (sv_config s) np expiresAt in
                 (case alloc_proxy info a s of
                    (p, s) \<Rightarrow>
                      if pi_Domain info \<noteq> [] then
                        (case registerEndpointRoute (pi_Domain info) p s of
                           (Some e, s) \<Rightarrow> sendProxyResp env a (np_ProxyName np) False 0 [] (route_error_text e) s
                         | (None, s) \<Rightarrow> start_new_proxy env a np info p s)
                      else start_new_proxy env a np info p s))
      | _ \<Rightarrow> s)"

text \<open>What \<open>handleCloseProxy\<close> and \<open>cleanup\<close> do with a proxy taken out of its client.\<close>

definition drop_proxy :: "RelayEnv \<Rightarrow> string \<Rightarrow> string \<Rightarrow> nat \<Rightarrow> Server \<Rightarrow> Server" where
  "drop_proxy env clientID name p s =
     (case fmlookup (sv_px s) p of
        None \<Rightarrow> s
      | Some px \<Rightarrow>
          unregisterProxy (proxy_key clientID name)
            (stop_proxy env p (unregisterEndpointRoute (pi_Domain (proxy_Snapshot px)) p s)))"

definition handleCloseProxy :: "RelayEnv \<Rightarrow> nat \<Rightarrow> Message \<Rightarrow> Server \<Rightarrow> Server" where
  "handleCloseProxy env a msg s =
     (case (DecodePayload (env_unmarshal env) msg, fmlookup (sv_cc s) a) of
        (Inr (Some (PCloseProxy cp)), Some cc) \<Rightarrow>
          (case fmlookup (cc_proxies cc) (cp_ProxyName cp) of
             None \<Rightarrow> s
           | Some p \<Rightarrow>
               drop_proxy env (cc_clientID cc) (cp_ProxyName cp) p
                 (upd_cc a (\<lambda>cc. cc\<lparr>cc_proxies := fmdrop (cp_ProxyName cp) (cc_proxies cc)\<rparr>) s))
      | _ \<Rightarrow> s)"

section \<open>Signalling and the mesh\<close>

definition forward_to :: "RelayEnv \<Rightarrow> nat \<Rightarrow> Message \<Rightarrow> string \<Rightarrow> string \<Rightarrow> Server \<Rightarrow> Server" where
  "forward_to env a msg toClientID sessionID s =
     (case findClient toClientID s of
        Some target \<Rightarrow> snd (cc_write target msg s)
      | None \<Rightarrow>
          if Type msg = TypeP2POffer then
            (case fmlookup (sv_cc s) a of
               None \<Rightarrow> s
             | Some cc \<Rightarrow>
                 (case NewP2PAnswerMessage (env_marshal env) sessionID [] (cc_clientID cc) [] [] [] False ''peer not found'' of
                    Inl _ \<Rightarrow> s
                  | Inr errResp \<Rightarrow> snd (cc_write a errResp s)))
          else s)"

definition forwardP2PMessage :: "RelayEnv \<Rightarrow> nat \<Rightarrow> Message \<Rightarrow> Server \<Rightarrow> Server" where
  "forwardP2PMessage env a msg s =
     (case DecodePayload (env_unmarshal env) msg of
        Inr (Some (PP2POffer m)) \<Rightarrow> forward_to env a msg (po_ToClientID m) (po_SessionID m) s
      | Inr (Some (PP2PAnswer m)) \<Rightarrow> forward_to env a msg (pa_ToClientID m) (pa_SessionID m) s
      | _ \<Rightarrow> s)"

fun send_members :: "string list \<Rightarrow> Message \<Rightarrow> Server \<Rightarrow> Server" where
  "send_members [] msg s = s"
| "send_members (i # is) msg s =
     send_members is msg (case findClient i s of None \<Rightarrow> s | Some a \<Rightarrow> snd (cc_write a msg s))"

definition broadcastMeshPeerList :: "RelayEnv \<Rightarrow> Server \<Rightarrow> Server" where
  "broadcastMeshPeerList env s =
     (let members = range_keys env (sv_mesh s) in
      case NewMeshPeerListMessage (env_marshal env) (range_vals (sv_mesh s) members) of
        Inl _ \<Rightarrow> s
      | Inr msg \<Rightarrow> send_members members msg s)"

definition registerMeshPeer :: "RelayEnv \<Rightarrow> string \<Rightarrow> string \<Rightarrow> string \<Rightarrow> string \<Rightarrow> Server \<Rightarrow> Server" where
  "registerMeshPeer env clientID wgPubKey natType subnet s =
     broadcastMeshPeerList env
       (s\<lparr>sv_mesh := fmupd clientID \<lparr>mp_ClientID = clientID, mp_NATType = natType,
                                     mp_WGPubKey = wgPubKey, mp_Subnet = subnet\<rparr> (sv_mesh s)\<rparr>)"

definition unregisterMeshPeer :: "RelayEnv \<Rightarrow> string \<Rightarrow> Server \<Rightarrow> Server" where
  "unregisterMeshPeer env clientID s =
     (if fmlookup (sv_mesh s) clientID \<noteq> None
      then broadcastMeshPeerList env (s\<lparr>sv_mesh := fmdrop clientID (sv_mesh s)\<rparr>) else s)"

definition handleMeshJoin :: "RelayEnv \<Rightarrow> Message \<Rightarrow> Server \<Rightarrow> Server" where
  "handleMeshJoin env msg s =
     (case DecodePayload (env_unmarshal env) msg of
        Inr (Some (PMeshJoin j)) \<Rightarrow> registerMeshPeer env (mj_ClientID j) (mj_WGPubKey j) (mj_NATType j) (mj_Subnet j) s
      | _ \<Rightarrow> s)"

definition handleMeshLeave :: "RelayEnv \<Rightarrow> Message \<Rightarrow> Server \<Rightarrow> Server" where
  "handleMeshLeave env msg s =
     (case DecodePayload (env_unmarshal env) msg of
        Inr (Some (PMeshLeave l)) \<Rightarrow> unregisterMeshPeer env (mv_ClientID l) s
      | _ \<Rightarrow> s)"

section \<open>The life of a connection\<close>

definition conn_write_result :: "proto_error + Message \<Rightarrow> Conn \<Rightarrow> proto_error option \<times> Conn" where
  "conn_write_result r c = (case r of Inl e \<Rightarrow> (Some e, c) | Inr msg \<Rightarrow> Conn_Write msg c)"

definition reject_auth :: "RelayEnv \<Rightarrow> string \<Rightarrow> Conn \<Rightarrow> string option \<times> Conn" where
  "reject_auth env errMsg c =
     (None, Conn_Close (snd (conn_write_result (NewAuthRespMessage (env_marshal env) False errMsg) c)))"

text \<open>
  \<open>handleControlConn\<close> releases the lock on the clients between the test for a duplicate and the
  insertion, and writes to the network in between, so it is two steps: \<open>auth_check\<close>, lines 182
  to 228, which gives the client's identifier if it is let in, and \<open>accept_client\<close>, lines 230 to
  235.
\<close>

definition auth_check :: "RelayEnv \<Rightarrow> Message \<Rightarrow> Conn \<Rightarrow> Server \<Rightarrow> string option \<times> Conn" where
  "auth_check env msg c s =
     (case DecodePayload (env_unmarshal env) msg of
        Inr (Some (PAuth auth)) \<Rightarrow>
          if am_Version auth \<noteq> ProtocolVersion then
            reject_auth env (''unsupported protocol version: '' @ nat_str (unat (am_Version auth))) c
          else if am_ClientID auth = [] then reject_auth env ''empty client ID'' c
          else if \<not> validAuthToken (sv_config s) (am_AuthToken auth) then reject_auth env ''invalid auth token'' c
          else if fmlookup (sv_clients s) (am_ClientID auth) \<noteq> None then
            reject_auth env ''client ID already connected'' c
          else (case conn_write_result (NewAuthRespMessage (env_marshal env) True []) c of
                  (Some e, c) \<Rightarrow> (None, Conn_Close c)
                | (None, c) \<Rightarrow> (Some (am_ClientID auth), c))
      | _ \<Rightarrow> (None, Conn_Close c))"

definition resetHeartbeat :: "nat \<Rightarrow> gotime \<Rightarrow> Server \<Rightarrow> Server" where
  "resetHeartbeat a now s =
     upd_cc a (\<lambda>cc. cc\<lparr>cc_deadline := Some (now + HeartbeatTimeout (sv_config s))\<rparr>) s"

definition markSeen :: "nat \<Rightarrow> gotime \<Rightarrow> Server \<Rightarrow> Server" where
  "markSeen a now s = upd_cc a (\<lambda>cc. cc\<lparr>cc_lastSeen := now\<rparr>) s"

definition NewClientConn :: "string \<Rightarrow> Conn \<Rightarrow> string \<Rightarrow> gotime \<Rightarrow> ClientConn" where
  "NewClientConn clientID c remote now =
     \<lparr>cc_clientID = clientID, cc_conn = c, cc_remoteAddr = remote, cc_connectedAt = now,
      cc_lastSeen = now, cc_proxies = fmempty, cc_deadline = None, cc_cancelled = False\<rparr>"

definition accept_client :: "string \<Rightarrow> Conn \<Rightarrow> string \<Rightarrow> gotime \<Rightarrow> Server \<Rightarrow> nat \<times> Server" where
  "accept_client clientID c remote now s =
     (sv_next s,
      resetHeartbeat (sv_next s) now
        (s\<lparr>sv_cc := fmupd (sv_next s) (NewClientConn clientID c remote now) (sv_cc s),
           sv_next := sv_next s + 1, sv_clients := fmupd clientID (sv_next s) (sv_clients s)\<rparr>))"

text \<open>
  One round of \<open>readLoop\<close> with the message it read; the first component says whether the loop
  goes on. When it does not, and when the read fails, \<open>cleanup\<close> runs.
\<close>

definition read_loop_step :: "RelayEnv \<Rightarrow> nat \<Rightarrow> gotime \<Rightarrow> Message \<Rightarrow> Server \<Rightarrow> bool \<times> Server" where
  "read_loop_step env a now msg s0 =
     (let s = resetHeartbeat a now (markSeen a now s0) in
      if Type msg = TypeNewProxy then (True, handleNewProxy env a msg s)
      else if Type msg = TypeCloseProxy then (True, handleCloseProxy env a msg s)
      else if Type msg = TypeHeartbeat then
        (case cc_write a NewHeartbeatResp s of (e, s) \<Rightarrow> (e = None, s))
      else if Type msg = TypeHeartbeatResp then (True, s)
      else if Type msg = TypeP2POffer \<or> Type msg = TypeP2PAnswer \<or> Type msg = TypeP2PClose then
        (True, forwardP2PMessage env a msg s)
      else if Type msg = TypeMeshJoin then (True, handleMeshJoin env msg s)
      else if Type msg = TypeMeshLeave then (True, handleMeshLeave env msg s)
      else if Type msg = TypeMeshPing \<or> Type msg = TypeMeshPong then (True, forwardP2PMessage env a msg s)
      else (True, s))"

definition heartbeat_expire :: "nat \<Rightarrow> Server \<Rightarrow> Server" where
  "heartbeat_expire a s = upd_cc a (\<lambda>cc. cc\<lparr>cc_cancelled := True, cc_conn := Conn_Close (cc_conn cc)\<rparr>) s"

definition close_client :: "nat \<Rightarrow> Server \<Rightarrow> Server" where
  "close_client a s = upd_cc a (\<lambda>cc. cc\<lparr>cc_cancelled := True, cc_conn := Conn_Close (cc_conn cc)\<rparr>) s"

fun drop_proxies :: "RelayEnv \<Rightarrow> string \<Rightarrow> (string, nat) fmap \<Rightarrow> string list \<Rightarrow> Server \<Rightarrow> Server" where
  "drop_proxies env clientID proxies [] s = s"
| "drop_proxies env clientID proxies (name # names) s =
     (case fmlookup proxies name of
        None \<Rightarrow> drop_proxies env clientID proxies names s
      | Some p \<Rightarrow> drop_proxies env clientID proxies names (drop_proxy env clientID name p s))"

definition cleanup :: "RelayEnv \<Rightarrow> nat \<Rightarrow> Server \<Rightarrow> Server" where
  "cleanup env a s0 =
     (case fmlookup (sv_cc s0) a of
        None \<Rightarrow> s0
      | Some cc \<Rightarrow>
          let s = upd_cc a (\<lambda>cc. cc\<lparr>cc_deadline := None, cc_cancelled := True, cc_proxies := fmempty\<rparr>) s0;
              s = drop_proxies env (cc_clientID cc) (cc_proxies cc) (range_keys env (cc_proxies cc)) s;
              s = unregisterMeshPeer env (cc_clientID cc) s;
              s = removeClient (cc_clientID cc) s
          in upd_cc a (\<lambda>cc. cc\<lparr>cc_conn := Conn_Close (cc_conn cc)\<rparr>) s)"

section \<open>Work connections\<close>

datatype work_error =
    InvalidWorkPayload
  | WorkTokenRejected
  | UnknownProxy string
  | NotDelivered delivery

definition find_proxy_owner :: "RelayEnv \<Rightarrow> string \<Rightarrow> Server \<Rightarrow> nat option" where
  "find_proxy_owner env name s =
     find (\<lambda>a. getProxy a name s \<noteq> None) (range_vals (sv_clients s) (range_keys env (sv_clients s)))"

definition handleWorkConnStream :: "RelayEnv \<Rightarrow> Message \<Rightarrow> nat \<Rightarrow> Server \<Rightarrow> work_error option \<times> Server" where
  "handleWorkConnStream env msg w s =
     (case DecodePayload (env_unmarshal env) msg of
        Inr (Some (PWorkConn wc)) \<Rightarrow>
          if \<not> validAuthToken (sv_config s) (wc_AuthToken wc) then (Some WorkTokenRejected, s)
          else (case find_proxy_owner env (wc_ProxyName wc) s of
                  None \<Rightarrow> (Some (UnknownProxy (wc_ProxyName wc)), s)
                | Some a \<Rightarrow>
                    (case getProxy a (wc_ProxyName wc) s of
                       None \<Rightarrow> (Some (UnknownProxy (wc_ProxyName wc)), s)
                     | Some p \<Rightarrow>
                         (case fmlookup (sv_px s) p of
                            None \<Rightarrow> (Some (UnknownProxy (wc_ProxyName wc)), s)
                          | Some px \<Rightarrow>
                              (case DeliverWorkConn (wc_SessionID wc) w px (sv_chans s) of
                                 (d, px, H) \<Rightarrow>
                                   (if d = Delivered then None else Some (NotDelivered d),
                                    s\<lparr>sv_px := fmupd p px (sv_px s), sv_chans := H\<rparr>)))))
      | _ \<Rightarrow> (Some InvalidWorkPayload, s))"

text \<open>
  The first half of \<open>OpenWorkConn\<close> and of a round of a proxy's accept loop: register a session
  under a fresh identifier and ask the client for a work connection.
\<close>

definition open_work_conn :: "RelayEnv \<Rightarrow> nat \<Rightarrow> string \<Rightarrow> Server \<Rightarrow> nat option \<times> Server" where
  "open_work_conn env p sid s =
     (case fmlookup (sv_px s) p of
        None \<Rightarrow> (None, s)
      | Some px \<Rightarrow>
          (case register_pending sid px (sv_chans s) of
             (ch, px, H) \<Rightarrow>
               let s = s\<lparr>sv_px := fmupd p px (sv_px s), sv_chans := H\<rparr> in
               (case sendStartWorkConn env (px_client px) (pi_ProxyName (px_info px)) sid s of
                  (Some e, s) \<Rightarrow> (None, upd_px p (removePending sid px) s)
                | (None, s) \<Rightarrow> (Some ch, s))))"

section \<open>Administration\<close>

datatype admin_error = ClientIDRequired | ClientNotFound string

definition DisconnectClient :: "string \<Rightarrow> Server \<Rightarrow> admin_error option \<times> Server" where
  "DisconnectClient clientID s =
     (if trim_space clientID = [] then (Some ClientIDRequired, s)
      else (case findClient clientID s of
              None \<Rightarrow> (Some (ClientNotFound clientID), s)
            | Some a \<Rightarrow> (None, close_client a s)))"

fun close_clients :: "nat list \<Rightarrow> Server \<Rightarrow> Server" where
  "close_clients [] s = s"
| "close_clients (a # as) s = close_clients as (close_client a s)"

fun stop_proxies :: "RelayEnv \<Rightarrow> nat list \<Rightarrow> Server \<Rightarrow> Server" where
  "stop_proxies env [] s = s"
| "stop_proxies env (p # ps) s = stop_proxies env ps (stop_proxy env p s)"

definition Shutdown :: "RelayEnv \<Rightarrow> Server \<Rightarrow> Server" where
  "Shutdown env s0 =
     (let s = s0\<lparr>sv_cancelled := True\<rparr>;
          s = close_clients (range_vals (sv_clients s) (range_keys env (sv_clients s))) s
      in stop_proxies env (range_vals (sv_proxies s) (range_keys env (sv_proxies s))) s)"

definition GetClientCount :: "Server \<Rightarrow> nat" where
  "GetClientCount s = mlen (sv_clients s)"

definition GetProxyCount :: "Server \<Rightarrow> nat" where
  "GetProxyCount s = mlen (sv_proxies s)"

record ServerStats =
  ss_Clients :: nat
  ss_Proxies :: nat
  ss_BytesIn :: "64 word"
  ss_BytesOut :: "64 word"
  ss_Sessions :: "64 word"

definition GetStats :: "RelayEnv \<Rightarrow> Server \<Rightarrow> ServerStats" where
  "GetStats env s =
     (let pxs = List.map_filter (fmlookup (sv_px s)) (range_vals (sv_proxies s) (range_keys env (sv_proxies s)));
          tot = fold (\<lambda>px (i, j, k). case proxy_Stats px of (bi, bo, sc) \<Rightarrow> (i + bi, j + bo, k + sc)) pxs (0, 0, 0)
      in case tot of (i, j, k) \<Rightarrow>
        \<lparr>ss_Clients = mlen (sv_clients s), ss_Proxies = mlen (sv_proxies s),
         ss_BytesIn = i, ss_BytesOut = j, ss_Sessions = k\<rparr>)"

end
