(* ===== verification/Relay_Inv.thy ===== *)
theory Relay_Inv
  imports Relay_Server
begin

text \<open>
  What the relay keeps true while clients come and go: the step relation of the server, the
  ownership of routes and listeners, and the properties of the client connections.
\<close>

section \<open>The invariant\<close>

text \<open>
  Between two calls, \<open>X\<close> is empty: every endpoint route leads to a proxy that a client with a
  running read loop owns, under the domain it asked for; every open listener belongs to such a
  proxy; every proxy of a client is published under its domain; and a client has at most
  \<open>MaxProxiesPerClient\<close> proxies. Inside a call, \<open>X\<close> are the proxies being set up or torn down.
\<close>

definition owned :: "nat \<Rightarrow> nat \<Rightarrow> Proxy \<Rightarrow> Server \<Rightarrow> bool" where
  "owned p a px s \<longleftrightarrow> getProxy a (pi_ProxyName (px_info px)) s = Some p"

definition relay_inv :: "nat set \<Rightarrow> nat set \<Rightarrow> Server \<Rightarrow> bool" where
  "relay_inv live X s \<longleftrightarrow>
     (\<forall>d p. fmlookup (sv_routes s) d = Some p \<longrightarrow>
        (\<exists>px. fmlookup (sv_px s) p = Some px \<and> normalizeEndpointHost (pi_Domain (px_info px)) = d \<and>
           validateEndpointDomain d = None \<and> (p \<in> X \<or> owned p (px_client px) px s))) \<and>
     (\<forall>p px. fmlookup (sv_px s) p = Some px \<and> px_listening px \<longrightarrow> p \<in> X \<or> owned p (px_client px) px s) \<and>
     (\<forall>a n p. getProxy a n s = Some p \<longrightarrow>
        a \<in> live \<and> p \<notin> X \<and>
        (\<exists>px. fmlookup (sv_px s) p = Some px \<and> px_client px = a \<and> pi_ProxyName (px_info px) = n \<and>
           (normalizeEndpointHost (pi_Domain (px_info px)) \<noteq> [] \<longrightarrow>
              fmlookup (sv_routes s) (normalizeEndpointHost (pi_Domain (px_info px))) = Some p))) \<and>
     (\<forall>i a. fmlookup (sv_clients s) i = Some a \<longrightarrow>
        a \<in> live \<and> (\<exists>cc. fmlookup (sv_cc s) a = Some cc \<and> cc_clientID cc = i)) \<and>
     (\<forall>a \<in> live. fmlookup (sv_cc s) a \<noteq> None) \<and>
     (\<forall>a cc. fmlookup (sv_cc s) a = Some cc \<longrightarrow>
        a < sv_next s \<and> int (mlen (cc_proxies cc)) \<le> max 0 (MaxProxiesPerClient (sv_config s))) \<and>
     (\<forall>p px. fmlookup (sv_px s) p = Some px \<longrightarrow> p < sv_next s)"

lemma relay_invD:
  assumes "relay_inv live X s"
  shows "fmlookup (sv_routes s) d = Some p \<Longrightarrow>
      \<exists>px. fmlookup (sv_px s) p = Some px \<and> normalizeEndpointHost (pi_Domain (px_info px)) = d \<and>
        validateEndpointDomain d = None \<and> (p \<in> X \<or> owned p (px_client px) px s)"
    "fmlookup (sv_px s) p = Some px \<Longrightarrow> px_listening px \<Longrightarrow> p \<in> X \<or> owned p (px_client px) px s"
    "getProxy a n s = Some p \<Longrightarrow> a \<in> live \<and> p \<notin> X"
    "getProxy a n s = Some p \<Longrightarrow>
      \<exists>px. fmlookup (sv_px s) p = Some px \<and> px_client px = a \<and> pi_ProxyName (px_info px) = n \<and>
        (normalizeEndpointHost (pi_Domain (px_info px)) \<noteq> [] \<longrightarrow>
           fmlookup (sv_routes s) (normalizeEndpointHost (pi_Domain (px_info px))) = Some p)"
    "fmlookup (sv_clients s) i = Some a \<Longrightarrow> a \<in> live \<and> (\<exists>cc. fmlookup (sv_cc s) a = Some cc \<and> cc_clientID cc = i)"
    "a \<in> live \<Longrightarrow> fmlookup (sv_cc s) a \<noteq> None"
    "fmlookup (sv_cc s) a = Some cc \<Longrightarrow> a < sv_next s"
    "fmlookup (sv_cc s) a = Some cc \<Longrightarrow> int (mlen (cc_proxies cc)) \<le> max 0 (MaxProxiesPerClient (sv_config s))"
    "fmlookup (sv_px s) p = Some px \<Longrightarrow> p < sv_next s"
  using assms unfolding relay_inv_def by blast+

section \<open>Steps that leave the ownership alone\<close>

text \<open>
  Most operations only write to connections, set times and move sessions. \<open>same_core\<close> says that
  two states agree on what the invariant is about.
\<close>

definition cc_core :: "ClientConn \<Rightarrow> string \<times> (string, nat) fmap" where
  "cc_core cc = (cc_clientID cc, cc_proxies cc)"

definition px_core :: "Proxy \<Rightarrow> nat \<times> ProxyInfo \<times> bool" where
  "px_core px = (px_client px, px_info px, px_listening px)"

definition same_core :: "Server \<Rightarrow> Server \<Rightarrow> bool" where
  "same_core s s' \<longleftrightarrow> sv_config s' = sv_config s \<and> sv_clients s' = sv_clients s \<and>
     sv_routes s' = sv_routes s \<and> sv_next s' = sv_next s \<and>
     (\<forall>a. map_option cc_core (fmlookup (sv_cc s') a) = map_option cc_core (fmlookup (sv_cc s) a)) \<and>
     (\<forall>p. map_option px_core (fmlookup (sv_px s') p) = map_option px_core (fmlookup (sv_px s) p))"

lemma same_core_refl [simp, intro]: "same_core s s"
  by (simp add: same_core_def)

lemma same_core_trans: "same_core s s' \<Longrightarrow> same_core s' s'' \<Longrightarrow> same_core s s''"
  by (simp add: same_core_def)

lemma same_core_sym: "same_core s s' \<Longrightarrow> same_core s' s"
  by (simp add: same_core_def)

lemma same_coreD:
  assumes "same_core s s'"
  shows "map_option cc_core (fmlookup (sv_cc s') a) = map_option cc_core (fmlookup (sv_cc s) a)"
    "map_option px_core (fmlookup (sv_px s') p) = map_option px_core (fmlookup (sv_px s) p)"
  using assms unfolding same_core_def by blast+

lemma same_core_cc:
  assumes "same_core s s'" and "fmlookup (sv_cc s') a = Some cc'"
  shows "\<exists>cc. fmlookup (sv_cc s) a = Some cc \<and> cc_clientID cc = cc_clientID cc' \<and> cc_proxies cc = cc_proxies cc'"
  using same_coreD(1) [OF assms(1), of a] assms(2)
  by (cases "fmlookup (sv_cc s) a") (simp_all add: cc_core_def)

lemma same_core_px:
  assumes "same_core s s'" and "fmlookup (sv_px s') p = Some px'"
  shows "\<exists>px. fmlookup (sv_px s) p = Some px \<and> px_client px = px_client px' \<and> px_info px = px_info px' \<and>
      px_listening px = px_listening px'"
  using same_coreD(2) [OF assms(1), of p] assms(2)
  by (cases "fmlookup (sv_px s) p") (simp_all add: px_core_def)

lemma same_core_getProxy: "same_core s s' \<Longrightarrow> getProxy a n s' = getProxy a n s"
proof -
  assume c: "same_core s s'"
  show ?thesis
  proof (cases "fmlookup (sv_cc s') a")
    case None
    then have "fmlookup (sv_cc s) a = None" using same_coreD(1) [OF c, of a] by simp
    then show ?thesis using None by (simp add: getProxy_def)
  next
    case (Some cc')
    then show ?thesis using same_core_cc [OF c Some] by (auto simp: getProxy_def)
  qed
qed

lemma same_core_inv:
  assumes c: "same_core s s'" and inv: "relay_inv live X s"
  shows "relay_inv live X s'"
proof -
  note cc = same_core_cc [OF c] and px = same_core_px [OF c] and px' = same_core_px [OF same_core_sym [OF c]]
  have eq: "sv_config s' = sv_config s" "sv_clients s' = sv_clients s" "sv_routes s' = sv_routes s"
    "sv_next s' = sv_next s" using c by (simp_all add: same_core_def)
  have own: "owned p a px1 s' \<longleftrightarrow> owned p a px2 s" if "px_info px1 = px_info px2" for p a px1 px2
    using that by (simp add: owned_def same_core_getProxy [OF c])
  have 1: "\<exists>px. fmlookup (sv_px s') p = Some px \<and> normalizeEndpointHost (pi_Domain (px_info px)) = d \<and>
        validateEndpointDomain d = None \<and> (p \<in> X \<or> owned p (px_client px) px s')"
    if r: "fmlookup (sv_routes s) d = Some p" for d p
  proof -
    obtain px1 where "fmlookup (sv_px s) p = Some px1" "normalizeEndpointHost (pi_Domain (px_info px1)) = d"
        "validateEndpointDomain d = None" "p \<in> X \<or> owned p (px_client px1) px1 s"
      using relay_invD(1) [OF inv r] by blast
    then show ?thesis using px' [of p px1] own by (metis (no_types, lifting))
  qed
  have 2: "p \<in> X \<or> owned p (px_client q) q s'" if "fmlookup (sv_px s') p = Some q" "px_listening q" for p q
    using px [OF that(1)] that(2) relay_invD(2) [OF inv] own by (metis (no_types, lifting))
  have 4: "\<exists>px. fmlookup (sv_px s') p = Some px \<and> px_client px = a \<and> pi_ProxyName (px_info px) = n \<and>
        (normalizeEndpointHost (pi_Domain (px_info px)) \<noteq> [] \<longrightarrow>
           fmlookup (sv_routes s) (normalizeEndpointHost (pi_Domain (px_info px))) = Some p)"
    if r: "getProxy a n s = Some p" for a n p
  proof -
    obtain px1 where "fmlookup (sv_px s) p = Some px1" "px_client px1 = a" "pi_ProxyName (px_info px1) = n"
        "normalizeEndpointHost (pi_Domain (px_info px1)) \<noteq> [] \<longrightarrow>
           fmlookup (sv_routes s) (normalizeEndpointHost (pi_Domain (px_info px1))) = Some p"
      using relay_invD(4) [OF inv r] by blast
    then show ?thesis using px' [of p px1] by (metis (no_types, lifting))
  qed
  have cc': "\<exists>cc'. fmlookup (sv_cc s') a = Some cc' \<and> cc_clientID cc' = cc_clientID cc1"
    if "fmlookup (sv_cc s) a = Some cc1" for a cc1
    using same_core_cc [OF same_core_sym [OF c] that] by blast
  have 5: "\<exists>cc. fmlookup (sv_cc s') a = Some cc \<and> cc_clientID cc = i"
    if "fmlookup (sv_clients s) i = Some a" for i a
    using relay_invD(5) [OF inv that] cc' by blast
  have 6: "fmlookup (sv_cc s') a \<noteq> None" if "a \<in> live" for a
    using relay_invD(6) [OF inv that] cc' by blast
  have 7: "a < sv_next s \<and> int (mlen (cc_proxies cc1)) \<le> max 0 (MaxProxiesPerClient (sv_config s))"
    if "fmlookup (sv_cc s') a = Some cc1" for a cc1
    using cc [OF that] relay_invD(7,8) [OF inv] by metis
  have 9: "p < sv_next s" if "fmlookup (sv_px s') p = Some px1" for p px1
    using px [OF that] relay_invD(9) [OF inv] by blast
  show ?thesis
    unfolding relay_inv_def eq same_core_getProxy [OF c]
    using 1 2 relay_invD(3) [OF inv] 4 relay_invD(5) [OF inv] 5 6 7 9 by blast
qed

lemma same_core_upd_cc:
  assumes "\<And>cc. cc_core (f cc) = cc_core cc"
  shows "same_core s (upd_cc a f s)"
  using assms by (auto simp: same_core_def upd_cc_def split: option.split)

lemma same_core_cc_write: "same_core s (snd (cc_write a m s))"
  by (auto simp: cc_write_def same_core_def cc_core_def split: option.split prod.split)

lemma same_core_cc_write': "cc_write a m s = (e, s') \<Longrightarrow> same_core s s'"
  using same_core_cc_write [of s a m] by simp

lemma same_core_sendProxyResp: "same_core s (sendProxyResp env a n ok port url err s)"
  by (auto simp: sendProxyResp_def intro: same_core_cc_write split: sum.split)

lemma same_core_sendStartWorkConn: "sendStartWorkConn env a n sid s = (e, s') \<Longrightarrow> same_core s s'"
  by (auto simp: sendStartWorkConn_def dest: same_core_cc_write' split: sum.splits)

lemma same_core_send_members: "same_core s (send_members is m s)"
proof (induction "is" arbitrary: s)
  case (Cons i "is")
  let ?s = "case findClient i s of None \<Rightarrow> s | Some a \<Rightarrow> snd (cc_write a m s)"
  have "same_core s ?s" by (auto intro: same_core_cc_write split: option.split)
  then have "same_core s (send_members is m ?s)" by (rule same_core_trans) (rule Cons.IH)
  then show ?case by simp
qed simp

lemma same_core_mesh: "same_core s (s\<lparr>sv_mesh := m\<rparr>)"
  by (simp add: same_core_def)

lemma same_core_broadcast: "same_core s (broadcastMeshPeerList env s)"
  by (auto simp: broadcastMeshPeerList_def Let_def intro: same_core_send_members split: sum.split)

lemma same_core_registerMeshPeer: "same_core s (registerMeshPeer env i k n sub s)"
  unfolding registerMeshPeer_def by (rule same_core_trans [OF same_core_mesh same_core_broadcast])

lemma same_core_unregisterMeshPeer: "same_core s (unregisterMeshPeer env i s)"
  unfolding unregisterMeshPeer_def by (auto intro: same_core_trans [OF same_core_mesh same_core_broadcast])

lemma same_core_handleMeshJoin: "same_core s (handleMeshJoin env m s)"
  by (auto simp: handleMeshJoin_def intro: same_core_registerMeshPeer split: sum.split option.split payload.split)

lemma same_core_handleMeshLeave: "same_core s (handleMeshLeave env m s)"
  by (auto simp: handleMeshLeave_def intro: same_core_unregisterMeshPeer split: sum.split option.split payload.split)

lemma same_core_forward_to: "same_core s (forward_to env a m to sid s)"
  by (auto simp: forward_to_def intro: same_core_cc_write split: option.split sum.split)

lemma same_core_forward: "same_core s (forwardP2PMessage env a m s)"
  by (auto simp: forwardP2PMessage_def intro: same_core_forward_to split: sum.split option.split payload.split)

lemma same_core_resetHeartbeat: "same_core s (resetHeartbeat a now s)"
  unfolding resetHeartbeat_def by (rule same_core_upd_cc) (simp add: cc_core_def)

lemma same_core_markSeen: "same_core s (markSeen a now s)"
  unfolding markSeen_def by (rule same_core_upd_cc) (simp add: cc_core_def)

lemma same_core_heartbeat_expire: "same_core s (heartbeat_expire a s)"
  unfolding heartbeat_expire_def by (rule same_core_upd_cc) (simp add: cc_core_def)

lemma same_core_close_client: "same_core s (close_client a s)"
  unfolding close_client_def by (rule same_core_upd_cc) (simp add: cc_core_def)

lemma same_core_disconnect: "same_core s (snd (DisconnectClient i s))"
  by (auto simp: DisconnectClient_def intro: same_core_close_client split: option.split)

lemma same_core_upd_px:
  "fmlookup (sv_px s) p = Some px \<Longrightarrow> px_core px' = px_core px \<Longrightarrow>
     same_core s (s\<lparr>sv_px := fmupd p px' (sv_px s), sv_chans := H\<rparr>)"
  by (auto simp: same_core_def)

lemma DeliverWorkConn_core: "DeliverWorkConn sid w px H = (d, px', H') \<Longrightarrow> px_core px' = px_core px"
  by (auto simp: DeliverWorkConn_def deliver_take_def px_core_def
      split: option.splits prod.splits send_result.splits)

lemma same_core_work: "same_core s (snd (handleWorkConnStream env m w s))"
  by (auto simp: handleWorkConnStream_def split: sum.split option.split payload.split prod.split
      intro!: same_core_upd_px dest: DeliverWorkConn_core)

lemma register_pending_core: "register_pending sid px H = (ch, px', H') \<Longrightarrow> px_core px' = px_core px"
  by (auto simp: register_pending_def make_chan_def px_core_def)

lemma same_core_open: "same_core s (snd (open_work_conn env p sid s))"
proof (cases "fmlookup (sv_px s) p")
  case None
  then show ?thesis by (simp add: open_work_conn_def)
next
  case (Some px)
  obtain ch px1 H where r: "register_pending sid px (sv_chans s) = (ch, px1, H)" by (metis prod_cases3)
  let ?s1 = "s\<lparr>sv_px := fmupd p px1 (sv_px s), sv_chans := H\<rparr>"
  obtain e s2 where w: "sendStartWorkConn env (px_client px1) (pi_ProxyName (px_info px1)) sid ?s1 = (e, s2)"
    by fastforce
  have 1: "same_core s ?s1" by (rule same_core_upd_px [OF Some register_pending_core [OF r]])
  have 2: "same_core ?s1 s2" by (rule same_core_sendStartWorkConn [OF w])
  have 12: "same_core s s2" by (rule same_core_trans [OF 1 2])
  obtain px2 where px2: "fmlookup (sv_px s2) p = Some px2" "px_core px2 = px_core px1"
    using same_core_px [OF same_core_sym [OF 2], of p px1] by (auto simp: px_core_def)
  have 3: "same_core s2 (upd_px p (removePending sid px1) s2)"
    using px2 by (auto simp: same_core_def upd_px_def removePending_def px_core_def)
  show ?thesis
    using same_core_trans [OF 12 3] 12 by (simp add: open_work_conn_def Some r Let_def w split: option.split)
qed

section \<open>Setting up and tearing down\<close>

lemma getProxy_upd_cc:
  assumes "fmlookup (sv_cc s) a = Some cc"
  shows "getProxy b n (upd_cc a f s) = (if b = a then fmlookup (cc_proxies (f cc)) n else getProxy b n s)"
  using assms by (simp add: getProxy_def upd_cc_def)

lemma relay_inv_accept:
  assumes inv: "relay_inv live X s" and a: "accept_client i c r now s = (a, s')"
  shows "relay_inv (insert a live) X s'"
proof -
  let ?cc = "NewClientConn i c r now"
  let ?s1 = "s\<lparr>sv_cc := fmupd (sv_next s) ?cc (sv_cc s), sv_next := sv_next s + 1,
      sv_clients := fmupd i (sv_next s) (sv_clients s)\<rparr>"
  have a': "a = sv_next s" and s': "s' = resetHeartbeat a now ?s1" using a by (auto simp: accept_client_def)
  have none: "fmlookup (sv_cc s) a = None"
    using relay_invD(7) [OF inv, of a] a' by (cases "fmlookup (sv_cc s) a") auto
  have get: "getProxy b n ?s1 = getProxy b n s" for b n
    using none by (auto simp: getProxy_def a' NewClientConn_def)
  have own: "owned p b px ?s1 = owned p b px s" for p b px by (simp only: owned_def get)
  have cc: "fmlookup (sv_cc ?s1) b = (if b = a then Some ?cc else fmlookup (sv_cc s) b)" for b by (simp add: a')
  have ne: "b \<noteq> a" if "fmlookup (sv_cc s) b = Some cc1" for b cc1 using that none by auto
  have 5: "b \<in> insert a live \<and> (\<exists>cc1. fmlookup (sv_cc ?s1) b = Some cc1 \<and> cc_clientID cc1 = j)"
    if "fmlookup (sv_clients ?s1) j = Some b" for j b
  proof (cases "j = i")
    case True
    then show ?thesis using that by (simp add: a' NewClientConn_def)
  next
    case False
    then have "fmlookup (sv_clients s) j = Some b" using that by simp
    then obtain cc1 where c1: "b \<in> live" "fmlookup (sv_cc s) b = Some cc1" "cc_clientID cc1 = j"
      using relay_invD(5) [OF inv] by blast
    then have "fmlookup (sv_cc ?s1) b = Some cc1" using ne [OF c1(2)] cc [of b] by simp
    then show ?thesis using c1 by blast
  qed
  have 7: "b < sv_next ?s1 \<and> int (mlen (cc_proxies cc1)) \<le> max 0 (MaxProxiesPerClient (sv_config s))"
    if "fmlookup (sv_cc ?s1) b = Some cc1" for b cc1
  proof (cases "b = a")
    case True
    then show ?thesis using that by (auto simp: a' NewClientConn_def)
  next
    case False
    then have "fmlookup (sv_cc s) b = Some cc1" using that cc [of b] by simp
    then show ?thesis using relay_invD(7,8) [OF inv] by (simp add: less_SucI)
  qed
  have 9: "p < sv_next ?s1" if "fmlookup (sv_px s) p = Some px" for p px
    using relay_invD(9) [OF inv that] by simp
  have "relay_inv (insert a live) X ?s1"
    unfolding relay_inv_def get own using relay_invD(1-4) [OF inv] 5 7 9 relay_invD(6) [OF inv] cc
    by simp
  then show ?thesis unfolding s' by (rule same_core_inv [OF same_core_resetHeartbeat])
qed

lemma relay_inv_alloc:
  assumes inv: "relay_inv live {} s" and a: "alloc_proxy info a s = (p, s')"
  shows "relay_inv live {p} s' \<and> fmlookup (sv_px s') p = Some (NewProxy info a) \<and>
    sv_cc s' = sv_cc s \<and> sv_config s' = sv_config s"
proof -
  have p: "p = sv_next s" and s': "s' = s\<lparr>sv_px := fmupd p (NewProxy info a) (sv_px s), sv_next := sv_next s + 1\<rparr>"
    using a by (auto simp: alloc_proxy_def)
  have get: "getProxy b n s' = getProxy b n s" for b n by (simp add: getProxy_def s')
  have old: "q \<noteq> p" if "fmlookup (sv_px s) q = Some px" for q px using relay_invD(9) [OF inv that] p by auto
  have 1: "\<exists>px. fmlookup (sv_px s') q = Some px \<and> normalizeEndpointHost (pi_Domain (px_info px)) = d \<and>
        validateEndpointDomain d = None \<and> (q \<in> {p} \<or> owned q (px_client px) px s')"
    if "fmlookup (sv_routes s) d = Some q" for d q
    using relay_invD(1) [OF inv that] old by (fastforce simp: s' owned_def getProxy_def)
  have 2: "q \<in> {p} \<or> owned q (px_client px) px s'" if "fmlookup (sv_px s') q = Some px" "px_listening px" for q px
    using that relay_invD(2) [OF inv, of q px] by (cases "q = p") (simp_all add: s' owned_def getProxy_def)
  have 4: "b \<in> live \<and> q \<notin> {p} \<and> (\<exists>px. fmlookup (sv_px s') q = Some px \<and> px_client px = b \<and> pi_ProxyName (px_info px) = n \<and>
        (normalizeEndpointHost (pi_Domain (px_info px)) \<noteq> [] \<longrightarrow>
           fmlookup (sv_routes s) (normalizeEndpointHost (pi_Domain (px_info px))) = Some q))"
    if g: "getProxy b n s = Some q" for b n q
  proof -
    obtain px where px: "fmlookup (sv_px s) q = Some px" "px_client px = b" "pi_ProxyName (px_info px) = n"
      "normalizeEndpointHost (pi_Domain (px_info px)) \<noteq> [] \<longrightarrow>
           fmlookup (sv_routes s) (normalizeEndpointHost (pi_Domain (px_info px))) = Some q"
      using relay_invD(4) [OF inv g] by blast
    then have "fmlookup (sv_px s') q = Some px" using old [OF px(1)] by (simp add: s')
    then show ?thesis using px old relay_invD(3) [OF inv g] by blast
  qed
  have 9: "q < sv_next s'" if "fmlookup (sv_px s') q = Some px" for q px
    using that relay_invD(9) [OF inv, of q px] by (cases "q = p") (simp_all add: s' p)
  have 7: "b < sv_next s'" if "fmlookup (sv_cc s) b = Some cc1" for b cc1
    using relay_invD(7) [OF inv that] by (simp add: s')
  have f: "sv_routes s' = sv_routes s" "sv_clients s' = sv_clients s" "sv_cc s' = sv_cc s" "sv_config s' = sv_config s"
    by (simp_all add: s')
  have "relay_inv live {p} s'"
    unfolding relay_inv_def get f using 1 2 4 relay_invD(5,6,8) [OF inv] 7 9 by blast
  then show ?thesis by (simp add: s')
qed

lemma relay_inv_route:
  assumes inv: "relay_inv live {p} s" and px: "fmlookup (sv_px s) p = Some px"
    and r: "registerEndpointRoute (pi_Domain (px_info px)) p s = (e, s')"
  shows "relay_inv live {p} s' \<and> sv_px s' = sv_px s \<and> sv_cc s' = sv_cc s \<and> sv_config s' = sv_config s \<and>
    (e = None \<longrightarrow> normalizeEndpointHost (pi_Domain (px_info px)) \<noteq> [] \<longrightarrow>
       fmlookup (sv_routes s') (normalizeEndpointHost (pi_Domain (px_info px))) = Some p)"
proof -
  let ?d = "normalizeEndpointHost (pi_Domain (px_info px))"
  consider "s' = s" "e \<noteq> None \<or> ?d = []"
    | "e = None" "validateEndpointDomain ?d = None" "s' = s\<lparr>sv_routes := fmupd ?d p (sv_routes s)\<rparr>"
      "\<forall>q. fmlookup (sv_routes s) ?d = Some q \<longrightarrow> q = p"
    using r by (auto simp: registerEndpointRoute_def Let_def split: if_splits option.splits)
  then show ?thesis
  proof cases
    case 1
    then show ?thesis using inv by auto
  next
    case 2
    have get: "getProxy b n s' = getProxy b n s" for b n by (simp add: getProxy_def 2(3))
    have own: "owned q b px s' = owned q b px s" for q b px by (simp only: owned_def get)
    have f: "sv_px s' = sv_px s" "sv_clients s' = sv_clients s" "sv_cc s' = sv_cc s" "sv_config s' = sv_config s"
      "sv_next s' = sv_next s" "sv_routes s' = fmupd ?d p (sv_routes s)" by (simp_all add: 2(3))
    have 1: "\<exists>px. fmlookup (sv_px s) q = Some px \<and> normalizeEndpointHost (pi_Domain (px_info px)) = d \<and>
        validateEndpointDomain d = None \<and> (q \<in> {p} \<or> owned q (px_client px) px s)"
      if "fmlookup (sv_routes s') d = Some q" for d q
      using that relay_invD(1) [OF inv, of d q] px 2(2) by (cases "d = ?d") (auto simp: f(6))
    have 4: "\<exists>px. fmlookup (sv_px s) q = Some px \<and> px_client px = b \<and> pi_ProxyName (px_info px) = n \<and>
        (normalizeEndpointHost (pi_Domain (px_info px)) \<noteq> [] \<longrightarrow>
           fmlookup (sv_routes s') (normalizeEndpointHost (pi_Domain (px_info px))) = Some q)"
      if g: "getProxy b n s = Some q" for b n q
    proof -
      obtain qx where qx: "fmlookup (sv_px s) q = Some qx" "px_client qx = b" "pi_ProxyName (px_info qx) = n"
        "normalizeEndpointHost (pi_Domain (px_info qx)) \<noteq> [] \<longrightarrow>
           fmlookup (sv_routes s) (normalizeEndpointHost (pi_Domain (px_info qx))) = Some q"
        using relay_invD(4) [OF inv g] by blast
      moreover have "q \<noteq> p" using relay_invD(3) [OF inv g] by blast
      ultimately have "normalizeEndpointHost (pi_Domain (px_info qx)) \<noteq> [] \<longrightarrow>
           fmlookup (sv_routes s') (normalizeEndpointHost (pi_Domain (px_info qx))) = Some q"
        using 2(4) by (auto simp: f(6))
      then show ?thesis using qx by blast
    qed
    have "relay_inv live {p} s'"
      unfolding relay_inv_def get own f(1-5)
      using 1 4 relay_invD(2,3,5-9) [OF inv] by blast
    then show ?thesis using f 2(1) by simp
  qed
qed

lemma relay_inv_publish:
  assumes inv: "relay_inv live {p} s" and px: "fmlookup (sv_px s) p = Some px"
    and px': "px_client px' = px_client px" "pi_ProxyName (px_info px') = pi_ProxyName (px_info px)"
      "pi_Domain (px_info px') = pi_Domain (px_info px)"
    and a: "px_client px = a" "a \<in> live" and cc: "fmlookup (sv_cc s) a = Some cc"
    and free: "fmlookup (cc_proxies cc) (pi_ProxyName (px_info px)) = None"
    and quota: "int (mlen (cc_proxies cc)) < MaxProxiesPerClient (sv_config s)"
    and pub: "normalizeEndpointHost (pi_Domain (px_info px)) \<noteq> [] \<longrightarrow>
      fmlookup (sv_routes s) (normalizeEndpointHost (pi_Domain (px_info px))) = Some p"
  shows "relay_inv live {} (upd_cc a (\<lambda>cc. cc\<lparr>cc_proxies := fmupd (pi_ProxyName (px_info px)) p (cc_proxies cc)\<rparr>) (upd_px p px' s))"
    (is "relay_inv live {} ?s")
proof -
  let ?n = "pi_ProxyName (px_info px)"
  let ?cc = "cc\<lparr>cc_proxies := fmupd ?n p (cc_proxies cc)\<rparr>"
  have f: "sv_px ?s = fmupd p px' (sv_px s)" "sv_cc ?s = fmupd a ?cc (sv_cc s)" "sv_routes ?s = sv_routes s"
    "sv_clients ?s = sv_clients s" "sv_next ?s = sv_next s" "sv_config ?s = sv_config s"
    using cc by (simp_all add: upd_cc_def upd_px_def)
  have get: "getProxy b n ?s = (if b = a \<and> n = ?n then Some p else getProxy b n s)" for b n
    using cc by (auto simp: getProxy_def f)
  have own: "owned q b qx ?s" if "owned q b qx s" for q b qx
    using that free cc by (auto simp: owned_def get) (simp add: getProxy_def)
  have ownp: "owned p (px_client px') px' ?s" using px' a by (simp add: owned_def get)
  have 1: "\<exists>px. fmlookup (sv_px ?s) q = Some px \<and> normalizeEndpointHost (pi_Domain (px_info px)) = d \<and>
        validateEndpointDomain d = None \<and> (q \<in> {} \<or> owned q (px_client px) px ?s)"
    if "fmlookup (sv_routes s) d = Some q" for d q
  proof (cases "q = p")
    case True
    then show ?thesis using relay_invD(1) [OF inv that] px px'(3) ownp by (auto simp: f(1))
  next
    case False
    then show ?thesis using relay_invD(1) [OF inv that] own by (auto simp: f(1))
  qed
  have 2: "q \<in> {} \<or> owned q (px_client qx) qx ?s" if "fmlookup (sv_px ?s) q = Some qx" "px_listening qx" for q qx
    using that relay_invD(2) [OF inv, of q qx] own ownp by (cases "q = p") (simp_all add: f(1))
  have 4: "b \<in> live \<and> q \<notin> {} \<and> (\<exists>px. fmlookup (sv_px ?s) q = Some px \<and> px_client px = b \<and> pi_ProxyName (px_info px) = n \<and>
        (normalizeEndpointHost (pi_Domain (px_info px)) \<noteq> [] \<longrightarrow>
           fmlookup (sv_routes s) (normalizeEndpointHost (pi_Domain (px_info px))) = Some q))"
    if g: "getProxy b n ?s = Some q" for b n q
  proof (cases "b = a \<and> n = ?n")
    case True
    then have "q = p" using g get by simp
    then show ?thesis using True px px' a pub by (simp add: f(1))
  next
    case False
    then have g': "getProxy b n s = Some q" using g unfolding get by (simp only: if_False)
    then have "q \<noteq> p" using relay_invD(3) [OF inv g'] by blast
    then show ?thesis using relay_invD(3) [OF inv g'] relay_invD(4) [OF inv g'] by (simp add: f(1))
  qed
  have 7: "b < sv_next s \<and> int (mlen (cc_proxies cc1)) \<le> max 0 (MaxProxiesPerClient (sv_config s))"
    if "fmlookup (sv_cc ?s) b = Some cc1" for b cc1
    using that relay_invD(7,8) [OF inv, of b] relay_invD(7) [OF inv cc] quota free
    by (cases "b = a") (auto simp: f(2))
  have 5: "b \<in> live \<and> (\<exists>cc. fmlookup (sv_cc ?s) b = Some cc \<and> cc_clientID cc = i)"
    if "fmlookup (sv_clients s) i = Some b" for i b
    using relay_invD(5) [OF inv that] cc by (cases "b = a") (auto simp: f(2))
  have 6: "fmlookup (sv_cc ?s) b \<noteq> None" if "b \<in> live" for b
    using relay_invD(6) [OF inv that] by (simp add: f(2))
  have 9: "q < sv_next s" if "fmlookup (sv_px ?s) q = Some qx" for q qx
    using that relay_invD(9) [OF inv, of q] px by (cases "q = p") (simp_all add: f(1))
  show ?thesis
    unfolding relay_inv_def f(3-6) using 1 2 4 5 6 7 9 by blast
qed

lemma relay_inv_unpublish:
  assumes inv: "relay_inv live X s" and cc: "fmlookup (sv_cc s) a = Some cc"
    and sub: "\<forall>n. fmlookup m n = None \<or> fmlookup m n = fmlookup (cc_proxies cc) n"
    and f: "\<And>cc. cc_clientID (f cc) = cc_clientID cc" and fm: "cc_proxies (f cc) = m"
    and size: "mlen m \<le> mlen (cc_proxies cc)"
  shows "relay_inv live (X \<union> {p. \<exists>n. fmlookup (cc_proxies cc) n = Some p \<and> fmlookup m n = None}) (upd_cc a f s)"
    (is "relay_inv live ?X ?s")
proof -
  have fl: "sv_px ?s = sv_px s" "sv_cc ?s = fmupd a (f cc) (sv_cc s)" "sv_routes ?s = sv_routes s"
    "sv_clients ?s = sv_clients s" "sv_next ?s = sv_next s" "sv_config ?s = sv_config s"
    using cc by (simp_all add: upd_cc_def)
  have get: "getProxy b n ?s = (if b = a then fmlookup m n else getProxy b n s)" for b n
    using getProxy_upd_cc [OF cc] fm by simp
  have ga: "getProxy a n s = fmlookup (cc_proxies cc) n" for n by (simp add: getProxy_def cc)
  have sub': "getProxy b n s = Some q" if "getProxy b n ?s = Some q" for b n q
    using that sub ga unfolding get by (metis option.distinct(1))
  have own: "q \<in> ?X \<or> owned q b qx ?s" if "q \<in> X \<or> owned q b qx s" for q b qx
    using that ga by (cases "b = a") (auto simp: owned_def get, metis sub)
  have 1: "\<exists>px. fmlookup (sv_px s) q = Some px \<and> normalizeEndpointHost (pi_Domain (px_info px)) = d \<and>
        validateEndpointDomain d = None \<and> (q \<in> ?X \<or> owned q (px_client px) px ?s)"
    if "fmlookup (sv_routes s) d = Some q" for d q
    using relay_invD(1) [OF inv that] own by blast
  have 2: "q \<in> ?X \<or> owned q (px_client qx) qx ?s" if "fmlookup (sv_px s) q = Some qx" "px_listening qx" for q qx
    using relay_invD(2) [OF inv that] own by blast
  have 3: "b \<in> live \<and> q \<notin> ?X" if g: "getProxy b n ?s = Some q" for b n q
  proof -
    note g' = sub' [OF g]
    obtain px where px: "fmlookup (sv_px s) q = Some px" "px_client px = b" "pi_ProxyName (px_info px) = n"
      using relay_invD(4) [OF inv g'] by blast
    have "fmlookup (cc_proxies cc) n' \<noteq> Some q \<or> fmlookup m n' \<noteq> None" for n'
    proof (rule ccontr)
      assume "\<not> ?thesis"
      then have c: "fmlookup (cc_proxies cc) n' = Some q" "fmlookup m n' = None" by simp_all
      then have "getProxy a n' s = Some q" by (simp add: ga)
      from relay_invD(4) [OF inv this] have "a = b" "n' = n" using px by auto
      then have "getProxy b n ?s = None" unfolding get using c(2) by simp
      then show False using g by simp
    qed
    then show ?thesis using relay_invD(3) [OF inv g'] by blast
  qed
  have 5: "b \<in> live \<and> (\<exists>cc. fmlookup (sv_cc ?s) b = Some cc \<and> cc_clientID cc = i)"
    if "fmlookup (sv_clients s) i = Some b" for i b
    using relay_invD(5) [OF inv that] cc f by (cases "b = a") (auto simp: fl(2))
  have 6: "fmlookup (sv_cc ?s) b \<noteq> None" if "b \<in> live" for b
    using relay_invD(6) [OF inv that] by (simp add: fl(2))
  have 7: "b < sv_next s \<and> int (mlen (cc_proxies cc1)) \<le> max 0 (MaxProxiesPerClient (sv_config s))"
    if "fmlookup (sv_cc ?s) b = Some cc1" for b cc1
  proof (cases "b = a")
    case True
    then have "cc1 = f cc" using that by (simp add: fl(2))
    then show ?thesis using True relay_invD(7,8) [OF inv cc] fm size by simp
  next
    case False
    then show ?thesis using that relay_invD(7,8) [OF inv, of b cc1] by (simp add: fl(2))
  qed
  show ?thesis
    unfolding relay_inv_def fl(1,3-6) using 1 2 3 relay_invD(4) [OF inv] sub' 5 6 7 relay_invD(9) [OF inv] by blast
qed

lemma stop_proxy_fields:
  "sv_cc (stop_proxy env p s) = sv_cc s" "sv_routes (stop_proxy env p s) = sv_routes s"
  "sv_clients (stop_proxy env p s) = sv_clients s" "sv_next (stop_proxy env p s) = sv_next s"
  "sv_config (stop_proxy env p s) = sv_config s" "sv_mesh (stop_proxy env p s) = sv_mesh s"
  "sv_proxies (stop_proxy env p s) = sv_proxies s"
  by (simp_all add: stop_proxy_def split: option.split prod.split)

lemma stop_proxy_px:
  "fmlookup (sv_px (stop_proxy env p s)) q =
     (if q = p then map_option (\<lambda>px. fst (proxy_Stop (range_keys env (px_pending px)) px (sv_chans s))) (fmlookup (sv_px s) p)
      else fmlookup (sv_px s) q)"
  by (auto simp: stop_proxy_def split: option.split prod.split)

lemma proxy_Stop_fields [simp]:
  "px_info (fst (proxy_Stop ks px H)) = px_info px" "px_client (fst (proxy_Stop ks px H)) = px_client px"
  "\<not> px_listening (fst (proxy_Stop ks px H))" "px_cancelled (fst (proxy_Stop ks px H))"
  by (simp_all add: proxy_Stop_def)

lemma unregisterEndpointRoute_fields [simp]:
  "sv_px (unregisterEndpointRoute d p s) = sv_px s" "sv_cc (unregisterEndpointRoute d p s) = sv_cc s"
  "sv_clients (unregisterEndpointRoute d p s) = sv_clients s" "sv_next (unregisterEndpointRoute d p s) = sv_next s"
  "sv_config (unregisterEndpointRoute d p s) = sv_config s" "sv_mesh (unregisterEndpointRoute d p s) = sv_mesh s"
  "sv_proxies (unregisterEndpointRoute d p s) = sv_proxies s" "sv_chans (unregisterEndpointRoute d p s) = sv_chans s"
  by (simp_all add: unregisterEndpointRoute_def Let_def)

lemma unregisterEndpointRoute_routes:
  "fmlookup (sv_routes (unregisterEndpointRoute d p s)) k =
     (if k = normalizeEndpointHost d \<and> k \<noteq> [] \<and> fmlookup (sv_routes s) k = Some p then None
      else fmlookup (sv_routes s) k)"
  by (auto simp: unregisterEndpointRoute_def Let_def)

lemma proxy_Snapshot_Domain [simp]: "pi_Domain (proxy_Snapshot px) = pi_Domain (px_info px)"
  by (simp add: proxy_Snapshot_def proxy_Stats_def)

lemma drop_proxy_fields:
  assumes "fmlookup (sv_px s) p = Some px"
  shows "sv_cc (drop_proxy env i n p s) = sv_cc s" "sv_clients (drop_proxy env i n p s) = sv_clients s"
    "sv_next (drop_proxy env i n p s) = sv_next s" "sv_config (drop_proxy env i n p s) = sv_config s"
    "sv_mesh (drop_proxy env i n p s) = sv_mesh s"
    "sv_routes (drop_proxy env i n p s) = sv_routes (unregisterEndpointRoute (pi_Domain (px_info px)) p s)"
    "fmlookup (sv_px (drop_proxy env i n p s)) q =
      (if q = p then Some (fst (proxy_Stop (range_keys env (px_pending px)) px (sv_chans s))) else fmlookup (sv_px s) q)"
  using assms by (simp_all add: drop_proxy_def unregisterProxy_def stop_proxy_fields stop_proxy_px)

lemma relay_inv_drop_proxy:
  assumes inv: "relay_inv live X s" and px: "fmlookup (sv_px s) p = Some px"
    and un: "\<And>a n. getProxy a n s \<noteq> Some p"
  shows "relay_inv live (X - {p}) (drop_proxy env i n p s)" (is "relay_inv live ?X ?s")
proof -
  note fl = drop_proxy_fields [OF px, of env i n]
  have get: "getProxy b k ?s = getProxy b k s" for b k by (simp add: getProxy_def fl(1))
  have own: "owned q b qx ?s = owned q b qx s" for q b qx by (simp only: owned_def get)
  have routes: "fmlookup (sv_routes s) d = Some q \<and> q \<noteq> p" if r: "fmlookup (sv_routes ?s) d = Some q" for d q
  proof -
    have r': "fmlookup (sv_routes s) d = Some q"
      using r unfolding fl(6) unregisterEndpointRoute_routes by (simp split: if_splits)
    have "q \<noteq> p"
    proof
      assume "q = p"
      then have "normalizeEndpointHost (pi_Domain (px_info px)) = d" "validateEndpointDomain d = None"
        using relay_invD(1) [OF inv r'] px by auto
      then show False
        using r r' \<open>q = p\<close> valid_nonempty [of d] unfolding fl(6) unregisterEndpointRoute_routes by simp
    qed
    then show ?thesis using r' by simp
  qed
  have 1: "\<exists>px. fmlookup (sv_px ?s) q = Some px \<and> normalizeEndpointHost (pi_Domain (px_info px)) = d \<and>
        validateEndpointDomain d = None \<and> (q \<in> ?X \<or> owned q (px_client px) px s)"
    if "fmlookup (sv_routes ?s) d = Some q" for d q
    using relay_invD(1) [OF inv, of d q] routes [OF that] by (auto simp: fl(7))
  have 2: "q \<in> ?X \<or> owned q (px_client qx) qx s" if "fmlookup (sv_px ?s) q = Some qx" "px_listening qx" for q qx
  proof -
    have "q \<noteq> p" using that by (auto simp: fl(7))
    then show ?thesis using that relay_invD(2) [OF inv, of q qx] by (simp add: fl(7))
  qed
  have 4: "\<exists>px. fmlookup (sv_px ?s) q = Some px \<and> px_client px = b \<and> pi_ProxyName (px_info px) = k \<and>
        (normalizeEndpointHost (pi_Domain (px_info px)) \<noteq> [] \<longrightarrow>
           fmlookup (sv_routes ?s) (normalizeEndpointHost (pi_Domain (px_info px))) = Some q)"
    if g: "getProxy b k s = Some q" for b k q
  proof -
    have "q \<noteq> p" using un g by auto
    then show ?thesis using relay_invD(4) [OF inv g] unfolding fl(6) unregisterEndpointRoute_routes fl(7) by auto
  qed
  have 9: "q < sv_next s" if "fmlookup (sv_px ?s) q = Some qx" for q qx
    using that relay_invD(9) [OF inv, of q] px by (cases "q = p") (auto simp: fl(7))
  show ?thesis
    unfolding relay_inv_def fl(1-4) get own
    using 1 2 4 9 relay_invD(3,5-8) [OF inv] by blast
qed

lemma getProxy_drop_proxy: "getProxy b k (drop_proxy env i n p s) = getProxy b k s"
  by (cases "fmlookup (sv_px s) p")
    (simp_all add: getProxy_def drop_proxy_def unregisterProxy_def stop_proxy_fields)

lemma drop_proxy_px_dom: "fmlookup (sv_px (drop_proxy env i n p s)) q = None \<longleftrightarrow> fmlookup (sv_px s) q = None"
  by (cases "fmlookup (sv_px s) p") (simp_all add: drop_proxy_def unregisterProxy_def stop_proxy_px)

lemma relay_inv_drop_proxies:
  assumes "relay_inv live X s" and "\<And>n p. fmlookup m n = Some p \<Longrightarrow> fmlookup (sv_px s) p \<noteq> None"
    and "\<And>a n k p. fmlookup m n = Some p \<Longrightarrow> getProxy a k s \<noteq> Some p"
  shows "relay_inv live (X - {p. \<exists>n \<in> set ns. fmlookup m n = Some p}) (drop_proxies env i m ns s)"
  using assms
proof (induction ns arbitrary: X s)
  case (Cons n ns)
  show ?case
  proof (cases "fmlookup m n")
    case None
    then have "{p. \<exists>k \<in> set (n # ns). fmlookup m k = Some p} = {p. \<exists>k \<in> set ns. fmlookup m k = Some p}" by auto
    then show ?thesis using Cons.IH [OF Cons.prems] None by simp
  next
    case (Some p)
    obtain px where px: "fmlookup (sv_px s) p = Some px" using Cons.prems(2) [OF Some] by blast
    have 1: "relay_inv live (X - {p}) (drop_proxy env i n p s)"
      by (rule relay_inv_drop_proxy [OF Cons.prems(1) px]) (rule Cons.prems(3) [OF Some])
    have "relay_inv live (X - {p} - {p. \<exists>n \<in> set ns. fmlookup m n = Some p}) (drop_proxies env i m ns (drop_proxy env i n p s))"
      by (rule Cons.IH [OF 1]) (use Cons.prems(2,3) in \<open>simp_all add: getProxy_drop_proxy drop_proxy_px_dom\<close>)
    moreover have "X - {p} - {p. \<exists>n \<in> set ns. fmlookup m n = Some p} = X - {p. \<exists>k \<in> set (n # ns). fmlookup m k = Some p}"
      using Some by auto
    ultimately show ?thesis using Some by simp
  qed
qed simp

lemma drop_proxies_fields:
  "sv_cc (drop_proxies env i m ns s) = sv_cc s" "sv_clients (drop_proxies env i m ns s) = sv_clients s"
proof (induction ns arbitrary: s)
  case (Cons n ns)
  have d: "sv_cc (drop_proxy env i n p s) = sv_cc s" "sv_clients (drop_proxy env i n p s) = sv_clients s" for p s
    by (cases "fmlookup (sv_px s) p"; simp add: drop_proxy_def unregisterProxy_def stop_proxy_fields)+
  { case 1 show ?case using Cons(1) by (simp split: option.split add: d) }
  { case 2 show ?case using Cons(2) by (simp split: option.split add: d) }
qed simp_all

section \<open>The handlers\<close>

lemma relay_inv_resp: "relay_inv live X s \<Longrightarrow> relay_inv live X (sendProxyResp env a n ok port url err s)"
  by (rule same_core_inv [OF same_core_sendProxyResp])

lemma relay_inv_start:
  assumes inv: "relay_inv live {p} s" and px: "fmlookup (sv_px s) p = Some px"
    and new: "px = NewProxy info a" and n: "np_ProxyName np = pi_ProxyName info"
    and a: "a \<in> live" and cc: "fmlookup (sv_cc s) a = Some cc"
    and free: "fmlookup (cc_proxies cc) (pi_ProxyName info) = None"
    and quota: "int (mlen (cc_proxies cc)) < MaxProxiesPerClient (sv_config s)"
    and pub: "normalizeEndpointHost (pi_Domain info) \<noteq> [] \<longrightarrow>
      fmlookup (sv_routes s) (normalizeEndpointHost (pi_Domain info)) = Some p"
  shows "relay_inv live {} (start_new_proxy env a np info p s)"
proof -
  have un: "getProxy b k s \<noteq> Some p" for b k using relay_invD(3) [OF inv, of b k p] by blast
  define st where "st = (if np_RemotePort np \<noteq> 0 \<or> pi_Domain info = []
                 then proxy_Start (env_listen env) (BindAddr (sv_config s)) px else (True, px))"
  obtain ok px' where o: "st = (ok, px')" by (cases st)
  have px': "px_client px' = px_client px" "pi_ProxyName (px_info px') = pi_ProxyName (px_info px)"
      "pi_Domain (px_info px') = pi_Domain (px_info px)" "\<not> ok \<Longrightarrow> px' = px"
    using o by (auto simp: st_def proxy_Start_def split: if_splits option.splits)
  have info: "px_info px = info" "px_client px = a" "\<not> px_listening px" by (simp_all add: new NewProxy_def)
  show ?thesis
  proof (cases ok)
    case True
    let ?s = "upd_cc a (\<lambda>cc. cc\<lparr>cc_proxies := fmupd (np_ProxyName np) p (cc_proxies cc)\<rparr>) (upd_px p px' s)"
    have nn: "pi_ProxyName (px_info px) = np_ProxyName np" using n info by simp
    have "relay_inv live {} ?s"
      by (rule relay_inv_publish [OF inv px px'(1-3) info(2) a cc, unfolded nn])
        (use free quota pub info n in simp_all)
    moreover have "relay_inv live {} (registerProxy k p ?s)" if "relay_inv live {} ?s" for k
      by (rule same_core_inv [OF _ that]) (simp add: same_core_def registerProxy_def)
    moreover have "start_new_proxy env a np info p s =
       (let s = (case fmlookup (sv_cc ?s) a of None \<Rightarrow> ?s
                 | Some cc \<Rightarrow> registerProxy (proxy_key (cc_clientID cc) (np_ProxyName np)) p ?s)
        in sendProxyResp env a (np_ProxyName np) True (pi_RemotePort (px_info px')) (pi_PublicURL info) [] s)"
      unfolding start_new_proxy_def px option.case st_def [symmetric] o by (simp add: True Let_def)
    ultimately show ?thesis by (auto simp: Let_def intro!: relay_inv_resp split: option.split)
  next
    case False
    let ?s = "if pi_Domain info \<noteq> [] then unregisterEndpointRoute (pi_Domain info) p s else s"
    have "relay_inv live ({p} - {p}) ?s"
    proof -
      have eq: "fmlookup (sv_routes ?s) d =
          (if fmlookup (sv_routes s) d = Some p then None else fmlookup (sv_routes s) d)" for d
      proof (cases "fmlookup (sv_routes s) d = Some p")
        case True
        then have d: "normalizeEndpointHost (pi_Domain info) = d" "validateEndpointDomain d = None"
          using relay_invD(1) [OF inv True] px info by auto
        have e: "pi_Domain info \<noteq> []"
        proof
          assume z: "pi_Domain info = []"
          have "normalizeEndpointHost [] = []" by code_simp
          then show False using d valid_nonempty [of d] z by simp
        qed
        have "d \<noteq> []" by (rule valid_nonempty [OF d(2)])
        then show ?thesis using True d e by (simp add: unregisterEndpointRoute_routes)
      next
        case False
        then show ?thesis by (simp add: unregisterEndpointRoute_routes)
      qed
      have fl: "sv_px ?s = sv_px s" "sv_cc ?s = sv_cc s" "sv_clients ?s = sv_clients s" "sv_next ?s = sv_next s"
        "sv_config ?s = sv_config s" by simp_all
      have get: "getProxy b k ?s = getProxy b k s" for b k by (simp only: getProxy_def fl)
      have own: "owned q b qx ?s = owned q b qx s" for q b qx by (simp only: owned_def get)
      have 1: "\<exists>px. fmlookup (sv_px s) q = Some px \<and> normalizeEndpointHost (pi_Domain (px_info px)) = d \<and>
          validateEndpointDomain d = None \<and> (q \<in> {p} - {p} \<or> owned q (px_client px) px s)"
        if "fmlookup (sv_routes ?s) d = Some q" for d q
        using relay_invD(1) [OF inv, of d q] that eq [of d] by (auto split: if_splits)
      have 2: "q \<in> {p} - {p} \<or> owned q (px_client qx) qx s" if "fmlookup (sv_px s) q = Some qx" "px_listening qx" for q qx
        using relay_invD(2) [OF inv that] that px info by auto
      have 4: "\<exists>px. fmlookup (sv_px s) q = Some px \<and> px_client px = b \<and> pi_ProxyName (px_info px) = k \<and>
        (normalizeEndpointHost (pi_Domain (px_info px)) \<noteq> [] \<longrightarrow>
           fmlookup (sv_routes ?s) (normalizeEndpointHost (pi_Domain (px_info px))) = Some q)"
        if g: "getProxy b k s = Some q" for b k q
      proof -
        have "q \<noteq> p" using un g by auto
        then show ?thesis using relay_invD(4) [OF inv g] eq by auto
      qed
      show ?thesis
        unfolding relay_inv_def get own fl
        using 1 2 4 relay_invD(3,5-9) [OF inv] by blast
    qed
    then have "relay_inv live {} ?s" by simp
    moreover have "start_new_proxy env a np info p s = sendProxyResp env a (np_ProxyName np) False 0 [] ''failed to listen'' ?s"
      unfolding start_new_proxy_def px option.case st_def [symmetric] o by (simp add: False)
    ultimately show ?thesis by (simp add: relay_inv_resp)
  qed
qed

lemma relay_inv_abort:
  assumes inv: "relay_inv live {p} s" and px: "fmlookup (sv_px s) p = Some px" "\<not> px_listening px"
    and nr: "\<And>d. fmlookup (sv_routes s) d \<noteq> Some p"
  shows "relay_inv live {} s"
proof -
  have 1: "\<exists>px. fmlookup (sv_px s) q = Some px \<and> normalizeEndpointHost (pi_Domain (px_info px)) = d \<and>
      validateEndpointDomain d = None \<and> (q \<in> {} \<or> owned q (px_client px) px s)"
    if "fmlookup (sv_routes s) d = Some q" for d q
    using relay_invD(1) [OF inv that] nr [of d] that by auto
  have 2: "q \<in> {} \<or> owned q (px_client qx) qx s" if "fmlookup (sv_px s) q = Some qx" "px_listening qx" for q qx
    using relay_invD(2) [OF inv that] that px by auto
  show ?thesis
    unfolding relay_inv_def using 1 2 relay_invD(3-9) [OF inv] by blast
qed

lemma relay_inv_handleNewProxy:
  assumes inv: "relay_inv live {} s" and a: "a \<in> live"
  shows "relay_inv live {} (handleNewProxy env a msg s)"
proof (cases "\<exists>np cc expires. DecodePayload (env_unmarshal env) msg = Inr (Some (PNewProxy np)) \<and>
    fmlookup (sv_cc s) a = Some cc \<and> int (mlen (cc_proxies cc)) < MaxProxiesPerClient (sv_config s) \<and>
    fmlookup (cc_proxies cc) (np_ProxyName np) = None \<and>
    (if trim_space (np_ExpiresAt np) = [] then Some 0 else env_parse_time env (trim_space (np_ExpiresAt np))) = Some expires")
  case False
  then show ?thesis
    unfolding handleNewProxy_def Let_def
    by (auto simp: inv not_less intro!: relay_inv_resp
        split: sum.split option.split payload.split prod.split)
next
  case True
  then obtain np cc expires where m: "DecodePayload (env_unmarshal env) msg = Inr (Some (PNewProxy np))"
      and cc: "fmlookup (sv_cc s) a = Some cc" and quota: "int (mlen (cc_proxies cc)) < MaxProxiesPerClient (sv_config s)"
      and free: "fmlookup (cc_proxies cc) (np_ProxyName np) = None"
      and ex: "(if trim_space (np_ExpiresAt np) = [] then Some 0 else env_parse_time env (trim_space (np_ExpiresAt np))) = Some expires"
    by blast
  define info where "info = new_proxy_info (sv_config s) np expires"
  obtain p s1 where al: "alloc_proxy info a s = (p, s1)" by fastforce
  note s1 = relay_inv_alloc [OF inv al]
  have n: "np_ProxyName np = pi_ProxyName info" by (simp add: info_def new_proxy_info_def Let_def)
  have eq: "handleNewProxy env a msg s =
     (if pi_Domain info \<noteq> [] then
        (case registerEndpointRoute (pi_Domain info) p s1 of
           (Some e, s) \<Rightarrow> sendProxyResp env a (np_ProxyName np) False 0 [] (route_error_text e) s
         | (None, s) \<Rightarrow> start_new_proxy env a np info p s)
      else start_new_proxy env a np info p s1)"
    unfolding handleNewProxy_def Let_def m cc prod.case sum.case option.case payload.case ex info_def [symmetric] al
    using quota free by simp
  have info: "px_info (NewProxy info a) = info" by (simp add: NewProxy_def)
  have nil: "normalizeEndpointHost [] = []" by code_simp
  show ?thesis
  proof (cases "pi_Domain info = []")
    case True
    have "relay_inv live {} (start_new_proxy env a np info p s1)"
      by (rule relay_inv_start [OF _ _ refl n a, of p s1 cc])
        (use s1 cc quota free n True nil in auto)
    then show ?thesis unfolding eq using True by simp
  next
    case False
    obtain e s2 where r: "registerEndpointRoute (pi_Domain info) p s1 = (e, s2)" by fastforce
    have s2: "relay_inv live {p} s2 \<and> sv_px s2 = sv_px s1 \<and> sv_cc s2 = sv_cc s1 \<and> sv_config s2 = sv_config s1 \<and>
      (e = None \<longrightarrow> normalizeEndpointHost (pi_Domain info) \<noteq> [] \<longrightarrow>
       fmlookup (sv_routes s2) (normalizeEndpointHost (pi_Domain info)) = Some p)"
      using relay_inv_route [of live p s1 "NewProxy info a" e s2] s1 r info by simp
    show ?thesis
    proof (cases e)
      case None
      have "relay_inv live {} (start_new_proxy env a np info p s2)"
        by (rule relay_inv_start [OF _ _ refl n a, of p s2 cc])
          (use s1 s2 cc quota free n None in auto)
      then show ?thesis unfolding eq using False r None by simp
    next
      case (Some err)
      have "s2 = s1" using r Some by (auto simp: registerEndpointRoute_def Let_def split: if_splits option.splits)
      then have i: "relay_inv live {p} s1" "fmlookup (sv_px s1) p = Some (NewProxy info a)" using s1 by auto
      have noroute: "fmlookup (sv_routes s1) d \<noteq> Some p" for d
      proof -
        have "sv_routes s1 = sv_routes s" using al by (auto simp: alloc_proxy_def)
        moreover have "p = sv_next s" using al by (auto simp: alloc_proxy_def)
        ultimately show ?thesis using relay_invD(1) [OF inv, of d p] relay_invD(9) [OF inv, of p] by auto
      qed
      have "relay_inv live {} s1"
        by (rule relay_inv_abort [OF i(1,2)]) (simp_all add: NewProxy_def noroute)
      then show ?thesis unfolding eq using False r Some \<open>s2 = s1\<close> by (simp add: relay_inv_resp)
    qed
  qed
qed

lemma relay_inv_handleCloseProxy:
  assumes inv: "relay_inv live {} s"
  shows "relay_inv live {} (handleCloseProxy env a msg s)"
proof (cases "\<exists>cp cc p. DecodePayload (env_unmarshal env) msg = Inr (Some (PCloseProxy cp)) \<and>
    fmlookup (sv_cc s) a = Some cc \<and> fmlookup (cc_proxies cc) (cp_ProxyName cp) = Some p")
  case False
  then show ?thesis
    unfolding handleCloseProxy_def by (auto simp: inv split: sum.split option.split payload.split)
next
  case True
  then obtain cp cc p where m: "DecodePayload (env_unmarshal env) msg = Inr (Some (PCloseProxy cp))"
      and cc: "fmlookup (sv_cc s) a = Some cc" and p: "fmlookup (cc_proxies cc) (cp_ProxyName cp) = Some p" by blast
  let ?n = "cp_ProxyName cp"
  let ?s = "upd_cc a (\<lambda>cc. cc\<lparr>cc_proxies := fmdrop ?n (cc_proxies cc)\<rparr>) s"
  have g: "getProxy a ?n s = Some p" by (simp add: getProxy_def cc p)
  obtain px where px: "fmlookup (sv_px s) p = Some px" "px_client px = a" "pi_ProxyName (px_info px) = ?n"
    using relay_invD(4) [OF inv g] by blast
  let ?cc = "cc\<lparr>cc_proxies := fmdrop ?n (cc_proxies cc)\<rparr>"
  have eqs: "?s = upd_cc a (\<lambda>_. ?cc) s" using cc by (simp add: upd_cc_def)
  have "{q. \<exists>k. fmlookup (cc_proxies cc) k = Some q \<and> fmlookup (fmdrop ?n (cc_proxies cc)) k = None} = {p}"
    using p by (auto split: if_splits)
  moreover have "relay_inv live ({} \<union> {q. \<exists>k. fmlookup (cc_proxies cc) k = Some q \<and> fmlookup (fmdrop ?n (cc_proxies cc)) k = None}) ?s"
    by (rule relay_inv_unpublish [OF inv cc]) (auto simp: mlen_fmdrop)
  ultimately have i: "relay_inv live {p} ?s" by simp
  have px': "fmlookup (sv_px ?s) p = Some px" using px cc by (simp add: upd_cc_def)
  have "relay_inv live ({p} - {p}) (drop_proxy env (cc_clientID cc) ?n p ?s)"
    by (rule relay_inv_drop_proxy [OF i px']) (use relay_invD(3) [OF i] in blast)
  then show ?thesis using m cc p by (simp add: handleCloseProxy_def)
qed

lemma relay_inv_removeClient:
  assumes inv: "relay_inv live {} s" and cc: "fmlookup (sv_cc s) a = Some cc"
    and e: "cc_proxies cc = fmempty" and i: "cc_clientID cc = i"
  shows "relay_inv (live - {a}) {} (removeClient i s)" (is "relay_inv _ _ ?s")
proof -
  have f: "sv_px ?s = sv_px s" "sv_cc ?s = sv_cc s" "sv_routes ?s = sv_routes s" "sv_next ?s = sv_next s"
    "sv_config ?s = sv_config s" by (simp_all add: removeClient_def)
  have get: "getProxy b n ?s = getProxy b n s" for b n by (simp only: getProxy_def f)
  have own: "owned q b qx ?s = owned q b qx s" for q b qx by (simp only: owned_def get)
  have na: "getProxy a n s = None" for n by (simp add: getProxy_def cc e)
  have 3: "b \<in> live - {a} \<and> q \<notin> {}" if "getProxy b n s = Some q" for b n q
    using relay_invD(3) [OF inv that] na that by auto
  have 5: "b \<in> live - {a} \<and> (\<exists>cc. fmlookup (sv_cc s) b = Some cc \<and> cc_clientID cc = j)"
    if "fmlookup (sv_clients ?s) j = Some b" for j b
  proof -
    have j: "fmlookup (sv_clients s) j = Some b" "j \<noteq> i" using that by (auto simp: removeClient_def split: if_splits)
    then show ?thesis using relay_invD(5) [OF inv j(1)] cc i by auto
  qed
  show ?thesis
    unfolding relay_inv_def f get own
    using 3 5 relay_invD(1,2,4,6-9) [OF inv] by blast
qed

lemma range_keys_set: "env_ok env \<Longrightarrow> range_order m (range_keys env m)"
  by (simp add: env_ok_def range_keys_def range_order_def)

lemma relay_inv_cleanup:
  assumes inv: "relay_inv live {} s" and env: "env_ok env" and a: "a \<in> live"
  shows "relay_inv (live - {a}) {} (cleanup env a s)"
proof -
  obtain cc where cc: "fmlookup (sv_cc s) a = Some cc" using relay_invD(6) [OF inv a] by blast
  let ?m = "cc_proxies cc" and ?i = "cc_clientID cc"
  let ?f = "\<lambda>cc. cc\<lparr>cc_deadline := None, cc_cancelled := True, cc_proxies := fmempty\<rparr>"
  let ?s1 = "upd_cc a ?f s"
  let ?s2 = "drop_proxies env ?i ?m (range_keys env ?m) ?s1"
  let ?s3 = "unregisterMeshPeer env ?i ?s2"
  have eq: "cleanup env a s = upd_cc a (\<lambda>cc. cc\<lparr>cc_conn := Conn_Close (cc_conn cc)\<rparr>) (removeClient ?i ?s3)"
    by (simp add: cleanup_def cc Let_def)
  let ?X = "{p. \<exists>n. fmlookup ?m n = Some p}"
  have "relay_inv live ({} \<union> {p. \<exists>n. fmlookup ?m n = Some p \<and> fmlookup (fmempty :: (string, nat) fmap) n = None}) ?s1"
    by (rule relay_inv_unpublish [OF inv cc, where f = ?f and m = fmempty]) simp_all
  then have i1: "relay_inv live ?X ?s1" by simp
  have "relay_inv live (?X - {p. \<exists>n \<in> set (range_keys env ?m). fmlookup ?m n = Some p}) ?s2"
  proof (rule relay_inv_drop_proxies [OF i1])
    fix n p assume n: "fmlookup ?m n = Some p"
    then have "getProxy a n s = Some p" by (simp add: getProxy_def cc)
    then show "fmlookup (sv_px ?s1) p \<noteq> None"
      using relay_invD(4) [OF inv] by (fastforce simp: upd_cc_def split: option.split)
  next
    fix b n k p assume n: "fmlookup ?m n = Some p"
    show "getProxy b k ?s1 \<noteq> Some p" using relay_invD(3) [OF i1, of b k p] n by blast
  qed
  moreover have "?X - {p. \<exists>n \<in> set (range_keys env ?m). fmlookup ?m n = Some p} = {}"
    using range_order_set [OF range_keys_set [OF env, of ?m]] by fastforce
  ultimately have i2: "relay_inv live {} ?s2" by simp
  have i3: "relay_inv live {} ?s3" by (rule same_core_inv [OF same_core_unregisterMeshPeer i2])
  have sc: "same_core ?s2 ?s3" by (rule same_core_unregisterMeshPeer)
  have "fmlookup (sv_cc ?s2) a = Some (?f cc)" by (simp add: drop_proxies_fields upd_cc_def cc)
  then obtain cc3 where cc3: "fmlookup (sv_cc ?s3) a = Some cc3" "cc_clientID cc3 = ?i" "cc_proxies cc3 = fmempty"
    using same_core_cc [OF same_core_sym [OF sc]] by fastforce
  have "relay_inv (live - {a}) {} (removeClient ?i ?s3)"
    by (rule relay_inv_removeClient [OF i3 cc3(1,3,2)])
  then show ?thesis unfolding eq by (rule same_core_inv [rotated]) (rule same_core_upd_cc, simp add: cc_core_def)
qed

lemma relay_inv_read_loop_step:
  assumes inv: "relay_inv live {} s" and a: "a \<in> live"
  shows "relay_inv live {} (snd (read_loop_step env a now msg s))"
proof -
  let ?s = "resetHeartbeat a now (markSeen a now s)"
  have i: "relay_inv live {} ?s"
    by (rule same_core_inv [OF same_core_resetHeartbeat same_core_inv [OF same_core_markSeen inv]])
  have hb: "relay_inv live {} s'" if "cc_write a NewHeartbeatResp ?s = (e, s')" for e s'
    by (rule same_core_inv [OF same_core_cc_write' [OF that] i])
  obtain e s' where w: "cc_write a NewHeartbeatResp ?s = (e, s')" by fastforce
  show ?thesis
    unfolding read_loop_step_def Let_def w prod.case
    using i hb [OF w] relay_inv_handleNewProxy [OF i a] relay_inv_handleCloseProxy [OF i]
      same_core_inv [OF same_core_forward i] same_core_inv [OF same_core_handleMeshJoin i]
      same_core_inv [OF same_core_handleMeshLeave i]
    by (simp only: snd_conv split: if_split) blast
qed

lemma stop_proxy_inv:
  assumes inv: "relay_inv live X s"
  shows "relay_inv live X (stop_proxy env p s)"
proof (cases "fmlookup (sv_px s) p")
  case None
  then show ?thesis using inv by (simp add: stop_proxy_def)
next
  case (Some px0)
  let ?s = "stop_proxy env p s"
  note f = stop_proxy_fields [of env p s]
  have get: "getProxy b n ?s = getProxy b n s" for b n by (simp only: getProxy_def f)
  have own: "owned q b qx ?s \<longleftrightarrow> owned q b qx' s" if "px_info qx = px_info qx'" for q b qx qx'
    using that by (simp only: owned_def get)
  have fw: "\<exists>px'. fmlookup (sv_px ?s) q = Some px' \<and> px_client px' = px_client px \<and> px_info px' = px_info px"
    if "fmlookup (sv_px s) q = Some px" for q px
    using that by (auto simp: stop_proxy_px)
  have bw: "\<exists>px. fmlookup (sv_px s) q = Some px \<and> px_client px' = px_client px \<and> px_info px' = px_info px \<and>
      (px_listening px' \<longrightarrow> px_listening px)"
    if "fmlookup (sv_px ?s) q = Some px'" for q px'
    using that by (auto simp: stop_proxy_px split: if_splits)
  have 1: "\<exists>px. fmlookup (sv_px ?s) q = Some px \<and> normalizeEndpointHost (pi_Domain (px_info px)) = d \<and>
        validateEndpointDomain d = None \<and> (q \<in> X \<or> owned q (px_client px) px ?s)"
    if "fmlookup (sv_routes s) d = Some q" for d q
    using relay_invD(1) [OF inv that] fw own by metis
  have 2: "q \<in> X \<or> owned q (px_client qx) qx ?s" if "fmlookup (sv_px ?s) q = Some qx" "px_listening qx" for q qx
    using bw [OF that(1)] that(2) relay_invD(2) [OF inv] own by metis
  have 4: "\<exists>px. fmlookup (sv_px ?s) q = Some px \<and> px_client px = b \<and> pi_ProxyName (px_info px) = n \<and>
        (normalizeEndpointHost (pi_Domain (px_info px)) \<noteq> [] \<longrightarrow>
           fmlookup (sv_routes s) (normalizeEndpointHost (pi_Domain (px_info px))) = Some q)"
    if "getProxy b n s = Some q" for b n q
    using relay_invD(4) [OF inv that] fw by metis
  have 9: "q < sv_next s" if "fmlookup (sv_px ?s) q = Some qx" for q qx
    using bw [OF that] relay_invD(9) [OF inv] by blast
  show ?thesis
    unfolding relay_inv_def f(1-5) get using 1 2 4 9 relay_invD(3,5-8) [OF inv] by blast
qed

lemma relay_inv_shutdown:
  assumes "relay_inv live {} s"
  shows "relay_inv live {} (Shutdown env s)"
proof -
  have c: "relay_inv live {} (close_clients as s)" if "relay_inv live {} s" for "as" s
    using that by (induction "as" arbitrary: s) (auto intro: same_core_inv [OF same_core_close_client])
  have p: "relay_inv live {} (stop_proxies env ps s)" if "relay_inv live {} s" for ps s
    using that by (induction ps arbitrary: s) (auto intro: stop_proxy_inv)
  have "relay_inv live {} (s\<lparr>sv_cancelled := True\<rparr>)"
    by (rule same_core_inv [OF _ assms]) (simp add: same_core_def)
  then show ?thesis unfolding Shutdown_def Let_def by (intro p c)
qed

section \<open>The server over time\<close>

text \<open>
  The state of the relay as a whole: the server, the connections between the two halves of
  \<open>handleControlConn\<close>, and the addresses of the clients whose read loop runs. A read loop ends
  with \<open>cleanup\<close>, when it answers a message with failure or when its connection fails.
\<close>

record World =
  w_sv :: Server
  w_auth :: "(string \<times> Conn) list"
  w_live :: "nat set"

inductive relay_step :: "World \<Rightarrow> World \<Rightarrow> bool" where
  r_auth: "env_ok env \<Longrightarrow> auth_check env msg c (w_sv w) = (Some i, c') \<Longrightarrow>
     relay_step w (w\<lparr>w_auth := (i, c') # w_auth w\<rparr>)"
| r_accept: "(i, c) \<in> set (w_auth w) \<Longrightarrow> accept_client i c remote now (w_sv w) = (a, s) \<Longrightarrow>
     relay_step w (w\<lparr>w_sv := s, w_auth := remove1 (i, c) (w_auth w), w_live := insert a (w_live w)\<rparr>)"
| r_message: "env_ok env \<Longrightarrow> a \<in> w_live w \<Longrightarrow> read_loop_step env a now msg (w_sv w) = (True, s) \<Longrightarrow>
     relay_step w (w\<lparr>w_sv := s\<rparr>)"
| r_message_end: "env_ok env \<Longrightarrow> a \<in> w_live w \<Longrightarrow> read_loop_step env a now msg (w_sv w) = (False, s) \<Longrightarrow>
     relay_step w (w\<lparr>w_sv := cleanup env a s, w_live := w_live w - {a}\<rparr>)"
| r_disconnect: "env_ok env \<Longrightarrow> a \<in> w_live w \<Longrightarrow>
     relay_step w (w\<lparr>w_sv := cleanup env a (w_sv w), w_live := w_live w - {a}\<rparr>)"
| r_expire: "relay_step w (w\<lparr>w_sv := heartbeat_expire a (w_sv w)\<rparr>)"
| r_admin: "relay_step w (w\<lparr>w_sv := snd (DisconnectClient i (w_sv w))\<rparr>)"
| r_work: "env_ok env \<Longrightarrow> relay_step w (w\<lparr>w_sv := snd (handleWorkConnStream env msg k (w_sv w))\<rparr>)"
| r_open: "env_ok env \<Longrightarrow> relay_step w (w\<lparr>w_sv := snd (open_work_conn env p sid (w_sv w))\<rparr>)"
| r_gateway: "relay_step w (w\<lparr>w_sv := (w_sv w)\<lparr>sv_policies := P, sv_logs := L\<rparr>\<rparr>)"
| r_session: "fmlookup (sv_px (w_sv w)) p = Some px \<Longrightarrow>
     relay_step w (w\<lparr>w_sv := upd_px p (onSessionComplete i j px) (w_sv w)\<rparr>)"
| r_shutdown: "env_ok env \<Longrightarrow> relay_step w (w\<lparr>w_sv := Shutdown env (w_sv w)\<rparr>)"

inductive relay_reach :: "Config \<Rightarrow> World \<Rightarrow> bool" for cfg where
  rr_init: "relay_reach cfg \<lparr>w_sv = NewServer cfg, w_auth = [], w_live = {}\<rparr>"
| rr_step: "relay_reach cfg w \<Longrightarrow> relay_step w w' \<Longrightarrow> relay_reach cfg w'"

lemma relay_inv_init: "relay_inv {} {} (NewServer cfg)"
  by (simp add: relay_inv_def NewServer_def getProxy_def)

lemma relay_step_inv:
  assumes "relay_step w w'" and inv: "relay_inv (w_live w) {} (w_sv w)"
  shows "relay_inv (w_live w') {} (w_sv w')"
  using assms(1)
proof (cases rule: relay_step.cases)
  case (r_message env a now msg s)
  then show ?thesis using relay_inv_read_loop_step [OF inv r_message(3), of env now msg] by simp
next
  case (r_message_end env a now msg s)
  then show ?thesis
    using relay_inv_cleanup [OF relay_inv_read_loop_step [OF inv r_message_end(3), of env now msg] r_message_end(2,3)] by simp
next
  case (r_gateway L P)
  have "same_core (w_sv w) ((w_sv w)\<lparr>sv_policies := P, sv_logs := L\<rparr>)" by (simp add: same_core_def)
  then show ?thesis using same_core_inv [OF _ inv] r_gateway by simp
next
  case (r_session p px i j)
  have "same_core (w_sv w) (upd_px p (onSessionComplete i j px) (w_sv w))"
    using r_session by (auto simp: same_core_def upd_px_def onSessionComplete_def px_core_def)
  then show ?thesis using same_core_inv [OF _ inv] r_session by simp
qed (use inv in \<open>auto intro: relay_inv_accept relay_inv_cleanup relay_inv_shutdown
      same_core_inv [OF same_core_heartbeat_expire] same_core_inv [OF same_core_disconnect]
      same_core_inv [OF same_core_work] same_core_inv [OF same_core_open]\<close>)

lemma relay_reach_inv: "relay_reach cfg w \<Longrightarrow> relay_inv (w_live w) {} (w_sv w)"
  by (induction rule: relay_reach.induct) (auto intro: relay_inv_init relay_step_inv)

end
