(* ===== verification/Relay_Props.thy ===== *)
theory Relay_Props
  imports Relay_Inv
begin

text \<open>
  The properties of the relay's client connections, over the invariant of \<open>Relay_Inv\<close>.
\<close>

section \<open>Lemmas\<close>

lemma cc_write_other: "b \<noteq> a \<Longrightarrow> fmlookup (sv_cc (snd (cc_write a m s))) b = fmlookup (sv_cc s) b"
  by (simp add: cc_write_def split: option.split prod.split)

lemma cc_write_mesh [simp]: "sv_mesh (snd (cc_write a m s)) = sv_mesh s"
  by (simp add: cc_write_def split: option.split prod.split)

lemma send_members_mesh [simp]: "sv_mesh (send_members is m s) = sv_mesh s"
  by (induction "is" m s rule: send_members.induct) (simp_all split: option.split)

lemma broadcast_mesh [simp]: "sv_mesh (broadcastMeshPeerList env s) = sv_mesh s"
  by (simp add: broadcastMeshPeerList_def Let_def split: sum.split)

lemma cc_write_sends:
  assumes "fmlookup (sv_cc s) a = Some cc" and "\<not> closed (cc_conn cc)" and "\<not> wfail (cc_conn cc)"
    and "sendable m"
  shows "cc_write a m s = (None, s\<lparr>sv_cc := fmupd a (cc\<lparr>cc_conn := (cc_conn cc)\<lparr>wr := wr (cc_conn cc) @ frame m\<rparr>\<rparr>) (sv_cc s)\<rparr>)"
  using assms conn_sink_writes [of m "cc_conn cc"] by (simp add: cc_write_def)

lemma drop_proxy_routes:
  assumes inv: "relay_inv live X s" and px: "fmlookup (sv_px s) p = Some px"
  shows "fmlookup (sv_routes (drop_proxy env i n p s)) d =
    (if fmlookup (sv_routes s) d = Some p then None else fmlookup (sv_routes s) d)"
proof (cases "fmlookup (sv_routes s) d = Some p")
  case True
  then have "normalizeEndpointHost (pi_Domain (px_info px)) = d" "validateEndpointDomain d = None"
    using relay_invD(1) [OF inv True] px by auto
  then show ?thesis
    using True valid_nonempty [of d] by (simp add: drop_proxy_fields(6) [OF px] unregisterEndpointRoute_routes)
next
  case False
  then show ?thesis by (simp add: drop_proxy_fields(6) [OF px] unregisterEndpointRoute_routes)
qed

lemma drop_proxies_routes:
  assumes "relay_inv live X s" and "\<And>n p. fmlookup m n = Some p \<Longrightarrow> fmlookup (sv_px s) p \<noteq> None"
    and "\<And>a n k p. fmlookup m n = Some p \<Longrightarrow> getProxy a k s \<noteq> Some p"
  shows "fmlookup (sv_routes (drop_proxies env i m ns s)) d =
    (if \<exists>n \<in> set ns. fmlookup m n \<noteq> None \<and> fmlookup m n = fmlookup (sv_routes s) d then None
     else fmlookup (sv_routes s) d)"
  using assms
proof (induction ns arbitrary: X s)
  case (Cons n ns)
  show ?case
  proof (cases "fmlookup m n")
    case None
    then show ?thesis using Cons.IH [OF Cons.prems] by simp
  next
    case (Some p)
    obtain px where px: "fmlookup (sv_px s) p = Some px" using Cons.prems(2) [OF Some] by blast
    have 1: "relay_inv live (X - {p}) (drop_proxy env i n p s)"
      by (rule relay_inv_drop_proxy [OF Cons.prems(1) px]) (rule Cons.prems(3) [OF Some])
    have "fmlookup (sv_routes (drop_proxies env i m ns (drop_proxy env i n p s))) d =
      (if \<exists>n' \<in> set ns. fmlookup m n' \<noteq> None \<and> fmlookup m n' = fmlookup (sv_routes (drop_proxy env i n p s)) d then None
       else fmlookup (sv_routes (drop_proxy env i n p s)) d)"
      by (rule Cons.IH [OF 1]) (use Cons.prems(2,3) in \<open>simp_all add: getProxy_drop_proxy drop_proxy_px_dom\<close>)
    then show ?thesis using Some by (auto simp: drop_proxy_routes [OF Cons.prems(1) px])
  qed
qed simp

lemma same_core_routes: "same_core s s' \<Longrightarrow> sv_routes s' = sv_routes s"
  by (simp add: same_core_def)

lemma same_core_clients: "same_core s s' \<Longrightarrow> sv_clients s' = sv_clients s"
  by (simp add: same_core_def)

lemma cleanup_maps:
  assumes inv: "relay_inv live {} s" and env: "env_ok env" and cc: "fmlookup (sv_cc s) a = Some cc"
  shows "fmlookup (sv_routes (cleanup env a s)) d =
      (if \<exists>n. fmlookup (cc_proxies cc) n \<noteq> None \<and> fmlookup (cc_proxies cc) n = fmlookup (sv_routes s) d then None
       else fmlookup (sv_routes s) d)"
    "sv_clients (cleanup env a s) = fmdrop (cc_clientID cc) (sv_clients s)"
proof -
  let ?m = "cc_proxies cc" and ?i = "cc_clientID cc"
  let ?f = "\<lambda>cc. cc\<lparr>cc_deadline := None, cc_cancelled := True, cc_proxies := fmempty\<rparr>"
  let ?s1 = "upd_cc a ?f s"
  let ?s2 = "drop_proxies env ?i ?m (range_keys env ?m) ?s1"
  let ?s3 = "unregisterMeshPeer env ?i ?s2"
  have eq: "cleanup env a s = upd_cc a (\<lambda>cc. cc\<lparr>cc_conn := Conn_Close (cc_conn cc)\<rparr>) (removeClient ?i ?s3)"
    by (simp add: cleanup_def cc Let_def)
  have upd: "sv_routes (upd_cc a g t) = sv_routes t" "sv_clients (upd_cc a g t) = sv_clients t" for g t
    by (simp_all add: upd_cc_def split: option.split)
  have rem: "sv_routes (removeClient ?i t) = sv_routes t" "sv_clients (removeClient ?i t) = fmdrop ?i (sv_clients t)" for t
    by (simp_all add: removeClient_def)
  have sc: "same_core ?s2 ?s3" by (rule same_core_unregisterMeshPeer)
  have i1: "relay_inv live {p. \<exists>n. fmlookup ?m n = Some p} ?s1"
    using relay_inv_unpublish [OF inv cc, where f = ?f and m = fmempty] by simp
  have r: "fmlookup (sv_routes ?s2) d =
      (if \<exists>n \<in> set (range_keys env ?m). fmlookup ?m n \<noteq> None \<and> fmlookup ?m n = fmlookup (sv_routes ?s1) d then None
       else fmlookup (sv_routes ?s1) d)"
  proof (rule drop_proxies_routes [OF i1])
    fix n p assume n: "fmlookup ?m n = Some p"
    then have "getProxy a n s = Some p" by (simp add: getProxy_def cc)
    then show "fmlookup (sv_px ?s1) p \<noteq> None"
      using relay_invD(4) [OF inv] by (fastforce simp: upd_cc_def split: option.split)
  next
    fix b n k p assume n: "fmlookup ?m n = Some p"
    show "getProxy b k ?s1 \<noteq> Some p" using relay_invD(3) [OF i1, of b k p] n by blast
  qed
  have ks: "(\<exists>n \<in> set (range_keys env ?m). fmlookup ?m n \<noteq> None \<and> fmlookup ?m n = r) \<longleftrightarrow>
      (\<exists>n. fmlookup ?m n \<noteq> None \<and> fmlookup ?m n = r)" for r
    using range_order_set [OF range_keys_set [OF env, of ?m]] by auto
  show "fmlookup (sv_routes (cleanup env a s)) d =
      (if \<exists>n. fmlookup ?m n \<noteq> None \<and> fmlookup ?m n = fmlookup (sv_routes s) d then None
       else fmlookup (sv_routes s) d)"
    unfolding eq upd rem same_core_routes [OF sc] r ks by (rule refl)
  show "sv_clients (cleanup env a s) = fmdrop ?i (sv_clients s)"
    by (simp add: eq upd rem same_core_clients [OF sc] drop_proxies_fields)
qed

lemma registerEndpointRoute_keeps:
  "fmlookup (sv_routes s) d = Some q \<Longrightarrow> q \<noteq> p \<Longrightarrow> registerEndpointRoute dm p s = (e, s') \<Longrightarrow>
     fmlookup (sv_routes s') d = Some q"
  by (auto simp: registerEndpointRoute_def Let_def split: if_splits option.splits)

lemma sendProxyResp_routes [simp]: "sv_routes (sendProxyResp env a n ok port url err s) = sv_routes s"
  by (rule same_core_routes [OF same_core_sendProxyResp])

lemma start_new_proxy_keeps:
  assumes "fmlookup (sv_routes s) d = Some q" and "q \<noteq> p"
  shows "fmlookup (sv_routes (start_new_proxy env a np info p s)) d = Some q"
proof (cases "fmlookup (sv_px s) p")
  case None
  then show ?thesis using assms by (simp add: start_new_proxy_def)
next
  case (Some px)
  have u: "sv_routes (upd_cc a f t) = sv_routes t" for f t by (simp add: upd_cc_def split: option.split)
  obtain ok px' where st: "(if np_RemotePort np \<noteq> 0 \<or> pi_Domain info = []
      then proxy_Start (env_listen env) (BindAddr (sv_config s)) px else (True, px)) = (ok, px')" by fastforce
  show ?thesis
    unfolding start_new_proxy_def Some option.case st using assms
    by (cases ok) (simp_all add: Let_def upd_px_def u registerProxy_def
        unregisterEndpointRoute_routes split: option.split)
qed

lemma handleNewProxy_keeps:
  assumes inv: "relay_inv live {} s" and r: "fmlookup (sv_routes s) d = Some q"
  shows "fmlookup (sv_routes (handleNewProxy env a msg s)) d = Some q"
proof -
  have q: "q < sv_next s" using relay_invD(1) [OF inv r] relay_invD(9) [OF inv] by blast
  have k: "fmlookup (sv_routes (case alloc_proxy info a s of
      (p, s) \<Rightarrow>
        if pi_Domain info \<noteq> [] then
          (case registerEndpointRoute (pi_Domain info) p s of
             (Some e, s) \<Rightarrow> sendProxyResp env a (np_ProxyName np) False 0 [] (route_error_text e) s
           | (None, s) \<Rightarrow> start_new_proxy env a np info p s)
        else start_new_proxy env a np info p s)) d = Some q" for np info
  proof -
    obtain p s1 where al: "alloc_proxy info a s = (p, s1)" by fastforce
    have s1: "fmlookup (sv_routes s1) d = Some q" "q \<noteq> p" using al r q by (auto simp: alloc_proxy_def)
    obtain e s2 where re: "registerEndpointRoute (pi_Domain info) p s1 = (e, s2)" by fastforce
    have s2: "fmlookup (sv_routes s2) d = Some q" by (rule registerEndpointRoute_keeps [OF s1 re])
    show ?thesis
      unfolding al prod.case re using start_new_proxy_keeps [OF s1] start_new_proxy_keeps [OF s2 s1(2)] s2
      by (simp split: option.split)
  qed
  show ?thesis
    unfolding handleNewProxy_def Let_def
    using r k by (simp split: sum.split option.split payload.split)
qed

lemma handleCloseProxy_keeps:
  assumes inv: "relay_inv live {} s" and r: "fmlookup (sv_routes s) d = Some q"
    and q: "fmlookup (sv_px s) q = Some px" "px_client px \<noteq> a"
  shows "fmlookup (sv_routes (handleCloseProxy env a msg s)) d = Some q"
proof (cases "\<exists>cp cc p. DecodePayload (env_unmarshal env) msg = Inr (Some (PCloseProxy cp)) \<and>
    fmlookup (sv_cc s) a = Some cc \<and> fmlookup (cc_proxies cc) (cp_ProxyName cp) = Some p")
  case False
  then show ?thesis using r
    unfolding handleCloseProxy_def by (auto split: sum.split option.split payload.split)
next
  case True
  then obtain cp cc p where m: "DecodePayload (env_unmarshal env) msg = Inr (Some (PCloseProxy cp))"
      and cc: "fmlookup (sv_cc s) a = Some cc" and p: "fmlookup (cc_proxies cc) (cp_ProxyName cp) = Some p" by blast
  let ?s = "upd_cc a (\<lambda>cc. cc\<lparr>cc_proxies := fmdrop (cp_ProxyName cp) (cc_proxies cc)\<rparr>) s"
  have "getProxy a (cp_ProxyName cp) s = Some p" by (simp add: getProxy_def cc p)
  then obtain px' where px': "fmlookup (sv_px s) p = Some px'" "px_client px' = a" using relay_invD(4) [OF inv] by blast
  then have "p \<noteq> q" using q by auto
  moreover have "sv_routes ?s = sv_routes s" "sv_px ?s = sv_px s" by (simp_all add: upd_cc_def split: option.split)
  ultimately have "fmlookup (sv_routes (drop_proxy env (cc_clientID cc) (cp_ProxyName cp) p ?s)) d = Some q"
    using px' r drop_proxy_fields(6) [of ?s p px' env "cc_clientID cc" "cp_ProxyName cp"]
    by (simp add: unregisterEndpointRoute_routes)
  then show ?thesis using m cc p by (simp add: handleCloseProxy_def)
qed

lemma same_core_start_of_round: "same_core s (resetHeartbeat a now (markSeen a now s))"
  by (rule same_core_trans [OF same_core_markSeen same_core_resetHeartbeat])

lemma read_loop_step_keeps:
  assumes inv: "relay_inv live {} s" and r: "fmlookup (sv_routes s) d = Some q"
    and q: "fmlookup (sv_px s) q = Some px" "px_client px \<noteq> a"
  shows "fmlookup (sv_routes (snd (read_loop_step env a now msg s))) d = Some q"
proof -
  let ?s = "resetHeartbeat a now (markSeen a now s)"
  note sc = same_core_start_of_round [of s a now]
  have i: "relay_inv live {} ?s" by (rule same_core_inv [OF sc inv])
  have r': "fmlookup (sv_routes ?s) d = Some q" using r same_core_routes [OF sc] by simp
  obtain px' where q': "fmlookup (sv_px ?s) q = Some px'" "px_client px' \<noteq> a"
    using same_core_px [OF same_core_sym [OF sc] q(1)] q(2) by auto
  obtain e s' where w: "cc_write a NewHeartbeatResp ?s = (e, s')" by fastforce
  have s': "fmlookup (sv_routes s') d = Some q" using same_core_routes [OF same_core_cc_write' [OF w]] r' by simp
  show ?thesis
    unfolding read_loop_step_def Let_def w prod.case
    using s' r' handleNewProxy_keeps [OF i r'] handleCloseProxy_keeps [OF i r' q']
      same_core_routes [OF same_core_forward, of env a msg ?s] same_core_routes [OF same_core_handleMeshJoin, of env msg ?s]
      same_core_routes [OF same_core_handleMeshLeave, of env msg ?s]
    by (simp only: snd_conv split: if_split) simp
qed

text \<open>The owner of a proxy never changes.\<close>

definition px_keep :: "Server \<Rightarrow> Server \<Rightarrow> bool" where
  "px_keep s s' \<longleftrightarrow> (\<forall>p px. fmlookup (sv_px s) p = Some px \<longrightarrow>
     (\<exists>px'. fmlookup (sv_px s') p = Some px' \<and> px_client px' = px_client px))"

lemma px_keep_refl [simp]: "px_keep s s"
  by (simp add: px_keep_def)

lemma px_keep_trans: "px_keep s s' \<Longrightarrow> px_keep s' s'' \<Longrightarrow> px_keep s s''"
  unfolding px_keep_def by metis

lemma px_keep_eq: "sv_px s' = sv_px s \<Longrightarrow> px_keep s s'"
  by (simp add: px_keep_def)

lemma px_keep_core: "same_core s s' \<Longrightarrow> px_keep s s'"
  using same_core_px [OF same_core_sym] unfolding px_keep_def by metis

lemma px_keep_register: "registerEndpointRoute dm p s = (e, s') \<Longrightarrow> px_keep s s'"
  by (auto simp: registerEndpointRoute_def Let_def split: if_splits option.splits intro!: px_keep_eq)

lemma px_keep_resp: "px_keep s t \<Longrightarrow> px_keep s (sendProxyResp env a n ok port url err t)"
  by (rule px_keep_trans [OF _ px_keep_core [OF same_core_sendProxyResp]])

lemma px_keep_start: "px_keep s (start_new_proxy env a np info p s)"
proof (cases "fmlookup (sv_px s) p")
  case None
  then show ?thesis by (simp add: start_new_proxy_def)
next
  case (Some px)
  obtain ok px' where st: "(if np_RemotePort np \<noteq> 0 \<or> pi_Domain info = []
      then proxy_Start (env_listen env) (BindAddr (sv_config s)) px else (True, px)) = (ok, px')" by fastforce
  have c: "px_client px' = px_client px" using st by (auto simp: proxy_Start_def split: if_splits option.splits)
  have u: "sv_px (upd_cc a f t) = sv_px t" for f t by (simp add: upd_cc_def split: option.split)
  have "px_keep s (upd_cc a f (upd_px p px' s))" for f using Some c by (simp add: px_keep_def upd_px_def u)
  moreover have "px_keep s (registerProxy k p t)" if "px_keep s t" for k t
    using that by (simp add: px_keep_def registerProxy_def)
  moreover have "px_keep s (unregisterEndpointRoute dm p s)" for dm by (rule px_keep_eq) simp
  ultimately show ?thesis
    unfolding start_new_proxy_def Some option.case st
    by (cases ok) (auto simp: Let_def intro!: px_keep_resp split: option.split)
qed

lemma px_keep_alloc: "relay_inv live X s \<Longrightarrow> alloc_proxy info a s = (p, s') \<Longrightarrow> px_keep s s'"
  using relay_invD(9) by (fastforce simp: alloc_proxy_def px_keep_def)

lemma px_keep_handleNewProxy:
  assumes inv: "relay_inv live {} s"
  shows "px_keep s (handleNewProxy env a msg s)"
proof -
  have k: "px_keep s (case alloc_proxy info a s of
      (p, s) \<Rightarrow>
        if pi_Domain info \<noteq> [] then
          (case registerEndpointRoute (pi_Domain info) p s of
             (Some e, s) \<Rightarrow> sendProxyResp env a (np_ProxyName np) False 0 [] (route_error_text e) s
           | (None, s) \<Rightarrow> start_new_proxy env a np info p s)
        else start_new_proxy env a np info p s)" for np info
  proof -
    obtain p s1 where al: "alloc_proxy info a s = (p, s1)" by fastforce
    note 1 = px_keep_alloc [OF inv al]
    obtain e s2 where re: "registerEndpointRoute (pi_Domain info) p s1 = (e, s2)" by fastforce
    note 2 = px_keep_trans [OF 1 px_keep_register [OF re]]
    show ?thesis
      unfolding al prod.case re
      using px_keep_trans [OF 1 px_keep_start] px_keep_trans [OF 2 px_keep_start] px_keep_resp [OF 2]
      by (simp split: option.split)
  qed
  show ?thesis
    unfolding handleNewProxy_def Let_def
    using k by (simp add: px_keep_resp split: sum.split option.split payload.split)
qed

lemma px_keep_drop_proxy: "px_keep s (drop_proxy env i n p s)"
  by (cases "fmlookup (sv_px s) p") (auto simp: px_keep_def drop_proxy_fields(7), simp add: drop_proxy_def)

lemma px_keep_handleCloseProxy: "px_keep s (handleCloseProxy env a msg s)"
proof -
  have u: "px_keep s (upd_cc a f s)" for f by (rule px_keep_eq) (simp add: upd_cc_def split: option.split)
  show ?thesis
    unfolding handleCloseProxy_def
    by (auto split: sum.split option.split payload.split intro: px_keep_trans [OF u px_keep_drop_proxy])
qed

lemma read_loop_step_px_client:
  assumes inv: "relay_inv live {} s" and "a \<in> live"
    and px: "fmlookup (sv_px s) p = Some px" and q: "fmlookup (sv_px (snd (read_loop_step env a now msg s))) p = Some q"
  shows "px_client q = px_client px"
proof -
  let ?s = "resetHeartbeat a now (markSeen a now s)"
  note sc = same_core_start_of_round [of s a now]
  have i: "relay_inv live {} ?s" by (rule same_core_inv [OF sc inv])
  have k: "px_keep s ?s" by (rule px_keep_core [OF sc])
  obtain e s' where w: "cc_write a NewHeartbeatResp ?s = (e, s')" by fastforce
  have "px_keep s (snd (read_loop_step env a now msg s))"
    unfolding read_loop_step_def Let_def w prod.case
    using k px_keep_trans [OF k px_keep_core [OF same_core_cc_write' [OF w]]]
      px_keep_trans [OF k px_keep_handleNewProxy [OF i]] px_keep_trans [OF k px_keep_handleCloseProxy]
      px_keep_trans [OF k px_keep_core [OF same_core_forward]]
      px_keep_trans [OF k px_keep_core [OF same_core_handleMeshJoin]]
      px_keep_trans [OF k px_keep_core [OF same_core_handleMeshLeave]]
    by (simp only: snd_conv split: if_split) simp
  then show ?thesis using px q unfolding px_keep_def by fastforce
qed

section \<open>A small run\<close>

lemma alloc_px: "fmlookup (sv_px (snd (alloc_proxy info a s))) (sv_next s) = Some (NewProxy info a)"
  by (simp add: alloc_proxy_def)

lemma handleNewProxy_starts:
  assumes "DecodePayload (env_unmarshal env) msg = Inr (Some (PNewProxy np))"
    and "fmlookup (sv_cc s) a = Some cc" and "int (mlen (cc_proxies cc)) < MaxProxiesPerClient (sv_config s)"
    and "fmlookup (cc_proxies cc) (np_ProxyName np) = None" and "np_ExpiresAt np = []" and "np_RemotePort np = 0"
    and "domain = endpointDomainFromProxy (sv_config s) (np_Domain np) (np_ProxyName np)" and ne: "domain \<noteq> []"
    and reg: "\<And>s1. sv_routes s1 = sv_routes s \<Longrightarrow>
      registerEndpointRoute domain (sv_next s) s1 = (None, s1\<lparr>sv_routes := R\<rparr>)"
  shows "handleNewProxy env a msg s =
    (let info = new_proxy_info (sv_config s) np 0; p = sv_next s in
     sendProxyResp env a (np_ProxyName np) True 0 (pi_PublicURL info) []
       (s\<lparr>sv_px := fmupd p (NewProxy info a) (sv_px s), sv_next := p + 1, sv_routes := R,
          sv_cc := fmupd a (cc\<lparr>cc_proxies := fmupd (np_ProxyName np) p (cc_proxies cc)\<rparr>) (sv_cc s),
          sv_proxies := fmupd (proxy_key (cc_clientID cc) (np_ProxyName np)) p (sv_proxies s)\<rparr>))"
proof -
  have q: "\<not> MaxProxiesPerClient (sv_config s) \<le> int (mlen (cc_proxies cc))" using assms(3) by simp
  define info where "info = new_proxy_info (sv_config s) np 0"
  have i: "pi_Domain info = domain" "pi_RemotePort info = 0" "pi_ProxyName info = np_ProxyName np"
    using assms(6,7) by (simp_all add: info_def new_proxy_info_def Let_def)
  have t: "trim_space [] = []" by code_simp
  define s1 where "s1 = s\<lparr>sv_px := fmupd (sv_next s) (NewProxy info a) (sv_px s), sv_next := sv_next s + 1\<rparr>"
  define s2 where "s2 = s1\<lparr>sv_routes := R\<rparr>"
  have al: "alloc_proxy info a s = (sv_next s, s1)" by (simp add: alloc_proxy_def s1_def)
  have re: "registerEndpointRoute domain (sv_next s) s1 = (None, s2)" using reg [of s1] by (simp add: s2_def s1_def)
  have px: "fmlookup (sv_px s2) (sv_next s) = Some (NewProxy info a)" by (simp add: s2_def s1_def)
  have st: "start_new_proxy env a np info (sv_next s) s2 = sendProxyResp env a (np_ProxyName np) True 0 (pi_PublicURL info) []
      (s\<lparr>sv_px := fmupd (sv_next s) (NewProxy info a) (sv_px s), sv_next := sv_next s + 1, sv_routes := R,
          sv_cc := fmupd a (cc\<lparr>cc_proxies := fmupd (np_ProxyName np) (sv_next s) (cc_proxies cc)\<rparr>) (sv_cc s),
          sv_proxies := fmupd (proxy_key (cc_clientID cc) (np_ProxyName np)) (sv_next s) (sv_proxies s)\<rparr>)"
    using ne assms(2,6)
    by (simp add: start_new_proxy_def px i upd_px_def upd_cc_def registerProxy_def NewProxy_def s2_def s1_def) (cases s; simp)
  show ?thesis
    by (simp add: handleNewProxy_def assms(1,2,4,5) q t info_def [symmetric] al i ne re st) (simp add: Let_def)
qed

lemma register_free:
  assumes "normalizeEndpointHost domain = domain" and "validateEndpointDomain domain = None"
    and "fmlookup (sv_routes s) domain = None" and "sv_routes s1 = sv_routes s"
  shows "registerEndpointRoute domain p s1 = (None, s1\<lparr>sv_routes := fmupd domain p (sv_routes s)\<rparr>)"
  using assms valid_nonempty [OF assms(2)] by (simp add: registerEndpointRoute_def)

text \<open>An environment and a client for the closed examples: the codec gives one fixed payload.\<close>

definition ex_env :: "payload \<Rightarrow> RelayEnv" where
  "ex_env v = \<lparr>env_marshal = \<lambda>_. Some [], env_unmarshal = \<lambda>k _. if k = kind_of v then Some v else None,
     env_listen = \<lambda>_ p. Some (if p = 0 then 40000 else p), env_parse_time = \<lambda>_. None,
     env_order = sorted_list_of_fset\<rparr>"

lemma ex_env_ok: "env_ok (ex_env v)"
proof -
  have "fset_of_list (sorted_list_of_fset S) = S" for S :: "string fset"
    by (simp add: fset_inject [symmetric] fset_of_list.rep_eq sorted_list_of_fset.rep_eq)
  then show ?thesis by (simp add: env_ok_def ex_env_def sorted_list_of_fset.rep_eq)
qed

definition ex_conn :: Conn where
  "ex_conn = NewConn []"

definition ex_auth :: "string \<Rightarrow> payload" where
  "ex_auth i = PAuth \<lparr>am_Version = ProtocolVersion, am_ClientID = i, am_AuthToken = []\<rparr>"

definition ex_np :: NewProxyMessage where
  "ex_np = \<lparr>np_ProxyName = ''web'', np_ProxyType = ''http'', np_LocalAddr = ''127.0.0.1:3000'', np_RemotePort = 0,
     np_Domain = ''A.b'', np_HostHeader = [], np_UseHTTPS = False, np_PublicURL = [],
     np_AccessPolicyID = [], np_InspectEnabled = False, np_ExpiresAt = []\<rparr>"

text \<open>One client has connected, and then publishes \<open>a.b\<close>.\<close>

definition ex_joined :: "string \<Rightarrow> Conn \<Rightarrow> World" where
  "ex_joined i c = \<lparr>w_sv = snd (accept_client i c [] 0 (NewServer DefaultConfig)), w_auth = [], w_live = {0}\<rparr>"

definition ex_authed :: Conn where
  "ex_authed = ex_conn\<lparr>wr := frame \<lparr>Type = TypeAuthResp, Payload = []\<rparr>\<rparr>"

definition ex_published :: World where
  "ex_published = (ex_joined ''c'' ex_authed)\<lparr>w_sv :=
     snd (read_loop_step (ex_env (PNewProxy ex_np)) 0 0 \<lparr>Type = TypeNewProxy, Payload = []\<rparr> (w_sv (ex_joined ''c'' ex_authed)))\<rparr>"

lemma ex_decode: "Type msg = type_of_kind (kind_of v) \<Longrightarrow> DecodePayload (env_unmarshal (ex_env v)) msg = Inr (Some v)"
proof -
  have "type_of_kind k \<noteq> TypeHeartbeat \<and> type_of_kind k \<noteq> TypeHeartbeatResp" for k by (cases k) simp_all
  then show "Type msg = type_of_kind (kind_of v) \<Longrightarrow> ?thesis" by (simp add: DecodePayload_def ex_env_def)
qed

lemma ex_auth_check:
  assumes "AuthToken (sv_config s) = []" and "fmlookup (sv_clients s) i = None" and "i \<noteq> []"
  shows "auth_check (ex_env (ex_auth i)) \<lparr>Type = TypeAuth, Payload = []\<rparr> ex_conn s = (Some i, ex_authed)"
proof -
  have d: "DecodePayload (env_unmarshal (ex_env (ex_auth i))) \<lparr>Type = TypeAuth, Payload = []\<rparr> =
      Inr (Some (PAuth \<lparr>am_Version = ProtocolVersion, am_ClientID = i, am_AuthToken = []\<rparr>))"
    using ex_decode [of "\<lparr>Type = TypeAuth, Payload = []\<rparr>" "ex_auth i"] by (simp add: ex_auth_def)
  have "sendable \<lparr>Type = TypeAuthResp, Payload = []\<rparr>" by (simp add: sendable_def)
  from conn_sink_writes [OF this, of ex_conn]
  have "conn_write_result (NewAuthRespMessage (env_marshal (ex_env (ex_auth i))) True []) ex_conn = (None, ex_authed)"
    by (simp add: conn_write_result_def NewAuthRespMessage_def marshalMessage_def ex_env_def ex_conn_def NewConn_def ex_authed_def)
  then show ?thesis using assms by (simp add: auth_check_def d validAuthToken_def)
qed

lemma ex_login:
  assumes "relay_reach cfg w" and "w_auth w = []" and "AuthToken (sv_config (w_sv w)) = []"
    and "fmlookup (sv_clients (w_sv w)) i = None" and "i \<noteq> []" and "accept_client i ex_authed [] 0 (w_sv w) = (a, s)"
  shows "relay_reach cfg (w\<lparr>w_sv := s, w_live := insert a (w_live w)\<rparr>)"
proof -
  have "relay_step w (w\<lparr>w_auth := [(i, ex_authed)]\<rparr>)"
    using r_auth [OF ex_env_ok ex_auth_check [OF assms(3-5)]] assms(2) by simp
  moreover have "relay_step (w\<lparr>w_auth := [(i, ex_authed)]\<rparr>) (w\<lparr>w_sv := s, w_live := insert a (w_live w)\<rparr>)"
    using r_accept [of i ex_authed "w\<lparr>w_auth := [(i, ex_authed)]\<rparr>" "[]" 0 a s] assms(2,6) by (cases w) simp
  ultimately show ?thesis using rr_step assms(1) by blast
qed

lemma ex_joined_reach: "relay_reach DefaultConfig (ex_joined ''c'' ex_authed)"
  using ex_login [OF rr_init, of DefaultConfig "''c''" 0 "w_sv (ex_joined ''c'' ex_authed)"]
  by (simp add: ex_joined_def accept_client_def NewServer_def DefaultConfig_def)

lemma ex_joined_cc:
  "fmlookup (sv_cc (w_sv (ex_joined i c))) 0 = Some ((NewClientConn i c [] 0)\<lparr>cc_deadline := Some (90 * second)\<rparr>)"
  "sv_routes (w_sv (ex_joined i c)) = fmempty" "sv_next (w_sv (ex_joined i c)) = 1"
  "sv_config (w_sv (ex_joined i c)) = DefaultConfig" "w_live (ex_joined i c) = {0}"
  "sv_clients (w_sv (ex_joined i c)) = fmupd i 0 fmempty" "sv_px (w_sv (ex_joined i c)) = fmempty"
  by (simp_all add: ex_joined_def accept_client_def NewServer_def resetHeartbeat_def upd_cc_def DefaultConfig_def)

lemma ex_domain: "endpointDomainFromProxy DefaultConfig ''A.b'' ''web'' = ''a.b''"
    "normalizeEndpointHost ''a.b'' = ''a.b''" "validateEndpointDomain ''a.b'' = None"
  by code_simp+

lemma ex_quota: "int (mlen (fmempty :: (string, nat) fmap)) < MaxProxiesPerClient DefaultConfig"
  by (simp add: mlen_def DefaultConfig_def fcard.rep_eq)

lemma ex_handle:
  assumes "fmlookup (sv_cc s) 0 = Some cc" and "cc_proxies cc = fmempty" and "sv_config s = DefaultConfig"
    and "sv_routes s = fmempty"
  shows "\<exists>cc'. handleNewProxy (ex_env (PNewProxy ex_np)) 0 \<lparr>Type = TypeNewProxy, Payload = []\<rparr> s =
    sendProxyResp (ex_env (PNewProxy ex_np)) 0 ''web'' True 0 (pi_PublicURL (new_proxy_info DefaultConfig ex_np 0)) []
      (s\<lparr>sv_px := fmupd (sv_next s) (NewProxy (new_proxy_info DefaultConfig ex_np 0) 0) (sv_px s), sv_next := sv_next s + 1,
         sv_routes := fmupd ''a.b'' (sv_next s) fmempty, sv_cc := fmupd 0 cc' (sv_cc s),
         sv_proxies := fmupd (proxy_key (cc_clientID cc) ''web'') (sv_next s) (sv_proxies s)\<rparr>) \<and>
    cc_proxies cc' = fmupd ''web'' (sv_next s) fmempty"
proof -
  have d: "DecodePayload (env_unmarshal (ex_env (PNewProxy ex_np))) \<lparr>Type = TypeNewProxy, Payload = []\<rparr> =
      Inr (Some (PNewProxy ex_np))"
    by (rule ex_decode) simp
  have q: "int (mlen (cc_proxies cc)) < MaxProxiesPerClient (sv_config s)"
    using assms ex_quota by simp
  have np: "np_ProxyName ex_np = ''web''" "np_Domain ex_np = ''A.b''" "np_ExpiresAt ex_np = []" "np_RemotePort ex_np = 0"
    by (simp_all add: ex_np_def)
  have reg: "registerEndpointRoute ''a.b'' (sv_next s) s1 = (None, s1\<lparr>sv_routes := fmupd ''a.b'' (sv_next s) (sv_routes s)\<rparr>)"
    if "sv_routes s1 = sv_routes s" for s1
    by (rule register_free [OF ex_domain(2,3) _ that]) (simp add: assms)
  show ?thesis
    using handleNewProxy_starts [OF d assms(1) q _ np(3,4) _ _ reg] assms ex_domain np by (auto simp: Let_def)
qed

lemma ex_published_sv:
  "\<exists>s cc'. same_core s (w_sv ex_published) \<and> sv_routes s = fmupd ''a.b'' 1 fmempty \<and> sv_clients s = fmupd ''c'' 0 fmempty \<and>
     fmlookup (sv_cc s) 0 = Some cc' \<and> cc_proxies cc' = fmupd ''web'' 1 fmempty \<and> sv_config s = DefaultConfig \<and>
     fmlookup (sv_px s) 1 = Some (NewProxy (new_proxy_info DefaultConfig ex_np 0) 0) \<and>
     fst (read_loop_step (ex_env (PNewProxy ex_np)) 0 0 \<lparr>Type = TypeNewProxy, Payload = []\<rparr> (w_sv (ex_joined ''c'' ex_authed)))"
proof -
  let ?j = "w_sv (ex_joined ''c'' ex_authed)"
  let ?s = "resetHeartbeat 0 0 (markSeen 0 0 ?j)"
  have s: "\<exists>cc. fmlookup (sv_cc ?s) 0 = Some cc \<and> cc_proxies cc = fmempty" "sv_config ?s = DefaultConfig"
    "sv_routes ?s = fmempty" "sv_next ?s = 1" "sv_clients ?s = fmupd ''c'' 0 fmempty"
    using ex_joined_cc [of "''c''" ex_authed]
    by (simp_all add: resetHeartbeat_def markSeen_def upd_cc_def NewClientConn_def)
  then obtain cc where cc: "fmlookup (sv_cc ?s) 0 = Some cc" "cc_proxies cc = fmempty" by blast
  obtain cc' where h: "handleNewProxy (ex_env (PNewProxy ex_np)) 0 \<lparr>Type = TypeNewProxy, Payload = []\<rparr> ?s =
    sendProxyResp (ex_env (PNewProxy ex_np)) 0 ''web'' True 0 (pi_PublicURL (new_proxy_info DefaultConfig ex_np 0)) []
      (?s\<lparr>sv_px := fmupd 1 (NewProxy (new_proxy_info DefaultConfig ex_np 0) 0) (sv_px ?s), sv_next := 1 + 1,
         sv_routes := fmupd ''a.b'' 1 fmempty, sv_cc := fmupd 0 cc' (sv_cc ?s),
         sv_proxies := fmupd (proxy_key (cc_clientID cc) ''web'') 1 (sv_proxies ?s)\<rparr>)"
      (is "_ = sendProxyResp _ _ _ _ _ _ _ ?t") and cc': "cc_proxies cc' = fmupd ''web'' 1 fmempty"
    using ex_handle [OF cc s(2,3)] unfolding s(4) by blast
  have r: "read_loop_step (ex_env (PNewProxy ex_np)) 0 0 \<lparr>Type = TypeNewProxy, Payload = []\<rparr> ?j = (True,
      sendProxyResp (ex_env (PNewProxy ex_np)) 0 ''web'' True 0 (pi_PublicURL (new_proxy_info DefaultConfig ex_np 0)) [] ?t)"
    by (simp only: read_loop_step_def Let_def h [symmetric] Message.select_convs simp_thms if_True)
  have "same_core ?t (w_sv ex_published)" by (simp add: ex_published_def r same_core_sendProxyResp)
  moreover have "sv_routes ?t = fmupd ''a.b'' 1 fmempty" "sv_clients ?t = fmupd ''c'' 0 fmempty"
    "fmlookup (sv_cc ?t) 0 = Some cc'" "fmlookup (sv_px ?t) 1 = Some (NewProxy (new_proxy_info DefaultConfig ex_np 0) 0)"
    "sv_config ?t = DefaultConfig"
    using s(2,5) by simp_all
  ultimately show ?thesis using cc' r by fastforce
qed

lemma ex_published_reach: "relay_reach DefaultConfig ex_published"
proof (rule rr_step [OF ex_joined_reach])
  let ?w = "ex_joined ''c'' ex_authed"
  have "fst (read_loop_step (ex_env (PNewProxy ex_np)) 0 0 \<lparr>Type = TypeNewProxy, Payload = []\<rparr> (w_sv ?w))"
    using ex_published_sv by blast
  then have "read_loop_step (ex_env (PNewProxy ex_np)) 0 0 \<lparr>Type = TypeNewProxy, Payload = []\<rparr> (w_sv ?w) = (True, w_sv ex_published)"
    by (simp add: prod_eq_iff ex_published_def)
  from r_message [OF ex_env_ok _ this] show "relay_step ?w ex_published"
    by (simp add: ex_joined_cc(5) ex_published_def)
qed

lemma ex_published_live: "w_live ex_published = {0}"
  by (simp add: ex_published_def ex_joined_cc(5))

lemma ex_published_routes: "sv_routes (w_sv ex_published) = fmupd ''a.b'' 1 fmempty"
  using ex_published_sv same_core_routes by fastforce

lemma ex_published_client: "findClient ''c'' (w_sv ex_published) = Some 0"
  using ex_published_sv same_core_clients unfolding findClient_def by fastforce

lemma ex_published_clients: "sv_clients (w_sv ex_published) = fmupd ''c'' 0 fmempty"
  using ex_published_sv same_core_clients by fastforce

lemma ex_published_auth: "w_auth ex_published = []"
  by (simp add: ex_published_def ex_joined_def)

lemma ex_published_config: "AuthToken (sv_config (w_sv ex_published)) = []"
  using ex_published_sv by (auto simp: same_core_def DefaultConfig_def)

lemma ex_published_cc: "\<exists>cc. fmlookup (sv_cc (w_sv ex_published)) 0 = Some cc \<and> fmlookup (cc_proxies cc) ''web'' = Some 1"
proof -
  obtain s cc' where s: "same_core s (w_sv ex_published)" "fmlookup (sv_cc s) 0 = Some cc'" "cc_proxies cc' = fmupd ''web'' 1 fmempty"
    using ex_published_sv by blast
  from s(1) have "map_option cc_core (fmlookup (sv_cc (w_sv ex_published)) 0) = map_option cc_core (Some cc')"
    unfolding same_core_def s(2) [symmetric] by blast
  then show ?thesis using s(3) by (auto simp: cc_core_def)
qed

lemma ex_published_px: "\<exists>px. fmlookup (sv_px (w_sv ex_published)) 1 = Some px \<and> px_client px = 0"
  using ex_published_sv same_core_px [OF same_core_sym] by (fastforce simp: NewProxy_def)

section \<open>Properties\<close>



text \<open>
  C1: The gateway never routes to a dead proxy. Whatever clients connect, authenticate, publish,
  close, time out, disconnect or are disconnected, and in whatever order, a host that the gateway
  finds a proxy for belongs to a client whose control loop is running, which still owns this
  proxy under its name, and the proxy was published under exactly this domain.
\<close>

theorem routes_reach_live_clients:
  assumes "relay_reach cfg w" and "findEndpointProxy host (w_sv w) = Some p"
  shows "\<exists>px cc. fmlookup (sv_px (w_sv w)) p = Some px \<and> px_client px \<in> w_live w \<and>
    fmlookup (sv_cc (w_sv w)) (px_client px) = Some cc \<and>
    fmlookup (cc_proxies cc) (pi_ProxyName (px_info px)) = Some p \<and>
    normalizeEndpointHost (pi_Domain (px_info px)) = normalizeEndpointHost host \<and>
    validateEndpointDomain (normalizeEndpointHost host) = None"
proof -
  note inv = relay_reach_inv [OF assms(1)]
  obtain px where px: "fmlookup (sv_px (w_sv w)) p = Some px"
      "normalizeEndpointHost (pi_Domain (px_info px)) = normalizeEndpointHost host"
      "validateEndpointDomain (normalizeEndpointHost host) = None"
      "getProxy (px_client px) (pi_ProxyName (px_info px)) (w_sv w) = Some p"
    using relay_invD(1) [OF inv] assms(2) unfolding findEndpointProxy_def owned_def by blast
  moreover from px(4) obtain cc where "fmlookup (sv_cc (w_sv w)) (px_client px) = Some cc"
      "fmlookup (cc_proxies cc) (pi_ProxyName (px_info px)) = Some p"
    by (auto simp: getProxy_def split: option.splits)
  ultimately show ?thesis using relay_invD(3) [OF inv px(4)] by blast
qed

theorem routes_reach_live_clients_witness:
  "\<exists>px cc. fmlookup (sv_px (w_sv ex_published)) 1 = Some px \<and> px_client px \<in> w_live ex_published \<and>
    fmlookup (sv_cc (w_sv ex_published)) (px_client px) = Some cc \<and>
    fmlookup (cc_proxies cc) (pi_ProxyName (px_info px)) = Some 1 \<and>
    normalizeEndpointHost (pi_Domain (px_info px)) = ''a.b'' \<and> validateEndpointDomain ''a.b'' = None"
  using routes_reach_live_clients [OF ex_published_reach, of "''a.b''" 1]
  by (simp add: findEndpointProxy_def ex_published_routes ex_domain)

text \<open>
  C30: Listeners and quotas. At any time an open TCP listener belongs to a proxy that a client
  with a running control loop owns, no client owns more than \<open>MaxProxiesPerClient\<close> proxies, and
  a client identifier is found only for a running client that authenticated with it.
\<close>

theorem relay_resources_owned:
  assumes "relay_reach cfg w"
  shows "(\<forall>p px. fmlookup (sv_px (w_sv w)) p = Some px \<and> px_listening px \<longrightarrow>
      px_client px \<in> w_live w \<and> getProxy (px_client px) (pi_ProxyName (px_info px)) (w_sv w) = Some p) \<and>
    (\<forall>a cc. fmlookup (sv_cc (w_sv w)) a = Some cc \<longrightarrow>
      int (mlen (cc_proxies cc)) \<le> max 0 (MaxProxiesPerClient (sv_config (w_sv w)))) \<and>
    (\<forall>i a. findClient i (w_sv w) = Some a \<longrightarrow> a \<in> w_live w \<and>
      (\<exists>cc. fmlookup (sv_cc (w_sv w)) a = Some cc \<and> cc_clientID cc = i))"
proof -
  note inv = relay_reach_inv [OF assms]
  have 1: "px_client px \<in> w_live w \<and> getProxy (px_client px) (pi_ProxyName (px_info px)) (w_sv w) = Some p"
    if "fmlookup (sv_px (w_sv w)) p = Some px" "px_listening px" for p px
    using relay_invD(2) [OF inv that] relay_invD(3) [OF inv] unfolding owned_def by blast
  show ?thesis
    using 1 relay_invD(8) [OF inv] relay_invD(5) [OF inv] unfolding findClient_def by blast
qed

theorem relay_resources_owned_witness:
  "relay_reach DefaultConfig ex_published \<and> findClient ''c'' (w_sv ex_published) = Some 0 \<and>
   (\<exists>cc. fmlookup (sv_cc (w_sv ex_published)) 0 = Some cc \<and> cc_clientID cc = ''c'')"
  using relay_resources_owned [OF ex_published_reach] ex_published_client ex_published_reach by blast

text \<open>
  C4: Disconnecting releases everything and nothing else. When a client's control loop ends, for
  whatever reason, \<open>cleanup\<close> removes the routes of its proxies and its identifier, and leaves
  every other route and every other client in place; afterwards no route and no open listener
  is the client's.
\<close>

theorem cleanup_releases:
  assumes "relay_reach cfg w" and "env_ok env" and "a \<in> w_live w"
    and "fmlookup (sv_cc (w_sv w)) a = Some cc"
  shows "fmlookup (sv_routes (cleanup env a (w_sv w))) d =
      (case fmlookup (sv_routes (w_sv w)) d of
         None \<Rightarrow> None
       | Some p \<Rightarrow> if \<exists>n. fmlookup (cc_proxies cc) n = Some p then None else Some p) \<and>
    sv_clients (cleanup env a (w_sv w)) = fmdrop (cc_clientID cc) (sv_clients (w_sv w)) \<and>
    (\<forall>p px. fmlookup (sv_px (cleanup env a (w_sv w))) p = Some px \<and> px_client px = a \<longrightarrow>
       \<not> px_listening px \<and> (\<forall>d. fmlookup (sv_routes (cleanup env a (w_sv w))) d \<noteq> Some p))"
proof -
  note inv = relay_reach_inv [OF assms(1)]
  note after = relay_inv_cleanup [OF inv assms(2,3)]
  have "\<not> px_listening px \<and> (\<forall>d. fmlookup (sv_routes (cleanup env a (w_sv w))) d \<noteq> Some p)"
    if px: "fmlookup (sv_px (cleanup env a (w_sv w))) p = Some px" "px_client px = a" for p px
  proof -
    have n: "\<not> owned p a px (cleanup env a (w_sv w))"
      using relay_invD(3) [OF after] unfolding owned_def by blast
    then show ?thesis using relay_invD(1,2) [OF after] px by fastforce
  qed
  moreover have "fmlookup (sv_routes (cleanup env a (w_sv w))) d =
      (case fmlookup (sv_routes (w_sv w)) d of
         None \<Rightarrow> None
       | Some p \<Rightarrow> if \<exists>n. fmlookup (cc_proxies cc) n = Some p then None else Some p)"
    unfolding cleanup_maps(1) [OF inv assms(2,4)] by (auto split: option.split)
  ultimately show ?thesis using cleanup_maps(2) [OF inv assms(2,4)] by blast
qed

theorem cleanup_releases_witness:
  "fmlookup (sv_routes (w_sv ex_published)) ''a.b'' = Some 1 \<and>
   fmlookup (sv_routes (cleanup (ex_env (ex_auth ''c'')) 0 (w_sv ex_published))) ''a.b'' = None"
proof -
  obtain cc where cc: "fmlookup (sv_cc (w_sv ex_published)) 0 = Some cc" "fmlookup (cc_proxies cc) ''web'' = Some 1"
    using ex_published_cc by blast
  have "0 \<in> w_live ex_published" by (simp add: ex_published_live)
  from cleanup_releases [OF ex_published_reach ex_env_ok this cc(1), of "ex_auth ''c''" "''a.b''"]
  show ?thesis using cc(2) by (auto simp: ex_published_routes)
qed

text \<open>
  C11: Authentication. A connection becomes a client exactly when its first message decodes to an
  authentication message with the protocol version of the relay, a non-empty identifier that is
  not connected, and the shared token (if one is configured), and the acceptance could be
  written; on every other path the connection is closed.
\<close>

theorem auth_check_iff:
  "(case auth_check env msg c s of
      (Some i, c') \<Rightarrow> \<exists>auth. DecodePayload (env_unmarshal env) msg = Inr (Some (PAuth auth)) \<and>
        i = am_ClientID auth \<and> am_Version auth = ProtocolVersion \<and> i \<noteq> [] \<and>
        validAuthToken (sv_config s) (am_AuthToken auth) \<and> findClient i s = None \<and>
        conn_write_result (NewAuthRespMessage (env_marshal env) True []) c = (None, c')
    | (None, c') \<Rightarrow> closed c' \<and>
        (\<forall>auth. DecodePayload (env_unmarshal env) msg = Inr (Some (PAuth auth)) \<and>
           am_Version auth = ProtocolVersion \<and> am_ClientID auth \<noteq> [] \<and>
           validAuthToken (sv_config s) (am_AuthToken auth) \<and> findClient (am_ClientID auth) s = None \<longrightarrow>
           fst (conn_write_result (NewAuthRespMessage (env_marshal env) True []) c) \<noteq> None))"
proof -
  have cl: "closed (Conn_Close c)" for c by (simp add: Conn_Close_def)
  obtain e c' where w: "conn_write_result (NewAuthRespMessage (env_marshal env) True []) c = (e, c')" by fastforce
  show ?thesis
  proof (cases "\<exists>auth. DecodePayload (env_unmarshal env) msg = Inr (Some (PAuth auth))")
    case False
    then have "auth_check env msg c s = (None, Conn_Close c)"
      by (auto simp: auth_check_def split: sum.split option.split payload.split)
    then show ?thesis using False cl by simp
  next
    case True
    then obtain auth where d: "DecodePayload (env_unmarshal env) msg = Inr (Some (PAuth auth))" by blast
    show ?thesis
      by (cases e) (auto simp: auth_check_def d w reject_auth_def cl findClient_def)
  qed
qed

theorem auth_check_iff_witness:
  "auth_check (ex_env (ex_auth ''c'')) \<lparr>Type = TypeAuth, Payload = []\<rparr> ex_conn (NewServer DefaultConfig) = (Some ''c'', ex_authed) \<and>
   am_Version \<lparr>am_Version = ProtocolVersion, am_ClientID = ''c'', am_AuthToken = []\<rparr> = ProtocolVersion \<and>
   findClient ''c'' (NewServer DefaultConfig) = None"
proof -
  have "auth_check (ex_env (ex_auth ''c'')) \<lparr>Type = TypeAuth, Payload = []\<rparr> ex_conn (NewServer DefaultConfig) = (Some ''c'', ex_authed)"
    by (rule ex_auth_check) (simp_all add: NewServer_def DefaultConfig_def)
  then show ?thesis
    using auth_check_iff [of "ex_env (ex_auth ''c'')" "\<lparr>Type = TypeAuth, Payload = []\<rparr>" "NewServer DefaultConfig" ex_conn]
    by auto
qed

text \<open>
  C5: A domain cannot be taken over. While a domain is routed to a proxy of one client, no
  message of another client changes the route: not a proxy for the same domain, not a close of a
  proxy of the same name, and not the end of the other client's connection.
\<close>

theorem no_domain_takeover:
  assumes "relay_reach cfg w" and "env_ok env" and "b \<in> w_live w"
    and "fmlookup (sv_routes (w_sv w)) d = Some p" and "fmlookup (sv_px (w_sv w)) p = Some px"
    and "px_client px \<noteq> b" and "read_loop_step env b now msg (w_sv w) = (go, s)"
  shows "fmlookup (sv_routes s) d = Some p \<and> fmlookup (sv_routes (cleanup env b s)) d = Some p"
proof -
  note inv = relay_reach_inv [OF assms(1)]
  have i: "relay_inv (w_live w) {} s"
    using relay_inv_read_loop_step [OF inv assms(3), of env now msg] assms(7) by simp
  have 1: "fmlookup (sv_routes s) d = Some p"
    using read_loop_step_keeps [OF inv assms(4-6), of env now msg] assms(7) by simp
  obtain cc where cc: "fmlookup (sv_cc s) b = Some cc" using relay_invD(6) [OF i assms(3)] by blast
  have ow: "getProxy (px_client px) (pi_ProxyName (px_info px)) (w_sv w) = Some p"
    using relay_invD(1) [OF inv assms(4)] assms(5) by (auto simp: owned_def)
  have "fmlookup (cc_proxies cc) n \<noteq> Some p" for n
  proof
    assume "fmlookup (cc_proxies cc) n = Some p"
    then have g: "getProxy b n s = Some p" by (simp add: getProxy_def cc)
    obtain q where q: "fmlookup (sv_px s) p = Some q" "px_client q = b" using relay_invD(4) [OF i g] by blast
    have "px_client q = px_client px"
      using read_loop_step_px_client [OF inv assms(3) assms(5), of env now msg] assms(7) q by simp
    then show False using q assms(6) by simp
  qed
  then have "fmlookup (sv_routes (cleanup env b s)) d = Some p"
    unfolding cleanup_maps(1) [OF i assms(2) cc] using 1 by simp
  then show ?thesis using 1 by blast
qed

theorem no_domain_takeover_witness:
  "case accept_client ''d'' ex_authed [] 0 (w_sv ex_published) of (b, s) \<Rightarrow>
     fmlookup (sv_routes s) ''a.b'' = Some 1 \<and>
     fmlookup (sv_routes (snd (read_loop_step (ex_env (PNewProxy ex_np)) b 0 \<lparr>Type = TypeNewProxy, Payload = []\<rparr> s))) ''a.b'' = Some 1"
proof -
  obtain b s where ac: "accept_client ''d'' ex_authed [] 0 (w_sv ex_published) = (b, s)" by fastforce
  let ?w = "ex_published\<lparr>w_sv := s, w_live := insert b (w_live ex_published)\<rparr>"
  have r: "relay_reach DefaultConfig ?w"
    by (rule ex_login [OF ex_published_reach _ _ _ _ ac]) (simp_all add: ex_published_auth ex_published_config ex_published_clients)
  obtain px where px: "fmlookup (sv_px (w_sv ex_published)) 1 = Some px" "px_client px = 0" using ex_published_px by blast
  have b: "0 < b" using ac relay_invD(7) [OF relay_reach_inv [OF ex_published_reach]] ex_published_cc
    by (auto simp: accept_client_def)
  have s: "sv_routes s = sv_routes (w_sv ex_published)" "sv_px s = sv_px (w_sv ex_published)"
    using ac by (auto simp: accept_client_def resetHeartbeat_def upd_cc_def)
  obtain go t where rl: "read_loop_step (ex_env (PNewProxy ex_np)) b 0 \<lparr>Type = TypeNewProxy, Payload = []\<rparr> (w_sv ?w) = (go, t)" by fastforce
  have "fmlookup (sv_routes t) ''a.b'' = Some 1 \<and> fmlookup (sv_routes (cleanup (ex_env (PNewProxy ex_np)) b t)) ''a.b'' = Some 1"
    by (rule no_domain_takeover [OF r ex_env_ok _ _ _ _ rl, of _ 1 px]) (use px b s in \<open>simp_all add: ex_published_routes\<close>)
  then show ?thesis using rl by (simp add: ac s ex_published_routes)
qed

text \<open>
  Signalling. A hole-punching offer reaches the client it is addressed to: if that client is
  connected, exactly the frame of the offer is appended to its stream and to no other; if it is
  not, the sender and only the sender is told so by a refusing answer for the same session.
\<close>

theorem offer_forwarded:
  assumes "DecodePayload (env_unmarshal env) msg = Inr (Some (PP2POffer m))" and "Type msg = TypeP2POffer"
    and "fmlookup (sv_cc s) a = Some cc"
    and "\<And>b bc. fmlookup (sv_cc s) b = Some bc \<Longrightarrow> \<not> closed (cc_conn bc) \<and> \<not> wfail (cc_conn bc)"
    and "sendable msg" and "NewP2PAnswerMessage (env_marshal env) (po_SessionID m) [] (cc_clientID cc) [] [] [] False ''peer not found'' = Inr refusal"
    and "sendable refusal"
  shows "forwardP2PMessage env a msg s =
    (case findClient (po_ToClientID m) s of
       Some t \<Rightarrow> (case fmlookup (sv_cc s) t of
           None \<Rightarrow> s
         | Some tc \<Rightarrow> s\<lparr>sv_cc := fmupd t (tc\<lparr>cc_conn := (cc_conn tc)\<lparr>wr := wr (cc_conn tc) @ frame msg\<rparr>\<rparr>) (sv_cc s)\<rparr>)
     | None \<Rightarrow> s\<lparr>sv_cc := fmupd a (cc\<lparr>cc_conn := (cc_conn cc)\<lparr>wr := wr (cc_conn cc) @ frame refusal\<rparr>\<rparr>) (sv_cc s)\<rparr>)"
proof (cases "findClient (po_ToClientID m) s")
  case None
  then show ?thesis
    using assms(2,6) cc_write_sends [OF assms(3) _ _ assms(7)] assms(4) [OF assms(3)]
    by (simp add: forwardP2PMessage_def assms(1) forward_to_def assms(3))
next
  case (Some t)
  show ?thesis
  proof (cases "fmlookup (sv_cc s) t")
    case None
    then show ?thesis using Some by (simp add: forwardP2PMessage_def assms(1) forward_to_def cc_write_def)
  next
    case (Some tc)
    then show ?thesis
      using \<open>findClient (po_ToClientID m) s = Some t\<close> cc_write_sends [OF Some _ _ assms(5)] assms(4) [OF Some]
      by (simp add: forwardP2PMessage_def assms(1) forward_to_def)
  qed
qed

theorem offer_forwarded_witness:
  "let offer = \<lparr>po_SessionID = ''s1'', po_FromClientID = ''a'', po_ToClientID = ''b'', po_Candidates = [],
                po_NATType = [], po_WGPublicKey = []\<rparr>;
       msg = \<lparr>Type = TypeP2POffer, Payload = [1]\<rparr>;
       cc = (\<lambda>i. NewClientConn i ex_conn [] 0);
       s = (NewServer DefaultConfig)\<lparr>sv_clients := fmupd ''a'' 0 (fmupd ''b'' 1 fmempty),
              sv_cc := fmupd 0 (cc ''a'') (fmupd 1 (cc ''b'') fmempty)\<rparr>
   in map_option (\<lambda>c. wr (cc_conn c)) (fmlookup (sv_cc (forwardP2PMessage (ex_env (PP2POffer offer)) 0 msg s)) 1) =
        Some (frame msg)"
proof -
  let ?offer = "\<lparr>po_SessionID = ''s1'', po_FromClientID = ''a'', po_ToClientID = ''b'', po_Candidates = [],
                po_NATType = [], po_WGPublicKey = []\<rparr>"
  let ?msg = "\<lparr>Type = TypeP2POffer, Payload = [1]\<rparr>" and ?cc = "\<lambda>i. NewClientConn i ex_conn [] 0"
  let ?s = "(NewServer DefaultConfig)\<lparr>sv_clients := fmupd ''a'' 0 (fmupd ''b'' 1 fmempty),
              sv_cc := fmupd 0 (?cc ''a'') (fmupd 1 (?cc ''b'') fmempty)\<rparr>"
  let ?env = "ex_env (PP2POffer ?offer)"
  have d: "DecodePayload (env_unmarshal ?env) ?msg = Inr (Some (PP2POffer ?offer))" by (rule ex_decode) simp
  have c: "fmlookup (sv_cc ?s) 0 = Some (?cc ''a'')" by simp
  have o: "\<not> closed (cc_conn bc) \<and> \<not> wfail (cc_conn bc)" if "fmlookup (sv_cc ?s) b = Some bc" for b bc
    using that by (auto simp: NewClientConn_def ex_conn_def NewConn_def NewServer_def split: if_splits)
  have r: "NewP2PAnswerMessage (env_marshal ?env) (po_SessionID ?offer) [] (cc_clientID (?cc ''a'')) [] [] [] False ''peer not found'' =
      Inr \<lparr>Type = TypeP2PAnswer, Payload = []\<rparr>"
    by (simp add: NewP2PAnswerMessage_def marshalMessage_def ex_env_def)
  have "forwardP2PMessage ?env 0 ?msg ?s = ?s\<lparr>sv_cc := fmupd 1 ((?cc ''b'')\<lparr>cc_conn :=
      (cc_conn (?cc ''b''))\<lparr>wr := wr (cc_conn (?cc ''b'')) @ frame ?msg\<rparr>\<rparr>) (sv_cc ?s)\<rparr>"
    by (rule offer_forwarded [OF d _ c _ _ r, THEN trans]) (simp, erule o, simp_all add: sendable_def findClient_def maxPayloadSize_def)
  then show ?thesis by (simp add: Let_def NewClientConn_def ex_conn_def NewConn_def)
qed

text \<open>
  Mesh pings are dropped. The read loop hands \<open>MeshPing\<close> and \<open>MeshPong\<close> to the forwarding
  of hole-punching messages, which knows neither: whatever peer they name, the message is not
  forwarded, and the round only records that the client is alive.
\<close>

theorem mesh_ping_dropped:
  assumes "json_typed (env_unmarshal env)" and "Type msg = TypeMeshPing \<or> Type msg = TypeMeshPong"
  shows "read_loop_step env a now msg s = (True, resetHeartbeat a now (markSeen a now s))"
proof -
  have f: "forwardP2PMessage env a msg t = t" for t
  proof (cases "DecodePayload (env_unmarshal env) msg")
    case (Inr v)
    show ?thesis
    proof (cases v)
      case (Some p)
      have "Type msg = type_of_kind (kind_of p)"
        by (rule DecodePayload_kind [OF assms(1)]) (simp add: Inr Some)
      then show ?thesis using assms(2) by (cases p) (auto simp: forwardP2PMessage_def Inr Some)
    qed (simp add: forwardP2PMessage_def Inr)
  qed (simp add: forwardP2PMessage_def)
  show ?thesis using assms(2) by (auto simp: read_loop_step_def Let_def f)
qed

theorem mesh_ping_dropped_witness:
  "\<exists>env msg. json_typed (env_unmarshal env) \<and> kind_of_type (Type msg) = Some KMeshPing \<and>
     fst (read_loop_step env 0 0 msg (NewServer DefaultConfig)) = True"
proof -
  let ?env = "ex_env (PMeshPing \<lparr>mi_FromClientID = ''a'', mi_ToClientID = ''b''\<rparr>)"
  let ?msg = "\<lparr>Type = TypeMeshPing, Payload = []\<rparr>"
  have j: "json_typed (env_unmarshal ?env)" by (simp add: json_typed_def ex_env_def)
  have "Type ?msg = TypeMeshPing \<or> Type ?msg = TypeMeshPong" by simp
  from mesh_ping_dropped [OF j this, of 0 0 "NewServer DefaultConfig"]
  have "fst (read_loop_step ?env 0 0 ?msg (NewServer DefaultConfig)) = True" by simp
  moreover have "kind_of_type (Type ?msg) = Some KMeshPing" by (simp add: kind_of_type_def)
  ultimately show ?thesis using j by blast
qed

text \<open>
  A published endpoint that does not exist. The domain \<open>..\<close> is normalised twice: once into
  \<open>.\<close>, which is not empty, so that no port is bound, and once more, by the registration, into
  the empty domain, which is silently skipped. The client is told that its endpoint is up,
  although no host leads to it and no port is open.
\<close>

theorem phantom_endpoint:
  assumes "DecodePayload (env_unmarshal env) msg = Inr (Some (PNewProxy np))"
    and "fmlookup (sv_cc s) a = Some cc" and "int (mlen (cc_proxies cc)) < MaxProxiesPerClient (sv_config s)"
    and "fmlookup (cc_proxies cc) (np_ProxyName np) = None" and "np_ExpiresAt np = []" and "np_RemotePort np = 0"
    and "np_Domain np = ''..''" and "DomainSuffix (sv_config s) = []"
  shows "\<exists>url s'. handleNewProxy env a msg s = sendProxyResp env a (np_ProxyName np) True 0 url [] s' \<and>
    getProxy a (np_ProxyName np) s' = Some (sv_next s) \<and> sv_routes s' = sv_routes s \<and>
    (\<exists>px. fmlookup (sv_px s') (sv_next s) = Some px \<and> \<not> px_listening px)"
proof -
  have n: "normalizeEndpointHost ''..'' = ''.''" "normalizeEndpointHost ''.'' = []" "normalizeEndpointHost [] = []"
    by code_simp+
  have d: "''.'' = endpointDomainFromProxy (sv_config s) (np_Domain np) (np_ProxyName np)"
    by (simp add: endpointDomainFromProxy_def assms(7,8) n)
  have reg: "registerEndpointRoute ''.'' (sv_next s) s1 = (None, s1\<lparr>sv_routes := sv_routes s\<rparr>)"
    if "sv_routes s1 = sv_routes s" for s1
    by (simp add: registerEndpointRoute_def n flip: that)
  show ?thesis
    using handleNewProxy_starts [OF assms(1-6) d _ reg]
    by (simp only: Let_def) (rule exI conjI refl | simp add: getProxy_def NewProxy_def)+
qed

theorem phantom_endpoint_witness:
  "let env = ex_env (PNewProxy (ex_np\<lparr>np_Domain := ''..''\<rparr>)); s = w_sv (ex_joined ''c'' ex_authed) in
   \<exists>url s'. handleNewProxy env 0 \<lparr>Type = TypeNewProxy, Payload = []\<rparr> s = sendProxyResp env 0 ''web'' True 0 url [] s' \<and>
     getProxy 0 ''web'' s' = Some 1 \<and> sv_routes s' = fmempty"
proof -
  let ?np = "ex_np\<lparr>np_Domain := ''..''\<rparr>" and ?s = "w_sv (ex_joined ''c'' ex_authed)"
  have d: "DecodePayload (env_unmarshal (ex_env (PNewProxy ?np))) \<lparr>Type = TypeNewProxy, Payload = []\<rparr> =
      Inr (Some (PNewProxy ?np))"
    by (rule ex_decode) simp
  have np: "np_ProxyName ?np = ''web''" "np_Domain ?np = ''..''" "np_ExpiresAt ?np = []" "np_RemotePort ?np = 0"
    by (simp_all add: ex_np_def)
  have "DomainSuffix (sv_config ?s) = []" by (simp add: ex_joined_cc DefaultConfig_def)
  from phantom_endpoint [OF d ex_joined_cc(1) _ _ np(3,4,2) this] show ?thesis
    unfolding Let_def np(1) ex_joined_cc by (auto simp: NewClientConn_def ex_quota [simplified])
qed

text \<open>
  Two logins under one identifier. The test for a connected identifier and the insertion of
  the client are two steps: in a reachable state a client's control loop runs on an open
  connection although its identifier is not found any more, so that it can neither be
  administered nor be given work connections (the first of the two has ended, and has removed
  the entry of the second).
\<close>

theorem duplicate_login_race:
  "\<exists>w a cc. relay_reach DefaultConfig w \<and> a \<in> w_live w \<and> fmlookup (sv_cc (w_sv w)) a = Some cc \<and>
     cc_clientID cc = ''c'' \<and> \<not> closed (cc_conn cc) \<and> \<not> cc_done (w_sv w) a \<and> findClient ''c'' (w_sv w) = None \<and>
     fst (DisconnectClient ''c'' (w_sv w)) = Some (ClientNotFound ''c'')"
proof -
  let ?s0 = "NewServer DefaultConfig"
  let ?w0 = "\<lparr>w_sv = ?s0, w_auth = [], w_live = {}\<rparr>"
  let ?i = "(''c'', ex_authed)"
  let ?w2 = "?w0\<lparr>w_auth := [?i, ?i]\<rparr>"
  have au: "auth_check (ex_env (ex_auth ''c'')) \<lparr>Type = TypeAuth, Payload = []\<rparr> ex_conn ?s0 = (Some ''c'', ex_authed)"
    by (rule ex_auth_check) (simp_all add: NewServer_def DefaultConfig_def)
  have "relay_step ?w0 (?w0\<lparr>w_auth := [?i]\<rparr>)" "relay_step (?w0\<lparr>w_auth := [?i]\<rparr>) ?w2"
    using r_auth [OF ex_env_ok, of "ex_auth ''c''" _ _ ?w0] r_auth [OF ex_env_ok, of "ex_auth ''c''" _ _ "?w0\<lparr>w_auth := [?i]\<rparr>"] au
    by simp_all
  then have r2: "relay_reach DefaultConfig ?w2" using rr_step rr_init by blast
  obtain a s1 where s1: "accept_client ''c'' ex_authed [] 0 ?s0 = (a, s1)" by fastforce
  obtain b s2 where s2: "accept_client ''c'' ex_authed [] 0 s1 = (b, s2)" by fastforce
  let ?w4 = "\<lparr>w_sv = s2, w_auth = [], w_live = {b, a}\<rparr>"
  have "relay_step ?w2 \<lparr>w_sv = s1, w_auth = [?i], w_live = {a}\<rparr>"
    using r_accept [of "''c''" ex_authed ?w2 "[]" 0 a s1] s1 by simp
  moreover have "relay_step \<lparr>w_sv = s1, w_auth = [?i], w_live = {a}\<rparr> ?w4"
    using r_accept [of "''c''" ex_authed "\<lparr>w_sv = s1, w_auth = [?i], w_live = {a}\<rparr>" "[]" 0 b s2] s2 by simp
  ultimately have r4: "relay_reach DefaultConfig ?w4" using rr_step r2 by blast
  have ab: "a = 0" "b = 1" using s1 s2 by (auto simp: accept_client_def NewServer_def resetHeartbeat_def upd_cc_def)
  have c: "sv_clients s2 = fmupd ''c'' 1 (fmupd ''c'' 0 fmempty)" "sv_cancelled s2 = False" "sv_mesh s2 = fmempty"
    using s1 s2 by (auto simp: accept_client_def NewServer_def resetHeartbeat_def upd_cc_def)
  obtain c0 c1 where cc: "fmlookup (sv_cc s2) 0 = Some c0" "cc_clientID c0 = ''c''" "cc_proxies c0 = fmempty"
      "fmlookup (sv_cc s2) 1 = Some c1" "cc_clientID c1 = ''c''" "cc_conn c1 = ex_authed" "\<not> cc_cancelled c1"
    using s1 s2 by (auto simp: accept_client_def NewServer_def resetHeartbeat_def upd_cc_def NewClientConn_def)
  let ?env = "ex_env (ex_auth ''c'')" and ?s = "cleanup (ex_env (ex_auth ''c'')) 0 s2"
  have ks: "range_keys ?env fmempty = []"
    by (simp add: range_keys_def ex_env_def sorted_list_of_fset.rep_eq)
  have s: "sv_clients ?s = fmdrop ''c'' (sv_clients s2)" "fmlookup (sv_cc ?s) 1 = Some c1" "sv_cancelled ?s = False"
    using cc c by (simp_all add: cleanup_def Let_def ks unregisterMeshPeer_def removeClient_def upd_cc_def)
  have r5: "relay_reach DefaultConfig (?w4\<lparr>w_sv := ?s, w_live := {1, 0} - {0}\<rparr>)"
    using rr_step [OF r4 r_disconnect [OF ex_env_ok, of 0 ?w4]] ab by simp
  have f: "findClient ''c'' ?s = None" by (simp add: findClient_def s)
  have t: "trim_space ''c'' \<noteq> []" by code_simp
  show ?thesis
    by (rule exI [of _ "?w4\<lparr>w_sv := ?s, w_live := {1, 0} - {0}\<rparr>"], rule exI [of _ 1], rule exI [of _ c1])
      (simp add: r5 [simplified] s s(2) [simplified] f cc t DisconnectClient_def cc_done_def ex_authed_def ex_conn_def NewConn_def)
qed

text \<open>
  Mesh identities are not checked. A join is stored, and a leave is applied, under the
  identifier in the message, whatever client sent it: any client can replace the key of another
  member or remove it from the mesh.
\<close>

theorem mesh_identity_unchecked:
  assumes "DecodePayload (env_unmarshal env) join = Inr (Some (PMeshJoin j))" and "Type join = TypeMeshJoin"
    and "DecodePayload (env_unmarshal env') leave = Inr (Some (PMeshLeave l))" and "Type leave = TypeMeshLeave"
  shows "fmlookup (sv_mesh (snd (read_loop_step env a now join s))) (mj_ClientID j) =
      Some \<lparr>mp_ClientID = mj_ClientID j, mp_NATType = mj_NATType j, mp_WGPubKey = mj_WGPubKey j, mp_Subnet = mj_Subnet j\<rparr> \<and>
    sv_mesh (snd (read_loop_step env' a now leave s)) = fmdrop (mv_ClientID l) (sv_mesh s)"
proof -
  have m: "sv_mesh (resetHeartbeat a now (markSeen a now s)) = sv_mesh s"
    by (simp add: resetHeartbeat_def markSeen_def upd_cc_def split: option.split)
  have "fmdrop k f = f" if "fmlookup f k = None" for k and f :: "(string, MeshPeerJSON) fmap"
    using that by (intro fmap_ext) simp
  then show ?thesis using assms
    by (simp add: read_loop_step_def Let_def handleMeshJoin_def handleMeshLeave_def registerMeshPeer_def
        unregisterMeshPeer_def m)
qed

theorem mesh_identity_unchecked_witness:
  "let j = \<lparr>mj_ClientID = ''victim'', mj_WGPubKey = ''key'', mj_NATType = [], mj_Subnet = []\<rparr>;
       s = snd (read_loop_step (ex_env (PMeshJoin j)) 0 0 \<lparr>Type = TypeMeshJoin, Payload = []\<rparr> (w_sv (ex_joined ''c'' ex_authed)))
   in map_option mp_WGPubKey (fmlookup (sv_mesh s) ''victim'') = Some ''key''"
proof -
  let ?j = "\<lparr>mj_ClientID = ''victim'', mj_WGPubKey = ''key'', mj_NATType = [], mj_Subnet = []\<rparr>"
  have d: "DecodePayload (env_unmarshal (ex_env (PMeshJoin ?j))) \<lparr>Type = TypeMeshJoin, Payload = []\<rparr> = Inr (Some (PMeshJoin ?j))"
    by (rule ex_decode) simp
  have l: "DecodePayload (env_unmarshal (ex_env (PMeshLeave \<lparr>mv_ClientID = ''victim''\<rparr>))) \<lparr>Type = TypeMeshLeave, Payload = []\<rparr> =
      Inr (Some (PMeshLeave \<lparr>mv_ClientID = ''victim''\<rparr>))"
    by (rule ex_decode) simp
  show ?thesis
    using mesh_identity_unchecked [OF d _ l, of 0 0 "w_sv (ex_joined ''c'' ex_authed)"] by (simp add: Let_def)
qed

end
