(* ===== verification/Audit_Log.thy ===== *)
theory Audit_Log
  imports Go_Prelude
begin

text \<open>
  The audit log (\<open>pkg/audit/audit.go\<close>): events, filters and the JSON Lines logger, whose file is a
  list of lines. \<open>encoding/json\<close> is a pair of arguments: what \<open>Encode\<close> writes for an event, and what
  \<open>Unmarshal\<close> reads from a line. The SQLite logger runs the same filter as a query of its database
  and is not modelled.
\<close>

record AuditEvent =
  ae_Timestamp :: gotime
  ae_Actor :: string
  ae_Action :: string
  ae_Resource :: string
  ae_ResourceID :: string
  ae_Details :: "(string \<times> string) list"
  ae_SourceIP :: string
  ae_Result :: string

record AuditFilter =
  af_Actor :: string
  af_Action :: string
  af_Resource :: string
  af_Result :: string
  af_StartTime :: gotime
  af_EndTime :: gotime
  af_Limit :: int

definition NewEvent :: "gotime \<Rightarrow> string \<Rightarrow> string \<Rightarrow> string \<Rightarrow> string \<Rightarrow> string \<Rightarrow> AuditEvent" where
  "NewEvent now actor action resource resourceID result =
     \<lparr>ae_Timestamp = now, ae_Actor = actor, ae_Action = action, ae_Resource = resource,
      ae_ResourceID = resourceID, ae_Details = [], ae_SourceIP = [], ae_Result = result\<rparr>"

definition matchesAuditFilter :: "AuditEvent \<Rightarrow> AuditFilter \<Rightarrow> bool" where
  "matchesAuditFilter event flt =
     (if af_Actor flt \<noteq> [] \<and> ae_Actor event \<noteq> af_Actor flt then False
      else if af_Action flt \<noteq> [] \<and> ae_Action event \<noteq> af_Action flt then False
      else if af_Resource flt \<noteq> [] \<and> ae_Resource event \<noteq> af_Resource flt then False
      else if af_Result flt \<noteq> [] \<and> ae_Result event \<noteq> af_Result flt then False
      else if \<not> is_zero_time (af_StartTime flt) \<and> ae_Timestamp event < af_StartTime flt then False
      else if \<not> is_zero_time (af_EndTime flt) \<and> af_EndTime flt < ae_Timestamp event then False
      else True)"

record AuditFile =
  au_open :: bool
  au_lines :: "string list"

text \<open>The scanner's buffer: a line that does not fit with its newline is an error.\<close>

definition max_line :: nat where
  "max_line = 2 * 1024 * 1024"

datatype audit_error = AuditClosed | AuditDecode nat | AuditScan

definition audit_Log :: "(AuditEvent \<Rightarrow> string option) \<Rightarrow> AuditEvent \<Rightarrow> AuditFile \<Rightarrow> AuditFile" where
  "audit_Log encode event l =
     (if \<not> au_open l then l
      else (case encode event of None \<Rightarrow> l | Some line \<Rightarrow> l\<lparr>au_lines := au_lines l @ [line]\<rparr>))"

text \<open>The scan of the file: line numbers count from 1, empty lines are skipped.\<close>

fun scan_lines :: "(string \<Rightarrow> AuditEvent option) \<Rightarrow> nat \<Rightarrow> string list \<Rightarrow> audit_error + AuditEvent list" where
  "scan_lines decode n [] = Inr []"
| "scan_lines decode n (line # ls) =
     (if length line \<ge> max_line then Inl AuditScan
      else if line = [] then scan_lines decode (n + 1) ls
      else (case decode line of
              None \<Rightarrow> Inl (AuditDecode (n + 1))
            | Some event \<Rightarrow> (case scan_lines decode (n + 1) ls of
                              Inl e \<Rightarrow> Inl e
                            | Inr events \<Rightarrow> Inr (event # events))))"

text \<open>
  The loop over the events from the last one on; \<open>matched\<close> is what it has collected, newest first.
\<close>

fun take_matching :: "AuditFilter \<Rightarrow> AuditEvent list \<Rightarrow> AuditEvent list \<Rightarrow> AuditEvent list" where
  "take_matching flt [] matched = matched"
| "take_matching flt (event # events) matched =
     (if \<not> matchesAuditFilter event flt then take_matching flt events matched
      else if af_Limit flt > 0 \<and> int (length (matched @ [event])) \<ge> af_Limit flt then matched @ [event]
      else take_matching flt events (matched @ [event]))"

definition audit_Query ::
    "(string \<Rightarrow> AuditEvent option) \<Rightarrow> AuditFilter \<Rightarrow> AuditFile \<Rightarrow> audit_error + AuditEvent list" where
  "audit_Query decode flt l =
     (if \<not> au_open l then Inl AuditClosed
      else (case scan_lines decode 0 (au_lines l) of
              Inl e \<Rightarrow> Inl e
            | Inr events \<Rightarrow> Inr (take_matching flt (rev events) [])))"

definition audit_Close :: "AuditFile \<Rightarrow> AuditFile" where
  "audit_Close l = l\<lparr>au_open := False\<rparr>"

fun audit_log_all :: "(AuditEvent \<Rightarrow> string option) \<Rightarrow> AuditEvent list \<Rightarrow> AuditFile \<Rightarrow> AuditFile" where
  "audit_log_all encode [] l = l"
| "audit_log_all encode (e # es) l = audit_log_all encode es (audit_Log encode e l)"

section \<open>Lemmas\<close>

lemma take_matching_take:
  "take_matching f es ms =
     (if af_Limit f > 0 \<and> int (length ms) < af_Limit f
      then take (nat (af_Limit f)) (ms @ filter (\<lambda>e. matchesAuditFilter e f) es)
      else if af_Limit f > 0 then ms @ take 1 (filter (\<lambda>e. matchesAuditFilter e f) es)
      else ms @ filter (\<lambda>e. matchesAuditFilter e f) es)"
proof (induction f es ms rule: take_matching.induct)
  case (2 f e es ms)
  have n: "nat (af_Limit f) = Suc (length ms)" if "int (length ms) < af_Limit f" "af_Limit f \<le> 1 + int (length ms)"
    using that by simp
  show ?case using 2 by (auto simp: n)
qed simp

lemma scan_lines_encoded:
  assumes "\<And>e. e \<in> set es \<Longrightarrow> \<exists>line. encode e = Some line \<and> line \<noteq> [] \<and> length line < max_line \<and> decode line = Some e"
  shows "scan_lines decode n (map (\<lambda>e. the (encode e)) es) = Inr es"
  using assms by (induction es arbitrary: n) fastforce+

lemma audit_log_all_lines:
  assumes "au_open l" and "\<And>e. e \<in> set es \<Longrightarrow> encode e \<noteq> None"
  shows "audit_log_all encode es l = l\<lparr>au_lines := au_lines l @ map (\<lambda>e. the (encode e)) es\<rparr>"
  using assms
proof (induction es arbitrary: l)
  case (Cons e es)
  then obtain line where "encode e = Some line" by fastforce
  then show ?case using Cons by (simp add: audit_Log_def)
qed simp

section \<open>Properties\<close>



end
