(* ===== verification/Control_Plane.thy ===== *)
theory Control_Plane
  imports Ipam Audit_Log
begin

text \<open>
  The control plane (\<open>server/internal/controlplane\<close>): the in-memory store (\<open>store_memory.go\<close>), the
  node registry, the access rules and the key exchange (\<open>node_registry.go\<close>), the virtual network
  manager (\<open>virtual_network.go\<close>) and the HTTP handlers with their authentication (\<open>server.go\<close>).

  The Go code keeps pointers to one \<open>NodeInfo\<close> in the store and in the registry and writes through
  both, so nodes live in a heap, \<open>cp_heap\<close>, and the maps hold addresses. Rules and keys are not
  written after they are stored, and are values. A handler gets the decoded payload (\<open>None\<close> if the
  JSON decoder refuses the body), the readings of the clock, and the order in which a call ranges
  over a map; the response is its status and body.
\<close>

record NodeInfo =
  ni_NodeID :: string
  ni_PublicKey :: string
  ni_NATType :: string
  ni_Region :: string
  ni_Subnet :: string
  ni_VirtualIP :: string
  ni_Metadata :: "(string \<times> string) list"
  ni_ConnectedAt :: gotime
  ni_LastSeen :: gotime

record ACLRule =
  al_ID :: string
  al_Source :: string
  al_Target :: string
  al_Action :: string
  al_Protocol :: string
  al_Ports :: "int list"
  al_Priority :: int
  al_ExpiresAt :: "gotime option"
  al_CreatedAt :: gotime

record KeyMaterial =
  km_NodeID :: string
  km_PublicKey :: string
  km_KeyVersion :: int
  km_RotatedAt :: gotime
  km_ExpiresAt :: gotime

section \<open>The store\<close>

record MemoryStore =
  ms_nodes :: "(string, nat) fmap"
  ms_acls :: "(string, ACLRule) fmap"
  ms_keys :: "(string, KeyMaterial) fmap"
  ms_ips :: "(string, 32 word) fmap"

datatype store_error =
    NodeMissing string
  | RuleMissing string
  | KeyMissing string
  | IPMissing string

definition NewMemoryStore :: MemoryStore where
  "NewMemoryStore = \<lparr>ms_nodes = fmempty, ms_acls = fmempty, ms_keys = fmempty, ms_ips = fmempty\<rparr>"

definition SaveNode :: "string \<Rightarrow> nat \<Rightarrow> MemoryStore \<Rightarrow> store_error option \<times> MemoryStore" where
  "SaveNode nodeID node s = (None, s\<lparr>ms_nodes := fmupd nodeID node (ms_nodes s)\<rparr>)"

definition GetNode :: "string \<Rightarrow> MemoryStore \<Rightarrow> store_error + nat" where
  "GetNode nodeID s = (case fmlookup (ms_nodes s) nodeID of None \<Rightarrow> Inl (NodeMissing nodeID) | Some n \<Rightarrow> Inr n)"

definition ListNodes :: "string list \<Rightarrow> MemoryStore \<Rightarrow> store_error + nat list" where
  "ListNodes ks s = Inr (range_vals (ms_nodes s) ks)"

definition DeleteNode :: "string \<Rightarrow> MemoryStore \<Rightarrow> store_error option \<times> MemoryStore" where
  "DeleteNode nodeID s = (None, s\<lparr>ms_nodes := fmdrop nodeID (ms_nodes s)\<rparr>)"

definition SaveACLRule :: "ACLRule \<Rightarrow> MemoryStore \<Rightarrow> store_error option \<times> MemoryStore" where
  "SaveACLRule rule s = (None, s\<lparr>ms_acls := fmupd (al_ID rule) rule (ms_acls s)\<rparr>)"

definition GetACLRule :: "string \<Rightarrow> MemoryStore \<Rightarrow> store_error + ACLRule" where
  "GetACLRule ruleID s = (case fmlookup (ms_acls s) ruleID of None \<Rightarrow> Inl (RuleMissing ruleID) | Some r \<Rightarrow> Inr r)"

definition ListACLRules :: "string list \<Rightarrow> MemoryStore \<Rightarrow> store_error + ACLRule list" where
  "ListACLRules ks s = Inr (range_vals (ms_acls s) ks)"

definition DeleteACLRule :: "string \<Rightarrow> MemoryStore \<Rightarrow> store_error option \<times> MemoryStore" where
  "DeleteACLRule ruleID s = (None, s\<lparr>ms_acls := fmdrop ruleID (ms_acls s)\<rparr>)"

definition SaveKeyMaterial :: "KeyMaterial \<Rightarrow> MemoryStore \<Rightarrow> store_error option \<times> MemoryStore" where
  "SaveKeyMaterial km s = (None, s\<lparr>ms_keys := fmupd (km_NodeID km) km (ms_keys s)\<rparr>)"

definition GetKeyMaterial :: "string \<Rightarrow> MemoryStore \<Rightarrow> store_error + KeyMaterial" where
  "GetKeyMaterial nodeID s = (case fmlookup (ms_keys s) nodeID of None \<Rightarrow> Inl (KeyMissing nodeID) | Some k \<Rightarrow> Inr k)"

definition SaveIPAllocation :: "string \<Rightarrow> 32 word \<Rightarrow> MemoryStore \<Rightarrow> store_error option \<times> MemoryStore" where
  "SaveIPAllocation nodeID ip s = (None, s\<lparr>ms_ips := fmupd nodeID ip (ms_ips s)\<rparr>)"

definition GetIPAllocation :: "string \<Rightarrow> MemoryStore \<Rightarrow> store_error + 32 word" where
  "GetIPAllocation nodeID s = (case fmlookup (ms_ips s) nodeID of None \<Rightarrow> Inl (IPMissing nodeID) | Some ip \<Rightarrow> Inr ip)"

definition DeleteIPAllocation :: "string \<Rightarrow> MemoryStore \<Rightarrow> store_error option \<times> MemoryStore" where
  "DeleteIPAllocation nodeID s = (None, s\<lparr>ms_ips := fmdrop nodeID (ms_ips s)\<rparr>)"

definition ListIPAllocations :: "MemoryStore \<Rightarrow> store_error + (string, 32 word) fmap" where
  "ListIPAllocations s = Inr (ms_ips s)"

section \<open>The virtual network\<close>

record VirtualNetworkManager =
  vn_allocator :: IPAM
  vn_subnet :: string
  vn_gateway :: string
  vn_iface :: string
  vn_mtu :: int
  vn_routeMetric :: int

record VirtualNetworkRoute =
  vr_Destination :: string
  vr_Gateway :: string
  vr_Interface :: string
  vr_Metric :: int

record VirtualNetworkConfig =
  vc_NodeID :: string
  vc_VirtualIP :: string
  vc_Subnet :: string
  vc_Gateway :: string
  vc_Interface :: string
  vc_MTU :: int
  vc_Routes :: "VirtualNetworkRoute list"

record ControlPlaneConfig =
  cc_APIToken :: string
  cc_NodeTimeout :: duration
  cc_KeyRotationPeriod :: duration
  cc_IPAMEnabled :: bool
  cc_VirtualSubnet :: string
  cc_VirtualGateway :: string
  cc_VirtualInterface :: string
  cc_VirtualMTU :: int
  cc_VirtualRouteMetric :: int

definition DefaultControlPlaneConfig :: ControlPlaneConfig where
  "DefaultControlPlaneConfig =
     \<lparr>cc_APIToken = [], cc_NodeTimeout = 60 * second, cc_KeyRotationPeriod = 24 * 60 * minute,
      cc_IPAMEnabled = True, cc_VirtualSubnet = ''10.7.0.0/24'', cc_VirtualGateway = ''10.7.0.1'',
      cc_VirtualInterface = ''nextunnel0'', cc_VirtualMTU = 1420, cc_VirtualRouteMetric = 100\<rparr>"

text \<open>\<open>IP.String\<close> of an IPv4 address.\<close>

definition ip4_string :: "32 word \<Rightarrow> string" where
  "ip4_string w =
     nat_str (unat (drop_bit 24 w)) @ ''.'' @ nat_str (unat (take_bit 8 (drop_bit 16 w))) @ ''.'' @
     nat_str (unat (take_bit 8 (drop_bit 8 w))) @ ''.'' @ nat_str (unat (take_bit 8 w))"

datatype cp_error =
    NodeIDRequired
  | CreateIPAM ipam_error
  | ReserveExisting string ipam_error
  | AllocateIP string ipam_error
  | PersistIP string
  | DeleteIP string
  | NoVirtualIP string
  | RepairFailed string cp_error
  | RestoreFailed string ipam_error
  | NodeNotFound string
  | SaveFailed
  | StoreFailed store_error

definition AssignNode ::
    "NodeInfo \<Rightarrow> VirtualNetworkManager \<Rightarrow> MemoryStore \<Rightarrow>
       cp_error option \<times> NodeInfo \<times> VirtualNetworkManager \<times> MemoryStore" where
  "AssignNode node m st =
     (if ni_NodeID node = [] then (Some NodeIDRequired, node, m, st)
      else (case GetIPAllocation (ni_NodeID node) st of
              Inr existingIP \<Rightarrow>
                (case Reserve (ni_NodeID node) (IP4 existingIP) (vn_allocator m) of
                   (Some e, al) \<Rightarrow> (Some (ReserveExisting (ni_NodeID node) e), node, m\<lparr>vn_allocator := al\<rparr>, st)
                 | (None, al) \<Rightarrow>
                     (None, node\<lparr>ni_VirtualIP := ip4_string existingIP, ni_Subnet := vn_subnet m\<rparr>,
                      m\<lparr>vn_allocator := al\<rparr>, st))
            | Inl _ \<Rightarrow>
                (case Allocate (ni_NodeID node) (vn_allocator m) of
                   (Inl e, al) \<Rightarrow> (Some (AllocateIP (ni_NodeID node) e), node, m\<lparr>vn_allocator := al\<rparr>, st)
                 | (Inr ip, al) \<Rightarrow>
                     (case SaveIPAllocation (ni_NodeID node) ip st of
                        (Some _, st) \<Rightarrow>
                          (Some (PersistIP (ni_NodeID node)), node,
                           m\<lparr>vn_allocator := Release (ni_NodeID node) al\<rparr>, st)
                      | (None, st) \<Rightarrow>
                          (None, node\<lparr>ni_VirtualIP := ip4_string ip, ni_Subnet := vn_subnet m\<rparr>,
                           m\<lparr>vn_allocator := al\<rparr>, st)))))"

definition ReleaseNode ::
    "string \<Rightarrow> VirtualNetworkManager \<Rightarrow> MemoryStore \<Rightarrow> cp_error option \<times> VirtualNetworkManager \<times> MemoryStore" where
  "ReleaseNode nodeID m st =
     (let m = m\<lparr>vn_allocator := Release nodeID (vn_allocator m)\<rparr> in
      case DeleteIPAllocation nodeID st of
        (Some _, st) \<Rightarrow> (Some (DeleteIP nodeID), m, st)
      | (None, st) \<Rightarrow> (None, m, st))"

fun restoreAllocations ::
    "(string, 32 word) fmap \<Rightarrow> string list \<Rightarrow> VirtualNetworkManager \<Rightarrow> cp_error + VirtualNetworkManager" where
  "restoreAllocations allocs [] m = Inr m"
| "restoreAllocations allocs (nodeID # ks) m =
     (case fmlookup allocs nodeID of
        None \<Rightarrow> restoreAllocations allocs ks m
      | Some ip \<Rightarrow>
          (case Reserve nodeID (IP4 ip) (vn_allocator m) of
             (Some e, _) \<Rightarrow> Inl (RestoreFailed nodeID e)
           | (None, al) \<Rightarrow> restoreAllocations allocs ks (m\<lparr>vn_allocator := al\<rparr>)))"

record netparse =
  np_CIDR :: "string \<Rightarrow> ipnet option"
  np_IP :: "string \<Rightarrow> netip"

definition NewVirtualNetworkManager ::
    "netparse \<Rightarrow> ControlPlaneConfig \<Rightarrow> string list \<Rightarrow> MemoryStore \<Rightarrow> cp_error + VirtualNetworkManager" where
  "NewVirtualNetworkManager net cfg ks st =
     (case NewIPAM (np_CIDR net) (np_IP net) (cc_VirtualSubnet cfg) (cc_VirtualGateway cfg) of
        Inl e \<Rightarrow> Inl (CreateIPAM e)
      | Inr allocator \<Rightarrow>
          (case ListIPAllocations st of
             Inl e \<Rightarrow> Inl (StoreFailed e)
           | Inr allocs \<Rightarrow>
               restoreAllocations allocs ks
                 \<lparr>vn_allocator = allocator, vn_subnet = cc_VirtualSubnet cfg, vn_gateway = cc_VirtualGateway cfg,
                  vn_iface = cc_VirtualInterface cfg, vn_mtu = cc_VirtualMTU cfg,
                  vn_routeMetric = cc_VirtualRouteMetric cfg\<rparr>))"

definition network_config :: "VirtualNetworkManager \<Rightarrow> string \<Rightarrow> 32 word \<Rightarrow> VirtualNetworkConfig" where
  "network_config m nodeID ip =
     \<lparr>vc_NodeID = nodeID, vc_VirtualIP = ip4_string ip, vc_Subnet = vn_subnet m, vc_Gateway = vn_gateway m,
      vc_Interface = vn_iface m, vc_MTU = vn_mtu m,
      vc_Routes = [\<lparr>vr_Destination = vn_subnet m, vr_Gateway = vn_gateway m, vr_Interface = vn_iface m,
                    vr_Metric = vn_routeMetric m\<rparr>]\<rparr>"

section \<open>The server\<close>

record ControlServer =
  cp_config :: ControlPlaneConfig
  cp_store :: MemoryStore
  cp_heap :: "(nat, NodeInfo) fmap"
  cp_next :: nat
  cp_registry :: "(string, nat) fmap"
  cp_rules :: "(string, ACLRule) fmap"
  cp_vnet :: "VirtualNetworkManager option"
  cp_vnetErr :: "cp_error option"
  cp_audit :: "AuditEvent list"

definition cp_node :: "ControlServer \<Rightarrow> nat \<Rightarrow> NodeInfo option" where
  "cp_node s a = fmlookup (cp_heap s) a"

definition cp_write :: "nat \<Rightarrow> NodeInfo \<Rightarrow> ControlServer \<Rightarrow> ControlServer" where
  "cp_write a n s = s\<lparr>cp_heap := fmupd a n (cp_heap s)\<rparr>"

fun restoreNodes :: "(nat, NodeInfo) fmap \<Rightarrow> nat list \<Rightarrow> (string, nat) fmap \<Rightarrow> (string, nat) fmap" where
  "restoreNodes heap [] reg = reg"
| "restoreNodes heap (a # as) reg =
     (case fmlookup heap a of
        None \<Rightarrow> restoreNodes heap as reg
      | Some node \<Rightarrow> if ni_NodeID node = [] then restoreNodes heap as reg
                     else restoreNodes heap as (fmupd (ni_NodeID node) a reg))"

fun restoreRules :: "ACLRule list \<Rightarrow> (string, ACLRule) fmap \<Rightarrow> (string, ACLRule) fmap" where
  "restoreRules [] rules = rules"
| "restoreRules (r # rs) rules =
     (if al_ID r = [] then restoreRules rs rules else restoreRules rs (fmupd (al_ID r) r rules))"

text \<open>The orders in which the constructor ranges over the tables of the store.\<close>

record store_orders =
  so_nodes :: "string list"
  so_acls :: "string list"
  so_ips :: "string list"

definition NewControlServer ::
    "netparse \<Rightarrow> ControlPlaneConfig \<Rightarrow> store_orders \<Rightarrow> MemoryStore \<Rightarrow> (nat, NodeInfo) fmap \<Rightarrow> nat \<Rightarrow> ControlServer" where
  "NewControlServer net cfg ord st heap next =
     (let vr = (if cc_IPAMEnabled cfg
                then (case NewVirtualNetworkManager net cfg (so_ips ord) st of
                        Inl e \<Rightarrow> (None, Some e) | Inr m \<Rightarrow> (Some m, None))
                else (None, None))
      in \<lparr>cp_config = cfg, cp_store = st, cp_heap = heap, cp_next = next,
          cp_registry = (case ListNodes (so_nodes ord) st of Inl _ \<Rightarrow> fmempty | Inr ns \<Rightarrow> restoreNodes heap ns fmempty),
          cp_rules = (case ListACLRules (so_acls ord) st of Inl _ \<Rightarrow> fmempty | Inr rs \<Rightarrow> restoreRules rs fmempty),
          cp_vnet = fst vr, cp_vnetErr = snd vr, cp_audit = []\<rparr>)"

section \<open>The node registry\<close>

definition Register :: "gotime \<Rightarrow> gotime \<Rightarrow> nat \<Rightarrow> ControlServer \<Rightarrow> cp_error option \<times> ControlServer" where
  "Register connected seen a s =
     (case cp_node s a of
        None \<Rightarrow> (Some SaveFailed, s)
      | Some node \<Rightarrow>
          let s = cp_write a (node\<lparr>ni_ConnectedAt := connected, ni_LastSeen := seen\<rparr>) s in
          (case SaveNode (ni_NodeID node) a (cp_store s) of
             (Some _, st) \<Rightarrow> (Some SaveFailed, s\<lparr>cp_store := st\<rparr>)
           | (None, st) \<Rightarrow>
               (None, s\<lparr>cp_store := st, cp_registry := fmupd (ni_NodeID node) a (cp_registry s)\<rparr>)))"

definition touch_node :: "gotime \<Rightarrow> nat \<Rightarrow> ControlServer \<Rightarrow> cp_error option \<times> ControlServer" where
  "touch_node now a s =
     (case cp_node s a of
        None \<Rightarrow> (Some SaveFailed, s)
      | Some node \<Rightarrow>
          let s = cp_write a (node\<lparr>ni_LastSeen := now\<rparr>) s in
          (case SaveNode (ni_NodeID node) a (cp_store s) of
             (Some e, st) \<Rightarrow> (Some (StoreFailed e), s\<lparr>cp_store := st\<rparr>)
           | (None, st) \<Rightarrow> (None, s\<lparr>cp_store := st\<rparr>)))"

definition Heartbeat :: "gotime \<Rightarrow> string \<Rightarrow> ControlServer \<Rightarrow> cp_error option \<times> ControlServer" where
  "Heartbeat now nodeID s =
     (case fmlookup (cp_registry s) nodeID of
        Some a \<Rightarrow> touch_node now a s
      | None \<Rightarrow>
          (case GetNode nodeID (cp_store s) of
             Inl _ \<Rightarrow> (Some (NodeNotFound nodeID), s)
           | Inr a \<Rightarrow> touch_node now a (s\<lparr>cp_registry := fmupd nodeID a (cp_registry s)\<rparr>)))"

definition Deregister :: "string \<Rightarrow> ControlServer \<Rightarrow> cp_error option \<times> ControlServer" where
  "Deregister nodeID s =
     (let s = s\<lparr>cp_registry := fmdrop nodeID (cp_registry s)\<rparr> in
      case DeleteNode nodeID (cp_store s) of
        (e, st) \<Rightarrow> (map_option StoreFailed e, s\<lparr>cp_store := st\<rparr>))"

definition registry_Get :: "string \<Rightarrow> ControlServer \<Rightarrow> cp_error + nat" where
  "registry_Get nodeID s =
     (case fmlookup (cp_registry s) nodeID of
        Some a \<Rightarrow> Inr a
      | None \<Rightarrow> (case GetNode nodeID (cp_store s) of Inl e \<Rightarrow> Inl (StoreFailed e) | Inr a \<Rightarrow> Inr a))"

definition registry_List :: "string list \<Rightarrow> ControlServer \<Rightarrow> NodeInfo list" where
  "registry_List ks s = List.map_filter (cp_node s) (range_vals (cp_registry s) ks)"

definition registry_Count :: "ControlServer \<Rightarrow> nat" where
  "registry_Count s = mlen (cp_registry s)"

fun prune_range :: "gotime \<Rightarrow> string list \<Rightarrow> ControlServer \<Rightarrow> string list \<times> ControlServer" where
  "prune_range cutoff [] s = ([], s)"
| "prune_range cutoff (key # ks) s =
     (case fmlookup (cp_registry s) key of
        None \<Rightarrow> prune_range cutoff ks s
      | Some a \<Rightarrow>
          (case cp_node s a of
             None \<Rightarrow> prune_range cutoff ks s
           | Some node \<Rightarrow>
               if ni_LastSeen node < cutoff then
                 (case prune_range cutoff ks
                         (s\<lparr>cp_registry := fmdrop key (cp_registry s),
                            cp_store := snd (DeleteNode (ni_NodeID node) (cp_store s))\<rparr>) of
                    (ids, s) \<Rightarrow> (ni_NodeID node # ids, s))
               else prune_range cutoff ks s))"

definition PruneStaleIDs :: "gotime \<Rightarrow> duration \<Rightarrow> string list \<Rightarrow> ControlServer \<Rightarrow> string list \<times> ControlServer" where
  "PruneStaleIDs now timeout ks s = prune_range (now - timeout) ks s"

section \<open>Access rules\<close>

definition AddRule :: "gotime \<Rightarrow> ACLRule \<Rightarrow> ControlServer \<Rightarrow> cp_error option \<times> ControlServer" where
  "AddRule now rule0 s =
     (let rule = rule0\<lparr>al_CreatedAt := now\<rparr> in
      case SaveACLRule rule (cp_store s) of
        (Some _, st) \<Rightarrow> (Some SaveFailed, s\<lparr>cp_store := st\<rparr>)
      | (None, st) \<Rightarrow> (None, s\<lparr>cp_store := st, cp_rules := fmupd (al_ID rule) rule (cp_rules s)\<rparr>))"

definition RemoveRule :: "string \<Rightarrow> ControlServer \<Rightarrow> cp_error option \<times> ControlServer" where
  "RemoveRule ruleID s =
     (let s = s\<lparr>cp_rules := fmdrop ruleID (cp_rules s)\<rparr> in
      case DeleteACLRule ruleID (cp_store s) of
        (e, st) \<Rightarrow> (map_option StoreFailed e, s\<lparr>cp_store := st\<rparr>))"

record AccessQuery =
  aq_source :: string
  aq_target :: string
  aq_protocol :: string
  aq_port :: int

text \<open>The tests of the loop of \<open>Evaluate\<close>: expiry, source, target, protocol, port.\<close>

definition rule_matches :: "gotime \<Rightarrow> AccessQuery \<Rightarrow> ACLRule \<Rightarrow> bool" where
  "rule_matches now q rule =
     (if (case al_ExpiresAt rule of Some t \<Rightarrow> t < now | None \<Rightarrow> False) then False
      else if al_Source rule \<noteq> ''*'' \<and> al_Source rule \<noteq> aq_source q then False
      else if al_Target rule \<noteq> ''*'' \<and> al_Target rule \<noteq> aq_target q then False
      else if al_Protocol rule \<noteq> ''*'' \<and> al_Protocol rule \<noteq> aq_protocol q then False
      else if al_Ports rule \<noteq> [] \<and> aq_port q \<notin> set (al_Ports rule) then False
      else True)"

fun best_rule :: "gotime \<Rightarrow> AccessQuery \<Rightarrow> ACLRule list \<Rightarrow> ACLRule option \<Rightarrow> int \<Rightarrow> ACLRule option" where
  "best_rule now q [] bestRule bestPriority = bestRule"
| "best_rule now q (rule # rules) bestRule bestPriority =
     (if \<not> rule_matches now q rule then best_rule now q rules bestRule bestPriority
      else if al_Priority rule > bestPriority then best_rule now q rules (Some rule) (al_Priority rule)
      else best_rule now q rules bestRule bestPriority)"

definition acl_Evaluate :: "gotime \<Rightarrow> AccessQuery \<Rightarrow> string list \<Rightarrow> ControlServer \<Rightarrow> bool" where
  "acl_Evaluate now q ks s =
     (case best_rule now q (range_vals (cp_rules s) ks) None (- 1) of
        None \<Rightarrow> False
      | Some rule \<Rightarrow> al_Action rule = ''allow'')"

definition ListRules :: "string list \<Rightarrow> ControlServer \<Rightarrow> ACLRule list" where
  "ListRules ks s = range_vals (cp_rules s) ks"

section \<open>Keys\<close>

definition RegisterKey :: "gotime \<Rightarrow> gotime \<Rightarrow> string \<Rightarrow> string \<Rightarrow> int \<Rightarrow> duration \<Rightarrow> ControlServer \<Rightarrow> cp_error option \<times> ControlServer" where
  "RegisterKey rotated now nodeID publicKey version expiry s =
     (case SaveKeyMaterial \<lparr>km_NodeID = nodeID, km_PublicKey = publicKey, km_KeyVersion = version,
                            km_RotatedAt = rotated, km_ExpiresAt = now + expiry\<rparr> (cp_store s) of
        (Some _, st) \<Rightarrow> (Some SaveFailed, s\<lparr>cp_store := st\<rparr>)
      | (None, st) \<Rightarrow> (None, s\<lparr>cp_store := st\<rparr>))"

definition GetPeerKey :: "string \<Rightarrow> ControlServer \<Rightarrow> store_error + KeyMaterial" where
  "GetPeerKey nodeID s = GetKeyMaterial nodeID (cp_store s)"

definition RotateKey :: "gotime \<Rightarrow> string \<Rightarrow> string \<Rightarrow> ControlServer \<Rightarrow> cp_error option \<times> ControlServer" where
  "RotateKey now nodeID newPublicKey s =
     (case GetKeyMaterial nodeID (cp_store s) of
        Inl e \<Rightarrow> (Some (StoreFailed e), s)
      | Inr existing \<Rightarrow>
          (case SaveKeyMaterial \<lparr>km_NodeID = nodeID, km_PublicKey = newPublicKey,
                                 km_KeyVersion = km_KeyVersion existing + 1, km_RotatedAt = now,
                                 km_ExpiresAt = km_ExpiresAt existing\<rparr> (cp_store s) of
             (Some _, st) \<Rightarrow> (Some SaveFailed, s\<lparr>cp_store := st\<rparr>)
           | (None, st) \<Rightarrow> (None, s\<lparr>cp_store := st\<rparr>)))"

section \<open>Requests\<close>

text \<open>
  The parts of a request that authentication reads: the path, the name in the verified client
  certificate, and the headers.
\<close>

record ApiRequest =
  rq_path :: string
  rq_peerCN :: "string option"
  rq_authorization :: string
  rq_nodeCN :: string
  rq_remoteAddr :: string

definition bearer_rejected :: "string \<Rightarrow> string \<Rightarrow> bool" where
  "bearer_rejected apiToken header \<longleftrightarrow>
     (let token = trim_prefix header ''Bearer '' in token = header \<or> token \<noteq> apiToken)"

text \<open>\<open>None\<close> is the answer 401; otherwise the request goes to its handler, with the header it then has.\<close>

definition authMiddleware :: "string \<Rightarrow> ApiRequest \<Rightarrow> ApiRequest option" where
  "authMiddleware apiToken r =
     (if rq_path r = ''/healthz'' then Some r
      else (case rq_peerCN r of
              Some cn \<Rightarrow>
                if cn \<noteq> [] then Some (r\<lparr>rq_nodeCN := cn\<rparr>)
                else if apiToken = [] then Some r
                else if bearer_rejected apiToken (rq_authorization r) then None else Some r
            | None \<Rightarrow>
                if apiToken = [] then Some r
                else if bearer_rejected apiToken (rq_authorization r) then None else Some r))"

definition extractActor :: "ApiRequest \<Rightarrow> string" where
  "extractActor r =
     (if rq_nodeCN r \<noteq> [] then rq_nodeCN r
      else if has_prefix (rq_authorization r) ''Bearer '' then ''bearer-token''
      else if rq_remoteAddr r \<noteq> [] then rq_remoteAddr r
      else ''unknown'')"

datatype api_body =
    ErrorBody string
  | StatusBody string string
  | DeletedBody string
  | NodeBody NodeInfo
  | NodesBody "NodeInfo list"
  | ConfigBody VirtualNetworkConfig
  | RulesBody "ACLRule list"
  | RuleBody ACLRule
  | KeyBody "KeyMaterial option"
  | AuditBody "AuditEvent list"
  | AllocationsBody "(string, 32 word) fmap"

type_synonym api_response = "nat \<times> api_body"

definition log_audit :: "gotime \<Rightarrow> ApiRequest \<Rightarrow> string \<Rightarrow> string \<Rightarrow> string \<Rightarrow> ControlServer \<Rightarrow> ControlServer" where
  "log_audit now r action resource resourceID s =
     s\<lparr>cp_audit := cp_audit s @ [NewEvent now (extractActor r) action resource resourceID ''success'']\<rparr>"

definition with_vnet ::
    "(VirtualNetworkManager \<Rightarrow> MemoryStore \<Rightarrow> cp_error option \<times> VirtualNetworkManager \<times> MemoryStore) \<Rightarrow>
       ControlServer \<Rightarrow> cp_error option \<times> ControlServer" where
  "with_vnet f s =
     (case cp_vnet s of
        None \<Rightarrow> (None, s)
      | Some m \<Rightarrow> (case f m (cp_store s) of (e, m, st) \<Rightarrow> (e, s\<lparr>cp_vnet := Some m, cp_store := st\<rparr>)))"

definition assign_at :: "nat \<Rightarrow> ControlServer \<Rightarrow> cp_error option \<times> ControlServer" where
  "assign_at a s =
     (case (cp_node s a, cp_vnet s) of
        (Some node, Some m) \<Rightarrow>
          (case AssignNode node m (cp_store s) of
             (e, node, m, st) \<Rightarrow> (e, cp_write a node (s\<lparr>cp_vnet := Some m, cp_store := st\<rparr>)))
      | _ \<Rightarrow> (None, s))"

definition alloc_node :: "NodeInfo \<Rightarrow> ControlServer \<Rightarrow> nat \<times> ControlServer" where
  "alloc_node node s = (cp_next s, (cp_write (cp_next s) node s)\<lparr>cp_next := cp_next s + 1\<rparr>)"

definition handleRegisterNode ::
    "gotime \<Rightarrow> gotime \<Rightarrow> ApiRequest \<Rightarrow> NodeInfo option \<Rightarrow> ControlServer \<Rightarrow> api_response \<times> ControlServer" where
  "handleRegisterNode now now2 r payload s =
     (case payload of
        None \<Rightarrow> ((400, ErrorBody ''invalid node payload''), s)
      | Some node \<Rightarrow>
          if ni_NodeID node = [] then ((400, ErrorBody ''node_id is required''), s)
          else (case alloc_node node s of
                  (a, s) \<Rightarrow>
                    (case assign_at a s of
                       (Some _, s) \<Rightarrow> ((500, ErrorBody ''assign''), s)
                     | (None, s) \<Rightarrow>
                         (case Register now now2 a s of
                            (Some _, s) \<Rightarrow> ((500, ErrorBody ''save node''), snd (with_vnet (ReleaseNode (ni_NodeID node)) s))
                          | (None, s) \<Rightarrow>
                              (let s = log_audit now2 r ''create'' ''nodes'' (ni_NodeID node) s in
                               case cp_node s a of
                                 None \<Rightarrow> ((500, ErrorBody ''assign''), s)
                               | Some node \<Rightarrow> ((201, NodeBody node), s))))))"

definition handleHeartbeat :: "gotime \<Rightarrow> string \<Rightarrow> ControlServer \<Rightarrow> api_response \<times> ControlServer" where
  "handleHeartbeat now nodeID s =
     (case Heartbeat now nodeID s of
        (Some _, s) \<Rightarrow> ((404, ErrorBody ''node not found''), s)
      | (None, s) \<Rightarrow> ((200, StatusBody nodeID ''alive''), s))"

definition handleListNodes :: "string list \<Rightarrow> ControlServer \<Rightarrow> api_response" where
  "handleListNodes ks s = (200, NodesBody (registry_List ks s))"

definition handleGetNode :: "string \<Rightarrow> ControlServer \<Rightarrow> api_response" where
  "handleGetNode nodeID s =
     (case registry_Get nodeID s of
        Inl _ \<Rightarrow> (404, ErrorBody ''node not found'')
      | Inr a \<Rightarrow> (case cp_node s a of None \<Rightarrow> (404, ErrorBody ''node not found'') | Some n \<Rightarrow> (200, NodeBody n)))"

definition handleDeleteNode :: "gotime \<Rightarrow> ApiRequest \<Rightarrow> string \<Rightarrow> ControlServer \<Rightarrow> api_response \<times> ControlServer" where
  "handleDeleteNode now r nodeID s =
     (case Deregister nodeID s of
        (Some _, s) \<Rightarrow> ((500, ErrorBody ''delete node''), s)
      | (None, s) \<Rightarrow>
          (case with_vnet (ReleaseNode nodeID) s of
             (Some _, s) \<Rightarrow> ((500, ErrorBody ''release''), s)
           | (None, s) \<Rightarrow> ((200, DeletedBody nodeID), log_audit now r ''delete'' ''nodes'' nodeID s)))"

definition BuildConfig :: "string \<Rightarrow> ControlServer \<Rightarrow> (cp_error + VirtualNetworkConfig) \<times> ControlServer" where
  "BuildConfig nodeID s =
     (case cp_vnet s of
        None \<Rightarrow> (Inl (NoVirtualIP nodeID), s)
      | Some m \<Rightarrow>
          (case GetIPAllocation nodeID (cp_store s) of
             Inr ip \<Rightarrow> (Inr (network_config m nodeID ip), s)
           | Inl _ \<Rightarrow>
               (case GetNode nodeID (cp_store s) of
                  Inl _ \<Rightarrow> (Inl (NoVirtualIP nodeID), s)
                | Inr a \<Rightarrow>
                    (case assign_at a s of
                       (Some e, s) \<Rightarrow> (Inl (RepairFailed nodeID e), s)
                     | (None, s) \<Rightarrow>
                         (case cp_node s a of
                            None \<Rightarrow> (Inl SaveFailed, s)
                          | Some node \<Rightarrow>
                              (case SaveNode (ni_NodeID node) a (cp_store s) of
                                 (Some e, st) \<Rightarrow> (Inl SaveFailed, s\<lparr>cp_store := st\<rparr>)
                               | (None, st) \<Rightarrow>
                                   let s = s\<lparr>cp_store := st\<rparr> in
                                   (case GetIPAllocation nodeID (cp_store s) of
                                      Inl _ \<Rightarrow> (Inl (NoVirtualIP nodeID), s)
                                    | Inr ip \<Rightarrow> (Inr (network_config m nodeID ip), s))))))))"

definition handleGetNodeRoutes :: "string \<Rightarrow> ControlServer \<Rightarrow> api_response \<times> ControlServer" where
  "handleGetNodeRoutes nodeID s =
     (if cp_vnet s = None then ((503, ErrorBody ''virtual network is disabled''), s)
      else (case BuildConfig nodeID s of
              (Inl _, s) \<Rightarrow> ((404, ErrorBody ''no virtual IP''), s)
            | (Inr c, s) \<Rightarrow> ((200, ConfigBody c), s)))"

definition handleGetPeers :: "string list \<Rightarrow> string \<Rightarrow> ControlServer \<Rightarrow> api_response" where
  "handleGetPeers ks sourceID s =
     (200, NodesBody (filter (\<lambda>node. ni_NodeID node \<noteq> sourceID) (registry_List ks s)))"

definition handleListACL :: "string list \<Rightarrow> ControlServer \<Rightarrow> api_response" where
  "handleListACL ks s = (200, RulesBody (ListRules ks s))"

definition handleAddACL :: "gotime \<Rightarrow> ApiRequest \<Rightarrow> ACLRule option \<Rightarrow> ControlServer \<Rightarrow> api_response \<times> ControlServer" where
  "handleAddACL now r payload s =
     (case payload of
        None \<Rightarrow> ((400, ErrorBody ''invalid ACL payload''), s)
      | Some rule \<Rightarrow>
          if al_ID rule = [] \<or> al_Action rule = [] then ((400, ErrorBody ''id and action are required''), s)
          else (case AddRule now rule s of
                  (Some _, s) \<Rightarrow> ((500, ErrorBody ''save rule''), s)
                | (None, s) \<Rightarrow>
                    ((201, RuleBody (rule\<lparr>al_CreatedAt := now\<rparr>)), log_audit now r ''create'' ''acl'' (al_ID rule) s)))"

definition handleDeleteACL :: "gotime \<Rightarrow> ApiRequest \<Rightarrow> string \<Rightarrow> ControlServer \<Rightarrow> api_response \<times> ControlServer" where
  "handleDeleteACL now r ruleID s =
     (case RemoveRule ruleID s of
        (Some _, s) \<Rightarrow> ((500, ErrorBody ''delete rule''), s)
      | (None, s) \<Rightarrow> ((200, DeletedBody ruleID), log_audit now r ''delete'' ''acl'' ruleID s))"

record KeyRequest =
  kr_NodeID :: string
  kr_PublicKey :: string
  kr_KeyVersion :: int
  kr_ExpiresIn :: duration

definition handleRegisterKey :: "gotime \<Rightarrow> gotime \<Rightarrow> ApiRequest \<Rightarrow> KeyRequest option \<Rightarrow> ControlServer \<Rightarrow> api_response \<times> ControlServer" where
  "handleRegisterKey now now2 r payload s =
     (case payload of
        None \<Rightarrow> ((400, ErrorBody ''invalid key payload''), s)
      | Some req \<Rightarrow>
          if kr_NodeID req = [] \<or> kr_PublicKey req = [] then
            ((400, ErrorBody ''node_id and public_key are required''), s)
          else
            let version = (if kr_KeyVersion req = 0 then 1 else kr_KeyVersion req);
                expires = (if kr_ExpiresIn req = 0 then cc_KeyRotationPeriod (cp_config s) else kr_ExpiresIn req) in
            (case RegisterKey now now2 (kr_NodeID req) (kr_PublicKey req) version expires s of
               (Some _, s) \<Rightarrow> ((500, ErrorBody ''save key''), s)
             | (None, s) \<Rightarrow>
                 (let s = log_audit now2 r ''create'' ''keys'' (kr_NodeID req) s in
                  ((201, KeyBody (case GetPeerKey (kr_NodeID req) s of Inl _ \<Rightarrow> None | Inr k \<Rightarrow> Some k)), s))))"

definition handleGetKey :: "string \<Rightarrow> ControlServer \<Rightarrow> api_response" where
  "handleGetKey nodeID s =
     (case GetPeerKey nodeID s of
        Inl _ \<Rightarrow> (404, ErrorBody ''key material not found'')
      | Inr k \<Rightarrow> (200, KeyBody (Some k)))"

definition handleListIPAllocations :: "ControlServer \<Rightarrow> api_response" where
  "handleListIPAllocations s =
     (case ListIPAllocations (cp_store s) of
        Inl _ \<Rightarrow> (500, ErrorBody ''store'')
      | Inr m \<Rightarrow> (200, AllocationsBody m))"

text \<open>One tick of \<open>pruneLoop\<close>: the stale nodes go first, their addresses afterwards.\<close>

fun release_ids :: "string list \<Rightarrow> ControlServer \<Rightarrow> ControlServer" where
  "release_ids [] s = s"
| "release_ids (i # is) s = release_ids is (snd (with_vnet (ReleaseNode i) s))"

definition prune_tick :: "gotime \<Rightarrow> string list \<Rightarrow> ControlServer \<Rightarrow> ControlServer" where
  "prune_tick now ks s =
     (case PruneStaleIDs now (cc_NodeTimeout (cp_config s)) ks s of (ids, s) \<Rightarrow> release_ids ids s)"

end
