(* ===== verification/Sql_Table.thy ===== *)
theory Sql_Table
  imports Go_Prelude
begin

text \<open>
  The statements that the stores of the control plane and of the desktop give to SQLite, over tables that are
  lists of rows in the order of insertion, and \<open>kv_store\<close>, the interface of a table with a key. What SQLite does
  with a statement is its documented behaviour: an \<open>INSERT\<close> whose row agrees with another in a unique column is
  refused as a whole; \<open>ON CONFLICT(c) DO UPDATE\<close> replaces that refusal for the column \<open>c\<close> only; an \<open>UPDATE\<close> is
  refused when its result would break a unique column. The engine may fail at any statement: its state
  holds the outcomes of the next ones, and none left means that all succeed.
\<close>

section \<open>The engine\<close>

record sql_engine =
  en_faults :: "string option list"
  en_now :: gotime

definition statement :: "'a sql_engine_scheme \<Rightarrow> string option \<times> 'a sql_engine_scheme" where
  "statement d = (case en_faults d of [] \<Rightarrow> (None, d) | f # fs \<Rightarrow> (f, d\<lparr>en_faults := fs\<rparr>))"

definition fault_free :: "'a sql_engine_scheme \<Rightarrow> bool" where
  "fault_free d \<longleftrightarrow> (\<forall>f \<in> set (en_faults d). f = None)"

text \<open>\<open>CURRENT_TIMESTAMP\<close> counts seconds.\<close>

definition current_timestamp :: "'a sql_engine_scheme \<Rightarrow> gotime" where
  "current_timestamp d = en_now d div second * second"

lemma statement_ok [simp]: "en_faults d = [] \<Longrightarrow> statement d = (None, d)"
  by (simp add: statement_def)

lemma statement_cases:
  obtains f where "statement d = (f, d)" "f = None"
  | f fs where "en_faults d = f # fs" "statement d = (f, d\<lparr>en_faults := fs\<rparr>)"
  by (cases "en_faults d") (simp_all add: statement_def)

section \<open>Statements\<close>

definition unique_rows :: "('r \<Rightarrow> 'r \<Rightarrow> bool) \<Rightarrow> 'r list \<Rightarrow> bool" where
  "unique_rows clash rows \<longleftrightarrow> sorted_wrt (\<lambda>a b. \<not> clash a b) rows"

definition sql_insert :: "('r \<Rightarrow> 'r \<Rightarrow> bool) \<Rightarrow> 'r \<Rightarrow> 'r list \<Rightarrow> 'r list option" where
  "sql_insert clash r rows = (if list_ex (\<lambda>q. clash q r) rows then None else Some (rows @ [r]))"

definition sql_upsert :: "('r \<Rightarrow> 'r \<Rightarrow> bool) \<Rightarrow> ('r \<Rightarrow> 'r \<Rightarrow> bool) \<Rightarrow> ('r \<Rightarrow> 'r \<Rightarrow> 'r) \<Rightarrow> 'r \<Rightarrow> 'r list \<Rightarrow> 'r list option" where
  "sql_upsert target clash merge r rows =
     (if list_ex (\<lambda>q. target q r) rows then Some (map (\<lambda>q. if target q r then merge q r else q) rows)
      else sql_insert clash r rows)"

text \<open>The new table and the number of rows affected.\<close>

definition sql_update :: "('r \<Rightarrow> 'r \<Rightarrow> bool) \<Rightarrow> ('r \<Rightarrow> bool) \<Rightarrow> ('r \<Rightarrow> 'r) \<Rightarrow> 'r list \<Rightarrow> ('r list \<times> nat) option" where
  "sql_update clash p f rows =
     (let rows' = map (\<lambda>q. if p q then f q else q) rows in
      if unique_rows clash rows' then Some (rows', length (filter p rows)) else None)"

definition sql_delete :: "('r \<Rightarrow> bool) \<Rightarrow> 'r list \<Rightarrow> 'r list \<times> nat" where
  "sql_delete p rows = (filter (\<lambda>q. \<not> p q) rows, length (filter p rows))"

section \<open>Unique columns stay unique\<close>

lemma unique_rows_Nil [simp]: "unique_rows clash []"
  by (simp add: unique_rows_def)

lemma unique_insert:
  assumes "unique_rows clash rows" and "sql_insert clash r rows = Some rows'"
  shows "unique_rows clash rows'"
  using assms by (auto simp: unique_rows_def sql_insert_def sorted_wrt_append list_ex_iff split: if_splits)

lemma unique_map:
  assumes "unique_rows clash rows" and "\<And>a b. clash (f a) (f b) \<Longrightarrow> clash a b"
  shows "unique_rows clash (map f rows)"
  using assms(1) unfolding unique_rows_def sorted_wrt_map
  by (rule sorted_wrt_mono_rel [rotated]) (use assms(2) in blast)

lemma unique_upsert:
  assumes "unique_rows clash rows" and "sql_upsert target clash merge r rows = Some rows'"
    and "\<And>q b. clash (merge q r) b = clash q b" and "\<And>q b. clash b (merge q r) = clash b q"
  shows "unique_rows clash rows'"
proof (cases "list_ex (\<lambda>q. target q r) rows")
  case True
  then have "rows' = map (\<lambda>q. if target q r then merge q r else q) rows" using assms(2) by (simp add: sql_upsert_def)
  moreover define f where "f = (\<lambda>q. if target q r then merge q r else q)"
  moreover have "clash (f a) c = clash a c" "clash c (f a) = clash c a" for a c
    by (simp_all add: f_def assms(3,4))
  then have "unique_rows clash (map f rows)" by (intro unique_map [OF assms(1)]) simp
  ultimately show ?thesis by simp
next
  case False
  then show ?thesis using assms(1,2) by (auto simp: sql_upsert_def intro: unique_insert)
qed

lemma unique_update: "sql_update clash p f rows = Some (rows', n) \<Longrightarrow> unique_rows clash rows'"
  by (auto simp: sql_update_def Let_def split: if_splits)

lemma unique_delete: "unique_rows clash rows \<Longrightarrow> unique_rows clash (fst (sql_delete p rows))"
  by (simp add: unique_rows_def sql_delete_def sorted_wrt_filter)

section \<open>Tables with a key\<close>

definition same_key :: "('r \<Rightarrow> 'k) \<Rightarrow> 'r \<Rightarrow> 'r \<Rightarrow> bool" where
  "same_key key a b \<longleftrightarrow> key a = key b"

definition row_of :: "('r \<Rightarrow> 'k) \<Rightarrow> 'k \<Rightarrow> 'r list \<Rightarrow> 'r option" where
  "row_of key k rows = find (\<lambda>q. key q = k) rows"

definition put_row :: "('r \<Rightarrow> 'k) \<Rightarrow> ('r \<Rightarrow> 'r \<Rightarrow> 'r) \<Rightarrow> 'r \<Rightarrow> 'r list \<Rightarrow> 'r list" where
  "put_row key merge r rows = the (sql_upsert (same_key key) (same_key key) merge r rows)"

definition drop_row :: "('r \<Rightarrow> 'k) \<Rightarrow> 'k \<Rightarrow> 'r list \<Rightarrow> 'r list" where
  "drop_row key k rows = fst (sql_delete (\<lambda>q. key q = k) rows)"

lemma upsert_keyed: "sql_upsert (same_key key) (same_key key) merge r rows = Some (put_row key merge r rows)"
  by (simp add: put_row_def sql_upsert_def sql_insert_def)

lemma find_map_same:
  assumes "\<And>q. key (f q) = key q"
  shows "find (\<lambda>q. key q = k) (map f rows) = map_option f (find (\<lambda>q. key q = k) rows)"
  by (induction rows) (simp_all add: assms)

lemma row_of_put:
  assumes "\<And>q. key q = key r \<Longrightarrow> key (merge q r) = key r"
  shows "row_of key k (put_row key merge r rows) =
    (if k = key r then Some (case row_of key k rows of None \<Rightarrow> r | Some q \<Rightarrow> merge q r) else row_of key k rows)"
proof (cases "list_ex (\<lambda>q. key q = key r) rows")
  case True
  let ?f = "\<lambda>q. if key q = key r then merge q r else q"
  have p: "put_row key merge r rows = map ?f rows" using True by (simp add: put_row_def sql_upsert_def same_key_def)
  have e: "row_of key k (map ?f rows) = map_option ?f (row_of key k rows)"
    unfolding row_of_def by (rule find_map_same) (use assms in simp)
  have h: "\<exists>q. row_of key (key r) rows = Some q \<and> key q = key r"
    using True by (induction rows) (auto simp: row_of_def)
  have o: "map_option ?f (row_of key k rows) = row_of key k rows" if "k \<noteq> key r"
    using that by (induction rows) (auto simp: row_of_def)
  show ?thesis using p e h o by auto
next
  case False
  then have p: "put_row key merge r rows = rows @ [r]" by (simp add: put_row_def sql_upsert_def sql_insert_def same_key_def)
  have "row_of key (key r) rows = None" using False by (auto simp: row_of_def find_None_iff list_ex_iff)
  moreover have "row_of key k (rows @ [r]) = (case row_of key k rows of None \<Rightarrow> if key r = k then Some r else None | Some q \<Rightarrow> Some q)"
    by (induction rows) (auto simp: row_of_def)
  ultimately show ?thesis using p by (auto split: option.splits)
qed

lemma row_of_drop: "row_of key k (drop_row key k' rows) = (if k = k' then None else row_of key k rows)"
  by (induction rows) (auto simp: row_of_def drop_row_def sql_delete_def)

lemma unique_keyed: "unique_rows (same_key key) rows \<longleftrightarrow> distinct (map key rows)"
  by (induction rows) (auto simp: unique_rows_def same_key_def)

lemma distinct_put:
  assumes "distinct (map key rows)" and "\<And>q. key q = key r \<Longrightarrow> key (merge q r) = key r"
  shows "distinct (map key (put_row key merge r rows))"
proof (cases "list_ex (\<lambda>q. key q = key r) rows")
  case True
  then have "map key (put_row key merge r rows) = map key rows"
    using assms(2) by (auto simp: put_row_def sql_upsert_def same_key_def)
  then show ?thesis using assms(1) by simp
next
  case False
  then show ?thesis using assms(1) by (auto simp: put_row_def sql_upsert_def sql_insert_def same_key_def list_ex_iff)
qed

lemma distinct_drop: "distinct (map key rows) \<Longrightarrow> distinct (map key (drop_row key k rows))"
  by (simp add: drop_row_def sql_delete_def distinct_map_filter)

lemma row_of_iff: "distinct (map key rows) \<Longrightarrow> row_of key k rows = Some q \<longleftrightarrow> q \<in> set rows \<and> key q = k"
  by (induction rows) (auto simp: row_of_def)

section \<open>The interface of a table\<close>

locale kv_store =
  fixes save :: "'k \<Rightarrow> 'v \<Rightarrow> 's \<Rightarrow> 'e option \<times> 's"
    and get :: "'k \<Rightarrow> 's \<Rightarrow> 'e + 'v"
    and del :: "'k \<Rightarrow> 's \<Rightarrow> 'e option \<times> 's"
  assumes save_ok: "fst (save k v s) = None"
    and del_ok: "fst (del k s) = None"
    and get_save: "get k (snd (save k v s)) = Inr v"
    and get_save_other: "k' \<noteq> k \<Longrightarrow> get k' (snd (save k v s)) = get k' s"
    and get_del: "\<not> is_ok (get k (snd (del k s)))"
    and get_del_other: "k' \<noteq> k \<Longrightarrow> get k' (snd (del k s)) = get k' s"
begin

text \<open>Updates of a present entry one after the other: the last one counts, the others are not lost.\<close>

fun update_all :: "'k \<Rightarrow> ('v \<Rightarrow> 'v) list \<Rightarrow> 's \<Rightarrow> 's" where
  "update_all k [] s = s"
| "update_all k (f # fs) s =
     (case get k s of Inl e \<Rightarrow> update_all k fs s | Inr v \<Rightarrow> update_all k fs (snd (save k (f v) s)))"

lemma update_all_get: "get k s = Inr v \<Longrightarrow> get k (update_all k fs s) = Inr (fold id fs v)"
  by (induction fs arbitrary: s v) (simp_all add: get_save)

lemma update_all_frame: "k' \<noteq> k \<Longrightarrow> get k' (update_all k fs s) = get k' s"
  by (induction fs arbitrary: s) (simp_all add: get_save_other split: sum.split)

text \<open>The table that a run of saves and deletions leaves, as a map from keys.\<close>

definition view :: "'s \<Rightarrow> 'k \<Rightarrow> 'v option" where
  "view s k = (case get k s of Inl e \<Rightarrow> None | Inr v \<Rightarrow> Some v)"

lemma view_save: "view (snd (save k v s)) = (view s)(k \<mapsto> v)"
  using get_save get_save_other by (auto simp: view_def fun_eq_iff)

lemma view_del: "view (snd (del k s)) = (view s)(k := None)"
  using get_del [of k s] get_del_other [of _ k s] by (auto simp: view_def fun_eq_iff is_ok_iff split: sum.splits)

definition edit :: "'k \<times> 'v option \<Rightarrow> 's \<Rightarrow> 's" where
  "edit e s = (case e of (k, None) \<Rightarrow> snd (del k s) | (k, Some v) \<Rightarrow> snd (save k v s))"

lemma view_edits: "view (fold edit es s) = fold (\<lambda>(k, v) m. m(k := v)) es (view s)"
proof (induction es arbitrary: s)
  case (Cons e es)
  obtain k v where e: "e = (k, v)" by fastforce
  have "view (edit e s) = (view s)(k := v)" by (cases v) (simp_all add: edit_def e view_save view_del)
  then show ?case using Cons.IH by (simp add: e)
qed simp

end

text \<open>A table of two columns, the first one its key.\<close>

definition pair_save :: "'k \<Rightarrow> 'v \<Rightarrow> ('k \<times> 'v) list \<Rightarrow> 'k option \<times> ('k \<times> 'v) list" where
  "pair_save k v rows = (None, put_row fst (\<lambda>q r. r) (k, v) rows)"

definition pair_get :: "'k \<Rightarrow> ('k \<times> 'v) list \<Rightarrow> 'k + 'v" where
  "pair_get k rows = (case row_of fst k rows of None \<Rightarrow> Inl k | Some q \<Rightarrow> Inr (snd q))"

definition pair_del :: "'k \<Rightarrow> ('k \<times> 'v) list \<Rightarrow> 'k option \<times> ('k \<times> 'v) list" where
  "pair_del k rows = (None, drop_row fst k rows)"

interpretation pair_table: kv_store pair_save pair_get pair_del
proof unfold_locales
  show "pair_get k (snd (pair_save k v s)) = Inr v" for k :: 'a and v :: 'b and s
    by (simp add: pair_get_def pair_save_def row_of_put split: option.splits)
qed (auto simp: pair_get_def pair_save_def pair_del_def row_of_put row_of_drop)

end
