(* ===== verification/Address_Text.thy ===== *)
theory Address_Text
  imports Control_Plane
begin

text \<open>Addresses are told apart by their text: \<open>nat_str\<close> and \<open>ip4_string\<close> are injective.\<close>

definition digit_char :: "nat \<Rightarrow> char" where
  "digit_char d = char_of (48 + d)"

lemma of_digit_char: "d < 10 \<Longrightarrow> (of_char (digit_char d) :: nat) = 48 + d"
  by (simp add: digit_char_def)

lemma digit_char_inj: "d < 10 \<Longrightarrow> e < 10 \<Longrightarrow> digit_char d = digit_char e \<Longrightarrow> d = e"
  by (metis add_left_cancel of_digit_char)

lemma nat_str_step:
  "nat_str n = (if n < 10 then [digit_char n] else nat_str (n div 10) @ [digit_char (n mod 10)])"
  by (subst nat_str.simps) (simp add: digit_char_def)

lemma nat_str_nonempty [simp]: "nat_str n \<noteq> []"
  by (subst nat_str_step) simp

lemma nat_str_digits: "c \<in> set (nat_str n) \<Longrightarrow> \<exists>d < 10. c = digit_char d"
proof (induction n rule: nat_str.induct)
  case (1 n)
  show ?case
  proof (cases "n < 10")
    case True
    then show ?thesis using 1(2) by (subst (asm) nat_str_step) auto
  next
    case False
    then have "c \<in> set (nat_str (n div 10)) \<or> c = digit_char (n mod 10)"
      using 1(2) by (subst (asm) nat_str_step) auto
    moreover have "n mod 10 < 10" by simp
    ultimately show ?thesis using 1(1) [OF False] by blast
  qed
qed

lemma nat_str_no_dot: "CHR ''.'' \<notin> set (nat_str n)"
proof
  assume "CHR ''.'' \<in> set (nat_str n)"
  then obtain d where "d < 10" "CHR ''.'' = digit_char d" using nat_str_digits by blast
  then have "(of_char (CHR ''.'') :: nat) = 48 + d" using of_digit_char by metis
  then show False by simp
qed

lemma nat_str_inj: "nat_str n = nat_str m \<Longrightarrow> n = m"
proof (induction n arbitrary: m rule: nat_str.induct)
  case (1 n)
  show ?case
  proof (cases "n < 10")
    case True
    then have n: "nat_str n = [digit_char n]" by (subst nat_str_step) simp
    show ?thesis
    proof (cases "m < 10")
      case True
      then have "nat_str m = [digit_char m]" by (subst nat_str_step) simp
      then show ?thesis using n 1(2) \<open>n < 10\<close> True digit_char_inj by simp
    next
      case False
      then have "nat_str m = nat_str (m div 10) @ [digit_char (m mod 10)]" by (subst nat_str_step) simp
      then show ?thesis using n 1(2) by simp
    qed
  next
    case False
    then have n: "nat_str n = nat_str (n div 10) @ [digit_char (n mod 10)]" by (subst nat_str_step) simp
    show ?thesis
    proof (cases "m < 10")
      case True
      then have "nat_str m = [digit_char m]" by (subst nat_str_step) simp
      then show ?thesis using n 1(2) nat_str_nonempty [of "n div 10"] by (metis append_is_Nil_conv append_eq_Cons_conv list.distinct(1))
    next
      case m: False
      then have "nat_str m = nat_str (m div 10) @ [digit_char (m mod 10)]" by (subst nat_str_step) simp
      then have e: "nat_str (n div 10) = nat_str (m div 10)" "digit_char (n mod 10) = digit_char (m mod 10)"
        using n 1(2) by simp_all
      have "n div 10 = m div 10" using 1(1) [OF False e(1)] .
      moreover have "n mod 10 = m mod 10" using digit_char_inj [OF _ _ e(2)] by simp
      ultimately show ?thesis by (metis div_mult_mod_eq)
    qed
  qed
qed

lemma ip4_string_inj: "ip4_string w = ip4_string v \<Longrightarrow> w = v"
proof -
  assume e: "ip4_string w = ip4_string v"
  have s: "split_on CHR ''.'' (ip4_string u) =
      [nat_str (unat (drop_bit 24 u)), nat_str (unat (take_bit 8 (drop_bit 16 u))),
       nat_str (unat (take_bit 8 (drop_bit 8 u))), nat_str (unat (take_bit 8 u))]" for u
    by (simp add: ip4_string_def split_on_append nat_str_no_dot split_on_no)
  have p: "drop_bit 24 w = drop_bit 24 v" "take_bit 8 (drop_bit 16 w) = take_bit 8 (drop_bit 16 v)"
      "take_bit 8 (drop_bit 8 w) = take_bit 8 (drop_bit 8 v)" "take_bit 8 w = take_bit 8 v"
    using s [of w] s [of v] e by (simp_all add: word_unat_eq_iff) (metis nat_str_inj)+
  have b: "bit w n = bit v n" if "n < 32" for n
  proof -
    have q: "bit (drop_bit 24 w) k = bit (drop_bit 24 v) k" "bit (take_bit 8 (drop_bit 16 w)) k = bit (take_bit 8 (drop_bit 16 v)) k"
      "bit (take_bit 8 (drop_bit 8 w)) k = bit (take_bit 8 (drop_bit 8 v)) k" "bit (take_bit 8 w) k = bit (take_bit 8 v) k" for k
      using p by simp_all
    consider "n < 8" | "8 \<le> n" "n < 16" | "16 \<le> n" "n < 24" | "24 \<le> n" by linarith
    then show ?thesis
    proof cases
      case 1 then show ?thesis using q(4) [of n] by (simp add: bit_simps)
    next
      case 2
      then have "n - 8 < 8" "8 + (n - 8) = n" by auto
      then show ?thesis using q(3) [of "n - 8"] by (simp add: bit_simps)
    next
      case 3
      then have "n - 16 < 8" "16 + (n - 16) = n" by auto
      then show ?thesis using q(2) [of "n - 16"] by (simp add: bit_simps)
    next
      case 4 then show ?thesis using q(1) [of "n - 24"] by (simp add: bit_simps)
    qed
  qed
  show ?thesis by (rule bit_word_eqI) (simp add: b)
qed

end
