(* ===== verification/Control_Guarantees.thy ===== *)
theory Control_Guarantees
  imports Control_Props Address_Text
begin

text \<open>
  What the control plane guarantees: distinct virtual addresses in every run, the decision of the
  access rules, a restart on the same store, and who a request is taken for; and how an address is
  given away while its node is registered.
\<close>

section \<open>Fresh servers and restarts\<close>

definition ip_geo :: "IPAM \<Rightarrow> ipnet \<times> 32 word \<times> 32 word \<times> 32 word" where
  "ip_geo m = (im_subnet m, im_gateway m, im_network m, im_broadcast m)"

definition vn_static :: "VirtualNetworkManager \<Rightarrow> string \<times> string \<times> string \<times> int \<times> int \<times> ipnet \<times> 32 word \<times> 32 word \<times> 32 word" where
  "vn_static m = (vn_subnet m, vn_gateway m, vn_iface m, vn_mtu m, vn_routeMetric m, ip_geo (vn_allocator m))"

definition cp_static :: "ControlServer \<Rightarrow> ControlPlaneConfig \<times> (string \<times> string \<times> string \<times> int \<times> int \<times> ipnet \<times> 32 word \<times> 32 word \<times> 32 word) option" where
  "cp_static s = (cp_config s, map_option vn_static (cp_vnet s))"

lemma ip_geo_ops [simp]:
  "ip_geo (snd (Allocate n m)) = ip_geo m" "ip_geo (snd (Reserve n ip m)) = ip_geo m" "ip_geo (Release n m) = ip_geo m"
  by (simp_all add: ip_geo_def Allocate_def Reserve_def Release_def Let_def split: option.split)

lemma Allocate_geo: "Allocate n m = (r, m') \<Longrightarrow> ip_geo m' = ip_geo m"
  using ip_geo_ops(1) [of n m] by simp

lemma Reserve_geo: "Reserve n ip m = (r, m') \<Longrightarrow> ip_geo m' = ip_geo m"
  using ip_geo_ops(2) [of n ip m] by simp

lemma AssignNode_static: "AssignNode node m st = (e, node', m', st') \<Longrightarrow> vn_static m' = vn_static m"
  by (auto simp: AssignNode_def vn_static_def store_defs dest: Allocate_geo Reserve_geo
      split: if_splits sum.splits option.splits prod.splits)

lemma assign_at_static: "cp_static (snd (assign_at a s)) = cp_static s"
  by (auto simp: assign_at_def cp_static_def cp_write_def dest: AssignNode_static split: option.split prod.split)

lemma release_static: "cp_static (snd (with_vnet (ReleaseNode i) s)) = cp_static s"
  by (simp add: with_vnet_def ReleaseNode_def store_defs cp_static_def vn_static_def Let_def split: option.split)

lemma static_cong: "cp_config s' = cp_config s \<Longrightarrow> cp_vnet s' = cp_vnet s \<Longrightarrow> cp_static s' = cp_static s"
  by (simp add: cp_static_def)

lemma release_ids_static: "cp_static (release_ids is s) = cp_static s"
  by (induction "is" s rule: release_ids.induct) (simp_all add: release_static)

lemma drop_nodes_static: "cp_static (drop_nodes is s) = cp_static s"
  by (induction "is" s rule: drop_nodes.induct) (simp_all add: cp_static_def)

lemma cp_apply_static:
  assumes inv: "cp_inv s"
  shows "cp_static (cp_apply c s) = cp_static s"
proof (cases c)
  case (CallRegister now now2 r p)
  have R: "cp_static (snd (Register t u a x)) = cp_static x" for t u a x
    by (simp add: Register_def store_defs Let_def cp_static_def cp_write_def split: option.split)
  have A: "cp_static (snd (alloc_node n s)) = cp_static s" for n
    by (simp add: alloc_node_def cp_static_def cp_write_def)
  have L: "cp_static (log_audit t q x y z u) = cp_static u" for t q x y z u by (simp add: log_audit_def cp_static_def)
  show ?thesis
  proof (cases p)
    case (Some node)
    obtain a s1 where 1: "alloc_node node s = (a, s1)" by fastforce
    obtain e s2 where 2: "assign_at a s1 = (e, s2)" by fastforce
    obtain e' s3 where 3: "Register now now2 a s2 = (e', s3)" by fastforce
    have "cp_static s1 = cp_static s" "cp_static s2 = cp_static s1" "cp_static s3 = cp_static s2"
      using A [of node] assign_at_static [of a s1] R [of now now2 a s2] 1 2 3 by simp_all
    then show ?thesis using CallRegister Some
      by (simp add: handleRegisterNode_def 1 2 3 Let_def L release_static split: option.split)
  qed (simp add: CallRegister handleRegisterNode_def)
next
  case (CallHeartbeat now i)
  then show ?thesis
    by (auto simp: handleHeartbeat_def Heartbeat_def touch_node_def store_defs Let_def cp_static_def cp_write_def
        split: option.split sum.split)
next
  case (CallDelete now r i)
  have "cp_static (snd (Deregister i s)) = cp_static s"
    by (simp add: Deregister_def store_defs Let_def cp_static_def)
  moreover obtain e t where 1: "Deregister i s = (e, t)" by fastforce
  moreover obtain e' u where 2: "with_vnet (ReleaseNode i) t = (e', u)" by fastforce
  ultimately have "cp_static t = cp_static s" "cp_static u = cp_static t" using release_static [of i t] by simp_all
  then show ?thesis using CallDelete
    by (auto simp: handleDeleteNode_def 1 2 log_audit_def cp_static_def split: option.split)
next
  case (CallRoutes i)
  then show ?thesis by (simp add: cp_inv_handleGetNodeRoutes [OF inv])
next
  case (CallAddACL now r p)
  then show ?thesis by (auto simp: handleAddACL_def AddRule_def store_defs Let_def cp_static_def log_audit_def split: option.split)
next
  case (CallDeleteACL now r i)
  then show ?thesis by (auto simp: handleDeleteACL_def RemoveRule_def store_defs Let_def cp_static_def log_audit_def)
next
  case (CallRegisterKey now now2 r p)
  then show ?thesis by (auto simp: handleRegisterKey_def RegisterKey_def store_defs Let_def cp_static_def log_audit_def split: option.split)
next
  case (CallRotateKey now i k)
  then show ?thesis by (auto simp: RotateKey_def store_defs cp_static_def split: option.split)
next
  case (CallPrune now ks)
  obtain ids s' where p: "prune_range (now - cc_NodeTimeout (cp_config s)) ks s = (ids, s')" by fastforce
  have "s' = drop_nodes ids s" using prune_range_drops [OF reg_keys_inv [OF inv] p] by blast
  then show ?thesis using CallPrune
    by (simp add: prune_tick_def PruneStaleIDs_def p release_ids_static drop_nodes_static)
qed

lemma cp_run_static: "cp_inv s \<Longrightarrow> cp_static (cp_run cs s) = cp_static s"
  by (induction cs s rule: cp_run.induct) (simp_all add: cp_inv_apply cp_apply_static)

lemma restoreNodes_lookup:
  assumes "\<And>k a. fmlookup m k = Some a \<Longrightarrow> \<exists>n. fmlookup heap a = Some n \<and> ni_NodeID n = k \<and> k \<noteq> []"
  shows "fmlookup (restoreNodes heap (range_vals m ks) reg) i =
    (if i \<in> set ks \<and> fmlookup m i \<noteq> None then fmlookup m i else fmlookup reg i)"
proof (induction ks arbitrary: reg)
  case (Cons k ks)
  show ?case
  proof (cases "fmlookup m k")
    case (Some a)
    then obtain n where "fmlookup heap a = Some n" "ni_NodeID n = k" "k \<noteq> []" using assms by blast
    then show ?thesis using Cons Some by auto
  qed (use Cons in auto)
qed simp

lemma restoreRules_lookup:
  assumes "\<And>k r. fmlookup m k = Some r \<Longrightarrow> al_ID r = k \<and> k \<noteq> []"
  shows "fmlookup (restoreRules (range_vals m ks) reg) i =
    (if i \<in> set ks \<and> fmlookup m i \<noteq> None then fmlookup m i else fmlookup reg i)"
proof (induction ks arbitrary: reg)
  case (Cons k ks)
  then show ?case using assms [of k] by (cases "fmlookup m k") auto
qed simp

lemma restoreAllocations_ok:
  assumes "\<And>k. k \<in> set ks \<Longrightarrow> fmlookup allocs k \<noteq> None"
    and "reserve_list (\<lambda>n c. Reserve n (IP4 c)) (map (\<lambda>k. (k, the (fmlookup allocs k))) ks) (vn_allocator m) = (None, al)"
  shows "restoreAllocations allocs ks m = Inr (m\<lparr>vn_allocator := al\<rparr>)"
  using assms
proof (induction ks arbitrary: m)
  case (Cons k ks)
  then obtain ip where ip: "fmlookup allocs k = Some ip" by fastforce
  obtain e al' where r: "Reserve k (IP4 ip) (vn_allocator m) = (e, al')" by fastforce
  then have "e = None" using Cons.prems(2) ip by (cases e) auto
  then show ?case using Cons.IH [of "m\<lparr>vn_allocator := al'\<rparr>"] Cons.prems ip r by simp
qed simp

lemma same_hosts: "ip_geo m = ip_geo m' \<Longrightarrow> is_host m = is_host m'"
  by (simp add: ip_geo_def is_host_def fun_eq_iff)

text \<open>A server that has started: its virtual network, if it has one, could be created.\<close>

definition started :: "netparse \<Rightarrow> ControlPlaneConfig \<Rightarrow> store_orders \<Rightarrow> ControlServer \<Rightarrow> bool" where
  "started net cfg ord s \<longleftrightarrow> s = NewControlServer net cfg ord NewMemoryStore fmempty 0 \<and> cp_vnetErr s = None"

lemma NewVNet_fresh:
  assumes "NewVirtualNetworkManager net cfg ks NewMemoryStore = Inr m"
  shows "NewIPAM (np_CIDR net) (np_IP net) (cc_VirtualSubnet cfg) (cc_VirtualGateway cfg) = Inr (vn_allocator m) \<and>
    m = \<lparr>vn_allocator = vn_allocator m, vn_subnet = cc_VirtualSubnet cfg, vn_gateway = cc_VirtualGateway cfg,
         vn_iface = cc_VirtualInterface cfg, vn_mtu = cc_VirtualMTU cfg, vn_routeMetric = cc_VirtualRouteMetric cfg\<rparr>"
proof -
  have "restoreAllocations fmempty ks m' = Inr m'" for m' by (induction ks) simp_all
  then show ?thesis using assms
    by (auto simp: NewVirtualNetworkManager_def NewMemoryStore_def store_defs split: sum.splits)
qed

lemma restore_empty: "range_vals fmempty ks = []"
  by (induction ks) simp_all

lemma started_inv:
  assumes "started net cfg ord s" and "\<And>n. np_CIDR net (cc_VirtualSubnet cfg) = Some n \<Longrightarrow> cidr_ok n"
  shows "cp_inv s \<and> cp_config s = cfg \<and> (cp_vnet s = None \<longleftrightarrow> \<not> cc_IPAMEnabled cfg) \<and>
    (\<forall>m. cp_vnet s = Some m \<longrightarrow> NewVirtualNetworkManager net cfg (so_ips ord) NewMemoryStore = Inr m)"
proof -
  have v: "vnet_ok m NewMemoryStore" if m: "NewVirtualNetworkManager net cfg (so_ips ord) NewMemoryStore = Inr m" for m
    using NewIPAM_inv [OF conjunct1 [OF NewVNet_fresh [OF m]] assms(2)] by (simp add: vnet_ok_def NewMemoryStore_def)
  have f: "cp_registry s = fmempty" "cp_rules s = fmempty" "cp_store s = NewMemoryStore" "cp_heap s = fmempty" "cp_config s = cfg"
    using assms(1) by (simp_all add: started_def NewControlServer_def store_defs NewMemoryStore_def restore_empty Let_def)
  have vn: "cp_vnet s = (if cc_IPAMEnabled cfg then
      (case NewVirtualNetworkManager net cfg (so_ips ord) NewMemoryStore of Inl e \<Rightarrow> None | Inr m \<Rightarrow> Some m) else None)"
    and er: "cp_vnetErr s = (if cc_IPAMEnabled cfg then
      (case NewVirtualNetworkManager net cfg (so_ips ord) NewMemoryStore of Inl e \<Rightarrow> Some e | Inr m \<Rightarrow> None) else None)"
    and ok: "cp_vnetErr s = None"
    using assms(1) by (auto simp: started_def NewControlServer_def Let_def split: sum.split)
  have "cp_inv s"
    using v vn by (auto simp: cp_inv_def f cp_node_def NewMemoryStore_def split: sum.splits if_splits)
  then show ?thesis using vn er ok f(5) by (auto split: sum.splits if_splits)
qed

section \<open>Access rules\<close>

text \<open>The matching rules of the highest priority that is not negative.\<close>

definition strongest :: "gotime \<Rightarrow> AccessQuery \<Rightarrow> ControlServer \<Rightarrow> ACLRule set" where
  "strongest now q s =
     {r. (\<exists>i. fmlookup (cp_rules s) i = Some r) \<and> rule_matches now q r \<and> 0 \<le> al_Priority r \<and>
         (\<forall>i r'. fmlookup (cp_rules s) i = Some r' \<and> rule_matches now q r' \<longrightarrow> al_Priority r' \<le> al_Priority r)}"

lemma best_rule_spec:
  "(best_rule now q rs best p = best \<and> (\<forall>r \<in> set rs. rule_matches now q r \<longrightarrow> al_Priority r \<le> p)) \<or>
   (\<exists>r \<in> set rs. best_rule now q rs best p = Some r \<and> rule_matches now q r \<and> p < al_Priority r \<and>
      (\<forall>r' \<in> set rs. rule_matches now q r' \<longrightarrow> al_Priority r' \<le> al_Priority r))"
proof (induction rs arbitrary: best p)
  case (Cons r rs)
  show ?case
  proof (cases "rule_matches now q r \<and> p < al_Priority r")
    case True
    then have e: "best_rule now q (r # rs) best p = best_rule now q rs (Some r) (al_Priority r)" by simp
    from Cons.IH [of "Some r" "al_Priority r"] show ?thesis
    proof
      assume "best_rule now q rs (Some r) (al_Priority r) = Some r \<and> (\<forall>r' \<in> set rs. rule_matches now q r' \<longrightarrow> al_Priority r' \<le> al_Priority r)"
      then have "r \<in> set (r # rs) \<and> best_rule now q (r # rs) best p = Some r \<and>
          (\<forall>r' \<in> set (r # rs). rule_matches now q r' \<longrightarrow> al_Priority r' \<le> al_Priority r)" using e by simp
      then show ?thesis using True by blast
    next
      assume "\<exists>x \<in> set rs. best_rule now q rs (Some r) (al_Priority r) = Some x \<and> rule_matches now q x \<and> al_Priority r < al_Priority x \<and>
          (\<forall>r' \<in> set rs. rule_matches now q r' \<longrightarrow> al_Priority r' \<le> al_Priority x)"
      then obtain x where x: "x \<in> set rs" "best_rule now q rs (Some r) (al_Priority r) = Some x" "rule_matches now q x"
          "al_Priority r < al_Priority x" "\<forall>r' \<in> set rs. rule_matches now q r' \<longrightarrow> al_Priority r' \<le> al_Priority x" by blast
      then have "x \<in> set (r # rs) \<and> best_rule now q (r # rs) best p = Some x \<and> p < al_Priority x \<and>
          (\<forall>r' \<in> set (r # rs). rule_matches now q r' \<longrightarrow> al_Priority r' \<le> al_Priority x)" using e True by simp
      then show ?thesis using x(3) by blast
    qed
  next
    case False
    then have "best_rule now q (r # rs) best p = best_rule now q rs best p" by simp
    moreover have "rule_matches now q r \<longrightarrow> al_Priority r \<le> p" using False by (meson not_le)
    ultimately show ?thesis using Cons.IH [of best p] by (simp only: set_simps ball_simps bex_simps) force
  qed
qed simp

section \<open>A small network\<close>

text \<open>A subnet with one address to give, for the closed examples.\<close>

definition ex_net :: netparse where
  "ex_net = \<lparr>np_CIDR = \<lambda>_. Some \<lparr>net_ip = IP4 0x0A070000, ones = 30, bits = 32\<rparr>, np_IP = \<lambda>_. IP4 0x0A070001\<rparr>"

definition ex_orders :: store_orders where
  "ex_orders = \<lparr>so_nodes = [], so_acls = [], so_ips = []\<rparr>"

definition ex_ipam :: IPAM where
  "ex_ipam = \<lparr>im_subnet = \<lparr>net_ip = IP4 0x0A070000, ones = 30, bits = 32\<rparr>, im_gateway = 0x0A070001, im_allocated = fmempty,
     im_nextHost = 1, im_network = 0x0A070000, im_broadcast = 0x0A070003\<rparr>"

definition ex_cp :: ControlServer where
  "ex_cp = NewControlServer ex_net DefaultControlPlaneConfig ex_orders NewMemoryStore fmempty 0"

definition ex_node :: "string \<Rightarrow> NodeInfo" where
  "ex_node i = \<lparr>ni_NodeID = i, ni_PublicKey = [], ni_NATType = [], ni_Region = [], ni_Subnet = [], ni_VirtualIP = [],
     ni_Metadata = [], ni_ConnectedAt = 0, ni_LastSeen = 0\<rparr>"

definition ex_request :: ApiRequest where
  "ex_request = \<lparr>rq_path = ''/api/v1/nodes'', rq_peerCN = None, rq_authorization = [], rq_nodeCN = [], rq_remoteAddr = []\<rparr>"

lemma ex_vnet: "NewVirtualNetworkManager ex_net DefaultControlPlaneConfig ks NewMemoryStore =
    Inr \<lparr>vn_allocator = ex_ipam, vn_subnet = ''10.7.0.0/24'', vn_gateway = ''10.7.0.1'', vn_iface = ''nextunnel0'',
         vn_mtu = 1420, vn_routeMetric = 100\<rparr>"
proof -
  have "NewIPAM (np_CIDR ex_net) (np_IP ex_net) x y = Inr ex_ipam" for x y
    by (simp add: NewIPAM_def ex_net_def ex_ipam_def net_contains_def host_bits_def mask_eq_exp_minus_1)
  moreover have "restoreAllocations fmempty ks m' = Inr m'" for m' by (induction ks) simp_all
  ultimately show ?thesis
    by (simp add: NewVirtualNetworkManager_def store_defs NewMemoryStore_def DefaultControlPlaneConfig_def)
qed

lemma ex_started: "started ex_net DefaultControlPlaneConfig ex_orders ex_cp"
  by (simp add: started_def ex_cp_def NewControlServer_def Let_def ex_vnet)

lemma ex_cidr: "\<forall>n. np_CIDR ex_net (cc_VirtualSubnet DefaultControlPlaneConfig) = Some n \<longrightarrow> cidr_ok n"
  by (simp add: ex_net_def cidr_ok_def host_bits_def mask_eq_exp_minus_1)

lemma ex_cp_fields: "cp_registry ex_cp = fmempty" "cp_store ex_cp = NewMemoryStore" "cp_next ex_cp = 0" "cp_heap ex_cp = fmempty"
    "cp_vnet ex_cp = Some \<lparr>vn_allocator = ex_ipam, vn_subnet = ''10.7.0.0/24'', vn_gateway = ''10.7.0.1'', vn_iface = ''nextunnel0'',
         vn_mtu = 1420, vn_routeMetric = 100\<rparr>" "cp_config ex_cp = DefaultControlPlaneConfig"
proof -
  have e: "cc_IPAMEnabled DefaultControlPlaneConfig" by (simp add: DefaultControlPlaneConfig_def)
  have n: "ms_nodes NewMemoryStore = fmempty" by (simp add: NewMemoryStore_def)
  show "cp_registry ex_cp = fmempty" "cp_store ex_cp = NewMemoryStore" "cp_next ex_cp = 0" "cp_heap ex_cp = fmempty"
    "cp_vnet ex_cp = Some \<lparr>vn_allocator = ex_ipam, vn_subnet = ''10.7.0.0/24'', vn_gateway = ''10.7.0.1'', vn_iface = ''nextunnel0'',
         vn_mtu = 1420, vn_routeMetric = 100\<rparr>" "cp_config ex_cp = DefaultControlPlaneConfig"
    by (simp_all add: ex_cp_def NewControlServer_def Let_def ex_vnet e ListNodes_def n restore_empty)
qed

lemma ex_allocate: "Allocate i ex_ipam = (Inr 0x0A070002, ex_ipam\<lparr>im_allocated := fmupd i 0x0A070002 fmempty, im_nextHost := 3\<rparr>)"
proof -
  have 2: "scan_up (ip_used ex_ipam) 0x0A070000 0x0A070003 2 = Some 2"
    by (subst scan_up.simps) (simp add: ip_used_def ex_ipam_def ip_taken_def)
  have "scan_up (ip_used ex_ipam) 0x0A070000 0x0A070003 1 = Some 2"
    by (subst scan_up.simps) (simp add: 2, simp add: ip_used_def ex_ipam_def ip_taken_def)
  then show ?thesis by (simp add: Allocate_def ex_ipam_def)
qed

lemma ex_register:
  assumes "i \<noteq> []"
  shows "\<exists>s n. handleRegisterNode now now2 r (Some (ex_node i)) ex_cp = ((201, NodeBody n), s) \<and>
    fmlookup (cp_registry s) i = Some 0 \<and> cp_node s 0 = Some n \<and> ni_VirtualIP n = ip4_string 0x0A070002 \<and>
    ni_LastSeen n = now2 \<and> cp_vnet s \<noteq> None \<and> cp_config s = DefaultControlPlaneConfig"
  using assms
  by (simp add: handleRegisterNode_def ex_node_def alloc_node_def assign_at_def AssignNode_def ex_cp_fields cp_node_def cp_write_def
      store_defs NewMemoryStore_def ex_allocate Register_def Let_def log_audit_def)

lemma trim_prefix_iff:
  assumes "p \<noteq> []"
  shows "trim_prefix h p \<noteq> h \<and> trim_prefix h p = t \<longleftrightarrow> h = p @ t"
proof
  assume a: "trim_prefix h p \<noteq> h \<and> trim_prefix h p = t"
  then have "take (length p) h = p" "drop (length p) h = t"
    by (auto simp: trim_prefix_def has_prefix_def split: if_splits)
  then show "h = p @ t" by (metis append_take_drop_id)
qed (use assms in \<open>simp add: trim_prefix_def has_prefix_def\<close>)

lemma bearer_rejected_iff: "bearer_rejected tok h \<longleftrightarrow> h \<noteq> ''Bearer '' @ tok"
  using trim_prefix_iff [of "''Bearer ''" h tok] by (auto simp: bearer_rejected_def Let_def)

section \<open>Pruning and registering at the same time\<close>

lemma cp_inv_drop_node: "cp_inv s \<Longrightarrow> cp_inv (drop_node i s)"
proof -
  assume inv: "cp_inv s"
  have n: "node_ok (drop_node i s) j b = node_ok s j b" for j b
    by (rule node_ok_cong) (simp_all add: drop_node_def cp_node_def)
  have "vnet_ok m (cp_store (drop_node i s))" if "cp_vnet s = Some m" for m
    using cp_invD(1) [OF inv that] by (simp add: vnet_ok_def drop_node_def)
  then show ?thesis using inv unfolding cp_inv_def n by (simp add: drop_node_def cp_node_def split: if_splits)
qed

lemma drop_nodes_keeps:
  "cp_inv s \<Longrightarrow> cp_inv (drop_nodes is s)" "ms_ips (cp_store (drop_nodes is s)) = ms_ips (cp_store s)"
  "cp_vnet (drop_nodes is s) = cp_vnet s"
proof -
  show "cp_inv s \<Longrightarrow> cp_inv (drop_nodes is s)" by (induction "is" arbitrary: s) (simp_all add: cp_inv_drop_node)
  have d: "ms_ips (cp_store (drop_node i s)) = ms_ips (cp_store s)" for i s by (simp add: drop_node_def)
  show "ms_ips (cp_store (drop_nodes is s)) = ms_ips (cp_store s)" by (induction "is" arbitrary: s) (simp_all add: d)
  show "cp_vnet (drop_nodes is s) = cp_vnet s" by (induction "is" arbitrary: s) simp_all
qed

lemma register_again:
  assumes inv: "cp_inv s" and m: "cp_vnet s = Some m" and ip: "fmlookup (ms_ips (cp_store s)) (ni_NodeID node) = Some ip"
    and ne: "ni_NodeID node \<noteq> []"
  shows "\<exists>b. fmlookup (cp_registry (snd (handleRegisterNode t1 t2 r (Some node) s))) (ni_NodeID node) = Some b"
    and "cp_vnet (snd (handleRegisterNode t1 t2 r (Some node) s)) = Some m"
proof -
  have "ipam_inv (vn_allocator m)" "im_allocated (vn_allocator m) = ms_ips (cp_store s)"
    using cp_invD(1) [OF inv m] by (auto simp: vnet_ok_def)
  then have h: "Reserve (ni_NodeID node) (IP4 ip) (vn_allocator m) = (None, vn_allocator m)"
    using Reserve_held ip by simp
  obtain a s1 where al: "alloc_node node s = (a, s1)" by fastforce
  have s1: "cp_node s1 a = Some node" "cp_vnet s1 = Some m" "cp_store s1 = cp_store s"
    using al m by (auto simp: alloc_node_def cp_write_def cp_node_def)
  obtain n' where as: "assign_at a s1 = (None, cp_write a n' (s1\<lparr>cp_vnet := Some m, cp_store := cp_store s\<rparr>))"
      "ni_NodeID n' = ni_NodeID node"
    using ne ip h by (auto simp: assign_at_def s1 AssignNode_def store_defs)
  show "\<exists>b. fmlookup (cp_registry (snd (handleRegisterNode t1 t2 r (Some node) s))) (ni_NodeID node) = Some b"
    "cp_vnet (snd (handleRegisterNode t1 t2 r (Some node) s)) = Some m"
    using ne as(2) by (simp_all add: handleRegisterNode_def al as(1) Register_def cp_node_def cp_write_def store_defs Let_def log_audit_def)
qed

lemma release_ids_spec:
  assumes "cp_vnet s = Some m"
  shows "cp_registry (release_ids is s) = cp_registry s \<and> cp_node (release_ids is s) b = cp_node s b \<and>
    (\<exists>m'. cp_vnet (release_ids is s) = Some m' \<and> ip_geo (vn_allocator m') = ip_geo (vn_allocator m) \<and>
      (\<forall>j. fmlookup (im_allocated (vn_allocator m')) j =
         (if j \<in> set is then None else fmlookup (im_allocated (vn_allocator m)) j)))"
  using assms
proof (induction "is" arbitrary: s m)
  case (Cons i "is")
  let ?m = "m\<lparr>vn_allocator := Release i (vn_allocator m)\<rparr>"
  have w: "snd (with_vnet (ReleaseNode i) s) = s\<lparr>cp_vnet := Some ?m, cp_store := (cp_store s)\<lparr>ms_ips := fmdrop i (ms_ips (cp_store s))\<rparr>\<rparr>"
    using Cons.prems by (simp add: with_vnet_def ReleaseNode_def store_defs Let_def)
  from Cons.IH [of "snd (with_vnet (ReleaseNode i) s)" ?m] show ?case
    by (auto simp: w cp_node_def Release_def ip_geo_def)
qed simp

section \<open>Properties\<close>



text \<open>
  C14: A restart changes nothing. A new server on the store of a running one, with the same
  configuration, starts without an error, and has the same nodes, the same rules and the same
  addresses, in whatever order it reads the tables.
\<close>

theorem restart_restores:
  assumes "started net cfg ord s0" and "\<forall>n. np_CIDR net (cc_VirtualSubnet cfg) = Some n \<longrightarrow> cidr_ok n"
    and "s = cp_run calls s0" and "t = NewControlServer net cfg ord' (cp_store s) (cp_heap s) (cp_next s)"
    and "range_order (ms_nodes (cp_store s)) (so_nodes ord')" and "range_order (ms_acls (cp_store s)) (so_acls ord')"
    and "range_order (ms_ips (cp_store s)) (so_ips ord')"
  shows "cp_vnetErr t = None \<and> cp_registry t = cp_registry s \<and> cp_rules t = cp_rules s \<and>
    (\<forall>i. map_option (\<lambda>m. GetAllocation i (vn_allocator m)) (cp_vnet t) =
         map_option (\<lambda>m. GetAllocation i (vn_allocator m)) (cp_vnet s))"
proof -
  have i0: "cp_inv s0" "cp_config s0 = cfg" "cp_vnet s0 = None \<longleftrightarrow> \<not> cc_IPAMEnabled cfg"
      "\<And>m. cp_vnet s0 = Some m \<Longrightarrow> NewVirtualNetworkManager net cfg (so_ips ord) NewMemoryStore = Inr m"
    using started_inv [OF assms(1)] assms(2) by auto
  have inv: "cp_inv s" using cp_inv_run [OF i0(1)] assms(3) by simp
  have st: "cp_static s = cp_static s0" using cp_run_static [OF i0(1)] assms(3) by simp
  have reg: "cp_registry t = cp_registry s"
  proof (rule fmap_ext)
    fix i
    have h: "\<exists>n. fmlookup (cp_heap s) a = Some n \<and> ni_NodeID n = k \<and> k \<noteq> []" if "fmlookup (cp_registry s) k = Some a" for k a
      using cp_invD(6) [OF inv that] by (auto simp: node_ok_def cp_node_def)
    show "fmlookup (cp_registry t) i = fmlookup (cp_registry s) i"
      using restoreNodes_lookup [of "cp_registry s" "cp_heap s" "so_nodes ord'" fmempty i, OF h]
        range_order_set [OF assms(5)] cp_invD(2) [OF inv]
      by (auto simp: assms(4) NewControlServer_def Let_def store_defs)
  qed
  have rul: "cp_rules t = cp_rules s"
  proof (rule fmap_ext)
    fix i
    show "fmlookup (cp_rules t) i = fmlookup (cp_rules s) i"
      using restoreRules_lookup [of "cp_rules s" "so_acls ord'" fmempty i, OF cp_invD(4) [OF inv]]
        range_order_set [OF assms(6)] cp_invD(3) [OF inv]
      by (auto simp: assms(4) NewControlServer_def Let_def store_defs)
  qed
  show ?thesis
  proof (cases "cp_vnet s0")
    case None
    then have "cp_vnet s = None" "\<not> cc_IPAMEnabled cfg" using st i0(3) by (auto simp: cp_static_def)
    then show ?thesis using reg rul by (simp add: assms(4) NewControlServer_def Let_def)
  next
    case (Some m0)
    note n0 = NewVNet_fresh [OF i0(4) [OF Some]]
    obtain m where m: "cp_vnet s = Some m" "vn_static m = vn_static m0" using st Some by (auto simp: cp_static_def)
    have v: "ipam_inv (vn_allocator m)" "im_allocated (vn_allocator m) = ms_ips (cp_store s)"
      using cp_invD(1) [OF inv m(1)] by (auto simp: vnet_ok_def)
    have a0: "ipam_inv (vn_allocator m0)" "im_allocated (vn_allocator m0) = fmempty"
      using NewIPAM_inv [OF conjunct1 [OF n0]] assms(2) by blast+
    have hosts: "is_host (vn_allocator m0) = is_host (vn_allocator m)"
      by (rule same_hosts) (use m(2) in \<open>simp add: vn_static_def\<close>)
    let ?ips = "ms_ips (cp_store s)" and ?ks = "so_ips ord'"
    let ?xs = "map (\<lambda>k. (k, the (fmlookup ?ips k))) ?ks"
    have k: "k \<in> set ?ks \<longleftrightarrow> fmlookup ?ips k \<noteq> None" for k by (rule range_order_set [OF assms(7)])
    have inj: "inj_on (\<lambda>k. the (fmlookup ?ips k)) (set ?ks)"
      using k ipam_invD(5) [OF v(1)] v(2) by (fastforce simp: inj_on_def)
    have d: "distinct (map fst ?xs)" "distinct (map snd ?xs)"
      using range_order_distinct [OF assms(7)] inj by (simp_all add: comp_def distinct_map)
    have f: "\<forall>(n, a) \<in> set ?xs. is_host (vn_allocator m0) a \<and> GetAllocation n (vn_allocator m0) = None \<and>
        (\<forall>k. GetAllocation k (vn_allocator m0) \<noteq> Some a)"
      using k ipam_invD(4) [OF v(1)] v(2) hosts a0(2) by (fastforce simp: GetAllocation_def)
    obtain al where al: "reserve_list (\<lambda>n c. Reserve n (IP4 c)) ?xs (vn_allocator m0) = (None, al)"
        "\<And>k. GetAllocation k al = (case map_of ?xs k of Some a \<Rightarrow> Some a | None \<Rightarrow> GetAllocation k (vn_allocator m0))"
      using ipam.reserve_list_ok [OF a0(1) d f] by blast
    have r: "restoreAllocations ?ips ?ks m0 = Inr (m0\<lparr>vn_allocator := al\<rparr>)"
      by (rule restoreAllocations_ok [OF _ al(1)]) (use k in blast)
    have "NewVirtualNetworkManager net cfg ?ks (cp_store s) = Inr (m0\<lparr>vn_allocator := al\<rparr>)"
      using n0 r by (simp add: NewVirtualNetworkManager_def store_defs)
    moreover have "GetAllocation k al = GetAllocation k (vn_allocator m)" for k
    proof (cases "k \<in> set ?ks")
      case True
      then have "map_of ?xs k = Some (the (fmlookup ?ips k))" by (simp add: map_of_map_restrict)
      then show ?thesis using al(2) [of k] k [of k] True v(2) by (auto simp: GetAllocation_def)
    next
      case False
      then have "map_of ?xs k = None" by (auto simp: map_of_eq_None_iff)
      then show ?thesis using al(2) [of k] k [of k] False v(2) a0(2) by (auto simp: GetAllocation_def)
    qed
    moreover have "cc_IPAMEnabled cfg" using Some i0(3) by auto
    ultimately show ?thesis using reg rul m(1) by (simp add: assms(4) NewControlServer_def Let_def)
  qed
qed

theorem restart_restores_witness:
  "let s = cp_run [CallRegister 1 1 ex_request (Some (ex_node ''n1''))] ex_cp;
       t = NewControlServer ex_net DefaultControlPlaneConfig \<lparr>so_nodes = [''n1''], so_acls = [], so_ips = [''n1'']\<rparr>
             (cp_store s) (cp_heap s) (cp_next s)
   in cp_vnetErr t = None \<and> fmlookup (cp_registry t) ''n1'' = Some 0"
proof -
  let ?s = "cp_run [CallRegister 1 1 ex_request (Some (ex_node ''n1''))] ex_cp"
  have st: "cp_store ?s = NewMemoryStore\<lparr>ms_nodes := fmupd ''n1'' 0 fmempty, ms_ips := fmupd ''n1'' 0x0A070002 fmempty\<rparr>"
    by (simp add: handleRegisterNode_def ex_node_def alloc_node_def assign_at_def AssignNode_def ex_cp_fields cp_node_def cp_write_def
      store_defs NewMemoryStore_def ex_allocate Register_def Let_def log_audit_def)
  have r: "range_order (ms_nodes (cp_store ?s)) [''n1'']" "range_order (ms_acls (cp_store ?s)) []" "range_order (ms_ips (cp_store ?s)) [''n1'']"
    unfolding st by (simp_all add: range_order_def NewMemoryStore_def)
  obtain n where n: "fmlookup (cp_registry ?s) ''n1'' = Some 0"
    using ex_register [of "''n1''" 1 1 ex_request] by auto
  from restart_restores [OF ex_started ex_cidr refl refl, of "[CallRegister 1 1 ex_request (Some (ex_node ''n1''))]"
      "\<lparr>so_nodes = [''n1''], so_acls = [], so_ips = [''n1'']\<rparr>"] r n
  show ?thesis unfolding Let_def by simp
qed

text \<open>
  C15: Access is decided by a strongest matching rule. If some rule matches the query with a
  priority that is not negative, the answer of \<open>Evaluate\<close> is the action of a matching rule of the
  highest priority, whatever the order of the map, and if there is none, access is denied.
\<close>

theorem acl_decision:
  assumes "range_order (cp_rules s) ks"
  shows "(\<exists>r \<in> strongest now q s. acl_Evaluate now q ks s \<longleftrightarrow> al_Action r = ''allow'') \<or>
    (strongest now q s = {} \<and> \<not> acl_Evaluate now q ks s)"
proof -
  let ?rs = "range_vals (cp_rules s) ks"
  have set: "r \<in> set ?rs \<longleftrightarrow> (\<exists>i. fmlookup (cp_rules s) i = Some r)" for r
    using range_order_set [OF assms] by (auto simp: set_range_vals)
  from best_rule_spec [of now q ?rs None "- 1"] show ?thesis
  proof
    assume b: "best_rule now q ?rs None (- 1) = None \<and> (\<forall>r \<in> set ?rs. rule_matches now q r \<longrightarrow> al_Priority r \<le> - 1)"
    then have "strongest now q s = {}" using set by (fastforce simp: strongest_def)
    then show ?thesis using b by (simp add: acl_Evaluate_def)
  next
    assume "\<exists>r \<in> set ?rs. best_rule now q ?rs None (- 1) = Some r \<and> rule_matches now q r \<and> - 1 < al_Priority r \<and>
      (\<forall>r' \<in> set ?rs. rule_matches now q r' \<longrightarrow> al_Priority r' \<le> al_Priority r)"
    then obtain r where r: "r \<in> set ?rs" "best_rule now q ?rs None (- 1) = Some r" "rule_matches now q r" "- 1 < al_Priority r"
        "\<forall>r' \<in> set ?rs. rule_matches now q r' \<longrightarrow> al_Priority r' \<le> al_Priority r" by blast
    then have "r \<in> strongest now q s" using set by (auto simp: strongest_def)
    then show ?thesis using r(2) by (auto simp: acl_Evaluate_def)
  qed
qed

definition ex_rule :: "string \<Rightarrow> string \<Rightarrow> int \<Rightarrow> ACLRule" where
  "ex_rule i action p = \<lparr>al_ID = i, al_Source = ''*'', al_Target = ''*'', al_Action = action, al_Protocol = ''*'', al_Ports = [],
     al_Priority = p, al_ExpiresAt = None, al_CreatedAt = 0\<rparr>"

theorem acl_decision_witness:
  "let s = ex_cp\<lparr>cp_rules := fmupd ''a'' (ex_rule ''a'' ''allow'' 1) (fmupd ''d'' (ex_rule ''d'' ''deny'' 7) fmempty)\<rparr>
   in \<not> acl_Evaluate 0 \<lparr>aq_source = ''x'', aq_target = ''y'', aq_protocol = ''tcp'', aq_port = 80\<rparr> [''a'', ''d''] s"
proof -
  let ?s = "ex_cp\<lparr>cp_rules := fmupd ''a'' (ex_rule ''a'' ''allow'' 1) (fmupd ''d'' (ex_rule ''d'' ''deny'' 7) fmempty)\<rparr>"
  let ?q = "\<lparr>aq_source = ''x'', aq_target = ''y'', aq_protocol = ''tcp'', aq_port = 80\<rparr>"
  have "range_order (cp_rules ?s) [''a'', ''d'']" by (simp add: range_order_def)
  note d = acl_decision [OF this, of 0 ?q]
  have "al_Action r \<noteq> ''allow''" if "r \<in> strongest 0 ?q ?s" for r
  proof -
    have "fmlookup (cp_rules ?s) ''d'' = Some (ex_rule ''d'' ''deny'' 7)" "rule_matches 0 ?q (ex_rule ''d'' ''deny'' 7)"
      by (simp_all add: rule_matches_def ex_rule_def)
    then have "7 \<le> al_Priority r" using that unfolding strongest_def ex_rule_def by fastforce
    then show ?thesis using that by (auto simp: strongest_def ex_rule_def split: if_splits)
  qed
  then show ?thesis using d unfolding Let_def by blast
qed

text \<open>
  An address is given away while its node is registered. A tick removes the stale nodes and
  releases their addresses afterwards; a node that registers again in between gets its old address
  back and then loses it: it stays registered with an address that the allocator is free to hand
  to another node.
\<close>

theorem prune_race:
  assumes "started net cfg ord s0" and "\<forall>n. np_CIDR net (cc_VirtualSubnet cfg) = Some n \<longrightarrow> cidr_ok n"
    and "s = cp_run calls s0" and "cp_vnet s = Some m"
    and "fmlookup (cp_registry s) i = Some a" and "cp_node s a = Some n" and "ni_LastSeen n < now - timeout" and "i \<in> set ks"
    and "PruneStaleIDs now timeout ks s = (ids, s1)" and "ni_NodeID node = i"
    and "handleRegisterNode t1 t2 r (Some node) s1 = (resp, s2)"
  shows "\<exists>b k ip m'. fmlookup (cp_registry (release_ids ids s2)) i = Some b \<and> cp_node (release_ids ids s2) b = Some k \<and>
    ni_VirtualIP k = ip4_string ip \<and> cp_vnet (release_ids ids s2) = Some m' \<and> ip \<in> free_hosts (vn_allocator m')"
proof -
  have inv: "cp_inv s" using started_inv [OF assms(1)] assms(2,3) cp_inv_run by blast
  note pr = prune_range_drops [OF reg_keys_inv [OF inv] assms(9) [unfolded PruneStaleIDs_def]]
  have s1: "s1 = drop_nodes ids s" and i: "i \<in> set ids" using pr assms(5-8) by blast+
  obtain ip where ip: "fmlookup (ms_ips (cp_store s)) i = Some ip" "i \<noteq> []"
    using cp_invD(6) [OF inv assms(5)] assms(4) by (auto simp: node_ok_def)
  have inv1: "cp_inv s1" unfolding s1 by (rule drop_nodes_keeps(1) [OF inv])
  have v1: "cp_vnet s1 = Some m" "fmlookup (ms_ips (cp_store s1)) (ni_NodeID node) = Some ip"
    using assms(4,10) ip by (simp_all add: s1 drop_nodes_keeps)
  have inv2: "cp_inv s2" using cp_inv_handleRegisterNode [OF inv1, of t1 t2 r "Some node"] assms(11) by simp
  have "ni_NodeID node \<noteq> []" using assms(10) ip(2) by simp
  then obtain b where b: "fmlookup (cp_registry s2) i = Some b" and v2: "cp_vnet s2 = Some m"
    using register_again [OF inv1 v1, of t1 t2 r] assms(10,11) by auto
  obtain k ip2 where k: "cp_node s2 b = Some k" "fmlookup (ms_ips (cp_store s2)) i = Some ip2" "ni_VirtualIP k = ip4_string ip2"
    using cp_invD(6) [OF inv2 b] v2 by (auto simp: node_ok_def)
  have a2: "ipam_inv (vn_allocator m)" "fmlookup (im_allocated (vn_allocator m)) i = Some ip2"
    using cp_invD(1) [OF inv2 v2] k(2) by (auto simp: vnet_ok_def)
  obtain m' where m': "cp_registry (release_ids ids s2) = cp_registry s2" "cp_node (release_ids ids s2) b = cp_node s2 b"
      "cp_vnet (release_ids ids s2) = Some m'" "ip_geo (vn_allocator m') = ip_geo (vn_allocator m)"
      "\<And>j. fmlookup (im_allocated (vn_allocator m')) j = (if j \<in> set ids then None else fmlookup (im_allocated (vn_allocator m)) j)"
    using release_ids_spec [OF v2, of ids b] by blast
  have "ip2 \<in> free_hosts (vn_allocator m')"
    using ipam_invD(4) [OF a2] ipam_invD(5) [OF a2] same_hosts [OF m'(4)] m'(5) i
    by (auto simp: free_hosts_def ip_taken_iff split: if_splits)
  then show ?thesis using m'(1-3) b k by metis
qed

theorem prune_race_witness:
  "let s = cp_run [CallRegister 1 1 ex_request (Some (ex_node ''n1''))] ex_cp;
       (ids, s1) = PruneStaleIDs 100 60 [''n1''] s;
       (resp, s2) = handleRegisterNode 101 101 ex_request (Some (ex_node ''n1'')) s1
   in \<exists>k ip m'. cp_node (release_ids ids s2) (the (fmlookup (cp_registry (release_ids ids s2)) ''n1'')) = Some k \<and>
        ni_VirtualIP k = ip4_string ip \<and> cp_vnet (release_ids ids s2) = Some m' \<and> ip \<in> free_hosts (vn_allocator m')"
proof -
  let ?s = "cp_run [CallRegister 1 1 ex_request (Some (ex_node ''n1''))] ex_cp"
  obtain n m where n: "fmlookup (cp_registry ?s) ''n1'' = Some 0" "cp_node ?s 0 = Some n" "ni_LastSeen n = 1" "cp_vnet ?s = Some m"
    using ex_register [of "''n1''" 1 1 ex_request] by auto
  obtain ids s1 where p: "PruneStaleIDs 100 60 [''n1''] ?s = (ids, s1)" by fastforce
  obtain resp s2 where h: "handleRegisterNode 101 101 ex_request (Some (ex_node ''n1'')) s1 = (resp, s2)" by fastforce
  have i: "ni_NodeID (ex_node ''n1'') = ''n1''" by (simp add: ex_node_def)
  obtain b k ip m' where "fmlookup (cp_registry (release_ids ids s2)) ''n1'' = Some b" "cp_node (release_ids ids s2) b = Some k"
    "ni_VirtualIP k = ip4_string ip" "cp_vnet (release_ids ids s2) = Some m'" "ip \<in> free_hosts (vn_allocator m')"
    using prune_race [OF ex_started ex_cidr refl n(4,1,2) _ _ p i h] n(3) by auto
  then show ?thesis unfolding Let_def p prod.case h by simp blast
qed

text \<open>
  C36: Who a request is taken for. A request reaches its handler exactly if it is the health check,
  carries a verified certificate with a name, no token is configured, or it carries the token; but
  without a certificate, the name in the audit log is whatever the client put into the
  \<open>X-Node-CN\<close> header.
\<close>

theorem api_authentication:
  "((\<exists>r'. authMiddleware tok r = Some r') \<longleftrightarrow>
      rq_path r = ''/healthz'' \<or> (\<exists>cn. rq_peerCN r = Some cn \<and> cn \<noteq> []) \<or> tok = [] \<or> rq_authorization r = ''Bearer '' @ tok) \<and>
   (\<forall>r'. authMiddleware tok r = Some r' \<and> rq_path r \<noteq> ''/healthz'' \<longrightarrow>
      (case rq_peerCN r of
         Some (c # cs) \<Rightarrow> extractActor r' = c # cs
       | _ \<Rightarrow> rq_nodeCN r \<noteq> [] \<longrightarrow> extractActor r' = rq_nodeCN r))"
proof -
  show ?thesis
    by (auto simp: authMiddleware_def bearer_rejected_iff extractActor_def split: option.splits list.splits if_splits)
qed

theorem api_authentication_witness:
  "let r = ex_request\<lparr>rq_authorization := ''Bearer t'', rq_nodeCN := ''node-7''\<rparr>
   in authMiddleware ''t'' r = Some r \<and> extractActor r = ''node-7''"
proof -
  let ?r = "ex_request\<lparr>rq_authorization := ''Bearer t'', rq_nodeCN := ''node-7''\<rparr>"
  have "authMiddleware ''t'' ?r = Some ?r"
    by (simp add: authMiddleware_def ex_request_def bearer_rejected_def trim_prefix_def has_prefix_def)
  then show ?thesis using api_authentication [of "''t''" ?r] unfolding Let_def by (simp add: ex_request_def)
qed

end
