(* ===== verification/Sdwan_Policy.thy ===== *)
theory Sdwan_Policy
  imports Go_Prelude
begin

text \<open>
  The SD-WAN policy engine (\<open>server/internal/sdwan/classifier.go\<close>, \<open>config.go\<close>, \<open>policy.go\<close>): the
  port-based classifier, the rule table with its sorted copy, and the evaluation of a flow. The
  order in which \<open>rebuildSorted\<close> ranges over the rules is an argument of the operations.
\<close>

type_synonym AppType = string
type_synonym ProtocolType = string

record FlowInfo =
  fl_SrcAddr :: string
  fl_DstAddr :: string
  fl_SrcPort :: int
  fl_DstPort :: int
  fl_Protocol :: ProtocolType
  fl_NodeID :: string

record ClassifyResult =
  cr_App :: AppType
  cr_Priority :: int
  cr_BandwidthLimit :: int
  cr_RouteHint :: string

record SDWANConfig =
  sc_MaxRules :: int
  sc_DefaultPriority :: int

definition DefaultSDWANConfig :: SDWANConfig where
  "DefaultSDWANConfig = \<lparr>sc_MaxRules = 1000, sc_DefaultPriority = 4\<rparr>"

section \<open>Classification\<close>

type_synonym Classifier = "(int, AppType) fmap"

definition NewClassifier :: Classifier where
  "NewClassifier = fmap_of_list [(80, ''http''), (443, ''https''), (8080, ''http''), (8443, ''https''),
     (22, ''ssh''), (3389, ''rdp''), (53, ''dns''), (520, ''wireguard''), (521, ''wireguard'')]"

definition Classify :: "FlowInfo \<Rightarrow> Classifier \<Rightarrow> AppType" where
  "Classify flow c =
     (case fmlookup c (fl_DstPort flow) of
        Some app \<Rightarrow> app
      | None \<Rightarrow> (case fmlookup c (fl_SrcPort flow) of
                   Some app \<Rightarrow> app
                 | None \<Rightarrow> if fl_Protocol flow = ''udp'' then ''quic'' else ''unknown''))"

definition AddPortMapping :: "int \<Rightarrow> AppType \<Rightarrow> Classifier \<Rightarrow> Classifier" where
  "AddPortMapping port app c = fmupd port app c"

definition RemovePortMapping :: "int \<Rightarrow> Classifier \<Rightarrow> Classifier" where
  "RemovePortMapping port c = fmdrop port c"

definition MappingCount :: "Classifier \<Rightarrow> nat" where
  "MappingCount c = mlen c"

section \<open>The rule table\<close>

record PolicyRule =
  pr_ID :: string
  pr_Description :: string
  pr_AppType :: AppType
  pr_Protocol :: ProtocolType
  pr_SrcNodeID :: string
  pr_DstAddr :: string
  pr_DstPort :: int
  pr_Action :: string
  pr_Priority :: int
  pr_BandwidthBps :: int
  pr_RouteHint :: string
  pr_RulePriority :: int
  pr_Enabled :: bool
  pr_CreatedAt :: gotime

record PolicyEngine =
  pe_config :: SDWANConfig
  pe_classifier :: Classifier
  pe_rules :: "(string, PolicyRule) fmap"
  pe_sorted :: "PolicyRule list"

datatype sdwan_error =
    RuleIDRequired
  | MaxRulesReached int
  | RuleNotFound string

definition NewPolicyEngine :: "SDWANConfig \<Rightarrow> Classifier \<Rightarrow> PolicyEngine" where
  "NewPolicyEngine cfg c = \<lparr>pe_config = cfg, pe_classifier = c, pe_rules = fmempty, pe_sorted = []\<rparr>"

definition rebuildSorted :: "string list \<Rightarrow> PolicyEngine \<Rightarrow> PolicyEngine" where
  "rebuildSorted ks e =
     e\<lparr>pe_sorted := sort_slice (\<lambda>a b. pr_RulePriority a < pr_RulePriority b) (range_vals (pe_rules e) ks)\<rparr>"

definition pe_AddRule :: "string list \<Rightarrow> gotime \<Rightarrow> PolicyRule \<Rightarrow> PolicyEngine \<Rightarrow> sdwan_error option \<times> PolicyEngine" where
  "pe_AddRule ks now rule e =
     (if pr_ID rule = [] then (Some RuleIDRequired, e)
      else if int (mlen (pe_rules e)) \<ge> sc_MaxRules (pe_config e) then (Some (MaxRulesReached (sc_MaxRules (pe_config e))), e)
      else (None, rebuildSorted ks
                    (e\<lparr>pe_rules := fmupd (pr_ID rule) (rule\<lparr>pr_CreatedAt := now\<rparr>) (pe_rules e)\<rparr>)))"

definition pe_RemoveRule :: "string list \<Rightarrow> string \<Rightarrow> PolicyEngine \<Rightarrow> sdwan_error option \<times> PolicyEngine" where
  "pe_RemoveRule ks ruleID e =
     (if fmlookup (pe_rules e) ruleID = None then (Some (RuleNotFound ruleID), e)
      else (None, rebuildSorted ks (e\<lparr>pe_rules := fmdrop ruleID (pe_rules e)\<rparr>)))"

definition UpdateRule :: "string list \<Rightarrow> PolicyRule \<Rightarrow> PolicyEngine \<Rightarrow> sdwan_error option \<times> PolicyEngine" where
  "UpdateRule ks rule e =
     (if fmlookup (pe_rules e) (pr_ID rule) = None then (Some (RuleNotFound (pr_ID rule)), e)
      else (None, rebuildSorted ks (e\<lparr>pe_rules := fmupd (pr_ID rule) rule (pe_rules e)\<rparr>)))"

definition GetRule :: "string \<Rightarrow> PolicyEngine \<Rightarrow> PolicyRule option" where
  "GetRule ruleID e = fmlookup (pe_rules e) ruleID"

definition pe_ListRules :: "PolicyEngine \<Rightarrow> PolicyRule list" where
  "pe_ListRules e = pe_sorted e"

definition RuleCount :: "PolicyEngine \<Rightarrow> nat" where
  "RuleCount e = mlen (pe_rules e)"

section \<open>Evaluation\<close>

definition policy_matches :: "PolicyRule \<Rightarrow> FlowInfo \<Rightarrow> AppType \<Rightarrow> bool" where
  "policy_matches rule flow app =
     (if pr_AppType rule \<noteq> [] \<and> pr_AppType rule \<noteq> app then False
      else if pr_Protocol rule \<noteq> [] \<and> pr_Protocol rule \<noteq> fl_Protocol flow then False
      else if pr_SrcNodeID rule \<noteq> [] \<and> pr_SrcNodeID rule \<noteq> fl_NodeID flow then False
      else if pr_DstPort rule \<noteq> 0 \<and> pr_DstPort rule \<noteq> fl_DstPort flow then False
      else True)"

fun eval_rules :: "FlowInfo \<Rightarrow> AppType \<Rightarrow> PolicyRule list \<Rightarrow> ClassifyResult option" where
  "eval_rules flow app [] = None"
| "eval_rules flow app (rule # rules) =
     (if \<not> pr_Enabled rule then eval_rules flow app rules
      else if policy_matches rule flow app then
        Some \<lparr>cr_App = app, cr_Priority = pr_Priority rule, cr_BandwidthLimit = pr_BandwidthBps rule,
              cr_RouteHint = pr_RouteHint rule\<rparr>
      else eval_rules flow app rules)"

definition pe_Evaluate :: "FlowInfo \<Rightarrow> PolicyEngine \<Rightarrow> ClassifyResult" where
  "pe_Evaluate flow e =
     (let app = Classify flow (pe_classifier e) in
      case eval_rules flow app (pe_sorted e) of
        Some r \<Rightarrow> r
      | None \<Rightarrow> \<lparr>cr_App = app, cr_Priority = sc_DefaultPriority (pe_config e), cr_BandwidthLimit = 0, cr_RouteHint = []\<rparr>)"

section \<open>Runs\<close>

text \<open>What was done to an engine; every operation brings the order of its range over the rules.\<close>

datatype pe_op =
    PAdd gotime PolicyRule
  | PRemove string
  | PUpdate PolicyRule

definition pe_apply :: "string list \<Rightarrow> pe_op \<Rightarrow> PolicyEngine \<Rightarrow> PolicyEngine" where
  "pe_apply ks op e =
     (case op of PAdd now r \<Rightarrow> snd (pe_AddRule ks now r e)
      | PRemove i \<Rightarrow> snd (pe_RemoveRule ks i e)
      | PUpdate r \<Rightarrow> snd (UpdateRule ks r e))"

text \<open>A step whose order of ranging is one over the rules that are left.\<close>

inductive pe_reach :: "SDWANConfig \<Rightarrow> Classifier \<Rightarrow> PolicyEngine \<Rightarrow> bool" for cfg c where
  pe_new: "pe_reach cfg c (NewPolicyEngine cfg c)"
| pe_step: "pe_reach cfg c e \<Longrightarrow> range_order (pe_rules (pe_apply ks op e)) ks \<Longrightarrow> pe_reach cfg c (pe_apply ks op e)"

definition by_priority :: "PolicyRule \<Rightarrow> PolicyRule \<Rightarrow> bool" where
  "by_priority a b \<longleftrightarrow> pr_RulePriority a < pr_RulePriority b"

lemma weak_by_priority: "weak_order by_priority"
  unfolding by_priority_def [abs_def] by (rule weak_order_key)

definition pe_inv :: "PolicyEngine \<Rightarrow> bool" where
  "pe_inv e \<longleftrightarrow>
     (\<exists>ks. range_order (pe_rules e) ks \<and> pe_sorted e = sort_slice by_priority (range_vals (pe_rules e) ks)) \<and>
     (\<forall>i r. fmlookup (pe_rules e) i = Some r \<longrightarrow> pr_ID r = i \<and> i \<noteq> []) \<and>
     int (mlen (pe_rules e)) \<le> max 0 (sc_MaxRules (pe_config e))"

lemma rebuild_eq: "rebuildSorted ks e = e\<lparr>pe_sorted := sort_slice by_priority (range_vals (pe_rules e) ks)\<rparr>"
  by (simp add: rebuildSorted_def by_priority_def [abs_def])

lemma pe_inv_rebuild:
  assumes "range_order (pe_rules e) ks" and "\<And>i r. fmlookup (pe_rules e) i = Some r \<Longrightarrow> pr_ID r = i \<and> i \<noteq> []"
    and "int (mlen (pe_rules e)) \<le> max 0 (sc_MaxRules (pe_config e))"
  shows "pe_inv (rebuildSorted ks e)"
  using assms by (auto simp: pe_inv_def rebuild_eq)

lemma rebuild_rules [simp]: "pe_rules (rebuildSorted ks e) = pe_rules e" "pe_config (rebuildSorted ks e) = pe_config e"
  by (simp_all add: rebuild_eq)

lemma pe_inv_apply:
  assumes inv: "pe_inv e" and ks: "range_order (pe_rules (pe_apply ks op e)) ks"
  shows "pe_inv (pe_apply ks op e)"
proof (cases op)
  case (PAdd now r)
  show ?thesis
  proof (cases "pr_ID r = [] \<or> int (mlen (pe_rules e)) \<ge> sc_MaxRules (pe_config e)")
    case True
    then show ?thesis using inv PAdd by (auto simp: pe_apply_def pe_AddRule_def)
  next
    case False
    let ?e = "e\<lparr>pe_rules := fmupd (pr_ID r) (r\<lparr>pr_CreatedAt := now\<rparr>) (pe_rules e)\<rparr>"
    have a: "pe_apply ks op e = rebuildSorted ks ?e" using False PAdd by (auto simp: pe_apply_def pe_AddRule_def)
    show ?thesis unfolding a
      by (rule pe_inv_rebuild) (use ks inv False in \<open>auto simp: a pe_inv_def split: if_splits\<close>)
  qed
next
  case (PRemove i)
  show ?thesis
  proof (cases "fmlookup (pe_rules e) i = None")
    case True
    then show ?thesis using inv PRemove by (auto simp: pe_apply_def pe_RemoveRule_def)
  next
    case False
    then have a: "pe_apply ks op e = rebuildSorted ks (e\<lparr>pe_rules := fmdrop i (pe_rules e)\<rparr>)"
      using PRemove by (auto simp: pe_apply_def pe_RemoveRule_def)
    have "mlen (fmdrop i (pe_rules e)) \<le> mlen (pe_rules e)" by (simp add: map_simps)
    then show ?thesis unfolding a
      by (intro pe_inv_rebuild) (use ks inv in \<open>auto simp: a pe_inv_def split: if_splits\<close>)
  qed
next
  case (PUpdate r)
  show ?thesis
  proof (cases "fmlookup (pe_rules e) (pr_ID r) = None")
    case True
    then show ?thesis using inv PUpdate by (auto simp: pe_apply_def UpdateRule_def)
  next
    case False
    then have a: "pe_apply ks op e = rebuildSorted ks (e\<lparr>pe_rules := fmupd (pr_ID r) r (pe_rules e)\<rparr>)"
      using PUpdate by (auto simp: pe_apply_def UpdateRule_def)
    show ?thesis unfolding a
      by (rule pe_inv_rebuild) (use ks inv False in \<open>auto simp: a pe_inv_def split: if_splits\<close>)
  qed
qed

lemma pe_reach_inv: "pe_reach cfg c e \<Longrightarrow> pe_inv e \<and> pe_config e = cfg \<and> pe_classifier e = c"
proof (induction rule: pe_reach.induct)
  case pe_new
  have "range_order fmempty []" by simp
  then show ?case by (auto simp: pe_inv_def NewPolicyEngine_def intro!: exI [of _ "[]"])
next
  case (pe_step e ks op)
  have "pe_config (pe_apply ks op e) = pe_config e \<and> pe_classifier (pe_apply ks op e) = pe_classifier e"
    by (simp add: pe_apply_def pe_AddRule_def pe_RemoveRule_def UpdateRule_def rebuild_eq split: pe_op.split)
  then show ?case using pe_step pe_inv_apply by simp
qed

lemma eval_rules_find:
  "eval_rules flow app rs = map_option (\<lambda>rule. \<lparr>cr_App = app, cr_Priority = pr_Priority rule,
     cr_BandwidthLimit = pr_BandwidthBps rule, cr_RouteHint = pr_RouteHint rule\<rparr>)
     (find (\<lambda>r. pr_Enabled r \<and> policy_matches r flow app) rs)"
  by (induction rs) auto

section \<open>Properties\<close>

text \<open>
  C38: The first applicable rule decides. In every reachable engine, the result for a flow is that of
  an enabled matching rule which no enabled matching rule precedes in rule priority, and the default
  result exactly if no rule applies; the number of rules never passes the limit.
\<close>

theorem sdwan_first_match:
  assumes "pe_reach cfg c e"
  shows "(let app = Classify flow c;
              applicable = {r. (\<exists>i. fmlookup (pe_rules e) i = Some r) \<and> pr_Enabled r \<and> policy_matches r flow app}
          in if applicable = {}
             then pe_Evaluate flow e = \<lparr>cr_App = app, cr_Priority = sc_DefaultPriority cfg, cr_BandwidthLimit = 0, cr_RouteHint = []\<rparr>
             else \<exists>r \<in> applicable. (\<forall>r' \<in> applicable. pr_RulePriority r \<le> pr_RulePriority r') \<and>
                    pe_Evaluate flow e = \<lparr>cr_App = app, cr_Priority = pr_Priority r, cr_BandwidthLimit = pr_BandwidthBps r,
                                          cr_RouteHint = pr_RouteHint r\<rparr>) \<and>
    int (RuleCount e) \<le> max 0 (sc_MaxRules cfg)"
proof -
  note e = pe_reach_inv [OF assms]
  obtain ks where ks: "range_order (pe_rules e) ks" "pe_sorted e = sort_slice by_priority (range_vals (pe_rules e) ks)"
    using e by (auto simp: pe_inv_def)
  define app where "app = Classify flow c"
  define P where "P r \<longleftrightarrow> pr_Enabled r \<and> policy_matches r flow app" for r
  have mem: "r \<in> set (range_vals (pe_rules e) ks) \<longleftrightarrow> (\<exists>i. fmlookup (pe_rules e) i = Some r)" for r
    using range_order_set [OF ks(1)] by (auto simp: set_range_vals)
  have ev: "pe_Evaluate flow e = (case find P (pe_sorted e) of
      Some r \<Rightarrow> \<lparr>cr_App = app, cr_Priority = pr_Priority r, cr_BandwidthLimit = pr_BandwidthBps r, cr_RouteHint = pr_RouteHint r\<rparr>
    | None \<Rightarrow> \<lparr>cr_App = app, cr_Priority = sc_DefaultPriority cfg, cr_BandwidthLimit = 0, cr_RouteHint = []\<rparr>)"
    using e by (simp add: pe_Evaluate_def eval_rules_find app_def P_def [abs_def] Let_def split: option.split)
  let ?A = "{r. (\<exists>i. fmlookup (pe_rules e) i = Some r) \<and> P r}"
  have main: "if ?A = {} then find P (pe_sorted e) = None
     else \<exists>r \<in> ?A. (\<forall>r' \<in> ?A. pr_RulePriority r \<le> pr_RulePriority r') \<and> find P (pe_sorted e) = Some r"
  proof (cases "find P (pe_sorted e)")
    case None
    then show ?thesis using mem by (auto simp: ks(2) find_None_iff)
  next
    case (Some r)
    then have "r \<in> ?A \<and> (\<forall>r' \<in> ?A. \<not> by_priority r' r)"
      using go_sort.srt_find_least [OF weak_by_priority, of P "range_vals (pe_rules e) ks" r] mem by (auto simp: ks(2))
    then show ?thesis using Some by (auto simp: by_priority_def not_less)
  qed
  have "int (RuleCount e) \<le> max 0 (sc_MaxRules cfg)" using e by (auto simp: pe_inv_def RuleCount_def)
  then show ?thesis using main unfolding ev Let_def app_def [symmetric] P_def by (auto split: if_splits)
qed

definition ex_prule :: PolicyRule where
  "ex_prule = \<lparr>pr_ID = ''r1'', pr_Description = [], pr_AppType = ''https'', pr_Protocol = [], pr_SrcNodeID = [],
     pr_DstAddr = [], pr_DstPort = 0, pr_Action = ''deny'', pr_Priority = 1, pr_BandwidthBps = 500, pr_RouteHint = [],
     pr_RulePriority = 10, pr_Enabled = True, pr_CreatedAt = 0\<rparr>"

definition ex_flow :: FlowInfo where
  "ex_flow = \<lparr>fl_SrcAddr = [], fl_DstAddr = [], fl_SrcPort = 5000, fl_DstPort = 443, fl_Protocol = ''tcp'', fl_NodeID = []\<rparr>"

theorem sdwan_first_match_witness:
  "\<exists>e. pe_reach DefaultSDWANConfig NewClassifier e \<and> cr_BandwidthLimit (pe_Evaluate ex_flow e) = 500"
proof -
  let ?e = "pe_apply [''r1''] (PAdd 0 ex_prule) (NewPolicyEngine DefaultSDWANConfig NewClassifier)"
  have r: "fmlookup (pe_rules ?e) i = (if i = ''r1'' then Some ex_prule else None)" for i
    by (simp add: pe_apply_def pe_AddRule_def NewPolicyEngine_def DefaultSDWANConfig_def ex_prule_def)
  have "pe_rules ?e = fmupd ''r1'' ex_prule fmempty" by (rule fmap_ext) (simp add: r)
  then have "range_order (pe_rules ?e) [''r1'']" by (simp add: range_order_def)
  from pe_step [OF pe_new this] have reach: "pe_reach DefaultSDWANConfig NewClassifier ?e" .
  have app: "Classify ex_flow NewClassifier = ''https''" by code_simp
  have m: "policy_matches ex_prule ex_flow ''https''" "pr_Enabled ex_prule" "pr_BandwidthBps ex_prule = 500"
    by (simp_all add: policy_matches_def ex_prule_def)
  have A: "{r'. (\<exists>i. fmlookup (pe_rules ?e) i = Some r') \<and> pr_Enabled r' \<and> policy_matches r' ex_flow ''https''} = {ex_prule}"
    using m by (auto simp: r split: if_splits)
  have "cr_BandwidthLimit (pe_Evaluate ex_flow ?e) = 500"
    using conjunct1 [OF sdwan_first_match [OF reach, of ex_flow]] m(3) unfolding Let_def app A by auto
  then show ?thesis using reach by blast
qed

text \<open>
  Actions are not looked at. The result of an evaluation does not depend on the actions nor on
  the destination addresses of the rules: a rule that says deny gives its priority and bandwidth like
  one that says allow, and a rule for one address applies to all.
\<close>

theorem sdwan_action_ignored:
  "pe_Evaluate flow (e\<lparr>pe_sorted := map (\<lambda>r. r\<lparr>pr_Action := f r, pr_DstAddr := g r\<rparr>) (pe_sorted e)\<rparr>) = pe_Evaluate flow e"
proof -
  have m: "policy_matches (r\<lparr>pr_Action := x, pr_DstAddr := y\<rparr>) flow app = policy_matches r flow app" for r x y app
    by (simp add: policy_matches_def)
  have "eval_rules flow app (map (\<lambda>r. r\<lparr>pr_Action := f r, pr_DstAddr := g r\<rparr>) rs) = eval_rules flow app rs" for app rs
    by (induction rs) (simp_all add: m)
  then show ?thesis by (simp add: pe_Evaluate_def Let_def split: option.split)
qed

end
