(* ===== verification/Go_Heap.thy ===== *)
theory Go_Heap
  imports Go_Prelude
begin

text \<open>
  The binary heap of Go's \<open>container/heap\<close> on a slice, as the queue of the SD-WAN scheduler uses it:
  \<open>Push\<close> appends and sifts up, \<open>Pop\<close> swaps the ends, sifts down and takes the last element. The
  comparison \<open>Less(i, j)\<close> of the interface is an order on the elements. The facts are proved once for
  every order that is a strict weak one; the packet queue is the instance.
\<close>

named_theorems heap_simps \<open>unfolding of swaps\<close>

section \<open>The operations\<close>

definition heap_parent :: "nat \<Rightarrow> nat" where
  "heap_parent j = (j - 1) div 2"

lemma heap_parent_le: "heap_parent j \<le> j"
  by (simp add: heap_parent_def)

lemma heap_parent_less: "0 < j \<Longrightarrow> heap_parent j < j"
  by (auto simp: heap_parent_def)

lemma heap_parent_eq: "0 < k \<Longrightarrow> heap_parent k = i \<longleftrightarrow> k = 2 * i + 1 \<or> k = 2 * i + 2"
  unfolding heap_parent_def by arith

definition heap_swap :: "nat \<Rightarrow> nat \<Rightarrow> 'a list \<Rightarrow> 'a list" where
  "heap_swap i j xs = xs[i := xs ! j, j := xs ! i]"

function heap_up :: "('a \<Rightarrow> 'a \<Rightarrow> bool) \<Rightarrow> nat \<Rightarrow> 'a list \<Rightarrow> 'a list" where
  "heap_up lt j xs =
     (let i = heap_parent j in
      if i = j \<or> \<not> lt (xs ! j) (xs ! i) then xs
      else heap_up lt i (heap_swap i j xs))"
  by pat_completeness auto
termination
  by (relation "measure (\<lambda>(lt, j, xs). j)") (auto intro: le_neq_implies_less heap_parent_le)

definition heap_child :: "('a \<Rightarrow> 'a \<Rightarrow> bool) \<Rightarrow> nat \<Rightarrow> nat \<Rightarrow> 'a list \<Rightarrow> nat" where
  "heap_child lt i n xs =
     (let j1 = 2 * i + 1; j2 = j1 + 1 in
      if j2 < n \<and> lt (xs ! j2) (xs ! j1) then j2 else j1)"

function heap_down :: "('a \<Rightarrow> 'a \<Rightarrow> bool) \<Rightarrow> nat \<Rightarrow> nat \<Rightarrow> 'a list \<Rightarrow> 'a list" where
  "heap_down lt i n xs =
     (if 2 * i + 1 \<ge> n then xs
      else let j = heap_child lt i n xs in
           if \<not> lt (xs ! j) (xs ! i) then xs
           else heap_down lt j n (heap_swap i j xs))"
  by pat_completeness auto
termination
  by (relation "measure (\<lambda>(lt, i, n, xs). n - i)") (auto simp: heap_child_def Let_def)

declare heap_up.simps [simp del] heap_down.simps [simp del]

definition heap_push :: "('a \<Rightarrow> 'a \<Rightarrow> bool) \<Rightarrow> 'a \<Rightarrow> 'a list \<Rightarrow> 'a list" where
  "heap_push lt x xs = heap_up lt (length xs) (xs @ [x])"

definition heap_pop :: "('a \<Rightarrow> 'a \<Rightarrow> bool) \<Rightarrow> 'a list \<Rightarrow> 'a \<times> 'a list" where
  "heap_pop lt xs =
     (let n = length xs - 1; ys = heap_down lt 0 n (heap_swap 0 n xs)
      in (ys ! n, take n ys))"

section \<open>Swaps\<close>

lemma length_heap_swap [simp]: "length (heap_swap i j xs) = length xs"
  by (simp add: heap_swap_def)

lemma nth_heap_swap [heap_simps]:
  "i < length xs \<Longrightarrow> j < length xs \<Longrightarrow>
     heap_swap i j xs ! k = (if k = i then xs ! j else if k = j then xs ! i else xs ! k)"
  by (auto simp: heap_swap_def nth_list_update)

lemma mset_heap_swap [simp]:
  "i < length xs \<Longrightarrow> j < length xs \<Longrightarrow> mset (heap_swap i j xs) = mset xs"
  unfolding heap_swap_def by (subst mset_swap [symmetric, of j xs i]) (auto simp: list_update_swap)

section \<open>Permutations\<close>

lemma mset_heap_up: "j < length xs \<Longrightarrow> mset (heap_up lt j xs) = mset xs"
proof (induction lt j xs rule: heap_up.induct)
  case (1 lt j xs)
  show ?case
  proof (cases "heap_parent j = j \<or> \<not> lt (xs ! j) (xs ! (heap_parent j))")
    case True
    then show ?thesis by (simp add: heap_up.simps [of lt j xs] Let_def)
  next
    case False
    have "heap_parent j < length xs" using 1(2) heap_parent_le [of j] by simp
    then have "mset (heap_up lt (heap_parent j) (heap_swap (heap_parent j) j xs)) = mset xs"
      using 1(1) [OF refl False] 1(2) by simp
    then show ?thesis using False by (simp add: heap_up.simps [of lt j xs] Let_def)
  qed
qed

lemma length_heap_up: "j < length xs \<Longrightarrow> length (heap_up lt j xs) = length xs"
  using mset_heap_up [of j xs lt] by (metis size_mset)

lemma heap_child_bounds:
  "2 * i + 1 < n \<Longrightarrow> i < heap_child lt i n xs \<and> heap_child lt i n xs < n"
  by (simp add: heap_child_def Let_def)

lemma heap_down_perm:
  "i < n \<or> n = 0 \<Longrightarrow> n \<le> length xs \<Longrightarrow>
     mset (heap_down lt i n xs) = mset xs \<and> length (heap_down lt i n xs) = length xs \<and>
     (\<forall>k. n \<le> k \<longrightarrow> heap_down lt i n xs ! k = xs ! k)"
proof (induction lt i n xs rule: heap_down.induct)
  case (1 lt i n xs)
  let ?j = "heap_child lt i n xs"
  show ?case
  proof (cases "2 * i + 1 \<ge> n \<or> \<not> lt (xs ! ?j) (xs ! i)")
    case True
    then show ?thesis by (auto simp: heap_down.simps [of lt i n xs] Let_def)
  next
    case False
    then have b: "i < ?j" "?j < n" using heap_child_bounds [of i n lt xs] by auto
    have eq: "heap_down lt i n xs = heap_down lt ?j n (heap_swap i ?j xs)"
      using False by (simp add: heap_down.simps [of lt i n xs] Let_def)
    have IH: "mset (heap_down lt ?j n (heap_swap i ?j xs)) = mset (heap_swap i ?j xs) \<and>
        length (heap_down lt ?j n (heap_swap i ?j xs)) = length (heap_swap i ?j xs) \<and>
        (\<forall>k. n \<le> k \<longrightarrow> heap_down lt ?j n (heap_swap i ?j xs) ! k = heap_swap i ?j xs ! k)"
      by (rule 1(1)) (use False b 1 in auto)
    have "i < length xs" "?j < length xs" using b 1 by auto
    then have m: "mset (heap_swap i ?j xs) = mset xs"
      and keep: "\<forall>k. n \<le> k \<longrightarrow> heap_swap i ?j xs ! k = xs ! k"
      using b by (auto simp: nth_heap_swap)
    show ?thesis unfolding eq using IH m keep by simp
  qed
qed

section \<open>The heap order\<close>

locale heap_order =
  fixes lt :: "'a \<Rightarrow> 'a \<Rightarrow> bool"
  assumes wo: "weak_order lt"
begin

definition is_heap :: "nat \<Rightarrow> 'a list \<Rightarrow> bool" where
  "is_heap n xs \<longleftrightarrow> (\<forall>k. 0 < k \<longrightarrow> k < n \<longrightarrow> \<not> lt (xs ! k) (xs ! (heap_parent k)))"

lemma heap_least: "is_heap n xs \<Longrightarrow> k < n \<Longrightarrow> \<not> lt (xs ! k) (xs ! 0)"
proof (induction k rule: less_induct)
  case (less k)
  show ?case
  proof (cases "k = 0")
    case True
    then show ?thesis using weak_order_asym [OF wo] by blast
  next
    case False
    then have p: "heap_parent k < k" by (simp add: heap_parent_less)
    have "\<not> lt (xs ! (heap_parent k)) (xs ! 0)" using less.IH [OF p] less.prems p by simp
    moreover have "\<not> lt (xs ! k) (xs ! (heap_parent k))" using less.prems False by (simp add: is_heap_def)
    ultimately show ?thesis using weak_order_trans [OF wo] by blast
  qed
qed

lemma up_is_heap:
  assumes "j < length xs"
    and "\<And>k. 0 < k \<Longrightarrow> k < length xs \<Longrightarrow> k \<noteq> j \<Longrightarrow> \<not> lt (xs ! k) (xs ! (heap_parent k))"
    and "\<And>k. 0 < j \<Longrightarrow> 0 < k \<Longrightarrow> k < length xs \<Longrightarrow> heap_parent k = j \<Longrightarrow> \<not> lt (xs ! k) (xs ! (heap_parent j))"
  shows "is_heap (length xs) (heap_up lt j xs)"
  using assms
proof (induction j arbitrary: xs rule: less_induct)
  case (less j)
  let ?i = "heap_parent j"
  show ?case
  proof (cases "?i = j \<or> \<not> lt (xs ! j) (xs ! ?i)")
    case True
    then have "\<not> lt (xs ! j) (xs ! ?i)" if "0 < j" using heap_parent_less [OF that] by auto
    then show ?thesis using True less.prems(2) by (auto simp: is_heap_def heap_up.simps [of lt j xs] Let_def)
  next
    case False
    then have j: "0 < j" "?i < j" using heap_parent_le [of j] heap_parent_less [of j] by auto
    have l: "lt (xs ! j) (xs ! ?i)" using False by simp
    note asym = weak_order_asym [OF wo] and tr = weak_order_trans [OF wo]
    let ?ys = "heap_swap ?i j xs"
    have len: "?i < length xs" "j < length xs" using j less.prems(1) by auto
    note nth = nth_heap_swap [OF len]
    have "is_heap (length ?ys) (heap_up lt ?i ?ys)"
    proof (rule less.IH [OF j(2)])
      show "?i < length ?ys" using len by simp
    next
      fix k assume k: "0 < k" "k < length ?ys" "k \<noteq> ?i"
      have pk: "heap_parent k < k" using k by (simp add: heap_parent_less)
      show "\<not> lt (?ys ! k) (?ys ! (heap_parent k))"
      proof (cases "k = j")
        case True
        then show ?thesis using asym [OF l] j nth [of j] nth [of ?i] by auto
      next
        case kj: False
        consider "heap_parent k = j" | "heap_parent k = ?i" "?i \<noteq> j" | "heap_parent k \<noteq> j" "heap_parent k \<noteq> ?i" using j by auto
        then show ?thesis
        proof cases
          case 1
          then show ?thesis using less.prems(3) [of k] k kj j by (auto simp: nth)
        next
          case 2
          have "\<not> lt (xs ! k) (xs ! ?i)" using less.prems(2) [of k] k kj 2 by simp
          then have "\<not> lt (xs ! k) (xs ! j)" using tr asym [OF l] by blast
          then show ?thesis using k kj 2 by (auto simp: nth)
        next
          case 3
          then show ?thesis using less.prems(2) [of k] k kj by (auto simp: nth)
        qed
      qed
    next
      fix k assume k: "0 < ?i" "0 < k" "k < length ?ys" "heap_parent k = ?i"
      have gi: "\<not> lt (xs ! ?i) (xs ! (heap_parent ?i))" using less.prems(2) [of ?i] k j len by simp
      have pi: "heap_parent ?i \<noteq> ?i" "heap_parent ?i \<noteq> j" using heap_parent_less [of ?i] k j by auto
      have ki: "k \<noteq> ?i" using k heap_parent_less [of k] by auto
      show "\<not> lt (?ys ! k) (?ys ! (heap_parent ?i))"
      proof (cases "k = j")
        case True
        then show ?thesis using gi pi j by (simp add: nth)
      next
        case kj: False
        have "\<not> lt (xs ! k) (xs ! ?i)" using less.prems(2) [of k] k kj by simp
        then show ?thesis using tr gi pi ki kj by (auto simp: nth)
      qed
    qed
    then show ?thesis using False by (simp add: heap_up.simps [of lt j xs] Let_def)
  qed
qed

lemma down_is_heap:
  assumes "i < n \<or> n = 0" and "n \<le> length xs"
    and "\<And>k. 0 < k \<Longrightarrow> k < n \<Longrightarrow> heap_parent k \<noteq> i \<Longrightarrow> \<not> lt (xs ! k) (xs ! (heap_parent k))"
    and "\<And>k. 0 < i \<Longrightarrow> 0 < k \<Longrightarrow> k < n \<Longrightarrow> heap_parent k = i \<Longrightarrow> \<not> lt (xs ! k) (xs ! (heap_parent i))"
  shows "is_heap n (heap_down lt i n xs)"
  using assms
proof (induction "n - i" arbitrary: i xs rule: less_induct)
  case less
  let ?j = "heap_child lt i n xs"
  note asym = weak_order_asym [OF wo] and tr = weak_order_trans [OF wo]
  have irr: "\<not> lt x x" for x using asym by blast
  show ?case
  proof (cases "2 * i + 1 \<ge> n \<or> \<not> lt (xs ! ?j) (xs ! i)")
    case True
    have eq: "heap_down lt i n xs = xs" using True by (auto simp: heap_down.simps [of lt i n xs] Let_def)
    have "\<not> lt (xs ! k) (xs ! i)" if k: "0 < k" "k < n" "heap_parent k = i" for k
    proof -
      have "k = 2 * i + 1 \<or> k = 2 * i + 2" using k heap_parent_eq by blast
      then have n: "2 * i + 1 < n" using k by auto
      then have j: "\<not> lt (xs ! ?j) (xs ! i)" using True by simp
      have "\<not> lt (xs ! k) (xs ! ?j)"
        using \<open>k = 2 * i + 1 \<or> k = 2 * i + 2\<close> k(2) asym irr by (auto simp: heap_child_def Let_def)
      then show ?thesis using j tr by blast
    qed
    then show ?thesis unfolding eq using less.prems(3) by (metis is_heap_def)
  next
    case False
    then have n: "2 * i + 1 < n" and l: "lt (xs ! ?j) (xs ! i)" by auto
    have b: "i < ?j" "?j < n" using heap_child_bounds [OF n] by auto
    have par: "heap_parent ?j = i" "0 < ?j" by (auto simp: heap_child_def heap_parent_def Let_def)
    have len: "i < length xs" "?j < length xs" using b less.prems(2) by auto
    let ?ys = "heap_swap i ?j xs"
    note nth = nth_heap_swap [OF len]
    have sib: "\<not> lt (xs ! k) (xs ! ?j)" if k: "0 < k" "k < n" "heap_parent k = i" for k
    proof -
      have "k = 2 * i + 1 \<or> k = 2 * i + 2" using k heap_parent_eq by blast
      then show ?thesis using k(2) asym irr by (auto simp: heap_child_def Let_def)
    qed
    have "is_heap n (heap_down lt ?j n ?ys)"
    proof (rule less.hyps)
      show "n - ?j < n - i" using b by simp
      show "?j < n \<or> n = 0" using b by simp
      show "n \<le> length ?ys" using less.prems(2) by simp
    next
      fix k assume k: "0 < k" "k < n" "heap_parent k \<noteq> ?j"
      show "\<not> lt (?ys ! k) (?ys ! (heap_parent k))"
      proof (cases "heap_parent k = i")
        case True
        show ?thesis
        proof (cases "k = ?j")
          case True
          then show ?thesis using asym [OF l] par b nth [of ?j] nth [of i] by simp
        next
          case False
          then have "?ys ! k = xs ! k" using True k nth [of k] heap_parent_less [of k] by auto
          then show ?thesis using True sib [of k] k nth [of i] by simp
        qed
      next
        case pi: False
        have "k \<noteq> ?j" using pi par by metis
        show ?thesis
        proof (cases "k = i")
          case True
          then have "\<not> lt (xs ! ?j) (xs ! (heap_parent i))" using less.prems(4) [of ?j] par b k by simp
          moreover have "heap_parent i \<noteq> i" using heap_parent_less [of i] True k by simp
          moreover have "?ys ! i = xs ! ?j" using nth [of i] by simp
          moreover have "?ys ! heap_parent i = xs ! heap_parent i"
            using nth [of "heap_parent i"] \<open>heap_parent i \<noteq> i\<close> True k(3) by simp
          ultimately show ?thesis using True by simp
        next
          case False
          then show ?thesis
            using less.prems(3) [of k] k pi \<open>k \<noteq> ?j\<close> nth [of k] nth [of "heap_parent k"] by simp
        qed
      qed
    next
      fix k assume k: "0 < ?j" "0 < k" "k < n" "heap_parent k = ?j"
      have "k \<noteq> i" "k \<noteq> ?j" using k(4) b heap_parent_less [OF k(2)] by auto
      moreover have "\<not> lt (xs ! k) (xs ! ?j)" using less.prems(3) [of k] k b by simp
      ultimately show "\<not> lt (?ys ! k) (?ys ! (heap_parent ?j))"
        using nth [of k] nth [of i] par by simp
    qed
    then show ?thesis using False by (simp add: heap_down.simps [of lt i n xs] Let_def)
  qed
qed

lemma push_is_heap: "is_heap (length xs) xs \<Longrightarrow> is_heap (Suc (length xs)) (heap_push lt x xs)"
proof -
  assume h: "is_heap (length xs) xs"
  have "is_heap (length (xs @ [x])) (heap_up lt (length xs) (xs @ [x]))"
  proof (rule up_is_heap)
    fix k assume k: "0 < k" "k < length (xs @ [x])" "k \<noteq> length xs"
    then have "k < length xs" "heap_parent k < length xs" using heap_parent_less [of k] by auto
    then show "\<not> lt ((xs @ [x]) ! k) ((xs @ [x]) ! (heap_parent k))"
      using h k by (simp add: is_heap_def nth_append)
  next
    fix k assume "0 < k" "k < length (xs @ [x])" "heap_parent k = length xs"
    then have False using heap_parent_less [of k] by simp
    then show "\<not> lt ((xs @ [x]) ! k) ((xs @ [x]) ! (heap_parent (length xs)))" ..
  qed simp
  then show ?thesis by (simp add: heap_push_def)
qed

lemma push_mset: "mset (heap_push lt x xs) = add_mset x (mset xs)"
  unfolding heap_push_def by (subst mset_heap_up) auto

text \<open>Taking from a heap: an element that none of the others precedes, and a heap of the others.\<close>

lemma pop_heap:
  assumes h: "is_heap (length xs) xs" and ne: "xs \<noteq> []" and p: "heap_pop lt xs = (x, ys)"
  shows "mset xs = add_mset x (mset ys) \<and> is_heap (length ys) ys \<and> (\<forall>y \<in> set ys. \<not> lt y x)"
proof -
  define n where "n = length xs - 1"
  have n: "length xs = Suc n" using ne by (simp add: n_def)
  let ?zs = "heap_swap 0 n xs"
  let ?ds = "heap_down lt 0 n ?zs"
  have len: "0 < length xs" "n < length xs" using n by auto
  have perm: "mset ?ds = mset ?zs" "length ?ds = Suc n" "?ds ! n = ?zs ! n"
    using heap_down_perm [of 0 n ?zs lt] n by auto
  have top: "?zs ! n = xs ! 0" using nth_heap_swap [OF len, of n] by auto
  have x: "x = xs ! 0" and ys: "ys = take n ?ds"
    using p perm(3) top unfolding heap_pop_def Let_def n_def [symmetric] by simp_all
  have "?ds = take n ?ds @ [?ds ! n]"
    using take_Suc_conv_app_nth [of n ?ds] perm(2) by simp
  then have "?ds = ys @ [x]" using ys x perm(3) top by simp
  then have "mset ?ds = mset (ys @ [x])" by (rule arg_cong)
  then have "mset ?ds = add_mset x (mset ys)" by simp
  then have m: "mset xs = add_mset x (mset ys)" using perm(1) len by simp
  have "is_heap n ?ds"
  proof (rule down_is_heap)
    show "0 < n \<or> n = 0" "n \<le> length ?zs" using n by auto
    fix k assume k: "0 < k" "k < n" "heap_parent k \<noteq> 0"
    then have "\<not> lt (xs ! k) (xs ! (heap_parent k))" using h n by (simp add: is_heap_def)
    moreover have "heap_parent k < n" using k heap_parent_less [of k] by simp
    ultimately show "\<not> lt (?zs ! k) (?zs ! (heap_parent k))"
      using nth_heap_swap [OF len, of k] nth_heap_swap [OF len, of "heap_parent k"] k by simp
  qed simp
  moreover have "ys ! heap_parent k = ?ds ! heap_parent k" if "0 < k" "k < n" for k
    using heap_parent_less [OF that(1)] that(2) ys by simp
  ultimately have hy: "is_heap (length ys) ys" using ys perm(2) by (simp add: is_heap_def)
  have "\<not> lt y x" if "y \<in> set ys" for y
  proof -
    have "y \<in># mset xs" using that m by simp
    then obtain k where "k < length xs" "y = xs ! k" by (auto simp: in_set_conv_nth)
    then show ?thesis using heap_least [OF h] x by blast
  qed
  then show ?thesis using m hy by blast
qed

lemma is_heap_Nil: "is_heap 0 []"
  by (simp add: is_heap_def)

end

end
