(* ===== verification/Sdwan_Qos.thy ===== *)
theory Sdwan_Qos
  imports Complex_Main Go_Heap
begin

text \<open>
  The SD-WAN scheduler (\<open>server/internal/sdwan/qos.go\<close>): token buckets that limit the bandwidth of a
  flow, and the bounded priority queue over \<open>container/heap\<close>. The \<open>float64\<close> tokens are exact
  rationals: rounding is not modelled; the products that are \<open>int64\<close> wrap. A limiter is reached only
  through its flow's entry, so the pointer in the map is the bucket itself; a packet is a value. An
  operation takes each reading of the clock as an argument.
\<close>

section \<open>Token buckets\<close>

definition int64 :: "int \<Rightarrow> int" where
  "int64 x = signed_take_bit 63 x"

record TokenBucket =
  tb_rate :: int
  tb_burst :: int
  tb_tokens :: rat
  tb_lastRefill :: gotime

definition bucket_burst :: "int \<Rightarrow> int" where
  "bucket_burst rate = (let burst = int64 (rate * 2) in if burst < 1500 then 1500 else burst)"

definition NewTokenBucket :: "gotime \<Rightarrow> int \<Rightarrow> TokenBucket" where
  "NewTokenBucket now rate =
     \<lparr>tb_rate = rate, tb_burst = bucket_burst rate, tb_tokens = of_int (bucket_burst rate), tb_lastRefill = now\<rparr>"

definition refill :: "gotime \<Rightarrow> TokenBucket \<Rightarrow> TokenBucket" where
  "refill now tb =
     (let elapsed = rat_of_int (time_sub now (tb_lastRefill tb)) / 1000000000 in
      if elapsed \<le> 0 then tb
      else let tokens = tb_tokens tb + elapsed * of_int (tb_rate tb);
               tokens = (if tokens > of_int (tb_burst tb) then of_int (tb_burst tb) else tokens)
           in tb\<lparr>tb_tokens := tokens, tb_lastRefill := now\<rparr>)"

definition tb_Allow :: "gotime \<Rightarrow> int \<Rightarrow> TokenBucket \<Rightarrow> bool \<times> TokenBucket" where
  "tb_Allow now n tb =
     (let tb = refill now tb in
      if tb_tokens tb \<ge> of_int n then (True, tb\<lparr>tb_tokens := tb_tokens tb - of_int n\<rparr>) else (False, tb))"

definition SetRate :: "int \<Rightarrow> TokenBucket \<Rightarrow> TokenBucket" where
  "SetRate rate tb = tb\<lparr>tb_rate := rate, tb_burst := bucket_burst rate\<rparr>"

definition Available :: "gotime \<Rightarrow> TokenBucket \<Rightarrow> rat \<times> TokenBucket" where
  "Available now tb = (let tb = refill now tb in (tb_tokens tb, tb))"

section \<open>The priority queue\<close>

record Packet =
  pk_FlowID :: string
  pk_NodeID :: string
  pk_Size :: int
  pk_Priority :: int
  pk_Enqueued :: gotime
  pk_Data :: "char list"

definition pq_less :: "Packet \<Rightarrow> Packet \<Rightarrow> bool" where
  "pq_less p q =
     (if pk_Priority p \<noteq> pk_Priority q then pk_Priority p < pk_Priority q
      else pk_Enqueued p < pk_Enqueued q)"

interpretation pq: heap_order pq_less
  by unfold_locales (rule weak_orderI; auto simp: pq_less_def split: if_splits)

section \<open>The manager\<close>

record QoSManager =
  qm_queue :: "Packet list"
  qm_limiters :: "(string, TokenBucket) fmap"
  qm_enqueued :: "64 word"
  qm_dequeued :: "64 word"
  qm_dropped :: "64 word"
  qm_bytesIn :: "64 word"
  qm_bytesOut :: "64 word"
  qm_maxQueueSize :: int

definition NewQoSManager :: "int \<Rightarrow> QoSManager" where
  "NewQoSManager maxQueueSize =
     \<lparr>qm_queue = [], qm_limiters = fmempty, qm_enqueued = 0, qm_dequeued = 0, qm_dropped = 0,
      qm_bytesIn = 0, qm_bytesOut = 0, qm_maxQueueSize = maxQueueSize\<rparr>"

definition getOrCreateLimiter :: "gotime \<Rightarrow> string \<Rightarrow> int \<Rightarrow> QoSManager \<Rightarrow> TokenBucket \<times> QoSManager" where
  "getOrCreateLimiter now flowID rate qm =
     (case fmlookup (qm_limiters qm) flowID of
        Some limiter \<Rightarrow> (limiter, qm)
      | None \<Rightarrow> let limiter = NewTokenBucket now rate
                in (limiter, qm\<lparr>qm_limiters := fmupd flowID limiter (qm_limiters qm)\<rparr>))"

definition drop_packet :: "QoSManager \<Rightarrow> bool \<times> QoSManager" where
  "drop_packet qm = (False, qm\<lparr>qm_dropped := qm_dropped qm + 1\<rparr>)"

definition push_packet :: "gotime \<Rightarrow> Packet \<Rightarrow> QoSManager \<Rightarrow> bool \<times> QoSManager" where
  "push_packet now pkt qm =
     (if int (length (qm_queue qm)) \<ge> qm_maxQueueSize qm then drop_packet qm
      else (True, qm\<lparr>qm_queue := heap_push pq_less (pkt\<lparr>pk_Enqueued := now\<rparr>) (qm_queue qm),
                     qm_enqueued := qm_enqueued qm + 1,
                     qm_bytesIn := qm_bytesIn qm + word_of_int (pk_Size pkt)\<rparr>))"

text \<open>\<open>Enqueue\<close>, with the times at which a new bucket is made, the bucket is refilled, and the packet stamped.\<close>

definition Enqueue :: "gotime \<Rightarrow> gotime \<Rightarrow> gotime \<Rightarrow> Packet \<Rightarrow> int \<Rightarrow> QoSManager \<Rightarrow> bool \<times> QoSManager" where
  "Enqueue t1 t2 t3 pkt bandwidthLimit qm =
     (if bandwidthLimit > 0 then
        (case getOrCreateLimiter t1 (pk_FlowID pkt) bandwidthLimit qm of
           (limiter, qm) \<Rightarrow>
             (case tb_Allow t2 (pk_Size pkt) limiter of
                (ok, limiter) \<Rightarrow>
                  let qm = qm\<lparr>qm_limiters := fmupd (pk_FlowID pkt) limiter (qm_limiters qm)\<rparr> in
                  if \<not> ok then drop_packet qm else push_packet t3 pkt qm))
      else push_packet t3 pkt qm)"

definition take_packet :: "QoSManager \<Rightarrow> Packet \<times> QoSManager" where
  "take_packet qm =
     (case heap_pop pq_less (qm_queue qm) of
        (pkt, q) \<Rightarrow> (pkt, qm\<lparr>qm_queue := q, qm_dequeued := qm_dequeued qm + 1,
                            qm_bytesOut := qm_bytesOut qm + word_of_int (pk_Size pkt)\<rparr>))"

definition Dequeue :: "QoSManager \<Rightarrow> Packet option \<times> QoSManager" where
  "Dequeue qm =
     (if length (qm_queue qm) = 0 then (None, qm)
      else (case take_packet qm of (pkt, qm) \<Rightarrow> (Some pkt, qm)))"

fun take_packets :: "nat \<Rightarrow> QoSManager \<Rightarrow> Packet list \<times> QoSManager" where
  "take_packets 0 qm = ([], qm)"
| "take_packets (Suc n) qm =
     (case take_packet qm of (pkt, qm) \<Rightarrow>
        (case take_packets n qm of (pkts, qm) \<Rightarrow> (pkt # pkts, qm)))"

text \<open>\<open>DequeueBatch\<close>; \<open>make\<close> panics on a negative length, which \<open>None\<close> stands for.\<close>

definition DequeueBatch :: "int \<Rightarrow> QoSManager \<Rightarrow> (Packet list \<times> QoSManager) option" where
  "DequeueBatch cnt qm =
     (let n = (if cnt > int (length (qm_queue qm)) then int (length (qm_queue qm)) else cnt) in
      if n = 0 then Some ([], qm)
      else if n < 0 then None
      else Some (take_packets (nat n) qm))"

definition QueueLen :: "QoSManager \<Rightarrow> nat" where
  "QueueLen qm = length (qm_queue qm)"

definition SetFlowLimit :: "gotime \<Rightarrow> string \<Rightarrow> int \<Rightarrow> QoSManager \<Rightarrow> QoSManager" where
  "SetFlowLimit now flowID rate qm =
     (case fmlookup (qm_limiters qm) flowID of
        Some limiter \<Rightarrow> qm\<lparr>qm_limiters := fmupd flowID (SetRate rate limiter) (qm_limiters qm)\<rparr>
      | None \<Rightarrow> snd (getOrCreateLimiter now flowID rate qm))"

definition RemoveFlowLimit :: "string \<Rightarrow> QoSManager \<Rightarrow> QoSManager" where
  "RemoveFlowLimit flowID qm = qm\<lparr>qm_limiters := fmdrop flowID (qm_limiters qm)\<rparr>"

record QoSStats =
  qs_QueueLen :: nat
  qs_Enqueued :: "64 word"
  qs_Dequeued :: "64 word"
  qs_Dropped :: "64 word"
  qs_BytesIn :: "64 word"
  qs_BytesOut :: "64 word"
  qs_FlowLimits :: nat

definition qos_GetStats :: "QoSManager \<Rightarrow> QoSStats" where
  "qos_GetStats qm =
     \<lparr>qs_QueueLen = length (qm_queue qm), qs_Enqueued = qm_enqueued qm, qs_Dequeued = qm_dequeued qm,
      qs_Dropped = qm_dropped qm, qs_BytesIn = qm_bytesIn qm, qs_BytesOut = qm_bytesOut qm,
      qs_FlowLimits = mlen (qm_limiters qm)\<rparr>"

section \<open>Runs\<close>

datatype qos_op =
    QEnqueue gotime gotime gotime Packet int
  | QDequeue
  | QBatch int
  | QSetLimit gotime string int
  | QRemoveLimit string

definition qos_apply :: "qos_op \<Rightarrow> QoSManager \<Rightarrow> QoSManager" where
  "qos_apply op qm =
     (case op of
        QEnqueue t1 t2 t3 pkt bw \<Rightarrow> snd (Enqueue t1 t2 t3 pkt bw qm)
      | QDequeue \<Rightarrow> snd (Dequeue qm)
      | QBatch n \<Rightarrow> (case DequeueBatch n qm of None \<Rightarrow> qm | Some (_, qm) \<Rightarrow> qm)
      | QSetLimit now f r \<Rightarrow> SetFlowLimit now f r qm
      | QRemoveLimit f \<Rightarrow> RemoveFlowLimit f qm)"

definition qos_run :: "qos_op list \<Rightarrow> QoSManager \<Rightarrow> QoSManager" where
  "qos_run ops qm = fold qos_apply ops qm"

text \<open>
  The queue is a heap within its capacity, and the counters account for it: what was put in is what
  was taken out and what is still queued.
\<close>

definition qos_inv :: "QoSManager \<Rightarrow> bool" where
  "qos_inv qm \<longleftrightarrow>
     pq.is_heap (length (qm_queue qm)) (qm_queue qm) \<and>
     int (length (qm_queue qm)) \<le> max 0 (qm_maxQueueSize qm) \<and>
     qm_enqueued qm = qm_dequeued qm + of_nat (length (qm_queue qm)) \<and>
     qm_bytesIn qm = qm_bytesOut qm + word_of_int (sum_list (map pk_Size (qm_queue qm)))"

lemma qos_inv_new: "qos_inv (NewQoSManager n)"
  by (simp add: qos_inv_def NewQoSManager_def pq.is_heap_Nil)

text \<open>The invariant does not look at the limiters nor at the count of drops.\<close>

lemma qos_inv_limiters [simp]: "qos_inv (qm\<lparr>qm_limiters := l\<rparr>) = qos_inv qm"
  "qos_inv (qm\<lparr>qm_dropped := d\<rparr>) = qos_inv qm"
  by (simp_all add: qos_inv_def)

lemma mset_size: "mset xs = add_mset x (mset ys) \<Longrightarrow> length xs = Suc (length ys)"
  by (metis size_add_mset size_mset)

lemma mset_bytes:
  "mset xs = add_mset x (mset ys) \<Longrightarrow> sum_list (map pk_Size xs) = pk_Size x + sum_list (map pk_Size ys)"
  by (metis mset.simps(2) list.simps(9) mset_map sum_list.Cons sum_mset_sum_list)

lemma push_packet_inv: "qos_inv qm \<Longrightarrow> qos_inv (snd (push_packet now pkt qm))"
proof -
  assume i: "qos_inv qm"
  let ?p = "pkt\<lparr>pk_Enqueued := now\<rparr>"
  let ?q = "heap_push pq_less ?p (qm_queue qm)"
  have m: "mset ?q = add_mset ?p (mset (qm_queue qm))" by (rule pq.push_mset)
  show ?thesis
    using i pq.push_is_heap [of "qm_queue qm" ?p] mset_size [OF m] mset_bytes [OF m]
    by (auto simp: push_packet_def drop_packet_def qos_inv_def ac_simps)
qed

lemma Enqueue_inv: "qos_inv qm \<Longrightarrow> qos_inv (snd (Enqueue t1 t2 t3 pkt bw qm))"
  by (auto simp: Enqueue_def getOrCreateLimiter_def drop_packet_def Let_def split: option.split prod.split
      intro!: push_packet_inv)

lemma take_packet_inv:
  assumes "qos_inv qm" and "qm_queue qm \<noteq> []" and "take_packet qm = (pkt, qm')"
  shows "qos_inv qm' \<and> mset (qm_queue qm) = add_mset pkt (mset (qm_queue qm'))
    \<and> (\<forall>y \<in> set (qm_queue qm'). \<not> pq_less y pkt)"
proof -
  obtain q where q: "heap_pop pq_less (qm_queue qm) = (pkt, q)"
    and qm': "qm' = qm\<lparr>qm_queue := q, qm_dequeued := qm_dequeued qm + 1,
                      qm_bytesOut := qm_bytesOut qm + word_of_int (pk_Size pkt)\<rparr>"
    using assms(3) by (auto simp: take_packet_def split: prod.splits)
  have h: "pq.is_heap (length (qm_queue qm)) (qm_queue qm)" using assms(1) by (simp add: qos_inv_def)
  note pop = pq.pop_heap [OF h assms(2) q]
  show ?thesis
    using pop assms(1) mset_size [OF conjunct1 [OF pop]] mset_bytes [OF conjunct1 [OF pop]] unfolding qm'
    by (auto simp: qos_inv_def ac_simps)
qed

text \<open>Taking several packets is taking them in order of precedence.\<close>

lemma take_packets_inv:
  assumes "qos_inv qm" and "n \<le> length (qm_queue qm)" and "take_packets n qm = (pkts, qm')"
  shows "qos_inv qm' \<and> mset (qm_queue qm) = mset pkts + mset (qm_queue qm') \<and> length pkts = n
    \<and> sorted_wrt (\<lambda>a b. \<not> pq_less b a) (pkts @ sort_slice pq_less (qm_queue qm'))"
  using assms
proof (induction n arbitrary: qm pkts)
  case 0
  then show ?case using sorted_sort_slice [OF pq.wo] by simp
next
  case (Suc n)
  obtain p qm1 where p: "take_packet qm = (p, qm1)" by (cases "take_packet qm")
  obtain ps where ps: "take_packets n qm1 = (ps, qm')" "pkts = p # ps"
    using Suc.prems(3) p by (auto split: prod.splits)
  have ne: "qm_queue qm \<noteq> []" using Suc.prems(2) by auto
  note t = take_packet_inv [OF Suc.prems(1) ne p]
  have "n \<le> length (qm_queue qm1)" using Suc.prems(2) mset_size [OF conjunct1 [OF conjunct2 [OF t]]] by simp
  then have IH: "qos_inv qm' \<and> mset (qm_queue qm1) = mset ps + mset (qm_queue qm') \<and> length ps = n
    \<and> sorted_wrt (\<lambda>a b. \<not> pq_less b a) (ps @ sort_slice pq_less (qm_queue qm'))"
    using Suc.IH [of qm1 ps] t ps(1) by blast
  have "set (qm_queue qm1) = set ps \<union> set (qm_queue qm')"
    using arg_cong [OF conjunct1 [OF conjunct2 [OF IH]], of set_mset] by simp
  then show ?case using IH t ps(2) by auto
qed

lemma DequeueBatch_inv: "qos_inv qm \<Longrightarrow> DequeueBatch n qm = Some (pkts, qm') \<Longrightarrow> qos_inv qm'"
  using take_packets_inv [of qm "nat (min n (int (length (qm_queue qm))))" pkts qm']
  by (auto simp: DequeueBatch_def Let_def min_def split: if_splits)

lemma qos_inv_apply: "qos_inv qm \<Longrightarrow> qos_inv (qos_apply op qm)"
proof (cases op)
  case QDequeue
  assume "qos_inv qm"
  then show ?thesis using take_packet_inv [of qm] QDequeue
    by (auto simp: qos_apply_def Dequeue_def split: prod.split)
next
  case (QBatch n)
  assume "qos_inv qm"
  then show ?thesis using QBatch DequeueBatch_inv by (auto simp: qos_apply_def split: option.split)
next
  case (QSetLimit now f r)
  assume "qos_inv qm"
  then show ?thesis using QSetLimit
    by (auto simp: qos_apply_def SetFlowLimit_def getOrCreateLimiter_def Let_def split: option.split)
qed (auto simp: qos_apply_def Enqueue_inv RemoveFlowLimit_def)

lemma qos_inv_run: "qos_inv (qos_run ops (NewQoSManager n))"
proof -
  have "qos_inv (qos_run ops qm)" if "qos_inv qm" for qm
    using that by (induction ops arbitrary: qm) (simp_all add: qos_run_def qos_inv_apply)
  then show ?thesis using qos_inv_new by blast
qed

lemma push_packet_max [simp]: "qm_maxQueueSize (snd (push_packet t pkt qm)) = qm_maxQueueSize qm"
  by (simp add: push_packet_def drop_packet_def)

lemma Enqueue_max [simp]: "qm_maxQueueSize (snd (Enqueue t1 t2 t3 pkt bw qm)) = qm_maxQueueSize qm"
  by (simp add: Enqueue_def getOrCreateLimiter_def drop_packet_def Let_def split: option.split prod.split)

lemma take_packet_max [simp]: "qm_maxQueueSize (snd (take_packet qm)) = qm_maxQueueSize qm"
  "qm_limiters (snd (take_packet qm)) = qm_limiters qm"
  by (simp_all add: take_packet_def split: prod.split)

lemma take_packets_max: "qm_maxQueueSize (snd (take_packets n qm)) = qm_maxQueueSize qm
    \<and> qm_limiters (snd (take_packets n qm)) = qm_limiters qm"
proof (induction n arbitrary: qm)
  case (Suc n)
  show ?case using Suc [of "snd (take_packet qm)"] by (simp split: prod.splits) (metis snd_conv take_packet_max)
qed simp

lemma Dequeue_max [simp]: "qm_maxQueueSize (snd (Dequeue qm)) = qm_maxQueueSize qm"
  "qm_limiters (snd (Dequeue qm)) = qm_limiters qm"
  by (simp_all add: Dequeue_def take_packet_def split: prod.split)

lemma DequeueBatch_max:
  assumes "DequeueBatch n qm = Some (pkts, qm')"
  shows "qm_maxQueueSize qm' = qm_maxQueueSize qm \<and> qm_limiters qm' = qm_limiters qm"
  using assms take_packets_max [of "nat (min n (int (length (qm_queue qm))))" qm]
  by (auto simp: DequeueBatch_def Let_def min_def split: if_splits)

lemma qos_apply_max: "qm_maxQueueSize (qos_apply op qm) = qm_maxQueueSize qm"
  using DequeueBatch_max
  by (cases op) (auto simp: qos_apply_def SetFlowLimit_def RemoveFlowLimit_def getOrCreateLimiter_def Let_def
      split: option.split)

lemma qos_run_max: "qm_maxQueueSize (qos_run ops qm) = qm_maxQueueSize qm"
  by (induction ops arbitrary: qm) (simp_all add: qos_run_def qos_apply_max)

section \<open>Order\<close>

text \<open>
  C39: Priorities are kept. In every run the queue holds at most its capacity. A dequeue gives nothing
  exactly when the queue is empty; else it gives a queued packet that none of the remaining packets
  precedes, by priority and then by the time of its enqueuing. A batch of a count gives that many packets
  or all of them, in the order in which single dequeues would, and panics on a negative count.
\<close>

theorem qos_priority_order:
  assumes "qm = qos_run ops (NewQoSManager cap)"
  shows "int (QueueLen qm) \<le> max 0 cap
    \<and> (case Dequeue qm of
         (None, qm') \<Rightarrow> qm_queue qm = [] \<and> qm' = qm
       | (Some p, qm') \<Rightarrow> mset (qm_queue qm) = add_mset p (mset (qm_queue qm'))
           \<and> (\<forall>q \<in> set (qm_queue qm'). \<not> pq_less q p))
    \<and> (case DequeueBatch cnt qm of
         None \<Rightarrow> cnt < 0
       | Some (ps, qm') \<Rightarrow> 0 \<le> cnt \<and> int (length ps) = min cnt (int (QueueLen qm))
           \<and> mset (qm_queue qm) = mset ps + mset (qm_queue qm')
           \<and> sorted_wrt (\<lambda>a b. \<not> pq_less b a) ps
           \<and> (\<forall>p \<in> set ps. \<forall>q \<in> set (qm_queue qm'). \<not> pq_less q p))"
proof -
  have inv: "qos_inv qm" using assms qos_inv_run by simp
  have A: "int (QueueLen qm) \<le> max 0 cap"
    using inv assms qos_run_max [of ops "NewQoSManager cap"]
    by (simp add: qos_inv_def QueueLen_def NewQoSManager_def)
  have B: "case Dequeue qm of
         (None, qm') \<Rightarrow> qm_queue qm = [] \<and> qm' = qm
       | (Some p, qm') \<Rightarrow> mset (qm_queue qm) = add_mset p (mset (qm_queue qm'))
           \<and> (\<forall>q \<in> set (qm_queue qm'). \<not> pq_less q p)"
    using take_packet_inv [OF inv] by (auto simp: Dequeue_def split: prod.split)
  have C: "case DequeueBatch cnt qm of
         None \<Rightarrow> cnt < 0
       | Some (ps, qm') \<Rightarrow> 0 \<le> cnt \<and> int (length ps) = min cnt (int (QueueLen qm))
           \<and> mset (qm_queue qm) = mset ps + mset (qm_queue qm')
           \<and> sorted_wrt (\<lambda>a b. \<not> pq_less b a) ps
           \<and> (\<forall>p \<in> set ps. \<forall>q \<in> set (qm_queue qm'). \<not> pq_less q p)"
  proof (cases "cnt < 0 \<or> min cnt (int (length (qm_queue qm))) = 0")
    case True
    then show ?thesis by (auto simp: DequeueBatch_def QueueLen_def Let_def min_def)
  next
    case False
    define n where "n = nat (min cnt (int (length (qm_queue qm))))"
    obtain ps qm' where t: "take_packets n qm = (ps, qm')" by (cases "take_packets n qm")
    have "DequeueBatch cnt qm = Some (ps, qm')"
      using False t by (auto simp: DequeueBatch_def n_def Let_def min_def split: if_splits)
    moreover have "n \<le> length (qm_queue qm)" "int n = min cnt (int (length (qm_queue qm)))"
      using False by (auto simp: n_def)
    ultimately show ?thesis
      using take_packets_inv [OF inv _ t] False by (simp add: QueueLen_def sorted_wrt_append)
  qed
  show ?thesis using A B C by blast
qed

definition ex_pkt :: "int \<Rightarrow> int \<Rightarrow> Packet" where
  "ex_pkt sz prio = \<lparr>pk_FlowID = ''f'', pk_NodeID = [], pk_Size = sz, pk_Priority = prio,
     pk_Enqueued = 0, pk_Data = []\<rparr>"

theorem qos_priority_order_witness:
  "case Dequeue (qos_run [QEnqueue 1 1 1 (ex_pkt 10 4) 0, QEnqueue 2 2 2 (ex_pkt 20 1) 0, QEnqueue 3 3 3 (ex_pkt 30 1) 0]
                   (NewQoSManager 5)) of
     (r, qm') \<Rightarrow> map_option pk_Size r = Some 20 \<and> map pk_Size (qm_queue qm') = [30, 10]"
proof -
  let ?qm = "qos_run [QEnqueue 1 1 1 (ex_pkt 10 4) 0, QEnqueue 2 2 2 (ex_pkt 20 1) 0, QEnqueue 3 3 3 (ex_pkt 30 1) 0]
                   (NewQoSManager 5)"
  have q: "map pk_Size (qm_queue ?qm) = [20, 10, 30]" by code_simp
  obtain r qm' where d: "Dequeue ?qm = (r, qm')" by (cases "Dequeue ?qm")
  have "r \<noteq> None" using qos_priority_order [OF refl, of "[QEnqueue 1 1 1 (ex_pkt 10 4) 0, QEnqueue 2 2 2 (ex_pkt 20 1) 0, QEnqueue 3 3 3 (ex_pkt 30 1) 0]" 5 0]
    d q by (auto split: option.splits)
  moreover have "map_option pk_Size (fst (Dequeue ?qm)) = Some 20" by code_simp
  moreover have "map pk_Size (qm_queue (snd (Dequeue ?qm))) = [30, 10]" by code_simp
  ultimately show ?thesis using d by simp
qed

section \<open>Bandwidth\<close>

definition tokens_ok :: "TokenBucket \<Rightarrow> bool" where
  "tokens_ok tb \<longleftrightarrow> 0 \<le> tb_rate tb \<and> 0 \<le> tb_tokens tb \<and> tb_tokens tb \<le> of_int (tb_burst tb)
     \<and> tb_burst tb = bucket_burst (tb_rate tb)"

lemma bucket_burst_ge: "1500 \<le> bucket_burst r"
  by (simp add: bucket_burst_def Let_def)

lemma tokens_ok_new: "0 \<le> r \<Longrightarrow> tokens_ok (NewTokenBucket now r)"
  using bucket_burst_ge [of r] by (simp add: tokens_ok_def NewTokenBucket_def)

text \<open>What the bucket holds, plus what its rate still gives until a time.\<close>

definition credit :: "gotime \<Rightarrow> TokenBucket \<Rightarrow> rat" where
  "credit t tb = tb_tokens tb + of_int (tb_rate tb) * of_int (t - tb_lastRefill tb) / 1000000000"

lemma time_sub_le: "0 < time_sub a b \<Longrightarrow> time_sub a b \<le> a - b"
  by (auto simp: time_sub_def split: if_splits)

lemma refill_facts:
  assumes ok: "tokens_ok tb" and t: "tb_lastRefill tb \<le> t" "now \<le> t"
  shows "tokens_ok (refill now tb) \<and> tb_lastRefill (refill now tb) \<le> t \<and> credit t (refill now tb) \<le> credit t tb
    \<and> tb_rate (refill now tb) = tb_rate tb"
proof (cases "0 < time_sub now (tb_lastRefill tb)")
  case False
  then have "refill now tb = tb" by (auto simp: refill_def Let_def divide_le_0_iff)
  then show ?thesis using ok t by simp
next
  case True
  let ?e = "rat_of_int (time_sub now (tb_lastRefill tb)) / 1000000000"
  have e: "0 < ?e" using True by simp
  have le: "?e \<le> of_int (now - tb_lastRefill tb) / 1000000000"
    using time_sub_le [OF True] by (simp add: divide_right_mono del: of_int_diff)
  have r: "0 \<le> rat_of_int (tb_rate tb)" using ok by (simp add: tokens_ok_def)
  have m: "?e * of_int (tb_rate tb) \<le> of_int (now - tb_lastRefill tb) / 1000000000 * of_int (tb_rate tb)"
    by (rule mult_right_mono [OF le r])
  let ?x = "tb_tokens tb + ?e * of_int (tb_rate tb)"
  have eq: "refill now tb = tb\<lparr>tb_tokens := min ?x (of_int (tb_burst tb)), tb_lastRefill := now\<rparr>"
    using e by (simp add: refill_def Let_def min_def)
  have x0: "0 \<le> ?x" using ok e r by (simp add: tokens_ok_def)
  have "tokens_ok (refill now tb)"
    using ok x0 bucket_burst_ge [of "tb_rate tb"] unfolding eq by (auto simp: tokens_ok_def)
  moreover have "credit t (refill now tb) \<le> credit t tb"
  proof -
    have "min ?x (of_int (tb_burst tb)) \<le> tb_tokens tb + of_int (now - tb_lastRefill tb) / 1000000000 * of_int (tb_rate tb)"
      using m by linarith
    then show ?thesis unfolding eq by (simp add: credit_def algebra_simps diff_divide_distrib)
  qed
  ultimately show ?thesis using t unfolding eq by simp
qed

text \<open>An admitted call takes its size from the credit; no call adds to it.\<close>

lemma tb_Allow_facts:
  assumes ok: "tokens_ok tb" and t: "tb_lastRefill tb \<le> t" "now \<le> t" and n: "0 \<le> n"
    and a: "tb_Allow now n tb = (res, tb')"
  shows "tokens_ok tb' \<and> tb_lastRefill tb' \<le> t
    \<and> of_int (if res then n else 0) + credit t tb' \<le> credit t tb \<and> tb_rate tb' = tb_rate tb"
  using refill_facts [OF ok t] a n
  by (auto simp: tb_Allow_def Let_def tokens_ok_def credit_def split: if_splits)

definition flow_op :: "string \<Rightarrow> qos_op \<Rightarrow> bool" where
  "flow_op f op =
     (case op of
        QEnqueue t1 t2 t3 pkt bw \<Rightarrow> 0 \<le> pk_Size pkt
      | QSetLimit t g r \<Rightarrow> g \<noteq> f
      | QRemoveLimit g \<Rightarrow> g \<noteq> f
      | _ \<Rightarrow> True)"

definition op_bytes :: "string \<Rightarrow> qos_op \<Rightarrow> QoSManager \<Rightarrow> int" where
  "op_bytes f op qm =
     (case op of
        QEnqueue t1 t2 t3 pkt bw \<Rightarrow>
          if pk_FlowID pkt = f \<and> bw > 0 \<and> fst (Enqueue t1 t2 t3 pkt bw qm) then pk_Size pkt else 0
      | _ \<Rightarrow> 0)"

fun flow_bytes :: "string \<Rightarrow> qos_op list \<Rightarrow> QoSManager \<Rightarrow> int" where
  "flow_bytes f [] qm = 0"
| "flow_bytes f (op # ops) qm = op_bytes f op qm + flow_bytes f ops (qos_apply op qm)"

definition op_before :: "gotime \<Rightarrow> qos_op \<Rightarrow> bool" where
  "op_before t op = (case op of QEnqueue t1 t2 t3 pkt bw \<Rightarrow> t1 \<le> t \<and> t2 \<le> t | _ \<Rightarrow> True)"

lemma push_packet_limiters [simp]: "qm_limiters (snd (push_packet t pkt qm)) = qm_limiters qm"
  by (simp add: push_packet_def drop_packet_def)

lemma qos_apply_limiter:
  assumes f: "flow_op f op" "op_before t op" and l: "fmlookup (qm_limiters qm) f = Some tb"
    and ok: "tokens_ok tb" "tb_lastRefill tb \<le> t"
  shows "\<exists>tb'. fmlookup (qm_limiters (qos_apply op qm)) f = Some tb' \<and> tokens_ok tb' \<and> tb_lastRefill tb' \<le> t
    \<and> of_int (op_bytes f op qm) + credit t tb' \<le> credit t tb \<and> tb_rate tb' = tb_rate tb"
proof (cases op)
  case (QEnqueue t1 t2 t3 pkt bw)
  show ?thesis
  proof (cases "pk_FlowID pkt = f \<and> bw > 0")
    case True
    obtain res tb' where a: "tb_Allow t2 (pk_Size pkt) tb = (res, tb')" by (cases "tb_Allow t2 (pk_Size pkt) tb")
    have "t2 \<le> t" "0 \<le> pk_Size pkt" using f QEnqueue by (auto simp: flow_op_def op_before_def)
    note facts = tb_Allow_facts [OF ok \<open>t2 \<le> t\<close> \<open>0 \<le> pk_Size pkt\<close> a]
    have "fmlookup (qm_limiters (qos_apply op qm)) f = Some tb'"
      using QEnqueue True l a
      by (auto simp: qos_apply_def Enqueue_def getOrCreateLimiter_def drop_packet_def Let_def)
    moreover have "rat_of_int (op_bytes f op qm) \<le> of_int (if res then pk_Size pkt else 0)"
      using QEnqueue True l a \<open>0 \<le> pk_Size pkt\<close>
      by (auto simp: op_bytes_def Enqueue_def getOrCreateLimiter_def drop_packet_def Let_def)
    ultimately show ?thesis using facts by (intro exI [of _ tb']) (auto intro: order_trans add_right_mono)
  next
    case False
    then have "fmlookup (qm_limiters (qos_apply op qm)) f = Some tb"
      using QEnqueue l
      by (auto simp: qos_apply_def Enqueue_def getOrCreateLimiter_def drop_packet_def Let_def
          split: option.split prod.split)
    then show ?thesis using False QEnqueue ok by (auto simp: op_bytes_def)
  qed
next
  case (QBatch n)
  then have "qm_limiters (qos_apply op qm) = qm_limiters qm"
    using DequeueBatch_max by (auto simp: qos_apply_def split: option.split)
  then show ?thesis using l ok QBatch by (auto simp: op_bytes_def)
qed (use assms in \<open>auto simp: qos_apply_def op_bytes_def flow_op_def SetFlowLimit_def RemoveFlowLimit_def
      getOrCreateLimiter_def Let_def split: option.split\<close>)

lemma flow_bytes_bound:
  assumes "\<forall>op \<in> set ops. flow_op f op \<and> op_before t op" and "fmlookup (qm_limiters qm) f = Some tb"
    and "tokens_ok tb" and "tb_lastRefill tb \<le> t"
  shows "of_int (flow_bytes f ops qm) \<le> credit t tb"
  using assms
proof (induction ops arbitrary: qm tb)
  case Nil
  then have "0 \<le> rat_of_int (tb_rate tb) * of_int (t - tb_lastRefill tb)" by (simp add: tokens_ok_def)
  then show ?case using Nil by (simp add: credit_def tokens_ok_def)
next
  case (Cons op ops)
  obtain tb' where tb': "fmlookup (qm_limiters (qos_apply op qm)) f = Some tb'" "tokens_ok tb'" "tb_lastRefill tb' \<le> t"
    "of_int (op_bytes f op qm) + credit t tb' \<le> credit t tb"
    using qos_apply_limiter [of f op t qm tb] Cons.prems by auto
  have "of_int (flow_bytes f ops (qos_apply op qm)) \<le> credit t tb'"
    by (rule Cons.IH) (use Cons.prems tb' in auto)
  then show ?case using tb'(4) by (simp add: order_trans)
qed

text \<open>Every limiter a run of ordinary operations has made for a flow is in order.\<close>

lemma limiter_run:
  assumes "\<forall>op \<in> set ops. flow_op f op" and "\<And>tb. fmlookup (qm_limiters qm) f = Some tb \<Longrightarrow> tokens_ok tb"
    and "fmlookup (qm_limiters (qos_run ops qm)) f = Some tb"
  shows "tokens_ok tb"
  using assms
proof (induction ops arbitrary: qm)
  case Nil
  then show ?case by (simp add: qos_run_def)
next
  case (Cons op ops)
  have "tokens_ok tb'" if l': "fmlookup (qm_limiters (qos_apply op qm)) f = Some tb'" for tb'
  proof (cases "fmlookup (qm_limiters qm) f")
    case (Some tb0)
    obtain t where "op_before t op" "tb_lastRefill tb0 \<le> t"
      by (rule that [of "case op of QEnqueue t1 t2 t3 pkt bw \<Rightarrow> max (max t1 t2) (tb_lastRefill tb0) | _ \<Rightarrow> tb_lastRefill tb0"])
        (auto simp: op_before_def split: qos_op.split)
    then show ?thesis
      using qos_apply_limiter [of f op t qm tb0] Some Cons.prems l' by auto
  next
    case None
    show ?thesis
    proof (cases op)
      case (QEnqueue t1 t2 t3 pkt bw)
      show ?thesis
      proof (cases "pk_FlowID pkt = f \<and> bw > 0")
        case True
        obtain res tb1 where a: "tb_Allow t2 (pk_Size pkt) (NewTokenBucket t1 bw) = (res, tb1)"
          by (cases "tb_Allow t2 (pk_Size pkt) (NewTokenBucket t1 bw)")
        have "tb' = tb1" using l' QEnqueue True a None
          by (auto simp: qos_apply_def Enqueue_def getOrCreateLimiter_def drop_packet_def Let_def split: if_splits)
        then show ?thesis
          using tb_Allow_facts [of "NewTokenBucket t1 bw" "max t1 t2" t2 "pk_Size pkt" res tb1] a True Cons.prems(1)
            QEnqueue tokens_ok_new [of bw t1] by (auto simp: flow_op_def NewTokenBucket_def)
      next
        case False
        then show ?thesis using l' QEnqueue None
          by (auto simp: qos_apply_def Enqueue_def getOrCreateLimiter_def drop_packet_def Let_def
              split: option.splits prod.splits if_splits)
      qed
    next
      case (QBatch n)
      then show ?thesis using l' None DequeueBatch_max by (auto simp: qos_apply_def split: option.splits)
    qed (use l' None Cons.prems in \<open>auto simp: qos_apply_def flow_op_def SetFlowLimit_def RemoveFlowLimit_def
      getOrCreateLimiter_def Let_def split: option.splits\<close>)
  qed
  then show ?case using Cons.IH [of "qos_apply op qm"] Cons.prems by (simp add: qos_run_def)
qed

text \<open>
  The bandwidth of a flow. In a run of a manager, take the moment when a flow has a limiter, and the
  operations from there until a time, during which the flow's limit is neither set nor removed: the bytes
  of the flow's limited packets that are accepted are at most the burst of the limiter plus what its rate
  gives in the time since its last refill. Packets with no limit are not counted, and nothing else limits them.
\<close>

theorem qos_bandwidth_bound:
  assumes "qm = qos_run pre (NewQoSManager cap)" and "\<forall>op \<in> set (pre @ ops). flow_op f op"
    and "fmlookup (qm_limiters qm) f = Some tb" and "tb_lastRefill tb \<le> t" and "\<forall>op \<in> set ops. op_before t op"
  shows "of_int (flow_bytes f ops qm)
      \<le> of_int (bucket_burst (tb_rate tb)) + of_int (tb_rate tb) * rat_of_int (t - tb_lastRefill tb) / 1000000000"
proof -
  have "tokens_ok tb"
    by (rule limiter_run [of pre f "NewQoSManager cap"]) (use assms in \<open>auto simp: NewQoSManager_def\<close>)
  then have "of_int (flow_bytes f ops qm) \<le> credit t tb" "tb_tokens tb \<le> of_int (bucket_burst (tb_rate tb))"
    using flow_bytes_bound [of ops f t qm tb] assms by (auto simp: tokens_ok_def)
  then show ?thesis by (simp add: credit_def)
qed

definition ex_enq :: "gotime \<Rightarrow> int \<Rightarrow> qos_op" where
  "ex_enq t n = QEnqueue t t t (ex_pkt n 4) 1000"

theorem qos_bandwidth_bound_witness:
  "flow_bytes ''f'' [ex_enq 1 1000, ex_enq 500000000 1200, ex_enq 700000000 900] (qos_run [ex_enq 0 1] (NewQoSManager 9)) = 2200
    \<and> flow_bytes ''f'' [ex_enq 1 1000, ex_enq 500000000 1200, ex_enq 700000000 900] (qos_run [ex_enq 0 1] (NewQoSManager 9)) \<le> 2700"
proof -
  let ?qm = "qos_run [ex_enq 0 1] (NewQoSManager 9)"
  let ?ops = "[ex_enq 1 1000, ex_enq 500000000 1200, ex_enq 700000000 900]"
  let ?tb = "\<lparr>tb_rate = 1000, tb_burst = 2000, tb_tokens = 1999, tb_lastRefill = 0\<rparr>"
  have f: "\<forall>op \<in> set ([ex_enq 0 1] @ ?ops). flow_op ''f'' op"
    by (simp add: ex_enq_def flow_op_def ex_pkt_def)
  have b: "\<forall>op \<in> set ?ops. op_before 700000000 op"
    by (simp add: ex_enq_def op_before_def)
  have l: "fmlookup (qm_limiters ?qm) ''f'' = Some ?tb" by code_simp
  have "rat_of_int (flow_bytes ''f'' ?ops ?qm) \<le> of_int (bucket_burst 1000) + of_int 1000 * rat_of_int (700000000 - 0) / 1000000000"
    using qos_bandwidth_bound [OF refl f l _ b] by simp
  moreover have "bucket_burst 1000 = 2000" by code_simp
  ultimately have "rat_of_int (flow_bytes ''f'' ?ops ?qm) \<le> of_int 2700" by simp
  then have "flow_bytes ''f'' ?ops ?qm \<le> 2700" by (simp only: of_int_le_iff)
  moreover have "flow_bytes ''f'' ?ops ?qm = 2200" by code_simp
  ultimately show ?thesis by simp
qed

text \<open>
  A full queue charges the flow. When the queue is at its capacity and the bucket of the flow holds
  enough, enqueuing a limited packet refuses it, counts it as dropped, and still takes its size from the
  bucket: the limit is checked before the capacity.
\<close>

theorem qos_full_queue_charges:
  assumes "qm_maxQueueSize qm \<le> int (QueueLen qm)" and "bw > 0"
    and "fmlookup (qm_limiters qm) (pk_FlowID pkt) = Some tb" and "of_int (pk_Size pkt) \<le> fst (Available t2 tb)"
  shows "case Enqueue t1 t2 t3 pkt bw qm of (ok, qm') \<Rightarrow>
    \<not> ok \<and> qm_dropped qm' = qm_dropped qm + 1 \<and> qm_queue qm' = qm_queue qm
    \<and> map_option tb_tokens (fmlookup (qm_limiters qm') (pk_FlowID pkt)) = Some (fst (Available t2 tb) - of_int (pk_Size pkt))"
  using assms
  by (simp add: Enqueue_def getOrCreateLimiter_def tb_Allow_def Available_def push_packet_def drop_packet_def
      QueueLen_def Let_def)

theorem qos_full_queue_charges_witness:
  "case Enqueue 0 0 0 (ex_pkt 400 4) 1000 (qos_run [ex_enq 0 1] (NewQoSManager 1)) of (ok, qm') \<Rightarrow>
     \<not> ok \<and> map_option tb_tokens (fmlookup (qm_limiters qm') ''f'') = Some 1599"
proof -
  let ?qm = "qos_run [ex_enq 0 1] (NewQoSManager 1)"
  let ?tb = "\<lparr>tb_rate = 1000, tb_burst = 2000, tb_tokens = 1999, tb_lastRefill = 0\<rparr>"
  have l: "fmlookup (qm_limiters ?qm) (pk_FlowID (ex_pkt 400 4)) = Some ?tb" by code_simp
  have a: "fst (Available 0 ?tb) = 1999" by code_simp
  have "qm_maxQueueSize ?qm \<le> int (QueueLen ?qm)" by code_simp
  from qos_full_queue_charges [OF this _ l, where bw = 1000 and ?t1.0 = 0 and ?t2.0 = 0 and ?t3.0 = 0] show ?thesis
    unfolding a by (simp add: ex_pkt_def split: prod.splits)
qed

end
