(* ===== verification/Edge_Nodes.thy ===== *)
theory Edge_Nodes
  imports Go_Prelude "HOL-Library.Sublist"
begin

text \<open>
  Edge nodes (\<open>server/internal/edge\<close>): the nodes with their health counters (\<open>node.go\<close>), the registry
  (\<open>registry.go\<close>), the health checker (\<open>health.go\<close>) and the client of the control plane that keeps a
  heartbeat loop per node (\<open>controlplane.go\<close>). Nodes are objects that the registry and the loops share:
  they live in a store and are referred to by address. Connecting to a node and the control plane's
  replies are arguments of the operations.
\<close>

section \<open>Nodes\<close>

datatype NodeStatus = StatusHealthy | StatusUnhealthy | StatusDraining | StatusOffline

fun status_str :: "NodeStatus \<Rightarrow> string" where
  "status_str StatusHealthy = ''healthy''"
| "status_str StatusUnhealthy = ''unhealthy''"
| "status_str StatusDraining = ''draining''"
| "status_str StatusOffline = ''offline''"

record EdgeNode =
  en_ID :: string
  en_Addr :: string
  en_Region :: string
  en_Role :: string
  en_Status :: NodeStatus
  en_Tags :: "(string, string) fmap"
  en_Capacity :: int
  en_Registered :: gotime
  en_LastSeen :: gotime
  en_Latency :: duration
  en_consecutiveFails :: "32 word"
  en_consecutiveOKs :: "32 word"
  en_unhealthySince :: gotime

datatype edge_error =
    EdgeIDRequired
  | EdgeAddrRequired
  | EdgeInvalidAddr string
  | EdgeAlreadyRegistered string
  | EdgeNotFound string
  | EdgeNilNode

definition NewEdgeNode ::
    "(string \<Rightarrow> bool) \<Rightarrow> gotime \<Rightarrow> gotime \<Rightarrow> string \<Rightarrow> string \<Rightarrow> string \<Rightarrow> string \<Rightarrow> int \<Rightarrow> edge_error + EdgeNode" where
  "NewEdgeNode resolves t1 t2 i addr region role cap =
     (if i = [] then Inl EdgeIDRequired
      else if addr = [] then Inl EdgeAddrRequired
      else if \<not> resolves addr then Inl (EdgeInvalidAddr addr)
      else Inr \<lparr>en_ID = i, en_Addr = addr, en_Region = region, en_Role = role, en_Status = StatusHealthy,
                en_Tags = fmempty, en_Capacity = cap, en_Registered = t1, en_LastSeen = t2, en_Latency = 0,
                en_consecutiveFails = 0, en_consecutiveOKs = 0, en_unhealthySince = 0\<rparr>)"

definition RecordSuccess :: "gotime \<Rightarrow> duration \<Rightarrow> EdgeNode \<Rightarrow> EdgeNode" where
  "RecordSuccess now latency n =
     n\<lparr>en_consecutiveFails := 0, en_consecutiveOKs := en_consecutiveOKs n + 1,
       en_LastSeen := now, en_Latency := latency\<rparr>"

definition RecordFailure :: "EdgeNode \<Rightarrow> EdgeNode" where
  "RecordFailure n = n\<lparr>en_consecutiveOKs := 0, en_consecutiveFails := en_consecutiveFails n + 1\<rparr>"

definition ConsecutiveFails :: "EdgeNode \<Rightarrow> int" where
  "ConsecutiveFails n = sint (en_consecutiveFails n)"

definition ConsecutiveOKs :: "EdgeNode \<Rightarrow> int" where
  "ConsecutiveOKs n = sint (en_consecutiveOKs n)"

section \<open>Probes of one node\<close>

record EdgeConfig =
  ec_HeartbeatInterval :: duration
  ec_HealthCheckTimeout :: duration
  ec_UnhealthyThreshold :: int
  ec_HealthyThreshold :: int
  ec_DeregisterTimeout :: duration
  ec_ProbeConcurrency :: int

definition DefaultEdgeConfig :: EdgeConfig where
  "DefaultEdgeConfig =
     \<lparr>ec_HeartbeatInterval = 5 * second, ec_HealthCheckTimeout = 3 * second, ec_UnhealthyThreshold = 3,
      ec_HealthyThreshold = 2, ec_DeregisterTimeout = 60 * second, ec_ProbeConcurrency = 10\<rparr>"

text \<open>
  The outcome of connecting to a node, with the readings of the clock: when a node is marked unhealthy,
  when its time as unhealthy is looked at, and when a success is recorded.
\<close>

record probe =
  p_ok :: bool
  p_latency :: duration
  p_mark :: gotime
  p_check :: gotime
  p_seen :: gotime

definition mark_unhealthy :: "EdgeConfig \<Rightarrow> gotime \<Rightarrow> EdgeNode \<Rightarrow> EdgeNode" where
  "mark_unhealthy cfg now n =
     (if ConsecutiveFails n \<ge> ec_UnhealthyThreshold cfg \<and> en_Status n = StatusHealthy
      then n\<lparr>en_Status := StatusUnhealthy, en_unhealthySince := now\<rparr> else n)"

definition overdue :: "EdgeConfig \<Rightarrow> gotime \<Rightarrow> EdgeNode \<Rightarrow> bool" where
  "overdue cfg now n \<longleftrightarrow> en_Status n = StatusUnhealthy \<and> \<not> is_zero_time (en_unhealthySince n)
     \<and> time_sub now (en_unhealthySince n) > ec_DeregisterTimeout cfg"

text \<open>The effect of a probe on its node, and whether the node is to be deregistered.\<close>

definition probe_node :: "EdgeConfig \<Rightarrow> probe \<Rightarrow> EdgeNode \<Rightarrow> EdgeNode \<times> bool" where
  "probe_node cfg p n =
     (if \<not> p_ok p then
        (let n = mark_unhealthy cfg (p_mark p) (RecordFailure n)
         in if overdue cfg (p_check p) n then (n\<lparr>en_Status := StatusOffline\<rparr>, True) else (n, False))
      else
        (let n = RecordSuccess (p_seen p) (p_latency p) n
         in if en_Status n = StatusUnhealthy \<and> ConsecutiveOKs n \<ge> ec_HealthyThreshold cfg
            then (n\<lparr>en_Status := StatusHealthy, en_unhealthySince := 0\<rparr>, False) else (n, False)))"

section \<open>The registry and the control plane client\<close>

record EdgeWorld =
  ew_heap :: "(nat, EdgeNode) fmap"
  ew_nodes :: "(string, nat) fmap"
  ew_connected :: bool
  ew_heartbeats :: "(string, nat) fmap"
  ew_loops :: "(nat, nat) fmap"
  ew_next :: nat

text \<open>\<open>heartbeats\<close> maps a node to the loop its cancel function stops; \<open>ew_loops\<close> are the running loops with their nodes.\<close>

definition NewEdgeWorld :: "(nat, EdgeNode) fmap \<Rightarrow> bool \<Rightarrow> EdgeWorld" where
  "NewEdgeWorld heap connected =
     \<lparr>ew_heap = heap, ew_nodes = fmempty, ew_connected = connected, ew_heartbeats = fmempty,
      ew_loops = fmempty, ew_next = 0\<rparr>"

datatype http_reply = RequestInvalid | TransportError | Status int

record EdgeClientConfig =
  ek_BaseURL :: string
  ek_BearerToken :: string
  ek_HeartbeatInterval :: duration
  ek_Timeout :: duration

definition DefaultEdgeClientConfig :: EdgeClientConfig where
  "DefaultEdgeClientConfig =
     \<lparr>ek_BaseURL = ''http://localhost:8081'', ek_BearerToken = [], ek_HeartbeatInterval = 10 * second, ek_Timeout = 5 * second\<rparr>"

record nodeRegistration =
  nr_NodeID :: string
  nr_PublicKey :: string
  nr_Addr :: string
  nr_Region :: string
  nr_NATType :: string
  nr_Role :: string
  nr_Tags :: "(string, string) fmap"
  nr_Metadata :: "(string, string) fmap"
  nr_Capacity :: int

record heartbeatPayload =
  hb_Status :: string
  hb_Latency :: duration
  hb_LastSeen :: gotime

datatype edge_body = BRegistration nodeRegistration | BHeartbeat heartbeatPayload

record EdgeRequest =
  er_url :: string
  er_contentType :: string
  er_authorization :: "string option"
  er_body :: edge_body

fun add_tags :: "(string, string) fmap \<Rightarrow> string list \<Rightarrow> (string, string) fmap \<Rightarrow> (string, string) fmap" where
  "add_tags tags [] md = md"
| "add_tags tags (k # ks) md =
     (case fmlookup tags k of
        None \<Rightarrow> add_tags tags ks md
      | Some v \<Rightarrow> add_tags tags ks (fmupd (''tag.'' @ k) v md))"

definition edgeNodeMetadata :: "string list \<Rightarrow> EdgeNode \<Rightarrow> (string, string) fmap" where
  "edgeNodeMetadata ks n =
     add_tags (en_Tags n) ks
       (fmap_of_list [(''addr'', en_Addr n), (''role'', en_Role n), (''capacity'', int_str (en_Capacity n))])"

definition edge_request :: "EdgeClientConfig \<Rightarrow> string \<Rightarrow> edge_body \<Rightarrow> EdgeRequest" where
  "edge_request cfg path body =
     \<lparr>er_url = ek_BaseURL cfg @ path, er_contentType = ''application/json'',
      er_authorization = (if ek_BearerToken cfg \<noteq> [] then Some (''Bearer '' @ ek_BearerToken cfg) else None),
      er_body = body\<rparr>"

definition reply_ok :: "http_reply \<Rightarrow> bool" where
  "reply_ok r = (case r of Status code \<Rightarrow> code < 400 | _ \<Rightarrow> False)"

definition RegisterNode :: "EdgeClientConfig \<Rightarrow> (EdgeRequest \<Rightarrow> http_reply) \<Rightarrow> string list \<Rightarrow> EdgeNode \<Rightarrow> bool" where
  "RegisterNode cfg srv ks n =
     reply_ok (srv (edge_request cfg ''/api/v1/nodes''
       (BRegistration \<lparr>nr_NodeID = en_ID n, nr_PublicKey = [], nr_Addr = en_Addr n, nr_Region = en_Region n,
          nr_NATType = ''edge'', nr_Role = en_Role n, nr_Tags = en_Tags n, nr_Metadata = edgeNodeMetadata ks n,
          nr_Capacity = en_Capacity n\<rparr>)))"

definition SendHeartbeat :: "EdgeClientConfig \<Rightarrow> (EdgeRequest \<Rightarrow> http_reply) \<Rightarrow> EdgeNode \<Rightarrow> bool" where
  "SendHeartbeat cfg srv n =
     reply_ok (srv (edge_request cfg (''/api/v1/nodes/'' @ en_ID n @ ''/heartbeat'')
       (BHeartbeat \<lparr>hb_Status = status_str (en_Status n), hb_Latency = en_Latency n, hb_LastSeen = en_LastSeen n\<rparr>)))"

definition StartHeartbeatLoop :: "nat \<Rightarrow> string \<Rightarrow> EdgeWorld \<Rightarrow> EdgeWorld" where
  "StartHeartbeatLoop a i w =
     (let loops = (case fmlookup (ew_heartbeats w) i of Some l \<Rightarrow> fmdrop l (ew_loops w) | None \<Rightarrow> ew_loops w)
      in w\<lparr>ew_heartbeats := fmupd i (ew_next w) (ew_heartbeats w),
           ew_loops := fmupd (ew_next w) a loops, ew_next := ew_next w + 1\<rparr>)"

definition StopHeartbeatLoop :: "string \<Rightarrow> EdgeWorld \<Rightarrow> EdgeWorld" where
  "StopHeartbeatLoop i w =
     (case fmlookup (ew_heartbeats w) i of
        Some l \<Rightarrow> w\<lparr>ew_loops := fmdrop l (ew_loops w), ew_heartbeats := fmdrop i (ew_heartbeats w)\<rparr>
      | None \<Rightarrow> w)"

fun StopAll :: "string list \<Rightarrow> EdgeWorld \<Rightarrow> EdgeWorld" where
  "StopAll [] w = w"
| "StopAll (i # ids) w = StopAll ids (StopHeartbeatLoop i w)"

text \<open>The callbacks that \<open>ConnectRegistry\<close> installs; the argument says whether the control plane took the registration.\<close>

definition on_register :: "bool \<Rightarrow> nat \<Rightarrow> EdgeWorld \<Rightarrow> EdgeWorld" where
  "on_register ok a w =
     (if \<not> ew_connected w then w
      else if \<not> ok then w
      else (case fmlookup (ew_heap w) a of None \<Rightarrow> w | Some n \<Rightarrow> StartHeartbeatLoop a (en_ID n) w))"

definition on_deregister :: "nat \<Rightarrow> EdgeWorld \<Rightarrow> EdgeWorld" where
  "on_deregister a w =
     (if \<not> ew_connected w then w
      else (case fmlookup (ew_heap w) a of None \<Rightarrow> w | Some n \<Rightarrow> StopHeartbeatLoop (en_ID n) w))"

definition reg_insert :: "nat \<Rightarrow> EdgeWorld \<Rightarrow> edge_error option \<times> EdgeWorld" where
  "reg_insert a w =
     (case fmlookup (ew_heap w) a of
        None \<Rightarrow> (Some EdgeNilNode, w)
      | Some n \<Rightarrow>
          if fmlookup (ew_nodes w) (en_ID n) \<noteq> None then (Some (EdgeAlreadyRegistered (en_ID n)), w)
          else (None, w\<lparr>ew_nodes := fmupd (en_ID n) a (ew_nodes w)\<rparr>))"

definition edge_Register :: "bool \<Rightarrow> nat \<Rightarrow> EdgeWorld \<Rightarrow> edge_error option \<times> EdgeWorld" where
  "edge_Register ok a w =
     (case reg_insert a w of
        (Some e, w) \<Rightarrow> (Some e, w)
      | (None, w) \<Rightarrow> (None, on_register ok a w))"

definition reg_delete :: "string \<Rightarrow> EdgeWorld \<Rightarrow> (edge_error + nat) \<times> EdgeWorld" where
  "reg_delete i w =
     (case fmlookup (ew_nodes w) i of
        None \<Rightarrow> (Inl (EdgeNotFound i), w)
      | Some a \<Rightarrow> (Inr a, w\<lparr>ew_nodes := fmdrop i (ew_nodes w)\<rparr>))"

definition edge_Deregister :: "string \<Rightarrow> EdgeWorld \<Rightarrow> edge_error option \<times> EdgeWorld" where
  "edge_Deregister i w =
     (case reg_delete i w of
        (Inl e, w) \<Rightarrow> (Some e, w)
      | (Inr a, w) \<Rightarrow> (None, on_deregister a w))"

definition edge_List :: "string list \<Rightarrow> EdgeWorld \<Rightarrow> nat list" where
  "edge_List ks w = range_vals (ew_nodes w) ks"

definition list_nodes :: "(EdgeNode \<Rightarrow> bool) \<Rightarrow> string list \<Rightarrow> EdgeWorld \<Rightarrow> EdgeNode list" where
  "list_nodes P ks w = filter P (List.map_filter (fmlookup (ew_heap w)) (range_vals (ew_nodes w) ks))"

definition by_latency :: "EdgeNode \<Rightarrow> EdgeNode \<Rightarrow> bool" where
  "by_latency m n \<longleftrightarrow> en_Latency m < en_Latency n"

definition ListByRegion :: "string list \<Rightarrow> string \<Rightarrow> EdgeWorld \<Rightarrow> EdgeNode list" where
  "ListByRegion ks region w = list_nodes (\<lambda>n. en_Region n = region) ks w"

definition ListHealthy :: "string list \<Rightarrow> EdgeWorld \<Rightarrow> EdgeNode list" where
  "ListHealthy ks w = sort_slice by_latency (list_nodes (\<lambda>n. en_Status n = StatusHealthy) ks w)"

definition ListHealthyByRegion :: "string list \<Rightarrow> string \<Rightarrow> EdgeWorld \<Rightarrow> EdgeNode list" where
  "ListHealthyByRegion ks region w =
     sort_slice by_latency (list_nodes (\<lambda>n. en_Region n = region \<and> en_Status n = StatusHealthy) ks w)"

definition edge_Count :: "EdgeWorld \<Rightarrow> nat" where
  "edge_Count w = mlen (ew_nodes w)"

definition CountHealthy :: "string list \<Rightarrow> EdgeWorld \<Rightarrow> nat" where
  "CountHealthy ks w = length (list_nodes (\<lambda>n. en_Status n = StatusHealthy) ks w)"

definition Regions :: "string list \<Rightarrow> EdgeWorld \<Rightarrow> string list" where
  "Regions ks w = sort_slice (<) (remdups (map en_Region (list_nodes (\<lambda>_. True) ks w)))"

section \<open>The health checker\<close>

definition upd_node :: "nat \<Rightarrow> EdgeNode \<Rightarrow> EdgeWorld \<Rightarrow> EdgeWorld" where
  "upd_node a n w = w\<lparr>ew_heap := fmupd a n (ew_heap w)\<rparr>"

definition probeNode :: "EdgeConfig \<Rightarrow> probe \<Rightarrow> nat \<Rightarrow> EdgeWorld \<Rightarrow> EdgeWorld" where
  "probeNode cfg p a w =
     (case fmlookup (ew_heap w) a of
        None \<Rightarrow> w
      | Some n \<Rightarrow>
          (case probe_node cfg p n of
             (n, dereg) \<Rightarrow>
               let w = upd_node a n w
               in if dereg then snd (edge_Deregister (en_ID n) w) else w))"

text \<open>A round over the nodes that were registered when it began; the order is the one in which the probes end.\<close>

fun probe_all :: "EdgeConfig \<Rightarrow> (nat \<times> probe) list \<Rightarrow> EdgeWorld \<Rightarrow> EdgeWorld" where
  "probe_all cfg [] w = w"
| "probe_all cfg ((a, p) # ps) w = probe_all cfg ps (probeNode cfg p a w)"

end
