(* ===== verification/Edge_Health.thy ===== *)
theory Edge_Health
  imports Edge_Nodes
begin

text \<open>
  Properties of the edge nodes: what a node's status says of its probes, what the registry, the
  listing and the heartbeat loops say of each other, and the two orders of events after which a node
  is lost to them.
\<close>

section \<open>Runs of probes\<close>

definition trailing :: "bool \<Rightarrow> bool list \<Rightarrow> nat" where
  "trailing b xs = length (takeWhile (\<lambda>x. x = b) (rev xs))"

lemma trailing_simps [simp]:
  "trailing b [] = 0" "trailing b (xs @ [b]) = Suc (trailing b xs)" "x \<noteq> b \<Longrightarrow> trailing b (xs @ [x]) = 0"
  by (simp_all add: trailing_def)

lemma trailing_le: "trailing b xs \<le> length xs"
  using length_takeWhile_le [of "\<lambda>x. x = b" "rev xs"] by (simp add: trailing_def)

lemma trailing_ge: "n \<le> trailing b xs \<longleftrightarrow> suffix (replicate n b) xs"
proof (induction xs arbitrary: n rule: rev_induct)
  case Nil
  then show ?case by (cases n) auto
next
  case (snoc x xs)
  show ?case
  proof (cases n)
    case (Suc m)
    have "replicate n b = replicate m b @ [b]" using Suc by (simp add: replicate_append_same)
    then show ?thesis using snoc [of m] Suc by (cases "x = b") auto
  qed simp
qed

text \<open>A node is down after its results when a block of failures has come since which there was no block of successes.\<close>

definition down :: "nat \<Rightarrow> nat \<Rightarrow> bool list \<Rightarrow> bool" where
  "down u h xs \<longleftrightarrow> (\<exists>pre post. xs = pre @ replicate u False @ post \<and> \<not> sublist (replicate h True) post)"

lemma sublist_replicate_snoc:
  "0 < h \<Longrightarrow> sublist (replicate h b) (xs @ [x]) \<longleftrightarrow> sublist (replicate h b) xs \<or> (x = b \<and> suffix (replicate h b) (xs @ [b]))"
proof -
  assume h: "0 < h"
  have "sublist (replicate h b) (xs @ [x]) \<longleftrightarrow> suffix (replicate h b) (xs @ [x]) \<or> sublist (replicate h b) xs"
    by (rule sublist_snoc)
  moreover have "suffix (replicate h b) (xs @ [x]) \<Longrightarrow> x = b"
    using h by (cases h) (auto simp: replicate_append_same [symmetric])
  ultimately show ?thesis by auto
qed

lemma down_snoc_False:
  assumes "0 < h" "0 < u"
  shows "down u h (xs @ [False]) \<longleftrightarrow> down u h xs \<or> u \<le> trailing False (xs @ [False])"
proof
  assume "down u h (xs @ [False])"
  then obtain pre post where d: "xs @ [False] = pre @ replicate u False @ post" "\<not> sublist (replicate h True) post"
    by (auto simp: down_def)
  show "down u h xs \<or> u \<le> trailing False (xs @ [False])"
  proof (cases post rule: rev_cases)
    case Nil
    then have "suffix (replicate u False) (xs @ [False])" using d by (simp add: suffix_def)
    then show ?thesis using trailing_ge by blast
  next
    case (snoc ys y)
    then have "xs = pre @ replicate u False @ ys" using d(1) by simp
    moreover have "\<not> sublist (replicate h True) ys" using d(2) unfolding snoc by (simp only: sublist_snoc) blast
    ultimately show ?thesis by (auto simp: down_def)
  qed
next
  assume "down u h xs \<or> u \<le> trailing False (xs @ [False])"
  then show "down u h (xs @ [False])"
  proof
    assume "down u h xs"
    then obtain pre post where d: "xs = pre @ replicate u False @ post" "\<not> sublist (replicate h True) post"
      by (auto simp: down_def)
    then have "\<not> sublist (replicate h True) (post @ [False])" using sublist_replicate_snoc [OF assms(1), of True post False] d(2) by blast
    then show ?thesis using d(1) unfolding down_def by (intro exI [of _ pre] exI [of _ "post @ [False]"]) simp
  next
    assume "u \<le> trailing False (xs @ [False])"
    then obtain pre where "xs @ [False] = pre @ replicate u False" unfolding trailing_ge suffix_def by auto
    then show ?thesis using assms unfolding down_def by (intro exI [of _ pre] exI [of _ "[]"]) auto
  qed
qed

lemma suffix_replicate_append:
  "suffix (replicate h True) (ys @ False # zs) \<Longrightarrow> suffix (replicate h True) zs"
proof -
  assume s: "suffix (replicate h True) (ys @ False # zs)"
  show ?thesis
  proof (cases "h \<le> length zs")
    case True
    then show ?thesis using s by (metis suffix_append suffix_length_suffix suffix_ConsI suffixI length_replicate)
  next
    case False
    obtain us where us: "ys @ False # zs = us @ replicate h True" using s by (auto simp: suffix_def)
    have "(ys @ False # zs) ! length ys = False" by simp
    moreover have "length us \<le> length ys" using arg_cong [OF us, of length] False by simp
    then have "(us @ replicate h True) ! length ys = True"
      using arg_cong [OF us, of length] False by (auto simp: nth_append)
    ultimately show ?thesis using us by simp
  qed
qed

lemma down_snoc_True:
  assumes "0 < h" "0 < u"
  shows "down u h (xs @ [True]) \<longleftrightarrow> down u h xs \<and> \<not> h \<le> trailing True (xs @ [True])"
proof
  assume "down u h (xs @ [True])"
  then obtain pre post where d: "xs @ [True] = pre @ replicate u False @ post" "\<not> sublist (replicate h True) post"
    by (auto simp: down_def)
  obtain v where v: "u = Suc v" using assms by (cases u) auto
  show "down u h xs \<and> \<not> h \<le> trailing True (xs @ [True])"
  proof (cases post rule: rev_cases)
    case Nil
    then have "last (xs @ [True]) = False" unfolding d(1) v by (simp add: replicate_append_same [symmetric])
    then show ?thesis by simp
  next
    case (snoc ys y)
    have "xs = pre @ replicate u False @ ys" using d(1) snoc by simp
    moreover have "\<not> sublist (replicate h True) ys" using d(2) unfolding snoc by (simp only: sublist_snoc) blast
    ultimately have "down u h xs" by (auto simp: down_def)
    moreover have "\<not> suffix (replicate h True) (xs @ [True])"
    proof
      assume s: "suffix (replicate h True) (xs @ [True])"
      have "xs @ [True] = (pre @ replicate v False) @ False # post" using d(1) v by (simp add: replicate_app_Cons_same)
      then have "suffix (replicate h True) post" using s suffix_replicate_append [of h "pre @ replicate v False" post] by simp
      then show False using d(2) by (auto dest: suffix_imp_sublist)
    qed
    ultimately show ?thesis using trailing_ge by blast
  qed
next
  assume a: "down u h xs \<and> \<not> h \<le> trailing True (xs @ [True])"
  then obtain pre post where d: "xs = pre @ replicate u False @ post" "\<not> sublist (replicate h True) post"
    by (auto simp: down_def)
  have "\<not> suffix (replicate h True) (post @ [True])"
  proof
    assume "suffix (replicate h True) (post @ [True])"
    then have "suffix (replicate h True) (xs @ [True])" using d(1) by (auto intro: suffix_appendI simp: suffix_append)
    then show False using a trailing_ge by blast
  qed
  then have "\<not> sublist (replicate h True) (post @ [True])" using d(2) sublist_replicate_snoc [OF assms(1), of True post True] by blast
  then show "down u h (xs @ [True])" using d(1) unfolding down_def by (intro exI [of _ pre] exI [of _ "post @ [True]"]) simp
qed

lemma down_Nil [simp]: "0 < u \<Longrightarrow> \<not> down u h []"
  by (simp add: down_def)

section \<open>What a status says\<close>

definition run_probes :: "EdgeConfig \<Rightarrow> probe list \<Rightarrow> EdgeNode \<Rightarrow> EdgeNode" where
  "run_probes cfg ps n = fold (\<lambda>p n. fst (probe_node cfg p n)) ps n"

lemma run_probes_snoc: "run_probes cfg (ps @ [p]) n = fst (probe_node cfg p (run_probes cfg ps n))"
  by (simp add: run_probes_def)

definition health_inv :: "EdgeConfig \<Rightarrow> probe list \<Rightarrow> EdgeNode \<Rightarrow> bool" where
  "health_inv cfg ps n \<longleftrightarrow>
     ConsecutiveFails n = int (trailing False (map p_ok ps)) \<and>
     ConsecutiveOKs n = int (trailing True (map p_ok ps)) \<and>
     en_Status n \<noteq> StatusDraining \<and>
     (en_Status n = StatusUnhealthy \<longrightarrow> down (nat (ec_UnhealthyThreshold cfg)) (nat (ec_HealthyThreshold cfg)) (map p_ok ps)) \<and>
     (en_Status n = StatusHealthy \<longrightarrow> \<not> down (nat (ec_UnhealthyThreshold cfg)) (nat (ec_HealthyThreshold cfg)) (map p_ok ps))"

lemma sint_Suc: "sint (w :: 32 word) = int n \<Longrightarrow> int n < 2147483647 \<Longrightarrow> sint (w + 1) = int (Suc n)"
  by (simp add: signed_take_bit_int_eq_self sint_word_ariths)

lemma health_step:
  assumes cfg: "0 < ec_UnhealthyThreshold cfg" "0 < ec_HealthyThreshold cfg" and len: "length ps < 2147483647"
    and inv: "health_inv cfg ps n"
  shows "health_inv cfg (ps @ [p]) (fst (probe_node cfg p n))"
proof -
  let ?u = "nat (ec_UnhealthyThreshold cfg)" and ?h = "nat (ec_HealthyThreshold cfg)"
  have uh: "0 < ?h" "0 < ?u" using cfg by auto
  have t: "int (trailing b (map p_ok ps)) < 2147483647" for b
    using trailing_le [of b "map p_ok ps"] len by simp
  show ?thesis
  proof (cases "p_ok p")
    case False
    have f: "sint (en_consecutiveFails n + 1) = int (trailing False (map p_ok (ps @ [p])))"
      using sint_Suc [of "en_consecutiveFails n" "trailing False (map p_ok ps)"] t inv False
      by (simp add: health_inv_def ConsecutiveFails_def)
    have d: "down ?u ?h (map p_ok (ps @ [p])) \<longleftrightarrow> down ?u ?h (map p_ok ps)
        \<or> ec_UnhealthyThreshold cfg \<le> sint (en_consecutiveFails n + 1)"
      using down_snoc_False [OF uh, of "map p_ok ps"] False f cfg by (simp add: nat_le_iff)
    show ?thesis
      using inv d f False
      by (cases "en_Status n")
        (auto simp: health_inv_def probe_node_def mark_unhealthy_def RecordFailure_def ConsecutiveFails_def
          ConsecutiveOKs_def overdue_def Let_def)
  next
    case True
    have f: "sint (en_consecutiveOKs n + 1) = int (trailing True (map p_ok (ps @ [p])))"
      using sint_Suc [of "en_consecutiveOKs n" "trailing True (map p_ok ps)"] t inv True
      by (simp add: health_inv_def ConsecutiveOKs_def)
    have d: "down ?u ?h (map p_ok (ps @ [p])) \<longleftrightarrow> down ?u ?h (map p_ok ps)
        \<and> \<not> ec_HealthyThreshold cfg \<le> sint (en_consecutiveOKs n + 1)"
      using down_snoc_True [OF uh, of "map p_ok ps"] True f cfg by (simp add: nat_le_iff)
    show ?thesis
      using inv d f True
      by (cases "en_Status n")
        (auto simp: health_inv_def probe_node_def RecordSuccess_def ConsecutiveFails_def ConsecutiveOKs_def Let_def)
  qed
qed

lemma health_run:
  assumes "0 < ec_UnhealthyThreshold cfg" "0 < ec_HealthyThreshold cfg" "length ps \<le> 2147483647"
    and n: "NewEdgeNode res t1 t2 i addr region role cap = Inr n"
  shows "health_inv cfg ps (run_probes cfg ps n)"
  using assms(3)
proof (induction ps rule: rev_induct)
  case Nil
  then show ?case using n assms(1)
    by (auto simp: health_inv_def run_probes_def NewEdgeNode_def ConsecutiveFails_def ConsecutiveOKs_def split: if_splits)
next
  case (snoc p ps)
  then show ?case using health_step [OF assms(1,2), of ps] by (simp add: run_probes_snoc)
qed

text \<open>
  C40: The status of an edge node is a function of its probes. With positive thresholds, after any probes
  (fewer than the counters can count) of a new node that has not been taken offline, the node is healthy
  exactly if no block of failures of the length of the unhealthy threshold has come since which there was
  no block of successes of the length of the healthy threshold, and it is unhealthy otherwise; the counters
  are the lengths of the run of failures and of successes that the results end with.
\<close>

theorem edge_health:
  assumes "0 < ec_UnhealthyThreshold cfg" and "0 < ec_HealthyThreshold cfg" and "length ps \<le> 2147483647"
    and "NewEdgeNode res t1 t2 i addr region role cap = Inr n"
    and "n' = run_probes cfg ps n" and "en_Status n' \<noteq> StatusOffline"
  shows "en_Status n' = (if down (nat (ec_UnhealthyThreshold cfg)) (nat (ec_HealthyThreshold cfg)) (map p_ok ps)
                         then StatusUnhealthy else StatusHealthy)
    \<and> ConsecutiveFails n' = int (trailing False (map p_ok ps)) \<and> ConsecutiveOKs n' = int (trailing True (map p_ok ps))"
  using health_run [OF assms(1,2,3,4)] assms(5,6) by (cases "en_Status n'") (auto simp: health_inv_def)

definition ex_probe :: "gotime \<Rightarrow> bool \<Rightarrow> probe" where
  "ex_probe t ok = \<lparr>p_ok = ok, p_latency = 7, p_mark = t, p_check = t, p_seen = t\<rparr>"

definition ex_edge :: "string \<Rightarrow> EdgeNode" where
  "ex_edge i = \<lparr>en_ID = i, en_Addr = ''h:1'', en_Region = ''eu'', en_Role = ''relay'', en_Status = StatusHealthy,
     en_Tags = fmempty, en_Capacity = 5, en_Registered = 1, en_LastSeen = 1, en_Latency = 0,
     en_consecutiveFails = 0, en_consecutiveOKs = 0, en_unhealthySince = 0\<rparr>"

lemma ex_edge_new: "i \<noteq> [] \<Longrightarrow> NewEdgeNode (\<lambda>_. True) 1 1 i ''h:1'' ''eu'' ''relay'' 5 = Inr (ex_edge i)"
  by (simp add: NewEdgeNode_def ex_edge_def)

theorem edge_health_witness:
  "en_Status (run_probes DefaultEdgeConfig (map (ex_probe 5) [True, False, False, False, True]) (ex_edge ''a'')) = StatusUnhealthy"
proof -
  let ?ps = "map (ex_probe 5) [True, False, False, False, True]"
  let ?n = "run_probes DefaultEdgeConfig ?ps (ex_edge ''a'')"
  have m: "map p_ok ?ps = [True, False, False, False, True]" by (simp add: ex_probe_def)
  have "\<not> sublist (replicate 2 True) [True]" by (auto simp: numeral_2_eq_2 dest: sublist_length_le)
  then have "down 3 2 (map p_ok ?ps)"
    unfolding m down_def by (intro exI [of _ "[True]"]) (simp add: numeral_3_eq_3)
  moreover have "en_Status ?n \<noteq> StatusOffline" by code_simp
  moreover have "0 < ec_UnhealthyThreshold DefaultEdgeConfig" "0 < ec_HealthyThreshold DefaultEdgeConfig"
    "nat (ec_UnhealthyThreshold DefaultEdgeConfig) = 3" "nat (ec_HealthyThreshold DefaultEdgeConfig) = 2"
    by (simp_all add: DefaultEdgeConfig_def)
  ultimately show ?thesis
    using edge_health [of DefaultEdgeConfig ?ps, OF _ _ _ ex_edge_new refl] by simp
qed

section \<open>Registry and heartbeat loops\<close>

datatype edge_op =
    ERegister nat bool
  | EDeregister string
  | EProbe nat probe
  | EStopAll "string list"

definition edge_apply :: "EdgeConfig \<Rightarrow> edge_op \<Rightarrow> EdgeWorld \<Rightarrow> EdgeWorld" where
  "edge_apply cfg op w =
     (case op of
        ERegister a ok \<Rightarrow> snd (edge_Register ok a w)
      | EDeregister i \<Rightarrow> snd (edge_Deregister i w)
      | EProbe a p \<Rightarrow> probeNode cfg p a w
      | EStopAll ids \<Rightarrow> StopAll ids w)"

text \<open>The identifier of the node at an address.\<close>

definition node_id :: "EdgeWorld \<Rightarrow> nat \<Rightarrow> string option" where
  "node_id w a = map_option en_ID (fmlookup (ew_heap w) a)"

text \<open>
  The tables agree, over the identifiers of the nodes: a registered node has its name; a known loop
  runs for the node registered under its name, and every running loop is known.
\<close>

definition loops_ok ::
    "(nat \<Rightarrow> string option) \<Rightarrow> (string \<rightharpoonup> nat) \<Rightarrow> (string \<rightharpoonup> nat) \<Rightarrow> (nat \<rightharpoonup> nat) \<Rightarrow> nat \<Rightarrow> bool \<Rightarrow> bool" where
  "loops_ok ids nodes hb loops nxt conn \<longleftrightarrow>
     (\<forall>i a. nodes i = Some a \<longrightarrow> ids a = Some i) \<and>
     (\<forall>i l. hb i = Some l \<longrightarrow> conn \<and> (\<exists>a. loops l = Some a \<and> nodes i = Some a)) \<and>
     (\<forall>l a. loops l = Some a \<longrightarrow> l < nxt \<and> (\<exists>i. ids a = Some i \<and> hb i = Some l))"

lemma loops_ok_insert:
  "loops_ok ids nodes hb loops nxt conn \<Longrightarrow> nodes i = None \<Longrightarrow> ids a = Some i \<Longrightarrow>
     loops_ok ids (nodes(i \<mapsto> a)) hb loops nxt conn"
  unfolding loops_ok_def by (auto; metis option.distinct(1))

lemma loops_ok_start:
  assumes ok: "loops_ok ids nodes hb loops nxt conn" and i: "nodes i = Some a" "hb i = None" and c: "conn"
  shows "loops_ok ids nodes (hb(i \<mapsto> nxt)) (loops(nxt \<mapsto> a)) (nxt + 1) conn"
proof -
  have fresh: "hb j = Some l \<Longrightarrow> l \<noteq> nxt" for j l using ok unfolding loops_ok_def by (metis less_irrefl)
  have A: "\<forall>i a. nodes i = Some a \<longrightarrow> ids a = Some i" using ok by (simp add: loops_ok_def)
  have B: "\<exists>a'. (loops(nxt \<mapsto> a)) l = Some a' \<and> nodes j = Some a'" if h: "(hb(i \<mapsto> nxt)) j = Some l" for j l
  proof (cases "j = i")
    case False
    then have "hb j = Some l" using h by simp
    then show ?thesis using ok fresh unfolding loops_ok_def by fastforce
  qed (use h i in simp)
  have C: "l < nxt + 1 \<and> (\<exists>j. ids b = Some j \<and> (hb(i \<mapsto> nxt)) j = Some l)" if h: "(loops(nxt \<mapsto> a)) l = Some b" for l b
  proof (cases "l = nxt")
    case True
    then show ?thesis using h i A by auto
  next
    case False
    then have "loops l = Some b" using h by simp
    then obtain j where "l < nxt" "ids b = Some j" "hb j = Some l" using ok unfolding loops_ok_def by blast
    moreover have "j \<noteq> i" using i(2) \<open>hb j = Some l\<close> by auto
    ultimately show ?thesis by auto
  qed
  show ?thesis unfolding loops_ok_def using A B C c by blast
qed

lemma loops_ok_stop:
  assumes ok: "loops_ok ids nodes hb loops nxt conn" and i: "hb i = Some l"
  shows "loops_ok ids nodes (hb(i := None)) (loops(l := None)) nxt conn"
proof -
  have inj: "j = i" if j: "hb j = Some l" for j
  proof -
    obtain a where "loops l = Some a" "nodes j = Some a" using ok j unfolding loops_ok_def by blast
    moreover obtain b where "loops l = Some b" "nodes i = Some b" using ok i unfolding loops_ok_def by blast
    ultimately show ?thesis using ok unfolding loops_ok_def by (metis option.inject)
  qed
  have A: "\<forall>i a. nodes i = Some a \<longrightarrow> ids a = Some i" using ok by (simp add: loops_ok_def)
  have B: "conn \<and> (\<exists>a. (loops(l := None)) k = Some a \<and> nodes j = Some a)" if h: "(hb(i := None)) j = Some k" for j k
  proof -
    have h': "j \<noteq> i" "hb j = Some k" using h by (auto split: if_splits)
    then have "k \<noteq> l" using inj by blast
    then show ?thesis using ok h' unfolding loops_ok_def by fastforce
  qed
  have C: "k < nxt \<and> (\<exists>j. ids b = Some j \<and> (hb(i := None)) j = Some k)" if h: "(loops(l := None)) k = Some b" for k b
  proof -
    have h': "k \<noteq> l" "loops k = Some b" using h by (auto split: if_splits)
    then obtain j where j: "k < nxt" "ids b = Some j" "hb j = Some k" using ok unfolding loops_ok_def by blast
    then have "j \<noteq> i" using i h'(1) by auto
    then show ?thesis using j by auto
  qed
  show ?thesis unfolding loops_ok_def using A B C by blast
qed

lemma loops_ok_delete:
  "loops_ok ids nodes hb loops nxt conn \<Longrightarrow> hb i = None \<Longrightarrow> loops_ok ids (nodes(i := None)) hb loops nxt conn"
  unfolding loops_ok_def by (auto; metis option.distinct(1))

definition edge_inv :: "EdgeWorld \<Rightarrow> bool" where
  "edge_inv w \<longleftrightarrow> loops_ok (node_id w) (fmlookup (ew_nodes w)) (fmlookup (ew_heartbeats w)) (fmlookup (ew_loops w))
     (ew_next w) (ew_connected w)"

lemma lookup_fun: "fmlookup (fmupd k v m) = (fmlookup m)(k \<mapsto> v)" "fmlookup (fmdrop k m) = (fmlookup m)(k := None)"
  by (auto simp: fun_eq_iff)

lemma node_id_upd [simp]:
  "node_id (w\<lparr>ew_nodes := x\<rparr>) = node_id w" "node_id (w\<lparr>ew_loops := l\<rparr>) = node_id w"
  "node_id (w\<lparr>ew_heartbeats := h\<rparr>) = node_id w" "node_id (w\<lparr>ew_next := k\<rparr>) = node_id w"
  by (simp_all add: node_id_def fun_eq_iff)

lemma edge_inv_new: "edge_inv (NewEdgeWorld heap c)"
  by (simp add: edge_inv_def loops_ok_def NewEdgeWorld_def)

lemma probe_node_id: "probe_node cfg p n = (n', d) \<Longrightarrow> en_ID n' = en_ID n"
  by (auto simp: probe_node_def mark_unhealthy_def RecordFailure_def RecordSuccess_def Let_def split: if_splits)

lemma node_id_upd_node:
  "fmlookup (ew_heap w) a = Some n \<Longrightarrow> en_ID n' = en_ID n \<Longrightarrow> node_id (upd_node a n' w) = node_id w"
  by (auto simp: node_id_def upd_node_def fun_eq_iff)

lemma edge_inv_upd_node:
  "edge_inv w \<Longrightarrow> fmlookup (ew_heap w) a = Some n \<Longrightarrow> en_ID n' = en_ID n \<Longrightarrow> edge_inv (upd_node a n' w)"
  unfolding edge_inv_def by (simp add: node_id_upd_node) (simp add: upd_node_def)

lemma heartbeats_registered:
  "edge_inv w \<Longrightarrow> fmlookup (ew_nodes w) i = None \<Longrightarrow> fmlookup (ew_heartbeats w) i = None"
  unfolding edge_inv_def loops_ok_def by (metis not_None_eq option.distinct(1))

lemma edge_inv_insert:
  "edge_inv w \<Longrightarrow> fmlookup (ew_nodes w) i = None \<Longrightarrow> node_id w a = Some i \<Longrightarrow>
     edge_inv (w\<lparr>ew_nodes := fmupd i a (ew_nodes w)\<rparr>)"
  by (simp add: edge_inv_def lookup_fun loops_ok_insert)

lemma edge_inv_start:
  assumes "edge_inv w" "ew_connected w" "fmlookup (ew_nodes w) i = Some a" "fmlookup (ew_heartbeats w) i = None"
  shows "edge_inv (StartHeartbeatLoop a i w)"
  using assms loops_ok_start [of "node_id w" "fmlookup (ew_nodes w)" "fmlookup (ew_heartbeats w)" "fmlookup (ew_loops w)"
      "ew_next w" "ew_connected w" i a]
  by (simp add: edge_inv_def StartHeartbeatLoop_def lookup_fun)

lemma edge_inv_register: "edge_inv w \<Longrightarrow> edge_inv (snd (edge_Register ok a w))"
  using edge_inv_insert heartbeats_registered
  by (auto simp: edge_Register_def reg_insert_def on_register_def node_id_def split: option.split
      intro!: edge_inv_start)

lemma edge_inv_stop: "edge_inv w \<Longrightarrow> edge_inv (StopHeartbeatLoop j w)"
  unfolding edge_inv_def StopHeartbeatLoop_def
  by (auto simp: lookup_fun intro: loops_ok_stop split: option.split)

lemma stop_simps [simp]:
  "ew_nodes (StopHeartbeatLoop j w) = ew_nodes w" "ew_heap (StopHeartbeatLoop j w) = ew_heap w"
  "ew_connected (StopHeartbeatLoop j w) = ew_connected w" "fmlookup (ew_heartbeats (StopHeartbeatLoop j w)) j = None"
  by (auto simp: StopHeartbeatLoop_def split: option.split)

lemma edge_inv_delete:
  "edge_inv w \<Longrightarrow> fmlookup (ew_heartbeats w) i = None \<Longrightarrow> edge_inv (w\<lparr>ew_nodes := fmdrop i (ew_nodes w)\<rparr>)"
  by (simp add: edge_inv_def lookup_fun loops_ok_delete)

lemma stop_nodes: "StopHeartbeatLoop j (w\<lparr>ew_nodes := x\<rparr>) = (StopHeartbeatLoop j w)\<lparr>ew_nodes := x\<rparr>"
  by (auto simp: StopHeartbeatLoop_def split: option.split)

lemma edge_inv_deregister: "edge_inv w \<Longrightarrow> edge_inv (snd (edge_Deregister j w))"
proof -
  assume i: "edge_inv w"
  show ?thesis
  proof (cases "fmlookup (ew_nodes w) j")
    case None
    then show ?thesis using i by (simp add: edge_Deregister_def reg_delete_def)
  next
    case (Some a)
    then obtain n where n: "fmlookup (ew_heap w) a = Some n" "en_ID n = j"
      using i by (auto simp: edge_inv_def loops_ok_def node_id_def)
    show ?thesis
    proof (cases "ew_connected w")
      case True
      then have "snd (edge_Deregister j w) = (StopHeartbeatLoop j w)\<lparr>ew_nodes := fmdrop j (ew_nodes (StopHeartbeatLoop j w))\<rparr>"
        using Some n by (simp add: edge_Deregister_def reg_delete_def on_deregister_def stop_nodes)
      then show ?thesis using edge_inv_delete [OF edge_inv_stop [OF i, of j], of j] by simp
    next
      case False
      then have "fmlookup (ew_heartbeats w) j = None" using i unfolding edge_inv_def loops_ok_def by (metis not_None_eq)
      then show ?thesis using Some False edge_inv_delete [OF i] by (simp add: edge_Deregister_def reg_delete_def on_deregister_def)
    qed
  qed
qed

lemma edge_inv_stop_all: "edge_inv w \<Longrightarrow> edge_inv (StopAll ids w)"
  by (induction ids arbitrary: w) (simp_all add: edge_inv_stop)

lemma edge_inv_probe: "edge_inv w \<Longrightarrow> edge_inv (probeNode cfg p a w)"
  using edge_inv_upd_node probe_node_id
  by (fastforce simp: probeNode_def Let_def split: option.split prod.split intro: edge_inv_deregister)

lemma edge_inv_apply: "edge_inv w \<Longrightarrow> edge_inv (edge_apply cfg op w)"
  by (simp add: edge_apply_def edge_inv_register edge_inv_deregister edge_inv_probe edge_inv_stop_all split: edge_op.split)

lemma edge_inv_run: "edge_inv w \<Longrightarrow> edge_inv (fold (edge_apply cfg) ops w)"
  by (induction ops arbitrary: w) (simp_all add: edge_inv_apply)

text \<open>
  Heartbeats run for registered nodes. After any registrations, deregistrations, probes (with the
  automatic deregistrations they cause) and stops, every running heartbeat loop is for a node that is
  registered under its name and known by that name, no node has two loops, and no loop is known for a name
  that is not registered.
\<close>

theorem edge_heartbeats:
  assumes "w = fold (edge_apply cfg) ops (NewEdgeWorld heap conn)"
  shows "(\<forall>l a. fmlookup (ew_loops w) l = Some a \<longrightarrow>
            (\<exists>i. node_id w a = Some i \<and> fmlookup (ew_nodes w) i = Some a \<and> fmlookup (ew_heartbeats w) i = Some l))
    \<and> (\<forall>l k a. fmlookup (ew_loops w) l = Some a \<and> fmlookup (ew_loops w) k = Some a \<longrightarrow> l = k)
    \<and> (\<forall>i. fmlookup (ew_nodes w) i = None \<longrightarrow> fmlookup (ew_heartbeats w) i = None)"
proof -
  have inv: "edge_inv w" using assms edge_inv_run edge_inv_new by blast
  have A: "\<exists>i. node_id w a = Some i \<and> fmlookup (ew_nodes w) i = Some a \<and> fmlookup (ew_heartbeats w) i = Some l"
    if la: "fmlookup (ew_loops w) l = Some a" for l a
  proof -
    obtain i where i: "node_id w a = Some i" "fmlookup (ew_heartbeats w) i = Some l"
      using inv la unfolding edge_inv_def loops_ok_def by blast
    moreover obtain b where "fmlookup (ew_loops w) l = Some b" "fmlookup (ew_nodes w) i = Some b"
      using inv i(2) unfolding edge_inv_def loops_ok_def by blast
    ultimately show ?thesis using la i by auto
  qed
  have B: "l = k" if "fmlookup (ew_loops w) l = Some a" "fmlookup (ew_loops w) k = Some a" for l k a
    using A [OF that(1)] A [OF that(2)] by auto
  show ?thesis using A B heartbeats_registered [OF inv] by blast
qed

definition ex_edges :: "(nat, EdgeNode) fmap" where
  "ex_edges = fmap_of_list [(0, ex_edge ''a''), (1, ex_edge ''b'')]"

theorem edge_heartbeats_witness:
  "let w = fold (edge_apply DefaultEdgeConfig) [ERegister 0 True, ERegister 1 True, EDeregister ''a''] (NewEdgeWorld ex_edges True)
   in fmlookup (ew_loops w) 1 = Some 1 \<and> fmlookup (ew_loops w) 0 = None \<and> fmlookup (ew_heartbeats w) ''a'' = None"
proof -
  let ?w = "fold (edge_apply DefaultEdgeConfig) [ERegister 0 True, ERegister 1 True, EDeregister ''a''] (NewEdgeWorld ex_edges True)"
  have "fmlookup (ew_nodes ?w) ''a'' = None" by code_simp
  then have "fmlookup (ew_heartbeats ?w) ''a'' = None" using edge_heartbeats [OF refl] by blast
  moreover have "fmlookup (ew_loops ?w) 1 = Some 1" "fmlookup (ew_loops ?w) 0 = None" by code_simp+
  ultimately show ?thesis unfolding Let_def by blast
qed

text \<open>
  A deregistration can be overtaken. The registry runs its callbacks after it has released its lock.
  When a node is deregistered between its insertion and the callback of its registration, the callback
  starts a heartbeat loop for a node that is not registered: the control plane keeps hearing of it.
\<close>

theorem edge_heartbeat_leak:
  assumes "ew_connected w" and "fmlookup (ew_heap w) a = Some n" and "fmlookup (ew_nodes w) (en_ID n) = None"
    and "reg_insert a w = (r1, w1)" and "edge_Deregister (en_ID n) w1 = (r2, w2)" and "w3 = on_register True a w2"
  shows "r1 = None \<and> r2 = None \<and> fmlookup (ew_nodes w3) (en_ID n) = None
    \<and> (\<exists>l. fmlookup (ew_heartbeats w3) (en_ID n) = Some l \<and> fmlookup (ew_loops w3) l = Some a)"
proof -
  let ?i = "en_ID n"
  have 1: "r1 = None" "w1 = w\<lparr>ew_nodes := fmupd ?i a (ew_nodes w)\<rparr>"
    using assms(2-4) by (simp_all add: reg_insert_def)
  have 2: "r2 = None" "w2 = StopHeartbeatLoop ?i (w1\<lparr>ew_nodes := fmdrop ?i (ew_nodes w1)\<rparr>)"
    using assms(1,2,5) by (simp_all add: 1 edge_Deregister_def reg_delete_def on_deregister_def)
  have 3: "w3 = StartHeartbeatLoop a ?i w2"
    using assms(1,2,6) by (simp add: 1 2 on_register_def)
  show ?thesis using 1(1) 2(1) unfolding 3 by (simp add: 2(2) StartHeartbeatLoop_def Let_def)
qed

theorem edge_heartbeat_leak_witness:
  "let w1 = snd (reg_insert 0 (NewEdgeWorld ex_edges True)); w2 = snd (edge_Deregister ''a'' w1); w3 = on_register True 0 w2
   in fmlookup (ew_nodes w3) ''a'' = None \<and> (\<exists>l. fmlookup (ew_loops w3) l = Some 0)"
proof -
  let ?w = "NewEdgeWorld ex_edges True"
  have a: "ew_connected ?w" "fmlookup (ew_heap ?w) 0 = Some (ex_edge ''a'')" "fmlookup (ew_nodes ?w) (en_ID (ex_edge ''a'')) = None"
    by (simp_all add: NewEdgeWorld_def ex_edges_def)
  have i: "en_ID (ex_edge ''a'') = ''a''" by (simp add: ex_edge_def)
  show ?thesis
    using edge_heartbeat_leak [OF a prod.collapse [symmetric] prod.collapse [symmetric] refl] unfolding i Let_def by blast
qed

text \<open>
  Offline is for ever. A node that a failed probe has taken offline is deregistered, and no later
  operation changes its status, registering the same node again included: it is then registered and
  probed, but never listed as healthy and never deregistered for its failures again.
\<close>

theorem edge_offline_lost:
  assumes "fmlookup (ew_heap w) a = Some n" and "en_Status n = StatusOffline"
    and "w' = fold (edge_apply cfg) ops w"
  shows "\<exists>n'. fmlookup (ew_heap w') a = Some n' \<and> en_Status n' = StatusOffline \<and> \<not> snd (probe_node cfg p n')"
proof -
  have stop: "ew_heap (StopAll ids w) = ew_heap w" for ids w by (induction ids arbitrary: w) simp_all
  have dereg: "ew_heap (snd (edge_Deregister i w)) = ew_heap w" for i w
    by (simp add: edge_Deregister_def reg_delete_def on_deregister_def split: option.split)
  have reg: "ew_heap (snd (edge_Register ok b w)) = ew_heap w" for ok b w
    by (simp add: edge_Register_def reg_insert_def on_register_def StartHeartbeatLoop_def Let_def split: option.split)
  have probe: "en_Status (fst (probe_node cfg q m)) = StatusOffline \<and> \<not> snd (probe_node cfg q m)"
    if "en_Status m = StatusOffline" for q m
    using that by (simp add: probe_node_def mark_unhealthy_def overdue_def RecordFailure_def RecordSuccess_def Let_def)
  have step: "\<exists>n'. fmlookup (ew_heap (edge_apply cfg op w)) a = Some n' \<and> en_Status n' = StatusOffline"
    if "fmlookup (ew_heap w) a = Some n" "en_Status n = StatusOffline" for op w n
    using that probe by (auto simp: edge_apply_def stop dereg reg probeNode_def upd_node_def Let_def
        split: edge_op.split option.split prod.split dest: probe) (metis fst_conv)+
  have "\<exists>n'. fmlookup (ew_heap (fold (edge_apply cfg) ops w)) a = Some n' \<and> en_Status n' = StatusOffline"
    using assms(1,2) step by (induction ops arbitrary: w n) (simp, fastforce)
  then show ?thesis using assms(3) probe by blast
qed

theorem edge_offline_lost_witness:
  "let w = fold (edge_apply DefaultEdgeConfig)
        (ERegister 0 True # map (EProbe 0) [ex_probe 1 False, ex_probe 2 False, ex_probe 3 False, ex_probe 70000000000 False])
        (NewEdgeWorld ex_edges True);
       w' = fold (edge_apply DefaultEdgeConfig) [ERegister 0 True, EProbe 0 (ex_probe 5 True), EProbe 0 (ex_probe 6 True)] w
   in fmlookup (ew_nodes w) ''a'' = None \<and> fmlookup (ew_nodes w') ''a'' = Some 0
      \<and> map_option en_Status (fmlookup (ew_heap w') 0) = Some StatusOffline"
proof -
  let ?w = "fold (edge_apply DefaultEdgeConfig)
        (ERegister 0 True # map (EProbe 0) [ex_probe 1 False, ex_probe 2 False, ex_probe 3 False, ex_probe 70000000000 False])
        (NewEdgeWorld ex_edges True)"
  let ?ops = "[ERegister 0 True, EProbe 0 (ex_probe 5 True), EProbe 0 (ex_probe 6 True)]"
  have "map_option en_Status (fmlookup (ew_heap ?w) 0) = Some StatusOffline" by code_simp
  then obtain n where n: "fmlookup (ew_heap ?w) 0 = Some n" "en_Status n = StatusOffline" by auto
  have "map_option en_Status (fmlookup (ew_heap (fold (edge_apply DefaultEdgeConfig) ?ops ?w)) 0) = Some StatusOffline"
    using edge_offline_lost [OF n refl, of DefaultEdgeConfig ?ops] by auto
  moreover have "fmlookup (ew_nodes ?w) ''a'' = None" by code_simp
  moreover have "fmlookup (ew_nodes (fold (edge_apply DefaultEdgeConfig) ?ops ?w)) ''a'' = Some 0" by code_simp
  ultimately show ?thesis unfolding Let_def by blast
qed

end
