(* ===== verification/Dashboard_Auth.thy ===== *)
theory Dashboard_Auth
  imports Go_Prelude
begin

text \<open>
  Who may do what on the dashboard: users and tokens (\<open>server/internal/dashboard/auth.go\<close>), roles and
  their permissions (\<open>rbac.go\<close>), and the chain of middleware in front of the routes (\<open>server.go\<close>,
  \<open>buildHandler\<close>, \<open>registerRoutes\<close>, \<open>corsMiddleware\<close>; \<open>security_headers.go\<close> only adds headers).
  Password hashing and the keyed hash are parameters. A user is a record that the table of users holds:
  \<open>UpdateUserRole\<close> changes it in place.
\<close>

section \<open>Users and tokens\<close>

record User =
  us_ID :: string
  us_Username :: string
  us_Role :: string
  us_Email :: string
  us_PasswordHash :: string

record tokenInfo =
  ti_UserID :: string
  ti_Role :: string
  ti_ExpiresAt :: gotime

record AuthConfig =
  au_SecretKey :: string
  au_TokenExpiry :: duration
  au_DefaultAdmin :: string
  au_DefaultPass :: string

record AuthManager =
  mg_config :: AuthConfig
  mg_users :: "(string, User) fmap"
  mg_tokens :: "(string, tokenInfo) fmap"

text \<open>
  \<open>bcrypt.GenerateFromPassword\<close> with the salt it draws, \<open>bcrypt.CompareHashAndPassword\<close>, and the
  hexadecimal HMAC of the secret and a text.
\<close>

record crypto =
  cx_hash :: "string \<Rightarrow> string \<Rightarrow> string option"
  cx_check :: "string \<Rightarrow> string \<Rightarrow> bool"
  cx_mac :: "string \<Rightarrow> string \<Rightarrow> string"

datatype auth_error =
    InvalidCredentials
  | InvalidToken
  | TokenExpired
  | UserNotFound string
  | UserExists string
  | EmptyPassword
  | HashFailed

definition DefaultAuthConfig :: AuthConfig where
  "DefaultAuthConfig = \<lparr>au_SecretKey = [], au_TokenExpiry = 24 * (60 * minute), au_DefaultAdmin = ''admin'', au_DefaultPass = []\<rparr>"

definition mg_AddUser :: "User \<Rightarrow> AuthManager \<Rightarrow> auth_error option \<times> AuthManager" where
  "mg_AddUser user a =
     (if fmlookup (mg_users a) (us_Username user) \<noteq> None then (Some (UserExists (us_Username user)), a)
      else (None, a\<lparr>mg_users := fmupd (us_Username user) user (mg_users a)\<rparr>))"

definition AddUserWithPassword ::
    "crypto \<Rightarrow> string \<Rightarrow> User \<Rightarrow> string \<Rightarrow> AuthManager \<Rightarrow> auth_error option \<times> AuthManager" where
  "AddUserWithPassword cx salt user password a =
     (if password = [] then (Some EmptyPassword, a)
      else (case cx_hash cx salt password of
              None \<Rightarrow> (Some HashFailed, a)
            | Some hash \<Rightarrow> mg_AddUser (user\<lparr>us_PasswordHash := hash\<rparr>) a))"

definition default_admin :: "string \<Rightarrow> User" where
  "default_admin name =
     \<lparr>us_ID = ''admin-1'', us_Username = name, us_Role = ''admin'', us_Email = ''admin@nextunnel.local'', us_PasswordHash = []\<rparr>"

text \<open>A manager; \<open>None\<close> when the constructor panics because the password of the administrator cannot be hashed.\<close>

definition NewAuthManager :: "crypto \<Rightarrow> string \<Rightarrow> AuthConfig \<Rightarrow> AuthManager option" where
  "NewAuthManager cx salt cfg =
     (let cfg = (if au_SecretKey cfg = [] then cfg\<lparr>au_SecretKey := ''test-only-empty-secret-rejected-on-server-start''\<rparr> else cfg);
          a = \<lparr>mg_config = cfg, mg_users = fmempty, mg_tokens = fmempty\<rparr>
      in if au_DefaultAdmin cfg \<noteq> [] \<and> au_DefaultPass cfg \<noteq> [] then
           (case AddUserWithPassword cx salt (default_admin (au_DefaultAdmin cfg)) (au_DefaultPass cfg) a of
              (Some e, a) \<Rightarrow> None
            | (None, a) \<Rightarrow> Some a)
         else Some a)"

text \<open>\<open>time.Time.UnixNano\<close> as \<open>%d\<close> prints it; the zero time is 62135596800 seconds before the epoch.\<close>

definition unix_nano_str :: "gotime \<Rightarrow> string" where
  "unix_nano_str t =
     (let n = t - 62135596800 * second in if n < 0 then CHR ''-'' # nat_str (nat (- n)) else nat_str (nat n))"

definition generateToken :: "crypto \<Rightarrow> gotime \<Rightarrow> string \<Rightarrow> AuthManager \<Rightarrow> string" where
  "generateToken cx now userID a = cx_mac cx (au_SecretKey (mg_config a)) (userID @ unix_nano_str now)"

record LoginResponse =
  lr_Token :: string
  lr_ExpiresAt :: gotime
  lr_User :: User

text \<open>\<open>Login\<close>, with the times at which the token is generated and its expiry computed.\<close>

definition Login ::
    "crypto \<Rightarrow> gotime \<Rightarrow> gotime \<Rightarrow> string \<Rightarrow> string \<Rightarrow> AuthManager \<Rightarrow> (auth_error + LoginResponse) \<times> AuthManager" where
  "Login cx t1 t2 username password a =
     (case fmlookup (mg_users a) username of
        None \<Rightarrow> (Inl InvalidCredentials, a)
      | Some user \<Rightarrow>
          if us_PasswordHash user = [] \<or> \<not> cx_check cx (us_PasswordHash user) password then (Inl InvalidCredentials, a)
          else let token = generateToken cx t1 (us_ID user) a;
                   expiresAt = t2 + au_TokenExpiry (mg_config a)
               in (Inr \<lparr>lr_Token = token, lr_ExpiresAt = expiresAt, lr_User = user\<rparr>,
                   a\<lparr>mg_tokens := fmupd token \<lparr>ti_UserID = us_ID user, ti_Role = us_Role user, ti_ExpiresAt = expiresAt\<rparr>
                                    (mg_tokens a)\<rparr>))"

definition ValidateToken :: "gotime \<Rightarrow> string list \<Rightarrow> string \<Rightarrow> AuthManager \<Rightarrow> (auth_error + User) \<times> AuthManager" where
  "ValidateToken now ks token a =
     (case fmlookup (mg_tokens a) token of
        None \<Rightarrow> (Inl InvalidToken, a)
      | Some info \<Rightarrow>
          if now > ti_ExpiresAt info then (Inl TokenExpired, a\<lparr>mg_tokens := fmdrop token (mg_tokens a)\<rparr>)
          else (case find (\<lambda>u. us_ID u = ti_UserID info) (range_vals (mg_users a) ks) of
                  Some u \<Rightarrow> (Inr u, a)
                | None \<Rightarrow> (Inl (UserNotFound (ti_UserID info)), a)))"

definition mg_ListUsers :: "string list \<Rightarrow> AuthManager \<Rightarrow> User list" where
  "mg_ListUsers ks a = range_vals (mg_users a) ks"

definition UpdateUserRole :: "string \<Rightarrow> string \<Rightarrow> AuthManager \<Rightarrow> auth_error option \<times> AuthManager" where
  "UpdateUserRole username role a =
     (case fmlookup (mg_users a) username of
        None \<Rightarrow> (Some (UserNotFound username), a)
      | Some user \<Rightarrow> (None, a\<lparr>mg_users := fmupd username (user\<lparr>us_Role := role\<rparr>) (mg_users a)\<rparr>))"

definition RemoveUser :: "string \<Rightarrow> AuthManager \<Rightarrow> AuthManager" where
  "RemoveUser username a = a\<lparr>mg_users := fmdrop username (mg_users a)\<rparr>"

definition ReplaceUsers :: "User list \<Rightarrow> AuthManager \<Rightarrow> AuthManager" where
  "ReplaceUsers users a =
     a\<lparr>mg_users := fold (\<lambda>u m. if us_Username u = [] then m else fmupd (us_Username u) u m) users fmempty\<rparr>"

section \<open>Roles\<close>

datatype Role = RoleAdmin | RoleOperator | RoleViewer

definition rolePermissions :: "Role \<Rightarrow> (string \<times> string) list" where
  "rolePermissions r =
     (case r of
        RoleAdmin \<Rightarrow>
          [(''nodes'', ''read''), (''nodes'', ''write''), (''nodes'', ''delete''),
           (''clients'', ''read''), (''clients'', ''delete''),
           (''endpoints'', ''read''),
           (''endpoint-policies'', ''read''), (''endpoint-policies'', ''write''), (''endpoint-policies'', ''delete''),
           (''http-requests'', ''read''),
           (''acl'', ''read''), (''acl'', ''write''), (''acl'', ''delete''),
           (''alerts'', ''read''), (''alerts'', ''write''), (''alerts'', ''delete''),
           (''alert-rules'', ''read''), (''alert-rules'', ''write''), (''alert-rules'', ''delete''),
           (''users'', ''read''), (''users'', ''write''), (''users'', ''delete''),
           (''audit'', ''read''), (''config'', ''read''), (''metrics'', ''write''), (''stats'', ''read'')]
      | RoleOperator \<Rightarrow>
          [(''nodes'', ''read''), (''nodes'', ''write''), (''nodes'', ''delete''),
           (''clients'', ''read''), (''clients'', ''delete''),
           (''endpoints'', ''read''),
           (''endpoint-policies'', ''read''), (''endpoint-policies'', ''write''), (''endpoint-policies'', ''delete''),
           (''http-requests'', ''read''),
           (''acl'', ''read''), (''acl'', ''write''), (''acl'', ''delete''),
           (''alerts'', ''read''), (''alerts'', ''write''),
           (''alert-rules'', ''read''), (''config'', ''read''), (''stats'', ''read''), (''metrics'', ''write'')]
      | RoleViewer \<Rightarrow>
          [(''nodes'', ''read''), (''clients'', ''read''), (''endpoints'', ''read''), (''endpoint-policies'', ''read''),
           (''http-requests'', ''read''), (''acl'', ''read''), (''alerts'', ''read''), (''alert-rules'', ''read''),
           (''config'', ''read''), (''stats'', ''read'')])"

definition HasPermission :: "Role \<Rightarrow> string \<Rightarrow> string \<Rightarrow> bool" where
  "HasPermission r resource action \<longleftrightarrow> (resource, action) \<in> set (rolePermissions r)"

definition ParseRole :: "string \<Rightarrow> Role" where
  "ParseRole s =
     (if to_lower s = ''admin'' then RoleAdmin else if to_lower s = ''operator'' then RoleOperator else RoleViewer)"

definition route_resource :: "string \<Rightarrow> string" where
  "route_resource p =
     (if has_prefix p ''nodes'' then ''nodes''
      else if has_prefix p ''clients'' then ''clients''
      else if has_prefix p ''endpoint-policies'' then ''endpoint-policies''
      else if has_prefix p ''endpoints'' then ''endpoints''
      else if has_prefix p ''http-requests'' then ''http-requests''
      else if has_prefix p ''acl'' then ''acl''
      else if has_prefix p ''alerts/'' then ''alerts''
      else if has_prefix p ''alert-rules'' then ''alert-rules''
      else if has_prefix p ''users'' then ''users''
      else if has_prefix p ''audit'' then ''audit''
      else if has_prefix p ''config'' then ''config''
      else if has_prefix p ''metrics'' then ''metrics''
      else if has_prefix p ''stats'' then ''stats''
      else [])"

definition method_action :: "string \<Rightarrow> string" where
  "method_action m =
     (if m = ''GET'' \<or> m = ''HEAD'' then ''read''
      else if m = ''POST'' \<or> m = ''PUT'' \<or> m = ''PATCH'' then ''write''
      else if m = ''DELETE'' then ''delete'' else ''read'')"

definition routePermission :: "string \<Rightarrow> string \<Rightarrow> string \<times> string" where
  "routePermission m path =
     (let resource = route_resource (trim_prefix path ''/api/v1/'')
      in if resource = [] then ([], []) else (resource, method_action m))"

section \<open>The middleware\<close>

record DashRequest =
  dr_Method :: string
  dr_Path :: string
  dr_Authorization :: string
  dr_UserID :: string
  dr_UserRole :: string

definition is_exempt :: "DashRequest \<Rightarrow> bool" where
  "is_exempt r \<longleftrightarrow> \<not> has_prefix (dr_Path r) ''/api/'' \<or> dr_Method r = ''OPTIONS''
     \<or> dr_Path r = ''/api/v1/auth/login'' \<or> dr_Path r = ''/api/v1/health''"

datatype denial = MissingAuthorization | InvalidAuthFormat | BadToken auth_error | InsufficientPermissions

definition AuthMiddleware ::
    "gotime \<Rightarrow> string list \<Rightarrow> DashRequest \<Rightarrow> AuthManager \<Rightarrow> (denial + DashRequest) \<times> AuthManager" where
  "AuthMiddleware now ks r a =
     (if is_exempt r then (Inr r, a)
      else if dr_Authorization r = [] then (Inl MissingAuthorization, a)
      else let token = trim_prefix (dr_Authorization r) ''Bearer '' in
           if token = dr_Authorization r then (Inl InvalidAuthFormat, a)
           else (case ValidateToken now ks token a of
                   (Inl e, a) \<Rightarrow> (Inl (BadToken e), a)
                 | (Inr user, a) \<Rightarrow> (Inr (r\<lparr>dr_UserID := us_ID user, dr_UserRole := us_Role user\<rparr>), a)))"

definition rbacMiddleware :: "DashRequest \<Rightarrow> denial + DashRequest" where
  "rbacMiddleware r =
     (if is_exempt r then Inr r
      else if dr_UserRole r = [] then Inr r
      else (case routePermission (dr_Method r) (dr_Path r) of
              (resource, action) \<Rightarrow>
                if resource \<noteq> [] \<and> \<not> HasPermission (ParseRole (dr_UserRole r)) resource action
                then Inl InsufficientPermissions else Inr r))"

section \<open>Routes\<close>

datatype d_route =
    RLogin | RListNodes | RGetNode | RDeleteNode | RGetStats | RGetNodeStats | RListClients | RDisconnectClient
  | RListEndpoints | RListEndpointPolicies | RUpsertEndpointPolicy | RDeleteEndpointPolicy | RListHTTPRequestLogs
  | RListACL | RCreateACL | RDeleteACL | RListAlerts | RAckAlert | RListUnackedAlerts
  | RListAlertRules | RCreateAlertRule | RUpdateAlertRule | RDeleteAlertRule | RIngestMetrics
  | RListUsers | RCreateUser | RUpdateUserRole | RDeleteUser | RQueryAudit | RConfigStatus | RHealth | RStaticAssets

text \<open>A pattern: the segments after \<open>/api/v1/\<close>; the empty segment stands for a wildcard.\<close>

definition registerRoutes :: "(string \<times> string list \<times> d_route) list" where
  "registerRoutes =
     [(''POST'', [''auth'', ''login''], RLogin),
      (''GET'', [''nodes''], RListNodes), (''GET'', [''nodes'', []], RGetNode), (''DELETE'', [''nodes'', []], RDeleteNode),
      (''GET'', [''stats''], RGetStats), (''GET'', [''stats'', []], RGetNodeStats),
      (''GET'', [''clients''], RListClients), (''DELETE'', [''clients'', []], RDisconnectClient),
      (''GET'', [''endpoints''], RListEndpoints),
      (''GET'', [''endpoint-policies''], RListEndpointPolicies), (''POST'', [''endpoint-policies''], RUpsertEndpointPolicy),
      (''DELETE'', [''endpoint-policies'', []], RDeleteEndpointPolicy),
      (''GET'', [''http-requests''], RListHTTPRequestLogs),
      (''GET'', [''acl''], RListACL), (''POST'', [''acl''], RCreateACL), (''DELETE'', [''acl'', []], RDeleteACL),
      (''GET'', [''alerts''], RListAlerts), (''POST'', [''alerts'', [], ''ack''], RAckAlert),
      (''GET'', [''alerts'', ''unacked''], RListUnackedAlerts),
      (''GET'', [''alert-rules''], RListAlertRules), (''POST'', [''alert-rules''], RCreateAlertRule),
      (''PUT'', [''alert-rules'', []], RUpdateAlertRule), (''DELETE'', [''alert-rules'', []], RDeleteAlertRule),
      (''POST'', [''metrics''], RIngestMetrics),
      (''GET'', [''users''], RListUsers), (''POST'', [''users''], RCreateUser),
      (''PUT'', [''users'', [], ''role''], RUpdateUserRole), (''DELETE'', [''users'', []], RDeleteUser),
      (''GET'', [''audit''], RQueryAudit), (''GET'', [''config'', ''status''], RConfigStatus), (''GET'', [''health''], RHealth)]"

fun match_segments :: "string list \<Rightarrow> string list \<Rightarrow> bool" where
  "match_segments [] [] = True"
| "match_segments (p # ps) (s # ss) = ((if p = [] then s \<noteq> [] else p = s) \<and> match_segments ps ss)"
| "match_segments _ _ = False"

text \<open>
  The standard library's mux: a path that is not clean is redirected; else the pattern that matches
  serves. (No two patterns of the table match the same request, and \<open>GET /\<close> yields to the others. The
  first segment is the empty text before the leading slash.)
\<close>

definition clean_path :: "string list \<Rightarrow> bool" where
  "clean_path segs \<longleftrightarrow>
     (case segs of [] \<Rightarrow> False
      | s # ss \<Rightarrow> s = [] \<and> ss \<noteq> [] \<and> (\<forall>x \<in> set ss. x \<noteq> ''.'' \<and> x \<noteq> ''..'') \<and> (\<forall>x \<in> set (butlast ss). x \<noteq> []))"

datatype served = Handler d_route | Preflight | Redirected | NoRoute | Refused denial

fun match_api :: "string list \<Rightarrow> string list \<Rightarrow> bool" where
  "match_api ps (a # b # c # ss) = (a = [] \<and> b = ''api'' \<and> c = ''v1'' \<and> match_segments ps ss)"
| "match_api ps _ = False"

definition mux :: "bool \<Rightarrow> DashRequest \<Rightarrow> served" where
  "mux static r =
     (let segs = split_on (CHR ''/'') (dr_Path r) in
      if \<not> clean_path segs then Redirected
      else (case find (\<lambda>(m, ps, rt). (m = dr_Method r \<or> (m = ''GET'' \<and> dr_Method r = ''HEAD'')) \<and> match_api ps segs) registerRoutes of
              Some (m, ps, rt) \<Rightarrow> Handler rt
            | None \<Rightarrow> if static \<and> (dr_Method r = ''GET'' \<or> dr_Method r = ''HEAD'') then Handler RStaticAssets else NoRoute))"

definition corsMiddleware :: "bool \<Rightarrow> DashRequest \<Rightarrow> served" where
  "corsMiddleware static r = (if dr_Method r = ''OPTIONS'' then Preflight else mux static r)"

text \<open>The chain: authentication, permissions, (headers,) CORS, routes. The request is the one that the handler sees.\<close>

definition buildHandler ::
    "bool \<Rightarrow> gotime \<Rightarrow> string list \<Rightarrow> DashRequest \<Rightarrow> AuthManager \<Rightarrow> served \<times> DashRequest \<times> AuthManager" where
  "buildHandler static now ks r a =
     (case AuthMiddleware now ks r a of
        (Inl d, a) \<Rightarrow> (Refused d, r, a)
      | (Inr r, a) \<Rightarrow>
          (case rbacMiddleware r of
             Inl d \<Rightarrow> (Refused d, r, a)
           | Inr r \<Rightarrow> (corsMiddleware static r, r, a)))"

end
