(* ===== verification/Go_Sort.thy ===== *)
theory Go_Sort
  imports Go_Heap
begin

text \<open>
  The exchange sort that the code writes out where it does not call \<open>sort.Slice\<close>: for every position
  the elements after it are compared with the one it holds and swapped with it when they come before
  it (\<open>AlertEngine.ListEvents\<close> of the dashboard, \<open>RuleMap.rebuildSorted\<close> of the packet filter). It
  has the contract of \<open>sort.Slice\<close>, so that its clients have the facts of \<open>slice_sorter\<close>.
\<close>

function exch_inner :: "('a \<Rightarrow> 'a \<Rightarrow> bool) \<Rightarrow> nat \<Rightarrow> nat \<Rightarrow> 'a list \<Rightarrow> 'a list" where
  "exch_inner lt i j xs =
     (if j < length xs then
        exch_inner lt i (j + 1) (if lt (xs ! j) (xs ! i) then heap_swap i j xs else xs)
      else xs)"
  by pat_completeness auto
termination by (relation "measure (\<lambda>(lt, i, j, xs). length xs - j)") auto

declare exch_inner.simps [simp del]

lemma length_exch_inner [simp]: "length (exch_inner lt i j xs) = length xs"
proof (induction lt i j xs rule: exch_inner.induct)
  case (1 lt i j xs)
  then show ?case by (cases "j < length xs") (simp_all add: exch_inner.simps [of lt i j xs])
qed

function exch_outer :: "('a \<Rightarrow> 'a \<Rightarrow> bool) \<Rightarrow> nat \<Rightarrow> 'a list \<Rightarrow> 'a list" where
  "exch_outer lt i xs = (if i < length xs then exch_outer lt (i + 1) (exch_inner lt i (i + 1) xs) else xs)"
  by pat_completeness auto
termination by (relation "measure (\<lambda>(lt, i, xs). length xs - i)") auto

declare exch_outer.simps [simp del]

definition exch_sort :: "('a \<Rightarrow> 'a \<Rightarrow> bool) \<Rightarrow> 'a list \<Rightarrow> 'a list" where
  "exch_sort lt xs = exch_outer lt 0 xs"

section \<open>Its contract\<close>

lemma in_set_drop_nth: "x \<in> set (drop i xs) \<longleftrightarrow> (\<exists>k. i \<le> k \<and> k < length xs \<and> x = xs ! k)"
proof
  assume "x \<in> set (drop i xs)"
  then obtain k where "k < length xs - i" "x = drop i xs ! k" by (auto simp: in_set_conv_nth)
  then show "\<exists>k. i \<le> k \<and> k < length xs \<and> x = xs ! k" by (intro exI [of _ "i + k"]) auto
next
  assume "\<exists>k. i \<le> k \<and> k < length xs \<and> x = xs ! k"
  then obtain k where "i \<le> k" "k < length xs" "x = xs ! k" by auto
  then show "x \<in> set (drop i xs)" unfolding in_set_conv_nth by (intro exI [of _ "k - i"]) auto
qed

lemma exch_inner_perm:
  assumes "i < j" "i < length xs"
  shows "mset (exch_inner lt i j xs) = mset xs"
  using assms
proof (induction lt i j xs rule: exch_inner.induct)
  case (1 lt i j xs)
  let ?ys = "if lt (xs ! j) (xs ! i) then heap_swap i j xs else xs"
  show ?case
  proof (cases "j < length xs")
    case True
    have "mset (exch_inner lt i (j + 1) ?ys) = mset ?ys" using 1(1) [OF True] 1(2,3) by simp
    then show ?thesis using True 1(2,3) by (subst exch_inner.simps) simp
  next
    case False
    then show ?thesis by (simp add: exch_inner.simps)
  qed
qed

lemma exch_outer_perm: "mset (exch_outer lt i xs) = mset xs"
proof (induction lt i xs rule: exch_outer.induct)
  case (1 lt i xs)
  then show ?case
    using exch_inner_perm [of i "i + 1" xs lt] by (cases "i < length xs") (simp_all add: exch_outer.simps [of lt i xs])
qed

text \<open>A pass brings a least element of the rest to its place and leaves what is before it.\<close>

lemma exch_inner_least:
  assumes "weak_order lt" "i < j" "i < length xs" "\<And>k. i < k \<Longrightarrow> k < j \<Longrightarrow> k < length xs \<Longrightarrow> \<not> lt (xs ! k) (xs ! i)"
  shows "(\<forall>k. i < k \<longrightarrow> k < length xs \<longrightarrow> \<not> lt (exch_inner lt i j xs ! k) (exch_inner lt i j xs ! i))
    \<and> (\<forall>k < i. exch_inner lt i j xs ! k = xs ! k)"
  using assms
proof (induction lt i j xs rule: exch_inner.induct)
  case (1 lt i j xs)
  let ?ys = "if lt (xs ! j) (xs ! i) then heap_swap i j xs else xs"
  show ?case
  proof (cases "j < length xs")
    case True
    have keep: "\<forall>k < i. ?ys ! k = xs ! k" using 1(3,4) True by (auto simp: nth_heap_swap)
    have "\<not> lt (?ys ! k) (?ys ! i)" if k: "i < k" "k < j + 1" "k < length xs" for k
    proof (cases "lt (xs ! j) (xs ! i)")
      case lt: True
      have n: "\<not> lt (xs ! i) (xs ! j)" by (rule weak_order_asym [OF 1(2) lt])
      show ?thesis
      proof (cases "k = j")
        case True
        then show ?thesis using n lt k 1(3,4) by (simp add: nth_heap_swap)
      next
        case False
        then have "\<not> lt (xs ! k) (xs ! i)" using 1(5) [of k] k by simp
        then have "\<not> lt (xs ! k) (xs ! j)" using weak_order_trans [OF 1(2)] n by blast
        then show ?thesis using lt k False 1(3,4) True by (simp add: nth_heap_swap)
      qed
    next
      case False
      then show ?thesis using 1(5) [of k] k by (cases "k = j") simp_all
    qed
    then show ?thesis
      using 1(1) [OF True] 1(2-4) True keep by (subst (1 2 3) exch_inner.simps) auto
  next
    case False
    then show ?thesis using 1(5) by (auto simp: exch_inner.simps)
  qed
qed

text \<open>After the pass for position \<open>i\<close> the elements up to it are in order and before the rest.\<close>

lemma exch_pass_sorted:
  assumes w: "weak_order lt" and "i < length xs"
    and s: "\<And>a b. a < b \<Longrightarrow> a < i \<Longrightarrow> b < length xs \<Longrightarrow> \<not> lt (xs ! b) (xs ! a)"
    and ab: "a < b" "a < i + 1" "b < length xs"
  defines "ys \<equiv> exch_inner lt i (i + 1) xs"
  shows "\<not> lt (ys ! b) (ys ! a)"
proof -
  have len: "length ys = length xs" by (simp add: ys_def)
  have m: "mset ys = mset xs" unfolding ys_def by (rule exch_inner_perm) (use assms(2) in auto)
  have mx: "(\<forall>k. i < k \<longrightarrow> k < length xs \<longrightarrow> \<not> lt (ys ! k) (ys ! i)) \<and> (\<forall>k < i. ys ! k = xs ! k)"
    unfolding ys_def by (rule exch_inner_least [OF w]) (use assms(2) in auto)
  show ?thesis
  proof (cases "a = i")
    case True
    then show ?thesis using mx ab by simp
  next
    case False
    then have a: "a < i" using ab by simp
    have "ys ! b \<in> set (drop i xs) \<or> (\<exists>c. a < c \<and> c < length xs \<and> ys ! b = xs ! c)"
    proof (cases "b < i")
      case True
      then show ?thesis using mx ab by auto
    next
      case False
      have "take i ys = take i xs" using mx assms(2) len by (intro nth_equalityI) auto
      then have "mset (drop i ys) = mset (drop i xs)" using m
        by (metis add_left_cancel append_take_drop_id mset_append)
      moreover have "ys ! b \<in> set (drop i ys)"
        using False ab len unfolding in_set_drop_nth by (intro exI [of _ b]) auto
      ultimately show ?thesis by (metis mset_eq_setD)
    qed
    then obtain c where "a < c" "c < length xs" "ys ! b = xs ! c"
      using a unfolding in_set_drop_nth by (auto intro: that less_le_trans)
    then show ?thesis using s [of a c] a mx by simp
  qed
qed

lemma exch_outer_sorted:
  assumes "weak_order lt" "\<And>a b. a < b \<Longrightarrow> a < i \<Longrightarrow> b < length xs \<Longrightarrow> \<not> lt (xs ! b) (xs ! a)"
  shows "sorted_wrt (\<lambda>a b. \<not> lt b a) (exch_outer lt i xs)"
  using assms
proof (induction lt i xs rule: exch_outer.induct)
  case (1 lt i xs)
  show ?case
  proof (cases "i < length xs")
    case True
    then show ?thesis
      using 1(1) [OF True 1(2)] exch_pass_sorted [OF 1(2) True 1(3)] by (subst exch_outer.simps) simp
  next
    case False
    then show ?thesis using 1(3) by (auto simp: sorted_wrt_iff_nth_less exch_outer.simps)
  qed
qed

interpretation exchange: slice_sorter exch_sort
  by unfold_locales (auto simp: exch_sort_def exch_outer_perm intro: exch_outer_sorted)

end
