(* ===== verification/Dashboard_Alerts.thy ===== *)
theory Dashboard_Alerts
  imports Complex_Main Go_Sort Address_Text
begin

text \<open>
  The alert engine of the dashboard (\<open>server/internal/dashboard/alerts.go\<close>): rules, their evaluation
  on metric samples with cooldowns, events and their acknowledgement, and the listing of events by an
  exchange sort. The \<open>float64\<close> values are exact rationals. A rule and an event are reached only
  through the engine's maps. The order of a range over the rules is an argument, one for every sample;
  the texts are those of \<open>fmt\<close> for ASCII strings.
\<close>

section \<open>Texts\<close>

definition hex_digit :: "nat \<Rightarrow> char" where
  "hex_digit d = (if d < 10 then char_of (48 + d) else char_of (87 + d))"

text \<open>The verb \<open>%q\<close> on ASCII strings.\<close>

definition quote_char :: "char \<Rightarrow> string" where
  "quote_char c =
     (let n = of_char c :: nat in
      if n = 34 then [CHR 0x5C, CHR 0x22]
      else if n = 92 then [CHR 0x5C, CHR 0x5C]
      else if n = 7 then [CHR 0x5C, CHR ''a''] else if n = 8 then [CHR 0x5C, CHR ''b'']
      else if n = 12 then [CHR 0x5C, CHR ''f''] else if n = 10 then [CHR 0x5C, CHR ''n'']
      else if n = 13 then [CHR 0x5C, CHR ''r''] else if n = 9 then [CHR 0x5C, CHR ''t'']
      else if n = 11 then [CHR 0x5C, CHR ''v'']
      else if n < 32 \<or> n = 127 then [CHR 0x5C, CHR ''x'', hex_digit (n div 16), hex_digit (n mod 16)]
      else [c])"

definition fmt_quote :: "string \<Rightarrow> string" where
  "fmt_quote s = CHR 0x22 # concat (map quote_char s) @ [CHR 0x22]"

text \<open>The verb \<open>%.2f\<close>: rounding to the nearest hundredth, ties to even.\<close>

definition round_even :: "rat \<Rightarrow> int" where
  "round_even r =
     (let f = \<lfloor>r\<rfloor>; d = r - of_int f in
      if d < 1 / 2 then f else if d > 1 / 2 then f + 1 else if even f then f else f + 1)"

definition fmt_2f :: "rat \<Rightarrow> string" where
  "fmt_2f r =
     (let n = nat (round_even (\<bar>r\<bar> * 100))
      in (if r < 0 then ''-'' else []) @ nat_str (n div 100) @ ''.'' @ nat_str (n mod 100 div 10) @ nat_str (n mod 10))"

section \<open>Rules and events\<close>

record AlertRule =
  ar_ID :: string
  ar_Name :: string
  ar_Description :: string
  ar_Condition :: string
  ar_Threshold :: rat
  ar_Level :: string
  ar_Enabled :: bool
  ar_Cooldown :: duration
  ar_NodeFilter :: string
  ar_CreatedAt :: gotime
  ar_LastFired :: gotime

record AlertEvent =
  av_ID :: string
  av_RuleID :: string
  av_RuleName :: string
  av_Level :: string
  av_Message :: string
  av_NodeID :: string
  av_Value :: rat
  av_Threshold :: rat
  av_CreatedAt :: gotime
  av_Acked :: bool
  av_AckedBy :: string
  av_AckedAt :: gotime

record AlertEngine =
  ae_rules :: "(string, AlertRule) fmap"
  ae_events :: "(string, AlertEvent) fmap"
  ae_notifiers :: "string list"
  ae_nextID :: nat

datatype alert_error = AlertRuleIDRequired | AlertRuleNotFound string | AlertEventNotFound string

definition NewAlertEngine :: AlertEngine where
  "NewAlertEngine = \<lparr>ae_rules = fmempty, ae_events = fmempty, ae_notifiers = [''log''], ae_nextID = 0\<rparr>"

definition AddNotifier :: "string \<Rightarrow> AlertEngine \<Rightarrow> AlertEngine" where
  "AddNotifier n e = e\<lparr>ae_notifiers := ae_notifiers e @ [n]\<rparr>"

definition RemoveNotifier :: "string \<Rightarrow> AlertEngine \<Rightarrow> AlertEngine" where
  "RemoveNotifier n e = e\<lparr>ae_notifiers := remove1 n (ae_notifiers e)\<rparr>"

definition ae_AddRule :: "gotime \<Rightarrow> AlertRule \<Rightarrow> AlertEngine \<Rightarrow> alert_error option \<times> AlertEngine" where
  "ae_AddRule now rule e =
     (if ar_ID rule = [] then (Some AlertRuleIDRequired, e)
      else (None, e\<lparr>ae_rules := fmupd (ar_ID rule) (rule\<lparr>ar_CreatedAt := now\<rparr>) (ae_rules e)\<rparr>))"

definition ae_RemoveRule :: "string \<Rightarrow> AlertEngine \<Rightarrow> alert_error option \<times> AlertEngine" where
  "ae_RemoveRule ruleID e =
     (if fmlookup (ae_rules e) ruleID = None then (Some (AlertRuleNotFound ruleID), e)
      else (None, e\<lparr>ae_rules := fmdrop ruleID (ae_rules e)\<rparr>))"

definition ae_UpdateRule :: "AlertRule \<Rightarrow> AlertEngine \<Rightarrow> alert_error option \<times> AlertEngine" where
  "ae_UpdateRule rule e =
     (if fmlookup (ae_rules e) (ar_ID rule) = None then (Some (AlertRuleNotFound (ar_ID rule)), e)
      else (None, e\<lparr>ae_rules := fmupd (ar_ID rule) rule (ae_rules e)\<rparr>))"

definition ae_GetRule :: "string \<Rightarrow> AlertEngine \<Rightarrow> AlertRule option" where
  "ae_GetRule ruleID e = fmlookup (ae_rules e) ruleID"

definition ae_ListRules :: "string list \<Rightarrow> AlertEngine \<Rightarrow> AlertRule list" where
  "ae_ListRules ks e = range_vals (ae_rules e) ks"

definition ae_RuleCount :: "AlertEngine \<Rightarrow> nat" where
  "ae_RuleCount e = mlen (ae_rules e)"

section \<open>Evaluation\<close>

record MetricSample =
  sm_NodeID :: string
  sm_Metric :: string
  sm_Value :: rat

definition checkCondition :: "AlertRule \<Rightarrow> rat \<Rightarrow> bool" where
  "checkCondition rule value =
     (if ar_Condition rule = ''node_offline'' then value \<ge> 1
      else if ar_Condition rule = ''node_count_low'' then value < ar_Threshold rule
      else value > ar_Threshold rule)"

definition alert_fires :: "gotime \<Rightarrow> MetricSample \<Rightarrow> AlertRule \<Rightarrow> bool" where
  "alert_fires now sample rule =
     (if \<not> ar_Enabled rule then False
      else if ar_Condition rule \<noteq> sm_Metric sample then False
      else if ar_NodeFilter rule \<noteq> [] \<and> ar_NodeFilter rule \<noteq> sm_NodeID sample then False
      else if \<not> is_zero_time (ar_LastFired rule) \<and> time_sub now (ar_LastFired rule) < ar_Cooldown rule then False
      else checkCondition rule (sm_Value sample))"

definition alert_message :: "AlertRule \<Rightarrow> rat \<Rightarrow> string" where
  "alert_message rule value =
     ''Rule '' @ fmt_quote (ar_Name rule) @ '': '' @ ar_Condition rule @ '' threshold '' @ fmt_2f (ar_Threshold rule)
       @ '' exceeded (value='' @ fmt_2f value @ '')''"

definition alert_id :: "nat \<Rightarrow> string" where
  "alert_id n = ''alert-'' @ nat_str n"

definition fire :: "gotime \<Rightarrow> MetricSample \<Rightarrow> AlertRule \<Rightarrow> AlertEngine \<Rightarrow> AlertEvent \<times> AlertEngine" where
  "fire now sample rule e =
     (let nextID = ae_nextID e + 1;
          event = \<lparr>av_ID = alert_id nextID, av_RuleID = ar_ID rule, av_RuleName = ar_Name rule,
             av_Level = ar_Level rule, av_Message = alert_message rule (sm_Value sample), av_NodeID = sm_NodeID sample,
             av_Value = sm_Value sample, av_Threshold = ar_Threshold rule, av_CreatedAt = now, av_Acked = False,
             av_AckedBy = [], av_AckedAt = 0\<rparr>
      in (event, e\<lparr>ae_nextID := nextID, ae_events := fmupd (av_ID event) event (ae_events e)\<rparr>))"

fun eval_sample :: "gotime \<Rightarrow> MetricSample \<Rightarrow> string list \<Rightarrow> AlertEngine \<Rightarrow> AlertEvent list \<times> AlertEngine" where
  "eval_sample now sample [] e = ([], e)"
| "eval_sample now sample (k # ks) e =
     (case fmlookup (ae_rules e) k of
        None \<Rightarrow> eval_sample now sample ks e
      | Some rule \<Rightarrow>
          if \<not> alert_fires now sample rule then eval_sample now sample ks e
          else (case fire now sample rule e of
                  (event, e) \<Rightarrow>
                    let e = e\<lparr>ae_rules := fmupd k (rule\<lparr>ar_LastFired := now\<rparr>) (ae_rules e)\<rparr> in
                    (case eval_sample now sample ks e of (fired, e) \<Rightarrow> (event # fired, e))))"

fun eval_samples :: "gotime \<Rightarrow> (MetricSample \<times> string list) list \<Rightarrow> AlertEngine \<Rightarrow> AlertEvent list \<times> AlertEngine" where
  "eval_samples now [] e = ([], e)"
| "eval_samples now ((sample, ks) # sks) e =
     (case eval_sample now sample ks e of
        (fired1, e) \<Rightarrow> (case eval_samples now sks e of (fired2, e) \<Rightarrow> (fired1 @ fired2, e)))"

text \<open>The fired events, the notifications sent, and the engine after.\<close>

definition ae_Evaluate ::
    "gotime \<Rightarrow> (MetricSample \<times> string list) list \<Rightarrow> AlertEngine \<Rightarrow> AlertEvent list \<times> (string \<times> AlertEvent) list \<times> AlertEngine" where
  "ae_Evaluate now sks e =
     (case eval_samples now sks e of
        (fired, e) \<Rightarrow> (fired, concat (map (\<lambda>ev. map (\<lambda>n. (n, ev)) (ae_notifiers e)) fired), e))"

section \<open>Events\<close>

definition AckEvent :: "gotime \<Rightarrow> string \<Rightarrow> string \<Rightarrow> AlertEngine \<Rightarrow> alert_error option \<times> AlertEngine" where
  "AckEvent now eventID ackedBy e =
     (case fmlookup (ae_events e) eventID of
        None \<Rightarrow> (Some (AlertEventNotFound eventID), e)
      | Some ev \<Rightarrow>
          (None, e\<lparr>ae_events := fmupd eventID (ev\<lparr>av_Acked := True, av_AckedBy := ackedBy, av_AckedAt := now\<rparr>) (ae_events e)\<rparr>))"

definition ListEvents :: "string list \<Rightarrow> AlertEngine \<Rightarrow> AlertEvent list" where
  "ListEvents ks e = exch_sort (\<lambda>a b. av_CreatedAt b < av_CreatedAt a) (range_vals (ae_events e) ks)"

definition ListUnackedEvents :: "string list \<Rightarrow> AlertEngine \<Rightarrow> AlertEvent list" where
  "ListUnackedEvents ks e = filter (\<lambda>ev. \<not> av_Acked ev) (ListEvents ks e)"

definition EventCount :: "AlertEngine \<Rightarrow> nat" where
  "EventCount e = mlen (ae_events e)"

section \<open>The order of the list\<close>

lemma weak_order_newest: "weak_order (\<lambda>a b. av_CreatedAt b < av_CreatedAt a)"
  by (rule weak_orderI) auto

lemma ListEvents_mset: "mset (ListEvents ks e) = mset (range_vals (ae_events e) ks)"
  by (simp add: ListEvents_def exchange.srt_perm)

lemma ListEvents_sorted: "sorted_wrt (\<lambda>a b. av_CreatedAt b \<le> av_CreatedAt a) (ListEvents ks e)"
  using exchange.srt_sorted [OF weak_order_newest] by (simp add: ListEvents_def not_less)

section \<open>Runs\<close>

datatype alert_op =
    LAdd gotime AlertRule
  | LRemove string
  | LUpdate AlertRule
  | LEval gotime "(MetricSample \<times> string list) list"
  | LAck gotime string string

definition alert_apply :: "alert_op \<Rightarrow> AlertEngine \<Rightarrow> AlertEngine" where
  "alert_apply op e =
     (case op of
        LAdd now r \<Rightarrow> snd (ae_AddRule now r e)
      | LRemove i \<Rightarrow> snd (ae_RemoveRule i e)
      | LUpdate r \<Rightarrow> snd (ae_UpdateRule r e)
      | LEval now sks \<Rightarrow> snd (snd (ae_Evaluate now sks e))
      | LAck now i by \<Rightarrow> snd (AckEvent now i by e))"

definition alert_fired :: "alert_op \<Rightarrow> AlertEngine \<Rightarrow> AlertEvent list" where
  "alert_fired op e = (case op of LEval now sks \<Rightarrow> fst (ae_Evaluate now sks e) | _ \<Rightarrow> [])"

fun alert_run :: "alert_op list \<Rightarrow> AlertEngine \<Rightarrow> AlertEvent list \<times> AlertEngine" where
  "alert_run [] e = ([], e)"
| "alert_run (op # ops) e =
     (case alert_run ops (alert_apply op e) of (fired, e') \<Rightarrow> (alert_fired op e @ fired, e'))"

section \<open>Events are kept\<close>

text \<open>An event as it was fired.\<close>

definition unack :: "AlertEvent \<Rightarrow> AlertEvent" where
  "unack ev = ev\<lparr>av_Acked := False, av_AckedBy := [], av_AckedAt := 0\<rparr>"

definition log_inv :: "AlertEvent list \<Rightarrow> AlertEngine \<Rightarrow> bool" where
  "log_inv xs e \<longleftrightarrow>
     map av_ID xs = map alert_id [1..<Suc (ae_nextID e)] \<and>
     (\<forall>k. map_option unack (fmlookup (ae_events e) k) = map_of (map (\<lambda>ev. (av_ID ev, ev)) xs) k)"

lemma log_inv_new: "log_inv [] NewAlertEngine"
  by (simp add: log_inv_def NewAlertEngine_def)

lemma log_inv_rules [simp]: "log_inv xs (e\<lparr>ae_rules := r\<rparr>) = log_inv xs e"
  by (simp add: log_inv_def)

lemma alert_ids_distinct: "distinct (map alert_id ns) = distinct ns"
  by (auto simp: distinct_map inj_on_def alert_id_def dest: nat_str_inj)

lemma log_inv_distinct: "log_inv xs e \<Longrightarrow> distinct (map av_ID xs)"
  by (metis alert_ids_distinct distinct_upt log_inv_def)

lemma log_inv_fire:
  assumes "log_inv xs e" and "fire now sample rule e = (ev, e')"
  shows "log_inv (xs @ [ev]) e'"
proof -
  let ?n = "alert_id (ae_nextID e + 1)"
  have ev: "av_ID ev = ?n" "unack ev = ev" and e': "ae_nextID e' = ae_nextID e + 1" "ae_events e' = fmupd ?n ev (ae_events e)"
    using assms(2) by (auto simp: fire_def Let_def unack_def)
  have ids: "map av_ID (xs @ [ev]) = map alert_id [1..<Suc (ae_nextID e')]"
    using assms(1) ev(1) e'(1) by (simp add: log_inv_def)
  have "distinct (map av_ID (xs @ [ev]))" unfolding ids by (simp add: alert_ids_distinct del: upt_Suc)
  then have fresh: "map_of (map (\<lambda>ev. (av_ID ev, ev)) xs) ?n = None"
    using ev(1) by (auto simp: map_of_eq_None_iff)
  show ?thesis
    unfolding log_inv_def
  proof (intro conjI allI)
    fix k
    show "map_option unack (fmlookup (ae_events e') k) = map_of (map (\<lambda>ev. (av_ID ev, ev)) (xs @ [ev])) k"
      using assms(1) ev fresh unfolding e' log_inv_def
      by (cases "k = ?n") (auto simp: map_add_def split: option.split)
  qed (rule ids)
qed

lemma log_inv_sample:
  "log_inv xs e \<Longrightarrow> eval_sample now sample ks e = (fired, e') \<Longrightarrow> log_inv (xs @ fired) e'"
proof (induction now sample ks e arbitrary: xs fired e' rule: eval_sample.induct)
  case (2 now sample k ks e)
  show ?case
  proof (cases "\<exists>rule. fmlookup (ae_rules e) k = Some rule \<and> alert_fires now sample rule")
    case False
    then show ?thesis using 2 by (auto split: option.splits)
  next
    case True
    then obtain rule where r: "fmlookup (ae_rules e) k = Some rule" "alert_fires now sample rule" by auto
    obtain ev e1 where f: "fire now sample rule e = (ev, e1)" by (cases "fire now sample rule e")
    let ?e2 = "e1\<lparr>ae_rules := fmupd k (rule\<lparr>ar_LastFired := now\<rparr>) (ae_rules e1)\<rparr>"
    obtain fs where fs: "eval_sample now sample ks ?e2 = (fs, e')" "fired = ev # fs"
      using 2(5) r f by (auto simp: Let_def split: prod.splits)
    have "log_inv ((xs @ [ev]) @ fs) e'"
      by (rule 2(3) [of rule, OF r(1) _ f [symmetric] refl _ fs(1)])
        (use r(2) log_inv_fire [OF 2(4) f] in auto)
    then show ?thesis using fs(2) by simp
  qed
qed simp

lemma log_inv_samples:
  "log_inv xs e \<Longrightarrow> eval_samples now sks e = (fired, e') \<Longrightarrow> log_inv (xs @ fired) e'"
proof (induction now sks e arbitrary: xs fired e' rule: eval_samples.induct)
  case (2 now sample ks sks e)
  obtain f1 e1 where 1: "eval_sample now sample ks e = (f1, e1)" by (cases "eval_sample now sample ks e")
  obtain f2 where f2: "eval_samples now sks e1 = (f2, e')" "fired = f1 @ f2"
    using 2(3) 1 by (auto split: prod.splits)
  have "log_inv ((xs @ f1) @ f2) e'"
    by (rule 2(1) [OF 1 [symmetric] log_inv_sample [OF 2(2) 1] f2(1)])
  then show ?case using f2(2) by simp
qed simp

lemma log_inv_apply: "log_inv xs e \<Longrightarrow> log_inv (xs @ alert_fired op e) (alert_apply op e)"
proof (cases op)
  case (LEval now sks)
  assume "log_inv xs e"
  then show ?thesis
    using log_inv_samples [of xs e now sks] LEval by (auto simp: alert_apply_def alert_fired_def ae_Evaluate_def split: prod.split)
next
  case (LAck now i b)
  assume l: "log_inv xs e"
  show ?thesis
  proof (cases "fmlookup (ae_events e) i")
    case (Some ev)
    then show ?thesis
      using l LAck by (auto simp: alert_apply_def alert_fired_def AckEvent_def log_inv_def unack_def) (metis option.map(2) unack_def)
  qed (use l LAck in \<open>simp add: alert_apply_def alert_fired_def AckEvent_def\<close>)
qed (auto simp: alert_apply_def alert_fired_def ae_AddRule_def ae_RemoveRule_def ae_UpdateRule_def)

lemma log_inv_run: "log_inv xs e \<Longrightarrow> alert_run ops e = (fired, e') \<Longrightarrow> log_inv (xs @ fired) e'"
proof (induction ops arbitrary: xs e fired)
  case (Cons op ops)
  then obtain fs where "alert_run ops (alert_apply op e) = (fs, e')" "fired = alert_fired op e @ fs"
    by (auto split: prod.splits)
  then show ?case using Cons.IH [OF log_inv_apply [OF Cons.prems(1)]] by simp
qed simp

lemma log_inv_range:
  assumes l: "log_inv xs e" and ks: "range_order (ae_events e) ks"
  shows "mset (map unack (range_vals (ae_events e) ks)) = mset xs"
proof -
  let ?m = "map_of (map (\<lambda>ev. (av_ID ev, ev)) xs)"
  have m: "map_option unack (fmlookup (ae_events e) k) = ?m k" for k using l by (simp add: log_inv_def)
  have dom: "k \<in> set ks \<longleftrightarrow> ?m k \<noteq> None" for k
    using range_order_set [OF ks, of k] m [of k] by (cases "fmlookup (ae_events e) k") (simp_all add: eq_commute [of _ "?m k"])
  have "\<forall>k \<in> set js. ?m k \<noteq> None \<Longrightarrow> map unack (range_vals (ae_events e) js) = map (\<lambda>k. the (?m k)) js" for js
  proof (induction js)
    case (Cons k js)
    then show ?case using m [of k] by (auto split: option.splits)
  qed simp
  then have eq: "map unack (range_vals (ae_events e) ks) = map (\<lambda>k. the (?m k)) ks" using dom by blast
  have "set ks = set (map av_ID xs)" using dom by (auto simp: map_of_eq_None_iff image_image)
  then have "mset ks = mset (map av_ID xs)"
    using range_order_distinct [OF ks] log_inv_distinct [OF l] by (simp only: set_eq_iff_mset_eq_distinct [symmetric])
  then have "mset (map (\<lambda>k. the (?m k)) ks) = mset (map (\<lambda>k. the (?m k)) (map av_ID xs))"
    by (simp only: mset_map)
  also have "map (\<lambda>k. the (?m k)) (map av_ID xs) = xs"
  proof -
    have "?m (av_ID x) = Some x" if "x \<in> set xs" for x
      by (rule map_of_is_SomeI) (use log_inv_distinct [OF l] that in \<open>auto simp: comp_def\<close>)
    then show ?thesis by (simp add: map_idI)
  qed
  finally show ?thesis unfolding eq .
qed

text \<open>
  Alerts are kept. After any run of a new engine, in which rules are added, updated and removed,
  samples evaluated and events acknowledged, the listing of events is, up to the acknowledgements, exactly
  the events that were fired, newest first: no event is lost, overwritten or listed twice.
\<close>

theorem alert_events_kept:
  assumes "alert_run ops NewAlertEngine = (fired, e)" and "range_order (ae_events e) ks"
  shows "mset (map unack (ListEvents ks e)) = mset fired
    \<and> sorted_wrt (\<lambda>a b. av_CreatedAt b \<le> av_CreatedAt a) (ListEvents ks e)
    \<and> EventCount e = length fired"
proof -
  have l: "log_inv fired e" using log_inv_run [OF log_inv_new assms(1)] by simp
  have "mset (map unack (ListEvents ks e)) = mset fired"
    using log_inv_range [OF l assms(2)] ListEvents_mset [of ks e] by simp
  moreover have "EventCount e = length fired"
  proof -
    have "length (range_vals (ae_events e) ks) = length ks"
      by (rule range_vals_length) (use range_order_set [OF assms(2)] in blast)
    then show ?thesis
      using arg_cong [OF log_inv_range [OF l assms(2)], of size] range_order_length [OF assms(2)] by (simp add: EventCount_def)
  qed
  ultimately show ?thesis using ListEvents_sorted by blast
qed

definition ex_rule :: "string \<Rightarrow> AlertRule" where
  "ex_rule i = \<lparr>ar_ID = i, ar_Name = ''lat'', ar_Description = [], ar_Condition = ''high_latency'', ar_Threshold = 100,
     ar_Level = ''warning'', ar_Enabled = True, ar_Cooldown = 50, ar_NodeFilter = [], ar_CreatedAt = 0, ar_LastFired = 0\<rparr>"

definition ex_sample :: "string \<Rightarrow> rat \<Rightarrow> MetricSample" where
  "ex_sample n v = \<lparr>sm_NodeID = n, sm_Metric = ''high_latency'', sm_Value = v\<rparr>"

lemmas alert_eval = alert_apply_def alert_fired_def ae_AddRule_def ae_Evaluate_def fire_def alert_fires_def
  Let_def checkCondition_def is_zero_time_def time_sub_def NewAlertEngine_def ex_rule_def ex_sample_def

abbreviation ex_engine :: AlertEngine where
  "ex_engine \<equiv> snd (alert_run [LAdd 1 (ex_rule ''r'')] NewAlertEngine)"

abbreviation ex_evals :: "alert_op list" where
  "ex_evals \<equiv> [LEval 10 [(ex_sample ''a'' 200, [''r'']), (ex_sample ''b'' 300, [''r''])],
     LEval 30 [(ex_sample ''a'' 250, [''r''])], LEval 60 [(ex_sample ''b'' 150, [''r''])]]"

lemma alert_id_eq [simp]: "alert_id m = alert_id n \<longleftrightarrow> m = n"
  by (auto simp: alert_id_def dest: nat_str_inj)

theorem alert_events_kept_witness:
  "EventCount (snd (alert_run (LAdd 1 (ex_rule ''r'') # ex_evals) NewAlertEngine)) = 2
    \<and> sorted_wrt (\<lambda>a b. av_CreatedAt b \<le> av_CreatedAt a)
        (ListEvents [alert_id 1, alert_id 2] (snd (alert_run (LAdd 1 (ex_rule ''r'') # ex_evals) NewAlertEngine)))"
proof -
  let ?ops = "LAdd 1 (ex_rule ''r'') # ex_evals" and ?ks = "[alert_id 1, alert_id 2]"
  have f: "length (fst (alert_run ?ops NewAlertEngine)) = 2" by (simp add: alert_eval)
  have "fmdom (ae_events (snd (alert_run ?ops NewAlertEngine))) = {|alert_id 1, alert_id 2|}"
    by (simp add: alert_eval numeral_2_eq_2 finsert_commute)
  then have ks: "range_order (ae_events (snd (alert_run ?ops NewAlertEngine))) ?ks" by (simp add: range_order_def)
  show ?thesis using alert_events_kept [OF prod.collapse [symmetric] ks] unfolding f by blast
qed

section \<open>Cooldowns\<close>

text \<open>Times at which a rule with a cooldown may fire, after a last firing (zero when there was none).\<close>

definition spaced :: "duration \<Rightarrow> gotime \<Rightarrow> gotime list \<Rightarrow> bool" where
  "spaced c l ts \<longleftrightarrow> sorted_wrt (\<lambda>a b. c \<le> b - a) ts \<and> (l \<noteq> 0 \<longrightarrow> (\<forall>t \<in> set ts. c \<le> t - l)) \<and> (\<forall>t \<in> set ts. t \<noteq> 0)"

lemma spaced_append:
  assumes "0 \<le> c" "spaced c l ts" "spaced c (last (l # ts)) us"
  shows "spaced c l (ts @ us)"
proof (cases ts rule: rev_cases)
  case (snoc vs v)
  have v: "v \<noteq> 0" using assms(2) snoc by (simp add: spaced_def)
  have u: "c \<le> u - v" if "u \<in> set us" for u using assms(3) that v snoc by (simp add: spaced_def)
  have t: "t \<le> v" if "t \<in> set ts" for t using assms(1,2) that snoc by (fastforce simp: spaced_def sorted_wrt_append)
  have "c \<le> u - t" if "t \<in> set ts" "u \<in> set us" for t u using u [OF that(2)] t [OF that(1)] by simp
  moreover have "c \<le> u - l" if "l \<noteq> 0" "u \<in> set us" for u
  proof -
    have "c \<le> v - l" using assms(2) snoc that(1) by (simp add: spaced_def)
    then show ?thesis using u [OF that(2)] assms(1) by simp
  qed
  ultimately show ?thesis using assms(2,3) by (auto simp: spaced_def sorted_wrt_append)
qed (use assms in simp)

definition fire_times :: "string \<Rightarrow> AlertEvent list \<Rightarrow> gotime list" where
  "fire_times r evs = map av_CreatedAt (filter (\<lambda>ev. av_RuleID ev = r) evs)"

text \<open>The rules are stored under their names, and one of them has a cooldown and a last firing.\<close>

definition cool :: "string \<Rightarrow> duration \<Rightarrow> gotime \<Rightarrow> AlertEngine \<Rightarrow> bool" where
  "cool r c l e \<longleftrightarrow> (\<forall>k rule. fmlookup (ae_rules e) k = Some rule \<longrightarrow> ar_ID rule = k)
     \<and> (\<exists>rule. fmlookup (ae_rules e) r = Some rule \<and> ar_Cooldown rule = c \<and> ar_LastFired rule = l)"

lemma cool_fire:
  assumes c: "cool r c l e" "c \<le> max_duration" "0 \<le> c" and k: "fmlookup (ae_rules e) k = Some rule"
    and f: "alert_fires now sample rule" "fire now sample rule e = (ev, e1)" and now: "now \<noteq> 0"
  shows "spaced c l (fire_times r [ev])
    \<and> cool r c (last (l # fire_times r [ev])) (e1\<lparr>ae_rules := fmupd k (rule\<lparr>ar_LastFired := now\<rparr>) (ae_rules e1)\<rparr>)"
proof -
  have id: "ar_ID rule = k" using c k by (simp add: cool_def)
  have ev: "av_RuleID ev = k" "av_CreatedAt ev = now" "ae_rules e1 = ae_rules e"
    using f(2) id by (auto simp: fire_def Let_def)
  have "c \<le> now - l" if "k = r" "l \<noteq> 0"
  proof -
    have "ar_Cooldown rule = c" "ar_LastFired rule = l" using c(1) k that(1) by (auto simp: cool_def)
    then have "c \<le> time_sub now l" using f(1) that(2) by (auto simp: alert_fires_def is_zero_time_def split: if_splits)
    then show ?thesis using c(2,3) by (auto simp: time_sub_def split: if_splits)
  qed
  then show ?thesis using c(1) k ev id now by (auto simp: spaced_def fire_times_def cool_def)
qed

lemma cool_sample:
  assumes "0 \<le> c" "c \<le> max_duration" "now \<noteq> 0" "cool r c l e" "eval_sample now sample ks e = (fired, e')"
  shows "spaced c l (fire_times r fired) \<and> cool r c (last (l # fire_times r fired)) e'"
  using assms
proof (induction now sample ks e arbitrary: l fired e' rule: eval_sample.induct)
  case (1 now sample e)
  then show ?case by (auto simp: spaced_def fire_times_def)
next
  case (2 now sample k ks e)
  show ?case
  proof (cases "\<exists>rule. fmlookup (ae_rules e) k = Some rule \<and> alert_fires now sample rule")
    case False
    then consider "fmlookup (ae_rules e) k = None"
      | rule where "fmlookup (ae_rules e) k = Some rule" "\<not> alert_fires now sample rule" by auto
    then show ?thesis
    proof cases
      case none: 1
      then show ?thesis using 2(1) [OF none 2(4-7), of fired e'] 2(8) by simp
    next
      case skip: (2 rule)
      then show ?thesis using 2(2) [OF skip 2(4-7), of fired e'] 2(8) by simp
    qed
  next
    case True
    then obtain rule where r: "fmlookup (ae_rules e) k = Some rule" "alert_fires now sample rule" by auto
    obtain ev e1 where f: "fire now sample rule e = (ev, e1)" by (cases "fire now sample rule e")
    let ?e2 = "e1\<lparr>ae_rules := fmupd k (rule\<lparr>ar_LastFired := now\<rparr>) (ae_rules e1)\<rparr>"
    obtain fs where fs: "eval_sample now sample ks ?e2 = (fs, e')" "fired = ev # fs"
      using 2(8) r f by (auto simp: Let_def split: prod.splits)
    note one = cool_fire [OF 2(7,5,4) r f 2(6)]
    have "spaced c (last (l # fire_times r [ev])) (fire_times r fs)
        \<and> cool r c (last (last (l # fire_times r [ev]) # fire_times r fs)) e'"
      by (rule 2(3) [of rule, OF r(1) _ f [symmetric] refl 2(4,5,6) _ fs(1)]) (use r(2) one in auto)
    then show ?thesis
      using one spaced_append [OF 2(4), of l "fire_times r [ev]" "fire_times r fs"] fs(2)
      by (auto simp: fire_times_def split: if_splits)
  qed
qed

lemma cool_samples:
  assumes "0 \<le> c" "c \<le> max_duration" "now \<noteq> 0" "cool r c l e" "eval_samples now sks e = (fired, e')"
  shows "spaced c l (fire_times r fired) \<and> cool r c (last (l # fire_times r fired)) e'"
  using assms
proof (induction now sks e arbitrary: l fired e' rule: eval_samples.induct)
  case (1 now e)
  then show ?case by (auto simp: spaced_def fire_times_def)
next
  case (2 now sample ks sks e)
  obtain f1 e1 where 1: "eval_sample now sample ks e = (f1, e1)" by (cases "eval_sample now sample ks e")
  obtain f2 where f2: "eval_samples now sks e1 = (f2, e')" "fired = f1 @ f2"
    using 2(6) 1 by (auto split: prod.splits)
  note one = cool_sample [OF 2(2-5) 1]
  have "spaced c (last (l # fire_times r f1)) (fire_times r f2) \<and> cool r c (last (last (l # fire_times r f1) # fire_times r f2)) e'"
    by (rule 2(1) [OF 1 [symmetric] 2(2-4) _ f2(1)]) (use one in simp)
  then show ?case
    using one spaced_append [OF 2(2), of l "fire_times r f1" "fire_times r f2"] f2(2)
    by (auto simp: fire_times_def last_append)
qed

text \<open>Operations that do not edit the rule, at times that are not zero.\<close>

definition cool_op :: "string \<Rightarrow> alert_op \<Rightarrow> bool" where
  "cool_op r op =
     (case op of
        LAdd now rule \<Rightarrow> ar_ID rule \<noteq> r | LRemove i \<Rightarrow> i \<noteq> r | LUpdate rule \<Rightarrow> ar_ID rule \<noteq> r
      | LEval now sks \<Rightarrow> now \<noteq> 0 | LAck now i b \<Rightarrow> True)"

lemma cool_apply:
  assumes "0 \<le> c" "c \<le> max_duration" "cool r c l e" "cool_op r op"
  shows "spaced c l (fire_times r (alert_fired op e)) \<and> cool r c (last (l # fire_times r (alert_fired op e))) (alert_apply op e)"
proof (cases op)
  case (LEval now sks)
  then show ?thesis
    using cool_samples [OF assms(1,2) _ assms(3), of now sks] assms(4)
    by (auto simp: cool_op_def alert_fired_def alert_apply_def ae_Evaluate_def split: prod.split)
qed (use assms in \<open>auto simp: cool_op_def alert_fired_def alert_apply_def fire_times_def spaced_def cool_def
      ae_AddRule_def ae_RemoveRule_def ae_UpdateRule_def AckEvent_def split: option.split\<close>)

lemma cool_run:
  assumes "0 \<le> c" "c \<le> max_duration" "cool r c l e" "\<forall>op \<in> set ops. cool_op r op" "alert_run ops e = (fired, e')"
  shows "spaced c l (fire_times r fired)"
  using assms
proof (induction ops arbitrary: e l fired)
  case Nil
  then show ?case by (auto simp: spaced_def fire_times_def)
next
  case (Cons op ops)
  obtain fs where fs: "alert_run ops (alert_apply op e) = (fs, e')" "fired = alert_fired op e @ fs"
    using Cons.prems(5) by (auto split: prod.splits)
  note one = cool_apply [OF Cons.prems(1-3), of op]
  have "spaced c (last (l # fire_times r (alert_fired op e))) (fire_times r fs)"
    by (rule Cons.IH [OF Cons.prems(1,2) _ _ fs(1)]) (use one Cons.prems(4) in auto)
  then show ?case
    using one spaced_append [OF Cons.prems(1), of l "fire_times r (alert_fired op e)" "fire_times r fs"] fs(2) Cons.prems(4)
    by (auto simp: fire_times_def)
qed

definition keyed :: "AlertEngine \<Rightarrow> bool" where
  "keyed e \<longleftrightarrow> (\<forall>k rule. fmlookup (ae_rules e) k = Some rule \<longrightarrow> ar_ID rule = k)"

lemma keyed_sample: "keyed e \<Longrightarrow> eval_sample now sample ks e = (fired, e') \<Longrightarrow> keyed e'"
proof (induction now sample ks e arbitrary: fired e' rule: eval_sample.induct)
  case (2 now sample k ks e)
  show ?case
  proof (cases "\<exists>rule. fmlookup (ae_rules e) k = Some rule \<and> alert_fires now sample rule")
    case False
    then show ?thesis using 2 by (auto split: option.splits)
  next
    case True
    then obtain rule where r: "fmlookup (ae_rules e) k = Some rule" "alert_fires now sample rule" by auto
    obtain ev e1 where f: "fire now sample rule e = (ev, e1)" by (cases "fire now sample rule e")
    let ?e2 = "e1\<lparr>ae_rules := fmupd k (rule\<lparr>ar_LastFired := now\<rparr>) (ae_rules e1)\<rparr>"
    obtain fs where fs: "eval_sample now sample ks ?e2 = (fs, e')"
      using 2(5) r f by (auto simp: Let_def split: prod.splits)
    have "keyed ?e2" using 2(4) r f by (auto simp: keyed_def fire_def Let_def)
    then show ?thesis using 2(3) [of rule, OF r(1) _ f [symmetric] refl _ fs] r(2) by simp
  qed
qed simp

lemma keyed_samples: "keyed e \<Longrightarrow> eval_samples now sks e = (fired, e') \<Longrightarrow> keyed e'"
proof (induction now sks e arbitrary: fired e' rule: eval_samples.induct)
  case (2 now sample ks sks e)
  obtain f1 e1 where 1: "eval_sample now sample ks e = (f1, e1)" by (cases "eval_sample now sample ks e")
  obtain f2 where f2: "eval_samples now sks e1 = (f2, e')" using 2(3) 1 by (auto split: prod.splits)
  show ?case by (rule 2(1) [OF 1 [symmetric] keyed_sample [OF 2(2) 1] f2])
qed simp

lemma keyed_run: "keyed e \<Longrightarrow> keyed (snd (alert_run ops e))"
proof (induction ops arbitrary: e)
  case (Cons op ops)
  have "keyed (alert_apply op e)"
  proof (cases op)
    case (LEval now sks)
    then show ?thesis using keyed_samples [OF Cons.prems, of now sks]
      by (auto simp: alert_apply_def ae_Evaluate_def split: prod.split)
  qed (use Cons.prems in \<open>auto simp: alert_apply_def keyed_def ae_AddRule_def ae_RemoveRule_def ae_UpdateRule_def
      AckEvent_def split: option.split\<close>)
  then show ?case using Cons.IH by (simp add: case_prod_unfold)
qed simp

text \<open>
  Cooldowns hold. From any reachable engine on, as long as a rule is not added, updated or removed,
  any two of its alerts are at least its cooldown apart, and all of them at least the cooldown after its
  last firing before.
\<close>

theorem alert_cooldown:
  assumes "alert_run pre NewAlertEngine = (old, e)" and "fmlookup (ae_rules e) r = Some rule"
    and "0 \<le> ar_Cooldown rule" and "ar_Cooldown rule \<le> max_duration"
    and "\<forall>op \<in> set ops. cool_op r op" and "alert_run ops e = (fired, e')"
  shows "sorted_wrt (\<lambda>a b. ar_Cooldown rule \<le> b - a) (fire_times r fired)
    \<and> (ar_LastFired rule \<noteq> 0 \<longrightarrow> (\<forall>t \<in> set (fire_times r fired). ar_Cooldown rule \<le> t - ar_LastFired rule))"
proof -
  have "keyed e"
    using keyed_run [of NewAlertEngine pre] assms(1) by (simp add: keyed_def NewAlertEngine_def)
  then have "cool r (ar_Cooldown rule) (ar_LastFired rule) e" using assms(2) by (simp add: cool_def keyed_def)
  from cool_run [OF assms(3,4) this assms(5,6)] show ?thesis by (simp add: spaced_def)
qed

theorem alert_cooldown_witness:
  "fire_times ''r'' (fst (alert_run ex_evals ex_engine)) = [10, 60]
    \<and> sorted_wrt (\<lambda>a b. 50 \<le> b - a) (fire_times ''r'' (fst (alert_run ex_evals ex_engine)))"
proof -
  let ?f = "fst (alert_run ex_evals ex_engine)"
  have l: "fmlookup (ae_rules ex_engine) ''r'' = Some ((ex_rule ''r'')\<lparr>ar_CreatedAt := 1\<rparr>)" by (simp add: alert_eval)
  have op: "\<forall>op \<in> set ex_evals. cool_op ''r'' op" by (simp add: cool_op_def)
  have t: "fire_times ''r'' ?f = [10, 60]" by (simp add: alert_eval fire_times_def)
  have c: "ar_Cooldown ((ex_rule ''r'')\<lparr>ar_CreatedAt := 1\<rparr>) = 50" by (simp add: ex_rule_def)
  show ?thesis
    using alert_cooldown [OF prod.collapse [symmetric] l _ _ op prod.collapse [symmetric], unfolded c] t by simp
qed

end
