(* ===== verification/Dashboard_Server.thy ===== *)
theory Dashboard_Server
  imports Dashboard_Auth Dashboard_Alerts
begin

text \<open>
  The dashboard's handlers (\<open>server/internal/dashboard/server.go\<close>) and its stores: the tables in memory
  and, when one is configured, the database (\<open>store_sqlite.go\<close>), whose statements are operations on
  tables by primary key (the database itself does not fail here). A handler takes the decoded body
  (\<open>None\<close> when it does not decode), the values of its path and the order of its ranges over maps, and
  returns the response with the server after. The handlers that pass a call on to the relay's admin API
  are not modelled here.
\<close>

section \<open>Data\<close>

record DashNode =
  dn_NodeID :: string
  dn_Region :: string
  dn_NATType :: string
  dn_Online :: bool
  dn_ConnectedAt :: gotime
  dn_LastSeen :: gotime
  dn_RxBytes :: int
  dn_TxBytes :: int

record TrafficStats =
  ts_NodeID :: string
  ts_RxBytes :: int
  ts_TxBytes :: int
  ts_RxBandwidth :: rat
  ts_TxBandwidth :: rat
  ts_Connections :: int
  ts_Timestamp :: gotime

record ACLRuleView =
  av_ruleID :: string
  av_Source :: string
  av_Target :: string
  av_Action :: string
  av_Protocol :: string
  av_Priority :: int
  av_Enabled :: bool
  av_Created :: gotime

record Alert =
  lt_ID :: string
  lt_Level :: string
  lt_Message :: string
  lt_NodeID :: string
  lt_CreatedAt :: gotime
  lt_Acked :: bool

record DataStore =
  st_nodes :: "(string, DashNode) fmap"
  st_stats :: "(string, TrafficStats) fmap"
  st_acls :: "(string, ACLRuleView) fmap"
  st_alerts :: "(string, Alert) fmap"

definition NewDataStore :: DataStore where
  "NewDataStore = \<lparr>st_nodes = fmempty, st_stats = fmempty, st_acls = fmempty, st_alerts = fmempty\<rparr>"

definition ds_AddNode :: "DashNode \<Rightarrow> DataStore \<Rightarrow> DataStore" where
  "ds_AddNode n d = d\<lparr>st_nodes := fmupd (dn_NodeID n) n (st_nodes d)\<rparr>"

definition ds_AddStats :: "TrafficStats \<Rightarrow> DataStore \<Rightarrow> DataStore" where
  "ds_AddStats s d = d\<lparr>st_stats := fmupd (ts_NodeID s) s (st_stats d)\<rparr>"

definition ds_AddAlert :: "Alert \<Rightarrow> DataStore \<Rightarrow> DataStore" where
  "ds_AddAlert a d = d\<lparr>st_alerts := fmupd (lt_ID a) a (st_alerts d)\<rparr>"

section \<open>The database\<close>

record DashDB =
  db_nodes :: "(string, DashNode) fmap"
  db_acls :: "(string, ACLRuleView) fmap"
  db_alerts :: "(string, Alert) fmap"
  db_users :: "(string, User) fmap"

definition NewDashDB :: DashDB where
  "NewDashDB = \<lparr>db_nodes = fmempty, db_acls = fmempty, db_alerts = fmempty, db_users = fmempty\<rparr>"

definition db_SaveNode :: "DashNode \<Rightarrow> DashDB \<Rightarrow> DashDB" where
  "db_SaveNode n d = d\<lparr>db_nodes := fmupd (dn_NodeID n) n (db_nodes d)\<rparr>"

definition db_GetNode :: "string \<Rightarrow> DashDB \<Rightarrow> DashNode option" where
  "db_GetNode i d = fmlookup (db_nodes d) i"

definition db_ListNodes :: "string list \<Rightarrow> DashDB \<Rightarrow> DashNode list" where
  "db_ListNodes ks d = sort_slice (\<lambda>m n. dn_ConnectedAt m < dn_ConnectedAt n) (range_vals (db_nodes d) ks)"

definition db_DeleteNode :: "string \<Rightarrow> DashDB \<Rightarrow> DashDB" where
  "db_DeleteNode i d = d\<lparr>db_nodes := fmdrop i (db_nodes d)\<rparr>"

text \<open>An update of a rule or an alert keeps the time of its first insertion.\<close>

definition db_SaveACL :: "ACLRuleView \<Rightarrow> DashDB \<Rightarrow> DashDB" where
  "db_SaveACL r d =
     d\<lparr>db_acls := fmupd (av_ruleID r)
        (case fmlookup (db_acls d) (av_ruleID r) of None \<Rightarrow> r | Some old \<Rightarrow> r\<lparr>av_Created := av_Created old\<rparr>) (db_acls d)\<rparr>"

definition db_GetACL :: "string \<Rightarrow> DashDB \<Rightarrow> ACLRuleView option" where
  "db_GetACL i d = fmlookup (db_acls d) i"

definition db_ListACLs :: "string list \<Rightarrow> DashDB \<Rightarrow> ACLRuleView list" where
  "db_ListACLs ks d = sort_slice (\<lambda>a b. av_Priority a < av_Priority b) (range_vals (db_acls d) ks)"

definition db_DeleteACL :: "string \<Rightarrow> DashDB \<Rightarrow> DashDB" where
  "db_DeleteACL i d = d\<lparr>db_acls := fmdrop i (db_acls d)\<rparr>"

definition db_SaveAlert :: "Alert \<Rightarrow> DashDB \<Rightarrow> DashDB" where
  "db_SaveAlert a d =
     d\<lparr>db_alerts := fmupd (lt_ID a)
        (case fmlookup (db_alerts d) (lt_ID a) of None \<Rightarrow> a | Some old \<Rightarrow> a\<lparr>lt_CreatedAt := lt_CreatedAt old\<rparr>) (db_alerts d)\<rparr>"

definition db_ListAlerts :: "string list \<Rightarrow> DashDB \<Rightarrow> Alert list" where
  "db_ListAlerts ks d = sort_slice (\<lambda>a b. lt_CreatedAt b < lt_CreatedAt a) (range_vals (db_alerts d) ks)"

definition db_AckAlert :: "string \<Rightarrow> DashDB \<Rightarrow> bool \<times> DashDB" where
  "db_AckAlert i d =
     (case fmlookup (db_alerts d) i of
        None \<Rightarrow> (False, d)
      | Some a \<Rightarrow> (True, d\<lparr>db_alerts := fmupd i (a\<lparr>lt_Acked := True\<rparr>) (db_alerts d)\<rparr>))"

definition db_SaveUser :: "User \<Rightarrow> DashDB \<Rightarrow> DashDB" where
  "db_SaveUser u d = d\<lparr>db_users := fmupd (us_Username u) u (db_users d)\<rparr>"

definition db_ListUsers :: "string list \<Rightarrow> DashDB \<Rightarrow> User list" where
  "db_ListUsers ks d = sort_slice (\<lambda>a b. us_Username a < us_Username b) (range_vals (db_users d) ks)"

definition db_DeleteUser :: "string \<Rightarrow> DashDB \<Rightarrow> DashDB" where
  "db_DeleteUser i d = d\<lparr>db_users := fmdrop i (db_users d)\<rparr>"

section \<open>The server\<close>

record DashConfig =
  dc_Auth :: AuthConfig
  dc_TLSCertFile :: string
  dc_TLSKeyFile :: string
  dc_StaticDir :: string

record DashServer =
  ds_config :: DashConfig
  ds_auth :: AuthManager
  ds_store :: DataStore
  ds_dbStore :: "DashDB option"
  ds_alertEngine :: AlertEngine
  ds_audit :: "(string \<times> string \<times> string \<times> string) list"
  ds_hasUsers :: bool

definition syncAuthUsers :: "string list \<Rightarrow> string list \<Rightarrow> DashDB \<Rightarrow> DashServer \<Rightarrow> DashServer" where
  "syncAuthUsers dks uks db s =
     (let storedUsers = db_ListUsers dks db in
      if length storedUsers > 0 then s\<lparr>ds_hasUsers := True, ds_auth := ReplaceUsers storedUsers (ds_auth s)\<rparr>
      else s\<lparr>ds_dbStore := Some (fold db_SaveUser (mg_ListUsers uks (ds_auth s)) db)\<rparr>)"

text \<open>A server on a configuration and, perhaps, a database; \<open>None\<close> when the constructor panics.\<close>

definition NewDashServer ::
    "crypto \<Rightarrow> string \<Rightarrow> string list \<Rightarrow> string list \<Rightarrow> DashConfig \<Rightarrow> DashDB option \<Rightarrow> DashServer option" where
  "NewDashServer cx salt dks uks cfg store =
     (case NewAuthManager cx salt (dc_Auth cfg) of
        None \<Rightarrow> None
      | Some a \<Rightarrow>
          let s = \<lparr>ds_config = cfg, ds_auth = a, ds_store = NewDataStore, ds_dbStore = store,
                   ds_alertEngine = NewAlertEngine, ds_audit = [], ds_hasUsers = False\<rparr>
          in Some (case store of None \<Rightarrow> s | Some db \<Rightarrow> syncAuthUsers dks uks db s))"

datatype dash_config_error = SecretKeyRequired | AdminPasswordEmpty | AdminPasswordInsecure

definition validateRuntimeConfig :: "DashServer \<Rightarrow> dash_config_error option" where
  "validateRuntimeConfig s =
     (let c = dc_Auth (ds_config s) in
      if au_SecretKey c = [] then Some SecretKeyRequired
      else if au_DefaultAdmin c \<noteq> [] \<and> au_DefaultPass c = [] \<and> \<not> ds_hasUsers s then Some AdminPasswordEmpty
      else if au_DefaultPass c = ''admin'' then Some AdminPasswordInsecure
      else None)"

datatype dash_data =
    DNone
  | DNodes "DashNode list" | DNode DashNode
  | DStats "TrafficStats list" | DStat TrafficStats
  | DACLs "ACLRuleView list" | DACL ACLRuleView
  | DEvents "AlertEvent list" | DAlerts "Alert list" | DAlert Alert
  | DRules "AlertRule list" | DRule AlertRule
  | DIngested nat "AlertEvent list"
  | DUsers "User list" | DUser User | DLogin LoginResponse
  | DText string string

record response =
  rs_status :: nat
  rs_success :: bool
  rs_data :: dash_data
  rs_error :: string

definition writeSuccess :: "dash_data \<Rightarrow> response" where
  "writeSuccess d = \<lparr>rs_status = 200, rs_success = True, rs_data = d, rs_error = []\<rparr>"

definition writeCreated :: "dash_data \<Rightarrow> response" where
  "writeCreated d = \<lparr>rs_status = 201, rs_success = True, rs_data = d, rs_error = []\<rparr>"

definition writeError :: "nat \<Rightarrow> string \<Rightarrow> response" where
  "writeError st msg = \<lparr>rs_status = st, rs_success = False, rs_data = DNone, rs_error = msg\<rparr>"

definition not_found :: "string \<Rightarrow> string \<Rightarrow> response" where
  "not_found what i = writeError 404 (what @ '' '' @ fmt_quote i @ '' not found'')"

subsection \<open>Login, nodes and statistics\<close>

definition handleLogin :: "crypto \<Rightarrow> gotime \<Rightarrow> gotime \<Rightarrow> (string \<times> string) option \<Rightarrow> DashServer \<Rightarrow> response \<times> DashServer" where
  "handleLogin cx t1 t2 body s =
     (case body of
        None \<Rightarrow> (writeError 400 ''invalid request body'', s)
      | Some (username, password) \<Rightarrow>
          (case Login cx t1 t2 username password (ds_auth s) of
             (Inl e, a) \<Rightarrow> (writeError 401 ''invalid credentials'', s\<lparr>ds_auth := a\<rparr>)
           | (Inr resp, a) \<Rightarrow> (writeSuccess (DLogin resp), s\<lparr>ds_auth := a\<rparr>)))"

definition dash_ListNodes :: "string list \<Rightarrow> DashServer \<Rightarrow> response" where
  "dash_ListNodes ks s =
     (case ds_dbStore s of
        Some db \<Rightarrow> writeSuccess (DNodes (db_ListNodes ks db))
      | None \<Rightarrow> writeSuccess (DNodes (range_vals (st_nodes (ds_store s)) ks)))"

definition dash_GetNode :: "string \<Rightarrow> DashServer \<Rightarrow> response" where
  "dash_GetNode i s =
     (case (case ds_dbStore s of Some db \<Rightarrow> db_GetNode i db | None \<Rightarrow> fmlookup (st_nodes (ds_store s)) i) of
        None \<Rightarrow> not_found ''node'' i
      | Some n \<Rightarrow> writeSuccess (DNode n))"

definition dash_DeleteNode :: "string \<Rightarrow> DashServer \<Rightarrow> response \<times> DashServer" where
  "dash_DeleteNode i s =
     (case ds_dbStore s of
        Some db \<Rightarrow>
          if db_GetNode i db = None then (not_found ''node'' i, s)
          else (writeSuccess (DText ''deleted'' i), s\<lparr>ds_dbStore := Some (db_DeleteNode i db)\<rparr>)
      | None \<Rightarrow>
          let st = ds_store s in
          if fmlookup (st_nodes st) i = None then (not_found ''node'' i, s)
          else (writeSuccess (DText ''deleted'' i), s\<lparr>ds_store := st\<lparr>st_nodes := fmdrop i (st_nodes st)\<rparr>\<rparr>))"

definition dash_GetStats :: "string list \<Rightarrow> DashServer \<Rightarrow> response" where
  "dash_GetStats ks s = writeSuccess (DStats (range_vals (st_stats (ds_store s)) ks))"

definition dash_GetNodeStats :: "string \<Rightarrow> DashServer \<Rightarrow> response" where
  "dash_GetNodeStats i s =
     (case fmlookup (st_stats (ds_store s)) i of
        None \<Rightarrow> writeError 404 (''stats for '' @ fmt_quote i @ '' not found'')
      | Some st \<Rightarrow> writeSuccess (DStat st))"

subsection \<open>Access rules\<close>

definition dash_ListACL :: "string list \<Rightarrow> DashServer \<Rightarrow> response" where
  "dash_ListACL ks s =
     (case ds_dbStore s of
        Some db \<Rightarrow> writeSuccess (DACLs (db_ListACLs ks db))
      | None \<Rightarrow> writeSuccess (DACLs (range_vals (st_acls (ds_store s)) ks)))"

definition dash_CreateACL :: "gotime \<Rightarrow> ACLRuleView option \<Rightarrow> DashServer \<Rightarrow> response \<times> DashServer" where
  "dash_CreateACL now body s =
     (case body of
        None \<Rightarrow> (writeError 400 ''invalid request body'', s)
      | Some rule0 \<Rightarrow>
          let rule = rule0\<lparr>av_Created := now\<rparr> in
          (writeCreated (DACL rule),
           (case ds_dbStore s of
              Some db \<Rightarrow> s\<lparr>ds_dbStore := Some (db_SaveACL rule db)\<rparr>
            | None \<Rightarrow> s\<lparr>ds_store := (ds_store s)\<lparr>st_acls := fmupd (av_ruleID rule) rule (st_acls (ds_store s))\<rparr>\<rparr>)))"

definition dash_DeleteACL :: "string \<Rightarrow> DashServer \<Rightarrow> response \<times> DashServer" where
  "dash_DeleteACL i s =
     (case ds_dbStore s of
        Some db \<Rightarrow>
          if db_GetACL i db = None then (not_found ''acl rule'' i, s)
          else (writeSuccess (DText ''deleted'' i), s\<lparr>ds_dbStore := Some (db_DeleteACL i db)\<rparr>)
      | None \<Rightarrow>
          let st = ds_store s in
          if fmlookup (st_acls st) i = None then (not_found ''acl rule'' i, s)
          else (writeSuccess (DText ''deleted'' i), s\<lparr>ds_store := st\<lparr>st_acls := fmdrop i (st_acls st)\<rparr>\<rparr>))"

subsection \<open>Alerts\<close>

definition dash_ListAlerts :: "string list \<Rightarrow> string list \<Rightarrow> DashServer \<Rightarrow> response" where
  "dash_ListAlerts eks ks s =
     (let engineEvents = ListEvents eks (ds_alertEngine s) in
      if length engineEvents > 0 then writeSuccess (DEvents engineEvents)
      else (case ds_dbStore s of
              Some db \<Rightarrow> writeSuccess (DAlerts (db_ListAlerts ks db))
            | None \<Rightarrow> writeSuccess (DAlerts (range_vals (st_alerts (ds_store s)) ks))))"

definition dash_AckAlert :: "gotime \<Rightarrow> string \<Rightarrow> string \<Rightarrow> string \<Rightarrow> DashServer \<Rightarrow> response \<times> DashServer" where
  "dash_AckAlert now i body_by userID s =
     (let by = (if body_by = [] then userID else body_by) in
      case AckEvent now i by (ds_alertEngine s) of
        (None, e) \<Rightarrow> (writeSuccess (DText ''acked'' i), s\<lparr>ds_alertEngine := e\<rparr>)
      | (Some _, e) \<Rightarrow>
          (case ds_dbStore s of
             Some db \<Rightarrow>
               (case db_AckAlert i db of
                  (False, db) \<Rightarrow> (not_found ''alert'' i, s)
                | (True, db) \<Rightarrow> (writeSuccess (DText ''acked'' i), s\<lparr>ds_dbStore := Some db\<rparr>))
           | None \<Rightarrow>
               (case fmlookup (st_alerts (ds_store s)) i of
                  None \<Rightarrow> (not_found ''alert'' i, s)
                | Some a \<Rightarrow>
                    let a = a\<lparr>lt_Acked := True\<rparr> in
                    (writeSuccess (DAlert a),
                     s\<lparr>ds_store := (ds_store s)\<lparr>st_alerts := fmupd i a (st_alerts (ds_store s))\<rparr>\<rparr>))))"

definition dash_ListUnackedAlerts :: "string list \<Rightarrow> DashServer \<Rightarrow> response" where
  "dash_ListUnackedAlerts ks s = writeSuccess (DEvents (ListUnackedEvents ks (ds_alertEngine s)))"

definition dash_ListAlertRules :: "string list \<Rightarrow> DashServer \<Rightarrow> response" where
  "dash_ListAlertRules ks s = writeSuccess (DRules (ae_ListRules ks (ds_alertEngine s)))"

definition dash_CreateAlertRule :: "gotime \<Rightarrow> AlertRule option \<Rightarrow> DashServer \<Rightarrow> response \<times> DashServer" where
  "dash_CreateAlertRule now body s =
     (case body of
        None \<Rightarrow> (writeError 400 ''invalid request body'', s)
      | Some rule \<Rightarrow>
          (case ae_AddRule now rule (ds_alertEngine s) of
             (Some e, en) \<Rightarrow> (writeError 400 ''rule ID is required'', s)
           | (None, en) \<Rightarrow> (writeCreated (DRule (rule\<lparr>ar_CreatedAt := now\<rparr>)), s\<lparr>ds_alertEngine := en\<rparr>)))"

definition dash_UpdateAlertRule :: "string \<Rightarrow> AlertRule option \<Rightarrow> DashServer \<Rightarrow> response \<times> DashServer" where
  "dash_UpdateAlertRule i body s =
     (case body of
        None \<Rightarrow> (writeError 400 ''invalid request body'', s)
      | Some rule0 \<Rightarrow>
          let rule = rule0\<lparr>ar_ID := i\<rparr> in
          (case ae_UpdateRule rule (ds_alertEngine s) of
             (Some e, en) \<Rightarrow> (not_found ''rule'' i, s)
           | (None, en) \<Rightarrow> (writeSuccess (DRule rule), s\<lparr>ds_alertEngine := en\<rparr>)))"

definition dash_DeleteAlertRule :: "string \<Rightarrow> DashServer \<Rightarrow> response \<times> DashServer" where
  "dash_DeleteAlertRule i s =
     (case ae_RemoveRule i (ds_alertEngine s) of
        (Some e, en) \<Rightarrow> (not_found ''rule'' i, s)
      | (None, en) \<Rightarrow> (writeSuccess (DText ''deleted'' i), s\<lparr>ds_alertEngine := en\<rparr>))"

definition dash_IngestMetrics :: "gotime \<Rightarrow> (MetricSample \<times> string list) list option \<Rightarrow> DashServer \<Rightarrow> response \<times> DashServer" where
  "dash_IngestMetrics now body s =
     (case body of
        None \<Rightarrow> (writeError 400 ''invalid request body'', s)
      | Some sks \<Rightarrow>
          (case ae_Evaluate now sks (ds_alertEngine s) of
             (fired, sent, en) \<Rightarrow> (writeSuccess (DIngested (length sks) fired), s\<lparr>ds_alertEngine := en\<rparr>)))"

subsection \<open>Users\<close>

definition dash_ListUsers :: "string list \<Rightarrow> DashServer \<Rightarrow> response" where
  "dash_ListUsers ks s =
     (case ds_dbStore s of
        Some db \<Rightarrow> writeSuccess (DUsers (db_ListUsers ks db))
      | None \<Rightarrow> writeSuccess (DUsers (mg_ListUsers ks (ds_auth s))))"

record CreateUserBody =
  cb_Username :: string
  cb_Password :: string
  cb_Role :: string
  cb_Email :: string

definition auth_error_text :: "auth_error \<Rightarrow> string" where
  "auth_error_text e =
     (case e of
        UserExists u \<Rightarrow> ''user '' @ fmt_quote u @ '' already exists''
      | EmptyPassword \<Rightarrow> ''password must not be empty''
      | HashFailed \<Rightarrow> ''hash password''
      | _ \<Rightarrow> [])"

definition dash_CreateUser ::
    "crypto \<Rightarrow> string \<Rightarrow> string \<Rightarrow> CreateUserBody option \<Rightarrow> DashServer \<Rightarrow> response \<times> DashServer" where
  "dash_CreateUser cx salt userID body s =
     (case body of
        None \<Rightarrow> (writeError 400 ''invalid request body'', s)
      | Some b \<Rightarrow>
          if cb_Username b = [] \<or> cb_Password b = [] then (writeError 400 ''username and password are required'', s)
          else let role = (if cb_Role b = [] then ''viewer'' else cb_Role b);
                   user = \<lparr>us_ID = cb_Username b, us_Username = cb_Username b, us_Role = role, us_Email = cb_Email b, us_PasswordHash = []\<rparr>
               in (case AddUserWithPassword cx salt user (cb_Password b) (ds_auth s) of
                     (Some e, a) \<Rightarrow> (writeError 400 (auth_error_text e), s)
                   | (None, a) \<Rightarrow>
                       (writeCreated (DUser user),
                        s\<lparr>ds_auth := a, ds_audit := ds_audit s @ [(userID, ''create'', ''users'', cb_Username b)]\<rparr>)))"

definition dash_UpdateUserRole :: "string \<Rightarrow> string \<Rightarrow> string option \<Rightarrow> DashServer \<Rightarrow> response \<times> DashServer" where
  "dash_UpdateUserRole userID username body s =
     (case body of
        None \<Rightarrow> (writeError 400 ''invalid request body'', s)
      | Some role \<Rightarrow>
          if role = [] then (writeError 400 ''role is required'', s)
          else (writeSuccess DNone,
                s\<lparr>ds_auth := snd (UpdateUserRole username role (ds_auth s)),
                  ds_audit := ds_audit s @ [(userID, ''update'', ''users'', username)]\<rparr>))"

definition dash_DeleteUser :: "string \<Rightarrow> string \<Rightarrow> DashServer \<Rightarrow> response \<times> DashServer" where
  "dash_DeleteUser callerID username s =
     (if callerID = username then (writeError 400 ''cannot delete yourself'', s)
      else (writeSuccess DNone,
            s\<lparr>ds_auth := RemoveUser username (ds_auth s),
              ds_audit := ds_audit s @ [(callerID, ''delete'', ''users'', username)]\<rparr>))"

end
