(* ===== verification/Dashboard_Props.thy ===== *)
theory Dashboard_Props
  imports Dashboard_Server
begin

text \<open>
  Properties of the dashboard: which requests reach which handlers, what the users of every run
  look like, and what goes wrong when users are told apart by their identifiers and kept in memory.
\<close>

section \<open>Paths\<close>

lemma has_prefix_append [simp]: "has_prefix (p @ s) p"
  by (simp add: has_prefix_def)

lemma has_prefix_iff: "has_prefix s p \<longleftrightarrow> (\<exists>t. s = p @ t)"
  by (metis append_eq_conv_conj append_take_drop_id has_prefix_append has_prefix_def)

lemma split_on_single: "split_on d s = [w] \<Longrightarrow> s = w"
  by (induction s arbitrary: w) (auto split: if_splits list.splits)

lemma split_on_Cons: "split_on d s = w # v # vs \<Longrightarrow> \<exists>t. s = w @ d # t \<and> split_on d t = v # vs"
proof (induction s arbitrary: w)
  case (Cons c s)
  show ?case
  proof (cases "c = d")
    case True
    then show ?thesis using Cons.prems by auto
  next
    case False
    obtain u us where us: "split_on d s = u # us" by (meson split_on_nonempty neq_Nil_conv)
    then have "w = c # u" "us = v # vs" using Cons.prems False by auto
    then show ?thesis using Cons.IH [of u] us by auto
  qed
qed simp

lemma has_prefix_simps:
  "has_prefix s []" "\<not> has_prefix [] (c # p)" "has_prefix (x # s) (c # p) \<longleftrightarrow> x = c \<and> has_prefix s p"
  by (simp_all add: has_prefix_def)

lemma match_api_segments: "match_api ps segs \<Longrightarrow> \<exists>ss. segs = [] # ''api'' # ''v1'' # ss \<and> match_segments ps ss"
  by (induction ps segs rule: match_api.induct) auto

lemma match_api_path:
  assumes "match_api ps (split_on (CHR ''/'') path)" and "ps \<noteq> []"
  shows "\<exists>t. path = ''/api/v1/'' @ t \<and> match_segments ps (split_on (CHR ''/'') t)"
proof -
  obtain ss where s: "split_on (CHR ''/'') path = [] # ''api'' # ''v1'' # ss" "match_segments ps ss"
    using match_api_segments [OF assms(1)] by blast
  obtain v vs where ss: "ss = v # vs" using s(2) assms(2) by (cases ss; cases ps) auto
  obtain t1 where t1: "path = CHR ''/'' # t1" "split_on (CHR ''/'') t1 = ''api'' # ''v1'' # ss" using split_on_Cons [OF s(1)] by auto
  obtain t2 where t2: "t1 = ''api'' @ CHR ''/'' # t2" "split_on (CHR ''/'') t2 = ''v1'' # ss" using split_on_Cons [OF t1(2)] by blast
  obtain t3 where t3: "t2 = ''v1'' @ CHR ''/'' # t3" "split_on (CHR ''/'') t3 = ss" using split_on_Cons [of _ t2 "''v1''" v vs] t2(2) ss by blast
  show ?thesis using s t1 t2 t3 by (intro exI [of _ t3]) simp
qed

lemma match_segments_Cons:
  assumes "match_segments (p # ps) (split_on d t)" and "p \<noteq> []"
  shows "(ps = [] \<and> t = p) \<or> (ps \<noteq> [] \<and> (\<exists>u. t = p @ d # u \<and> match_segments ps (split_on d u)))"
proof -
  obtain w ws where w: "split_on d t = w # ws" by (meson split_on_nonempty neq_Nil_conv)
  then have m: "p = w" "match_segments ps ws" using assms by auto
  show ?thesis
  proof (cases ws)
    case Nil
    then have "ps = []" using m(2) by (cases ps) auto
    then show ?thesis using split_on_single [of d t w] w Nil m(1) by simp
  next
    case (Cons v vs)
    then have "ps \<noteq> []" using m(2) by auto
    then show ?thesis using split_on_Cons [of d t w v vs] w Cons m by auto
  qed
qed

section \<open>Permissions of the routes\<close>

text \<open>What a handler asks of its user; the rest are open to every user or to all.\<close>

fun route_perm :: "d_route \<Rightarrow> (string \<times> string) option" where
  "route_perm RListNodes = Some (''nodes'', ''read'')"
| "route_perm RGetNode = Some (''nodes'', ''read'')"
| "route_perm RDeleteNode = Some (''nodes'', ''delete'')"
| "route_perm RGetStats = Some (''stats'', ''read'')"
| "route_perm RGetNodeStats = Some (''stats'', ''read'')"
| "route_perm RListClients = Some (''clients'', ''read'')"
| "route_perm RDisconnectClient = Some (''clients'', ''delete'')"
| "route_perm RListEndpoints = Some (''endpoints'', ''read'')"
| "route_perm RListEndpointPolicies = Some (''endpoint-policies'', ''read'')"
| "route_perm RUpsertEndpointPolicy = Some (''endpoint-policies'', ''write'')"
| "route_perm RDeleteEndpointPolicy = Some (''endpoint-policies'', ''delete'')"
| "route_perm RListHTTPRequestLogs = Some (''http-requests'', ''read'')"
| "route_perm RListACL = Some (''acl'', ''read'')"
| "route_perm RCreateACL = Some (''acl'', ''write'')"
| "route_perm RDeleteACL = Some (''acl'', ''delete'')"
| "route_perm RAckAlert = Some (''alerts'', ''write'')"
| "route_perm RListUnackedAlerts = Some (''alerts'', ''read'')"
| "route_perm RListAlertRules = Some (''alert-rules'', ''read'')"
| "route_perm RCreateAlertRule = Some (''alert-rules'', ''write'')"
| "route_perm RUpdateAlertRule = Some (''alert-rules'', ''write'')"
| "route_perm RDeleteAlertRule = Some (''alert-rules'', ''delete'')"
| "route_perm RIngestMetrics = Some (''metrics'', ''write'')"
| "route_perm RListUsers = Some (''users'', ''read'')"
| "route_perm RCreateUser = Some (''users'', ''write'')"
| "route_perm RUpdateUserRole = Some (''users'', ''write'')"
| "route_perm RDeleteUser = Some (''users'', ''delete'')"
| "route_perm RQueryAudit = Some (''audit'', ''read'')"
| "route_perm RConfigStatus = Some (''config'', ''read'')"
| "route_perm _ = None"

text \<open>The resource a pattern's first segments decide.\<close>

definition pattern_resource :: "string list \<Rightarrow> string" where
  "pattern_resource ps = (case ps of [] \<Rightarrow> [] | [p] \<Rightarrow> route_resource p | p # _ \<Rightarrow> route_resource (p @ ''/''))"

lemma route_resource_slash:
  "p \<in> {''auth'', ''nodes'', ''stats'', ''clients'', ''endpoints'', ''endpoint-policies'', ''http-requests'', ''acl'', ''alerts'',
     ''alert-rules'', ''metrics'', ''users'', ''audit'', ''config'', ''health''} \<Longrightarrow>
   route_resource (p @ CHR ''/'' # u) = route_resource (p @ ''/'')"
  by (elim insertE emptyE) (simp_all add: route_resource_def has_prefix_simps)

lemma routes_first: "(m, ps, rt) \<in> set registerRoutes \<Longrightarrow>
   ps \<noteq> [] \<and> hd ps \<in> {''auth'', ''nodes'', ''stats'', ''clients'', ''endpoints'', ''endpoint-policies'', ''http-requests'', ''acl'', ''alerts'',
     ''alert-rules'', ''metrics'', ''users'', ''audit'', ''config'', ''health''}"
  by (auto simp: registerRoutes_def)

lemma routes_perm:
  "\<forall>(m, ps, rt) \<in> set registerRoutes. case route_perm rt of None \<Rightarrow> True | Some (res, act) \<Rightarrow>
     pattern_resource ps = res \<and> res \<noteq> [] \<and> method_action m = act \<and> ps \<noteq> [''auth'', ''login''] \<and> ps \<noteq> [''health'']"
  by code_simp

lemma matched_permission:
  assumes r: "(m, ps, rt) \<in> set registerRoutes" and m: "match_api ps (split_on (CHR ''/'') path)"
    and meth: "m = meth \<or> (m = ''GET'' \<and> meth = ''HEAD'')" and p: "route_perm rt = Some (res, act)"
  shows "routePermission meth path = (res, act) \<and> res \<noteq> [] \<and> has_prefix path ''/api/''
    \<and> path \<noteq> ''/api/v1/auth/login'' \<and> path \<noteq> ''/api/v1/health''"
proof -
  note first = routes_first [OF r]
  obtain q qs where ps: "ps = q # qs" using first by (cases ps) auto
  have q: "q \<noteq> []" using first ps by auto
  obtain t where t: "path = ''/api/v1/'' @ t" "match_segments ps (split_on (CHR ''/'') t)"
    using match_api_path [OF m] first by blast
  have perm: "pattern_resource ps = res" "res \<noteq> []" "method_action m = act" "ps \<noteq> [''auth'', ''login'']" "ps \<noteq> [''health'']"
    using bspec [OF routes_perm r] p by simp_all
  have "route_resource t = pattern_resource ps"
    using match_segments_Cons [of q qs "CHR ''/''" t] t(2) q route_resource_slash [of q] first ps
    by (cases qs) (auto simp: pattern_resource_def)
  then have res: "route_resource t = res" using perm by simp
  have "method_action ''HEAD'' = method_action ''GET''" by (simp add: method_action_def)
  then have act: "method_action meth = act" using meth perm(3) by metis
  have "route_resource ''auth/login'' = []" "route_resource ''health'' = []"
    by (simp_all add: route_resource_def has_prefix_simps)
  then have "t \<noteq> ''auth/login''" "t \<noteq> ''health''" using res perm(2) by (intro notI; simp)+
  then show ?thesis using t(1) res act perm(2)
    by (simp add: routePermission_def trim_prefix_def has_prefix_simps)
qed

section \<open>Runs\<close>

datatype dash_op =
    OLogin gotime gotime "(string \<times> string) option"
  | OCreateUser string string "CreateUserBody option"
  | OUpdateUserRole string string "string option"
  | ODeleteUser string string
  | ORequest bool gotime "string list" DashRequest

definition dash_apply :: "crypto \<Rightarrow> dash_op \<Rightarrow> DashServer \<Rightarrow> DashServer" where
  "dash_apply cx op s =
     (case op of
        OLogin t1 t2 b \<Rightarrow> snd (handleLogin cx t1 t2 b s)
      | OCreateUser caller salt b \<Rightarrow> snd (dash_CreateUser cx salt caller b s)
      | OUpdateUserRole caller u b \<Rightarrow> snd (dash_UpdateUserRole caller u b s)
      | ODeleteUser caller u \<Rightarrow> snd (dash_DeleteUser caller u s)
      | ORequest static now ks r \<Rightarrow> s\<lparr>ds_auth := snd (snd (buildHandler static now ks r (ds_auth s)))\<rparr>)"

definition users_ok :: "AuthManager \<Rightarrow> bool" where
  "users_ok a \<longleftrightarrow> (\<forall>k u. fmlookup (mg_users a) k = Some u \<longrightarrow> us_Username u = k \<and> us_Role u \<noteq> [])"

lemma users_ok_tokens [simp]: "users_ok (a\<lparr>mg_tokens := t\<rparr>) = users_ok a"
  by (simp add: users_ok_def)

lemma users_ok_add: "users_ok a \<Longrightarrow> us_Role u \<noteq> [] \<Longrightarrow> users_ok (snd (AddUserWithPassword cx salt u pw a))"
  by (auto simp: AddUserWithPassword_def mg_AddUser_def users_ok_def split: option.split)

lemma ValidateToken_users: "ValidateToken now ks token a = (r, a') \<Longrightarrow> mg_users a' = mg_users a"
  by (auto simp: ValidateToken_def split: option.splits if_splits)

lemma buildHandler_users [simp]: "mg_users (snd (snd (buildHandler static now ks r a))) = mg_users a"
  by (auto simp: buildHandler_def AuthMiddleware_def Let_def split: sum.split prod.split dest: ValidateToken_users)

lemma users_ok_apply: "users_ok (ds_auth s) \<Longrightarrow> users_ok (ds_auth (dash_apply cx op s))"
proof (cases op)
  case (OCreateUser caller salt b)
  assume ok: "users_ok (ds_auth s)"
  show ?thesis
    using users_ok_add [OF ok, of _ cx salt] OCreateUser ok
    by (auto simp: dash_apply_def dash_CreateUser_def Let_def split: option.splits prod.splits) (metis User.select_convs(3) snd_conv list.distinct(1))+
next
  case (ORequest static now ks r)
  assume "users_ok (ds_auth s)"
  then show ?thesis using ORequest by (simp add: dash_apply_def users_ok_def)
qed (auto simp: dash_apply_def users_ok_def handleLogin_def Login_def Let_def dash_UpdateUserRole_def UpdateUserRole_def
      dash_DeleteUser_def RemoveUser_def split: option.splits sum.splits prod.splits if_splits)

lemma users_ok_run: "users_ok (ds_auth s) \<Longrightarrow> users_ok (ds_auth (fold (dash_apply cx) ops s))"
  by (induction ops arbitrary: s) (simp_all add: users_ok_apply)

lemma users_ok_fold:
  assumes "\<forall>u \<in> set us. us_Role u \<noteq> []" and "\<forall>k u. fmlookup m k = Some u \<longrightarrow> us_Username u = k \<and> us_Role u \<noteq> []"
  shows "\<forall>k u. fmlookup (fold (\<lambda>u m. if us_Username u = [] then m else fmupd (us_Username u) u m) us m) k = Some u
      \<longrightarrow> us_Username u = k \<and> us_Role u \<noteq> []"
  using assms
proof (induction us arbitrary: m)
  case (Cons x us)
  let ?m = "if us_Username x = [] then m else fmupd (us_Username x) x m"
  have "\<forall>k u. fmlookup ?m k = Some u \<longrightarrow> us_Username u = k \<and> us_Role u \<noteq> []"
  proof (intro allI impI)
    fix k u assume k: "fmlookup ?m k = Some u"
    show "us_Username u = k \<and> us_Role u \<noteq> []"
    proof (cases "us_Username x \<noteq> [] \<and> k = us_Username x")
      case True
      then have "u = x" using k by simp
      then show ?thesis using True Cons.prems(1) by simp
    next
      case False
      then have "fmlookup m k = Some u" using k by (auto split: if_splits)
      then show ?thesis using Cons.prems(2) by blast
    qed
  qed
  moreover have "\<forall>u \<in> set us. us_Role u \<noteq> []" using Cons.prems(1) by simp
  ultimately show ?case unfolding fold_Cons comp_apply using Cons.IH by blast
qed simp

lemma users_ok_replace: "\<forall>u \<in> set us. us_Role u \<noteq> [] \<Longrightarrow> users_ok (ReplaceUsers us a)"
proof -
  assume r: "\<forall>u \<in> set us. us_Role u \<noteq> []"
  have "mg_users (ReplaceUsers us a) = fold (\<lambda>u m. if us_Username u = [] then m else fmupd (us_Username u) u m) us fmempty"
    by (simp add: ReplaceUsers_def)
  moreover have "\<forall>k u. fmlookup (fold (\<lambda>u m. if us_Username u = [] then m else fmupd (us_Username u) u m) us fmempty) k = Some u
      \<longrightarrow> us_Username u = k \<and> us_Role u \<noteq> []"
    by (rule users_ok_fold [OF r]) simp
  ultimately show ?thesis unfolding users_ok_def by (rule ssubst)
qed

definition stored_roles :: "string list \<Rightarrow> DashDB option \<Rightarrow> bool" where
  "stored_roles dks store = (case store of None \<Rightarrow> True | Some db \<Rightarrow> list_all (\<lambda>u. us_Role u \<noteq> []) (db_ListUsers dks db))"

lemma users_ok_manager: "NewAuthManager cx salt c = Some a \<Longrightarrow> users_ok a"
proof -
  assume n: "NewAuthManager cx salt c = Some a"
  let ?c = "if au_SecretKey c = [] then c\<lparr>au_SecretKey := ''test-only-empty-secret-rejected-on-server-start''\<rparr> else c"
  let ?a = "\<lparr>mg_config = ?c, mg_users = fmempty, mg_tokens = fmempty\<rparr>"
  have e: "users_ok ?a" by (simp add: users_ok_def)
  have r: "us_Role (default_admin x) \<noteq> []" for x by (simp add: default_admin_def)
  have "a = ?a \<or> a = snd (AddUserWithPassword cx salt (default_admin (au_DefaultAdmin ?c)) (au_DefaultPass ?c) ?a)"
    using n unfolding NewAuthManager_def Let_def by (simp only: split: if_splits prod.splits option.splits) auto
  then show ?thesis using e users_ok_add [OF e r] by blast
qed

lemma users_ok_new:
  assumes n: "NewDashServer cx salt dks uks cfg store = Some s" and r: "stored_roles dks store"
  shows "users_ok (ds_auth s)"
proof -
  obtain a where a: "NewAuthManager cx salt (dc_Auth cfg) = Some a" using n by (auto simp: NewDashServer_def split: option.splits)
  have "ds_auth s = a \<or> (\<exists>db. store = Some db \<and> ds_auth s = ReplaceUsers (db_ListUsers dks db) a)"
    using n a by (cases store) (auto simp: NewDashServer_def syncAuthUsers_def Let_def split: if_splits)
  then show ?thesis using users_ok_manager [OF a] users_ok_replace r by (auto simp: stored_roles_def list_all_iff)
qed

section \<open>Access\<close>

lemma mux_handler:
  assumes "mux static r = Handler rt" and "rt \<noteq> RStaticAssets"
  shows "\<exists>m ps. (m, ps, rt) \<in> set registerRoutes \<and> (m = dr_Method r \<or> (m = ''GET'' \<and> dr_Method r = ''HEAD''))
    \<and> match_api ps (split_on (CHR ''/'') (dr_Path r))"
proof -
  let ?P = "\<lambda>(m, ps, rt :: d_route). (m = dr_Method r \<or> (m = ''GET'' \<and> dr_Method r = ''HEAD'')) \<and> match_api ps (split_on (CHR ''/'') (dr_Path r))"
  obtain m ps rt' where f: "find ?P registerRoutes = Some (m, ps, rt')"
    using assms by (cases "find ?P registerRoutes") (auto simp: mux_def Let_def split: if_splits)
  then have "rt' = rt" using assms(1) by (auto simp: mux_def Let_def split: if_splits)
  moreover have "(m, ps, rt') \<in> set registerRoutes \<and> ?P (m, ps, rt')" using f by (auto simp: find_Some_iff in_set_conv_nth)
  ultimately show ?thesis by auto
qed

text \<open>
  C16: Handlers are protected. In every run of a server whose stored users have roles, in which users log
  in and are created, changed and removed, a request that reaches a handler with a permission in the matrix
  carries a token that was issued and has not expired, for a user that exists and whose role has that
  permission; the handler sees that user's identifier, whatever the request said; and a viewer only reads.
\<close>

theorem dash_protected:
  assumes "NewDashServer cx salt dks uks cfg store = Some s0"
    and "stored_roles dks store" and "s = fold (dash_apply cx) ops s0"
    and "buildHandler static now ks r (ds_auth s) = (Handler rt, r', a')" and "route_perm rt = Some (res, act)"
  shows "\<exists>tok info u. dr_Authorization r = ''Bearer '' @ tok \<and> fmlookup (mg_tokens (ds_auth s)) tok = Some info
    \<and> now \<le> ti_ExpiresAt info \<and> fmlookup (mg_users (ds_auth s)) (us_Username u) = Some u \<and> us_ID u = ti_UserID info
    \<and> HasPermission (ParseRole (us_Role u)) res act \<and> dr_UserID r' = us_ID u
    \<and> (ParseRole (us_Role u) = RoleViewer \<longrightarrow> act = ''read'')"
proof -
  have ok: "users_ok (ds_auth s)" using users_ok_run [OF users_ok_new [OF assms(1,2)]] assms(3) by blast
  obtain r1 a1 where au: "AuthMiddleware now ks r (ds_auth s) = (Inr r1, a1)" and rb: "rbacMiddleware r1 = Inr r'"
    and co: "corsMiddleware static r' = Handler rt"
    using assms(4) by (auto simp: buildHandler_def split: prod.splits sum.splits)
  have r': "r' = r1" using rb by (auto simp: rbacMiddleware_def split: if_splits prod.splits)
  have path: "dr_Path r1 = dr_Path r" "dr_Method r1 = dr_Method r"
    using au by (auto simp: AuthMiddleware_def Let_def split: if_splits prod.splits sum.splits)
  have meth: "dr_Method r \<noteq> ''OPTIONS''" and mx: "mux static r1 = Handler rt"
    using co r' path by (auto simp: corsMiddleware_def split: if_splits)
  have static_free: "rt \<noteq> RStaticAssets" using assms(5) by auto
  obtain m ps where rt: "(m, ps, rt) \<in> set registerRoutes" "m = dr_Method r \<or> (m = ''GET'' \<and> dr_Method r = ''HEAD'')"
    "match_api ps (split_on (CHR ''/'') (dr_Path r))"
    using mux_handler [OF mx static_free] path by auto
  note perm = matched_permission [OF rt(1,3,2) assms(5)]
  have ex: "\<not> is_exempt r" "\<not> is_exempt r1" using perm meth path by (auto simp: is_exempt_def)
  let ?tok = "trim_prefix (dr_Authorization r) ''Bearer ''"
  obtain u where v: "ValidateToken now ks ?tok (ds_auth s) = (Inr u, a1)"
    and r1: "r1 = r\<lparr>dr_UserID := us_ID u, dr_UserRole := us_Role u\<rparr>" and tok: "?tok \<noteq> dr_Authorization r"
    using au ex(1) by (auto simp: AuthMiddleware_def Let_def split: if_splits prod.splits sum.splits)
  have bearer: "dr_Authorization r = ''Bearer '' @ ?tok"
    using tok by (auto simp: trim_prefix_def has_prefix_iff split: if_splits)
  obtain info where info: "fmlookup (mg_tokens (ds_auth s)) ?tok = Some info" "now \<le> ti_ExpiresAt info"
    "find (\<lambda>u. us_ID u = ti_UserID info) (range_vals (mg_users (ds_auth s)) ks) = Some u"
    using v by (auto simp: ValidateToken_def split: option.splits if_splits)
  have u: "us_ID u = ti_UserID info" "u \<in> set (range_vals (mg_users (ds_auth s)) ks)"
    using info(3) by (auto simp: find_Some_iff)
  obtain k where k: "fmlookup (mg_users (ds_auth s)) k = Some u" using u(2) by (auto simp: set_range_vals)
  then have ku: "k = us_Username u" "us_Role u \<noteq> []" using ok by (auto simp: users_ok_def)
  have has: "HasPermission (ParseRole (us_Role u)) res act"
    using rb ex(2) ku(2) perm unfolding r1 by (auto simp: rbacMiddleware_def split: if_splits)
  have "act = ''read''" if "ParseRole (us_Role u) = RoleViewer"
    using has unfolding that by (auto simp: HasPermission_def rolePermissions_def)
  then show ?thesis using bearer info k ku u has r' r1 by (intro exI [of _ ?tok] exI [of _ info] exI [of _ u]) simp
qed

definition ex_crypto :: crypto where
  "ex_crypto = \<lparr>cx_hash = (\<lambda>salt pw. Some (''h:'' @ pw)), cx_check = (\<lambda>h pw. h = ''h:'' @ pw), cx_mac = (\<lambda>k t. ''tok-'' @ take 6 t)\<rparr>"

definition ex_dash_config :: DashConfig where
  "ex_dash_config = \<lparr>dc_Auth = \<lparr>au_SecretKey = ''k'', au_TokenExpiry = 100, au_DefaultAdmin = ''root'', au_DefaultPass = ''pw''\<rparr>,
     dc_TLSCertFile = [], dc_TLSKeyFile = [], dc_StaticDir = []\<rparr>"

definition ex_dash :: DashServer where
  "ex_dash = the (NewDashServer ex_crypto ''s'' [] [] ex_dash_config None)"

lemma ex_dash_new: "NewDashServer ex_crypto ''s'' [] [] ex_dash_config None = Some ex_dash"
  by (simp add: ex_dash_def NewDashServer_def NewAuthManager_def AddUserWithPassword_def mg_AddUser_def ex_dash_config_def
      ex_crypto_def default_admin_def)

definition ex_dash_req :: "string \<Rightarrow> string \<Rightarrow> string \<Rightarrow> DashRequest" where
  "ex_dash_req m path auth = \<lparr>dr_Method = m, dr_Path = path, dr_Authorization = auth, dr_UserID = ''forged'', dr_UserRole = ''admin''\<rparr>"

text \<open>The start of Unix time.\<close>

abbreviation epoch :: gotime where
  "epoch \<equiv> 62135596800000000000"

theorem dash_protected_witness:
  "case buildHandler False (epoch + 50) [''root''] (ex_dash_req ''DELETE'' ''/api/v1/users/bob'' ''Bearer tok-admin-'')
      (ds_auth (dash_apply ex_crypto (OLogin epoch epoch (Some (''root'', ''pw''))) ex_dash)) of
     (h, r', a') \<Rightarrow> h = Handler RDeleteUser \<and> dr_UserID r' = ''admin-1''"
proof -
  let ?s = "fold (dash_apply ex_crypto) [OLogin epoch epoch (Some (''root'', ''pw''))] ex_dash"
  let ?b = "buildHandler False (epoch + 50) [''root''] (ex_dash_req ''DELETE'' ''/api/v1/users/bob'' ''Bearer tok-admin-'') (ds_auth ?s)"
  have h: "fst ?b = Handler RDeleteUser" by code_simp
  obtain r' a' where b: "?b = (Handler RDeleteUser, r', a')" using h by (metis prod.exhaust_sel)
  have t: "fmlookup (mg_tokens (ds_auth ?s)) ''tok-admin-'' = Some \<lparr>ti_UserID = ''admin-1'', ti_Role = ''admin'', ti_ExpiresAt = epoch + 100\<rparr>"
    by code_simp
  have "stored_roles [] None" by (simp add: stored_roles_def)
  note E = dash_protected [OF ex_dash_new this refl b route_perm.simps(26)]
  have "dr_UserID r' = ''admin-1''"
    using E
  proof (elim exE conjE)
    fix tok info u
    assume a: "dr_Authorization (ex_dash_req ''DELETE'' ''/api/v1/users/bob'' ''Bearer tok-admin-'') = ''Bearer '' @ tok"
      and l: "fmlookup (mg_tokens (ds_auth ?s)) tok = Some info" and i: "us_ID u = ti_UserID info" "dr_UserID r' = us_ID u"
    have "tok = ''tok-admin-''" using a by (simp add: ex_dash_req_def)
    with l t have "info = \<lparr>ti_UserID = ''admin-1'', ti_Role = ''admin'', ti_ExpiresAt = epoch + 100\<rparr>" by (metis option.inject)
    then show ?thesis using i by simp
  qed
  then show ?thesis using b by simp
qed

section \<open>Tokens\<close>

text \<open>
  A login is good until it expires. When the identifiers of the users are distinct, the token that a
  login with the right password returns is accepted for its user until its expiry, at every later time
  before which no other operation took place, and it is refused, and forgotten, after.
\<close>

theorem dash_login_token:
  assumes "Login cx t1 t2 name pw a = (Inr resp, a')" and "range_order (mg_users a) ks"
    and "\<forall>k l u v. fmlookup (mg_users a) k = Some u \<and> fmlookup (mg_users a) l = Some v \<and> us_ID u = us_ID v \<longrightarrow> k = l"
  shows "(case ValidateToken now ks (lr_Token resp) a' of (res, a'') \<Rightarrow>
      if now \<le> t2 + au_TokenExpiry (mg_config a) then res = Inr (lr_User resp) \<and> a'' = a'
      else res = Inl TokenExpired \<and> fst (ValidateToken now ks (lr_Token resp) a'') = Inl InvalidToken)
    \<and> fmlookup (mg_users a) name = Some (lr_User resp) \<and> cx_check cx (us_PasswordHash (lr_User resp)) pw"
proof -
  obtain u where u: "fmlookup (mg_users a) name = Some u" "cx_check cx (us_PasswordHash u) pw" "lr_User resp = u"
    and a': "a' = a\<lparr>mg_tokens := fmupd (lr_Token resp)
        \<lparr>ti_UserID = us_ID u, ti_Role = us_Role u, ti_ExpiresAt = t2 + au_TokenExpiry (mg_config a)\<rparr> (mg_tokens a)\<rparr>"
    using assms(1) by (auto simp: Login_def Let_def split: option.splits if_splits)
  let ?vs = "range_vals (mg_users a) ks"
  have mem: "v \<in> set ?vs \<longleftrightarrow> (\<exists>k. fmlookup (mg_users a) k = Some v)" for v
    using range_order_set [OF assms(2)] by (auto simp: set_range_vals)
  have "find (\<lambda>v. us_ID v = us_ID u) ?vs = Some u"
  proof (cases "find (\<lambda>v. us_ID v = us_ID u) ?vs")
    case None
    then show ?thesis using mem [of u] u(1) by (auto simp: find_None_iff)
  next
    case (Some v)
    then have "v \<in> set ?vs" "us_ID v = us_ID u" by (auto simp: find_Some_iff)
    then obtain k where "fmlookup (mg_users a) k = Some v" using mem by auto
    then have "v = u" using assms(3) u(1) \<open>us_ID v = us_ID u\<close> by (metis option.inject)
    then show ?thesis using Some by simp
  qed
  then show ?thesis using u unfolding a' by (simp add: ValidateToken_def)
qed

theorem dash_login_token_witness:
  "case Login ex_crypto epoch epoch ''root'' ''pw'' (ds_auth ex_dash) of (resp, a') \<Rightarrow>
     (case resp of Inr rs \<Rightarrow> fst (ValidateToken (epoch + 100) [''root''] (lr_Token rs) a') = Inr (lr_User rs)
       \<and> fst (ValidateToken (epoch + 101) [''root''] (lr_Token rs) a') = Inl TokenExpired | Inl _ \<Rightarrow> False)"
proof -
  have "\<not> (case fst (Login ex_crypto epoch epoch ''root'' ''pw'' (ds_auth ex_dash)) of Inl _ \<Rightarrow> True | Inr _ \<Rightarrow> False)" by code_simp
  then obtain rs a' where l: "Login ex_crypto epoch epoch ''root'' ''pw'' (ds_auth ex_dash) = (Inr rs, a')"
    by (cases "Login ex_crypto epoch epoch ''root'' ''pw'' (ds_auth ex_dash)") (auto split: sum.splits)
  have users: "fmlookup (mg_users (ds_auth ex_dash)) k = (if k = ''root'' then Some ((default_admin ''root'')\<lparr>us_PasswordHash := ''h:pw''\<rparr>) else None)" for k
    by (simp add: ex_dash_def NewDashServer_def NewAuthManager_def AddUserWithPassword_def mg_AddUser_def ex_dash_config_def
        ex_crypto_def default_admin_def)
  have "mg_users (ds_auth ex_dash) = fmupd ''root'' ((default_admin ''root'')\<lparr>us_PasswordHash := ''h:pw''\<rparr>) fmempty"
    by (rule fmap_ext) (simp add: users)
  then have ks: "range_order (mg_users (ds_auth ex_dash)) [''root'']" by (simp add: range_order_def)
  have d: "\<forall>k l u v. fmlookup (mg_users (ds_auth ex_dash)) k = Some u \<and> fmlookup (mg_users (ds_auth ex_dash)) l = Some v \<and> us_ID u = us_ID v \<longrightarrow> k = l"
    by (simp add: users)
  have e: "au_TokenExpiry (mg_config (ds_auth ex_dash)) = 100" by code_simp
  show ?thesis
    using dash_login_token [OF l ks d, of "epoch + 100"] dash_login_token [OF l ks d, of "epoch + 101"] unfolding e l
    by (simp split: prod.splits)
qed

text \<open>
  A removed user's tokens come back. After a user whose identifier is the name is removed, a token of
  the user is refused; once someone creates a user of the same name, with whatever password and role, the
  same token is accepted for the new user.
\<close>

theorem dash_token_revived:
  assumes "fmlookup (mg_tokens (ds_auth s)) tok = Some info" and "ti_UserID info = name" and "now \<le> ti_ExpiresAt info"
    and "\<forall>k u. fmlookup (mg_users (ds_auth s)) k = Some u \<and> us_ID u = name \<longrightarrow> k = name"
    and "caller \<noteq> name" and "s1 = snd (dash_DeleteUser caller name s)"
    and "cb_Username b = name" and "name \<noteq> []" and "cb_Password b \<noteq> []" and "cx_hash cx salt (cb_Password b) = Some h"
    and "s2 = snd (dash_CreateUser cx salt caller (Some b) s1)" and "range_order (mg_users (ds_auth s2)) ks"
  shows "fst (ValidateToken now ks' tok (ds_auth s1)) = Inl (UserNotFound name)
    \<and> (\<exists>u. fst (ValidateToken now ks tok (ds_auth s2)) = Inr u \<and> us_Username u = name \<and> us_PasswordHash u = h
        \<and> us_Role u = (if cb_Role b = [] then ''viewer'' else cb_Role b))"
proof -
  let ?U = "mg_users (ds_auth s)"
  have s1: "mg_users (ds_auth s1) = fmdrop name ?U" "mg_tokens (ds_auth s1) = mg_tokens (ds_auth s)"
    using assms(5,6) by (simp_all add: dash_DeleteUser_def RemoveUser_def)
  let ?u = "\<lparr>us_ID = name, us_Username = name, us_Role = (if cb_Role b = [] then ''viewer'' else cb_Role b),
      us_Email = cb_Email b, us_PasswordHash = h\<rparr>"
  have s2: "mg_users (ds_auth s2) = fmupd name ?u (fmdrop name ?U)" "mg_tokens (ds_auth s2) = mg_tokens (ds_auth s)"
    using assms(7-11) s1 by (simp_all add: dash_CreateUser_def AddUserWithPassword_def mg_AddUser_def Let_def)
  have none: "find (\<lambda>u. us_ID u = name) (range_vals (fmdrop name ?U) ks') = None"
    using assms(4) by (auto simp: find_None_iff set_range_vals split: if_splits)
  have "find (\<lambda>u. us_ID u = name) (range_vals (mg_users (ds_auth s2)) ks) = Some ?u"
  proof (cases "find (\<lambda>u. us_ID u = name) (range_vals (mg_users (ds_auth s2)) ks)")
    case None
    have "?u \<in> set (range_vals (mg_users (ds_auth s2)) ks)"
      using range_order_set [OF assms(12), of name] s2 by (auto simp: set_range_vals)
    then show ?thesis using None by (auto simp: find_None_iff)
  next
    case (Some v)
    then have "us_ID v = name" "v \<in> set (range_vals (mg_users (ds_auth s2)) ks)" by (auto simp: find_Some_iff)
    then have "v = ?u" using assms(4) unfolding s2 by (auto simp: set_range_vals split: if_splits)
    then show ?thesis using Some by simp
  qed
  then show ?thesis using assms(1-3) none s1 s2(2) by (simp add: ValidateToken_def)
qed

definition ex_body :: "string \<Rightarrow> string \<Rightarrow> CreateUserBody" where
  "ex_body name role = \<lparr>cb_Username = name, cb_Password = ''x'', cb_Role = role, cb_Email = []\<rparr>"

theorem dash_token_revived_witness:
  "let s = fold (dash_apply ex_crypto) [OCreateUser ''admin-1'' ''s'' (Some (ex_body ''bobby1'' ''viewer'')),
        OLogin epoch epoch (Some (''bobby1'', ''x''))] ex_dash;
       s2 = fold (dash_apply ex_crypto) [ODeleteUser ''admin-1'' ''bobby1'',
        OCreateUser ''admin-1'' ''s'' (Some (ex_body ''bobby1'' ''admin''))] s
   in \<exists>u. fst (ValidateToken (epoch + 5) [''root'', ''bobby1''] ''tok-bobby1'' (ds_auth s2)) = Inr u \<and> us_Role u = ''admin''"
proof -
  let ?s = "fold (dash_apply ex_crypto) [OCreateUser ''admin-1'' ''s'' (Some (ex_body ''bobby1'' ''viewer'')),
        OLogin epoch epoch (Some (''bobby1'', ''x''))] ex_dash"
  let ?s1 = "snd (dash_DeleteUser ''admin-1'' ''bobby1'' ?s)"
  let ?s2 = "snd (dash_CreateUser ex_crypto ''s'' ''admin-1'' (Some (ex_body ''bobby1'' ''admin'')) ?s1)"
  have t: "fmlookup (mg_tokens (ds_auth ?s)) ''tok-bobby1'' = Some \<lparr>ti_UserID = ''bobby1'', ti_Role = ''viewer'', ti_ExpiresAt = epoch + 100\<rparr>"
    by code_simp
  have ids: "fmpred (\<lambda>k u. us_ID u = ''bobby1'' \<longrightarrow> k = ''bobby1'') (mg_users (ds_auth ?s))" by code_simp
  then have ids: "\<forall>k u. fmlookup (mg_users (ds_auth ?s)) k = Some u \<and> us_ID u = ''bobby1'' \<longrightarrow> k = ''bobby1''"
    by (auto simp: fmpred_iff)
  have "fset_of_list [''root'', ''bobby1''] = fmdom (mg_users (ds_auth ?s2))" by code_simp
  then have ks: "range_order (mg_users (ds_auth ?s2)) [''root'', ''bobby1'']" by (simp add: range_order_def)
  let ?b = "ex_body ''bobby1'' ''admin''"
  have b: "cb_Username ?b = ''bobby1''" "cb_Password ?b = ''x''" "cb_Role ?b = ''admin''" "cx_hash ex_crypto ''s'' ''x'' = Some ''h:x''"
    by (simp_all add: ex_body_def ex_crypto_def)
  have "fst (ValidateToken (epoch + 5) [] ''tok-bobby1'' (ds_auth ?s1)) = Inl (UserNotFound ''bobby1'') \<and>
    (\<exists>u. fst (ValidateToken (epoch + 5) [''root'', ''bobby1''] ''tok-bobby1'' (ds_auth ?s2)) = Inr u \<and> us_Username u = ''bobby1''
      \<and> us_PasswordHash u = ''h:x'' \<and> us_Role u = (if cb_Role ?b = [] then ''viewer'' else cb_Role ?b))"
    by (rule dash_token_revived [OF t _ _ ids _ refl b(1) _ _ _ refl ks]) (simp_all add: b)
  then show ?thesis unfolding Let_def by (elim conjE exE) (intro conjI exI; simp add: dash_apply_def b)
qed

text \<open>
  An account can be taken for another. The default administrator has the identifier of a fixed text,
  and a created user has its name as identifier. When a user of that name is created, with any role, and
  logs in, then there is an order of the table in which its token is accepted as the administrator's.
\<close>

theorem dash_id_confusion:
  assumes "fmlookup (mg_users (ds_auth s)) adm = Some au" and "us_ID au = ''admin-1''" and "adm \<noteq> ''admin-1''"
    and "fmlookup (mg_users (ds_auth s)) ''admin-1'' = None" and "cb_Username b = ''admin-1''" and "cb_Password b \<noteq> []"
    and "cx_hash cx salt (cb_Password b) = Some h" and "cx_check cx h (cb_Password b)" and "h \<noteq> []"
    and "s1 = snd (dash_CreateUser cx salt caller (Some b) s)"
    and "Login cx t1 t2 ''admin-1'' (cb_Password b) (ds_auth s1) = (resp, a2)"
    and "now \<le> t2 + au_TokenExpiry (mg_config (ds_auth s))"
  shows "\<exists>r ks. resp = Inr r \<and> us_Username (lr_User r) = ''admin-1'' \<and> range_order (mg_users a2) ks
    \<and> ValidateToken now ks (lr_Token r) a2 = (Inr au, a2)"
proof -
  let ?u = "\<lparr>us_ID = ''admin-1'', us_Username = ''admin-1'', us_Role = (if cb_Role b = [] then ''viewer'' else cb_Role b),
      us_Email = cb_Email b, us_PasswordHash = h\<rparr>"
  have s1: "ds_auth s1 = (ds_auth s)\<lparr>mg_users := fmupd ''admin-1'' ?u (mg_users (ds_auth s))\<rparr>"
    using assms(4-7,10) by (simp add: dash_CreateUser_def AddUserWithPassword_def mg_AddUser_def Let_def)
  obtain r where r: "resp = Inr r" "lr_User r = ?u" and a2: "a2 = (ds_auth s1)\<lparr>mg_tokens := fmupd (lr_Token r)
      \<lparr>ti_UserID = ''admin-1'', ti_Role = us_Role ?u, ti_ExpiresAt = t2 + au_TokenExpiry (mg_config (ds_auth s))\<rparr> (mg_tokens (ds_auth s1))\<rparr>"
    using assms(8,9,11) by (auto simp: Login_def Let_def s1)
  obtain ks0 where ks0: "range_order (mg_users a2) ks0" using range_order_exists by blast
  let ?ks = "adm # remove1 adm ks0"
  have adm: "fmlookup (mg_users a2) adm = Some au" using assms(1,3) by (simp add: a2 s1)
  then have "adm \<in> set ks0" using range_order_set [OF ks0] by simp
  then have d: "set ?ks = set ks0" "distinct ?ks" using range_order_distinct [OF ks0] by auto
  have "fset_of_list ?ks = fset_of_list ks0" by (rule fset_inject [THEN iffD1]) (use d(1) in \<open>simp only: fset_of_list.rep_eq\<close>)
  then have ks: "range_order (mg_users a2) ?ks"
    using ks0 d(2) unfolding range_order_def by simp
  have "ValidateToken now ?ks (lr_Token r) a2 = (Inr au, a2)"
    using adm assms(2,12) by (simp add: ValidateToken_def a2)
  then show ?thesis using r ks by auto
qed

theorem dash_id_confusion_witness:
  "\<exists>r a2 ks. Login ex_crypto epoch epoch ''admin-1'' ''x''
      (ds_auth (dash_apply ex_crypto (OCreateUser ''admin-1'' ''s'' (Some (ex_body ''admin-1'' ''viewer''))) ex_dash)) = (Inr r, a2)
    \<and> range_order (mg_users a2) ks
    \<and> map_sum id us_Role (fst (ValidateToken (epoch + 5) ks (lr_Token r) a2)) = Inr ''admin''"
proof -
  let ?b = "ex_body ''admin-1'' ''viewer''"
  let ?s1 = "snd (dash_CreateUser ex_crypto ''s'' ''admin-1'' (Some ?b) ex_dash)"
  let ?au = "(default_admin ''root'')\<lparr>us_PasswordHash := ''h:pw''\<rparr>"
  have u: "fmlookup (mg_users (ds_auth ex_dash)) ''root'' = Some ?au" "fmlookup (mg_users (ds_auth ex_dash)) ''admin-1'' = None"
    by code_simp+
  have e: "au_TokenExpiry (mg_config (ds_auth ex_dash)) = 100" by code_simp
  have c: "cb_Username ?b = ''admin-1''" "cb_Password ?b = ''x''" "cx_hash ex_crypto ''s'' ''x'' = Some ''h:x''" "cx_check ex_crypto ''h:x'' ''x''"
    by (simp_all add: ex_body_def ex_crypto_def)
  obtain resp a2 where l: "Login ex_crypto epoch epoch ''admin-1'' ''x'' (ds_auth ?s1) = (resp, a2)"
    by (cases "Login ex_crypto epoch epoch ''admin-1'' ''x'' (ds_auth ?s1)")
  have "\<exists>r ks. resp = Inr r \<and> us_Username (lr_User r) = ''admin-1'' \<and> range_order (mg_users a2) ks
      \<and> ValidateToken (epoch + 5) ks (lr_Token r) a2 = (Inr ?au, a2)"
    by (rule dash_id_confusion [OF u(1) _ _ u(2) c(1) _ _ _ _ refl]) (use c e l in \<open>auto simp: default_admin_def\<close>)
  then obtain r ks where r: "resp = Inr r" "range_order (mg_users a2) ks"
    "ValidateToken (epoch + 5) ks (lr_Token r) a2 = (Inr ?au, a2)" by blast
  have "Login ex_crypto epoch epoch ''admin-1'' ''x''
      (ds_auth (dash_apply ex_crypto (OCreateUser ''admin-1'' ''s'' (Some ?b)) ex_dash)) = (Inr r, a2)"
    using l r(1) by (simp add: dash_apply_def)
  moreover have "map_sum id us_Role (fst (ValidateToken (epoch + 5) ks (lr_Token r) a2)) = Inr ''admin''"
    unfolding r(3) by (simp add: default_admin_def)
  ultimately show ?thesis using r(2) by blast
qed

text \<open>
  Users are not persisted. The handlers of users change the table in memory and never the database:
  a new server on the database of a running one has the users that were stored when that one began,
  whatever was created, changed or removed since, while the listing of users has shown the stored ones
  all the time.
\<close>

theorem dash_users_not_persisted:
  assumes "NewDashServer cx salt dks uks cfg (Some db) = Some s0" and "db_users db \<noteq> fmempty" and "range_order (db_users db) dks"
    and "s = fold (dash_apply cx) ops s0" and "NewDashServer cx salt dks uks cfg (ds_dbStore s) = Some s'"
  shows "mg_users (ds_auth s') = mg_users (ds_auth s0) \<and> dash_ListUsers dks s = dash_ListUsers dks s0"
proof -
  have step: "ds_dbStore (dash_apply cx op s) = ds_dbStore s" for op s
    by (cases op) (simp_all add: dash_apply_def handleLogin_def dash_CreateUser_def dash_UpdateUserRole_def dash_DeleteUser_def
        Let_def split: option.split sum.split prod.split)
  have run: "ds_dbStore (fold (dash_apply cx) ops s) = ds_dbStore s" for s
    by (induction ops arbitrary: s) (simp_all add: step)
  have "length (db_ListUsers dks db) > 0"
  proof -
    have "length (range_vals (db_users db) dks) = length dks"
      by (rule range_vals_length) (use range_order_set [OF assms(3)] in blast)
    moreover have "\<exists>k. fmlookup (db_users db) k \<noteq> None"
    proof (rule ccontr)
      assume "\<not> ?thesis"
      then have "db_users db = fmempty" by (intro fmap_ext) simp
      then show False using assms(2) by simp
    qed
    then have "dks \<noteq> []" using range_order_set [OF assms(3)] by auto
    ultimately show ?thesis by (simp add: db_ListUsers_def)
  qed
  then have s0: "ds_dbStore s0 = Some db" using assms(1)
    by (auto simp: NewDashServer_def syncAuthUsers_def Let_def split: option.splits)
  then have "ds_dbStore s = Some db" using assms(4) run by simp
  then show ?thesis using assms(1,5) s0 by (auto simp: dash_ListUsers_def)
qed

definition ex_db :: DashDB where
  "ex_db = db_SaveUser \<lparr>us_ID = ''ann'', us_Username = ''ann'', us_Role = ''admin'', us_Email = [], us_PasswordHash = ''h:x''\<rparr> NewDashDB"

theorem dash_users_not_persisted_witness:
  "\<exists>s0 s'. NewDashServer ex_crypto ''s'' [''ann''] [] ex_dash_config (Some ex_db) = Some s0
    \<and> NewDashServer ex_crypto ''s'' [''ann''] [] ex_dash_config
        (ds_dbStore (fold (dash_apply ex_crypto) [OCreateUser ''ann'' ''s'' (Some (ex_body ''bob'' [])), ODeleteUser ''root'' ''ann''] s0)) = Some s'
    \<and> fmlookup (mg_users (ds_auth s')) ''bob'' = None \<and> fmlookup (mg_users (ds_auth s')) ''ann'' \<noteq> None"
proof -
  let ?new = "NewDashServer ex_crypto ''s'' [''ann''] [] ex_dash_config"
  have "?new (Some ex_db) \<noteq> None"
    by (simp add: NewDashServer_def NewAuthManager_def AddUserWithPassword_def mg_AddUser_def ex_dash_config_def ex_crypto_def
        default_admin_def)
  then obtain s0 where s0: "?new (Some ex_db) = Some s0" by auto
  let ?s = "fold (dash_apply ex_crypto) [OCreateUser ''ann'' ''s'' (Some (ex_body ''bob'' [])), ODeleteUser ''root'' ''ann''] s0"
  have "?new store \<noteq> None" for store
    by (simp add: NewDashServer_def NewAuthManager_def AddUserWithPassword_def mg_AddUser_def ex_dash_config_def ex_crypto_def
        default_admin_def Let_def)
  then obtain s' where s': "?new (ds_dbStore ?s) = Some s'" by blast
  have ne: "db_users ex_db \<noteq> fmempty" by (simp add: ex_db_def db_SaveUser_def)
  have ks: "range_order (db_users ex_db) [''ann'']" by (simp add: ex_db_def db_SaveUser_def NewDashDB_def range_order_def)
  have "mg_users (ds_auth s') = mg_users (ds_auth s0)"
    using dash_users_not_persisted [OF s0 ne ks refl s'] by blast
  moreover have "fmlookup (mg_users (ds_auth (the (?new (Some ex_db))))) ''bob'' = None"
    "fmlookup (mg_users (ds_auth (the (?new (Some ex_db))))) ''ann'' \<noteq> None" by code_simp+
  ultimately show ?thesis using s0 s' by auto
qed

end
