(* ===== verification/Go_Float.thy ===== *)
theory Go_Float
  imports Go_Prelude Complex_Main
begin

text \<open>
  Go's \<open>float64\<close> as rational numbers: exact where the code's numbers are, without the rounding of the
  machine. The conversions to integers are Go's.
\<close>

text \<open>The conversion of a number to \<open>time.Duration\<close> or \<open>int64\<close> drops the fraction.\<close>

definition to_duration :: "rat \<Rightarrow> duration" where
  "to_duration x = (if x < 0 then - \<lfloor>- x\<rfloor> else \<lfloor>x\<rfloor>)"

text \<open>\<open>math.Round\<close>: to the nearest integer, halves away from zero.\<close>

definition math_round :: "rat \<Rightarrow> int" where
  "math_round x = (if x < 0 then - \<lfloor>- x + 1/2\<rfloor> else \<lfloor>x + 1/2\<rfloor>)"

lemma to_duration_nonneg: "0 \<le> x \<Longrightarrow> to_duration x = \<lfloor>x\<rfloor>"
  by (simp add: to_duration_def)

lemma to_duration_of_int [simp]: "to_duration (of_int k) = k"
  by (simp add: to_duration_def flip: of_int_minus)

text \<open>A number between two integers that are not negative stays between them.\<close>

lemma to_duration_between:
  assumes "0 \<le> a" and "of_int a \<le> x" and "x \<le> of_int b"
  shows "a \<le> to_duration x \<and> to_duration x \<le> b"
proof -
  have "0 \<le> x" using assms(1,2) by (meson of_int_0_le_iff order_trans)
  then show ?thesis using assms(2,3) by (simp add: to_duration_nonneg le_floor_iff floor_le_iff)
qed

lemma to_duration_less: "0 \<le> x \<Longrightarrow> of_int (to_duration x) \<le> x \<and> x < of_int (to_duration x) + 1"
  by (simp add: to_duration_nonneg) linarith

lemma math_round_mono: "x \<le> y \<Longrightarrow> math_round x \<le> math_round y"
proof -
  assume le: "x \<le> y"
  have f: "\<lfloor>a + 1/2\<rfloor> \<le> \<lfloor>b + 1/2\<rfloor>" if "a \<le> b" for a b :: rat using that by (simp add: floor_mono)
  have "0 \<le> \<lfloor>a + 1/2\<rfloor>" if "0 \<le> a" for a :: rat using that by (simp add: le_floor_iff)
  then show ?thesis using f [of x y] f [of "- y" "- x"] le by (force simp: math_round_def intro: order_trans [of _ 0])
qed

end
