(* ===== verification/Tunnel_Client.thy ===== *)
theory Tunnel_Client
  imports Relay_Session Go_Float
begin

text \<open>
  The tunnel client of the desktop application (\<open>desktop/internal/tunnel\<close>): the control connection
  (\<open>control.go\<close>), one tunnel and its work connections (\<open>tunnel.go\<close>, \<open>workconn.go\<close>), the reconnect
  loop with its backoff (\<open>reconnect.go\<close>) and the manager (\<open>manager.go\<close>). The network is an argument:
  whether a dial or a write succeeds, and what is read. The goroutines of the manager (the connect and
  message loop, the heartbeat loop, the read loop of the control connection) run as the events of
  \<open>client_apply\<close>.
\<close>

section \<open>Tunnels\<close>

record TunnelDef =
  td_Name :: string
  td_ProxyType :: string
  td_LocalAddr :: string
  td_RemotePort :: "16 word"
  td_Domain :: string
  td_HostHeader :: string
  td_UseHTTPS :: bool
  td_PublicURL :: string
  td_AccessPolicyID :: string
  td_InspectEnabled :: bool
  td_ExpiresAt :: string
  td_P2PEnabled :: bool
  td_PeerClientID :: string

record Tunnel =
  tn_def :: TunnelDef
  tn_status :: string
  tn_bytesIn :: "64 word"
  tn_bytesOut :: "64 word"

definition NewTunnel :: "TunnelDef \<Rightarrow> Tunnel" where
  "NewTunnel def = \<lparr>tn_def = def, tn_status = ''inactive'', tn_bytesIn = 0, tn_bytesOut = 0\<rparr>"

definition tunnel_Info :: "Tunnel \<Rightarrow> ProxyInfo" where
  "tunnel_Info t =
     \<lparr>pi_ProxyName = td_Name (tn_def t), pi_ProxyType = td_ProxyType (tn_def t), pi_LocalAddr = td_LocalAddr (tn_def t),
      pi_RemotePort = td_RemotePort (tn_def t), pi_Domain = td_Domain (tn_def t), pi_HostHeader = td_HostHeader (tn_def t),
      pi_PublicURL = td_PublicURL (tn_def t), pi_AccessPolicyID = td_AccessPolicyID (tn_def t),
      pi_InspectEnabled = td_InspectEnabled (tn_def t), pi_ExpiresAt = 0, pi_Status = tn_status t,
      pi_BytesIn = tn_bytesIn t, pi_BytesOut = tn_bytesOut t, pi_Sessions = 0\<rparr>"

text \<open>What the code uses of \<open>encoding/json\<close>.\<close>

record ClientLib =
  tl_marshal :: json_marshal
  tl_unmarshal :: "payload_kind \<Rightarrow> byte list \<Rightarrow> payload option"

definition buildProxyMessage :: "ClientLib \<Rightarrow> TunnelDef \<Rightarrow> proto_error + Message" where
  "buildProxyMessage lib d =
     (if td_ProxyType d = ''http'' then
        (if td_PublicURL d \<noteq> [] \<or> td_AccessPolicyID d \<noteq> [] \<or> td_InspectEnabled d \<or> td_ExpiresAt d \<noteq> [] then
           NewHTTPProxyMessageWithEndpoint (tl_marshal lib) (td_Name d) (td_LocalAddr d) (td_RemotePort d) (td_Domain d)
             (td_HostHeader d) (td_UseHTTPS d) (td_PublicURL d) (td_AccessPolicyID d) (td_InspectEnabled d) (td_ExpiresAt d)
         else NewHTTPProxyMessage (tl_marshal lib) (td_Name d) (td_LocalAddr d) (td_RemotePort d) (td_Domain d)
             (td_HostHeader d) (td_UseHTTPS d))
      else NewNewProxyMessage (tl_marshal lib) (td_Name d) (td_ProxyType d) (td_LocalAddr d) (td_RemotePort d))"

subsection \<open>A work connection\<close>

datatype work_conn_error = OpenerFailed | WorkDialFailed | WorkMessageFailed | WorkSendFailed | LocalDialFailed

text \<open>
  How a work connection goes: the opener set on the manager (\<open>None\<close> when there is none), the dial and
  the write to the server, the dial of the local service, and the bytes the bridge copies each way.
\<close>

record WorkNet =
  wn_opener :: "(string \<Rightarrow> string \<Rightarrow> string \<Rightarrow> bool) option"
  wn_dial :: bool
  wn_write :: bool
  wn_local :: bool
  wn_out :: "64 word"
  wn_in :: "64 word"

text \<open>\<open>TCPWorkConnOpener.OpenWorkConn\<close> and the same steps inline in \<open>openWorkConn\<close>: the handshake sent, or an error.\<close>

definition tcp_open_work_conn ::
    "ClientLib \<Rightarrow> WorkNet \<Rightarrow> string \<Rightarrow> string \<Rightarrow> string \<Rightarrow> work_conn_error + Message" where
  "tcp_open_work_conn lib net proxyName sessionID authToken =
     (if \<not> wn_dial net then Inl WorkDialFailed
      else (case NewWorkConnMessageWithToken (tl_marshal lib) proxyName sessionID authToken of
              Inl e \<Rightarrow> Inl WorkMessageFailed
            | Inr m \<Rightarrow> if wn_write net then Inr m else Inl WorkSendFailed))"

text \<open>
  \<open>openWorkConn\<close>, with the tunnel after and whether the connection to the server was opened and closed
  again: bridged connections are both closed when the bridge ends.
\<close>

definition bridgeConnections :: "WorkNet \<Rightarrow> Tunnel \<Rightarrow> Tunnel" where
  "bridgeConnections net t = t\<lparr>tn_bytesOut := tn_bytesOut t + wn_out net, tn_bytesIn := tn_bytesIn t + wn_in net\<rparr>"

definition openWorkConn ::
    "ClientLib \<Rightarrow> WorkNet \<Rightarrow> string \<Rightarrow> string \<Rightarrow> Tunnel \<Rightarrow> work_conn_error option \<times> Tunnel" where
  "openWorkConn lib net authToken sessionID t =
     (let name = td_Name (tn_def t);
          opened = (case wn_opener net of
                      Some opener \<Rightarrow> (if opener name sessionID authToken then None else Some OpenerFailed)
                    | None \<Rightarrow> (case tcp_open_work_conn lib net name sessionID authToken of Inl e \<Rightarrow> Some e | Inr _ \<Rightarrow> None))
      in case opened of
           Some e \<Rightarrow> (Some e, t)
         | None \<Rightarrow>
             if \<not> wn_local net then (Some LocalDialFailed, t)
             else (None, bridgeConnections net (t\<lparr>tn_status := ''active''\<rparr>)))"

section \<open>The control connection\<close>

text \<open>
  The client's end: the channel of messages read and not yet taken, whether the read loop has ended and
  closed it, the flag \<open>connected\<close>, whether a write still gets through, and what was written.
\<close>

record ControlClient =
  cl_clientID :: string
  cl_authToken :: string
  cl_serverAddr :: string
  cl_msgCh :: "Message list"
  cl_closed :: bool
  cl_connected :: bool
  cl_alive :: bool
  cl_sent :: "Message list"

definition NewControlClient :: "string \<Rightarrow> string \<Rightarrow> string \<Rightarrow> ControlClient" where
  "NewControlClient clientID authToken serverAddr =
     \<lparr>cl_clientID = clientID, cl_authToken = authToken, cl_serverAddr = serverAddr, cl_msgCh = [], cl_closed = False,
      cl_connected = False, cl_alive = False, cl_sent = []\<rparr>"

datatype client_error =
    DialFailed
  | AuthMessageFailed
  | AuthSendFailed
  | AuthReadFailed proto_error
  | UnexpectedResponse MsgType
  | DecodeFailed proto_error
  | AuthRejected string
  | NotConnected
  | WriteFailed
  | ProxyMessageFailed string
  | ChannelClosed
  | TunnelExists string
  | TunnelNotFound string
  | Disconnected

text \<open>\<open>Connect\<close>: the dial, the write of the handshake and the answer to it are the network's.\<close>

definition Connect ::
    "ClientLib \<Rightarrow> bool \<Rightarrow> bool \<Rightarrow> (proto_error + Message) \<Rightarrow> ControlClient \<Rightarrow> client_error option \<times> ControlClient" where
  "Connect lib dial written answer c =
     (if \<not> dial then (Some DialFailed, c)
      else (case NewAuthMessageWithToken (tl_marshal lib) (cl_clientID c) (cl_authToken c) of
              Inl e \<Rightarrow> (Some AuthMessageFailed, c)
            | Inr authMsg \<Rightarrow>
                if \<not> written then (Some AuthSendFailed, c)
                else (case answer of
                        Inl e \<Rightarrow> (Some (AuthReadFailed e), c)
                      | Inr resp \<Rightarrow>
                          if Type resp \<noteq> TypeAuthResp then (Some (UnexpectedResponse (Type resp)), c)
                          else (case DecodePayload (tl_unmarshal lib) resp of
                                  Inr (Some (PAuthResp ar)) \<Rightarrow>
                                    if \<not> ar_Success ar then (Some (AuthRejected (ar_Error ar)), c)
                                    else (None, c\<lparr>cl_connected := True, cl_alive := True, cl_sent := cl_sent c @ [authMsg]\<rparr>)
                                | Inr _ \<Rightarrow> (Some (DecodeFailed ErrJSON), c)
                                | Inl e \<Rightarrow> (Some (DecodeFailed e), c)))))"

definition Send :: "Message \<Rightarrow> ControlClient \<Rightarrow> client_error option \<times> ControlClient" where
  "Send msg c =
     (if \<not> cl_connected c then (Some NotConnected, c)
      else if \<not> cl_alive c then (Some WriteFailed, c)
      else (None, c\<lparr>cl_sent := cl_sent c @ [msg]\<rparr>))"

definition cl_Close :: "ControlClient \<Rightarrow> ControlClient" where
  "cl_Close c = c\<lparr>cl_alive := False\<rparr>"

text \<open>The read loop: a message goes into the channel when there is room (32); at the end the channel is closed.\<close>

definition read_message :: "Message \<Rightarrow> ControlClient \<Rightarrow> ControlClient option" where
  "read_message msg c =
     (if cl_connected c \<and> length (cl_msgCh c) < 32 then Some (c\<lparr>cl_msgCh := cl_msgCh c @ [msg]\<rparr>) else None)"

definition read_end :: "ControlClient \<Rightarrow> ControlClient" where
  "read_end c = c\<lparr>cl_connected := False, cl_closed := True\<rparr>"

section \<open>Backoff\<close>

record BackoffConfig =
  bc_BaseDelay :: duration
  bc_MaxDelay :: duration
  bc_Multiplier :: rat
  bc_JitterFraction :: rat

record Backoff =
  bo_config :: BackoffConfig
  bo_attempt :: nat

definition DefaultBackoffConfig :: BackoffConfig where
  "DefaultBackoffConfig =
     \<lparr>bc_BaseDelay = second, bc_MaxDelay = minute, bc_Multiplier = 2, bc_JitterFraction = 3/10\<rparr>"

definition NewBackoff :: "BackoffConfig \<Rightarrow> Backoff" where
  "NewBackoff cfg = \<lparr>bo_config = cfg, bo_attempt = 0\<rparr>"

text \<open>The delay before jitter, and \<open>NextDelay\<close> with \<open>u\<close> drawn by \<open>rand.Float64\<close> from the unit interval.\<close>

definition base_delay :: "BackoffConfig \<Rightarrow> nat \<Rightarrow> rat" where
  "base_delay cfg n =
     (let delay = of_int (bc_BaseDelay cfg) * bc_Multiplier cfg ^ n in
      if delay > of_int (bc_MaxDelay cfg) then of_int (bc_MaxDelay cfg) else delay)"

definition NextDelay :: "rat \<Rightarrow> Backoff \<Rightarrow> duration \<times> Backoff" where
  "NextDelay u b =
     (let cfg = bo_config b;
          delay = base_delay cfg (bo_attempt b);
          jitter = delay * bc_JitterFraction cfg;
          delay = delay + (u * 2 - 1) * jitter;
          delay = (if delay < 0 then of_int (bc_BaseDelay cfg) else delay)
      in (to_duration delay, b\<lparr>bo_attempt := bo_attempt b + 1\<rparr>))"

definition bo_Reset :: "Backoff \<Rightarrow> Backoff" where
  "bo_Reset b = b\<lparr>bo_attempt := 0\<rparr>"

section \<open>The manager\<close>

record TunnelClientConfig =
  tc_ServerAddr :: string
  tc_ClientID :: string
  tc_AuthToken :: string
  tc_Tunnels :: "TunnelDef list"
  tc_ReconnectBaseDelay :: duration
  tc_ReconnectMaxDelay :: duration
  tc_HeartbeatInterval :: duration

text \<open>\<open>mn_requests\<close> are the work connections started by the manager, each in a goroutine of its own.\<close>

record Manager =
  mn_config :: TunnelClientConfig
  mn_client :: "ControlClient option"
  mn_tunnels :: "(string, Tunnel) fmap"
  mn_requests :: "(string \<times> string) list"
  mn_cancelled :: bool

definition DefaultClientConfig :: TunnelClientConfig where
  "DefaultClientConfig =
     \<lparr>tc_ServerAddr = [], tc_ClientID = [], tc_AuthToken = [], tc_Tunnels = [], tc_ReconnectBaseDelay = second,
      tc_ReconnectMaxDelay = minute, tc_HeartbeatInterval = 30 * second\<rparr>"

definition NewManager :: "string \<Rightarrow> TunnelClientConfig \<Rightarrow> Manager" where
  "NewManager uuid cfg0 =
     (let cfg = cfg0\<lparr>tc_ClientID := (if tc_ClientID cfg0 = [] then uuid else tc_ClientID cfg0),
                     tc_ReconnectBaseDelay := (if tc_ReconnectBaseDelay cfg0 = 0 then second else tc_ReconnectBaseDelay cfg0),
                     tc_ReconnectMaxDelay := (if tc_ReconnectMaxDelay cfg0 = 0 then minute else tc_ReconnectMaxDelay cfg0),
                     tc_HeartbeatInterval := (if tc_HeartbeatInterval cfg0 = 0 then 30 * second else tc_HeartbeatInterval cfg0)\<rparr>
      in \<lparr>mn_config = cfg, mn_client = None,
          mn_tunnels = fold (\<lambda>d m. fmupd (td_Name d) (NewTunnel d) m) (tc_Tunnels cfg) fmempty,
          mn_requests = [], mn_cancelled = False\<rparr>)"

definition mn_IsConnected :: "Manager \<Rightarrow> bool" where
  "mn_IsConnected m = (case mn_client m of None \<Rightarrow> False | Some c \<Rightarrow> cl_connected c)"

text \<open>\<open>m.client.Send\<close>.\<close>

definition mn_send :: "Message \<Rightarrow> Manager \<Rightarrow> client_error option \<times> Manager" where
  "mn_send msg m =
     (case mn_client m of
        None \<Rightarrow> (Some NotConnected, m)
      | Some c \<Rightarrow> (case Send msg c of (e, c) \<Rightarrow> (e, m\<lparr>mn_client := Some c\<rparr>)))"

definition set_status :: "string \<Rightarrow> Tunnel \<Rightarrow> Tunnel" where
  "set_status st t = t\<lparr>tn_status := st\<rparr>"

definition registered :: "NewProxyRespMessage \<Rightarrow> Tunnel \<Rightarrow> Tunnel" where
  "registered npr t =
     (let d = (tn_def t)\<lparr>td_RemotePort := nr_RemotePort npr\<rparr>;
          d = (if nr_PublicURL npr \<noteq> [] then d\<lparr>td_PublicURL := nr_PublicURL npr\<rparr> else d)
      in set_status ''active'' (t\<lparr>tn_def := d\<rparr>))"

subsection \<open>Registration\<close>

text \<open>
  \<open>registerAllTunnels\<close>, one round of its loop in two parts: the request for a tunnel, and the answer,
  which is the next message of the channel (\<open>None\<close> when the channel is closed).
\<close>

definition reg_send :: "ClientLib \<Rightarrow> string \<Rightarrow> Manager \<Rightarrow> client_error option \<times> Manager" where
  "reg_send lib k m =
     (case fmlookup (mn_tunnels m) k of
        None \<Rightarrow> (None, m)
      | Some t \<Rightarrow>
          (case buildProxyMessage lib (tn_def t) of
             Inl e \<Rightarrow> (Some (ProxyMessageFailed (td_Name (tn_def t))), m)
           | Inr msg \<Rightarrow> mn_send msg m))"

definition reg_answer :: "ClientLib \<Rightarrow> string \<Rightarrow> Message option \<Rightarrow> Manager \<Rightarrow> client_error option \<times> Manager" where
  "reg_answer lib k answer m =
     (case answer of
        None \<Rightarrow> (Some ChannelClosed, m)
      | Some resp \<Rightarrow>
          if Type resp \<noteq> TypeNewProxyResp then (Some (UnexpectedResponse (Type resp)), m)
          else (case DecodePayload (tl_unmarshal lib) resp of
                  Inr (Some (PNewProxyResp npr)) \<Rightarrow>
                    if \<not> nr_Success npr then (None, m)
                    else (case fmlookup (mn_tunnels m) k of
                            None \<Rightarrow> (None, m)
                          | Some t \<Rightarrow> (None, m\<lparr>mn_tunnels := fmupd k (registered npr t) (mn_tunnels m)\<rparr>))
                | Inr _ \<Rightarrow> (Some (DecodeFailed ErrJSON), m)
                | Inl e \<Rightarrow> (Some (DecodeFailed e), m)))"

text \<open>The loop, over the tunnels in the order of the range, with the message that each receive gets.\<close>

fun registerAllTunnels :: "ClientLib \<Rightarrow> (string \<times> Message option) list \<Rightarrow> Manager \<Rightarrow> client_error option \<times> Manager" where
  "registerAllTunnels lib [] m = (None, m)"
| "registerAllTunnels lib ((k, answer) # rest) m =
     (case reg_send lib k m of
        (Some e, m) \<Rightarrow> (Some e, m)
      | (None, m) \<Rightarrow>
          (case reg_answer lib k answer m of
             (Some e, m) \<Rightarrow> (Some e, m)
           | (None, m) \<Rightarrow> registerAllTunnels lib rest m))"

subsection \<open>Messages of the server\<close>

definition handleServerMessage :: "ClientLib \<Rightarrow> Message \<Rightarrow> Manager \<Rightarrow> Manager" where
  "handleServerMessage lib msg m =
     (if Type msg = TypeStartWorkConn then
        (case DecodePayload (tl_unmarshal lib) msg of
           Inr (Some (PStartWorkConn swc)) \<Rightarrow>
             (case fmlookup (mn_tunnels m) (sw_ProxyName swc) of
                None \<Rightarrow> m
              | Some t \<Rightarrow> m\<lparr>mn_requests := mn_requests m @ [(td_Name (tn_def t), sw_SessionID swc)]\<rparr>)
         | _ \<Rightarrow> m)
      else if Type msg = TypeHeartbeat then snd (mn_send NewHeartbeatResp m)
      else if Type msg = TypeHeartbeatResp then m
      else if Type msg = TypeNewProxyResp then
        (case DecodePayload (tl_unmarshal lib) msg of
           Inr (Some (PNewProxyResp npr)) \<Rightarrow>
             (case fmlookup (mn_tunnels m) (nr_ProxyName npr) of
                None \<Rightarrow> m
              | Some t \<Rightarrow>
                  m\<lparr>mn_tunnels := fmupd (nr_ProxyName npr)
                      (if \<not> nr_Success npr then set_status ''error'' t else registered npr t) (mn_tunnels m)\<rparr>)
         | _ \<Rightarrow> m)
      else m)"

subsection \<open>Operations of the application\<close>

definition HasTunnel :: "string \<Rightarrow> Manager \<Rightarrow> bool" where
  "HasTunnel name m \<longleftrightarrow> fmlookup (mn_tunnels m) name \<noteq> None"

definition GetStatus :: "string list \<Rightarrow> Manager \<Rightarrow> ProxyInfo list" where
  "GetStatus ks m = map tunnel_Info (range_vals (mn_tunnels m) ks)"

definition AddTunnel :: "ClientLib \<Rightarrow> TunnelDef \<Rightarrow> Manager \<Rightarrow> client_error option \<times> Manager" where
  "AddTunnel lib d m =
     (if fmlookup (mn_tunnels m) (td_Name d) \<noteq> None then (Some (TunnelExists (td_Name d)), m)
      else let m = m\<lparr>mn_tunnels := fmupd (td_Name d) (NewTunnel d) (mn_tunnels m)\<rparr> in
           if mn_IsConnected m then
             (case buildProxyMessage lib d of
                Inl e \<Rightarrow> (Some (ProxyMessageFailed (td_Name d)), m)
              | Inr msg \<Rightarrow> mn_send msg m)
           else (None, m))"

definition RemoveTunnel :: "ClientLib \<Rightarrow> string \<Rightarrow> Manager \<Rightarrow> client_error option \<times> Manager" where
  "RemoveTunnel lib name m =
     (if fmlookup (mn_tunnels m) name = None then (Some (TunnelNotFound name), m)
      else let m = m\<lparr>mn_tunnels := fmdrop name (mn_tunnels m)\<rparr> in
           if mn_IsConnected m then
             (case NewCloseProxyMessage (tl_marshal lib) name of
                Inl e \<Rightarrow> (Some (ProxyMessageFailed name), m)
              | Inr msg \<Rightarrow> mn_send msg m)
           else (None, m))"

definition mn_Stop :: "Manager \<Rightarrow> Manager" where
  "mn_Stop m =
     m\<lparr>mn_cancelled := True, mn_client := map_option cl_Close (mn_client m),
       mn_tunnels := fmmap (set_status ''inactive'') (mn_tunnels m)\<rparr>"

end
