(* ===== verification/Tunnel_Run.thy ===== *)
theory Tunnel_Run
  imports Tunnel_Client
begin

text \<open>
  A run of the tunnel client: \<open>Start\<close> with its reconnect loop (\<open>Backoff.Run\<close>), \<open>connectAndRun\<close>, the
  heartbeat loop, the read loop and the application's calls, as events that each goroutine performs in
  any order. \<open>client_apply\<close> is \<open>None\<close> where the event cannot happen. The theorems say what a run does:
  the delays between attempts, what registration leaves, and that the client does not come back after
  the server closes its connection.
\<close>

section \<open>The goroutines\<close>

text \<open>
  Where \<open>Start\<close> is: about to connect, in \<open>registerAllTunnels\<close> (the tunnels left; whether the request
  for the first is sent), in the message loop, waiting for the heartbeat loop, back in \<open>Backoff.Run\<close>
  with an error, asleep, or returned.
\<close>

datatype run_pc =
    Connecting
  | Registering "string list" bool
  | MessageLoop
  | AwaitHeartbeat
  | Failed client_error
  | Sleeping duration
  | Exited

record Run =
  ru_mgr :: Manager
  ru_pc :: run_pc
  ru_hb :: bool
  ru_backoff :: Backoff

datatype client_event =
    EConnect bool bool "proto_error + Message" "string list"
  | ERegSend
  | ERegAnswer
  | EHandle
  | ELoopEnd
  | EHeartbeat
  | EHeartbeatStop
  | EReturn
  | EBackoff rat
  | EWake
  | EQuit
  | ERead Message
  | EReadEnd
  | EBreak
  | EAddTunnel TunnelDef
  | ERemoveTunnel string
  | EStop
  | ECancel

definition manager_backoff :: "TunnelClientConfig \<Rightarrow> Backoff" where
  "manager_backoff cfg =
     NewBackoff \<lparr>bc_BaseDelay = tc_ReconnectBaseDelay cfg, bc_MaxDelay = tc_ReconnectMaxDelay cfg,
       bc_Multiplier = 2, bc_JitterFraction = 3/10\<rparr>"

definition start_run :: "Manager \<Rightarrow> Run" where
  "start_run m = \<lparr>ru_mgr = m, ru_pc = Connecting, ru_hb = False, ru_backoff = manager_backoff (mn_config m)\<rparr>"

text \<open>\<open>connectAndRun\<close> returns with an error: its client is closed.\<close>

definition run_fail :: "client_error \<Rightarrow> Run \<Rightarrow> Run" where
  "run_fail e r =
     r\<lparr>ru_pc := Failed e, ru_mgr := (ru_mgr r)\<lparr>mn_client := map_option cl_Close (mn_client (ru_mgr r))\<rparr>\<rparr>"

definition after_reg :: "string list \<Rightarrow> Run \<Rightarrow> Run" where
  "after_reg ks r = (if ks = [] then r\<lparr>ru_pc := MessageLoop, ru_hb := True\<rparr> else r\<lparr>ru_pc := Registering ks False\<rparr>)"

definition run_connect :: "ClientLib \<Rightarrow> bool \<Rightarrow> bool \<Rightarrow> (proto_error + Message) \<Rightarrow> string list \<Rightarrow> Run \<Rightarrow> Run" where
  "run_connect lib dial written answer ks r =
     (let m = ru_mgr r;
          c = NewControlClient (tc_ClientID (mn_config m)) (tc_AuthToken (mn_config m)) (tc_ServerAddr (mn_config m))
      in case Connect lib dial written answer c of
           (Some e, c) \<Rightarrow> r\<lparr>ru_pc := Failed e\<rparr>
         | (None, c) \<Rightarrow> after_reg ks (r\<lparr>ru_mgr := m\<lparr>mn_client := Some c\<rparr>\<rparr>))"

text \<open>The next message of the channel: \<open>Inl ()\<close> when the receive has to wait.\<close>

definition mn_recv :: "Manager \<Rightarrow> unit + (Message option \<times> Manager)" where
  "mn_recv m =
     (case mn_client m of
        None \<Rightarrow> Inl ()
      | Some c \<Rightarrow>
          (case cl_msgCh c of
             msg # rest \<Rightarrow> Inr (Some msg, m\<lparr>mn_client := Some (c\<lparr>cl_msgCh := rest\<rparr>)\<rparr>)
           | [] \<Rightarrow> if cl_closed c then Inr (None, m) else Inl ()))"

definition run_reg_answer :: "ClientLib \<Rightarrow> string \<Rightarrow> string list \<Rightarrow> Run \<Rightarrow> Run option" where
  "run_reg_answer lib k ks r =
     (case mn_recv (ru_mgr r) of
        Inl _ \<Rightarrow> None
      | Inr (answer, m) \<Rightarrow>
          (case reg_answer lib k answer m of
             (Some e, m) \<Rightarrow> Some (run_fail e (r\<lparr>ru_mgr := m\<rparr>))
           | (None, m) \<Rightarrow> Some (after_reg ks (r\<lparr>ru_mgr := m\<rparr>))))"

definition run_client :: "(ControlClient \<Rightarrow> ControlClient option) \<Rightarrow> Run \<Rightarrow> Run option" where
  "run_client f r =
     (case mn_client (ru_mgr r) of
        None \<Rightarrow> None
      | Some c \<Rightarrow> (case f c of None \<Rightarrow> None | Some c \<Rightarrow> Some (r\<lparr>ru_mgr := (ru_mgr r)\<lparr>mn_client := Some c\<rparr>\<rparr>)))"

text \<open>The table of tunnels is locked for reading while \<open>registerAllTunnels\<close> runs.\<close>

fun is_registering :: "run_pc \<Rightarrow> bool" where
  "is_registering (Registering _ _) = True"
| "is_registering _ = False"

fun client_apply :: "ClientLib \<Rightarrow> client_event \<Rightarrow> Run \<Rightarrow> Run option" where
  "client_apply lib (EConnect dial written answer ks) r =
     (if ru_pc r = Connecting \<and> range_order (mn_tunnels (ru_mgr r)) ks
      then Some (run_connect lib dial written answer ks r) else None)"
| "client_apply lib ERegSend r =
     (case ru_pc r of
        Registering (k # ks) False \<Rightarrow>
          (case reg_send lib k (ru_mgr r) of
             (Some e, m) \<Rightarrow> Some (run_fail e (r\<lparr>ru_mgr := m\<rparr>))
           | (None, m) \<Rightarrow> Some (r\<lparr>ru_mgr := m, ru_pc := Registering (k # ks) True\<rparr>))
      | _ \<Rightarrow> None)"
| "client_apply lib ERegAnswer r =
     (case ru_pc r of Registering (k # ks) True \<Rightarrow> run_reg_answer lib k ks r | _ \<Rightarrow> None)"
| "client_apply lib EHandle r =
     (if ru_pc r \<noteq> MessageLoop then None
      else (case mn_recv (ru_mgr r) of
              Inr (Some msg, m) \<Rightarrow> Some (r\<lparr>ru_mgr := handleServerMessage lib msg m\<rparr>)
            | _ \<Rightarrow> None))"
| "client_apply lib ELoopEnd r =
     (if ru_pc r \<noteq> MessageLoop then None
      else (case mn_recv (ru_mgr r) of Inr (None, m) \<Rightarrow> Some (r\<lparr>ru_pc := AwaitHeartbeat\<rparr>) | _ \<Rightarrow> None))"
| "client_apply lib EHeartbeat r =
     (if \<not> ru_hb r then None
      else if \<not> mn_IsConnected (ru_mgr r) then Some r
      else (case mn_send NewHeartbeat (ru_mgr r) of
              (Some e, m) \<Rightarrow> Some (r\<lparr>ru_mgr := m, ru_hb := False\<rparr>)
            | (None, m) \<Rightarrow> Some (r\<lparr>ru_mgr := m\<rparr>)))"
| "client_apply lib EHeartbeatStop r =
     (if ru_hb r \<and> mn_cancelled (ru_mgr r) then Some (r\<lparr>ru_hb := False\<rparr>) else None)"
| "client_apply lib EReturn r =
     (if ru_pc r = AwaitHeartbeat \<and> \<not> ru_hb r then Some (run_fail Disconnected r) else None)"
| "client_apply lib (EBackoff u) r =
     (case ru_pc r of
        Failed e \<Rightarrow>
          if 0 \<le> u \<and> u < 1 then
            (case NextDelay u (ru_backoff r) of (d, b) \<Rightarrow> Some (r\<lparr>ru_pc := Sleeping d, ru_backoff := b\<rparr>))
          else None
      | _ \<Rightarrow> None)"
| "client_apply lib EWake r = (case ru_pc r of Sleeping d \<Rightarrow> Some (r\<lparr>ru_pc := Connecting\<rparr>) | _ \<Rightarrow> None)"
| "client_apply lib EQuit r =
     (case ru_pc r of Sleeping d \<Rightarrow> (if mn_cancelled (ru_mgr r) then Some (r\<lparr>ru_pc := Exited\<rparr>) else None) | _ \<Rightarrow> None)"
| "client_apply lib (ERead msg) r = run_client (read_message msg) r"
| "client_apply lib EReadEnd r = run_client (\<lambda>c. if cl_connected c then Some (read_end c) else None) r"
| "client_apply lib EBreak r = run_client (\<lambda>c. Some (c\<lparr>cl_alive := False\<rparr>)) r"
| "client_apply lib (EAddTunnel d) r =
     (if is_registering (ru_pc r) then None else Some (r\<lparr>ru_mgr := snd (AddTunnel lib d (ru_mgr r))\<rparr>))"
| "client_apply lib (ERemoveTunnel name) r =
     (if is_registering (ru_pc r) then None else Some (r\<lparr>ru_mgr := snd (RemoveTunnel lib name (ru_mgr r))\<rparr>))"
| "client_apply lib EStop r = Some (r\<lparr>ru_mgr := mn_Stop (ru_mgr r)\<rparr>)"
| "client_apply lib ECancel r = Some (r\<lparr>ru_mgr := (ru_mgr r)\<lparr>mn_cancelled := True\<rparr>\<rparr>)"

fun client_run :: "ClientLib \<Rightarrow> client_event list \<Rightarrow> Run \<Rightarrow> Run option" where
  "client_run lib [] r = Some r"
| "client_run lib (e # es) r = (case client_apply lib e r of None \<Rightarrow> None | Some r \<Rightarrow> client_run lib es r)"

lemma client_run_append:
  "client_run lib (es @ fs) r = (case client_run lib es r of None \<Rightarrow> None | Some r \<Rightarrow> client_run lib fs r)"
  by (induction es arbitrary: r) (auto split: option.split)

text \<open>Induction over a run: what every event keeps holds at its end.\<close>

lemma client_run_induct:
  assumes "client_run lib es r = Some r'" and "P r"
    and "\<And>e r r'. e \<in> set es \<Longrightarrow> P r \<Longrightarrow> client_apply lib e r = Some r' \<Longrightarrow> P r'"
  shows "P r'"
  using assms
proof (induction es arbitrary: r)
  case Nil
  then show ?case by simp
next
  case (Cons e es)
  then obtain r1 where r1: "client_apply lib e r = Some r1" "client_run lib es r1 = Some r'"
    by (auto split: option.splits)
  have "P r1" by (rule Cons.prems(3) [OF _ Cons.prems(2) r1(1)]) simp
  then show ?case by (rule Cons.IH [OF r1(2)]) (rule Cons.prems(3); simp)
qed

section \<open>What the operations keep\<close>

lemma mn_send_client:
  "mn_send msg m = (e, m') \<Longrightarrow> mn_IsConnected m' = mn_IsConnected m \<and> mn_cancelled m' = mn_cancelled m
    \<and> mn_tunnels m' = mn_tunnels m \<and> mn_config m' = mn_config m
    \<and> map_option cl_closed (mn_client m') = map_option cl_closed (mn_client m)"
  by (auto simp: mn_send_def Send_def mn_IsConnected_def split: option.splits if_splits prod.splits)

lemma mn_send_snd [simp]:
  "mn_IsConnected (snd (mn_send msg m)) = mn_IsConnected m" "mn_cancelled (snd (mn_send msg m)) = mn_cancelled m"
  "mn_tunnels (snd (mn_send msg m)) = mn_tunnels m" "mn_config (snd (mn_send msg m)) = mn_config m"
  "map_option cl_closed (mn_client (snd (mn_send msg m))) = map_option cl_closed (mn_client m)"
  using mn_send_client [of msg m "fst (mn_send msg m)"] by simp_all


text \<open>A client whose connection is down is not touched by the server's messages.\<close>

lemma mn_send_down: "\<not> mn_IsConnected m \<Longrightarrow> mn_send msg m = (Some NotConnected, m)"
  by (cases m) (auto simp: mn_send_def mn_IsConnected_def Send_def split: option.splits)

lemma handle_down: "\<not> mn_IsConnected m \<Longrightarrow> mn_client (handleServerMessage lib msg m) = mn_client m
    \<and> mn_cancelled (handleServerMessage lib msg m) = mn_cancelled m \<and> \<not> mn_IsConnected (handleServerMessage lib msg m)"
  by (auto simp: handleServerMessage_def mn_send_down mn_IsConnected_def split: sum.splits option.splits payload.splits if_splits)

lemma mn_recv_client:
  "mn_recv m = Inr (x, m') \<Longrightarrow> mn_IsConnected m' = mn_IsConnected m \<and> mn_cancelled m' = mn_cancelled m \<and> mn_config m' = mn_config m"
  by (auto simp: mn_recv_def mn_IsConnected_def split: option.splits list.splits if_splits)

lemma AddTunnel_down: "\<not> mn_IsConnected m \<Longrightarrow> \<not> mn_IsConnected (snd (AddTunnel lib d m)) \<and> mn_cancelled (snd (AddTunnel lib d m)) = mn_cancelled m"
  by (auto simp: AddTunnel_def Let_def mn_IsConnected_def split: option.splits)

lemma RemoveTunnel_down: "\<not> mn_IsConnected m \<Longrightarrow> \<not> mn_IsConnected (snd (RemoveTunnel lib k m)) \<and> mn_cancelled (snd (RemoveTunnel lib k m)) = mn_cancelled m"
  by (auto simp: RemoveTunnel_def Let_def mn_IsConnected_def split: option.splits)

section \<open>Reconnecting\<close>

definition stuck :: "Run \<Rightarrow> bool" where
  "stuck r \<longleftrightarrow> ru_hb r \<and> ru_pc r \<in> {MessageLoop, AwaitHeartbeat} \<and> \<not> mn_IsConnected (ru_mgr r) \<and> \<not> mn_cancelled (ru_mgr r)"

lemma stuck_step:
  assumes "client_apply lib e r = Some r'" and "stuck r" and "e \<noteq> EStop" and "e \<noteq> ECancel"
  shows "stuck r'"
proof -
  have d: "\<not> mn_IsConnected (ru_mgr r)" and hb: "ru_hb r" and nc: "\<not> mn_cancelled (ru_mgr r)"
    and pc: "ru_pc r = MessageLoop \<or> ru_pc r = AwaitHeartbeat"
    using assms(2) by (auto simp: stuck_def)
  show ?thesis
  proof (cases e)
    case EHandle
    then obtain msg m where m: "mn_recv (ru_mgr r) = Inr (Some msg, m)" "r' = r\<lparr>ru_mgr := handleServerMessage lib msg m\<rparr>"
      and pc: "ru_pc r = MessageLoop"
      using assms(1) by (auto split: sum.splits option.splits if_splits prod.splits)
    have "\<not> mn_IsConnected m" "\<not> mn_cancelled m" using mn_recv_client [OF m(1)] d nc by auto
    then show ?thesis using m(2) hb pc handle_down [of m lib msg] by (auto simp: stuck_def)
  next
    case (EAddTunnel td)
    then show ?thesis using assms(1) hb pc nc d AddTunnel_down [OF d, of lib td]
      by (auto simp: stuck_def split: if_splits)
  next
    case (ERemoveTunnel k)
    then show ?thesis using assms(1) hb pc nc d RemoveTunnel_down [OF d, of lib k]
      by (auto simp: stuck_def split: if_splits)
  next
    case (ERead msg)
    then show ?thesis using assms(1) d
      by (auto simp: run_client_def read_message_def mn_IsConnected_def split: option.splits if_splits)
  next
    case EReadEnd
    then show ?thesis using assms(1) d
      by (auto simp: run_client_def mn_IsConnected_def split: option.splits if_splits)
  next
    case EBreak
    then show ?thesis using assms(1) hb pc nc d
      by (auto simp: stuck_def run_client_def mn_IsConnected_def split: option.splits if_splits)
  qed (use assms hb pc nc d in \<open>auto simp: stuck_def split: if_splits sum.splits option.splits prod.splits run_pc.splits\<close>)
qed

lemma stuck_run:
  assumes "client_run lib es r = Some r'" and "stuck r" and "EStop \<notin> set es" and "ECancel \<notin> set es"
  shows "stuck r'"
  by (rule client_run_induct [OF assms(1), of stuck]) (use assms(2-4) stuck_step in blast)+

lemma drain:
  assumes "mn_client (ru_mgr r) = Some c" and "cl_closed c" and "\<not> cl_connected c" and "ru_pc r = MessageLoop"
  shows "\<exists>es r'. client_run lib es r = Some r' \<and> ru_pc r' = AwaitHeartbeat \<and> ru_hb r' = ru_hb r \<and> set es \<subseteq> {EHandle, ELoopEnd}"
  using assms
proof (induction "cl_msgCh c" arbitrary: r c)
  case Nil
  then have "client_run lib [ELoopEnd] r = Some (r\<lparr>ru_pc := AwaitHeartbeat\<rparr>)"
    by (simp add: mn_recv_def)
  then show ?case by (intro exI [of _ "[ELoopEnd]"] exI [of _ "r\<lparr>ru_pc := AwaitHeartbeat\<rparr>"]) simp
next
  case (Cons msg rest)
  let ?c = "c\<lparr>cl_msgCh := rest\<rparr>"
  let ?m = "(ru_mgr r)\<lparr>mn_client := Some ?c\<rparr>"
  let ?r = "r\<lparr>ru_mgr := handleServerMessage lib msg ?m\<rparr>"
  have "\<not> mn_IsConnected ?m" using Cons.prems(3) by (simp add: mn_IsConnected_def)
  then have c: "mn_client (ru_mgr ?r) = Some ?c" using handle_down [of ?m lib msg] by simp
  have step: "client_apply lib EHandle r = Some ?r"
    using Cons.prems(1,4) Cons.hyps(2) [symmetric] by (simp add: mn_recv_def)
  have "\<exists>es r'. client_run lib es ?r = Some r' \<and> ru_pc r' = AwaitHeartbeat \<and> ru_hb r' = ru_hb ?r \<and> set es \<subseteq> {EHandle, ELoopEnd}"
    by (rule Cons.hyps(1) [OF _ c]) (use Cons.prems in simp_all)
  then obtain es r' where "client_run lib es ?r = Some r'" "ru_pc r' = AwaitHeartbeat" "ru_hb r' = ru_hb r"
    "set es \<subseteq> {EHandle, ELoopEnd}" by auto
  then have "client_run lib (EHandle # es) r = Some r' \<and> ru_pc r' = AwaitHeartbeat \<and> ru_hb r' = ru_hb r
      \<and> set (EHandle # es) \<subseteq> {EHandle, ELoopEnd}"
    using step by simp
  then show ?case by blast
qed



text \<open>An example: a server that accepts everyone, and a client without tunnels.\<close>

definition ex_client_lib :: ClientLib where
  "ex_client_lib =
     \<lparr>tl_marshal = (\<lambda>v. Some []),
      tl_unmarshal = (\<lambda>k bs. case k of KAuthResp \<Rightarrow> Some (PAuthResp \<lparr>ar_Success = True, ar_Error = []\<rparr>) | _ \<Rightarrow> None)\<rparr>"

definition ex_welcome :: client_event where
  "ex_welcome = EConnect True True (Inr \<lparr>Type = TypeAuthResp, Payload = []\<rparr>) []"

definition ex_client :: Run where
  "ex_client = start_run (NewManager ''id'' DefaultClientConfig)"

lemma ex_client_fields: "ru_pc ex_client = Connecting" "mn_tunnels (ru_mgr ex_client) = fmempty" "mn_cancelled (ru_mgr ex_client) = False"
  by (simp_all add: ex_client_def start_run_def NewManager_def DefaultClientConfig_def Let_def)

lemma ex_connected:
  "\<exists>r c. client_apply ex_client_lib ex_welcome ex_client = Some r \<and> ru_pc r = MessageLoop \<and> ru_hb r \<and> mn_client (ru_mgr r) = Some c
     \<and> cl_connected c \<and> \<not> mn_cancelled (ru_mgr r)"
  by (simp add: ex_welcome_def ex_client_fields run_connect_def Connect_def NewAuthMessageWithToken_def marshalMessage_def
      ex_client_lib_def DecodePayload_def kind_of_type_def after_reg_def Let_def)


section \<open>The delays\<close>

fun is_backoff :: "client_event \<Rightarrow> bool" where
  "is_backoff (EBackoff u) = True"
| "is_backoff _ = False"

definition backoffs :: "client_event list \<Rightarrow> nat" where
  "backoffs es = length (filter is_backoff es)"

lemma jitter_bounds:
  fixes x u :: rat
  assumes "0 \<le> u" and "u < 1" and "0 < x"
  shows "7/10 * x \<le> x + (u * 2 - 1) * (x * (3/10))" and "x + (u * 2 - 1) * (x * (3/10)) \<le> 13/10 * x"
proof -
  have "0 \<le> u * x" "u * x \<le> x" using assms by (simp_all add: mult_le_cancel_right1)
  moreover have "(u * 2 - 1) * (x * (3/10)) = 3/5 * (u * x) - 3/10 * x" by (simp add: field_simps)
  ultimately show "7/10 * x \<le> x + (u * 2 - 1) * (x * (3/10))" "x + (u * 2 - 1) * (x * (3/10)) \<le> 13/10 * x" by linarith+
qed

lemma NextDelay_bounds:
  assumes "0 \<le> u" and "u < 1" and "0 < bc_BaseDelay cfg" and "0 < bc_MaxDelay cfg" and "bc_Multiplier cfg = 2"
    and "bc_JitterFraction cfg = 3/10" and "NextDelay u \<lparr>bo_config = cfg, bo_attempt = n\<rparr> = (d, b)"
  shows "7 * min (bc_MaxDelay cfg) (bc_BaseDelay cfg * 2 ^ n) < 10 * d + 10
    \<and> 10 * d \<le> 13 * min (bc_MaxDelay cfg) (bc_BaseDelay cfg * 2 ^ n)"
proof -
  let ?x = "min (bc_MaxDelay cfg) (bc_BaseDelay cfg * 2 ^ n)"
  have "base_delay cfg n = (if of_int (bc_MaxDelay cfg) < (of_int (bc_BaseDelay cfg * 2 ^ n) :: rat) then of_int (bc_MaxDelay cfg)
      else of_int (bc_BaseDelay cfg * 2 ^ n))"
    using assms(5) by (simp add: base_delay_def Let_def)
  then have x: "base_delay cfg n = of_int ?x"
    by (simp only: of_int_less_iff min_def) (auto simp: not_less)
  define y :: rat where "y = base_delay cfg n + (u * 2 - 1) * (base_delay cfg n * bc_JitterFraction cfg)"
  have pos: "0 < ?x" using assms(3,4) by simp
  then have px: "(0 :: rat) < of_int ?x" by (simp only: of_int_0_less_iff)
  have lo: "7/10 * of_int ?x \<le> y" and hi: "y \<le> 13/10 * of_int ?x"
    using jitter_bounds [OF assms(1,2) px] by (simp_all only: y_def x assms(6))
  have y0: "\<not> y < 0" using lo px by linarith
  have "NextDelay u \<lparr>bo_config = cfg, bo_attempt = n\<rparr>
      = (to_duration (if y < 0 then of_int (bc_BaseDelay cfg) else y), \<lparr>bo_config = cfg, bo_attempt = n + 1\<rparr>)"
    by (simp add: NextDelay_def Let_def y_def)
  then have d: "d = \<lfloor>y\<rfloor>" using assms(7) y0 by (simp add: to_duration_def)
  have "of_int d \<le> y" "y < of_int d + 1" unfolding d by linarith+
  with lo hi have "7 * of_int ?x < 10 * (of_int d :: rat) + 10" "10 * (of_int d :: rat) \<le> 13 * of_int ?x" by linarith+
  then have "(of_int (7 * ?x) :: rat) < of_int (10 * d + 10)" "(of_int (10 * d) :: rat) \<le> of_int (13 * ?x)"
    by (simp_all only: of_int_mult of_int_add of_int_numeral)
  then show ?thesis by (simp only: of_int_less_iff of_int_le_iff)
qed

lemma run_fail_simps [simp]: "ru_backoff (run_fail e r) = ru_backoff r" "ru_pc (run_fail e r) = Failed e"
  by (simp_all add: run_fail_def)

lemma after_reg_simps [simp]: "ru_backoff (after_reg ks r) = ru_backoff r" "ru_pc (after_reg ks r) \<noteq> Sleeping d"
  by (simp_all add: after_reg_def)

lemma run_connect_simps [simp]:
  "ru_backoff (run_connect lib a b c ks r) = ru_backoff r" "ru_pc (run_connect lib a b c ks r) \<noteq> Sleeping d"
  by (simp_all add: run_connect_def Let_def split: prod.split option.split)

definition slept :: "Run \<Rightarrow> Run \<Rightarrow> bool" where
  "slept r r' \<longleftrightarrow> ru_backoff r' = ru_backoff r \<and> (\<forall>d. ru_pc r' = Sleeping d \<longrightarrow> ru_pc r = Sleeping d)"

lemma slept_client: "run_client f r = Some r' \<Longrightarrow> slept r r'"
  by (auto simp: run_client_def slept_def split: option.splits)

lemma slept_answer: "run_reg_answer lib k ks r = Some r' \<Longrightarrow> slept r r'"
  by (auto simp: run_reg_answer_def slept_def split: sum.splits option.splits prod.splits)

lemma slept_step: "client_apply lib e r = Some r' \<Longrightarrow> \<not> is_backoff e \<Longrightarrow> slept r r'"
proof (cases e)
  case ERegSend
  then show "client_apply lib e r = Some r' \<Longrightarrow> slept r r'"
    by (auto simp: slept_def split: run_pc.splits list.splits bool.splits prod.splits option.splits)
qed (auto simp: slept_def dest: slept_client slept_answer
    split: if_splits run_pc.splits list.splits bool.splits sum.splits option.splits prod.splits)


text \<open>What a run does to the backoff: it counts, and a sleep is a delay of the count.\<close>

definition sleep_ok :: "BackoffConfig \<Rightarrow> Run \<Rightarrow> bool" where
  "sleep_ok cfg r \<longleftrightarrow> bo_config (ru_backoff r) = cfg \<and> (\<forall>d. ru_pc r = Sleeping d \<longrightarrow>
     (\<exists>u n. bo_attempt (ru_backoff r) = Suc n \<and> 0 \<le> u \<and> u < 1 \<and> d = fst (NextDelay u \<lparr>bo_config = cfg, bo_attempt = n\<rparr>)))"

lemma NextDelay_state: "NextDelay u b = (d, b') \<Longrightarrow> b' = b\<lparr>bo_attempt := Suc (bo_attempt b)\<rparr>"
  by (simp add: NextDelay_def Let_def)

lemma sleep_ok_step:
  assumes "client_apply lib e r = Some r'" and "sleep_ok cfg r"
  shows "sleep_ok cfg r' \<and> bo_attempt (ru_backoff r') = bo_attempt (ru_backoff r) + (if is_backoff e then 1 else 0)"
proof (cases "is_backoff e")
  case False
  then show ?thesis using slept_step [OF assms(1)] assms(2) by (auto simp: sleep_ok_def slept_def)
next
  case True
  then obtain u where e: "e = EBackoff u" by (cases e) auto
  obtain d b where nd: "NextDelay u (ru_backoff r) = (d, b)" by (cases "NextDelay u (ru_backoff r)") auto
  have r': "0 \<le> u" "u < 1" "r' = r\<lparr>ru_pc := Sleeping d, ru_backoff := b\<rparr>"
    using assms(1) e nd by (auto split: run_pc.splits if_splits)
  have rb: "ru_backoff r = \<lparr>bo_config = cfg, bo_attempt = bo_attempt (ru_backoff r)\<rparr>"
    using assms(2) by (cases "ru_backoff r") (simp add: sleep_ok_def)
  then have "d = fst (NextDelay u \<lparr>bo_config = cfg, bo_attempt = bo_attempt (ru_backoff r)\<rparr>)" using nd by simp
  then show ?thesis using NextDelay_state [OF nd] r' True assms(2) by (auto simp: sleep_ok_def)
qed

lemma sleep_ok_run:
  "client_run lib es r = Some r' \<Longrightarrow> sleep_ok cfg r
    \<Longrightarrow> sleep_ok cfg r' \<and> bo_attempt (ru_backoff r') = bo_attempt (ru_backoff r) + backoffs es"
proof (induction es arbitrary: r)
  case Nil
  then show ?case by (simp add: backoffs_def)
next
  case (Cons e es)
  then obtain r1 where r1: "client_apply lib e r = Some r1" "client_run lib es r1 = Some r'" by (auto split: option.splits)
  then show ?case using sleep_ok_step [OF r1(1) Cons.prems(2)] Cons.IH [OF r1(2)] by (simp add: backoffs_def)
qed

text \<open>
  The delays between attempts. In every run the attempts are never reset: the n-th wait of a run is
  drawn around the base delay doubled n-1 times, cut at the maximum, and lies within 30 percent of it
  (to the nanosecond that the conversion drops), so that it can exceed the maximum; a connection that
  lasted does not shorten it.
\<close>

theorem client_backoff:
  assumes "client_run lib es (start_run m) = Some r" and "ru_pc r = Sleeping d"
    and "0 < tc_ReconnectBaseDelay (mn_config m)" and "0 < tc_ReconnectMaxDelay (mn_config m)"
  shows "\<exists>n x. backoffs es = Suc n \<and> x = min (tc_ReconnectMaxDelay (mn_config m)) (tc_ReconnectBaseDelay (mn_config m) * 2 ^ n)
    \<and> 7 * x < 10 * d + 10 \<and> 10 * d \<le> 13 * x"
proof -
  let ?cfg = "bo_config (manager_backoff (mn_config m))"
  have "sleep_ok ?cfg (start_run m)" and zero: "bo_attempt (ru_backoff (start_run m)) = 0"
    by (simp_all add: sleep_ok_def start_run_def manager_backoff_def NewBackoff_def)
  then have ok: "sleep_ok ?cfg r" and att: "bo_attempt (ru_backoff r) = backoffs es"
    using sleep_ok_run [OF assms(1)] by auto
  from ok assms(2) obtain u n where n: "bo_attempt (ru_backoff r) = Suc n" "0 \<le> u" "u < 1"
      "d = fst (NextDelay u \<lparr>bo_config = ?cfg, bo_attempt = n\<rparr>)"
    unfolding sleep_ok_def by blast
  obtain b where "NextDelay u \<lparr>bo_config = ?cfg, bo_attempt = n\<rparr> = (d, b)"
    using n(4) by (metis prod.collapse)
  from NextDelay_bounds [OF n(2,3) _ _ _ _ this] show ?thesis
    using assms(3,4) n(1) att by (auto simp: manager_backoff_def NewBackoff_def)
qed

definition ex_refused :: client_event where
  "ex_refused = EConnect False True (Inl ErrIO) []"

theorem client_backoff_witness:
  "\<exists>r. client_run ex_client_lib [ex_refused, EBackoff (1/2), EWake, ex_refused, EBackoff (1/2)] ex_client = Some r
     \<and> (\<exists>d. ru_pc r = Sleeping d \<and> d \<le> 13 * second div 5)"
proof -
  obtain d b where d: "NextDelay (1/2) (manager_backoff (mn_config (ru_mgr ex_client))) = (d, b)"
    by (cases "NextDelay (1/2) (manager_backoff (mn_config (ru_mgr ex_client)))") auto
  obtain d' b' where d': "NextDelay (1/2) b = (d', b')" by (cases "NextDelay (1/2) b") auto
  have b: "ru_backoff ex_client = manager_backoff (mn_config (ru_mgr ex_client))" by (simp add: ex_client_def start_run_def)
  let ?r = "ex_client\<lparr>ru_pc := Sleeping d', ru_backoff := b'\<rparr>"
  have run: "client_run ex_client_lib [ex_refused, EBackoff (1/2), EWake, ex_refused, EBackoff (1/2)] ex_client = Some ?r"
    using d d' by (simp add: ex_refused_def ex_client_fields run_connect_def Connect_def b)
  have cfg: "tc_ReconnectBaseDelay (mn_config (ru_mgr ex_client)) = second" "tc_ReconnectMaxDelay (mn_config (ru_mgr ex_client)) = minute"
    by (simp_all add: ex_client_def start_run_def NewManager_def DefaultClientConfig_def Let_def)
  have m: "start_run (ru_mgr ex_client) = ex_client" by (simp add: ex_client_def start_run_def)
  have "backoffs [ex_refused, EBackoff (1/2), EWake, ex_refused, EBackoff (1/2)] = 2" by (simp add: backoffs_def ex_refused_def)
  moreover have "\<exists>n x. backoffs [ex_refused, EBackoff (1/2), EWake, ex_refused, EBackoff (1/2)] = Suc n
      \<and> x = min minute (second * 2 ^ n) \<and> 7 * x < 10 * d' + 10 \<and> 10 * d' \<le> 13 * x"
    using client_backoff [of ex_client_lib _ "ru_mgr ex_client" ?r d'] run unfolding m cfg by simp
  ultimately have "10 * d' \<le> 13 * (2 * second)" by auto
  then show ?thesis using run by (intro exI [of _ ?r]) simp
qed

section \<open>Registration\<close>

lemma mn_send_up:
  "mn_client m = Some c \<Longrightarrow> cl_connected c \<Longrightarrow> cl_alive c
    \<Longrightarrow> mn_send msg m = (None, m\<lparr>mn_client := Some (c\<lparr>cl_sent := cl_sent c @ [msg]\<rparr>)\<rparr>)"
  by (simp add: mn_send_def Send_def)

text \<open>
  Registration. On a live connection, when each answer is a proxy response that decodes,
  \<open>registerAllTunnels\<close> sends the request of every tunnel in order, and leaves each tunnel whose answer
  is a success active with the port and URL of that answer, and the others as they were. The answer of a
  tunnel is the one in its place: its name is not looked at.
\<close>

theorem registration_sync:
  assumes "mn_client m = Some c" and "cl_connected c" and "cl_alive c" and "distinct ks"
    and "\<forall>k \<in> set ks. \<exists>t. fmlookup (mn_tunnels m) k = Some t \<and> buildProxyMessage lib (tn_def t) = Inr (req k)
      \<and> Type (resp k) = TypeNewProxyResp \<and> DecodePayload (tl_unmarshal lib) (resp k) = Inr (Some (PNewProxyResp (npr k)))"
    and "registerAllTunnels lib (map (\<lambda>k. (k, Some (resp k))) ks) m = (e, m')"
  shows "e = None \<and> (\<exists>c'. mn_client m' = Some c' \<and> cl_sent c' = cl_sent c @ map req ks)
    \<and> fmlookup (mn_tunnels m') k = (if k \<in> set ks \<and> nr_Success (npr k) then map_option (registered (npr k)) (fmlookup (mn_tunnels m) k)
        else fmlookup (mn_tunnels m) k)"
  using assms
proof (induction ks arbitrary: m c)
  case Nil
  then show ?case by simp
next
  case (Cons j ks)
  obtain t where t: "fmlookup (mn_tunnels m) j = Some t" "buildProxyMessage lib (tn_def t) = Inr (req j)"
    "Type (resp j) = TypeNewProxyResp" "DecodePayload (tl_unmarshal lib) (resp j) = Inr (Some (PNewProxyResp (npr j)))"
    using Cons.prems(5) by auto
  let ?c = "c\<lparr>cl_sent := cl_sent c @ [req j]\<rparr>"
  let ?m = "m\<lparr>mn_client := Some ?c, mn_tunnels := (if nr_Success (npr j) then fmupd j (registered (npr j) t) (mn_tunnels m) else mn_tunnels m)\<rparr>"
  have s: "reg_send lib j m = (None, m\<lparr>mn_client := Some ?c\<rparr>)"
    using t Cons.prems(1-3) by (simp add: reg_send_def mn_send_up)
  have a: "reg_answer lib j (Some (resp j)) (m\<lparr>mn_client := Some ?c\<rparr>) = (None, ?m)"
    using t by (simp add: reg_answer_def)
  have rest: "registerAllTunnels lib (map (\<lambda>k. (k, Some (resp k))) ks) ?m = (e, m')"
    using Cons.prems(6) s a by simp
  have same: "fmlookup (mn_tunnels ?m) i = fmlookup (mn_tunnels m) i" if "i \<noteq> j" for i using that by simp
  have "e = None \<and> (\<exists>c'. mn_client m' = Some c' \<and> cl_sent c' = cl_sent ?c @ map req ks)
    \<and> fmlookup (mn_tunnels m') k = (if k \<in> set ks \<and> nr_Success (npr k) then map_option (registered (npr k)) (fmlookup (mn_tunnels ?m) k)
        else fmlookup (mn_tunnels ?m) k)"
  proof (rule Cons.IH [OF _ _ _ _ _ rest])
    show "mn_client ?m = Some ?c" "cl_connected ?c" "cl_alive ?c" "distinct ks" using Cons.prems by simp_all
    have "j \<notin> set ks" using Cons.prems(4) by simp
    then show "\<forall>k \<in> set ks. \<exists>t. fmlookup (mn_tunnels ?m) k = Some t \<and> buildProxyMessage lib (tn_def t) = Inr (req k)
      \<and> Type (resp k) = TypeNewProxyResp \<and> DecodePayload (tl_unmarshal lib) (resp k) = Inr (Some (PNewProxyResp (npr k)))"
      using Cons.prems(5) same by (metis list.set_intros(2))
  qed
  moreover have "j \<notin> set ks" using Cons.prems(4) by simp
  ultimately show ?case using t(1) by (cases "k = j") auto
qed


definition ex_reg_lib :: ClientLib where
  "ex_reg_lib =
     \<lparr>tl_marshal = (\<lambda>v. Some []),
      tl_unmarshal = (\<lambda>k bs. case k of
         KNewProxyResp \<Rightarrow> Some (PNewProxyResp \<lparr>nr_ProxyName = ''web'', nr_Success = (bs = []), nr_RemotePort = 9000, nr_PublicURL = [], nr_Error = []\<rparr>)
       | _ \<Rightarrow> None)\<rparr>"

definition ex_def :: "string \<Rightarrow> TunnelDef" where
  "ex_def name =
     \<lparr>td_Name = name, td_ProxyType = ''tcp'', td_LocalAddr = ''127.0.0.1:80'', td_RemotePort = 0, td_Domain = [], td_HostHeader = [],
      td_UseHTTPS = False, td_PublicURL = [], td_AccessPolicyID = [], td_InspectEnabled = False, td_ExpiresAt = [],
      td_P2PEnabled = False, td_PeerClientID = []\<rparr>"

definition ex_reg :: Manager where
  "ex_reg =
     \<lparr>mn_config = DefaultClientConfig,
      mn_client = Some ((NewControlClient [] [] [])\<lparr>cl_connected := True, cl_alive := True\<rparr>),
      mn_tunnels = fmupd ''db'' (NewTunnel (ex_def ''db'')) (fmupd ''web'' (NewTunnel (ex_def ''web'')) fmempty),
      mn_requests = [], mn_cancelled = False\<rparr>"

theorem registration_sync_witness:
  "case registerAllTunnels ex_reg_lib [(''web'', Some \<lparr>Type = TypeNewProxyResp, Payload = []\<rparr>), (''db'', Some \<lparr>Type = TypeNewProxyResp, Payload = [1]\<rparr>)] ex_reg of
     (e, m') \<Rightarrow> e = None
       \<and> map_option (\<lambda>t. (tn_status t, td_RemotePort (tn_def t))) (fmlookup (mn_tunnels m') ''web'') = Some (''active'', 9000)
       \<and> map_option tn_status (fmlookup (mn_tunnels m') ''db'') = Some ''inactive''"
proof -
  let ?resp = "\<lambda>k :: string. \<lparr>Type = TypeNewProxyResp, Payload = (if k = ''web'' then [] else [1])\<rparr>"
  let ?npr = "\<lambda>k. \<lparr>nr_ProxyName = ''web'', nr_Success = (k = ''web''), nr_RemotePort = 9000, nr_PublicURL = [], nr_Error = []\<rparr>"
  let ?req = "\<lambda>k :: string. \<lparr>Type = TypeNewProxy, Payload = []\<rparr>"
  obtain e m' where r: "registerAllTunnels ex_reg_lib (map (\<lambda>k. (k, Some (?resp k))) [''web'', ''db'']) ex_reg = (e, m')"
    by (cases "registerAllTunnels ex_reg_lib (map (\<lambda>k. (k, Some (?resp k))) [''web'', ''db'']) ex_reg") auto
  have h: "\<forall>k \<in> set [''web'', ''db'']. \<exists>t. fmlookup (mn_tunnels ex_reg) k = Some t \<and> buildProxyMessage ex_reg_lib (tn_def t) = Inr (?req k)
      \<and> Type (?resp k) = TypeNewProxyResp \<and> DecodePayload (tl_unmarshal ex_reg_lib) (?resp k) = Inr (Some (PNewProxyResp (?npr k)))"
    by (simp add: ex_reg_def ex_reg_lib_def buildProxyMessage_def NewNewProxyMessage_def marshalMessage_def NewTunnel_def ex_def_def
        DecodePayload_def kind_of_type_def)
  have c: "mn_client ex_reg = Some ((NewControlClient [] [] [])\<lparr>cl_connected := True, cl_alive := True\<rparr>)" by (simp add: ex_reg_def)
  note s = registration_sync [OF c _ _ _ h r]
  have "e = None" "fmlookup (mn_tunnels m') ''web'' = map_option (registered (?npr ''web'')) (fmlookup (mn_tunnels ex_reg) ''web'')"
    "fmlookup (mn_tunnels m') ''db'' = fmlookup (mn_tunnels ex_reg) ''db''"
    using s [of "''web''"] s [of "''db''"] by simp_all
  then show ?thesis using r by (simp add: ex_reg_def registered_def set_status_def NewTunnel_def Let_def)
qed

end
