(* ===== verification/Go_Bytes.thy ===== *)
theory Go_Bytes
  imports Wire
begin

text \<open>The big-endian words of 16 and 64 bits of \<open>encoding/binary\<close>, beside the 32 bits of \<open>Wire\<close>.\<close>

definition put_uint16 :: "16 word \<Rightarrow> byte list" where
  "put_uint16 n = [ucast (drop_bit 8 n), ucast n]"

fun get_uint16 :: "byte list \<Rightarrow> 16 word" where
  "get_uint16 (a # b # _) = push_bit 8 (ucast a) OR ucast b"
| "get_uint16 _ = 0"

definition put_uint64 :: "64 word \<Rightarrow> byte list" where
  "put_uint64 n = put_uint32 (ucast (drop_bit 32 n)) @ put_uint32 (ucast n)"

definition get_uint64 :: "byte list \<Rightarrow> 64 word" where
  "get_uint64 bs = push_bit 32 (ucast (get_uint32 bs)) OR ucast (get_uint32 (drop 4 bs))"

lemma length_put_uint16 [simp]: "length (put_uint16 n) = 2"
  by (simp add: put_uint16_def)

lemma length_put_uint64 [simp]: "length (put_uint64 n) = 8"
  by (simp add: put_uint64_def)

lemma get_put_uint16 [simp]: "get_uint16 (put_uint16 n @ bs) = n"
proof (rule bit_word_eqI)
  fix i assume "i < LENGTH(16)"
  then show "bit (get_uint16 (put_uint16 n @ bs)) i = bit n i"
    by (cases "i < 8") (auto simp: put_uint16_def bit_simps)
qed

lemma get_put_uint64 [simp]: "get_uint64 (put_uint64 n @ bs) = n"
proof (rule bit_word_eqI)
  fix i assume "i < LENGTH(64)"
  then show "bit (get_uint64 (put_uint64 n @ bs)) i = bit n i"
    by (cases "i < 32") (auto simp: put_uint64_def get_uint64_def bit_simps)
qed

lemma get_put_uint64' [simp]: "get_uint64 (put_uint64 n) = n"
  using get_put_uint64 [of n "[]"] by simp

end
