(* ===== verification/Link_Probe.thy ===== *)
theory Link_Probe
  imports Go_Bytes Go_Float
begin

text \<open>
  Link quality on the desktop (\<open>desktop/internal/probe\<close>): the loss tracker (\<open>loss.go\<close>), the round trip
  estimator (\<open>rtt.go\<close>), the bandwidth estimator with its sort (\<open>bandwidth.go\<close>), the metrics
  (\<open>metrics.go\<close>) and the prober that sends, echoes and evaluates packets (\<open>probe.go\<close>). The counters of
  the estimators are numbers that do not wrap in the life of a process.
\<close>

section \<open>Metrics\<close>

record LinkMetrics =
  lm_PathID :: string
  lm_RTT :: duration
  lm_RTTMin :: duration
  lm_RTTMax :: duration
  lm_RTTJitter :: duration
  lm_LossRate :: rat
  lm_Bandwidth :: int
  lm_LastUpdated :: gotime
  lm_SampleCount :: int

definition no_metrics :: LinkMetrics where
  "no_metrics = \<lparr>lm_PathID = [], lm_RTT = 0, lm_RTTMin = 0, lm_RTTMax = 0, lm_RTTJitter = 0, lm_LossRate = 0, lm_Bandwidth = 0,
     lm_LastUpdated = 0, lm_SampleCount = 0\<rparr>"

definition milliseconds :: "duration \<Rightarrow> int" where
  "milliseconds d = (if d < 0 then - ((- d) div 1000000) else d div 1000000)"

definition IsReachable :: "LinkMetrics \<Rightarrow> bool" where
  "IsReachable m \<longleftrightarrow> lm_RTT m > 0 \<and> lm_RTT m < 30 * second"

text \<open>The scores that \<open>QualityScore\<close> and the scheduler's \<open>ScorePath\<close> compute alike.\<close>

definition rtt_score :: "rat \<Rightarrow> rat" where
  "rtt_score rttMs = 1 / (1 + rttMs / 100)"

definition bw_score :: "int \<Rightarrow> rat" where
  "bw_score bw = (if bw > 0 then of_int bw / (of_int bw + 1000000) else 1/2)"

definition QualityScore :: "LinkMetrics \<Rightarrow> rat" where
  "QualityScore m =
     (if \<not> IsReachable m then 0
      else 4/10 * rtt_score (of_int (milliseconds (lm_RTT m))) + 35/100 * (1 - lm_LossRate m) + 25/100 * bw_score (lm_Bandwidth m))"

section \<open>Loss\<close>

record lossEntry =
  le_seq :: "16 word"
  le_sentAt :: gotime
  le_received :: bool

record LossTracker =
  lt_window :: duration
  lt_entries :: "lossEntry list"
  lt_sent :: nat
  lt_received :: nat

definition NewLossTracker :: "duration \<Rightarrow> LossTracker" where
  "NewLossTracker window =
     \<lparr>lt_window = (if window \<le> 0 then 30 * second else window), lt_entries = [], lt_sent = 0, lt_received = 0\<rparr>"

definition RecordSent :: "gotime \<Rightarrow> 16 word \<Rightarrow> LossTracker \<Rightarrow> LossTracker" where
  "RecordSent now seq l =
     l\<lparr>lt_sent := lt_sent l + 1, lt_entries := lt_entries l @ [\<lparr>le_seq = seq, le_sentAt = now, le_received = False\<rparr>]\<rparr>"

text \<open>The loop of \<open>RecordReceived\<close> runs from the last entry to the first and stops at the first match.\<close>

fun mark_first :: "16 word \<Rightarrow> lossEntry list \<Rightarrow> lossEntry list" where
  "mark_first seq [] = []"
| "mark_first seq (e # es) =
     (if le_seq e = seq \<and> \<not> le_received e then e\<lparr>le_received := True\<rparr> # es else e # mark_first seq es)"

definition mark_received :: "16 word \<Rightarrow> lossEntry list \<Rightarrow> lossEntry list" where
  "mark_received seq es = rev (mark_first seq (rev es))"

definition RecordReceived :: "16 word \<Rightarrow> LossTracker \<Rightarrow> LossTracker" where
  "RecordReceived seq l = l\<lparr>lt_received := lt_received l + 1, lt_entries := mark_received seq (lt_entries l)\<rparr>"

definition pruneOld :: "gotime \<Rightarrow> LossTracker \<Rightarrow> LossTracker" where
  "pruneOld now l = l\<lparr>lt_entries := dropWhile (\<lambda>e. le_sentAt e < now - lt_window l) (lt_entries l)\<rparr>"

definition loss_ratio :: "lossEntry list \<Rightarrow> rat" where
  "loss_ratio es =
     (let inWindow = length es; lost = length (filter (\<lambda>e. \<not> le_received e) es)
      in if inWindow = 0 then 0 else of_nat lost / of_nat inWindow)"

definition LossRate :: "gotime \<Rightarrow> LossTracker \<Rightarrow> rat \<times> LossTracker" where
  "LossRate now l = (let l = pruneOld now l in (loss_ratio (lt_entries l), l))"

section \<open>Round trip\<close>

record RTTEstimator =
  re_alpha :: rat
  re_srtt :: duration
  re_rttvar :: duration
  re_rttMin :: duration
  re_rttMax :: duration
  re_count :: nat

definition NewRTTEstimator :: "int \<Rightarrow> RTTEstimator" where
  "NewRTTEstimator window0 =
     (let window = (if window0 \<le> 0 then 32 else window0)
      in \<lparr>re_alpha = 2 / (of_int window + 1), re_srtt = 0, re_rttvar = 0, re_rttMin = max_duration, re_rttMax = 0, re_count = 0\<rparr>)"

definition ewma :: "rat \<Rightarrow> duration \<Rightarrow> duration \<Rightarrow> duration" where
  "ewma alpha old x = to_duration (of_int old * (1 - alpha) + of_int x * alpha)"

definition rtt_Update :: "duration \<Rightarrow> RTTEstimator \<Rightarrow> RTTEstimator" where
  "rtt_Update rtt e0 =
     (let e = e0\<lparr>re_count := re_count e0 + 1,
                 re_rttMin := (if rtt < re_rttMin e0 then rtt else re_rttMin e0),
                 re_rttMax := (if rtt > re_rttMax e0 then rtt else re_rttMax e0)\<rparr>
      in if re_count e = 1 then e\<lparr>re_srtt := rtt, re_rttvar := (if rtt < 0 then - ((- rtt) div 2) else rtt div 2)\<rparr>
         else let srtt = ewma (re_alpha e) (re_srtt e) rtt;
                  diff = (if rtt - srtt < 0 then - (rtt - srtt) else rtt - srtt)
              in e\<lparr>re_srtt := srtt, re_rttvar := ewma (re_alpha e) (re_rttvar e) diff\<rparr>)"

definition rtt_Min :: "RTTEstimator \<Rightarrow> duration" where
  "rtt_Min e = (if re_count e = 0 then 0 else re_rttMin e)"

section \<open>Bandwidth\<close>

record BandwidthEstimator =
  be_samples :: "int list"
  be_maxStore :: nat

definition NewBandwidthEstimator :: BandwidthEstimator where
  "NewBandwidthEstimator = \<lparr>be_samples = [], be_maxStore = 64\<rparr>"

definition bits_per_second :: "int \<Rightarrow> duration \<Rightarrow> int" where
  "bits_per_second packetSize dispersion = to_duration (of_int (packetSize * 8) / (of_int dispersion / of_int second))"

definition AddSample :: "int \<Rightarrow> duration \<Rightarrow> BandwidthEstimator \<Rightarrow> BandwidthEstimator" where
  "AddSample packetSize dispersion b =
     (if dispersion \<le> 0 then b
      else let bps = bits_per_second packetSize dispersion in
           if bps \<le> 0 then b
           else let samples = be_samples b @ [bps] in
                b\<lparr>be_samples := (if length samples > be_maxStore b then tl samples else samples)\<rparr>)"

text \<open>
  \<open>sortInt64s\<close>: the inner loop, from the position where the key is to be put down to the front (the
  source's \<open>j + 1\<close>), then the outer loop.
\<close>

fun ins_loop :: "int \<Rightarrow> nat \<Rightarrow> int list \<Rightarrow> int list" where
  "ins_loop key 0 a = a[0 := key]"
| "ins_loop key (Suc j) a = (if a ! j > key then ins_loop key j (a[Suc j := a ! j]) else a[Suc j := key])"

function sort_loop :: "nat \<Rightarrow> int list \<Rightarrow> int list" where
  "sort_loop i a = (if i < length a then sort_loop (i + 1) (ins_loop (a ! i) i a) else a)"
  by pat_completeness auto

lemma length_ins_loop [simp, termination_simp]: "length (ins_loop key j a) = length a"
  by (induction key j a rule: ins_loop.induct) simp_all

termination sort_loop by (relation "measure (\<lambda>(i, a). length a - i)") auto

declare sort_loop.simps [simp del]

definition sortInt64s :: "int list \<Rightarrow> int list" where
  "sortInt64s a = sort_loop 1 a"

definition Estimate :: "BandwidthEstimator \<Rightarrow> int" where
  "Estimate b =
     (let n = length (be_samples b) in
      if n = 0 then 0
      else let sorted = sortInt64s (be_samples b) in
           if n mod 2 = 0 then (sorted ! (n div 2 - 1) + sorted ! (n div 2)) div 2 else sorted ! (n div 2))"

definition be_Latest :: "BandwidthEstimator \<Rightarrow> int" where
  "be_Latest b = (if be_samples b = [] then 0 else last (be_samples b))"

section \<open>The prober\<close>

abbreviation probeTypeRequest :: byte where "probeTypeRequest \<equiv> 1"
abbreviation probeTypeReply :: byte where "probeTypeReply \<equiv> 2"

text \<open>\<open>pr_written\<close> is what was written to the transport, \<open>pr_path\<close> the text of its addresses.\<close>

record Prober =
  pr_path :: string
  pr_metrics :: LinkMetrics
  pr_rttEst :: RTTEstimator
  pr_lossTrack :: LossTracker
  pr_bwEst :: BandwidthEstimator
  pr_seqNum :: "16 word"
  pr_written :: "byte list list"

definition NewProber :: "string \<Rightarrow> int \<Rightarrow> duration \<Rightarrow> Prober" where
  "NewProber path rttWindow lossWindow =
     \<lparr>pr_path = path, pr_metrics = no_metrics, pr_rttEst = NewRTTEstimator rttWindow, pr_lossTrack = NewLossTracker lossWindow,
      pr_bwEst = NewBandwidthEstimator, pr_seqNum = 0, pr_written = []\<rparr>"

text \<open>The Unix epoch on this clock, and \<open>UnixNano\<close>.\<close>

abbreviation unix_epoch :: gotime where "unix_epoch \<equiv> 62135596800000000000"

definition unix_nano :: "gotime \<Rightarrow> 64 word" where
  "unix_nano t = word_of_int (t - unix_epoch)"

definition probe_packet :: "gotime \<Rightarrow> 16 word \<Rightarrow> byte list" where
  "probe_packet now seq = probeTypeRequest # put_uint16 seq @ [0] @ put_uint64 (unix_nano now)"

definition sendProbe :: "gotime \<Rightarrow> Prober \<Rightarrow> Prober" where
  "sendProbe now p =
     (let seq = pr_seqNum p + 1
      in p\<lparr>pr_seqNum := seq, pr_lossTrack := RecordSent now seq (pr_lossTrack p),
           pr_written := pr_written p @ [probe_packet now seq]\<rparr>)"

definition updateMetrics :: "gotime \<Rightarrow> Prober \<Rightarrow> Prober" where
  "updateMetrics now p =
     (case LossRate now (pr_lossTrack p) of
        (rate, l) \<Rightarrow>
          p\<lparr>pr_lossTrack := l,
            pr_metrics := \<lparr>lm_PathID = pr_path p, lm_RTT = re_srtt (pr_rttEst p), lm_RTTMin = rtt_Min (pr_rttEst p),
               lm_RTTMax = re_rttMax (pr_rttEst p), lm_RTTJitter = re_rttvar (pr_rttEst p), lm_LossRate = rate,
               lm_Bandwidth = Estimate (pr_bwEst p), lm_LastUpdated = now, lm_SampleCount = int (re_count (pr_rttEst p))\<rparr>\<rparr>)"

text \<open>A packet read from the transport.\<close>

definition probe_rtt :: "gotime \<Rightarrow> byte list \<Rightarrow> duration" where
  "probe_rtt now buf =
     (let rtt = time_sub now (unix_epoch + sint (get_uint64 (drop 4 buf))) in if rtt \<le> 0 then 1000 else rtt)"

definition handle_probe :: "gotime \<Rightarrow> byte list \<Rightarrow> Prober \<Rightarrow> Prober" where
  "handle_probe now buf p =
     (if length buf < 12 then p
      else if hd buf = probeTypeRequest then p\<lparr>pr_written := pr_written p @ [probeTypeReply # tl buf]\<rparr>
      else if hd buf = probeTypeReply then
        let rtt = probe_rtt now buf in
        updateMetrics now
          (p\<lparr>pr_lossTrack := RecordReceived (get_uint16 (drop 1 buf)) (pr_lossTrack p),
             pr_rttEst := rtt_Update rtt (pr_rttEst p),
             pr_bwEst := AddSample (int (length buf)) rtt (pr_bwEst p)\<rparr>)
      else p)"

end
