(* ===== verification/Link_Quality.thy ===== *)
theory Link_Quality
  imports Link_Probe
begin

text \<open>
  What the probes of \<open>Link_Probe\<close> measure: the loss rate against the history of all probes, the smoothed
  round trip between the extremes, the bandwidth as a median, and a probe that comes back.
\<close>

section \<open>The loss tracker\<close>

datatype loss_op = LSent gotime "16 word" | LReceived gotime "16 word" | LRate gotime

primrec op_time :: "loss_op \<Rightarrow> gotime" where
  "op_time (LSent t seq) = t"
| "op_time (LReceived t seq) = t"
| "op_time (LRate t) = t"

primrec loss_apply :: "loss_op \<Rightarrow> LossTracker \<Rightarrow> LossTracker" where
  "loss_apply (LSent t seq) l = RecordSent t seq l"
| "loss_apply (LReceived t seq) l = RecordReceived seq l"
| "loss_apply (LRate t) l = snd (LossRate t l)"

text \<open>The specification: every probe is remembered for ever.\<close>

primrec hist_apply :: "loss_op \<Rightarrow> lossEntry list \<Rightarrow> lossEntry list" where
  "hist_apply (LSent t seq) h = h @ [\<lparr>le_seq = seq, le_sentAt = t, le_received = False\<rparr>]"
| "hist_apply (LReceived t seq) h = mark_received seq h"
| "hist_apply (LRate t) h = h"

definition loss_history :: "loss_op list \<Rightarrow> lossEntry list" where
  "loss_history ops = fold hist_apply ops []"

lemma mark_first_append:
  "mark_first seq (xs @ ys) =
     (if \<exists>e \<in> set xs. le_seq e = seq \<and> \<not> le_received e then mark_first seq xs @ ys else xs @ mark_first seq ys)"
  by (induction xs) auto

lemma mark_first_none: "\<not> (\<exists>e \<in> set xs. le_seq e = seq \<and> \<not> le_received e) \<Longrightarrow> mark_first seq xs = xs"
  by (induction xs) auto

lemma mark_first_times [simp]: "map le_sentAt (mark_first seq xs) = map le_sentAt xs"
  by (induction xs) auto

lemma mark_times [simp]: "map le_sentAt (mark_received seq es) = map le_sentAt es"
  by (simp add: mark_received_def flip: rev_map)

lemma mark_length [simp]: "length (mark_received seq es) = length es"
  by (metis length_map mark_times)

text \<open>Marking a suffix is the suffix of what marking the whole gives.\<close>

lemma mark_drop: "mark_received seq (drop k es) = drop k (mark_received seq es)"
proof -
  let ?xs = "take k es" and ?ys = "drop k es"
  have "mark_received seq es = mark_received seq (?xs @ ?ys)" by simp
  also have "\<dots> = (if \<exists>e \<in> set ?ys. le_seq e = seq \<and> \<not> le_received e then ?xs @ mark_received seq ?ys else mark_received seq ?xs @ ?ys)"
    by (simp add: mark_received_def mark_first_append del: append_take_drop_id) blast
  finally have m: "mark_received seq es = (if \<exists>e \<in> set ?ys. le_seq e = seq \<and> \<not> le_received e then ?xs @ mark_received seq ?ys
      else mark_received seq ?xs @ ?ys)" .
  show ?thesis
  proof (cases "k \<le> length es")
    case False
    then show ?thesis by (simp add: mark_received_def [of seq "[]"])
  next
    case True
    then have len: "length ?xs = k" "length (mark_received seq ?xs) = k" by simp_all
    have "mark_received seq ?ys = ?ys" if "\<not> (\<exists>e \<in> set ?ys. le_seq e = seq \<and> \<not> le_received e)"
      using that by (simp add: mark_received_def mark_first_none)
    then show ?thesis using len unfolding m by simp
  qed
qed

text \<open>The entries kept are the history without some that left the window.\<close>

definition loss_inv :: "gotime \<Rightarrow> lossEntry list \<Rightarrow> LossTracker \<Rightarrow> bool" where
  "loss_inv now h l \<longleftrightarrow> sorted (map le_sentAt h) \<and> (\<forall>e \<in> set h. le_sentAt e \<le> now)
     \<and> (\<exists>k. lt_entries l = drop k h \<and> (\<forall>e \<in> set (take k h). le_sentAt e < now - lt_window l))"

lemma loss_invI:
  "sorted (map le_sentAt h) \<Longrightarrow> \<forall>e \<in> set h. le_sentAt e \<le> now \<Longrightarrow> lt_entries l = drop k h
    \<Longrightarrow> \<forall>e \<in> set (take k h). le_sentAt e < now - lt_window l \<Longrightarrow> loss_inv now h l"
  unfolding loss_inv_def by blast

lemma dropWhile_drop: "\<exists>n \<le> length xs. dropWhile P xs = drop n xs \<and> (\<forall>x \<in> set (take n xs). P x)"
proof -
  have "xs = takeWhile P xs @ dropWhile P xs" by simp
  then have "dropWhile P xs = drop (length (takeWhile P xs)) xs" "take (length (takeWhile P xs)) xs = takeWhile P xs"
    by (metis append_eq_conv_conj)+
  then show ?thesis by (metis length_takeWhile_le set_takeWhileD)
qed

lemma loss_inv_later: "loss_inv t h l \<Longrightarrow> t \<le> now \<Longrightarrow> loss_inv now h l"
  unfolding loss_inv_def by (meson diff_right_mono order_trans order_less_le_trans)

lemma loss_inv_prune:
  assumes "loss_inv now h l"
  shows "loss_inv now h (pruneOld now l)"
proof -
  obtain k where k: "lt_entries l = drop k h" "\<forall>e \<in> set (take k h). le_sentAt e < now - lt_window l"
    and s: "sorted (map le_sentAt h)" "\<forall>e \<in> set h. le_sentAt e \<le> now"
    using assms unfolding loss_inv_def by blast
  obtain n where n: "dropWhile (\<lambda>e. le_sentAt e < now - lt_window l) (drop k h) = drop n (drop k h)"
    "\<forall>e \<in> set (take n (drop k h)). le_sentAt e < now - lt_window l"
    using dropWhile_drop [of "drop k h" "\<lambda>e. le_sentAt e < now - lt_window l"] by blast
  show ?thesis
  proof (rule loss_invI [OF s, of _ "k + n"])
    show "lt_entries (pruneOld now l) = drop (k + n) h" using k(1) n(1) by (simp add: pruneOld_def add.commute)
    show "\<forall>e \<in> set (take (k + n) h). le_sentAt e < now - lt_window (pruneOld now l)"
      using k(2) n(2) by (auto simp: pruneOld_def take_add)
  qed
qed

lemma loss_inv_step:
  assumes "loss_inv t h l" and "t \<le> op_time op" and "0 < lt_window l"
  shows "loss_inv (op_time op) (hist_apply op h) (loss_apply op l) \<and> lt_window (loss_apply op l) = lt_window l"
proof (cases op)
  case (LSent now seq)
  have i: "loss_inv now h l" using loss_inv_later [OF assms(1)] assms(2) LSent by simp
  then obtain k where k: "lt_entries l = drop k h" "\<forall>e \<in> set (take k h). le_sentAt e < now - lt_window l"
    and s: "sorted (map le_sentAt h)" "\<forall>e \<in> set h. le_sentAt e \<le> now"
    unfolding loss_inv_def by blast
  have "loss_inv now (h @ [\<lparr>le_seq = seq, le_sentAt = now, le_received = False\<rparr>]) (RecordSent now seq l)"
    by (rule loss_invI [of _ _ _ "min k (length h)"])
      (use k s in \<open>auto simp: RecordSent_def sorted_append min_def\<close>)
  then show ?thesis using LSent by (simp add: RecordSent_def)
next
  case (LReceived now seq)
  have i: "loss_inv now h l" using loss_inv_later [OF assms(1)] assms(2) LReceived by simp
  then obtain k where k: "lt_entries l = drop k h" "\<forall>e \<in> set (take k h). le_sentAt e < now - lt_window l"
    and s: "sorted (map le_sentAt h)" "\<forall>e \<in> set h. le_sentAt e \<le> now"
    unfolding loss_inv_def by blast
  have times: "(\<forall>e \<in> set (take j (mark_received seq h)). P (le_sentAt e)) \<longleftrightarrow> (\<forall>e \<in> set (take j h). P (le_sentAt e))" for P j
  proof -
    have "map le_sentAt (take j (mark_received seq h)) = map le_sentAt (take j h)" by (simp flip: take_map)
    then have "(\<forall>y \<in> set (map le_sentAt (take j (mark_received seq h))). P y) \<longleftrightarrow> (\<forall>y \<in> set (map le_sentAt (take j h)). P y)"
      by (rule arg_cong)
    then show ?thesis by simp
  qed
  have "loss_inv now (mark_received seq h) (RecordReceived seq l)"
  proof (rule loss_invI [of _ _ _ k])
    show "sorted (map le_sentAt (mark_received seq h))" using s by simp
    show "\<forall>e \<in> set (mark_received seq h). le_sentAt e \<le> now" using times [of "length h" "\<lambda>x. x \<le> now"] s by simp
    show "lt_entries (RecordReceived seq l) = drop k (mark_received seq h)" using k(1) by (simp add: RecordReceived_def mark_drop)
    show "\<forall>e \<in> set (take k (mark_received seq h)). le_sentAt e < now - lt_window (RecordReceived seq l)"
      using times [of k "\<lambda>x. x < now - lt_window l"] k(2) by (simp add: RecordReceived_def)
  qed
  then show ?thesis using LReceived by (simp add: RecordReceived_def)
next
  case (LRate now)
  have "loss_inv now h l" using loss_inv_later [OF assms(1)] assms(2) LRate by simp
  then show ?thesis using LRate loss_inv_prune by (simp add: LossRate_def pruneOld_def)
qed


lemma loss_inv_run:
  "loss_inv t h l \<Longrightarrow> sorted (t # map op_time ops) \<Longrightarrow> 0 < lt_window l
    \<Longrightarrow> loss_inv (last (t # map op_time ops)) (fold hist_apply ops h) (fold loss_apply ops l)
      \<and> lt_window (fold loss_apply ops l) = lt_window l"
proof (induction ops arbitrary: t h l)
  case Nil
  then show ?case by simp
next
  case (Cons op ops)
  have i: "loss_inv (op_time op) (hist_apply op h) (loss_apply op l)" "lt_window (loss_apply op l) = lt_window l"
    using loss_inv_step [OF Cons.prems(1) _ Cons.prems(3)] Cons.prems(2) by simp_all
  then show ?case using Cons.IH [OF i(1)] Cons.prems(2,3) by simp
qed

lemma loss_ratio_bounds: "0 \<le> loss_ratio es \<and> loss_ratio es \<le> 1"
proof -
  let ?x = "length (filter (\<lambda>e. \<not> le_received e) es)"
  have "?x \<le> length es" by simp
  then have "(of_nat ?x :: rat) \<le> of_nat (length es)" by (simp only: of_nat_le_iff)
  then show ?thesis by (simp add: loss_ratio_def Let_def divide_le_eq_1)
qed

text \<open>
  The loss rate. Whatever probes were sent, acknowledged and evaluated before, in the order of the
  clock, the loss rate is the share of the probes sent within the window that are not acknowledged, among
  all probes ever sent: forgetting old entries changes no later rate, although the sequence numbers wrap
  and an acknowledgement counts for the latest open probe of its number. It lies between 0 and 1.
\<close>

theorem loss_rate_window:
  assumes "sorted (map op_time ops @ [now])" and "l = fold loss_apply ops (NewLossTracker window)"
    and "es = filter (\<lambda>e. now - lt_window l \<le> le_sentAt e) (loss_history ops)"
  shows "fst (LossRate now l) = loss_ratio es \<and> 0 \<le> loss_ratio es \<and> loss_ratio es \<le> 1"
proof -
  have w: "0 < lt_window (NewLossTracker window)" by (simp add: NewLossTracker_def)
  define t where "t = (if ops = [] then now else op_time (hd ops))"
  have srt: "sorted (t # map op_time ops)" using assms(1) by (cases ops) (auto simp: t_def sorted_append)
  have "t \<in> set (map op_time ops @ [now])" by (cases ops) (simp_all add: t_def)
  moreover have "last (t # map op_time ops) \<in> set (t # map op_time ops)" by (rule last_in_set) simp
  ultimately have "last (t # map op_time ops) \<in> set (map op_time ops @ [now])" by auto
  then have lst: "last (t # map op_time ops) \<le> now" using assms(1) by (auto simp: sorted_append)
  have "loss_inv t [] (NewLossTracker window)" by (rule loss_invI [of _ _ _ 0]) (simp_all add: NewLossTracker_def)
  then have "loss_inv (last (t # map op_time ops)) (loss_history ops) l"
    using loss_inv_run [OF _ srt w] assms(2) by (simp add: loss_history_def)
  then have i: "loss_inv now (loss_history ops) (pruneOld now l)" using loss_inv_later [OF _ lst] loss_inv_prune by blast
  then obtain k where k: "lt_entries (pruneOld now l) = drop k (loss_history ops)"
    "\<forall>e \<in> set (take k (loss_history ops)). le_sentAt e < now - lt_window l" and so: "sorted (map le_sentAt (loss_history ops))"
    unfolding loss_inv_def by (auto simp: pruneOld_def)
  have "es = filter (\<lambda>e. now - lt_window l \<le> le_sentAt e) (take k (loss_history ops)) @
      filter (\<lambda>e. now - lt_window l \<le> le_sentAt e) (drop k (loss_history ops))"
    unfolding assms(3) by (metis append_take_drop_id filter_append)
  moreover have "filter (\<lambda>e. now - lt_window l \<le> le_sentAt e) (take k (loss_history ops)) = []"
    using k(2) by (simp add: filter_empty_conv not_le)
  moreover have "filter (\<lambda>e. now - lt_window l \<le> le_sentAt e) (drop k (loss_history ops)) = drop k (loss_history ops)"
  proof (rule filter_True)
    have "sorted (map le_sentAt (lt_entries (pruneOld now l)))" using k(1) so by (simp add: sorted_wrt_drop flip: drop_map)
    moreover have "le_sentAt (hd (lt_entries (pruneOld now l))) \<ge> now - lt_window l" if "lt_entries (pruneOld now l) \<noteq> []"
      using hd_dropWhile [of "\<lambda>e. le_sentAt e < now - lt_window l" "lt_entries l"] that by (simp add: pruneOld_def not_less)
    ultimately show "\<forall>e \<in> set (drop k (loss_history ops)). now - lt_window l \<le> le_sentAt e"
      unfolding k(1) [symmetric] by (cases "lt_entries (pruneOld now l)") (auto intro: order_trans)
  qed
  ultimately have "es = lt_entries (pruneOld now l)" using k(1) by simp
  then have "fst (LossRate now l) = loss_ratio es" by (simp add: LossRate_def Let_def)
  then show ?thesis using loss_ratio_bounds [of es] by simp
qed

theorem loss_rate_window_witness:
  "fst (LossRate 50 (fold loss_apply [LSent 1 7, LSent 20 7, LReceived 21 7, LRate 30, LSent 45 8] (NewLossTracker 40))) = 1/2"
proof -
  let ?ops = "[LSent 1 7, LSent 20 7, LReceived 21 7, LRate 30, LSent 45 8]"
  have "lt_window (fold loss_apply ?ops (NewLossTracker 40)) = 40"
    by (simp add: NewLossTracker_def RecordSent_def RecordReceived_def LossRate_def pruneOld_def)
  moreover have "loss_history ?ops = [\<lparr>le_seq = 7, le_sentAt = 1, le_received = False\<rparr>, \<lparr>le_seq = 7, le_sentAt = 20, le_received = True\<rparr>,
      \<lparr>le_seq = 8, le_sentAt = 45, le_received = False\<rparr>]"
    by (simp add: loss_history_def mark_received_def)
  ultimately show ?thesis
    using loss_rate_window [of ?ops 50 _ 40, OF _ refl refl] by (simp add: loss_ratio_def)
qed

section \<open>The estimators\<close>

text \<open>The average of two numbers is between them.\<close>

lemma ewma_between:
  assumes "0 \<le> a" and "a \<le> x" and "x \<le> b" and "a \<le> y" and "y \<le> b" and "0 \<le> alpha" and "alpha \<le> 1"
  shows "a \<le> ewma alpha x y \<and> ewma alpha x y \<le> b"
  unfolding ewma_def
proof (rule to_duration_between [OF assms(1)])
  have "(of_int a :: rat) = of_int a * (1 - alpha) + of_int a * alpha" by (simp add: algebra_simps)
  also have "\<dots> \<le> of_int x * (1 - alpha) + of_int y * alpha"
    by (intro add_mono mult_right_mono) (use assms in simp_all)
  finally show "of_int a \<le> of_int x * (1 - alpha) + of_int y * alpha" .
  have "of_int x * (1 - alpha) + of_int y * alpha \<le> of_int b * (1 - alpha) + of_int b * alpha"
    by (intro add_mono mult_right_mono) (use assms in simp_all)
  then show "of_int x * (1 - alpha) + of_int y * alpha \<le> of_int b" by (simp add: algebra_simps)
qed

definition rtt_inv :: "duration list \<Rightarrow> RTTEstimator \<Rightarrow> bool" where
  "rtt_inv rtts e \<longleftrightarrow> re_count e = length rtts \<and> 0 \<le> re_alpha e \<and> re_alpha e \<le> 1
     \<and> re_rttMin e = Min (insert max_duration (set rtts)) \<and> re_rttMax e = Max (insert 0 (set rtts))
     \<and> (rtts \<noteq> [] \<longrightarrow> re_rttMin e \<le> re_srtt e \<and> re_srtt e \<le> re_rttMax e \<and> 0 \<le> re_rttvar e \<and> re_rttvar e \<le> re_rttMax e)"

lemma rtt_inv_new: "rtt_inv [] (NewRTTEstimator window)"
proof -
  have "(0 :: rat) \<le> 2 / (of_int w + 1) \<and> 2 / (of_int w + 1) \<le> (1 :: rat)" if "0 < w" for w :: int
  proof -
    have "(1 :: rat) \<le> of_int w" using that by simp
    then show ?thesis by (simp add: divide_le_eq)
  qed
  then show ?thesis by (simp add: rtt_inv_def NewRTTEstimator_def Let_def)
qed

lemma rtt_inv_update:
  assumes "rtt_inv rtts e" and "0 \<le> rtt" and "rtt \<le> max_duration" and "\<forall>r \<in> set rtts. 0 \<le> r \<and> r \<le> max_duration"
  shows "rtt_inv (rtts @ [rtt]) (rtt_Update rtt e)"
proof -
  let ?mn = "min (re_rttMin e) rtt" and ?mx = "max (re_rttMax e) rtt"
  have mn: "?mn = Min (insert max_duration (set (rtts @ [rtt])))" and mx: "?mx = Max (insert 0 (set (rtts @ [rtt])))"
    using assms(1) by (simp_all add: rtt_inv_def insert_commute [of _ rtt] min.commute max.commute)
  have up: "(if rtt < re_rttMin e then rtt else re_rttMin e) = ?mn" "(if rtt > re_rttMax e then rtt else re_rttMax e) = ?mx"
    by (simp_all add: min_def max_def)
  show ?thesis
  proof (cases "rtts = []")
    case True
    then show ?thesis using assms up mn mx by (auto simp: rtt_inv_def rtt_Update_def Let_def)
  next
    case False
    have z: "0 \<le> re_rttMin e" using assms(1,4) False by (simp add: rtt_inv_def)
    have b: "re_rttMin e \<le> re_srtt e" "re_srtt e \<le> re_rttMax e" "0 \<le> re_rttvar e" "re_rttvar e \<le> re_rttMax e"
      "0 \<le> re_alpha e" "re_alpha e \<le> 1" and cnt: "re_count e + 1 \<noteq> 1"
      using assms(1) False by (auto simp: rtt_inv_def)
    define sr where "sr = ewma (re_alpha e) (re_srtt e) rtt"
    define d where "d = (if rtt - sr < 0 then - (rtt - sr) else rtt - sr)"
    define v where "v = ewma (re_alpha e) (re_rttvar e) d"
    have s: "?mn \<le> sr" "sr \<le> ?mx"
      using ewma_between [of ?mn "re_srtt e" ?mx rtt "re_alpha e"] b z assms(2) by (simp_all add: sr_def)
    have "0 \<le> d" "d \<le> ?mx" using s assms(2) z by (auto simp: d_def)
    then have v: "0 \<le> v" "v \<le> ?mx"
      using ewma_between [of 0 "re_rttvar e" ?mx d "re_alpha e"] b by (simp_all add: v_def)
    have e: "rtt_Update rtt e = e\<lparr>re_count := re_count e + 1, re_rttMin := ?mn, re_rttMax := ?mx, re_srtt := sr, re_rttvar := v\<rparr>"
      using cnt by (simp add: rtt_Update_def Let_def up v_def d_def sr_def)
    show ?thesis unfolding e rtt_inv_def using b s v mn mx assms(1) by (simp add: rtt_inv_def)
  qed
qed

lemma rtt_inv_run:
  assumes "\<forall>r \<in> set rtts. 0 \<le> r \<and> r \<le> max_duration"
  shows "rtt_inv rtts (fold rtt_Update rtts (NewRTTEstimator window))"
  using assms
proof (induction rtts rule: rev_induct)
  case Nil
  then show ?case by (simp add: rtt_inv_new)
next
  case (snoc r rs)
  then show ?case using rtt_inv_update [OF snoc.IH] by simp
qed


text \<open>
  The smoothed round trip. After any samples the estimator reports their least and greatest, the
  smoothed value lies between the two, and the variation between zero and the greatest, truncation to
  whole nanoseconds included.
\<close>

theorem rtt_between_extremes:
  assumes "rtts \<noteq> []" and "\<forall>r \<in> set rtts. 0 \<le> r \<and> r \<le> max_duration" and "e = fold rtt_Update rtts (NewRTTEstimator window)"
  shows "rtt_Min e = Min (set rtts) \<and> re_rttMax e = Max (set rtts) \<and> rtt_Min e \<le> re_srtt e \<and> re_srtt e \<le> re_rttMax e
    \<and> 0 \<le> re_rttvar e \<and> re_rttvar e \<le> re_rttMax e"
proof -
  have i: "rtt_inv rtts e" using rtt_inv_run [OF assms(2)] assms(3) by simp
  have "Min (insert max_duration (set rtts)) = Min (set rtts)"
    using assms(1,2) by (simp add: min_def) (meson Min_in List.finite_set antisym set_empty)
  moreover have "Max (insert 0 (set rtts)) = Max (set rtts)"
    using assms(1,2) by (simp add: max_def)
  ultimately show ?thesis using i assms(1) by (simp add: rtt_inv_def rtt_Min_def)
qed

theorem rtt_between_extremes_witness:
  "case fold rtt_Update [30, 10, 21] (NewRTTEstimator 3) of e \<Rightarrow> rtt_Min e = 10 \<and> re_rttMax e = 30 \<and> 10 \<le> re_srtt e \<and> re_srtt e \<le> 30"
  using rtt_between_extremes [of "[30, 10, 21]" _ 3, OF _ _ refl] by simp

section \<open>The median\<close>

lemma ins_loop_sort: "sorted xs \<Longrightarrow> ins_loop key (length xs) (xs @ z # ys) = sort (xs @ [key]) @ ys"
proof (induction xs arbitrary: z ys rule: rev_induct)
  case Nil
  then show ?case by simp
next
  case (snoc x xs)
  have s: "sorted xs" "\<forall>y \<in> set xs. y \<le> x" using snoc.prems by (auto simp: sorted_append)
  show ?case
  proof (cases "x > key")
    case True
    have "sort ((xs @ [x]) @ [key]) = sort (xs @ [key]) @ [x]"
      by (rule properties_for_sort) (use s True in \<open>auto simp: sorted_append\<close>)
    then show ?thesis using True snoc.IH [OF s(1), of x "x # ys"] by (simp add: nth_append list_update_append)
  next
    case False
    have "sort ((xs @ [x]) @ [key]) = xs @ [x, key]"
      by (rule properties_for_sort) (use s False in \<open>auto simp: sorted_append\<close>)
    then show ?thesis using False by (simp add: nth_append list_update_append)
  qed
qed

lemma sort_loop_sort: "sorted (take i a) \<Longrightarrow> sort_loop i a = sort a"
proof (induction i a rule: sort_loop.induct)
  case (1 i a)
  show ?case
  proof (cases "i < length a")
    case False
    then show ?thesis using 1(2) by (simp add: sort_loop.simps [of i a] sorted_sort_id)
  next
    case True
    let ?b = "sort (take i a @ [a ! i]) @ drop (Suc i) a"
    have a: "a = take i a @ a ! i # drop (Suc i) a" using True by (simp add: id_take_nth_drop)
    have b: "ins_loop (a ! i) i a = ?b"
      using ins_loop_sort [OF 1(2), of "a ! i" "a ! i" "drop (Suc i) a"] True a by simp
    have "length (sort (take i a @ [a ! i])) = i + 1" using True by simp
    then have "take (i + 1) ?b = sort (take i a @ [a ! i])" by (metis append_eq_conv_conj)
    then have "sorted (take (i + 1) ?b)" by (metis sorted_sort)
    then have "sort_loop (i + 1) ?b = sort ?b" by (rule 1(1) [OF True, unfolded b])
    also have "\<dots> = sort a"
    proof (rule properties_for_sort)
      show "mset (sort a) = mset ?b" using arg_cong [OF a, of mset] by simp
    qed simp
    finally show ?thesis using True b by (simp add: sort_loop.simps [of i a])
  qed
qed

lemma sortInt64s_sort [simp]: "sortInt64s a = sort a"
proof -
  have "sorted (take 1 a)" by (cases a) simp_all
  then show ?thesis by (simp only: sortInt64s_def sort_loop_sort)
qed

text \<open>The reference: the observations that count, and the median of a list.\<close>

definition valid_rates :: "(int \<times> duration) list \<Rightarrow> int list" where
  "valid_rates obs = filter (\<lambda>bps. 0 < bps) (map (\<lambda>(sz, d). bits_per_second sz d) (filter (\<lambda>(sz, d). 0 < d) obs))"

definition median :: "int list \<Rightarrow> int" where
  "median xs =
     (let s = sort xs; n = length xs
      in if n = 0 then 0 else if even n then (s ! (n div 2 - 1) + s ! (n div 2)) div 2 else s ! (n div 2))"

lemma AddSample_window:
  assumes "be_samples b = drop (length v - 64) v" and "be_maxStore b = 64"
  shows "be_samples (AddSample sz d b) = drop (length (v @ valid_rates [(sz, d)]) - 64) (v @ valid_rates [(sz, d)])
    \<and> be_maxStore (AddSample sz d b) = 64"
proof -
  have "drop (length v - 64) (tl v) = drop (length v - 63) v" if "63 < length v - (length v - 64)"
  proof -
    have "Suc (length v - 64) = length v - 63" using that by linarith
    then show ?thesis by (metis drop_Suc)
  qed
  then show ?thesis using assms by (auto simp: AddSample_def valid_rates_def Let_def tl_drop)
qed

lemma AddSample_run:
  "be_samples (fold (\<lambda>(sz, d). AddSample sz d) obs NewBandwidthEstimator) = drop (length (valid_rates obs) - 64) (valid_rates obs)
    \<and> be_maxStore (fold (\<lambda>(sz, d). AddSample sz d) obs NewBandwidthEstimator) = 64"
proof (induction obs rule: rev_induct)
  case Nil
  then show ?case by (simp add: NewBandwidthEstimator_def valid_rates_def)
next
  case (snoc ob obs)
  obtain sz d where ob: "ob = (sz, d)" by (cases ob)
  have "valid_rates (obs @ [ob]) = valid_rates obs @ valid_rates [(sz, d)]" by (simp add: valid_rates_def ob)
  then show ?case using AddSample_window snoc.IH ob by simp
qed

lemma Estimate_median: "Estimate b = median (be_samples b)"
  by (simp add: Estimate_def median_def Let_def even_iff_mod_2_eq_zero)

text \<open>
  The bandwidth. The insertion sort of the estimator sorts, and the estimate is the median of the
  last 64 observations that count: those with a positive gap that give a positive rate.
\<close>

theorem bandwidth_median:
  "Estimate (fold (\<lambda>(sz, d). AddSample sz d) obs NewBandwidthEstimator) = median (drop (length (valid_rates obs) - 64) (valid_rates obs))
    \<and> sortInt64s a = sort a"
  using AddSample_run [of obs] by (simp only: Estimate_median sortInt64s_sort simp_thms)

section \<open>A probe and its echo\<close>

lemma sint_of_int64: "min_duration \<le> x \<Longrightarrow> x \<le> max_duration \<Longrightarrow> sint (word_of_int x :: 64 word) = x"
  by (simp add: signed_of_int signed_take_bit_int_eq_self)

lemma sint_unix_nano:
  assumes "min_duration \<le> t - unix_epoch" and "t - unix_epoch \<le> max_duration"
  shows "unix_epoch + sint (unix_nano t) = t"
proof -
  have "sint (unix_nano t) = t - unix_epoch"
    unfolding unix_nano_def by (rule sint_of_int64 [OF assms])
  then show ?thesis by simp
qed

text \<open>
  A probe and its echo. A probe sent at one time, echoed by the peer and read at a later one counts
  as received, and adds the time between as a sample of the round trip and of the bandwidth; the peer
  keeps no trace of it but the reply. The clock has to be in the range of 64 bits of nanoseconds.
\<close>

theorem probe_echo:
  assumes "p1 = sendProbe t p" and "q1 = handle_probe u (last (pr_written p1)) q" and "p2 = handle_probe t' (last (pr_written q1)) p1"
    and "t < t'" and "t' - t \<le> max_duration" and "min_duration \<le> t - unix_epoch" and "t - unix_epoch \<le> max_duration"
  shows "pr_rttEst p2 = rtt_Update (t' - t) (pr_rttEst p) \<and> pr_bwEst p2 = AddSample 12 (t' - t) (pr_bwEst p)
    \<and> lt_received (pr_lossTrack p2) = lt_received (pr_lossTrack p) + 1 \<and> lt_sent (pr_lossTrack p2) = lt_sent (pr_lossTrack p) + 1
    \<and> lt_entries (pr_lossTrack p2) = dropWhile (\<lambda>e. le_sentAt e < t' - lt_window (pr_lossTrack p))
        (lt_entries (pr_lossTrack p) @ [\<lparr>le_seq = pr_seqNum p + 1, le_sentAt = t, le_received = True\<rparr>])
    \<and> lm_RTT (pr_metrics p2) = re_srtt (pr_rttEst p2) \<and> q1 = q\<lparr>pr_written := pr_written q1\<rparr>"
proof -
  let ?seq = "pr_seqNum p + 1"
  have pkt: "last (pr_written p1) = probe_packet t ?seq" using assms(1) by (simp add: sendProbe_def Let_def)
  have len: "length (probe_packet t ?seq) = 12" by (simp add: probe_packet_def)
  have q1: "q1 = q\<lparr>pr_written := pr_written q @ [probeTypeReply # tl (probe_packet t ?seq)]\<rparr>"
    using assms(2) len unfolding pkt by (simp add: handle_probe_def) (simp add: probe_packet_def)
  let ?reply = "probeTypeReply # tl (probe_packet t ?seq)"
  have seq: "get_uint16 (drop 1 ?reply) = ?seq" by (simp add: probe_packet_def)
  have "drop 4 ?reply = put_uint64 (unix_nano t)" by (simp add: probe_packet_def put_uint16_def)
  then have rtt: "probe_rtt t' ?reply = t' - t"
    using sint_unix_nano [OF assms(6,7)] assms(4,5) by (simp add: probe_rtt_def Let_def time_sub_def)
  have mark: "mark_received ?seq (es @ [\<lparr>le_seq = ?seq, le_sentAt = t, le_received = False\<rparr>]) = es @ [\<lparr>le_seq = ?seq, le_sentAt = t, le_received = True\<rparr>]" for es
    by (simp add: mark_received_def)
  have l: "length ?reply = 12" using len by (cases "probe_packet t ?seq") (simp_all add: probe_packet_def)
  have p2: "p2 = updateMetrics t' (p1\<lparr>pr_lossTrack := RecordReceived ?seq (pr_lossTrack p1), pr_rttEst := rtt_Update (t' - t) (pr_rttEst p1),
      pr_bwEst := AddSample 12 (t' - t) (pr_bwEst p1)\<rparr>)"
    using assms(3) l seq rtt q1 by (simp add: handle_probe_def Let_def)
  show ?thesis using q1 unfolding p2 assms(1) sendProbe_def Let_def
    by (simp add: updateMetrics_def LossRate_def Let_def RecordReceived_def RecordSent_def pruneOld_def mark)
qed

theorem probe_echo_witness:
  "let p = NewProber ''a'' 32 0; q = NewProber ''b'' 32 0; t = unix_epoch + 5;
       p1 = sendProbe t p; q1 = handle_probe (t + 3) (last (pr_written p1)) q
   in pr_rttEst (handle_probe (t + 8) (last (pr_written q1)) p1) = rtt_Update 8 (pr_rttEst p)"
  unfolding Let_def
  using probe_echo [of _ "unix_epoch + 5" "NewProber ''a'' 32 0" _ "unix_epoch + 8" "NewProber ''b'' 32 0" _ "unix_epoch + 13", OF refl refl refl]
  by simp

end
