(* ===== verification/Path_Scheduler.thy ===== *)
theory Path_Scheduler
  imports Link_Quality
begin

text \<open>
  The link scheduler of the desktop (\<open>desktop/internal/scheduler\<close>): paths and their scores (\<open>path.go\<close>,
  \<open>policy.go\<close>), and the scheduler that keeps the active one (\<open>scheduler.go\<close>). A path is an object that
  the table and the active pointer may both refer to, so the paths live in a heap. What a prober reports
  is an argument of the evaluation that reads it; the order in which \<open>sync.Map\<close> ranges is too.
\<close>

section \<open>Paths and scores\<close>

record Path =
  pa_ID :: string
  pa_Type :: nat
  pa_State :: string
  pa_Metrics :: LinkMetrics
  pa_ManualLock :: bool
  pa_CreatedAt :: gotime

definition path_Priority :: "Path \<Rightarrow> nat" where
  "path_Priority p = pa_Type p + 1"

definition priorityBonus :: "nat \<Rightarrow> rat" where
  "priorityBonus t =
     (if t = 0 then 1 else if t = 1 then 8/10 else if t = 2 then 6/10 else if t = 3 then 4/10 else if t = 4 then 2/10 else 0)"

record PathScore =
  ps_PathID :: string
  ps_Type :: nat
  ps_Score :: rat
  ps_Priority :: nat
  ps_RTTMs :: rat
  ps_LossRate :: rat
  ps_Bandwidth :: rat

definition ScorePath :: "Path \<Rightarrow> PathScore" where
  "ScorePath p =
     (let bonus = priorityBonus (pa_Type p);
          rttMs = of_int (milliseconds (lm_RTT (pa_Metrics p)));
          lossRate = lm_LossRate (pa_Metrics p);
          score = 30/100 * bonus + 30/100 * rtt_score rttMs + 25/100 * (1 - lossRate) + 15/100 * bw_score (lm_Bandwidth (pa_Metrics p))
      in \<lparr>ps_PathID = pa_ID p, ps_Type = pa_Type p, ps_Score = of_int (math_round (score * 10000)) / 10000,
          ps_Priority = path_Priority p, ps_RTTMs = rttMs, ps_LossRate = lossRate, ps_Bandwidth = of_int (lm_Bandwidth (pa_Metrics p))\<rparr>)"

definition score_less :: "PathScore \<Rightarrow> PathScore \<Rightarrow> bool" where
  "score_less a b = (if ps_Score a \<noteq> ps_Score b then ps_Score a > ps_Score b else ps_Priority a < ps_Priority b)"

definition RankPaths :: "Path list \<Rightarrow> PathScore list" where
  "RankPaths paths = sort_slice score_less (map ScorePath (filter (\<lambda>p. pa_State p \<noteq> ''unavailable'') paths))"

definition SelectBestPath :: "PathScore list \<Rightarrow> PathScore option" where
  "SelectBestPath scores = (if scores = [] then None else Some (scores ! 0))"

section \<open>The scheduler\<close>

record SchedulerConfig =
  sg_SwitchThreshold :: duration
  sg_SwitchCooldown :: duration
  sg_MaxPacketLoss :: int
  sg_LossThreshold :: rat
  sg_BWThreshold :: rat
  sg_EvalInterval :: duration
  sg_EnableAutoSwitch :: bool

definition DefaultSchedulerConfig :: SchedulerConfig where
  "DefaultSchedulerConfig =
     \<lparr>sg_SwitchThreshold = 200000000, sg_SwitchCooldown = 2 * second, sg_MaxPacketLoss = 3, sg_LossThreshold = 1/10,
      sg_BWThreshold = 3/10, sg_EvalInterval = second, sg_EnableAutoSwitch = True\<rparr>"

text \<open>\<open>sc_changes\<close> are the calls of the callback: the path before, the path after, and the time stored.\<close>

record Scheduler =
  sc_config :: SchedulerConfig
  sc_heap :: "(nat, Path) fmap"
  sc_next :: nat
  sc_paths :: "(string, nat) fmap"
  sc_active :: "nat option"
  sc_lockedID :: string
  sc_lastSwitch :: gotime
  sc_changes :: "(nat option \<times> nat \<times> gotime) list"

definition NewScheduler :: "SchedulerConfig \<Rightarrow> Scheduler" where
  "NewScheduler cfg =
     \<lparr>sc_config = cfg, sc_heap = fmempty, sc_next = 0, sc_paths = fmempty, sc_active = None, sc_lockedID = [], sc_lastSwitch = 0,
      sc_changes = []\<rparr>"

text \<open>The object at an address; an address in use always has one.\<close>

definition path_at :: "Scheduler \<Rightarrow> nat \<Rightarrow> Path" where
  "path_at s a = the (fmlookup (sc_heap s) a)"

definition set_path :: "nat \<Rightarrow> Path \<Rightarrow> Scheduler \<Rightarrow> Scheduler" where
  "set_path a p s = s\<lparr>sc_heap := fmupd a p (sc_heap s)\<rparr>"

definition RegisterPath :: "gotime \<Rightarrow> Path \<Rightarrow> Scheduler \<Rightarrow> Scheduler" where
  "RegisterPath now p s =
     (let a = sc_next s;
          s = s\<lparr>sc_next := a + 1, sc_heap := fmupd a (p\<lparr>pa_CreatedAt := now\<rparr>) (sc_heap s), sc_paths := fmupd (pa_ID p) a (sc_paths s)\<rparr>
      in if sc_active s = None then s\<lparr>sc_active := Some a\<rparr> else s)"

definition AllPaths :: "string list \<Rightarrow> Scheduler \<Rightarrow> nat list" where
  "AllPaths ks s = range_vals (sc_paths s) ks"

definition sched_Evaluate :: "string list \<Rightarrow> Scheduler \<Rightarrow> nat option" where
  "sched_Evaluate ks s =
     (case (if sc_lockedID s \<noteq> [] then fmlookup (sc_paths s) (sc_lockedID s) else None) of
        Some a \<Rightarrow> Some a
      | None \<Rightarrow>
          let paths = AllPaths ks s in
          if paths = [] then None
          else (case SelectBestPath (RankPaths (map (path_at s) paths)) of
                  None \<Rightarrow> None
                | Some best \<Rightarrow> find (\<lambda>a. pa_ID (path_at s a) = ps_PathID best) paths))"

text \<open>\<open>UnregisterPath\<close> and \<open>UnlockPath\<close> call \<open>Evaluate\<close> and drop its result.\<close>

definition UnregisterPath :: "string \<Rightarrow> Scheduler \<Rightarrow> Scheduler" where
  "UnregisterPath pathID s0 =
     (let s = s0\<lparr>sc_paths := fmdrop pathID (sc_paths s0)\<rparr> in
      case sc_active s of
        None \<Rightarrow> s
      | Some a \<Rightarrow> if pa_ID (path_at s a) = pathID then s\<lparr>sc_active := None\<rparr> else s)"

datatype sched_error = PathNotFound string | CooldownActive

definition LockPath :: "string \<Rightarrow> Scheduler \<Rightarrow> sched_error option \<times> Scheduler" where
  "LockPath pathID s =
     (case fmlookup (sc_paths s) pathID of
        None \<Rightarrow> (Some (PathNotFound pathID), s)
      | Some a \<Rightarrow> (None, (set_path a ((path_at s a)\<lparr>pa_ManualLock := True\<rparr>) s)\<lparr>sc_lockedID := pathID, sc_active := Some a\<rparr>))"

definition UnlockPath :: "Scheduler \<Rightarrow> Scheduler" where
  "UnlockPath s =
     (let s = (if sc_lockedID s \<noteq> [] then
                 (case fmlookup (sc_paths s) (sc_lockedID s) of
                    None \<Rightarrow> s
                  | Some a \<Rightarrow> set_path a ((path_at s a)\<lparr>pa_ManualLock := False\<rparr>) s)
               else s)
      in s\<lparr>sc_lockedID := []\<rparr>)"

text \<open>\<open>SwitchTo\<close>, with the time at which the cooldown is looked at and the one that is stored.\<close>

definition sched_SwitchTo :: "gotime \<Rightarrow> gotime \<Rightarrow> string \<Rightarrow> Scheduler \<Rightarrow> sched_error option \<times> Scheduler" where
  "sched_SwitchTo t1 t2 pathID s =
     (case fmlookup (sc_paths s) pathID of
        None \<Rightarrow> (Some (PathNotFound pathID), s)
      | Some a \<Rightarrow>
          if (case sc_active s of Some old \<Rightarrow> pa_ID (path_at s old) = pathID | None \<Rightarrow> False) then (None, s)
          else if time_sub t1 (sc_lastSwitch s) < sg_SwitchCooldown (sc_config s) then (Some CooldownActive, s)
          else (None, s\<lparr>sc_active := Some a, sc_lastSwitch := t2, sc_changes := sc_changes s @ [(sc_active s, a, t2)]\<rparr>))"

text \<open>One tick of the evaluation loop; \<open>report\<close> is what the prober of the active path says, if it has one.\<close>

definition autoEvaluate :: "gotime \<Rightarrow> gotime \<Rightarrow> LinkMetrics option \<Rightarrow> string list \<Rightarrow> Scheduler \<Rightarrow> Scheduler" where
  "autoEvaluate t1 t2 report ks s =
     (if sc_lockedID s \<noteq> [] then s
      else (case sc_active s of
              None \<Rightarrow>
                (case sched_Evaluate ks s of
                   None \<Rightarrow> s
                 | Some b \<Rightarrow> snd (sched_SwitchTo t1 t2 (pa_ID (path_at s b)) s))
            | Some a \<Rightarrow>
                let s = (case report of None \<Rightarrow> s | Some m \<Rightarrow> set_path a ((path_at s a)\<lparr>pa_Metrics := m\<rparr>) s) in
                if lm_LossRate (pa_Metrics (path_at s a)) > sg_LossThreshold (sc_config s) then
                  (case sched_Evaluate ks s of
                     None \<Rightarrow> s
                   | Some b \<Rightarrow>
                       if pa_ID (path_at s b) \<noteq> pa_ID (path_at s a) then snd (sched_SwitchTo t1 t2 (pa_ID (path_at s b)) s) else s)
                else s))"

section \<open>Runs\<close>

datatype sched_op =
    SRegister gotime Path
  | SUnregister string
  | SLock string
  | SUnlock
  | SSwitch gotime gotime string
  | STick gotime gotime "LinkMetrics option" "string list"

definition sched_apply :: "sched_op \<Rightarrow> Scheduler \<Rightarrow> Scheduler" where
  "sched_apply op s =
     (case op of
        SRegister now p \<Rightarrow> RegisterPath now p s
      | SUnregister i \<Rightarrow> UnregisterPath i s
      | SLock i \<Rightarrow> snd (LockPath i s)
      | SUnlock \<Rightarrow> UnlockPath s
      | SSwitch t1 t2 i \<Rightarrow> snd (sched_SwitchTo t1 t2 i s)
      | STick t1 t2 report ks \<Rightarrow> autoEvaluate t1 t2 report ks s)"

text \<open>
  The invariant: what the table and the active pointer refer to is in the heap, a path is in the table
  under its identifier, and addresses are used once.
\<close>

definition sched_inv :: "Scheduler \<Rightarrow> bool" where
  "sched_inv s \<longleftrightarrow>
     (\<forall>i a. fmlookup (sc_paths s) i = Some a \<longrightarrow> (\<exists>p. fmlookup (sc_heap s) a = Some p \<and> pa_ID p = i))
     \<and> (\<forall>a. sc_active s = Some a \<longrightarrow> fmlookup (sc_heap s) a \<noteq> None)
     \<and> (\<forall>a p. fmlookup (sc_heap s) a = Some p \<longrightarrow> a < sc_next s)"

lemma sched_inv_new: "sched_inv (NewScheduler cfg)"
  by (simp add: sched_inv_def NewScheduler_def)

lemma sched_inv_set:
  "sched_inv s \<Longrightarrow> fmlookup (sc_heap s) a = Some p \<Longrightarrow> pa_ID p' = pa_ID p \<Longrightarrow> sched_inv (set_path a p' s)"
  by (auto simp: sched_inv_def set_path_def) fastforce

lemma sched_inv_table:
  "sched_inv s \<Longrightarrow> fmlookup (sc_paths s) i = Some a \<Longrightarrow> fmlookup (sc_heap s) a = Some (path_at s a) \<and> pa_ID (path_at s a) = i"
  unfolding sched_inv_def path_at_def by (metis option.sel)

lemma sched_inv_active: "sched_inv s \<Longrightarrow> sc_active s = Some a \<Longrightarrow> fmlookup (sc_heap s) a = Some (path_at s a)"
  by (auto simp: sched_inv_def path_at_def)

lemma sched_inv_register: "sched_inv s \<Longrightarrow> sched_inv (RegisterPath now p s)"
  by (auto simp: sched_inv_def RegisterPath_def Let_def less_Suc_eq) fastforce+

lemma sched_inv_switch: "sched_inv s \<Longrightarrow> sched_inv (snd (sched_SwitchTo t1 t2 i s))"
  by (auto simp: sched_inv_def sched_SwitchTo_def split: option.splits) fastforce+

lemma sched_inv_report:
  "sched_inv s \<Longrightarrow> sc_active s = Some a \<Longrightarrow> sched_inv (set_path a ((path_at s a)\<lparr>pa_Metrics := m\<rparr>) s)"
  by (rule sched_inv_set) (auto dest: sched_inv_active)

lemma sched_inv_tick: "sched_inv s \<Longrightarrow> sched_inv (autoEvaluate t1 t2 report ks s)"
  by (auto simp: autoEvaluate_def Let_def sched_inv_switch sched_inv_report split: option.split)

lemma sched_inv_apply: "sched_inv s \<Longrightarrow> sched_inv (sched_apply op s)"
proof (cases op)
  case (SUnregister i)
  then show "sched_inv s \<Longrightarrow> ?thesis"
    by (auto simp: sched_apply_def UnregisterPath_def Let_def sched_inv_def split: option.split)
next
  case (SLock i)
  then show "sched_inv s \<Longrightarrow> ?thesis"
    by (auto simp: sched_apply_def LockPath_def sched_inv_def set_path_def path_at_def split: option.split) fastforce+
next
  case SUnlock
  then show "sched_inv s \<Longrightarrow> ?thesis"
    by (auto simp: sched_apply_def UnlockPath_def Let_def sched_inv_def set_path_def path_at_def split: option.split) fastforce+
qed (auto simp: sched_apply_def sched_inv_register sched_inv_switch sched_inv_tick)

lemma sched_inv_run: "sched_inv s \<Longrightarrow> sched_inv (fold sched_apply ops s)"
  by (induction ops arbitrary: s) (simp_all add: sched_inv_apply)

end
