(* ===== verification/Path_Choice.thy ===== *)
theory Path_Choice
  imports Path_Scheduler
begin

text \<open>
  What the scheduler of \<open>Path_Scheduler\<close> does in every run: the path it evaluates to is a best one, when a
  tick of its loop changes the active path, and how far apart two changes are.
\<close>

section \<open>The best path\<close>

lemma weak_score: "weak_order score_less"
  by (rule weak_orderI) (auto simp: score_less_def split: if_splits)

definition path_available :: "Scheduler \<Rightarrow> nat \<Rightarrow> bool" where
  "path_available s a \<longleftrightarrow> (\<exists>i. fmlookup (sc_paths s) i = Some a) \<and> pa_State (path_at s a) \<noteq> ''unavailable''"

lemma AllPaths_set: "range_order (sc_paths s) ks \<Longrightarrow> a \<in> set (AllPaths ks s) \<longleftrightarrow> (\<exists>i. fmlookup (sc_paths s) i = Some a)"
  by (auto simp: AllPaths_def set_range_vals range_order_set)

lemma ScorePath_ID [simp]: "ps_PathID (ScorePath p) = pa_ID p"
  by (simp add: ScorePath_def Let_def)

lemma sched_Evaluate_unlocked:
  assumes "sched_inv s" and "sc_lockedID s = []" and "range_order (sc_paths s) ks"
  shows "case sched_Evaluate ks s of None \<Rightarrow> \<forall>a. \<not> path_available s a
    | Some b \<Rightarrow> path_available s b \<and> (\<forall>a. path_available s a \<longrightarrow> \<not> score_less (ScorePath (path_at s a)) (ScorePath (path_at s b)))"
proof -
  let ?ps = "AllPaths ks s" and ?av = "\<lambda>p. pa_State p \<noteq> ''unavailable''"
  let ?scores = "map ScorePath (filter ?av (map (path_at s) ?ps))"
  have av: "path_available s a \<longleftrightarrow> a \<in> set ?ps \<and> ?av (path_at s a)" for a
    using AllPaths_set [OF assms(3)] by (simp add: path_available_def)
  have same: "a = b" if ab: "a \<in> set ?ps" "b \<in> set ?ps" "pa_ID (path_at s a) = pa_ID (path_at s b)" for a b
  proof -
    obtain i j where "fmlookup (sc_paths s) i = Some a" "fmlookup (sc_paths s) j = Some b"
      using ab(1,2) AllPaths_set [OF assms(3)] by blast
    then show ?thesis using sched_inv_table [OF assms(1)] ab(3) by (metis option.inject)
  qed
  have ev: "sched_Evaluate ks s = (if ?ps = [] then None else case SelectBestPath (sort_slice score_less ?scores) of None \<Rightarrow> None
      | Some best \<Rightarrow> find (\<lambda>a. pa_ID (path_at s a) = ps_PathID best) ?ps)"
    using assms(2) by (simp add: sched_Evaluate_def RankPaths_def Let_def)
  show ?thesis
  proof (cases "sort_slice score_less ?scores")
    case Nil
    then have "\<forall>a \<in> set ?ps. \<not> ?av (path_at s a)" by (simp add: filter_empty_conv)
    then show ?thesis using ev Nil by (auto simp: av SelectBestPath_def)
  next
    case (Cons best rest)
    then have "best \<in> set ?scores" and least: "\<forall>x \<in> set ?scores. \<not> score_less x best"
      using go_sort.srt_hd_least [OF weak_score Cons] by auto
    then obtain b where b: "b \<in> set ?ps" "?av (path_at s b)" "best = ScorePath (path_at s b)" by auto
    have "find (\<lambda>a. pa_ID (path_at s a) = pa_ID (path_at s b)) ?ps = Some b"
    proof (cases "find (\<lambda>a. pa_ID (path_at s a) = pa_ID (path_at s b)) ?ps")
      case None
      then show ?thesis using b(1) by (auto simp: find_None_iff)
    next
      case (Some c)
      then have "c \<in> set ?ps" "pa_ID (path_at s c) = pa_ID (path_at s b)" by (auto simp: find_Some_iff)
      then show ?thesis using same b(1) Some by blast
    qed
    then have "sched_Evaluate ks s = Some b" using ev Cons b(1,3) by (auto simp: SelectBestPath_def)
    then show ?thesis using b least by (auto simp: av)
  qed
qed


section \<open>Ticks\<close>

text \<open>The scheduler after the metrics of the active path are read.\<close>

definition sched_report :: "LinkMetrics option \<Rightarrow> Scheduler \<Rightarrow> Scheduler" where
  "sched_report report s =
     (case (sc_active s, report) of (Some a, Some m) \<Rightarrow> set_path a ((path_at s a)\<lparr>pa_Metrics := m\<rparr>) s | _ \<Rightarrow> s)"

lemma sched_report_fields [simp]:
  "sc_active (sched_report report s) = sc_active s" "sc_paths (sched_report report s) = sc_paths s"
  "sc_lockedID (sched_report report s) = sc_lockedID s" "sc_lastSwitch (sched_report report s) = sc_lastSwitch s"
  "sc_config (sched_report report s) = sc_config s" "sc_changes (sched_report report s) = sc_changes s"
  by (simp_all add: sched_report_def set_path_def split: option.split)

lemma sched_report_inv: "sched_inv s \<Longrightarrow> sched_inv (sched_report report s)"
  by (auto simp: sched_report_def sched_inv_report split: option.split)

lemma autoEvaluate_eq:
  "autoEvaluate t1 t2 report ks s =
     (if sc_lockedID s \<noteq> [] then s
      else let s = sched_report report s in
           if (case sc_active s of None \<Rightarrow> True | Some a \<Rightarrow> lm_LossRate (pa_Metrics (path_at s a)) > sg_LossThreshold (sc_config s)) then
             (case sched_Evaluate ks s of
                None \<Rightarrow> s
              | Some b \<Rightarrow> if (case sc_active s of None \<Rightarrow> True | Some a \<Rightarrow> pa_ID (path_at s b) \<noteq> pa_ID (path_at s a))
                          then snd (sched_SwitchTo t1 t2 (pa_ID (path_at s b)) s) else s)
           else s)"
  by (auto simp: autoEvaluate_def sched_report_def Let_def set_path_def split: option.split)

text \<open>
  When a tick changes the path. In every run, a tick of the evaluation loop changes the active path
  exactly when no path is locked, the cooldown is over, evaluation gives a path, and either there was no
  active path or the loss of the active one, as just reported, is over the threshold and the path found
  has another identifier; the new active path is then the one found. Latency, bandwidth, the state of
  the active path and the other thresholds of the configuration do not count, and a lock on a path that
  is no longer registered stops every change.
\<close>

theorem sched_tick:
  assumes "s = fold sched_apply ops (NewScheduler cfg)" and "range_order (sc_paths s) ks"
    and "v = sched_report report s" and "s' = autoEvaluate t1 t2 report ks s"
  shows "(sc_active s' \<noteq> sc_active s \<longleftrightarrow>
      sc_lockedID s = [] \<and> sg_SwitchCooldown (sc_config s) \<le> time_sub t1 (sc_lastSwitch s)
      \<and> (\<exists>b. sched_Evaluate ks v = Some b \<and>
          (\<forall>a. sc_active s = Some a \<longrightarrow> sg_LossThreshold (sc_config s) < lm_LossRate (pa_Metrics (path_at v a))
             \<and> pa_ID (path_at v b) \<noteq> pa_ID (path_at v a))))
    \<and> (sc_active s' \<noteq> sc_active s \<longrightarrow> sc_active s' = sched_Evaluate ks v)"
proof -
  have i: "sched_inv v" using sched_report_inv [OF sched_inv_run [OF sched_inv_new]] assms(1,3) by simp
  have ord: "range_order (sc_paths v) ks" using assms(2,3) by simp
  have act: "sc_active v = sc_active s" "sc_lockedID v = sc_lockedID s" "sc_lastSwitch v = sc_lastSwitch s" "sc_config v = sc_config s"
    using assms(3) by simp_all
  have found: "fmlookup (sc_paths v) (pa_ID (path_at v b)) = Some b" if "sched_Evaluate ks v = Some b" "sc_lockedID s = []" for b
  proof -
    have "path_available v b" using sched_Evaluate_unlocked [OF i _ ord] that act(2) by simp
    then show ?thesis using sched_inv_table [OF i] by (metis path_available_def)
  qed
  have neq: "b \<noteq> a" if "pa_ID (path_at v b) \<noteq> pa_ID (path_at v a)" for a b using that by auto
  show ?thesis
  proof (cases "sc_lockedID s = []")
    case False
    then show ?thesis using assms(4) by (simp add: autoEvaluate_eq)
  next
    case True
    then have s': "s' = (if (case sc_active s of None \<Rightarrow> True | Some a \<Rightarrow> lm_LossRate (pa_Metrics (path_at v a)) > sg_LossThreshold (sc_config s)) then
             (case sched_Evaluate ks v of
                None \<Rightarrow> v
              | Some b \<Rightarrow> if (case sc_active s of None \<Rightarrow> True | Some a \<Rightarrow> pa_ID (path_at v b) \<noteq> pa_ID (path_at v a))
                          then snd (sched_SwitchTo t1 t2 (pa_ID (path_at v b)) v) else v)
           else v)"
      unfolding assms(4) autoEvaluate_eq Let_def assms(3) [symmetric] act by simp
    show ?thesis
    proof (cases "sched_Evaluate ks v")
      case None
      then show ?thesis using s' act by simp
    next
      case (Some b)
      note f = found [OF Some True]
      have sw: "sched_SwitchTo t1 t2 (pa_ID (path_at v b)) v =
          (if (case sc_active s of Some old \<Rightarrow> pa_ID (path_at v old) = pa_ID (path_at v b) | None \<Rightarrow> False) then (None, v)
           else if time_sub t1 (sc_lastSwitch s) < sg_SwitchCooldown (sc_config s) then (Some CooldownActive, v)
           else (None, v\<lparr>sc_active := Some b, sc_lastSwitch := t2, sc_changes := sc_changes v @ [(sc_active s, b, t2)]\<rparr>))"
        using f act by (simp add: sched_SwitchTo_def)
      show ?thesis
        using s' Some True sw act by (cases "sc_active s") (auto simp: neq not_less)
    qed
  qed
qed

section \<open>The cooldown\<close>

definition sched_timed :: "sched_op \<Rightarrow> bool" where
  "sched_timed op \<longleftrightarrow> (case op of SSwitch t1 t2 i \<Rightarrow> t1 \<le> t2 | STick t1 t2 r ks \<Rightarrow> t1 \<le> t2 | _ \<Rightarrow> True)"

definition change_time :: "nat option \<times> nat \<times> gotime \<Rightarrow> gotime" where
  "change_time c = snd (snd c)"

definition sched_spaced :: "duration \<Rightarrow> Scheduler \<Rightarrow> bool" where
  "sched_spaced d s \<longleftrightarrow> sg_SwitchCooldown (sc_config s) = d \<and> sorted_wrt (\<lambda>x y. change_time x + d \<le> change_time y) (sc_changes s)
     \<and> (\<forall>c \<in> set (sc_changes s). change_time c \<le> sc_lastSwitch s)"

lemma sched_spaced_switch:
  assumes "sched_spaced d s" and "t1 \<le> t2" and "0 < d" and "d \<le> max_duration"
  shows "sched_spaced d (snd (sched_SwitchTo t1 t2 i s))"
proof -
  have "time_sub t1 u \<ge> d \<longleftrightarrow> t1 - u \<ge> d" for u using time_sub_ge assms(3,4) by simp
  then have "t1 - u \<ge> d" if "\<not> time_sub t1 u < d" for u using that by (simp add: not_less)
  then show ?thesis using assms
    by (force simp: sched_spaced_def sched_SwitchTo_def sorted_wrt_append change_time_def split: option.split)
qed

lemma sched_spaced_cong:
  "sched_spaced d s \<Longrightarrow> sc_config s' = sc_config s \<Longrightarrow> sc_changes s' = sc_changes s \<Longrightarrow> sc_lastSwitch s' = sc_lastSwitch s \<Longrightarrow> sched_spaced d s'"
  by (simp add: sched_spaced_def)

lemma sched_spaced_apply:
  assumes "sched_spaced d s" and "sched_timed op" and "0 < d" and "d \<le> max_duration"
  shows "sched_spaced d (sched_apply op s)"
proof (cases op)
  case (STick t1 t2 report ks)
  have v: "sched_spaced d (sched_report report s)" by (rule sched_spaced_cong [OF assms(1)]) simp_all
  show ?thesis using STick assms v sched_spaced_switch [OF v]
    by (auto simp: sched_apply_def autoEvaluate_eq Let_def sched_timed_def split: option.split)
qed (use assms sched_spaced_switch in \<open>auto simp: sched_apply_def sched_timed_def RegisterPath_def UnregisterPath_def LockPath_def
      UnlockPath_def Let_def set_path_def intro: sched_spaced_cong split: option.split\<close>)

text \<open>
  The cooldown. In every run whose clock does not step back inside a switch, any two changes of the
  active path made by switching, by hand or by the loop, are at least the cooldown apart.
\<close>

theorem sched_cooldown:
  assumes "\<forall>op \<in> set ops. sched_timed op" and "0 < sg_SwitchCooldown cfg" and "sg_SwitchCooldown cfg \<le> max_duration"
    and "i < j" and "j < length (sc_changes (fold sched_apply ops (NewScheduler cfg)))"
  shows "change_time (sc_changes (fold sched_apply ops (NewScheduler cfg)) ! i) + sg_SwitchCooldown cfg
    \<le> change_time (sc_changes (fold sched_apply ops (NewScheduler cfg)) ! j)"
proof -
  have "sched_spaced (sg_SwitchCooldown cfg) (fold sched_apply ops s)" if "sched_spaced (sg_SwitchCooldown cfg) s" for s
    using assms(1) that by (induction ops arbitrary: s) (simp_all add: sched_spaced_apply assms(2,3))
  moreover have "sched_spaced (sg_SwitchCooldown cfg) (NewScheduler cfg)" by (simp add: sched_spaced_def NewScheduler_def)
  ultimately show ?thesis using assms(4,5) by (simp add: sched_spaced_def sorted_wrt_iff_nth_less)
qed


section \<open>An example\<close>

definition ex_path :: "string \<Rightarrow> nat \<Rightarrow> string \<Rightarrow> rat \<Rightarrow> Path" where
  "ex_path i t st loss =
     \<lparr>pa_ID = i, pa_Type = t, pa_State = st, pa_Metrics = no_metrics\<lparr>lm_LossRate := loss\<rparr>, pa_ManualLock = False, pa_CreatedAt = 0\<rparr>"

definition ex_paths :: "sched_op list" where
  "ex_paths = [SRegister 10 (ex_path ''a'' 0 ''unavailable'' (1/2)), SRegister 11 (ex_path ''b'' 4 ''available'' 0)]"

definition ex_sched :: Scheduler where
  "ex_sched =
     \<lparr>sc_config = DefaultSchedulerConfig,
      sc_heap = fmupd 1 ((ex_path ''b'' 4 ''available'' 0)\<lparr>pa_CreatedAt := 11\<rparr>)
                  (fmupd 0 ((ex_path ''a'' 0 ''unavailable'' (1/2))\<lparr>pa_CreatedAt := 10\<rparr>) fmempty),
      sc_next = 2, sc_paths = fmupd ''b'' 1 (fmupd ''a'' 0 fmempty), sc_active = Some 0, sc_lockedID = [], sc_lastSwitch = 0,
      sc_changes = []\<rparr>"

lemma ex_sched_run: "ex_sched = fold sched_apply ex_paths (NewScheduler DefaultSchedulerConfig)"
  by (simp add: ex_sched_def ex_paths_def sched_apply_def RegisterPath_def NewScheduler_def Let_def ex_path_def numeral_2_eq_2)

lemma ex_sched_order: "range_order (sc_paths ex_sched) [''a'', ''b'']"
  by (simp add: ex_sched_def range_order_def finsert_commute)


theorem sched_tick_witness:
  "sc_active (autoEvaluate (10 * second) (10 * second) None [''a'', ''b''] ex_sched) = Some 1"
proof -
  have v: "ex_sched = sched_report None ex_sched" by (simp add: sched_report_def split: option.split)
  have "sched_Evaluate [''a'', ''b''] ex_sched = Some 1"
    by (simp add: sched_Evaluate_def AllPaths_def RankPaths_def SelectBestPath_def ex_sched_def path_at_def ex_path_def Let_def)
  moreover have "sc_active ex_sched = Some 0" "sc_lockedID ex_sched = []" "sc_lastSwitch ex_sched = 0"
    "lm_LossRate (pa_Metrics (path_at ex_sched 0)) = 1/2" "pa_ID (path_at ex_sched 1) = ''b''" "pa_ID (path_at ex_sched 0) = ''a''"
    "sg_LossThreshold (sc_config ex_sched) = 1/10" "sg_SwitchCooldown (sc_config ex_sched) = 2 * second"
    by (simp_all add: ex_sched_def path_at_def ex_path_def DefaultSchedulerConfig_def)
  ultimately show ?thesis
    using sched_tick [OF ex_sched_run ex_sched_order v refl, of "10 * second" "10 * second"] by (simp add: time_sub_def)
qed

theorem sched_cooldown_witness:
  "let s = fold sched_apply (ex_paths @ [SSwitch (3 * second) (3 * second) ''b'', SSwitch (6 * second) (6 * second) ''a'']) (NewScheduler DefaultSchedulerConfig)
   in length (sc_changes s) = 2 \<and> change_time (sc_changes s ! 0) + 2 * second \<le> change_time (sc_changes s ! 1)"
proof -
  let ?ops = "ex_paths @ [SSwitch (3 * second) (3 * second) ''b'', SSwitch (6 * second) (6 * second) ''a'']"
  let ?s = "fold sched_apply ?ops (NewScheduler DefaultSchedulerConfig)"
  have s: "?s = fold sched_apply [SSwitch (3 * second) (3 * second) ''b'', SSwitch (6 * second) (6 * second) ''a''] ex_sched"
    by (simp only: fold_append comp_apply ex_sched_run)
  have len: "length (sc_changes ?s) = 2" unfolding s
    by (simp add: ex_sched_def sched_apply_def sched_SwitchTo_def path_at_def ex_path_def time_sub_def DefaultSchedulerConfig_def)
  have t: "\<forall>op \<in> set ?ops. sched_timed op" by (simp add: ex_paths_def sched_timed_def)
  have "0 < sg_SwitchCooldown DefaultSchedulerConfig" "sg_SwitchCooldown DefaultSchedulerConfig \<le> max_duration"
    by (simp_all add: DefaultSchedulerConfig_def)
  from sched_cooldown [OF t this, of 0 1] len show ?thesis by (simp add: Let_def DefaultSchedulerConfig_def)
qed

end
