(* ===== verification/Nat_Detect.thy ===== *)
theory Nat_Detect
  imports Net_Addr Go_Bytes
begin

text \<open>
  NAT detection of the desktop (\<open>desktop/internal/nat\<close>): the binding request with its retries
  (\<open>stun.go\<close>), the verdicts (\<open>types.go\<close>) and the sequence of tests (\<open>detect.go\<close>). The STUN library's
  decoding and what each socket call returns are arguments.
\<close>

section \<open>Addresses\<close>

record UDPAddr =
  ua_IP :: netip
  ua_Port :: int

definition same_endpoint :: "UDPAddr \<Rightarrow> UDPAddr \<Rightarrow> bool" where
  "same_endpoint a b \<longleftrightarrow> ip_equal (ua_IP a) (ua_IP b) \<and> ua_Port a = ua_Port b"

text \<open>\<open>net.IPv4\<close> gives the 16-byte form.\<close>

definition net_IPv4 :: "byte \<Rightarrow> byte \<Rightarrow> byte \<Rightarrow> byte \<Rightarrow> netip" where
  "net_IPv4 a b c d = IP16 (push_bit 32 0xFFFF OR ucast (get_uint32 [a, b, c, d]))"

section \<open>A binding request\<close>

record STUNBinding =
  sb_MappedAddr :: UDPAddr
  sb_ResponseOrigin :: UDPAddr
  sb_RTT :: duration

text \<open>What the library makes of a datagram: the error class and code, the two mapped addresses and the
  bytes of the origin, each if the attribute is there.\<close>

record StunMessage =
  sm_is_error :: bool
  sm_error_code :: "(int \<times> string) option"
  sm_xor_mapped :: "UDPAddr option"
  sm_mapped :: "UDPAddr option"
  sm_origin :: "byte list option"

datatype stun_error =
    ErrSend | ErrDeadline | ErrRead | ErrDecode | ErrCode int string | ErrResponse | ErrNoMapped
  | ErrResolve string | ErrCancelled | ErrAttempts int "stun_error option"

text \<open>One round on the socket: whether the write and the deadline succeed, what is read, and the clock
  before and after; \<open>io_done\<close> says that the context ended in the pause before the round.\<close>

record StunIO =
  io_done :: bool
  io_write :: bool
  io_deadline :: bool
  io_read :: "(byte list \<times> UDPAddr) option"
  io_start :: gotime
  io_end :: gotime

definition origin_addr :: "UDPAddr \<Rightarrow> byte list option \<Rightarrow> UDPAddr" where
  "origin_addr fromAddr raw =
     (case raw of
        None \<Rightarrow> fromAddr
      | Some bs \<Rightarrow>
          if 8 \<le> length bs then
            \<lparr>ua_IP = net_IPv4 (bs ! 4) (bs ! 5) (bs ! 6) (bs ! 7), ua_Port = uint (push_bit 8 (ucast (bs ! 2)) OR ucast (bs ! 3) :: 64 word)\<rparr>
          else fromAddr)"

definition sendAndReceive :: "(byte list \<Rightarrow> StunMessage option) \<Rightarrow> StunIO \<Rightarrow> stun_error + STUNBinding" where
  "sendAndReceive decode io =
     (if \<not> io_write io then Inl ErrSend
      else if \<not> io_deadline io then Inl ErrDeadline
      else (case io_read io of
              None \<Rightarrow> Inl ErrRead
            | Some (buf, fromAddr) \<Rightarrow>
                let rtt = time_sub (io_end io) (io_start io) in
                (case decode buf of
                   None \<Rightarrow> Inl ErrDecode
                 | Some resp \<Rightarrow>
                     if sm_is_error resp then
                       (case sm_error_code resp of Some (code, reason) \<Rightarrow> Inl (ErrCode code reason) | None \<Rightarrow> Inl ErrResponse)
                     else
                       (case (case sm_xor_mapped resp of Some a \<Rightarrow> Some a | None \<Rightarrow> sm_mapped resp) of
                          None \<Rightarrow> Inl ErrNoMapped
                        | Some mappedAddr \<Rightarrow>
                            Inr \<lparr>sb_MappedAddr = mappedAddr, sb_ResponseOrigin = origin_addr fromAddr (sm_origin resp), sb_RTT = rtt\<rparr>))))"

record StunClient =
  st_timeout :: duration
  st_retries :: int

definition NewClient :: StunClient where
  "NewClient = \<lparr>st_timeout = 3 * second, st_retries = 3\<rparr>"

text \<open>The pause before an attempt, in a \<open>time.Duration\<close>.\<close>

definition stun_backoff :: "int \<Rightarrow> duration" where
  "stun_backoff attempt = attempt * 500000000"

text \<open>The loop from \<open>attempt\<close> on; \<open>ios\<close> says what happens in each round.\<close>

function stun_attempts ::
    "(byte list \<Rightarrow> StunMessage option) \<Rightarrow> int \<Rightarrow> (int \<Rightarrow> StunIO) \<Rightarrow> int \<Rightarrow> stun_error option \<Rightarrow> stun_error + STUNBinding" where
  "stun_attempts decode retries ios attempt lastErr =
     (if retries < attempt then Inl (ErrAttempts (retries + 1) lastErr)
      else if 0 < attempt \<and> io_done (ios attempt) then Inl ErrCancelled
      else (case sendAndReceive decode (ios attempt) of
              Inl e \<Rightarrow> stun_attempts decode retries ios (attempt + 1) (Some e)
            | Inr binding \<Rightarrow> Inr binding))"
  by pat_completeness auto

termination by (relation "measure (\<lambda>(_, retries, _, attempt, _). nat (retries + 1 - attempt))") auto

declare stun_attempts.simps [simp del]

definition doBindingRequest ::
    "(byte list \<Rightarrow> StunMessage option) \<Rightarrow> (string \<Rightarrow> bool) \<Rightarrow> StunClient \<Rightarrow> string \<Rightarrow> (int \<Rightarrow> StunIO) \<Rightarrow> stun_error + STUNBinding" where
  "doBindingRequest decode resolves c serverAddr ios =
     (if \<not> resolves serverAddr then Inl (ErrResolve serverAddr) else stun_attempts decode (st_retries c) ios 0 None)"

section \<open>Verdicts\<close>

abbreviation NATUnknown :: string where "NATUnknown \<equiv> ''unknown''"
abbreviation NATOpenInternet :: string where "NATOpenInternet \<equiv> ''open_internet''"
abbreviation NATFullCone :: string where "NATFullCone \<equiv> ''full_cone''"
abbreviation NATRestricted :: string where "NATRestricted \<equiv> ''restricted''"
abbreviation NATPortRestricted :: string where "NATPortRestricted \<equiv> ''port_restricted''"
abbreviation NATSymmetric :: string where "NATSymmetric \<equiv> ''symmetric''"
abbreviation NATBlocked :: string where "NATBlocked \<equiv> ''blocked''"

record NATResult =
  nt_Type :: string
  nt_PublicAddr :: "UDPAddr option"
  nt_MappedPort :: "16 word"
  nt_LocalAddr :: UDPAddr

definition IsP2PPossible :: "NATResult \<Rightarrow> string \<Rightarrow> bool" where
  "IsP2PPossible r peerNAT =
     (if nt_Type r = NATSymmetric \<and> peerNAT = NATSymmetric then False
      else if nt_Type r = NATBlocked \<or> peerNAT = NATBlocked then False
      else True)"

section \<open>The tests\<close>

text \<open>
  \<open>Detect\<close> with the results of the socket calls: \<open>l1\<close>, \<open>l2\<close> are the local addresses of the two sockets
  if binding them succeeds, \<open>req\<close> and \<open>alt\<close> the two requests of the \<open>STUNClient\<close> interface, from a
  socket to a server. The public address is kept as an address; the code keeps its text.
\<close>

datatype detect_error = BindLocal | BindSecond

definition nat_verdict :: "string \<Rightarrow> UDPAddr \<Rightarrow> UDPAddr \<Rightarrow> NATResult" where
  "nat_verdict t mapped l = \<lparr>nt_Type = t, nt_PublicAddr = Some mapped, nt_MappedPort = word_of_int (ua_Port mapped), nt_LocalAddr = l\<rparr>"

definition Detect ::
    "(string \<Rightarrow> UDPAddr \<Rightarrow> stun_error + STUNBinding) \<Rightarrow> (string \<Rightarrow> UDPAddr \<Rightarrow> stun_error + STUNBinding) \<Rightarrow>
     string \<Rightarrow> string \<Rightarrow> UDPAddr option \<Rightarrow> UDPAddr option \<Rightarrow> detect_error + NATResult" where
  "Detect req alt serverAddr altServerAddr l1 l2 =
     (case l1 of
        None \<Rightarrow> Inl BindLocal
      | Some localAddr \<Rightarrow>
          (case req serverAddr localAddr of
             Inl _ \<Rightarrow> Inr \<lparr>nt_Type = NATBlocked, nt_PublicAddr = None, nt_MappedPort = 0, nt_LocalAddr = localAddr\<rparr>
           | Inr binding1 \<Rightarrow>
               let mappedAddr1 = sb_MappedAddr binding1 in
               if same_endpoint localAddr mappedAddr1 then
                 (case alt serverAddr localAddr of
                    Inr _ \<Rightarrow> Inr (nat_verdict NATOpenInternet mappedAddr1 localAddr)
                  | Inl _ \<Rightarrow> Inr (nat_verdict NATSymmetric mappedAddr1 localAddr))
               else
                 (case alt serverAddr localAddr of
                    Inr _ \<Rightarrow> Inr (nat_verdict NATFullCone mappedAddr1 localAddr)
                  | Inl _ \<Rightarrow>
                      (case l2 of
                         None \<Rightarrow> Inl BindSecond
                       | Some localAddr2 \<Rightarrow>
                           (case req altServerAddr localAddr2 of
                              Inl _ \<Rightarrow> Inr (nat_verdict NATPortRestricted mappedAddr1 localAddr)
                            | Inr binding3 \<Rightarrow>
                                if same_endpoint mappedAddr1 (sb_MappedAddr binding3)
                                then Inr (nat_verdict NATRestricted mappedAddr1 localAddr)
                                else Inr (nat_verdict NATSymmetric mappedAddr1 localAddr))))))"

text \<open>The engine's \<open>DetectNAT\<close> names one server twice.\<close>

definition engine_detect ::
    "(string \<Rightarrow> UDPAddr \<Rightarrow> stun_error + STUNBinding) \<Rightarrow> (string \<Rightarrow> UDPAddr \<Rightarrow> stun_error + STUNBinding) \<Rightarrow>
     string \<Rightarrow> UDPAddr option \<Rightarrow> UDPAddr option \<Rightarrow> detect_error + NATResult" where
  "engine_detect req alt stunServer l1 l2 = Detect req alt stunServer stunServer l1 l2"

section \<open>The retries\<close>

lemma stun_attempts_ok:
  "stun_attempts decode retries ios k lastErr = Inr b \<longleftrightarrow>
     (\<exists>n \<ge> k. n \<le> retries \<and> sendAndReceive decode (ios n) = Inr b \<and>
        (\<forall>i. k \<le> i \<and> i < n \<longrightarrow> \<not> is_ok (sendAndReceive decode (ios i))) \<and>
        (\<forall>i. k \<le> i \<and> i \<le> n \<and> 0 < i \<longrightarrow> \<not> io_done (ios i)))"
  (is "?l k lastErr \<longleftrightarrow> (\<exists>n \<ge> k. ?P k n)")
proof (induction decode retries ios k lastErr rule: stun_attempts.induct)
  case (1 decode retries ios k lastErr)
  let ?Q = "\<lambda>k n. n \<le> retries \<and> sendAndReceive decode (ios n) = Inr b \<and>
        (\<forall>i. k \<le> i \<and> i < n \<longrightarrow> \<not> is_ok (sendAndReceive decode (ios i))) \<and>
        (\<forall>i. k \<le> i \<and> i \<le> n \<and> 0 < i \<longrightarrow> \<not> io_done (ios i))"
  show ?case
  proof (cases "retries < k \<or> (0 < k \<and> io_done (ios k))")
    case True
    then have "\<not> (\<exists>n \<ge> k. ?Q k n)" by force
    with True show ?thesis by (subst stun_attempts.simps) auto
  next
    case False
    show ?thesis
    proof (cases "sendAndReceive decode (ios k)")
      case (Inr c)
      have one: "?Q k n \<longleftrightarrow> n = k \<and> c = b" if "k \<le> n" for n
      proof (cases "n = k")
        case True
        then show ?thesis using Inr False by auto
      next
        case False
        then have kn: "k \<le> k \<and> k < n" using that by simp
        have "\<not> ?Q k n"
        proof
          assume "?Q k n"
          then have "\<not> is_ok (sendAndReceive decode (ios k))" using kn by blast
          then show False using Inr by simp
        qed
        with False show ?thesis by simp
      qed
      have "(\<exists>n \<ge> k. ?Q k n) \<longleftrightarrow> c = b"
      proof
        assume "\<exists>n \<ge> k. ?Q k n"
        then obtain n where "k \<le> n" and q: "?Q k n" by blast
        then show "c = b" using one [OF \<open>k \<le> n\<close>] by blast
      next
        assume "c = b"
        then have "?Q k k" using one [of k] by blast
        then show "\<exists>n \<ge> k. ?Q k n" by blast
      qed
      moreover have "stun_attempts decode retries ios k lastErr = Inr c"
        using False Inr by (subst stun_attempts.simps) auto
      ultimately show ?thesis by auto
    next
      case (Inl e)
      have step: "?Q k n \<longleftrightarrow> k < n \<and> ?Q (k + 1) n" if "k \<le> n" for n
      proof (cases "n = k")
        case True
        then show ?thesis using Inl by simp
      next
        case False
        then have "k < n" using that by simp
        moreover have "(k \<le> i) = (i = k \<or> k + 1 \<le> i)" for i :: int by linarith
        ultimately show ?thesis using Inl \<open>\<not> (retries < k \<or> (0 < k \<and> io_done (ios k)))\<close> by auto
      qed
      have "(\<exists>n \<ge> k. ?Q k n) \<longleftrightarrow> (\<exists>n \<ge> k + 1. ?Q (k + 1) n)"
      proof
        assume "\<exists>n \<ge> k. ?Q k n"
        then obtain n where "k \<le> n" and q: "?Q k n" by blast
        then have "k < n \<and> ?Q (k + 1) n" using step by blast
        then show "\<exists>n \<ge> k + 1. ?Q (k + 1) n" by (intro exI [of _ n]) simp
      next
        assume "\<exists>n \<ge> k + 1. ?Q (k + 1) n"
        then obtain n where kn: "k + 1 \<le> n" and q: "?Q (k + 1) n" by blast
        have n: "k < n" using kn by simp
        then have "?Q k n" using step [of n] q by simp
        then show "\<exists>n \<ge> k. ?Q k n" using n by (intro exI [of _ n]) simp
      qed
      moreover have "stun_attempts decode retries ios k lastErr = stun_attempts decode retries ios (k + 1) (Some e)"
        using False Inl by (subst stun_attempts.simps) auto
      ultimately show ?thesis using 1 [of e] False Inl by simp
    qed
  qed
qed


text \<open>
  A binding request is answered by its first successful round. The request returns a binding exactly
  when the server's address resolves and some round from 0 to the number of retries succeeds with it, no
  earlier round succeeds, and the context has not ended in a pause on the way; otherwise it returns an error.
\<close>

theorem stun_first_answer:
  "doBindingRequest decode resolves c serverAddr ios = Inr b \<longleftrightarrow>
     resolves serverAddr \<and>
     (\<exists>n \<ge> 0. n \<le> st_retries c \<and> sendAndReceive decode (ios n) = Inr b \<and>
        (\<forall>i. 0 \<le> i \<and> i < n \<longrightarrow> \<not> is_ok (sendAndReceive decode (ios i))) \<and>
        (\<forall>i. 0 \<le> i \<and> i \<le> n \<and> 0 < i \<longrightarrow> \<not> io_done (ios i)))"
  by (simp add: doBindingRequest_def stun_attempts_ok)

text \<open>The first round times out, the second is answered.\<close>

definition ex_stun_io :: "int \<Rightarrow> StunIO" where
  "ex_stun_io k = \<lparr>io_done = False, io_write = True, io_deadline = True,
     io_read = (if k = 0 then None else Some ([], \<lparr>ua_IP = IP4 1, ua_Port = 3478\<rparr>)), io_start = 0, io_end = 7\<rparr>"

definition ex_stun_decode :: "byte list \<Rightarrow> StunMessage option" where
  "ex_stun_decode bs = Some \<lparr>sm_is_error = False, sm_error_code = None, sm_xor_mapped = Some \<lparr>ua_IP = IP4 2, ua_Port = 9\<rparr>,
     sm_mapped = None, sm_origin = None\<rparr>"

theorem stun_first_answer_witness:
  "doBindingRequest ex_stun_decode (\<lambda>_. True) NewClient ''s'' ex_stun_io =
     Inr \<lparr>sb_MappedAddr = \<lparr>ua_IP = IP4 2, ua_Port = 9\<rparr>, sb_ResponseOrigin = \<lparr>ua_IP = IP4 1, ua_Port = 3478\<rparr>, sb_RTT = 7\<rparr>"
  unfolding stun_first_answer
proof (intro conjI exI [of _ "1 :: int"] TrueI)
  show "\<forall>i. 0 \<le> i \<and> i < 1 \<longrightarrow> \<not> is_ok (sendAndReceive ex_stun_decode (ex_stun_io i))"
  proof (intro allI impI)
    fix i :: int assume "0 \<le> i \<and> i < 1"
    then have "i = 0" by simp
    then show "\<not> is_ok (sendAndReceive ex_stun_decode (ex_stun_io i))" by (simp add: sendAndReceive_def ex_stun_io_def)
  qed
qed (simp_all add: NewClient_def sendAndReceive_def ex_stun_io_def ex_stun_decode_def origin_addr_def time_sub_def)

section \<open>What the verdicts mean\<close>

text \<open>
  A NAT as its users see it: the public address that a local socket gets towards a server. It is a cone
  when the server does not matter, and two sockets never share a public address. The server answers every
  request but, behind this NAT, nothing reaches the client from the alternate address.
\<close>

definition cone_nat :: "(UDPAddr \<Rightarrow> string \<Rightarrow> UDPAddr) \<Rightarrow> bool" where
  "cone_nat mapping \<longleftrightarrow> (\<forall>l s s'. mapping l s = mapping l s') \<and>
     (\<forall>l l' s. same_endpoint (mapping l s) (mapping l' s) \<longrightarrow> same_endpoint l l')"

definition answers_by :: "(UDPAddr \<Rightarrow> string \<Rightarrow> UDPAddr) \<Rightarrow> (string \<Rightarrow> UDPAddr \<Rightarrow> stun_error + STUNBinding) \<Rightarrow> bool" where
  "answers_by mapping req \<longleftrightarrow> (\<forall>s l. \<exists>b. req s l = Inr b \<and> sb_MappedAddr b = mapping l s)"

text \<open>
  A restricted cone NAT is taken for a symmetric one. Test III asks from a second socket, which a NAT
  gives an address of its own, so that the two mapped addresses differ behind every cone NAT: the verdict
  is symmetric, and two peers behind such NATs are told that hole punching is impossible.
\<close>

theorem nat_cone_misdetected:
  assumes "cone_nat mapping" and "answers_by mapping req" and "\<forall>s l. \<not> is_ok (alt s l)"
    and "\<not> same_endpoint l1 l2" and "\<not> same_endpoint l1 (mapping l1 serverAddr)"
  shows "Detect req alt serverAddr altServerAddr (Some l1) (Some l2) = Inr (nat_verdict NATSymmetric (mapping l1 serverAddr) l1) \<and>
    \<not> IsP2PPossible (nat_verdict NATSymmetric (mapping l1 serverAddr) l1) NATSymmetric"
proof -
  obtain b1 where b1: "req serverAddr l1 = Inr b1" "sb_MappedAddr b1 = mapping l1 serverAddr"
    using assms(2) unfolding answers_by_def by blast
  obtain b2 where b2: "req altServerAddr l2 = Inr b2" "sb_MappedAddr b2 = mapping l2 altServerAddr"
    using assms(2) unfolding answers_by_def by blast
  obtain e where "alt serverAddr l1 = Inl e" using assms(3) by (metis is_ok_simps(1) sum.exhaust)
  moreover have "mapping l1 serverAddr = mapping l1 altServerAddr" using assms(1) unfolding cone_nat_def by blast
  then have "\<not> same_endpoint (mapping l1 serverAddr) (mapping l2 altServerAddr)"
    using assms(1,4) unfolding cone_nat_def by metis
  ultimately show ?thesis using assms(5) b1 b2 by (simp add: Detect_def IsP2PPossible_def nat_verdict_def Let_def)
qed

lemma ip_equal_iff: "ip_equal a b \<longleftrightarrow> To4 a = To4 b \<and> (To4 a = None \<longrightarrow> a = b)"
proof (cases a)
  case (IP16 x)
  show ?thesis
  proof (cases b)
    case (IP16 y)
    have "x = y" if "drop_bit 32 x = 0xFFFF" "drop_bit 32 y = 0xFFFF" "(ucast x :: 32 word) = ucast y"
    proof (rule bit_word_eqI)
      fix i assume "i < LENGTH(128)"
      then show "bit x i = bit y i"
        using arg_cong [OF that(3), of "\<lambda>z. bit z i"] arg_cong [OF trans [OF that(1) that(2) [symmetric]], of "\<lambda>z. bit z (i - 32)"]
        by (cases "i < 32") (auto simp: bit_simps)
    qed
    then show ?thesis using \<open>a = IP16 x\<close> IP16 by auto
  qed (use IP16 in auto)
qed (cases b; auto)+

text \<open>A NAT that keeps ports and has the public address 203.0.113.1, for sockets on the unspecified address.\<close>

definition ex_mapping :: "UDPAddr \<Rightarrow> string \<Rightarrow> UDPAddr" where
  "ex_mapping l s = (if To4 (ua_IP l) = Some 0 then l\<lparr>ua_IP := IP4 0xCB007101\<rparr>
     else if To4 (ua_IP l) = Some 0xCB007101 then l\<lparr>ua_IP := IP4 0\<rparr> else l)"

definition ex_req :: "string \<Rightarrow> UDPAddr \<Rightarrow> stun_error + STUNBinding" where
  "ex_req s l = Inr \<lparr>sb_MappedAddr = ex_mapping l s, sb_ResponseOrigin = l, sb_RTT = 0\<rparr>"

lemma To4_ex_mapping:
  "To4 (ua_IP (ex_mapping l s)) =
     (if To4 (ua_IP l) = Some 0 then Some 0xCB007101 else if To4 (ua_IP l) = Some 0xCB007101 then Some 0 else To4 (ua_IP l))"
  by (simp add: ex_mapping_def)

lemma Port_ex_mapping: "ua_Port (ex_mapping l s) = ua_Port l"
  by (simp add: ex_mapping_def)

lemma ex_cone: "cone_nat ex_mapping"
proof -
  have "same_endpoint l l'" if e: "same_endpoint (ex_mapping l s) (ex_mapping l' s)" for l l' s
  proof -
    have ie: "ip_equal (ua_IP (ex_mapping l s)) (ua_IP (ex_mapping l' s))"
      and p: "ua_Port (ex_mapping l s) = ua_Port (ex_mapping l' s)"
      using e unfolding same_endpoint_def by blast+
    have t: "To4 (ua_IP (ex_mapping l s)) = To4 (ua_IP (ex_mapping l' s))"
      and n: "To4 (ua_IP (ex_mapping l s)) = None \<longrightarrow> ua_IP (ex_mapping l s) = ua_IP (ex_mapping l' s)"
      using ie unfolding ip_equal_iff by blast+
    have "x = y" if "(if x = Some 0 then Some c else if x = Some c then Some 0 else x) = (if y = Some 0 then Some c else if y = Some c then Some 0 else y)"
      for x y and c :: "32 word"
      using that by (cases "x = Some 0"; cases "x = Some c"; cases "y = Some 0"; cases "y = Some c") auto
    then have "To4 (ua_IP l) = To4 (ua_IP l')" using t unfolding To4_ex_mapping by blast
    moreover have "ua_IP l = ua_IP l'" if "To4 (ua_IP l) = None"
    proof -
      have "To4 (ua_IP l') = None" using that calculation by simp
      then have "ex_mapping l s = l" "ex_mapping l' s = l'" using that by (simp_all add: ex_mapping_def)
      then show ?thesis using n that by simp
    qed
    moreover have "ua_Port l = ua_Port l'" using p by (simp only: Port_ex_mapping)
    ultimately show ?thesis unfolding same_endpoint_def ip_equal_iff by blast
  qed
  moreover have "ex_mapping l s = ex_mapping l s'" for l s s' by (simp add: ex_mapping_def)
  ultimately show ?thesis unfolding cone_nat_def by blast
qed

theorem nat_cone_misdetected_witness:
  "nt_Type (projr (Detect ex_req (\<lambda>_ _. Inl ErrRead) ''s'' ''t'' (Some \<lparr>ua_IP = IP4 0, ua_Port = 5000\<rparr>)
     (Some \<lparr>ua_IP = IP4 0, ua_Port = 5001\<rparr>))) = NATSymmetric"
proof -
  have a: "answers_by ex_mapping ex_req" by (simp add: answers_by_def ex_req_def)
  have n: "\<forall>(s :: string) l. \<not> is_ok ((\<lambda>_ _. Inl ErrRead) s l :: stun_error + STUNBinding)" by simp
  show ?thesis
    using nat_cone_misdetected [OF ex_cone a n, of "\<lparr>ua_IP = IP4 0, ua_Port = 5000\<rparr>" "\<lparr>ua_IP = IP4 0, ua_Port = 5001\<rparr>" "''s''" "''t''"]
    by (simp add: same_endpoint_def ex_mapping_def nat_verdict_def)
qed

text \<open>
  The verdict of an open host cannot be reached: both sockets are bound to the unspecified address, so the
  local address of the first is never the address that a server saw.
\<close>

lemma nat_never_open:
  assumes "ua_IP l1 = IP4 0 \<or> ua_IP l1 = IP16 0" and "\<forall>s b. req s l1 = Inr b \<longrightarrow> ua_IP (sb_MappedAddr b) \<notin> {IP4 0, IP16 0, IP16 0xFFFF00000000}"
    and "Detect req alt serverAddr altServerAddr (Some l1) l2 = Inr r"
  shows "nt_Type r \<noteq> NATOpenInternet"
proof -
  have "\<not> same_endpoint l1 (sb_MappedAddr b)" if "req serverAddr l1 = Inr b" for b
  proof
    assume e: "same_endpoint l1 (sb_MappedAddr b)"
    have "ua_IP (sb_MappedAddr b) \<notin> {IP4 0, IP16 0, IP16 0xFFFF00000000}" using assms(2) that by blast
    moreover have "w = 0xFFFF00000000" if "To4 (IP16 w) = Some 0" for w
    proof -
      have "ip_equal (IP16 w) (IP16 0xFFFF00000000)" using that by (simp add: ip_equal_iff)
      then show ?thesis by simp
    qed
    moreover have "To4 (IP16 0) = None" by simp
    ultimately show False using assms(1) e
      by (cases "ua_IP (sb_MappedAddr b)") (auto simp: same_endpoint_def ip_equal_iff simp del: To4.simps(3))
  qed
  then show ?thesis using assms(3) by (auto simp: Detect_def Let_def nat_verdict_def split: option.splits sum.splits if_splits)
qed

end
