(* ===== verification/Hole_Punch.thy ===== *)
theory Hole_Punch
  imports Nat_Detect
begin

text \<open>
  UDP hole punching (\<open>desktop/internal/p2p/punch.go\<close>): the packet, and the engine as the steps of its two
  goroutines, the one that sends and waits and the one that reads. Two engines over a network that loses
  and reorders are a system of their own.
\<close>

section \<open>Packets\<close>

abbreviation punchMagic :: "16 word" where "punchMagic \<equiv> 0x4E50"
abbreviation punchFlagSYN :: byte where "punchFlagSYN \<equiv> 1"
abbreviation punchFlagACK :: byte where "punchFlagACK \<equiv> 2"
abbreviation punchFlagSYNACK :: byte where "punchFlagSYNACK \<equiv> 3"
abbreviation punchPacketSize :: nat where "punchPacketSize \<equiv> 27"

text \<open>\<open>copy\<close> into an array of 16 bytes that is zero.\<close>

definition array16 :: "byte list \<Rightarrow> byte list" where
  "array16 bs = take 16 bs @ replicate (16 - length bs) 0"

definition buildPunchPacket :: "byte list \<Rightarrow> byte \<Rightarrow> 64 word \<Rightarrow> byte list" where
  "buildPunchPacket sessionID flags nonce = put_uint16 punchMagic @ array16 sessionID @ [flags] @ put_uint64 nonce"

definition ParsePunchPacket :: "byte list \<Rightarrow> (byte list \<times> byte \<times> 64 word) option" where
  "ParsePunchPacket pkt =
     (if length pkt < punchPacketSize then None
      else if get_uint16 (take 2 pkt) \<noteq> punchMagic then None
      else Some (array16 (take 16 (drop 2 pkt)), pkt ! 18, get_uint64 (take 8 (drop 19 pkt))))"

section \<open>The engine\<close>

abbreviation PunchStateIdle :: string where "PunchStateIdle \<equiv> ''idle''"
abbreviation PunchStatePunching :: string where "PunchStatePunching \<equiv> ''punching''"
abbreviation PunchStateVerified :: string where "PunchStateVerified \<equiv> ''verified''"
abbreviation PunchStateFailed :: string where "PunchStateFailed \<equiv> ''failed''"

record PunchResult =
  pr_Success :: bool
  pr_RemoteAddr :: UDPAddr
  pr_RTT :: duration

record PunchConfig =
  pg_SessionID :: "byte list"
  pg_RemoteAddr :: UDPAddr
  pg_Timeout :: duration
  pg_SendInterval :: duration

text \<open>
  \<open>pu_resp\<close> is the channel of the reader, which holds one response; \<open>pu_reader\<close> says that the reader
  runs; \<open>pu_result\<close> is what \<open>Punch\<close> has returned.
\<close>

record PunchEngine =
  pu_config :: PunchConfig
  pu_state :: string
  pu_start :: gotime
  pu_nonce :: "64 word"
  pu_reader :: bool
  pu_resp :: "UDPAddr option"
  pu_result :: "PunchResult option"

definition NewPunchEngine :: "PunchConfig \<Rightarrow> PunchEngine" where
  "NewPunchEngine cfg0 =
     (let cfg = cfg0\<lparr>pg_Timeout := (if pg_Timeout cfg0 = 0 then 10 * second else pg_Timeout cfg0),
                     pg_SendInterval := (if pg_SendInterval cfg0 = 0 then 100000000 else pg_SendInterval cfg0)\<rparr>
      in \<lparr>pu_config = cfg, pu_state = PunchStateIdle, pu_start = 0, pu_nonce = 0, pu_reader = False, pu_resp = None, pu_result = None\<rparr>)"

definition punch_begin :: "gotime \<Rightarrow> 64 word \<Rightarrow> PunchEngine \<Rightarrow> PunchEngine" where
  "punch_begin now nonce e =
     e\<lparr>pu_state := PunchStatePunching, pu_start := now, pu_nonce := nonce, pu_reader := True, pu_resp := None, pu_result := None\<rparr>"

text \<open>One datagram of the reader: the answers it writes, and the engine after it.\<close>

definition read_punch :: "byte list \<Rightarrow> UDPAddr \<Rightarrow> PunchEngine \<Rightarrow> PunchEngine \<times> (byte list \<times> UDPAddr) list" where
  "read_punch datagram from e =
     (let buf = take 1500 datagram in
      if length buf < punchPacketSize then (e, [])
      else if get_uint16 (take 2 buf) \<noteq> punchMagic then (e, [])
      else let flags = buf ! 18 in
           if array16 (take 16 (drop 2 buf)) \<noteq> pg_SessionID (pu_config e) then (e, [])
           else if flags = punchFlagSYN then
             (e, [(buildPunchPacket (pg_SessionID (pu_config e)) punchFlagSYNACK (pu_nonce e), from)])
           else if flags = punchFlagACK \<or> flags = punchFlagSYNACK then
             (e\<lparr>pu_resp := (case pu_resp e of None \<Rightarrow> Some from | Some a \<Rightarrow> Some a), pu_reader := False\<rparr>,
              if flags = punchFlagSYNACK
              then [(buildPunchPacket (pg_SessionID (pu_config e)) punchFlagACK (pu_nonce e), from)] else [])
           else (e, []))"

datatype punch_event =
    PuTick
  | PuPacket "byte list" UDPAddr
  | PuRecv gotime
  | PuDeadline
  | PuCancel
  | PuReaderEnd

fun punch_step :: "punch_event \<Rightarrow> PunchEngine \<Rightarrow> PunchEngine \<times> (byte list \<times> UDPAddr) list" where
  "punch_step PuTick e =
     (e, if pu_state e = PunchStatePunching
         then [(buildPunchPacket (pg_SessionID (pu_config e)) punchFlagSYN (pu_nonce e), pg_RemoteAddr (pu_config e))] else [])"
| "punch_step (PuPacket buf from) e = (if pu_reader e then read_punch buf from e else (e, []))"
| "punch_step (PuRecv now) e =
     (case pu_resp e of
        Some a \<Rightarrow>
          if pu_state e = PunchStatePunching then
            (e\<lparr>pu_resp := None, pu_state := PunchStateVerified,
               pu_result := Some \<lparr>pr_Success = True, pr_RemoteAddr = a, pr_RTT = time_sub now (pu_start e)\<rparr>\<rparr>, [])
          else (e, [])
      | None \<Rightarrow> (e, []))"
| "punch_step PuDeadline e = (if pu_state e = PunchStatePunching then (e\<lparr>pu_state := PunchStateFailed\<rparr>, []) else (e, []))"
| "punch_step PuCancel e = (if pu_state e = PunchStatePunching then (e\<lparr>pu_state := PunchStateFailed\<rparr>, []) else (e, []))"
| "punch_step PuReaderEnd e = (if pu_state e \<noteq> PunchStatePunching then (e\<lparr>pu_reader := False\<rparr>, []) else (e, []))"

section \<open>The packet\<close>

lemma length_array16 [simp]: "length (array16 bs) = 16"
  by (simp add: array16_def)

lemma array16_id [simp]: "length bs = 16 \<Longrightarrow> array16 bs = bs"
  by (simp add: array16_def)

lemma length_buildPunchPacket [simp]: "length (buildPunchPacket sid f n) = punchPacketSize"
  by (simp add: buildPunchPacket_def)

lemma build_fields [simp]:
  "take 2 (buildPunchPacket sid f n) = put_uint16 punchMagic"
  "take 16 (drop 2 (buildPunchPacket sid f n)) = array16 sid"
  "buildPunchPacket sid f n ! 18 = f"
  "take 8 (drop 19 (buildPunchPacket sid f n)) = put_uint64 n"
  by (simp_all add: buildPunchPacket_def nth_append)

lemma get_put_uint16' [simp]: "get_uint16 (put_uint16 n) = n"
  using get_put_uint16 [of n "[]"] by simp

lemma put_get_uint16: "length bs = 2 \<Longrightarrow> put_uint16 (get_uint16 bs) = bs"
proof -
  assume "length bs = 2"
  then obtain a b where bs: "bs = [a, b]" by (cases bs; cases "tl bs") auto
  have "(ucast (drop_bit 8 (push_bit 8 (ucast a) OR ucast b :: 16 word)) :: byte) = a"
    by (rule bit_word_eqI) (auto simp: bit_simps dest: bit_imp_le_length)
  moreover have "(ucast (push_bit 8 (ucast a) OR ucast b :: 16 word) :: byte) = b"
    by (rule bit_word_eqI) (auto simp: bit_simps)
  ultimately show ?thesis by (simp add: bs put_uint16_def)
qed

lemma put_get_uint64: "length bs = 8 \<Longrightarrow> put_uint64 (get_uint64 bs) = bs"
proof -
  assume l: "length bs = 8"
  let ?h = "get_uint32 bs" and ?l = "get_uint32 (drop 4 bs)"
  have "get_uint32 (take 4 bs @ drop 4 bs) = get_uint32 (take 4 bs)"
    using get_put_uint32 [of "get_uint32 (take 4 bs)" "drop 4 bs"] put_get_uint32 [of "take 4 bs"] l by simp
  then have h: "put_uint32 ?h = take 4 bs" using put_get_uint32 [of "take 4 bs"] l by simp
  have lo: "put_uint32 ?l = drop 4 bs" using put_get_uint32 [of "drop 4 bs"] l by simp
  have "(ucast (drop_bit 32 (get_uint64 bs)) :: 32 word) = ?h"
    unfolding get_uint64_def by (rule bit_word_eqI) (auto simp: bit_simps dest: bit_imp_le_length)
  moreover have "(ucast (get_uint64 bs) :: 32 word) = ?l"
    unfolding get_uint64_def by (rule bit_word_eqI) (auto simp: bit_simps)
  ultimately show ?thesis using h lo by (simp add: put_uint64_def)
qed

text \<open>
  A punch packet is read back. What one side builds, the other parses to the session (cut or padded to
  16 bytes), the flag and the nonce; a shorter datagram or one without the magic number is refused; and
  what is accepted is, up to trailing bytes, the packet built from its parts.
\<close>

theorem punch_packet_roundtrip:
  "ParsePunchPacket (buildPunchPacket sid f n) = Some (array16 sid, f, n) \<and>
   (ParsePunchPacket pkt = None \<longleftrightarrow> length pkt < punchPacketSize \<or> get_uint16 (take 2 pkt) \<noteq> punchMagic) \<and>
   (\<forall>s g m. ParsePunchPacket pkt = Some (s, g, m) \<longrightarrow> take punchPacketSize pkt = buildPunchPacket s g m)"
proof (intro conjI allI impI)
  show "ParsePunchPacket (buildPunchPacket sid f n) = Some (array16 sid, f, n)"
    by (simp add: ParsePunchPacket_def)
  show "ParsePunchPacket pkt = None \<longleftrightarrow> length pkt < punchPacketSize \<or> get_uint16 (take 2 pkt) \<noteq> punchMagic"
    by (simp add: ParsePunchPacket_def)
  fix s g m assume "ParsePunchPacket pkt = Some (s, g, m)"
  then have l: "punchPacketSize \<le> length pkt" and mg: "get_uint16 (take 2 pkt) = punchMagic"
    and s: "s = array16 (take 16 (drop 2 pkt))" and g: "g = pkt ! 18" and m: "m = get_uint64 (take 8 (drop 19 pkt))"
    by (auto simp: ParsePunchPacket_def split: if_splits)
  have "take (a + b) xs = take a xs @ take b (drop a xs)" for a b and xs :: "byte list" by (rule take_add)
  note this [of 2 25 pkt] this [of 16 9 "drop 2 pkt"] this [of 1 8 "drop 18 pkt"]
  then have "take 27 pkt = take 2 pkt @ take 16 (drop 2 pkt) @ take 1 (drop 18 pkt) @ take 8 (drop 19 pkt)"
    by (simp only: drop_drop) simp
  moreover have "take 1 (drop 18 pkt) = [pkt ! 18]" using l by (simp add: take_Suc_conv_app_nth hd_drop_conv_nth take_Suc)
  moreover have "put_uint16 punchMagic = take 2 pkt" using l put_get_uint16 [of "take 2 pkt"] mg by simp
  moreover have "put_uint64 m = take 8 (drop 19 pkt)" using l put_get_uint64 [of "take 8 (drop 19 pkt)"] m by simp
  ultimately show "take punchPacketSize pkt = buildPunchPacket s g m"
    using l s g by (simp add: buildPunchPacket_def)
qed

theorem punch_packet_roundtrip_witness:
  "ParsePunchPacket (buildPunchPacket [1, 2] 3 5) = Some ([1, 2] @ replicate 14 0, 3, 5)"
  using punch_packet_roundtrip [of "[1, 2]" 3 5 "[]"] by (simp add: array16_def)

end
