(* ===== verification/Ice_Agent.thy ===== *)
theory Ice_Agent
  imports Nat_Detect
begin

text \<open>
  The ICE agent of the desktop (\<open>desktop/internal/p2p/ice.go\<close>): candidates and their priorities, the check
  list, and the agent as the steps of its goroutines: the loop of \<open>StartChecks\<close>, one goroutine for each
  pair that is checked, and the loop that reads the socket. A pair is an object that the check list, its
  check and the selection share, so the pairs live in a heap; a pair is handed out once, so that its check
  is kept under its address.
\<close>

section \<open>Candidates\<close>

abbreviation CandidateHost :: string where "CandidateHost \<equiv> ''host''"
abbreviation CandidateServerReflexive :: string where "CandidateServerReflexive \<equiv> ''srflx''"
abbreviation CandidateRelay :: string where "CandidateRelay \<equiv> ''relay''"

record Candidate =
  ca_ID :: string
  ca_Type :: string
  ca_Addr :: UDPAddr
  ca_Priority :: "32 word"
  ca_Foundation :: string

definition computePriority :: "string \<Rightarrow> 32 word \<Rightarrow> 32 word \<Rightarrow> 32 word" where
  "computePriority cType localPref componentID =
     (let typePref = (if cType = CandidateHost then 126 else if cType = CandidateServerReflexive then 100 else 0)
      in push_bit 24 typePref + push_bit 8 localPref + (256 - componentID))"

definition boolToUint64 :: "bool \<Rightarrow> 64 word" where
  "boolToUint64 b = (if b then 1 else 0)"

definition computePairPriority :: "32 word \<Rightarrow> 32 word \<Rightarrow> 64 word" where
  "computePairPriority controllingPriority controlledPriority =
     (let g = ucast controllingPriority; d = ucast controlledPriority;
          lo = (if g > d then d else g); hi = (if g > d then g else d)
      in push_bit 32 1 * lo + 2 * hi + boolToUint64 (g > d))"

text \<open>The hash is SHA-256 in hexadecimal.\<close>

definition computeFoundation :: "(string \<Rightarrow> string) \<Rightarrow> string \<Rightarrow> string \<Rightarrow> string \<Rightarrow> string" where
  "computeFoundation hash_hex cType baseAddr serverAddr = take 8 (hash_hex (cType @ baseAddr @ serverAddr))"

section \<open>The agent\<close>

abbreviation AgentStateNew :: string where "AgentStateNew \<equiv> ''new''"
abbreviation AgentStateGathering :: string where "AgentStateGathering \<equiv> ''gathering''"
abbreviation AgentStateChecking :: string where "AgentStateChecking \<equiv> ''checking''"
abbreviation AgentStateConnected :: string where "AgentStateConnected \<equiv> ''connected''"
abbreviation AgentStateFailed :: string where "AgentStateFailed \<equiv> ''failed''"
abbreviation AgentStateClosed :: string where "AgentStateClosed \<equiv> ''closed''"

abbreviation PairStateWaiting :: string where "PairStateWaiting \<equiv> ''waiting''"
abbreviation PairStateInProgress :: string where "PairStateInProgress \<equiv> ''in_progress''"
abbreviation PairStateSucceeded :: string where "PairStateSucceeded \<equiv> ''succeeded''"
abbreviation PairStateFailed :: string where "PairStateFailed \<equiv> ''failed''"

record CandidatePair =
  cp_Local :: Candidate
  cp_Remote :: Candidate
  cp_State :: string
  cp_Priority :: "64 word"
  cp_Nominated :: bool
  cp_LastCheckAt :: gotime

record AgentConfig =
  ac_Role :: string
  ac_STUNServer :: string
  ac_CheckInterval :: duration
  ac_CheckTimeout :: duration
  ac_MaxCheckTime :: duration

definition DefaultAgentConfig :: AgentConfig where
  "DefaultAgentConfig =
     \<lparr>ac_Role = ''controlling'', ac_STUNServer = [], ac_CheckInterval = 50000000, ac_CheckTimeout = 500000000, ac_MaxCheckTime = 10 * second\<rparr>"

text \<open>
  Where a check is: started; sent and waiting; answered, with what it saw of the selection; finished.
  \<open>ck_answered\<close> is its channel of one message.
\<close>

datatype check_phase = CkNew | CkWait | CkSaw bool | CkDone

record Check =
  ck_phase :: check_phase
  ck_tx :: nat
  ck_answered :: bool

datatype ice_error = IceTimedOut | IceAllFailed | IceCancelled

text \<open>\<open>ag_result\<close> is what \<open>StartChecks\<close> has returned; \<open>ag_states\<close> and \<open>ag_fired\<close> are the callbacks made;
  \<open>ag_replies\<close> the addresses whose binding requests were answered.\<close>

record Agent =
  ag_config :: AgentConfig
  ag_state :: string
  ag_conn :: "int option"
  ag_conn_open :: bool
  ag_local :: "Candidate list"
  ag_remote :: "Candidate list"
  ag_pairs :: "(nat, CandidatePair) fmap"
  ag_next :: nat
  ag_checklist :: "nat list"
  ag_pending :: "(nat, nat) fmap"
  ag_checks :: "(nat, Check) fmap"
  ag_selected :: "nat option"
  ag_reader :: bool
  ag_running :: bool
  ag_result :: "ice_error option option"
  ag_states :: "string list"
  ag_fired :: "Candidate list"
  ag_replies :: "UDPAddr list"

definition NewAgent :: "AgentConfig \<Rightarrow> Agent" where
  "NewAgent cfg =
     \<lparr>ag_config = cfg, ag_state = AgentStateNew, ag_conn = None, ag_conn_open = False, ag_local = [], ag_remote = [],
      ag_pairs = fmempty, ag_next = 0, ag_checklist = [], ag_pending = fmempty, ag_checks = fmempty, ag_selected = None,
      ag_reader = False, ag_running = False, ag_result = None, ag_states = [], ag_fired = [], ag_replies = []\<rparr>"

definition ice_setState :: "string \<Rightarrow> Agent \<Rightarrow> Agent" where
  "ice_setState st a = a\<lparr>ag_state := st, ag_states := ag_states a @ [st]\<rparr>"

definition addLocalCandidate :: "Candidate \<Rightarrow> Agent \<Rightarrow> Agent" where
  "addLocalCandidate c a = a\<lparr>ag_local := ag_local a @ [c]\<rparr>"

definition fireCandidate :: "Candidate \<Rightarrow> Agent \<Rightarrow> Agent" where
  "fireCandidate c a = a\<lparr>ag_fired := ag_fired a @ [c]\<rparr>"

section \<open>Gathering\<close>

text \<open>The addresses of the interfaces come with whether they are loopback; each candidate has a fresh \<open>uuid\<close>.\<close>

definition host_candidate :: "(string \<Rightarrow> string) \<Rightarrow> (netip \<Rightarrow> string) \<Rightarrow> int \<Rightarrow> string \<Rightarrow> netip \<Rightarrow> Candidate" where
  "host_candidate hash_hex ip_text port uuid ip =
     \<lparr>ca_ID = uuid, ca_Type = CandidateHost, ca_Addr = \<lparr>ua_IP = ip, ua_Port = port\<rparr>,
      ca_Priority = computePriority CandidateHost 65535 1, ca_Foundation = computeFoundation hash_hex CandidateHost (ip_text ip) []\<rparr>"

definition gatherHostCandidates ::
    "(string \<Rightarrow> string) \<Rightarrow> (netip \<Rightarrow> string) \<Rightarrow> int \<Rightarrow> (string \<times> netip \<times> bool) list option \<Rightarrow> Candidate list" where
  "gatherHostCandidates hash_hex ip_text port addrs =
     (case addrs of
        None \<Rightarrow> []
      | Some as \<Rightarrow> map (\<lambda>(uuid, ip, _). host_candidate hash_hex ip_text port uuid ip)
                     (filter (\<lambda>(_, ip, loopback). \<not> loopback \<and> To4 ip \<noteq> None) as))"

definition gatherSrflxCandidate ::
    "(string \<Rightarrow> string) \<Rightarrow> (netip \<Rightarrow> string) \<Rightarrow> string \<Rightarrow> string \<Rightarrow> stun_error + STUNBinding \<Rightarrow> stun_error + Candidate" where
  "gatherSrflxCandidate hash_hex ip_text stunServer uuid r =
     (case r of
        Inl e \<Rightarrow> Inl e
      | Inr binding \<Rightarrow>
          Inr \<lparr>ca_ID = uuid, ca_Type = CandidateServerReflexive, ca_Addr = sb_MappedAddr binding,
               ca_Priority = computePriority CandidateServerReflexive 65535 1,
               ca_Foundation = computeFoundation hash_hex CandidateServerReflexive (ip_text (ua_IP (sb_MappedAddr binding))) stunServer\<rparr>)"

definition keep_candidate :: "Candidate \<Rightarrow> Agent \<Rightarrow> Agent" where
  "keep_candidate c a = fireCandidate c (addLocalCandidate c a)"

text \<open>\<open>port\<close> is the port of the socket if binding succeeds; the read loop runs from then on.\<close>

definition GatherCandidates ::
    "(string \<Rightarrow> string) \<Rightarrow> (netip \<Rightarrow> string) \<Rightarrow> int option \<Rightarrow> (string \<times> netip \<times> bool) list option \<Rightarrow> string \<Rightarrow>
     stun_error + STUNBinding \<Rightarrow> Agent \<Rightarrow> Candidate list option \<times> Agent" where
  "GatherCandidates hash_hex ip_text port addrs uuid r a0 =
     (let a = ice_setState AgentStateGathering a0 in
      case port of
        None \<Rightarrow> (None, a)
      | Some p \<Rightarrow>
          let hosts = gatherHostCandidates hash_hex ip_text p addrs;
              a = fold keep_candidate hosts (a\<lparr>ag_conn := Some p, ag_conn_open := True, ag_reader := True\<rparr>)
          in if ac_STUNServer (ag_config a) = [] then (Some hosts, a)
             else (case gatherSrflxCandidate hash_hex ip_text (ac_STUNServer (ag_config a)) uuid r of
                     Inl _ \<Rightarrow> (Some hosts, a)
                   | Inr c \<Rightarrow> (Some (hosts @ [c]), keep_candidate c a)))"

section \<open>The check list\<close>

definition createPair :: "Candidate \<Rightarrow> Candidate \<Rightarrow> CandidatePair" where
  "createPair l r =
     \<lparr>cp_Local = l, cp_Remote = r, cp_State = PairStateWaiting, cp_Priority = computePairPriority (ca_Priority l) (ca_Priority r),
      cp_Nominated = False, cp_LastCheckAt = 0\<rparr>"

definition pair_at :: "Agent \<Rightarrow> nat \<Rightarrow> CandidatePair" where
  "pair_at a p = the (fmlookup (ag_pairs a) p)"

definition before_pair :: "Agent \<Rightarrow> nat \<Rightarrow> nat \<Rightarrow> bool" where
  "before_pair a p q \<longleftrightarrow> cp_Priority (pair_at a p) > cp_Priority (pair_at a q)"

definition addPair :: "CandidatePair \<Rightarrow> Agent \<Rightarrow> Agent" where
  "addPair pair a0 =
     (let a = a0\<lparr>ag_pairs := fmupd (ag_next a0) pair (ag_pairs a0), ag_next := ag_next a0 + 1\<rparr>
      in a\<lparr>ag_checklist := sort_slice (before_pair a) (ag_checklist a @ [ag_next a0])\<rparr>)"

definition AddRemoteCandidate :: "Candidate \<Rightarrow> Agent \<Rightarrow> Agent" where
  "AddRemoteCandidate c a =
     fold (\<lambda>l. addPair (createPair l c)) (ag_local a) (a\<lparr>ag_remote := ag_remote a @ [c]\<rparr>)"

definition upd_pair :: "nat \<Rightarrow> (CandidatePair \<Rightarrow> CandidatePair) \<Rightarrow> Agent \<Rightarrow> Agent" where
  "upd_pair p f a = a\<lparr>ag_pairs := fmupd p (f (pair_at a p)) (ag_pairs a)\<rparr>"

definition updatePairState :: "nat \<Rightarrow> string \<Rightarrow> Agent \<Rightarrow> Agent" where
  "updatePairState p st = upd_pair p (\<lambda>x. x\<lparr>cp_State := st\<rparr>)"

definition getNextWaitingPair :: "gotime \<Rightarrow> Agent \<Rightarrow> nat option \<times> Agent" where
  "getNextWaitingPair now a =
     (case find (\<lambda>p. cp_State (pair_at a p) = PairStateWaiting) (ag_checklist a) of
        None \<Rightarrow> (None, a)
      | Some p \<Rightarrow> (Some p, upd_pair p (\<lambda>x. x\<lparr>cp_State := PairStateInProgress, cp_LastCheckAt := now\<rparr>) a))"

definition allPairsFailed :: "Agent \<Rightarrow> bool" where
  "allPairsFailed a \<longleftrightarrow> (if ag_checklist a = [] then False else (\<forall>p \<in> set (ag_checklist a). cp_State (pair_at a p) = PairStateFailed))"

section \<open>Checking\<close>

definition checks_return :: "ice_error option \<Rightarrow> Agent \<Rightarrow> Agent" where
  "checks_return r a = a\<lparr>ag_running := False, ag_result := Some r\<rparr>"

definition StartChecks_begin :: "Agent \<Rightarrow> Agent" where
  "StartChecks_begin a = (ice_setState AgentStateChecking a)\<lparr>ag_running := True, ag_result := None\<rparr>"

definition StartChecks_tick :: "gotime \<Rightarrow> Agent \<Rightarrow> Agent" where
  "StartChecks_tick now a =
     (if \<not> ag_running a then a
      else (case getNextWaitingPair now a of
              (Some p, a) \<Rightarrow> a\<lparr>ag_checks := fmupd p \<lparr>ck_phase = CkNew, ck_tx = 0, ck_answered = False\<rparr> (ag_checks a)\<rparr>
            | (None, a) \<Rightarrow>
                if ag_selected a \<noteq> None then checks_return None a
                else if allPairsFailed a then checks_return (Some IceAllFailed) (ice_setState AgentStateFailed a)
                else a))"

definition StartChecks_stop :: "ice_error \<Rightarrow> Agent \<Rightarrow> Agent" where
  "StartChecks_stop e a = (if ag_running a then checks_return (Some e) (ice_setState AgentStateFailed a) else a)"

definition upd_check :: "nat \<Rightarrow> (Check \<Rightarrow> Check) \<Rightarrow> Agent \<Rightarrow> Agent" where
  "upd_check p f a = (case fmlookup (ag_checks a) p of None \<Rightarrow> a | Some c \<Rightarrow> a\<lparr>ag_checks := fmupd p (f c) (ag_checks a)\<rparr>)"

definition check_fail :: "nat \<Rightarrow> Agent \<Rightarrow> Agent" where
  "check_fail p a = upd_check p (\<lambda>c. c\<lparr>ck_phase := CkDone\<rparr>) (updatePairState p PairStateFailed a)"

text \<open>\<open>checkPair\<close> up to its wait: \<open>built\<close> and \<open>sent\<close> say whether building and writing the request succeed.\<close>

definition check_send :: "bool \<Rightarrow> nat \<Rightarrow> bool \<Rightarrow> nat \<Rightarrow> Agent \<Rightarrow> Agent" where
  "check_send built tx sent p a =
     (case fmlookup (ag_checks a) p of
        None \<Rightarrow> a
      | Some c \<Rightarrow>
          if ck_phase c \<noteq> CkNew then a
          else if \<not> built then check_fail p a
          else if \<not> sent then check_fail p (a\<lparr>ag_pending := fmdrop tx (ag_pending a)\<rparr>)
          else upd_check p (\<lambda>c. c\<lparr>ck_phase := CkWait, ck_tx := tx\<rparr>) (a\<lparr>ag_pending := fmupd tx p (ag_pending a)\<rparr>))"

text \<open>The answer: the pair has succeeded and the selection is looked at; then it is nominated if none was seen.\<close>

definition check_answer :: "nat \<Rightarrow> Agent \<Rightarrow> Agent" where
  "check_answer p a =
     (case fmlookup (ag_checks a) p of
        None \<Rightarrow> a
      | Some c \<Rightarrow>
          if ck_phase c = CkWait \<and> ck_answered c
          then upd_check p (\<lambda>c. c\<lparr>ck_phase := CkSaw (ag_selected a = None)\<rparr>) (updatePairState p PairStateSucceeded a)
          else a)"

definition check_nominate :: "nat \<Rightarrow> Agent \<Rightarrow> Agent" where
  "check_nominate p a0 =
     (case fmlookup (ag_checks a0) p of
        None \<Rightarrow> a0
      | Some c \<Rightarrow>
          (case ck_phase c of
             CkSaw none \<Rightarrow>
               let a = upd_check p (\<lambda>c. c\<lparr>ck_phase := CkDone\<rparr>) a0 in
               if none then ice_setState AgentStateConnected ((upd_pair p (\<lambda>x. x\<lparr>cp_Nominated := True\<rparr>) a)\<lparr>ag_selected := Some p\<rparr>)
               else a
           | _ \<Rightarrow> a0))"

text \<open>The time-out of a check, or the end of its context.\<close>

definition check_give_up :: "nat \<Rightarrow> Agent \<Rightarrow> Agent" where
  "check_give_up p a =
     (case fmlookup (ag_checks a) p of
        None \<Rightarrow> a
      | Some c \<Rightarrow> if ck_phase c = CkWait then check_fail p (a\<lparr>ag_pending := fmdrop (ck_tx c) (ag_pending a)\<rparr>) else a)"

section \<open>The read loop\<close>

datatype stun_in = StunRequest | StunSuccess nat | StunOther

definition read_stun :: "stun_in \<Rightarrow> UDPAddr \<Rightarrow> Agent \<Rightarrow> Agent" where
  "read_stun msg from a =
     (if \<not> ag_reader a then a
      else (case msg of
              StunRequest \<Rightarrow> a\<lparr>ag_replies := ag_replies a @ [from]\<rparr>
            | StunSuccess tx \<Rightarrow>
                (case fmlookup (ag_pending a) tx of
                   None \<Rightarrow> a
                 | Some p \<Rightarrow> upd_check p (\<lambda>c. c\<lparr>ck_answered := True\<rparr>) (a\<lparr>ag_pending := fmdrop tx (ag_pending a)\<rparr>))
            | StunOther \<Rightarrow> a))"

definition StopReadLoop :: "Agent \<Rightarrow> Agent" where
  "StopReadLoop a = a\<lparr>ag_reader := False\<rparr>"

definition ice_Close :: "Agent \<Rightarrow> Agent" where
  "ice_Close a = (ice_setState AgentStateClosed a)\<lparr>ag_reader := False, ag_conn_open := False\<rparr>"

end
