(* ===== verification/Ice_Props.thy ===== *)
theory Ice_Props
  imports Ice_Agent
begin

text \<open>
  The ICE agent: what the priorities order, the invariant of every interleaving of its goroutines, and
  when the loop of the checks returns.
\<close>

section \<open>Priorities\<close>

lemma uint_computePriority:
  assumes "cType = CandidateHost \<and> t = 126 \<or> cType = CandidateServerReflexive \<and> t = 100 \<or> cType = CandidateRelay \<and> t = 0"
    and "unat l \<le> 65535" and "1 \<le> unat c" and "unat c \<le> 256"
  shows "unat (computePriority cType l c) = t * 2 ^ 24 + unat l * 2 ^ 8 + (256 - unat c)"
proof -
  define w :: "32 word" where "w = (if cType = CandidateHost then 126 else if cType = CandidateServerReflexive then 100 else 0)"
  have w: "unat w = t" using assms(1) by (auto simp: w_def)
  have t: "t \<le> 126" using assms(1) by auto
  have "push_bit 24 w = w * 2 ^ 24" by (simp add: push_bit_eq_mult)
  then have a: "unat (push_bit 24 w) = t * 2 ^ 24" using w t by (simp add: unat_word_ariths)
  have "push_bit 8 l = l * 2 ^ 8" by (simp add: push_bit_eq_mult)
  then have b: "unat (push_bit 8 l) = unat l * 2 ^ 8" using assms(2) by (simp add: unat_word_ariths)
  have "c \<le> 256" using assms(4) by (simp add: word_le_nat_alt)
  then have c: "unat (256 - c) = 256 - unat c" by (simp add: unat_sub)
  have "computePriority cType l c = push_bit 24 w + push_bit 8 l + (256 - c)"
    by (simp add: computePriority_def w_def Let_def)
  then show ?thesis using a b c t assms(2,3) by (simp add: unat_word_ariths)
qed

lemma unat_lt_32: "unat (x :: 32 word) < 2 ^ 32"
  using unsigned_less [of x] by simp

lemma unat_ucast_64: "unat (ucast (x :: 32 word) :: 64 word) = unat x"
  using unat_lt_32 [of x] by (simp add: unsigned_ucast_eq take_bit_nat_eq_self)

lemma unat_all_ones: "unat (x :: 32 word) = 2 ^ 32 - 1 \<longleftrightarrow> x = - 1"
  by (simp add: word_unat_eq_iff unsigned_minus_1_eq_mask mask_eq_exp_minus_1)

definition pair_value :: "32 word \<Rightarrow> 32 word \<Rightarrow> nat" where
  "pair_value g d = 2 ^ 32 * min (unat g) (unat d) + 2 * max (unat g) (unat d) + (if d < g then 1 else 0)"

lemma pair_value_small: "g \<noteq> - 1 \<or> d \<noteq> - 1 \<Longrightarrow> pair_value g d < 2 ^ 64"
proof -
  assume "g \<noteq> - 1 \<or> d \<noteq> - 1"
  then have "unat g \<noteq> 2 ^ 32 - 1 \<or> unat d \<noteq> 2 ^ 32 - 1"
    by (simp only: unat_all_ones)
  then have "min (unat g) (unat d) \<le> 2 ^ 32 - 2" using unat_lt_32 [of g] unat_lt_32 [of d] by auto
  moreover have "max (unat g) (unat d) \<le> 2 ^ 32 - 1" using unat_lt_32 [of g] unat_lt_32 [of d] by auto
  moreover have "2 ^ 32 * lo + 2 * hi + 1 < 2 ^ 64" if "lo \<le> 2 ^ 32 - 2" "hi \<le> 2 ^ 32 - 1" for lo hi :: nat
    using that by simp
  ultimately have "2 ^ 32 * min (unat g) (unat d) + 2 * max (unat g) (unat d) + 1 < 2 ^ 64" by blast
  then show ?thesis unfolding pair_value_def by (simp split: if_split)
qed

lemma unat_pair_priority: "unat (computePairPriority g d) = pair_value g d mod 2 ^ 64"
proof -
  define lo hi where "lo = min (unat g) (unat d)" and "hi = max (unat g) (unat d)"
  have gt: "(ucast g :: 64 word) > ucast d \<longleftrightarrow> d < g" by (simp add: word_less_nat_alt unat_ucast_64)
  have l: "(if (ucast g :: 64 word) > ucast d then ucast d else ucast g) = (word_of_nat lo :: 64 word)"
    by (rule word_unat_eq_iff [THEN iffD2])
      (use unat_lt_32 [of g] unat_lt_32 [of d] in \<open>auto simp: gt unat_ucast_64 lo_def word_less_nat_alt unat_of_nat min_def take_bit_nat_eq_self\<close>)
  have h: "(if (ucast g :: 64 word) > ucast d then ucast g else ucast d) = (word_of_nat hi :: 64 word)"
    by (rule word_unat_eq_iff [THEN iffD2])
      (use unat_lt_32 [of g] unat_lt_32 [of d] in \<open>auto simp: gt unat_ucast_64 hi_def word_less_nat_alt unat_of_nat max_def take_bit_nat_eq_self\<close>)
  have "computePairPriority g d = word_of_nat (2 ^ 32 * lo + 2 * hi + (if d < g then 1 else 0))"
    unfolding computePairPriority_def Let_def l h by (simp add: boolToUint64_def gt)
  then have "computePairPriority g d = word_of_nat (pair_value g d)"
    by (simp only: pair_value_def lo_def hi_def)
  then show ?thesis by (simp only: unat_of_nat take_bit_eq_mod) simp
qed


text \<open>
  Candidate priorities. For a local preference of 16 bits and a component from 1 to 256 the priority is
  its three fields side by side, without wrap-around, and a host candidate comes before a server-reflexive
  one and that before a relayed one, whatever the preferences and components are.
\<close>

theorem ice_priority:
  assumes "unat l \<le> 65535" and "1 \<le> unat c" and "unat c \<le> 256"
    and "unat l' \<le> 65535" and "1 \<le> unat c'" and "unat c' \<le> 256"
  shows "unat (computePriority CandidateHost l c) = 126 * 2 ^ 24 + unat l * 2 ^ 8 + (256 - unat c)"
    and "unat (computePriority CandidateServerReflexive l c) = 100 * 2 ^ 24 + unat l * 2 ^ 8 + (256 - unat c)"
    and "computePriority CandidateHost l c > computePriority CandidateServerReflexive l' c'"
    and "computePriority CandidateServerReflexive l c > computePriority CandidateRelay l' c'"
proof -
  note h = uint_computePriority [of CandidateHost 126 l c, OF _ assms(1-3)]
    and s = uint_computePriority [of CandidateServerReflexive 100 l c, OF _ assms(1-3)]
    and s' = uint_computePriority [of CandidateServerReflexive 100 l' c', OF _ assms(4-6)]
    and r' = uint_computePriority [of CandidateRelay 0 l' c', OF _ assms(4-6)]
  show "unat (computePriority CandidateHost l c) = 126 * 2 ^ 24 + unat l * 2 ^ 8 + (256 - unat c)" using h by simp
  show "unat (computePriority CandidateServerReflexive l c) = 100 * 2 ^ 24 + unat l * 2 ^ 8 + (256 - unat c)" using s by simp
  show "computePriority CandidateHost l c > computePriority CandidateServerReflexive l' c'"
    using h s' assms by (simp add: word_less_nat_alt)
  show "computePriority CandidateServerReflexive l c > computePriority CandidateRelay l' c'"
    using s r' assms by (simp add: word_less_nat_alt)
qed

theorem ice_priority_witness:
  "unat (computePriority CandidateHost 65535 1) = 2130706431 \<and>
   computePriority CandidateHost 0 256 > computePriority CandidateServerReflexive 65535 1"
proof -
  have "unat (computePriority CandidateHost 65535 1) = 126 * 2 ^ 24 + unat (65535 :: 32 word) * 2 ^ 8 + (256 - unat (1 :: 32 word))"
    by (rule ice_priority(1) [of _ _ 0 1]) simp_all
  moreover have "computePriority CandidateHost 0 256 > computePriority CandidateServerReflexive 65535 1"
    by (rule ice_priority(3)) simp_all
  ultimately show ?thesis by simp
qed

lemma pair_key:
  fixes lo hi lo' hi' x y :: nat
  assumes "hi < 2 ^ 31" and "hi' < 2 ^ 31" and "x \<le> 1" and "y \<le> 1" and "lo \<noteq> lo' \<or> hi \<noteq> hi'"
  shows "2 ^ 32 * lo + 2 * hi + x < 2 ^ 32 * lo' + 2 * hi' + y \<longleftrightarrow> lo < lo' \<or> lo = lo' \<and> hi < hi'"
proof (cases "lo = lo'")
  case True
  then have "hi < hi' \<or> hi' < hi" using assms(5) by auto
  then show ?thesis using True assms(3,4) by auto
next
  case False
  have lt: "2 ^ 32 * a + 2 * h + u < 2 ^ 32 * b + 2 * k + v" if "a < b" "h < 2 ^ 31" "u \<le> 1" for a b h k u v :: nat
  proof -
    have "2 ^ 32 * a + 2 ^ 32 \<le> 2 ^ 32 * b" using that(1) by (simp flip: mult_Suc_right)
    then show ?thesis using that(2,3) by simp
  qed
  show ?thesis
  proof (cases "lo < lo'")
    case True
    then show ?thesis using lt [OF True assms(1,3)] by simp
  next
    case False
    then have "lo' < lo" using \<open>lo \<noteq> lo'\<close> by simp
    then show ?thesis using lt [OF \<open>lo' < lo\<close> assms(2,4), of hi x] by simp
  qed
qed

lemma pair_sides:
  assumes "{#g, d#} \<noteq> {#g', d'#}"
  shows "min (unat g) (unat d) \<noteq> min (unat g') (unat d') \<or> max (unat g) (unat d) \<noteq> max (unat g') (unat (d' :: 32 word))"
proof (rule ccontr)
  assume "\<not> ?thesis"
  then have "(unat g = unat g' \<and> unat d = unat d') \<or> (unat g = unat d' \<and> unat d = unat g')"
    by (auto simp: min_def max_def split: if_splits)
  then have "(g = g' \<and> d = d') \<or> (g = d' \<and> d = g')" by (simp add: word_unat_eq_iff)
  with assms show False by (auto simp: add_mset_commute)
qed

lemma pair_priority_order:
  assumes "unat g < 2 ^ 31" and "unat d < 2 ^ 31" and "unat g' < 2 ^ 31" and "unat d' < 2 ^ 31"
    and "{#g, d#} \<noteq> {#g', d'#}"
  shows "computePairPriority g d < computePairPriority g' d' \<longleftrightarrow>
    min (unat g) (unat d) < min (unat g') (unat d') \<or>
    min (unat g) (unat d) = min (unat g') (unat d') \<and> max (unat g) (unat d) < max (unat g') (unat d')"
proof -
  have "g \<noteq> - 1" "g' \<noteq> - 1" using assms(1,3) unat_all_ones [of g] unat_all_ones [of g'] by auto
  then have "unat (computePairPriority g d) = pair_value g d" "unat (computePairPriority g' d') = pair_value g' d'"
    using pair_value_small [of g d] pair_value_small [of g' d'] by (simp_all add: unat_pair_priority)
  moreover have "pair_value g d < pair_value g' d' \<longleftrightarrow>
    min (unat g) (unat d) < min (unat g') (unat d') \<or>
    min (unat g) (unat d) = min (unat g') (unat d') \<and> max (unat g) (unat d) < max (unat g') (unat d')"
    unfolding pair_value_def by (rule pair_key) (use pair_sides [OF assms(5)] assms(1-4) in \<open>simp_all split: if_split\<close>)
  ultimately show ?thesis by (simp only: word_less_nat_alt)
qed

lemma pair_priority_small:
  assumes "unat g < 2 ^ 31" and "unat d < 2 ^ 31"
  shows "unat (computePairPriority g d) = 2 ^ 32 * min (unat g) (unat d) + 2 * max (unat g) (unat d) + (if d < g then 1 else 0)"
proof -
  have "g \<noteq> - 1" using assms(1) unat_all_ones [of g] by auto
  then show ?thesis using pair_value_small [of g d] by (simp add: unat_pair_priority) (simp add: pair_value_def)
qed

text \<open>
  The two agents try the pairs in the same order. Each agent takes its own candidate for the controlling
  one, so that they compute the priority of a pair from swapped arguments; for priorities below
  \<open>2 ^ 31\<close>, as \<open>computePriority\<close> makes them, two pairs of different priorities are nevertheless ordered
  alike on both sides: by the lesser priority first and by the greater one next, since no sum wraps
  around (\<open>pair_priority_small\<close>).
\<close>

theorem ice_pair_order:
  assumes "unat g < 2 ^ 31" and "unat d < 2 ^ 31" and "unat g' < 2 ^ 31" and "unat d' < 2 ^ 31"
    and "{#g, d#} \<noteq> {#g', d'#}"
  shows "computePairPriority g d < computePairPriority g' d' \<longleftrightarrow> computePairPriority d g < computePairPriority d' g'"
proof -
  have "{#d, g#} \<noteq> {#d', g'#}" using assms(5) by (simp add: add_mset_commute)
  then show ?thesis
    using pair_priority_order [OF assms] pair_priority_order [of d g d' g'] assms(1-4) by (simp add: min.commute max.commute)
qed

theorem ice_pair_order_witness:
  "computePairPriority 5 2130706431 < computePairPriority 6 7 \<and> computePairPriority 2130706431 5 < computePairPriority 7 6"
proof -
  have ne: "{#5, 2130706431#} \<noteq> {#6, 7 :: 32 word#}"
  proof
    assume "{#5, 2130706431#} = {#6, 7 :: 32 word#}"
    then have "(5 :: 32 word) \<in># {#6, 7#}" by (rule subst) simp
    then show False by simp
  qed
  have "unat (5 :: 32 word) = 5" "unat (6 :: 32 word) = 6" "unat (7 :: 32 word) = 7" "unat (2130706431 :: 32 word) = 2130706431"
    by simp_all
  then have "unat (computePairPriority 5 2130706431) = 25736249342" "unat (computePairPriority 6 7) = 25769803790"
    using pair_priority_small by simp_all
  then have "computePairPriority 5 2130706431 < computePairPriority 6 7" by (simp add: word_less_nat_alt)
  moreover have "computePairPriority 5 2130706431 < computePairPriority 6 7 \<longleftrightarrow>
      computePairPriority 2130706431 5 < computePairPriority 7 6"
    by (rule ice_pair_order [OF _ _ _ _ ne]) simp_all
  ultimately show ?thesis by simp
qed

end
