(* ===== verification/Ice_Run.thy ===== *)
theory Ice_Run
  imports Ice_Props
begin

text \<open>
  Runs of the ICE agent: every interleaving of the calls of its owner, the loop of the checks, the checks
  and the read loop. The invariant says in which order the pairs are tried, what state a pair has while
  its check is where, and that a selected pair was answered.
\<close>

datatype ice_event =
    IeGather "int option" "(string \<times> netip \<times> bool) list option" string "stun_error + STUNBinding"
  | IeRemote Candidate
  | IeBegin
  | IeTick gotime
  | IeEnd ice_error
  | IeSend nat bool nat bool
  | IeAnswer nat
  | IeNominate nat
  | IeGiveUp nat
  | IeRead stun_in UDPAddr
  | IeStop
  | IeClose

fun ice_step :: "(string \<Rightarrow> string) \<Rightarrow> (netip \<Rightarrow> string) \<Rightarrow> ice_event \<Rightarrow> Agent \<Rightarrow> Agent" where
  "ice_step h t (IeGather port addrs uuid r) a = snd (GatherCandidates h t port addrs uuid r a)"
| "ice_step h t (IeRemote c) a = AddRemoteCandidate c a"
| "ice_step h t IeBegin a = StartChecks_begin a"
| "ice_step h t (IeTick now) a = StartChecks_tick now a"
| "ice_step h t (IeEnd e) a = StartChecks_stop e a"
| "ice_step h t (IeSend p built tx sent) a = check_send built tx sent p a"
| "ice_step h t (IeAnswer p) a = check_answer p a"
| "ice_step h t (IeNominate p) a = check_nominate p a"
| "ice_step h t (IeGiveUp p) a = check_give_up p a"
| "ice_step h t (IeRead msg from) a = read_stun msg from a"
| "ice_step h t IeStop a = StopReadLoop a"
| "ice_step h t IeClose a = ice_Close a"

definition ice_run :: "(string \<Rightarrow> string) \<Rightarrow> (netip \<Rightarrow> string) \<Rightarrow> ice_event list \<Rightarrow> Agent \<Rightarrow> Agent" where
  "ice_run h t evs a = fold (ice_step h t) evs a"

lemma ice_run_snoc: "ice_run h t (evs @ [ev]) a = ice_step h t ev (ice_run h t evs a)"
  by (simp add: ice_run_def)

section \<open>What the helpers change\<close>

lemma upd_pair_simps [simp]:
  "fmlookup (ag_pairs (upd_pair p f a)) q = (if q = p then Some (f (pair_at a p)) else fmlookup (ag_pairs a) q)"
  "ag_checks (upd_pair p f a) = ag_checks a" "ag_selected (upd_pair p f a) = ag_selected a"
  "ag_pending (upd_pair p f a) = ag_pending a" "ag_checklist (upd_pair p f a) = ag_checklist a"
  "ag_next (upd_pair p f a) = ag_next a" "ag_running (upd_pair p f a) = ag_running a"
  by (simp_all add: upd_pair_def)

lemma upd_check_simps [simp]:
  "fmlookup (ag_checks (upd_check p f a)) q = (if q = p then map_option f (fmlookup (ag_checks a) p) else fmlookup (ag_checks a) q)"
  "ag_pairs (upd_check p f a) = ag_pairs a" "ag_selected (upd_check p f a) = ag_selected a"
  "ag_pending (upd_check p f a) = ag_pending a" "ag_checklist (upd_check p f a) = ag_checklist a"
  "ag_next (upd_check p f a) = ag_next a" "ag_running (upd_check p f a) = ag_running a"
  by (auto simp: upd_check_def split: option.split)

lemma setState_simps [simp]:
  "ag_pairs (ice_setState s a) = ag_pairs a" "ag_checks (ice_setState s a) = ag_checks a"
  "ag_selected (ice_setState s a) = ag_selected a" "ag_pending (ice_setState s a) = ag_pending a"
  "ag_checklist (ice_setState s a) = ag_checklist a" "ag_next (ice_setState s a) = ag_next a"
  "ag_running (ice_setState s a) = ag_running a" "ag_config (ice_setState s a) = ag_config a"
  by (simp_all add: ice_setState_def)

lemma checks_return_simps [simp]:
  "ag_pairs (checks_return r a) = ag_pairs a" "ag_checks (checks_return r a) = ag_checks a"
  "ag_selected (checks_return r a) = ag_selected a" "ag_pending (checks_return r a) = ag_pending a"
  "ag_checklist (checks_return r a) = ag_checklist a" "ag_next (checks_return r a) = ag_next a"
  by (simp_all add: checks_return_def)

lemma pair_at_upd_pair [simp]: "pair_at (upd_pair p f a) q = (if q = p then f (pair_at a p) else pair_at a q)"
  by (simp add: pair_at_def)

lemma pair_at_frame [simp]:
  "pair_at (upd_check p f a) q = pair_at a q" "pair_at (a\<lparr>ag_pending := x\<rparr>) q = pair_at a q"
  by (simp_all add: pair_at_def)

text \<open>The part of the agent that the invariant is about.\<close>

definition ice_core :: "Agent \<Rightarrow> (nat, CandidatePair) fmap \<times> nat \<times> nat list \<times> (nat, nat) fmap \<times> (nat, Check) fmap \<times> nat option" where
  "ice_core a = (ag_pairs a, ag_next a, ag_checklist a, ag_pending a, ag_checks a, ag_selected a)"

lemma keep_candidate_core [simp]: "ice_core (keep_candidate c a) = ice_core a"
  by (simp add: keep_candidate_def fireCandidate_def addLocalCandidate_def ice_core_def)

lemma fold_keep_core [simp]: "ice_core (fold keep_candidate cs a) = ice_core a"
  by (induction cs arbitrary: a) auto

lemma Gather_core [simp]: "ice_core (snd (GatherCandidates h t port addrs uuid r a)) = ice_core a"
  by (auto simp: GatherCandidates_def Let_def split: option.split sum.split)
    (simp_all add: ice_core_def)

section \<open>The order of the check list\<close>

definition list_inv :: "Agent \<Rightarrow> bool" where
  "list_inv a \<longleftrightarrow> distinct (ag_checklist a) \<and> (\<forall>p. p \<in> set (ag_checklist a) \<longleftrightarrow> fmlookup (ag_pairs a) p \<noteq> None) \<and>
     (\<forall>p \<in> set (ag_checklist a). p < ag_next a) \<and>
     sorted_wrt (\<lambda>p q. cp_Priority (pair_at a p) \<ge> cp_Priority (pair_at a q)) (ag_checklist a)"

lemma weak_before: "weak_order (before_pair a)"
  unfolding before_pair_def by (rule weak_orderI) auto

lemma list_inv_addPair:
  assumes "list_inv a"
  shows "list_inv (addPair pair a)"
proof -
  define b where "b = a\<lparr>ag_pairs := fmupd (ag_next a) pair (ag_pairs a), ag_next := ag_next a + 1\<rparr>"
  define l where "l = sort_slice (before_pair b) (ag_checklist a @ [ag_next a])"
  have e: "addPair pair a = b\<lparr>ag_checklist := l\<rparr>" by (simp add: addPair_def Let_def b_def l_def)
  have m: "mset l = mset (ag_checklist a @ [ag_next a])" by (simp add: l_def)
  have new: "ag_next a \<notin> set (ag_checklist a)" using assms by (auto simp: list_inv_def)
  have "distinct (ag_checklist a @ [ag_next a])" using assms new by (simp add: list_inv_def)
  then have d: "distinct l" using m by (metis mset_eq_imp_distinct_iff)
  have s: "set l = insert (ag_next a) (set (ag_checklist a))" using m by (metis mset_eq_setD set_append list.set Un_insert_right sup_bot_right)
  have "sorted_wrt (\<lambda>p q. \<not> before_pair b q p) l" unfolding l_def by (rule go_sort.srt_sorted [OF weak_before])
  then have "sorted_wrt (\<lambda>p q. cp_Priority (pair_at b p) \<ge> cp_Priority (pair_at b q)) l"
    by (simp add: before_pair_def not_less)
  moreover have "pair_at (b\<lparr>ag_checklist := l\<rparr>) = pair_at b" by (rule ext) (simp add: pair_at_def)
  ultimately show ?thesis using assms d s unfolding e by (auto simp: list_inv_def b_def less_Suc_eq)
qed

lemma list_inv_core: "ice_core a = ice_core b \<Longrightarrow> list_inv a = list_inv b"
  by (simp add: list_inv_def ice_core_def pair_at_def)

lemma list_inv_upd_pair:
  assumes "list_inv a" and "fmlookup (ag_pairs a) p \<noteq> None" and "cp_Priority (f (pair_at a p)) = cp_Priority (pair_at a p)"
  shows "list_inv (upd_pair p f a)"
proof -
  have "cp_Priority (pair_at (upd_pair p f a) q) = cp_Priority (pair_at a q)" for q using assms(3) by simp
  then show ?thesis using assms(1,2) by (simp add: list_inv_def)
qed

section \<open>Pairs and their checks\<close>

text \<open>A request of the check of \<open>p\<close> was sent, and an answer with its transaction was read.\<close>

definition heard :: "ice_event list \<Rightarrow> nat \<Rightarrow> bool" where
  "heard evs p \<longleftrightarrow> (\<exists>tx from. IeSend p True tx True \<in> set evs \<and> IeRead (StunSuccess tx) from \<in> set evs)"

definition slot_ok :: "ice_event list \<Rightarrow> bool \<Rightarrow> nat \<Rightarrow> CandidatePair \<Rightarrow> Check option \<Rightarrow> bool" where
  "slot_ok evs sel p pr co \<longleftrightarrow>
     (case co of
        None \<Rightarrow> cp_State pr = PairStateWaiting \<and> \<not> cp_Nominated pr
      | Some c \<Rightarrow>
          (ck_answered c \<longrightarrow> heard evs p) \<and>
          (case ck_phase c of
             CkNew \<Rightarrow> cp_State pr = PairStateInProgress \<and> \<not> cp_Nominated pr
           | CkWait \<Rightarrow> cp_State pr = PairStateInProgress \<and> \<not> cp_Nominated pr
           | CkSaw none \<Rightarrow> cp_State pr = PairStateSucceeded \<and> \<not> cp_Nominated pr \<and> heard evs p \<and> (none \<or> sel)
           | CkDone \<Rightarrow> (cp_State pr = PairStateSucceeded \<and> heard evs p \<and> sel) \<or> (cp_State pr = PairStateFailed \<and> \<not> cp_Nominated pr)))"

definition pairs_inv :: "ice_event list \<Rightarrow> Agent \<Rightarrow> bool" where
  "pairs_inv evs a \<longleftrightarrow>
     (\<forall>p. case fmlookup (ag_pairs a) p of
            None \<Rightarrow> fmlookup (ag_checks a) p = None
          | Some pr \<Rightarrow> slot_ok evs (ag_selected a \<noteq> None) p pr (fmlookup (ag_checks a) p)) \<and>
     (\<forall>tx p. fmlookup (ag_pending a) tx = Some p \<longrightarrow> IeSend p True tx True \<in> set evs) \<and>
     (\<forall>p. ag_selected a = Some p \<longrightarrow>
        (\<exists>pr. fmlookup (ag_pairs a) p = Some pr \<and> cp_State pr = PairStateSucceeded \<and> cp_Nominated pr \<and> heard evs p))"

lemma heard_mono: "heard evs p \<Longrightarrow> heard (evs @ [ev]) p"
  by (auto simp: heard_def)

lemma slot_ok_mono: "slot_ok evs sel p pr co \<Longrightarrow> sel \<longrightarrow> sel' \<Longrightarrow> slot_ok (evs @ [ev]) sel' p pr co"
  by (auto simp: slot_ok_def heard_mono split: option.splits check_phase.splits)

lemma pairs_inv_snoc: "pairs_inv evs a \<Longrightarrow> pairs_inv (evs @ [ev]) a"
  unfolding pairs_inv_def by (fastforce intro: slot_ok_mono heard_mono split: option.splits)

lemma pairs_inv_core:
  assumes "ice_core a = ice_core b"
  shows "pairs_inv evs a = pairs_inv evs b"
proof -
  have "ag_pairs a = ag_pairs b" "ag_checks a = ag_checks b" "ag_pending a = ag_pending b" "ag_selected a = ag_selected b"
    using assms by (simp_all add: ice_core_def)
  then show ?thesis by (simp only: pairs_inv_def)
qed


lemma pairs_inv_weaken:
  assumes "pairs_inv evs a" and "ag_pairs b = ag_pairs a" and "ag_checks b = ag_checks a" and "ag_selected b = ag_selected a"
    and "\<forall>tx q. fmlookup (ag_pending b) tx = Some q \<longrightarrow> fmlookup (ag_pending a) tx = Some q"
  shows "pairs_inv evs b"
  using assms(1,5) unfolding pairs_inv_def assms(2-4) by blast

lemma pairs_inv_slot:
  assumes "pairs_inv evs a"
    and "\<forall>q. q \<noteq> p \<longrightarrow> fmlookup (ag_pairs b) q = fmlookup (ag_pairs a) q \<and> fmlookup (ag_checks b) q = fmlookup (ag_checks a) q"
    and "fmlookup (ag_pairs b) p = Some pr" and "slot_ok evs (ag_selected a \<noteq> None) p pr (fmlookup (ag_checks b) p)"
    and "\<forall>tx q. fmlookup (ag_pending b) tx = Some q \<longrightarrow> fmlookup (ag_pending a) tx = Some q \<or> IeSend q True tx True \<in> set evs"
    and "ag_selected b = ag_selected a" and "ag_selected a \<noteq> Some p"
  shows "pairs_inv evs b"
  unfolding pairs_inv_def
proof (intro conjI allI impI)
  fix q
  show "case fmlookup (ag_pairs b) q of None \<Rightarrow> fmlookup (ag_checks b) q = None
    | Some pr \<Rightarrow> slot_ok evs (ag_selected b \<noteq> None) q pr (fmlookup (ag_checks b) q)"
  proof (cases "q = p")
    case True
    then show ?thesis using assms(3,4,6) by simp
  next
    case False
    have "case fmlookup (ag_pairs a) q of None \<Rightarrow> fmlookup (ag_checks a) q = None
      | Some pr \<Rightarrow> slot_ok evs (ag_selected a \<noteq> None) q pr (fmlookup (ag_checks a) q)"
      using assms(1) unfolding pairs_inv_def by blast
    then show ?thesis using assms(2,6) False by (auto split: option.splits)
  qed
next
  fix tx q assume "fmlookup (ag_pending b) tx = Some q"
  then show "IeSend q True tx True \<in> set evs" using assms(1,5) unfolding pairs_inv_def by blast
next
  fix q assume "ag_selected b = Some q"
  then show "\<exists>pr. fmlookup (ag_pairs b) q = Some pr \<and> cp_State pr = PairStateSucceeded \<and> cp_Nominated pr \<and> heard evs q"
    using assms(1,2,6,7) by (cases "q = p") (auto simp: pairs_inv_def)
qed

lemma pairs_inv_check:
  assumes "pairs_inv evs a" and "fmlookup (ag_checks a) p = Some c"
  shows "fmlookup (ag_pairs a) p = Some (pair_at a p) \<and> slot_ok evs (ag_selected a \<noteq> None) p (pair_at a p) (Some c)"
proof -
  have s: "case fmlookup (ag_pairs a) p of None \<Rightarrow> fmlookup (ag_checks a) p = None
    | Some pr \<Rightarrow> slot_ok evs (ag_selected a \<noteq> None) p pr (fmlookup (ag_checks a) p)"
    using assms(1) unfolding pairs_inv_def by blast
  then show ?thesis using assms(2) by (auto simp: pair_at_def split: option.splits)
qed

lemma pairs_inv_selected:
  assumes "pairs_inv evs a" and "fmlookup (ag_checks a) p = Some c" and "ck_phase c \<noteq> CkDone"
  shows "ag_selected a \<noteq> Some p"
proof
  assume "ag_selected a = Some p"
  then obtain pr where "fmlookup (ag_pairs a) p = Some pr" "cp_State pr = PairStateSucceeded" "cp_Nominated pr"
    using assms(1) unfolding pairs_inv_def by blast
  then show False using pairs_inv_check [OF assms(1,2)] assms(3)
    by (auto simp: slot_ok_def split: check_phase.splits)
qed

lemma check_fail_simps [simp]:
  "ag_selected (check_fail p a) = ag_selected a" "ag_pending (check_fail p a) = ag_pending a"
  "ag_checklist (check_fail p a) = ag_checklist a" "ag_next (check_fail p a) = ag_next a"
  "fmlookup (ag_pairs (check_fail p a)) q = (if q = p then Some ((pair_at a p)\<lparr>cp_State := PairStateFailed\<rparr>) else fmlookup (ag_pairs a) q)"
  "fmlookup (ag_checks (check_fail p a)) q =
     (if q = p then map_option (\<lambda>c. c\<lparr>ck_phase := CkDone\<rparr>) (fmlookup (ag_checks a) p) else fmlookup (ag_checks a) q)"
  by (simp_all add: check_fail_def updatePairState_def)

text \<open>A check whose pair is in progress fails; its entry may be taken out of the pending ones.\<close>

lemma pairs_inv_fail:
  assumes i: "pairs_inv evs a" and c: "fmlookup (ag_checks a) p = Some c" and ph: "ck_phase c = CkNew \<or> ck_phase c = CkWait"
  shows "pairs_inv evs (check_fail p (a\<lparr>ag_pending := fmdrop tx (ag_pending a)\<rparr>))" (is ?A) and "pairs_inv evs (check_fail p a)" (is ?B)
proof -
  note k = pairs_inv_check [OF i c]
  have sel: "ag_selected a \<noteq> Some p" by (rule pairs_inv_selected [OF i c]) (use ph in auto)
  have ok: "slot_ok evs (ag_selected a \<noteq> None) p ((pair_at a p)\<lparr>cp_State := PairStateFailed\<rparr>) (Some (c\<lparr>ck_phase := CkDone\<rparr>))"
    using k ph by (auto simp: slot_ok_def)
  have pa: "pair_at (a\<lparr>ag_pending := x\<rparr>) p = pair_at a p" for x by (simp add: pair_at_def)
  show ?B by (rule pairs_inv_slot [OF i, where p = p]) (use c ok sel in auto)
  show ?A by (rule pairs_inv_slot [OF i, where p = p]) (use c ok sel pa in \<open>auto split: if_splits\<close>)
qed

lemma pairs_inv_send:
  assumes i: "pairs_inv evs a"
  shows "pairs_inv (evs @ [IeSend p built tx sent]) (check_send built tx sent p a)"
proof (cases "fmlookup (ag_checks a) p")
  case None
  then show ?thesis using pairs_inv_snoc [OF i] by (simp add: check_send_def)
next
  case (Some c)
  show ?thesis
  proof (cases "ck_phase c = CkNew")
    case False
    then show ?thesis using pairs_inv_snoc [OF i] Some by (simp add: check_send_def)
  next
    case True
    note i' = pairs_inv_snoc [OF i, of "IeSend p built tx sent"]
    note k = pairs_inv_check [OF i' Some]
    have sel: "ag_selected a \<noteq> Some p" by (rule pairs_inv_selected [OF i' Some]) (use True in auto)
    show ?thesis
    proof (cases "built \<and> sent")
      case False
      then show ?thesis using pairs_inv_fail [OF i' Some] True Some by (auto simp: check_send_def)
    next
      case bs: True
      have "pairs_inv (evs @ [IeSend p True tx True])
          (upd_check p (\<lambda>c. c\<lparr>ck_phase := CkWait, ck_tx := tx\<rparr>) (a\<lparr>ag_pending := fmupd tx p (ag_pending a)\<rparr>))"
        by (rule pairs_inv_slot [where p = p and a = a and pr = "pair_at a p"])
          (use i' bs k sel Some True in \<open>auto simp: slot_ok_def\<close>)
      then show ?thesis using bs Some True by (simp add: check_send_def)
    qed
  qed
qed

lemma pairs_inv_answer:
  assumes i: "pairs_inv evs a"
  shows "pairs_inv evs (check_answer p a)"
proof (cases "fmlookup (ag_checks a) p")
  case (Some c)
  note k = pairs_inv_check [OF i Some]
  show ?thesis
  proof (cases "ck_phase c = CkWait \<and> ck_answered c")
    case True
    have sel: "ag_selected a \<noteq> Some p" by (rule pairs_inv_selected [OF i Some]) (use True in auto)
    have "pairs_inv evs (upd_check p (\<lambda>c. c\<lparr>ck_phase := CkSaw (ag_selected a = None)\<rparr>) (updatePairState p PairStateSucceeded a))"
      by (rule pairs_inv_slot [OF i, where p = p])
        (use k sel Some True in \<open>auto simp: slot_ok_def updatePairState_def\<close>)
    then show ?thesis using Some True by (simp add: check_answer_def)
  qed (use i Some in \<open>auto simp: check_answer_def\<close>)
qed (use i in \<open>simp add: check_answer_def\<close>)

lemma pairs_inv_give_up:
  assumes i: "pairs_inv evs a"
  shows "pairs_inv evs (check_give_up p a)"
  using i pairs_inv_fail(1) [OF i] by (auto simp: check_give_up_def split: option.split)

lemma pairs_inv_nominate:
  assumes i: "pairs_inv evs a"
  shows "pairs_inv evs (check_nominate p a)"
proof (cases "\<exists>c none. fmlookup (ag_checks a) p = Some c \<and> ck_phase c = CkSaw none")
  case False
  then have "check_nominate p a = a" by (auto simp: check_nominate_def split: option.split check_phase.split)
  with i show ?thesis by simp
next
  case True
  then obtain c none where c: "fmlookup (ag_checks a) p = Some c" and ph: "ck_phase c = CkSaw none" by blast
  note k = pairs_inv_check [OF i c]
  have sel: "ag_selected a \<noteq> Some p" by (rule pairs_inv_selected [OF i c]) (use ph in auto)
  define d where "d = upd_check p (\<lambda>c. c\<lparr>ck_phase := CkDone\<rparr>) a"
  show ?thesis
  proof (cases none)
    case False
    then have "pairs_inv evs d"
      unfolding d_def by (intro pairs_inv_slot [OF i, where p = p]) (use k sel c ph in \<open>auto simp: slot_ok_def\<close>)
    with False show ?thesis using c ph by (simp add: check_nominate_def d_def)
  next
    case True
    define n where "n = ice_setState AgentStateConnected ((upd_pair p (\<lambda>x. x\<lparr>cp_Nominated := True\<rparr>) d)\<lparr>ag_selected := Some p\<rparr>)"
    have l: "fmlookup (ag_pairs n) q = (if q = p then Some ((pair_at a p)\<lparr>cp_Nominated := True\<rparr>) else fmlookup (ag_pairs a) q)"
      "fmlookup (ag_checks n) q = (if q = p then Some (c\<lparr>ck_phase := CkDone\<rparr>) else fmlookup (ag_checks a) q)"
      "ag_pending n = ag_pending a" "ag_selected n = Some p" for q
      using c by (simp_all add: n_def d_def pair_at_def)
    have "pairs_inv evs n"
      unfolding pairs_inv_def
    proof (intro conjI allI impI)
      fix q
      have s: "case fmlookup (ag_pairs a) q of None \<Rightarrow> fmlookup (ag_checks a) q = None
          | Some pr \<Rightarrow> slot_ok evs (ag_selected a \<noteq> None) q pr (fmlookup (ag_checks a) q)"
        using i unfolding pairs_inv_def by blast
      show "case fmlookup (ag_pairs n) q of None \<Rightarrow> fmlookup (ag_checks n) q = None
          | Some pr \<Rightarrow> slot_ok evs (ag_selected n \<noteq> None) q pr (fmlookup (ag_checks n) q)"
      proof (cases "q = p")
        case True
        then show ?thesis using k ph by (auto simp: l slot_ok_def)
      next
        case False
        then show ?thesis using s by (auto simp: l slot_ok_def split: option.splits check_phase.splits)
      qed
    next
      fix tx q assume "fmlookup (ag_pending n) tx = Some q"
      then show "IeSend q True tx True \<in> set evs" using i by (auto simp: l pairs_inv_def)
    next
      fix q assume "ag_selected n = Some q"
      then show "\<exists>pr. fmlookup (ag_pairs n) q = Some pr \<and> cp_State pr = PairStateSucceeded \<and> cp_Nominated pr \<and> heard evs q"
        using k ph by (auto simp: l slot_ok_def)
    qed
    with True show ?thesis using c ph by (simp add: check_nominate_def n_def d_def Let_def)
  qed
qed


lemma pairs_inv_read:
  assumes i: "pairs_inv evs a"
  shows "pairs_inv (evs @ [IeRead msg from]) (read_stun msg from a)"
proof -
  note i' = pairs_inv_snoc [OF i, of "IeRead msg from"]
  consider (keep) "ice_core (read_stun msg from a) = ice_core a"
    | (drop) tx p where "msg = StunSuccess tx" "ag_reader a" "fmlookup (ag_pending a) tx = Some p"
  proof (cases "\<exists>tx p. msg = StunSuccess tx \<and> ag_reader a \<and> fmlookup (ag_pending a) tx = Some p")
    case False
    then have "ice_core (read_stun msg from a) = ice_core a"
      by (cases msg) (auto simp: read_stun_def ice_core_def split: option.split)
    then show ?thesis by (rule keep)
  qed (use drop in blast)
  then show ?thesis
  proof cases
    case keep
    then show ?thesis using i' pairs_inv_core by blast
  next
    case drop
    have "IeSend p True tx True \<in> set evs" using i drop(3) unfolding pairs_inv_def by blast
    then have h: "heard (evs @ [IeRead msg from]) p" using drop(1) by (auto simp: heard_def)
    define b where "b = a\<lparr>ag_pending := fmdrop tx (ag_pending a)\<rparr>"
    have e: "read_stun msg from a = upd_check p (\<lambda>c. c\<lparr>ck_answered := True\<rparr>) b" using drop by (simp add: read_stun_def b_def)
    have b: "pairs_inv (evs @ [IeRead msg from]) b"
      by (rule pairs_inv_weaken [OF i']) (simp_all add: b_def)
    show ?thesis
    proof (cases "fmlookup (ag_checks b) p")
      case None
      then show ?thesis using b unfolding e by (simp add: upd_check_def)
    next
      case (Some c)
      note k = pairs_inv_check [OF b Some]
      show ?thesis
      proof (cases "ag_selected b = Some p")
        case False
        show ?thesis unfolding e
          by (rule pairs_inv_slot [OF b, where p = p and pr = "pair_at b p"])
            (use k h Some False in \<open>auto simp: slot_ok_def\<close>)
      next
        case True
        have "pairs_inv (evs @ [IeRead msg from]) (upd_check p (\<lambda>c. c\<lparr>ck_answered := True\<rparr>) b)"
          unfolding pairs_inv_def
        proof (intro conjI allI impI)
          fix q
          have "case fmlookup (ag_pairs b) q of None \<Rightarrow> fmlookup (ag_checks b) q = None
              | Some pr \<Rightarrow> slot_ok (evs @ [IeRead msg from]) (ag_selected b \<noteq> None) q pr (fmlookup (ag_checks b) q)"
            using b unfolding pairs_inv_def by blast
          then show "case fmlookup (ag_pairs (upd_check p (\<lambda>c. c\<lparr>ck_answered := True\<rparr>) b)) q of
                None \<Rightarrow> fmlookup (ag_checks (upd_check p (\<lambda>c. c\<lparr>ck_answered := True\<rparr>) b)) q = None
              | Some pr \<Rightarrow> slot_ok (evs @ [IeRead msg from]) (ag_selected (upd_check p (\<lambda>c. c\<lparr>ck_answered := True\<rparr>) b) \<noteq> None) q pr
                  (fmlookup (ag_checks (upd_check p (\<lambda>c. c\<lparr>ck_answered := True\<rparr>) b)) q)"
            using h Some k by (cases "q = p") (auto simp: slot_ok_def split: option.splits)
        next
          fix tx' q assume "fmlookup (ag_pending (upd_check p (\<lambda>c. c\<lparr>ck_answered := True\<rparr>) b)) tx' = Some q"
          then show "IeSend q True tx' True \<in> set (evs @ [IeRead msg from])" using b unfolding pairs_inv_def by simp
        next
          fix q assume "ag_selected (upd_check p (\<lambda>c. c\<lparr>ck_answered := True\<rparr>) b) = Some q"
          then show "\<exists>pr. fmlookup (ag_pairs (upd_check p (\<lambda>c. c\<lparr>ck_answered := True\<rparr>) b)) q = Some pr \<and>
              cp_State pr = PairStateSucceeded \<and> cp_Nominated pr \<and> heard (evs @ [IeRead msg from]) q"
            using b unfolding pairs_inv_def by simp
        qed
        then show ?thesis unfolding e .
      qed
    qed
  qed
qed

lemma find_Some_mem: "find P xs = Some x \<Longrightarrow> x \<in> set xs \<and> P x"
  by (induction xs) (auto split: if_splits)

definition ice_inv :: "ice_event list \<Rightarrow> Agent \<Rightarrow> bool" where
  "ice_inv evs a \<longleftrightarrow> list_inv a \<and> pairs_inv evs a"

lemma ice_inv_core: "ice_core a = ice_core b \<Longrightarrow> ice_inv evs a = ice_inv evs b"
  unfolding ice_inv_def using list_inv_core pairs_inv_core by blast

lemma ice_inv_handout:
  assumes i: "ice_inv evs a" and f: "find (\<lambda>p. cp_State (pair_at a p) = PairStateWaiting) (ag_checklist a) = Some p"
  shows "ice_inv evs ((upd_pair p (\<lambda>x. x\<lparr>cp_State := PairStateInProgress, cp_LastCheckAt := now\<rparr>) a)
    \<lparr>ag_checks := fmupd p \<lparr>ck_phase = CkNew, ck_tx = 0, ck_answered = False\<rparr> (ag_checks a)\<rparr>)" (is "ice_inv evs ?b")
proof -
  have p: "p \<in> set (ag_checklist a)" "cp_State (pair_at a p) = PairStateWaiting" using find_Some_mem [OF f] by auto
  then have l: "fmlookup (ag_pairs a) p \<noteq> None" using i by (auto simp: ice_inv_def list_inv_def)
  then have pr: "fmlookup (ag_pairs a) p = Some (pair_at a p)" by (simp add: pair_at_def)
  have i2: "pairs_inv evs a" using i by (simp add: ice_inv_def)
  then have "slot_ok evs (ag_selected a \<noteq> None) p (pair_at a p) (fmlookup (ag_checks a) p)"
    using pr unfolding pairs_inv_def by (metis option.simps(5))
  then have n: "\<not> cp_Nominated (pair_at a p)" and c: "fmlookup (ag_checks a) p = None"
    using p(2) by (auto simp: slot_ok_def split: option.splits check_phase.splits)
  have sel: "ag_selected a \<noteq> Some p" using i2 pr n unfolding pairs_inv_def by auto
  have "pairs_inv evs ?b"
    by (rule pairs_inv_slot [OF i2, where p = p]) (use n sel in \<open>auto simp: slot_ok_def split: if_splits\<close>)
  moreover have "list_inv (upd_pair p (\<lambda>x. x\<lparr>cp_State := PairStateInProgress, cp_LastCheckAt := now\<rparr>) a)"
    by (rule list_inv_upd_pair) (use i l in \<open>auto simp: ice_inv_def\<close>)
  then have "list_inv ?b" by (simp add: list_inv_def pair_at_def)
  ultimately show ?thesis by (simp add: ice_inv_def)
qed

lemma ice_inv_tick: "ice_inv evs a \<Longrightarrow> ice_inv evs (StartChecks_tick now a)"
proof (cases "find (\<lambda>p. cp_State (pair_at a p) = PairStateWaiting) (ag_checklist a)")
  case None
  assume i: "ice_inv evs a"
  have "ice_core (StartChecks_tick now a) = ice_core a"
    using None by (simp add: StartChecks_tick_def getNextWaitingPair_def ice_core_def)
  then show ?thesis using i ice_inv_core by blast
next
  case (Some p)
  assume "ice_inv evs a"
  then show ?thesis using ice_inv_handout [OF _ Some] Some by (simp add: StartChecks_tick_def getNextWaitingPair_def)
qed

lemma pairs_inv_addPair:
  assumes "list_inv a" and "pairs_inv evs a" and "cp_State pair = PairStateWaiting" and "\<not> cp_Nominated pair"
  shows "pairs_inv evs (addPair pair a)"
proof (rule pairs_inv_slot [OF assms(2), where p = "ag_next a" and pr = pair])
  have none: "fmlookup (ag_pairs a) (ag_next a) = None" using assms(1) by (fastforce simp: list_inv_def)
  have s: "case fmlookup (ag_pairs a) (ag_next a) of None \<Rightarrow> fmlookup (ag_checks a) (ag_next a) = None
      | Some pr \<Rightarrow> slot_ok evs (ag_selected a \<noteq> None) (ag_next a) pr (fmlookup (ag_checks a) (ag_next a))"
    using assms(2) unfolding pairs_inv_def by blast
  then show "slot_ok evs (ag_selected a \<noteq> None) (ag_next a) pair (fmlookup (ag_checks (addPair pair a)) (ag_next a))"
    using assms(3,4) none by (simp add: slot_ok_def addPair_def Let_def)
  show "ag_selected a \<noteq> Some (ag_next a)" using assms(2) none unfolding pairs_inv_def by auto
qed (simp_all add: addPair_def Let_def)

lemma ice_inv_remote: "ice_inv evs a \<Longrightarrow> ice_inv evs (AddRemoteCandidate c a)"
proof -
  have "ice_inv evs (fold (\<lambda>l. addPair (createPair l c)) ls b)" if "ice_inv evs b" for ls b
    using that
  proof (induction ls arbitrary: b)
    case (Cons l ls)
    have "ice_inv evs (addPair (createPair l c) b)"
      using Cons.prems list_inv_addPair pairs_inv_addPair by (simp add: ice_inv_def createPair_def)
    then show ?case using Cons.IH by simp
  qed simp
  moreover assume "ice_inv evs a"
  then have "ice_inv evs (a\<lparr>ag_remote := ag_remote a @ [c]\<rparr>)"
    using ice_inv_core [of "a\<lparr>ag_remote := ag_remote a @ [c]\<rparr>" a] by (simp add: ice_core_def)
  ultimately show ?thesis by (simp add: AddRemoteCandidate_def)
qed


lemma ice_inv_snoc: "ice_inv evs a \<Longrightarrow> ice_inv (evs @ [ev]) a"
  by (simp add: ice_inv_def pairs_inv_snoc)

lemma list_inv_pairs:
  assumes "list_inv a" and "ag_checklist b = ag_checklist a" and "ag_next b = ag_next a"
    and "\<And>p. fmlookup (ag_pairs b) p = None \<longleftrightarrow> fmlookup (ag_pairs a) p = None"
    and "\<And>p. fmlookup (ag_pairs a) p \<noteq> None \<Longrightarrow> cp_Priority (pair_at b p) = cp_Priority (pair_at a p)"
  shows "list_inv b"
proof -
  have "sorted_wrt (\<lambda>p q. cp_Priority (pair_at b p) \<ge> cp_Priority (pair_at b q)) (ag_checklist a)"
    by (rule sorted_wrt_mono_rel [where P = "\<lambda>p q. cp_Priority (pair_at a p) \<ge> cp_Priority (pair_at a q)"])
      (use assms(1,5) in \<open>auto simp: list_inv_def\<close>)
  then show ?thesis using assms by (simp add: list_inv_def)
qed

text \<open>The steps of a check change the pair of the check only, and not its priority.\<close>

definition same_list :: "Agent \<Rightarrow> Agent \<Rightarrow> bool" where
  "same_list a b \<longleftrightarrow> ag_checklist b = ag_checklist a \<and> ag_next b = ag_next a \<and>
     (\<forall>p. map_option cp_Priority (fmlookup (ag_pairs b) p) = map_option cp_Priority (fmlookup (ag_pairs a) p))"

lemma list_inv_same: "list_inv a \<Longrightarrow> same_list a b \<Longrightarrow> list_inv b"
proof (rule list_inv_pairs)
  assume s: "same_list a b"
  have m: "map_option cp_Priority (fmlookup (ag_pairs b) p) = map_option cp_Priority (fmlookup (ag_pairs a) p)" for p
    using s unfolding same_list_def by blast
  show "fmlookup (ag_pairs b) p = None \<longleftrightarrow> fmlookup (ag_pairs a) p = None" for p
    using m [of p] by (metis map_option_is_None)
  show "cp_Priority (pair_at b p) = cp_Priority (pair_at a p)" if "fmlookup (ag_pairs a) p \<noteq> None" for p
    using m [of p] that by (auto simp: pair_at_def)
qed (simp_all add: same_list_def)

lemma same_list_upd:
  assumes "fmlookup (ag_pairs a) p \<noteq> None" and "\<And>x. cp_Priority (f x) = cp_Priority x"
  shows "same_list a (upd_pair p f a)"
  using assms by (auto simp: same_list_def pair_at_def)

lemma check_same_list:
  assumes "pairs_inv evs a"
  shows "same_list a (check_send built tx sent p a)" "same_list a (check_answer p a)"
    "same_list a (check_nominate p a)" "same_list a (check_give_up p a)"
proof -
  have "same_list a (check_send built tx sent p a) \<and> same_list a (check_answer p a) \<and>
    same_list a (check_nominate p a) \<and> same_list a (check_give_up p a)"
  proof (cases "fmlookup (ag_checks a) p")
    case None
    then show ?thesis by (simp add: same_list_def check_send_def check_answer_def check_nominate_def check_give_up_def)
  next
    case (Some c)
    have pr: "fmlookup (ag_pairs a) p = Some (pair_at a p)" using pairs_inv_check [OF assms Some] by blast
    have 1: "same_list a (check_send built tx sent p a)"
    proof (cases "ck_phase c = CkNew \<and> built")
      case True
      then show ?thesis using Some pr unfolding same_list_def check_send_def by (cases sent) simp_all
    next
      case False
      then show ?thesis using Some pr unfolding same_list_def check_send_def by (cases built) simp_all
    qed
    have 2: "same_list a (check_answer p a)"
      using Some pr by (simp add: same_list_def check_answer_def updatePairState_def)
    have 3: "same_list a (check_nominate p a)"
      using Some pr by (cases "ck_phase c") (simp_all add: same_list_def check_nominate_def Let_def)
    have "same_list a (check_give_up p a)"
      using Some pr by (simp add: same_list_def check_give_up_def)
    with 1 2 3 show ?thesis by simp
  qed
  then show "same_list a (check_send built tx sent p a)" "same_list a (check_answer p a)"
    "same_list a (check_nominate p a)" "same_list a (check_give_up p a)" by simp_all
qed

lemma ice_inv_step:
  assumes "ice_inv evs a"
  shows "ice_inv (evs @ [ev]) (ice_step h t ev a)"
proof -
  have l: "list_inv a" and i: "pairs_inv evs a" and l': "pairs_inv (evs @ [ev]) a"
    using assms by (simp_all add: ice_inv_def pairs_inv_snoc)
  note i' = ice_inv_snoc [OF assms, of ev]
  note same = list_inv_same [OF l]
  show ?thesis
  proof (cases ev)
    case (IeGather port addrs uuid r)
    then show ?thesis using i' ice_inv_core [OF Gather_core] by simp
  next
    case (IeRemote c)
    then show ?thesis using i' by (simp add: ice_inv_remote)
  next
    case IeBegin
    have "ice_core (StartChecks_begin a) = ice_core a" by (simp add: StartChecks_begin_def ice_core_def)
    from ice_inv_core [OF this] show ?thesis using IeBegin i' by simp
  next
    case (IeTick now)
    then show ?thesis using i' by (simp add: ice_inv_tick)
  next
    case (IeEnd err)
    have "ice_core (StartChecks_stop err a) = ice_core a" by (simp add: StartChecks_stop_def ice_core_def)
    from ice_inv_core [OF this] show ?thesis using IeEnd i' by simp
  next
    case (IeSend p built tx sent)
    then show ?thesis using pairs_inv_send [OF i] same [OF check_same_list(1) [OF i]] by (simp add: ice_inv_def)
  next
    case (IeAnswer p)
    then show ?thesis using pairs_inv_answer [OF l'] same [OF check_same_list(2) [OF i]] by (simp add: ice_inv_def)
  next
    case (IeNominate p)
    then show ?thesis using pairs_inv_nominate [OF l'] same [OF check_same_list(3) [OF i]] by (simp add: ice_inv_def)
  next
    case (IeGiveUp p)
    then show ?thesis using pairs_inv_give_up [OF l'] same [OF check_same_list(4) [OF i]] by (simp add: ice_inv_def)
  next
    case (IeRead msg src)
    have "same_list a (read_stun msg src a)"
      by (auto simp: same_list_def read_stun_def split: stun_in.split option.split)
    then show ?thesis using IeRead pairs_inv_read [OF i] same by (simp add: ice_inv_def)
  next
    case IeStop
    have "ice_core (StopReadLoop a) = ice_core a" by (simp add: StopReadLoop_def ice_core_def)
    from ice_inv_core [OF this] show ?thesis using IeStop i' by simp
  next
    case IeClose
    have "ice_core (ice_Close a) = ice_core a" by (simp add: ice_Close_def ice_core_def ice_setState_def)
    from ice_inv_core [OF this] show ?thesis using IeClose i' by simp
  qed
qed

lemma ice_inv_run: "ice_inv evs (ice_run h t evs (NewAgent cfg))"
proof (induction evs rule: rev_induct)
  case Nil
  show ?case by (simp add: ice_run_def ice_inv_def list_inv_def pairs_inv_def NewAgent_def)
next
  case (snoc ev evs)
  then show ?case by (simp add: ice_run_snoc ice_inv_step)
qed


section \<open>What the runs guarantee\<close>

text \<open>
  Pairs are tried by priority. In every interleaving, the pair that is handed out next is waiting and has
  the greatest priority of all waiting pairs, and it is then in progress; none is handed out exactly when
  no pair waits.
\<close>

theorem ice_next_pair:
  "let a = ice_run h t evs (NewAgent cfg) in
     case getNextWaitingPair now a of
       (None, b) \<Rightarrow> b = a \<and> (\<forall>q. fmlookup (ag_pairs a) q \<noteq> None \<longrightarrow> cp_State (pair_at a q) \<noteq> PairStateWaiting)
     | (Some p, b) \<Rightarrow>
         fmlookup (ag_pairs a) p \<noteq> None \<and> cp_State (pair_at a p) = PairStateWaiting \<and> cp_State (pair_at b p) = PairStateInProgress \<and>
         (\<forall>q. fmlookup (ag_pairs a) q \<noteq> None \<longrightarrow> cp_State (pair_at a q) = PairStateWaiting \<longrightarrow>
            cp_Priority (pair_at a q) \<le> cp_Priority (pair_at a p))"
proof -
  define a where "a = ice_run h t evs (NewAgent cfg)"
  have l: "list_inv a" using ice_inv_run [of evs h t cfg] by (simp add: ice_inv_def a_def)
  have mem: "q \<in> set (ag_checklist a) \<longleftrightarrow> fmlookup (ag_pairs a) q \<noteq> None" for q using l unfolding list_inv_def by blast
  show ?thesis
  proof (cases "find (\<lambda>p. cp_State (pair_at a p) = PairStateWaiting) (ag_checklist a)")
    case None
    then have "\<forall>q \<in> set (ag_checklist a). cp_State (pair_at a q) \<noteq> PairStateWaiting" by (simp add: find_None_iff)
    then show ?thesis using None mem by (simp add: Let_def getNextWaitingPair_def flip: a_def)
  next
    case (Some p)
    then obtain i where i: "i < length (ag_checklist a)" "ag_checklist a ! i = p" "cp_State (pair_at a p) = PairStateWaiting"
      and before: "\<forall>j < i. cp_State (pair_at a (ag_checklist a ! j)) \<noteq> PairStateWaiting"
      by (auto simp: find_Some_iff)
    have le: "cp_Priority (pair_at a q) \<le> cp_Priority (pair_at a p)"
      if q: "q \<in> set (ag_checklist a)" and w: "cp_State (pair_at a q) = PairStateWaiting" for q
    proof -
      obtain j where j: "j < length (ag_checklist a)" "ag_checklist a ! j = q" using q by (auto simp: in_set_conv_nth)
      then have "\<not> j < i" using before w by auto
      then show ?thesis using l i(1,2) j by (cases "i = j") (auto simp: list_inv_def sorted_wrt_iff_nth_less)
    qed
    have "p \<in> set (ag_checklist a)" using i(1,2) nth_mem by blast
    then show ?thesis using Some i(3) le mem by (simp add: Let_def getNextWaitingPair_def flip: a_def)
  qed
qed

definition ex_cand :: "string \<Rightarrow> int \<Rightarrow> 32 word \<Rightarrow> Candidate" where
  "ex_cand i p pr = \<lparr>ca_ID = i, ca_Type = CandidateHost, ca_Addr = \<lparr>ua_IP = IP4 1, ua_Port = p\<rparr>, ca_Priority = pr, ca_Foundation = []\<rparr>"

definition ex_text :: "netip \<Rightarrow> string" where
  "ex_text ip = []"

text \<open>One local candidate, two remote ones, of which the second is better.\<close>

definition ex_gather :: ice_event where
  "ex_gather = IeGather (Some 5000) (Some [(''l'', IP4 1, False)]) ''s'' (Inl ErrRead)"

definition ex_evs :: "ice_event list" where
  "ex_evs = [ex_gather, IeRemote (ex_cand ''r'' 1 7), IeRemote (ex_cand ''q'' 2 9)]"

lemma ex_pairs:
  "map_option cp_Priority (fmlookup (ag_pairs (ice_run (\<lambda>s. s) ex_text ex_evs (NewAgent DefaultAgentConfig))) 0) = Some (computePairPriority 2130706431 7)"
  "map_option cp_State (fmlookup (ag_pairs (ice_run (\<lambda>s. s) ex_text ex_evs (NewAgent DefaultAgentConfig))) 0) = Some PairStateWaiting"
  by (simp_all add: ice_run_def ex_evs_def ex_gather_def GatherCandidates_def gatherHostCandidates_def host_candidate_def Let_def
      ice_setState_def NewAgent_def DefaultAgentConfig_def keep_candidate_def addLocalCandidate_def fireCandidate_def
      AddRemoteCandidate_def addPair_def createPair_def ex_cand_def computePriority_def push_bit_eq_mult)

theorem ice_next_pair_witness:
  "\<exists>p b. getNextWaitingPair 0 (ice_run (\<lambda>s. s) ex_text ex_evs (NewAgent DefaultAgentConfig)) = (Some p, b) \<and>
     computePairPriority 2130706431 7 \<le> cp_Priority (pair_at (ice_run (\<lambda>s. s) ex_text ex_evs (NewAgent DefaultAgentConfig)) p)"
proof -
  define a where "a = ice_run (\<lambda>s. s) ex_text ex_evs (NewAgent DefaultAgentConfig)"
  have 0: "fmlookup (ag_pairs a) 0 \<noteq> None" "cp_Priority (pair_at a 0) = computePairPriority 2130706431 7" "cp_State (pair_at a 0) = PairStateWaiting"
    using ex_pairs unfolding a_def [symmetric] pair_at_def by auto
  obtain r b where g: "getNextWaitingPair 0 a = (r, b)" by (cases "getNextWaitingPair 0 a")
  have n: "case getNextWaitingPair 0 a of
       (None, b) \<Rightarrow> b = a \<and> (\<forall>q. fmlookup (ag_pairs a) q \<noteq> None \<longrightarrow> cp_State (pair_at a q) \<noteq> PairStateWaiting)
     | (Some p, b) \<Rightarrow>
         fmlookup (ag_pairs a) p \<noteq> None \<and> cp_State (pair_at a p) = PairStateWaiting \<and> cp_State (pair_at b p) = PairStateInProgress \<and>
         (\<forall>q. fmlookup (ag_pairs a) q \<noteq> None \<longrightarrow> cp_State (pair_at a q) = PairStateWaiting \<longrightarrow>
            cp_Priority (pair_at a q) \<le> cp_Priority (pair_at a p))"
    using ice_next_pair [of "\<lambda>s. s" ex_text ex_evs DefaultAgentConfig 0] unfolding Let_def a_def [symmetric] .
  obtain p where p: "r = Some p" using n 0 unfolding g by (cases r) auto
  have "computePairPriority 2130706431 7 \<le> cp_Priority (pair_at a p)" using n 0 unfolding g p prod.case option.case by metis
  then show ?thesis using g p unfolding a_def by blast
qed

text \<open>
  C22: A selected pair was answered. In every interleaving the selected pair has succeeded, it is nominated,
  its check sent a binding request, and the read loop read a success response with the transaction of
  that request.
\<close>

theorem ice_selected:
  assumes "ag_selected (ice_run h t evs (NewAgent cfg)) = Some p"
  shows "\<exists>pr tx from. fmlookup (ag_pairs (ice_run h t evs (NewAgent cfg))) p = Some pr \<and> cp_State pr = PairStateSucceeded \<and>
    cp_Nominated pr \<and> IeSend p True tx True \<in> set evs \<and> IeRead (StunSuccess tx) from \<in> set evs"
  using ice_inv_run [of evs h t cfg] assms unfolding ice_inv_def pairs_inv_def heard_def by blast

definition ex_check :: "ice_event list" where
  "ex_check = [ex_gather, IeRemote (ex_cand ''r'' 1 7), IeBegin, IeTick 0, IeSend 0 True 42 True,
     IeRead (StunSuccess 42) \<lparr>ua_IP = IP4 9, ua_Port = 9\<rparr>, IeAnswer 0, IeNominate 0]"

lemmas ex_ice_defs = ice_run_def ex_check_def ex_gather_def GatherCandidates_def gatherHostCandidates_def host_candidate_def Let_def
  ice_setState_def NewAgent_def DefaultAgentConfig_def keep_candidate_def addLocalCandidate_def fireCandidate_def
  AddRemoteCandidate_def addPair_def createPair_def ex_cand_def StartChecks_begin_def StartChecks_tick_def
  getNextWaitingPair_def pair_at_def upd_pair_def check_send_def upd_check_def read_stun_def check_answer_def
  updatePairState_def check_nominate_def

lemma ex_selected: "ag_selected (ice_run (\<lambda>s. s) ex_text ex_check (NewAgent DefaultAgentConfig)) = Some 0"
  by (simp add: ex_ice_defs)

theorem ice_selected_witness:
  "\<exists>pr. fmlookup (ag_pairs (ice_run (\<lambda>s. s) ex_text ex_check (NewAgent DefaultAgentConfig))) 0 = Some pr \<and> cp_Nominated pr"
  using ice_selected [OF ex_selected] by blast

text \<open>The pairs that wait for a check.\<close>

definition waiting_pairs :: "Agent \<Rightarrow> nat" where
  "waiting_pairs a = length (filter (\<lambda>p. cp_State (pair_at a p) = PairStateWaiting) (ag_checklist a))"

lemma filter_one_less:
  assumes "distinct xs" and "p \<in> set xs" and "P p" and "\<not> Q p" and "\<forall>q. q \<noteq> p \<longrightarrow> Q q = P q"
  shows "Suc (length (filter Q xs)) = length (filter P xs)"
  using assms
proof (induction xs)
  case (Cons x xs)
  show ?case
  proof (cases "x = p")
    case True
    then have "filter Q xs = filter P xs" using Cons.prems by (intro filter_cong) auto
    with True Cons.prems show ?thesis by simp
  qed (use Cons in auto)
qed simp

lemma ice_tick_hands_out:
  assumes l: "list_inv a" and r: "ag_running a" and w: "0 < waiting_pairs a"
  shows "Suc (waiting_pairs (StartChecks_tick now a)) = waiting_pairs a \<and> ag_running (StartChecks_tick now a)"
proof -
  obtain p where f: "find (\<lambda>p. cp_State (pair_at a p) = PairStateWaiting) (ag_checklist a) = Some p"
    using w by (cases "find (\<lambda>p. cp_State (pair_at a p) = PairStateWaiting) (ag_checklist a)")
      (auto simp: waiting_pairs_def find_None_iff)
  define b where "b = StartChecks_tick now a"
  have b: "ag_checklist b = ag_checklist a" "ag_running b" "pair_at b q = (if q = p then (pair_at a p)\<lparr>cp_State := PairStateInProgress, cp_LastCheckAt := now\<rparr> else pair_at a q)" for q
    using f r by (simp_all add: b_def StartChecks_tick_def getNextWaitingPair_def) (simp_all add: pair_at_def)
  have "Suc (waiting_pairs b) = waiting_pairs a"
    unfolding waiting_pairs_def b(1)
    by (rule filter_one_less [where p = p]) (use l find_Some_mem [OF f] b(3) in \<open>auto simp: list_inv_def\<close>)
  then show ?thesis using b(2) by (simp add: b_def)
qed

lemma ice_tick_returns:
  assumes l: "list_inv a" and i: "pairs_inv evs a" and r: "ag_running a" and ne: "ag_checklist a \<noteq> []"
    and w: "waiting_pairs a = 0" and d: "\<forall>p c. fmlookup (ag_checks a) p = Some c \<longrightarrow> ck_phase c = CkDone"
  shows "\<not> ag_running (StartChecks_tick now a) \<and>
    (if ag_selected a \<noteq> None then ag_result (StartChecks_tick now a) = Some None
     else ag_result (StartChecks_tick now a) = Some (Some IceAllFailed) \<and> ag_state (StartChecks_tick now a) = AgentStateFailed)"
proof -
  have nw: "\<forall>p \<in> set (ag_checklist a). cp_State (pair_at a p) \<noteq> PairStateWaiting"
    using w by (simp add: waiting_pairs_def filter_empty_conv)
  then have f: "find (\<lambda>p. cp_State (pair_at a p) = PairStateWaiting) (ag_checklist a) = None" by (simp add: find_None_iff)
  have "cp_State (pair_at a p) = PairStateFailed" if s: "ag_selected a = None" and p: "p \<in> set (ag_checklist a)" for p
  proof -
    obtain pr where pr: "fmlookup (ag_pairs a) p = Some pr" using l p by (auto simp: list_inv_def)
    have "case fmlookup (ag_pairs a) p of None \<Rightarrow> fmlookup (ag_checks a) p = None
        | Some pr \<Rightarrow> slot_ok evs (ag_selected a \<noteq> None) p pr (fmlookup (ag_checks a) p)"
      using i unfolding pairs_inv_def by blast
    then have "slot_ok evs False p pr (fmlookup (ag_checks a) p)" using pr s by simp
    moreover have "cp_State pr \<noteq> PairStateWaiting" using nw p pr by (auto simp: pair_at_def)
    moreover have "ck_phase c = CkDone" if "fmlookup (ag_checks a) p = Some c" for c using d that by blast
    ultimately have "cp_State pr = PairStateFailed"
      by (cases "fmlookup (ag_checks a) p") (simp_all add: slot_ok_def)
    then show ?thesis using pr by (simp add: pair_at_def)
  qed
  then have all: "ag_selected a = None \<Longrightarrow> allPairsFailed a" using ne by (simp add: allPairsFailed_def)
  have tick: "StartChecks_tick now a = (if ag_selected a \<noteq> None then checks_return None a
      else if allPairsFailed a then checks_return (Some IceAllFailed) (ice_setState AgentStateFailed a) else a)"
    using f r by (simp add: StartChecks_tick_def getNextWaitingPair_def)
  show ?thesis
  proof (cases "ag_selected a = None")
    case True
    then show ?thesis using all [OF True] by (simp add: tick checks_return_def ice_setState_def)
  next
    case False
    then show ?thesis by (simp add: tick checks_return_def)
  qed
qed



end
