(* ===== verification/Mesh_Router.thy ===== *)
theory Mesh_Router
  imports Relay_Props Net_Addr
begin

text \<open>
  The mesh of the desktop (\<open>desktop/internal/p2p/mesh.go\<close>): the peers the relay reported, the transports
  that reach them, and the two loops that ping peers and drop the silent ones. A transport is a handle; the
  handles on which \<open>Close\<close> was called are kept in \<open>mr_closed\<close>, the messages given to the control channel
  in \<open>mr_sent\<close>, the goroutines started for new peers in \<open>mr_connects\<close>. A clock reading is an argument of
  the step that reads it.
\<close>

section \<open>State\<close>

abbreviation MeshStateOffline :: string where "MeshStateOffline \<equiv> ''offline''"
abbreviation MeshStateJoining :: string where "MeshStateJoining \<equiv> ''joining''"
abbreviation MeshStateConnected :: string where "MeshStateConnected \<equiv> ''connected''"
abbreviation MeshStateDiscovering :: string where "MeshStateDiscovering \<equiv> ''discovering''"

record PeerInfo =
  pi_ClientID :: string
  pi_NATType :: string
  pi_WGPubKey :: string
  pi_Connected :: bool
  pi_Subnet :: string
  pi_LastSeen :: gotime

record RouteEntry =
  re_PeerID :: string
  re_Transport :: "nat option"
  re_Subnet :: string
  re_AddedAt :: gotime

text \<open>The engine of the configuration is read for its key and its NAT type only.\<close>

record MeshConfig =
  mc_ClientID :: string
  mc_WGPubKey :: string
  mc_NATType :: string
  mc_PingInterval :: duration
  mc_PeerTimeout :: duration
  mc_MaxPeers :: int

definition DefaultMeshConfig :: MeshConfig where
  "DefaultMeshConfig =
     \<lparr>mc_ClientID = [], mc_WGPubKey = [], mc_NATType = [], mc_PingInterval = 15 * second, mc_PeerTimeout = 60 * second, mc_MaxPeers = 32\<rparr>"

record MeshRouter =
  mr_config :: MeshConfig
  mr_state :: string
  mr_peers :: "(string, PeerInfo) fmap"
  mr_routes :: "(string, RouteEntry) fmap"
  mr_localSubnet :: string
  mr_live :: bool
  mr_loops :: nat
  mr_sent :: "Message list"
  mr_closed :: "nat list"
  mr_connects :: "string list"

definition NewMeshRouter :: "MeshConfig \<Rightarrow> MeshRouter" where
  "NewMeshRouter cfg =
     \<lparr>mr_config = cfg, mr_state = MeshStateOffline, mr_peers = fmempty, mr_routes = fmempty, mr_localSubnet = [], mr_live = False,
      mr_loops = 0, mr_sent = [], mr_closed = [], mr_connects = []\<rparr>"

section \<open>Reading\<close>

definition mesh_Peers :: "string list \<Rightarrow> MeshRouter \<Rightarrow> PeerInfo list" where
  "mesh_Peers ks m = range_vals (mr_peers m) ks"

definition ConnectedPeers :: "string list \<Rightarrow> MeshRouter \<Rightarrow> nat" where
  "ConnectedPeers ks m = length (filter pi_Connected (range_vals (mr_peers m) ks))"

definition GetRoute :: "string \<Rightarrow> MeshRouter \<Rightarrow> nat option" where
  "GetRoute peerID m = (case fmlookup (mr_routes m) peerID of Some e \<Rightarrow> re_Transport e | None \<Rightarrow> None)"

record MeshStats =
  mt_TotalPeers :: nat
  mt_ConnectedPeers :: nat
  mt_Routes :: nat
  mt_Subnet :: string

definition mesh_Stats :: "string list \<Rightarrow> MeshRouter \<Rightarrow> MeshStats" where
  "mesh_Stats ks m =
     \<lparr>mt_TotalPeers = mlen (mr_peers m), mt_ConnectedPeers = length (filter pi_Connected (range_vals (mr_peers m) ks)),
      mt_Routes = mlen (mr_routes m), mt_Subnet = mr_localSubnet m\<rparr>"

definition matchSubnet :: "(string \<Rightarrow> ipnet option) \<Rightarrow> (string \<Rightarrow> netip) \<Rightarrow> string \<Rightarrow> string \<Rightarrow> bool" where
  "matchSubnet ParseCIDR ParseIP subnet targetPeerID =
     (case ParseCIDR subnet of
        None \<Rightarrow> False
      | Some ipNet \<Rightarrow> (let targetIP = ParseIP targetPeerID in if targetIP = NilIP then False else net_contains ipNet targetIP))"

definition LookupRoute ::
    "(string \<Rightarrow> ipnet option) \<Rightarrow> (string \<Rightarrow> netip) \<Rightarrow> string list \<Rightarrow> string \<Rightarrow> MeshRouter \<Rightarrow> RouteEntry option" where
  "LookupRoute ParseCIDR ParseIP ks targetPeerID m =
     (case fmlookup (mr_routes m) targetPeerID of
        Some e \<Rightarrow> Some e
      | None \<Rightarrow> find (\<lambda>e. re_Subnet e \<noteq> [] \<and> matchSubnet ParseCIDR ParseIP (re_Subnet e) targetPeerID)
                 (range_vals (mr_routes m) ks))"

section \<open>Sending\<close>

text \<open>A message whose construction failed is not sent; the result of \<open>Control.Send\<close> is dropped.\<close>

definition send_built :: "proto_error + Message \<Rightarrow> MeshRouter \<Rightarrow> MeshRouter" where
  "send_built r m = (case r of Inl _ \<Rightarrow> m | Inr msg \<Rightarrow> m\<lparr>mr_sent := mr_sent m @ [msg]\<rparr>)"

datatype mesh_error = CreateMeshJoin proto_error | SendMeshJoin

text \<open>\<open>sent\<close> is whether \<open>Control.Send\<close> succeeds.\<close>

definition JoinMesh :: "json_marshal \<Rightarrow> bool \<Rightarrow> string \<Rightarrow> MeshRouter \<Rightarrow> mesh_error option \<times> MeshRouter" where
  "JoinMesh marshal sent subnet m0 =
     (let m = m0\<lparr>mr_live := True, mr_localSubnet := subnet, mr_state := MeshStateJoining\<rparr>;
          cfg = mr_config m
      in case NewMeshJoinMessage marshal (mc_ClientID cfg) (mc_WGPubKey cfg) (mc_NATType cfg) subnet of
           Inl e \<Rightarrow> (Some (CreateMeshJoin e), m)
         | Inr joinMsg \<Rightarrow>
             (let m = m\<lparr>mr_sent := mr_sent m @ [joinMsg]\<rparr> in
              if \<not> sent then (Some SendMeshJoin, m)
              else (None, m\<lparr>mr_loops := mr_loops m + 1, mr_state := MeshStateConnected\<rparr>)))"

definition connectToPeer :: "json_marshal \<Rightarrow> string \<Rightarrow> MeshRouter \<Rightarrow> MeshRouter" where
  "connectToPeer marshal peerID m0 =
     (let m = m0\<lparr>mr_connects := remove1 peerID (mr_connects m0)\<rparr>; cfg = mr_config m in
      case fmlookup (mr_peers m) peerID of
        None \<Rightarrow> m
      | Some peer \<Rightarrow>
          send_built (NewP2POfferMessage marshal (''mesh-'' @ mc_ClientID cfg @ ''-'' @ peerID) (mc_ClientID cfg) peerID
                        (mc_NATType cfg) (mc_WGPubKey cfg) []) m)"

section \<open>The peer list\<close>

text \<open>\<open>HandleMeshPeerList\<close> takes the lock for one peer at a time.\<close>

definition peer_listed :: "MeshPeerJSON \<Rightarrow> gotime \<Rightarrow> MeshRouter \<Rightarrow> MeshRouter" where
  "peer_listed peer now m =
     (if mp_ClientID peer = mc_ClientID (mr_config m) then m
      else (case fmlookup (mr_peers m) (mp_ClientID peer) of
              None \<Rightarrow>
                m\<lparr>mr_peers := fmupd (mp_ClientID peer)
                     \<lparr>pi_ClientID = mp_ClientID peer, pi_NATType = mp_NATType peer, pi_WGPubKey = mp_WGPubKey peer,
                      pi_Connected = False, pi_Subnet = mp_Subnet peer, pi_LastSeen = now\<rparr> (mr_peers m),
                   mr_connects := mr_connects m @ [mp_ClientID peer]\<rparr>
            | Some existing \<Rightarrow>
                m\<lparr>mr_peers := fmupd (mp_ClientID peer)
                     (existing\<lparr>pi_LastSeen := now, pi_NATType := mp_NATType peer, pi_WGPubKey := mp_WGPubKey peer,
                               pi_Subnet := mp_Subnet peer\<rparr>) (mr_peers m)\<rparr>))"

definition HandleMeshPeerList :: "(MeshPeerJSON \<times> gotime) list \<Rightarrow> MeshRouter \<Rightarrow> MeshRouter" where
  "HandleMeshPeerList peers m =
     (fold (\<lambda>(peer, now). peer_listed peer now) peers (m\<lparr>mr_state := MeshStateDiscovering\<rparr>))\<lparr>mr_state := MeshStateConnected\<rparr>"

definition touch_peer :: "string \<Rightarrow> gotime \<Rightarrow> MeshRouter \<Rightarrow> MeshRouter" where
  "touch_peer p now m =
     (case fmlookup (mr_peers m) p of
        None \<Rightarrow> m
      | Some peer \<Rightarrow> m\<lparr>mr_peers := fmupd p (peer\<lparr>pi_LastSeen := now\<rparr>) (mr_peers m)\<rparr>)"

definition HandleMeshPing :: "json_marshal \<Rightarrow> string \<Rightarrow> gotime \<Rightarrow> MeshRouter \<Rightarrow> MeshRouter" where
  "HandleMeshPing marshal fromClientID now m =
     (let m = touch_peer fromClientID now m
      in send_built (NewMeshPongMessage marshal (mc_ClientID (mr_config m)) fromClientID) m)"

definition HandleMeshPong :: "string \<Rightarrow> gotime \<Rightarrow> MeshRouter \<Rightarrow> MeshRouter" where
  "HandleMeshPong fromClientID now m = touch_peer fromClientID now m"

section \<open>Routes\<close>

definition close_transport :: "nat option \<Rightarrow> MeshRouter \<Rightarrow> MeshRouter" where
  "close_transport t m = (case t of None \<Rightarrow> m | Some h \<Rightarrow> m\<lparr>mr_closed := mr_closed m @ [h]\<rparr>)"

definition close_route :: "string \<Rightarrow> MeshRouter \<Rightarrow> MeshRouter" where
  "close_route p m =
     (case fmlookup (mr_routes m) p of
        None \<Rightarrow> m
      | Some e \<Rightarrow> (close_transport (re_Transport e) m)\<lparr>mr_routes := fmdrop p (mr_routes m)\<rparr>)"

definition AddPeerRoute :: "string \<Rightarrow> nat option \<Rightarrow> string \<Rightarrow> gotime \<Rightarrow> gotime \<Rightarrow> MeshRouter \<Rightarrow> MeshRouter" where
  "AddPeerRoute peerID transport subnet t1 t2 m0 =
     (let m = (case fmlookup (mr_routes m0) peerID of None \<Rightarrow> m0 | Some old \<Rightarrow> close_transport (re_Transport old) m0);
          m = m\<lparr>mr_routes := fmupd peerID \<lparr>re_PeerID = peerID, re_Transport = transport, re_Subnet = subnet, re_AddedAt = t1\<rparr> (mr_routes m)\<rparr>
      in case fmlookup (mr_peers m) peerID of
           None \<Rightarrow> m
         | Some peer \<Rightarrow> m\<lparr>mr_peers := fmupd peerID (peer\<lparr>pi_Connected := True, pi_LastSeen := t2\<rparr>) (mr_peers m)\<rparr>)"

definition RemovePeerRoute :: "string \<Rightarrow> MeshRouter \<Rightarrow> MeshRouter" where
  "RemovePeerRoute peerID m0 =
     (let m = close_route peerID m0
      in case fmlookup (mr_peers m) peerID of
           None \<Rightarrow> m
         | Some peer \<Rightarrow> m\<lparr>mr_peers := fmupd peerID (peer\<lparr>pi_Connected := False\<rparr>) (mr_peers m)\<rparr>)"

text \<open>\<open>LeaveMesh\<close> cancels the context if \<open>JoinMesh\<close> made one, tells the relay, and clears both maps.\<close>

definition leave_notice :: "json_marshal \<Rightarrow> MeshRouter \<Rightarrow> MeshRouter" where
  "leave_notice marshal m = send_built (NewMeshLeaveMessage marshal (mc_ClientID (mr_config m))) (m\<lparr>mr_live := False, mr_loops := 0\<rparr>)"

definition leave_clear :: "string list \<Rightarrow> string list \<Rightarrow> MeshRouter \<Rightarrow> MeshRouter" where
  "leave_clear rs ps m = (let m = fold close_route rs m in m\<lparr>mr_peers := fold fmdrop ps (mr_peers m)\<rparr>)"

definition LeaveMesh :: "json_marshal \<Rightarrow> string list \<Rightarrow> string list \<Rightarrow> MeshRouter \<Rightarrow> MeshRouter" where
  "LeaveMesh marshal rs ps m = (leave_clear rs ps (leave_notice marshal m))\<lparr>mr_state := MeshStateOffline\<rparr>"

section \<open>The loops\<close>

definition health_tick :: "json_marshal \<Rightarrow> string list \<Rightarrow> MeshRouter \<Rightarrow> MeshRouter" where
  "health_tick marshal ks m =
     fold (\<lambda>p. send_built (NewMeshPingMessage marshal (mc_ClientID (mr_config m)) p)) ks m"

definition peer_expired :: "gotime \<Rightarrow> MeshRouter \<Rightarrow> PeerInfo \<Rightarrow> bool" where
  "peer_expired now m peer \<longleftrightarrow> time_sub now (pi_LastSeen peer) > mc_PeerTimeout (mr_config m)"

definition expire_peer :: "gotime \<Rightarrow> string \<Rightarrow> MeshRouter \<Rightarrow> MeshRouter" where
  "expire_peer now p m =
     (case fmlookup (mr_peers m) p of
        None \<Rightarrow> m
      | Some peer \<Rightarrow>
          if peer_expired now m peer then (close_route p m)\<lparr>mr_peers := fmdrop p (mr_peers m)\<rparr> else m)"

definition timeout_tick :: "gotime \<Rightarrow> string list \<Rightarrow> MeshRouter \<Rightarrow> MeshRouter" where
  "timeout_tick now ks m = fold (expire_peer now) ks m"

end
