(* ===== verification/Mesh_Props.thy ===== *)
theory Mesh_Props
  imports Mesh_Router
begin

text \<open>
  Runs of the mesh router: every step a goroutine makes under the lock (or between locks) is an event, so
  that a run is any interleaving of the handlers and the loops. What the steps keep, and what becomes of
  peers that are not heard of.
\<close>

section \<open>Events\<close>

datatype mesh_event =
    MeJoin bool string
  | MeListBegin | MeListed MeshPeerJSON gotime | MeListEnd
  | MePing string gotime
  | MePong string gotime
  | MeLeaveNotice | MeLeaveClear "string list" "string list" | MeLeaveEnd
  | MeAdd string "nat option" string gotime gotime
  | MeRemove string
  | MeConnect string
  | MeHealth "string list"
  | MeTimeout gotime "string list"

fun mesh_step :: "json_marshal \<Rightarrow> mesh_event \<Rightarrow> MeshRouter \<Rightarrow> MeshRouter" where
  "mesh_step marshal (MeJoin sent subnet) m = snd (JoinMesh marshal sent subnet m)"
| "mesh_step marshal MeListBegin m = m\<lparr>mr_state := MeshStateDiscovering\<rparr>"
| "mesh_step marshal (MeListed peer now) m = peer_listed peer now m"
| "mesh_step marshal MeListEnd m = m\<lparr>mr_state := MeshStateConnected\<rparr>"
| "mesh_step marshal (MePing p now) m = HandleMeshPing marshal p now m"
| "mesh_step marshal (MePong p now) m = HandleMeshPong p now m"
| "mesh_step marshal MeLeaveNotice m = leave_notice marshal m"
| "mesh_step marshal (MeLeaveClear rs ps) m = leave_clear rs ps m"
| "mesh_step marshal MeLeaveEnd m = m\<lparr>mr_state := MeshStateOffline\<rparr>"
| "mesh_step marshal (MeAdd p t subnet t1 t2) m = AddPeerRoute p t subnet t1 t2 m"
| "mesh_step marshal (MeRemove p) m = RemovePeerRoute p m"
| "mesh_step marshal (MeConnect p) m = connectToPeer marshal p m"
| "mesh_step marshal (MeHealth ks) m = health_tick marshal ks m"
| "mesh_step marshal (MeTimeout now ks) m = timeout_tick now ks m"

definition mesh_run :: "json_marshal \<Rightarrow> mesh_event list \<Rightarrow> MeshRouter \<Rightarrow> MeshRouter" where
  "mesh_run marshal evs m = fold (mesh_step marshal) evs m"

text \<open>The two composed handlers are runs.\<close>

lemma HandleMeshPeerList_run:
  "HandleMeshPeerList peers m =
     mesh_run marshal (MeListBegin # map (\<lambda>(peer, now). MeListed peer now) peers @ [MeListEnd]) m"
proof -
  have "fold (mesh_step marshal) (map (\<lambda>(peer, now). MeListed peer now) peers) s =
      fold (\<lambda>(peer, now). peer_listed peer now) peers s" for s
    by (induction peers arbitrary: s) auto
  then show ?thesis by (simp add: HandleMeshPeerList_def mesh_run_def)
qed

lemma LeaveMesh_run: "LeaveMesh marshal rs ps m = mesh_run marshal [MeLeaveNotice, MeLeaveClear rs ps, MeLeaveEnd] m"
  by (simp add: LeaveMesh_def mesh_run_def)

section \<open>What the helpers change\<close>

named_theorems mesh_frame \<open>the fields that a helper of the mesh router leaves alone\<close>

lemma send_built_frame [simp, mesh_frame]:
  "mr_config (send_built r m) = mr_config m" "mr_peers (send_built r m) = mr_peers m"
  "mr_routes (send_built r m) = mr_routes m" "mr_closed (send_built r m) = mr_closed m"
  by (simp_all add: send_built_def split: sum.split)

lemma close_transport_frame [simp, mesh_frame]:
  "mr_config (close_transport t m) = mr_config m" "mr_peers (close_transport t m) = mr_peers m"
  "mr_routes (close_transport t m) = mr_routes m"
  by (simp_all add: close_transport_def split: option.split)

lemma close_route_frame [simp, mesh_frame]:
  "mr_config (close_route p m) = mr_config m" "mr_peers (close_route p m) = mr_peers m"
  by (simp_all add: close_route_def split: option.split)

lemma routes_close_route [simp, mesh_frame]: "mr_routes (close_route p m) = fmdrop p (mr_routes m)"
proof (cases "fmlookup (mr_routes m) p")
  case None
  then have "fmdrop p (mr_routes m) = mr_routes m" by (intro fmap_ext) auto
  with None show ?thesis by (simp add: close_route_def)
qed (simp add: close_route_def)

lemma touch_peer_frame [simp, mesh_frame]:
  "mr_config (touch_peer p now m) = mr_config m" "mr_routes (touch_peer p now m) = mr_routes m"
  "mr_closed (touch_peer p now m) = mr_closed m"
  by (simp_all add: touch_peer_def split: option.split)

lemma fold_close_route [simp, mesh_frame]:
  "mr_config (fold close_route rs m) = mr_config m" "mr_peers (fold close_route rs m) = mr_peers m"
  "mr_routes (fold close_route rs m) = fold fmdrop rs (mr_routes m)"
  by (induction rs arbitrary: m) auto

lemma fold_send_built [simp, mesh_frame]:
  "mr_config (fold (\<lambda>p. send_built (f p)) ks m) = mr_config m" "mr_peers (fold (\<lambda>p. send_built (f p)) ks m) = mr_peers m"
  "mr_routes (fold (\<lambda>p. send_built (f p)) ks m) = mr_routes m" "mr_closed (fold (\<lambda>p. send_built (f p)) ks m) = mr_closed m"
  by (induction ks arbitrary: m) auto

lemma JoinMesh_frame [simp, mesh_frame]:
  "mr_config (snd (JoinMesh marshal sent subnet m)) = mr_config m" "mr_peers (snd (JoinMesh marshal sent subnet m)) = mr_peers m"
  "mr_routes (snd (JoinMesh marshal sent subnet m)) = mr_routes m" "mr_closed (snd (JoinMesh marshal sent subnet m)) = mr_closed m"
  by (simp_all add: JoinMesh_def Let_def split: sum.split)

lemma connectToPeer_frame [simp, mesh_frame]:
  "mr_config (connectToPeer marshal p m) = mr_config m" "mr_peers (connectToPeer marshal p m) = mr_peers m"
  "mr_routes (connectToPeer marshal p m) = mr_routes m" "mr_closed (connectToPeer marshal p m) = mr_closed m"
  by (simp_all add: connectToPeer_def Let_def split: option.split)

lemma fold_fmdrop: "fmlookup (fold fmdrop ks f) k = (if k \<in> set ks then None else fmlookup f k)"
  by (induction ks arbitrary: f) auto

lemma expire_peer_config [simp, mesh_frame]: "mr_config (expire_peer now p m) = mr_config m"
  by (simp add: expire_peer_def split: option.split)

lemma timeout_tick_config [simp, mesh_frame]: "mr_config (timeout_tick now ks m) = mr_config m"
  unfolding timeout_tick_def by (induction ks arbitrary: m) auto

lemma mesh_step_config [simp, mesh_frame]: "mr_config (mesh_step marshal ev m) = mr_config m"
  by (cases ev) (auto simp: peer_listed_def HandleMeshPing_def HandleMeshPong_def leave_notice_def leave_clear_def Let_def
      AddPeerRoute_def RemovePeerRoute_def health_tick_def split: option.split)

section \<open>Transports are closed exactly when they leave the table\<close>

definition handle_mset :: "RouteEntry option \<Rightarrow> nat multiset" where
  "handle_mset e = (case e of None \<Rightarrow> {#} | Some r \<Rightarrow> (case re_Transport r of None \<Rightarrow> {#} | Some h \<Rightarrow> {#h#}))"

definition route_handles :: "(string, RouteEntry) fmap \<Rightarrow> nat multiset" where
  "route_handles f = (\<Sum>p \<in> fset (fmdom f). handle_mset (fmlookup f p))"

lemma handle_mset_simps [simp]:
  "handle_mset None = {#}" "handle_mset (Some r) = (case re_Transport r of None \<Rightarrow> {#} | Some h \<Rightarrow> {#h#})"
  by (simp_all add: handle_mset_def)

lemma route_handles_empty [simp]: "route_handles fmempty = {#}"
  by (simp add: route_handles_def)

lemma route_handles_drop: "route_handles f = handle_mset (fmlookup f p) + route_handles (fmdrop p f)"
proof (cases "fmlookup f p")
  case None
  then have "fmdrop p f = f" by (intro fmap_ext) auto
  with None show ?thesis by simp
next
  case (Some e)
  then have p: "p \<in> fset (fmdom f)" by (simp add: fmdomI)
  have "(\<Sum>q \<in> fset (fmdom f) - {p}. handle_mset (fmlookup f q)) = route_handles (fmdrop p f)"
    unfolding route_handles_def by (rule sum.cong) auto
  then show ?thesis unfolding route_handles_def [of f] by (simp add: sum.remove [OF _ p])
qed

lemma fmdrop_fmupd_same: "fmdrop p (fmupd p e f) = fmdrop p f"
  by (rule fmap_ext) auto

lemma route_handles_upd: "route_handles (fmupd p e f) = handle_mset (Some e) + route_handles (fmdrop p f)"
  using route_handles_drop [of "fmupd p e f" p] by (simp add: fmdrop_fmupd_same)

definition all_handles :: "MeshRouter \<Rightarrow> nat multiset" where
  "all_handles m = mset (mr_closed m) + route_handles (mr_routes m)"

lemma closed_close_transport: "mset (mr_closed (close_transport t m)) = mset (mr_closed m) + (case t of None \<Rightarrow> {#} | Some h \<Rightarrow> {#h#})"
  by (simp add: close_transport_def split: option.split)

lemma all_handles_close_route [simp]: "all_handles (close_route p m) = all_handles m"
proof -
  have "mset (mr_closed (close_route p m)) = mset (mr_closed m) + handle_mset (fmlookup (mr_routes m) p)"
    by (simp add: close_route_def closed_close_transport split: option.split)
  then show ?thesis using route_handles_drop [of "mr_routes m" p] by (simp add: all_handles_def)
qed

lemma all_handles_cong: "mr_closed m = mr_closed m' \<Longrightarrow> mr_routes m = mr_routes m' \<Longrightarrow> all_handles m = all_handles m'"
  by (simp add: all_handles_def)

lemma all_handles_fold: "all_handles (fold close_route rs m) = all_handles m"
  by (induction rs arbitrary: m) auto

lemma all_handles_expire [simp]: "all_handles (expire_peer now p m) = all_handles m"
  using all_handles_close_route [of p m] by (auto simp: expire_peer_def all_handles_def split: option.split)

lemma all_handles_timeout [simp]: "all_handles (timeout_tick now ks m) = all_handles m"
  unfolding timeout_tick_def by (induction ks arbitrary: m) auto

fun added_handle :: "mesh_event \<Rightarrow> nat list" where
  "added_handle (MeAdd _ (Some h) _ _ _) = [h]"
| "added_handle _ = []"

lemma all_handles_Add:
  "all_handles (AddPeerRoute p t subnet t1 t2 m) = all_handles m + (case t of None \<Rightarrow> {#} | Some h \<Rightarrow> {#h#})"
proof -
  have "mset (mr_closed (AddPeerRoute p t subnet t1 t2 m)) = mset (mr_closed m) + handle_mset (fmlookup (mr_routes m) p)"
    by (simp add: AddPeerRoute_def Let_def closed_close_transport split: option.split)
  moreover have "mr_routes (AddPeerRoute p t subnet t1 t2 m) =
      fmupd p \<lparr>re_PeerID = p, re_Transport = t, re_Subnet = subnet, re_AddedAt = t1\<rparr> (mr_routes m)"
    by (simp add: AddPeerRoute_def Let_def split: option.split)
  ultimately show ?thesis using route_handles_drop [of "mr_routes m" p] by (simp add: all_handles_def route_handles_upd)
qed

lemma all_handles_Remove [simp]: "all_handles (RemovePeerRoute p m) = all_handles m"
  using all_handles_close_route [of p m] by (simp add: RemovePeerRoute_def Let_def all_handles_def split: option.split)

lemma all_handles_leave_clear [simp]: "all_handles (leave_clear rs ps m) = all_handles m"
  using all_handles_fold [of rs m] by (simp add: leave_clear_def Let_def all_handles_def)

lemma all_handles_step: "all_handles (mesh_step marshal ev m) = all_handles m + mset (added_handle ev)"
proof (cases ev)
  case (MeAdd p t subnet t1 t2)
  then show ?thesis by (simp add: all_handles_Add split: option.split)
qed (auto simp: all_handles_def [of "_\<lparr>mr_state := _\<rparr>"] peer_listed_def HandleMeshPing_def HandleMeshPong_def leave_notice_def Let_def
      health_tick_def split: option.split intro!: all_handles_cong simp flip: all_handles_def)

lemma all_handles_run: "all_handles (mesh_run marshal evs m) = all_handles m + mset (concat (map added_handle evs))"
  unfolding mesh_run_def by (induction evs arbitrary: m) (simp_all add: all_handles_step)


section \<open>Reachable states\<close>

text \<open>A range over a map visits its keys; a goroutine for a new peer runs once for each that was started.\<close>

fun mesh_legal :: "mesh_event \<Rightarrow> MeshRouter \<Rightarrow> bool" where
  "mesh_legal (MeLeaveClear rs ps) m = (range_order (mr_routes m) rs \<and> range_order (mr_peers m) ps)"
| "mesh_legal (MeConnect p) m = (p \<in> set (mr_connects m))"
| "mesh_legal (MeHealth ks) m = range_order (mr_peers m) ks"
| "mesh_legal (MeTimeout now ks) m = range_order (mr_peers m) ks"
| "mesh_legal _ m = True"

inductive mesh_reach :: "json_marshal \<Rightarrow> MeshConfig \<Rightarrow> mesh_event list \<Rightarrow> MeshRouter \<Rightarrow> bool"
  for marshal :: json_marshal and cfg :: MeshConfig where
  reach_new: "mesh_reach marshal cfg [] (NewMeshRouter cfg)"
| reach_step: "mesh_reach marshal cfg evs m \<Longrightarrow> mesh_legal ev m \<Longrightarrow> mesh_reach marshal cfg (evs @ [ev]) (mesh_step marshal ev m)"

lemma mesh_reach_run: "mesh_reach marshal cfg evs m \<Longrightarrow> m = mesh_run marshal evs (NewMeshRouter cfg)"
  by (induction rule: mesh_reach.induct) (simp_all add: mesh_run_def)

lemma mesh_reach_config: "mesh_reach marshal cfg evs m \<Longrightarrow> mr_config m = cfg"
  by (induction rule: mesh_reach.induct) (simp_all add: NewMeshRouter_def)

definition peer_ok :: "MeshRouter \<Rightarrow> string \<Rightarrow> PeerInfo \<Rightarrow> bool" where
  "peer_ok m p peer \<longleftrightarrow> p \<noteq> mc_ClientID (mr_config m) \<and> pi_ClientID peer = p \<and>
     (pi_Connected peer \<longrightarrow> fmlookup (mr_routes m) p \<noteq> None)"

definition mesh_inv :: "MeshRouter \<Rightarrow> bool" where
  "mesh_inv m \<longleftrightarrow> (\<forall>p peer. fmlookup (mr_peers m) p = Some peer \<longrightarrow> peer_ok m p peer) \<and>
     (\<forall>p e. fmlookup (mr_routes m) p = Some e \<longrightarrow> re_PeerID e = p)"

lemma mesh_inv_cong:
  "mr_config m = mr_config m' \<Longrightarrow> mr_peers m = mr_peers m' \<Longrightarrow> mr_routes m = mr_routes m' \<Longrightarrow> mesh_inv m = mesh_inv m'"
  by (simp add: mesh_inv_def peer_ok_def)

lemma mesh_inv_state [simp]: "mesh_inv (m\<lparr>mr_state := st\<rparr>) = mesh_inv m"
  by (rule mesh_inv_cong) simp_all

lemma expire_peer_lookup:
  "fmlookup (mr_peers (expire_peer now p m)) q =
     (case fmlookup (mr_peers m) q of
        None \<Rightarrow> None
      | Some peer \<Rightarrow> if q = p \<and> peer_expired now m peer then None else Some peer)"
  "fmlookup (mr_routes (expire_peer now p m)) q =
     (if q = p \<and> (\<exists>peer. fmlookup (mr_peers m) q = Some peer \<and> peer_expired now m peer) then None
      else fmlookup (mr_routes m) q)"
  by (auto simp: expire_peer_def split: option.splits)

lemma peer_expired_expire [simp]: "peer_expired now (expire_peer t p m) peer = peer_expired now m peer"
  by (simp add: peer_expired_def)

lemma timeout_tick_lookup:
  "fmlookup (mr_peers (timeout_tick now ks m)) q =
     (case fmlookup (mr_peers m) q of
        None \<Rightarrow> None
      | Some peer \<Rightarrow> if q \<in> set ks \<and> peer_expired now m peer then None else Some peer)"
  "fmlookup (mr_routes (timeout_tick now ks m)) q =
     (if q \<in> set ks \<and> (\<exists>peer. fmlookup (mr_peers m) q = Some peer \<and> peer_expired now m peer) then None
      else fmlookup (mr_routes m) q)"
proof -
  have "(fmlookup (mr_peers (fold (expire_peer now) ks m)) q =
     (case fmlookup (mr_peers m) q of
        None \<Rightarrow> None
      | Some peer \<Rightarrow> if q \<in> set ks \<and> peer_expired now m peer then None else Some peer)) \<and>
    (fmlookup (mr_routes (fold (expire_peer now) ks m)) q =
     (if q \<in> set ks \<and> (\<exists>peer. fmlookup (mr_peers m) q = Some peer \<and> peer_expired now m peer) then None
      else fmlookup (mr_routes m) q))"
    by (induction ks arbitrary: m) (auto simp: expire_peer_lookup split: option.splits)
  then show "fmlookup (mr_peers (timeout_tick now ks m)) q =
     (case fmlookup (mr_peers m) q of
        None \<Rightarrow> None
      | Some peer \<Rightarrow> if q \<in> set ks \<and> peer_expired now m peer then None else Some peer)"
    and "fmlookup (mr_routes (timeout_tick now ks m)) q =
     (if q \<in> set ks \<and> (\<exists>peer. fmlookup (mr_peers m) q = Some peer \<and> peer_expired now m peer) then None
      else fmlookup (mr_routes m) q)"
    by (simp_all add: timeout_tick_def)
qed

lemma mesh_inv_timeout: "mesh_inv m \<Longrightarrow> mesh_inv (timeout_tick now ks m)"
  by (fastforce simp: mesh_inv_def peer_ok_def timeout_tick_lookup split: option.splits if_splits)

lemma mesh_inv_touch: "mesh_inv m \<Longrightarrow> mesh_inv (touch_peer p now m)"
  by (auto simp: mesh_inv_def peer_ok_def touch_peer_def split: option.splits if_splits)

lemma mesh_inv_listed: "mesh_inv m \<Longrightarrow> mesh_inv (peer_listed peer now m)"
  by (fastforce simp: mesh_inv_def peer_ok_def peer_listed_def split: option.splits if_splits)

lemma mesh_inv_add: "mesh_inv m \<Longrightarrow> mesh_inv (AddPeerRoute p t subnet t1 t2 m)"
  by (fastforce simp: mesh_inv_def peer_ok_def AddPeerRoute_def Let_def split: option.splits if_splits)

lemma mesh_inv_remove: "mesh_inv m \<Longrightarrow> mesh_inv (RemovePeerRoute p m)"
  by (fastforce simp: mesh_inv_def peer_ok_def RemovePeerRoute_def Let_def split: option.splits if_splits)

lemma mesh_inv_clear:
  assumes "range_order (mr_peers m) ps" and "mesh_inv m"
  shows "mesh_inv (leave_clear rs ps m)"
  using assms(2) range_order_set [OF assms(1)]
  by (auto simp: mesh_inv_def peer_ok_def leave_clear_def Let_def fold_fmdrop split: if_splits)

lemma mesh_inv_step:
  assumes "mesh_inv m" and "mesh_legal ev m"
  shows "mesh_inv (mesh_step marshal ev m)"
proof (cases ev)
  case (MePing p now)
  have "mesh_inv (HandleMeshPing marshal p now m) = mesh_inv (touch_peer p now m)"
    by (rule mesh_inv_cong) (simp_all add: HandleMeshPing_def Let_def)
  with MePing assms show ?thesis by (simp add: mesh_inv_touch)
next
  case (MeLeaveNotice)
  then show ?thesis using assms mesh_inv_cong [of "leave_notice marshal m" m] by (simp add: leave_notice_def)
next
  case (MeHealth ks)
  then show ?thesis using assms mesh_inv_cong [of "health_tick marshal ks m" m] by (simp add: health_tick_def)
next
  case (MeJoin sent subnet)
  then show ?thesis using assms mesh_inv_cong [of "snd (JoinMesh marshal sent subnet m)" m] by simp
next
  case (MeConnect p)
  then show ?thesis using assms mesh_inv_cong [of "connectToPeer marshal p m" m] by simp
qed (use assms in \<open>simp_all add: mesh_inv_listed mesh_inv_touch HandleMeshPong_def mesh_inv_clear mesh_inv_add
      mesh_inv_remove mesh_inv_timeout\<close>)


lemma mesh_inv_reach: "mesh_reach marshal cfg evs m \<Longrightarrow> mesh_inv m"
proof (induction rule: mesh_reach.induct)
  case reach_new
  show ?case by (simp add: mesh_inv_def NewMeshRouter_def)
next
  case (reach_step evs m ev)
  then show ?case by (simp add: mesh_inv_step)
qed

text \<open>
  C26: The mesh owns its transports. In every interleaving of the handlers and the loops each transport
  handed to \<open>AddPeerRoute\<close> is either held by one route or was closed, once for each time it was handed
  in: none leaks and none is closed while a route holds it in its place. The node is never its own
  peer, and a peer marked connected has a route under its name.
\<close>

theorem mesh_transports:
  assumes "mesh_reach marshal cfg evs m"
  shows "mset (mr_closed m) + route_handles (mr_routes m) = mset (concat (map added_handle evs)) \<and>
    (\<forall>p peer. fmlookup (mr_peers m) p = Some peer \<longrightarrow> p \<noteq> mc_ClientID cfg \<and> pi_ClientID peer = p \<and>
       (pi_Connected peer \<longrightarrow> (\<exists>e. fmlookup (mr_routes m) p = Some e \<and> re_PeerID e = p)))"
proof -
  have "all_handles m = mset (concat (map added_handle evs))"
    using all_handles_run [of marshal evs "NewMeshRouter cfg"] mesh_reach_run [OF assms]
    by (simp add: all_handles_def NewMeshRouter_def)
  moreover have "mesh_inv m" by (rule mesh_inv_reach [OF assms])
  ultimately show ?thesis using mesh_reach_config [OF assms] unfolding all_handles_def mesh_inv_def peer_ok_def by blast
qed

definition ex_mesh_cfg :: MeshConfig where
  "ex_mesh_cfg = DefaultMeshConfig\<lparr>mc_ClientID := ''a''\<rparr>"

definition ex_listed :: MeshPeerJSON where
  "ex_listed = \<lparr>mp_ClientID = ''b'', mp_NATType = [], mp_WGPubKey = [], mp_Subnet = []\<rparr>"

lemma ex_listed_reach: "mesh_reach marshal ex_mesh_cfg [MeListed ex_listed t] (peer_listed ex_listed t (NewMeshRouter ex_mesh_cfg))"
  using reach_step [OF reach_new, of "MeListed ex_listed t"] by simp

lemma ex_listed_peers: "mr_peers (peer_listed ex_listed t (NewMeshRouter ex_mesh_cfg)) = fmupd ''b''
    \<lparr>pi_ClientID = ''b'', pi_NATType = [], pi_WGPubKey = [], pi_Connected = False, pi_Subnet = [], pi_LastSeen = t\<rparr> fmempty"
  by (simp add: peer_listed_def NewMeshRouter_def ex_mesh_cfg_def ex_listed_def DefaultMeshConfig_def)

lemma ex_mesh_range: "range_order (fmupd ''b'' v fmempty) [''b'']"
  by (simp add: range_order_def)

theorem mesh_transports_witness:
  "\<exists>m. mesh_reach (\<lambda>_. None) ex_mesh_cfg [MeListed ex_listed 1, MeAdd ''b'' (Some 7) [] 2 3, MeAdd ''b'' (Some 8) [] 4 5] m \<and>
     mset (mr_closed m) + route_handles (mr_routes m) = {#7, 8#} \<and> mr_closed m = [7]"
proof -
  let ?m1 = "peer_listed ex_listed 1 (NewMeshRouter ex_mesh_cfg)"
  let ?m2 = "AddPeerRoute ''b'' (Some 7) [] 2 3 ?m1"
  let ?m3 = "AddPeerRoute ''b'' (Some 8) [] 4 5 ?m2"
  have r: "mesh_reach (\<lambda>_. None) ex_mesh_cfg [MeListed ex_listed 1, MeAdd ''b'' (Some 7) [] 2 3, MeAdd ''b'' (Some 8) [] 4 5] ?m3"
    using reach_step [OF reach_step [OF ex_listed_reach, where ev = "MeAdd ''b'' (Some 7) [] 2 3"], where ev = "MeAdd ''b'' (Some 8) [] 4 5"]
    by simp
  have "mr_closed ?m3 = [7]"
    by (simp add: AddPeerRoute_def close_transport_def ex_listed_peers peer_listed_def NewMeshRouter_def ex_mesh_cfg_def
        ex_listed_def DefaultMeshConfig_def)
  then show ?thesis using r mesh_transports [OF r] by (intro exI [of _ ?m3]) simp
qed

section \<open>Timeouts\<close>

text \<open>
  What a tick of the timeout loop does. Exactly the peers not seen for longer than the timeout are
  dropped, each with its route; every other peer stays as it was and every other route stays.
\<close>

theorem mesh_timeout:
  assumes "range_order (mr_peers m) ks"
  shows "fmlookup (mr_peers (mesh_step marshal (MeTimeout now ks) m)) p =
      (case fmlookup (mr_peers m) p of
         None \<Rightarrow> None
       | Some peer \<Rightarrow> if mc_PeerTimeout (mr_config m) < time_sub now (pi_LastSeen peer) then None else Some peer)"
    and "fmlookup (mr_routes (mesh_step marshal (MeTimeout now ks) m)) p =
      (case fmlookup (mr_peers m) p of
         None \<Rightarrow> fmlookup (mr_routes m) p
       | Some peer \<Rightarrow> if mc_PeerTimeout (mr_config m) < time_sub now (pi_LastSeen peer) then None else fmlookup (mr_routes m) p)"
  using range_order_set [OF assms, of p] by (auto simp: timeout_tick_lookup peer_expired_def split: option.splits)

theorem mesh_timeout_witness:
  "fmlookup (mr_peers (mesh_step (\<lambda>_. None) (MeTimeout (61 * second) [''b'']) (peer_listed ex_listed 0 (NewMeshRouter ex_mesh_cfg)))) ''b'' = None \<and>
   fmlookup (mr_peers (mesh_step (\<lambda>_. None) (MeTimeout (60 * second) [''b'']) (peer_listed ex_listed 0 (NewMeshRouter ex_mesh_cfg)))) ''b'' \<noteq> None"
proof -
  let ?m = "peer_listed ex_listed 0 (NewMeshRouter ex_mesh_cfg)"
  have r: "range_order (mr_peers ?m) [''b'']" by (simp add: ex_listed_peers ex_mesh_range)
  have c: "mc_PeerTimeout (mr_config ?m) = 60 * second"
    using mesh_reach_config [OF ex_listed_reach] by (simp add: ex_mesh_cfg_def DefaultMeshConfig_def)
  show ?thesis
    using mesh_timeout(1) [OF r, of "\<lambda>_. None" "61 * second" "''b''"] mesh_timeout(1) [OF r, of "\<lambda>_. None" "60 * second" "''b''"]
    by (simp add: ex_listed_peers c time_sub_def)
qed

section \<open>Silence\<close>

fun silent :: "string \<Rightarrow> mesh_event \<Rightarrow> bool" where
  "silent p (MeListed peer _) = (mp_ClientID peer \<noteq> p)"
| "silent p (MePing q _) = (q \<noteq> p)"
| "silent p (MePong q _) = (q \<noteq> p)"
| "silent p (MeAdd q _ _ _ _) = (q \<noteq> p)"
| "silent p _ = True"

definition last_seen :: "string \<Rightarrow> MeshRouter \<Rightarrow> gotime option" where
  "last_seen p m = map_option pi_LastSeen (fmlookup (mr_peers m) p)"

lemma silent_step:
  assumes "silent p ev"
  shows "last_seen p (mesh_step marshal ev m) \<in> {None, last_seen p m}"
  using assms
  by (cases ev) (auto simp: last_seen_def peer_listed_def HandleMeshPing_def HandleMeshPong_def touch_peer_def leave_notice_def
      leave_clear_def AddPeerRoute_def RemovePeerRoute_def health_tick_def timeout_tick_lookup fold_fmdrop Let_def
      split: option.splits if_splits)

lemma silent_run: "\<forall>ev \<in> set evs. silent p ev \<Longrightarrow> last_seen p (mesh_run marshal evs m) \<in> {None, last_seen p m}"
proof (induction evs rule: rev_induct)
  case Nil
  then show ?case by (simp add: mesh_run_def)
next
  case (snoc ev evs)
  then show ?case using silent_step [of p ev marshal "mesh_run marshal evs m"] by (auto simp: mesh_run_def)
qed

lemma mesh_run_config [simp]: "mr_config (mesh_run marshal evs m) = mr_config m"
  unfolding mesh_run_def by (induction evs arbitrary: m) auto

lemma silent_expires:
  assumes "last_seen p m = Some t" and "\<forall>ev \<in> set evs. silent p ev"
    and "range_order (mr_peers (mesh_run marshal evs m)) ks" and "mc_PeerTimeout (mr_config m) < time_sub now t"
  shows "last_seen p (timeout_tick now ks (mesh_run marshal evs m)) = None"
  using silent_run [OF assms(2), of marshal m] assms(1,4) range_order_set [OF assms(3), of p]
  by (auto simp: last_seen_def timeout_tick_lookup peer_expired_def split: option.splits)

lemma sent_fold_built:
  "msg \<in> set (mr_sent (fold (\<lambda>p. send_built (f p)) ks m)) \<longleftrightarrow> msg \<in> set (mr_sent m) \<or> (\<exists>p \<in> set ks. f p = Inr msg)"
  by (induction ks arbitrary: m) (auto simp: send_built_def split: sum.splits)

lemma health_sent_type:
  assumes "msg \<in> set (mr_sent (health_tick marshal ks m)) - set (mr_sent m)"
  shows "Type msg = TypeMeshPing"
proof -
  obtain p where "NewMeshPingMessage marshal (mc_ClientID (mr_config m)) p = Inr msg"
    using assms by (auto simp: health_tick_def sent_fold_built)
  then show ?thesis using marshalMessage_type [of marshal TypeMeshPing _ msg] by (simp add: NewMeshPingMessage_def)
qed

text \<open>
  The mesh does not keep a live peer. Every ping the health loop sends is one that the relay's read
  loop forwards to nobody, so no ping or pong arrives; and without a peer list or a new route naming the
  peer, whatever else happens, the first tick later than the timeout after the peer was last seen drops it.
\<close>

theorem mesh_peer_expires:
  assumes "json_typed (env_unmarshal env)" and "last_seen p m = Some t" and "\<forall>ev \<in> set evs. silent p ev"
    and "range_order (mr_peers (mesh_run marshal evs m)) ks" and "mc_PeerTimeout (mr_config m) < time_sub now t"
  shows "(\<forall>msg \<in> set (mr_sent (mesh_step marshal (MeHealth ps) m)) - set (mr_sent m).
        read_loop_step env a u msg s = (True, resetHeartbeat a u (markSeen a u s))) \<and>
    last_seen p (mesh_run marshal (evs @ [MeTimeout now ks]) m) = None"
  using silent_expires [OF assms(2,3,4,5)] mesh_ping_dropped [OF assms(1)] health_sent_type [of _ marshal ps m]
  by (auto simp: mesh_run_def)

theorem mesh_peer_expires_witness:
  "\<exists>env :: RelayEnv. json_typed (env_unmarshal env) \<and> last_seen ''b'' (peer_listed ex_listed 0 (NewMeshRouter ex_mesh_cfg)) = Some 0 \<and>
     last_seen ''b'' (mesh_run (\<lambda>_. Some []) ([MeHealth [''b''], MeRemove ''b''] @ [MeTimeout (61 * second) [''b'']])
       (peer_listed ex_listed 0 (NewMeshRouter ex_mesh_cfg))) = None"
proof -
  let ?m = "peer_listed ex_listed 0 (NewMeshRouter ex_mesh_cfg)"
  let ?evs = "[MeHealth [''b''], MeRemove ''b'']"
  define env where "env = ex_env (PMeshPing \<lparr>mi_FromClientID = ''a'', mi_ToClientID = ''b''\<rparr>)"
  have j: "json_typed (env_unmarshal env)" by (simp add: json_typed_def ex_env_def env_def)
  have l: "last_seen ''b'' ?m = Some 0" by (simp add: last_seen_def ex_listed_peers)
  have p: "mr_peers (mesh_run (\<lambda>_. Some []) ?evs ?m) = mr_peers ?m"
    by (simp add: mesh_run_def health_tick_def RemovePeerRoute_def Let_def send_built_def NewMeshPingMessage_def marshalMessage_def
        ex_listed_peers split: sum.split)
  have r: "range_order (mr_peers (mesh_run (\<lambda>_. Some []) ?evs ?m)) [''b'']"
    unfolding p by (simp add: ex_listed_peers ex_mesh_range)
  have s: "\<forall>ev \<in> set ?evs. silent ''b'' ev" by simp
  have "mc_PeerTimeout (mr_config ?m) < time_sub (61 * second) 0"
    using mesh_reach_config [OF ex_listed_reach] by (simp add: ex_mesh_cfg_def DefaultMeshConfig_def time_sub_def)
  from mesh_peer_expires [OF j l s r this, THEN conjunct2] show ?thesis using j l by blast
qed

end
