(* ===== verification/P2P_Engine.thy ===== *)
theory P2P_Engine
  imports Hole_Punch Ice_Run Mesh_Props
begin

text \<open>
  The P2P engine of the desktop (\<open>desktop/internal/p2p/engine.go\<close>): the sessions and the handlers of offers
  and answers, which run NAT detection, the ICE agent, hole punching and the tunnel one after the other. What
  each of these stages does to its agent, and what it returns, is an argument; the agent itself is that of
  \<open>Ice_Agent\<close>. A session is an object that the table and a running handler share, so the sessions live in a heap.
\<close>

section \<open>State\<close>

abbreviation SessionIdle :: string where "SessionIdle \<equiv> ''idle''"
abbreviation SessionDetectingNAT :: string where "SessionDetectingNAT \<equiv> ''detecting_nat''"
abbreviation SessionGatheringCands :: string where "SessionGatheringCands \<equiv> ''gathering_candidates''"
abbreviation SessionExchangingCands :: string where "SessionExchangingCands \<equiv> ''exchanging_candidates''"
abbreviation SessionChecking :: string where "SessionChecking \<equiv> ''checking_connectivity''"
abbreviation SessionPunching :: string where "SessionPunching \<equiv> ''punching''"
abbreviation SessionEstablishing :: string where "SessionEstablishing \<equiv> ''establishing_tunnel''"
abbreviation SessionConnected :: string where "SessionConnected \<equiv> ''connected''"
abbreviation SessionFailed :: string where "SessionFailed \<equiv> ''failed''"
abbreviation SessionClosed :: string where "SessionClosed \<equiv> ''closed''"

record P2PSession =
  se_ID :: string
  se_PeerID :: string
  se_State :: string
  se_iceAgent :: "Agent option"
  se_punch :: "PunchConfig option"
  se_wgTunnel :: "(string \<times> string) option"
  se_transport :: "UDPAddr option"

record P2PEngine =
  en_ClientID :: string
  en_STUNServer :: string
  en_natResult :: "NATResult option"
  en_wgPubKey :: string
  en_heap :: "(nat, P2PSession) fmap"
  en_next :: nat
  en_sessions :: "(string, nat) fmap"
  en_state :: string
  en_sent :: "Message list"
  en_tunnels_closed :: "nat list"

definition NewP2PEngine :: "string \<Rightarrow> string \<Rightarrow> string \<Rightarrow> P2PEngine" where
  "NewP2PEngine clientID stunServer wgPubKey =
     \<lparr>en_ClientID = clientID, en_STUNServer = stunServer, en_natResult = None, en_wgPubKey = wgPubKey, en_heap = fmempty,
      en_next = 0, en_sessions = fmempty, en_state = SessionIdle, en_sent = [], en_tunnels_closed = []\<rparr>"

text \<open>
  What the stages do: detection, gathering and checking on the agent, punching, the start of WireGuard, and
  whether \<open>Control.Send\<close> succeeds; the text of an address and its resolution.
\<close>

record P2PEnv =
  pe_marshal :: json_marshal
  pe_detect :: "detect_error + NATResult"
  pe_gather :: "Agent \<Rightarrow> Candidate list option \<times> Agent"
  pe_checks :: "Agent \<Rightarrow> ice_error option \<times> Agent"
  pe_punch :: "PunchConfig \<Rightarrow> string + PunchResult"
  pe_wg :: bool
  pe_send :: bool
  pe_addr_text :: "UDPAddr \<Rightarrow> string"
  pe_resolve :: "string \<Rightarrow> UDPAddr option"

datatype p2p_error =
    EDetect detect_error | EGather | ECreate proto_error | ESend | EAsync | EIncompatible string string
  | EChecks ice_error | ENoPair | EPunch string | EWireGuard | EUnknownSession string | ERejected string | ENoAgent

definition engine_setState :: "string \<Rightarrow> P2PEngine \<Rightarrow> P2PEngine" where
  "engine_setState st e = e\<lparr>en_state := st\<rparr>"

definition GetNATType :: "P2PEngine \<Rightarrow> string" where
  "GetNATType e = (case en_natResult e of Some r \<Rightarrow> nt_Type r | None \<Rightarrow> [])"

definition session_at :: "nat \<Rightarrow> P2PEngine \<Rightarrow> P2PSession" where
  "session_at s e = the (fmlookup (en_heap e) s)"

definition upd_session :: "nat \<Rightarrow> (P2PSession \<Rightarrow> P2PSession) \<Rightarrow> P2PEngine \<Rightarrow> P2PEngine" where
  "upd_session s f e = e\<lparr>en_heap := fmupd s (f (session_at s e)) (en_heap e)\<rparr>"

text \<open>A new session in the gathering state, stored under its identifier.\<close>

definition store_session :: "string \<Rightarrow> string \<Rightarrow> P2PEngine \<Rightarrow> P2PEngine" where
  "store_session sid peer e =
     e\<lparr>en_heap := fmupd (en_next e) \<lparr>se_ID = sid, se_PeerID = peer, se_State = SessionGatheringCands, se_iceAgent = None, se_punch = None,
         se_wgTunnel = None, se_transport = None\<rparr> (en_heap e),
       en_sessions := fmupd sid (en_next e) (en_sessions e), en_next := en_next e + 1\<rparr>"

definition set_agent :: "nat \<Rightarrow> Agent \<Rightarrow> P2PEngine \<Rightarrow> P2PEngine" where
  "set_agent s a = upd_session s (\<lambda>x. x\<lparr>se_iceAgent := Some a\<rparr>)"

definition DetectNAT :: "P2PEnv \<Rightarrow> P2PEngine \<Rightarrow> detect_error option \<times> P2PEngine" where
  "DetectNAT env e0 =
     (let e = engine_setState SessionDetectingNAT e0 in
      case pe_detect env of
        Inl err \<Rightarrow> (Some err, engine_setState SessionFailed e)
      | Inr r \<Rightarrow> (None, e\<lparr>en_natResult := Some r\<rparr>))"

section \<open>Candidates on the wire\<close>

definition candidateToJSON :: "P2PEnv \<Rightarrow> Candidate \<Rightarrow> ICECandidateJSON" where
  "candidateToJSON env c =
     \<lparr>ic_ID = ca_ID c, ic_Type = ca_Type c, ic_Addr = pe_addr_text env (ca_Addr c), ic_Priority = ca_Priority c,
      ic_Foundation = ca_Foundation c\<rparr>"

definition candidatesToJSON :: "P2PEnv \<Rightarrow> Candidate list \<Rightarrow> ICECandidateJSON list" where
  "candidatesToJSON env cs = map (candidateToJSON env) cs"

definition candidateFromJSON :: "P2PEnv \<Rightarrow> ICECandidateJSON \<Rightarrow> Candidate" where
  "candidateFromJSON env j =
     \<lparr>ca_ID = ic_ID j, ca_Type = ic_Type j,
      ca_Addr = (case pe_resolve env (ic_Addr j) of Some a \<Rightarrow> a | None \<Rightarrow> \<lparr>ua_IP = NilIP, ua_Port = 0\<rparr>),
      ca_Priority = ic_Priority j, ca_Foundation = ic_Foundation j\<rparr>"

definition feed_candidates :: "P2PEnv \<Rightarrow> ICECandidateJSON list \<Rightarrow> Agent \<Rightarrow> Agent" where
  "feed_candidates env js a = fold (\<lambda>j. AddRemoteCandidate (candidateFromJSON env j)) js a"

section \<open>Answers\<close>

definition engine_send :: "Message \<Rightarrow> P2PEngine \<Rightarrow> P2PEngine" where
  "engine_send msg e = e\<lparr>en_sent := en_sent e @ [msg]\<rparr>"

definition sendAnswer :: "P2PEnv \<Rightarrow> P2POfferMessage \<Rightarrow> bool \<Rightarrow> string \<Rightarrow> P2PEngine \<Rightarrow> P2PEngine" where
  "sendAnswer env offer accept reason e =
     (case NewP2PAnswerMessage (pe_marshal env) (po_SessionID offer) (en_ClientID e) (po_FromClientID offer) [] [] [] accept reason of
        Inl _ \<Rightarrow> e
      | Inr msg \<Rightarrow> engine_send msg e)"

definition sendAnswerWithCandidates ::
    "P2PEnv \<Rightarrow> P2POfferMessage \<Rightarrow> ICECandidateJSON list \<Rightarrow> P2PEngine \<Rightarrow> p2p_error option \<times> P2PEngine" where
  "sendAnswerWithCandidates env offer cands e =
     (case NewP2PAnswerMessage (pe_marshal env) (po_SessionID offer) (en_ClientID e) (po_FromClientID offer) (GetNATType e)
             (en_wgPubKey e) cands True [] of
        Inl err \<Rightarrow> (Some (ECreate err), e)
      | Inr msg \<Rightarrow> (if pe_send env then None else Some ESend, engine_send msg e))"

section \<open>From the checks to the tunnel\<close>

definition agent_config :: "P2PEngine \<Rightarrow> AgentConfig" where
  "agent_config e = DefaultAgentConfig\<lparr>ac_STUNServer := en_STUNServer e\<rparr>"

definition sid_bytes :: "string \<Rightarrow> byte list" where
  "sid_bytes sid = array16 (map (\<lambda>c. of_char c) sid)"

text \<open>
  The last part of both handlers, on the session \<open>s\<close> with the agent \<open>a\<close>: checks, punching, WireGuard and the
  transport. It returns the error, or the address of the transport.
\<close>

definition connect_stages ::
    "P2PEnv \<Rightarrow> nat \<Rightarrow> Agent \<Rightarrow> string \<Rightarrow> string \<Rightarrow> string \<Rightarrow> P2PEngine \<Rightarrow> (p2p_error + UDPAddr) \<times> P2PEngine" where
  "connect_stages env s a sid peerKey peerAddr e0 =
     (let e = engine_setState SessionChecking e0;
          (r, a) = pe_checks env a;
          e = set_agent s a e
      in case r of
           Some err \<Rightarrow> (Inl (EChecks err), e)
         | None \<Rightarrow>
             (case ag_selected a of
                None \<Rightarrow> (Inl ENoPair, e)
              | Some p \<Rightarrow>
                  let e = engine_setState SessionPunching e;
                      cfg = pu_config (NewPunchEngine \<lparr>pg_SessionID = sid_bytes sid, pg_RemoteAddr = ca_Addr (cp_Remote (pair_at a p)),
                              pg_Timeout = 0, pg_SendInterval = 0\<rparr>);
                      e = upd_session s (\<lambda>x. x\<lparr>se_punch := Some cfg\<rparr>) e
                  in (case pe_punch env cfg of
                        Inl err \<Rightarrow> (Inl (EPunch err), e)
                      | Inr res \<Rightarrow>
                          let e = engine_setState SessionEstablishing e;
                              e = upd_session s (\<lambda>x. x\<lparr>se_wgTunnel := Some (peerKey, peerAddr)\<rparr>) e
                          in if \<not> pe_wg env then (Inl EWireGuard, e)
                             else (let e = engine_setState SessionConnected e
                                   in (Inr (pr_RemoteAddr res), upd_session s (\<lambda>x. x\<lparr>se_transport := Some (pr_RemoteAddr res)\<rparr>) e)))))"

definition close_agent :: "nat \<Rightarrow> P2PEngine \<Rightarrow> P2PEngine" where
  "close_agent s = upd_session s (\<lambda>x. x\<lparr>se_iceAgent := map_option ice_Close (se_iceAgent x)\<rparr>)"

section \<open>The handlers\<close>

definition HandleP2POffer :: "P2PEnv \<Rightarrow> P2POfferMessage \<Rightarrow> P2PEngine \<Rightarrow> (p2p_error + UDPAddr) \<times> P2PEngine" where
  "HandleP2POffer env offer e0 =
     (let s = en_next e0;
          e = store_session (po_SessionID offer) (po_FromClientID offer) e0
      in case (case en_natResult e of
                 Some r \<Rightarrow>
                   if \<not> IsP2PPossible r (po_NATType offer)
                   then (Some (EIncompatible (nt_Type r) (po_NATType offer)), sendAnswer env offer False ''incompatible NAT types'' e)
                   else (None, e)
               | None \<Rightarrow>
                   (case DetectNAT env e of
                      (Some err, e) \<Rightarrow> (Some (EDetect err), sendAnswer env offer False ''NAT detection failed'' e)
                    | (None, e) \<Rightarrow> (None, e))) of
           (Some err, e) \<Rightarrow> (Inl err, e)
         | (None, e) \<Rightarrow>
             let (cands, a) = pe_gather env (NewAgent (agent_config e));
                 e = set_agent s a e
             in (case cands of
                   None \<Rightarrow> (Inl EGather, sendAnswer env offer False ''candidate gathering failed'' (close_agent s e))
                 | Some cs \<Rightarrow>
                     let a = feed_candidates env (po_Candidates offer) a;
                         e = set_agent s a e
                     in (case sendAnswerWithCandidates env offer (candidatesToJSON env cs) e of
                           (Some err, e) \<Rightarrow> (Inl err, close_agent s e)
                         | (None, e) \<Rightarrow>
                             (case connect_stages env s a (po_SessionID offer) (po_WGPublicKey offer) ''10.7.0.1/32'' e of
                                (Inl err, e) \<Rightarrow> (Inl err, close_agent s e)
                              | (Inr t, e) \<Rightarrow> (Inr t, e)))))"

definition HandleP2PAnswer :: "P2PEnv \<Rightarrow> P2PAnswerMessage \<Rightarrow> P2PEngine \<Rightarrow> (p2p_error + UDPAddr) \<times> P2PEngine" where
  "HandleP2PAnswer env answer e =
     (case fmlookup (en_sessions e) (pa_SessionID answer) of
        None \<Rightarrow> (Inl (EUnknownSession (pa_SessionID answer)), e)
      | Some s \<Rightarrow>
          if \<not> pa_Accept answer then (Inl (ERejected (pa_Reason answer)), upd_session s (\<lambda>x. x\<lparr>se_State := SessionFailed\<rparr>) e)
          else (case se_iceAgent (session_at s e) of
                  None \<Rightarrow> (Inl ENoAgent, e)
                | Some a0 \<Rightarrow>
                    let a = feed_candidates env (pa_Candidates answer) a0
                    in connect_stages env s a (pa_SessionID answer) (pa_WGPublicKey answer) ''10.7.0.2/32'' (set_agent s a e)))"

text \<open>\<open>InitiateP2P\<close> ends in an error on every path: the rest of the flow is left to the answer's handler.\<close>

definition InitiateP2P :: "P2PEnv \<Rightarrow> string \<Rightarrow> string \<Rightarrow> P2PEngine \<Rightarrow> p2p_error \<times> P2PEngine" where
  "InitiateP2P env sessionID peerClientID e0 =
     (let s = en_next e0;
          e = store_session sessionID peerClientID e0
      in case (if en_natResult e = None then DetectNAT env e else (None, e)) of
           (Some err, e) \<Rightarrow> (EDetect err, e)
         | (None, e) \<Rightarrow>
             let (cands, a) = pe_gather env (NewAgent (agent_config e));
                 e = set_agent s a e
             in (case cands of
                   None \<Rightarrow> (EGather, close_agent s e)
                 | Some cs \<Rightarrow>
                     (case NewP2POfferMessage (pe_marshal env) sessionID (en_ClientID e) peerClientID (GetNATType e) (en_wgPubKey e)
                             (candidatesToJSON env cs) of
                        Inl err \<Rightarrow> (ECreate err, close_agent s e)
                      | Inr offer \<Rightarrow>
                          let e = engine_send offer e
                          in if \<not> pe_send env then (ESend, close_agent s e)
                             else (EAsync, engine_setState SessionExchangingCands e))))"

definition close_session :: "string \<Rightarrow> P2PEngine \<Rightarrow> P2PEngine" where
  "close_session k e =
     (case fmlookup (en_sessions e) k of
        None \<Rightarrow> e
      | Some s \<Rightarrow>
          let e = (if se_wgTunnel (session_at s e) \<noteq> None then e\<lparr>en_tunnels_closed := en_tunnels_closed e @ [s]\<rparr> else e)
          in (close_agent s e)\<lparr>en_sessions := fmdrop k (en_sessions e)\<rparr>)"

definition engine_Close :: "string list \<Rightarrow> P2PEngine \<Rightarrow> P2PEngine" where
  "engine_Close ks e = engine_setState SessionClosed (fold close_session ks e)"


section \<open>The direct verification\<close>

text \<open>
  \<open>verify.go\<close> runs the same stages for two hosts that exchange their candidates by hand. Unlike the engine
  it stops the read loop of the agent before the punch. \<open>hex_decode\<close> is what is kept of
  \<open>hex.DecodeString\<close>: the bytes before the first error.
\<close>

record CandidateExchange =
  ce_SessionID :: string
  ce_Role :: string
  ce_Candidates :: "Candidate list"

datatype verify_error = VNoSession | VChecks ice_error | VNoPair | VPunch string

record DirectVerifyResult =
  dv_Role :: string
  dv_SessionID :: string
  dv_RemoteAddr :: UDPAddr
  dv_SelectedLocal :: UDPAddr
  dv_SelectedRemote :: UDPAddr
  dv_RTTMillis :: int

definition directVerifySessionID :: "string \<Rightarrow> CandidateExchange \<Rightarrow> CandidateExchange \<Rightarrow> string" where
  "directVerifySessionID role local remote = (if role = ''responder'' then ce_SessionID remote else ce_SessionID local)"

definition verifySessionID :: "(string \<Rightarrow> byte list) \<Rightarrow> string \<Rightarrow> byte list" where
  "verifySessionID hex_decode v = array16 (hex_decode v)"

definition RunDirectConnectivity ::
    "(string \<Rightarrow> byte list) \<Rightarrow> (Agent \<Rightarrow> ice_error option \<times> Agent) \<Rightarrow> (PunchConfig \<Rightarrow> Agent \<Rightarrow> string + PunchResult) \<Rightarrow>
     string \<Rightarrow> Agent \<Rightarrow> CandidateExchange \<Rightarrow> CandidateExchange \<Rightarrow> (verify_error + DirectVerifyResult) \<times> Agent" where
  "RunDirectConnectivity hex_decode checks punch role agent0 local remote =
     (let sessionIDValue = directVerifySessionID role local remote in
      if sessionIDValue = [] then (Inl VNoSession, agent0)
      else let agent = fold AddRemoteCandidate (ce_Candidates remote) agent0;
               (r, agent) = checks agent
           in case r of
                Some err \<Rightarrow> (Inl (VChecks err), agent)
              | None \<Rightarrow>
                  (case ag_selected agent of
                     None \<Rightarrow> (Inl VNoPair, agent)
                   | Some p \<Rightarrow>
                       let pair = pair_at agent p;
                           agent = StopReadLoop agent;
                           cfg = pu_config (NewPunchEngine \<lparr>pg_SessionID = verifySessionID hex_decode sessionIDValue,
                                   pg_RemoteAddr = ca_Addr (cp_Remote pair), pg_Timeout = 10 * second, pg_SendInterval = 0\<rparr>)
                       in (case punch cfg agent of
                             Inl err \<Rightarrow> (Inl (VPunch err), agent)
                           | Inr result \<Rightarrow>
                               (Inr \<lparr>dv_Role = role, dv_SessionID = sessionIDValue, dv_RemoteAddr = pr_RemoteAddr result,
                                     dv_SelectedLocal = ca_Addr (cp_Local pair), dv_SelectedRemote = ca_Addr (cp_Remote pair),
                                     dv_RTTMillis = pr_RTT result div 1000000\<rparr>, agent))))"

end
