(* ===== verification/P2P_Props.thy ===== *)
theory P2P_Props
  imports P2P_Engine
begin

text \<open>
  The P2P engine: which resources a handler leaves behind, that the read loop of the agent outlives the
  checks, that candidates survive the wire, and that an offer of the mesh cannot lead to a connection.
\<close>

section \<open>Sessions\<close>

lemma session_at_upd [simp]: "session_at t (upd_session s f e) = (if t = s then f (session_at s e) else session_at t e)"
  by (simp add: session_at_def upd_session_def)

lemma session_at_setState [simp]: "session_at t (engine_setState st e) = session_at t e"
  by (simp add: session_at_def engine_setState_def)

lemma session_at_send [simp]: "session_at t (engine_send msg e) = session_at t e"
  by (simp add: session_at_def engine_send_def)

lemma session_at_sendAnswer [simp]: "session_at t (sendAnswer env offer b r e) = session_at t e"
  by (simp add: sendAnswer_def split: sum.split)

lemma session_at_sendAnswer2 [simp]: "session_at t (snd (sendAnswerWithCandidates env offer cs e)) = session_at t e"
  by (simp add: sendAnswerWithCandidates_def split: sum.split)

lemma session_at_detect [simp]: "session_at t (snd (DetectNAT env e)) = session_at t e"
  by (auto simp: DetectNAT_def Let_def session_at_def engine_setState_def split: sum.split)

lemma en_sessions_frame [simp]:
  "en_sessions (upd_session s f e) = en_sessions e" "en_sessions (engine_setState st e) = en_sessions e"
  "en_sessions (engine_send msg e) = en_sessions e" "en_sessions (sendAnswer env offer b r e) = en_sessions e"
  "en_sessions (snd (sendAnswerWithCandidates env offer cs e)) = en_sessions e" "en_sessions (snd (DetectNAT env e)) = en_sessions e"
  by (simp_all add: upd_session_def engine_setState_def engine_send_def sendAnswer_def sendAnswerWithCandidates_def DetectNAT_def Let_def
      split: sum.split)

text \<open>The session has no open socket: its agent was not made or is closed.\<close>

definition session_quiet :: "P2PSession \<Rightarrow> bool" where
  "session_quiet x \<longleftrightarrow> (case se_iceAgent x of None \<Rightarrow> True | Some a \<Rightarrow> \<not> ag_conn_open a \<and> \<not> ag_reader a)"

lemma quiet_close [simp]: "session_quiet (session_at s (close_agent s e))"
  by (simp add: session_quiet_def close_agent_def ice_Close_def split: option.split)

text \<open>
  What the stages after the answer leave in the session: the agent is the one that came out of the checks,
  and on success it has a selected pair, the punch went to its remote address, and the transport is recorded.
\<close>

lemma en_state_upd [simp]: "en_state (upd_session s f e) = en_state e" "en_state (engine_setState st e) = st"
  by (simp_all add: upd_session_def engine_setState_def)

lemma session_at_set_agent [simp]:
  "session_at t (set_agent s a e) = (if t = s then (session_at s e)\<lparr>se_iceAgent := Some a\<rparr> else session_at t e)"
  "en_sessions (set_agent s a e) = en_sessions e" "en_state (set_agent s a e) = en_state e"
  by (simp_all add: set_agent_def)

lemma connect_stages_session:
  assumes "connect_stages env s a sid key addr e = (r, e')"
  shows "se_iceAgent (session_at s e') = Some (snd (pe_checks env a)) \<and> en_sessions e' = en_sessions e \<and>
    (\<forall>t. r = Inr t \<longrightarrow> en_state e' = SessionConnected \<and> se_transport (session_at s e') = Some t \<and> fst (pe_checks env a) = None \<and>
      se_wgTunnel (session_at s e') = Some (key, addr) \<and>
      (\<exists>p cfg res. ag_selected (snd (pe_checks env a)) = Some p \<and> se_punch (session_at s e') = Some cfg \<and>
         pg_RemoteAddr cfg = ca_Addr (cp_Remote (pair_at (snd (pe_checks env a)) p)) \<and> pe_punch env cfg = Inr res \<and> t = pr_RemoteAddr res))"
proof (cases "pe_checks env a")
  case (Pair c b)
  show ?thesis
  proof (cases c)
    case (Some err)
    then show ?thesis using assms Pair by (auto simp: connect_stages_def Let_def)
  next
    case None
    show ?thesis
    proof (cases "ag_selected b")
      case None
      then show ?thesis using assms Pair \<open>c = None\<close> by (auto simp: connect_stages_def Let_def)
    next
      case (Some p)
      define cfg where "cfg = pu_config (NewPunchEngine \<lparr>pg_SessionID = sid_bytes sid, pg_RemoteAddr = ca_Addr (cp_Remote (pair_at b p)),
          pg_Timeout = 0, pg_SendInterval = 0\<rparr>)"
      have ra: "pg_RemoteAddr cfg = ca_Addr (cp_Remote (pair_at b p))" by (simp add: cfg_def NewPunchEngine_def Let_def)
      show ?thesis
      proof (cases "pe_punch env cfg")
        case (Inl err)
        then show ?thesis using assms Pair \<open>c = None\<close> Some by (auto simp: connect_stages_def Let_def simp flip: cfg_def)
      next
        case (Inr res)
        then show ?thesis using assms Pair \<open>c = None\<close> Some ra
          by (cases "pe_wg env") (auto simp: connect_stages_def Let_def simp flip: cfg_def)
      qed
    qed
  qed
qed


lemma session_new [simp]:
  "session_at (en_next e) (store_session sid peer e) =
     \<lparr>se_ID = sid, se_PeerID = peer, se_State = SessionGatheringCands, se_iceAgent = None, se_punch = None, se_wgTunnel = None,
      se_transport = None\<rparr>"
  "fmlookup (en_sessions (store_session sid peer e)) sid = Some (en_next e)"
  by (simp_all add: store_session_def session_at_def)

lemma close_agent_sessions [simp]: "en_sessions (close_agent s e) = en_sessions e"
  by (simp add: close_agent_def)

text \<open>What happens before the agent is made: an error then has answered that the offer is declined.\<close>

definition offer_prepare :: "P2PEnv \<Rightarrow> P2POfferMessage \<Rightarrow> P2PEngine \<Rightarrow> p2p_error option \<times> P2PEngine" where
  "offer_prepare env offer e =
     (case en_natResult e of
        Some r \<Rightarrow>
          if \<not> IsP2PPossible r (po_NATType offer)
          then (Some (EIncompatible (nt_Type r) (po_NATType offer)), sendAnswer env offer False ''incompatible NAT types'' e)
          else (None, e)
      | None \<Rightarrow>
          (case DetectNAT env e of
             (Some err, e) \<Rightarrow> (Some (EDetect err), sendAnswer env offer False ''NAT detection failed'' e)
           | (None, e) \<Rightarrow> (None, e)))"

lemma offer_prepare_frame:
  "session_at t (snd (offer_prepare env offer e)) = session_at t e" "en_sessions (snd (offer_prepare env offer e)) = en_sessions e"
  using session_at_detect [of t env e] en_sessions_frame(6) [of env e]
  by (auto simp: offer_prepare_def split_beta split: option.split prod.split)

lemma HandleP2POffer_stages:
  "HandleP2POffer env offer e0 =
     (let s = en_next e0;
          e = store_session (po_SessionID offer) (po_FromClientID offer) e0
      in case offer_prepare env offer e of
           (Some err, e) \<Rightarrow> (Inl err, e)
         | (None, e) \<Rightarrow>
             let (cands, a) = pe_gather env (NewAgent (agent_config e));
                 e = set_agent s a e
             in (case cands of
                   None \<Rightarrow> (Inl EGather, sendAnswer env offer False ''candidate gathering failed'' (close_agent s e))
                 | Some cs \<Rightarrow>
                     let a = feed_candidates env (po_Candidates offer) a;
                         e = set_agent s a e
                     in (case sendAnswerWithCandidates env offer (candidatesToJSON env cs) e of
                           (Some err, e) \<Rightarrow> (Inl err, close_agent s e)
                         | (None, e) \<Rightarrow>
                             (case connect_stages env s a (po_SessionID offer) (po_WGPublicKey offer) ''10.7.0.1/32'' e of
                                (Inl err, e) \<Rightarrow> (Inl err, close_agent s e)
                              | (Inr t, e) \<Rightarrow> (Inr t, e)))))"
  by (simp add: HandleP2POffer_def offer_prepare_def)

text \<open>Every failing path closes the agent; the succeeding one ends in the stages.\<close>

lemma offer_cases:
  assumes "HandleP2POffer env offer e0 = (r, e)"
  shows "case r of
      Inl _ \<Rightarrow> session_quiet (session_at (en_next e0) e)
    | Inr t \<Rightarrow> \<exists>cfg e3. connect_stages env (en_next e0) (feed_candidates env (po_Candidates offer) (snd (pe_gather env (NewAgent cfg))))
        (po_SessionID offer) (po_WGPublicKey offer) ''10.7.0.1/32'' e3 = (Inr t, e)"
proof -
  define s where "s = en_next e0"
  define e1 where "e1 = store_session (po_SessionID offer) (po_FromClientID offer) e0"
  have n: "se_iceAgent (session_at s e1) = None" by (simp add: s_def e1_def)
  obtain c e2 where c: "offer_prepare env offer e1 = (c, e2)" by (cases "offer_prepare env offer e1")
  have n2: "se_iceAgent (session_at s e2) = None" using offer_prepare_frame(1) [of s env offer e1] c n by simp
  show ?thesis
  proof (cases c)
    case (Some err)
    then have "r = Inl err \<and> e = e2" using assms c by (simp add: HandleP2POffer_stages Let_def flip: s_def e1_def)
    then show ?thesis using n2 by (simp add: session_quiet_def flip: s_def)
  next
    case None
    obtain cands a where g: "pe_gather env (NewAgent (agent_config e2)) = (cands, a)"
      by (cases "pe_gather env (NewAgent (agent_config e2))")
    show ?thesis
    proof (cases cands)
      case n3: None
      then have "r = Inl EGather \<and> e = sendAnswer env offer False ''candidate gathering failed'' (close_agent s (set_agent s a e2))"
        using assms c None g by (simp add: HandleP2POffer_stages Let_def flip: s_def e1_def)
      then show ?thesis by (simp flip: s_def)
    next
      case (Some cs)
      define b where "b = feed_candidates env (po_Candidates offer) a"
      obtain d e3 where d: "sendAnswerWithCandidates env offer (candidatesToJSON env cs) (set_agent s b (set_agent s a e2)) = (d, e3)"
        by fastforce
      show ?thesis
      proof (cases d)
        case (Some err)
        then have "r = Inl err \<and> e = close_agent s e3"
          using assms c None g \<open>cands = Some cs\<close> d by (simp add: HandleP2POffer_stages Let_def flip: s_def e1_def b_def)
        then show ?thesis by (simp flip: s_def)
      next
        case n4: None
        obtain r' e4 where k: "connect_stages env s b (po_SessionID offer) (po_WGPublicKey offer) ''10.7.0.1/32'' e3 = (r', e4)"
          by fastforce
        have "r = r' \<and> e = (case r' of Inl _ \<Rightarrow> close_agent s e4 | Inr _ \<Rightarrow> e4)"
          using assms c None g \<open>cands = Some cs\<close> d n4 k
          by (cases r') (auto simp: HandleP2POffer_stages Let_def simp flip: s_def e1_def b_def)
        then show ?thesis using k g
          by (cases r') (auto simp: b_def simp flip: s_def intro!: exI [of _ "agent_config e2"] exI [of _ e3])
      qed
    qed
  qed
qed

text \<open>
  C21: An offer that fails leaves no socket open. Whatever stage of an offer's handling fails, the session
  it made has no agent or a closed one whose read loop has ended; when the handling succeeds, the checks
  had selected a pair, the punch went to the remote address of that pair, and the session is connected
  with the transport to the address that answered.
\<close>

theorem offer_outcome:
  assumes "HandleP2POffer env offer e0 = (r, e)"
  shows "case r of
      Inl _ \<Rightarrow> session_quiet (session_at (en_next e0) e)
    | Inr t \<Rightarrow> en_state e = SessionConnected \<and> se_transport (session_at (en_next e0) e) = Some t \<and>
        (\<exists>a p cfg res. se_iceAgent (session_at (en_next e0) e) = Some a \<and> ag_selected a = Some p \<and>
           se_punch (session_at (en_next e0) e) = Some cfg \<and> pg_RemoteAddr cfg = ca_Addr (cp_Remote (pair_at a p)) \<and>
           pe_punch env cfg = Inr res \<and> t = pr_RemoteAddr res)"
proof (cases r)
  case (Inl err)
  then show ?thesis using offer_cases [OF assms] by simp
next
  case (Inr t)
  then obtain a e3 where k: "connect_stages env (en_next e0) a (po_SessionID offer) (po_WGPublicKey offer) ''10.7.0.1/32'' e3 = (Inr t, e)"
    using offer_cases [OF assms] by auto
  show ?thesis using connect_stages_session [OF k] Inr by auto
qed

text \<open>
  An answer that fails leaves the socket open. The handler of an answer never closes the agent: after
  an error of the checks, the selection, the punch or the tunnel, the session keeps the agent as it came
  out of the checks, with its socket open and its read loop running if they were.
\<close>

theorem answer_leaks:
  assumes "fmlookup (en_sessions e0) (pa_SessionID answer) = Some s" and "se_iceAgent (session_at s e0) = Some a" and "pa_Accept answer"
    and "HandleP2PAnswer env answer e0 = (Inl err, e)"
  shows "se_iceAgent (session_at s e) = Some (snd (pe_checks env (feed_candidates env (pa_Candidates answer) a))) \<and>
    fmlookup (en_sessions e) (pa_SessionID answer) = Some s"
proof -
  have "connect_stages env s (feed_candidates env (pa_Candidates answer) a) (pa_SessionID answer) (pa_WGPublicKey answer) ''10.7.0.2/32''
      (set_agent s (feed_candidates env (pa_Candidates answer) a) e0) = (Inl err, e)"
    using assms by (simp add: HandleP2PAnswer_def Let_def)
  from connect_stages_session [OF this] show ?thesis using assms(1) by simp
qed


section \<open>The read loop of the agent\<close>

lemma reader_setState [simp]: "ag_reader (ice_setState st a) = ag_reader a" "ag_conn_open (ice_setState st a) = ag_conn_open a"
  by (simp_all add: ice_setState_def)

lemma reader_upd [simp]:
  "ag_reader (upd_pair p f a) = ag_reader a" "ag_conn_open (upd_pair p f a) = ag_conn_open a"
  "ag_reader (upd_check p g a) = ag_reader a" "ag_conn_open (upd_check p g a) = ag_conn_open a"
  "ag_reader (checks_return r a) = ag_reader a" "ag_conn_open (checks_return r a) = ag_conn_open a"
  "ag_reader (check_fail p a) = ag_reader a" "ag_conn_open (check_fail p a) = ag_conn_open a"
  by (simp_all add: upd_pair_def upd_check_def checks_return_def check_fail_def updatePairState_def split: option.split)

lemma reader_keep [simp]: "ag_reader (fold keep_candidate cs a) = ag_reader a" "ag_conn_open (fold keep_candidate cs a) = ag_conn_open a"
  by (induction cs arbitrary: a) (simp_all add: keep_candidate_def fireCandidate_def addLocalCandidate_def)

lemma reader_pairs [simp]: "ag_reader (fold (\<lambda>l. addPair (f l)) ls a) = ag_reader a" "ag_conn_open (fold (\<lambda>l. addPair (f l)) ls a) = ag_conn_open a"
  by (induction ls arbitrary: a) (simp_all add: addPair_def Let_def)

lemma reader_remote [simp]: "ag_reader (AddRemoteCandidate c a) = ag_reader a" "ag_conn_open (AddRemoteCandidate c a) = ag_conn_open a"
  by (simp_all add: AddRemoteCandidate_def)

lemma reader_feed [simp]: "ag_reader (feed_candidates env js a) = ag_reader a" "ag_conn_open (feed_candidates env js a) = ag_conn_open a"
  unfolding feed_candidates_def by (induction js arbitrary: a) simp_all

lemma gather_reads:
  "ag_reader (snd (GatherCandidates h t (Some p) addrs uuid g a)) \<and> ag_conn_open (snd (GatherCandidates h t (Some p) addrs uuid g a))"
  by (simp add: GatherCandidates_def Let_def keep_candidate_def fireCandidate_def addLocalCandidate_def split: sum.split)

definition listening :: "Agent \<Rightarrow> bool" where
  "listening a \<longleftrightarrow> ag_reader a \<and> ag_conn_open a"

lemma listening_step:
  assumes "listening a" and "ev \<noteq> IeStop" and "ev \<noteq> IeClose"
  shows "listening (ice_step h t ev a)"
proof (cases ev)
  case (IeGather port addrs uuid r)
  then show ?thesis using assms gather_reads [of h t _ addrs uuid r a]
    by (cases port) (auto simp: listening_def GatherCandidates_def [of _ _ None] Let_def)
qed (use assms in \<open>auto simp: listening_def StartChecks_begin_def StartChecks_tick_def getNextWaitingPair_def StartChecks_stop_def
      check_send_def check_answer_def updatePairState_def check_nominate_def Let_def check_give_up_def read_stun_def
      split: option.splits check_phase.splits stun_in.splits\<close>)

lemma listening_run: "listening a \<Longrightarrow> \<forall>ev \<in> set evs. ev \<noteq> IeStop \<and> ev \<noteq> IeClose \<Longrightarrow> listening (ice_run h t evs a)"
  unfolding ice_run_def by (induction evs arbitrary: a) (simp_all add: listening_step)

text \<open>
  The read loop of the agent competes with the tunnel. The engine never stops it: for gathering and checks
  that are runs of the agent's own goroutines, when an offer's handling has punched a path and brought the
  tunnel up, the read loop still reads the socket that the punch and the tunnel read, and a datagram it
  takes is lost to them.
\<close>

theorem engine_reader_survives:
  assumes "\<And>a. snd (pe_gather env a) = snd (GatherCandidates h txt (Some p) addrs uuid g a)"
    and "\<And>a. \<exists>evs. (\<forall>ev \<in> set evs. ev \<noteq> IeStop \<and> ev \<noteq> IeClose) \<and> snd (pe_checks env a) = ice_run h txt evs a"
    and "HandleP2POffer env offer e0 = (Inr t, e)"
  shows "\<exists>a. se_iceAgent (session_at (en_next e0) e) = Some a \<and> ag_reader a \<and> ag_conn_open a \<and> en_state e = SessionConnected"
proof -
  obtain cfg e3 where k: "connect_stages env (en_next e0) (feed_candidates env (po_Candidates offer) (snd (pe_gather env (NewAgent cfg))))
      (po_SessionID offer) (po_WGPublicKey offer) ''10.7.0.1/32'' e3 = (Inr t, e)"
    using offer_cases [OF assms(3)] by auto
  define a where "a = feed_candidates env (po_Candidates offer) (snd (pe_gather env (NewAgent cfg)))"
  have "listening a" using gather_reads by (simp add: a_def listening_def assms(1))
  moreover obtain evs where "\<forall>ev \<in> set evs. ev \<noteq> IeStop \<and> ev \<noteq> IeClose" "snd (pe_checks env a) = ice_run h txt evs a"
    using assms(2) by blast
  ultimately have "listening (snd (pe_checks env a))" by (simp add: listening_run)
  then show ?thesis using connect_stages_session [OF k] by (simp add: listening_def flip: a_def)
qed


section \<open>Examples\<close>

definition ex_p2p_env :: P2PEnv where
  "ex_p2p_env =
     \<lparr>pe_marshal = \<lambda>_. Some [], pe_detect = Inr (nat_verdict NATRestricted \<lparr>ua_IP = IP4 9, ua_Port = 9\<rparr> \<lparr>ua_IP = IP4 1, ua_Port = 9\<rparr>),
      pe_gather = GatherCandidates (\<lambda>s. s) ex_text (Some 5000) (Some [(''l'', IP4 1, False)]) ''s'' (Inl ErrRead),
      pe_checks = (\<lambda>a. (None, ice_run (\<lambda>s. s) ex_text [IeBegin, IeTick 0, IeSend 0 True 42 True,
         IeRead (StunSuccess 42) \<lparr>ua_IP = IP4 2, ua_Port = 7\<rparr>, IeAnswer 0, IeNominate 0, IeTick 1] a)),
      pe_punch = (\<lambda>cfg. Inr \<lparr>pr_Success = True, pr_RemoteAddr = pg_RemoteAddr cfg, pr_RTT = 1\<rparr>),
      pe_wg = True, pe_send = True, pe_addr_text = \<lambda>_. [], pe_resolve = \<lambda>_. Some \<lparr>ua_IP = IP4 2, ua_Port = 7\<rparr>\<rparr>"

definition ex_offer :: P2POfferMessage where
  "ex_offer = \<lparr>po_SessionID = ''x'', po_FromClientID = ''b'', po_ToClientID = ''a'',
     po_Candidates = [\<lparr>ic_ID = ''c'', ic_Type = ''host'', ic_Addr = [], ic_Priority = 7, ic_Foundation = []\<rparr>],
     po_NATType = NATRestricted, po_WGPublicKey = ''k''\<rparr>"

definition ex_ready :: Agent where
  "ex_ready = snd (pe_checks ex_p2p_env (feed_candidates ex_p2p_env (po_Candidates ex_offer)
     (snd (pe_gather ex_p2p_env (NewAgent DefaultAgentConfig)))))"

lemma ex_ready_selected: "ag_selected ex_ready = Some 0" "ca_Addr (cp_Remote (pair_at ex_ready 0)) = \<lparr>ua_IP = IP4 2, ua_Port = 7\<rparr>"
  unfolding ex_ready_def ex_p2p_env_def ex_offer_def
  by (simp_all add: feed_candidates_def candidateFromJSON_def ex_ice_defs)

lemma ex_offer_ok:
  "fst (HandleP2POffer ex_p2p_env ex_offer (NewP2PEngine ''a'' [] ''k'')) = Inr \<lparr>ua_IP = IP4 2, ua_Port = 7\<rparr>"
proof -
  define e1 where "e1 = store_session (po_SessionID ex_offer) (po_FromClientID ex_offer) (NewP2PEngine ''a'' [] ''k'')"
  obtain e2 where p: "offer_prepare ex_p2p_env ex_offer e1 = (None, e2)" and c: "agent_config e2 = DefaultAgentConfig"
    by (simp add: offer_prepare_def DetectNAT_def e1_def store_session_def NewP2PEngine_def ex_p2p_env_def engine_setState_def
        agent_config_def DefaultAgentConfig_def)
  have "fst (pe_gather ex_p2p_env (NewAgent DefaultAgentConfig)) \<noteq> None"
    by (simp add: ex_p2p_env_def GatherCandidates_def Let_def gatherSrflxCandidate_def)
  then obtain cs a where g: "pe_gather ex_p2p_env (NewAgent DefaultAgentConfig) = (Some cs, a)"
    by (cases "pe_gather ex_p2p_env (NewAgent DefaultAgentConfig)") auto
  define b where "b = feed_candidates ex_p2p_env (po_Candidates ex_offer) a"
  have r: "pe_checks ex_p2p_env b = (None, ex_ready)"
    by (simp add: ex_ready_def b_def g) (simp add: ex_p2p_env_def)
  have s: "fst (sendAnswerWithCandidates ex_p2p_env ex_offer x e) = None" for x e
    by (simp add: sendAnswerWithCandidates_def NewP2PAnswerMessage_def marshalMessage_def ex_p2p_env_def)
  have k: "fst (connect_stages ex_p2p_env 0 b sid key addr e) = Inr \<lparr>ua_IP = IP4 2, ua_Port = 7\<rparr>" for sid key addr e
    by (simp add: connect_stages_def Let_def r ex_ready_selected) (simp add: ex_p2p_env_def NewPunchEngine_def)
  have n: "en_next (NewP2PEngine ''a'' [] ''k'') = 0" by (simp add: NewP2PEngine_def)
  define e3 where "e3 = snd (sendAnswerWithCandidates ex_p2p_env ex_offer (candidatesToJSON ex_p2p_env cs) (set_agent 0 b (set_agent 0 a e2)))"
  have s3: "sendAnswerWithCandidates ex_p2p_env ex_offer (candidatesToJSON ex_p2p_env cs) (set_agent 0 b (set_agent 0 a e2)) = (None, e3)"
    using s by (metis e3_def prod.collapse)
  obtain e4 where k4: "connect_stages ex_p2p_env 0 b (po_SessionID ex_offer) (po_WGPublicKey ex_offer) ''10.7.0.1/32'' e3 =
      (Inr \<lparr>ua_IP = IP4 2, ua_Port = 7\<rparr>, e4)"
    using k by (metis prod.collapse)
  show ?thesis using p c g s3 k4 by (simp add: HandleP2POffer_stages Let_def n flip: e1_def b_def)
qed

theorem engine_reader_survives_witness:
  "\<exists>t e a. HandleP2POffer ex_p2p_env ex_offer (NewP2PEngine ''a'' [] ''k'') = (Inr t, e) \<and>
     se_iceAgent (session_at 0 e) = Some a \<and> ag_reader a"
proof -
  obtain t e where h: "HandleP2POffer ex_p2p_env ex_offer (NewP2PEngine ''a'' [] ''k'') = (Inr t, e)"
    using ex_offer_ok by (cases "HandleP2POffer ex_p2p_env ex_offer (NewP2PEngine ''a'' [] ''k'')") auto
  have g: "\<And>a. snd (pe_gather ex_p2p_env a) =
      snd (GatherCandidates (\<lambda>s. s) ex_text (Some 5000) (Some [(''l'', IP4 1, False)]) ''s'' (Inl ErrRead) a)"
    by (simp add: ex_p2p_env_def)
  have c: "\<And>a. \<exists>evs. (\<forall>ev \<in> set evs. ev \<noteq> IeStop \<and> ev \<noteq> IeClose) \<and> snd (pe_checks ex_p2p_env a) = ice_run (\<lambda>s. s) ex_text evs a"
    by (rule exI [of _ "[IeBegin, IeTick 0, IeSend 0 True 42 True,
         IeRead (StunSuccess 42) \<lparr>ua_IP = IP4 2, ua_Port = 7\<rparr>, IeAnswer 0, IeNominate 0, IeTick 1]"]) (simp add: ex_p2p_env_def)
  have n: "en_next (NewP2PEngine ''a'' [] ''k'') = 0" by (simp add: NewP2PEngine_def)
  show ?thesis using engine_reader_survives [OF g c h] h unfolding n by blast
qed

theorem offer_outcome_witness:
  "\<exists>e. HandleP2POffer ex_p2p_env ex_offer (NewP2PEngine ''a'' [] ''k'') = (Inr \<lparr>ua_IP = IP4 2, ua_Port = 7\<rparr>, e) \<and>
     en_state e = SessionConnected \<and> se_transport (session_at 0 e) = Some \<lparr>ua_IP = IP4 2, ua_Port = 7\<rparr>"
proof -
  obtain e where h: "HandleP2POffer ex_p2p_env ex_offer (NewP2PEngine ''a'' [] ''k'') = (Inr \<lparr>ua_IP = IP4 2, ua_Port = 7\<rparr>, e)"
    using ex_offer_ok by (cases "HandleP2POffer ex_p2p_env ex_offer (NewP2PEngine ''a'' [] ''k'')") auto
  have "en_next (NewP2PEngine ''a'' [] ''k'') = 0" by (simp add: NewP2PEngine_def)
  then show ?thesis using offer_outcome [OF h] h by auto
qed

definition ex_answer :: P2PAnswerMessage where
  "ex_answer = \<lparr>pa_SessionID = ''x'', pa_FromClientID = ''b'', pa_ToClientID = ''a'', pa_Candidates = [], pa_NATType = [],
     pa_WGPublicKey = [], pa_Accept = True, pa_Reason = []\<rparr>"

definition ex_waiting :: P2PEngine where
  "ex_waiting = set_agent 0 ((NewAgent DefaultAgentConfig)\<lparr>ag_conn_open := True\<rparr>) (store_session ''x'' ''b'' (NewP2PEngine ''a'' [] ''k''))"

text \<open>The checks time out without touching the agent.\<close>

theorem answer_leaks_witness:
  "\<exists>e a. HandleP2PAnswer (ex_p2p_env\<lparr>pe_checks := \<lambda>a. (Some IceTimedOut, a)\<rparr>) ex_answer ex_waiting = (Inl (EChecks IceTimedOut), e) \<and>
     se_iceAgent (session_at 0 e) = Some a \<and> ag_conn_open a"
proof -
  let ?env = "ex_p2p_env\<lparr>pe_checks := \<lambda>a. (Some IceTimedOut, a)\<rparr>"
  let ?a = "(NewAgent DefaultAgentConfig)\<lparr>ag_conn_open := True\<rparr>"
  have n: "en_next (NewP2PEngine ''a'' [] ''k'') = 0" by (simp add: NewP2PEngine_def)
  have s: "fmlookup (en_sessions ex_waiting) (pa_SessionID ex_answer) = Some 0"
    using session_new(2) [of "''x''" "''b''" "NewP2PEngine ''a'' [] ''k''"] n by (simp add: ex_waiting_def ex_answer_def)
  have a: "se_iceAgent (session_at 0 ex_waiting) = Some ?a" by (simp add: ex_waiting_def)
  have k: "pa_Accept ex_answer" by (simp add: ex_answer_def)
  have "fst (HandleP2PAnswer ?env ex_answer ex_waiting) = Inl (EChecks IceTimedOut)"
    using s a k by (simp add: HandleP2PAnswer_def connect_stages_def Let_def)
  then obtain e where h: "HandleP2PAnswer ?env ex_answer ex_waiting = (Inl (EChecks IceTimedOut), e)"
    by (cases "HandleP2PAnswer ?env ex_answer ex_waiting") auto
  from answer_leaks [OF s a k h] show ?thesis using h by (auto simp: feed_candidates_def ex_answer_def)
qed

section \<open>Candidates on the wire\<close>

text \<open>
  Candidates survive the exchange. What one engine puts into an offer or an answer the other reads back
  as the same candidates, provided the text of an address resolves to the address.
\<close>

theorem candidates_roundtrip:
  assumes "\<forall>c \<in> set cs. pe_resolve env (pe_addr_text env (ca_Addr c)) = Some (ca_Addr c)"
  shows "map (candidateFromJSON env) (candidatesToJSON env cs) = cs"
  using assms by (induction cs) (simp_all add: candidatesToJSON_def candidateToJSON_def candidateFromJSON_def)

theorem candidates_roundtrip_witness:
  "map (candidateFromJSON ex_p2p_env) (candidatesToJSON ex_p2p_env [ex_cand ''r'' 1 7\<lparr>ca_Addr := \<lparr>ua_IP = IP4 2, ua_Port = 7\<rparr>\<rparr>]) =
     [ex_cand ''r'' 1 7\<lparr>ca_Addr := \<lparr>ua_IP = IP4 2, ua_Port = 7\<rparr>\<rparr>]"
  by (rule candidates_roundtrip) (simp add: ex_p2p_env_def)

section \<open>The mesh and the engine\<close>

text \<open>An agent without pairs stays without a selection, whatever runs but a remote candidate.\<close>

definition no_pairs :: "Agent \<Rightarrow> bool" where
  "no_pairs a \<longleftrightarrow> ag_checklist a = [] \<and> ag_checks a = fmempty \<and> ag_selected a = None"

lemma no_pairs_core: "ice_core a = ice_core b \<Longrightarrow> no_pairs a = no_pairs b"
  by (simp add: no_pairs_def ice_core_def)

lemma no_pairs_gather: "no_pairs (snd (GatherCandidates h t port addrs uuid g a)) = no_pairs a"
  by (rule no_pairs_core) simp

lemma no_pairs_step:
  assumes "no_pairs a" and "\<forall>c. ev \<noteq> IeRemote c"
  shows "no_pairs (ice_step h t ev a)"
proof (cases ev)
  case (IeGather port addrs uuid r)
  then show ?thesis using assms(1) by (simp add: no_pairs_gather)
next
  case (IeRead msg src)
  then show ?thesis using assms(1) by (cases msg) (auto simp: no_pairs_def read_stun_def upd_check_def split: option.split)
qed (use assms in \<open>simp_all add: no_pairs_def StartChecks_begin_def StartChecks_tick_def getNextWaitingPair_def allPairsFailed_def
      StartChecks_stop_def check_send_def check_answer_def check_nominate_def check_give_up_def StopReadLoop_def ice_Close_def\<close>)

lemma no_pairs_run: "no_pairs a \<Longrightarrow> \<forall>ev \<in> set evs. \<forall>c. ev \<noteq> IeRemote c \<Longrightarrow> no_pairs (ice_run h t evs a)"
  unfolding ice_run_def by (induction evs arbitrary: a) (simp_all add: no_pairs_step)

lemma no_pairs_new: "no_pairs (NewAgent cfg)"
  by (simp add: no_pairs_def NewAgent_def)

lemma offer_without_candidates:
  assumes "\<And>a. snd (pe_gather env a) = snd (GatherCandidates h txt port addrs uuid g a)"
    and "\<And>a. \<exists>evs. (\<forall>ev \<in> set evs. \<forall>c. ev \<noteq> IeRemote c) \<and> snd (pe_checks env a) = ice_run h txt evs a"
    and "po_Candidates offer = []"
  shows "\<exists>err. fst (HandleP2POffer env offer e0) = Inl err"
proof (cases "HandleP2POffer env offer e0")
  case (Pair r e)
  show ?thesis
  proof (cases r)
    case (Inr t)
    then obtain cfg e3 where k: "connect_stages env (en_next e0) (snd (pe_gather env (NewAgent cfg))) (po_SessionID offer) (po_WGPublicKey offer)
        ''10.7.0.1/32'' e3 = (Inr t, e)"
      using offer_cases [OF Pair] assms(3) by (auto simp: feed_candidates_def)
    define a where "a = snd (pe_gather env (NewAgent cfg))"
    have "no_pairs a" by (simp add: a_def assms(1) no_pairs_gather no_pairs_new)
    moreover obtain evs where "\<forall>ev \<in> set evs. \<forall>c. ev \<noteq> IeRemote c" "snd (pe_checks env a) = ice_run h txt evs a"
      using assms(2) by blast
    ultimately have "no_pairs (snd (pe_checks env a))" by (simp add: no_pairs_run)
    then show ?thesis using connect_stages_session [OF k] by (simp add: no_pairs_def flip: a_def)
  qed (use Pair in simp)
qed

text \<open>Calls of an engine, and the sessions they start.\<close>

datatype engine_event =
    EnInitiate P2PEnv string string
  | EnOffer P2PEnv P2POfferMessage
  | EnAnswer P2PEnv P2PAnswerMessage
  | EnClose "string list"

fun engine_step :: "engine_event \<Rightarrow> P2PEngine \<Rightarrow> P2PEngine" where
  "engine_step (EnInitiate env uuid peer) e = snd (InitiateP2P env uuid peer e)"
| "engine_step (EnOffer env offer) e = snd (HandleP2POffer env offer e)"
| "engine_step (EnAnswer env answer) e = snd (HandleP2PAnswer env answer e)"
| "engine_step (EnClose ks) e = engine_Close ks e"

fun starts :: "engine_event \<Rightarrow> string option" where
  "starts (EnInitiate _ uuid _) = Some uuid"
| "starts (EnOffer _ offer) = Some (po_SessionID offer)"
| "starts _ = None"

lemma connect_stages_sessions: "en_sessions (snd (connect_stages env s a sid key addr e)) = en_sessions e"
  using connect_stages_session [of env s a sid key addr e] by (metis prod.collapse)

lemma store_sessions: "en_sessions (store_session sid peer e) = fmupd sid (en_next e) (en_sessions e)"
  by (simp add: store_session_def)

lemma offer_sessions: "en_sessions (snd (HandleP2POffer env offer e)) = fmupd (po_SessionID offer) (en_next e) (en_sessions e)"
  by (simp add: HandleP2POffer_stages Let_def split_beta offer_prepare_frame connect_stages_sessions store_sessions
      split: option.split sum.split)

lemma answer_sessions: "en_sessions (snd (HandleP2PAnswer env answer e)) = en_sessions e"
  by (auto simp: HandleP2PAnswer_def Let_def connect_stages_sessions split: option.split)

lemma initiate_sessions: "en_sessions (snd (InitiateP2P env uuid peer e)) = fmupd uuid (en_next e) (en_sessions e)"
proof -
  define r where "r = (if en_natResult (store_session uuid peer e) = None then DetectNAT env (store_session uuid peer e)
      else (None, store_session uuid peer e))"
  have "en_sessions (snd r) = fmupd uuid (en_next e) (en_sessions e)" by (simp add: r_def store_sessions)
  then show ?thesis unfolding InitiateP2P_def Let_def r_def [symmetric]
    by (simp add: split_beta split: option.split sum.split)
qed

lemma close_sessions: "fmlookup (en_sessions e) k = None \<Longrightarrow> fmlookup (en_sessions (engine_Close ks e)) k = None"
proof -
  have "fmlookup (en_sessions (close_session x e)) k = None" if "fmlookup (en_sessions e) k = None" for x e
    using that by (auto simp: close_session_def Let_def split: option.split)
  then have "fmlookup (en_sessions (fold close_session ks e)) k = None" if "fmlookup (en_sessions e) k = None" for e
    using that by (induction ks arbitrary: e) simp_all
  then show "fmlookup (en_sessions e) k = None \<Longrightarrow> fmlookup (en_sessions (engine_Close ks e)) k = None"
    by (simp add: engine_Close_def)
qed

lemma unstarted_session:
  "fmlookup (en_sessions e) sid = None \<Longrightarrow> \<forall>ev \<in> set evs. starts ev \<noteq> Some sid \<Longrightarrow> fmlookup (en_sessions (fold engine_step evs e)) sid = None"
proof (induction evs arbitrary: e)
  case (Cons ev evs)
  then have "fmlookup (en_sessions (engine_step ev e)) sid = None"
    by (cases ev) (simp_all add: initiate_sessions offer_sessions answer_sessions close_sessions)
  then show ?case using Cons by simp
qed simp

text \<open>
  The mesh cannot connect two peers. The offer that \<open>connectToPeer\<close> sends names a session of its own and
  carries no candidates. On the other side every handling of it fails, because no pair is ever checked; and
  an answer to it is refused on this side, because the engine has only the sessions that it initiated or
  that arrived in offers.
\<close>

theorem mesh_offer_fails:
  assumes "msg \<in> set (mr_sent (connectToPeer marshal peer m)) - set (mr_sent m)"
    and "\<forall>v bs. marshal v = Some bs \<longrightarrow> unmarshal (kind_of v) bs = Some v"
    and "\<And>a. snd (pe_gather env a) = snd (GatherCandidates h txt port addrs uuid g a)"
    and "\<And>a. \<exists>evs. (\<forall>ev \<in> set evs. \<forall>c. ev \<noteq> IeRemote c) \<and> snd (pe_checks env a) = ice_run h txt evs a"
    and "\<forall>ev \<in> set evs. starts ev \<noteq> Some (''mesh-'' @ mc_ClientID (mr_config m) @ ''-'' @ peer)"
  shows "\<exists>offer. DecodePayload unmarshal msg = Inr (Some (PP2POffer offer)) \<and>
      (\<exists>err. fst (HandleP2POffer env offer e0) = Inl err) \<and>
      (\<forall>answer. pa_SessionID answer = po_SessionID offer \<longrightarrow>
         fst (HandleP2PAnswer env' answer (fold engine_step evs (NewP2PEngine me stun key))) = Inl (EUnknownSession (po_SessionID offer)))"
proof -
  define sid where "sid = ''mesh-'' @ mc_ClientID (mr_config m) @ ''-'' @ peer"
  have "NewP2POfferMessage marshal sid (mc_ClientID (mr_config m)) peer (mc_NATType (mr_config m)) (mc_WGPubKey (mr_config m)) [] = Inr msg"
    using assms(1) by (auto simp: connectToPeer_def Let_def send_built_def sid_def split: option.splits sum.splits)
  moreover define offer where "offer = \<lparr>po_SessionID = sid, po_FromClientID = mc_ClientID (mr_config m), po_ToClientID = peer,
     po_Candidates = [], po_NATType = mc_NATType (mr_config m), po_WGPublicKey = mc_WGPubKey (mr_config m)\<rparr>"
  ultimately have "marshalMessage marshal (type_of_kind (kind_of (PP2POffer offer))) (PP2POffer offer) = Inr msg"
    by (simp add: NewP2POfferMessage_def)
  then have d: "DecodePayload unmarshal msg = Inr (Some (PP2POffer offer))" using decode_marshalled assms(2) by blast
  have f: "\<exists>err. fst (HandleP2POffer env offer e0) = Inl err"
    by (rule offer_without_candidates [OF assms(3,4)]) (simp add: offer_def)
  have "fmlookup (en_sessions (NewP2PEngine me stun key)) sid = None" by (simp add: NewP2PEngine_def)
  then have "fmlookup (en_sessions (fold engine_step evs (NewP2PEngine me stun key))) sid = None"
    by (rule unstarted_session) (use assms(5) in \<open>simp add: sid_def\<close>)
  then show ?thesis using d f by (auto simp: HandleP2PAnswer_def offer_def intro!: exI [of _ offer])
qed

definition ex_mesh_offer :: P2POfferMessage where
  "ex_mesh_offer = \<lparr>po_SessionID = ''mesh-a-b'', po_FromClientID = ''a'', po_ToClientID = ''b'', po_Candidates = [],
     po_NATType = [], po_WGPublicKey = []\<rparr>"

definition ex_mesh_marshal :: json_marshal where
  "ex_mesh_marshal v = (if v = PP2POffer ex_mesh_offer then Some [] else None)"

theorem mesh_offer_fails_witness:
  "\<exists>offer. DecodePayload (\<lambda>_ _. Some (PP2POffer ex_mesh_offer)) \<lparr>Type = TypeP2POffer, Payload = []\<rparr> = Inr (Some (PP2POffer offer)) \<and>
     (\<exists>err. fst (HandleP2POffer ex_p2p_env offer (NewP2PEngine ''b'' [] ''k'')) = Inl err)"
proof -
  let ?m = "peer_listed ex_listed 0 (NewMeshRouter ex_mesh_cfg)"
  have cfg: "mc_ClientID (mr_config ?m) = ''a''" "mc_NATType (mr_config ?m) = []" "mc_WGPubKey (mr_config ?m) = []"
    using mesh_reach_config [OF ex_listed_reach] by (simp_all add: ex_mesh_cfg_def DefaultMeshConfig_def)
  have s: "mr_sent ?m = []" by (simp add: peer_listed_def NewMeshRouter_def ex_mesh_cfg_def ex_listed_def DefaultMeshConfig_def)
  have "mr_sent (connectToPeer ex_mesh_marshal ''b'' ?m) = [\<lparr>Type = TypeP2POffer, Payload = []\<rparr>]"
    using cfg s by (simp add: connectToPeer_def Let_def ex_listed_peers send_built_def NewP2POfferMessage_def marshalMessage_def
        ex_mesh_marshal_def ex_mesh_offer_def)
  then have m: "\<lparr>Type = TypeP2POffer, Payload = []\<rparr> \<in> set (mr_sent (connectToPeer ex_mesh_marshal ''b'' ?m)) - set (mr_sent ?m)"
    using s by simp
  have u: "\<forall>v bs. ex_mesh_marshal v = Some bs \<longrightarrow> (\<lambda>_ _. Some (PP2POffer ex_mesh_offer)) (kind_of v) bs = Some v"
    by (simp add: ex_mesh_marshal_def)
  have g: "\<And>a. snd (pe_gather ex_p2p_env a) =
      snd (GatherCandidates (\<lambda>s. s) ex_text (Some 5000) (Some [(''l'', IP4 1, False)]) ''s'' (Inl ErrRead) a)"
    by (simp add: ex_p2p_env_def)
  have c: "\<And>a. \<exists>evs. (\<forall>ev \<in> set evs. \<forall>c. ev \<noteq> IeRemote c) \<and> snd (pe_checks ex_p2p_env a) = ice_run (\<lambda>s. s) ex_text evs a"
    by (rule exI [of _ "[IeBegin, IeTick 0, IeSend 0 True 42 True,
         IeRead (StunSuccess 42) \<lparr>ua_IP = IP4 2, ua_Port = 7\<rparr>, IeAnswer 0, IeNominate 0, IeTick 1]"]) (simp add: ex_p2p_env_def)
  have e: "\<forall>ev \<in> set []. starts ev \<noteq> Some (''mesh-'' @ mc_ClientID (mr_config ?m) @ ''-'' @ ''b'')" by simp
  show ?thesis using mesh_offer_fails [OF m u g c e, of "NewP2PEngine ''b'' [] ''k''"] by blast
qed

end
