(* ===== verification/Punch_Pair.thy ===== *)
theory Punch_Pair
  imports Hole_Punch
begin

text \<open>
  Runs of one punch engine, and of two engines over a network that may lose, delay and reorder datagrams:
  when an engine is verified, and why one side can be verified alone.
\<close>

section \<open>One engine\<close>

definition punch_run :: "punch_event list \<Rightarrow> PunchEngine \<Rightarrow> PunchEngine" where
  "punch_run evs e = fold (\<lambda>ev e. fst (punch_step ev e)) evs e"

lemma punch_run_snoc: "punch_run (evs @ [ev]) e = fst (punch_step ev (punch_run evs e))"
  by (simp add: punch_run_def)

text \<open>A datagram of the session that carries an acknowledgement.\<close>

definition acks :: "byte list \<Rightarrow> byte list \<Rightarrow> bool" where
  "acks sid datagram \<longleftrightarrow>
     (\<exists>f n. ParsePunchPacket (take 1500 datagram) = Some (sid, f, n) \<and> f \<in> {punchFlagACK, punchFlagSYNACK})"

lemma read_punch_acks:
  "pu_reader (fst (read_punch d from e)) = (pu_reader e \<and> \<not> acks (pg_SessionID (pu_config e)) d)"
  "pu_resp (fst (read_punch d from e)) =
     (if acks (pg_SessionID (pu_config e)) d then (case pu_resp e of None \<Rightarrow> Some from | Some a \<Rightarrow> Some a) else pu_resp e)"
proof -
  define buf where "buf = take 1500 d"
  show "pu_reader (fst (read_punch d from e)) = (pu_reader e \<and> \<not> acks (pg_SessionID (pu_config e)) d)"
    "pu_resp (fst (read_punch d from e)) =
     (if acks (pg_SessionID (pu_config e)) d then (case pu_resp e of None \<Rightarrow> Some from | Some a \<Rightarrow> Some a) else pu_resp e)"
    unfolding read_punch_def acks_def ParsePunchPacket_def Let_def buf_def [symmetric] by (auto simp del: array16_id)
qed

lemma read_punch_frame [simp]:
  "pu_config (fst (read_punch d from e)) = pu_config e" "pu_state (fst (read_punch d from e)) = pu_state e"
  "pu_result (fst (read_punch d from e)) = pu_result e" "pu_nonce (fst (read_punch d from e)) = pu_nonce e"
  "pu_start (fst (read_punch d from e)) = pu_start e"
  by (simp_all add: read_punch_def Let_def)

lemma punch_step_config [simp]: "pu_config (fst (punch_step ev e)) = pu_config e"
  by (cases ev) (auto split: option.split)

lemma punch_run_config [simp]: "pu_config (punch_run evs e) = pu_config e"
  unfolding punch_run_def by (induction evs arbitrary: e) auto

definition acked_by :: "byte list \<Rightarrow> punch_event list \<Rightarrow> UDPAddr \<Rightarrow> bool" where
  "acked_by sid evs a \<longleftrightarrow> (\<exists>d. PuPacket d a \<in> set evs \<and> acks sid d)"

lemma acked_by_snoc: "acked_by sid evs a \<Longrightarrow> acked_by sid (evs @ [ev]) a"
  by (auto simp: acked_by_def)

definition punch_inv :: "byte list \<Rightarrow> punch_event list \<Rightarrow> PunchEngine \<Rightarrow> bool" where
  "punch_inv sid evs e \<longleftrightarrow> (\<forall>a. pu_resp e = Some a \<longrightarrow> acked_by sid evs a) \<and>
     (\<forall>r. pu_result e = Some r \<longrightarrow> acked_by sid evs (pr_RemoteAddr r)) \<and>
     (pu_state e = PunchStateVerified \<longleftrightarrow> pu_result e \<noteq> None)"

lemma punch_inv_step:
  assumes "punch_inv (pg_SessionID (pu_config e)) evs e"
  shows "punch_inv (pg_SessionID (pu_config e)) (evs @ [ev]) (fst (punch_step ev e))"
proof (cases ev)
  case (PuPacket d a)
  then show ?thesis using assms acked_by_snoc [of "pg_SessionID (pu_config e)" evs _ ev]
    by (auto simp: punch_inv_def read_punch_acks acked_by_def split: option.splits)
next
  case (PuRecv now)
  then show ?thesis using assms acked_by_snoc [of "pg_SessionID (pu_config e)" evs _ ev]
    by (auto simp: punch_inv_def split: option.splits)
qed (use assms acked_by_snoc [of "pg_SessionID (pu_config e)" evs _ ev] in \<open>auto simp: punch_inv_def\<close>)

lemma punch_inv_run: "punch_inv (pg_SessionID (pu_config e)) [] e \<Longrightarrow> punch_inv (pg_SessionID (pu_config e)) evs (punch_run evs e)"
proof (induction evs rule: rev_induct)
  case Nil
  then show ?case by (simp add: punch_run_def)
next
  case (snoc ev evs)
  then show ?case using punch_inv_step [of "punch_run evs e" evs ev] by (simp add: punch_run_snoc)
qed

text \<open>
  A path is verified by an acknowledgement and by nothing else. Whatever the two goroutines do, the
  engine is verified exactly when \<open>Punch\<close> has returned a result, and the address of that result sent a
  datagram of this session, with the magic number and an ACK or SYNACK flag.
\<close>

theorem punch_verified:
  "let e = punch_run evs (punch_begin now nonce (NewPunchEngine cfg)) in
     (pu_state e = PunchStateVerified \<longleftrightarrow> pu_result e \<noteq> None) \<and>
     (\<forall>r. pu_result e = Some r \<longrightarrow>
        (\<exists>d f n. PuPacket d (pr_RemoteAddr r) \<in> set evs \<and> f \<in> {punchFlagACK, punchFlagSYNACK} \<and>
           ParsePunchPacket (take 1500 d) = Some (pg_SessionID cfg, f, n)))"
proof -
  let ?e = "punch_begin now nonce (NewPunchEngine cfg)"
  have c: "pg_SessionID (pu_config ?e) = pg_SessionID cfg" by (simp add: punch_begin_def NewPunchEngine_def Let_def)
  have "punch_inv (pg_SessionID (pu_config ?e)) [] ?e" by (simp add: punch_inv_def punch_begin_def)
  then have "punch_inv (pg_SessionID cfg) evs (punch_run evs ?e)" using punch_inv_run [of ?e evs] by (simp only: c)
  then show ?thesis by (fastforce simp: punch_inv_def acked_by_def acks_def Let_def)
qed

text \<open>A SYNACK arrives and is picked up.\<close>

definition ex_cfg :: PunchConfig where
  "ex_cfg = \<lparr>pg_SessionID = replicate 16 7, pg_RemoteAddr = \<lparr>ua_IP = IP4 2, ua_Port = 2\<rparr>, pg_Timeout = 0, pg_SendInterval = 0\<rparr>"

definition ex_synack :: "punch_event list" where
  "ex_synack = [PuTick, PuPacket (buildPunchPacket (replicate 16 7) punchFlagSYNACK 1) \<lparr>ua_IP = IP4 3, ua_Port = 3\<rparr>, PuRecv 9]"

theorem punch_verified_witness:
  "\<exists>d f n. PuPacket d \<lparr>ua_IP = IP4 3, ua_Port = 3\<rparr> \<in> set ex_synack \<and> f \<in> {punchFlagACK, punchFlagSYNACK} \<and>
     ParsePunchPacket (take 1500 d) = Some (replicate 16 7, f, n)"
proof -
  define e where "e = punch_run ex_synack (punch_begin 0 0 (NewPunchEngine ex_cfg))"
  have "pu_result e = Some \<lparr>pr_Success = True, pr_RemoteAddr = \<lparr>ua_IP = IP4 3, ua_Port = 3\<rparr>, pr_RTT = 9\<rparr>"
    by (simp add: e_def punch_run_def ex_synack_def punch_begin_def NewPunchEngine_def ex_cfg_def Let_def read_punch_def time_sub_def)
  moreover have "pg_SessionID ex_cfg = replicate 16 7" by (simp add: ex_cfg_def)
  ultimately show ?thesis
    using punch_verified [of ex_synack 0 0 ex_cfg] unfolding Let_def e_def [symmetric] by fastforce
qed

section \<open>Two engines\<close>

text \<open>The network holds datagrams with their destination and source.\<close>

record punch_pair =
  pp_left :: PunchEngine
  pp_right :: PunchEngine
  pp_net :: "(UDPAddr \<times> UDPAddr \<times> byte list) list"

datatype pair_event =
    PpLeft punch_event
  | PpRight punch_event
  | PpToLeft nat
  | PpToRight nat
  | PpLose nat

definition outgoing :: "UDPAddr \<Rightarrow> (byte list \<times> UDPAddr) list \<Rightarrow> (UDPAddr \<times> UDPAddr \<times> byte list) list" where
  "outgoing src ps = map (\<lambda>(d, dst). (dst, src, d)) ps"

definition drop_nth :: "nat \<Rightarrow> 'a list \<Rightarrow> 'a list" where
  "drop_nth i xs = take i xs @ drop (Suc i) xs"

fun is_packet :: "punch_event \<Rightarrow> bool" where
  "is_packet (PuPacket _ _) = True"
| "is_packet _ = False"

definition left_step :: "UDPAddr \<Rightarrow> punch_event \<Rightarrow> punch_pair \<Rightarrow> punch_pair" where
  "left_step la ev s =
     (let (e, out) = punch_step ev (pp_left s) in s\<lparr>pp_left := e, pp_net := pp_net s @ outgoing la out\<rparr>)"

definition right_step :: "UDPAddr \<Rightarrow> punch_event \<Rightarrow> punch_pair \<Rightarrow> punch_pair" where
  "right_step ra ev s =
     (let (e, out) = punch_step ev (pp_right s) in s\<lparr>pp_right := e, pp_net := pp_net s @ outgoing ra out\<rparr>)"

text \<open>A step of an engine other than a datagram; the delivery of the datagram at a place of the network, if it
  is addressed there; its loss, or its capture by another reader of the socket.\<close>

fun pair_step :: "UDPAddr \<Rightarrow> UDPAddr \<Rightarrow> pair_event \<Rightarrow> punch_pair \<Rightarrow> punch_pair" where
  "pair_step la ra (PpLeft ev) s = (if is_packet ev then s else left_step la ev s)"
| "pair_step la ra (PpRight ev) s = (if is_packet ev then s else right_step ra ev s)"
| "pair_step la ra (PpToLeft i) s =
     (if i < length (pp_net s) then
        (case pp_net s ! i of (dst, src, d) \<Rightarrow>
           if dst = la then left_step la (PuPacket d src) (s\<lparr>pp_net := drop_nth i (pp_net s)\<rparr>) else s)
      else s)"
| "pair_step la ra (PpToRight i) s =
     (if i < length (pp_net s) then
        (case pp_net s ! i of (dst, src, d) \<Rightarrow>
           if dst = ra then right_step ra (PuPacket d src) (s\<lparr>pp_net := drop_nth i (pp_net s)\<rparr>) else s)
      else s)"
| "pair_step la ra (PpLose i) s = s\<lparr>pp_net := drop_nth i (pp_net s)\<rparr>"

definition pair_run :: "UDPAddr \<Rightarrow> UDPAddr \<Rightarrow> pair_event list \<Rightarrow> punch_pair \<Rightarrow> punch_pair" where
  "pair_run la ra evs s = fold (pair_step la ra) evs s"

text \<open>The right engine has not been acknowledged, nothing on the way to it does so, and the left engine has stopped reading.\<close>

definition right_stuck :: "UDPAddr \<Rightarrow> byte list \<Rightarrow> punch_pair \<Rightarrow> bool" where
  "right_stuck ra sid s \<longleftrightarrow> \<not> pu_reader (pp_left s) \<and> pu_resp (pp_right s) = None \<and> pu_state (pp_right s) \<noteq> PunchStateVerified \<and>
     pg_SessionID (pu_config (pp_right s)) = sid \<and>
     (\<forall>src d. (ra, src, d) \<in> set (pp_net s) \<longrightarrow> \<not> acks sid d)"

lemma set_drop_nth: "set (drop_nth i xs) \<subseteq> set xs"
  by (auto simp: drop_nth_def dest: in_set_takeD in_set_dropD)

lemma syn_not_acks: "\<not> acks sid (buildPunchPacket s punchFlagSYN n)"
  by (auto simp: acks_def ParsePunchPacket_def)

lemma dead_reader_sends:
  assumes "\<not> pu_reader e" and "(d, dst) \<in> set (snd (punch_step ev e))"
  shows "\<not> acks sid d"
  using assms syn_not_acks [of sid] by (cases ev) (auto split: option.splits if_splits)

lemma dead_reader_stays: "\<not> pu_reader e \<Longrightarrow> \<not> pu_reader (fst (punch_step ev e))"
  by (cases ev) (auto split: option.splits)

text \<open>The right engine never writes to its own address: it answers who wrote to it, and its peer is elsewhere.\<close>

definition never_self :: "UDPAddr \<Rightarrow> punch_pair \<Rightarrow> bool" where
  "never_self ra s \<longleftrightarrow> pg_RemoteAddr (pu_config (pp_right s)) \<noteq> ra \<and> (\<forall>dst d. (dst, ra, d) \<in> set (pp_net s) \<longrightarrow> dst \<noteq> ra)"

lemma read_punch_replies: "(d, dst) \<in> set (snd (read_punch x from e)) \<Longrightarrow> dst = from"
  by (auto simp: read_punch_def Let_def split: if_splits)

lemma right_sends:
  assumes "(d, dst) \<in> set (snd (punch_step ev e))" and "pg_RemoteAddr (pu_config e) \<noteq> ra"
    and "\<forall>x from. ev = PuPacket x from \<longrightarrow> from \<noteq> ra"
  shows "dst \<noteq> ra"
  using assms by (cases ev) (auto dest: read_punch_replies split: option.splits if_splits)

lemma right_state:
  assumes "pu_resp e = None" and "pu_state e \<noteq> PunchStateVerified" and "\<forall>x from. ev = PuPacket x from \<longrightarrow> \<not> acks (pg_SessionID (pu_config e)) x"
  shows "pu_resp (fst (punch_step ev e)) = None \<and> pu_state (fst (punch_step ev e)) \<noteq> PunchStateVerified"
  using assms by (cases ev) (auto simp: read_punch_acks)


lemma set_outgoing: "(dst, src, d) \<in> set (outgoing a out) \<longleftrightarrow> src = a \<and> (d, dst) \<in> set out"
  by (auto simp: outgoing_def)

definition pair_dead :: "UDPAddr \<Rightarrow> byte list \<Rightarrow> punch_pair \<Rightarrow> bool" where
  "pair_dead ra sid s \<longleftrightarrow> right_stuck ra sid s \<and> never_self ra s"

lemma dead_left_step:
  assumes "pair_dead ra sid s" and "la \<noteq> ra"
  shows "pair_dead ra sid (left_step la ev s)"
  using assms dead_reader_sends [of "pp_left s" _ _ ev sid] dead_reader_stays [of "pp_left s" ev]
  by (auto simp: pair_dead_def right_stuck_def never_self_def left_step_def Let_def split_beta set_outgoing)

lemma dead_right_step:
  assumes "pair_dead ra sid s" and "\<forall>x from. ev = PuPacket x from \<longrightarrow> \<not> acks sid x \<and> from \<noteq> ra"
  shows "pair_dead ra sid (right_step ra ev s)"
proof -
  have o: "dst \<noteq> ra" if "(d, dst) \<in> set (snd (punch_step ev (pp_right s)))" for d dst
    using right_sends [OF that, of ra] assms by (auto simp: pair_dead_def never_self_def)
  have "pu_resp (fst (punch_step ev (pp_right s))) = None \<and> pu_state (fst (punch_step ev (pp_right s))) \<noteq> PunchStateVerified"
    by (rule right_state) (use assms in \<open>auto simp: pair_dead_def right_stuck_def\<close>)
  then show ?thesis using assms(1) o
    by (auto simp: pair_dead_def right_stuck_def never_self_def right_step_def Let_def split_beta set_outgoing)
qed

lemma dead_drop: "pair_dead ra sid s \<Longrightarrow> pair_dead ra sid (s\<lparr>pp_net := drop_nth i (pp_net s)\<rparr>)"
  using set_drop_nth [of i "pp_net s"] by (fastforce simp: pair_dead_def right_stuck_def never_self_def)

lemma dead_pair_step:
  assumes "pair_dead ra sid s" and "la \<noteq> ra"
  shows "pair_dead ra sid (pair_step la ra ev s)"
proof (cases ev)
  case (PpRight e)
  then show ?thesis using assms dead_right_step [of ra sid s e] by (cases e) auto
next
  case (PpToRight i)
  show ?thesis
  proof (cases "i < length (pp_net s)")
    case True
    obtain dst src d where n: "pp_net s ! i = (dst, src, d)" by (cases "pp_net s ! i")
    then have "(dst, src, d) \<in> set (pp_net s)" using nth_mem [OF True] by simp
    then have "dst = ra \<longrightarrow> \<not> acks sid d \<and> src \<noteq> ra"
      using assms(1) by (auto simp: pair_dead_def right_stuck_def never_self_def)
    then show ?thesis using PpToRight True n assms(1) dead_right_step [OF dead_drop [OF assms(1), of i], of "PuPacket d src"] by simp
  qed (use PpToRight assms in simp)
qed (use assms dead_left_step dead_drop in \<open>auto split: prod.split\<close>)

lemma dead_pair_run: "pair_dead ra sid s \<Longrightarrow> la \<noteq> ra \<Longrightarrow> pair_dead ra sid (pair_run la ra evs s)"
  unfolding pair_run_def by (induction evs arbitrary: s) (auto simp: dead_pair_step)

text \<open>
  C24: One side can be verified alone. The reader of an engine ends with the first acknowledgement it
  sees, and answers no SYN afterwards: if the other side has not been acknowledged by then and nothing on
  its way to it acknowledges it (the final ACK was lost, or taken by another reader of the socket), it is
  not verified in any continuation, however many of its SYNs and of the peer's arrive.
\<close>

theorem punch_half_open:
  assumes "right_stuck ra sid s" and "never_self ra s" and "la \<noteq> ra"
  shows "pu_state (pp_right (pair_run la ra evs s)) \<noteq> PunchStateVerified"
proof -
  have "pair_dead ra sid s" using assms by (simp add: pair_dead_def)
  then show ?thesis using dead_pair_run [OF _ assms(3)] by (auto simp: pair_dead_def right_stuck_def)
qed

definition ex_sid :: "byte list" where
  "ex_sid = replicate 16 7"

definition ex_la :: UDPAddr where
  "ex_la = \<lparr>ua_IP = IP4 1, ua_Port = 1\<rparr>"

definition ex_ra :: UDPAddr where
  "ex_ra = \<lparr>ua_IP = IP4 2, ua_Port = 2\<rparr>"

definition ex_engine :: "UDPAddr \<Rightarrow> PunchEngine" where
  "ex_engine remote = punch_begin 0 0 (NewPunchEngine \<lparr>pg_SessionID = ex_sid, pg_RemoteAddr = remote, pg_Timeout = 0, pg_SendInterval = 0\<rparr>)"

definition ex_pair :: punch_pair where
  "ex_pair = \<lparr>pp_left = ex_engine ex_ra, pp_right = ex_engine ex_la, pp_net = []\<rparr>"

text \<open>The left SYN is answered with a SYNACK, which verifies the left side; its ACK is lost.\<close>

definition ex_run :: "pair_event list" where
  "ex_run = [PpLeft PuTick, PpToRight 0, PpToLeft 0, PpLose 0, PpLeft (PuRecv 1)]"

lemma read_built [simp]:
  "length sid = 16 \<Longrightarrow> pg_SessionID (pu_config e) = sid \<Longrightarrow> read_punch (buildPunchPacket sid f n) from e =
     (if f = punchFlagSYN then (e, [(buildPunchPacket sid punchFlagSYNACK (pu_nonce e), from)])
      else if f = punchFlagACK \<or> f = punchFlagSYNACK then
        (e\<lparr>pu_resp := (case pu_resp e of None \<Rightarrow> Some from | Some a \<Rightarrow> Some a), pu_reader := False\<rparr>,
         if f = punchFlagSYNACK then [(buildPunchPacket sid punchFlagACK (pu_nonce e), from)] else [])
      else (e, []))"
  by (simp add: read_punch_def Let_def)

lemma ex_run_state:
  "pair_run ex_la ex_ra ex_run ex_pair =
     \<lparr>pp_left = (ex_engine ex_ra)\<lparr>pu_reader := False, pu_state := PunchStateVerified,
        pu_result := Some \<lparr>pr_Success = True, pr_RemoteAddr = ex_ra, pr_RTT = 1\<rparr>\<rparr>,
      pp_right = ex_engine ex_la, pp_net = []\<rparr>"
  by (simp add: pair_run_def ex_run_def ex_pair_def left_step_def right_step_def outgoing_def drop_nth_def ex_engine_def
      punch_begin_def NewPunchEngine_def Let_def ex_sid_def time_sub_def)

theorem punch_half_open_witness:
  "pu_state (pp_left (pair_run ex_la ex_ra ex_run ex_pair)) = PunchStateVerified \<and>
   (\<forall>evs. pu_state (pp_right (pair_run ex_la ex_ra evs (pair_run ex_la ex_ra ex_run ex_pair))) \<noteq> PunchStateVerified)"
proof -
  let ?s = "pair_run ex_la ex_ra ex_run ex_pair"
  have "right_stuck ex_ra ex_sid ?s"
    by (simp add: ex_run_state right_stuck_def ex_engine_def punch_begin_def NewPunchEngine_def Let_def)
  moreover have ne: "ex_la \<noteq> ex_ra" by (simp add: ex_la_def ex_ra_def)
  moreover have "never_self ex_ra ?s"
    using ne by (simp add: ex_run_state never_self_def ex_engine_def punch_begin_def NewPunchEngine_def Let_def)
  ultimately have "\<forall>evs. pu_state (pp_right (pair_run ex_la ex_ra evs ?s)) \<noteq> PunchStateVerified"
    using punch_half_open by blast
  then show ?thesis by (simp add: ex_run_state)
qed

end
