(* ===== verification/Net_Tun.thy ===== *)
theory Net_Tun
  imports Go_Bytes
begin

text \<open>
  The userspace TUN device of the desktop (\<open>desktop/internal/p2p/net_tun.go\<close>): one channel of 256 packets
  between the application and WireGuard. A read that finds the channel empty and open waits: its result is
  then \<open>TunBlocks\<close>.
\<close>

abbreviation tun_capacity :: nat where "tun_capacity \<equiv> 256"

record netTun =
  tn_incoming :: "byte list list"
  tn_mtu :: int
  tn_closed :: bool

definition newNetTun :: "int \<Rightarrow> netTun" where
  "newNetTun mtu = \<lparr>tn_incoming = [], tn_mtu = (if mtu = 0 then 1420 else mtu), tn_closed = False\<rparr>"

datatype 'a tun_result = TunOk 'a | TunClosed | TunFull | TunBlocks

text \<open>A receive from the channel, which a close leaves readable until it is empty.\<close>

definition tun_recv :: "netTun \<Rightarrow> byte list tun_result \<times> netTun" where
  "tun_recv t =
     (case tn_incoming t of
        d # ds \<Rightarrow> (TunOk d, t\<lparr>tn_incoming := ds\<rparr>)
      | [] \<Rightarrow> (if tn_closed t then TunClosed else TunBlocks, t))"

text \<open>A send with a default branch: it fails when the channel is full.\<close>

definition tun_send :: "byte list \<Rightarrow> netTun \<Rightarrow> bool \<times> netTun" where
  "tun_send d t = (if length (tn_incoming t) < tun_capacity then (True, t\<lparr>tn_incoming := tn_incoming t @ [d]\<rparr>) else (False, t))"

text \<open>\<open>Read\<close> copies into the buffer of WireGuard, \<open>ReadPacket\<close> into the caller's: both cut to its length.\<close>

definition tun_Read :: "nat \<Rightarrow> netTun \<Rightarrow> byte list tun_result \<times> netTun" where
  "tun_Read room t = (case tun_recv t of (TunOk d, t) \<Rightarrow> (TunOk (take room d), t) | (r, t) \<Rightarrow> (r, t))"

definition ReadPacket :: "nat \<Rightarrow> netTun \<Rightarrow> byte list tun_result \<times> netTun" where
  "ReadPacket room t = tun_Read room t"

definition ReadToApp :: "netTun \<Rightarrow> byte list tun_result \<times> netTun" where
  "ReadToApp t = tun_recv t"

definition tun_write_all :: "byte list list \<Rightarrow> netTun \<Rightarrow> nat \<times> netTun" where
  "tun_write_all ds t = fold (\<lambda>d (n, t). case tun_send d t of (ok, t) \<Rightarrow> (if ok then n + 1 else n, t)) ds (0, t)"

definition tun_Write :: "byte list list \<Rightarrow> nat \<Rightarrow> netTun \<Rightarrow> nat tun_result \<times> netTun" where
  "tun_Write bufs offset t =
     (if tn_closed t then (TunClosed, t)
      else (case tun_write_all (map (drop offset) bufs) t of (n, t) \<Rightarrow> (TunOk n, t)))"

definition WritePacket :: "byte list \<Rightarrow> netTun \<Rightarrow> nat tun_result \<times> netTun" where
  "WritePacket buf t =
     (if tn_closed t then (TunClosed, t)
      else (case tun_send buf t of (ok, t) \<Rightarrow> (if ok then TunOk (length buf) else TunFull, t)))"

definition WriteFromApp :: "byte list \<Rightarrow> netTun \<Rightarrow> unit tun_result \<times> netTun" where
  "WriteFromApp data t =
     (if tn_closed t then (TunClosed, t)
      else (case tun_send data t of (ok, t) \<Rightarrow> (if ok then TunOk () else TunFull, t)))"

definition tun_Close :: "netTun \<Rightarrow> netTun" where
  "tun_Close t = t\<lparr>tn_closed := True\<rparr>"

section \<open>What is read is what was written\<close>

datatype tun_event =
    TeAppWrite "byte list" | TeAppRead | TeWgWrite "byte list list" nat | TeWgRead nat | TeWritePacket "byte list" | TeReadPacket nat | TeClose

text \<open>The device after an event, with the packets it accepted and the packet it gave out, before it is cut.\<close>

definition given :: "netTun \<Rightarrow> byte list list" where
  "given t = (case tn_incoming t of [] \<Rightarrow> [] | d # _ \<Rightarrow> [d])"

definition accepted :: "byte list list \<Rightarrow> netTun \<Rightarrow> byte list list" where
  "accepted ds t = (if tn_closed t then [] else take (tun_capacity - length (tn_incoming t)) ds)"

fun tun_step :: "tun_event \<Rightarrow> netTun \<Rightarrow> netTun" where
  "tun_step (TeAppWrite d) t = snd (WriteFromApp d t)"
| "tun_step TeAppRead t = snd (ReadToApp t)"
| "tun_step (TeWgWrite bufs offset) t = snd (tun_Write bufs offset t)"
| "tun_step (TeWgRead room) t = snd (tun_Read room t)"
| "tun_step (TeWritePacket d) t = snd (WritePacket d t)"
| "tun_step (TeReadPacket room) t = snd (ReadPacket room t)"
| "tun_step TeClose t = tun_Close t"

fun puts :: "tun_event \<Rightarrow> netTun \<Rightarrow> byte list list" where
  "puts (TeAppWrite d) t = accepted [d] t"
| "puts (TeWgWrite bufs offset) t = accepted (map (drop offset) bufs) t"
| "puts (TeWritePacket d) t = accepted [d] t"
| "puts _ t = []"

fun gets :: "tun_event \<Rightarrow> netTun \<Rightarrow> byte list list" where
  "gets TeAppRead t = given t"
| "gets (TeWgRead room) t = given t"
| "gets (TeReadPacket room) t = given t"
| "gets _ t = []"

text \<open>A run: the device, all packets accepted and all packets given out.\<close>

fun tun_run :: "tun_event list \<Rightarrow> netTun \<Rightarrow> netTun \<times> byte list list \<times> byte list list" where
  "tun_run [] t = (t, [], [])"
| "tun_run (ev # evs) t =
     (case tun_run evs (tun_step ev t) of (t', ps, gs) \<Rightarrow> (t', puts ev t @ ps, gets ev t @ gs))"

lemma write_all_fold:
  "snd (fold (\<lambda>d (n, t). case tun_send d t of (ok, t) \<Rightarrow> (if ok then n + 1 else n, t)) ds (k, t)) =
     t\<lparr>tn_incoming := tn_incoming t @ take (tun_capacity - length (tn_incoming t)) ds\<rparr> \<and>
   fst (fold (\<lambda>d (n, t). case tun_send d t of (ok, t) \<Rightarrow> (if ok then n + 1 else n, t)) ds (k, t)) =
     k + min (length ds) (tun_capacity - length (tn_incoming t))"
proof (induction ds arbitrary: k t)
  case (Cons d ds)
  show ?case
  proof (cases "length (tn_incoming t) < tun_capacity")
    case True
    then have "tun_capacity - length (tn_incoming t) = Suc (tun_capacity - Suc (length (tn_incoming t)))" by simp
    then show ?thesis using True Cons by (simp add: tun_send_def)
  qed (use Cons in \<open>simp add: tun_send_def\<close>)
qed simp

lemma tun_step_queue: "gets ev t @ tn_incoming (tun_step ev t) = tn_incoming t @ puts ev t"
proof (cases ev)
  case (TeWgWrite bufs offset)
  then show ?thesis using write_all_fold [of "map (drop offset) bufs" 0 t]
    by (auto simp: tun_Write_def tun_write_all_def accepted_def split_beta)
qed (auto simp: WriteFromApp_def ReadToApp_def tun_Read_def WritePacket_def ReadPacket_def tun_Close_def tun_recv_def tun_send_def
    accepted_def given_def split: list.split)

text \<open>
  The device is one queue. Over any sequence of calls, the packets given out are, in order, the
  packets accepted, whoever wrote and whoever read them; the rest waits in the channel, which never
  holds more than 256. So a packet that the application sends may be given back to the application,
  and one that WireGuard decrypted may be given to WireGuard to encrypt.
\<close>

theorem tun_fifo:
  "(case tun_run evs (newNetTun mtu) of (t, ps, gs) \<Rightarrow> ps = gs @ tn_incoming t \<and> length (tn_incoming t) \<le> tun_capacity)"
proof -
  have q: "case tun_run evs t of (t', ps, gs) \<Rightarrow> tn_incoming t @ ps = gs @ tn_incoming t'" for evs and t :: netTun
  proof (induction evs arbitrary: t)
    case (Cons ev evs)
    obtain t' ps gs where r: "tun_run evs (tun_step ev t) = (t', ps, gs)" by (cases "tun_run evs (tun_step ev t)")
    have "tn_incoming t @ puts ev t @ ps = gets ev t @ tn_incoming (tun_step ev t) @ ps"
      using arg_cong [OF tun_step_queue [of ev t], of "\<lambda>x. x @ ps"] by simp
    also have "\<dots> = gets ev t @ gs @ tn_incoming t'" using Cons [of "tun_step ev t"] r by simp
    finally show ?case by (simp add: r)
  qed simp
  have "length (tn_incoming (tun_step ev t)) \<le> tun_capacity" if "length (tn_incoming t) \<le> tun_capacity" for ev and t :: netTun
  proof -
    have "length (tn_incoming (tun_step ev t)) \<le> length (tn_incoming t) + length (puts ev t)"
      using arg_cong [OF tun_step_queue [of ev t], of length] by simp
    moreover have "length (puts ev t) \<le> tun_capacity - length (tn_incoming t)" by (cases ev) (auto simp: accepted_def)
    ultimately show ?thesis using that by linarith
  qed
  then have l: "length (tn_incoming t) \<le> tun_capacity \<Longrightarrow> length (tn_incoming (fst (tun_run evs t))) \<le> tun_capacity" for evs and t :: netTun
  proof (induction evs arbitrary: t)
    case (Cons ev evs)
    then have "length (tn_incoming (fst (tun_run evs (tun_step ev t)))) \<le> tun_capacity" by simp
    then show ?case by (simp add: split_beta)
  qed simp
  show ?thesis using q [where evs = evs and t = "newNetTun mtu"] l [where evs = evs and t = "newNetTun mtu"]
    by (auto simp: newNetTun_def split: prod.splits)
qed

text \<open>The application reads its own packet.\<close>

lemma tun_echo: "fst (ReadToApp (snd (WriteFromApp d (newNetTun mtu)))) = TunOk d"
  by (simp add: ReadToApp_def WriteFromApp_def newNetTun_def tun_send_def tun_recv_def)

end
