(* ===== verification/Relay_Select.thy ===== *)
theory Relay_Select
  imports Messages
begin

text \<open>
  The choice among several relays (\<open>desktop/internal/relay\<close>): a client of one relay (\<open>client.go\<close>) and the
  manager that keeps the active one (\<open>manager.go\<close>). A client is an object that the table and the active
  pointer share, so the clients live in a heap. What the network answers and how long it takes are
  arguments, as is the order in which \<open>sync.Map\<close> ranges.
\<close>

section \<open>One relay\<close>

record RelayClientConfig =
  rg_ServerAddr :: string
  rg_ClientID :: string
  rg_AuthToken :: string
  rg_Region :: string

record RelayClient =
  rl_config :: RelayClientConfig
  rl_connected :: bool
  rl_latency :: duration
  rl_has_conn :: bool
  rl_closed_conns :: nat

definition NewRelayClient :: "RelayClientConfig \<Rightarrow> RelayClient" where
  "NewRelayClient cfg = \<lparr>rl_config = cfg, rl_connected = False, rl_latency = 0, rl_has_conn = False, rl_closed_conns = 0\<rparr>"

datatype relay_error =
    EDial | ECreateAuth proto_error | ESendAuth | EReadAuth | EAuthType "8 word" | EDecodeAuth proto_error | EAuthRejected string | EAuthPanic

text \<open>The handshake: whether dialling and writing succeed, and what is read.\<close>

definition relay_handshake ::
    "json_marshal \<Rightarrow> (payload_kind \<Rightarrow> byte list \<Rightarrow> payload option) \<Rightarrow> bool \<Rightarrow> bool \<Rightarrow> Message option \<Rightarrow> RelayClientConfig \<Rightarrow> relay_error option" where
  "relay_handshake marshal unmarshal dial write resp cfg =
     (if \<not> dial then Some EDial
      else (case NewAuthMessageWithToken marshal (rg_ClientID cfg) (rg_AuthToken cfg) of
              Inl e \<Rightarrow> Some (ECreateAuth e)
            | Inr _ \<Rightarrow>
                if \<not> write then Some ESendAuth
                else (case resp of
                        None \<Rightarrow> Some EReadAuth
                      | Some m \<Rightarrow>
                          if Type m \<noteq> TypeAuthResp then Some (EAuthType (Type m))
                          else (case DecodePayload unmarshal m of
                                  Inl e \<Rightarrow> Some (EDecodeAuth e)
                                | Inr (Some (PAuthResp r)) \<Rightarrow> if ar_Success r then None else Some (EAuthRejected (ar_Error r))
                                | Inr _ \<Rightarrow> Some EAuthPanic))))"

text \<open>\<open>Connect\<close>, with the time it takes. A connection that was dialled and is not kept is closed.\<close>

definition relay_Connect :: "relay_error option \<Rightarrow> duration \<Rightarrow> RelayClient \<Rightarrow> relay_error option \<times> RelayClient" where
  "relay_Connect r elapsed c =
     (case r of
        None \<Rightarrow> (None, c\<lparr>rl_has_conn := True, rl_connected := True, rl_latency := elapsed\<rparr>)
      | Some EDial \<Rightarrow> (Some EDial, c)
      | Some e \<Rightarrow> (Some e, c\<lparr>rl_closed_conns := rl_closed_conns c + 1\<rparr>))"

definition relay_Close :: "RelayClient \<Rightarrow> RelayClient" where
  "relay_Close c = c\<lparr>rl_connected := False, rl_closed_conns := rl_closed_conns c + (if rl_has_conn c then 1 else 0)\<rparr>"

definition IsConnected :: "RelayClient \<Rightarrow> bool" where
  "IsConnected c = rl_connected c"

definition relay_addr :: "RelayClient \<Rightarrow> string" where
  "relay_addr c = rg_ServerAddr (rl_config c)"

text \<open>
  C27: The answer to the handshake has the type it is taken for. Since unmarshalling fills the struct that the
  message type names, the assertion on the payload never panics; and the handshake succeeds exactly when
  dialling, building and writing the authentication do, and the answer read is an authentication response
  that decodes and reports success.
\<close>

theorem relay_handshake_typed:
  assumes "json_typed unmarshal"
  shows "relay_handshake marshal unmarshal dial write resp cfg \<noteq> Some EAuthPanic \<and>
    (relay_handshake marshal unmarshal dial write resp cfg = None \<longleftrightarrow>
      dial \<and> write \<and> is_ok (NewAuthMessageWithToken marshal (rg_ClientID cfg) (rg_AuthToken cfg)) \<and>
      (\<exists>m r. resp = Some m \<and> Type m = TypeAuthResp \<and> DecodePayload unmarshal m = Inr (Some (PAuthResp r)) \<and> ar_Success r))"
proof -
  have k: "\<exists>r. x = Some (PAuthResp r)" if t: "Type m = TypeAuthResp" and d: "DecodePayload unmarshal m = Inr x" for m x
  proof (cases x)
    case None
    then show ?thesis using d t by (simp add: DecodePayload_def kind_of_type_def split: option.splits)
  next
    case (Some v)
    then have "type_of_kind (kind_of v) = type_of_kind KAuthResp" using DecodePayload_kind [OF assms, of m v] d t by simp
    then have "kind_of v = KAuthResp" by (simp only: type_of_kind_inject)
    then show ?thesis using Some by (cases v) auto
  qed
  show ?thesis
  proof (cases resp)
    case None
    then show ?thesis by (auto simp: relay_handshake_def split: sum.split)
  next
    case (Some m)
    show ?thesis
    proof (cases "Type m = TypeAuthResp")
      case False
      then show ?thesis using Some by (auto simp: relay_handshake_def split: sum.split)
    next
      case t: True
      show ?thesis
      proof (cases "DecodePayload unmarshal m")
        case (Inl e)
        then show ?thesis using Some t by (auto simp: relay_handshake_def split: sum.split)
      next
        case (Inr x)
        then obtain r where "x = Some (PAuthResp r)" using k t by blast
        then show ?thesis using Some t Inr by (auto simp: relay_handshake_def is_ok_def split: sum.split)
      qed
    qed
  qed
qed

theorem relay_handshake_typed_witness:
  "relay_handshake (\<lambda>_. Some []) (\<lambda>k _. if k = KAuthResp then Some (PAuthResp \<lparr>ar_Success = True, ar_Error = []\<rparr>) else None) True True
     (Some \<lparr>Type = TypeAuthResp, Payload = []\<rparr>) \<lparr>rg_ServerAddr = ''x'', rg_ClientID = [], rg_AuthToken = [], rg_Region = []\<rparr> = None"
proof -
  let ?u = "\<lambda>k (bs :: byte list). if k = KAuthResp then Some (PAuthResp \<lparr>ar_Success = True, ar_Error = []\<rparr>) else None"
  have t: "json_typed ?u" by (simp add: json_typed_def)
  show ?thesis unfolding relay_handshake_typed [OF t, THEN conjunct2]
    by (simp add: NewAuthMessageWithToken_def marshalMessage_def DecodePayload_def kind_of_type_def)
qed

section \<open>The manager\<close>

record RelayManagerConfig =
  rmc_Relays :: "RelayClientConfig list"
  rmc_ProbeInterval :: duration
  rmc_FailoverTime :: duration
  rmc_GeoSelect :: bool

definition DefaultRelayManagerConfig :: RelayManagerConfig where
  "DefaultRelayManagerConfig = \<lparr>rmc_Relays = [], rmc_ProbeInterval = 5 * second, rmc_FailoverTime = 2 * second, rmc_GeoSelect = True\<rparr>"

record RelayManager =
  rm_config :: RelayManagerConfig
  rm_heap :: "(nat, RelayClient) fmap"
  rm_next :: nat
  rm_clients :: "(string, nat) fmap"
  rm_active :: "nat option"

definition NewRelayManager :: "RelayManagerConfig \<Rightarrow> RelayManager" where
  "NewRelayManager cfg = \<lparr>rm_config = cfg, rm_heap = fmempty, rm_next = 0, rm_clients = fmempty, rm_active = None\<rparr>"

definition client_at :: "RelayManager \<Rightarrow> nat \<Rightarrow> RelayClient" where
  "client_at m a = the (fmlookup (rm_heap m) a)"

definition set_client :: "nat \<Rightarrow> RelayClient \<Rightarrow> RelayManager \<Rightarrow> RelayManager" where
  "set_client a c m = m\<lparr>rm_heap := fmupd a c (rm_heap m)\<rparr>"

definition start_client :: "RelayClientConfig \<Rightarrow> RelayManager \<Rightarrow> RelayManager" where
  "start_client cfg m =
     m\<lparr>rm_heap := fmupd (rm_next m) (NewRelayClient cfg) (rm_heap m),
       rm_clients := fmupd (rg_ServerAddr cfg) (rm_next m) (rm_clients m), rm_next := rm_next m + 1\<rparr>"

definition manager_Start :: "RelayManager \<Rightarrow> RelayManager" where
  "manager_Start m = fold start_client (rmc_Relays (rm_config m)) m"

text \<open>The goroutine that connects the client at \<open>a\<close> comes back.\<close>

definition connect_done :: "relay_error option \<Rightarrow> duration \<Rightarrow> nat \<Rightarrow> RelayManager \<Rightarrow> RelayManager" where
  "connect_done r elapsed a m =
     (case fmlookup (rm_heap m) a of None \<Rightarrow> m | Some c \<Rightarrow> set_client a (snd (relay_Connect r elapsed c)) m)"

definition AllRelays :: "string list \<Rightarrow> RelayManager \<Rightarrow> nat list" where
  "AllRelays ks m = range_vals (rm_clients m) ks"

definition manager_Stop :: "string list \<Rightarrow> RelayManager \<Rightarrow> RelayManager" where
  "manager_Stop ks m = fold (\<lambda>a m. set_client a (relay_Close (client_at m a)) m) (AllRelays ks m) m"

datatype switch_error = RelayNotFound string | RelayNotConnected string

definition relay_SwitchTo :: "string \<Rightarrow> RelayManager \<Rightarrow> switch_error option \<times> RelayManager" where
  "relay_SwitchTo serverAddr m =
     (case fmlookup (rm_clients m) serverAddr of
        None \<Rightarrow> (Some (RelayNotFound serverAddr), m)
      | Some a \<Rightarrow>
          if \<not> IsConnected (client_at m a) then (Some (RelayNotConnected serverAddr), m)
          else (None, m\<lparr>rm_active := Some a\<rparr>))"

definition faster :: "RelayManager \<Rightarrow> nat \<Rightarrow> nat \<Rightarrow> bool" where
  "faster m a b \<longleftrightarrow> rl_latency (client_at m a) < rl_latency (client_at m b)"

definition SelectBest :: "string list \<Rightarrow> RelayManager \<Rightarrow> nat option" where
  "SelectBest ks m =
     (let candidates = filter (\<lambda>a. IsConnected (client_at m a)) (range_vals (rm_clients m) ks) in
      if candidates = [] then None else Some (sort_slice (faster m) candidates ! 0))"

definition initial_selection :: "string list \<Rightarrow> RelayManager \<Rightarrow> RelayManager" where
  "initial_selection ks m = (case SelectBest ks m of None \<Rightarrow> m | Some best \<Rightarrow> m\<lparr>rm_active := Some best\<rparr>)"

definition evaluateRelays :: "string list \<Rightarrow> RelayManager \<Rightarrow> RelayManager" where
  "evaluateRelays ks m =
     (case SelectBest ks m of
        None \<Rightarrow> m
      | Some best \<Rightarrow>
          (case rm_active m of
             None \<Rightarrow> m\<lparr>rm_active := Some best\<rparr>
           | Some active \<Rightarrow>
               if relay_addr (client_at m best) \<noteq> relay_addr (client_at m active) then m\<lparr>rm_active := Some best\<rparr> else m))"

section \<open>The best relay\<close>

lemma weak_faster: "weak_order (faster m)"
  unfolding faster_def by (rule weak_order_key)

lemma SelectBest_Some:
  assumes "SelectBest ks m = Some a"
  shows "a \<in> set (AllRelays ks m) \<and> IsConnected (client_at m a) \<and>
    (\<forall>b \<in> set (AllRelays ks m). IsConnected (client_at m b) \<longrightarrow> rl_latency (client_at m a) \<le> rl_latency (client_at m b))"
proof -
  let ?c = "filter (\<lambda>a. IsConnected (client_at m a)) (range_vals (rm_clients m) ks)"
  have ne: "?c \<noteq> []" and a: "a = sort_slice (faster m) ?c ! 0"
    using assms by (auto simp: SelectBest_def Let_def split: if_splits)
  obtain y ys where s: "sort_slice (faster m) ?c = y # ys" using ne by (metis neq_Nil_conv sort_slice_Nil)
  then have "y \<in> set ?c \<and> (\<forall>x \<in> set ?c. \<not> faster m x y)" by (rule go_sort.srt_hd_least [OF weak_faster])
  then show ?thesis using a s by (auto simp: AllRelays_def faster_def not_less)
qed

lemma SelectBest_None: "SelectBest ks m = None \<longleftrightarrow> (\<forall>a \<in> set (AllRelays ks m). \<not> IsConnected (client_at m a))"
  by (auto simp: SelectBest_def Let_def AllRelays_def filter_empty_conv)

section \<open>Runs\<close>

datatype relay_event =
    ReConnect "relay_error option" duration nat
  | ReSwitch string
  | ReInitial "string list"
  | ReEvaluate "string list"
  | ReStop "string list"

fun relay_step :: "relay_event \<Rightarrow> RelayManager \<Rightarrow> RelayManager" where
  "relay_step (ReConnect r d a) m = connect_done r d a m"
| "relay_step (ReSwitch addr) m = snd (relay_SwitchTo addr m)"
| "relay_step (ReInitial ks) m = initial_selection ks m"
| "relay_step (ReEvaluate ks) m = evaluateRelays ks m"
| "relay_step (ReStop ks) m = manager_Stop ks m"

definition relay_run :: "relay_event list \<Rightarrow> RelayManager \<Rightarrow> RelayManager" where
  "relay_run evs m = fold relay_step evs (manager_Start m)"

text \<open>Every entry of the table leads to a client with the address of the entry, and the active one is in the heap.\<close>

definition relay_inv :: "RelayManager \<Rightarrow> bool" where
  "relay_inv m \<longleftrightarrow>
     (\<forall>k a. fmlookup (rm_clients m) k = Some a \<longrightarrow> (\<exists>c. fmlookup (rm_heap m) a = Some c \<and> relay_addr c = k)) \<and>
     (\<forall>a. rm_active m = Some a \<longrightarrow> (\<exists>k. fmlookup (rm_clients m) k = Some a)) \<and>
     (\<forall>a c. fmlookup (rm_heap m) a = Some c \<longrightarrow> a < rm_next m)"


lemma relay_addr_connect [simp]: "relay_addr (snd (relay_Connect r d c)) = relay_addr c" "relay_addr (relay_Close c) = relay_addr c"
  by (simp_all add: relay_Connect_def relay_Close_def relay_addr_def split: option.split relay_error.split)

lemma relay_inv_set:
  assumes "relay_inv m" and "fmlookup (rm_heap m) a = Some c" and "relay_addr d = relay_addr c"
  shows "relay_inv (set_client a d m)"
proof -
  have "\<exists>c. fmlookup (fmupd a d (rm_heap m)) b = Some c \<and> relay_addr c = k" if "fmlookup (rm_clients m) k = Some b" for k b
  proof -
    obtain x where "fmlookup (rm_heap m) b = Some x" "relay_addr x = k" using assms(1) \<open>fmlookup (rm_clients m) k = Some b\<close>
      unfolding relay_inv_def by blast
    then show ?thesis using assms(2,3) by (cases "b = a") auto
  qed
  moreover have "b < rm_next m" if "fmlookup (fmupd a d (rm_heap m)) b = Some x" for b x
    using assms that by (cases "b = a") (auto simp: relay_inv_def)
  ultimately show ?thesis using assms(1) by (simp add: relay_inv_def set_client_def)
qed

lemma relay_inv_active: "relay_inv m \<Longrightarrow> fmlookup (rm_clients m) k = Some a \<Longrightarrow> relay_inv (m\<lparr>rm_active := Some a\<rparr>)"
  by (auto simp: relay_inv_def)

lemma AllRelays_mem: "a \<in> set (AllRelays ks m) \<longleftrightarrow> (\<exists>k \<in> set ks. fmlookup (rm_clients m) k = Some a)"
  by (simp add: AllRelays_def set_range_vals)

lemma relay_inv_close:
  "relay_inv m \<Longrightarrow> \<forall>a \<in> set as. fmlookup (rm_heap m) a \<noteq> None \<Longrightarrow>
     relay_inv (fold (\<lambda>a m. set_client a (relay_Close (client_at m a)) m) as m)"
proof (induction as arbitrary: m)
  case (Cons a as)
  then obtain c where c: "fmlookup (rm_heap m) a = Some c" by auto
  then have "relay_inv (set_client a (relay_Close (client_at m a)) m)"
    by (intro relay_inv_set [OF Cons.prems(1) c]) (simp add: client_at_def)
  moreover have "\<forall>b \<in> set as. fmlookup (rm_heap (set_client a (relay_Close (client_at m a)) m)) b \<noteq> None"
    using Cons.prems(2) by (simp add: set_client_def)
  ultimately show ?case using Cons.IH by simp
qed simp

lemma relay_inv_step:
  assumes "relay_inv m"
  shows "relay_inv (relay_step ev m)"
proof (cases ev)
  case (ReConnect r d a)
  then show ?thesis using assms relay_inv_set [OF assms] by (auto simp: connect_done_def split: option.split)
next
  case (ReSwitch addr)
  then show ?thesis using assms relay_inv_active [OF assms] by (auto simp: relay_SwitchTo_def split: option.split)
next
  case (ReInitial ks)
  then show ?thesis using assms SelectBest_Some [of ks m] relay_inv_active [OF assms]
    by (auto simp: initial_selection_def AllRelays_mem split: option.split)
next
  case (ReEvaluate ks)
  then show ?thesis using assms SelectBest_Some [of ks m] relay_inv_active [OF assms]
    by (auto simp: evaluateRelays_def AllRelays_mem split: option.split)
next
  case (ReStop ks)
  have "\<forall>a \<in> set (AllRelays ks m). fmlookup (rm_heap m) a \<noteq> None"
    using assms by (force simp: AllRelays_mem relay_inv_def)
  then show ?thesis using ReStop relay_inv_close [OF assms] by (simp add: manager_Stop_def)
qed

lemma relay_sel_inv_start: "relay_inv (manager_Start (NewRelayManager cfg))"
proof -
  have "relay_inv m \<Longrightarrow> rm_active m = None \<Longrightarrow> relay_inv (fold start_client cs m) \<and> rm_active (fold start_client cs m) = None" for cs m
  proof (induction cs arbitrary: m)
    case (Cons c cs)
    have "rm_next m \<notin> {a. fmlookup (rm_heap m) a \<noteq> None}" using Cons.prems(1) by (auto simp: relay_inv_def)
    then have "relay_inv (start_client c m)" using Cons.prems
      by (auto simp: relay_inv_def start_client_def relay_addr_def NewRelayClient_def less_Suc_eq)
    moreover have "rm_active (start_client c m) = None" using Cons.prems(2) by (simp add: start_client_def)
    ultimately show ?case using Cons.IH by simp
  qed simp
  then show ?thesis by (simp add: manager_Start_def NewRelayManager_def relay_inv_def)
qed

lemma relay_inv_run: "relay_inv (relay_run evs (NewRelayManager cfg))"
proof -
  have "relay_inv m \<Longrightarrow> relay_inv (fold relay_step evs m)" for m
    by (induction evs arbitrary: m) (simp_all add: relay_inv_step)
  then show ?thesis using relay_sel_inv_start by (simp add: relay_run_def)
qed

text \<open>
  A probe makes the fastest relay active. After any run, an evaluation leaves as the active relay a
  connected one of the least latency among the connected ones; but when none is connected it leaves the
  active relay as it was, although that is then disconnected.
\<close>

theorem relay_evaluate:
  assumes "range_order (rm_clients (relay_run evs (NewRelayManager cfg))) ks"
  shows "let m = relay_run evs (NewRelayManager cfg); m' = evaluateRelays ks m in
    if \<exists>k a. fmlookup (rm_clients m) k = Some a \<and> IsConnected (client_at m a)
    then \<exists>b. rm_active m' = Some b \<and> IsConnected (client_at m' b) \<and>
      (\<forall>k a. fmlookup (rm_clients m) k = Some a \<longrightarrow> IsConnected (client_at m a) \<longrightarrow> rl_latency (client_at m b) \<le> rl_latency (client_at m a))
    else m' = m"
proof -
  define m where "m = relay_run evs (NewRelayManager cfg)"
  have i: "relay_inv m" by (simp add: m_def relay_inv_run)
  have all: "a \<in> set (AllRelays ks m) \<longleftrightarrow> (\<exists>k. fmlookup (rm_clients m) k = Some a)" for a
    using range_order_set [OF assms] by (auto simp: AllRelays_mem m_def)
  show ?thesis
  proof (cases "SelectBest ks m")
    case None
    then have "\<not> (\<exists>k a. fmlookup (rm_clients m) k = Some a \<and> IsConnected (client_at m a))" using all SelectBest_None by blast
    moreover have "evaluateRelays ks m = m" using None by (simp add: evaluateRelays_def)
    ultimately show ?thesis unfolding Let_def m_def [symmetric] by (simp only: if_False)
  next
    case (Some best)
    note b = SelectBest_Some [OF Some]
    have "rm_active (evaluateRelays ks m) = Some best"
    proof (cases "rm_active m")
      case (Some active)
      obtain k where k: "fmlookup (rm_clients m) k = Some active" using i Some unfolding relay_inv_def by blast
      obtain k' where k': "fmlookup (rm_clients m) k' = Some best" using b all by blast
      have "relay_addr (client_at m active) = k" "relay_addr (client_at m best) = k'"
        using i k k' unfolding relay_inv_def client_at_def by (metis option.sel)+
      then have "relay_addr (client_at m best) = relay_addr (client_at m active) \<Longrightarrow> best = active" using k k' by simp
      then show ?thesis using \<open>SelectBest ks m = Some best\<close> Some by (auto simp: evaluateRelays_def)
    qed (simp add: evaluateRelays_def Some)
    moreover have "client_at (evaluateRelays ks m) = client_at m"
      by (rule ext) (simp add: evaluateRelays_def client_at_def split: option.split)
    moreover have "\<exists>k a. fmlookup (rm_clients m) k = Some a \<and> IsConnected (client_at m a)" using b all by blast
    ultimately show ?thesis using b all unfolding m_def [symmetric] Let_def by auto
  qed
qed

definition ex_relays :: RelayManagerConfig where
  "ex_relays = DefaultRelayManagerConfig\<lparr>rmc_Relays := [\<lparr>rg_ServerAddr = ''x'', rg_ClientID = [], rg_AuthToken = [], rg_Region = []\<rparr>,
     \<lparr>rg_ServerAddr = ''y'', rg_ClientID = [], rg_AuthToken = [], rg_Region = []\<rparr>]\<rparr>"

definition ex_relay_run :: "relay_event list" where
  "ex_relay_run = [ReConnect None 30 0, ReConnect None 20 1]"

lemmas ex_relay_defs = relay_run_def ex_relay_run_def ex_relays_def DefaultRelayManagerConfig_def NewRelayManager_def manager_Start_def
  start_client_def connect_done_def set_client_def relay_Connect_def NewRelayClient_def client_at_def IsConnected_def

theorem relay_evaluate_witness:
  "\<exists>b. rm_active (evaluateRelays [''x'', ''y''] (relay_run ex_relay_run (NewRelayManager ex_relays))) = Some b \<and>
     rl_latency (client_at (relay_run ex_relay_run (NewRelayManager ex_relays)) b) \<le> 20"
proof -
  define m where "m = relay_run ex_relay_run (NewRelayManager ex_relays)"
  have c: "rm_clients m = fmupd ''y'' 1 (fmupd ''x'' 0 fmempty)" and 1: "IsConnected (client_at m 1)" "rl_latency (client_at m 1) = 20"
    unfolding m_def by (simp_all add: ex_relay_defs)
  have r: "range_order (rm_clients m) [''x'', ''y'']" unfolding c by (auto simp: range_order_def)
  have "\<exists>k a. fmlookup (rm_clients m) k = Some a \<and> IsConnected (client_at m a)"
    using c 1 by (intro exI [of _ "''y''"] exI [of _ 1]) simp
  then have "\<exists>b. rm_active (evaluateRelays [''x'', ''y''] m) = Some b \<and> IsConnected (client_at (evaluateRelays [''x'', ''y''] m) b) \<and>
      (\<forall>k a. fmlookup (rm_clients m) k = Some a \<longrightarrow> IsConnected (client_at m a) \<longrightarrow> rl_latency (client_at m b) \<le> rl_latency (client_at m a))"
    using relay_evaluate [of ex_relay_run ex_relays "[''x'', ''y'']"] r unfolding Let_def m_def [symmetric] by simp
  then obtain b where b: "rm_active (evaluateRelays [''x'', ''y''] m) = Some b"
    "\<forall>k a. fmlookup (rm_clients m) k = Some a \<longrightarrow> IsConnected (client_at m a) \<longrightarrow> rl_latency (client_at m b) \<le> rl_latency (client_at m a)"
    by blast
  have "fmlookup (rm_clients m) ''y'' = Some 1" using c by simp
  then have "rl_latency (client_at m b) \<le> 20" using b(2) 1 by metis
  then show ?thesis using b(1) unfolding m_def by blast
qed

end
