(* ===== verification/Packet_Rules.thy ===== *)
theory Packet_Rules
  imports Go_Sort Net_Addr
begin

text \<open>
  The forwarding rules of the packet filter (\<open>server/internal/ebpf/forwarder.go\<close>): the map of rules with
  its slice sorted by priority, the matching of a packet, and the two operations that tell the kernel. A
  rule handed to \<open>AddRule\<close> is a fresh object, as \<open>cmd/ebpf-verify\<close> makes it, so that rules are values; the
  call-backs that \<open>ConfigureRuleMap\<close> registers are arguments which read the map and change a state of
  their own. A range over the rules visits them in the order given as argument.
\<close>

section \<open>State\<close>

abbreviation ActionForward :: string where "ActionForward \<equiv> ''forward''"
abbreviation ActionDrop :: string where "ActionDrop \<equiv> ''drop''"
abbreviation ActionPass :: string where "ActionPass \<equiv> ''pass''"

record ForwardingRule =
  fr_ID :: "32 word"
  fr_SrcAddr :: string
  fr_DstAddr :: string
  fr_SrcPort :: "16 word"
  fr_DstPort :: "16 word"
  fr_Protocol :: "8 word"
  fr_Action :: string
  fr_Target :: string
  fr_Priority :: int

record RuleMap =
  rp_rules :: "(32 word, ForwardingRule) fmap"
  rp_sorted :: "ForwardingRule list"
  rp_nextID :: "32 word"

datatype ebpf_error =
    RuleActionRequired
  | RuleNotFound "32 word"
  | SyncToKernel ebpf_error
  | UnknownAction string
  | RulePlanExceeds nat nat
  | SyncDevmap "32 word"
  | SyncRule "32 word"
  | RemoveStale "32 word"
  | KernelUnavailable string

definition NewRuleMap :: RuleMap where
  "NewRuleMap = \<lparr>rp_rules = fmempty, rp_sorted = [], rp_nextID = 0\<rparr>"

section \<open>Operations\<close>

abbreviation before_rule :: "ForwardingRule \<Rightarrow> ForwardingRule \<Rightarrow> bool" where
  "before_rule a b \<equiv> fr_Priority a < fr_Priority b"

definition pkt_rebuildSorted :: "32 word list \<Rightarrow> RuleMap \<Rightarrow> RuleMap" where
  "pkt_rebuildSorted ks rm = rm\<lparr>rp_sorted := exch_sort before_rule (range_vals (rp_rules rm) ks)\<rparr>"

definition delete_rule :: "32 word list \<Rightarrow> 32 word \<Rightarrow> RuleMap \<Rightarrow> RuleMap" where
  "delete_rule ks i rm = pkt_rebuildSorted ks (rm\<lparr>rp_rules := fmdrop i (rp_rules rm)\<rparr>)"

definition insert_rule :: "32 word list \<Rightarrow> ForwardingRule \<Rightarrow> RuleMap \<Rightarrow> ForwardingRule \<times> RuleMap" where
  "insert_rule ks rule rm =
     (let i = rp_nextID rm + 1; rule = rule\<lparr>fr_ID := i\<rparr> in
      (rule, pkt_rebuildSorted ks (rm\<lparr>rp_nextID := i, rp_rules := fmupd i rule (rp_rules rm)\<rparr>)))"

text \<open>The call-backs: nothing registered, or the functions called after an addition and a removal.\<close>

record 's callbacks =
  cb_add :: "RuleMap \<Rightarrow> ForwardingRule \<Rightarrow> 's \<Rightarrow> ebpf_error option \<times> 's"
  cb_remove :: "RuleMap \<Rightarrow> 32 word \<Rightarrow> 's \<Rightarrow> ebpf_error option \<times> 's"

definition pkt_AddRule ::
    "'s callbacks option \<Rightarrow> 32 word list \<Rightarrow> 32 word list \<Rightarrow> ForwardingRule \<Rightarrow> RuleMap \<times> 's
     \<Rightarrow> (ebpf_error + 32 word) \<times> RuleMap \<times> 's" where
  "pkt_AddRule cb ks ks' rule st =
     (case st of (rm, s) \<Rightarrow>
        if fr_Action rule = [] then (Inl RuleActionRequired, rm, s)
        else (case insert_rule ks rule rm of
          (rule, rm) \<Rightarrow>
            (case cb of
               None \<Rightarrow> (Inr (fr_ID rule), rm, s)
             | Some c \<Rightarrow>
                 (case cb_add c rm rule s of
                    (None, s) \<Rightarrow> (Inr (fr_ID rule), rm, s)
                  | (Some e, s) \<Rightarrow>
                      (let rm = delete_rule ks' (fr_ID rule) rm; (_, s) = cb_remove c rm (fr_ID rule) s in
                       (Inl (SyncToKernel e), rm, s))))))"

definition pkt_RemoveRule ::
    "'s callbacks option \<Rightarrow> 32 word list \<Rightarrow> 32 word \<Rightarrow> RuleMap \<times> 's \<Rightarrow> ebpf_error option \<times> RuleMap \<times> 's" where
  "pkt_RemoveRule cb ks i st =
     (case st of (rm, s) \<Rightarrow>
        (case fmlookup (rp_rules rm) i of
           None \<Rightarrow> (Some (RuleNotFound i), rm, s)
         | Some _ \<Rightarrow>
             (let rm = delete_rule ks i rm in
              (None, rm, case cb of None \<Rightarrow> s | Some c \<Rightarrow> snd (cb_remove c rm i s)))))"

definition pkt_GetRule :: "32 word \<Rightarrow> RuleMap \<Rightarrow> ForwardingRule option" where
  "pkt_GetRule i rm = fmlookup (rp_rules rm) i"

definition pkt_ListRules :: "RuleMap \<Rightarrow> ForwardingRule list" where
  "pkt_ListRules rm = rp_sorted rm"

definition pkt_RuleCount :: "RuleMap \<Rightarrow> nat" where
  "pkt_RuleCount rm = mlen (rp_rules rm)"

text \<open>The library's parsers of prefixes and addresses are arguments.\<close>

definition ipMatches :: "(string \<Rightarrow> ipnet option) \<Rightarrow> (string \<Rightarrow> netip) \<Rightarrow> string \<Rightarrow> string \<Rightarrow> bool" where
  "ipMatches ParseCIDR ParseIP ruleAddr packetIP =
     (if ruleAddr = packetIP then True
      else (case ParseCIDR ruleAddr of
              None \<Rightarrow> False
            | Some cidr \<Rightarrow>
                (let ip = ParseIP packetIP in if ip = NilIP then False else net_contains cidr ip)))"

record packet =
  pk_src :: string
  pk_dst :: string
  pk_sport :: "16 word"
  pk_dport :: "16 word"
  pk_proto :: "8 word"

definition matchesRule ::
    "(string \<Rightarrow> ipnet option) \<Rightarrow> (string \<Rightarrow> netip) \<Rightarrow> ForwardingRule \<Rightarrow> packet \<Rightarrow> bool" where
  "matchesRule ParseCIDR ParseIP rule p =
     (if fr_Protocol rule \<noteq> 0 \<and> fr_Protocol rule \<noteq> pk_proto p then False
      else if fr_SrcPort rule \<noteq> 0 \<and> fr_SrcPort rule \<noteq> pk_sport p then False
      else if fr_DstPort rule \<noteq> 0 \<and> fr_DstPort rule \<noteq> pk_dport p then False
      else if fr_SrcAddr rule \<noteq> [] \<and> \<not> ipMatches ParseCIDR ParseIP (fr_SrcAddr rule) (pk_src p) then False
      else if fr_DstAddr rule \<noteq> [] \<and> \<not> ipMatches ParseCIDR ParseIP (fr_DstAddr rule) (pk_dst p) then False
      else True)"

definition Match ::
    "(string \<Rightarrow> ipnet option) \<Rightarrow> (string \<Rightarrow> netip) \<Rightarrow> packet \<Rightarrow> RuleMap \<Rightarrow> ForwardingRule option" where
  "Match ParseCIDR ParseIP p rm = find (\<lambda>rule. matchesRule ParseCIDR ParseIP rule p) (rp_sorted rm)"

section \<open>The sorted slice\<close>

text \<open>
  The invariant: every rule is stored under its identifier and has an action, no identifier is ahead of the
  counter (as long as the counter has not wrapped), and the slice holds the rules in order of priority.
\<close>

definition rules_inv :: "RuleMap \<Rightarrow> bool" where
  "rules_inv rm \<longleftrightarrow>
     (\<forall>i r. fmlookup (rp_rules rm) i = Some r \<longrightarrow> fr_ID r = i \<and> fr_Action r \<noteq> [])
     \<and> (\<exists>ks. range_order (rp_rules rm) ks \<and> mset (rp_sorted rm) = mset (range_vals (rp_rules rm) ks))
     \<and> sorted_wrt (\<lambda>a b. \<not> before_rule b a) (rp_sorted rm)"

lemma weak_order_rules: "weak_order before_rule"
  by (rule weak_order_key)

lemma pkt_rebuildSorted_sel [simp]:
  "rp_rules (pkt_rebuildSorted ks rm) = rp_rules rm" "rp_nextID (pkt_rebuildSorted ks rm) = rp_nextID rm"
  by (simp_all add: pkt_rebuildSorted_def)

lemma rules_inv_rebuild:
  assumes "\<And>i r. fmlookup (rp_rules rm) i = Some r \<Longrightarrow> fr_ID r = i \<and> fr_Action r \<noteq> []" and "range_order (rp_rules rm) ks"
  shows "rules_inv (pkt_rebuildSorted ks rm)"
  using assms exchange.srt_sorted [OF weak_order_rules]
  by (auto simp: rules_inv_def pkt_rebuildSorted_def exchange.srt_perm)

lemma rules_inv_new: "rules_inv NewRuleMap"
  by (simp add: rules_inv_def NewRuleMap_def)

lemma rules_inv_id: "rules_inv rm \<Longrightarrow> fmlookup (rp_rules rm) i = Some r \<Longrightarrow> fr_ID r = i"
  by (simp add: rules_inv_def)

lemma rules_inv_action: "rules_inv rm \<Longrightarrow> fmlookup (rp_rules rm) i = Some r \<Longrightarrow> fr_Action r \<noteq> []"
  by (simp add: rules_inv_def)

lemma rules_inv_sorted: "rules_inv rm \<Longrightarrow> sorted_wrt (\<lambda>a b. \<not> before_rule b a) (rp_sorted rm)"
  by (simp add: rules_inv_def)

lemma rules_inv_insert:
  assumes "rules_inv rm" "fr_Action rule \<noteq> []" "insert_rule ks rule rm = (rule', rm')"
    and "range_order (rp_rules rm') ks"
  shows "rules_inv rm'"
proof -
  define m where "m = rm\<lparr>rp_nextID := rp_nextID rm + 1, rp_rules := fmupd (rp_nextID rm + 1) rule' (rp_rules rm)\<rparr>"
  have e: "rm' = pkt_rebuildSorted ks m" "rule' = rule\<lparr>fr_ID := rp_nextID rm + 1\<rparr>"
    using assms(3) by (auto simp: insert_rule_def Let_def m_def)
  have "fr_ID r = i \<and> fr_Action r \<noteq> []" if "fmlookup (rp_rules m) i = Some r" for i r
    using that e(2) assms(2) rules_inv_id [OF assms(1)] rules_inv_action [OF assms(1)]
    by (auto simp: m_def split: if_splits)
  then show ?thesis using assms(4) unfolding e(1) by (intro rules_inv_rebuild) simp_all
qed

lemma rules_inv_delete:
  assumes "rules_inv rm" and "range_order (fmdrop i (rp_rules rm)) ks"
  shows "rules_inv (delete_rule ks i rm)"
  unfolding delete_rule_def
  by (rule rules_inv_rebuild) (use assms in \<open>auto simp: rules_inv_def split: if_splits\<close>)

lemma sorted_mem:
  assumes "rules_inv rm"
  shows "r \<in> set (rp_sorted rm) \<longleftrightarrow> fmlookup (rp_rules rm) (fr_ID r) = Some r"
proof -
  obtain ks where ks: "range_order (rp_rules rm) ks" "mset (rp_sorted rm) = mset (range_vals (rp_rules rm) ks)"
    using assms unfolding rules_inv_def by blast
  have "set (rp_sorted rm) = set (range_vals (rp_rules rm) ks)" using ks(2) by (metis set_mset_mset)
  then have "r \<in> set (rp_sorted rm) \<longleftrightarrow> (\<exists>k \<in> set ks. fmlookup (rp_rules rm) k = Some r)" by (simp add: set_range_vals)
  also have "\<dots> \<longleftrightarrow> fmlookup (rp_rules rm) (fr_ID r) = Some r"
  proof
    assume "\<exists>k \<in> set ks. fmlookup (rp_rules rm) k = Some r"
    then obtain k where "fmlookup (rp_rules rm) k = Some r" by blast
    then show "fmlookup (rp_rules rm) (fr_ID r) = Some r" using rules_inv_id [OF assms, of k r] by simp
  next
    assume l: "fmlookup (rp_rules rm) (fr_ID r) = Some r"
    then have "fr_ID r \<in> set ks" using range_order_set [OF ks(1), of "fr_ID r"] by simp
    then show "\<exists>k \<in> set ks. fmlookup (rp_rules rm) k = Some r" using l by blast
  qed
  finally show ?thesis .
qed

lemma sorted_all: "rules_inv rm \<Longrightarrow> fmlookup (rp_rules rm) i = Some r \<Longrightarrow> r \<in> set (rp_sorted rm)"
  using rules_inv_id [of rm i r] by (simp add: sorted_mem)

lemma length_sorted: "rules_inv rm \<Longrightarrow> length (rp_sorted rm) = pkt_RuleCount rm"
proof -
  assume "rules_inv rm"
  then obtain ks where ks: "range_order (rp_rules rm) ks" "mset (rp_sorted rm) = mset (range_vals (rp_rules rm) ks)"
    unfolding rules_inv_def by blast
  have "length (range_vals (rp_rules rm) ks) = length ks"
    by (rule range_vals_length) (use range_order_set [OF ks(1)] in blast)
  then show ?thesis
    using arg_cong [OF ks(2), of size] range_order_length [OF ks(1)] by (simp add: pkt_RuleCount_def)
qed

lemma distinct_sorted_ids: "rules_inv rm \<Longrightarrow> distinct (map fr_ID (rp_sorted rm))"
proof -
  assume i: "rules_inv rm"
  have inj: "inj_on fr_ID (set (rp_sorted rm))"
  proof (rule inj_onI)
    fix a b assume "a \<in> set (rp_sorted rm)" "b \<in> set (rp_sorted rm)" and e: "fr_ID a = fr_ID b"
    then have "fmlookup (rp_rules rm) (fr_ID b) = Some a" "fmlookup (rp_rules rm) (fr_ID b) = Some b"
      by (simp_all add: sorted_mem [OF i])
    then show "a = b" by simp
  qed
  have "fr_ID ` set (rp_sorted rm) = fset (fmdom (rp_rules rm))"
  proof (rule set_eqI)
    fix k
    have "k \<in> fr_ID ` set (rp_sorted rm) \<longleftrightarrow> (\<exists>r. fmlookup (rp_rules rm) k = Some r)"
    proof
      assume "k \<in> fr_ID ` set (rp_sorted rm)"
      then obtain r where "r \<in> set (rp_sorted rm)" "k = fr_ID r" by blast
      then show "\<exists>r. fmlookup (rp_rules rm) k = Some r" using sorted_mem [OF i, of r] by blast
    next
      assume "\<exists>r. fmlookup (rp_rules rm) k = Some r"
      then obtain r where "fmlookup (rp_rules rm) k = Some r" by blast
      then show "k \<in> fr_ID ` set (rp_sorted rm)" using sorted_all [OF i, of k r] rules_inv_id [OF i, of k r] by (intro image_eqI [of _ _ r]) simp_all
    qed
    then show "k \<in> fr_ID ` set (rp_sorted rm) \<longleftrightarrow> k \<in> fset (fmdom (rp_rules rm))" by (simp add: fmlookup_dom_iff)
  qed
  then have "card (set (rp_sorted rm)) = length (rp_sorted rm)"
    using length_sorted [OF i] card_image [OF inj] by (simp add: pkt_RuleCount_def fcard.rep_eq mlen_def)
  then have "distinct (rp_sorted rm)" by (rule card_distinct)
  then show ?thesis using inj by (simp add: distinct_map)
qed

text \<open>The first match in the slice is a rule of the map that matches, and none that matches has a lesser priority.\<close>

lemma Match_none: "rules_inv rm \<Longrightarrow> Match pc pi p rm = None \<longleftrightarrow>
    (\<forall>i r. fmlookup (rp_rules rm) i = Some r \<longrightarrow> \<not> matchesRule pc pi r p)"
  unfolding Match_def find_None_iff using sorted_mem [of rm] sorted_all [of rm] by blast

lemma Match_some:
  assumes "rules_inv rm" and "Match pc pi p rm = Some r"
  shows "fmlookup (rp_rules rm) (fr_ID r) = Some r \<and> matchesRule pc pi r p
    \<and> (\<forall>i q. fmlookup (rp_rules rm) i = Some q \<longrightarrow> matchesRule pc pi q p \<longrightarrow> fr_Priority r \<le> fr_Priority q)"
proof -
  obtain i where i: "i < length (rp_sorted rm)" "rp_sorted rm ! i = r" "matchesRule pc pi r p"
    and b: "\<forall>j < i. \<not> matchesRule pc pi (rp_sorted rm ! j) p"
    using assms(2) by (auto simp: Match_def find_Some_iff)
  have "fr_Priority r \<le> fr_Priority q" if q: "q \<in> set (rp_sorted rm)" "matchesRule pc pi q p" for q
  proof -
    obtain j where j: "j < length (rp_sorted rm)" "rp_sorted rm ! j = q" using q(1) by (auto simp: in_set_conv_nth)
    then have "i \<le> j" using b q(2) by (meson not_le)
    then show ?thesis using rules_inv_sorted [OF assms(1)] i j by (cases "i = j") (auto simp: sorted_wrt_iff_nth_less not_less)
  qed
  moreover have "r \<in> set (rp_sorted rm)" using i(1,2) by (metis nth_mem)
  ultimately show ?thesis using sorted_mem [OF assms(1)] sorted_all [OF assms(1)] i(3) by blast
qed

end
