(* ===== verification/Xdp_Filter.thy ===== *)
theory Xdp_Filter
  imports Packet_Rules
begin

text \<open>
  The kernel side of the packet filter: which forwarding rules go down to the kernel, with which key and
  value (\<open>server/internal/ebpf/kernel_rules.go\<close>), and the XDP program that reads them
  (\<open>server/internal/ebpf/xdp_forwarder.c\<close>) as a function from the bytes of a frame and the contents of its
  maps to a verdict. The index of a network interface is what the argument \<open>ifx\<close> returns for its name.
  The pointers of the rules are never nil in the slices that the plan is made from.
\<close>

section \<open>Keys and values\<close>

abbreviation kernelActionPass :: "32 word" where "kernelActionPass \<equiv> 1"
abbreviation kernelActionDrop :: "32 word" where "kernelActionDrop \<equiv> 2"
abbreviation kernelActionRedirect :: "32 word" where "kernelActionRedirect \<equiv> 3"

abbreviation kernelForwardTargetPrefix :: string where "kernelForwardTargetPrefix \<equiv> ''ifindex:''"

record xdpL4RuleKey =
  xk_Protocol :: "8 word"
  xk_Pad :: "8 word"
  xk_DstPort :: "16 word"

record xdpL4RuleValue =
  xv_Action :: "32 word"
  xv_IfIndex :: "32 word"

record xdpKernelStats =
  xs_PacketsForwarded :: "64 word"
  xs_BytesForwarded :: "64 word"
  xs_PacketsDropped :: "64 word"

record xdpKernelRulePlan =
  xp_RuleID :: "32 word"
  xp_Key :: xdpL4RuleKey
  xp_Value :: xdpL4RuleValue

text \<open>\<open>strconv.ParseUint\<close> with base 10 and 32 bits: digits only, at least one, and no greater value.\<close>

fun parse_digits :: "string \<Rightarrow> nat \<Rightarrow> nat option" where
  "parse_digits [] n = Some n"
| "parse_digits (c # cs) n =
     (if 48 \<le> (of_char c :: nat) \<and> (of_char c :: nat) \<le> 57 then parse_digits cs (10 * n + (of_char c - 48)) else None)"

definition ParseUint :: "string \<Rightarrow> nat option" where
  "ParseUint s =
     (if s = [] then None
      else (case parse_digits s 0 of None \<Rightarrow> None | Some n \<Rightarrow> if n < 2 ^ 32 then Some n else None))"

definition resolveForwardTargetIfIndex :: "(string \<Rightarrow> int option) \<Rightarrow> string \<Rightarrow> 32 word option" where
  "resolveForwardTargetIfIndex ifx target =
     (let t = trim_space target in
      if t = [] then None
      else if has_prefix t kernelForwardTargetPrefix then
        (case ParseUint (trim_prefix t kernelForwardTargetPrefix) of
           None \<Rightarrow> None
         | Some index \<Rightarrow> if index = 0 then None else Some (of_nat index))
      else (case ifx t of
              None \<Rightarrow> None
            | Some index \<Rightarrow> if index \<le> 0 then None else Some (of_int index)))"

datatype kernel_reason =
    OnlyTCPUDP
  | DstPortRequired
  | MatchInUserspace
  | TargetNotInterface
  | UnsupportedAction string

definition encodeKernelRule ::
    "(string \<Rightarrow> int option) \<Rightarrow> ForwardingRule \<Rightarrow> kernel_reason + xdpL4RuleKey \<times> xdpL4RuleValue" where
  "encodeKernelRule ifx rule =
     (if fr_Protocol rule \<noteq> 6 \<and> fr_Protocol rule \<noteq> 17 then Inl OnlyTCPUDP
      else if fr_DstPort rule = 0 then Inl DstPortRequired
      else if fr_SrcPort rule \<noteq> 0 \<or> fr_SrcAddr rule \<noteq> [] \<or> fr_DstAddr rule \<noteq> [] then Inl MatchInUserspace
      else
        let key = \<lparr>xk_Protocol = fr_Protocol rule, xk_Pad = 0, xk_DstPort = fr_DstPort rule\<rparr> in
        if fr_Action rule = ActionPass then Inr (key, \<lparr>xv_Action = kernelActionPass, xv_IfIndex = 0\<rparr>)
        else if fr_Action rule = ActionDrop then Inr (key, \<lparr>xv_Action = kernelActionDrop, xv_IfIndex = 0\<rparr>)
        else if fr_Action rule = ActionForward then
          (case resolveForwardTargetIfIndex ifx (fr_Target rule) of
             None \<Rightarrow> Inl TargetNotInterface
           | Some i \<Rightarrow> Inr (key, \<lparr>xv_Action = kernelActionRedirect, xv_IfIndex = i\<rparr>))
        else Inl (UnsupportedAction (fr_Action rule)))"

section \<open>The plan\<close>

definition ruleMayMatchKernelKey :: "ForwardingRule \<Rightarrow> xdpL4RuleKey \<Rightarrow> bool" where
  "ruleMayMatchKernelKey rule key =
     (if fr_Protocol rule \<noteq> 0 \<and> fr_Protocol rule \<noteq> xk_Protocol key then False
      else if fr_DstPort rule \<noteq> 0 \<and> fr_DstPort rule \<noteq> xk_DstPort key then False
      else True)"

fun kernelKeyBlockedByPriorRules :: "(string \<Rightarrow> int option) \<Rightarrow> xdpL4RuleKey \<Rightarrow> ForwardingRule list \<Rightarrow> bool" where
  "kernelKeyBlockedByPriorRules ifx key [] = False"
| "kernelKeyBlockedByPriorRules ifx key (prior # rest) =
     (case encodeKernelRule ifx prior of
        Inr (priorKey, _) \<Rightarrow> if priorKey = key then True else kernelKeyBlockedByPriorRules ifx key rest
      | Inl _ \<Rightarrow> if ruleMayMatchKernelKey prior key then True else kernelKeyBlockedByPriorRules ifx key rest)"

fun plan_loop ::
    "(string \<Rightarrow> int option) \<Rightarrow> xdpL4RuleKey fset \<Rightarrow> ForwardingRule list \<Rightarrow> ForwardingRule list \<Rightarrow> xdpKernelRulePlan list" where
  "plan_loop ifx keys prior [] = []"
| "plan_loop ifx keys prior (rule # rules) =
     (case encodeKernelRule ifx rule of
        Inl _ \<Rightarrow> plan_loop ifx keys (prior @ [rule]) rules
      | Inr (key, value) \<Rightarrow>
          if key |\<in>| keys then plan_loop ifx keys (prior @ [rule]) rules
          else if kernelKeyBlockedByPriorRules ifx key prior then plan_loop ifx keys (prior @ [rule]) rules
          else \<lparr>xp_RuleID = fr_ID rule, xp_Key = key, xp_Value = value\<rparr>
                 # plan_loop ifx (finsert key keys) (prior @ [rule]) rules)"

definition buildKernelRulePlan :: "(string \<Rightarrow> int option) \<Rightarrow> ForwardingRule list \<Rightarrow> xdpKernelRulePlan list" where
  "buildKernelRulePlan ifx rules = plan_loop ifx {||} [] rules"

section \<open>The XDP program\<close>

text \<open>
  \<open>bpf_redirect_map\<close> returns the redirection when the device map has the index, and the lower bits of its
  flags, here 0 (aborted), otherwise.
\<close>

datatype xdp_verdict = XDP_PASS | XDP_DROP | XDP_REDIRECT "32 word" | XDP_ABORTED

record xdpObjects =
  xo_Rules :: "(xdpL4RuleKey, xdpL4RuleValue) fmap"
  xo_DevMap :: "(32 word, 32 word) fmap"
  xo_Stats :: xdpKernelStats

definition record_forwarded :: "nat \<Rightarrow> xdpObjects \<Rightarrow> xdpObjects" where
  "record_forwarded len xo = xo\<lparr>xo_Stats := (xo_Stats xo)
     \<lparr>xs_PacketsForwarded := xs_PacketsForwarded (xo_Stats xo) + 1,
      xs_BytesForwarded := xs_BytesForwarded (xo_Stats xo) + of_nat len\<rparr>\<rparr>"

definition record_dropped :: "xdpObjects \<Rightarrow> xdpObjects" where
  "record_dropped xo = xo\<lparr>xo_Stats := (xo_Stats xo)\<lparr>xs_PacketsDropped := xs_PacketsDropped (xo_Stats xo) + 1\<rparr>\<rparr>"

definition be16 :: "8 word \<Rightarrow> 8 word \<Rightarrow> 16 word" where
  "be16 h l = push_bit 8 (ucast h) OR ucast l"

text \<open>The frame is read as the C program reads it, every access behind its test against the end of the data.\<close>

definition parse_l4_key :: "8 word list \<Rightarrow> xdpL4RuleKey option" where
  "parse_l4_key data =
     (if length data < 14 then None
      else if be16 (data ! 12) (data ! 13) \<noteq> 0x0800 then None
      else if length data < 14 + 20 then None
      else
        let ihl = data ! 14 AND 0x0F in
        if ihl < 5 then None
        else
          let transport = 14 + unat ihl * 4; proto = data ! (14 + 9) in
          if length data < transport then None
          else if proto = 6 \<or> proto = 17 then
            (if length data < transport + 4 then None
             else Some \<lparr>xk_Protocol = proto, xk_Pad = 0, xk_DstPort = be16 (data ! (transport + 2)) (data ! (transport + 3))\<rparr>)
          else None)"

definition xdp_nextunnel_forward :: "8 word list \<Rightarrow> xdpObjects \<Rightarrow> xdp_verdict \<times> xdpObjects" where
  "xdp_nextunnel_forward data xo =
     (let pass = (XDP_PASS, record_forwarded (length data) xo) in
      case parse_l4_key data of
        None \<Rightarrow> pass
      | Some key \<Rightarrow>
          (case fmlookup (xo_Rules xo) key of
             None \<Rightarrow> pass
           | Some rule \<Rightarrow>
               if xv_Action rule = 1 then pass
               else if xv_Action rule = 2 then (XDP_DROP, record_dropped xo)
               else if xv_Action rule = 3 then
                 (case fmlookup (xo_DevMap xo) (xv_IfIndex rule) of
                    None \<Rightarrow> XDP_ABORTED
                  | Some i \<Rightarrow> XDP_REDIRECT i, record_forwarded (length data) xo)
               else pass))"

section \<open>What the plan promises\<close>

lemma encode_key:
  assumes "encodeKernelRule ifx r = Inr (k, v)"
  shows "fr_Protocol r = xk_Protocol k \<and> fr_DstPort r = xk_DstPort k \<and> xk_Pad k = 0 \<and> (xk_Protocol k = 6 \<or> xk_Protocol k = 17)
    \<and> xk_DstPort k \<noteq> 0 \<and> fr_SrcPort r = 0 \<and> fr_SrcAddr r = [] \<and> fr_DstAddr r = []"
  using assms by (auto simp: encodeKernelRule_def Let_def split: if_splits option.splits)

lemma encode_action:
  assumes "encodeKernelRule ifx r = Inr (k, v)"
  shows "xv_Action v = (if fr_Action r = ActionPass then 1 else if fr_Action r = ActionDrop then 2 else 3)
    \<and> fr_Action r \<in> {ActionPass, ActionDrop, ActionForward}"
  using assms by (auto simp: encodeKernelRule_def Let_def split: if_splits option.splits)

text \<open>A packet has the key of its protocol and destination port.\<close>

definition has_key :: "packet \<Rightarrow> xdpL4RuleKey \<Rightarrow> bool" where
  "has_key p k \<longleftrightarrow> pk_proto p = xk_Protocol k \<and> pk_dport p = xk_DstPort k"

text \<open>A rule that has the form of the fast path matches the packets with its key and no others.\<close>

lemma encoded_matches:
  assumes "encodeKernelRule ifx r = Inr (k, v)"
  shows "matchesRule pc pi r p \<longleftrightarrow> has_key p k"
  using encode_key [OF assms] by (auto simp: matchesRule_def has_key_def)

lemma key_eqI:
  assumes "encodeKernelRule ifx r = Inr (k, v)" "encodeKernelRule ifx r' = Inr (k', v')" "has_key p k" "has_key p k'"
  shows "k = k'"
  using encode_key [OF assms(1)] encode_key [OF assms(2)] assms(3,4) by (simp add: has_key_def xdpL4RuleKey.equality)

lemma matches_may_match: "matchesRule pc pi r p \<Longrightarrow> has_key p k \<Longrightarrow> ruleMayMatchKernelKey r k"
  by (auto simp: matchesRule_def ruleMayMatchKernelKey_def has_key_def split: if_splits)

text \<open>A key that no earlier rule blocks belongs to packets that no earlier rule matches.\<close>

lemma unblocked_no_match:
  assumes "\<not> kernelKeyBlockedByPriorRules ifx k prior" "encodeKernelRule ifx r0 = Inr (k, v0)" "has_key p k" "r \<in> set prior"
  shows "\<not> matchesRule pc pi r p"
  using assms(1,4)
proof (induction prior)
  case (Cons q qs)
  show ?case
  proof (cases "r = q")
    case True
    show ?thesis
    proof (cases "encodeKernelRule ifx q")
      case (Inl e)
      then show ?thesis using True Cons.prems(1) matches_may_match [OF _ assms(3)] by (auto split: if_splits)
    next
      case (Inr kv)
      obtain k' v' where kv: "kv = (k', v')" by (cases kv)
      then have "k' \<noteq> k" using Inr Cons.prems(1) by (auto split: if_splits)
      then have "\<not> has_key p k'" using key_eqI [of ifx q k' v' r0 k v0 p] Inr kv assms(2,3) by blast
      then show ?thesis using True encoded_matches [of ifx q k' v'] Inr kv by blast
    qed
  next
    case False
    then have "r \<in> set qs" using Cons.prems(2) by simp
    moreover have "\<not> kernelKeyBlockedByPriorRules ifx k qs"
      using Cons.prems(1) by (auto split: sum.splits prod.splits if_splits)
    ultimately show ?thesis using Cons.IH by blast
  qed
qed simp

text \<open>
  Every entry of the plan comes from a rule of the slice, no rule before it matches a packet with the key of
  the entry, and no two entries have the same key.
\<close>

lemma plan_loop_sound:
  assumes "e \<in> set (plan_loop ifx keys prior rules)"
  shows "\<exists>r before after. rules = before @ r # after \<and> fr_ID r = xp_RuleID e
    \<and> encodeKernelRule ifx r = Inr (xp_Key e, xp_Value e)
    \<and> \<not> kernelKeyBlockedByPriorRules ifx (xp_Key e) (prior @ before) \<and> xp_Key e |\<notin>| keys"
  using assms
proof (induction ifx keys prior rules rule: plan_loop.induct)
  case (2 ifx keys prior rule rules)
  have step: "\<exists>r before after. rule # rules = before @ r # after \<and> fr_ID r = xp_RuleID e
      \<and> encodeKernelRule ifx r = Inr (xp_Key e, xp_Value e)
      \<and> \<not> kernelKeyBlockedByPriorRules ifx (xp_Key e) (prior @ before) \<and> xp_Key e |\<notin>| keys"
    if h: "\<exists>r before after. rules = before @ r # after \<and> fr_ID r = xp_RuleID e
      \<and> encodeKernelRule ifx r = Inr (xp_Key e, xp_Value e)
      \<and> \<not> kernelKeyBlockedByPriorRules ifx (xp_Key e) ((prior @ [rule]) @ before) \<and> xp_Key e |\<notin>| keys"
  proof -
    obtain r before after where "rules = before @ r # after" "fr_ID r = xp_RuleID e"
      "encodeKernelRule ifx r = Inr (xp_Key e, xp_Value e)"
      "\<not> kernelKeyBlockedByPriorRules ifx (xp_Key e) ((prior @ [rule]) @ before)" "xp_Key e |\<notin>| keys"
      using h by blast
    then show ?thesis by (intro exI [of _ r] exI [of _ "rule # before"] exI [of _ after]) simp
  qed
  show ?case
  proof (cases "encodeKernelRule ifx rule")
    case (Inl x)
    show ?thesis by (rule step, rule 2(1) [OF Inl]) (use 2(5) Inl in simp)
  next
    case (Inr kv)
    obtain k v where kv: "kv = (k, v)" by (cases kv)
    note enc = Inr [unfolded kv]
    show ?thesis
    proof (cases "k |\<in>| keys \<or> kernelKeyBlockedByPriorRules ifx k prior")
      case True
      then have mem: "e \<in> set (plan_loop ifx keys (prior @ [rule]) rules)" using 2(5) enc by (auto split: if_splits)
      show ?thesis
      proof (cases "k |\<in>| keys")
        case True
        then show ?thesis by (intro step 2(2) [OF Inr kv [symmetric] _ mem])
      next
        case False
        then show ?thesis using True by (intro step 2(3) [OF Inr kv [symmetric] False _ mem]) simp
      qed
    next
      case False
      then have nk: "k |\<notin>| keys" and nb: "\<not> kernelKeyBlockedByPriorRules ifx k prior" by simp_all
      show ?thesis
      proof (cases "e = \<lparr>xp_RuleID = fr_ID rule, xp_Key = k, xp_Value = v\<rparr>")
        case True
        then show ?thesis using enc nk nb by (intro exI [of _ rule] exI [of _ "[]"] exI [of _ rules]) simp
      next
        case False
        then have "e \<in> set (plan_loop ifx (finsert k keys) (prior @ [rule]) rules)"
          using 2(5) enc nk nb by simp
        from 2(4) [OF Inr kv [symmetric] nk nb this] show ?thesis by (intro step) auto
      qed
    qed
  qed
qed simp

lemma plan_loop_distinct: "distinct (map xp_Key (plan_loop ifx keys prior rules))"
proof (induction ifx keys prior rules rule: plan_loop.induct)
  case (2 ifx keys prior rule rules)
  show ?case
  proof (cases "encodeKernelRule ifx rule")
    case (Inl x)
    then show ?thesis using 2(1) [OF Inl] by simp
  next
    case (Inr kv)
    obtain k v where kv: "kv = (k, v)" by (cases kv)
    note enc = Inr [unfolded kv]
    have "k \<notin> xp_Key ` set (plan_loop ifx (finsert k keys) (prior @ [rule]) rules)"
      using plan_loop_sound [of _ ifx "finsert k keys" "prior @ [rule]" rules] by auto
    then show ?thesis using enc 2(2) [OF Inr kv [symmetric]] 2(3) [OF Inr kv [symmetric]] 2(4) [OF Inr kv [symmetric]] by simp
  qed
qed simp

lemma length_plan_loop: "length (plan_loop ifx keys prior rules) \<le> length rules"
  by (induction rules arbitrary: keys prior) (auto split: sum.splits intro: le_SucI)

lemma find_append_none: "(\<And>x. x \<in> set xs \<Longrightarrow> \<not> P x) \<Longrightarrow> P y \<Longrightarrow> find P (xs @ y # ys) = Some y"
  by (induction xs) auto

text \<open>The entry decides the packets with its key as the slice does.\<close>

lemma plan_find:
  assumes "e \<in> set (buildKernelRulePlan ifx rules)" and "has_key p (xp_Key e)"
  shows "\<exists>r. find (\<lambda>r. matchesRule pc pi r p) rules = Some r \<and> fr_ID r = xp_RuleID e
    \<and> encodeKernelRule ifx r = Inr (xp_Key e, xp_Value e)"
proof -
  obtain r before after where r: "rules = before @ r # after" "fr_ID r = xp_RuleID e"
      "encodeKernelRule ifx r = Inr (xp_Key e, xp_Value e)" "\<not> kernelKeyBlockedByPriorRules ifx (xp_Key e) before"
    using plan_loop_sound [of e ifx "{||}" "[]" rules] assms(1) by (auto simp: buildKernelRulePlan_def)
  have "find (\<lambda>r. matchesRule pc pi r p) rules = Some r"
    unfolding r(1)
  proof (rule find_append_none)
    show "matchesRule pc pi r p" using encoded_matches [OF r(3)] assms(2) by simp
    show "\<not> matchesRule pc pi x p" if "x \<in> set before" for x
      by (rule unblocked_no_match [OF r(4) r(3) assms(2) that])
  qed
  then show ?thesis using r by blast
qed

end
