(* ===== verification/Xdp_Loader.thy ===== *)
theory Xdp_Loader
  imports Xdp_Filter
begin

text \<open>
  The loader of the packet filter (\<open>server/internal/ebpf/loader_linux.go\<close>) with its configuration
  (\<open>config.go\<close>): loading and unloading the program, keeping the kernel's rules in step with the rule map, the
  statistics, and the userspace forwarder on top of it (\<open>ProcessPacket\<close> of \<open>forwarder.go\<close>). A BPF map is a
  finite map; whether the kernel accepts an update or a deletion is an argument, and an operation that it
  refuses leaves the map alone. What loading needs from the system (interface, files, verifier, attaching) is
  an argument too. The logger and the goroutine that prints the statistics are left out.
\<close>

section \<open>Configuration\<close>

abbreviation ModeKernel :: string where "ModeKernel \<equiv> ''kernel''"
abbreviation ModeUserspace :: string where "ModeUserspace \<equiv> ''userspace''"

record EBPFConfig =
  eb_Enabled :: bool
  eb_RequireKernelMode :: bool
  eb_InterfaceName :: string
  eb_XDPMode :: string
  eb_XDPObjectPath :: string
  eb_MaxKernelRules :: "32 word"
  eb_StatsInterval :: duration

definition DefaultEBPFConfig :: EBPFConfig where
  "DefaultEBPFConfig =
     \<lparr>eb_Enabled = True, eb_RequireKernelMode = False, eb_InterfaceName = ''eth0'', eb_XDPMode = ''skb'', eb_XDPObjectPath = [],
      eb_MaxKernelRules = 4096, eb_StatsInterval = 10 * second\<rparr>"

definition ebpf_normalizeConfig :: "EBPFConfig \<Rightarrow> EBPFConfig" where
  "ebpf_normalizeConfig cfg =
     (let d = DefaultEBPFConfig;
          cfg = if eb_InterfaceName cfg = [] then cfg\<lparr>eb_InterfaceName := eb_InterfaceName d\<rparr> else cfg;
          cfg = if eb_XDPMode cfg = [] then cfg\<lparr>eb_XDPMode := eb_XDPMode d\<rparr> else cfg;
          cfg = if eb_MaxKernelRules cfg = 0 then cfg\<lparr>eb_MaxKernelRules := eb_MaxKernelRules d\<rparr> else cfg in
      if eb_StatsInterval cfg \<le> 0 then cfg\<lparr>eb_StatsInterval := eb_StatsInterval d\<rparr> else cfg)"

record ForwardingStats =
  fs_Mode :: string
  fs_PacketsForwarded :: "64 word"
  fs_BytesForwarded :: "64 word"
  fs_PacketsDropped :: "64 word"

section \<open>State\<close>

record Loader =
  ld_config :: EBPFConfig
  ld_mode :: string
  ld_xdpLink :: bool
  ld_xdpObjects :: "xdpObjects option"
  ld_ruleMap :: bool
  ld_kernelRuleKeys :: "(32 word, xdpL4RuleKey) fmap"
  ld_packetsForwarded :: "64 word"
  ld_bytesForwarded :: "64 word"
  ld_packetsDropped :: "64 word"

definition NewLoader :: "EBPFConfig \<Rightarrow> Loader" where
  "NewLoader cfg =
     \<lparr>ld_config = ebpf_normalizeConfig cfg, ld_mode = ModeUserspace, ld_xdpLink = False, ld_xdpObjects = None, ld_ruleMap = False,
      ld_kernelRuleKeys = fmempty, ld_packetsForwarded = 0, ld_bytesForwarded = 0, ld_packetsDropped = 0\<rparr>"

definition RecordForward :: "int \<Rightarrow> Loader \<Rightarrow> Loader" where
  "RecordForward bytes l =
     l\<lparr>ld_packetsForwarded := ld_packetsForwarded l + 1, ld_bytesForwarded := ld_bytesForwarded l + of_int bytes\<rparr>"

definition RecordDrop :: "Loader \<Rightarrow> Loader" where
  "RecordDrop l = l\<lparr>ld_packetsDropped := ld_packetsDropped l + 1\<rparr>"

text \<open>The lookup of the statistics may fail; then the kernel counts as zero.\<close>

definition readKernelStats :: "bool \<Rightarrow> Loader \<Rightarrow> xdpKernelStats" where
  "readKernelStats lookup l =
     (case ld_xdpObjects l of
        Some xo \<Rightarrow> if lookup then xo_Stats xo
          else \<lparr>xs_PacketsForwarded = 0, xs_BytesForwarded = 0, xs_PacketsDropped = 0\<rparr>
      | None \<Rightarrow> \<lparr>xs_PacketsForwarded = 0, xs_BytesForwarded = 0, xs_PacketsDropped = 0\<rparr>)"

definition loader_Stats :: "bool \<Rightarrow> Loader \<Rightarrow> ForwardingStats" where
  "loader_Stats lookup l =
     (let k = readKernelStats lookup l in
      \<lparr>fs_Mode = ld_mode l, fs_PacketsForwarded = ld_packetsForwarded l + xs_PacketsForwarded k,
       fs_BytesForwarded = ld_bytesForwarded l + xs_BytesForwarded k,
       fs_PacketsDropped = ld_packetsDropped l + xs_PacketsDropped k\<rparr>)"

section \<open>Rules in the kernel\<close>

record kernel_env =
  ke_ifx :: "string \<Rightarrow> int option"
  ke_dev :: "32 word \<Rightarrow> bool"
  ke_rule :: "(xdpL4RuleKey, xdpL4RuleValue) fmap \<Rightarrow> xdpL4RuleKey \<Rightarrow> bool"
  ke_del :: "xdpL4RuleKey \<Rightarrow> bool"
  ke_order :: "32 word list"

text \<open>The first loop writes the plan; it returns what it has written also when it stops at an error.\<close>

fun sync_plan ::
    "kernel_env \<Rightarrow> xdpKernelRulePlan list \<Rightarrow> xdpObjects \<times> (32 word, xdpL4RuleKey) fmap \<times> xdpL4RuleKey fset
     \<Rightarrow> ebpf_error option \<times> xdpObjects \<times> (32 word, xdpL4RuleKey) fmap \<times> xdpL4RuleKey fset" where
  "sync_plan ke [] st = (None, st)"
| "sync_plan ke (e # es) st =
     (case st of (xo, ids, keys) \<Rightarrow>
        if xv_Action (xp_Value e) = kernelActionRedirect \<and> \<not> ke_dev ke (xv_IfIndex (xp_Value e)) then
          (Some (SyncDevmap (xp_RuleID e)), xo, ids, keys)
        else
          let xo = if xv_Action (xp_Value e) = kernelActionRedirect
                   then xo\<lparr>xo_DevMap := fmupd (xv_IfIndex (xp_Value e)) (xv_IfIndex (xp_Value e)) (xo_DevMap xo)\<rparr> else xo in
          if \<not> ke_rule ke (xo_Rules xo) (xp_Key e) then (Some (SyncRule (xp_RuleID e)), xo, ids, keys)
          else sync_plan ke es
                 (xo\<lparr>xo_Rules := fmupd (xp_Key e) (xp_Value e) (xo_Rules xo)\<rparr>,
                  fmupd (xp_RuleID e) (xp_Key e) ids, finsert (xp_Key e) keys))"

text \<open>The second loop removes what the plan no longer has; a key that is not in the map is no error.\<close>

fun sync_stale ::
    "kernel_env \<Rightarrow> (32 word, xdpL4RuleKey) fmap \<Rightarrow> xdpL4RuleKey fset \<Rightarrow> (32 word, xdpL4RuleKey) fmap \<Rightarrow> 32 word list
     \<Rightarrow> xdpObjects \<Rightarrow> ebpf_error option \<times> xdpObjects" where
  "sync_stale ke desired keys old [] xo = (None, xo)"
| "sync_stale ke desired keys old (i # is) xo =
     (case fmlookup old i of
        None \<Rightarrow> sync_stale ke desired keys old is xo
      | Some key \<Rightarrow>
          if fmlookup desired i = Some key then sync_stale ke desired keys old is xo
          else if key |\<in>| keys then sync_stale ke desired keys old is xo
          else if fmlookup (xo_Rules xo) key \<noteq> None \<and> \<not> ke_del ke key then (Some (RemoveStale i), xo)
          else sync_stale ke desired keys old is (xo\<lparr>xo_Rules := fmdrop key (xo_Rules xo)\<rparr>))"

definition rebuildKernelRulesLocked :: "kernel_env \<Rightarrow> ForwardingRule list \<Rightarrow> Loader \<Rightarrow> ebpf_error option \<times> Loader" where
  "rebuildKernelRulesLocked ke rules l =
     (case ld_xdpObjects l of
        None \<Rightarrow> (None, l)
      | Some xo \<Rightarrow>
          if ld_mode l \<noteq> ModeKernel then (None, l)
          else
            let plan = buildKernelRulePlan (ke_ifx ke) rules in
            if length plan > unat (eb_MaxKernelRules (ld_config l)) then
              (Some (RulePlanExceeds (length plan) (unat (eb_MaxKernelRules (ld_config l)))), l)
            else (case sync_plan ke plan (xo, fmempty, {||}) of
              (Some e, xo, _, _) \<Rightarrow> (Some e, l\<lparr>ld_xdpObjects := Some xo\<rparr>)
            | (None, xo, desired, keys) \<Rightarrow>
                (case sync_stale ke desired keys (ld_kernelRuleKeys l) (ke_order ke) xo of
                   (Some e, xo) \<Rightarrow> (Some e, l\<lparr>ld_xdpObjects := Some xo\<rparr>)
                 | (None, xo) \<Rightarrow> (None, l\<lparr>ld_xdpObjects := Some xo, ld_kernelRuleKeys := desired\<rparr>))))"

definition syncKernelRulesFromConfiguredMap :: "kernel_env \<Rightarrow> RuleMap \<Rightarrow> Loader \<Rightarrow> ebpf_error option \<times> Loader" where
  "syncKernelRulesFromConfiguredMap ke rm l =
     (if \<not> ld_ruleMap l then (None, l) else rebuildKernelRulesLocked ke (pkt_ListRules rm) l)"

text \<open>
  \<open>ConfigureRuleMap\<close> registers the call-backs with the map; they are there from then on. The call-back
  after an addition and the one that undoes it run in environments of their own.
\<close>

definition loader_callbacks :: "kernel_env \<Rightarrow> kernel_env \<Rightarrow> Loader callbacks" where
  "loader_callbacks ke ke' =
     \<lparr>cb_add = (\<lambda>rm _ l. syncKernelRulesFromConfiguredMap ke rm l),
      cb_remove = (\<lambda>rm _ l. syncKernelRulesFromConfiguredMap ke' rm l)\<rparr>"

definition ConfigureRuleMap :: "kernel_env \<Rightarrow> RuleMap \<times> Loader \<Rightarrow> ebpf_error option \<times> RuleMap \<times> Loader" where
  "ConfigureRuleMap ke st =
     (case st of (rm, l) \<Rightarrow>
        (case rebuildKernelRulesLocked ke (pkt_ListRules rm) (l\<lparr>ld_ruleMap := True\<rparr>) of (r, l) \<Rightarrow> (r, rm, l)))"

section \<open>Loading\<close>

abbreviation xdpObjectName :: string where "xdpObjectName \<equiv> ''xdp_forwarder_bpfel.o''"

text \<open>
  The system: the functions of \<open>filepath\<close> and \<open>os\<close> that find the object file, and whether each step of
  loading it succeeds.
\<close>

record load_env =
  le_interface :: "string \<Rightarrow> bool"
  le_clean :: "string \<Rightarrow> string"
  le_join :: "string list \<Rightarrow> string"
  le_argdir :: string
  le_stat :: "string \<Rightarrow> bool"
  le_memlock :: bool
  le_spec :: "string \<Rightarrow> bool"
  le_assign :: bool
  le_attach :: bool

definition resolveObjectPath :: "load_env \<Rightarrow> Loader \<Rightarrow> string option" where
  "resolveObjectPath le l =
     (if eb_XDPObjectPath (ld_config l) \<noteq> [] then
        let p = le_clean le (eb_XDPObjectPath (ld_config l)) in if le_stat le p then Some p else None
      else find (le_stat le) (map (le_clean le)
             [xdpObjectName, le_join le [''internal'', ''ebpf'', xdpObjectName],
              le_join le [''server'', ''internal'', ''ebpf'', xdpObjectName], le_join le [le_argdir le, xdpObjectName]]))"

datatype xdp_flags = NoFlags | XDPGenericMode | XDPDriverMode | XDPOffloadMode

definition xdpAttachFlags :: "string \<Rightarrow> xdp_flags" where
  "xdpAttachFlags mode =
     (let m = to_lower (trim_space mode) in
      if m \<in> {[], ''auto''} then NoFlags
      else if m \<in> {''skb'', ''generic''} then XDPGenericMode
      else if m \<in> {''drv'', ''native''} then XDPDriverMode
      else if m \<in> {''hw'', ''offload''} then XDPOffloadMode
      else XDPGenericMode)"

definition closeKernelLocked :: "Loader \<Rightarrow> Loader" where
  "closeKernelLocked l = l\<lparr>ld_xdpLink := False, ld_xdpObjects := None, ld_kernelRuleKeys := fmempty\<rparr>"

definition fresh_objects :: xdpObjects where
  "fresh_objects = \<lparr>xo_Rules = fmempty, xo_DevMap = fmempty,
     xo_Stats = \<lparr>xs_PacketsForwarded = 0, xs_BytesForwarded = 0, xs_PacketsDropped = 0\<rparr>\<rparr>"

definition loadKernelLocked :: "load_env \<Rightarrow> Loader \<Rightarrow> ebpf_error option \<times> Loader" where
  "loadKernelLocked le l =
     (if \<not> le_interface le (eb_InterfaceName (ld_config l)) then (Some (KernelUnavailable ''lookup interface''), l)
      else (case resolveObjectPath le l of
          None \<Rightarrow> (Some (KernelUnavailable ''XDP object not found''), l)
        | Some path \<Rightarrow>
            if \<not> le_memlock le then (Some (KernelUnavailable ''remove memlock limit''), l)
            else if \<not> le_spec le path then (Some (KernelUnavailable ''load eBPF object''), l)
            else if \<not> le_assign le then (Some (KernelUnavailable ''load eBPF collection''), l)
            else if \<not> le_attach le then (Some (KernelUnavailable ''attach XDP''), l)
            else (None, l\<lparr>ld_xdpObjects := Some fresh_objects, ld_xdpLink := True\<rparr>)))"

definition loader_Load :: "load_env \<Rightarrow> kernel_env \<Rightarrow> RuleMap \<times> Loader \<Rightarrow> ebpf_error option \<times> RuleMap \<times> Loader" where
  "loader_Load le ke st =
     (case st of (rm, l) \<Rightarrow>
        if \<not> eb_Enabled (ld_config l) then (None, rm, l\<lparr>ld_mode := ModeUserspace\<rparr>)
        else (case loadKernelLocked le (closeKernelLocked l) of
          (Some e, l) \<Rightarrow>
            if eb_RequireKernelMode (ld_config l) then (Some e, rm, l) else (None, rm, l\<lparr>ld_mode := ModeUserspace\<rparr>)
        | (None, l) \<Rightarrow>
            let l = l\<lparr>ld_mode := ModeKernel\<rparr> in
            (case (if ld_ruleMap l then rebuildKernelRulesLocked ke (pkt_ListRules rm) l else (None, l)) of
               (Some e, l) \<Rightarrow>
                 (let l = (closeKernelLocked l)\<lparr>ld_mode := ModeUserspace\<rparr> in
                  (if eb_RequireKernelMode (ld_config l) then Some e else None, rm, l))
             | (None, l) \<Rightarrow> (None, rm, l))))"

definition loader_Unload :: "Loader \<Rightarrow> Loader" where
  "loader_Unload l = (closeKernelLocked l)\<lparr>ld_mode := ModeUserspace\<rparr>"

section \<open>The userspace forwarder\<close>

definition ProcessPacket ::
    "(string \<Rightarrow> ipnet option) \<Rightarrow> (string \<Rightarrow> netip) \<Rightarrow> packet \<Rightarrow> int \<Rightarrow> RuleMap \<times> Loader
     \<Rightarrow> (ebpf_error + string) \<times> RuleMap \<times> Loader" where
  "ProcessPacket ParseCIDR ParseIP p packetSize st =
     (case st of (rm, l) \<Rightarrow>
        (case Match ParseCIDR ParseIP p rm of
           None \<Rightarrow> (Inr [], rm, RecordForward packetSize l)
         | Some rule \<Rightarrow>
             if fr_Action rule = ActionDrop then (Inr [], rm, RecordDrop l)
             else if fr_Action rule = ActionPass then (Inr [], rm, l)
             else if fr_Action rule = ActionForward then (Inr (fr_Target rule), rm, RecordForward packetSize l)
             else (Inl (UnknownAction (fr_Action rule)), rm, l)))"

end
