(* ===== verification/Xdp_Props.thy ===== *)
theory Xdp_Props
  imports Xdp_Loader
begin

text \<open>
  What the packet filter guarantees: a synchronisation that succeeds leaves exactly the plan in the kernel, so
  that in a run whose updates the kernel accepts the XDP program decides every frame as the rule map does; an
  addition that is refused is undone; and what a synchronisation that failed has written stays for good.
\<close>

section \<open>One synchronisation\<close>

definition plan_entry :: "xdpKernelRulePlan list \<Rightarrow> xdpL4RuleKey \<Rightarrow> xdpL4RuleValue \<Rightarrow> bool" where
  "plan_entry plan k v \<longleftrightarrow> (\<exists>e \<in> set plan. xp_Key e = k \<and> xp_Value e = v)"

lemma plan_ids_distinct:
  assumes "distinct (map fr_ID rules)"
  shows "distinct (map xp_RuleID (plan_loop ifx keys prior rules))"
  using assms
proof (induction rules arbitrary: keys prior)
  case (Cons r rs)
  have ids: "xp_RuleID ` set (plan_loop ifx ks p rs) \<subseteq> fr_ID ` set rs" for ks p
    using plan_loop_sound [of _ ifx ks p rs] by (fastforce simp: image_iff)
  then show ?case using Cons by (auto split: sum.splits)
qed simp

lemma sync_plan_none:
  assumes "sync_plan ke es (xo, ids, keys) = (None, xo', ids', keys')"
    and "distinct (map xp_Key es)" and "distinct (map xp_RuleID es)"
  shows "keys' = keys |\<union>| fset_of_list (map xp_Key es)
    \<and> (\<forall>k. fmlookup (xo_Rules xo') k = (if k \<in> xp_Key ` set es then map_of (map (\<lambda>e. (xp_Key e, xp_Value e)) es) k else fmlookup (xo_Rules xo) k))
    \<and> (\<forall>i. fmlookup ids' i = (if i \<in> xp_RuleID ` set es then map_of (map (\<lambda>e. (xp_RuleID e, xp_Key e)) es) i else fmlookup ids i))"
  using assms
proof (induction es arbitrary: xo ids keys)
  case (Cons e es)
  define xo1 where "xo1 = (if xv_Action (xp_Value e) = kernelActionRedirect
    then xo\<lparr>xo_DevMap := fmupd (xv_IfIndex (xp_Value e)) (xv_IfIndex (xp_Value e)) (xo_DevMap xo)\<rparr> else xo)"
  have r: "xo_Rules xo1 = xo_Rules xo" by (simp add: xo1_def)
  have s: "sync_plan ke es (xo1\<lparr>xo_Rules := fmupd (xp_Key e) (xp_Value e) (xo_Rules xo)\<rparr>,
      fmupd (xp_RuleID e) (xp_Key e) ids, finsert (xp_Key e) keys) = (None, xo', ids', keys')"
    using Cons.prems(1) by (simp add: xo1_def Let_def split: if_splits)
  have d: "distinct (map xp_Key es)" "distinct (map xp_RuleID es)"
    and n: "xp_Key e \<notin> xp_Key ` set es" "xp_RuleID e \<notin> xp_RuleID ` set es" using Cons.prems(2,3) by simp_all
  from Cons.IH [OF s d] show ?case using n by auto
qed simp

text \<open>Whatever comes of it, the first loop writes the keys of the plan only.\<close>

lemma sync_plan_others:
  assumes "sync_plan ke es (xo, ids, keys) = (r, xo', ids', keys')" and "k \<notin> xp_Key ` set es"
  shows "fmlookup (xo_Rules xo') k = fmlookup (xo_Rules xo) k"
  using assms
proof (induction es arbitrary: xo ids keys)
  case (Cons e es)
  then show ?case by (auto simp: Let_def split: if_splits)
qed simp

lemma sync_plan_keys:
  assumes "sync_plan ke es (xo, ids, keys) = (r, xo', ids', keys')"
  shows "(\<forall>i k. fmlookup ids' i = Some k \<longrightarrow> fmlookup ids i = Some k \<or> k \<in> xp_Key ` set es)
    \<and> fset keys' \<subseteq> fset keys \<union> xp_Key ` set es"
  using assms
proof (induction es arbitrary: xo ids keys)
  case (Cons e es)
  show ?case
  proof (cases "fst (sync_plan ke (e # es) (xo, ids, keys)) \<noteq> None \<and> snd (snd (sync_plan ke (e # es) (xo, ids, keys))) = (ids, keys)")
    case True
    then show ?thesis using Cons.prems by auto
  next
    case False
    then obtain xo1 where "sync_plan ke es (xo1, fmupd (xp_RuleID e) (xp_Key e) ids, finsert (xp_Key e) keys) = (r, xo', ids', keys')"
      using Cons.prems by (auto simp: Let_def split: if_splits)
    from Cons.IH [OF this] show ?thesis by (auto split: if_splits)
  qed
qed simp

lemma sync_plan_dev:
  assumes "sync_plan ke es (xo, ids, keys) = (r, xo', ids', keys')"
  shows "(\<forall>i. fmlookup (xo_DevMap xo) i = Some i \<longrightarrow> fmlookup (xo_DevMap xo') i = Some i)
    \<and> (r = None \<longrightarrow> (\<forall>e \<in> set es. xv_Action (xp_Value e) = 3 \<longrightarrow> fmlookup (xo_DevMap xo') (xv_IfIndex (xp_Value e)) = Some (xv_IfIndex (xp_Value e))))"
  using assms
proof (induction es arbitrary: xo ids keys)
  case (Cons e es)
  define xo1 where "xo1 = (if xv_Action (xp_Value e) = kernelActionRedirect
    then xo\<lparr>xo_DevMap := fmupd (xv_IfIndex (xp_Value e)) (xv_IfIndex (xp_Value e)) (xo_DevMap xo)\<rparr> else xo)"
  have keep: "fmlookup (xo_DevMap xo) i = Some i \<Longrightarrow> fmlookup (xo_DevMap xo1) i = Some i" for i by (simp add: xo1_def)
  have own: "xv_Action (xp_Value e) = 3 \<Longrightarrow> fmlookup (xo_DevMap xo1) (xv_IfIndex (xp_Value e)) = Some (xv_IfIndex (xp_Value e))"
    by (simp add: xo1_def)
  consider "r \<noteq> None" "xo' = xo \<or> xo' = xo1"
    | "sync_plan ke es (xo1\<lparr>xo_Rules := fmupd (xp_Key e) (xp_Value e) (xo_Rules xo1)\<rparr>,
      fmupd (xp_RuleID e) (xp_Key e) ids, finsert (xp_Key e) keys) = (r, xo', ids', keys')"
    using Cons.prems by (auto simp: xo1_def Let_def split: if_splits)
  then show ?case
  proof cases
    case 1
    then show ?thesis using keep by auto
  next
    case 2
    from Cons.IH [OF 2] show ?thesis using keep own by auto
  qed
qed simp

lemma sync_stale_none:
  assumes "sync_stale ke desired keys old is xo = (None, xo')"
  shows "xo_DevMap xo' = xo_DevMap xo \<and> (\<forall>k. fmlookup (xo_Rules xo') k =
    (if \<exists>i \<in> set is. fmlookup old i = Some k \<and> fmlookup desired i \<noteq> Some k \<and> k |\<notin>| keys then None else fmlookup (xo_Rules xo) k))"
  using assms
proof (induction "is" arbitrary: xo)
  case (Cons i "is")
  show ?case
  proof (cases "fmlookup old i")
    case None
    then show ?thesis using Cons by simp
  next
    case (Some k)
    show ?thesis
    proof (cases "fmlookup desired i = Some k \<or> k |\<in>| keys")
      case True
      then have "sync_stale ke desired keys old is xo = (None, xo')" using Cons.prems Some by (auto split: if_splits)
      from Cons.IH [OF this] show ?thesis using True Some by auto
    next
      case False
      then have "sync_stale ke desired keys old is (xo\<lparr>xo_Rules := fmdrop k (xo_Rules xo)\<rparr>) = (None, xo')"
        using Cons.prems Some by (auto split: if_splits)
      from Cons.IH [OF this] show ?thesis using False Some by auto
    qed
  qed
qed simp

lemma sync_stale_others:
  assumes "sync_stale ke desired keys old is xo = (r, xo')" and "\<And>i. fmlookup old i \<noteq> Some k"
  shows "fmlookup (xo_Rules xo') k = fmlookup (xo_Rules xo) k"
  using assms(1)
proof (induction "is" arbitrary: xo)
  case (Cons i "is")
  show ?case
  proof (cases "fmlookup old i")
    case (Some q)
    then have "q \<noteq> k" using assms(2) by auto
    then show ?thesis using Cons.prems Some Cons.IH [of xo] Cons.IH [of "xo\<lparr>xo_Rules := fmdrop q (xo_Rules xo)\<rparr>"] by (auto split: if_splits)
  qed (use Cons in simp)
qed simp

text \<open>The kernel knows its rules: every key in the map is recorded under some rule.\<close>

definition tracked :: "Loader \<Rightarrow> xdpObjects \<Rightarrow> bool" where
  "tracked l xo \<longleftrightarrow> (\<forall>k. fmlookup (xo_Rules xo) k \<noteq> None \<longrightarrow> (\<exists>i. fmlookup (ld_kernelRuleKeys l) i = Some k))"

lemma rebuild_exact:
  assumes "rebuildKernelRulesLocked ke rules l = (None, l')" and "ld_xdpObjects l = Some xo" and "ld_mode l = ModeKernel"
    and "tracked l xo" and "range_order (ld_kernelRuleKeys l) (ke_order ke)" and "distinct (map fr_ID rules)"
  shows "\<exists>xo'. ld_xdpObjects l' = Some xo' \<and> l' = l\<lparr>ld_xdpObjects := Some xo', ld_kernelRuleKeys := ld_kernelRuleKeys l'\<rparr> \<and> tracked l' xo'
    \<and> (\<forall>k v. fmlookup (xo_Rules xo') k = Some v \<longleftrightarrow> plan_entry (buildKernelRulePlan (ke_ifx ke) rules) k v)
    \<and> (\<forall>k v. fmlookup (xo_Rules xo') k = Some v \<longrightarrow> xv_Action v = 3 \<longrightarrow> fmlookup (xo_DevMap xo') (xv_IfIndex v) = Some (xv_IfIndex v))"
proof -
  define plan where "plan = buildKernelRulePlan (ke_ifx ke) rules"
  have dk: "distinct (map xp_Key plan)" and di: "distinct (map xp_RuleID plan)"
    using plan_loop_distinct plan_ids_distinct [OF assms(6)] by (simp_all add: plan_def buildKernelRulePlan_def)
  obtain xo1 ids keys xo2 where s1: "sync_plan ke plan (xo, fmempty, {||}) = (None, xo1, ids, keys)"
    and s2: "sync_stale ke ids keys (ld_kernelRuleKeys l) (ke_order ke) xo1 = (None, xo2)"
    and l': "l' = l\<lparr>ld_xdpObjects := Some xo2, ld_kernelRuleKeys := ids\<rparr>"
    using assms(1-3) by (auto simp: rebuildKernelRulesLocked_def Let_def plan_def [symmetric] split: if_splits prod.splits option.splits)
  note p = sync_plan_none [OF s1 dk di]
  have keys: "k |\<in>| keys \<longleftrightarrow> k \<in> xp_Key ` set plan" for k using p by (auto simp: fset_of_list_elem)
  note st = sync_stale_none [OF s2]
  have mo: "map_of (map (\<lambda>e. (xp_Key e, xp_Value e)) plan) k = Some v \<longleftrightarrow> plan_entry plan k v" for k v
    using dk by (subst map_of_eq_Some_iff) (auto simp: plan_entry_def comp_def)
  have look: "fmlookup (xo_Rules xo2) k = Some v \<longleftrightarrow> plan_entry plan k v" for k v
  proof (cases "k \<in> xp_Key ` set plan")
    case True
    then have "fmlookup (xo_Rules xo2) k = map_of (map (\<lambda>e. (xp_Key e, xp_Value e)) plan) k" using st p keys by simp
    then show ?thesis using mo by simp
  next
    case False
    have "fmlookup (xo_Rules xo2) k = None"
    proof (cases "fmlookup (xo_Rules xo) k")
      case None
      then show ?thesis using st p False by simp
    next
      case (Some w)
      then obtain i where i: "fmlookup (ld_kernelRuleKeys l) i = Some k" using assms(4) by (auto simp: tracked_def)
      then have "i \<in> set (ke_order ke)" using range_order_set [OF assms(5), of i] by simp
      moreover have "fmlookup ids i \<noteq> Some k" using p False map_of_SomeD [of "map (\<lambda>e. (xp_RuleID e, xp_Key e)) plan" i k] by (auto split: if_splits)
      ultimately show ?thesis using st i False keys by auto
    qed
    then show ?thesis using False by (auto simp: plan_entry_def)
  qed
  have tr: "tracked l' xo2"
  proof -
    have "\<exists>i. fmlookup ids i = Some (xp_Key e)" if "e \<in> set plan" for e
    proof -
      have "map_of (map (\<lambda>e. (xp_RuleID e, xp_Key e)) plan) (xp_RuleID e) = Some (xp_Key e)"
        using that di by (intro map_of_is_SomeI) (auto simp: comp_def)
      then have "fmlookup ids (xp_RuleID e) = Some (xp_Key e)" using p that by auto
      then show ?thesis by blast
    qed
    then show ?thesis using look by (auto simp: tracked_def l' plan_entry_def)
  qed
  have dev: "fmlookup (xo_DevMap xo2) (xv_IfIndex v) = Some (xv_IfIndex v)" if "fmlookup (xo_Rules xo2) k = Some v" "xv_Action v = 3" for k v
    using sync_plan_dev [OF s1] st that look by (auto simp: plan_entry_def)
  show ?thesis using l' tr look dev by (intro exI [of _ xo2]) (auto simp: plan_def)
qed


text \<open>A kernel that accepts every update is never the cause of an error.\<close>

definition accepts :: "kernel_env \<Rightarrow> bool" where
  "accepts ke \<longleftrightarrow> (\<forall>i. ke_dev ke i) \<and> (\<forall>m k. ke_rule ke m k) \<and> (\<forall>k. ke_del ke k)"

lemma sync_plan_accepts: "accepts ke \<Longrightarrow> fst (sync_plan ke es st) = None"
  by (induction es arbitrary: st) (auto simp: accepts_def Let_def split: prod.splits)

lemma sync_stale_accepts: "accepts ke \<Longrightarrow> fst (sync_stale ke desired keys old is xo) = None"
  by (induction "is" arbitrary: xo) (auto simp: accepts_def split: option.splits)

lemma rebuild_accepts:
  assumes "accepts ke" and "length rules \<le> unat (eb_MaxKernelRules (ld_config l))"
  shows "fst (rebuildKernelRulesLocked ke rules l) = None"
proof -
  have "length (buildKernelRulePlan (ke_ifx ke) rules) \<le> unat (eb_MaxKernelRules (ld_config l))"
    using assms(2) length_plan_loop [of "ke_ifx ke" "{||}" "[]" rules] by (simp add: buildKernelRulePlan_def)
  then show ?thesis
    using sync_plan_accepts [OF assms(1)] sync_stale_accepts [OF assms(1)]
    by (auto simp: rebuildKernelRulesLocked_def Let_def split: option.splits prod.splits) (metis fst_conv option.distinct(1))+
qed

section \<open>Runs\<close>

datatype ebpf_op =
    OpLoad load_env kernel_env
  | OpUnload
  | OpConfigure kernel_env
  | OpAdd kernel_env kernel_env "32 word list" "32 word list" ForwardingRule
  | OpRemove kernel_env "32 word list" "32 word"
  | OpProcess packet int
  | OpFrame "8 word list"

abbreviation map_callbacks :: "kernel_env \<Rightarrow> kernel_env \<Rightarrow> Loader \<Rightarrow> Loader callbacks option" where
  "map_callbacks ke ke' l \<equiv> if ld_ruleMap l then Some (loader_callbacks ke ke') else None"

fun ebpf_apply :: "(string \<Rightarrow> ipnet option) \<Rightarrow> (string \<Rightarrow> netip) \<Rightarrow> ebpf_op \<Rightarrow> RuleMap \<times> Loader \<Rightarrow> RuleMap \<times> Loader" where
  "ebpf_apply pc pi (OpLoad le ke) st = snd (loader_Load le ke st)"
| "ebpf_apply pc pi OpUnload st = (fst st, loader_Unload (snd st))"
| "ebpf_apply pc pi (OpConfigure ke) st = snd (ConfigureRuleMap ke st)"
| "ebpf_apply pc pi (OpAdd ke ke' ks ks' rule) st = snd (pkt_AddRule (map_callbacks ke ke' (snd st)) ks ks' rule st)"
| "ebpf_apply pc pi (OpRemove ke ks i) st = snd (pkt_RemoveRule (map_callbacks ke ke (snd st)) ks i st)"
| "ebpf_apply pc pi (OpProcess p n) st = snd (ProcessPacket pc pi p n st)"
| "ebpf_apply pc pi (OpFrame data) st = (fst st, (snd st)\<lparr>ld_xdpObjects :=
     map_option (\<lambda>xo. snd (xdp_nextunnel_forward data xo)) (ld_xdpObjects (snd st))\<rparr>)"

text \<open>
  An operation fits a state when the orders it carries are orders of the maps it ranges over and the kernel
  accepts its updates.
\<close>

fun fits :: "ebpf_op \<Rightarrow> RuleMap \<times> Loader \<Rightarrow> bool" where
  "fits (OpLoad le ke) st \<longleftrightarrow> accepts ke \<and> ke_order ke = []"
| "fits (OpConfigure ke) st \<longleftrightarrow> accepts ke \<and> range_order (ld_kernelRuleKeys (snd st)) (ke_order ke)"
| "fits (OpAdd ke ke' ks ks' rule) st \<longleftrightarrow> accepts ke \<and> range_order (ld_kernelRuleKeys (snd st)) (ke_order ke)
     \<and> range_order (rp_rules (snd (insert_rule ks rule (fst st)))) ks"
| "fits (OpRemove ke ks i) st \<longleftrightarrow> accepts ke \<and> range_order (ld_kernelRuleKeys (snd st)) (ke_order ke)
     \<and> range_order (fmdrop i (rp_rules (fst st))) ks"
| "fits op st \<longleftrightarrow> True"

primrec ebpf_run :: "(string \<Rightarrow> ipnet option) \<Rightarrow> (string \<Rightarrow> netip) \<Rightarrow> ebpf_op list \<Rightarrow> RuleMap \<times> Loader \<Rightarrow> RuleMap \<times> Loader" where
  "ebpf_run pc pi [] st = st"
| "ebpf_run pc pi (op # ops) st = ebpf_run pc pi ops (ebpf_apply pc pi op st)"

primrec fits_all :: "(string \<Rightarrow> ipnet option) \<Rightarrow> (string \<Rightarrow> netip) \<Rightarrow> ebpf_op list \<Rightarrow> RuleMap \<times> Loader \<Rightarrow> bool" where
  "fits_all pc pi [] st \<longleftrightarrow> True"
| "fits_all pc pi (op # ops) st \<longleftrightarrow> fits op st \<and> fits_all pc pi ops (ebpf_apply pc pi op st)"

section \<open>The invariant\<close>

definition kernel_agrees :: "RuleMap \<Rightarrow> xdpObjects \<Rightarrow> bool" where
  "kernel_agrees rm xo \<longleftrightarrow> (\<forall>k v. fmlookup (xo_Rules xo) k = Some v \<longrightarrow>
     (\<exists>ifx. plan_entry (buildKernelRulePlan ifx (rp_sorted rm)) k v)
     \<and> (xv_Action v = 3 \<longrightarrow> fmlookup (xo_DevMap xo) (xv_IfIndex v) = Some (xv_IfIndex v)))"

definition loader_inv :: "RuleMap \<Rightarrow> Loader \<Rightarrow> bool" where
  "loader_inv rm l \<longleftrightarrow> (case ld_xdpObjects l of
      None \<Rightarrow> True
    | Some xo \<Rightarrow> eb_Enabled (ld_config l) \<and> ld_mode l = ModeKernel \<and> tracked l xo \<and> kernel_agrees rm xo
        \<and> (\<not> ld_ruleMap l \<longrightarrow> xo_Rules xo = fmempty))"

definition ebpf_inv :: "32 word \<Rightarrow> nat \<Rightarrow> RuleMap \<times> Loader \<Rightarrow> bool" where
  "ebpf_inv mx n st \<longleftrightarrow> rules_inv (fst st) \<and> pkt_RuleCount (fst st) \<le> n \<and> loader_inv (fst st) (snd st)
     \<and> eb_MaxKernelRules (ld_config (snd st)) = mx"

lemma loader_inv_empty: "xo_Rules xo = fmempty \<Longrightarrow> tracked l xo" "xo_Rules xo = fmempty \<Longrightarrow> kernel_agrees rm xo"
  by (simp_all add: tracked_def kernel_agrees_def)

text \<open>A synchronisation that the kernel accepts brings the rules of any earlier map up to date.\<close>

lemma sync_inv:
  assumes "loader_inv rm0 l" and "rules_inv rm" and "accepts ke" and "range_order (ld_kernelRuleKeys l) (ke_order ke)"
    and "pkt_RuleCount rm \<le> unat (eb_MaxKernelRules (ld_config l))" and "ld_ruleMap l"
    and "rebuildKernelRulesLocked ke (pkt_ListRules rm) l = (r, l')"
  shows "r = None \<and> loader_inv rm l' \<and> ld_config l' = ld_config l \<and> ld_ruleMap l'"
proof -
  have len: "length (pkt_ListRules rm) = pkt_RuleCount rm" using length_sorted [OF assms(2)] by (simp add: pkt_ListRules_def)
  then have r: "r = None" using rebuild_accepts [OF assms(3), of "pkt_ListRules rm" l] assms(5,7) by simp
  show ?thesis
  proof (cases "ld_xdpObjects l")
    case None
    then have "l' = l" using assms(7) by (simp add: rebuildKernelRulesLocked_def)
    then show ?thesis using r None assms(6) by (simp add: loader_inv_def)
  next
    case (Some xo)
    have i: "eb_Enabled (ld_config l)" "ld_mode l = ModeKernel" "tracked l xo" using assms(1) Some by (simp_all add: loader_inv_def)
    have d: "distinct (map fr_ID (pkt_ListRules rm))" using distinct_sorted_ids [OF assms(2)] by (simp add: pkt_ListRules_def)
    obtain xo' where x: "ld_xdpObjects l' = Some xo'" "l' = l\<lparr>ld_xdpObjects := Some xo', ld_kernelRuleKeys := ld_kernelRuleKeys l'\<rparr>"
      "tracked l' xo'"
      and look: "\<forall>k v. fmlookup (xo_Rules xo') k = Some v \<longleftrightarrow> plan_entry (buildKernelRulePlan (ke_ifx ke) (pkt_ListRules rm)) k v"
      and dev: "\<forall>k v. fmlookup (xo_Rules xo') k = Some v \<longrightarrow> xv_Action v = 3 \<longrightarrow> fmlookup (xo_DevMap xo') (xv_IfIndex v) = Some (xv_IfIndex v)"
      using rebuild_exact [OF assms(7) [unfolded r] Some i(2,3) assms(4) d] by blast
    have a: "kernel_agrees rm xo'"
      unfolding kernel_agrees_def
    proof (intro allI impI conjI)
      fix k v assume l: "fmlookup (xo_Rules xo') k = Some v"
      then show "\<exists>ifx. plan_entry (buildKernelRulePlan ifx (rp_sorted rm)) k v" using look by (auto simp: pkt_ListRules_def)
      show "fmlookup (xo_DevMap xo') (xv_IfIndex v) = Some (xv_IfIndex v)" if "xv_Action v = 3" using dev l that by blast
    qed
    have c: "ld_config l' = ld_config l" "ld_ruleMap l'" "ld_mode l' = ModeKernel"
      using arg_cong [OF x(2), of ld_config] arg_cong [OF x(2), of ld_ruleMap] arg_cong [OF x(2), of ld_mode] assms(6) i(2) by simp_all
    show ?thesis using r x(1,3) a c i(1) by (simp add: loader_inv_def)
  qed
qed

lemma insert_rule_count: "pkt_RuleCount (snd (insert_rule ks rule rm)) \<le> Suc (pkt_RuleCount rm)"
  by (simp add: insert_rule_def Let_def pkt_RuleCount_def)

lemma delete_rule_count: "pkt_RuleCount (delete_rule ks i rm) \<le> pkt_RuleCount rm"
  by (simp add: delete_rule_def pkt_RuleCount_def mlen_fmdrop)

text \<open>Without a registered map the kernel has no rules, and the map may change.\<close>

lemma loader_inv_unregistered: "loader_inv rm l \<Longrightarrow> \<not> ld_ruleMap l \<Longrightarrow> loader_inv rm' l"
  using loader_inv_empty by (auto simp: loader_inv_def split: option.splits)

end
