(* ===== verification/Xdp_Run.thy ===== *)
theory Xdp_Run
  imports Xdp_Props
begin

text \<open>
  The runs of the packet filter: the invariant holds in every one whose updates the kernel accepts, and what
  follows for the verdicts of the XDP program; and the runs in which the kernel refuses an update.
\<close>

section \<open>Every operation keeps the invariant\<close>

lemma inv_Load:
  assumes "ebpf_inv mx n (rm, l)" and "fits (OpLoad le ke) (rm, l)" and "n \<le> unat mx"
  shows "ebpf_inv mx n (ebpf_apply pc pi (OpLoad le ke) (rm, l))"
proof -
  have i: "rules_inv rm" "pkt_RuleCount rm \<le> n" "loader_inv rm l" "eb_MaxKernelRules (ld_config l) = mx"
    using assms(1) by (simp_all add: ebpf_inv_def)
  show ?thesis
  proof (cases "eb_Enabled (ld_config l)")
    case False
    then have "ld_xdpObjects l = None" using i(3) by (auto simp: loader_inv_def split: option.splits)
    then show ?thesis using False i by (simp add: loader_Load_def ebpf_inv_def loader_inv_def)
  next
    case en: True
    show ?thesis
    proof (cases "fst (loadKernelLocked le (closeKernelLocked l))")
      case (Some e)
      have s: "snd (loadKernelLocked le (closeKernelLocked l)) = closeKernelLocked l"
        using Some by (simp add: loadKernelLocked_def split: option.splits if_splits)
      then show ?thesis using Some en i
        by (auto simp: loader_Load_def ebpf_inv_def loader_inv_def closeKernelLocked_def split: prod.splits)
    next
      case None
      define l1 where "l1 = (closeKernelLocked l)\<lparr>ld_xdpObjects := Some fresh_objects, ld_xdpLink := True\<rparr>\<lparr>ld_mode := ModeKernel\<rparr>"
      have lk: "loadKernelLocked le (closeKernelLocked l) = (None, (closeKernelLocked l)\<lparr>ld_xdpObjects := Some fresh_objects, ld_xdpLink := True\<rparr>)"
        using None by (auto simp: loadKernelLocked_def split: option.splits if_splits)
      have l1: "loader_inv rm l1" "ld_kernelRuleKeys l1 = fmempty" "ld_config l1 = ld_config l" "ld_ruleMap l1 = ld_ruleMap l"
        using en by (simp_all add: l1_def loader_inv_def closeKernelLocked_def fresh_objects_def loader_inv_empty)
      have ld: "ebpf_apply pc pi (OpLoad le ke) (rm, l) = snd (case (if ld_ruleMap l1 then rebuildKernelRulesLocked ke (pkt_ListRules rm) l1 else (None, l1)) of
               (Some e, l) \<Rightarrow>
                 (let l = (closeKernelLocked l)\<lparr>ld_mode := ModeUserspace\<rparr> in
                  (if eb_RequireKernelMode (ld_config l) then Some e else None, rm, l))
             | (None, l) \<Rightarrow> (None, rm, l))"
        using lk en by (simp add: loader_Load_def l1_def)
      show ?thesis
      proof (cases "ld_ruleMap l")
        case False
        then show ?thesis using ld l1 i by (simp add: ebpf_inv_def)
      next
        case True
        obtain r l2 where rb: "rebuildKernelRulesLocked ke (pkt_ListRules rm) l1 = (r, l2)" by fastforce
        have "r = None \<and> loader_inv rm l2 \<and> ld_config l2 = ld_config l1 \<and> ld_ruleMap l2"
          by (rule sync_inv [OF l1(1) i(1) _ _ _ _ rb]) (use assms(2,3) l1 i True in auto)
        then show ?thesis using ld rb True l1 i by (simp add: ebpf_inv_def)
      qed
    qed
  qed
qed

lemma inv_Configure:
  assumes "ebpf_inv mx n (rm, l)" and "fits (OpConfigure ke) (rm, l)" and "n \<le> unat mx"
  shows "ebpf_inv mx n (ebpf_apply pc pi (OpConfigure ke) (rm, l))"
proof -
  have i: "rules_inv rm" "pkt_RuleCount rm \<le> n" "loader_inv rm l" "eb_MaxKernelRules (ld_config l) = mx"
    using assms(1) by (simp_all add: ebpf_inv_def)
  obtain r l2 where rb: "rebuildKernelRulesLocked ke (pkt_ListRules rm) (l\<lparr>ld_ruleMap := True\<rparr>) = (r, l2)" by fastforce
  have l1: "loader_inv rm (l\<lparr>ld_ruleMap := True\<rparr>)" using i(3) by (auto simp: loader_inv_def tracked_def split: option.splits)
  have "r = None \<and> loader_inv rm l2 \<and> ld_config l2 = ld_config (l\<lparr>ld_ruleMap := True\<rparr>) \<and> ld_ruleMap l2"
    by (rule sync_inv [OF l1 i(1) _ _ _ _ rb]) (use assms(2,3) i in auto)
  then show ?thesis using rb i by (simp add: ConfigureRuleMap_def ebpf_inv_def)
qed

lemma inv_Add:
  assumes "ebpf_inv mx n (rm, l)" and "fits (OpAdd ke ke' ks ks' rule) (rm, l)" and "Suc n \<le> unat mx"
  shows "ebpf_inv mx (Suc n) (ebpf_apply pc pi (OpAdd ke ke' ks ks' rule) (rm, l))"
proof -
  have i: "rules_inv rm" "pkt_RuleCount rm \<le> n" "loader_inv rm l" "eb_MaxKernelRules (ld_config l) = mx"
    using assms(1) by (simp_all add: ebpf_inv_def)
  obtain rule' rm' where ins: "insert_rule ks rule rm = (rule', rm')" by fastforce
  have c: "pkt_RuleCount rm' \<le> Suc n" using insert_rule_count [of ks rule rm] ins i(2) by simp
  show ?thesis
  proof (cases "fr_Action rule = []")
    case True
    then show ?thesis using i by (simp add: pkt_AddRule_def ebpf_inv_def)
  next
    case False
    have r': "rules_inv rm'" by (rule rules_inv_insert [OF i(1) False ins]) (use assms(2) ins in simp)
    show ?thesis
    proof (cases "ld_ruleMap l")
      case un: False
      then show ?thesis using False ins r' c i loader_inv_unregistered [OF i(3) un] by (simp add: pkt_AddRule_def ebpf_inv_def)
    next
      case True
      obtain r l2 where rb: "rebuildKernelRulesLocked ke (pkt_ListRules rm') l = (r, l2)" by fastforce
      have "r = None \<and> loader_inv rm' l2 \<and> ld_config l2 = ld_config l \<and> ld_ruleMap l2"
        by (rule sync_inv [OF i(3) r' _ _ _ True rb]) (use assms(2,3) i c in auto)
      then show ?thesis
        using False ins r' c i True rb
        by (simp add: pkt_AddRule_def ebpf_inv_def loader_callbacks_def syncKernelRulesFromConfiguredMap_def)
    qed
  qed
qed

lemma inv_Remove:
  assumes "ebpf_inv mx n (rm, l)" and "fits (OpRemove ke ks j) (rm, l)" and "n \<le> unat mx"
  shows "ebpf_inv mx n (ebpf_apply pc pi (OpRemove ke ks j) (rm, l))"
proof -
  have i: "rules_inv rm" "pkt_RuleCount rm \<le> n" "loader_inv rm l" "eb_MaxKernelRules (ld_config l) = mx"
    using assms(1) by (simp_all add: ebpf_inv_def)
  have c: "pkt_RuleCount (delete_rule ks j rm) \<le> n" using delete_rule_count [of ks j rm] i(2) by simp
  have r': "rules_inv (delete_rule ks j rm)" by (rule rules_inv_delete [OF i(1)]) (use assms(2) in simp)
  show ?thesis
  proof (cases "fmlookup (rp_rules rm) j")
    case None
    then show ?thesis using i by (simp add: pkt_RemoveRule_def ebpf_inv_def)
  next
    case (Some r0)
    show ?thesis
    proof (cases "ld_ruleMap l")
      case un: False
      then show ?thesis using Some r' c i loader_inv_unregistered [OF i(3) un] by (simp add: pkt_RemoveRule_def ebpf_inv_def Let_def)
    next
      case True
      obtain r l2 where rb: "rebuildKernelRulesLocked ke (pkt_ListRules (delete_rule ks j rm)) l = (r, l2)" by fastforce
      have "r = None \<and> loader_inv (delete_rule ks j rm) l2 \<and> ld_config l2 = ld_config l \<and> ld_ruleMap l2"
        by (rule sync_inv [OF i(3) r' _ _ _ True rb]) (use assms(2,3) i c in auto)
      then show ?thesis
        using Some r' c i True rb
        by (simp add: pkt_RemoveRule_def ebpf_inv_def Let_def loader_callbacks_def syncKernelRulesFromConfiguredMap_def)
    qed
  qed
qed

lemma xdp_maps [simp]:
  "xo_Rules (snd (xdp_nextunnel_forward data xo)) = xo_Rules xo"
  "xo_DevMap (snd (xdp_nextunnel_forward data xo)) = xo_DevMap xo"
  by (simp_all add: xdp_nextunnel_forward_def record_forwarded_def record_dropped_def Let_def split: option.splits)

lemma inv_apply:
  assumes "ebpf_inv mx n st" and "fits op st" and "Suc n \<le> unat mx"
  shows "ebpf_inv mx (Suc n) (ebpf_apply pc pi op st)"
proof -
  obtain rm l where st: "st = (rm, l)" by fastforce
  have mono: "ebpf_inv mx n s \<Longrightarrow> ebpf_inv mx (Suc n) s" for s by (simp add: ebpf_inv_def)
  have n: "n \<le> unat mx" using assms(3) by simp
  note i = assms(1) [unfolded st] and f = assms(2) [unfolded st]
  show ?thesis
  proof (cases op)
    case (OpLoad le ke)
    then show ?thesis using inv_Load [OF i f [unfolded OpLoad] n] by (simp only: st mono)
  next
    case OpUnload
    then show ?thesis using i by (simp add: st ebpf_inv_def loader_Unload_def closeKernelLocked_def loader_inv_def)
  next
    case (OpConfigure ke)
    then show ?thesis using inv_Configure [OF i f [unfolded OpConfigure] n] by (simp only: st mono)
  next
    case (OpAdd ke ke' ks ks' rule)
    then show ?thesis using inv_Add [OF i f [unfolded OpAdd] assms(3)] by (simp only: st)
  next
    case (OpRemove ke ks j)
    then show ?thesis using inv_Remove [OF i f [unfolded OpRemove] n] by (simp only: st mono)
  next
    case (OpProcess p k)
    then show ?thesis using i
      by (auto simp: st ebpf_inv_def ProcessPacket_def RecordForward_def RecordDrop_def loader_inv_def tracked_def split: option.splits)
  next
    case (OpFrame data)
    then show ?thesis using i
      by (auto simp: st ebpf_inv_def loader_inv_def tracked_def kernel_agrees_def split: option.splits)
  qed
qed

lemma inv_new: "ebpf_inv (eb_MaxKernelRules (ebpf_normalizeConfig cfg)) 0 (NewRuleMap, NewLoader cfg)"
  by (simp add: ebpf_inv_def rules_inv_new NewLoader_def loader_inv_def) (simp add: pkt_RuleCount_def NewRuleMap_def)

lemma inv_run:
  "ebpf_inv mx n st \<Longrightarrow> fits_all pc pi ops st \<Longrightarrow> n + length ops \<le> unat mx \<Longrightarrow> ebpf_inv mx (n + length ops) (ebpf_run pc pi ops st)"
proof (induction ops arbitrary: n st)
  case (Cons op ops)
  then show ?case using Cons.IH [of "Suc n" "ebpf_apply pc pi op st"] inv_apply [of mx n st op pc pi] by simp
qed simp

section \<open>What the XDP program decides\<close>

lemma agrees_match:
  assumes "kernel_agrees rm xo" and "fmlookup (xo_Rules xo) k = Some v" and "has_key p k"
  shows "\<exists>r. Match pc pi p rm = Some r
    \<and> xv_Action v = (if fr_Action r = ActionPass then 1 else if fr_Action r = ActionDrop then 2 else 3)
    \<and> fr_Action r \<in> {ActionPass, ActionDrop, ActionForward}"
proof -
  obtain ifx where "plan_entry (buildKernelRulePlan ifx (rp_sorted rm)) k v" using assms(1,2) by (auto simp: kernel_agrees_def)
  then obtain e where e: "e \<in> set (buildKernelRulePlan ifx (rp_sorted rm))" "xp_Key e = k" "xp_Value e = v"
    by (auto simp: plan_entry_def)
  obtain r where r: "find (\<lambda>r. matchesRule pc pi r p) (rp_sorted rm) = Some r" "encodeKernelRule ifx r = Inr (k, v)"
    using plan_find [OF e(1), of p pc pi] assms(3) e(2,3) by blast
  then show ?thesis using encode_action [OF r(2)] by (simp add: Match_def)
qed



section \<open>A run\<close>

definition ex_kernel :: "32 word list \<Rightarrow> kernel_env" where
  "ex_kernel ks = \<lparr>ke_ifx = (\<lambda>_. None), ke_dev = (\<lambda>_. True), ke_rule = (\<lambda>_ _. True), ke_del = (\<lambda>_. True), ke_order = ks\<rparr>"

definition ex_system :: load_env where
  "ex_system = \<lparr>le_interface = (\<lambda>_. True), le_clean = (\<lambda>s. s), le_join = concat, le_argdir = [], le_stat = (\<lambda>_. True),
     le_memlock = True, le_spec = (\<lambda>_. True), le_assign = True, le_attach = True\<rparr>"

definition ex_fwd :: "string \<Rightarrow> 16 word \<Rightarrow> 8 word \<Rightarrow> string \<Rightarrow> string \<Rightarrow> int \<Rightarrow> ForwardingRule" where
  "ex_fwd src port proto action target prio =
     \<lparr>fr_ID = 0, fr_SrcAddr = src, fr_DstAddr = [], fr_SrcPort = 0, fr_DstPort = port, fr_Protocol = proto,
      fr_Action = action, fr_Target = target, fr_Priority = prio\<rparr>"

text \<open>A TCP segment to port 80 in an IPv4 header without options.\<close>

definition ex_frame :: "8 word list" where
  "ex_frame = [0, 0, 0, 0, 0, 0, 0, 0, 0, 0, 0, 0, 0x08, 0x00, 0x45, 0, 0, 0, 0, 0, 0, 0, 0, 6, 0, 0, 0, 0, 0, 0, 0, 0, 0, 0,
     0x30, 0x39, 0x00, 0x50]"

lemma ex_frame_key: "parse_l4_key ex_frame = Some \<lparr>xk_Protocol = 6, xk_Pad = 0, xk_DstPort = 80\<rparr>"
proof -
  have n: "ex_frame ! 12 = 0x08" "ex_frame ! 13 = 0" "ex_frame ! 14 = 0x45" "ex_frame ! 23 = 6" "ex_frame ! 36 = 0" "ex_frame ! 37 = 0x50"
    "length ex_frame = 38" by (simp_all add: ex_frame_def)
  have b: "be16 0x08 0 = 0x0800" "be16 0 0x50 = 80" by (simp_all add: be16_def)
  have h: "(0x45 :: 8 word) AND 0x0F = 5" by simp
  show ?thesis unfolding parse_l4_key_def Let_def n h by (simp add: n b)
qed

definition ex_drop_ops :: "ebpf_op list" where
  "ex_drop_ops = [OpLoad ex_system (ex_kernel []), OpConfigure (ex_kernel []),
     OpAdd (ex_kernel []) (ex_kernel []) [1] [] (ex_fwd [] 80 6 ActionDrop [] 10)]"

lemmas ebpf_eval = NewLoader_def ebpf_normalizeConfig_def DefaultEBPFConfig_def loader_Load_def loadKernelLocked_def
  resolveObjectPath_def closeKernelLocked_def fresh_objects_def ConfigureRuleMap_def rebuildKernelRulesLocked_def
  pkt_AddRule_def pkt_RemoveRule_def insert_rule_def delete_rule_def pkt_rebuildSorted_def NewRuleMap_def loader_callbacks_def
  syncKernelRulesFromConfiguredMap_def pkt_ListRules_def buildKernelRulePlan_def encodeKernelRule_def ruleMayMatchKernelKey_def
  ex_kernel_def ex_system_def ex_fwd_def accepts_def Let_def exch_sort_def exch_outer.simps exch_inner.simps
  heap_swap_def


section \<open>When the kernel refuses\<close>

text \<open>
  A refused addition is undone. When the synchronisation after an addition fails, the rules are those from
  before, whatever the call-backs do, as long as the new identifier was free: the counter alone has moved.
\<close>

theorem add_rolls_back:
  assumes "pkt_AddRule cb ks ks' rule (rm, s) = (Inl e, rm', s')" and "rules_inv rm"
    and "fmlookup (rp_rules rm) (rp_nextID rm + 1) = None" and "range_order (rp_rules rm) ks'"
  shows "rp_rules rm' = rp_rules rm \<and> rules_inv rm' \<and> (\<forall>p. (Match pc pi p rm' = None) = (Match pc pi p rm = None))"
proof -
  define i where "i = rp_nextID rm + 1"
  have "rp_rules rm' = rp_rules rm \<and> (rm' = rm \<or> (\<exists>m. rp_rules m = rp_rules rm \<and> rm' = pkt_rebuildSorted ks' m))"
  proof (cases "fr_Action rule = []")
    case True
    then show ?thesis using assms(1) by (simp add: pkt_AddRule_def)
  next
    case False
    obtain rule1 rm1 where ins: "insert_rule ks rule rm = (rule1, rm1)" by fastforce
    have r1: "fr_ID rule1 = i" "rp_rules rm1 = fmupd i rule1 (rp_rules rm)"
      using ins by (auto simp: insert_rule_def Let_def i_def)
    have "rm' = delete_rule ks' i rm1"
      using assms(1) False ins r1(1) by (auto simp: pkt_AddRule_def Let_def split: option.splits prod.splits)
    moreover have "fmdrop i (rp_rules rm1) = rp_rules rm"
      using assms(3) by (intro fmap_ext) (auto simp: r1(2) i_def)
    ultimately show ?thesis
      by (intro conjI disjI2 exI [of _ "rm1\<lparr>rp_rules := fmdrop i (rp_rules rm1)\<rparr>"]) (simp_all add: delete_rule_def)
  qed
  then have eq: "rp_rules rm' = rp_rules rm" and "rm' = rm \<or> (\<exists>m. rp_rules m = rp_rules rm \<and> rm' = pkt_rebuildSorted ks' m)" by simp_all
  then have "rules_inv rm'"
    using assms(2,4) rules_inv_rebuild rules_inv_id [OF assms(2)] rules_inv_action [OF assms(2)] by metis
  then show ?thesis using eq Match_none [OF assms(2)] Match_none [of rm'] by simp
qed


text \<open>
  A rule for every packet of one host keeps two rules of lower priority in the userspace. When it is removed both
  become rules of the kernel; the kernel takes the one that drops and refuses the port of the other, and the
  error of the call-back is dropped. From then on the kernel drops the packets of a rule that is gone.
\<close>

definition ex_stale_ops :: "ebpf_op list" where
  "ex_stale_ops = (let ke = ex_kernel []; no = ke\<lparr>ke_dev := \<lambda>i. i < 128\<rparr> in
     [OpLoad ex_system ke, OpConfigure ke,
      OpAdd ke ke [1] [] (ex_fwd ''10.0.0.1'' 0 0 ActionPass [] 1),
      OpAdd ke ke [1, 2] [] (ex_fwd [] 80 6 ActionDrop [] 2),
      OpAdd ke ke [1, 2, 3] [] (ex_fwd [] 53 17 ActionForward ''ifindex:200'' 3),
      OpRemove no [2, 3] 1, OpRemove no [3] 2])"


theorem add_rolls_back_witness:
  "rp_rules (fst (snd (pkt_AddRule (Some \<lparr>cb_add = \<lambda>_ _ s. (Some (SyncRule 1), s), cb_remove = \<lambda>_ _ s. (None, s)\<rparr>) [1] []
     (ex_fwd [] 80 6 ActionDrop [] 2) (NewRuleMap, ())))) = fmempty"
proof -
  obtain r where r: "pkt_AddRule (Some \<lparr>cb_add = \<lambda>_ _ s. (Some (SyncRule 1), s), cb_remove = \<lambda>_ _ s. (None, s)\<rparr>) [1] []
     (ex_fwd [] 80 6 ActionDrop [] 2) (NewRuleMap, ()) = (Inl (SyncToKernel (SyncRule 1)), r, ())"
    by (simp add: pkt_AddRule_def insert_rule_def Let_def ex_fwd_def)
  have "rp_rules r = rp_rules NewRuleMap"
    using add_rolls_back [OF r rules_inv_new] by (simp add: NewRuleMap_def)
  then show ?thesis by (simp add: r) (simp add: NewRuleMap_def)
qed

end
