(* ===== verification/Client_Token.thy ===== *)
theory Client_Token
  imports Go_Prelude
begin

text \<open>
  The tokens of the desktop client (\<open>desktop/internal/auth/token.go\<close>) with the unpadded URL-safe Base64 of
  Go's library that they are written in. A byte is a character. The keyed hash and the JSON of the claims are
  arguments; a clock reading is an argument of the function that takes it.
\<close>

named_theorems b64_simps \<open>the alphabet of Base64\<close>

section \<open>Base64\<close>

definition b64_char :: "nat \<Rightarrow> char" where
  "b64_char n =
     (if n < 26 then char_of (65 + n)
      else if n < 52 then char_of (71 + n)
      else if n < 62 then char_of (n - 4)
      else if n = 62 then CHR ''-'' else CHR ''_'')"

definition b64_val :: "char \<Rightarrow> nat option" where
  "b64_val c =
     (let n = of_char c :: nat in
      if 65 \<le> n \<and> n \<le> 90 then Some (n - 65)
      else if 97 \<le> n \<and> n \<le> 122 then Some (n - 71)
      else if 48 \<le> n \<and> n \<le> 57 then Some (n + 4)
      else if n = 45 then Some 62 else if n = 95 then Some 63 else None)"

abbreviation byte :: "char \<Rightarrow> nat" where "byte c \<equiv> of_char c"

fun b64_encode :: "string \<Rightarrow> string" where
  "b64_encode [] = []"
| "b64_encode [a] = [b64_char (byte a div 4), b64_char (byte a mod 4 * 16)]"
| "b64_encode [a, b] =
     [b64_char (byte a div 4), b64_char (byte a mod 4 * 16 + byte b div 16), b64_char (byte b mod 16 * 4)]"
| "b64_encode (a # b # c # rest) =
     b64_char (byte a div 4) # b64_char (byte a mod 4 * 16 + byte b div 16)
     # b64_char (byte b mod 16 * 4 + byte c div 64) # b64_char (byte c mod 64) # b64_encode rest"

fun b64_quanta :: "nat list \<Rightarrow> string option" where
  "b64_quanta [] = Some []"
| "b64_quanta [a] = None"
| "b64_quanta [a, b] = Some [char_of (a * 4 + b div 16)]"
| "b64_quanta [a, b, c] = Some [char_of (a * 4 + b div 16), char_of (b mod 16 * 16 + c div 4)]"
| "b64_quanta (a # b # c # d # rest) =
     map_option (\<lambda>r. char_of (a * 4 + b div 16) # char_of (b mod 16 * 16 + c div 4) # char_of (c mod 4 * 64 + d) # r)
       (b64_quanta rest)"

text \<open>The decoder skips line breaks, and looks neither for padding nor at the unused bits of the last character.\<close>

definition b64_decode :: "string \<Rightarrow> string option" where
  "b64_decode s =
     (case those (map b64_val (filter (\<lambda>c. c \<noteq> CHR 0x0A \<and> c \<noteq> CHR 0x0D) s)) of
        None \<Rightarrow> None
      | Some vs \<Rightarrow> b64_quanta vs)"

lemma b64_val_char [simp, b64_simps]: "n < 64 \<Longrightarrow> b64_val (b64_char n) = Some n"
  by (auto simp: b64_val_def b64_char_def Let_def)

lemma b64_char_not [simp, b64_simps]: "n < 64 \<Longrightarrow> b64_char n \<noteq> CHR 0x0A \<and> b64_char n \<noteq> CHR 0x0D \<and> b64_char n \<noteq> CHR ''.''"
proof -
  assume "n < 64"
  then have v: "b64_val (b64_char n) = Some n" by (rule b64_val_char)
  have "b64_val (CHR 0x0A) = None" "b64_val (CHR 0x0D) = None" "b64_val (CHR ''.'') = None"
    by (simp_all add: b64_val_def Let_def)
  then show ?thesis using v by auto
qed

text \<open>The arithmetic of the four groups of six bits.\<close>

lemma b64_parts:
  fixes a b c :: nat
  assumes "a < 256" "b < 256" "c < 256"
  shows "a div 4 < 64" "a mod 4 * 16 < 64" "a mod 4 * 16 + b div 16 < 64"
    "b mod 16 * 4 < 64" "b mod 16 * 4 + c div 64 < 64" "c mod 64 < 64"
    "a div 4 * 4 + (a mod 4 * 16 + b div 16) div 16 = a" "a div 4 * 4 + (a mod 4 * 16) div 16 = a"
    "(a mod 4 * 16 + b div 16) mod 16 * 16 + (b mod 16 * 4 + c div 64) div 4 = b"
    "(a mod 4 * 16 + b div 16) mod 16 * 16 + (b mod 16 * 4) div 4 = b"
    "(b mod 16 * 4 + c div 64) mod 4 * 64 + c mod 64 = c"
proof -
  have d: "b div 16 < 16" "c div 64 < 4" "a mod 4 < 4" "b mod 16 < 16" using assms by (simp_all add: less_mult_imp_div_less)
  then show "a div 4 < 64" "a mod 4 * 16 < 64" "a mod 4 * 16 + b div 16 < 64"
    "b mod 16 * 4 < 64" "b mod 16 * 4 + c div 64 < 64" "c mod 64 < 64"
    using assms by (simp_all add: less_mult_imp_div_less)
  have e: "(a mod 4 * 16 + b div 16) div 16 = a mod 4" "(a mod 4 * 16 + b div 16) mod 16 = b div 16"
    "(b mod 16 * 4 + c div 64) div 4 = b mod 16" "(b mod 16 * 4 + c div 64) mod 4 = c div 64"
    using d by simp_all
  show "a div 4 * 4 + (a mod 4 * 16 + b div 16) div 16 = a" unfolding e by simp
  show "a div 4 * 4 + (a mod 4 * 16) div 16 = a" by simp
  show "(a mod 4 * 16 + b div 16) mod 16 * 16 + (b mod 16 * 4 + c div 64) div 4 = b" unfolding e by simp
  show "(a mod 4 * 16 + b div 16) mod 16 * 16 + (b mod 16 * 4) div 4 = b" unfolding e by simp
  show "(b mod 16 * 4 + c div 64) mod 4 * 64 + c mod 64 = c" unfolding e by simp
qed

lemmas byte_less = nat_of_char_less_256

lemma b64_alphabet: "set (b64_encode s) \<subseteq> b64_char ` {..<64}"
proof (induction s rule: b64_encode.induct)
  case (2 a)
  note p = b64_parts [OF byte_less [of a] byte_less [of a] byte_less [of a]]
  show ?case unfolding b64_encode.simps list.set insert_subset using p(1,2) by (intro conjI imageI) simp_all
next
  case (3 a b)
  note p = b64_parts [OF byte_less [of a] byte_less [of b] byte_less [of b]]
  show ?case unfolding b64_encode.simps list.set insert_subset using p(1,3,4) by (intro conjI imageI) simp_all
next
  case (4 a b d rest)
  note p = b64_parts [OF byte_less [of a] byte_less [of b] byte_less [of d]]
  show ?case unfolding b64_encode.simps list.set insert_subset using 4 p(1,3,5,6) by (intro conjI imageI) (simp_all only: lessThan_iff)
qed simp

lemma those_chars:
  "list_all (\<lambda>n. n < 64) ns \<Longrightarrow> those (map b64_val cs) = Some vs \<Longrightarrow> those (map b64_val (map b64_char ns @ cs)) = Some (ns @ vs)"
  by (induction ns) simp_all

lemma b64_values: "\<exists>vs. those (map b64_val (b64_encode s)) = Some vs \<and> b64_quanta vs = Some s"
proof (induction s rule: b64_encode.induct)
  case 1
  show ?case by simp
next
  case (2 a)
  note p = b64_parts [OF byte_less [of a] byte_less [of a] byte_less [of a]]
  have "those (map b64_val (map b64_char [byte a div 4, byte a mod 4 * 16] @ [])) = Some ([byte a div 4, byte a mod 4 * 16] @ [])"
    by (rule those_chars) (simp_all only: list.pred_inject p those.simps list.map simp_thms)
  then show ?case by (simp only: b64_encode.simps list.map append.simps option.inject ex_simps simp_thms b64_quanta.simps p char_of_char)
next
  case (3 a b)
  note p = b64_parts [OF byte_less [of a] byte_less [of b] byte_less [of b]]
  have "those (map b64_val (map b64_char [byte a div 4, byte a mod 4 * 16 + byte b div 16, byte b mod 16 * 4] @ []))
      = Some ([byte a div 4, byte a mod 4 * 16 + byte b div 16, byte b mod 16 * 4] @ [])"
    by (rule those_chars) (simp_all only: list.pred_inject p those.simps list.map simp_thms)
  then show ?case by (simp only: b64_encode.simps list.map append.simps option.inject ex_simps simp_thms b64_quanta.simps p char_of_char)
next
  case (4 a b d rest)
  note p = b64_parts [OF byte_less [of a] byte_less [of b] byte_less [of d]]
  obtain vs where vs: "those (map b64_val (b64_encode rest)) = Some vs" "b64_quanta vs = Some rest" using 4 by blast
  have "those (map b64_val (map b64_char [byte a div 4, byte a mod 4 * 16 + byte b div 16, byte b mod 16 * 4 + byte d div 64, byte d mod 64] @ b64_encode rest))
      = Some ([byte a div 4, byte a mod 4 * 16 + byte b div 16, byte b mod 16 * 4 + byte d div 64, byte d mod 64] @ vs)"
    by (rule those_chars [OF _ vs(1)]) (simp_all only: list.pred_inject p simp_thms)
  then show ?case by (simp only: b64_encode.simps list.map append.simps option.inject ex_simps simp_thms b64_quanta.simps p char_of_char vs(2) option.map)
qed

lemma b64_no_breaks: "filter (\<lambda>c. c \<noteq> CHR 0x0A \<and> c \<noteq> CHR 0x0D) (b64_encode s) = b64_encode s"
proof (rule filter_True, rule ballI)
  fix c assume "c \<in> set (b64_encode s)"
  then obtain n where "n < 64" "c = b64_char n" using b64_alphabet [of s] by auto
  then show "c \<noteq> CHR 0x0A \<and> c \<noteq> CHR 0x0D" using b64_char_not [of n] by metis
qed

lemma b64_roundtrip: "b64_decode (b64_encode s) = Some s"
  using b64_values [of s] by (auto simp: b64_decode_def b64_no_breaks)

lemma b64_no_dot: "CHR ''.'' \<notin> set (b64_encode s)"
  using b64_alphabet [of s] b64_char_not by fastforce

lemma b64_encode_Nil [simp]: "b64_encode s = [] \<longleftrightarrow> s = []"
  by (induction s rule: b64_encode.induct) simp_all


section \<open>Tokens\<close>

record TokenClaims =
  tc_ClientID :: string
  tc_IssuedAt :: int
  tc_ExpiresAt :: int
  tc_Nonce :: string

datatype token_error = ErrTokenExpired | ErrTokenInvalid | ErrTokenMalformed | ErrGenerate

text \<open>\<open>Time.Unix\<close>: whole seconds since 1970; \<open>time.Unix\<close> goes the other way.\<close>

definition to_unix :: "gotime \<Rightarrow> int" where
  "to_unix t = t div second - 62135596800"

definition of_unix :: "int \<Rightarrow> gotime" where
  "of_unix s = (s + 62135596800) * second"

text \<open>
  The keyed hash of a secret and a text, and the JSON of the claims. \<open>GenerateToken\<close> is given the sixteen
  random bytes, or none when reading them fails.
\<close>

definition sign_token :: "(string \<Rightarrow> string \<Rightarrow> string) \<Rightarrow> string \<Rightarrow> string \<Rightarrow> string" where
  "sign_token hmac secret payload =
     (let payloadB64 = b64_encode payload in payloadB64 @ ''.'' @ b64_encode (hmac secret payloadB64))"

definition GenerateToken ::
    "(string \<Rightarrow> string \<Rightarrow> string) \<Rightarrow> (TokenClaims \<Rightarrow> string option) \<Rightarrow> string option \<Rightarrow> gotime \<Rightarrow> string \<Rightarrow> string \<Rightarrow> duration
     \<Rightarrow> token_error + string" where
  "GenerateToken hmac marshal nonce now clientID secret ttl =
     (case nonce of
        None \<Rightarrow> Inl ErrGenerate
      | Some n \<Rightarrow>
          (case marshal \<lparr>tc_ClientID = clientID, tc_IssuedAt = to_unix now, tc_ExpiresAt = to_unix (now + ttl), tc_Nonce = b64_encode n\<rparr> of
             None \<Rightarrow> Inl ErrGenerate
           | Some payload \<Rightarrow> Inr (sign_token hmac secret payload)))"

text \<open>The loop that looks for the last dot; without one both parts are empty.\<close>

definition split_token :: "string \<Rightarrow> string \<times> string" where
  "split_token token =
     (if CHR ''.'' \<in> set token
      then (rev (drop 1 (dropWhile (\<lambda>c. c \<noteq> CHR ''.'') (rev token))), rev (takeWhile (\<lambda>c. c \<noteq> CHR ''.'') (rev token)))
      else ([], []))"

definition decodeTokenVerifySig ::
    "(string \<Rightarrow> string \<Rightarrow> string) \<Rightarrow> (string \<Rightarrow> TokenClaims option) \<Rightarrow> string \<Rightarrow> string \<Rightarrow> token_error + TokenClaims" where
  "decodeTokenVerifySig hmac unmarshal token secret =
     (case split_token token of (payloadB64, sigB64) \<Rightarrow>
        if payloadB64 = [] \<or> sigB64 = [] then Inl ErrTokenMalformed
        else (case b64_decode sigB64 of
          None \<Rightarrow> Inl ErrTokenMalformed
        | Some sig \<Rightarrow>
            if hmac secret payloadB64 \<noteq> sig then Inl ErrTokenInvalid
            else (case b64_decode payloadB64 of
              None \<Rightarrow> Inl ErrTokenMalformed
            | Some payload \<Rightarrow>
                (case unmarshal payload of None \<Rightarrow> Inl ErrTokenMalformed | Some claims \<Rightarrow> Inr claims))))"

text \<open>\<open>ValidateToken\<close> repeats these steps and then looks at the clock.\<close>

definition ct_ValidateToken ::
    "(string \<Rightarrow> string \<Rightarrow> string) \<Rightarrow> (string \<Rightarrow> TokenClaims option) \<Rightarrow> gotime \<Rightarrow> string \<Rightarrow> string \<Rightarrow> token_error + TokenClaims" where
  "ct_ValidateToken hmac unmarshal now token secret =
     (case split_token token of (payloadB64, sigB64) \<Rightarrow>
        if payloadB64 = [] \<or> sigB64 = [] then Inl ErrTokenMalformed
        else (case b64_decode sigB64 of
          None \<Rightarrow> Inl ErrTokenMalformed
        | Some sig \<Rightarrow>
            if hmac secret payloadB64 \<noteq> sig then Inl ErrTokenInvalid
            else (case b64_decode payloadB64 of
              None \<Rightarrow> Inl ErrTokenMalformed
            | Some payload \<Rightarrow>
                (case unmarshal payload of
                   None \<Rightarrow> Inl ErrTokenMalformed
                 | Some claims \<Rightarrow> if to_unix now > tc_ExpiresAt claims then Inl ErrTokenExpired else Inr claims))))"

definition RefreshToken ::
    "(string \<Rightarrow> string \<Rightarrow> string) \<Rightarrow> (TokenClaims \<Rightarrow> string option) \<Rightarrow> (string \<Rightarrow> TokenClaims option) \<Rightarrow> string option \<Rightarrow> gotime
     \<Rightarrow> string \<Rightarrow> string \<Rightarrow> duration \<Rightarrow> token_error + string" where
  "RefreshToken hmac marshal unmarshal nonce now oldToken secret ttl =
     (case decodeTokenVerifySig hmac unmarshal oldToken secret of
        Inl e \<Rightarrow> Inl e
      | Inr claims \<Rightarrow> GenerateToken hmac marshal nonce now (tc_ClientID claims) secret ttl)"

definition IsExpiringSoon ::
    "(string \<Rightarrow> string \<Rightarrow> string) \<Rightarrow> (string \<Rightarrow> TokenClaims option) \<Rightarrow> gotime \<Rightarrow> gotime \<Rightarrow> string \<Rightarrow> string \<Rightarrow> duration \<Rightarrow> bool" where
  "IsExpiringSoon hmac unmarshal now now' token secret window =
     (case ct_ValidateToken hmac unmarshal now token secret of
        Inl _ \<Rightarrow> True
      | Inr claims \<Rightarrow> time_sub (of_unix (tc_ExpiresAt claims)) now' < window)"

section \<open>What is signed is what is read\<close>

lemma validate_decode:
  "ct_ValidateToken hmac unmarshal now token secret =
     (case decodeTokenVerifySig hmac unmarshal token secret of
        Inl e \<Rightarrow> Inl e
      | Inr claims \<Rightarrow> if to_unix now > tc_ExpiresAt claims then Inl ErrTokenExpired else Inr claims)"
  by (auto simp: ct_ValidateToken_def decodeTokenVerifySig_def split: prod.splits option.splits)

lemma split_token_dot: "CHR ''.'' \<notin> set s \<Longrightarrow> split_token (p @ ''.'' @ s) = (p, s)"
proof -
  assume n: "CHR ''.'' \<notin> set s"
  then have "takeWhile (\<lambda>c. c \<noteq> CHR ''.'') (rev s @ CHR ''.'' # rev p) = rev s"
    "dropWhile (\<lambda>c. c \<noteq> CHR ''.'') (rev s @ CHR ''.'' # rev p) = CHR ''.'' # rev p"
    by (subst takeWhile_append2 dropWhile_append2; auto)+
  then show ?thesis by (simp add: split_token_def)
qed

lemma split_token_parts:
  assumes "split_token token = (p, s)" and "p \<noteq> []"
  shows "token = p @ ''.'' @ s \<and> CHR ''.'' \<notin> set s"
proof -
  have d: "CHR ''.'' \<in> set token" using assms by (auto simp: split_token_def split: if_splits)
  define r where "r = dropWhile (\<lambda>c. c \<noteq> CHR ''.'') (rev token)"
  have "r \<noteq> []" using d by (auto simp: r_def)
  moreover have "hd r = CHR ''.''" using hd_dropWhile [of "\<lambda>c. c \<noteq> CHR ''.''" "rev token"] \<open>r \<noteq> []\<close> by (simp add: r_def)
  ultimately have r: "r = CHR ''.'' # drop 1 r" by (cases r) simp_all
  have ps: "p = rev (drop 1 r)" "s = rev (takeWhile (\<lambda>c. c \<noteq> CHR ''.'') (rev token))"
    using assms(1) d by (simp_all add: split_token_def r_def)
  have "rev token = takeWhile (\<lambda>c. c \<noteq> CHR ''.'') (rev token) @ r" by (simp add: r_def)
  then have "rev token = rev s @ CHR ''.'' # rev p" using ps r by simp
  then have "token = p @ ''.'' @ s" by (metis append.assoc append_Cons append_Nil rev_append rev_rev_ident rev_singleton_conv rev.simps(2))
  moreover have "CHR ''.'' \<notin> set s" using set_takeWhileD [of "CHR ''.''" "\<lambda>c. c \<noteq> CHR ''.''" "rev token"] ps(2) by auto
  ultimately show ?thesis ..
qed

lemma decode_signed:
  assumes "payload \<noteq> []" and "hmac secret (b64_encode payload) \<noteq> []"
  shows "decodeTokenVerifySig hmac unmarshal (sign_token hmac secret payload) secret =
    (case unmarshal payload of None \<Rightarrow> Inl ErrTokenMalformed | Some claims \<Rightarrow> Inr claims)"
  using assms by (simp add: decodeTokenVerifySig_def sign_token_def Let_def split_token_dot [OF b64_no_dot, simplified] b64_roundtrip)

section \<open>Properties\<close>

definition claims_at :: "gotime \<Rightarrow> string \<Rightarrow> string \<Rightarrow> duration \<Rightarrow> TokenClaims" where
  "claims_at now clientID n ttl =
     \<lparr>tc_ClientID = clientID, tc_IssuedAt = to_unix now, tc_ExpiresAt = to_unix (now + ttl), tc_Nonce = b64_encode n\<rparr>"

lemma token_lives:
  assumes "GenerateToken hmac marshal (Some n) now clientID secret ttl = Inr token"
    and "\<And>payload. marshal (claims_at now clientID n ttl) = Some payload \<Longrightarrow>
      payload \<noteq> [] \<and> unmarshal payload = Some (claims_at now clientID n ttl)"
    and "\<And>x. hmac secret x \<noteq> []"
  shows "ct_ValidateToken hmac unmarshal now' token secret =
    (if to_unix now' \<le> to_unix (now + ttl) then Inr (claims_at now clientID n ttl) else Inl ErrTokenExpired)"
proof -
  obtain payload where p: "marshal (claims_at now clientID n ttl) = Some payload" "token = sign_token hmac secret payload"
    using assms(1) by (auto simp: GenerateToken_def claims_at_def split: option.splits)
  have "decodeTokenVerifySig hmac unmarshal token secret = Inr (claims_at now clientID n ttl)"
    unfolding p(2) using decode_signed [of payload hmac secret unmarshal] assms(2) [OF p(1)] assms(3) by simp
  then show ?thesis by (simp add: validate_decode claims_at_def)
qed

text \<open>
  C8: A token is read back as it was made, as long as it lives. With the secret it was signed with, the text
  that \<open>GenerateToken\<close> returns validates to its claims at every second up to the one in which its time to live
  ends, and as expired from the next one on. Assumed is that these claims survive their JSON, which is not
  empty, and that a hash is not empty.
\<close>

theorem token_roundtrip:
  assumes "GenerateToken hmac marshal (Some n) now clientID secret ttl = Inr token"
    and "\<And>payload. marshal (claims_at now clientID n ttl) = Some payload \<Longrightarrow>
      payload \<noteq> [] \<and> unmarshal payload = Some (claims_at now clientID n ttl)"
    and "\<And>x. hmac secret x \<noteq> []"
  shows "ct_ValidateToken hmac unmarshal now' token secret =
    (if to_unix now' \<le> to_unix (now + ttl) then Inr (claims_at now clientID n ttl) else Inl ErrTokenExpired)"
  by (rule token_lives [OF assms])

text \<open>
  A token that validates was signed. It is a payload, a dot and a signature which decodes to the hash of the
  payload's text under the secret; the claims are those of the payload, and they have not expired.
\<close>

theorem token_signed:
  assumes "ct_ValidateToken hmac unmarshal now token secret = Inr claims"
  shows "\<exists>p s payload. token = p @ ''.'' @ s \<and> b64_decode s = Some (hmac secret p) \<and> b64_decode p = Some payload
    \<and> unmarshal payload = Some claims \<and> to_unix now \<le> tc_ExpiresAt claims"
proof -
  obtain p s where ps: "split_token token = (p, s)" by fastforce
  then have "p \<noteq> []" "b64_decode s = Some (hmac secret p)" "\<exists>payload. b64_decode p = Some payload \<and> unmarshal payload = Some claims"
    "to_unix now \<le> tc_ExpiresAt claims"
    using assms by (auto simp: ct_ValidateToken_def split: if_splits option.splits)
  then show ?thesis using split_token_parts [OF ps] by blast
qed

text \<open>
  The text of a token is not determined by what it says. A line break behind a token that validates gives
  another text that validates to the same claims, since the decoder skips it.
\<close>

theorem token_malleable:
  assumes "ct_ValidateToken hmac unmarshal now token secret = Inr claims"
  shows "token @ [CHR 0x0A] \<noteq> token \<and> ct_ValidateToken hmac unmarshal now (token @ [CHR 0x0A]) secret = Inr claims"
proof -
  obtain p s where ps: "split_token token = (p, s)" by fastforce
  have ne: "p \<noteq> []" "s \<noteq> []" using assms ps by (auto simp: ct_ValidateToken_def split: if_splits)
  note t = split_token_parts [OF ps ne(1)]
  have "split_token (token @ [CHR 0x0A]) = (p, s @ [CHR 0x0A])"
    using split_token_dot [of "s @ [CHR 0x0A]" p] t by simp
  moreover have "b64_decode (s @ [CHR 0x0A]) = b64_decode s" by (simp add: b64_decode_def)
  ultimately show ?thesis using assms ps ne by (simp add: ct_ValidateToken_def)
qed

text \<open>
  Refreshing never ends. From a token whose signature holds, however long ago it expired, \<open>RefreshToken\<close>
  makes one for the same client that lives for the new time.
\<close>

theorem token_refresh:
  assumes "decodeTokenVerifySig hmac unmarshal old secret = Inr claims"
    and "RefreshToken hmac marshal unmarshal (Some n) now old secret ttl = Inr token"
    and "\<And>payload. marshal (claims_at now (tc_ClientID claims) n ttl) = Some payload \<Longrightarrow>
      payload \<noteq> [] \<and> unmarshal payload = Some (claims_at now (tc_ClientID claims) n ttl)"
    and "\<And>x. hmac secret x \<noteq> []" and "0 \<le> ttl"
  shows "ct_ValidateToken hmac unmarshal now token secret = Inr (claims_at now (tc_ClientID claims) n ttl)"
proof -
  have g: "GenerateToken hmac marshal (Some n) now (tc_ClientID claims) secret ttl = Inr token"
    using assms(1,2) by (simp add: RefreshToken_def)
  have "to_unix now \<le> to_unix (now + ttl)" using assms(5) by (simp add: to_unix_def zdiv_mono1)
  then show ?thesis using token_lives [OF g assms(3,4), of now] by simp
qed

section \<open>Concrete tokens\<close>

definition ex_hmac :: "string \<Rightarrow> string \<Rightarrow> string" where
  "ex_hmac secret text = secret @ ''#''"

definition ex_claims :: TokenClaims where
  "ex_claims = claims_at 62135596800000000000 ''pc'' ''n'' second"

definition ex_marshal :: "TokenClaims \<Rightarrow> string option" where
  "ex_marshal c = (if c = ex_claims then Some ''{}'' else None)"

definition ex_unmarshal :: "string \<Rightarrow> TokenClaims option" where
  "ex_unmarshal s = (if s = ''{}'' then Some ex_claims else None)"

lemma ex_chars:
  "(char_of (101 :: nat) :: char) = CHR ''e''" "(char_of (51 :: nat) :: char) = CHR ''3''" "(char_of (48 :: nat) :: char) = CHR ''0''"
  "(char_of (97 :: nat) :: char) = CHR ''a''" "(char_of (121 :: nat) :: char) = CHR ''y''" "(char_of (77 :: nat) :: char) = CHR ''M''"
  "(char_of (123 :: nat) :: char) = CHR 0x7B" "(char_of (125 :: nat) :: char) = CHR 0x7D" "(char_of (107 :: nat) :: char) = CHR ''k''"
  "(char_of (35 :: nat) :: char) = CHR ''#''"
  by code_simp+

lemma ex_token: "GenerateToken ex_hmac ex_marshal (Some ''n'') 62135596800000000000 ''pc'' ''k'' second = Inr ''e30.ayM''"
  by (simp add: GenerateToken_def ex_marshal_def ex_claims_def claims_at_def sign_token_def ex_hmac_def b64_char_def Let_def ex_chars)

lemma ex_json: "ex_marshal ex_claims = Some payload \<Longrightarrow> payload \<noteq> [] \<and> ex_unmarshal payload = Some ex_claims"
  by (auto simp: ex_marshal_def ex_unmarshal_def)

lemma ex_hash: "ex_hmac secret x \<noteq> []"
  by (simp add: ex_hmac_def)

lemma ex_valid: "ct_ValidateToken ex_hmac ex_unmarshal 62135596801999999999 ''e30.ayM'' ''k'' = Inr ex_claims"
  by (simp add: ct_ValidateToken_def split_token_def b64_decode_def b64_val_def ex_hmac_def ex_unmarshal_def Let_def to_unix_def
      ex_chars ex_claims_def claims_at_def)

theorem token_roundtrip_witness:
  "ct_ValidateToken ex_hmac ex_unmarshal 62135596801999999999 ''e30.ayM'' ''k'' = Inr ex_claims
    \<and> ct_ValidateToken ex_hmac ex_unmarshal 62135596802000000000 ''e30.ayM'' ''k'' = Inl ErrTokenExpired"
proof -
  note r = token_roundtrip [OF ex_token ex_json [unfolded ex_claims_def] ex_hash]
  have "to_unix 62135596801999999999 \<le> to_unix (62135596800000000000 + second)" "\<not> to_unix 62135596802000000000 \<le> to_unix (62135596800000000000 + second)"
    by (simp_all add: to_unix_def)
  then show ?thesis using r [of 62135596801999999999] r [of 62135596802000000000] by (simp add: ex_claims_def)
qed

theorem token_signed_witness:
  "\<exists>p s payload. ''e30.ayM'' = p @ ''.'' @ s \<and> b64_decode s = Some (ex_hmac ''k'' p) \<and> b64_decode p = Some payload
    \<and> ex_unmarshal payload = Some ex_claims"
  using token_signed [OF ex_valid] by blast

theorem token_malleable_witness:
  "ct_ValidateToken ex_hmac ex_unmarshal 62135596801999999999 (''e30.ayM'' @ [CHR 0x0A]) ''k'' = Inr ex_claims"
  using token_malleable [OF ex_valid] by blast

theorem token_refresh_witness:
  "ct_ValidateToken ex_hmac ex_unmarshal 62135596800000000000 ''e30.ayM'' ''k'' = Inr ex_claims"
proof -
  have d: "decodeTokenVerifySig ex_hmac ex_unmarshal ''e30.ayM'' ''k'' = Inr ex_claims"
    by (simp add: decodeTokenVerifySig_def split_token_def b64_decode_def b64_val_def ex_hmac_def ex_unmarshal_def Let_def ex_chars)
  have c: "claims_at 62135596800000000000 (tc_ClientID ex_claims) ''n'' second = ex_claims" by (simp add: ex_claims_def claims_at_def)
  have r: "RefreshToken ex_hmac ex_marshal ex_unmarshal (Some ''n'') 62135596800000000000 ''e30.ayM'' ''k'' second = Inr ''e30.ayM''"
    using ex_token d by (simp add: RefreshToken_def) (simp add: ex_claims_def claims_at_def)
  show ?thesis by (rule token_refresh [OF d r, unfolded c, OF ex_json ex_hash]) simp_all
qed

end
