(* ===== verification/Virtual_Apply.thy ===== *)
theory Virtual_Apply
  imports Go_Prelude Address_Text
begin

text \<open>
  The virtual network of a desktop node (\<open>desktop/internal/virtualnet\<close>): the checks on a configuration, the
  system commands that apply and reset it on each platform, and the manager that runs them. The operating
  system is a state of any type; the runner of commands, the checker of interfaces and the privileged helper
  change it and are arguments, as are the parsers of \<open>netip\<close>, which return the text of their error. The empty
  text of \<open>LastError\<close> is no error here.
\<close>

section \<open>Types\<close>

record VRoute =
  vr_Destination :: string
  vr_Gateway :: string
  vr_Interface :: string
  vr_Metric :: int

record VConfig =
  vc_NodeID :: string
  vc_VirtualIP :: string
  vc_Subnet :: string
  vc_Gateway :: string
  vc_Interface :: string
  vc_MTU :: int
  vc_Routes :: "VRoute list"

datatype vn_error =
    FieldRequired string
  | FieldInvalid string string
  | MTURange
  | RouteRequired nat string
  | RouteInvalid nat string string
  | MetricNegative nat
  | Unsupported string string
  | InterfaceMissing string
  | CommandFailed string

record VState =
  vs_Applied :: bool
  vs_Interface :: string
  vs_VirtualIP :: string
  vs_Subnet :: string
  vs_Gateway :: string
  vs_MTU :: int
  vs_Routes :: "VRoute list"
  vs_LastError :: "vn_error option"
  vs_LastCommands :: "string list"

definition no_state :: VState where
  "no_state = \<lparr>vs_Applied = False, vs_Interface = [], vs_VirtualIP = [], vs_Subnet = [], vs_Gateway = [], vs_MTU = 0,
     vs_Routes = [], vs_LastError = None, vs_LastCommands = []\<rparr>"

definition stateFromConfig :: "VConfig \<Rightarrow> VState" where
  "stateFromConfig cfg =
     \<lparr>vs_Applied = False, vs_Interface = vc_Interface cfg, vs_VirtualIP = vc_VirtualIP cfg, vs_Subnet = vc_Subnet cfg,
      vs_Gateway = vc_Gateway cfg, vs_MTU = vc_MTU cfg, vs_Routes = vc_Routes cfg, vs_LastError = None, vs_LastCommands = []\<rparr>"

section \<open>Commands\<close>

record systemCommand =
  sc_name :: string
  sc_args :: "string list"

definition with_spaces :: "string list \<Rightarrow> string" where
  "with_spaces xs = (case xs of [] \<Rightarrow> [] | y # ys \<Rightarrow> y @ concat (map (\<lambda>z. '' '' @ z) ys))"

definition command_String :: "systemCommand \<Rightarrow> string" where
  "command_String c = (if sc_args c = [] then sc_name c else sc_name c @ '' '' @ with_spaces (sc_args c))"

definition cidrSuffix :: "string \<Rightarrow> string" where
  "cidrSuffix cidr = (let parts = split_on (CHR ''/'') cidr in if length parts \<noteq> 2 then [] else ''/'' @ parts ! 1)"

definition maskFromCIDR :: "string \<Rightarrow> string" where
  "maskFromCIDR cidr =
     (let parts = split_on (CHR ''/'') cidr in
      if length parts \<noteq> 2 then ''255.255.255.0''
      else if parts ! 1 = ''8'' then ''255.0.0.0''
      else if parts ! 1 = ''16'' then ''255.255.0.0''
      else if parts ! 1 = ''24'' then ''255.255.255.0''
      else if parts ! 1 = ''32'' then ''255.255.255.255''
      else ''255.255.255.0'')"

definition windowsNetshInterfaceArg :: "string \<Rightarrow> string" where
  "windowsNetshInterfaceArg interfaceName = ''interface='' @ interfaceName"

definition windowsNetshNameArg :: "string \<Rightarrow> string" where
  "windowsNetshNameArg interfaceName = ''name='' @ interfaceName"

definition buildWindowsApplyCommands :: "VConfig \<Rightarrow> systemCommand list" where
  "buildWindowsApplyCommands cfg =
     [\<lparr>sc_name = ''netsh'', sc_args = [''interface'', ''ipv4'', ''set'', ''subinterface'', windowsNetshInterfaceArg (vc_Interface cfg),
         ''mtu='' @ int_str (vc_MTU cfg), ''store=active'']\<rparr>,
      \<lparr>sc_name = ''netsh'', sc_args = [''interface'', ''ip'', ''set'', ''address'', windowsNetshNameArg (vc_Interface cfg), ''static'',
         vc_VirtualIP cfg, maskFromCIDR (vc_Subnet cfg)]\<rparr>]
     @ map (\<lambda>r. \<lparr>sc_name = ''netsh'', sc_args = [''interface'', ''ipv4'', ''add'', ''route'', ''prefix='' @ vr_Destination r,
         windowsNetshInterfaceArg (vc_Interface cfg), ''nexthop='' @ vr_Gateway r, ''metric='' @ int_str (vr_Metric r), ''store=active'']\<rparr>)
         (vc_Routes cfg)"

definition buildWindowsResetCommands :: "VState \<Rightarrow> systemCommand list" where
  "buildWindowsResetCommands s =
     map (\<lambda>r. \<lparr>sc_name = ''netsh'', sc_args = [''interface'', ''ipv4'', ''delete'', ''route'', ''prefix='' @ vr_Destination r,
        windowsNetshInterfaceArg (vs_Interface s)]\<rparr>) (vs_Routes s)"

definition buildLinuxApplyCommands :: "VConfig \<Rightarrow> systemCommand list" where
  "buildLinuxApplyCommands cfg =
     [\<lparr>sc_name = ''ip'', sc_args = [''link'', ''set'', ''dev'', vc_Interface cfg, ''mtu'', int_str (vc_MTU cfg)]\<rparr>,
      \<lparr>sc_name = ''ip'', sc_args = [''addr'', ''replace'', vc_VirtualIP cfg @ cidrSuffix (vc_Subnet cfg), ''dev'', vc_Interface cfg]\<rparr>,
      \<lparr>sc_name = ''ip'', sc_args = [''link'', ''set'', ''dev'', vc_Interface cfg, ''up'']\<rparr>]
     @ map (\<lambda>r. \<lparr>sc_name = ''ip'', sc_args = [''route'', ''replace'', vr_Destination r, ''via'', vr_Gateway r, ''dev'', vc_Interface cfg,
         ''metric'', int_str (vr_Metric r)]\<rparr>) (vc_Routes cfg)"

definition buildLinuxResetCommands :: "VState \<Rightarrow> systemCommand list" where
  "buildLinuxResetCommands s =
     map (\<lambda>r. \<lparr>sc_name = ''ip'', sc_args = [''route'', ''del'', vr_Destination r, ''dev'', vs_Interface s]\<rparr>) (vs_Routes s)"

definition buildDarwinApplyCommands :: "VConfig \<Rightarrow> systemCommand list" where
  "buildDarwinApplyCommands cfg =
     [\<lparr>sc_name = ''ifconfig'', sc_args = [vc_Interface cfg, ''mtu'', int_str (vc_MTU cfg)]\<rparr>,
      \<lparr>sc_name = ''ifconfig'', sc_args = [vc_Interface cfg, ''inet'', vc_VirtualIP cfg, vc_Gateway cfg, ''netmask'',
         maskFromCIDR (vc_Subnet cfg), ''up'']\<rparr>]
     @ map (\<lambda>r. \<lparr>sc_name = ''route'', sc_args = [''add'', ''-net'', vr_Destination r, vr_Gateway r]\<rparr>) (vc_Routes cfg)"

definition buildDarwinResetCommands :: "VState \<Rightarrow> systemCommand list" where
  "buildDarwinResetCommands s = map (\<lambda>r. \<lparr>sc_name = ''route'', sc_args = [''delete'', ''-net'', vr_Destination r]\<rparr>) (vs_Routes s)"

definition buildApplyCommands :: "string \<Rightarrow> VConfig \<Rightarrow> vn_error + systemCommand list" where
  "buildApplyCommands goos cfg =
     (if goos = ''windows'' then Inr (buildWindowsApplyCommands cfg)
      else if goos = ''linux'' then Inr (buildLinuxApplyCommands cfg)
      else if goos = ''darwin'' then Inr (buildDarwinApplyCommands cfg)
      else Inl (Unsupported ''apply'' goos))"

definition buildResetCommands :: "string \<Rightarrow> VState \<Rightarrow> vn_error + systemCommand list" where
  "buildResetCommands goos s =
     (if goos = ''windows'' then Inr (buildWindowsResetCommands s)
      else if goos = ''linux'' then Inr (buildLinuxResetCommands s)
      else if goos = ''darwin'' then Inr (buildDarwinResetCommands s)
      else Inl (Unsupported ''reset'' goos))"

section \<open>The checks\<close>

fun check_routes :: "(string \<Rightarrow> string option) \<Rightarrow> (string \<Rightarrow> string option) \<Rightarrow> nat \<Rightarrow> VRoute list \<Rightarrow> vn_error option" where
  "check_routes ParseAddr ParsePrefix i [] = None"
| "check_routes ParseAddr ParsePrefix i (r # rs) =
     (if trim_space (vr_Destination r) = [] then Some (RouteRequired i ''destination'')
      else case ParsePrefix (vr_Destination r) of Some e \<Rightarrow> Some (RouteInvalid i ''destination'' e) | None \<Rightarrow>
      if trim_space (vr_Gateway r) = [] then Some (RouteRequired i ''gateway'')
      else case ParseAddr (vr_Gateway r) of Some e \<Rightarrow> Some (RouteInvalid i ''gateway'' e) | None \<Rightarrow>
      if vr_Metric r < 0 then Some (MetricNegative i)
      else check_routes ParseAddr ParsePrefix (Suc i) rs)"

definition vn_validateConfig :: "(string \<Rightarrow> string option) \<Rightarrow> (string \<Rightarrow> string option) \<Rightarrow> VConfig \<Rightarrow> vn_error option" where
  "vn_validateConfig ParseAddr ParsePrefix cfg =
     (if trim_space (vc_NodeID cfg) = [] then Some (FieldRequired ''node_id'')
      else if trim_space (vc_VirtualIP cfg) = [] then Some (FieldRequired ''virtual_ip'')
      else case ParseAddr (vc_VirtualIP cfg) of Some e \<Rightarrow> Some (FieldInvalid ''virtual_ip'' e) | None \<Rightarrow>
      if trim_space (vc_Subnet cfg) = [] then Some (FieldRequired ''subnet'')
      else case ParsePrefix (vc_Subnet cfg) of Some e \<Rightarrow> Some (FieldInvalid ''subnet'' e) | None \<Rightarrow>
      case (if trim_space (vc_Gateway cfg) \<noteq> [] then ParseAddr (vc_Gateway cfg) else None) of
        Some e \<Rightarrow> Some (FieldInvalid ''gateway'' e) | None \<Rightarrow>
      if trim_space (vc_Interface cfg) = [] then Some (FieldRequired ''interface'')
      else if vc_MTU cfg < 576 \<or> vc_MTU cfg > 9000 then Some MTURange
      else check_routes ParseAddr ParsePrefix 0 (vc_Routes cfg))"

section \<open>The manager\<close>

text \<open>What the manager is given: the platform, the runner, and the checker and the helper when there are any.\<close>

record 'os platform =
  pf_goos :: string
  pf_run :: "systemCommand \<Rightarrow> 'os \<Rightarrow> string option \<times> 'os"
  pf_checker :: "(string \<Rightarrow> 'os \<Rightarrow> (string + bool) \<times> 'os) option"
  pf_apply :: "(VConfig \<Rightarrow> 'os \<Rightarrow> (string + VState) \<times> 'os) option"
  pf_reset :: "VState \<Rightarrow> 'os \<Rightarrow> (string + VState) \<times> 'os"
  pf_ParseAddr :: "string \<Rightarrow> string option"
  pf_ParsePrefix :: "string \<Rightarrow> string option"

abbreviation windowsInterfaceCheckAttempts :: nat where "windowsInterfaceCheckAttempts \<equiv> 6"

primrec interface_attempts :: "(string \<Rightarrow> 'os \<Rightarrow> (string + bool) \<times> 'os) \<Rightarrow> string \<Rightarrow> nat \<Rightarrow> 'os \<Rightarrow> vn_error option \<times> 'os" where
  "interface_attempts chk i 0 os = (Some (InterfaceMissing i), os)"
| "interface_attempts chk i (Suc n) os =
     (case chk i os of
        (Inl e, os) \<Rightarrow> (Some (CommandFailed e), os)
      | (Inr found, os) \<Rightarrow> if found then (None, os) else interface_attempts chk i n os)"

definition ensureWindowsInterfaceAvailable ::
    "(string \<Rightarrow> 'os \<Rightarrow> (string + bool) \<times> 'os) \<Rightarrow> string \<Rightarrow> int \<Rightarrow> 'os \<Rightarrow> vn_error option \<times> 'os" where
  "ensureWindowsInterfaceAvailable chk interfaceName attempts os =
     interface_attempts chk (trim_space interfaceName) (if attempts \<le> 0 then 1 else nat attempts) os"

definition ensureApplyPreconditions :: "'os platform \<Rightarrow> VConfig \<Rightarrow> 'os \<Rightarrow> vn_error option \<times> 'os" where
  "ensureApplyPreconditions pf cfg os =
     (case pf_checker pf of
        Some chk \<Rightarrow> if pf_goos pf \<noteq> ''windows'' then (None, os)
          else ensureWindowsInterfaceAvailable chk (vc_Interface cfg) (int windowsInterfaceCheckAttempts) os
      | None \<Rightarrow> (None, os))"

text \<open>The commands run one after the other; the texts of those that ran come back, the failed one last.\<close>

primrec run_commands ::
    "(systemCommand \<Rightarrow> 'os \<Rightarrow> string option \<times> 'os) \<Rightarrow> systemCommand list \<Rightarrow> 'os \<Rightarrow> vn_error option \<times> string list \<times> 'os" where
  "run_commands run [] os = (None, [], os)"
| "run_commands run (c # cs) os =
     (case run c os of
        (Some e, os) \<Rightarrow> (Some (CommandFailed e), [command_String c], os)
      | (None, os) \<Rightarrow> (case run_commands run cs os of (r, texts, os) \<Rightarrow> (r, command_String c # texts, os)))"

definition vn_Apply :: "'os platform \<Rightarrow> VConfig \<Rightarrow> VState \<times> 'os \<Rightarrow> vn_error option \<times> VState \<times> 'os" where
  "vn_Apply pf cfg st =
     (case st of (s, os) \<Rightarrow>
        (case vn_validateConfig (pf_ParseAddr pf) (pf_ParsePrefix pf) cfg of
           Some e \<Rightarrow> (Some e, s\<lparr>vs_LastError := Some e\<rparr>, os)
         | None \<Rightarrow>
             (case pf_apply pf of
                Some f \<Rightarrow>
                  (case f cfg os of
                     (Inl e, os) \<Rightarrow> (Some (CommandFailed e), (stateFromConfig cfg)\<lparr>vs_LastError := Some (CommandFailed e)\<rparr>, os)
                   | (Inr s, os) \<Rightarrow> (None, s\<lparr>vs_LastError := None\<rparr>, os))
              | None \<Rightarrow>
                  (case ensureApplyPreconditions pf cfg os of
                     (Some e, os) \<Rightarrow> (Some e, (stateFromConfig cfg)\<lparr>vs_LastError := Some e\<rparr>, os)
                   | (None, os) \<Rightarrow>
                       (case buildApplyCommands (pf_goos pf) cfg of
                          Inl e \<Rightarrow> (Some e, s\<lparr>vs_LastError := Some e\<rparr>, os)
                        | Inr cs \<Rightarrow>
                            (case run_commands (pf_run pf) cs os of
                               (Some e, texts, os) \<Rightarrow>
                                 (Some e, (stateFromConfig cfg)\<lparr>vs_LastError := Some e, vs_LastCommands := texts\<rparr>, os)
                             | (None, texts, os) \<Rightarrow>
                                 (None, (stateFromConfig cfg)\<lparr>vs_Applied := True, vs_LastCommands := texts\<rparr>, os)))))))"

definition vn_Reset :: "'os platform \<Rightarrow> VState \<times> 'os \<Rightarrow> vn_error option \<times> VState \<times> 'os" where
  "vn_Reset pf st =
     (case st of (s, os) \<Rightarrow>
        if \<not> vs_Applied s then (None, s, os)
        else (case pf_apply pf of
           Some _ \<Rightarrow>
             (case pf_reset pf s os of
                (Inl e, os) \<Rightarrow> (Some (CommandFailed e), s\<lparr>vs_LastError := Some (CommandFailed e)\<rparr>, os)
              | (Inr s, os) \<Rightarrow> (None, s\<lparr>vs_Applied := False, vs_LastError := None\<rparr>, os))
         | None \<Rightarrow>
             (case buildResetCommands (pf_goos pf) s of
                Inl e \<Rightarrow> (Some e, s\<lparr>vs_LastError := Some e\<rparr>, os)
              | Inr cs \<Rightarrow>
                  (case run_commands (pf_run pf) cs os of
                     (Some e, texts, os) \<Rightarrow> (Some e, s\<lparr>vs_LastError := Some e, vs_LastCommands := texts\<rparr>, os)
                   | (None, texts, os) \<Rightarrow>
                       (None, s\<lparr>vs_Applied := False, vs_LastError := None, vs_LastCommands := texts\<rparr>, os)))))"


section \<open>What the checks accept\<close>

lemma check_routes_None: "check_routes pa pp i rs = None \<longleftrightarrow>
    (\<forall>r \<in> set rs. trim_space (vr_Destination r) \<noteq> [] \<and> pp (vr_Destination r) = None \<and> trim_space (vr_Gateway r) \<noteq> []
      \<and> pa (vr_Gateway r) = None \<and> 0 \<le> vr_Metric r)"
  by (induction rs arbitrary: i) (auto split: option.splits if_splits)

definition vn_valid :: "(string \<Rightarrow> string option) \<Rightarrow> (string \<Rightarrow> string option) \<Rightarrow> VConfig \<Rightarrow> bool" where
  "vn_valid pa pp cfg \<longleftrightarrow> trim_space (vc_NodeID cfg) \<noteq> [] \<and> trim_space (vc_VirtualIP cfg) \<noteq> [] \<and> pa (vc_VirtualIP cfg) = None
     \<and> trim_space (vc_Subnet cfg) \<noteq> [] \<and> pp (vc_Subnet cfg) = None
     \<and> (trim_space (vc_Gateway cfg) \<noteq> [] \<longrightarrow> pa (vc_Gateway cfg) = None) \<and> trim_space (vc_Interface cfg) \<noteq> []
     \<and> 576 \<le> vc_MTU cfg \<and> vc_MTU cfg \<le> 9000
     \<and> (\<forall>r \<in> set (vc_Routes cfg). trim_space (vr_Destination r) \<noteq> [] \<and> pp (vr_Destination r) = None
         \<and> trim_space (vr_Gateway r) \<noteq> [] \<and> pa (vr_Gateway r) = None \<and> 0 \<le> vr_Metric r)"

lemma validate_None: "vn_validateConfig pa pp cfg = None \<longleftrightarrow> vn_valid pa pp cfg"
  by (auto simp: vn_validateConfig_def vn_valid_def check_routes_None split: option.splits if_splits)

section \<open>Commands in order\<close>

text \<open>The state after the commands that succeeded: the specification of a run without errors.\<close>

fun all_run :: "(systemCommand \<Rightarrow> 'os \<Rightarrow> string option \<times> 'os) \<Rightarrow> systemCommand list \<Rightarrow> 'os \<Rightarrow> 'os option" where
  "all_run run [] os = Some os"
| "all_run run (c # cs) os = (case run c os of (None, os) \<Rightarrow> all_run run cs os | (Some _, _) \<Rightarrow> None)"

lemma run_commands_ok: "run_commands run cs os = (None, texts, os') \<longleftrightarrow> all_run run cs os = Some os' \<and> texts = map command_String cs"
proof (induction cs arbitrary: os texts)
  case (Cons c cs)
  obtain r os1 where r: "run c os = (r, os1)" by fastforce
  obtain q ts os2 where q: "run_commands run cs os1 = (q, ts, os2)" by (metis prod_cases3)
  show ?case using Cons.IH [of os1 ts] Cons.IH [of os1 "map command_String cs"] r q by (cases r) auto
qed auto

lemma run_commands_err: "fst (run_commands run cs os) = None \<longleftrightarrow> all_run run cs os \<noteq> None"
proof (induction cs arbitrary: os)
  case (Cons c cs)
  obtain r os1 where r: "run c os = (r, os1)" by fastforce
  obtain q ts os2 where q: "run_commands run cs os1 = (q, ts, os2)" by (metis prod_cases3)
  show ?case using Cons.IH [of os1] r q by (cases r) auto
qed simp

text \<open>
  A configuration is applied as a whole or not at all, as far as the manager says. Without a privileged
  helper \<open>Apply\<close> succeeds exactly on a valid configuration, on a platform it knows, whose interface is there
  and whose commands all succeed; then the state has the configuration, is applied, and lists the commands in
  order. In every other case the state has the error, and it is not applied unless the configuration was
  refused before anything was tried.
\<close>

theorem vn_apply_outcome:
  assumes "vn_Apply pf cfg (s, os) = (r, s', os')" and "pf_apply pf = None"
  shows "(r = None \<longleftrightarrow> vn_valid (pf_ParseAddr pf) (pf_ParsePrefix pf) cfg \<and>
      (\<exists>os1 cs. ensureApplyPreconditions pf cfg os = (None, os1) \<and> buildApplyCommands (pf_goos pf) cfg = Inr cs
        \<and> all_run (pf_run pf) cs os1 \<noteq> None))
    \<and> (r = None \<longrightarrow> (\<exists>cs. buildApplyCommands (pf_goos pf) cfg = Inr cs \<and>
        s' = (stateFromConfig cfg)\<lparr>vs_Applied := True, vs_LastCommands := map command_String cs\<rparr>))
    \<and> (r \<noteq> None \<longrightarrow> vs_LastError s' = r \<and> (vs_Applied s' \<longrightarrow> s' = s\<lparr>vs_LastError := r\<rparr> \<and>
        (\<not> vn_valid (pf_ParseAddr pf) (pf_ParsePrefix pf) cfg \<or> (\<exists>e. buildApplyCommands (pf_goos pf) cfg = Inl e))))"
proof (cases "vn_validateConfig (pf_ParseAddr pf) (pf_ParsePrefix pf) cfg")
  case (Some e)
  then show ?thesis using assms validate_None [of "pf_ParseAddr pf" "pf_ParsePrefix pf" cfg] by (auto simp: vn_Apply_def)
next
  case None
  then have v: "vn_valid (pf_ParseAddr pf) (pf_ParsePrefix pf) cfg" by (simp add: validate_None)
  obtain p os1 where p: "ensureApplyPreconditions pf cfg os = (p, os1)" by fastforce
  show ?thesis
  proof (cases p)
    case (Some e)
    then show ?thesis using assms None v p by (auto simp: vn_Apply_def stateFromConfig_def)
  next
    case p0: None
    show ?thesis
    proof (cases "buildApplyCommands (pf_goos pf) cfg")
      case (Inl e)
      then show ?thesis using assms None v p p0 by (auto simp: vn_Apply_def)
    next
      case (Inr cs)
      obtain q texts os2 where q: "run_commands (pf_run pf) cs os1 = (q, texts, os2)" by (metis prod_cases3)
      have e: "vn_Apply pf cfg (s, os) = (case q of
          Some e \<Rightarrow> (Some e, (stateFromConfig cfg)\<lparr>vs_LastError := Some e, vs_LastCommands := texts\<rparr>, os2)
        | None \<Rightarrow> (None, (stateFromConfig cfg)\<lparr>vs_Applied := True, vs_LastCommands := texts\<rparr>, os2))"
        using None p p0 Inr q assms(2) by (auto simp: vn_Apply_def split: option.split)
      have a: "q = None \<longleftrightarrow> all_run (pf_run pf) cs os1 \<noteq> None" using run_commands_err [of "pf_run pf" cs os1] q by simp
      have t: "q = None \<Longrightarrow> texts = map command_String cs" using q run_commands_ok by metis
      show ?thesis
        using assms(1) v p p0 Inr a t unfolding e by (auto simp: stateFromConfig_def split: option.splits)
    qed
  qed
qed

section \<open>Resetting\<close>

text \<open>
  A failed application cannot be taken back. When \<open>Apply\<close> fails after its checks, also over a network
  that was applied before, the next \<open>Reset\<close> succeeds without running a command: what the commands before the
  failing one have set up, and every route of the network before, stays.
\<close>

theorem vn_failed_apply_stays:
  assumes "vn_Apply pf cfg (s, os) = (Some e, s', os')" and "pf_apply pf = None"
    and "vn_valid (pf_ParseAddr pf) (pf_ParsePrefix pf) cfg" and "buildApplyCommands (pf_goos pf) cfg = Inr cs"
  shows "vn_Reset pf (s', os') = (None, s', os') \<and> vs_Routes s' = vc_Routes cfg"
proof -
  have n: "\<not> vs_Applied s'" using vn_apply_outcome [OF assms(1,2)] assms(3,4) by auto
  have "vs_Routes s' = vc_Routes cfg"
    using assms by (auto simp: vn_Apply_def validate_None [symmetric] stateFromConfig_def split: prod.splits option.splits)
  then show ?thesis using n by (simp add: vn_Reset_def)
qed

text \<open>
  A reset that fails after its first command can never be completed. The network stays applied with all its
  routes, so that the next \<open>Reset\<close> starts again with the route that is already gone; as the system refuses to
  delete it a second time, that one fails at once, and so does every later one, with the routes behind it left.
\<close>

theorem vn_reset_stuck:
  assumes "vn_Reset pf (s, os) = (Some e, s', os')" and "vs_Applied s" and "pf_apply pf = None"
    and "buildResetCommands (pf_goos pf) s = Inr (c # cs)" and "fst (pf_run pf c os) = None"
    and "gone os'" and "\<And>x. gone x \<Longrightarrow> fst (pf_run pf c x) \<noteq> None \<and> gone (snd (pf_run pf c x))"
  shows "\<exists>e. let (r, s2, os2) = ((\<lambda>(r, st). vn_Reset pf st) ^^ n) (vn_Reset pf (s', os')) in
    r = Some (CommandFailed e) \<and> vs_Applied s2 \<and> vs_Routes s2 = vs_Routes s \<and> gone os2 \<and> vs_LastCommands s2 = [command_String c]"
proof -
  have s': "vs_Applied s' \<and> vs_Interface s' = vs_Interface s \<and> vs_Routes s' = vs_Routes s"
    using assms(1-5) by (auto simp: vn_Reset_def split: prod.splits option.splits)
  have same: "vs_Interface t = vs_Interface s \<Longrightarrow> vs_Routes t = vs_Routes s \<Longrightarrow> buildResetCommands (pf_goos pf) t = Inr (c # cs)" for t
    using assms(4) by (auto simp: buildResetCommands_def buildWindowsResetCommands_def buildLinuxResetCommands_def buildDarwinResetCommands_def split: if_splits)
  have step: "\<exists>e t2 os2. vn_Reset pf (t, x) = (Some (CommandFailed e), t2, os2) \<and> vs_Applied t2 \<and> vs_Interface t2 = vs_Interface s
      \<and> vs_Routes t2 = vs_Routes s \<and> gone os2 \<and> vs_LastCommands t2 = [command_String c]"
    if t: "vs_Applied t" "vs_Interface t = vs_Interface s" "vs_Routes t = vs_Routes s" and g: "gone x" for t x
  proof -
    obtain e os2 where "pf_run pf c x = (Some e, os2)" "gone os2" using assms(7) [OF g] by (cases "pf_run pf c x") auto
    then show ?thesis using t same [OF t(2,3)] assms(3) by (simp add: vn_Reset_def)
  qed
  have "\<exists>e s2 os2. ((\<lambda>(r, st). vn_Reset pf st) ^^ n) (vn_Reset pf (s', os')) = (Some (CommandFailed e), s2, os2) \<and> vs_Applied s2
      \<and> vs_Interface s2 = vs_Interface s \<and> vs_Routes s2 = vs_Routes s \<and> gone os2 \<and> vs_LastCommands s2 = [command_String c]"
  proof (induction n)
    case 0
    show ?case using step [of s' os'] s' assms(6) by auto
  next
    case (Suc n)
    then obtain e s2 os2 where "((\<lambda>(r, st). vn_Reset pf st) ^^ n) (vn_Reset pf (s', os')) = (Some (CommandFailed e), s2, os2)"
      "vs_Applied s2" "vs_Interface s2 = vs_Interface s" "vs_Routes s2 = vs_Routes s" "gone os2" by blast
    then show ?case using step [of s2 os2] by auto
  qed
  then show ?thesis by auto
qed

section \<open>Masks\<close>

text \<open>The dotted mask of a prefix length.\<close>

definition mask_octet :: "nat \<Rightarrow> nat \<Rightarrow> nat" where
  "mask_octet n i = (if 8 * i + 8 \<le> n then 255 else if n \<le> 8 * i then 0 else 256 - 2 ^ (8 * i + 8 - n))"

definition dotted_mask :: "nat \<Rightarrow> string" where
  "dotted_mask n = nat_str (mask_octet n 0) @ ''.'' @ nat_str (mask_octet n 1) @ ''.'' @ nat_str (mask_octet n 2) @ ''.'' @ nat_str (mask_octet n 3)"

lemma mask_texts:
  "dotted_mask 8 = ''255.0.0.0''" "dotted_mask 16 = ''255.255.0.0''" "dotted_mask 24 = ''255.255.255.0''"
  "dotted_mask 32 = ''255.255.255.255''"
  by code_simp+

lemma len_texts: "nat_str 8 = ''8''" "nat_str 16 = ''16''" "nat_str 24 = ''24''" "nat_str 32 = ''32''"
  by code_simp+

lemma mask_octets_24:
  assumes "n \<le> 32" "mask_octet n 2 = 255" "mask_octet n 3 = 0"
  shows "n = 24"
proof -
  have "24 \<le> n"
  proof (rule ccontr)
    assume "\<not> 24 \<le> n"
    then have l: "1 \<le> 24 - n" by simp
    have "(2 :: nat) ^ 1 \<le> 2 ^ (24 - n)" by (rule power_increasing [OF l]) simp
    then show False using assms(2) \<open>\<not> 24 \<le> n\<close> by (auto simp: mask_octet_def split: if_splits)
  qed
  moreover have "n \<le> 24"
  proof (rule ccontr)
    assume "\<not> n \<le> 24"
    then have l: "32 - n \<le> 7" by simp
    have "(2 :: nat) ^ (32 - n) \<le> 2 ^ 7" by (rule power_increasing [OF l]) simp
    then show False using assms(3) \<open>\<not> n \<le> 24\<close> by (auto simp: mask_octet_def split: if_splits)
  qed
  ultimately show ?thesis by simp
qed

lemma nat_str_eq: "nat_str n = nat_str m \<longleftrightarrow> n = m"
  using nat_str_inj [of n m] by blast

lemma split_mask: "split_on (CHR ''.'') (dotted_mask n) = map (\<lambda>i. nat_str (mask_octet n i)) [0, 1, 2, 3]"
  by (simp add: dotted_mask_def split_on_append split_on_no nat_str_no_dot)

lemma mask_24_only:
  assumes "n \<le> 32" "dotted_mask n = dotted_mask 24"
  shows "n = 24"
proof -
  have "nat_str (mask_octet n 2) = nat_str (mask_octet 24 2) \<and> nat_str (mask_octet n 3) = nat_str (mask_octet 24 3)"
    using arg_cong [OF assms(2), of "split_on (CHR ''.'')"] unfolding split_mask by simp
  then have "mask_octet n 2 = mask_octet 24 2" "mask_octet n 3 = mask_octet 24 3" by (simp_all only: nat_str_eq)
  moreover have "mask_octet 24 2 = 255" "mask_octet 24 3 = 0" by (simp_all add: mask_octet_def)
  ultimately show ?thesis using mask_octets_24 [OF assms(1)] by (simp only:)
qed

lemma nat_str_no_slash: "CHR ''/'' \<notin> set (nat_str n)"
proof
  assume "CHR ''/'' \<in> set (nat_str n)"
  then obtain d where "d < 10" "CHR ''/'' = digit_char d" using nat_str_digits by blast
  then have "(of_char (CHR ''/'') :: nat) = 48 + d" using of_digit_char by metis
  then show False by simp
qed

text \<open>
  The mask is right for whole octets only. For an IPv4 prefix the mask in the commands for Windows and macOS
  is the one of the prefix length exactly when that is 8, 16, 24 or 32; every other length is given the mask of 24.
\<close>

theorem mask_of_octets:
  assumes "CHR ''/'' \<notin> set addr" and "n \<le> 32"
  shows "maskFromCIDR (addr @ ''/'' @ nat_str n) = dotted_mask n \<longleftrightarrow> n \<in> {8, 16, 24, 32}"
proof -
  have p: "split_on (CHR ''/'') (addr @ ''/'' @ nat_str n) = [addr, nat_str n]"
    using assms(1) by (simp add: split_on_append split_on_no nat_str_no_slash)
  have t: "nat_str n = ''8'' \<longleftrightarrow> n = 8" "nat_str n = ''16'' \<longleftrightarrow> n = 16" "nat_str n = ''24'' \<longleftrightarrow> n = 24" "nat_str n = ''32'' \<longleftrightarrow> n = 32"
    using nat_str_inj len_texts by metis+
  have m: "maskFromCIDR (addr @ ''/'' @ nat_str n) = (if n \<in> {8, 16, 24, 32} then dotted_mask n else dotted_mask 24)"
    unfolding maskFromCIDR_def p Let_def by (auto simp: t mask_texts len_texts)
  show ?thesis unfolding m using mask_24_only [OF assms(2)] by (cases "n = 24") auto
qed

section \<open>A small system\<close>

text \<open>A system that remembers the commands it ran and refuses those it is told to.\<close>

definition ex_platform :: "(systemCommand \<Rightarrow> systemCommand list \<Rightarrow> bool) \<Rightarrow> systemCommand list platform" where
  "ex_platform refuse = \<lparr>pf_goos = ''linux'', pf_run = (\<lambda>c os. if refuse c os then (Some ''exit status 2'', os) else (None, os @ [c])),
     pf_checker = None, pf_apply = None, pf_reset = (\<lambda>_ os. (Inl [], os)), pf_ParseAddr = (\<lambda>_. None), pf_ParsePrefix = (\<lambda>_. None)\<rparr>"

definition ex_vroute :: "string \<Rightarrow> VRoute" where
  "ex_vroute d = \<lparr>vr_Destination = d, vr_Gateway = ''10.7.0.1'', vr_Interface = [], vr_Metric = 10\<rparr>"

definition ex_vconfig :: VConfig where
  "ex_vconfig = \<lparr>vc_NodeID = ''n1'', vc_VirtualIP = ''10.7.0.2'', vc_Subnet = ''10.7.0.0/16'', vc_Gateway = [], vc_Interface = ''nt0'',
     vc_MTU = 1400, vc_Routes = [ex_vroute ''10.8.0.0/16'', ex_vroute ''10.9.0.0/16'']\<rparr>"

lemma ex_mtu: "int_str 1400 = ''1400''"
  by code_simp

lemma ex_vconfig_valid: "vn_valid (\<lambda>_. None) (\<lambda>_. None) ex_vconfig"
  by (simp add: vn_valid_def ex_vconfig_def ex_vroute_def trim_space_def trim_if_def trim_right_if_def is_space_def)

definition ex_applied :: VState where
  "ex_applied = (stateFromConfig ex_vconfig)\<lparr>vs_Applied := True\<rparr>"

definition ex_delete :: "string \<Rightarrow> systemCommand" where
  "ex_delete d = \<lparr>sc_name = ''ip'', sc_args = [''route'', ''del'', d, ''dev'', ''nt0'']\<rparr>"

theorem vn_apply_outcome_witness:
  "fst (vn_Apply (ex_platform (\<lambda>_ _. False)) ex_vconfig (no_state, [])) = None"
proof -
  obtain r s os where a: "vn_Apply (ex_platform (\<lambda>_ _. False)) ex_vconfig (no_state, []) = (r, s, os)" by (metis prod_cases3)
  have "all_run (\<lambda>c os. (None, os @ [c])) cs os = Some (os @ cs)" for cs os by (induction cs arbitrary: os) simp_all
  then have "r = None"
    using vn_apply_outcome [OF a] ex_vconfig_valid
    by (simp add: ex_platform_def ensureApplyPreconditions_def buildApplyCommands_def)
  then show ?thesis by (simp add: a)
qed

theorem vn_failed_apply_stays_witness:
  "let (r, s, os) = vn_Apply (ex_platform (\<lambda>c _. ''route'' \<in> set (sc_args c))) ex_vconfig (ex_applied, []) in
    r \<noteq> None \<and> length os = 3 \<and> vn_Reset (ex_platform (\<lambda>c _. ''route'' \<in> set (sc_args c))) (s, os) = (None, s, os)"
proof -
  let ?pf = "ex_platform (\<lambda>c _. ''route'' \<in> set (sc_args c))"
  have v: "vn_validateConfig (\<lambda>_. None) (\<lambda>_. None) ex_vconfig = None" by (simp add: validate_None ex_vconfig_valid)
  have c: "map (\<lambda>c. ''route'' \<in> set (sc_args c)) (buildLinuxApplyCommands ex_vconfig) = [False, False, False, True, True]"
    by (simp add: buildLinuxApplyCommands_def ex_vconfig_def ex_vroute_def ex_mtu)
  then obtain c1 c2 c3 c4 c5 where cs: "buildLinuxApplyCommands ex_vconfig = [c1, c2, c3, c4, c5]"
    and "''route'' \<notin> set (sc_args c1)" "''route'' \<notin> set (sc_args c2)" "''route'' \<notin> set (sc_args c3)" "''route'' \<in> set (sc_args c4)"
    by (auto simp: map_eq_Cons_conv)
  then obtain s os where a: "vn_Apply ?pf ex_vconfig (ex_applied, []) = (Some (CommandFailed ''exit status 2''), s, os)" "length os = 3"
    using v by (simp add: vn_Apply_def ex_platform_def ensureApplyPreconditions_def buildApplyCommands_def)
  have "vn_Reset ?pf (s, os) = (None, s, os)"
    using vn_failed_apply_stays [OF a(1)] ex_vconfig_valid by (simp add: ex_platform_def buildApplyCommands_def)
  then show ?thesis using a by simp
qed

theorem vn_reset_stuck_witness:
  "\<exists>s os. vn_Reset (ex_platform (\<lambda>c os. c \<in> set os \<or> c = ex_delete ''10.9.0.0/16'')) (ex_applied, []) = (Some (CommandFailed ''exit status 2''), s, os)
    \<and> vs_Applied (fst (snd (vn_Reset (ex_platform (\<lambda>c os. c \<in> set os \<or> c = ex_delete ''10.9.0.0/16'')) (s, os))))"
proof -
  let ?pf = "ex_platform (\<lambda>c os. c \<in> set os \<or> c = ex_delete ''10.9.0.0/16'')"
  have b: "buildResetCommands (pf_goos ?pf) ex_applied = Inr (ex_delete ''10.8.0.0/16'' # [ex_delete ''10.9.0.0/16''])"
    by (simp add: ex_platform_def buildResetCommands_def buildLinuxResetCommands_def ex_applied_def stateFromConfig_def ex_vconfig_def ex_vroute_def
        ex_delete_def)
  obtain s os where r: "vn_Reset ?pf (ex_applied, []) = (Some (CommandFailed ''exit status 2''), s, os)" "ex_delete ''10.8.0.0/16'' \<in> set os"
    using b by (simp add: vn_Reset_def ex_applied_def) (simp add: ex_platform_def ex_delete_def)
  have g: "fst (pf_run ?pf (ex_delete ''10.8.0.0/16'') x) \<noteq> None \<and> ex_delete ''10.8.0.0/16'' \<in> set (snd (pf_run ?pf (ex_delete ''10.8.0.0/16'') x))"
    if "ex_delete ''10.8.0.0/16'' \<in> set x" for x using that by (simp add: ex_platform_def)
  have f: "fst (pf_run ?pf (ex_delete ''10.8.0.0/16'') []) = None" by (simp add: ex_platform_def ex_delete_def)
  have p: "pf_apply ?pf = None" "vs_Applied ex_applied" by (simp_all add: ex_platform_def ex_applied_def)
  obtain r2 s2 os2 where x: "vn_Reset ?pf (s, os) = (r2, s2, os2)" by (rule prod_cases3)
  have "vs_Applied s2" using vn_reset_stuck [OF r(1) p(2,1) b f r(2) g, of 0] x by simp
  then show ?thesis using r(1) x by auto
qed

theorem mask_of_octets_witness:
  "maskFromCIDR (''10.7.0.0'' @ ''/'' @ nat_str 16) = dotted_mask 16 \<and> maskFromCIDR (''10.7.0.0'' @ ''/'' @ nat_str 20) \<noteq> dotted_mask 20"
  using mask_of_octets [of "''10.7.0.0''" 16] mask_of_octets [of "''10.7.0.0''" 20] by simp

end
