(* ===== verification/Net_Migration.thy ===== *)
theory Net_Migration
  imports Go_Prelude
begin

text \<open>
  The watch on the network interfaces of the desktop (\<open>desktop/internal/migration\<close>): the polling detector with
  its channel of events, and the migrator that turns events into states and calls its observers. A poll is
  given what \<open>net.Interfaces\<close> returned; ranges over maps visit their keys in the orders given, and the clock is
  an argument. The calls of the observers are recorded. The logger is left out.
\<close>

section \<open>The detector\<close>

record NetworkEvent =
  ne_Type :: string
  ne_Interface :: string
  ne_OldAddr :: string
  ne_NewAddr :: string
  ne_Timestamp :: gotime

text \<open>An interface as the library returns it: its flags, and its addresses unless reading them failed.\<close>

record net_interface =
  ni_Name :: string
  ni_Up :: bool
  ni_Loopback :: bool
  ni_Addrs :: "string list option"

record PollingDetector =
  pd_interval :: duration
  pd_events :: "NetworkEvent list"
  pd_known :: "(string, string) fmap"

abbreviation events_cap :: nat where "events_cap \<equiv> 16"

definition NewPollingDetector :: "duration \<Rightarrow> PollingDetector" where
  "NewPollingDetector interval = \<lparr>pd_interval = interval, pd_events = [], pd_known = fmempty\<rparr>"

definition emitEvent :: "NetworkEvent \<Rightarrow> PollingDetector \<Rightarrow> PollingDetector" where
  "emitEvent evt d = (if length (pd_events d) < events_cap then d\<lparr>pd_events := pd_events d @ [evt]\<rparr> else d)"

definition iface_entry :: "net_interface \<Rightarrow> (string, string) fmap \<Rightarrow> (string, string) fmap" where
  "iface_entry iface m =
     (if \<not> ni_Up iface \<or> ni_Loopback iface then m
      else (case ni_Addrs iface of None \<Rightarrow> m | Some [] \<Rightarrow> m | Some (a # _) \<Rightarrow> fmupd (ni_Name iface) a m))"

definition current_addrs :: "net_interface list \<Rightarrow> (string, string) fmap" where
  "current_addrs ifaces = fold iface_entry ifaces fmempty"

definition snapshot :: "net_interface list option \<Rightarrow> PollingDetector \<Rightarrow> PollingDetector" where
  "snapshot ifaces d =
     (case ifaces of None \<Rightarrow> d | Some is \<Rightarrow> d\<lparr>pd_known := fold iface_entry is (pd_known d)\<rparr>)"

definition present_event :: "(string \<Rightarrow> gotime) \<Rightarrow> (string, string) fmap \<Rightarrow> (string, string) fmap \<Rightarrow> string \<Rightarrow> NetworkEvent option" where
  "present_event clock known current name =
     (case fmlookup current name of
        None \<Rightarrow> None
      | Some addr \<Rightarrow>
          (case fmlookup known name of
             None \<Rightarrow> Some \<lparr>ne_Type = ''interface_added'', ne_Interface = name, ne_OldAddr = [], ne_NewAddr = addr, ne_Timestamp = clock name\<rparr>
           | Some oldAddr \<Rightarrow>
               if oldAddr \<noteq> addr then
                 Some \<lparr>ne_Type = ''address_changed'', ne_Interface = name, ne_OldAddr = oldAddr, ne_NewAddr = addr, ne_Timestamp = clock name\<rparr>
               else None))"

definition absent_event :: "(string \<Rightarrow> gotime) \<Rightarrow> (string, string) fmap \<Rightarrow> (string, string) fmap \<Rightarrow> string \<Rightarrow> NetworkEvent option" where
  "absent_event clock known current name =
     (case fmlookup known name of
        None \<Rightarrow> None
      | Some addr \<Rightarrow>
          if fmlookup current name = None then
            Some \<lparr>ne_Type = ''interface_removed'', ne_Interface = name, ne_OldAddr = addr, ne_NewAddr = [], ne_Timestamp = clock name\<rparr>
          else None)"

definition changes :: "(string \<Rightarrow> gotime) \<Rightarrow> string list \<Rightarrow> string list \<Rightarrow> (string, string) fmap \<Rightarrow> (string, string) fmap \<Rightarrow> NetworkEvent list" where
  "changes clock ks ks' known current =
     List.map_filter (present_event clock known current) ks @ List.map_filter (absent_event clock known current) ks'"

definition detectChanges ::
    "(string \<Rightarrow> gotime) \<Rightarrow> net_interface list option \<Rightarrow> string list \<Rightarrow> string list \<Rightarrow> PollingDetector \<Rightarrow> PollingDetector" where
  "detectChanges clock ifaces ks ks' d =
     (case ifaces of
        None \<Rightarrow> d
      | Some is \<Rightarrow>
          let current = current_addrs is in
          (fold emitEvent (changes clock ks ks' (pd_known d) current) d)\<lparr>pd_known := current\<rparr>)"

section \<open>The migrator\<close>

abbreviation MigrationIdle :: string where "MigrationIdle \<equiv> ''idle''"
abbreviation MigrationDetecting :: string where "MigrationDetecting \<equiv> ''detecting''"
abbreviation MigrationMigrating :: string where "MigrationMigrating \<equiv> ''migrating''"
abbreviation MigrationSuccess :: string where "MigrationSuccess \<equiv> ''success''"
abbreviation MigrationFailed :: string where "MigrationFailed \<equiv> ''failed''"

record MigrationConfig =
  mg_DetectionInterval :: duration
  mg_MigrationTimeout :: duration
  mg_MaxPacketLoss :: int

definition DefaultMigrationConfig :: MigrationConfig where
  "DefaultMigrationConfig = \<lparr>mg_DetectionInterval = 500000000, mg_MigrationTimeout = second, mg_MaxPacketLoss = 5\<rparr>"

record Migrator =
  mi_config :: MigrationConfig
  mi_state :: string
  mi_observers :: "string list"
  mi_notified :: "(string \<times> string \<times> NetworkEvent) list"
  mi_detector :: PollingDetector
  mi_live :: bool

definition NewMigrator :: "MigrationConfig \<Rightarrow> PollingDetector \<Rightarrow> Migrator" where
  "NewMigrator cfg det =
     \<lparr>mi_config = cfg, mi_state = MigrationIdle, mi_observers = [], mi_notified = [], mi_detector = det, mi_live = False\<rparr>"

text \<open>\<open>Start\<close>: the polling detector's own \<open>Start\<close> takes the first snapshot and never fails.\<close>

definition mi_Start :: "net_interface list option \<Rightarrow> Migrator \<Rightarrow> Migrator" where
  "mi_Start ifaces m = m\<lparr>mi_state := MigrationDetecting, mi_detector := snapshot ifaces (mi_detector m), mi_live := True\<rparr>"

definition mi_Stop :: "Migrator \<Rightarrow> Migrator" where
  "mi_Stop m = m\<lparr>mi_live := False, mi_state := MigrationIdle\<rparr>"

definition OnMigration :: "string \<Rightarrow> Migrator \<Rightarrow> Migrator" where
  "OnMigration fn m = m\<lparr>mi_observers := mi_observers m @ [fn]\<rparr>"

definition notify :: "string \<Rightarrow> NetworkEvent \<Rightarrow> Migrator \<Rightarrow> Migrator" where
  "notify state evt m = m\<lparr>mi_notified := mi_notified m @ map (\<lambda>fn. (fn, state, evt)) (mi_observers m)\<rparr>"

text \<open>
  \<open>handleEvent\<close> up to its last line, which stores the detecting state; the two are apart because \<open>Stop\<close> may
  come in between.
\<close>

definition handle_body :: "NetworkEvent \<Rightarrow> Migrator \<Rightarrow> Migrator" where
  "handle_body evt m =
     (if ne_Type evt \<in> {''address_changed'', ''interface_added''} then
        let m = notify MigrationMigrating evt (m\<lparr>mi_state := MigrationMigrating\<rparr>) in
        notify MigrationSuccess evt (m\<lparr>mi_state := MigrationSuccess\<rparr>)
      else if ne_Type evt = ''interface_removed'' then notify MigrationDetecting evt m
      else m)"

definition handle_end :: "Migrator \<Rightarrow> Migrator" where
  "handle_end m = m\<lparr>mi_state := MigrationDetecting\<rparr>"

definition handleEvent :: "NetworkEvent \<Rightarrow> Migrator \<Rightarrow> Migrator" where
  "handleEvent evt m = handle_end (handle_body evt m)"

text \<open>A round of the event loop: it takes the oldest event when there is one.\<close>

definition event_round :: "Migrator \<Rightarrow> Migrator" where
  "event_round m =
     (case pd_events (mi_detector m) of
        [] \<Rightarrow> m
      | evt # rest \<Rightarrow> handleEvent evt (m\<lparr>mi_detector := (mi_detector m)\<lparr>pd_events := rest\<rparr>\<rparr>))"

section \<open>Replaying the events\<close>

definition replay :: "NetworkEvent \<Rightarrow> (string, string) fmap \<Rightarrow> (string, string) fmap" where
  "replay evt m = (if ne_Type evt = ''interface_removed'' then fmdrop (ne_Interface evt) m else fmupd (ne_Interface evt) (ne_NewAddr evt) m)"

lemma present_replay:
  assumes "distinct ks"
  shows "fmlookup (fold replay (List.map_filter (present_event clock known current) ks) m) x =
    (if x \<in> set ks \<and> fmlookup current x \<noteq> None \<and> fmlookup current x \<noteq> fmlookup known x then fmlookup current x else fmlookup m x)"
  using assms
proof (induction ks arbitrary: m)
  case (Cons k ks)
  show ?case
  proof (cases "present_event clock known current k")
    case None
    then have "fmlookup current k = None \<or> fmlookup current k = fmlookup known k"
      by (auto simp: present_event_def split: option.splits if_splits)
    then show ?thesis using Cons None by (auto simp: map_filter_simps)
  next
    case (Some e)
    then have e: "ne_Interface e = k" "ne_Type e \<noteq> ''interface_removed''" "fmlookup current k = Some (ne_NewAddr e)"
      "fmlookup current k \<noteq> fmlookup known k"
      by (auto simp: present_event_def split: option.splits if_splits)
    then show ?thesis using Cons Some by (auto simp: map_filter_simps replay_def)
  qed
qed (simp add: map_filter_simps)

lemma absent_replay:
  "fmlookup (fold replay (List.map_filter (absent_event clock known current) ks) m) x =
    (if x \<in> set ks \<and> fmlookup known x \<noteq> None \<and> fmlookup current x = None then None else fmlookup m x)"
proof (induction ks arbitrary: m)
  case (Cons k ks)
  show ?case
  proof (cases "absent_event clock known current k")
    case None
    then show ?thesis using Cons by (auto simp: map_filter_simps absent_event_def split: option.splits if_splits)
  next
    case (Some e)
    then have e: "ne_Interface e = k" "ne_Type e = ''interface_removed''" "fmlookup known k \<noteq> None" "fmlookup current k = None"
      by (auto simp: absent_event_def split: option.splits if_splits)
    then show ?thesis using Cons Some by (auto simp: map_filter_simps replay_def)
  qed
qed (simp add: map_filter_simps)

lemma changes_replay:
  assumes "range_order current ks" and "range_order known ks'"
  shows "fold replay (changes clock ks ks' known current) known = current"
proof (rule fmap_ext)
  fix x
  show "fmlookup (fold replay (changes clock ks ks' known current) known) x = fmlookup current x"
    using range_order_set [OF assms(1), of x] range_order_set [OF assms(2), of x]
    by (auto simp: changes_def absent_replay present_replay [OF range_order_distinct [OF assms(1)]])
qed

lemma emit_all: "length (pd_events d) + length es \<le> events_cap \<Longrightarrow> fold emitEvent es d = d\<lparr>pd_events := pd_events d @ es\<rparr>"
  by (induction es arbitrary: d) (simp_all add: emitEvent_def)

lemma emit_full: "events_cap \<le> length (pd_events d) \<Longrightarrow> fold emitEvent es d = d"
  by (induction es arbitrary: d) (simp_all add: emitEvent_def)

lemma present_same: "List.map_filter (present_event clock m m) ks = []"
  by (induction ks) (auto simp: map_filter_simps present_event_def split: option.splits)

lemma absent_same: "List.map_filter (absent_event clock m m) ks = []"
  by (induction ks) (auto simp: map_filter_simps absent_event_def split: option.splits)

lemma changes_same: "changes clock ks ks' m m = []"
  by (simp add: changes_def present_same absent_same)

lemma changes_differ:
  assumes "e \<in> set (changes clock ks ks' known current)"
  shows "fmlookup known (ne_Interface e) \<noteq> fmlookup current (ne_Interface e)"
proof -
  consider k where "present_event clock known current k = Some e" | k where "absent_event clock known current k = Some e"
    using assms by (auto simp: changes_def map_filter_iff)
  then show ?thesis
    by cases (auto simp: present_event_def absent_event_def split: option.split_asm if_split_asm)
qed

text \<open>
  The events tell the whole change, when there is room for them. A poll whose events fit into the channel
  puts a list of events there that turns the addresses known before, replayed on them, into the ones seen now;
  nothing is reported for an interface whose address is the same.
\<close>

theorem events_replay:
  assumes "range_order (current_addrs is) ks" and "range_order (pd_known d) ks'"
    and "length (pd_events d) + length (changes clock ks ks' (pd_known d) (current_addrs is)) \<le> events_cap"
  shows "\<exists>es. pd_events (detectChanges clock (Some is) ks ks' d) = pd_events d @ es \<and> fold replay es (pd_known d) = current_addrs is
    \<and> pd_known (detectChanges clock (Some is) ks ks' d) = current_addrs is
    \<and> (\<forall>e \<in> set es. fmlookup (pd_known d) (ne_Interface e) \<noteq> fmlookup (current_addrs is) (ne_Interface e))"
proof -
  let ?es = "changes clock ks ks' (pd_known d) (current_addrs is)"
  have "fmlookup (pd_known d) (ne_Interface e) \<noteq> fmlookup (current_addrs is) (ne_Interface e)" if "e \<in> set ?es" for e
    using changes_differ [OF that] .
  then show ?thesis
    using emit_all [OF assms(3)] changes_replay [OF assms(1,2)] by (intro exI [of _ ?es]) (simp add: detectChanges_def Let_def)
qed

text \<open>
  A change that finds the channel full is lost. The poll drops its events and still remembers the new
  addresses, so that no number of later polls that see the same interfaces reports them.
\<close>

theorem events_lost:
  assumes "events_cap \<le> length (pd_events d)"
    and "\<forall>(clock, ifs, ks, ks') \<in> set polls. map_option current_addrs ifs \<in> {None, Some (current_addrs is)}"
  shows "let d' = detectChanges clock (Some is) ks ks' d;
           d'' = fold (\<lambda>(clock, ifs, ks, ks'). detectChanges clock ifs ks ks') polls (d'\<lparr>pd_events := []\<rparr>) in
    pd_events d' = pd_events d \<and> pd_known d' = current_addrs is \<and> pd_events d'' = [] \<and> pd_known d'' = current_addrs is"
proof -
  define d' where "d' = detectChanges clock (Some is) ks ks' d"
  have d': "pd_events d' = pd_events d" "pd_known d' = current_addrs is"
    using emit_full [OF assms(1)] by (simp_all add: d'_def detectChanges_def Let_def)
  have "pd_events (fold (\<lambda>(clock, ifs, ks, ks'). detectChanges clock ifs ks ks') polls x) = [] \<and>
      pd_known (fold (\<lambda>(clock, ifs, ks, ks'). detectChanges clock ifs ks ks') polls x) = current_addrs is"
    if "pd_events x = []" "pd_known x = current_addrs is" for x
    using assms(2) that
  proof (induction polls arbitrary: x)
    case (Cons p ps)
    obtain cl ifs k1 k2 where p: "p = (cl, ifs, k1, k2)" by (metis prod_cases4)
    have "pd_events (detectChanges cl ifs k1 k2 x) = [] \<and> pd_known (detectChanges cl ifs k1 k2 x) = current_addrs is"
      using Cons.prems p by (auto simp: detectChanges_def changes_same Let_def split: option.splits)
    then show ?case using Cons.IH [of "detectChanges cl ifs k1 k2 x"] Cons.prems(1) p by simp
  qed simp
  then show ?thesis using d' by (simp add: d'_def [symmetric] Let_def)
qed

text \<open>
  A stop during an event is forgotten. When \<open>Stop\<close> comes while an event is handled, the handler stores the
  detecting state after it: the migrator is stopped and says that it is detecting, whatever is handled.
\<close>

theorem stop_forgotten:
  "mi_state (handle_end (mi_Stop (handle_body evt m))) = MigrationDetecting
    \<and> \<not> mi_live (handle_end (mi_Stop (handle_body evt m))) \<and> mi_state (mi_Stop (handleEvent evt m)) = MigrationIdle"
  by (simp add: handle_end_def mi_Stop_def)

section \<open>Two interfaces\<close>

definition ex_ifaces :: "net_interface list" where
  "ex_ifaces = [\<lparr>ni_Name = ''lo'', ni_Up = True, ni_Loopback = True, ni_Addrs = Some [''127.0.0.1/8'']\<rparr>,
     \<lparr>ni_Name = ''eth0'', ni_Up = True, ni_Loopback = False, ni_Addrs = Some [''10.0.0.2/24'']\<rparr>]"

lemma ex_current: "current_addrs ex_ifaces = fmupd ''eth0'' ''10.0.0.2/24'' fmempty"
  by (simp add: current_addrs_def ex_ifaces_def iface_entry_def)

definition ex_detector :: "NetworkEvent list \<Rightarrow> PollingDetector" where
  "ex_detector es = (NewPollingDetector second)\<lparr>pd_known := fmupd ''wlan0'' ''10.1.0.2/24'' fmempty, pd_events := es\<rparr>"

theorem events_replay_witness:
  "fold replay (pd_events (detectChanges (\<lambda>_. 7) (Some ex_ifaces) [''eth0''] [''wlan0''] (ex_detector []))) (fmupd ''wlan0'' ''10.1.0.2/24'' fmempty)
    = fmupd ''eth0'' ''10.0.0.2/24'' fmempty"
proof -
  have r: "range_order (current_addrs ex_ifaces) [''eth0'']" "range_order (pd_known (ex_detector [])) [''wlan0'']"
    by (simp_all add: range_order_def ex_current ex_detector_def)
  have "length (pd_events (ex_detector [])) + length (changes (\<lambda>_. 7) [''eth0''] [''wlan0''] (pd_known (ex_detector [])) (current_addrs ex_ifaces)) \<le> events_cap"
    by (simp add: ex_detector_def NewPollingDetector_def changes_def map_filter_simps present_event_def absent_event_def ex_current)
  from events_replay [OF r this] show ?thesis by (auto simp: ex_current) (simp add: ex_detector_def NewPollingDetector_def)
qed

theorem events_lost_witness:
  "pd_events (detectChanges (\<lambda>_. 9) (Some ex_ifaces) [''eth0''] [''eth0'']
      ((detectChanges (\<lambda>_. 8) (Some ex_ifaces) [''eth0''] [''wlan0'']
        (ex_detector (replicate 16 \<lparr>ne_Type = ''interface_added'', ne_Interface = ''tun0'', ne_OldAddr = [], ne_NewAddr = ''10.7.0.2'', ne_Timestamp = 1\<rparr>)))
        \<lparr>pd_events := []\<rparr>)) = []"
  using events_lost [of "ex_detector (replicate 16 \<lparr>ne_Type = ''interface_added'', ne_Interface = ''tun0'', ne_OldAddr = [], ne_NewAddr = ''10.7.0.2'', ne_Timestamp = 1\<rparr>)"
      "[(\<lambda>_. 9, Some ex_ifaces, [''eth0''], [''eth0''])]" ex_ifaces "\<lambda>_. 8" "[''eth0'']" "[''wlan0'']"]
  by (simp add: ex_detector_def Let_def)

end
