(* ===== verification/Anycast_Router.thy ===== *)
theory Anycast_Router
  imports Complex_Main Go_Sort Net_Addr
begin

text \<open>
  The choice of the nearest edge node (\<open>server/internal/anycast\<close>): the router with its nodes, the mapping of
  addresses to regions and places, and the answer to a DNS query. Coordinates are real numbers, without the
  rounding of \<open>float64\<close>; the router works with any distance, and the great-circle distance of the code is
  one. A range over a map visits its keys in the order given. The database of \<open>maxminddb\<close> is an argument.
\<close>

section \<open>Distance\<close>

definition toRad :: "real \<Rightarrow> real" where
  "toRad deg = deg * pi / 180"

text \<open>\<open>math.Atan2\<close> for the arguments it is called with, which are not negative.\<close>

definition atan2_pos :: "real \<Rightarrow> real \<Rightarrow> real" where
  "atan2_pos y x = (if x = 0 then (if y = 0 then 0 else pi / 2) else arctan (y / x))"

definition haversine :: "real \<Rightarrow> real \<Rightarrow> real \<Rightarrow> real \<Rightarrow> real" where
  "haversine lat1 lon1 lat2 lon2 =
     (let dLat = toRad (lat2 - lat1); dLon = toRad (lon2 - lon1);
          a = sin (dLat / 2) * sin (dLat / 2) + cos (toRad lat1) * cos (toRad lat2) * sin (dLon / 2) * sin (dLon / 2);
          c = 2 * atan2_pos (sqrt a) (sqrt (1 - a)) in
      6371 * c)"

lemma haversine_sym: "haversine a b c d = haversine c d a b"
proof -
  have e: "toRad (x - y) / 2 = - (toRad (y - x) / 2)" for x y by (simp add: toRad_def field_simps)
  show ?thesis unfolding haversine_def Let_def e [of c a] e [of d b] by (simp add: mult.commute mult.left_commute)
qed

lemma haversine_same: "haversine a b a b = 0"
  by (simp add: haversine_def toRad_def atan2_pos_def)

section \<open>The router\<close>

record AnyNode =
  no_ID :: string
  no_Addr :: string
  no_Region :: string
  no_Lat :: real
  no_Lon :: real
  no_Healthy :: bool
  no_Latency :: duration
  no_Priority :: int

record AnycastConfig =
  ac_FailoverTimeout :: duration
  ac_CacheTTL :: duration
  ac_MaxRetries :: int

definition DefaultAnycastConfig :: AnycastConfig where
  "DefaultAnycastConfig = \<lparr>ac_FailoverTimeout = 3 * second, ac_CacheTTL = 60 * second, ac_MaxRetries = 3\<rparr>"

record AnyRouter =
  ar_config :: AnycastConfig
  ar_nodes :: "(string, AnyNode) fmap"

definition NewRouter :: "AnycastConfig \<Rightarrow> AnyRouter" where
  "NewRouter cfg = \<lparr>ar_config = cfg, ar_nodes = fmempty\<rparr>"

definition any_AddNode :: "AnyNode \<Rightarrow> AnyRouter \<Rightarrow> AnyRouter" where
  "any_AddNode n r = r\<lparr>ar_nodes := fmupd (no_ID n) n (ar_nodes r)\<rparr>"

definition any_RemoveNode :: "string \<Rightarrow> AnyRouter \<Rightarrow> AnyRouter" where
  "any_RemoveNode i r = r\<lparr>ar_nodes := fmdrop i (ar_nodes r)\<rparr>"

definition any_UpdateHealth :: "string \<Rightarrow> bool \<Rightarrow> AnyRouter \<Rightarrow> AnyRouter" where
  "any_UpdateHealth i healthy r =
     (case fmlookup (ar_nodes r) i of
        None \<Rightarrow> r
      | Some n \<Rightarrow> r\<lparr>ar_nodes := fmupd i (n\<lparr>no_Healthy := healthy\<rparr>) (ar_nodes r)\<rparr>)"

definition healthyNodes :: "string list \<Rightarrow> AnyRouter \<Rightarrow> AnyNode list" where
  "healthyNodes ks r = filter no_Healthy (range_vals (ar_nodes r) ks)"

type_synonym distance = "real \<Rightarrow> real \<Rightarrow> real \<Rightarrow> real \<Rightarrow> real"

definition nearer :: "distance \<Rightarrow> real \<Rightarrow> real \<Rightarrow> AnyNode \<Rightarrow> AnyNode \<Rightarrow> bool" where
  "nearer metric lat lon a b =
     (let di = metric lat lon (no_Lat a) (no_Lon a); dj = metric lat lon (no_Lat b) (no_Lon b) in
      if di = dj then no_Priority a < no_Priority b else di < dj)"

definition SelectNearest :: "distance \<Rightarrow> string list \<Rightarrow> real \<Rightarrow> real \<Rightarrow> AnyRouter \<Rightarrow> AnyNode option" where
  "SelectNearest metric ks lat lon r =
     (let candidates = healthyNodes ks r in
      if candidates = [] then None else Some (hd (sort_slice (nearer metric lat lon) candidates)))"

text \<open>Slicing with a negative bound panics: there is no result then.\<close>

definition SelectNearestWithFailover ::
    "distance \<Rightarrow> string list \<Rightarrow> real \<Rightarrow> real \<Rightarrow> int \<Rightarrow> AnyRouter \<Rightarrow> AnyNode list option" where
  "SelectNearestWithFailover metric ks lat lon cnt r =
     (let candidates = healthyNodes ks r in
      if candidates = [] then Some []
      else
        let sorted = sort_slice (nearer metric lat lon) candidates;
            cnt = if cnt > int (length candidates) then int (length candidates) else cnt in
        if cnt < 0 then None else Some (take (nat cnt) sorted))"

definition SelectByRegion :: "distance \<Rightarrow> string list \<Rightarrow> real \<Rightarrow> real \<Rightarrow> string \<Rightarrow> AnyRouter \<Rightarrow> AnyNode option" where
  "SelectByRegion metric ks lat lon region r =
     (let candidates = filter (\<lambda>n. no_Healthy n \<and> no_Region n = region) (range_vals (ar_nodes r) ks) in
      if candidates = [] then None
      else Some (hd (sort_slice (\<lambda>a b. metric lat lon (no_Lat a) (no_Lon a) < metric lat lon (no_Lat b) (no_Lon b)) candidates)))"

definition any_NodeCount :: "AnyRouter \<Rightarrow> nat" where
  "any_NodeCount r = mlen (ar_nodes r)"

definition HealthyCount :: "string list \<Rightarrow> AnyRouter \<Rightarrow> nat" where
  "HealthyCount ks r = length (healthyNodes ks r)"

section \<open>Regions of addresses\<close>

record GeoResolver =
  gr_mapping :: "(string, string) fmap"

definition NewGeoResolver :: GeoResolver where
  "NewGeoResolver = \<lparr>gr_mapping = fmempty\<rparr>"

definition geo_AddMapping :: "string \<Rightarrow> string \<Rightarrow> GeoResolver \<Rightarrow> GeoResolver" where
  "geo_AddMapping p region g = g\<lparr>gr_mapping := fmupd p region (gr_mapping g)\<rparr>"

definition geo_Resolve :: "string list \<Rightarrow> string \<Rightarrow> GeoResolver \<Rightarrow> string option" where
  "geo_Resolve ks clientIP g =
     (case fmlookup (gr_mapping g) clientIP of
        Some region \<Rightarrow> Some region
      | None \<Rightarrow>
          (case find (\<lambda>p. fmlookup (gr_mapping g) p \<noteq> None \<and> p \<noteq> [] \<and> has_prefix clientIP p) ks of
             None \<Rightarrow> None
           | Some p \<Rightarrow> fmlookup (gr_mapping g) p))"

definition coords :: "(string \<times> real \<times> real) list" where
  "coords = [(''us-east'', 39, -77), (''us-west'', 37, -122), (''eu-west'', 515 / 10, -1 / 10), (''eu-central'', 501 / 10, 87 / 10),
     (''ap-northeast'', 357 / 10, 1397 / 10), (''ap-southeast'', 13 / 10, 1038 / 10), (''ap-south'', 19, 728 / 10), (''sa-east'', -235 / 10, -466 / 10)]"

definition regionCoordinates :: "string \<Rightarrow> real \<times> real" where
  "regionCoordinates region = (case map_of coords region of None \<Rightarrow> (0, 0) | Some c \<Rightarrow> c)"

record DNSRecord =
  dr_Name :: string
  dr_Addrs :: "string list"
  dr_TTL :: int
  dr_Region :: string

record GeoDNSServer =
  gd_config :: AnycastConfig
  gd_router :: AnyRouter
  gd_geo :: GeoResolver
  gd_domain :: string

text \<open>\<open>int(d.Seconds())\<close> of a duration: towards zero.\<close>

definition whole_seconds :: "duration \<Rightarrow> int" where
  "whole_seconds d = (if d < 0 then - ((- d) div second) else d div second)"

definition dns_Resolve :: "distance \<Rightarrow> string list \<Rightarrow> string list \<Rightarrow> string \<Rightarrow> GeoDNSServer \<Rightarrow> DNSRecord option" where
  "dns_Resolve metric ks gks clientIP s =
     (case geo_Resolve gks clientIP (gd_geo s) of
        None \<Rightarrow>
          (case SelectNearest metric ks 0 0 (gd_router s) of
             None \<Rightarrow> None
           | Some n \<Rightarrow> Some \<lparr>dr_Name = gd_domain s, dr_Addrs = [no_Addr n], dr_TTL = whole_seconds (ac_CacheTTL (gd_config s)), dr_Region = no_Region n\<rparr>)
      | Some region \<Rightarrow>
          (case regionCoordinates region of (lat, lon) \<Rightarrow>
             (case SelectNearest metric ks lat lon (gd_router s) of
                None \<Rightarrow> None
              | Some n \<Rightarrow> Some \<lparr>dr_Name = gd_domain s, dr_Addrs = [no_Addr n], dr_TTL = whole_seconds (ac_CacheTTL (gd_config s)), dr_Region = region\<rparr>)))"

section \<open>Places of addresses\<close>

record GeoIPResult =
  ge_Region :: string
  ge_Country :: string
  ge_City :: string
  ge_Latitude :: real
  ge_Longitude :: real

text \<open>The record of the database, its subdivisions by their codes.\<close>

record mmCityRecord =
  mm_City :: string
  mm_Country :: string
  mm_Subdivisions :: "string list"
  mm_Latitude :: real
  mm_Longitude :: real

definition subdivisionISO :: "mmCityRecord \<Rightarrow> string" where
  "subdivisionISO r = (case mm_Subdivisions r of [] \<Rightarrow> [] | c # _ \<Rightarrow> c)"

record MaxMindAdapter =
  ma_db :: "(netip \<Rightarrow> mmCityRecord option) option"
  ma_dbPath :: string
  ma_mappings :: "(string, GeoIPResult) fmap"
  ma_defaults :: "GeoIPResult option"

datatype geo_error = OpenDB string | InvalidIP string | NoGeoIPData string | UnknownRegion string

definition NewMaxMindAdapter ::
    "(string \<Rightarrow> (netip \<Rightarrow> mmCityRecord option) option) \<Rightarrow> string \<Rightarrow> (string, GeoIPResult) fmap \<Rightarrow> GeoIPResult option \<Rightarrow> geo_error + MaxMindAdapter" where
  "NewMaxMindAdapter Open path mappings defaults =
     (if path = [] then Inr \<lparr>ma_db = None, ma_dbPath = path, ma_mappings = mappings, ma_defaults = defaults\<rparr>
      else (case Open path of
              None \<Rightarrow> Inl (OpenDB path)
            | Some db \<Rightarrow> Inr \<lparr>ma_db = Some db, ma_dbPath = path, ma_mappings = mappings, ma_defaults = defaults\<rparr>))"

definition mm_Lookup ::
    "(string \<Rightarrow> ipnet option) \<Rightarrow> (string \<Rightarrow> netip) \<Rightarrow> string list \<Rightarrow> string \<Rightarrow> MaxMindAdapter \<Rightarrow> geo_error + GeoIPResult" where
  "mm_Lookup ParseCIDR ParseIP ks ip a =
     (case fmlookup (ma_mappings a) ip of
        Some res \<Rightarrow> Inr res
      | None \<Rightarrow>
          let parsedIP = ParseIP ip in
          if parsedIP = NilIP then Inl (InvalidIP ip)
          else (case List.map_filter (\<lambda>p. case (fmlookup (ma_mappings a) p, ParseCIDR p) of
                    (Some res, Some cidr) \<Rightarrow> if net_contains cidr parsedIP then Some res else None
                  | _ \<Rightarrow> None) ks of
              res # _ \<Rightarrow> Inr res
            | [] \<Rightarrow>
                (case (case ma_db a of None \<Rightarrow> None | Some db \<Rightarrow> db parsedIP) of
                   Some r \<Rightarrow> Inr \<lparr>ge_Region = subdivisionISO r, ge_Country = mm_Country r, ge_City = mm_City r,
                       ge_Latitude = mm_Latitude r, ge_Longitude = mm_Longitude r\<rparr>
                 | None \<Rightarrow> (case ma_defaults a of Some d \<Rightarrow> Inr d | None \<Rightarrow> Inl (NoGeoIPData ip)))))"

definition HasDatabase :: "MaxMindAdapter \<Rightarrow> bool" where
  "HasDatabase a = (ma_db a \<noteq> None)"

definition mm_AddMapping :: "string \<Rightarrow> GeoIPResult \<Rightarrow> MaxMindAdapter \<Rightarrow> MaxMindAdapter" where
  "mm_AddMapping p res a = a\<lparr>ma_mappings := fmupd p res (ma_mappings a)\<rparr>"

definition mm_RemoveMapping :: "string \<Rightarrow> MaxMindAdapter \<Rightarrow> MaxMindAdapter" where
  "mm_RemoveMapping p a = a\<lparr>ma_mappings := fmdrop p (ma_mappings a)\<rparr>"

definition mm_MappingCount :: "MaxMindAdapter \<Rightarrow> nat" where
  "mm_MappingCount a = mlen (ma_mappings a)"

definition static_Lookup :: "string list \<Rightarrow> string \<Rightarrow> GeoResolver \<Rightarrow> geo_error + GeoIPResult" where
  "static_Lookup ks ip g =
     (case geo_Resolve ks ip g of
        None \<Rightarrow> Inl (UnknownRegion ip)
      | Some region \<Rightarrow>
          (case map_of coords region of
             None \<Rightarrow> Inr \<lparr>ge_Region = region, ge_Country = [], ge_City = [], ge_Latitude = 0, ge_Longitude = 0\<rparr>
           | Some (lat, lon) \<Rightarrow> Inr \<lparr>ge_Region = region, ge_Country = [], ge_City = [], ge_Latitude = lat, ge_Longitude = lon\<rparr>))"

text \<open>The three selections for an address share the fallback to the coordinates 0, 0.\<close>

definition ip_place :: "geo_error + GeoIPResult \<Rightarrow> real \<times> real" where
  "ip_place res = (case res of Inl _ \<Rightarrow> (0, 0) | Inr g \<Rightarrow> (ge_Latitude g, ge_Longitude g))"

definition SelectNearestForIP :: "distance \<Rightarrow> string list \<Rightarrow> geo_error + GeoIPResult \<Rightarrow> AnyRouter \<Rightarrow> AnyNode option" where
  "SelectNearestForIP metric ks res r = (case ip_place res of (lat, lon) \<Rightarrow> SelectNearest metric ks lat lon r)"

definition SelectNearestWithFailoverForIP ::
    "distance \<Rightarrow> string list \<Rightarrow> geo_error + GeoIPResult \<Rightarrow> int \<Rightarrow> AnyRouter \<Rightarrow> AnyNode list option" where
  "SelectNearestWithFailoverForIP metric ks res cnt r = (case ip_place res of (lat, lon) \<Rightarrow> SelectNearestWithFailover metric ks lat lon cnt r)"

definition SelectByRegionForIP :: "distance \<Rightarrow> string list \<Rightarrow> geo_error + GeoIPResult \<Rightarrow> string \<Rightarrow> AnyRouter \<Rightarrow> AnyNode option" where
  "SelectByRegionForIP metric ks res region r = (case ip_place res of (lat, lon) \<Rightarrow> SelectByRegion metric ks lat lon region r)"

section \<open>The nearest\<close>

lemma weak_nearer: "weak_order (nearer metric lat lon)"
  by (rule weak_orderI) (auto simp: nearer_def Let_def split: if_splits)

lemma healthy_mem:
  assumes "range_order (ar_nodes r) ks"
  shows "n \<in> set (healthyNodes ks r) \<longleftrightarrow> no_Healthy n \<and> (\<exists>i. fmlookup (ar_nodes r) i = Some n)"
  using range_order_set [OF assms] by (auto simp: healthyNodes_def set_range_vals)

text \<open>
  The nearest healthy node is chosen. There is no answer exactly when no node is healthy; otherwise the
  answer is a healthy node of the router such that no healthy node is nearer to the client, and none as near
  has a lesser priority number, whatever the order of the range over the nodes.
\<close>

theorem nearest_node:
  assumes "range_order (ar_nodes r) ks"
  shows "case SelectNearest metric ks lat lon r of
      None \<Rightarrow> \<forall>i n. fmlookup (ar_nodes r) i = Some n \<longrightarrow> \<not> no_Healthy n
    | Some m \<Rightarrow> no_Healthy m \<and> (\<exists>i. fmlookup (ar_nodes r) i = Some m)
        \<and> (\<forall>i n. fmlookup (ar_nodes r) i = Some n \<longrightarrow> no_Healthy n \<longrightarrow>
            metric lat lon (no_Lat m) (no_Lon m) < metric lat lon (no_Lat n) (no_Lon n)
            \<or> metric lat lon (no_Lat m) (no_Lon m) = metric lat lon (no_Lat n) (no_Lon n) \<and> no_Priority m \<le> no_Priority n)"
proof (cases "healthyNodes ks r")
  case Nil
  have "\<not> no_Healthy n" if "fmlookup (ar_nodes r) i = Some n" for i n
    using healthy_mem [OF assms, of n] that Nil by auto
  then show ?thesis using Nil by (simp add: SelectNearest_def)
next
  case (Cons a as)
  obtain y ys where s: "sort_slice (nearer metric lat lon) (healthyNodes ks r) = y # ys"
    using Cons sort_slice_Nil [of "nearer metric lat lon" "healthyNodes ks r"] by (cases "sort_slice (nearer metric lat lon) (healthyNodes ks r)") auto
  have y: "y \<in> set (healthyNodes ks r)" "\<forall>x \<in> set (healthyNodes ks r). \<not> nearer metric lat lon x y"
    using go_sort.srt_hd_least [OF weak_nearer s] by simp_all
  have "SelectNearest metric ks lat lon r = Some y" using s Cons by (simp add: SelectNearest_def)
  moreover have "metric lat lon (no_Lat y) (no_Lon y) < metric lat lon (no_Lat n) (no_Lon n)
      \<or> metric lat lon (no_Lat y) (no_Lon y) = metric lat lon (no_Lat n) (no_Lon n) \<and> no_Priority y \<le> no_Priority n"
    if "fmlookup (ar_nodes r) i = Some n" "no_Healthy n" for i n
  proof -
    have "n \<in> set (healthyNodes ks r)" using healthy_mem [OF assms] that by blast
    then have "\<not> nearer metric lat lon n y" using y(2) by blast
    then show ?thesis by (auto simp: nearer_def Let_def split: if_splits)
  qed
  ultimately show ?thesis using y(1) healthy_mem [OF assms, of y] by auto
qed

text \<open>
  The nodes to fail over to are the nearest ones, in order. For a cnt that is not negative the answer has
  that many healthy nodes, or all of them when there are fewer; they are in order of distance, and no healthy
  node left out is nearer than one of them. A negative cnt panics as soon as there is a healthy node.
\<close>

theorem failover_nodes:
  assumes "range_order (ar_nodes r) ks"
  shows "case SelectNearestWithFailover metric ks lat lon cnt r of
      None \<Rightarrow> cnt < 0 \<and> HealthyCount ks r \<noteq> 0
    | Some ms \<Rightarrow> (HealthyCount ks r = 0 \<and> ms = []) \<or> (0 \<le> cnt \<and> length ms = min (nat cnt) (HealthyCount ks r)
        \<and> sorted_wrt (\<lambda>a b. \<not> nearer metric lat lon b a) ms
        \<and> (\<exists>rest. mset (ms @ rest) = mset (healthyNodes ks r) \<and> (\<forall>m \<in> set ms. \<forall>x \<in> set rest. \<not> nearer metric lat lon x m)))"
proof (cases "healthyNodes ks r = []")
  case True
  then show ?thesis by (simp add: SelectNearestWithFailover_def HealthyCount_def)
next
  case ne: False
  define cs where "cs = sort_slice (nearer metric lat lon) (healthyNodes ks r)"
  have len: "length cs = HealthyCount ks r" by (simp add: cs_def HealthyCount_def)
  have sorted: "sorted_wrt (\<lambda>a b. \<not> nearer metric lat lon b a) cs" unfolding cs_def by (rule sorted_sort_slice [OF weak_nearer])
  show ?thesis
  proof (cases "cnt < 0")
    case True
    then show ?thesis using ne by (simp add: SelectNearestWithFailover_def HealthyCount_def Let_def)
  next
    case False
    have e: "SelectNearestWithFailover metric ks lat lon cnt r = Some (take (nat cnt) cs)"
      using ne False len by (auto simp: SelectNearestWithFailover_def Let_def HealthyCount_def cs_def [symmetric] min_def)
    have "sorted_wrt (\<lambda>a b. \<not> nearer metric lat lon b a) (take (nat cnt) cs @ drop (nat cnt) cs)" using sorted by simp
    then have "sorted_wrt (\<lambda>a b. \<not> nearer metric lat lon b a) (take (nat cnt) cs)"
      "\<forall>m \<in> set (take (nat cnt) cs). \<forall>x \<in> set (drop (nat cnt) cs). \<not> nearer metric lat lon x m"
      unfolding sorted_wrt_append by blast+
    moreover have "mset (take (nat cnt) cs @ drop (nat cnt) cs) = mset (healthyNodes ks r)"
      unfolding append_take_drop_id by (simp add: cs_def)
    ultimately have "\<exists>rest. mset (take (nat cnt) cs @ rest) = mset (healthyNodes ks r)
        \<and> (\<forall>m \<in> set (take (nat cnt) cs). \<forall>x \<in> set rest. \<not> nearer metric lat lon x m)" by blast
    then show ?thesis
      using False len \<open>sorted_wrt _ (take (nat cnt) cs)\<close> unfolding e by (simp add: min.commute)
  qed
qed

text \<open>
  The region of an address may depend on the order of a map. Prefixes are compared as texts and the first
  match of a range decides: with the prefixes 10.1 and 10.12 the address 10.12.0.9 belongs to either region.
\<close>

theorem region_by_order:
  "geo_Resolve [''10.1'', ''10.12''] ''10.12.0.9'' (geo_AddMapping ''10.12'' ''eu-west'' (geo_AddMapping ''10.1'' ''us-east'' NewGeoResolver)) = Some ''us-east''
    \<and> geo_Resolve [''10.12'', ''10.1''] ''10.12.0.9'' (geo_AddMapping ''10.12'' ''eu-west'' (geo_AddMapping ''10.1'' ''us-east'' NewGeoResolver)) = Some ''eu-west''
    \<and> range_order (gr_mapping (geo_AddMapping ''10.12'' ''eu-west'' (geo_AddMapping ''10.1'' ''us-east'' NewGeoResolver))) [''10.1'', ''10.12'']
    \<and> range_order (gr_mapping (geo_AddMapping ''10.12'' ''eu-west'' (geo_AddMapping ''10.1'' ''us-east'' NewGeoResolver))) [''10.12'', ''10.1'']"
  by (auto simp: geo_Resolve_def geo_AddMapping_def NewGeoResolver_def has_prefix_def range_order_def)

section \<open>Two nodes\<close>

definition ex_any_node :: "string \<Rightarrow> real \<Rightarrow> bool \<Rightarrow> AnyNode" where
  "ex_any_node i lat h = \<lparr>no_ID = i, no_Addr = i, no_Region = [], no_Lat = lat, no_Lon = 0, no_Healthy = h, no_Latency = 0, no_Priority = 0\<rparr>"

definition ex_any_router :: AnyRouter where
  "ex_any_router = any_AddNode (ex_any_node ''b'' 5 True) (any_AddNode (ex_any_node ''a'' 1 True) (NewRouter DefaultAnycastConfig))"

lemma ex_any_order: "range_order (ar_nodes ex_any_router) [''a'', ''b'']"
  by (auto simp: range_order_def ex_any_router_def any_AddNode_def NewRouter_def ex_any_node_def)

theorem nearest_node_witness:
  "map_option no_ID (SelectNearest (\<lambda>a b c d. \<bar>a - c\<bar>) [''a'', ''b''] 4 0 ex_any_router) = Some ''b''"
proof -
  have n: "fmlookup (ar_nodes ex_any_router) ''b'' = Some (ex_any_node ''b'' 5 True)" "fmlookup (ar_nodes ex_any_router) ''a'' = Some (ex_any_node ''a'' 1 True)"
    "\<And>i n. fmlookup (ar_nodes ex_any_router) i = Some n \<Longrightarrow> n = ex_any_node ''a'' 1 True \<or> n = ex_any_node ''b'' 5 True"
    by (auto simp: ex_any_router_def any_AddNode_def NewRouter_def ex_any_node_def split: if_splits)
  note t = nearest_node [OF ex_any_order, where metric = "\<lambda>a b c d. \<bar>a - c\<bar>" and lat = 4 and lon = 0]
  show ?thesis
  proof (cases "SelectNearest (\<lambda>a b c d. \<bar>a - c\<bar>) [''a'', ''b''] 4 0 ex_any_router")
    case None
    then show ?thesis using t n(1) by (force simp: ex_any_node_def)
  next
    case (Some m)
    have "m \<noteq> ex_any_node ''a'' 1 True" using t n(1) Some by (force simp: ex_any_node_def)
    then have "m = ex_any_node ''b'' 5 True" using t n(3) Some by auto
    then show ?thesis using Some by (simp add: ex_any_node_def)
  qed
qed

theorem failover_nodes_witness:
  "\<exists>ms. SelectNearestWithFailover (\<lambda>a b c d. \<bar>a - c\<bar>) [''a'', ''b''] 4 0 1 ex_any_router = Some ms \<and> length ms = 1"
proof -
  have "HealthyCount [''a'', ''b''] ex_any_router = 2"
    by (simp add: HealthyCount_def healthyNodes_def ex_any_router_def any_AddNode_def NewRouter_def ex_any_node_def)
  then show ?thesis using failover_nodes [OF ex_any_order, where metric = "\<lambda>a b c d. \<bar>a - c\<bar>" and lat = 4 and lon = 0 and cnt = 1] by (auto split: option.splits)
qed

end
