(* ===== verification/Desktop_Settings.thy ===== *)
theory Desktop_Settings
  imports Go_Heap
begin

text \<open>
  What the desktop application does to its input before it acts (\<open>desktop/app.go\<close>): the server instances and
  their normal form, the checks of tunnels, ports and publications, the ports and the timeout of a local scan,
  and the summary of the checks of an instance. \<open>url.Parse\<close>, \<open>URL.String\<close>, \<open>net.ParseIP\<close> and the texts of
  messages are arguments.
\<close>

section \<open>Server instances\<close>

record ServerNodeSettings =
  sn_ID :: string
  sn_Name :: string
  sn_RelayAddr :: string
  sn_RelayToken :: string
  sn_ControlPlaneURL :: string
  sn_ControlPlaneToken :: string
  sn_STUNServer :: string
  sn_STUNAltServer :: string

record ServerSettings =
  ss_RelayAddr :: string
  ss_RelayToken :: string
  ss_ControlPlaneURL :: string
  ss_ControlPlaneToken :: string
  ss_STUNServer :: string
  ss_STUNAltServer :: string
  ss_ActiveNodeID :: string
  ss_Nodes :: "ServerNodeSettings list"

record ParsedURL =
  pu_Scheme :: string
  pu_Host :: string
  pu_Path :: string
  pu_RawQuery :: string
  pu_Fragment :: string
  pu_User :: string

record url_lib =
  ul_Parse :: "string \<Rightarrow> ParsedURL option"
  ul_String :: "ParsedURL \<Rightarrow> string"

datatype settings_error =
    URLRequired
  | URLInvalid string
  | URLScheme string
  | URLHostRequired
  | DuplicateNode string
  | StoreNotReady

definition firstNonEmpty :: "string \<Rightarrow> string \<Rightarrow> string" where
  "firstNonEmpty value fallback = (let trimmed = trim_space value in if trimmed = [] then trim_space fallback else trimmed)"

fun has_substring :: "string \<Rightarrow> string \<Rightarrow> bool" where
  "has_substring [] p \<longleftrightarrow> p = []"
| "has_substring (c # cs) p \<longleftrightarrow> has_prefix (c # cs) p \<or> has_substring cs p"

definition trim_slashes :: "string \<Rightarrow> string" where
  "trim_slashes = trim_right_if (\<lambda>c. c = CHR ''/'')"

definition normalizeHTTPBaseURL :: "url_lib \<Rightarrow> string \<Rightarrow> settings_error + string" where
  "normalizeHTTPBaseURL lib rawBaseURL =
     (let trimmed = trim_space rawBaseURL in
      if trimmed = [] then Inl URLRequired
      else
        let trimmed = (if \<not> has_substring trimmed ''://'' then ''http://'' @ trimmed else trimmed) in
        case ul_Parse lib trimmed of
          None \<Rightarrow> Inl (URLInvalid rawBaseURL)
        | Some parsed \<Rightarrow>
            if pu_Scheme parsed \<noteq> ''http'' \<and> pu_Scheme parsed \<noteq> ''https'' then Inl (URLScheme (pu_Scheme parsed))
            else if trim_space (pu_Host parsed) = [] then Inl URLHostRequired
            else Inr (trim_slashes (ul_String lib
              (parsed\<lparr>pu_Path := trim_slashes (pu_Path parsed), pu_RawQuery := [], pu_Fragment := []\<rparr>))))"

text \<open>The default name is the UTF-8 of the source's literal.\<close>

definition default_node_name :: string where
  "default_node_name = [CHR 0xE9, CHR 0xBB, CHR 0x98, CHR 0xE8, CHR 0xAE, CHR 0xA4, CHR 0xE8, CHR 0x8A, CHR 0x82, CHR 0xE7, CHR 0x82, CHR 0xB9]"

abbreviation defaultServerNodeID :: string where "defaultServerNodeID \<equiv> ''default''"
abbreviation defaultRelayAddr :: string where "defaultRelayAddr \<equiv> ''127.0.0.1:7000''"
abbreviation defaultSTUNServer :: string where "defaultSTUNServer \<equiv> ''stun.l.google.com:19302''"

definition defaultServerNode :: ServerNodeSettings where
  "defaultServerNode = \<lparr>sn_ID = defaultServerNodeID, sn_Name = default_node_name, sn_RelayAddr = defaultRelayAddr, sn_RelayToken = [],
     sn_ControlPlaneURL = [], sn_ControlPlaneToken = [], sn_STUNServer = defaultSTUNServer, sn_STUNAltServer = defaultSTUNServer\<rparr>"

definition normalizeServerNode :: "url_lib \<Rightarrow> ServerNodeSettings \<Rightarrow> settings_error + ServerNodeSettings" where
  "normalizeServerNode lib n =
     (let url = trim_space (sn_ControlPlaneURL n) in
      case (if url = [] then Inr [] else normalizeHTTPBaseURL lib url) of
        Inl e \<Rightarrow> Inl e
      | Inr u \<Rightarrow> Inr (n\<lparr>sn_ID := firstNonEmpty (sn_ID n) defaultServerNodeID,
            sn_Name := firstNonEmpty (sn_Name n) default_node_name,
            sn_RelayAddr := firstNonEmpty (sn_RelayAddr n) defaultRelayAddr,
            sn_ControlPlaneURL := u,
            sn_STUNServer := firstNonEmpty (sn_STUNServer n) defaultSTUNServer,
            sn_STUNAltServer := firstNonEmpty (sn_STUNAltServer n) (firstNonEmpty (sn_STUNServer n) defaultSTUNServer)\<rparr>))"

definition node_of_settings :: "string \<Rightarrow> ServerSettings \<Rightarrow> ServerNodeSettings" where
  "node_of_settings i s = \<lparr>sn_ID = i, sn_Name = default_node_name, sn_RelayAddr = ss_RelayAddr s, sn_RelayToken = ss_RelayToken s,
     sn_ControlPlaneURL = ss_ControlPlaneURL s, sn_ControlPlaneToken = ss_ControlPlaneToken s,
     sn_STUNServer = ss_STUNServer s, sn_STUNAltServer = ss_STUNAltServer s\<rparr>"

definition named_node :: "nat \<Rightarrow> ServerNodeSettings \<Rightarrow> ServerNodeSettings" where
  "named_node i n =
     (let n = (if trim_space (sn_ID n) = [] then n\<lparr>sn_ID := ''node-'' @ nat_str (i + 1)\<rparr> else n) in
      n\<lparr>sn_ID := trim_space (sn_ID n)\<rparr>)"

text \<open>The loop, with the index of the next node and the identifiers seen.\<close>

fun normalize_nodes :: "url_lib \<Rightarrow> nat \<Rightarrow> string list \<Rightarrow> ServerNodeSettings list \<Rightarrow> settings_error + ServerNodeSettings list" where
  "normalize_nodes lib i seen [] = Inr []"
| "normalize_nodes lib i seen (n # ns) =
     (let n = named_node i n in
      if sn_ID n \<in> set seen then Inl (DuplicateNode (sn_ID n))
      else (case normalizeServerNode lib n of
              Inl e \<Rightarrow> Inl e
            | Inr m \<Rightarrow> (case normalize_nodes lib (i + 1) (sn_ID n # seen) ns of
                Inl e \<Rightarrow> Inl e
              | Inr ms \<Rightarrow> Inr (m # ms))))"

definition normalizeServerNodes :: "url_lib \<Rightarrow> ServerNodeSettings list \<Rightarrow> ServerSettings \<Rightarrow> settings_error + ServerNodeSettings list" where
  "normalizeServerNodes lib nodes fallback =
     (let nodes = (if nodes = [] then [node_of_settings (firstNonEmpty (ss_ActiveNodeID fallback) defaultServerNodeID) fallback] else nodes) in
      case normalize_nodes lib 0 [] nodes of
        Inl e \<Rightarrow> Inl e
      | Inr ms \<Rightarrow> Inr (if ms = [] then [defaultServerNode] else ms))"

definition selectActiveServerNode :: "ServerNodeSettings list \<Rightarrow> string \<Rightarrow> ServerNodeSettings" where
  "selectActiveServerNode nodes activeNodeID =
     (case find (\<lambda>n. sn_ID n = activeNodeID) nodes of
        Some n \<Rightarrow> n
      | None \<Rightarrow> (case nodes of n # _ \<Rightarrow> n | [] \<Rightarrow> defaultServerNode))"

definition settings_of_node :: "ServerNodeSettings \<Rightarrow> ServerNodeSettings list \<Rightarrow> ServerSettings" where
  "settings_of_node n nodes = \<lparr>ss_RelayAddr = sn_RelayAddr n, ss_RelayToken = sn_RelayToken n, ss_ControlPlaneURL = sn_ControlPlaneURL n,
     ss_ControlPlaneToken = sn_ControlPlaneToken n, ss_STUNServer = sn_STUNServer n, ss_STUNAltServer = sn_STUNAltServer n,
     ss_ActiveNodeID = sn_ID n, ss_Nodes = nodes\<rparr>"

text \<open>The loop that puts the active node in the place of the first one with its identifier.\<close>

fun replace_node :: "ServerNodeSettings \<Rightarrow> ServerNodeSettings list \<Rightarrow> ServerNodeSettings list" where
  "replace_node a [] = []"
| "replace_node a (n # ns) = (if sn_ID n = sn_ID a then a # ns else n # replace_node a ns)"

definition normalizeServerSettings :: "url_lib \<Rightarrow> ServerSettings \<Rightarrow> settings_error + ServerSettings" where
  "normalizeServerSettings lib s =
     (case normalizeServerNodes lib (ss_Nodes s) s of
        Inl e \<Rightarrow> Inl e
      | Inr nodes \<Rightarrow>
          let active = (selectActiveServerNode nodes (ss_ActiveNodeID s))
            \<lparr>sn_RelayAddr := ss_RelayAddr s, sn_RelayToken := ss_RelayToken s, sn_ControlPlaneURL := trim_space (ss_ControlPlaneURL s),
             sn_ControlPlaneToken := ss_ControlPlaneToken s, sn_STUNServer := ss_STUNServer s, sn_STUNAltServer := ss_STUNAltServer s\<rparr> in
          (case normalizeServerNode lib active of
             Inl e \<Rightarrow> Inl e
           | Inr active \<Rightarrow> Inr (settings_of_node active (replace_node active nodes))))"

section \<open>Checks of an instance\<close>

record ServerNodeCheckItem =
  sc_Name :: string
  sc_Status :: string
  sc_Message :: string
  sc_Action :: string
  sc_LatencyMS :: int

definition serverNodeCheckItem :: "string \<Rightarrow> string \<Rightarrow> string \<Rightarrow> string \<Rightarrow> int \<Rightarrow> ServerNodeCheckItem" where
  "serverNodeCheckItem name status message action latencyMS =
     \<lparr>sc_Name = name, sc_Status = status, sc_Message = message, sc_Action = action, sc_LatencyMS = latencyMS\<rparr>"

definition normalizeServerNodeCheckInput :: "ServerNodeSettings \<Rightarrow> ServerNodeSettings" where
  "normalizeServerNodeCheckInput n =
     \<lparr>sn_ID = firstNonEmpty (sn_ID n) defaultServerNodeID, sn_Name = firstNonEmpty (sn_Name n) default_node_name,
      sn_RelayAddr = trim_space (sn_RelayAddr n), sn_RelayToken = trim_space (sn_RelayToken n),
      sn_ControlPlaneURL = trim_space (sn_ControlPlaneURL n), sn_ControlPlaneToken = trim_space (sn_ControlPlaneToken n),
      sn_STUNServer = trim_space (sn_STUNServer n), sn_STUNAltServer = trim_space (sn_STUNAltServer n)\<rparr>"

text \<open>
  What the network answers: for the relay whether the dial succeeds, for the control plane the status of the
  health request, for STUN the mapped address; an error is a text. \<open>tx\<close> gives the messages.
\<close>

definition checkRelayEndpoint :: "(string \<Rightarrow> string) \<Rightarrow> (string \<Rightarrow> string option \<times> int) \<Rightarrow> ServerNodeSettings \<Rightarrow> ServerNodeCheckItem" where
  "checkRelayEndpoint tx dial n =
     (if trim_space (sn_RelayAddr n) = [] then serverNodeCheckItem ''relay'' ''warning'' (tx ''relay missing'') (tx ''set relay'') 0
      else (case dial (sn_RelayAddr n) of
         (Some e, ms) \<Rightarrow> serverNodeCheckItem ''relay'' ''error'' (tx ''relay unreachable'' @ e) (tx ''check relay'') ms
       | (None, ms) \<Rightarrow>
           if trim_space (sn_RelayToken n) = [] then serverNodeCheckItem ''relay'' ''warning'' (tx ''no relay token'') (tx ''set token'') ms
           else serverNodeCheckItem ''relay'' ''success'' (tx ''relay ok'') [] ms))"

definition checkControlPlaneEndpoint ::
    "url_lib \<Rightarrow> (string \<Rightarrow> string) \<Rightarrow> (settings_error \<Rightarrow> string) \<Rightarrow> (string \<Rightarrow> string option \<Rightarrow> (string + int) \<times> int) \<Rightarrow> ServerNodeSettings \<Rightarrow> ServerNodeCheckItem" where
  "checkControlPlaneEndpoint lib tx err get n =
     (if trim_space (sn_ControlPlaneURL n) = [] then serverNodeCheckItem ''control_plane'' ''warning'' (tx ''control plane missing'') (tx ''set control plane'') 0
      else (case normalizeHTTPBaseURL lib (sn_ControlPlaneURL n) of
         Inl e \<Rightarrow> serverNodeCheckItem ''control_plane'' ''error'' (err e) (tx ''fix url'') 0
       | Inr baseURL \<Rightarrow>
           (case get (trim_slashes baseURL @ ''/healthz'')
               (if trim_space (sn_ControlPlaneToken n) \<noteq> [] then Some (''Bearer '' @ sn_ControlPlaneToken n) else None) of
              (Inl e, ms) \<Rightarrow> serverNodeCheckItem ''control_plane'' ''error'' (tx ''control plane unreachable'' @ e) (tx ''check control plane'') ms
            | (Inr status, ms) \<Rightarrow>
                if status < 200 \<or> status \<ge> 300
                then serverNodeCheckItem ''control_plane'' ''error'' (tx ''health status'' @ int_str status) (tx ''check service'') ms
                else serverNodeCheckItem ''control_plane'' ''success'' (tx ''control plane ok'') [] ms)))"

definition checkSTUNEndpoint :: "(string \<Rightarrow> string) \<Rightarrow> string option \<Rightarrow> (string \<Rightarrow> (string + string) \<times> int) \<Rightarrow> ServerNodeSettings \<Rightarrow> ServerNodeCheckItem" where
  "checkSTUNEndpoint tx listen binding n =
     (if trim_space (sn_STUNServer n) = [] then serverNodeCheckItem ''stun'' ''warning'' (tx ''stun missing'') (tx ''set stun'') 0
      else (case listen of
         Some e \<Rightarrow> serverNodeCheckItem ''stun'' ''error'' (tx ''socket'' @ e) (tx ''check permissions'') 0
       | None \<Rightarrow>
           (case binding (sn_STUNServer n) of
              (Inl e, ms) \<Rightarrow> serverNodeCheckItem ''stun'' ''error'' (tx ''stun failed'' @ e) (tx ''check stun'') ms
            | (Inr mapped, ms) \<Rightarrow> serverNodeCheckItem ''stun'' ''success'' (tx ''stun ok'' @ mapped) [] ms)))"

fun summarize_status :: "bool \<Rightarrow> string list \<Rightarrow> string" where
  "summarize_status warn [] = (if warn then ''warning'' else ''success'')"
| "summarize_status warn (s # ss) =
     (if s = ''error'' then ''error'' else summarize_status (warn \<or> s = ''warning'') ss)"

definition summarizeServerNodeCheckStatus :: "string list \<Rightarrow> string" where
  "summarizeServerNodeCheckStatus = summarize_status False"

fun collect_actions :: "string list \<Rightarrow> ServerNodeCheckItem list \<Rightarrow> string list" where
  "collect_actions seen [] = []"
| "collect_actions seen (i # is) =
     (let action = trim_space (sc_Action i) in
      if action = [] \<or> action \<in> set seen then collect_actions seen is
      else action # collect_actions (action # seen) is)"

definition collectServerNodeCheckActions :: "ServerNodeCheckItem list \<Rightarrow> string list" where
  "collectServerNodeCheckActions = collect_actions []"

section \<open>Inputs\<close>

record CreateTunnelInput =
  ct_Name :: string
  ct_ProxyType :: string
  ct_LocalAddr :: string
  ct_LocalPort :: int
  ct_RemotePort :: int
  ct_Domain :: string
  ct_HostHeader :: string
  ct_PublicURL :: string
  ct_AccessPolicyID :: string
  ct_InspectEnabled :: bool
  ct_ExpiresAt :: string

datatype input_error =
    NameRequired
  | ProxyTypeUnsupported string
  | LocalAddrRequired
  | LocalPortRange
  | RemotePortRange
  | DomainHasSeparator
  | TunnelIDRequired
  | DomainRequired
  | AuthModeUnsupported string
  | PortNameRequired
  | PortRange
  | PortProtocolUnsupported string
  | PortIDRequired
  | ScanHostUnsupported
  | ScanPortRange
  | ScanPortCount

definition validateCreateTunnelInput :: "(string \<Rightarrow> bool) \<Rightarrow> CreateTunnelInput \<Rightarrow> input_error option" where
  "validateCreateTunnelInput parses_ip i =
     (if trim_space (ct_Name i) = [] then Some NameRequired
      else if ct_ProxyType i \<noteq> [] \<and> ct_ProxyType i \<noteq> ''tcp'' \<and> ct_ProxyType i \<noteq> ''http'' then Some (ProxyTypeUnsupported (ct_ProxyType i))
      else if \<not> parses_ip (ct_LocalAddr i) \<and> trim_space (ct_LocalAddr i) = [] then Some LocalAddrRequired
      else if ct_LocalPort i \<le> 0 \<or> ct_LocalPort i > 65535 then Some LocalPortRange
      else if ct_RemotePort i < 0 \<or> ct_RemotePort i > 65535 then Some RemotePortRange
      else if to_lower (trim_space (ct_ProxyType i)) = ''http'' \<and> trim_space (ct_Domain i) \<noteq> [] \<and>
              list_ex (\<lambda>c. c = CHR ''/'' \<or> c = CHR 0x5C) (ct_Domain i) then Some DomainHasSeparator
      else None)"

definition normalizePublishEndpointAuthMode :: "string \<Rightarrow> input_error + string" where
  "normalizePublishEndpointAuthMode v =
     (let m = to_lower (trim_space v) in
      if m = [] \<or> m = ''none'' then Inr ''none''
      else if m = ''basic'' \<or> m = ''basic_auth'' then Inr ''basic_auth''
      else if m = ''bearer'' \<or> m = ''bearer_token'' then Inr ''bearer_token''
      else Inl (AuthModeUnsupported v))"

definition normalizeLocalScanHost :: "string \<Rightarrow> input_error + string" where
  "normalizeLocalScanHost host =
     (let h = trim_space (to_lower host) in
      if h = [] then Inr ''127.0.0.1''
      else if h = ''localhost'' \<or> h = ''127.0.0.1'' \<or> h = ''::1'' then Inr h
      else Inl ScanHostUnsupported)"

abbreviation maxLocalPortScanSize :: nat where "maxLocalPortScanSize \<equiv> 128"

text \<open>The closure \<open>appendPort\<close> over the ports collected, which are also the ones seen.\<close>

fun append_ports :: "int list \<Rightarrow> int list \<Rightarrow> input_error + int list" where
  "append_ports ports [] = Inr ports"
| "append_ports ports (p # ps) =
     (if p \<le> 0 \<or> p > 65535 then Inl ScanPortRange
      else if p \<in> set ports then append_ports ports ps
      else if length ports \<ge> maxLocalPortScanSize then Inl ScanPortCount
      else append_ports (ports @ [p]) ps)"

definition normalizeScanPorts :: "int list \<Rightarrow> int list \<Rightarrow> input_error + int list" where
  "normalizeScanPorts inputPorts favoritePorts =
     (case append_ports [] (if inputPorts = [] then favoritePorts else inputPorts) of
        Inl e \<Rightarrow> Inl e
      | Inr ports \<Rightarrow> Inr (sort ports))"

abbreviation millisecond :: duration where "millisecond \<equiv> 1000000"

text \<open>The product of the given number and a millisecond wraps at 64 bits.\<close>

definition wrap64 :: "int \<Rightarrow> int" where
  "wrap64 z = sint (word_of_int z :: 64 word)"

definition normalizeScanTimeout :: "int \<Rightarrow> duration" where
  "normalizeScanTimeout timeoutMS =
     (if timeoutMS \<le> 0 then 260 * millisecond
      else
        let timeout = wrap64 (timeoutMS * millisecond) in
        if timeout < 50 * millisecond then 50 * millisecond
        else if timeout > 1500 * millisecond then 1500 * millisecond
        else timeout)"

section \<open>The normal form\<close>

lemma trim_space_first: "\<not> is_space c \<Longrightarrow> c \<in> set (trim_space (c # cs))"
proof -
  assume c: "\<not> is_space c"
  have "dropWhile is_space (rev cs @ [c]) = dropWhile is_space (rev cs) @ [c] \<or> dropWhile is_space (rev cs @ [c]) = [c]"
    using c by (cases "\<forall>x \<in> set (rev cs). is_space x") (auto simp: dropWhile_append)
  then have "c \<in> set (dropWhile is_space (rev cs @ [c]))" by auto
  then show ?thesis using c by (simp add: trim_space_def trim_if_def trim_right_if_def)
qed

lemma firstNonEmpty_normal [simp]:
  assumes "trim_space d \<noteq> []"
  shows "trim_space (firstNonEmpty v d) = firstNonEmpty v d" "firstNonEmpty v d \<noteq> []"
  using assms by (simp_all add: firstNonEmpty_def Let_def)

lemma firstNonEmpty_fix: "trim_space v = v \<Longrightarrow> v \<noteq> [] \<Longrightarrow> firstNonEmpty v d = v"
  by (simp add: firstNonEmpty_def)

lemma trim_literals [simp]:
  "trim_space [] = []"
  "trim_space defaultServerNodeID = defaultServerNodeID" "trim_space defaultRelayAddr = defaultRelayAddr"
  "trim_space defaultSTUNServer = defaultSTUNServer" "trim_space default_node_name = default_node_name" "default_node_name \<noteq> []"
  by (simp_all add: trim_space_def trim_if_def trim_right_if_def is_space_def default_node_name_def)

text \<open>A node in normal form; the address of its control plane is one that normalizing keeps.\<close>

definition normal_node :: "url_lib \<Rightarrow> ServerNodeSettings \<Rightarrow> bool" where
  "normal_node lib n \<longleftrightarrow>
     (\<forall>f \<in> {sn_ID, sn_Name, sn_RelayAddr, sn_STUNServer, sn_STUNAltServer}. trim_space (f n) = f n \<and> f n \<noteq> []) \<and>
     (sn_ControlPlaneURL n = [] \<or> trim_space (sn_ControlPlaneURL n) = sn_ControlPlaneURL n
        \<and> normalizeHTTPBaseURL lib (sn_ControlPlaneURL n) = Inr (sn_ControlPlaneURL n))"

text \<open>What the code relies on: normalizing an address that was normalized changes nothing.\<close>

definition url_stable :: "url_lib \<Rightarrow> bool" where
  "url_stable lib \<longleftrightarrow> (\<forall>u v. normalizeHTTPBaseURL lib u = Inr v \<longrightarrow>
     v \<noteq> [] \<and> trim_space v = v \<and> normalizeHTTPBaseURL lib v = Inr v)"

lemma normalize_node_normal:
  assumes "url_stable lib" and "normalizeServerNode lib n = Inr m"
  shows "normal_node lib m \<and> sn_ID m = firstNonEmpty (sn_ID n) defaultServerNodeID"
proof -
  let ?u = "trim_space (sn_ControlPlaneURL n)"
  obtain u where u: "(if ?u = [] then Inr [] else normalizeHTTPBaseURL lib ?u) = Inr u"
    using assms(2) by (auto simp: normalizeServerNode_def Let_def split: sum.splits)
  have url: "u = [] \<or> trim_space u = u \<and> normalizeHTTPBaseURL lib u = Inr u"
    using u assms(1) by (auto simp: url_stable_def split: if_splits)
  have m: "m = n\<lparr>sn_ID := firstNonEmpty (sn_ID n) defaultServerNodeID, sn_Name := firstNonEmpty (sn_Name n) default_node_name,
      sn_RelayAddr := firstNonEmpty (sn_RelayAddr n) defaultRelayAddr, sn_ControlPlaneURL := u,
      sn_STUNServer := firstNonEmpty (sn_STUNServer n) defaultSTUNServer,
      sn_STUNAltServer := firstNonEmpty (sn_STUNAltServer n) (firstNonEmpty (sn_STUNServer n) defaultSTUNServer)\<rparr>"
    using assms(2) u by (auto simp: normalizeServerNode_def Let_def)
  show ?thesis using url by (simp add: normal_node_def m)
qed

lemma normal_node_fixed: "normal_node lib n \<Longrightarrow> normalizeServerNode lib n = Inr n"
  by (auto simp: normal_node_def normalizeServerNode_def Let_def firstNonEmpty_fix)

lemma named_node_id: "trim_space (sn_ID (named_node i n)) = sn_ID (named_node i n) \<and> sn_ID (named_node i n) \<noteq> []"
proof (cases "trim_space (sn_ID n) = []")
  case True
  have "CHR ''n'' \<in> set (trim_space (''node-'' @ nat_str (i + 1)))"
    using trim_space_first [of "CHR ''n''" "''ode-'' @ nat_str (i + 1)"] by (simp add: is_space_def)
  then show ?thesis using True by (auto simp: named_node_def Let_def)
qed (simp add: named_node_def Let_def)

lemma normalize_nodes_normal:
  assumes "url_stable lib"
  shows "normalize_nodes lib i seen ns = Inr ms \<Longrightarrow>
    (\<forall>m \<in> set ms. normal_node lib m \<and> sn_ID m \<notin> set seen) \<and> distinct (map sn_ID ms) \<and> length ms = length ns"
proof (induction ns arbitrary: i seen ms)
  case (Cons n ns)
  define n2 where "n2 = named_node i n"
  have new: "sn_ID n2 \<notin> set seen" using Cons.prems by (auto simp: n2_def Let_def split: if_splits)
  obtain m where m: "normalizeServerNode lib n2 = Inr m"
    using Cons.prems new by (cases "normalizeServerNode lib n2") (simp_all add: n2_def Let_def)
  obtain ks where ks: "normalize_nodes lib (i + 1) (sn_ID n2 # seen) ns = Inr ks" "ms = m # ks"
    using Cons.prems new m
    by (cases "normalize_nodes lib (i + 1) (sn_ID n2 # seen) ns") (simp_all add: n2_def Let_def)
  have t: "trim_space (sn_ID n2) = sn_ID n2" "sn_ID n2 \<noteq> []" using named_node_id [of i n] by (simp_all add: n2_def)
  then have "sn_ID m = sn_ID n2" using normalize_node_normal [OF assms m] using t by (simp add: firstNonEmpty_fix)
  then show ?case using Cons.IH [OF ks(1)] normalize_node_normal [OF assms m] new ks(2) by auto
qed simp

lemma normalize_nodes_fixed:
  "\<forall>n \<in> set ns. normal_node lib n \<and> sn_ID n \<notin> set seen \<Longrightarrow> distinct (map sn_ID ns) \<Longrightarrow> normalize_nodes lib i seen ns = Inr ns"
proof (induction ns arbitrary: i seen)
  case (Cons n ns)
  have n: "trim_space (sn_ID n) = sn_ID n" "sn_ID n \<noteq> []" "normalizeServerNode lib n = Inr n" "sn_ID n \<notin> set seen"
    using Cons.prems(1) normal_node_fixed by (auto simp: normal_node_def)
  have "\<forall>m \<in> set ns. normal_node lib m \<and> sn_ID m \<notin> set (sn_ID n # seen)" using Cons.prems by (simp add: image_iff) metis
  then have "normalize_nodes lib (i + 1) (sn_ID n # seen) ns = Inr ns" using Cons.prems(2) by (intro Cons.IH) simp_all
  moreover have "named_node i n = n" using n(1,2) by (simp add: named_node_def)
  ultimately show ?case using n by (simp add: Let_def)
qed simp

lemma replace_node_props:
  "map sn_ID (replace_node a ns) = map sn_ID ns" "set (replace_node a ns) \<subseteq> insert a (set ns)"
  "sn_ID a \<in> set (map sn_ID ns) \<Longrightarrow> a \<in> set (replace_node a ns)"
  by (induction ns) auto

lemma replace_node_fixed: "distinct (map sn_ID ns) \<Longrightarrow> a \<in> set ns \<Longrightarrow> replace_node a ns = ns"
  by (induction ns) (auto simp: image_iff)

text \<open>Settings in normal form: what \<open>normalizeServerSettings\<close> returns.\<close>

definition normal_settings :: "url_lib \<Rightarrow> ServerSettings \<Rightarrow> bool" where
  "normal_settings lib s \<longleftrightarrow> (\<forall>n \<in> set (ss_Nodes s). normal_node lib n) \<and> distinct (map sn_ID (ss_Nodes s))
     \<and> (\<exists>a \<in> set (ss_Nodes s). s = settings_of_node a (ss_Nodes s))"

lemma find_distinct: "distinct (map sn_ID ns) \<Longrightarrow> a \<in> set ns \<Longrightarrow> find (\<lambda>n. sn_ID n = sn_ID a) ns = Some a"
  by (induction ns) (auto simp: image_iff)

lemma select_mem: "ns \<noteq> [] \<Longrightarrow> selectActiveServerNode ns i \<in> set ns"
proof (cases "find (\<lambda>n. sn_ID n = i) ns")
  case (Some n)
  then have "n \<in> set ns" by (auto simp: find_Some_iff)
  then show ?thesis using Some by (simp add: selectActiveServerNode_def)
qed (simp add: selectActiveServerNode_def split: list.split)

lemma normalizeServerNodes_normal:
  assumes "url_stable lib" and "normalizeServerNodes lib nodes f = Inr ms"
  shows "(\<forall>m \<in> set ms. normal_node lib m) \<and> distinct (map sn_ID ms) \<and> ms \<noteq> []"
proof -
  define ns where "ns = (if nodes = [] then [node_of_settings (firstNonEmpty (ss_ActiveNodeID f) defaultServerNodeID) f] else nodes)"
  obtain ks where ks: "normalize_nodes lib 0 [] ns = Inr ks" "ms = (if ks = [] then [defaultServerNode] else ks)"
    using assms(2) by (cases "normalize_nodes lib 0 [] ns") (simp_all add: normalizeServerNodes_def Let_def ns_def [symmetric])
  have "length ks = length ns" "ns \<noteq> []" using normalize_nodes_normal [OF assms(1) ks(1)] by (simp_all add: ns_def)
  then have "ms = ks" "ks \<noteq> []" using ks(2) by auto
  then show ?thesis using normalize_nodes_normal [OF assms(1) ks(1)] by simp
qed

lemma normalized_settings:
  assumes u: "url_stable lib" and n: "normalizeServerSettings lib s = Inr t"
  shows "normal_settings lib t"
proof -
  obtain ms where ms: "normalizeServerNodes lib (ss_Nodes s) s = Inr ms"
    using n by (auto simp: normalizeServerSettings_def split: sum.splits)
  define a where "a = (selectActiveServerNode ms (ss_ActiveNodeID s))
    \<lparr>sn_RelayAddr := ss_RelayAddr s, sn_RelayToken := ss_RelayToken s, sn_ControlPlaneURL := trim_space (ss_ControlPlaneURL s),
     sn_ControlPlaneToken := ss_ControlPlaneToken s, sn_STUNServer := ss_STUNServer s, sn_STUNAltServer := ss_STUNAltServer s\<rparr>"
  obtain b where b: "normalizeServerNode lib a = Inr b" "t = settings_of_node b (replace_node b ms)"
    using n ms by (auto simp: normalizeServerSettings_def Let_def a_def split: sum.splits)
  note nm = normalizeServerNodes_normal [OF u ms]
  have sel: "selectActiveServerNode ms (ss_ActiveNodeID s) \<in> set ms" using nm by (intro select_mem) simp
  then have "normal_node lib (selectActiveServerNode ms (ss_ActiveNodeID s))" using nm by blast
  then have "sn_ID b = sn_ID (selectActiveServerNode ms (ss_ActiveNodeID s))"
    using normalize_node_normal [OF u b(1)] by (simp add: a_def normal_node_def firstNonEmpty_fix)
  then have mem: "b \<in> set (replace_node b ms)" using replace_node_props(3) [of b ms] sel by simp
  have "normal_node lib m" if "m \<in> set (replace_node b ms)" for m
    using that replace_node_props(2) [of b ms] nm normalize_node_normal [OF u b(1)] by auto
  then show ?thesis using mem nm unfolding normal_settings_def b(2)
    by (auto simp: settings_of_node_def replace_node_props(1))
qed

lemma normal_settings_fixed:
  assumes "normal_settings lib s"
  shows "normalizeServerSettings lib s = Inr s"
proof -
  obtain a where a: "a \<in> set (ss_Nodes s)" "s = settings_of_node a (ss_Nodes s)" using assms by (auto simp: normal_settings_def)
  have nodes: "\<forall>n \<in> set (ss_Nodes s). normal_node lib n" "distinct (map sn_ID (ss_Nodes s))" "ss_Nodes s \<noteq> []"
    using assms a by (auto simp: normal_settings_def)
  have e: "normalizeServerNodes lib (ss_Nodes s) f = Inr (ss_Nodes s)" for f
    using normalize_nodes_fixed [of "ss_Nodes s" lib "[]" 0] nodes by (simp add: normalizeServerNodes_def)
  have f: "ss_ActiveNodeID s = sn_ID a" "ss_RelayAddr s = sn_RelayAddr a" "ss_RelayToken s = sn_RelayToken a"
    "ss_ControlPlaneURL s = sn_ControlPlaneURL a" "ss_ControlPlaneToken s = sn_ControlPlaneToken a"
    "ss_STUNServer s = sn_STUNServer a" "ss_STUNAltServer s = sn_STUNAltServer a"
    by (subst a(2), simp add: settings_of_node_def)+
  have sel: "selectActiveServerNode (ss_Nodes s) (sn_ID a) = a"
    using find_distinct [OF nodes(2) a(1)] by (simp add: selectActiveServerNode_def)
  have upd: "a\<lparr>sn_RelayAddr := sn_RelayAddr a, sn_RelayToken := sn_RelayToken a, sn_ControlPlaneURL := sn_ControlPlaneURL a,
      sn_ControlPlaneToken := sn_ControlPlaneToken a, sn_STUNServer := sn_STUNServer a, sn_STUNAltServer := sn_STUNAltServer a\<rparr> = a"
    by (cases a) simp
  have na: "normal_node lib a" using nodes a by blast
  then have "trim_space (sn_ControlPlaneURL a) = sn_ControlPlaneURL a" by (auto simp: normal_node_def)
  then show ?thesis
    using e normal_node_fixed [OF na] replace_node_fixed [OF nodes(2) a(1)] a(2)
    by (simp add: normalizeServerSettings_def f sel upd)
qed

section \<open>Scans\<close>

lemma append_ports_ok:
  assumes "distinct ports" "length ports \<le> maxLocalPortScanSize"
  shows "(\<exists>qs. append_ports ports ps = Inr qs) \<longleftrightarrow> (\<forall>p \<in> set ps. 1 \<le> p \<and> p \<le> 65535) \<and> card (set ports \<union> set ps) \<le> maxLocalPortScanSize"
  using assms
proof (induction ps arbitrary: ports)
  case Nil
  then show ?case by (simp add: distinct_card)
next
  case (Cons p ps)
  show ?case
  proof (cases "p \<le> 0 \<or> p > 65535")
    case True
    then show ?thesis by auto
  next
    case r: False
    show ?thesis
    proof (cases "p \<in> set ports")
      case True
      then have "set ports \<union> set (p # ps) = set ports \<union> set ps" by auto
      then show ?thesis using True r Cons by auto
    next
      case new: False
      show ?thesis
      proof (cases "length ports \<ge> maxLocalPortScanSize")
        case True
        have "card (set ports) < card (set ports \<union> set (p # ps))" using new by (intro psubset_card_mono) auto
        then show ?thesis using True new r Cons.prems by (simp add: distinct_card)
      next
        case False
        have "set (ports @ [p]) \<union> set ps = set ports \<union> set (p # ps)" by auto
        then show ?thesis using False new r Cons.IH [of "ports @ [p]"] Cons.prems by simp
      qed
    qed
  qed
qed

lemma append_ports_set:
  assumes "append_ports ports ps = Inr qs" and "distinct ports"
  shows "set qs = set ports \<union> set ps \<and> distinct qs"
  using assms by (induction ports ps rule: append_ports.induct) (auto split: if_splits)

text \<open>
  A scan covers exactly the ports asked for. \<open>normalizeScanPorts\<close> accepts a list exactly when all its ports
  are ports and at most 128 of them are different; the result is then strictly increasing and has just the ports
  of the list, or of the favourites when the list is empty.
\<close>

theorem scan_ports_exact:
  "case normalizeScanPorts inputPorts favs of
      Inr ps \<Rightarrow> sorted_wrt (<) ps \<and> set ps = set (if inputPorts = [] then favs else inputPorts) \<and> length ps \<le> 128 \<and> set ps \<subseteq> {1..65535}
    | Inl e \<Rightarrow> (\<exists>p \<in> set (if inputPorts = [] then favs else inputPorts). p \<notin> {1..65535}) \<or>
        128 < card (set (if inputPorts = [] then favs else inputPorts))"
proof -
  let ?ps = "if inputPorts = [] then favs else inputPorts"
  note ok = append_ports_ok [of "[]" ?ps]
  show ?thesis
  proof (cases "append_ports [] ?ps")
    case (Inl e)
    then have "\<not> (\<exists>qs. append_ports [] ?ps = Inr qs)" by (simp only: Inl) simp
    then have "(\<exists>p \<in> set ?ps. \<not> (1 \<le> p \<and> p \<le> 65535)) \<or> 128 < card (set ?ps)" using ok by auto
    then show ?thesis unfolding normalizeScanPorts_def Inl by auto
  next
    case (Inr qs)
    then have o: "(\<forall>p \<in> set ?ps. 1 \<le> p \<and> p \<le> 65535) \<and> card (set ?ps) \<le> 128" using ok by (simp only: Inr) simp
    have q: "set qs = set ?ps" "distinct qs" using append_ports_set [OF Inr] by simp_all
    have "length (sort qs) \<le> 128" using o q by (metis distinct_card length_sort)
    moreover have "sorted_wrt (<) (sort qs)" using q(2) by (simp add: strict_sorted_iff)
    moreover have "set qs \<subseteq> {1..65535}" using o unfolding q(1) by auto
    ultimately show ?thesis unfolding normalizeScanPorts_def Inr using q(1) by simp
  qed
qed

lemma scan_timeout_bounds: "50 * millisecond \<le> normalizeScanTimeout t \<and> normalizeScanTimeout t \<le> 1500 * millisecond"
  by (auto simp: normalizeScanTimeout_def Let_def)

lemma scan_host_loopback: "normalizeLocalScanHost h = Inr g \<Longrightarrow> g \<in> {''127.0.0.1'', ''localhost'', ''::1''}"
  by (auto simp: normalizeLocalScanHost_def Let_def split: if_splits)

end
