(* ===== verification/Config_Store.thy ===== *)
theory Config_Store
  imports Sql_Table Go_Sort
begin

text \<open>
  The store of the desktop application (\<open>desktop/internal/config\<close>, \<open>store.go\<close> and \<open>db.go\<close>): tunnels, settings,
  favourite ports and the activity log, as tables with the unique columns of the schema and the statements of
  the code. The rows of a query without \<open>ORDER BY\<close> come in the order of insertion. A flag is stored as the
  number 0 or 1 and read back by \<open>boolScanTarget\<close>; as the two cancel (\<open>scan_boolToInt\<close>) rows keep the flag. The
  JSON of the metadata is an argument.
\<close>

section \<open>Rows\<close>

record TunnelConfig =
  tg_ID :: string
  tg_Name :: string
  tg_ProxyType :: string
  tg_LocalAddr :: string
  tg_LocalPort :: int
  tg_RemotePort :: int
  tg_ServerAddr :: string
  tg_Domain :: string
  tg_HostHeader :: string
  tg_PublicURL :: string
  tg_AccessPolicyID :: string
  tg_InspectEnabled :: bool
  tg_ExpiresAt :: string
  tg_Status :: string
  tg_CreatedAt :: gotime
  tg_UpdatedAt :: gotime

record FavoritePort =
  fp_ID :: string
  fp_Name :: string
  fp_Category :: string
  fp_Port :: int
  fp_Protocol :: string
  fp_Description :: string
  fp_Enabled :: bool
  fp_Builtin :: bool
  fp_CreatedAt :: gotime
  fp_UpdatedAt :: gotime

record ActivityLog =
  lg_ID :: string
  lg_Level :: string
  lg_Category :: string
  lg_Action :: string
  lg_TargetType :: string
  lg_TargetID :: string
  lg_Title :: string
  lg_Message :: string
  lg_Metadata :: "(string, string) fmap option"
  lg_MetadataJSON :: string
  lg_CreatedAt :: gotime

record ActivityLogFilter =
  lf_Level :: string
  lf_Category :: string
  lf_Limit :: int

text \<open>The values a driver hands to \<open>Scan\<close>.\<close>

datatype sql_value = SqlNull | SqlBool bool | SqlInt int | SqlBytes string | SqlText string | SqlOther

definition boolToInt :: "bool \<Rightarrow> int" where
  "boolToInt b = (if b then 1 else 0)"

definition scan_bool :: "sql_value \<Rightarrow> bool option" where
  "scan_bool src = (case src of
      SqlNull \<Rightarrow> Some False
    | SqlBool b \<Rightarrow> Some b
    | SqlInt n \<Rightarrow> Some (n \<noteq> 0)
    | SqlBytes s \<Rightarrow> Some (s = ''1'' \<or> to_lower s = ''true'')
    | SqlText s \<Rightarrow> Some (s = ''1'' \<or> to_lower s = ''true'')
    | SqlOther \<Rightarrow> None)"

lemma scan_boolToInt: "scan_bool (SqlInt (boolToInt b)) = Some b"
  by (simp add: scan_bool_def boolToInt_def)

section \<open>The database\<close>

record ConfigDB = sql_engine +
  db_tunnels :: "TunnelConfig list"
  db_settings :: "(string \<times> string) list"
  db_ports :: "FavoritePort list"
  db_logs :: "ActivityLog list"

datatype configdb_error =
    EngineError string string
  | ConstraintError string
  | TunnelMissing string
  | PortMissing string
  | LogFieldRequired string

definition tunnel_clash :: "TunnelConfig \<Rightarrow> TunnelConfig \<Rightarrow> bool" where
  "tunnel_clash a b \<longleftrightarrow> tg_ID a = tg_ID b \<or> tg_Name a = tg_Name b"

definition port_target :: "FavoritePort \<Rightarrow> FavoritePort \<Rightarrow> bool" where
  "port_target a b \<longleftrightarrow> fp_Protocol a = fp_Protocol b \<and> fp_Port a = fp_Port b"

definition port_clash :: "FavoritePort \<Rightarrow> FavoritePort \<Rightarrow> bool" where
  "port_clash a b \<longleftrightarrow> fp_ID a = fp_ID b \<or> port_target a b"

text \<open>The columns of an older table are completed one by one; a failed step leaves the ones before it.\<close>

definition migrated_columns :: "string list" where
  "migrated_columns = [''domain'', ''host_header'', ''public_url'', ''access_policy_id'', ''inspect_enabled'', ''expires_at'']"

fun add_columns :: "string list \<Rightarrow> 'a sql_engine_scheme \<times> string list \<Rightarrow> configdb_error option \<times> 'a sql_engine_scheme \<times> string list" where
  "add_columns [] s = (None, s)"
| "add_columns (c # cs) (d, cols) =
     (case statement d of
        (Some e, d) \<Rightarrow> (Some (EngineError ''inspect table'' e), d, cols)
      | (None, d) \<Rightarrow>
          if c \<in> set cols then add_columns cs (d, cols)
          else (case statement d of
                  (Some e, d) \<Rightarrow> (Some (EngineError ''add column'' e), d, cols)
                | (None, d) \<Rightarrow> add_columns cs (d, cols @ [c])))"

definition exec_stmt :: "string \<Rightarrow> (ConfigDB \<Rightarrow> ConfigDB option) \<Rightarrow> ConfigDB \<Rightarrow> configdb_error option \<times> ConfigDB" where
  "exec_stmt what f db =
     (case statement db of
        (Some e, db) \<Rightarrow> (Some (EngineError what e), db)
      | (None, db) \<Rightarrow> (case f db of None \<Rightarrow> (Some (ConstraintError what), db) | Some db' \<Rightarrow> (None, db')))"

definition query_stmt :: "string \<Rightarrow> (ConfigDB \<Rightarrow> 'a) \<Rightarrow> ConfigDB \<Rightarrow> (configdb_error + 'a) \<times> ConfigDB" where
  "query_stmt what f db =
     (case statement db of
        (Some e, db) \<Rightarrow> (Inl (EngineError what e), db)
      | (None, db) \<Rightarrow> (Inr (f db), db))"

section \<open>Tunnels\<close>

definition cs_Create :: "TunnelConfig \<Rightarrow> ConfigDB \<Rightarrow> configdb_error option \<times> ConfigDB" where
  "cs_Create tc = exec_stmt ''insert tunnel config'' (\<lambda>db.
     map_option (\<lambda>rows. db\<lparr>db_tunnels := rows\<rparr>)
       (sql_insert tunnel_clash (tc\<lparr>tg_CreatedAt := current_timestamp db, tg_UpdatedAt := current_timestamp db\<rparr>) (db_tunnels db)))"

definition cs_Get :: "string \<Rightarrow> ConfigDB \<Rightarrow> (configdb_error + TunnelConfig option) \<times> ConfigDB" where
  "cs_Get i = query_stmt ''get tunnel config'' (\<lambda>db. row_of tg_ID i (db_tunnels db))"

definition cs_GetByName :: "string \<Rightarrow> ConfigDB \<Rightarrow> (configdb_error + TunnelConfig option) \<times> ConfigDB" where
  "cs_GetByName n = query_stmt ''get tunnel config by name'' (\<lambda>db. row_of tg_Name n (db_tunnels db))"

definition cs_List :: "ConfigDB \<Rightarrow> (configdb_error + TunnelConfig list) \<times> ConfigDB" where
  "cs_List = query_stmt ''list tunnel configs'' (\<lambda>db. sort_slice (\<lambda>a b. tg_CreatedAt b < tg_CreatedAt a) (db_tunnels db))"

definition tunnel_set :: "TunnelConfig \<Rightarrow> gotime \<Rightarrow> TunnelConfig \<Rightarrow> TunnelConfig" where
  "tunnel_set tc now q = tc\<lparr>tg_ID := tg_ID q, tg_CreatedAt := tg_CreatedAt q, tg_UpdatedAt := now\<rparr>"

text \<open>An \<open>UPDATE\<close> or \<open>DELETE\<close> that affects no row is an error of \<open>Update\<close> and \<open>Delete\<close>.\<close>

definition cs_Update :: "TunnelConfig \<Rightarrow> ConfigDB \<Rightarrow> configdb_error option \<times> ConfigDB" where
  "cs_Update tc db =
     (case statement db of
        (Some e, db) \<Rightarrow> (Some (EngineError ''update tunnel config'' e), db)
      | (None, db) \<Rightarrow>
          (case sql_update tunnel_clash (\<lambda>q. tg_ID q = tg_ID tc) (tunnel_set tc (current_timestamp db)) (db_tunnels db) of
             None \<Rightarrow> (Some (ConstraintError ''update tunnel config''), db)
           | Some (rows, n) \<Rightarrow> (if n = 0 then Some (TunnelMissing (tg_ID tc)) else None, db\<lparr>db_tunnels := rows\<rparr>)))"

definition cs_UpdateStatus :: "string \<Rightarrow> string \<Rightarrow> ConfigDB \<Rightarrow> configdb_error option \<times> ConfigDB" where
  "cs_UpdateStatus i st = exec_stmt ''update status'' (\<lambda>db.
     map_option (\<lambda>(rows, n). db\<lparr>db_tunnels := rows\<rparr>)
       (sql_update tunnel_clash (\<lambda>q. tg_ID q = i) (\<lambda>q. q\<lparr>tg_Status := st, tg_UpdatedAt := current_timestamp db\<rparr>) (db_tunnels db)))"

definition cs_UpdateRuntimeEndpointFields :: "string \<Rightarrow> int \<Rightarrow> string \<Rightarrow> ConfigDB \<Rightarrow> configdb_error option \<times> ConfigDB" where
  "cs_UpdateRuntimeEndpointFields i remotePort publicURL = exec_stmt ''update endpoint fields'' (\<lambda>db.
     map_option (\<lambda>(rows, n). db\<lparr>db_tunnels := rows\<rparr>)
       (sql_update tunnel_clash (\<lambda>q. tg_ID q = i)
          (\<lambda>q. q\<lparr>tg_RemotePort := remotePort, tg_PublicURL := publicURL, tg_UpdatedAt := current_timestamp db\<rparr>) (db_tunnels db)))"

definition cs_Delete :: "string \<Rightarrow> ConfigDB \<Rightarrow> configdb_error option \<times> ConfigDB" where
  "cs_Delete i db =
     (case statement db of
        (Some e, db) \<Rightarrow> (Some (EngineError ''delete tunnel config'' e), db)
      | (None, db) \<Rightarrow>
          (case sql_delete (\<lambda>q. tg_ID q = i) (db_tunnels db) of
             (rows, n) \<Rightarrow> (if n = 0 then Some (TunnelMissing i) else None, db\<lparr>db_tunnels := rows\<rparr>)))"

definition cs_Count :: "ConfigDB \<Rightarrow> (configdb_error + nat) \<times> ConfigDB" where
  "cs_Count = query_stmt ''count'' (\<lambda>db. length (db_tunnels db))"

section \<open>Settings\<close>

definition cs_GetSetting :: "string \<Rightarrow> ConfigDB \<Rightarrow> (configdb_error + string) \<times> ConfigDB" where
  "cs_GetSetting k = query_stmt ''get setting'' (\<lambda>db. case row_of fst k (db_settings db) of None \<Rightarrow> [] | Some q \<Rightarrow> snd q)"

definition put_setting :: "string \<Rightarrow> string \<Rightarrow> ConfigDB \<Rightarrow> ConfigDB" where
  "put_setting k v db = db\<lparr>db_settings := snd (pair_save k v (db_settings db))\<rparr>"

definition cs_SetSetting :: "string \<Rightarrow> string \<Rightarrow> ConfigDB \<Rightarrow> configdb_error option \<times> ConfigDB" where
  "cs_SetSetting k v = exec_stmt ''set setting'' (\<lambda>db. Some (put_setting k v db))"

text \<open>
  The transaction: its statements in the order the range visits the values, on the tables of the transaction;
  a statement that fails rolls back, and only the commit changes the tables.
\<close>

fun save_settings :: "(string \<times> string) list \<Rightarrow> ConfigDB \<Rightarrow> configdb_error option \<times> ConfigDB" where
  "save_settings [] db = (None, db)"
| "save_settings ((k, v) # rest) db =
     (case exec_stmt (''save setting '' @ k) (\<lambda>db. Some (put_setting k v db)) db of
        (Some e, db) \<Rightarrow> (Some e, db)
      | (None, db) \<Rightarrow> save_settings rest db)"

definition cs_SetSettings :: "(string \<times> string) list \<Rightarrow> ConfigDB \<Rightarrow> configdb_error option \<times> ConfigDB" where
  "cs_SetSettings kvs db =
     (case statement db of
        (Some e, db) \<Rightarrow> (Some (EngineError ''begin settings transaction'' e), db)
      | (None, db1) \<Rightarrow>
          (case statement db1 of
             (Some e, db2) \<Rightarrow> (Some (EngineError ''prepare settings upsert'' e), db2)
           | (None, db2) \<Rightarrow>
               (case save_settings kvs db2 of
                  (Some e, db3) \<Rightarrow> (Some e, db3\<lparr>db_settings := db_settings db\<rparr>)
                | (None, db3) \<Rightarrow>
                    (case statement db3 of
                       (Some e, db4) \<Rightarrow> (Some (EngineError ''commit settings transaction'' e), db4\<lparr>db_settings := db_settings db\<rparr>)
                     | (None, db4) \<Rightarrow> (None, db4)))))"

definition cs_ListSettings :: "ConfigDB \<Rightarrow> (configdb_error + (string, string) fmap) \<times> ConfigDB" where
  "cs_ListSettings = query_stmt ''list app settings'' (\<lambda>db.
     fold (\<lambda>(k, v) m. fmupd k v m) (sort_slice (\<lambda>a b. fst a < fst b) (db_settings db)) fmempty)"

section \<open>Favourite ports\<close>

definition port_set :: "gotime \<Rightarrow> FavoritePort \<Rightarrow> FavoritePort \<Rightarrow> FavoritePort" where
  "port_set now q r = q\<lparr>fp_Name := fp_Name r, fp_Category := fp_Category r, fp_Description := fp_Description r,
     fp_Enabled := fp_Enabled r, fp_Builtin := fp_Builtin r, fp_UpdatedAt := now\<rparr>"

definition cs_UpsertFavoritePort :: "FavoritePort \<Rightarrow> ConfigDB \<Rightarrow> configdb_error option \<times> ConfigDB" where
  "cs_UpsertFavoritePort p = exec_stmt ''upsert favorite port'' (\<lambda>db.
     map_option (\<lambda>rows. db\<lparr>db_ports := rows\<rparr>)
       (sql_upsert port_target port_clash (port_set (current_timestamp db))
          (p\<lparr>fp_CreatedAt := current_timestamp db, fp_UpdatedAt := current_timestamp db\<rparr>) (db_ports db)))"

definition port_less :: "FavoritePort \<Rightarrow> FavoritePort \<Rightarrow> bool" where
  "port_less a b \<longleftrightarrow> (if fp_Category a \<noteq> fp_Category b then fp_Category a < fp_Category b
     else if fp_Port a \<noteq> fp_Port b then fp_Port a < fp_Port b else fp_Name a < fp_Name b)"

definition cs_ListFavoritePorts :: "ConfigDB \<Rightarrow> (configdb_error + FavoritePort list) \<times> ConfigDB" where
  "cs_ListFavoritePorts = query_stmt ''list favorite ports'' (\<lambda>db. sort_slice port_less (db_ports db))"

definition cs_DeleteFavoritePort :: "string \<Rightarrow> ConfigDB \<Rightarrow> configdb_error option \<times> ConfigDB" where
  "cs_DeleteFavoritePort i db =
     (case statement db of
        (Some e, db) \<Rightarrow> (Some (EngineError ''delete favorite port'' e), db)
      | (None, db) \<Rightarrow>
          (case sql_delete (\<lambda>q. fp_ID q = i) (db_ports db) of
             (rows, n) \<Rightarrow> (if n = 0 then Some (PortMissing i) else None, db\<lparr>db_ports := rows\<rparr>)))"

section \<open>The activity log\<close>

definition log_checks :: "ActivityLog \<Rightarrow> configdb_error option" where
  "log_checks l =
     (if trim_space (lg_ID l) = [] then Some (LogFieldRequired ''id'')
      else if trim_space (lg_Level l) = [] then Some (LogFieldRequired ''level'')
      else if trim_space (lg_Category l) = [] then Some (LogFieldRequired ''category'')
      else if trim_space (lg_Action l) = [] then Some (LogFieldRequired ''action'')
      else if trim_space (lg_Title l) = [] then Some (LogFieldRequired ''title'')
      else None)"

definition log_row :: "((string, string) fmap \<Rightarrow> string) \<Rightarrow> gotime \<Rightarrow> ActivityLog \<Rightarrow> ActivityLog" where
  "log_row marshal now l =
     l\<lparr>lg_Level := trim_space (lg_Level l), lg_Category := trim_space (lg_Category l), lg_Action := trim_space (lg_Action l),
       lg_TargetType := trim_space (lg_TargetType l), lg_TargetID := trim_space (lg_TargetID l),
       lg_Title := trim_space (lg_Title l), lg_Message := trim_space (lg_Message l), lg_Metadata := None,
       lg_MetadataJSON := (if trim_space (lg_MetadataJSON l) = []
         then marshal (case lg_Metadata l of None \<Rightarrow> fmempty | Some m \<Rightarrow> m) else lg_MetadataJSON l),
       lg_CreatedAt := now\<rparr>"

definition cs_AppendActivityLog :: "((string, string) fmap \<Rightarrow> string) \<Rightarrow> ActivityLog \<Rightarrow> ConfigDB \<Rightarrow> configdb_error option \<times> ConfigDB" where
  "cs_AppendActivityLog marshal l db =
     (case log_checks l of
        Some e \<Rightarrow> (Some e, db)
      | None \<Rightarrow> exec_stmt ''append activity log'' (\<lambda>db.
          map_option (\<lambda>rows. db\<lparr>db_logs := rows\<rparr>)
            (sql_insert (same_key lg_ID) (log_row marshal (current_timestamp db) l) (db_logs db))) db)"

definition scanActivityLog :: "(string \<Rightarrow> (string, string) fmap option option) \<Rightarrow> ActivityLog \<Rightarrow> ActivityLog" where
  "scanActivityLog unmarshal l =
     (let m = (if trim_space (lg_MetadataJSON l) = [] then None
               else (case unmarshal (lg_MetadataJSON l) of None \<Rightarrow> None | Some m \<Rightarrow> m)) in
      l\<lparr>lg_Metadata := Some (case m of None \<Rightarrow> fmempty | Some m \<Rightarrow> m)\<rparr>)"

definition normalizeActivityLogLimit :: "int \<Rightarrow> int" where
  "normalizeActivityLogLimit limit = (if limit \<le> 0 then 100 else if limit > 500 then 500 else limit)"

definition log_selected :: "ActivityLogFilter \<Rightarrow> ActivityLog \<Rightarrow> bool" where
  "log_selected f l \<longleftrightarrow>
     (trim_space (lf_Level f) \<noteq> [] \<longrightarrow> lg_Level l = trim_space (lf_Level f)) \<and>
     (trim_space (lf_Category f) \<noteq> [] \<longrightarrow> lg_Category l = trim_space (lf_Category f))"

definition cs_ListActivityLogs ::
    "(string \<Rightarrow> (string, string) fmap option option) \<Rightarrow> ActivityLogFilter \<Rightarrow> ConfigDB \<Rightarrow> (configdb_error + ActivityLog list) \<times> ConfigDB" where
  "cs_ListActivityLogs unmarshal f = query_stmt ''list activity logs'' (\<lambda>db.
     map (scanActivityLog unmarshal)
       (take (nat (normalizeActivityLogLimit (lf_Limit f)))
          (sort_slice (\<lambda>a b. lg_CreatedAt b < lg_CreatedAt a) (filter (log_selected f) (db_logs db)))))"

definition cs_ClearActivityLogs :: "ConfigDB \<Rightarrow> configdb_error option \<times> ConfigDB" where
  "cs_ClearActivityLogs = exec_stmt ''clear activity logs'' (\<lambda>db. Some (db\<lparr>db_logs := []\<rparr>))"

end
