(* ===== verification/Config_Props.thy ===== *)
theory Config_Props
  imports Config_Store
begin

text \<open>
  The tables of the desktop keep their unique columns, settings are saved as a whole or not at all, and the
  activity log is listed newest first up to its limit.
\<close>

section \<open>The invariant\<close>

definition config_inv :: "ConfigDB \<Rightarrow> bool" where
  "config_inv db \<longleftrightarrow> unique_rows tunnel_clash (db_tunnels db) \<and> distinct (map fst (db_settings db))
     \<and> unique_rows port_clash (db_ports db) \<and> distinct (map lg_ID (db_logs db))"

definition empty_config :: ConfigDB where
  "empty_config = \<lparr>en_faults = [], en_now = 0, db_tunnels = [], db_settings = [], db_ports = [], db_logs = []\<rparr>"

text \<open>The calls that change the tables, and what the engine and its clock do meanwhile.\<close>

inductive config_step :: "((string, string) fmap \<Rightarrow> string) \<Rightarrow> ConfigDB \<Rightarrow> ConfigDB \<Rightarrow> bool" for marshal where
  create: "config_step marshal db (snd (cs_Create tc db))"
| update: "config_step marshal db (snd (cs_Update tc db))"
| status: "config_step marshal db (snd (cs_UpdateStatus i st db))"
| endpoint: "config_step marshal db (snd (cs_UpdateRuntimeEndpointFields i p u db))"
| delete: "config_step marshal db (snd (cs_Delete i db))"
| setting: "config_step marshal db (snd (cs_SetSetting k v db))"
| settings: "config_step marshal db (snd (cs_SetSettings kvs db))"
| port: "config_step marshal db (snd (cs_UpsertFavoritePort fp db))"
| port_delete: "config_step marshal db (snd (cs_DeleteFavoritePort i db))"
| log: "config_step marshal db (snd (cs_AppendActivityLog marshal l db))"
| clear: "config_step marshal db (snd (cs_ClearActivityLogs db))"
| engine: "config_step marshal db (db\<lparr>en_faults := fs, en_now := t\<rparr>)"

lemma statement_tables:
  assumes "statement db = (e, db')"
  shows "config_inv db' = config_inv db \<and> db_tunnels db' = db_tunnels db \<and> db_settings db' = db_settings db
    \<and> db_ports db' = db_ports db \<and> db_logs db' = db_logs db \<and> en_now db' = en_now db"
  using assms by (auto simp: statement_def config_inv_def split: list.splits)

lemma exec_inv:
  assumes "config_inv db" and "\<And>d d'. config_inv d \<Longrightarrow> f d = Some d' \<Longrightarrow> config_inv d'"
  shows "config_inv (snd (exec_stmt what f db))"
proof -
  obtain e db1 where s: "statement db = (e, db1)" by fastforce
  then have "config_inv db1" using statement_tables assms(1) by blast
  then show ?thesis using s assms(2) by (auto simp: exec_stmt_def split: option.splits)
qed

lemma exec_err: "fst (exec_stmt what f db) \<noteq> None \<Longrightarrow> snd (exec_stmt what f db) = snd (statement db)"
  by (auto simp: exec_stmt_def split: prod.splits option.splits)

lemma port_upsert_unique:
  assumes "sql_upsert port_target port_clash (port_set t) p rows = Some rows'" and "unique_rows port_clash rows"
  shows "unique_rows port_clash rows'"
  by (rule unique_upsert [OF assms(2,1)]) (simp_all add: port_clash_def port_target_def port_set_def)

lemma unique_distinct:
  assumes "unique_rows clash rows" and "\<And>a b. key a = key b \<Longrightarrow> clash a b"
  shows "distinct (map key rows)"
  using assms(1) by (induction rows) (use assms(2) in \<open>auto simp: unique_rows_def\<close>)

lemma put_setting_inv: "config_inv db \<Longrightarrow> config_inv (put_setting k v db)"
  by (simp add: config_inv_def put_setting_def pair_save_def distinct_put)

lemma save_settings_frame: "save_settings kvs db = (r, db') \<Longrightarrow>
    db_tunnels db' = db_tunnels db \<and> db_ports db' = db_ports db \<and> db_logs db' = db_logs db \<and> (config_inv db \<longrightarrow> config_inv db')"
proof (induction kvs arbitrary: db)
  case (Cons kv kvs)
  obtain k v where kv: "kv = (k, v)" by fastforce
  obtain e d where x: "exec_stmt (''save setting '' @ k) (\<lambda>db. Some (put_setting k v db)) db = (e, d)" by fastforce
  have f: "db_tunnels d = db_tunnels db \<and> db_ports d = db_ports db \<and> db_logs d = db_logs db"
    using x statement_tables by (auto simp: exec_stmt_def put_setting_def split: prod.splits option.splits)
  have i: "config_inv db \<longrightarrow> config_inv d"
    using x exec_inv [of db "\<lambda>db. Some (put_setting k v db)" "''save setting '' @ k"] put_setting_inv by auto
  show ?case using Cons f i kv x by (cases e) auto
qed simp

lemma set_settings_inv: "config_inv db \<Longrightarrow> config_inv (snd (cs_SetSettings kvs db))"
proof -
  assume inv: "config_inv db"
  obtain e1 d1 e2 d2 where s: "statement db = (e1, d1)" "statement d1 = (e2, d2)" by fastforce
  obtain r d3 where v: "save_settings kvs d2 = (r, d3)" by fastforce
  obtain e4 d4 where s4: "statement d3 = (e4, d4)" by fastforce
  have i: "config_inv d1" "config_inv d2" "config_inv d3" "config_inv d4"
    using inv statement_tables [OF s(1)] statement_tables [OF s(2)] save_settings_frame [OF v] statement_tables [OF s4] by auto
  have k: "config_inv (d\<lparr>db_settings := db_settings db\<rparr>)" if "config_inv d" for d
    using that inv by (simp add: config_inv_def)
  show ?thesis using s v s4 i k by (auto simp: cs_SetSettings_def split: option.splits)
qed

lemma config_step_inv: "config_step marshal db db' \<Longrightarrow> config_inv db \<Longrightarrow> config_inv db'"
proof (induction rule: config_step.induct)
  case (create db tc)
  then show ?case unfolding cs_Create_def by (rule exec_inv) (auto simp: config_inv_def intro: unique_insert)
next
  case (update db tc)
  obtain e d where s: "statement db = (e, d)" by fastforce
  then have "config_inv d" using update statement_tables by blast
  then show ?case using s by (auto simp: cs_Update_def config_inv_def split: option.splits intro: unique_update)
next
  case (status db i st)
  then show ?case unfolding cs_UpdateStatus_def by (rule exec_inv) (auto simp: config_inv_def intro: unique_update)
next
  case (endpoint db i p u)
  then show ?case unfolding cs_UpdateRuntimeEndpointFields_def by (rule exec_inv) (auto simp: config_inv_def intro: unique_update)
next
  case (delete db i)
  obtain e d where s: "statement db = (e, d)" by fastforce
  then have "config_inv d" using delete statement_tables by blast
  then show ?case using s unique_delete [of tunnel_clash "db_tunnels d" "\<lambda>q. tg_ID q = i"]
    by (auto simp: cs_Delete_def config_inv_def split: option.splits prod.splits)
next
  case (setting db k v)
  then show ?case unfolding cs_SetSetting_def by (rule exec_inv) (use put_setting_inv in auto)
next
  case (settings db kvs)
  then show ?case by (rule set_settings_inv)
next
  case (port db fp)
  then show ?case unfolding cs_UpsertFavoritePort_def
    by (rule exec_inv) (auto simp: config_inv_def intro: port_upsert_unique)
next
  case (port_delete db i)
  obtain e d where s: "statement db = (e, d)" by fastforce
  then have "config_inv d" using port_delete statement_tables by blast
  then show ?case using s unique_delete [of port_clash "db_ports d" "\<lambda>q. fp_ID q = i"]
    by (auto simp: cs_DeleteFavoritePort_def config_inv_def split: option.splits prod.splits)
next
  case (log db l)
  have "config_inv (snd (exec_stmt ''append activity log'' (\<lambda>db. map_option (\<lambda>rows. db\<lparr>db_logs := rows\<rparr>)
      (sql_insert (same_key lg_ID) (log_row marshal (current_timestamp db) l) (db_logs db))) db))"
    by (rule exec_inv [OF log]) (auto simp: config_inv_def unique_keyed [symmetric] intro: unique_insert)
  then show ?case using log by (auto simp: cs_AppendActivityLog_def split: option.splits)
next
  case (clear db)
  then show ?case unfolding cs_ClearActivityLogs_def by (rule exec_inv) (auto simp: config_inv_def)
next
  case (engine db fs t)
  then show ?case by (simp add: config_inv_def)
qed

text \<open>
  The tables of the desktop never hold two tunnels with the same identifier or name, two settings with the
  same key, two favourite ports with the same identifier or the same protocol and port, or two log entries with
  the same identifier, whatever calls are made and whichever statements the engine fails.
\<close>

theorem config_unique:
  assumes "(config_step marshal)\<^sup>*\<^sup>* empty_config db"
  shows "distinct (map tg_ID (db_tunnels db)) \<and> distinct (map tg_Name (db_tunnels db)) \<and> distinct (map fst (db_settings db))
    \<and> distinct (map fp_ID (db_ports db)) \<and> distinct (map (\<lambda>p. (fp_Protocol p, fp_Port p)) (db_ports db))
    \<and> distinct (map lg_ID (db_logs db))"
proof -
  have "config_inv empty_config" by (simp add: empty_config_def config_inv_def)
  with assms have "config_inv db" by (induction rule: rtranclp_induct) (auto intro: config_step_inv)
  then show ?thesis
    using unique_distinct [of tunnel_clash "db_tunnels db" tg_ID] unique_distinct [of tunnel_clash "db_tunnels db" tg_Name]
      unique_distinct [of port_clash "db_ports db" fp_ID] unique_distinct [of port_clash "db_ports db" "\<lambda>p. (fp_Protocol p, fp_Port p)"]
    by (simp add: config_inv_def tunnel_clash_def port_clash_def port_target_def)
qed

section \<open>Settings\<close>

lemma save_settings_ok: "fst (save_settings kvs db) = None \<Longrightarrow>
    pair_table.view (db_settings (snd (save_settings kvs db))) = pair_table.view (db_settings db) ++ map_of (rev kvs)"
proof (induction kvs arbitrary: db)
  case (Cons kv kvs)
  obtain k v where kv: "kv = (k, v)" by fastforce
  obtain e d where x: "exec_stmt (''save setting '' @ k) (\<lambda>db. Some (put_setting k v db)) db = (e, d)" by fastforce
  have e: "e = None" using Cons.prems kv x by (cases e) auto
  then have d: "db_settings d = snd (pair_save k v (db_settings db))"
    using x statement_tables by (auto simp: exec_stmt_def put_setting_def split: prod.splits option.splits)
  have "pair_table.view (db_settings (snd (save_settings kvs d))) = pair_table.view (db_settings d) ++ map_of (rev kvs)"
    using Cons.IH [of d] Cons.prems kv x e by simp
  then show ?case using kv x e d by (simp add: pair_table.view_save map_add_def fun_eq_iff split: option.splits)
qed simp

text \<open>
  Settings are saved together or not at all. When \<open>SetSettings\<close> succeeds every setting reads as the value
  given for it, the others as before; when it fails, at whichever statement, the settings are those from
  before. The other tables do not change.
\<close>

theorem settings_atomic:
  assumes "cs_SetSettings kvs db = (r, db')" and "distinct (map fst kvs)"
  shows "(case r of None \<Rightarrow> pair_table.view (db_settings db') = pair_table.view (db_settings db) ++ map_of kvs
      | Some e \<Rightarrow> db_settings db' = db_settings db)
    \<and> db_tunnels db' = db_tunnels db \<and> db_ports db' = db_ports db \<and> db_logs db' = db_logs db"
proof -
  obtain e1 d1 e2 d2 where s: "statement db = (e1, d1)" "statement d1 = (e2, d2)" by fastforce
  obtain q d3 where v: "save_settings kvs d2 = (q, d3)" by fastforce
  obtain e4 d4 where s4: "statement d3 = (e4, d4)" by fastforce
  note t = statement_tables [OF s(1)] statement_tables [OF s(2)] save_settings_frame [OF v] statement_tables [OF s4]
  have m: "map_of (rev kvs) = map_of kvs" using assms(2) by (subst map_of_inject_set) (simp_all add: rev_map [symmetric])
  have "q = None \<Longrightarrow> pair_table.view (db_settings d3) = pair_table.view (db_settings d2) ++ map_of kvs"
    using save_settings_ok [of kvs d2] v m by simp
  then show ?thesis using assms(1) s v s4 t by (auto simp: cs_SetSettings_def split: option.splits)
qed

section \<open>The activity log\<close>

text \<open>
  The log lists the newest entries that match, and never more than 500. What \<open>ListActivityLogs\<close> returns
  when the engine answers are entries of the log of the level and category asked for, in order from the newest;
  there are as many as the limit allows, which is 100 unless one from 1 to 500 is given, and none that is left
  out is newer than one that is listed.
\<close>

theorem logs_newest:
  assumes "cs_ListActivityLogs unmarshal f db = (Inr ls, db')"
  shows "\<exists>rows rest. ls = map (scanActivityLog unmarshal) rows \<and> mset (rows @ rest) = mset (filter (log_selected f) (db_logs db))
    \<and> length rows = min (nat (normalizeActivityLogLimit (lf_Limit f))) (length (filter (log_selected f) (db_logs db)))
    \<and> length ls \<le> 500 \<and> sorted_wrt (\<lambda>a b. lg_CreatedAt b \<le> lg_CreatedAt a) (rows @ rest)"
proof -
  let ?sel = "filter (log_selected f) (db_logs db)" and ?n = "nat (normalizeActivityLogLimit (lf_Limit f))"
  let ?s = "sort_slice (\<lambda>a b. lg_CreatedAt b < lg_CreatedAt a) ?sel"
  have ls: "ls = map (scanActivityLog unmarshal) (take ?n ?s)"
    using assms statement_tables by (auto simp: cs_ListActivityLogs_def query_stmt_def split: prod.splits option.splits)
  have w: "weak_order (\<lambda>a b. lg_CreatedAt b < lg_CreatedAt a)" by (rule weak_orderI) auto
  have "sorted_wrt (\<lambda>a b. lg_CreatedAt b \<le> lg_CreatedAt a) ?s" using sorted_sort_slice [OF w, of ?sel] by (simp add: not_less)
  moreover have "?n \<le> 500" by (auto simp: normalizeActivityLogLimit_def)
  ultimately show ?thesis
    by (intro exI [of _ "take ?n ?s"] exI [of _ "drop ?n ?s"]) (simp add: ls min.commute)
qed

section \<open>A run\<close>

definition ex_tunnel :: "string \<Rightarrow> string \<Rightarrow> TunnelConfig" where
  "ex_tunnel i n = \<lparr>tg_ID = i, tg_Name = n, tg_ProxyType = ''tcp'', tg_LocalAddr = ''127.0.0.1'', tg_LocalPort = 80, tg_RemotePort = 0,
     tg_ServerAddr = [], tg_Domain = [], tg_HostHeader = [], tg_PublicURL = [], tg_AccessPolicyID = [], tg_InspectEnabled = False,
     tg_ExpiresAt = [], tg_Status = ''stopped'', tg_CreatedAt = 0, tg_UpdatedAt = 0\<rparr>"

lemmas config_defs = cs_Create_def exec_stmt_def query_stmt_def sql_insert_def tunnel_clash_def current_timestamp_def

theorem config_unique_witness:
  "distinct (map tg_Name (db_tunnels (snd (cs_Create (ex_tunnel ''2'' ''ssh'') (snd (cs_Create (ex_tunnel ''1'' ''web'') empty_config))))))"
proof -
  have "(config_step (\<lambda>_. ''{}''))\<^sup>*\<^sup>* empty_config (snd (cs_Create (ex_tunnel ''2'' ''ssh'') (snd (cs_Create (ex_tunnel ''1'' ''web'') empty_config))))"
    by (meson config_step.create converse_rtranclp_into_rtranclp r_into_rtranclp)
  then show ?thesis using config_unique by blast
qed

theorem settings_atomic_witness:
  "let r = cs_SetSettings [(''relay_addr'', ''a''), (''relay_token'', ''t'')] empty_config in
    fst r = None \<and> pair_table.view (db_settings (snd r)) = [''relay_token'' \<mapsto> ''t'', ''relay_addr'' \<mapsto> ''a'']"
proof -
  have e: "fst (cs_SetSettings [(''relay_addr'', ''a''), (''relay_token'', ''t'')] empty_config) = None"
    by (simp add: cs_SetSettings_def empty_config_def exec_stmt_def put_setting_def)
  have v: "pair_table.view (db_settings empty_config) = Map.empty"
    by (simp add: empty_config_def pair_table.view_def pair_get_def row_of_def fun_eq_iff)
  show ?thesis
    using settings_atomic [of "[(''relay_addr'', ''a''), (''relay_token'', ''t'')]" empty_config "fst (cs_SetSettings [(''relay_addr'', ''a''), (''relay_token'', ''t'')] empty_config)"
      "snd (cs_SetSettings [(''relay_addr'', ''a''), (''relay_token'', ''t'')] empty_config)"] e v by (simp add: Let_def prod_eq_iff)
qed

definition ex_log_row :: "string \<Rightarrow> gotime \<Rightarrow> ActivityLog" where
  "ex_log_row i t = \<lparr>lg_ID = i, lg_Level = ''info'', lg_Category = ''operation'', lg_Action = ''start_tunnel'', lg_TargetType = [], lg_TargetID = [],
     lg_Title = ''t'', lg_Message = [], lg_Metadata = None, lg_MetadataJSON = ''{}'', lg_CreatedAt = t\<rparr>"

theorem logs_newest_witness:
  "length (case fst (cs_ListActivityLogs (\<lambda>_. None) \<lparr>lf_Level = [], lf_Category = [], lf_Limit = 1\<rparr> (empty_config\<lparr>db_logs := [ex_log_row ''a'' 1, ex_log_row ''b'' 2]\<rparr>))
    of Inl e \<Rightarrow> [] | Inr ls \<Rightarrow> ls) = 1"
proof -
  let ?db = "empty_config\<lparr>db_logs := [ex_log_row ''a'' 1, ex_log_row ''b'' 2]\<rparr>" and ?f = "\<lparr>lf_Level = [], lf_Category = [], lf_Limit = 1\<rparr>"
  obtain ls d where r: "cs_ListActivityLogs (\<lambda>_. None) ?f ?db = (Inr ls, d)"
    by (simp add: cs_ListActivityLogs_def query_stmt_def empty_config_def)
  have "length (filter (log_selected ?f) (db_logs ?db)) = 2" by (simp add: log_selected_def trim_space_def trim_if_def trim_right_if_def)
  then have "length ls = 1" using logs_newest [OF r] by (auto simp: normalizeActivityLogLimit_def)
  then show ?thesis using r by simp
qed

end
