(* ===== verification/Desktop_App.thy ===== *)
theory Desktop_App
  imports Desktop_Settings Config_Props Tunnel_Client
begin

text \<open>
  The desktop application (\<open>desktop/app.go\<close>): tunnels, the connection to the relay, settings, favourite ports
  and the activity log, over the store (\<open>Config_Store\<close>) and the tunnel manager (\<open>Tunnel_Client\<close>). The model is of
  an application whose database has been opened. Managers are objects: they live in a list and are referred to
  by position, since a connection that is replaced may still run. \<open>uuid.New\<close> is a sequence of texts; the texts of
  errors and messages, JSON and the P2P engine's answer are arguments; text is cut at 1200 bytes, which are its
  runes when they are ASCII.
\<close>

section \<open>State\<close>

datatype app_error =
    AConfig configdb_error
  | ASettings settings_error
  | AInput input_error
  | AClient client_error
  | ATunnelMissing string
  | AStopFirst
  | AServerNotConnected
  | AServerAddrRequired
  | AEncode
  | AText string

record AppLib =
  al_client :: ClientLib
  al_url :: url_lib
  al_encode_nodes :: "ServerNodeSettings list \<Rightarrow> string"
  al_decode_nodes :: "string \<Rightarrow> ServerNodeSettings list option"
  al_marshal :: "(string, string) fmap \<Rightarrow> string"
  al_unmarshal :: "string \<Rightarrow> (string, string) fmap option option"
  al_parses_ip :: "string \<Rightarrow> bool"
  al_err :: "app_error \<Rightarrow> string"
  al_tx :: "string \<Rightarrow> string"
  al_uuid :: "nat \<Rightarrow> string"

record DesktopApp =
  ap_db :: ConfigDB
  ap_managers :: "Manager list"
  ap_manager :: "nat option"
  ap_cancel :: "nat option"
  ap_running :: "nat list"
  ap_p2p :: bool
  ap_lastErr :: "app_error option"
  ap_uuids :: nat

definition cur_manager :: "DesktopApp \<Rightarrow> Manager option" where
  "cur_manager a = map_option (\<lambda>i. ap_managers a ! i) (ap_manager a)"

definition put_manager :: "Manager \<Rightarrow> DesktopApp \<Rightarrow> DesktopApp" where
  "put_manager m a = (case ap_manager a of None \<Rightarrow> a | Some i \<Rightarrow> a\<lparr>ap_managers := (ap_managers a)[i := m]\<rparr>)"

definition app_connected :: "DesktopApp \<Rightarrow> bool" where
  "app_connected a = (case cur_manager a of None \<Rightarrow> False | Some m \<Rightarrow> mn_IsConnected m)"

definition app_has_tunnel :: "string \<Rightarrow> DesktopApp \<Rightarrow> bool" where
  "app_has_tunnel n a = (case cur_manager a of None \<Rightarrow> False | Some m \<Rightarrow> HasTunnel n m)"

definition new_uuid :: "AppLib \<Rightarrow> DesktopApp \<Rightarrow> string \<times> DesktopApp" where
  "new_uuid lib a = (al_uuid lib (ap_uuids a), a\<lparr>ap_uuids := ap_uuids a + 1\<rparr>)"

definition on_db :: "(ConfigDB \<Rightarrow> 'a \<times> ConfigDB) \<Rightarrow> DesktopApp \<Rightarrow> 'a \<times> DesktopApp" where
  "on_db f a = (case f (ap_db a) of (r, db) \<Rightarrow> (r, a\<lparr>ap_db := db\<rparr>))"

section \<open>The activity log and the last error\<close>

record activityLog =
  ay_Level :: string
  ay_Category :: string
  ay_Action :: string
  ay_TargetType :: string
  ay_TargetID :: string
  ay_Title :: string
  ay_Message :: string
  ay_Metadata :: "(string \<times> string) list"

definition truncateActivityLogText :: "string \<Rightarrow> string" where
  "truncateActivityLogText v = (let v = trim_space v in if length v \<le> 1200 then v else take 1200 v)"

definition appendActivityLog :: "AppLib \<Rightarrow> activityLog \<Rightarrow> DesktopApp \<Rightarrow> DesktopApp" where
  "appendActivityLog lib e a =
     (let metadata = fold (\<lambda>(k, v) m. fmupd (trim_space k) (truncateActivityLogText v) m) (ay_Metadata e) fmempty in
      case new_uuid lib a of (i, a) \<Rightarrow>
        snd (on_db (cs_AppendActivityLog (al_marshal lib)
          \<lparr>lg_ID = i, lg_Level = trim_space (ay_Level e), lg_Category = trim_space (ay_Category e), lg_Action = trim_space (ay_Action e),
           lg_TargetType = trim_space (ay_TargetType e), lg_TargetID = trim_space (ay_TargetID e),
           lg_Title = truncateActivityLogText (ay_Title e), lg_Message = truncateActivityLogText (ay_Message e),
           lg_Metadata = Some metadata, lg_MetadataJSON = [], lg_CreatedAt = 0\<rparr>) a))"

definition recordError :: "AppLib \<Rightarrow> app_error \<Rightarrow> DesktopApp \<Rightarrow> DesktopApp" where
  "recordError lib e a = appendActivityLog lib
     \<lparr>ay_Level = ''error'', ay_Category = ''error'', ay_Action = ''runtime_error'', ay_TargetType = ''runtime'', ay_TargetID = [],
      ay_Title = al_tx lib ''runtime_error'', ay_Message = al_err lib e, ay_Metadata = [(''error'', al_err lib e)]\<rparr>
     (a\<lparr>ap_lastErr := Some e\<rparr>)"

definition clearError :: "DesktopApp \<Rightarrow> DesktopApp" where
  "clearError a = a\<lparr>ap_lastErr := None\<rparr>"

text \<open>An operation that records an error and returns it, and one that ends well and logs what it did.\<close>

definition fails :: "AppLib \<Rightarrow> app_error \<Rightarrow> DesktopApp \<Rightarrow> app_error option \<times> DesktopApp" where
  "fails lib e a = (Some e, recordError lib e a)"

definition logged :: "AppLib \<Rightarrow> string \<Rightarrow> string \<Rightarrow> string \<Rightarrow> string \<Rightarrow> (string \<times> string) list \<Rightarrow> DesktopApp \<Rightarrow> DesktopApp" where
  "logged lib category action targetType targetID metadata a = appendActivityLog lib
     \<lparr>ay_Level = ''info'', ay_Category = category, ay_Action = action, ay_TargetType = targetType, ay_TargetID = targetID,
      ay_Title = al_tx lib action, ay_Message = al_tx lib (action @ targetID), ay_Metadata = metadata\<rparr> a"

definition bool_str :: "bool \<Rightarrow> string" where
  "bool_str b = (if b then ''true'' else ''false'')"

section \<open>Tunnels\<close>

definition isPersistedTunnelEnabled :: "string \<Rightarrow> bool" where
  "isPersistedTunnelEnabled st \<longleftrightarrow> st = ''active'' \<or> st = ''running''"

definition tunnelDefFromConfig :: "TunnelConfig \<Rightarrow> TunnelDef" where
  "tunnelDefFromConfig c =
     \<lparr>td_Name = tg_Name c, td_ProxyType = tg_ProxyType c, td_LocalAddr = tg_LocalAddr c @ '':'' @ int_str (tg_LocalPort c),
      td_RemotePort = word_of_int (tg_RemotePort c), td_Domain = tg_Domain c, td_HostHeader = tg_HostHeader c, td_UseHTTPS = False,
      td_PublicURL = tg_PublicURL c, td_AccessPolicyID = tg_AccessPolicyID c, td_InspectEnabled = tg_InspectEnabled c,
      td_ExpiresAt = tg_ExpiresAt c, td_P2PEnabled = False, td_PeerClientID = []\<rparr>"

record TunnelInfo =
  ti_config :: TunnelConfig
  ti_ConnectionType :: string

definition tunnelConnectionType :: "string \<Rightarrow> DesktopApp \<Rightarrow> string" where
  "tunnelConnectionType st a =
     (if st \<noteq> ''active'' \<and> st \<noteq> ''running'' then ''standby''
      else if ap_manager a \<noteq> None \<and> ap_p2p a then ''p2p_direct''
      else ''relay'')"

definition tunnelInfoFromConfig :: "TunnelConfig \<Rightarrow> DesktopApp \<Rightarrow> TunnelInfo" where
  "tunnelInfoFromConfig c a = \<lparr>ti_config = c, ti_ConnectionType = tunnelConnectionType (tg_Status c) a\<rparr>"

definition shouldPersistTunnelRuntimeFields :: "TunnelConfig \<Rightarrow> TunnelInfo \<Rightarrow> bool" where
  "shouldPersistTunnelRuntimeFields c info =
     (if tg_RemotePort (ti_config info) \<noteq> 0 \<and> tg_RemotePort c \<noteq> tg_RemotePort (ti_config info) then True
      else tg_PublicURL (ti_config info) \<noteq> [] \<and> tg_PublicURL c \<noteq> tg_PublicURL (ti_config info))"

text \<open>The live status of a tunnel; a change of its port or address is written back, and an error of that is dropped.\<close>

definition enrich :: "TunnelConfig \<Rightarrow> ProxyInfo \<Rightarrow> TunnelInfo \<times> DesktopApp \<Rightarrow> TunnelInfo \<times> DesktopApp" where
  "enrich c s ia =
     (case ia of (info, a) \<Rightarrow>
        if pi_ProxyName s \<noteq> tg_Name c then (info, a)
        else
          let tc = (ti_config info)\<lparr>tg_Status := pi_Status s, tg_RemotePort := uint (pi_RemotePort s)\<rparr>;
              tc = (if pi_PublicURL s \<noteq> [] then tc\<lparr>tg_PublicURL := pi_PublicURL s\<rparr> else tc);
              info = \<lparr>ti_config = tc, ti_ConnectionType = tunnelConnectionType (pi_Status s) a\<rparr> in
          (info, if shouldPersistTunnelRuntimeFields c info
                 then snd (on_db (cs_UpdateRuntimeEndpointFields (tg_ID c) (tg_RemotePort tc) (tg_PublicURL tc)) a) else a))"

definition tunnel_status :: "string list \<Rightarrow> DesktopApp \<Rightarrow> ProxyInfo list" where
  "tunnel_status ks a = (case cur_manager a of None \<Rightarrow> [] | Some m \<Rightarrow> GetStatus ks m)"

fun tunnel_infos :: "string list \<Rightarrow> TunnelConfig list \<Rightarrow> DesktopApp \<Rightarrow> TunnelInfo list \<times> DesktopApp" where
  "tunnel_infos ks [] a = ([], a)"
| "tunnel_infos ks (c # cs) a =
     (case fold (enrich c) (tunnel_status ks a) (tunnelInfoFromConfig c a, a) of
        (info, a) \<Rightarrow> (case tunnel_infos ks cs a of (infos, a) \<Rightarrow> (info # infos, a)))"

definition GetTunnels :: "string list \<Rightarrow> DesktopApp \<Rightarrow> (app_error + TunnelInfo list) \<times> DesktopApp" where
  "GetTunnels ks a =
     (case on_db cs_List a of
        (Inl e, a) \<Rightarrow> (Inl (AConfig e), a)
      | (Inr cs, a) \<Rightarrow> (case tunnel_infos ks cs a of (infos, a) \<Rightarrow> (Inr infos, a)))"

definition tunnel_metadata :: "TunnelConfig \<Rightarrow> (string \<times> string) list" where
  "tunnel_metadata tc = [(''name'', tg_Name tc), (''proxy_type'', tg_ProxyType tc), (''local_addr'', tg_LocalAddr tc),
     (''local_port'', int_str (tg_LocalPort tc)), (''remote_port'', int_str (tg_RemotePort tc)),
     (''domain'', tg_Domain tc), (''public_url'', tg_PublicURL tc)]"

definition config_of_input :: "CreateTunnelInput \<Rightarrow> TunnelConfig \<Rightarrow> TunnelConfig" where
  "config_of_input i tc =
     tc\<lparr>tg_Name := ct_Name i, tg_ProxyType := (if ct_ProxyType i = [] then ''tcp'' else ct_ProxyType i),
        tg_LocalAddr := ct_LocalAddr i, tg_LocalPort := ct_LocalPort i, tg_RemotePort := ct_RemotePort i,
        tg_Domain := trim_space (ct_Domain i), tg_HostHeader := trim_space (ct_HostHeader i),
        tg_PublicURL := trim_space (ct_PublicURL i), tg_AccessPolicyID := trim_space (ct_AccessPolicyID i),
        tg_InspectEnabled := ct_InspectEnabled i, tg_ExpiresAt := trim_space (ct_ExpiresAt i)\<rparr>"

definition blank_tunnel :: "string \<Rightarrow> TunnelConfig" where
  "blank_tunnel i = \<lparr>tg_ID = i, tg_Name = [], tg_ProxyType = [], tg_LocalAddr = [], tg_LocalPort = 0, tg_RemotePort = 0, tg_ServerAddr = [],
     tg_Domain = [], tg_HostHeader = [], tg_PublicURL = [], tg_AccessPolicyID = [], tg_InspectEnabled = False, tg_ExpiresAt = [],
     tg_Status = ''stopped'', tg_CreatedAt = 0, tg_UpdatedAt = 0\<rparr>"

definition CreateTunnel :: "AppLib \<Rightarrow> CreateTunnelInput \<Rightarrow> DesktopApp \<Rightarrow> (app_error + TunnelInfo) \<times> DesktopApp" where
  "CreateTunnel lib i a =
     (case validateCreateTunnelInput (al_parses_ip lib) i of
        Some e \<Rightarrow> (Inl (AInput e), recordError lib (AInput e) a)
      | None \<Rightarrow>
          (case new_uuid lib a of (uuid, a) \<Rightarrow>
             let tc = config_of_input i (blank_tunnel uuid) in
             (case on_db (cs_Create tc) a of
                (Some e, a) \<Rightarrow> (Inl (AConfig e), recordError lib (AConfig e) a)
              | (None, a) \<Rightarrow>
                  (Inr (tunnelInfoFromConfig tc a), logged lib ''operation'' ''create_tunnel'' ''tunnel'' (tg_ID tc) (tunnel_metadata tc) a))))"

definition UpdateTunnel :: "AppLib \<Rightarrow> string \<Rightarrow> CreateTunnelInput \<Rightarrow> DesktopApp \<Rightarrow> (app_error + TunnelInfo) \<times> DesktopApp" where
  "UpdateTunnel lib rawID i a =
     (let tid = trim_space rawID in
      if tid = [] then (Inl (AInput TunnelIDRequired), recordError lib (AInput TunnelIDRequired) a)
      else (case validateCreateTunnelInput (al_parses_ip lib) i of
        Some e \<Rightarrow> (Inl (AInput e), recordError lib (AInput e) a)
      | None \<Rightarrow>
          (case on_db (cs_Get tid) a of
             (Inl e, a) \<Rightarrow> (Inl (AConfig e), recordError lib (AConfig e) a)
           | (Inr None, a) \<Rightarrow> (Inl (ATunnelMissing tid), recordError lib (ATunnelMissing tid) a)
           | (Inr (Some tc), a) \<Rightarrow>
               if isPersistedTunnelEnabled (tg_Status tc) \<or> app_has_tunnel (tg_Name tc) a
               then (Inl AStopFirst, recordError lib AStopFirst a)
               else
                 let tc = config_of_input i tc in
                 (case on_db (cs_Update tc) a of
                    (Some e, a) \<Rightarrow> (Inl (AConfig e), recordError lib (AConfig e) a)
                  | (None, a) \<Rightarrow>
                      (Inr (tunnelInfoFromConfig tc a),
                       logged lib ''operation'' ''update_tunnel'' ''tunnel'' (tg_ID tc) (tunnel_metadata tc) (clearError a))))))"

text \<open>
  \<open>StartTunnel\<close> and \<open>StopTunnel\<close> read the configuration before they take the lock, so that they are two steps each.
\<close>

definition read_tunnel :: "AppLib \<Rightarrow> string \<Rightarrow> DesktopApp \<Rightarrow> (app_error + TunnelConfig) \<times> DesktopApp" where
  "read_tunnel lib tid a =
     (case on_db (cs_Get tid) a of
        (Inl e, a) \<Rightarrow> (Inl (AConfig e), recordError lib (AConfig e) a)
      | (Inr None, a) \<Rightarrow> (Inl (ATunnelMissing tid), recordError lib (ATunnelMissing tid) a)
      | (Inr (Some tc), a) \<Rightarrow> (Inr tc, a))"

definition start_locked :: "AppLib \<Rightarrow> string \<Rightarrow> TunnelConfig \<Rightarrow> DesktopApp \<Rightarrow> app_error option \<times> DesktopApp" where
  "start_locked lib tid tc a =
     (if \<not> app_connected a then fails lib AServerNotConnected a
      else
        let m = the (cur_manager a);
            (e, m) = (if HasTunnel (tg_Name tc) m then (None, m) else AddTunnel (al_client lib) (tunnelDefFromConfig tc) m);
            a = put_manager m a in
        case e of
          Some e \<Rightarrow> fails lib (AClient e) a
        | None \<Rightarrow>
            (case on_db (cs_UpdateStatus tid ''running'') a of
               (Some e, a) \<Rightarrow> fails lib (AConfig e) a
             | (None, a) \<Rightarrow>
                 (None, logged lib ''operation'' ''start_tunnel'' ''tunnel'' tid
                    [(''name'', tg_Name tc), (''local_addr'', tg_LocalAddr tc), (''local_port'', int_str (tg_LocalPort tc)),
                     (''remote_port'', int_str (tg_RemotePort tc))] (clearError a))))"

definition StartTunnel :: "AppLib \<Rightarrow> string \<Rightarrow> DesktopApp \<Rightarrow> app_error option \<times> DesktopApp" where
  "StartTunnel lib tid a =
     (case read_tunnel lib tid a of
        (Inl e, a) \<Rightarrow> (Some e, a)
      | (Inr tc, a) \<Rightarrow> start_locked lib tid tc a)"

definition stop_locked :: "AppLib \<Rightarrow> string \<Rightarrow> TunnelConfig \<Rightarrow> DesktopApp \<Rightarrow> app_error option \<times> DesktopApp" where
  "stop_locked lib tid tc a =
     (let (e, a) = (case cur_manager a of
            None \<Rightarrow> (None, a)
          | Some m \<Rightarrow>
              if HasTunnel (tg_Name tc) m
              then (case RemoveTunnel (al_client lib) (tg_Name tc) m of (e, m) \<Rightarrow> (e, put_manager m a))
              else (None, a)) in
      case e of
        Some e \<Rightarrow> fails lib (AClient e) a
      | None \<Rightarrow>
          (case on_db (cs_UpdateStatus tid ''stopped'') a of
             (Some e, a) \<Rightarrow> fails lib (AConfig e) a
           | (None, a) \<Rightarrow> (None, logged lib ''operation'' ''stop_tunnel'' ''tunnel'' tid [(''name'', tg_Name tc)] (clearError a))))"

definition StopTunnel :: "AppLib \<Rightarrow> string \<Rightarrow> DesktopApp \<Rightarrow> app_error option \<times> DesktopApp" where
  "StopTunnel lib tid a =
     (case read_tunnel lib tid a of
        (Inl e, a) \<Rightarrow> (Some e, a)
      | (Inr tc, a) \<Rightarrow> stop_locked lib tid tc a)"

definition safeTunnelName :: "TunnelConfig option \<Rightarrow> string" where
  "safeTunnelName tc = (case tc of None \<Rightarrow> ''unknown'' | Some tc \<Rightarrow> if trim_space (tg_Name tc) = [] then ''unknown'' else tg_Name tc)"

text \<open>Deleting ignores an error of reading the configuration and one of the manager.\<close>

definition DeleteTunnel :: "AppLib \<Rightarrow> string \<Rightarrow> DesktopApp \<Rightarrow> app_error option \<times> DesktopApp" where
  "DeleteTunnel lib tid a =
     (let (r, a) = on_db (cs_Get tid) a;
          tc = (case r of Inl _ \<Rightarrow> None | Inr tc \<Rightarrow> tc);
          a = (case (tc, cur_manager a) of
                 (Some tc, Some m) \<Rightarrow> put_manager (snd (RemoveTunnel (al_client lib) (tg_Name tc) m)) a
               | _ \<Rightarrow> a) in
      case on_db (cs_Delete tid) a of
        (Some e, a) \<Rightarrow> fails lib (AConfig e) a
      | (None, a) \<Rightarrow> (None, logged lib ''operation'' ''delete_tunnel'' ''tunnel'' tid [(''name'', safeTunnelName tc)] (clearError a)))"

section \<open>Settings\<close>

definition settingOrDefault :: "string \<Rightarrow> string \<Rightarrow> DesktopApp \<Rightarrow> string \<times> DesktopApp" where
  "settingOrDefault k fallback a =
     (case on_db (cs_GetSetting k) a of
        (Inl e, a) \<Rightarrow> (fallback, a)
      | (Inr v, a) \<Rightarrow> (if trim_space v = [] then fallback else v, a))"

definition loadServerNodes :: "AppLib \<Rightarrow> ServerSettings \<Rightarrow> DesktopApp \<Rightarrow> ServerNodeSettings list \<times> DesktopApp" where
  "loadServerNodes lib legacy a =
     (case on_db (cs_GetSetting ''server_nodes'') a of (r, a) \<Rightarrow>
        let stored = (case r of
              Inl e \<Rightarrow> None
            | Inr raw \<Rightarrow>
                if trim_space raw = [] then None
                else (case al_decode_nodes lib raw of
                        None \<Rightarrow> None
                      | Some nodes \<Rightarrow> (case normalizeServerNodes (al_url lib) nodes legacy of Inl e \<Rightarrow> None | Inr ns \<Rightarrow> if ns = [] then None else Some ns))) in
        (case stored of
           Some ns \<Rightarrow> ns
         | None \<Rightarrow> (case normalizeServerNode (al_url lib) (node_of_settings defaultServerNodeID legacy) of
             Inl e \<Rightarrow> [defaultServerNode]
           | Inr n \<Rightarrow> [n]), a))"

definition GetServerSettings :: "AppLib \<Rightarrow> DesktopApp \<Rightarrow> ServerSettings \<times> DesktopApp" where
  "GetServerSettings lib a =
     (let (relayAddr, a) = settingOrDefault ''relay_addr'' defaultRelayAddr a;
          (relayToken, a) = settingOrDefault ''relay_token'' [] a;
          (controlURL, a) = settingOrDefault ''control_plane_url'' [] a;
          (controlToken, a) = settingOrDefault ''control_plane_token'' [] a;
          (stun, a) = settingOrDefault ''stun_server'' defaultSTUNServer a;
          (stunAlt, a) = settingOrDefault ''stun_alt_server'' defaultSTUNServer a;
          legacy = \<lparr>ss_RelayAddr = relayAddr, ss_RelayToken = relayToken, ss_ControlPlaneURL = controlURL, ss_ControlPlaneToken = controlToken,
            ss_STUNServer = stun, ss_STUNAltServer = stunAlt, ss_ActiveNodeID = [], ss_Nodes = []\<rparr>;
          (nodes, a) = loadServerNodes lib legacy a;
          (activeNodeID, a) = settingOrDefault ''active_server_node_id'' [] a in
      (settings_of_node (selectActiveServerNode nodes activeNodeID) nodes, a))"

definition settings_values :: "AppLib \<Rightarrow> ServerSettings \<Rightarrow> (string \<times> string) list" where
  "settings_values lib s =
     [(''relay_addr'', ss_RelayAddr s), (''relay_token'', ss_RelayToken s), (''control_plane_url'', ss_ControlPlaneURL s),
      (''control_plane_token'', ss_ControlPlaneToken s), (''stun_server'', ss_STUNServer s), (''stun_alt_server'', ss_STUNAltServer s),
      (''active_server_node_id'', ss_ActiveNodeID s), (''server_nodes'', al_encode_nodes lib (ss_Nodes s))]"

definition SaveServerSettings :: "AppLib \<Rightarrow> ServerSettings \<Rightarrow> DesktopApp \<Rightarrow> app_error option \<times> DesktopApp" where
  "SaveServerSettings lib settings a =
     (case normalizeServerSettings (al_url lib) settings of
        Inl e \<Rightarrow> fails lib (ASettings e) a
      | Inr s \<Rightarrow>
          (case on_db (cs_SetSettings (settings_values lib s)) a of
             (Some e, a) \<Rightarrow> fails lib (AConfig e) a
           | (None, a) \<Rightarrow>
               (None, logged lib ''security'' ''save_settings'' ''settings'' []
                  [(''relay_addr'', ss_RelayAddr s), (''control_plane_configured'', bool_str (trim_space (ss_ControlPlaneURL s) \<noteq> [])),
                   (''relay_token_configured'', bool_str (trim_space (ss_RelayToken s) \<noteq> [])), (''stun_server'', ss_STUNServer s),
                   (''active_node_id'', ss_ActiveNodeID s)] (clearError a))))"

section \<open>The connection\<close>

text \<open>Errors of reading and writing the identifier are dropped.\<close>

definition getOrCreateClientID :: "AppLib \<Rightarrow> DesktopApp \<Rightarrow> string \<times> DesktopApp" where
  "getOrCreateClientID lib a =
     (case on_db (cs_GetSetting ''client_id'') a of (r, a) \<Rightarrow>
        let stored = (case r of Inl e \<Rightarrow> [] | Inr i \<Rightarrow> i) in
        if stored = [] then (case new_uuid lib a of (i, a) \<Rightarrow> (i, snd (on_db (cs_SetSetting ''client_id'' i) a)))
        else (stored, a))"

definition managerConfig :: "AppLib \<Rightarrow> DesktopApp \<Rightarrow> TunnelClientConfig \<times> DesktopApp" where
  "managerConfig lib a =
     (let (i, a) = getOrCreateClientID lib a;
          (s, a) = GetServerSettings lib a;
          cfg = DefaultClientConfig\<lparr>tc_ClientID := i, tc_ServerAddr := ss_RelayAddr s, tc_AuthToken := ss_RelayToken s\<rparr>;
          (r, a) = on_db cs_List a in
      case r of
        Inl e \<Rightarrow> (cfg, a)
      | Inr cs \<Rightarrow> (cfg\<lparr>tc_Tunnels := map tunnelDefFromConfig (filter (\<lambda>c. isPersistedTunnelEnabled (tg_Status c)) cs)\<rparr>, a))"

text \<open>
  A new manager and the goroutine that runs it; the cancel function belongs to its context. A manager that was
  there before is no longer referred to.
\<close>

definition launch :: "Manager \<Rightarrow> DesktopApp \<Rightarrow> DesktopApp" where
  "launch m a = (let i = length (ap_managers a) in
     a\<lparr>ap_managers := ap_managers a @ [m], ap_manager := Some i, ap_cancel := Some i, ap_running := i # ap_running a\<rparr>)"

definition ConnectServer :: "AppLib \<Rightarrow> string \<Rightarrow> string \<Rightarrow> DesktopApp \<Rightarrow> app_error option \<times> DesktopApp" where
  "ConnectServer lib serverAddr authToken a =
     (if app_connected a then (None, a)
      else if trim_space serverAddr = [] then fails lib AServerAddrRequired a
      else
        let (settings, a) = GetServerSettings lib a in
        case SaveServerSettings lib (settings\<lparr>ss_RelayAddr := serverAddr, ss_RelayToken := authToken\<rparr>) a of
          (Some e, a) \<Rightarrow> fails lib e a
        | (None, a) \<Rightarrow>
            let (cfg, a) = managerConfig lib a;
                cfg = cfg\<lparr>tc_ServerAddr := serverAddr, tc_AuthToken := authToken\<rparr>;
                (uuid, a) = new_uuid lib a;
                a = launch (NewManager uuid cfg) a in
            (None, logged lib ''operation'' ''connect_server'' ''server'' serverAddr
               [(''server_addr'', serverAddr), (''has_token'', bool_str (trim_space authToken \<noteq> []))] (clearError a)))"

definition cancel_manager :: "nat \<Rightarrow> DesktopApp \<Rightarrow> DesktopApp" where
  "cancel_manager i a = a\<lparr>ap_managers := (ap_managers a)[i := (ap_managers a ! i)\<lparr>mn_cancelled := True\<rparr>]\<rparr>"

definition DisconnectServer :: "AppLib \<Rightarrow> DesktopApp \<Rightarrow> DesktopApp" where
  "DisconnectServer lib a =
     (let a = (case ap_cancel a of None \<Rightarrow> a | Some i \<Rightarrow> (cancel_manager i a)\<lparr>ap_cancel := None\<rparr>);
          a = (case cur_manager a of None \<Rightarrow> a | Some m \<Rightarrow> put_manager (mn_Stop m) a) in
      logged lib ''operation'' ''disconnect_server'' ''server'' [] [] (clearError a))"

section \<open>Publishing\<close>

record PublishEndpointInput =
  pe_Name :: string
  pe_HTTPPort :: int
  pe_LocalAddr :: string
  pe_Subdomain :: string
  pe_Domain :: string
  pe_AuthMode :: string
  pe_HostHeader :: string
  pe_AccessPolicyID :: string
  pe_InspectEnabled :: bool
  pe_ExpiresAt :: string

record PublishEndpointInfo =
  po_Tunnel :: TunnelInfo
  po_PublicURL :: string
  po_Started :: bool

abbreviation publishEndpointResolveAttempts :: nat where "publishEndpointResolveAttempts \<equiv> 20"

text \<open>The wait for the public address; what happens between two attempts is an argument.\<close>

fun resolve_endpoint ::
    "string list \<Rightarrow> (nat \<Rightarrow> DesktopApp \<Rightarrow> DesktopApp) \<Rightarrow> nat \<Rightarrow> TunnelInfo \<Rightarrow> DesktopApp \<Rightarrow> TunnelInfo \<times> DesktopApp" where
  "resolve_endpoint ks env 0 info a = (info, a)"
| "resolve_endpoint ks env (Suc n) info a =
     (case GetTunnels ks a of (r, a) \<Rightarrow>
        let info = (case r of Inl e \<Rightarrow> info
              | Inr infos \<Rightarrow> (case find (\<lambda>t. tg_ID (ti_config t) = tg_ID (ti_config info)) infos of None \<Rightarrow> info | Some t \<Rightarrow> t)) in
        if tg_PublicURL (ti_config info) \<noteq> [] \<or> n = 0 then (info, a)
        else resolve_endpoint ks env n info (env n a))"

definition publish_domain :: "PublishEndpointInput \<Rightarrow> string" where
  "publish_domain i = (let d = trim_space (pe_Domain i) in if d = [] then trim_space (pe_Subdomain i) else d)"

definition publish_input :: "PublishEndpointInput \<Rightarrow> string \<Rightarrow> CreateTunnelInput" where
  "publish_input i authMode =
     (let localAddr = trim_space (pe_LocalAddr i);
          domain = publish_domain i;
          name = trim_space (pe_Name i);
          policy = trim_space (pe_AccessPolicyID i) in
      \<lparr>ct_Name = (if name = [] then ''http-'' @ map (\<lambda>c. if c = CHR ''.'' \<or> c = CHR ''_'' then CHR ''-'' else c) domain else name),
       ct_ProxyType = ''http'', ct_LocalAddr = (if localAddr = [] then ''127.0.0.1'' else localAddr), ct_LocalPort = pe_HTTPPort i,
       ct_RemotePort = 0, ct_Domain = domain, ct_HostHeader = pe_HostHeader i, ct_PublicURL = [],
       ct_AccessPolicyID = (if policy = [] \<and> authMode \<noteq> ''none'' then authMode else policy),
       ct_InspectEnabled = pe_InspectEnabled i, ct_ExpiresAt = pe_ExpiresAt i\<rparr>)"

definition PublishEndpoint ::
    "AppLib \<Rightarrow> string list \<Rightarrow> (nat \<Rightarrow> DesktopApp \<Rightarrow> DesktopApp) \<Rightarrow> PublishEndpointInput \<Rightarrow> DesktopApp
     \<Rightarrow> (app_error + PublishEndpointInfo) \<times> DesktopApp" where
  "PublishEndpoint lib ks env i a =
     (let domain = publish_domain i in
      if domain = [] then (Inl (AInput input_error.DomainRequired), a)
      else (case normalizePublishEndpointAuthMode (pe_AuthMode i) of
        Inl e \<Rightarrow> (Inl (AInput e), recordError lib (AInput e) a)
      | Inr authMode \<Rightarrow>
          (case CreateTunnel lib (publish_input i authMode) a of
             (Inl e, a) \<Rightarrow> (Inl e, a)
           | (Inr info, a) \<Rightarrow>
               (case (if app_connected a then
                        (case StartTunnel lib (tg_ID (ti_config info)) a of
                           (Some e, a) \<Rightarrow> (Inl e, a)
                         | (None, a) \<Rightarrow> (case resolve_endpoint ks env publishEndpointResolveAttempts info a of (info, a) \<Rightarrow> (Inr (True, info), a)))
                      else (Inr (False, info), a)) of
                  (Inl e, a) \<Rightarrow> (Inl e, a)
                | (Inr (started, info), a) \<Rightarrow>
                    let url = tg_PublicURL (ti_config info);
                        url = (if url = [] \<and> CHR ''.'' \<in> set domain then ''http://'' @ domain else url) in
                    (Inr \<lparr>po_Tunnel = info, po_PublicURL = url, po_Started = started\<rparr>, a)))))"

section \<open>Favourite ports\<close>

record FavoritePortInput =
  fi_ID :: string
  fi_Name :: string
  fi_Category :: string
  fi_Port :: int
  fi_Protocol :: string
  fi_Description :: string
  fi_Enabled :: bool

definition favoritePortFromInput :: "string \<Rightarrow> FavoritePortInput \<Rightarrow> input_error + FavoritePort" where
  "favoritePortFromInput uuid i =
     (let name = trim_space (fi_Name i);
          protocol = to_lower (trim_space (fi_Protocol i));
          protocol = (if protocol = [] then ''tcp'' else protocol);
          category = trim_space (fi_Category i);
          tid = trim_space (fi_ID i) in
      if name = [] then Inl PortNameRequired
      else if fi_Port i \<le> 0 \<or> fi_Port i > 65535 then Inl PortRange
      else if protocol \<noteq> ''tcp'' then Inl (PortProtocolUnsupported protocol)
      else Inr \<lparr>fp_ID = (if tid = [] then uuid else tid), fp_Name = name, fp_Category = (if category = [] then ''custom'' else category),
        fp_Port = fi_Port i, fp_Protocol = protocol, fp_Description = trim_space (fi_Description i), fp_Enabled = fi_Enabled i,
        fp_Builtin = False, fp_CreatedAt = 0, fp_UpdatedAt = 0\<rparr>)"

text \<open>The presets; their descriptions are texts given by \<open>al_tx\<close>.\<close>

definition preset_ports :: "(string \<times> string \<times> string \<times> int \<times> bool) list" where
  "preset_ports =
     [(''builtin-dev-nextjs-3000'', ''Next.js / Node'', ''development'', 3000, True),
      (''builtin-dev-react-3001'', ''React Alternate'', ''development'', 3001, True),
      (''builtin-dev-vite-5173'', ''Vite'', ''development'', 5173, True),
      (''builtin-dev-vite-alt-5174'', ''Vite Alternate'', ''development'', 5174, True),
      (''builtin-dev-laravel-8000'', ''Laravel / Python'', ''development'', 8000, True),
      (''builtin-dev-spring-8080'', ''Spring / Web'', ''development'', 8080, True),
      (''builtin-dev-alt-8081'', ''Web Alternate'', ''development'', 8081, True),
      (''builtin-service-http-80'', ''HTTP'', ''service'', 80, False),
      (''builtin-service-https-443'', ''HTTPS'', ''service'', 443, False),
      (''builtin-service-ssh-22'', ''SSH'', ''remote'', 22, False),
      (''builtin-service-rdp-3389'', ''Remote Desktop'', ''remote'', 3389, False),
      (''builtin-db-mysql-3306'', ''MySQL'', ''database'', 3306, True),
      (''builtin-db-postgres-5432'', ''PostgreSQL'', ''database'', 5432, True),
      (''builtin-db-redis-6379'', ''Redis'', ''database'', 6379, True),
      (''builtin-db-mongodb-27017'', ''MongoDB'', ''database'', 27017, True),
      (''builtin-db-elasticsearch-9200'', ''Elasticsearch'', ''database'', 9200, True),
      (''builtin-panel-docker-2375'', ''Docker API'', ''software'', 2375, False),
      (''builtin-panel-minio-9000'', ''MinIO'', ''software'', 9000, True),
      (''builtin-panel-prometheus-9090'', ''Prometheus'', ''software'', 9090, True),
      (''builtin-game-minecraft-25565'', ''Minecraft Java'', ''game'', 25565, True),
      (''builtin-game-terraria-7777'', ''Terraria'', ''game'', 7777, True),
      (''builtin-game-source-27015'', ''Steam / Source'', ''game'', 27015, True),
      (''builtin-game-palworld-8211'', ''Palworld'', ''game'', 8211, True)]"

definition defaultFavoritePorts :: "AppLib \<Rightarrow> FavoritePort list" where
  "defaultFavoritePorts lib = map (\<lambda>(i, n, c, p, e).
     \<lparr>fp_ID = i, fp_Name = n, fp_Category = c, fp_Port = p, fp_Protocol = ''tcp'', fp_Description = al_tx lib i, fp_Enabled = e,
      fp_Builtin = True, fp_CreatedAt = 0, fp_UpdatedAt = 0\<rparr>) preset_ports"

fun upsert_ports :: "FavoritePort list \<Rightarrow> DesktopApp \<Rightarrow> app_error option \<times> DesktopApp" where
  "upsert_ports [] a = (None, a)"
| "upsert_ports (p # ps) a =
     (case on_db (cs_UpsertFavoritePort p) a of
        (Some e, a) \<Rightarrow> (Some (AConfig e), a)
      | (None, a) \<Rightarrow> upsert_ports ps a)"

definition ensureDefaultFavoritePorts :: "AppLib \<Rightarrow> DesktopApp \<Rightarrow> app_error option \<times> DesktopApp" where
  "ensureDefaultFavoritePorts lib a =
     (case on_db (cs_GetSetting ''favorite_ports_seeded'') a of
        (Inl e, a) \<Rightarrow> (Some (AConfig e), a)
      | (Inr seeded, a) \<Rightarrow>
          if seeded = ''true'' then (None, a)
          else (case upsert_ports (defaultFavoritePorts lib) a of
            (Some e, a) \<Rightarrow> (Some e, a)
          | (None, a) \<Rightarrow> (case on_db (cs_SetSetting ''favorite_ports_seeded'' ''true'') a of (e, a) \<Rightarrow> (map_option AConfig e, a))))"

definition app_ListFavoritePorts :: "AppLib \<Rightarrow> DesktopApp \<Rightarrow> (app_error + FavoritePort list) \<times> DesktopApp" where
  "app_ListFavoritePorts lib a =
     (case ensureDefaultFavoritePorts lib a of
        (Some e, a) \<Rightarrow> (Inl e, recordError lib e a)
      | (None, a) \<Rightarrow>
          (case on_db cs_ListFavoritePorts a of
             (Inl e, a) \<Rightarrow> (Inl (AConfig e), recordError lib (AConfig e) a)
           | (Inr ports, a) \<Rightarrow> (Inr ports, clearError a)))"

definition SaveFavoritePort :: "AppLib \<Rightarrow> FavoritePortInput \<Rightarrow> DesktopApp \<Rightarrow> (app_error + FavoritePort) \<times> DesktopApp" where
  "SaveFavoritePort lib i a =
     (case new_uuid lib a of (uuid, a) \<Rightarrow>
        (case favoritePortFromInput uuid i of
           Inl e \<Rightarrow> (Inl (AInput e), recordError lib (AInput e) a)
         | Inr p \<Rightarrow>
             (case on_db (cs_UpsertFavoritePort p) a of
                (Some e, a) \<Rightarrow> (Inl (AConfig e), recordError lib (AConfig e) a)
              | (None, a) \<Rightarrow>
                  (Inr p, logged lib ''operation'' ''save_favorite_port'' ''port'' (fp_ID p)
                     [(''name'', fp_Name p), (''category'', fp_Category p), (''port'', int_str (fp_Port p)), (''enabled'', bool_str (fp_Enabled p))]
                     (clearError a)))))"

definition DeleteFavoritePort :: "AppLib \<Rightarrow> string \<Rightarrow> DesktopApp \<Rightarrow> app_error option \<times> DesktopApp" where
  "DeleteFavoritePort lib tid a =
     (if trim_space tid = [] then fails lib (AInput PortIDRequired) a
      else (case on_db (cs_DeleteFavoritePort tid) a of
        (Some e, a) \<Rightarrow> fails lib (AConfig e) a
      | (None, a) \<Rightarrow> (None, logged lib ''operation'' ''delete_favorite_port'' ''port'' tid [] (clearError a))))"

section \<open>Scans and the log\<close>

record LocalPortScanResult =
  lp_Port :: int
  lp_Open :: bool
  lp_Name :: string
  lp_Category :: string
  lp_Description :: string

definition scan_less :: "LocalPortScanResult \<Rightarrow> LocalPortScanResult \<Rightarrow> bool" where
  "scan_less x y = (if lp_Open x \<noteq> lp_Open y then lp_Open x else lp_Port x < lp_Port y)"

definition countOpenScanResults :: "LocalPortScanResult list \<Rightarrow> nat" where
  "countOpenScanResults rs = length (filter lp_Open rs)"

definition favoritePortsForScan :: "AppLib \<Rightarrow> DesktopApp \<Rightarrow> (app_error + FavoritePort list) \<times> DesktopApp" where
  "favoritePortsForScan lib a =
     (case app_ListFavoritePorts lib a of
        (Inl e, a) \<Rightarrow> (Inl e, a)
      | (Inr ports, a) \<Rightarrow> (Inr (filter fp_Enabled ports), a))"

text \<open>The result of a port, with the last favourite of that port; \<open>dial\<close> says whether it is open.\<close>

definition scan_port :: "(string \<Rightarrow> int \<Rightarrow> duration \<Rightarrow> bool) \<Rightarrow> string \<Rightarrow> duration \<Rightarrow> FavoritePort list \<Rightarrow> int \<Rightarrow> LocalPortScanResult" where
  "scan_port dial host timeout favs p =
     (let f = find (\<lambda>q. fp_Port q = p) (rev favs) in
      \<lparr>lp_Port = p, lp_Open = dial host p timeout, lp_Name = (case f of None \<Rightarrow> [] | Some q \<Rightarrow> fp_Name q),
       lp_Category = (case f of None \<Rightarrow> [] | Some q \<Rightarrow> fp_Category q), lp_Description = (case f of None \<Rightarrow> [] | Some q \<Rightarrow> fp_Description q)\<rparr>)"

definition ScanLocalPorts ::
    "AppLib \<Rightarrow> (string \<Rightarrow> int \<Rightarrow> duration \<Rightarrow> bool) \<Rightarrow> string \<Rightarrow> int list \<Rightarrow> int \<Rightarrow> DesktopApp \<Rightarrow> (app_error + LocalPortScanResult list) \<times> DesktopApp" where
  "ScanLocalPorts lib dial rawHost inputPorts timeoutMS a =
     (case normalizeLocalScanHost rawHost of
        Inl e \<Rightarrow> (Inl (AInput e), recordError lib (AInput e) a)
      | Inr host \<Rightarrow>
          (case favoritePortsForScan lib a of
             (Inl e, a) \<Rightarrow> (Inl e, recordError lib e a)
           | (Inr favs, a) \<Rightarrow>
               (case normalizeScanPorts inputPorts (map fp_Port favs) of
                  Inl e \<Rightarrow> (Inl (AInput e), recordError lib (AInput e) a)
                | Inr ports \<Rightarrow>
                    let results = sort_slice scan_less (map (scan_port dial host (normalizeScanTimeout timeoutMS) favs) ports) in
                    (Inr results, logged lib ''security'' ''scan_local_ports'' ''port'' []
                       [(''host'', host), (''port_count'', int_str (int (length results))), (''open_count'', int_str (int (countOpenScanResults results)))]
                       (clearError a)))))"

definition app_ListActivityLogs :: "AppLib \<Rightarrow> ActivityLogFilter \<Rightarrow> DesktopApp \<Rightarrow> (app_error + ActivityLog list) \<times> DesktopApp" where
  "app_ListActivityLogs lib f a =
     (case on_db (cs_ListActivityLogs (al_unmarshal lib) (f\<lparr>lf_Level := trim_space (lf_Level f), lf_Category := trim_space (lf_Category f)\<rparr>)) a of
        (Inl e, a) \<Rightarrow> (Inl (AConfig e), recordError lib (AConfig e) a)
      | (Inr ls, a) \<Rightarrow> (Inr ls, a))"

definition ClearActivityLogs :: "AppLib \<Rightarrow> DesktopApp \<Rightarrow> app_error option \<times> DesktopApp" where
  "ClearActivityLogs lib a =
     (case on_db cs_ClearActivityLogs a of
        (Some e, a) \<Rightarrow> fails lib (AConfig e) a
      | (None, a) \<Rightarrow> (None, appendActivityLog lib
          \<lparr>ay_Level = ''warning'', ay_Category = ''operation'', ay_Action = ''clear_activity_logs'', ay_TargetType = ''activity_log'',
           ay_TargetID = [], ay_Title = al_tx lib ''clear_activity_logs'', ay_Message = al_tx lib ''clear_activity_logs'', ay_Metadata = []\<rparr> a))"

definition GetTrafficStats :: "string list \<Rightarrow> DesktopApp \<Rightarrow> 64 word \<times> 64 word \<times> nat" where
  "GetTrafficStats ks a =
     (let s = tunnel_status ks a in (sum_list (map pi_BytesIn s), sum_list (map pi_BytesOut s), length s))"

text \<open>The start of the application: a manager from the configuration, which runs only once \<open>ConnectServer\<close> makes another.\<close>

definition app_startup :: "AppLib \<Rightarrow> bool \<Rightarrow> ConfigDB \<Rightarrow> DesktopApp" where
  "app_startup lib p2p db =
     (let a = \<lparr>ap_db = db, ap_managers = [], ap_manager = None, ap_cancel = None, ap_running = [], ap_p2p = p2p, ap_lastErr = None, ap_uuids = 0\<rparr>;
          (cfg, a) = managerConfig lib a;
          (uuid, a) = new_uuid lib a in
      a\<lparr>ap_managers := [NewManager uuid cfg], ap_manager := Some 0\<rparr>)"

end
