(* ===== verification/Desktop_Run.thy ===== *)
theory Desktop_Run
  imports Desktop_Props
begin

text \<open>
  Runs of the desktop application: its calls one after the other, with the events of the managers in between,
  on an engine that answers. A tunnel that the manager holds is always a stored one; a manager that
  \<open>ConnectServer\<close> has replaced is never stopped; and two calls that overlap break the first property.
\<close>

section \<open>The invariant\<close>

definition stored_names :: "DesktopApp \<Rightarrow> string set" where
  "stored_names a = tg_Name ` set (db_tunnels (ap_db a))"

definition app_ok :: "DesktopApp \<Rightarrow> bool" where
  "app_ok a \<longleftrightarrow> en_faults (ap_db a) = [] \<and> config_inv (ap_db a) \<and> (\<forall>i. ap_manager a = Some i \<longrightarrow> i < length (ap_managers a))
     \<and> (\<forall>m n. cur_manager a = Some m \<longrightarrow> HasTunnel n m \<longrightarrow> n \<in> stored_names a)"

text \<open>A manager that neither the application nor its cancel function refers to.\<close>

definition orphaned :: "nat \<Rightarrow> DesktopApp \<Rightarrow> bool" where
  "orphaned i a \<longleftrightarrow> i < length (ap_managers a) \<and> ap_manager a \<noteq> Some i \<and> ap_cancel a \<noteq> Some i"

definition moves :: "DesktopApp \<Rightarrow> DesktopApp \<Rightarrow> bool" where
  "moves a b \<longleftrightarrow> (app_ok a \<longrightarrow> app_ok b \<and> (\<forall>i. orphaned i a \<longrightarrow>
     orphaned i b \<and> ap_managers b ! i = ap_managers a ! i \<and> (i \<in> set (ap_running b) \<longleftrightarrow> i \<in> set (ap_running a))))"

lemma moves_refl [simp]: "moves a a"
  by (simp add: moves_def)

lemma moves_trans: "moves a b \<Longrightarrow> moves b c \<Longrightarrow> moves a c"
  by (simp add: moves_def)

lemma moves_same:
  assumes "same_state a b" and "same_tables (ap_db a) (ap_db b)"
  shows "moves a b"
  using assms by (simp add: moves_def app_ok_def orphaned_def same_state_def same_tables_def cur_manager_def stored_names_def)

lemma moves_error [simp]: "moves a (recordError lib e a)"
  using error_same moves_same by blast

lemma moves_logged [simp]: "moves a (logged lib c k t i md (clearError a))" "moves a (logged lib c k t i md a)"
  using logged_same logged_same' moves_same by blast+

lemma moves_append [simp]: "moves a (appendActivityLog lib e a)"
  using log_same moves_same by blast

lemma moves_clear [simp]: "moves a (clearError a)"
  by (rule moves_same) (simp_all add: clearError_def same_state_def)

lemma moves_uuid [simp]: "moves a (snd (new_uuid lib a))"
  by (rule moves_same) (simp_all add: new_uuid_def same_state_def)

text \<open>Calls of the store that leave the names of the tunnels.\<close>

definition keeps_names :: "(ConfigDB \<Rightarrow> 'a \<times> ConfigDB) \<Rightarrow> bool" where
  "keeps_names f \<longleftrightarrow> (\<forall>d. en_faults d = [] \<longrightarrow> config_inv d \<longrightarrow>
     en_faults (snd (f d)) = [] \<and> config_inv (snd (f d)) \<and> tg_Name ` set (db_tunnels (snd (f d))) \<supseteq> tg_Name ` set (db_tunnels d))"

lemma moves_db:
  assumes "keeps_names f" and "on_db f a = (r, b)"
  shows "moves a b"
proof -
  have b: "b = a\<lparr>ap_db := snd (f (ap_db a))\<rparr>" using assms(2) by (simp add: on_db_def split: prod.splits)
  show ?thesis using assms(1) unfolding b
    by (fastforce simp: moves_def app_ok_def orphaned_def keeps_names_def cur_manager_def stored_names_def)
qed

lemma exec_faults:
  assumes "en_faults d = []" and "\<And>d d'. f d = Some d' \<Longrightarrow> en_faults d' = en_faults d"
  shows "en_faults (snd (exec_stmt w f d)) = []"
  using assms by (auto simp: exec_stmt_def split: option.splits)

lemma keepsI:
  assumes "\<And>d. config_inv d \<Longrightarrow> config_inv (snd (f d))"
    and "\<And>d. en_faults d = [] \<Longrightarrow> en_faults (snd (f d)) = [] \<and> tg_Name ` set (db_tunnels d) \<subseteq> tg_Name ` set (db_tunnels (snd (f d)))"
  shows "keeps_names f"
  using assms by (simp add: keeps_names_def)

lemma keeps_query: "keeps_names (query_stmt w f)"
  by (simp add: keeps_names_def query_stmt_def)

lemma update_names:
  assumes "sql_update clash p f rows = Some (rows', n)" and "\<And>q. tg_Name (f q) = tg_Name q"
  shows "tg_Name ` set rows' = tg_Name ` set rows"
proof -
  have "rows' = map (\<lambda>q. if p q then f q else q) rows" using assms(1) by (simp add: sql_update_def Let_def split: if_splits)
  moreover have "map (tg_Name \<circ> (\<lambda>q. if p q then f q else q)) rows = map tg_Name rows" using assms(2) by simp
  ultimately have "map tg_Name rows' = map tg_Name rows" by simp
  then show ?thesis by (metis set_map)
qed

lemma keeps_create: "keeps_names (cs_Create tc)"
  by (rule keepsI [OF config_step_inv [OF config_step.create]])
    (auto simp: cs_Create_def exec_stmt_def sql_insert_def)

lemma exec_update:
  assumes "en_faults d = []" and "\<And>q. tg_Name (f q) = tg_Name q"
  shows "en_faults (snd (exec_stmt w (\<lambda>d. map_option (\<lambda>(rows, n). d\<lparr>db_tunnels := rows\<rparr>) (sql_update tunnel_clash p f (db_tunnels d))) d)) = []
    \<and> tg_Name ` set (db_tunnels (snd (exec_stmt w
        (\<lambda>d. map_option (\<lambda>(rows, n). d\<lparr>db_tunnels := rows\<rparr>) (sql_update tunnel_clash p f (db_tunnels d))) d))) = tg_Name ` set (db_tunnels d)"
proof (cases "sql_update tunnel_clash p f (db_tunnels d)")
  case (Some r)
  obtain rows n where r: "r = (rows, n)" by fastforce
  show ?thesis using assms(1) Some update_names [OF Some [unfolded r] assms(2)] by (simp add: exec_stmt_def r)
qed (use assms(1) in \<open>simp add: exec_stmt_def\<close>)

lemma status_names:
  assumes "en_faults d = []"
  shows "en_faults (snd (cs_UpdateStatus i st d)) = []
    \<and> tg_Name ` set (db_tunnels (snd (cs_UpdateStatus i st d))) = tg_Name ` set (db_tunnels d)"
proof -
  have e: "cs_UpdateStatus i st d = exec_stmt ''update status'' (\<lambda>e. map_option (\<lambda>(rows, n). e\<lparr>db_tunnels := rows\<rparr>)
      (sql_update tunnel_clash (\<lambda>q. tg_ID q = i) (\<lambda>q. q\<lparr>tg_Status := st, tg_UpdatedAt := current_timestamp d\<rparr>) (db_tunnels e))) d"
    using assms by (simp add: cs_UpdateStatus_def exec_stmt_def)
  show ?thesis unfolding e by (rule exec_update [OF assms]) simp
qed

lemma keeps_status: "keeps_names (cs_UpdateStatus i st)"
proof (rule keepsI [OF config_step_inv [OF config_step.status]])
  fix d :: ConfigDB
  assume f: "en_faults d = []"
  show "en_faults (snd (cs_UpdateStatus i st d)) = []
      \<and> tg_Name ` set (db_tunnels d) \<subseteq> tg_Name ` set (db_tunnels (snd (cs_UpdateStatus i st d)))"
    using status_names [OF f, of i st] by simp
qed

lemma keeps_endpoint: "keeps_names (cs_UpdateRuntimeEndpointFields i p u)"
proof (rule keepsI [OF config_step_inv [OF config_step.endpoint]])
  fix d :: ConfigDB
  assume f: "en_faults d = []"
  have e: "cs_UpdateRuntimeEndpointFields i p u d = exec_stmt ''update endpoint fields'' (\<lambda>e. map_option (\<lambda>(rows, n). e\<lparr>db_tunnels := rows\<rparr>)
      (sql_update tunnel_clash (\<lambda>q. tg_ID q = i)
        (\<lambda>q. q\<lparr>tg_RemotePort := p, tg_PublicURL := u, tg_UpdatedAt := current_timestamp d\<rparr>) (db_tunnels e))) d"
    using f by (simp add: cs_UpdateRuntimeEndpointFields_def exec_stmt_def)
  show "en_faults (snd (cs_UpdateRuntimeEndpointFields i p u d)) = []
      \<and> tg_Name ` set (db_tunnels d) \<subseteq> tg_Name ` set (db_tunnels (snd (cs_UpdateRuntimeEndpointFields i p u d)))"
    unfolding e using exec_update [OF f, of "\<lambda>q. q\<lparr>tg_RemotePort := p, tg_PublicURL := u, tg_UpdatedAt := current_timestamp d\<rparr>"] by simp
qed

lemma keeps_setting: "keeps_names (cs_SetSetting k v)"
  by (rule keepsI [OF config_step_inv [OF config_step.setting]]) (auto simp: cs_SetSetting_def exec_stmt_def put_setting_def)

lemma save_settings_free: "en_faults d = [] \<Longrightarrow> fst (save_settings kvs d) = None \<and> en_faults (snd (save_settings kvs d)) = []"
  by (induction kvs arbitrary: d) (auto simp: exec_stmt_def put_setting_def)

lemma keeps_settings: "keeps_names (cs_SetSettings kvs)"
proof -
  have "en_faults (snd (cs_SetSettings kvs d)) = [] \<and> db_tunnels (snd (cs_SetSettings kvs d)) = db_tunnels d" if "en_faults d = []" for d
    using that save_settings_free [OF that, of kvs] save_settings_frame [of kvs d]
    by (auto simp: cs_SetSettings_def split: prod.splits option.splits)
  then show ?thesis using config_step_inv [OF config_step.settings] by (simp add: keeps_names_def)
qed

lemma keeps_port: "keeps_names (cs_UpsertFavoritePort p)"
  by (rule keepsI [OF config_step_inv [OF config_step.port]]) (auto simp: cs_UpsertFavoritePort_def exec_stmt_def split: option.split)

lemma keeps_port_delete: "keeps_names (cs_DeleteFavoritePort i)"
  by (rule keepsI [OF config_step_inv [OF config_step.port_delete]]) (auto simp: cs_DeleteFavoritePort_def sql_delete_def)

lemma keeps_clear: "keeps_names cs_ClearActivityLogs"
  by (rule keepsI [OF config_step_inv [OF config_step.clear]]) (auto simp: cs_ClearActivityLogs_def exec_stmt_def)

lemmas keeps = keeps_query keeps_create keeps_status keeps_endpoint keeps_setting keeps_settings keeps_port keeps_port_delete keeps_clear

lemma keeps_reads: "keeps_names (cs_Get i)" "keeps_names cs_List" "keeps_names (cs_GetSetting k)" "keeps_names cs_ListFavoritePorts"
  "keeps_names (cs_ListActivityLogs u f)"
  by (simp_all add: cs_Get_def cs_List_def cs_GetSetting_def cs_ListFavoritePorts_def cs_ListActivityLogs_def keeps_query)

section \<open>Changes of the manager\<close>

lemma moves_put:
  assumes "cur_manager a = Some m" and "\<And>n. HasTunnel n m' \<Longrightarrow> HasTunnel n m \<or> n \<in> stored_names a"
  shows "moves a (put_manager m' a)"
proof -
  obtain i where i: "ap_manager a = Some i" "m = ap_managers a ! i" using assms(1) by (auto simp: cur_manager_def)
  have p: "put_manager m' a = a\<lparr>ap_managers := (ap_managers a)[i := m']\<rparr>" by (simp add: put_manager_def i(1))
  show ?thesis unfolding p moves_def app_ok_def orphaned_def cur_manager_def stored_names_def
    using assms(2) i by (auto simp: stored_names_def)
qed

lemma moves_launch:
  assumes "\<And>n. HasTunnel n m \<Longrightarrow> n \<in> stored_names a"
  shows "moves a (launch m a)"
  using assms by (auto simp: moves_def Let_def app_ok_def orphaned_def launch_def cur_manager_def stored_names_def nth_append)

lemma moves_cancel:
  assumes "ap_cancel a = Some i"
  shows "moves a (cancel_manager i a)" "moves a ((cancel_manager i a)\<lparr>ap_cancel := None\<rparr>)"
proof -
  have h: "HasTunnel n ((xs[i := (xs ! i)\<lparr>mn_cancelled := True\<rparr>]) ! z) = HasTunnel n (xs ! z)" for n z and xs :: "Manager list"
    by (cases "i < length xs"; cases "i = z") (simp_all add: HasTunnel_def list_update_beyond)
  show "moves a (cancel_manager i a)" "moves a ((cancel_manager i a)\<lparr>ap_cancel := None\<rparr>)"
    using assms by (auto simp: moves_def app_ok_def orphaned_def cancel_manager_def cur_manager_def stored_names_def h)
qed

lemma has_add: "HasTunnel n (snd (AddTunnel lib d m)) \<Longrightarrow> HasTunnel n m \<or> n = td_Name d"
  by (auto simp: AddTunnel_def HasTunnel_def mn_send_def Let_def split: if_splits option.splits sum.splits prod.splits)

lemma has_remove: "HasTunnel n (snd (RemoveTunnel lib k m)) \<longleftrightarrow> HasTunnel n m \<and> n \<noteq> k"
  by (auto simp: RemoveTunnel_def HasTunnel_def mn_send_def Let_def split: if_splits option.splits sum.splits prod.splits)

lemma has_stop: "HasTunnel n (mn_Stop m) = HasTunnel n m"
  by (simp add: HasTunnel_def mn_Stop_def)

lemma has_new: "HasTunnel n (NewManager uuid cfg) \<longleftrightarrow> n \<in> td_Name ` set (tc_Tunnels cfg)"
proof -
  have "fmlookup (fold (\<lambda>d m. fmupd (td_Name d) (NewTunnel d) m) ds m) n \<noteq> None \<longleftrightarrow> n \<in> td_Name ` set ds \<or> fmlookup m n \<noteq> None" for ds m
    by (induction ds arbitrary: m) auto
  from this [of "tc_Tunnels cfg" fmempty] show ?thesis by (simp add: HasTunnel_def NewManager_def Let_def)
qed

section \<open>Calls\<close>

inductive app_call :: "AppLib \<Rightarrow> DesktopApp \<Rightarrow> DesktopApp \<Rightarrow> bool" for lib where
  create: "app_call lib a (snd (CreateTunnel lib i a))"
| update: "app_call lib a (snd (UpdateTunnel lib t i a))"
| start: "app_call lib a (snd (StartTunnel lib t a))"
| stop: "app_call lib a (snd (StopTunnel lib t a))"
| delete: "app_call lib a (snd (DeleteTunnel lib t a))"
| tunnels: "app_call lib a (snd (GetTunnels ks a))"
| save: "app_call lib a (snd (SaveServerSettings lib s a))"
| connect: "app_call lib a (snd (ConnectServer lib addr tok a))"
| disconnect: "app_call lib a (DisconnectServer lib a)"
| save_port: "app_call lib a (snd (SaveFavoritePort lib fi a))"
| delete_port: "app_call lib a (snd (DeleteFavoritePort lib t a))"
| list_ports: "app_call lib a (snd (app_ListFavoritePorts lib a))"
| scan: "app_call lib a (snd (ScanLocalPorts lib dial h ps ms a))"
| logs: "app_call lib a (snd (app_ListActivityLogs lib f a))"
| clear_logs: "app_call lib a (snd (ClearActivityLogs lib a))"

text \<open>What a manager does by itself: its tunnels stay, and it does not cancel its own context.\<close>

inductive app_event :: "DesktopApp \<Rightarrow> DesktopApp \<Rightarrow> bool" where
  manager: "fmdom (mn_tunnels m') = fmdom (mn_tunnels (ap_managers a ! j)) \<Longrightarrow> mn_cancelled m' = mn_cancelled (ap_managers a ! j)
    \<Longrightarrow> app_event a (a\<lparr>ap_managers := (ap_managers a)[j := m']\<rparr>)"
| p2p: "app_event a (a\<lparr>ap_p2p := b\<rparr>)"
| clock: "app_event a (a\<lparr>ap_db := (ap_db a)\<lparr>en_now := t\<rparr>\<rparr>)"

lemma moves_uuid': "new_uuid lib a = (u, b) \<Longrightarrow> moves a b"
  using moves_uuid [of a lib] by simp

lemma moves_create: "moves a (snd (CreateTunnel lib i a))"
proof (cases "validateCreateTunnelInput (al_parses_ip lib) i")
  case None
  obtain u a1 where u: "new_uuid lib a = (u, a1)" by fastforce
  obtain r a2 where r: "on_db (cs_Create (config_of_input i (blank_tunnel u))) a1 = (r, a2)" by fastforce
  have "moves a a2" using moves_trans [OF moves_uuid' [OF u] moves_db [OF keeps_create r]] .
  then show ?thesis using None u r by (cases r) (auto simp: CreateTunnel_def Let_def intro: moves_trans)
qed (simp add: CreateTunnel_def)

lemma moves_read: "read_tunnel lib t a = (r, b) \<Longrightarrow> moves a b"
proof -
  assume r: "read_tunnel lib t a = (r, b)"
  obtain q a1 where q: "on_db (cs_Get t) a = (q, a1)" by fastforce
  have "moves a a1" by (rule moves_db [OF keeps_reads(1) q])
  then show ?thesis using r q by (auto simp: read_tunnel_def split: sum.splits option.splits intro: moves_trans)
qed

lemma read_stored:
  assumes "read_tunnel lib t a = (Inr tc, b)" and "en_faults (ap_db a) = []"
  shows "b = a \<and> row_of tg_ID t (db_tunnels (ap_db a)) = Some tc \<and> tc \<in> set (db_tunnels (ap_db a)) \<and> tg_ID tc = t"
  using assms by (auto simp: read_tunnel_def on_db_def row_of_def find_Some_iff split: option.splits)

lemma moves_start: "moves a (snd (StartTunnel lib t a))"
proof (cases "app_ok a")
  case ok: True
  obtain r b where r: "read_tunnel lib t a = (r, b)" by fastforce
  show ?thesis
  proof (cases r)
    case (Inl e)
    then show ?thesis using r moves_read [OF r] by (simp add: StartTunnel_def)
  next
    case (Inr tc)
    have s: "b = a" "tg_Name tc \<in> stored_names a" using read_stored [of lib t a tc b] r Inr ok by (auto simp: app_ok_def stored_names_def)
    show ?thesis
    proof (cases "app_connected a")
      case False
      then show ?thesis using r Inr s by (simp add: StartTunnel_def start_locked_def fails_def)
    next
      case True
      then obtain m where m: "cur_manager a = Some m" by (auto simp: app_connected_def split: option.splits)
      obtain e m' where e: "(if HasTunnel (tg_Name tc) m then (None, m) else AddTunnel (al_client lib) (tunnelDefFromConfig tc) m) = (e, m')" by fastforce
      have "HasTunnel n m' \<Longrightarrow> HasTunnel n m \<or> n \<in> stored_names a" for n
        using has_add [of n "al_client lib" "tunnelDefFromConfig tc" m] e s(2) by (auto simp: tunnelDefFromConfig_def split: if_splits)
      then have p: "moves a (put_manager m' a)" using moves_put [OF m] by blast
      obtain q c where q: "on_db (cs_UpdateStatus t ''running'') (put_manager m' a) = (q, c)" by fastforce
      have c: "moves a c" using moves_trans [OF p moves_db [OF keeps_status q]] .
      have "snd (StartTunnel lib t a) \<in> {snd (fails lib x (put_manager m' a)) |x. True} \<union> {snd (fails lib x c) |x. True}
          \<union> {logged lib ''operation'' ''start_tunnel'' ''tunnel'' t md (clearError c) |md. True}"
        using r Inr s(1) True m e q by (cases e; cases q) (auto simp: StartTunnel_def start_locked_def Let_def)
      then show ?thesis using p c by (auto simp: fails_def intro: moves_trans)
    qed
  qed
qed (simp add: moves_def)

lemma moves_remove:
  assumes "cur_manager a = Some m"
  shows "moves a (put_manager (snd (RemoveTunnel lib n m)) a)"
  by (rule moves_put [OF assms]) (simp add: has_remove)

lemma moves_stop: "moves a (snd (StopTunnel lib t a))"
proof -
  obtain r b where r: "read_tunnel lib t a = (r, b)" by fastforce
  show ?thesis
  proof (cases r)
    case (Inl e)
    then show ?thesis using r moves_read [OF r] by (simp add: StopTunnel_def)
  next
    case (Inr tc)
    obtain e c where e: "(case cur_manager b of None \<Rightarrow> (None, b)
          | Some m \<Rightarrow> if HasTunnel (tg_Name tc) m
              then (case RemoveTunnel (al_client lib) (tg_Name tc) m of (e, m) \<Rightarrow> (e, put_manager m b)) else (None, b)) = (e, c)" by fastforce
    have bc: "moves b c"
      using e moves_remove [of b _ "al_client lib" "tg_Name tc"] by (auto split: option.splits if_splits prod.splits)
    obtain q d where q: "on_db (cs_UpdateStatus t ''stopped'') c = (q, d)" by fastforce
    have c: "moves a c" "moves a d"
      using moves_trans [OF moves_read [OF r] bc] moves_trans [OF _ moves_db [OF keeps_status q]] by auto
    have "snd (StopTunnel lib t a) = snd (stop_locked lib t tc b)" using r Inr by (simp add: StopTunnel_def)
    also have "\<dots> \<in> {snd (fails lib x c) |x. True} \<union> {snd (fails lib x d) |x. True}
        \<union> {logged lib ''operation'' ''stop_tunnel'' ''tunnel'' t md (clearError d) |md. True}"
      unfolding stop_locked_def e Let_def prod.case using q by (auto split: option.splits)
    finally show ?thesis using c by (auto simp: fails_def intro: moves_trans)
  qed
qed

lemma names_after_update:
  assumes "sql_update tunnel_clash (\<lambda>q. tg_ID q = tg_ID tc) (tunnel_set tc' now) rows = Some (rows', n)"
    and "distinct (map tg_ID rows)" and "tc \<in> set rows"
  shows "tg_Name ` set rows - {tg_Name tc} \<subseteq> tg_Name ` set rows'"
proof
  fix x
  assume "x \<in> tg_Name ` set rows - {tg_Name tc}"
  then obtain q where q: "q \<in> set rows" "x = tg_Name q" "tg_Name q \<noteq> tg_Name tc" by auto
  then have "tg_ID q \<noteq> tg_ID tc" using assms(2,3) by (metis eq_key_imp_eq_value distinct_map inj_onD)
  moreover have "rows' = map (\<lambda>q. if tg_ID q = tg_ID tc then tunnel_set tc' now q else q) rows"
    using assms(1) by (simp add: sql_update_def Let_def split: if_splits)
  ultimately show "x \<in> tg_Name ` set rows'" using q by force
qed

lemma config_ids: "config_inv d \<Longrightarrow> distinct (map tg_ID (db_tunnels d)) \<and> distinct (map tg_Name (db_tunnels d))"
  using unique_distinct [of tunnel_clash "db_tunnels d" tg_ID] unique_distinct [of tunnel_clash "db_tunnels d" tg_Name]
  by (simp add: config_inv_def tunnel_clash_def)

text \<open>A call of the store that may take names away, when the manager does not hold them.\<close>

lemma moves_unname:
  assumes "on_db f a = (r, b)" and "\<And>n. n \<in> N \<Longrightarrow> \<not> app_has_tunnel n a"
    and "\<And>d. en_faults d = [] \<Longrightarrow> config_inv d \<Longrightarrow> d = ap_db a \<Longrightarrow> en_faults (snd (f d)) = [] \<and> config_inv (snd (f d))
      \<and> tg_Name ` set (db_tunnels d) - N \<subseteq> tg_Name ` set (db_tunnels (snd (f d)))"
  shows "moves a b"
proof -
  have b: "b = a\<lparr>ap_db := snd (f (ap_db a))\<rparr>" using assms(1) by (simp add: on_db_def split: prod.splits)
  show ?thesis using assms(2) assms(3) [OF _ _ refl] unfolding b
    by (fastforce simp: moves_def app_ok_def orphaned_def cur_manager_def app_has_tunnel_def stored_names_def)
qed

lemma moves_update: "moves a (snd (UpdateTunnel lib t i a))"
proof (cases "app_ok a \<and> trim_space t \<noteq> [] \<and> validateCreateTunnelInput (al_parses_ip lib) i = None")
  case True
  then have ok: "en_faults (ap_db a) = []" "config_inv (ap_db a)" by (simp_all add: app_ok_def)
  show ?thesis
  proof (cases "row_of tg_ID (trim_space t) (db_tunnels (ap_db a))")
    case None
    then show ?thesis using True ok by (simp add: UpdateTunnel_def on_db_def Let_def)
  next
    case (Some tc)
    then have tc: "tc \<in> set (db_tunnels (ap_db a))" "tg_ID tc = trim_space t" by (auto simp: row_of_def find_Some_iff)
    show ?thesis
    proof (cases "isPersistedTunnelEnabled (tg_Status tc) \<or> app_has_tunnel (tg_Name tc) a")
      case stop: True
      then show ?thesis using True ok Some by (simp add: UpdateTunnel_def on_db_def Let_def)
    next
      case False
      let ?tc = "config_of_input i tc"
      obtain r b where r: "on_db (cs_Update ?tc) a = (r, b)" by fastforce
      have id: "tg_ID ?tc = tg_ID tc" by (simp add: config_of_input_def)
      have "moves a b"
      proof (rule moves_unname [OF r, of "{tg_Name tc}"])
        show "\<not> app_has_tunnel n a" if "n \<in> {tg_Name tc}" for n using False that by simp
        fix d
        assume d: "en_faults d = []" "config_inv d" "d = ap_db a"
        have "config_inv (snd (cs_Update ?tc d))" by (rule config_step_inv [OF config_step.update d(2)])
        moreover have "en_faults (snd (cs_Update ?tc d)) = [] \<and>
            tg_Name ` set (db_tunnels d) - {tg_Name tc} \<subseteq> tg_Name ` set (db_tunnels (snd (cs_Update ?tc d)))"
        proof (cases "sql_update tunnel_clash (\<lambda>q. tg_ID q = tg_ID tc) (tunnel_set ?tc (current_timestamp d)) (db_tunnels d)")
          case (Some u)
          obtain rows n where u: "u = (rows, n)" by fastforce
          show ?thesis using d(1) Some names_after_update [OF Some [unfolded u]] config_ids [OF d(2)] tc(1) d(3)
            by (simp add: cs_Update_def id u)
        qed (use d(1) in \<open>auto simp: cs_Update_def id\<close>)
        ultimately show "en_faults (snd (cs_Update ?tc d)) = [] \<and> config_inv (snd (cs_Update ?tc d))
          \<and> tg_Name ` set (db_tunnels d) - {tg_Name tc} \<subseteq> tg_Name ` set (db_tunnels (snd (cs_Update ?tc d)))" by blast
      qed
      then show ?thesis using True ok Some False r
        by (cases r) (auto simp: UpdateTunnel_def on_db_def [of "cs_Get _"] Let_def intro: moves_trans)
    qed
  qed
qed (auto simp: moves_def UpdateTunnel_def Let_def error_same split: option.splits dest: moves_error [unfolded moves_def, rule_format])

lemma moves_delete: "moves a (snd (DeleteTunnel lib t a))"
proof (cases "app_ok a")
  case True
  then have ok: "en_faults (ap_db a) = []" "config_inv (ap_db a)" by (simp_all add: app_ok_def)
  let ?q = "row_of tg_ID t (db_tunnels (ap_db a))"
  define b where "b = (case (?q, cur_manager a) of
      (Some tc, Some m) \<Rightarrow> put_manager (snd (RemoveTunnel (al_client lib) (tg_Name tc) m)) a | _ \<Rightarrow> a)"
  have ab: "moves a b" "ap_db b = ap_db a" using moves_remove by (auto simp: b_def put_manager_def split: option.splits)
  obtain r c where r: "on_db (cs_Delete t) b = (r, c)" by fastforce
  have del: "en_faults (snd (cs_Delete t d)) = []" "db_tunnels (snd (cs_Delete t d)) = filter (\<lambda>q. tg_ID q \<noteq> t) (db_tunnels d)"
    if "en_faults d = []" for d using that by (simp_all add: cs_Delete_def sql_delete_def)
  have "moves b c"
  proof (cases ?q)
    case None
    then have "filter (\<lambda>q. tg_ID q \<noteq> t) (db_tunnels (ap_db a)) = db_tunnels (ap_db a)"
      by (auto simp: row_of_def find_None_iff filter_id_conv)
    then show ?thesis using ab(2) del config_step_inv [OF config_step.delete]
      by (intro moves_unname [OF r, of "{}"]) auto
  next
    case (Some tc)
    then have tc: "tc \<in> set (db_tunnels (ap_db a))" "tg_ID tc = t" by (auto simp: row_of_def find_Some_iff)
    have n: "\<not> app_has_tunnel (tg_Name tc) b"
      using Some ok True by (auto simp: b_def app_has_tunnel_def put_manager_def cur_manager_def app_ok_def has_remove split: option.splits)
    have "tg_Name ` set (db_tunnels d) - {tg_Name tc} \<subseteq> tg_Name ` set (filter (\<lambda>q. tg_ID q \<noteq> t) (db_tunnels d))" if de: "d = ap_db b" for d
    proof
      fix x
      assume "x \<in> tg_Name ` set (db_tunnels d) - {tg_Name tc}"
      then obtain q where q: "q \<in> set (db_tunnels (ap_db a))" "x = tg_Name q" "q \<noteq> tc" using de ab(2) by auto
      then have "tg_ID q \<noteq> t" using config_ids [OF ok(2)] tc by (metis distinct_map inj_onD)
      then show "x \<in> tg_Name ` set (filter (\<lambda>q. tg_ID q \<noteq> t) (db_tunnels d))" using q de ab(2) by auto
    qed
    then show ?thesis using del config_step_inv [OF config_step.delete] n
      by (intro moves_unname [OF r, of "{tg_Name tc}"]) auto
  qed
  then have c: "moves a c" using ab(1) moves_trans by blast
  have "snd (DeleteTunnel lib t a) = (case r of Some e \<Rightarrow> snd (fails lib (AConfig e) c)
      | None \<Rightarrow> logged lib ''operation'' ''delete_tunnel'' ''tunnel'' t [(''name'', safeTunnelName ?q)] (clearError c))"
    using ok r by (cases ?q; cases "cur_manager a"; cases r) (simp_all add: DeleteTunnel_def on_db_def [of "cs_Get _"] Let_def b_def)
  then show ?thesis using c by (auto simp: fails_def split: option.splits intro: moves_trans)
qed (simp add: moves_def)

lemma moves_enrich: "moves a (snd (enrich c s (info, a)))"
proof -
  have "moves a (snd (on_db (cs_UpdateRuntimeEndpointFields i p u) a))" for i p u
    using moves_db [OF keeps_endpoint] by (metis surjective_pairing)
  then show ?thesis by (simp add: enrich_def Let_def)
qed

lemma moves_fold_enrich: "moves a (snd (fold (enrich c) ss (info, a)))"
proof (induction ss arbitrary: info a)
  case (Cons s ss)
  obtain info' a' where e: "enrich c s (info, a) = (info', a')" by fastforce
  then show ?case using Cons.IH [of a' info'] moves_enrich [of a c s info] by (auto intro: moves_trans)
qed simp

lemma moves_infos: "moves a (snd (tunnel_infos ks cs a))"
proof (induction cs arbitrary: a)
  case (Cons c cs)
  obtain info a' where e: "fold (enrich c) (tunnel_status ks a) (tunnelInfoFromConfig c a, a) = (info, a')" by fastforce
  have "moves a a'" using moves_fold_enrich [of a c "tunnel_status ks a" "tunnelInfoFromConfig c a"] e by simp
  then show ?case using Cons.IH [of a'] e by (auto split: prod.split intro: moves_trans)
qed simp

lemma moves_tunnels: "moves a (snd (GetTunnels ks a))"
proof -
  obtain r b where r: "on_db cs_List a = (r, b)" by fastforce
  have b: "moves a b" by (rule moves_db [OF keeps_reads(2) r])
  show ?thesis using r b moves_infos [of b ks] by (auto simp: GetTunnels_def split: sum.splits prod.splits intro: moves_trans) (metis moves_trans snd_conv)
qed

lemma moves_save: "moves a (snd (SaveServerSettings lib s a))"
proof (cases "normalizeServerSettings (al_url lib) s")
  case (Inl e)
  then show ?thesis by (simp add: SaveServerSettings_def fails_def)
next
  case (Inr t)
  obtain r b where r: "on_db (cs_SetSettings (settings_values lib t)) a = (r, b)" by fastforce
  have "moves a b" by (rule moves_db [OF keeps_settings r])
  then show ?thesis using Inr r by (cases r) (auto simp: SaveServerSettings_def fails_def intro: moves_trans)
qed

lemma settings_pure: "en_faults (ap_db a) = [] \<Longrightarrow> snd (GetServerSettings lib a) = a"
  by (simp add: GetServerSettings_def setting_or_default Let_def loadServerNodes_def on_db_def get_setting split: prod.splits)

lemma moves_client_id: "moves a (snd (getOrCreateClientID lib a))"
proof -
  obtain r b where r: "on_db (cs_GetSetting ''client_id'') a = (r, b)" by fastforce
  obtain u c where u: "new_uuid lib b = (u, c)" by fastforce
  obtain q d where q: "on_db (cs_SetSetting ''client_id'' u) c = (q, d)" by fastforce
  note m = moves_db [OF keeps_reads(3) r] moves_uuid' [OF u] moves_db [OF keeps_setting q]
  have "snd (getOrCreateClientID lib a) \<in> {b, d}" using r u q by (simp add: getOrCreateClientID_def Let_def)
  then show ?thesis using m by (auto intro: moves_trans)
qed

text \<open>The tunnels of a new manager's configuration are stored ones.\<close>

lemma manager_config:
  assumes "managerConfig lib a = (cfg, b)"
  shows "moves a b" and "app_ok a \<Longrightarrow> td_Name ` set (tc_Tunnels cfg) \<subseteq> stored_names b"
proof -
  obtain i a1 where i: "getOrCreateClientID lib a = (i, a1)" by fastforce
  have m: "moves a a1" using moves_client_id [of a lib] i by simp
  have x: "moves a b \<and> td_Name ` set (tc_Tunnels cfg) \<subseteq> stored_names b" if "app_ok a"
  proof -
    have ok: "en_faults (ap_db a1) = []" using m that by (simp add: moves_def app_ok_def)
    obtain s where s: "GetServerSettings lib a1 = (s, a1)" using settings_pure [OF ok, of lib] by (metis surjective_pairing)
    have b: "b = a1" and c: "tc_Tunnels cfg = map tunnelDefFromConfig (filter (\<lambda>c. isPersistedTunnelEnabled (tg_Status c))
        (sort_slice (\<lambda>a b. tg_CreatedAt b < tg_CreatedAt a) (db_tunnels (ap_db a1))))"
      using assms i s ok by (auto simp: managerConfig_def on_db_def)
    show ?thesis using m unfolding b c by (auto simp: stored_names_def tunnelDefFromConfig_def)
  qed
  show "moves a b" using x by (auto simp: moves_def)
  show "app_ok a \<Longrightarrow> td_Name ` set (tc_Tunnels cfg) \<subseteq> stored_names b" using x by blast
qed

lemma moves_connect: "moves a (snd (ConnectServer lib addr tok a))"
proof (cases "app_ok a \<and> \<not> app_connected a \<and> trim_space addr \<noteq> []")
  case True
  then have "en_faults (ap_db a) = []" by (simp add: app_ok_def)
  then obtain s where s: "GetServerSettings lib a = (s, a)" using settings_pure by (metis surjective_pairing)
  obtain r b where r: "SaveServerSettings lib (s\<lparr>ss_RelayAddr := addr, ss_RelayToken := tok\<rparr>) a = (r, b)" by fastforce
  have b: "moves a b" using moves_save [of a lib] r by (metis snd_conv)
  show ?thesis
  proof (cases r)
    case (Some e)
    then show ?thesis using True s r b by (auto simp: ConnectServer_def fails_def intro: moves_trans)
  next
    case None
    obtain cfg c where c: "managerConfig lib b = (cfg, c)" by fastforce
    obtain u d where d: "new_uuid lib c = (u, d)" by fastforce
    let ?m = "NewManager u (cfg\<lparr>tc_ServerAddr := addr, tc_AuthToken := tok\<rparr>)"
    have ok: "app_ok b" using b True by (simp add: moves_def)
    have "stored_names d = stored_names c" using d by (auto simp: new_uuid_def stored_names_def)
    then have "moves d (launch ?m d)" using manager_config(2) [OF c ok] by (intro moves_launch) (auto simp: has_new)
    then have "moves a (launch ?m d)" using b manager_config(1) [OF c] moves_uuid' [OF d] moves_trans by blast
    then show ?thesis using True s r None c d by (simp add: ConnectServer_def Let_def) (blast intro: moves_trans moves_logged)
  qed
qed (auto simp: ConnectServer_def fails_def moves_def error_same dest: moves_error [unfolded moves_def, rule_format])

lemma moves_disconnect: "moves a (DisconnectServer lib a)"
proof -
  define b where "b = (case ap_cancel a of None \<Rightarrow> a | Some i \<Rightarrow> (cancel_manager i a)\<lparr>ap_cancel := None\<rparr>)"
  define c where "c = (case cur_manager b of None \<Rightarrow> b | Some m \<Rightarrow> put_manager (mn_Stop m) b)"
  have "moves a b" using moves_cancel(2) by (auto simp: b_def split: option.split)
  moreover have "moves b c" using moves_put [of b _ "mn_Stop _"] by (auto simp: c_def has_stop split: option.split)
  ultimately have "moves a c" by (rule moves_trans)
  then show ?thesis by (simp add: DisconnectServer_def b_def [symmetric] c_def [symmetric] Let_def) (blast intro: moves_trans moves_logged)
qed

lemma moves_save_port: "moves a (snd (SaveFavoritePort lib i a))"
proof -
  obtain u b where u: "new_uuid lib a = (u, b)" by fastforce
  have b: "moves a b" by (rule moves_uuid' [OF u])
  show ?thesis
  proof (cases "favoritePortFromInput u i")
    case (Inr p)
    obtain r c where r: "on_db (cs_UpsertFavoritePort p) b = (r, c)" by fastforce
    have "moves a c" using moves_trans [OF b moves_db [OF keeps_port r]] .
    then show ?thesis using u Inr r by (cases r) (auto simp: SaveFavoritePort_def intro: moves_trans)
  qed (use b u in \<open>auto simp: SaveFavoritePort_def intro: moves_trans\<close>)
qed

lemma moves_delete_port: "moves a (snd (DeleteFavoritePort lib t a))"
proof -
  obtain r c where r: "on_db (cs_DeleteFavoritePort t) a = (r, c)" by fastforce
  have "moves a c" by (rule moves_db [OF keeps_port_delete r])
  then show ?thesis using r by (cases r) (auto simp: DeleteFavoritePort_def fails_def intro: moves_trans)
qed

lemma moves_upserts: "moves a (snd (upsert_ports ps a))"
proof (induction ps arbitrary: a)
  case (Cons p ps)
  obtain r b where r: "on_db (cs_UpsertFavoritePort p) a = (r, b)" by fastforce
  have "moves a b" by (rule moves_db [OF keeps_port r])
  then show ?case using r Cons.IH [of b] by (cases r) (auto intro: moves_trans)
qed simp

lemma moves_defaults: "moves a (snd (ensureDefaultFavoritePorts lib a))"
proof -
  obtain r b where r: "on_db (cs_GetSetting ''favorite_ports_seeded'') a = (r, b)" by fastforce
  obtain q c where q: "upsert_ports (defaultFavoritePorts lib) b = (q, c)" by fastforce
  obtain x d where x: "on_db (cs_SetSetting ''favorite_ports_seeded'' ''true'') c = (x, d)" by fastforce
  have m: "moves a b" "moves b c" "moves c d"
    using moves_db [OF keeps_reads(3) r] moves_upserts [of b "defaultFavoritePorts lib"] q moves_db [OF keeps_setting x] by simp_all
  have "snd (ensureDefaultFavoritePorts lib a) \<in> {b, c, d}"
    using r q x by (simp add: ensureDefaultFavoritePorts_def split: sum.split option.split)
  then show ?thesis using m by (auto intro: moves_trans)
qed

lemma moves_list_ports: "moves a (snd (app_ListFavoritePorts lib a))"
proof -
  obtain r b where r: "ensureDefaultFavoritePorts lib a = (r, b)" by fastforce
  obtain q c where q: "on_db cs_ListFavoritePorts b = (q, c)" by fastforce
  have m: "moves a b" "moves b c" using moves_defaults [of a lib] r moves_db [OF keeps_reads(4) q] by simp_all
  have "moves b (recordError lib e b)" "moves c (recordError lib e c)" "moves c (clearError c)" for e by simp_all
  then show ?thesis using m r q by (cases r; cases q) (auto simp: app_ListFavoritePorts_def intro: moves_trans)
qed

lemma moves_scan: "moves a (snd (ScanLocalPorts lib dial h ps ms a))"
proof (cases "normalizeLocalScanHost h")
  case (Inr host)
  obtain r b where r: "app_ListFavoritePorts lib a = (r, b)" by fastforce
  have m: "moves a b" using moves_list_ports [of a lib] r by simp
  show ?thesis using m Inr r
    by (cases r) (auto simp: ScanLocalPorts_def favoritePortsForScan_def Let_def split: sum.split intro: moves_trans)
qed (simp add: ScanLocalPorts_def)

lemma moves_logs: "moves a (snd (app_ListActivityLogs lib f a))"
proof -
  obtain r b where r: "on_db (cs_ListActivityLogs (al_unmarshal lib) (f\<lparr>lf_Level := trim_space (lf_Level f), lf_Category := trim_space (lf_Category f)\<rparr>)) a = (r, b)"
    by fastforce
  have "moves a b" by (rule moves_db [OF keeps_reads(5) r])
  then show ?thesis using r by (cases r) (auto simp: app_ListActivityLogs_def intro: moves_trans)
qed

lemma moves_clear_logs: "moves a (snd (ClearActivityLogs lib a))"
proof -
  obtain r b where r: "on_db cs_ClearActivityLogs a = (r, b)" by fastforce
  have "moves a b" by (rule moves_db [OF keeps_clear r])
  then show ?thesis using r by (cases r) (auto simp: ClearActivityLogs_def fails_def intro: moves_trans)
qed

lemma call_moves: "app_call lib a b \<Longrightarrow> moves a b"
  by (induction rule: app_call.induct)
    (simp_all add: moves_create moves_update moves_start moves_stop moves_delete moves_tunnels moves_save moves_connect
      moves_disconnect moves_save_port moves_delete_port moves_list_ports moves_scan moves_logs moves_clear_logs)

end
