(* ===== verification/Desktop_Guarantees.thy ===== *)
theory Desktop_Guarantees
  imports Desktop_Run
begin

text \<open>The properties of runs of the desktop application, with an example of each.\<close>

section \<open>Runs\<close>

definition app_run :: "AppLib \<Rightarrow> DesktopApp \<Rightarrow> DesktopApp \<Rightarrow> bool" where
  "app_run lib = (\<lambda>a b. app_call lib a b \<or> app_event a b)\<^sup>*\<^sup>*"

lemma event_ok:
  assumes "app_event a b" and "app_ok a"
  shows "app_ok b \<and> (\<forall>i. orphaned i a \<longrightarrow> orphaned i b \<and> mn_cancelled (ap_managers b ! i) = mn_cancelled (ap_managers a ! i)
    \<and> ap_running b = ap_running a)"
  using assms
proof (induction rule: app_event.induct)
  case (manager m' a j)
  let ?b = "a\<lparr>ap_managers := (ap_managers a)[j := m']\<rparr>"
  have h: "HasTunnel n ((ap_managers a)[j := m'] ! i) = HasTunnel n (ap_managers a ! i)" if "i < length (ap_managers a)" for i n
    using manager(1) fmlookup_fmdom [of n "mn_tunnels m'"] fmlookup_fmdom [of n "mn_tunnels (ap_managers a ! j)"] that
    by (cases "i = j") (auto simp: HasTunnel_def)
  have c: "mn_cancelled ((ap_managers a)[j := m'] ! i) = mn_cancelled (ap_managers a ! i)" if "i < length (ap_managers a)" for i
    using manager(2) that by (cases "i = j") simp_all
  show ?case using manager(3) h c by (auto simp: app_ok_def orphaned_def cur_manager_def stored_names_def)
qed (simp_all add: app_ok_def orphaned_def cur_manager_def stored_names_def config_inv_def)

lemma run_ok: "app_run lib a b \<Longrightarrow> app_ok a \<Longrightarrow> app_ok b"
  unfolding app_run_def
proof (induction rule: rtranclp_induct)
  case (step b c)
  then show ?case using call_moves event_ok by (auto simp: moves_def)
qed

lemma startup_ok:
  assumes "en_faults db = []" and "config_inv db"
  shows "app_ok (app_startup lib p2p db)"
proof -
  define a where "a = \<lparr>ap_db = db, ap_managers = [], ap_manager = None, ap_cancel = None, ap_running = [], ap_p2p = p2p, ap_lastErr = None, ap_uuids = 0\<rparr>"
  obtain cfg b where b: "managerConfig lib a = (cfg, b)" by fastforce
  obtain u c where c: "new_uuid lib b = (u, c)" by fastforce
  have a: "app_ok a" using assms by (simp add: app_ok_def a_def cur_manager_def)
  then have "app_ok c" using manager_config(1) [OF b] moves_uuid' [OF c] by (simp add: moves_def)
  moreover have "td_Name ` set (tc_Tunnels cfg) \<subseteq> stored_names c"
    using manager_config(2) [OF b a] c by (auto simp: new_uuid_def stored_names_def)
  ultimately show ?thesis
    using b c by (auto simp: app_startup_def a_def [symmetric] app_ok_def cur_manager_def has_new stored_names_def)
qed

text \<open>
  C3: The manager holds only tunnels that are stored. In every run of the application from its start, with calls
  one after the other and an engine that answers, each tunnel of the current manager has the name of a tunnel in
  the store: renaming, deleting and reconnecting never leave one behind.
\<close>

theorem manager_tunnels_stored:
  assumes "app_run lib (app_startup lib p2p db) a" and "en_faults db = []" and "config_inv db"
    and "cur_manager a = Some m" and "HasTunnel n m"
  shows "\<exists>tc \<in> set (db_tunnels (ap_db a)). tg_Name tc = n"
  using run_ok [OF assms(1) startup_ok [OF assms(2,3)]] assms(4,5) by (auto simp: app_ok_def stored_names_def)

section \<open>Connections that are replaced\<close>

lemma on_db_same: "on_db f a = (r, b) \<Longrightarrow> same_state a b"
  by (auto simp: on_db_def same_state_def split: prod.splits)

lemma same_trans: "same_state a b \<Longrightarrow> same_state b c \<Longrightarrow> same_state a c"
  by (simp add: same_state_def)

lemma save_same:
  assumes "SaveServerSettings lib s a = (r, b)"
  shows "same_state a b"
proof (cases "normalizeServerSettings (al_url lib) s")
  case (Inl e)
  then show ?thesis using assms error_same [of a lib] by (auto simp: SaveServerSettings_def fails_def)
next
  case (Inr t)
  obtain q c where q: "on_db (cs_SetSettings (settings_values lib t)) a = (q, c)" by fastforce
  note c = on_db_same [OF q]
  show ?thesis
  proof (cases q)
    case None
    then show ?thesis using assms Inr q same_trans [OF c] logged_same [of c lib] by (auto simp: SaveServerSettings_def)
  next
    case (Some e)
    then show ?thesis using assms Inr q same_trans [OF c] error_same [of c lib] by (auto simp: SaveServerSettings_def fails_def)
  qed
qed

lemma client_id_same: "same_state a (snd (getOrCreateClientID lib a))"
  by (simp add: getOrCreateClientID_def on_db_def new_uuid_def same_state_def Let_def split: prod.split)

lemma manager_config_same:
  assumes "managerConfig lib a = (cfg, b)" and "app_ok a"
  shows "same_state a b"
proof -
  obtain i a1 where i: "getOrCreateClientID lib a = (i, a1)" by fastforce
  have ok: "en_faults (ap_db a1) = []" using moves_client_id [of a lib] i assms(2) by (simp add: moves_def app_ok_def)
  obtain s where s: "GetServerSettings lib a1 = (s, a1)" using settings_pure [OF ok, of lib] by (metis surjective_pairing)
  have "b = a1" using assms(1) i s ok by (auto simp: managerConfig_def on_db_def)
  then show ?thesis using client_id_same [of a lib] i by simp
qed

text \<open>
  C17: A connection that is replaced runs for ever. When \<open>ConnectServer\<close> is called while the manager is running
  but not connected, as it is between two attempts, the manager it replaces is not stopped; no later call and no
  event stops it, \<open>DisconnectServer\<close> included, so that it goes on connecting beside the new one.
\<close>

theorem replaced_never_stopped:
  assumes "app_ok a" and "\<not> app_connected a" and "ap_manager a = Some i" and "i \<in> set (ap_running a)"
    and "\<not> mn_cancelled (ap_managers a ! i)" and "ConnectServer lib addr tok a = (None, b)" and "app_run lib b c"
  shows "i \<in> set (ap_running c) \<and> \<not> mn_cancelled (ap_managers c ! i) \<and> ap_manager c \<noteq> Some i \<and> ap_cancel c \<noteq> Some i"
proof -
  have addr: "trim_space addr \<noteq> []" using assms(2,6) by (auto simp: ConnectServer_def fails_def split: if_splits)
  obtain s a0 where s: "GetServerSettings lib a = (s, a0)" by fastforce
  have a0: "a0 = a" using settings_pure [of a lib] assms(1) s by (simp add: app_ok_def)
  obtain r a1 where r: "SaveServerSettings lib (s\<lparr>ss_RelayAddr := addr, ss_RelayToken := tok\<rparr>) a = (r, a1)" by fastforce
  have rn: "r = None" using assms(2,6) addr s a0 r by (cases r) (simp_all add: ConnectServer_def fails_def)
  obtain cfg a2 where a2: "managerConfig lib a1 = (cfg, a2)" by fastforce
  obtain u a3 where a3: "new_uuid lib a2 = (u, a3)" by fastforce
  let ?d = "launch (NewManager u (cfg\<lparr>tc_ServerAddr := addr, tc_AuthToken := tok\<rparr>)) a3"
  have ok1: "app_ok a1" using moves_save [of a lib] r assms(1) by (metis moves_def snd_conv)
  have same: "same_state a a3" using save_same [OF r] manager_config_same [OF a2 ok1] a3 by (auto simp: new_uuid_def same_state_def)
  have "same_state ?d b"
    using assms(2,6) addr s a0 r rn a2 a3 logged_same [of ?d lib] by (auto simp: ConnectServer_def Let_def)
  moreover have len: "i < length (ap_managers a)" using assms(1,3) by (simp add: app_ok_def)
  ultimately have b: "orphaned i b \<and> ap_managers b ! i = ap_managers a ! i \<and> i \<in> set (ap_running b)"
    using same assms(4) by (simp add: orphaned_def same_state_def launch_def Let_def nth_append)
  have "moves a b" using moves_connect [of a lib addr tok] assms(6) by simp
  then have "app_ok b" using assms(1) by (simp add: moves_def)
  with assms(7) have "app_ok c \<and> orphaned i c \<and> mn_cancelled (ap_managers c ! i) = mn_cancelled (ap_managers a ! i) \<and> i \<in> set (ap_running c)"
    unfolding app_run_def
  proof (induction rule: rtranclp_induct)
    case base
    then show ?case using b by simp
  next
    case (step c d)
    then have h: "app_ok c" "orphaned i c" "mn_cancelled (ap_managers c ! i) = mn_cancelled (ap_managers a ! i)" "i \<in> set (ap_running c)" by simp_all
    from step(2) show ?case
    proof
      assume "app_call lib c d"
      from call_moves [OF this] show ?thesis using h by (auto simp: moves_def)
    next
      assume "app_event c d"
      from event_ok [OF this h(1)] show ?thesis using h by auto
    qed
  qed
  then show ?thesis using assms(5) by (simp add: orphaned_def)
qed

section \<open>Calls that overlap\<close>

lemma updated_names:
  assumes "sql_update tunnel_clash (\<lambda>q. tg_ID q = t) (tunnel_set tc' now) rows = Some (rows', n)"
    and "distinct (map tg_ID rows)" and "distinct (map tg_Name rows)" and "tc \<in> set rows" and "tg_ID tc = t" and "tg_Name tc' \<noteq> tg_Name tc"
  shows "tg_Name tc \<notin> tg_Name ` set rows' \<and> (\<forall>q \<in> set rows'. tg_ID q = t \<longrightarrow> tg_Name q = tg_Name tc')"
proof -
  have r: "rows' = map (\<lambda>q. if tg_ID q = t then tunnel_set tc' now q else q) rows"
    using assms(1) by (simp add: sql_update_def Let_def split: if_splits)
  have n: "\<forall>q \<in> set rows. tg_Name q = tg_Name tc \<longrightarrow> tg_ID q = t"
    using assms(3-5) by (metis distinct_map inj_onD)
  have u: "tg_Name (tunnel_set tc' now q) = tg_Name tc'" for q by (simp add: tunnel_set_def)
  have "tg_Name q = tg_Name tc'" if "q \<in> set rows'" "tg_ID q = t" for q
  proof -
    have "q \<in> (\<lambda>x. if tg_ID x = t then tunnel_set tc' now x else x) ` set rows" using that(1) r by simp
    then obtain x where "x \<in> set rows" "q = (if tg_ID x = t then tunnel_set tc' now x else x)" by (rule imageE) simp
    then show ?thesis using that(2) u by (cases "tg_ID x = t") auto
  qed
  moreover have "tg_Name tc \<notin> tg_Name ` set rows'"
  proof
    assume "tg_Name tc \<in> tg_Name ` set rows'"
    then obtain q where q: "q \<in> set rows'" "tg_Name tc = tg_Name q" by blast
    have "q \<in> (\<lambda>x. if tg_ID x = t then tunnel_set tc' now x else x) ` set rows" using q(1) r by simp
    then obtain x where "x \<in> set rows" "q = (if tg_ID x = t then tunnel_set tc' now x else x)" by (rule imageE) simp
    then show False using n u q(2) assms(6) by (cases "tg_ID x = t") auto
  qed
  ultimately show ?thesis by blast
qed

lemma update_result:
  assumes "app_ok a" and "UpdateTunnel lib t i a = (Inr info, b)" and "row_of tg_ID t (db_tunnels (ap_db a)) = Some tc"
    and "trim_space t = t" and "ct_Name i \<noteq> tg_Name tc"
  shows "same_state a b \<and> tg_Name tc \<notin> stored_names b \<and> (\<forall>q \<in> set (db_tunnels (ap_db b)). tg_ID q = t \<longrightarrow> tg_Name q = ct_Name i)"
proof -
  have ok: "en_faults (ap_db a) = []" "config_inv (ap_db a)" using assms(1) by (simp_all add: app_ok_def)
  have tc: "tc \<in> set (db_tunnels (ap_db a))" "tg_ID tc = t" using assms(3) by (auto simp: row_of_def find_Some_iff)
  let ?tc = "config_of_input i tc"
  have i: "tg_ID ?tc = t" "tg_Name ?tc = ct_Name i" using tc by (simp_all add: config_of_input_def)
  obtain r c where r: "on_db (cs_Update ?tc) a = (r, c)" by fastforce
  have n: "t \<noteq> []" "validateCreateTunnelInput (al_parses_ip lib) i = None" "\<not> (isPersistedTunnelEnabled (tg_Status tc) \<or> app_has_tunnel (tg_Name tc) a)" "r = None"
    using assms(2,3,4) ok r by (auto simp: UpdateTunnel_def Let_def on_db_def [of "cs_Get _"] split: if_splits option.splits)
  have b: "same_state c b" "same_tables (ap_db c) (ap_db b)"
    using assms(2,3,4) ok r n logged_same [of c lib] by (auto simp: UpdateTunnel_def Let_def on_db_def [of "cs_Get _"])
  obtain rows k where u: "sql_update tunnel_clash (\<lambda>q. tg_ID q = t) (tunnel_set ?tc (current_timestamp (ap_db a))) (db_tunnels (ap_db a)) = Some (rows, k)"
    using r n(4) ok by (auto simp: on_db_def cs_Update_def i split: option.splits)
  then have "db_tunnels (ap_db c) = rows" using r ok by (auto simp: on_db_def cs_Update_def i)
  moreover have "tg_Name tc \<notin> tg_Name ` set rows \<and> (\<forall>q \<in> set rows. tg_ID q = t \<longrightarrow> tg_Name q = ct_Name i)"
    using updated_names [OF u] config_ids [OF ok(2)] tc assms(5) i by simp
  ultimately show ?thesis using b on_db_same [OF r] by (auto simp: same_tables_def stored_names_def same_state_def)
qed

text \<open>
  C18: Starting and renaming a tunnel at once leaves one that cannot be stopped. When \<open>StartTunnel\<close> has read the
  configuration and \<open>UpdateTunnel\<close>, which takes no lock, renames the tunnel before the start goes on, both
  succeed; then the manager holds a tunnel under the old name, which no stored tunnel has, and stopping the
  tunnel succeeds and leaves it there.
\<close>

theorem start_rename_race:
  assumes "app_ok a" and "read_tunnel lib t a = (Inr tc, a1)" and "UpdateTunnel lib t i a1 = (Inr info, a2)"
    and "trim_space t = t" and "ct_Name i \<noteq> tg_Name tc" and "start_locked lib t tc a2 = (None, a3)" and "StopTunnel lib t a3 = (None, a4)"
  shows "app_has_tunnel (tg_Name tc) a4 \<and> tg_Name tc \<notin> stored_names a4"
proof -
  have ok: "en_faults (ap_db a) = []" using assms(1) by (simp add: app_ok_def)
  note r = read_stored [OF assms(2) ok]
  have u: "same_state a a2" "tg_Name tc \<notin> stored_names a2" "\<forall>q \<in> set (db_tunnels (ap_db a2)). tg_ID q = t \<longrightarrow> tg_Name q = ct_Name i"
    using update_result [of a lib t i info a2 tc] r assms(1,3,4,5) by auto
  have ok2: "app_ok a2" using moves_update [of a lib t i] assms(1,3) r by (simp add: moves_def)
  then have f2: "en_faults (ap_db a2) = []" by (simp add: app_ok_def)
  have con: "app_connected a2" using assms(6) by (auto simp: start_locked_def fails_def split: if_splits)
  then obtain m where m: "cur_manager a2 = Some m" by (auto simp: app_connected_def split: option.splits)
  have nh: "\<not> HasTunnel (tg_Name tc) m" using ok2 u(2) m by (auto simp: app_ok_def)
  obtain e m' where e: "AddTunnel (al_client lib) (tunnelDefFromConfig tc) m = (e, m')" by fastforce
  obtain q c where q: "on_db (cs_UpdateStatus t ''running'') (put_manager m' a2) = (q, c)" by fastforce
  have en: "e = None" "q = None" using assms(6) con m nh e q by (auto simp: start_locked_def fails_def Let_def split: option.splits)
  have a3: "same_state c a3" "same_tables (ap_db c) (ap_db a3)"
    using assms(6) con m nh e q en logged_same [of c lib] by (auto simp: start_locked_def Let_def)
  obtain j where j: "ap_manager a2 = Some j" "j < length (ap_managers a2)" using m ok2 by (auto simp: cur_manager_def app_ok_def)
  have hm: "HasTunnel (tg_Name tc) m'" using e en(1) nh
    by (auto simp: AddTunnel_def HasTunnel_def mn_send_def Let_def tunnelDefFromConfig_def split: if_splits option.splits sum.splits prod.splits)
  have "cur_manager (put_manager m' a2) = Some m'" using j by (simp add: cur_manager_def put_manager_def)
  then have "cur_manager a3 = Some m'"
    using on_db_same [OF q] a3(1) by (simp add: cur_manager_def same_state_def)
  then have h3: "app_has_tunnel (tg_Name tc) a3" using hm by (simp add: app_has_tunnel_def)
  have c: "ap_db c = snd (cs_UpdateStatus t ''running'' (ap_db a2))" using q by (auto simp: on_db_def put_manager_def split: prod.splits option.splits)
  have nm: "tg_Name ` set (db_tunnels (ap_db a3)) = stored_names a2" "en_faults (ap_db a3) = []"
    using status_names [OF f2, of t "''running''"] a3(2) by (simp_all add: c same_tables_def stored_names_def)
  obtain tc3 a3' where r3: "read_tunnel lib t a3 = (Inr tc3, a3')" using assms(7) by (cases "read_tunnel lib t a3"; cases "fst (read_tunnel lib t a3)") (auto simp: StopTunnel_def)
  note s3 = read_stored [OF r3 nm(2)]
  have "tg_Name tc3 \<in> stored_names a2" using s3 nm(1) by blast
  then have n3: "tg_Name tc3 \<noteq> tg_Name tc" using u(2) by metis
  obtain m3 where m3: "cur_manager a3 = Some m3" "HasTunnel (tg_Name tc) m3" using h3 by (auto simp: app_has_tunnel_def split: option.splits)
  obtain k where k: "ap_manager a3 = Some k" "k < length (ap_managers a3)"
    using m3(1) j on_db_same [OF q] a3(1) by (auto simp: cur_manager_def same_state_def put_manager_def)
  obtain e3 b where e3: "(case cur_manager a3 of None \<Rightarrow> (None, a3)
      | Some m \<Rightarrow> if HasTunnel (tg_Name tc3) m
          then (case RemoveTunnel (al_client lib) (tg_Name tc3) m of (e, m) \<Rightarrow> (e, put_manager m a3)) else (None, a3)) = (e3, b)" by fastforce
  have hb: "app_has_tunnel (tg_Name tc) b" "ap_db b = ap_db a3"
    using e3 m3 k n3 has_remove [of "tg_Name tc" "al_client lib" "tg_Name tc3" m3]
    by (auto simp: app_has_tunnel_def cur_manager_def put_manager_def split: if_splits prod.splits)
  obtain q3 d where q3: "on_db (cs_UpdateStatus t ''stopped'') b = (q3, d)" by fastforce
  have st: "stop_locked lib t tc3 a3 = (None, a4)" using assms(7) r3 s3 by (simp add: StopTunnel_def)
  have z: "e3 = None" "q3 = None" using st q3 unfolding stop_locked_def e3 Let_def prod.case by (auto simp: fails_def split: option.splits)
  have a4: "same_state d a4" "same_tables (ap_db d) (ap_db a4)"
    using st q3 z logged_same [of d lib] unfolding stop_locked_def e3 Let_def prod.case by auto
  have d: "ap_db d = snd (cs_UpdateStatus t ''stopped'' (ap_db b))" using q3 by (auto simp: on_db_def split: prod.splits)
  have "stored_names a4 = stored_names a2"
    using status_names [of "ap_db b" t "''stopped''"] nm hb(2) a4(2) by (simp add: stored_names_def d same_tables_def)
  moreover have "app_has_tunnel (tg_Name tc) a4"
    using hb(1) on_db_same [OF q3] a4(1) by (simp add: app_has_tunnel_def cur_manager_def same_state_def)
  ultimately show ?thesis using u(2) by simp
qed

section \<open>An example\<close>

definition ex_app_lib :: AppLib where
  "ex_app_lib = \<lparr>al_client = \<lparr>tl_marshal = (\<lambda>v. Some []), tl_unmarshal = (\<lambda>k bs. None)\<rparr>,
     al_url = \<lparr>ul_Parse = (\<lambda>s. None), ul_String = (\<lambda>u. [])\<rparr>,
     al_encode_nodes = (\<lambda>ns. []), al_decode_nodes = (\<lambda>s. None), al_marshal = (\<lambda>m. []), al_unmarshal = (\<lambda>s. None),
     al_parses_ip = (\<lambda>s. True), al_err = (\<lambda>e. ''e''), al_tx = (\<lambda>s. s), al_uuid = (\<lambda>n. ''u'')\<rparr>"

definition ex_online :: "DesktopApp" where
  "ex_online = \<lparr>ap_db = empty_config\<lparr>db_tunnels := [ex_tunnel ''1'' ''web'']\<rparr>,
     ap_managers = [(NewManager ''u'' DefaultClientConfig)\<lparr>mn_client := Some ((NewControlClient [] [] [])\<lparr>cl_connected := True, cl_alive := True\<rparr>)\<rparr>],
     ap_manager = Some 0, ap_cancel = Some 0, ap_running = [0], ap_p2p = False, ap_lastErr = None, ap_uuids = 0\<rparr>"

definition ex_rename :: CreateTunnelInput where
  "ex_rename = \<lparr>ct_Name = ''new'', ct_ProxyType = ''tcp'', ct_LocalAddr = ''127.0.0.1'', ct_LocalPort = 80, ct_RemotePort = 0, ct_Domain = [],
     ct_HostHeader = [], ct_PublicURL = [], ct_AccessPolicyID = [], ct_InspectEnabled = False, ct_ExpiresAt = []\<rparr>"

lemma ex_online_ok: "app_ok ex_online"
  by (auto simp: app_ok_def ex_online_def empty_config_def config_inv_def cur_manager_def HasTunnel_def NewManager_def
      DefaultClientConfig_def Let_def unique_rows_def)

theorem start_rename_race_witness:
  "\<exists>a. app_has_tunnel ''web'' a \<and> ''web'' \<notin> stored_names a"
proof -
  let ?r1 = "read_tunnel ex_app_lib ''1'' ex_online"
  let ?r2 = "UpdateTunnel ex_app_lib ''1'' ex_rename (snd ?r1)"
  let ?r3 = "start_locked ex_app_lib ''1'' (ex_tunnel ''1'' ''web'') (snd ?r2)"
  let ?r4 = "StopTunnel ex_app_lib ''1'' (snd ?r3)"
  have r1: "fst ?r1 = Inr (ex_tunnel ''1'' ''web'')" by code_simp
  have r2: "case fst ?r2 of Inl e \<Rightarrow> False | Inr info \<Rightarrow> True" by code_simp
  have r3: "fst ?r3 = None" by code_simp
  have r4: "fst ?r4 = None" by code_simp
  obtain info where i: "fst ?r2 = Inr info" using r2 by (cases "fst ?r2") simp_all
  have e: "read_tunnel ex_app_lib ''1'' ex_online = (Inr (ex_tunnel ''1'' ''web''), snd ?r1)"
    "UpdateTunnel ex_app_lib ''1'' ex_rename (snd ?r1) = (Inr info, snd ?r2)" "?r3 = (None, snd ?r3)" "?r4 = (None, snd ?r4)"
    using r1 i r3 r4 by (simp_all only: prod_eq_iff fst_conv snd_conv)
  have n: "trim_space ''1'' = ''1''" "ct_Name ex_rename \<noteq> tg_Name (ex_tunnel ''1'' ''web'')" by code_simp+
  have "app_has_tunnel (tg_Name (ex_tunnel ''1'' ''web'')) (snd ?r4) \<and> tg_Name (ex_tunnel ''1'' ''web'') \<notin> stored_names (snd ?r4)"
    by (rule start_rename_race [OF ex_online_ok e(1,2) n e(3,4)])
  then show ?thesis by (auto simp: ex_tunnel_def)
qed

definition ex_waiting :: DesktopApp where
  "ex_waiting = ex_online\<lparr>ap_managers := [NewManager ''u'' DefaultClientConfig]\<rparr>"

theorem replaced_never_stopped_witness:
  "0 \<in> set (ap_running (DisconnectServer ex_app_lib (snd (ConnectServer ex_app_lib ''relay'' [] ex_waiting))))"
proof -
  let ?b = "snd (ConnectServer ex_app_lib ''relay'' [] ex_waiting)"
  have ok: "app_ok ex_waiting"
    by (auto simp: app_ok_def ex_waiting_def ex_online_def empty_config_def config_inv_def cur_manager_def HasTunnel_def NewManager_def
        DefaultClientConfig_def Let_def unique_rows_def)
  have s: "\<not> app_connected ex_waiting" "ap_manager ex_waiting = Some 0" "0 \<in> set (ap_running ex_waiting)" "\<not> mn_cancelled (ap_managers ex_waiting ! 0)"
    by code_simp+
  have "fst (ConnectServer ex_app_lib ''relay'' [] ex_waiting) = None" by code_simp
  then have c: "ConnectServer ex_app_lib ''relay'' [] ex_waiting = (None, ?b)" by (simp add: prod_eq_iff)
  have "app_run ex_app_lib ?b (DisconnectServer ex_app_lib ?b)"
    unfolding app_run_def using app_call.disconnect by blast
  then show ?thesis using replaced_never_stopped [OF ok s c] by blast
qed

theorem manager_tunnels_stored_witness:
  "\<exists>tc \<in> set (db_tunnels (ap_db (app_startup ex_app_lib False (empty_config\<lparr>db_tunnels := [(ex_tunnel ''1'' ''web'')\<lparr>tg_Status := ''running''\<rparr>]\<rparr>)))).
     tg_Name tc = ''web''"
proof -
  let ?db = "empty_config\<lparr>db_tunnels := [(ex_tunnel ''1'' ''web'')\<lparr>tg_Status := ''running''\<rparr>]\<rparr>"
  let ?a = "app_startup ex_app_lib False ?db"
  have m: "case cur_manager ?a of None \<Rightarrow> False | Some m \<Rightarrow> HasTunnel ''web'' m" by code_simp
  have "app_run ex_app_lib ?a ?a" by (simp add: app_run_def)
  moreover have "en_faults ?db = []" "config_inv ?db" by (simp_all add: empty_config_def config_inv_def unique_rows_def)
  moreover obtain m where "cur_manager ?a = Some m" "HasTunnel ''web'' m" using m by (cases "cur_manager ?a") auto
  ultimately show ?thesis by (rule manager_tunnels_stored)
qed

end
