(* ===== verification/Desktop_Publish.thy ===== *)
theory Desktop_Publish
  imports Desktop_Guarantees
begin

text \<open>Publications and favourite ports of the desktop application: what cannot be repeated, changed or deleted.\<close>

section \<open>Publications\<close>

lemma create_result:
  assumes "en_faults (ap_db a) = []" and "CreateTunnel lib i a = (r, b)"
  shows "case r of Inl e \<Rightarrow> db_tunnels (ap_db b) = db_tunnels (ap_db a)
     | Inr info \<Rightarrow> validateCreateTunnelInput (al_parses_ip lib) i = None \<and> ct_Name i \<in> stored_names b \<and> en_faults (ap_db b) = []"
proof (cases "validateCreateTunnelInput (al_parses_ip lib) i")
  case (Some e)
  then show ?thesis using assms(2) error_same [of a lib "AInput e"] by (auto simp: CreateTunnel_def same_tables_def)
next
  case None
  obtain u a1 where u: "new_uuid lib a = (u, a1)" by fastforce
  have a1: "ap_db a1 = ap_db a" using u by (auto simp: new_uuid_def)
  let ?tc = "config_of_input i (blank_tunnel u)"
  obtain q c where q: "on_db (cs_Create ?tc) a1 = (q, c)" by fastforce
  show ?thesis
  proof (cases q)
    case Some
    then have "db_tunnels (ap_db c) = db_tunnels (ap_db a)" using q a1 assms(1)
      by (auto simp: on_db_def cs_Create_def exec_stmt_def split: option.splits)
    then show ?thesis using Some None u q assms(2) error_same [of c lib] by (auto simp: CreateTunnel_def Let_def same_tables_def)
  next
    case n: None
    have "ct_Name i \<in> stored_names c" "en_faults (ap_db c) = []" using q a1 assms(1) n
      by (auto simp: on_db_def cs_Create_def exec_stmt_def sql_insert_def stored_names_def config_of_input_def split: option.splits if_splits)
    then show ?thesis using n None u q assms(2) logged_same' [of c lib]
      by (auto simp: CreateTunnel_def Let_def same_tables_def stored_names_def)
  qed
qed

lemma create_again:
  assumes "en_faults (ap_db a) = []" and "validateCreateTunnelInput (al_parses_ip lib) i = None" and "ct_Name i \<in> stored_names a"
  shows "\<exists>w. fst (CreateTunnel lib i a) = Inl (AConfig (ConstraintError w))"
proof -
  obtain u a1 where u: "new_uuid lib a = (u, a1)" by fastforce
  have a1: "ap_db a1 = ap_db a" using u by (auto simp: new_uuid_def)
  have "list_ex (\<lambda>q. tunnel_clash q ((config_of_input i (blank_tunnel u))\<lparr>tg_CreatedAt := x, tg_UpdatedAt := y\<rparr>)) (db_tunnels (ap_db a))" for x y
    using assms(3) by (auto simp: stored_names_def list_ex_iff tunnel_clash_def config_of_input_def)
  then show ?thesis using u a1 assms(1,2)
    by (auto simp: CreateTunnel_def Let_def on_db_def cs_Create_def exec_stmt_def sql_insert_def split: prod.split)
qed

lemma start_names:
  assumes "en_faults (ap_db a) = []"
  shows "en_faults (ap_db (snd (StartTunnel lib t a))) = [] \<and> stored_names (snd (StartTunnel lib t a)) = stored_names a"
proof -
  have l: "en_faults (ap_db (snd (start_locked lib t tc a))) = [] \<and> stored_names (snd (start_locked lib t tc a)) = stored_names a" for tc
  proof (cases "app_connected a")
    case False
    then show ?thesis using assms error_same [of a lib] by (simp add: start_locked_def fails_def same_tables_def stored_names_def)
  next
    case True
    obtain e m where e: "(if HasTunnel (tg_Name tc) (the (cur_manager a)) then (None, the (cur_manager a))
        else AddTunnel (al_client lib) (tunnelDefFromConfig tc) (the (cur_manager a))) = (e, m)" by fastforce
    have p: "ap_db (put_manager m a) = ap_db a" by (simp add: put_manager_def split: option.split)
    obtain q c where q: "on_db (cs_UpdateStatus t ''running'') (put_manager m a) = (q, c)" by fastforce
    have c: "en_faults (ap_db c) = []" "stored_names c = stored_names a"
      using status_names [OF assms, of t "''running''"] q p by (auto simp: on_db_def stored_names_def split: prod.splits)
    show ?thesis using True c p assms e q error_same [of c lib] error_same [of "put_manager m a" lib] logged_same [of c lib]
      unfolding start_locked_def Let_def e prod.case
      by (cases e; cases q) (simp_all add: fails_def same_tables_def stored_names_def)
  qed
  obtain r b where r: "read_tunnel lib t a = (r, b)" by fastforce
  show ?thesis
  proof (cases r)
    case (Inl e)
    have "en_faults (ap_db b) = [] \<and> stored_names b = stored_names a"
      using r Inl assms error_same [of a lib]
      by (auto simp: read_tunnel_def on_db_def same_tables_def stored_names_def split: option.splits)
    then show ?thesis using r Inl by (simp add: StartTunnel_def)
  next
    case (Inr tc)
    then show ?thesis using r read_stored [of lib t a tc b] assms l by (simp add: StartTunnel_def)
  qed
qed

text \<open>
  A publication is not undone when it fails, and cannot be repeated. When \<open>PublishEndpoint\<close> fails after it
  has changed the tunnels that are stored, as when the tunnel cannot be started, the same publication fails
  again, whatever the connection is by then, because the name is taken.
\<close>

theorem publish_retry:
  assumes "PublishEndpoint lib ks env i a = (Inl e, b)" and "en_faults (ap_db a) = []"
    and "db_tunnels (ap_db b) \<noteq> db_tunnels (ap_db a)"
  shows "\<exists>w. fst (PublishEndpoint lib ks' env' i (b\<lparr>ap_managers := ms, ap_manager := m\<rparr>)) = Inl (AConfig (ConstraintError w))"
proof -
  let ?b = "b\<lparr>ap_managers := ms, ap_manager := m\<rparr>"
  have d: "publish_domain i \<noteq> []" using assms(1,3) by (auto simp: PublishEndpoint_def)
  obtain mode where mode: "normalizePublishEndpointAuthMode (pe_AuthMode i) = Inr mode"
    using assms(1,3) d error_same [of a lib]
    by (cases "normalizePublishEndpointAuthMode (pe_AuthMode i)") (auto simp: PublishEndpoint_def Let_def same_tables_def)
  obtain r c where r: "CreateTunnel lib (publish_input i mode) a = (r, c)" by fastforce
  note res = create_result [OF assms(2) r]
  obtain info where info: "r = Inr info"
    using assms(1,3) d mode r res by (cases r) (auto simp: PublishEndpoint_def Let_def)
  have n: "validateCreateTunnelInput (al_parses_ip lib) (publish_input i mode) = None" "ct_Name (publish_input i mode) \<in> stored_names c"
    "en_faults (ap_db c) = []" using res info by simp_all
  have "b = snd (StartTunnel lib (tg_ID (ti_config info)) c)"
    using assms(1) d mode r info by (auto simp: PublishEndpoint_def Let_def split: if_splits prod.splits option.splits)
  then have "en_faults (ap_db ?b) = []" "ct_Name (publish_input i mode) \<in> stored_names ?b"
    using start_names [OF n(3), of lib "tg_ID (ti_config info)"] n(2) by (simp_all add: stored_names_def)
  from create_again [OF this(1) n(1) this(2)] obtain w where "fst (CreateTunnel lib (publish_input i mode) ?b) = Inl (AConfig (ConstraintError w))" ..
  then obtain x where "CreateTunnel lib (publish_input i mode) ?b = (Inl (AConfig (ConstraintError w)), x)" by (metis prod.collapse)
  then show ?thesis using d mode by (simp add: PublishEndpoint_def Let_def)
qed

section \<open>Favourite ports\<close>

text \<open>
  The identifier that saving a favourite returns may belong to none. When the port is already a favourite,
  the stored row keeps its identifier, but \<open>SaveFavoritePort\<close> returns the one it was given or made; deleting
  by that identifier fails unless another favourite has it.
\<close>

theorem favourite_identifier:
  assumes "SaveFavoritePort lib i a = (Inr q, b)" and "en_faults (ap_db a) = []" and "p \<in> set (db_ports (ap_db a))"
    and "fp_Protocol p = ''tcp''" and "fp_Port p = fi_Port i" and "fp_ID q \<notin> fp_ID ` set (db_ports (ap_db a))"
    and "trim_space (fp_ID q) \<noteq> []"
  shows "fst (DeleteFavoritePort lib (fp_ID q) b) = Some (AConfig (PortMissing (fp_ID q)))"
proof -
  obtain u a1 where u: "new_uuid lib a = (u, a1)" by fastforce
  have a1: "ap_db a1 = ap_db a" using u by (auto simp: new_uuid_def)
  obtain r c where f: "favoritePortFromInput u i = Inr q" and r: "on_db (cs_UpsertFavoritePort q) a1 = (r, c)" and n: "r = None"
    using assms(1) u by (auto simp: SaveFavoritePort_def split: sum.splits option.splits prod.splits)
  have q: "fp_Protocol q = ''tcp''" "fp_Port q = fi_Port i" using f by (auto simp: favoritePortFromInput_def Let_def split: if_splits)
  define g where "g = (\<lambda>x. if port_target x q then port_set (current_timestamp (ap_db a)) x
      (q\<lparr>fp_CreatedAt := current_timestamp (ap_db a), fp_UpdatedAt := current_timestamp (ap_db a)\<rparr>) else x)"
  have "list_ex (\<lambda>x. port_target x q) (db_ports (ap_db a))" using assms(3-5) q by (auto simp: port_target_def list_ex_iff)
  then have "db_ports (ap_db c) = map g (db_ports (ap_db a)) \<and> en_faults (ap_db c) = []"
    using r n a1 assms(2) by (auto simp: on_db_def cs_UpsertFavoritePort_def exec_stmt_def sql_upsert_def port_target_def g_def)
  moreover have "fp_ID (g x) = fp_ID x" for x by (simp add: g_def port_set_def)
  ultimately have "fp_ID ` set (db_ports (ap_db c)) = fp_ID ` set (db_ports (ap_db a)) \<and> en_faults (ap_db c) = []"
    by (simp add: image_image)
  then have "fp_ID ` set (db_ports (ap_db b)) = fp_ID ` set (db_ports (ap_db a)) \<and> en_faults (ap_db b) = []"
    using assms(1) u f r n logged_same [of c lib] by (auto simp: SaveFavoritePort_def same_tables_def)
  then have "filter (\<lambda>x. fp_ID x = fp_ID q) (db_ports (ap_db b)) = []" "en_faults (ap_db b) = []"
    using assms(6) by (auto simp: filter_empty_conv) (metis imageI)
  then show ?thesis using assms(7) by (simp add: DeleteFavoritePort_def on_db_def cs_DeleteFavoritePort_def sql_delete_def fails_def)
qed

text \<open>
  The port of a favourite cannot be changed. \<open>SaveFavoritePort\<close> with the identifier of a favourite and a
  port that is none fails on the constraint of the identifier.
\<close>

theorem favourite_port_fixed:
  assumes "en_faults (ap_db a) = []" and "p \<in> set (db_ports (ap_db a))" and "trim_space (fi_ID i) = fp_ID p" and "fp_ID p \<noteq> []"
    and "\<forall>x \<in> set (db_ports (ap_db a)). fp_Port x \<noteq> fi_Port i" and "favoritePortFromInput [] i = Inr q"
  shows "\<exists>w. fst (SaveFavoritePort lib i a) = Inl (AConfig (ConstraintError w)) \<and> db_ports (ap_db (snd (SaveFavoritePort lib i a))) = db_ports (ap_db a)"
proof -
  obtain u a1 where u: "new_uuid lib a = (u, a1)" by fastforce
  have a1: "ap_db a1 = ap_db a" using u by (auto simp: new_uuid_def)
  have "favoritePortFromInput u i = favoritePortFromInput [] i" using assms(3,4) by (simp add: favoritePortFromInput_def Let_def)
  then have f: "favoritePortFromInput u i = Inr q" using assms(6) by simp
  then have q: "fp_ID q = fp_ID p" "fp_Port q = fi_Port i" using assms(3,4)
    by (auto simp: favoritePortFromInput_def Let_def split: if_splits)
  obtain r c where r: "on_db (cs_UpsertFavoritePort q) a1 = (r, c)" by fastforce
  have "\<exists>w. r = Some (ConstraintError w)" "db_ports (ap_db c) = db_ports (ap_db a)"
    using r a1 assms(1,2,5) q
    by (auto simp: on_db_def cs_UpsertFavoritePort_def exec_stmt_def sql_upsert_def sql_insert_def port_target_def port_clash_def list_ex_iff
        split: option.splits if_splits)
  then show ?thesis using u f r error_same [of c lib] by (auto simp: SaveFavoritePort_def same_tables_def)
qed

section \<open>Examples\<close>

definition ex_publish :: PublishEndpointInput where
  "ex_publish = \<lparr>pe_Name = ''shop'', pe_HTTPPort = 80, pe_LocalAddr = [], pe_Subdomain = [], pe_Domain = ''shop'', pe_AuthMode = [], pe_HostHeader = [], pe_AccessPolicyID = [], pe_InspectEnabled = False, pe_ExpiresAt = []\<rparr>"

text \<open>The message that announces the tunnel cannot be built.\<close>

definition ex_publish_lib :: AppLib where
  "ex_publish_lib = ex_app_lib\<lparr>al_client := \<lparr>tl_marshal = (\<lambda>v. None), tl_unmarshal = (\<lambda>k bs. None)\<rparr>\<rparr>"

theorem publish_retry_witness:
  "\<exists>a w. fst (PublishEndpoint ex_publish_lib [] (\<lambda>_ a. a) ex_publish a) = Inl (AConfig (ConstraintError w))"
proof -
  let ?a = "ex_online\<lparr>ap_db := empty_config\<rparr>"
  let ?p = "PublishEndpoint ex_publish_lib [] (\<lambda>_ a. a) ex_publish"
  have e: "case fst (?p ?a) of Inl e \<Rightarrow> True | Inr i \<Rightarrow> False" by code_simp
  have n: "db_tunnels (ap_db (snd (?p ?a))) \<noteq> db_tunnels (ap_db ?a)" by code_simp
  obtain x where x: "fst (?p ?a) = Inl x" using e by (cases "fst (?p ?a)") simp_all
  then have "?p ?a = (Inl x, snd (?p ?a))" by (simp only: prod_eq_iff fst_conv snd_conv)
  moreover have "en_faults (ap_db ?a) = []" by (simp add: empty_config_def)
  ultimately show ?thesis using publish_retry [OF _ _ n] by blast
qed

definition ex_port :: FavoritePort where
  "ex_port = \<lparr>fp_ID = ''web'', fp_Name = ''Web'', fp_Category = ''custom'', fp_Port = 80, fp_Protocol = ''tcp'', fp_Description = [],
     fp_Enabled = True, fp_Builtin = False, fp_CreatedAt = 0, fp_UpdatedAt = 0\<rparr>"

definition ex_port_input :: "string \<Rightarrow> int \<Rightarrow> FavoritePortInput" where
  "ex_port_input i p = \<lparr>fi_ID = i, fi_Name = ''Web'', fi_Category = [], fi_Port = p, fi_Protocol = [], fi_Description = [], fi_Enabled = True\<rparr>"

definition ex_favourite :: DesktopApp where
  "ex_favourite = ex_online\<lparr>ap_db := empty_config\<lparr>db_ports := [ex_port]\<rparr>\<rparr>"

theorem favourite_identifier_witness:
  "fst (DeleteFavoritePort ex_app_lib ''u'' (snd (SaveFavoritePort ex_app_lib (ex_port_input [] 80) ex_favourite))) = Some (AConfig (PortMissing ''u''))"
proof -
  let ?s = "SaveFavoritePort ex_app_lib (ex_port_input [] 80) ex_favourite"
  let ?q = "ex_port\<lparr>fp_ID := ''u''\<rparr>"
  have "fst ?s = Inr ?q" by code_simp
  then have s: "?s = (Inr ?q, snd ?s)" by (simp only: prod_eq_iff fst_conv snd_conv)
  have "en_faults (ap_db ex_favourite) = []" "ex_port \<in> set (db_ports (ap_db ex_favourite))" "fp_Protocol ex_port = ''tcp''"
    "fp_Port ex_port = fi_Port (ex_port_input [] 80)" "fp_ID ?q \<notin> fp_ID ` set (db_ports (ap_db ex_favourite))" "trim_space (fp_ID ?q) \<noteq> []"
    by code_simp+
  from favourite_identifier [OF s this] show ?thesis by simp
qed

theorem favourite_port_fixed_witness:
  "db_ports (ap_db (snd (SaveFavoritePort ex_app_lib (ex_port_input ''web'' 81) ex_favourite))) = [ex_port]"
proof -
  have h: "en_faults (ap_db ex_favourite) = []" "ex_port \<in> set (db_ports (ap_db ex_favourite))" "trim_space (fi_ID (ex_port_input ''web'' 81)) = fp_ID ex_port"
    "fp_ID ex_port \<noteq> []" "\<forall>x \<in> set (db_ports (ap_db ex_favourite)). fp_Port x \<noteq> fi_Port (ex_port_input ''web'' 81)"
    "favoritePortFromInput [] (ex_port_input ''web'' 81) = Inr (ex_port\<lparr>fp_Port := 81\<rparr>)"
    by code_simp+
  from favourite_port_fixed [OF h, of ex_app_lib] show ?thesis by (simp add: ex_favourite_def)
qed

end
