(* ===== verification/Sql_Control.thy ===== *)
theory Sql_Control
  imports Control_Props Sql_Table Address_Text
begin

text \<open>
  The persistent store of the control plane (\<open>server/internal/controlplane/store_sqlite.go\<close>) over the tables of
  \<open>Sql_Table\<close>, and its comparison with the store in memory. Metadata and ports are columns of text; their JSON
  and the parser of addresses are arguments. Times are columns that the driver reads back as they were.
\<close>

section \<open>Rows\<close>

text \<open>A row of nodes keeps the metadata, and a row of rules the ports, as text; the fields of the record are empty.\<close>

record NodeRow =
  nw_node :: NodeInfo
  nw_metadata :: string

record RuleRow =
  rw_rule :: ACLRule
  rw_ports :: string

record SQLiteStore = sql_engine +
  sq_columns :: "string list"
  sq_nodes :: "NodeRow list"
  sq_acls :: "RuleRow list"
  sq_keys :: "KeyMaterial list"
  sq_ips :: "(string \<times> string) list"

record StoreJson =
  sj_metadata :: "(string \<times> string) list \<Rightarrow> string option"
  sj_read_metadata :: "string \<Rightarrow> (string \<times> string) list option"
  sj_ports :: "int list \<Rightarrow> string option"
  sj_read_ports :: "string \<Rightarrow> int list option"
  sj_ParseIP :: "string \<Rightarrow> 32 word option"

datatype sqlite_error =
    SqlFailed string string
  | SqlMarshal string
  | SqlUnmarshal string
  | SqlMissing string
  | SqlBadIP string

abbreviation node_key :: "NodeRow \<Rightarrow> string" where "node_key w \<equiv> ni_NodeID (nw_node w)"
abbreviation rule_key :: "RuleRow \<Rightarrow> string" where "rule_key w \<equiv> al_ID (rw_rule w)"

definition sq_exec :: "string \<Rightarrow> (SQLiteStore \<Rightarrow> SQLiteStore) \<Rightarrow> SQLiteStore \<Rightarrow> sqlite_error option \<times> SQLiteStore" where
  "sq_exec what f d =
     (case statement d of
        (Some e, d) \<Rightarrow> (Some (SqlFailed what e), d)
      | (None, d) \<Rightarrow> (None, f d))"

definition sq_query :: "string \<Rightarrow> (SQLiteStore \<Rightarrow> sqlite_error + 'a) \<Rightarrow> SQLiteStore \<Rightarrow> (sqlite_error + 'a) \<times> SQLiteStore" where
  "sq_query what f d =
     (case statement d of
        (Some e, d) \<Rightarrow> (Inl (SqlFailed what e), d)
      | (None, d) \<Rightarrow> (f d, d))"

text \<open>The rows of a result are read one by one, and the first that cannot be read ends it.\<close>

fun scan_all :: "('r \<Rightarrow> sqlite_error + 'v) \<Rightarrow> 'r list \<Rightarrow> sqlite_error + 'v list" where
  "scan_all f [] = Inr []"
| "scan_all f (r # rs) =
     (case f r of
        Inl e \<Rightarrow> Inl e
      | Inr v \<Rightarrow> (case scan_all f rs of Inl e \<Rightarrow> Inl e | Inr vs \<Rightarrow> Inr (v # vs)))"

section \<open>The schema\<close>

definition ensureColumn :: "string \<Rightarrow> SQLiteStore \<Rightarrow> sqlite_error option \<times> SQLiteStore" where
  "ensureColumn column d =
     (case statement d of
        (Some e, d) \<Rightarrow> (Some (SqlFailed ''inspect table'' e), d)
      | (None, d) \<Rightarrow>
          if column \<in> set (sq_columns d) then (None, d)
          else sq_exec ''add column'' (\<lambda>d. d\<lparr>sq_columns := sq_columns d @ [column]\<rparr>) d)"

definition node_columns :: "string list" where
  "node_columns = [''node_id'', ''public_key'', ''nat_type'', ''region'', ''subnet'', ''virtual_ip'', ''metadata'', ''connected_at'', ''last_seen'']"

text \<open>A database without tables has no columns.\<close>

definition sq_migrate :: "SQLiteStore \<Rightarrow> sqlite_error option \<times> SQLiteStore" where
  "sq_migrate d =
     (case sq_exec ''run schema migration'' (\<lambda>d. if sq_columns d = [] then d\<lparr>sq_columns := node_columns\<rparr> else d) d of
        (Some e, d) \<Rightarrow> (Some e, d)
      | (None, d) \<Rightarrow> ensureColumn ''virtual_ip'' d)"

section \<open>Nodes\<close>

definition scanNode :: "StoreJson \<Rightarrow> NodeRow \<Rightarrow> sqlite_error + NodeInfo" where
  "scanNode J w =
     (let t = nw_metadata w in
      if t \<noteq> [] \<and> t \<noteq> ''{}'' then
        (case sj_read_metadata J t of
           None \<Rightarrow> Inl (SqlUnmarshal ''metadata'')
         | Some m \<Rightarrow> Inr ((nw_node w)\<lparr>ni_Metadata := m\<rparr>))
      else Inr ((nw_node w)\<lparr>ni_Metadata := []\<rparr>))"

definition sq_SaveNode :: "StoreJson \<Rightarrow> NodeInfo \<Rightarrow> SQLiteStore \<Rightarrow> sqlite_error option \<times> SQLiteStore" where
  "sq_SaveNode J node d =
     (case sj_metadata J (ni_Metadata node) of
        None \<Rightarrow> (Some (SqlMarshal ''metadata''), d)
      | Some t \<Rightarrow> sq_exec ''save node'' (\<lambda>d.
          d\<lparr>sq_nodes := put_row node_key (\<lambda>q r. r) \<lparr>nw_node = node\<lparr>ni_Metadata := []\<rparr>, nw_metadata = t\<rparr> (sq_nodes d)\<rparr>) d)"

definition sq_GetNode :: "StoreJson \<Rightarrow> string \<Rightarrow> SQLiteStore \<Rightarrow> (sqlite_error + NodeInfo) \<times> SQLiteStore" where
  "sq_GetNode J nodeID = sq_query ''get node'' (\<lambda>d.
     case row_of node_key nodeID (sq_nodes d) of None \<Rightarrow> Inl (SqlMissing ''node'') | Some w \<Rightarrow> scanNode J w)"

definition sq_ListNodes :: "StoreJson \<Rightarrow> SQLiteStore \<Rightarrow> (sqlite_error + NodeInfo list) \<times> SQLiteStore" where
  "sq_ListNodes J = sq_query ''list nodes'' (\<lambda>d.
     scan_all (scanNode J) (sort_slice (\<lambda>a b. ni_ConnectedAt (nw_node a) < ni_ConnectedAt (nw_node b)) (sq_nodes d)))"

definition sq_DeleteNode :: "string \<Rightarrow> SQLiteStore \<Rightarrow> sqlite_error option \<times> SQLiteStore" where
  "sq_DeleteNode nodeID = sq_exec ''delete node'' (\<lambda>d. d\<lparr>sq_nodes := drop_row node_key nodeID (sq_nodes d)\<rparr>)"

section \<open>Rules\<close>

definition scanACLRule :: "StoreJson \<Rightarrow> RuleRow \<Rightarrow> sqlite_error + ACLRule" where
  "scanACLRule J w =
     (let t = rw_ports w in
      if t \<noteq> [] \<and> t \<noteq> ''[]'' then
        (case sj_read_ports J t of
           None \<Rightarrow> Inl (SqlUnmarshal ''ports'')
         | Some ps \<Rightarrow> Inr ((rw_rule w)\<lparr>al_Ports := ps\<rparr>))
      else Inr ((rw_rule w)\<lparr>al_Ports := []\<rparr>))"

text \<open>The conflict clause does not name \<open>created_at\<close>.\<close>

definition rule_set :: "RuleRow \<Rightarrow> RuleRow \<Rightarrow> RuleRow" where
  "rule_set q r = r\<lparr>rw_rule := (rw_rule r)\<lparr>al_CreatedAt := al_CreatedAt (rw_rule q)\<rparr>\<rparr>"

definition sq_SaveACLRule :: "StoreJson \<Rightarrow> ACLRule \<Rightarrow> SQLiteStore \<Rightarrow> sqlite_error option \<times> SQLiteStore" where
  "sq_SaveACLRule J rule d =
     (case sj_ports J (al_Ports rule) of
        None \<Rightarrow> (Some (SqlMarshal ''ports''), d)
      | Some t \<Rightarrow> sq_exec ''save acl rule'' (\<lambda>d.
          d\<lparr>sq_acls := put_row rule_key rule_set \<lparr>rw_rule = rule\<lparr>al_Ports := []\<rparr>, rw_ports = t\<rparr> (sq_acls d)\<rparr>) d)"

definition sq_GetACLRule :: "StoreJson \<Rightarrow> string \<Rightarrow> SQLiteStore \<Rightarrow> (sqlite_error + ACLRule) \<times> SQLiteStore" where
  "sq_GetACLRule J ruleID = sq_query ''get acl rule'' (\<lambda>d.
     case row_of rule_key ruleID (sq_acls d) of None \<Rightarrow> Inl (SqlMissing ''rule'') | Some w \<Rightarrow> scanACLRule J w)"

definition sq_ListACLRules :: "StoreJson \<Rightarrow> SQLiteStore \<Rightarrow> (sqlite_error + ACLRule list) \<times> SQLiteStore" where
  "sq_ListACLRules J = sq_query ''list acl rules'' (\<lambda>d.
     scan_all (scanACLRule J) (sort_slice (\<lambda>a b. al_Priority (rw_rule a) < al_Priority (rw_rule b)) (sq_acls d)))"

definition sq_DeleteACLRule :: "string \<Rightarrow> SQLiteStore \<Rightarrow> sqlite_error option \<times> SQLiteStore" where
  "sq_DeleteACLRule ruleID = sq_exec ''delete acl rule'' (\<lambda>d. d\<lparr>sq_acls := drop_row rule_key ruleID (sq_acls d)\<rparr>)"

section \<open>Keys\<close>

definition sq_SaveKeyMaterial :: "KeyMaterial \<Rightarrow> SQLiteStore \<Rightarrow> sqlite_error option \<times> SQLiteStore" where
  "sq_SaveKeyMaterial km = sq_exec ''save key material'' (\<lambda>d. d\<lparr>sq_keys := put_row km_NodeID (\<lambda>q r. r) km (sq_keys d)\<rparr>)"

definition sq_GetKeyMaterial :: "string \<Rightarrow> SQLiteStore \<Rightarrow> (sqlite_error + KeyMaterial) \<times> SQLiteStore" where
  "sq_GetKeyMaterial nodeID = sq_query ''get key material'' (\<lambda>d.
     case row_of km_NodeID nodeID (sq_keys d) of None \<Rightarrow> Inl (SqlMissing ''key material'') | Some km \<Rightarrow> Inr km)"

section \<open>Addresses\<close>

text \<open>\<open>INSERT OR REPLACE\<close> deletes the row with the key and inserts the new one.\<close>

definition sq_SaveIPAllocation :: "string \<Rightarrow> 32 word \<Rightarrow> SQLiteStore \<Rightarrow> sqlite_error option \<times> SQLiteStore" where
  "sq_SaveIPAllocation nodeID ip = sq_exec ''save IP allocation'' (\<lambda>d. d\<lparr>sq_ips := drop_row fst nodeID (sq_ips d) @ [(nodeID, ip4_string ip)]\<rparr>)"

definition sq_GetIPAllocation :: "StoreJson \<Rightarrow> string \<Rightarrow> SQLiteStore \<Rightarrow> (sqlite_error + 32 word) \<times> SQLiteStore" where
  "sq_GetIPAllocation J nodeID = sq_query ''get IP allocation'' (\<lambda>d.
     case row_of fst nodeID (sq_ips d) of
       None \<Rightarrow> Inl (SqlMissing ''IP allocation'')
     | Some (k, t) \<Rightarrow> (case sj_ParseIP J t of None \<Rightarrow> Inl (SqlBadIP t) | Some ip \<Rightarrow> Inr ip))"

definition sq_DeleteIPAllocation :: "string \<Rightarrow> SQLiteStore \<Rightarrow> sqlite_error option \<times> SQLiteStore" where
  "sq_DeleteIPAllocation nodeID = sq_exec ''delete IP allocation'' (\<lambda>d. d\<lparr>sq_ips := drop_row fst nodeID (sq_ips d)\<rparr>)"

text \<open>A text that is no address is skipped.\<close>

definition sq_ListIPAllocations :: "StoreJson \<Rightarrow> SQLiteStore \<Rightarrow> (sqlite_error + (string, 32 word) fmap) \<times> SQLiteStore" where
  "sq_ListIPAllocations J = sq_query ''list IP allocations'' (\<lambda>d.
     Inr (fold (\<lambda>(k, t) m. case sj_ParseIP J t of None \<Rightarrow> m | Some ip \<Rightarrow> fmupd k ip m) (sq_ips d) fmempty))"

section \<open>Both stores\<close>

datatype store_call =
    CSaveNode nat
  | CDeleteNode string
  | CSaveRule ACLRule
  | CDeleteRule string
  | CSaveKey KeyMaterial
  | CSaveIP string "32 word"
  | CDeleteIP string

text \<open>The nodes that are saved live on a heap that no one writes.\<close>

fun sql_call :: "StoreJson \<Rightarrow> (nat \<Rightarrow> NodeInfo) \<Rightarrow> store_call \<Rightarrow> SQLiteStore \<Rightarrow> sqlite_error option \<times> SQLiteStore" where
  "sql_call J h (CSaveNode a) d = sq_SaveNode J (h a) d"
| "sql_call J h (CDeleteNode n) d = sq_DeleteNode n d"
| "sql_call J h (CSaveRule r) d = sq_SaveACLRule J r d"
| "sql_call J h (CDeleteRule i) d = sq_DeleteACLRule i d"
| "sql_call J h (CSaveKey k) d = sq_SaveKeyMaterial k d"
| "sql_call J h (CSaveIP n ip) d = sq_SaveIPAllocation n ip d"
| "sql_call J h (CDeleteIP n) d = sq_DeleteIPAllocation n d"

fun mem_call :: "(nat \<Rightarrow> NodeInfo) \<Rightarrow> store_call \<Rightarrow> MemoryStore \<Rightarrow> store_error option \<times> MemoryStore" where
  "mem_call h (CSaveNode a) s = SaveNode (ni_NodeID (h a)) a s"
| "mem_call h (CDeleteNode n) s = DeleteNode n s"
| "mem_call h (CSaveRule r) s = SaveACLRule r s"
| "mem_call h (CDeleteRule i) s = DeleteACLRule i s"
| "mem_call h (CSaveKey k) s = SaveKeyMaterial k s"
| "mem_call h (CSaveIP n ip) s = SaveIPAllocation n ip s"
| "mem_call h (CDeleteIP n) s = DeleteIPAllocation n s"

text \<open>What is saved survives its text.\<close>

fun call_ok :: "StoreJson \<Rightarrow> (nat \<Rightarrow> NodeInfo) \<Rightarrow> store_call \<Rightarrow> bool" where
  "call_ok J h (CSaveNode a) \<longleftrightarrow> (case sj_metadata J (ni_Metadata (h a)) of None \<Rightarrow> False
     | Some t \<Rightarrow> scanNode J \<lparr>nw_node = (h a)\<lparr>ni_Metadata := []\<rparr>, nw_metadata = t\<rparr> = Inr (h a))"
| "call_ok J h (CSaveRule r) \<longleftrightarrow> (case sj_ports J (al_Ports r) of None \<Rightarrow> False
     | Some t \<Rightarrow> scanACLRule J \<lparr>rw_rule = r\<lparr>al_Ports := []\<rparr>, rw_ports = t\<rparr> = Inr r)"
| "call_ok J h (CSaveIP n ip) \<longleftrightarrow> sj_ParseIP J (ip4_string ip) = Some ip"
| "call_ok J h c \<longleftrightarrow> True"

definition empty_sqlite :: SQLiteStore where
  "empty_sqlite = \<lparr>en_faults = [], en_now = 0, sq_columns = node_columns, sq_nodes = [], sq_acls = [], sq_keys = [], sq_ips = []\<rparr>"

definition without_created :: "ACLRule \<Rightarrow> ACLRule" where
  "without_created r = r\<lparr>al_CreatedAt := 0\<rparr>"

text \<open>The answer to a read is the same, up to the text of an error; \<open>None\<close> stands for one.\<close>

definition answer :: "'e + 'a \<Rightarrow> 'a option" where
  "answer r = (case r of Inl e \<Rightarrow> None | Inr v \<Rightarrow> Some v)"

definition stores_agree :: "StoreJson \<Rightarrow> (nat \<Rightarrow> NodeInfo) \<Rightarrow> SQLiteStore \<Rightarrow> MemoryStore \<Rightarrow> bool" where
  "stores_agree J h d s \<longleftrightarrow>
     (\<forall>n. answer (fst (sq_GetNode J n d)) = map_option h (answer (GetNode n s))) \<and>
     (\<forall>i. map_option without_created (answer (fst (sq_GetACLRule J i d))) = map_option without_created (answer (GetACLRule i s))) \<and>
     (\<forall>n. answer (fst (sq_GetKeyMaterial n d)) = answer (GetKeyMaterial n s)) \<and>
     (\<forall>n. answer (fst (sq_GetIPAllocation J n d)) = answer (GetIPAllocation n s)) \<and>
     answer (fst (sq_ListIPAllocations J d)) = answer (ListIPAllocations s)"

section \<open>The tables stand for the maps\<close>

definition node_rows_ok :: "StoreJson \<Rightarrow> (nat \<Rightarrow> NodeInfo) \<Rightarrow> NodeRow list \<Rightarrow> (string, nat) fmap \<Rightarrow> bool" where
  "node_rows_ok J h rows m \<longleftrightarrow> (\<forall>n. map_option (scanNode J) (row_of node_key n rows) = map_option (\<lambda>a. Inr (h a)) (fmlookup m n))"

definition rule_row_ok :: "StoreJson \<Rightarrow> RuleRow \<Rightarrow> ACLRule \<Rightarrow> bool" where
  "rule_row_ok J w r \<longleftrightarrow> (\<exists>c. scanACLRule J w = Inr (r\<lparr>al_CreatedAt := c\<rparr>))"

definition rule_rows_ok :: "StoreJson \<Rightarrow> RuleRow list \<Rightarrow> (string, ACLRule) fmap \<Rightarrow> bool" where
  "rule_rows_ok J rows m \<longleftrightarrow> (\<forall>i. rel_option (rule_row_ok J) (row_of rule_key i rows) (fmlookup m i))"

definition key_rows_ok :: "KeyMaterial list \<Rightarrow> (string, KeyMaterial) fmap \<Rightarrow> bool" where
  "key_rows_ok rows m \<longleftrightarrow> (\<forall>n. row_of km_NodeID n rows = fmlookup m n)"

definition ip_rows_ok :: "StoreJson \<Rightarrow> (string \<times> string) list \<Rightarrow> (string, 32 word) fmap \<Rightarrow> bool" where
  "ip_rows_ok J rows m \<longleftrightarrow> distinct (map fst rows) \<and> (\<forall>(k, t) \<in> set rows. sj_ParseIP J t \<noteq> None)
     \<and> (\<forall>n. map_option (sj_ParseIP J \<circ> snd) (row_of fst n rows) = map_option Some (fmlookup m n))"

definition rows_ok :: "StoreJson \<Rightarrow> (nat \<Rightarrow> NodeInfo) \<Rightarrow> SQLiteStore \<Rightarrow> MemoryStore \<Rightarrow> bool" where
  "rows_ok J h d s \<longleftrightarrow> en_faults d = [] \<and> node_rows_ok J h (sq_nodes d) (ms_nodes s) \<and> rule_rows_ok J (sq_acls d) (ms_acls s)
     \<and> key_rows_ok (sq_keys d) (ms_keys s) \<and> ip_rows_ok J (sq_ips d) (ms_ips s)"

lemma node_rows_put:
  assumes "node_rows_ok J h rows m" and "scanNode J w = Inr (h a)" and "node_key w = ni_NodeID (h a)"
  shows "node_rows_ok J h (put_row node_key (\<lambda>q r. r) w rows) (fmupd (ni_NodeID (h a)) a m)"
  using assms by (simp add: node_rows_ok_def row_of_put split: option.split)

lemma rule_scan_created:
  assumes "scanACLRule J w = Inr r"
  shows "scanACLRule J (rule_set q w) = Inr (r\<lparr>al_CreatedAt := al_CreatedAt (rw_rule q)\<rparr>)"
  using assms by (auto simp: scanACLRule_def rule_set_def Let_def split: if_splits option.splits)

lemma rule_rows_put:
  assumes "rule_rows_ok J rows m" and "scanACLRule J w = Inr r" and "rule_key w = al_ID r"
  shows "rule_rows_ok J (put_row rule_key rule_set w rows) (fmupd (al_ID r) r m)"
proof -
  have k: "rule_key (rule_set q w) = rule_key w" for q by (simp add: rule_set_def)
  have "rule_row_ok J w r" "rule_row_ok J (rule_set q w) r" for q
    using assms(2) rule_scan_created [OF assms(2), of q] by (auto simp: rule_row_ok_def intro: exI [of _ "al_CreatedAt r"])
  then show ?thesis using assms(1,3) by (auto simp: rule_rows_ok_def row_of_put k split: option.splits)
qed

lemma key_rows_put: "key_rows_ok rows m \<Longrightarrow> key_rows_ok (put_row km_NodeID (\<lambda>q r. r) k rows) (fmupd (km_NodeID k) k m)"
  by (simp add: key_rows_ok_def row_of_put split: option.split)

lemma row_of_append: "row_of key k (rows @ [r]) = (case row_of key k rows of None \<Rightarrow> if key r = k then Some r else None | Some q \<Rightarrow> Some q)"
  by (induction rows) (auto simp: row_of_def)

lemma set_drop: "set (drop_row key k rows) = {q \<in> set rows. key q \<noteq> k}"
  by (auto simp: drop_row_def sql_delete_def)

lemma ip_rows_put:
  assumes "ip_rows_ok J rows m" and "sj_ParseIP J t = Some ip"
  shows "ip_rows_ok J (drop_row fst n rows @ [(n, t)]) (fmupd n ip m)"
proof -
  have m: "map_option (sj_ParseIP J \<circ> snd) (row_of fst k rows) = map_option Some (fmlookup m k)" for k
    using assms(1) by (simp add: ip_rows_ok_def)
  have "map_option (sj_ParseIP J \<circ> snd) (row_of fst k (drop_row fst n rows @ [(n, t)])) = map_option Some (fmlookup (fmupd n ip m) k)" for k
    using m [of k] assms(2) by (cases "k = n"; cases "row_of fst k rows") (simp_all add: row_of_append row_of_drop)
  then show ?thesis using assms distinct_drop [of fst rows n] by (auto simp: ip_rows_ok_def set_drop)
qed

lemma ip_rows_drop: "ip_rows_ok J rows m \<Longrightarrow> ip_rows_ok J (drop_row fst n rows) (fmdrop n m)"
  by (auto simp: ip_rows_ok_def row_of_drop set_drop distinct_drop)

lemma call_rows:
  assumes "rows_ok J h d s" and "call_ok J h c"
  shows "fst (sql_call J h c d) = None \<and> rows_ok J h (snd (sql_call J h c d)) (snd (mem_call h c s))"
proof (cases c)
  case (CSaveNode a)
  then obtain t where "sj_metadata J (ni_Metadata (h a)) = Some t" "scanNode J \<lparr>nw_node = (h a)\<lparr>ni_Metadata := []\<rparr>, nw_metadata = t\<rparr> = Inr (h a)"
    using assms(2) by (auto split: option.splits)
  then show ?thesis using assms(1) CSaveNode node_rows_put [of J h "sq_nodes d" "ms_nodes s" _ a]
    by (simp add: rows_ok_def sq_SaveNode_def sq_exec_def SaveNode_def)
next
  case (CSaveRule r)
  then obtain t where "sj_ports J (al_Ports r) = Some t" "scanACLRule J \<lparr>rw_rule = r\<lparr>al_Ports := []\<rparr>, rw_ports = t\<rparr> = Inr r"
    using assms(2) by (auto split: option.splits)
  then show ?thesis using assms(1) CSaveRule rule_rows_put [of J "sq_acls d" "ms_acls s" _ r]
    by (simp add: rows_ok_def sq_SaveACLRule_def sq_exec_def SaveACLRule_def)
next
  case (CSaveIP n ip)
  then show ?thesis using assms ip_rows_put by (simp add: rows_ok_def sq_SaveIPAllocation_def sq_exec_def SaveIPAllocation_def)
qed (use assms(1) in \<open>simp_all add: rows_ok_def sq_DeleteNode_def sq_DeleteACLRule_def sq_SaveKeyMaterial_def sq_DeleteIPAllocation_def
    sq_exec_def DeleteNode_def DeleteACLRule_def SaveKeyMaterial_def DeleteIPAllocation_def node_rows_ok_def rule_rows_ok_def
    key_rows_put ip_rows_drop row_of_drop\<close>)

lemma list_ips:
  assumes "ip_rows_ok J rows m"
  shows "fold (\<lambda>(k, t) m. case sj_ParseIP J t of None \<Rightarrow> m | Some ip \<Rightarrow> fmupd k ip m) rows fmempty = m"
proof -
  have f: "fmlookup (fold (\<lambda>(k, t) m. case sj_ParseIP J t of None \<Rightarrow> m | Some ip \<Rightarrow> fmupd k ip m) rows m0) n =
      (case row_of fst n rows of None \<Rightarrow> fmlookup m0 n | Some q \<Rightarrow> sj_ParseIP J (snd q))"
    if "distinct (map fst rows)" "\<forall>(k, t) \<in> set rows. sj_ParseIP J t \<noteq> None" for m0 n
    using that
  proof (induction rows arbitrary: m0)
    case (Cons q rows)
    obtain k t where q: "q = (k, t)" by fastforce
    have "row_of fst k rows = None" using Cons.prems(1) q by (force simp: row_of_def find_None_iff)
    then show ?case using Cons q by (auto simp: row_of_def split: option.splits)
  qed (simp add: row_of_def)
  show ?thesis
  proof (rule fmap_ext)
    fix n
    have "map_option (sj_ParseIP J \<circ> snd) (row_of fst n rows) = map_option Some (fmlookup m n)"
      using assms by (simp add: ip_rows_ok_def)
    then show "fmlookup (fold (\<lambda>(k, t) m. case sj_ParseIP J t of None \<Rightarrow> m | Some ip \<Rightarrow> fmupd k ip m) rows fmempty) n = fmlookup m n"
      using assms f [of fmempty n] by (cases "row_of fst n rows"; cases "fmlookup m n") (simp_all add: ip_rows_ok_def)
  qed
qed

lemma rows_agree:
  assumes "rows_ok J h d s"
  shows "stores_agree J h d s"
proof -
  have f: "en_faults d = []" using assms by (simp add: rows_ok_def)
  have "answer (fst (sq_GetNode J n d)) = map_option h (answer (GetNode n s))" for n
    using assms f by (cases "row_of node_key n (sq_nodes d)"; cases "fmlookup (ms_nodes s) n")
      (auto simp: rows_ok_def node_rows_ok_def sq_GetNode_def sq_query_def GetNode_def answer_def dest: spec [of _ n])
  moreover have "map_option without_created (answer (fst (sq_GetACLRule J i d))) = map_option without_created (answer (GetACLRule i s))" for i
  proof -
    have "rel_option (rule_row_ok J) (row_of rule_key i (sq_acls d)) (fmlookup (ms_acls s) i)"
      using assms by (simp add: rows_ok_def rule_rows_ok_def)
    then show ?thesis using f by (cases rule: option.rel_cases)
      (auto simp: sq_GetACLRule_def sq_query_def GetACLRule_def answer_def rule_row_ok_def without_created_def)
  qed
  moreover have "answer (fst (sq_GetKeyMaterial n d)) = answer (GetKeyMaterial n s)" for n
    using assms f by (auto simp: rows_ok_def key_rows_ok_def sq_GetKeyMaterial_def sq_query_def GetKeyMaterial_def answer_def split: option.split)
  moreover have "answer (fst (sq_GetIPAllocation J n d)) = answer (GetIPAllocation n s)" for n
  proof -
    have "map_option (sj_ParseIP J \<circ> snd) (row_of fst n (sq_ips d)) = map_option Some (fmlookup (ms_ips s) n)"
      using assms by (simp add: rows_ok_def ip_rows_ok_def)
    then show ?thesis using f by (cases "row_of fst n (sq_ips d)"; cases "fmlookup (ms_ips s) n")
      (auto simp: sq_GetIPAllocation_def sq_query_def GetIPAllocation_def answer_def split: prod.splits)
  qed
  moreover have "answer (fst (sq_ListIPAllocations J d)) = answer (ListIPAllocations s)"
    using assms f list_ips [of J "sq_ips d" "ms_ips s"]
    by (simp add: rows_ok_def sq_ListIPAllocations_def sq_query_def ListIPAllocations_def answer_def)
  ultimately show ?thesis by (simp add: stores_agree_def)
qed

text \<open>
  C25: The persistent store does what the store in memory does. After every sequence of saves and deletions, on an
  engine that does not fail, the reads of the two stores agree: nodes, keys, addresses, the list of addresses, and
  access rules up to the time of creation. Assumed is of each value saved that it survives its text.
\<close>

theorem sqlite_refines:
  assumes "\<forall>c \<in> set calls. call_ok J h c"
  shows "stores_agree J h (fold (\<lambda>c d. snd (sql_call J h c d)) calls empty_sqlite) (fold (\<lambda>c s. snd (mem_call h c s)) calls NewMemoryStore)"
proof (rule rows_agree)
  have "rows_ok J h (fold (\<lambda>c d. snd (sql_call J h c d)) calls d) (fold (\<lambda>c s. snd (mem_call h c s)) calls s)" if "rows_ok J h d s" for d s
    using assms that by (induction calls arbitrary: d s) (simp_all add: call_rows)
  moreover have "rows_ok J h empty_sqlite NewMemoryStore"
    by (simp add: rows_ok_def empty_sqlite_def NewMemoryStore_def node_rows_ok_def rule_rows_ok_def key_rows_ok_def ip_rows_ok_def row_of_def)
  ultimately show "rows_ok J h (fold (\<lambda>c d. snd (sql_call J h c d)) calls empty_sqlite) (fold (\<lambda>c s. snd (mem_call h c s)) calls NewMemoryStore)"
    by blast
qed

text \<open>
  The time of creation is where they differ. Saving a rule again gives the store in memory the new time, while the
  persistent store keeps the first one.
\<close>

theorem created_kept:
  assumes "en_faults d = []" and "call_ok J h (CSaveRule r)" and "call_ok J h (CSaveRule r')" and "al_ID r' = al_ID r"
    and "row_of rule_key (al_ID r) (sq_acls d) = None"
  shows "fst (sq_GetACLRule J (al_ID r) (snd (sq_SaveACLRule J r' (snd (sq_SaveACLRule J r d))))) = Inr (r'\<lparr>al_CreatedAt := al_CreatedAt r\<rparr>)
    \<and> GetACLRule (al_ID r) (snd (SaveACLRule r' (snd (SaveACLRule r s)))) = Inr r'"
proof -
  obtain t t' where t: "sj_ports J (al_Ports r) = Some t" "sj_ports J (al_Ports r') = Some t'"
    "scanACLRule J \<lparr>rw_rule = r'\<lparr>al_Ports := []\<rparr>, rw_ports = t'\<rparr> = Inr r'"
    using assms(2,3) by (auto split: option.splits)
  have k: "rule_key (rule_set q w) = rule_key w" for q w by (simp add: rule_set_def)
  show ?thesis using assms t rule_scan_created [OF t(3)]
    by (simp add: sq_SaveACLRule_def sq_GetACLRule_def sq_exec_def sq_query_def row_of_put k GetACLRule_def SaveACLRule_def)
qed

section \<open>An example\<close>

definition ex_json :: StoreJson where
  "ex_json = \<lparr>sj_metadata = (\<lambda>m. if m = [] then Some ''{}'' else None), sj_read_metadata = (\<lambda>t. None),
     sj_ports = (\<lambda>ps. if ps = [] then Some ''[]'' else if ps = [22] then Some ''[22]'' else None),
     sj_read_ports = (\<lambda>t. if t = ''[22]'' then Some [22] else None), sj_ParseIP = (\<lambda>t. if t = ''10.0.0.2'' then Some 167772162 else None)\<rparr>"

definition ex_rule :: "gotime \<Rightarrow> ACLRule" where
  "ex_rule t = \<lparr>al_ID = ''r'', al_Source = ''a'', al_Target = ''b'', al_Action = ''allow'', al_Protocol = ''tcp'', al_Ports = [22], al_Priority = 1,
     al_ExpiresAt = None, al_CreatedAt = t\<rparr>"

definition ex_info :: NodeInfo where
  "ex_info = \<lparr>ni_NodeID = ''a'', ni_PublicKey = ''k'', ni_NATType = [], ni_Region = [], ni_Subnet = [], ni_VirtualIP = [], ni_Metadata = [],
     ni_ConnectedAt = 0, ni_LastSeen = 0\<rparr>"

theorem sqlite_refines_witness:
  "let calls = [CSaveNode 0, CSaveIP ''a'' 167772162, CSaveRule (ex_rule 1), CSaveRule (ex_rule 2)] in
    stores_agree ex_json (\<lambda>_. ex_info) (fold (\<lambda>c d. snd (sql_call ex_json (\<lambda>_. ex_info) c d)) calls empty_sqlite)
      (fold (\<lambda>c s. snd (mem_call (\<lambda>_. ex_info) c s)) calls NewMemoryStore)"
proof -
  have "\<forall>c \<in> set [CSaveNode 0, CSaveIP ''a'' 167772162, CSaveRule (ex_rule 1), CSaveRule (ex_rule 2)]. call_ok ex_json (\<lambda>_. ex_info) c"
    by code_simp
  from sqlite_refines [OF this] show ?thesis by (simp only: Let_def)
qed

theorem created_kept_witness:
  "fst (sq_GetACLRule ex_json ''r'' (snd (sq_SaveACLRule ex_json (ex_rule 2) (snd (sq_SaveACLRule ex_json (ex_rule 1) empty_sqlite))))) = Inr (ex_rule 1)"
proof -
  have h: "en_faults empty_sqlite = []" "call_ok ex_json (\<lambda>_. ex_info) (CSaveRule (ex_rule 1))" "call_ok ex_json (\<lambda>_. ex_info) (CSaveRule (ex_rule 2))"
    "al_ID (ex_rule 2) = al_ID (ex_rule 1)" "row_of rule_key (al_ID (ex_rule 1)) (sq_acls empty_sqlite) = None"
    by code_simp+
  from created_kept [OF h] show ?thesis by (simp add: ex_rule_def)
qed

end
