(* ===== verification/Desktop_Network.thy ===== *)
theory Desktop_Network
  imports Desktop_Props Virtual_Apply Net_Addr
begin

text \<open>
  The virtual network of the desktop application (the network part of \<open>desktop/app.go\<close>): the configuration is
  fetched from the control plane over HTTP, a device is created on Windows, and the manager of \<open>Virtual_Apply\<close>
  applies it. Errors are their texts, since the application decides by the text whether to try again. The host,
  of any type, carries the network, the devices and the routes; what changes it is an argument.
\<close>

section \<open>State\<close>

record TUNConfig =
  tu_Name :: string
  tu_MTU :: int
  tu_LocalIP :: netip
  tu_PeerIP :: netip
  tu_Subnet :: ipnet

text \<open>A response is its status and its body, which may fail to be read. A device is a handle.\<close>

record 'os NetLib =
  nl_platform :: "'os platform"
  nl_PathEscape :: "string \<Rightarrow> string"
  nl_NewRequest :: "string \<Rightarrow> string option"
  nl_do :: "string \<Rightarrow> string \<Rightarrow> string \<Rightarrow> string \<Rightarrow> 'os \<Rightarrow> (string + int \<times> (string + string)) \<times> 'os"
  nl_registration :: "string \<Rightarrow> string"
  nl_decode :: "string \<Rightarrow> string + VConfig"
  nl_exists :: "string \<Rightarrow> 'os \<Rightarrow> (string + bool) \<times> 'os"
  nl_create :: "TUNConfig \<Rightarrow> 'os \<Rightarrow> (string + nat option) \<times> 'os"
  nl_name :: "nat \<Rightarrow> 'os \<Rightarrow> string + string"
  nl_close :: "nat \<Rightarrow> 'os \<Rightarrow> 'os"
  nl_macos :: "VConfig \<Rightarrow> nat option \<Rightarrow> 'os \<Rightarrow> (string + VConfig) \<times> nat option \<times> 'os"
  nl_ParseIP :: "string \<Rightarrow> netip"
  nl_ParseCIDR :: "string \<Rightarrow> string + ipnet"
  nl_vn_text :: "vn_error \<Rightarrow> string"

record 'os NetApp =
  na_app :: DesktopApp
  na_vnet :: VState
  na_tun :: "nat option"
  na_os :: 'os

section \<open>The control plane\<close>

definition base_url :: "AppLib \<Rightarrow> string \<Rightarrow> string + string" where
  "base_url lib raw = (case normalizeHTTPBaseURL (al_url lib) raw of Inl e \<Rightarrow> Inl (al_err lib (ASettings e)) | Inr u \<Rightarrow> Inr u)"

text \<open>A request and its answer. The steps of an error are named in its text.\<close>

definition call_api ::
    "'os NetLib \<Rightarrow> string \<Rightarrow> string \<Rightarrow> string \<Rightarrow> string \<Rightarrow> string \<Rightarrow> string \<Rightarrow> string \<Rightarrow> string \<Rightarrow> 'os \<Rightarrow> (string + string) \<times> 'os" where
  "call_api nl method target token payload creating doing reading failed os =
     (case nl_NewRequest nl target of
        Some e \<Rightarrow> (Inl (creating @ '': '' @ e), os)
      | None \<Rightarrow>
          (case nl_do nl method target token payload os of
             (Inl e, os) \<Rightarrow> (Inl (doing @ '': '' @ e), os)
           | (Inr (status, Inl e), os) \<Rightarrow> (Inl (reading @ '': '' @ e), os)
           | (Inr (status, Inr body), os) \<Rightarrow>
               if status < 200 \<or> status \<ge> 300
               then (Inl (failed @ '': HTTP '' @ int_str status @ '' '' @ trim_space body), os)
               else (Inr body, os)))"

definition fetchVirtualNetworkConfig :: "AppLib \<Rightarrow> 'os NetLib \<Rightarrow> string \<Rightarrow> string \<Rightarrow> string \<Rightarrow> 'os \<Rightarrow> (string + VConfig) \<times> 'os" where
  "fetchVirtualNetworkConfig lib nl baseURL token nodeID os =
     (case base_url lib baseURL of
        Inl e \<Rightarrow> (Inl e, os)
      | Inr u \<Rightarrow>
          (case call_api nl ''GET'' (u @ ''/api/v1/nodes/'' @ nl_PathEscape nl nodeID @ ''/routes'') token []
              ''create route config request'' ''fetch route config'' ''read route config response'' ''fetch route config failed'' os of
             (Inl e, os) \<Rightarrow> (Inl e, os)
           | (Inr body, os) \<Rightarrow>
               (case nl_decode nl body of
                  Inl e \<Rightarrow> (Inl (''decode route config: '' @ e), os)
                | Inr cfg \<Rightarrow> (Inr cfg, os))))"

definition registerControlPlaneNode :: "AppLib \<Rightarrow> 'os NetLib \<Rightarrow> string \<Rightarrow> string \<Rightarrow> string \<Rightarrow> 'os \<Rightarrow> string option \<times> 'os" where
  "registerControlPlaneNode lib nl baseURL token nodeID os =
     (case base_url lib baseURL of
        Inl e \<Rightarrow> (Some e, os)
      | Inr u \<Rightarrow>
          (case call_api nl ''POST'' (u @ ''/api/v1/nodes'') token (nl_registration nl nodeID)
              ''create node registration request'' ''register control plane node'' ''read node registration response''
              ''register control plane node failed'' os of
             (Inl e, os) \<Rightarrow> (Some e, os)
           | (Inr body, os) \<Rightarrow> (None, os)))"

definition isMissingVirtualIPAllocationError :: "string \<Rightarrow> bool" where
  "isMissingVirtualIPAllocationError e \<longleftrightarrow> has_substring e ''IP allocation not found'' \<or> has_substring e ''get virtual IP''"

definition fetchVirtualNetworkConfigWithRegistration ::
    "AppLib \<Rightarrow> 'os NetLib \<Rightarrow> string \<Rightarrow> string \<Rightarrow> string \<Rightarrow> 'os \<Rightarrow> (string + VConfig) \<times> 'os" where
  "fetchVirtualNetworkConfigWithRegistration lib nl baseURL token nodeID os =
     (case registerControlPlaneNode lib nl baseURL token nodeID os of
        (Some e, os) \<Rightarrow> (Inl e, os)
      | (None, os) \<Rightarrow>
          (case fetchVirtualNetworkConfig lib nl baseURL token nodeID os of
             (Inr cfg, os) \<Rightarrow> (Inr cfg, os)
           | (Inl e, os) \<Rightarrow>
               if \<not> isMissingVirtualIPAllocationError e then (Inl e, os)
               else (case registerControlPlaneNode lib nl baseURL token nodeID os of
                       (Some e, os) \<Rightarrow> (Inl e, os)
                     | (None, os) \<Rightarrow> fetchVirtualNetworkConfig lib nl baseURL token nodeID os)))"

section \<open>The device\<close>

abbreviation DefaultTUNMTU :: int where "DefaultTUNMTU \<equiv> 1420"

definition tunConfigFromVirtualNetworkConfig :: "'os NetLib \<Rightarrow> VConfig \<Rightarrow> string + TUNConfig" where
  "tunConfigFromVirtualNetworkConfig nl cfg =
     (let virtualIP = nl_ParseIP nl (trim_space (vc_VirtualIP cfg));
          gateway = trim_space (vc_Gateway cfg);
          gatewayIP = (if gateway = [] then NilIP else nl_ParseIP nl gateway) in
      if virtualIP = NilIP then Inl (''virtual_ip is invalid: '' @ vc_VirtualIP cfg)
      else if gateway \<noteq> [] \<and> gatewayIP = NilIP then Inl (''gateway is invalid: '' @ vc_Gateway cfg)
      else (case nl_ParseCIDR nl (trim_space (vc_Subnet cfg)) of
              Inl e \<Rightarrow> Inl (''subnet is invalid: '' @ e)
            | Inr subnet \<Rightarrow> Inr \<lparr>tu_Name = trim_space (vc_Interface cfg), tu_MTU = (if vc_MTU cfg = 0 then DefaultTUNMTU else vc_MTU cfg),
                tu_LocalIP = virtualIP, tu_PeerIP = gatewayIP, tu_Subnet = subnet\<rparr>))"

text \<open>The device that the application holds, unless it is another one, which is closed first.\<close>

definition windows_device :: "'os NetLib \<Rightarrow> VConfig \<Rightarrow> string \<Rightarrow> 'os \<Rightarrow> string option \<times> nat option \<times> 'os" where
  "windows_device nl cfg interfaceName os =
     (case nl_exists nl interfaceName os of
        (Inl e, os) \<Rightarrow> (Some (''check interface '' @ interfaceName @ '': '' @ e), None, os)
      | (Inr True, os) \<Rightarrow> (None, None, os)
      | (Inr False, os) \<Rightarrow>
          (case tunConfigFromVirtualNetworkConfig nl cfg of
             Inl e \<Rightarrow> (Some e, None, os)
           | Inr t \<Rightarrow>
               (case nl_create nl t os of
                  (Inl e, os) \<Rightarrow> (Some (''create adapter '' @ interfaceName @ '': '' @ e), None, os)
                | (Inr None, os) \<Rightarrow> (Some (''create adapter '' @ interfaceName @ '': no device''), None, os)
                | (Inr (Some d), os) \<Rightarrow> (None, Some d, os))))"

definition ensureVirtualNetworkDeviceForPlatform ::
    "'os NetLib \<Rightarrow> string \<Rightarrow> VConfig \<Rightarrow> nat option \<Rightarrow> 'os \<Rightarrow> (string + VConfig) \<times> nat option \<times> 'os" where
  "ensureVirtualNetworkDeviceForPlatform nl goos cfg tun os =
     (if goos = ''darwin'' then nl_macos nl cfg tun os
      else if goos \<noteq> ''windows'' then (Inr cfg, tun, os)
      else
        let interfaceName = trim_space (vc_Interface cfg) in
        if interfaceName = [] then (Inl ''interface is required'', tun, os)
        else (case tun of
          Some d \<Rightarrow>
            if (case nl_name nl d os of Inl e \<Rightarrow> False | Inr n \<Rightarrow> to_lower (trim_space n) = to_lower interfaceName) then (Inr cfg, tun, os)
            else (case windows_device nl cfg interfaceName (nl_close nl d os) of
                    (Some e, tun, os) \<Rightarrow> (Inl e, tun, os) | (None, tun, os) \<Rightarrow> (Inr cfg, tun, os))
        | None \<Rightarrow>
            (case windows_device nl cfg interfaceName os of
               (Some e, tun, os) \<Rightarrow> (Inl e, tun, os) | (None, tun, os) \<Rightarrow> (Inr cfg, tun, os))))"

definition closeVirtualNetworkDevice :: "'os NetLib \<Rightarrow> 'os NetApp \<Rightarrow> 'os NetApp" where
  "closeVirtualNetworkDevice nl n =
     (case na_tun n of None \<Rightarrow> n | Some d \<Rightarrow> n\<lparr>na_tun := None, na_os := nl_close nl d (na_os n)\<rparr>)"

section \<open>The operations\<close>

definition net_fails :: "AppLib \<Rightarrow> string \<Rightarrow> 'os NetApp \<Rightarrow> string option \<times> 'os NetApp" where
  "net_fails lib e n = (Some e, n\<lparr>na_app := recordError lib (AText e) (na_app n)\<rparr>)"

definition ApplyVirtualNetwork :: "AppLib \<Rightarrow> 'os NetLib \<Rightarrow> 'os NetApp \<Rightarrow> string option \<times> 'os NetApp" where
  "ApplyVirtualNetwork lib nl n =
     (let (settings, a) = GetServerSettings lib (na_app n);
          n = n\<lparr>na_app := a\<rparr> in
      if trim_space (ss_ControlPlaneURL settings) = [] then net_fails lib ''control plane url is required'' n
      else
        let (clientID, a) = getOrCreateClientID lib a;
            n = n\<lparr>na_app := a\<rparr> in
        (case fetchVirtualNetworkConfigWithRegistration lib nl (ss_ControlPlaneURL settings) (ss_ControlPlaneToken settings) clientID (na_os n) of
           (Inl e, os) \<Rightarrow> net_fails lib e (n\<lparr>na_os := os\<rparr>)
         | (Inr cfg, os) \<Rightarrow>
             (case ensureVirtualNetworkDeviceForPlatform nl (pf_goos (nl_platform nl)) cfg (na_tun n) os of
                (Inl e, tun, os) \<Rightarrow> net_fails lib e (n\<lparr>na_tun := tun, na_os := os\<rparr>)
              | (Inr cfg, tun, os) \<Rightarrow>
                  (case vn_Apply (nl_platform nl) cfg (na_vnet n, os) of
                     (Some e, s, os) \<Rightarrow> net_fails lib (nl_vn_text nl e) (n\<lparr>na_tun := tun, na_vnet := s, na_os := os\<rparr>)
                   | (None, s, os) \<Rightarrow>
                       (None, n\<lparr>na_tun := tun, na_vnet := s, na_os := os,
                          na_app := logged lib ''security'' ''apply_virtual_network'' ''virtual_network'' clientID
                            [(''client_id'', clientID), (''virtual_ip'', vs_VirtualIP s), (''route_count'', nat_str (length (vs_Routes s)))]
                            (clearError (na_app n))\<rparr>)))))"

definition ResetVirtualNetwork :: "AppLib \<Rightarrow> 'os NetLib \<Rightarrow> 'os NetApp \<Rightarrow> string option \<times> 'os NetApp" where
  "ResetVirtualNetwork lib nl n =
     (case vn_Reset (nl_platform nl) (na_vnet n, na_os n) of
        (Some e, s, os) \<Rightarrow> net_fails lib (nl_vn_text nl e) (n\<lparr>na_vnet := s, na_os := os\<rparr>)
      | (None, s, os) \<Rightarrow>
          let n = closeVirtualNetworkDevice nl (n\<lparr>na_vnet := s, na_os := os\<rparr>) in
          (None, n\<lparr>na_app := logged lib ''security'' ''reset_virtual_network'' ''virtual_network'' [] [] (clearError (na_app n))\<rparr>))"

text \<open>The end of the application: the manager is stopped and the device closed.\<close>

definition app_shutdown :: "'os NetLib \<Rightarrow> 'os NetApp \<Rightarrow> 'os NetApp" where
  "app_shutdown nl n =
     closeVirtualNetworkDevice nl (n\<lparr>na_app := (case cur_manager (na_app n) of None \<Rightarrow> na_app n | Some m \<Rightarrow> put_manager (mn_Stop m) (na_app n))\<rparr>)"

section \<open>Devices\<close>

text \<open>
  What the host promises, where \<open>opened\<close> reads the devices that are open off it: creating a device opens it,
  closing closes it, and nothing else that the application calls opens or closes one.
\<close>

definition host_laws :: "'os NetLib \<Rightarrow> ('os \<Rightarrow> nat set) \<Rightarrow> bool" where
  "host_laws nl opened \<longleftrightarrow>
     (\<forall>m u t b os. opened (snd (nl_do nl m u t b os)) = opened os) \<and>
     (\<forall>i os. opened (snd (nl_exists nl i os)) = opened os) \<and>
     (\<forall>t os. opened (snd (nl_create nl t os)) = opened os \<union> (case fst (nl_create nl t os) of Inr (Some d) \<Rightarrow> {d} | _ \<Rightarrow> {})) \<and>
     (\<forall>d os. opened (nl_close nl d os) = opened os - {d}) \<and>
     (\<forall>c os. opened (snd (pf_run (nl_platform nl) c os)) = opened os) \<and>
     (\<forall>chk i os. pf_checker (nl_platform nl) = Some chk \<longrightarrow> opened (snd (chk i os)) = opened os)"

definition holds_open :: "('os \<Rightarrow> nat set) \<Rightarrow> nat option \<Rightarrow> 'os \<Rightarrow> bool" where
  "holds_open opened tun os \<longleftrightarrow> opened os = set_option tun"

lemma api_open: "host_laws nl opened \<Longrightarrow> call_api nl m u t b c d r f os = (x, os') \<Longrightarrow> opened os' = opened os"
  by (auto simp: call_api_def host_laws_def split: option.splits prod.splits sum.splits if_splits) (metis snd_conv)+

lemma fetch_open: "host_laws nl opened \<Longrightarrow> fetchVirtualNetworkConfig lib nl u t i os = (x, os') \<Longrightarrow> opened os' = opened os"
  by (auto simp: fetchVirtualNetworkConfig_def split: sum.splits prod.splits dest: api_open)

lemma register_open: "host_laws nl opened \<Longrightarrow> registerControlPlaneNode lib nl u t i os = (x, os') \<Longrightarrow> opened os' = opened os"
  by (auto simp: registerControlPlaneNode_def split: sum.splits prod.splits dest: api_open)

lemma fetch_registered_open:
  assumes "host_laws nl opened" and "fetchVirtualNetworkConfigWithRegistration lib nl u t i os = (x, os')"
  shows "opened os' = opened os"
proof -
  obtain r os1 where r: "registerControlPlaneNode lib nl u t i os = (r, os1)" by fastforce
  obtain f os2 where f: "fetchVirtualNetworkConfig lib nl u t i os1 = (f, os2)" by fastforce
  obtain r' os3 where r': "registerControlPlaneNode lib nl u t i os2 = (r', os3)" by fastforce
  obtain f' os4 where f': "fetchVirtualNetworkConfig lib nl u t i os3 = (f', os4)" by fastforce
  have "os' \<in> {os1, os2, os3, os4}"
    using assms(2) r f r' f' by (cases r; cases f; cases r') (simp_all add: fetchVirtualNetworkConfigWithRegistration_def split: if_splits)
  moreover have "opened os1 = opened os" "opened os2 = opened os1" "opened os3 = opened os2" "opened os4 = opened os3"
    using register_open [OF assms(1) r] fetch_open [OF assms(1) f] register_open [OF assms(1) r'] fetch_open [OF assms(1) f'] .
  ultimately show ?thesis by auto
qed

lemma device_open:
  assumes "host_laws nl opened" and "windows_device nl cfg i os = (x, tun, os')" and "opened os = {}"
  shows "holds_open opened tun os'"
proof -
  obtain r os1 where r: "nl_exists nl i os = (r, os1)" by fastforce
  have "opened (snd (nl_exists nl i os)) = opened os" using assms(1) by (simp add: host_laws_def)
  then have o: "opened os1 = {}" using assms(3) r by simp
  show ?thesis
  proof (cases "r = Inr False \<and> (\<exists>t. tunConfigFromVirtualNetworkConfig nl cfg = Inr t)")
    case True
    then obtain t where t: "tunConfigFromVirtualNetworkConfig nl cfg = Inr t" by blast
    obtain q os2 where q: "nl_create nl t os1 = (q, os2)" by fastforce
    have "opened (snd (nl_create nl t os1)) = opened os1 \<union> (case fst (nl_create nl t os1) of Inr (Some d) \<Rightarrow> {d} | _ \<Rightarrow> {})"
      using assms(1) by (simp add: host_laws_def)
    then have "opened os2 = (case q of Inr (Some d) \<Rightarrow> {d} | _ \<Rightarrow> {})" using q o by simp
    then show ?thesis using assms(2) r q t True
      by (auto simp: windows_device_def holds_open_def split: sum.splits option.splits)
  next
    case False
    then have "tun = None \<and> os' = os1" using assms(2) r
      by (cases r; cases "tunConfigFromVirtualNetworkConfig nl cfg") (auto simp: windows_device_def split: bool.splits)
    then show ?thesis using o by (simp add: holds_open_def)
  qed
qed

lemma ensure_open:
  assumes "host_laws nl opened" and "ensureVirtualNetworkDeviceForPlatform nl goos cfg tun os = (x, tun', os')"
    and "holds_open opened tun os" and "goos \<noteq> ''darwin''"
  shows "holds_open opened tun' os'"
proof (cases tun)
  case None
  then show ?thesis using assms device_open [OF assms(1)]
    by (auto simp: ensureVirtualNetworkDeviceForPlatform_def holds_open_def Let_def split: if_splits prod.splits option.splits)
next
  case (Some d)
  have "opened (nl_close nl d os) = {}" using assms(1,3) Some by (simp add: host_laws_def holds_open_def)
  then show ?thesis using assms Some device_open [OF assms(1)]
    by (auto simp: ensureVirtualNetworkDeviceForPlatform_def holds_open_def Let_def split: if_splits prod.splits option.splits)
qed

lemma commands_open: "host_laws nl opened \<Longrightarrow> run_commands (pf_run (nl_platform nl)) cs os = (x, ts, os') \<Longrightarrow> opened os' = opened os"
proof (induction cs arbitrary: os x ts)
  case (Cons c cs)
  obtain r os1 where r: "pf_run (nl_platform nl) c os = (r, os1)" by fastforce
  have "opened os1 = opened os" using Cons.prems(1) r by (metis host_laws_def snd_conv)
  then show ?case using Cons.prems r Cons.IH by (auto split: option.splits prod.splits)
qed simp

lemma attempts_open:
  assumes "\<forall>i os. opened (snd (chk i os)) = opened os" and "interface_attempts chk i k os = (x, os')"
  shows "opened os' = opened os"
  using assms(2)
proof (induction k arbitrary: os)
  case (Suc k)
  obtain r os1 where r: "chk i os = (r, os1)" by fastforce
  moreover have "opened (snd (chk i os)) = opened os" using assms(1) by blast
  ultimately show ?case using Suc by (auto split: sum.splits if_splits)
qed simp

lemma apply_open:
  assumes "host_laws nl opened" and "vn_Apply (nl_platform nl) cfg (s, os) = (x, s', os')" and "pf_apply (nl_platform nl) = None"
  shows "opened os' = opened os"
proof -
  obtain q os1 where q: "ensureApplyPreconditions (nl_platform nl) cfg os = (q, os1)" by fastforce
  have "opened os1 = opened os"
  proof (cases "pf_checker (nl_platform nl)")
    case (Some chk)
    have "\<forall>i os. opened (snd (chk i os)) = opened os" using assms(1) Some by (simp add: host_laws_def)
    moreover have "os1 = os \<or> (\<exists>i k. interface_attempts chk i k os = (q, os1))"
      using q Some by (auto simp: ensureApplyPreconditions_def ensureWindowsInterfaceAvailable_def split: if_splits)
    ultimately show ?thesis using attempts_open by metis
  qed (use q in \<open>simp add: ensureApplyPreconditions_def\<close>)
  moreover have "os' \<in> {os, os1} \<or> (\<exists>cs y ts. run_commands (pf_run (nl_platform nl)) cs os1 = (y, ts, os'))"
    using assms(2,3) q by (auto simp: vn_Apply_def split: option.splits sum.splits prod.splits)
  ultimately show ?thesis using commands_open [OF assms(1)] by (metis insertE singletonD)
qed

lemma reset_open:
  assumes "host_laws nl opened" and "vn_Reset (nl_platform nl) (s, os) = (x, s', os')" and "pf_apply (nl_platform nl) = None"
  shows "opened os' = opened os"
proof -
  have "os' = os \<or> (\<exists>cs y ts. run_commands (pf_run (nl_platform nl)) cs os = (y, ts, os'))"
    using assms(2,3) by (auto simp: vn_Reset_def split: if_splits option.splits sum.splits prod.splits)
  then show ?thesis using commands_open [OF assms(1)] by metis
qed

section \<open>Runs\<close>

text \<open>Between two operations the rest of the application goes on: each one finds it in a state of its own.\<close>

datatype net_op = NApply DesktopApp | NReset DesktopApp

fun run_op :: "AppLib \<Rightarrow> 'os NetLib \<Rightarrow> net_op \<Rightarrow> 'os NetApp \<Rightarrow> 'os NetApp" where
  "run_op lib nl (NApply a) n = snd (ApplyVirtualNetwork lib nl (n\<lparr>na_app := a\<rparr>))"
| "run_op lib nl (NReset a) n = snd (ResetVirtualNetwork lib nl (n\<lparr>na_app := a\<rparr>))"

lemma close_open:
  assumes "host_laws nl opened" and "holds_open opened (na_tun n) (na_os n)"
  shows "na_tun (closeVirtualNetworkDevice nl n) = None \<and> opened (na_os (closeVirtualNetworkDevice nl n)) = {}"
  using assms by (simp add: closeVirtualNetworkDevice_def holds_open_def host_laws_def split: option.split)

lemma apply_op_open:
  assumes "host_laws nl opened" and "pf_apply (nl_platform nl) = None" and "pf_goos (nl_platform nl) \<noteq> ''darwin''"
    and "holds_open opened (na_tun n) (na_os n)"
  shows "holds_open opened (na_tun (snd (ApplyVirtualNetwork lib nl n))) (na_os (snd (ApplyVirtualNetwork lib nl n)))"
proof -
  obtain settings a where s: "GetServerSettings lib (na_app n) = (settings, a)" by fastforce
  obtain i b where i: "getOrCreateClientID lib a = (i, b)" by fastforce
  obtain r os1 where r: "fetchVirtualNetworkConfigWithRegistration lib nl (ss_ControlPlaneURL settings) (ss_ControlPlaneToken settings) i (na_os n) = (r, os1)"
    by fastforce
  have o1: "holds_open opened (na_tun n) os1" using assms(4) fetch_registered_open [OF assms(1) r] by (simp add: holds_open_def)
  show ?thesis
  proof (cases "trim_space (ss_ControlPlaneURL settings) = [] \<or> (\<exists>e. r = Inl e)")
    case True
    then show ?thesis using s i r o1 assms(4) by (auto simp: ApplyVirtualNetwork_def net_fails_def Let_def)
  next
    case False
    then obtain cfg where cfg: "r = Inr cfg" by (cases r) auto
    obtain q tun os2 where q: "ensureVirtualNetworkDeviceForPlatform nl (pf_goos (nl_platform nl)) cfg (na_tun n) os1 = (q, tun, os2)"
      by (metis prod_cases3)
    have o2: "holds_open opened tun os2" by (rule ensure_open [OF assms(1) q o1 assms(3)])
    show ?thesis
    proof (cases q)
      case (Inl e)
      then show ?thesis using False s i r cfg q o2 by (simp add: ApplyVirtualNetwork_def net_fails_def Let_def)
    next
      case (Inr c)
      obtain x v os3 where x: "vn_Apply (nl_platform nl) c (na_vnet n, os2) = (x, v, os3)" by (metis prod_cases3)
      have "holds_open opened tun os3" using o2 apply_open [OF assms(1) x assms(2)] by (simp add: holds_open_def)
      then show ?thesis using False s i r cfg q Inr x by (cases x) (simp_all add: ApplyVirtualNetwork_def net_fails_def Let_def)
    qed
  qed
qed

lemma reset_op_open:
  assumes "host_laws nl opened" and "pf_apply (nl_platform nl) = None" and "holds_open opened (na_tun n) (na_os n)"
  shows "holds_open opened (na_tun (snd (ResetVirtualNetwork lib nl n))) (na_os (snd (ResetVirtualNetwork lib nl n)))"
proof -
  obtain x v os where x: "vn_Reset (nl_platform nl) (na_vnet n, na_os n) = (x, v, os)" by (metis prod_cases3)
  have o: "holds_open opened (na_tun n) os" using assms(3) reset_open [OF assms(1) x assms(2)] by (simp add: holds_open_def)
  then have "holds_open opened (na_tun (n\<lparr>na_vnet := v, na_os := os\<rparr>)) (na_os (n\<lparr>na_vnet := v, na_os := os\<rparr>))" by simp
  from close_open [OF assms(1) this] o x show ?thesis
    by (cases x) (simp_all add: ResetVirtualNetwork_def net_fails_def Let_def holds_open_def)
qed


text \<open>
  A network that failed to apply is reported as reset and stays. When \<open>ApplyVirtualNetwork\<close> fails after it has
  run commands, the next \<open>ResetVirtualNetwork\<close> reports success and clears the error, but runs no command: the host
  is as the failure left it, but for the device, which is closed.
\<close>

theorem failed_network_stays:
  assumes "ApplyVirtualNetwork lib nl n = (Some e, n')" and "pf_apply (nl_platform nl) = None"
    and "vs_LastCommands (na_vnet n') \<noteq> vs_LastCommands (na_vnet n)"
  shows "\<exists>r. ResetVirtualNetwork lib nl n' = (None, r) \<and> na_vnet r = na_vnet n' \<and> ap_lastErr (na_app r) = None
    \<and> na_os r = (case na_tun n' of None \<Rightarrow> na_os n' | Some d \<Rightarrow> nl_close nl d (na_os n'))"
proof -
  have a: "\<not> vs_Applied v" if "vn_Apply (nl_platform nl) c (s, os) = (Some x, v, os')" "vs_LastCommands v \<noteq> vs_LastCommands s" for c s os x v os'
    using that assms(2) by (auto simp: vn_Apply_def stateFromConfig_def split: option.splits sum.splits prod.splits)
  have "\<not> vs_Applied (na_vnet n')"
    using assms(1,3) by (auto simp: ApplyVirtualNetwork_def net_fails_def Let_def split: if_splits prod.splits sum.splits option.splits dest!: a)
  moreover have "ap_lastErr (logged lib c k t i md (clearError x)) = None" for c k t i md x
    by (simp add: logged_def appendActivityLog_def clearError_def new_uuid_def on_db_def Let_def split: prod.split)
  ultimately show ?thesis
    by (simp add: ResetVirtualNetwork_def vn_Reset_def closeVirtualNetworkDevice_def Let_def split: option.split)
qed

section \<open>A host\<close>

text \<open>
  The host is the number of the next device, the open ones, and the commands that ran; the command with the text
  \<open>route\<close> fails. The control plane always answers the same configuration.
\<close>

type_synonym ex_host = "nat \<times> nat list \<times> systemCommand list"

definition ex_network :: VConfig where
  "ex_network = \<lparr>vc_NodeID = ''a'', vc_VirtualIP = ''10.0.0.2'', vc_Subnet = ''10.0.0.0/24'', vc_Gateway = [], vc_Interface = ''nt0'', vc_MTU = 1400,
     vc_Routes = [\<lparr>vr_Destination = ''10.1.0.0/24'', vr_Gateway = ''10.0.0.1'', vr_Interface = [], vr_Metric = 1\<rparr>]\<rparr>"

definition ex_run :: "systemCommand \<Rightarrow> ex_host \<Rightarrow> string option \<times> ex_host" where
  "ex_run c os = (case os of (k, ds, cs) \<Rightarrow> if ''route'' \<in> set (sc_args c) then (Some ''refused'', os) else (None, (k, ds, cs @ [c])))"

definition ex_netlib :: "string \<Rightarrow> ex_host NetLib" where
  "ex_netlib goos = \<lparr>nl_platform = \<lparr>pf_goos = goos, pf_run = ex_run, pf_checker = None, pf_apply = None, pf_reset = (\<lambda>s os. (Inr s, os)),
       pf_ParseAddr = (\<lambda>s. None), pf_ParsePrefix = (\<lambda>s. None)\<rparr>,
     nl_PathEscape = (\<lambda>s. s), nl_NewRequest = (\<lambda>s. None), nl_do = (\<lambda>m u t b os. (Inr (200, Inr ''{}''), os)), nl_registration = (\<lambda>i. i),
     nl_decode = (\<lambda>b. Inr ex_network), nl_exists = (\<lambda>i os. (Inr False, os)),
     nl_create = (\<lambda>t os. case os of (k, ds, cs) \<Rightarrow> (Inr (Some k), (Suc k, k # ds, cs))), nl_name = (\<lambda>d os. Inl ''gone''),
     nl_close = (\<lambda>d os. case os of (k, ds, cs) \<Rightarrow> (k, filter (\<lambda>x. x \<noteq> d) ds, cs)), nl_macos = (\<lambda>c t os. (Inr c, t, os)),
     nl_ParseIP = (\<lambda>s. IP4 1), nl_ParseCIDR = (\<lambda>s. Inl ''none''), nl_vn_text = (\<lambda>e. ''e'')\<rparr>"

definition ex_net_app :: "ex_host NetApp" where
  "ex_net_app = \<lparr>na_app = (ex_idle\<lparr>ap_db := empty_config\<lparr>db_settings := [(''control_plane_url'', ''http://c'')]\<rparr>\<rparr>), na_vnet = no_state, na_tun = None,
     na_os = (0, [], [])\<rparr>"

definition ex_net_lib :: AppLib where
  "ex_net_lib = ex_settings_lib\<lparr>al_url := \<lparr>ul_Parse = (\<lambda>s. Some \<lparr>pu_Scheme = ''http'', pu_Host = ''c'', pu_Path = [], pu_RawQuery = [], pu_Fragment = [], pu_User = []\<rparr>), ul_String = (\<lambda>u. ''http://c'')\<rparr>\<rparr>"

lemma ex_host: "host_laws (ex_netlib goos) (\<lambda>(k, ds, cs). set ds)"
  by (auto simp: host_laws_def ex_netlib_def ex_run_def split: prod.split)


theorem failed_network_stays_witness:
  "length (snd (snd (na_os (snd (ResetVirtualNetwork ex_net_lib (ex_netlib ''linux'') (snd (ApplyVirtualNetwork ex_net_lib (ex_netlib ''linux'') ex_net_app))))))) = 3"
proof -
  let ?r = "ApplyVirtualNetwork ex_net_lib (ex_netlib ''linux'') ex_net_app"
  have "fst ?r = Some ''e''" by code_simp
  then have r: "?r = (Some ''e'', snd ?r)" by (simp only: prod_eq_iff fst_conv snd_conv)
  have p: "pf_apply (nl_platform (ex_netlib ''linux'')) = None" by (simp add: ex_netlib_def)
  have c: "vs_LastCommands (na_vnet (snd ?r)) \<noteq> vs_LastCommands (na_vnet ex_net_app)" by code_simp
  have n: "na_tun (snd ?r) = None" "length (snd (snd (na_os (snd ?r)))) = 3" by code_simp+
  show ?thesis using failed_network_stays [OF r p c] n by auto
qed

end
