(* ===== verification/Spec2Isabelle.thy ===== *)
theory Spec2Isabelle
  imports Wire Ipam Route_Table Relay_Props Control_Guarantees Sdwan_Policy Sdwan_Qos Edge_Health Dashboard_Props
    Tunnel_Run Path_Choice P2P_Props Punch_Pair Net_Tun Relay_Select
    Xdp_Run Client_Token Virtual_Apply Net_Migration Anycast_Router Desktop_Publish Sql_Control Desktop_Network
begin

text \<open>
  NexTunnel: a relay that publishes services behind NAT, a control plane that hands out virtual
  addresses, the SD-WAN and edge parts of the server, its dashboard, and the desktop client.

  The parts and how they interact. A client of the relay (\<open>desktop/internal/tunnel\<close>) authenticates over a
  framed protocol (\<open>pkg/protocol\<close>), registers proxies, and answers a request for a work connection by
  dialling back; the relay (\<open>server/internal/relay\<close>) keeps clients, proxies, domains, policies and
  sessions, and forwards the messages of the mesh between clients. The control plane
  (\<open>server/internal/controlplane\<close>) keeps nodes, keys and access rules over a store and uses the address
  pool and the route table of \<open>pkg/ipam\<close>. The SD-WAN engine and scheduler, the edge registry with its
  health checker, and the dashboard are independent services of the server.

  Theories and the code they model (paths under \<open>src/\<close>):
  \<^item> \<open>Go_Prelude\<close>: Go's maps, clocks, strings and \<open>sort.Slice\<close> (interface \<open>slice_sorter\<close>); \<open>Go_Heap\<close>:
    \<open>container/heap\<close> (interface \<open>heap_order\<close>).
  \<^item> \<open>Messages\<close>, \<open>Wire\<close>: \<open>pkg/protocol/message.go\<close>, \<open>codec.go\<close>: every message, its factory and its
    decoding; the frame and the connection. Lemmas: round trips of single messages and streams, and which
    byte strings are frames.
  \<^item> \<open>Net_Addr\<close>, \<open>Address_Text\<close>: the parts of \<open>net\<close> and \<open>net/netip\<close> that the code uses; \<open>Ipam\<close>,
    \<open>Route_Table\<close>: \<open>pkg/ipam\<close>. Lemmas: allocation refines a set of leases, no address is shared, the
    route found is a longest prefix.
  \<^item> \<open>Relay_Config\<close>, \<open>Endpoint_Domain\<close>, \<open>Endpoint_Policy\<close>, \<open>Relay_Session\<close>, \<open>Request_Log\<close>,
    \<open>Relay_Server\<close>: \<open>server/internal/relay\<close> (\<open>config.go\<close>, the domain and policy functions of
    \<open>gateway.go\<close>, \<open>proxy.go\<close>, \<open>session.go\<close>, \<open>server.go\<close>, \<open>client_conn.go\<close>). \<open>Relay_Inv\<close> has the
    invariant of the server's heap and that each handler keeps it; \<open>Relay_Props\<close> the properties over the
    reachable states.
  \<^item> \<open>Audit_Log\<close>: \<open>pkg/audit\<close>; \<open>Control_Plane\<close>: \<open>server/internal/controlplane\<close> (\<open>node_registry.go\<close>,
    \<open>virtual_network.go\<close>, \<open>store_memory.go\<close>, \<open>server.go\<close>), with its invariant in \<open>Control_Props\<close> and its
    properties in \<open>Control_Guarantees\<close>.
  \<^item> \<open>Sdwan_Policy\<close>, \<open>Sdwan_Qos\<close>: \<open>server/internal/sdwan\<close>; \<open>Edge_Nodes\<close>, \<open>Edge_Health\<close>:
    \<open>server/internal/edge\<close>.
  \<^item> \<open>Dashboard_Alerts\<close>, \<open>Dashboard_Auth\<close>, \<open>Dashboard_Server\<close>, \<open>Dashboard_Props\<close>:
    \<open>server/internal/dashboard\<close>.
  \<^item> \<open>Tunnel_Client\<close>, \<open>Tunnel_Run\<close>: \<open>desktop/internal/tunnel\<close>, the client of the relay and a run of its
    goroutines.
  \<^item> \<open>Link_Probe\<close>, \<open>Link_Quality\<close>: \<open>desktop/internal/probe\<close>, the probe packets, the loss tracker and the
    bandwidth estimator; \<open>Path_Scheduler\<close>, \<open>Path_Choice\<close>: \<open>desktop/internal/scheduler\<close>, the choice of a
    path by its score. \<open>Go_Float\<close> and \<open>Go_Bytes\<close> hold the conversions and the big endian fields that
    they use.

  \<^item> \<open>Mesh_Router\<close>, \<open>Nat_Detect\<close>, \<open>Hole_Punch\<close>, \<open>Ice_Agent\<close>, \<open>P2P_Engine\<close>, \<open>Net_Tun\<close>: \<open>desktop/internal/p2p\<close> and
    \<open>desktop/internal/nat\<close>, the direct connection of two clients. \<open>Mesh_Props\<close>: runs of the mesh, its
    transports and its timeouts. \<open>Punch_Pair\<close>: one engine, and two engines over a network that loses
    datagrams. \<open>Ice_Props\<close>: the priorities; \<open>Ice_Run\<close>: the invariant of every interleaving of the agent's
    goroutines and the end of the checks. \<open>P2P_Props\<close>: what a handler leaves behind, and why the offers
    of the mesh fail, over the models of the mesh, the agent and the engine.
  \<^item> \<open>Relay_Select\<close>: \<open>desktop/internal/relay\<close>, the handshake with a relay and the choice of the active one.
  \<^item> \<open>Go_Sort\<close>: the exchange sort that the code writes out. \<open>Packet_Rules\<close>, \<open>Xdp_Filter\<close>, \<open>Xdp_Loader\<close>:
    \<open>server/internal/ebpf\<close>, the packet rules in the userspace, the XDP program and the loader that copies rules
    into the kernel's maps. \<open>Xdp_Props\<close>: the plan of a synchronisation; \<open>Xdp_Run\<close>: every run of the loader,
    in which the program agrees with the rule of least priority, and what a failed synchronisation leaves.
  \<^item> \<open>Anycast_Router\<close>: \<open>server/internal/anycast\<close>, the nearest node, the nodes to fail over to, regions and DNS
    answers, over the real numbers.
  \<^item> \<open>Client_Token\<close>: \<open>desktop/internal/auth\<close>, tokens over the URL alphabet of Base64. \<open>Virtual_Apply\<close>:
    \<open>desktop/internal/virtualnet\<close>, the commands of three platforms and the manager that runs them.
    \<open>Net_Migration\<close>: \<open>desktop/internal/migration\<close>, the detector of changes and the migrator.
  \<^item> \<open>Sql_Table\<close>: the statements that the stores give to SQLite, over lists of rows, and the interface of a
    table with a key (\<open>kv_store\<close>). \<open>Config_Store\<close>: \<open>desktop/internal/config\<close>, the desktop's tables, on an
    engine that may fail at any statement; \<open>Config_Props\<close>: unique columns, settings saved together or not at
    all, the newest log entries.
  \<^item> \<open>Desktop_Settings\<close>, \<open>Desktop_App\<close>: \<open>desktop/app.go\<close>, the normal form of settings and inputs, and the
    application over the store and the manager of \<open>Tunnel_Client\<close>. \<open>Desktop_Props\<close>: settings read back;
    \<open>Desktop_Run\<close>: the invariant of the application and that every call keeps it; \<open>Desktop_Guarantees\<close>: runs
    from the start, replaced connections, and calls that overlap; \<open>Desktop_Publish\<close>: publications and favourites.
    \<open>Desktop_Network\<close>: the virtual network of the application, over \<open>Virtual_Apply\<close> and a host with devices.
  \<^item> \<open>Sql_Control\<close>: \<open>server/internal/controlplane/store_sqlite.go\<close> over \<open>Sql_Table\<close>; it answers as the store in
    memory does, up to the time of creation of a rule.

  How the code is read. A struct is a record with the source's fields, an object that several parts
  share lives in a heap or a table under its key, a lock makes the operation under it one step, and work
  outside the lock is a step of its own, so that the interleavings of the code are sequences of steps. An
  error is a value; a panic is an outcome. Machine integers keep their width where they wrap. A range over
  a map takes its order as an argument. JSON, hashing, the network, the clock, random draws and the mux of
  the standard library are arguments or are written out where the source depends on how they behave.
  Numbers with a fraction (\<open>float64\<close>) are rationals: rounding errors are not modelled. Loops are recursive
  functions with termination proofs, so no fuel is used.

  Not modelled: the desktop's window and menus, its diagnostics report, preferences, local control endpoint and
  the repair of its driver (\<open>desktop/*.go\<close> but \<open>app.go\<close>; of \<open>app.go\<close> the start of NAT detection, the node check's
  composition and the runtime status); the command line and the programs under \<open>cmd\<close>; the installer; the helper
  process of macOS and its manager; TUN devices, WireGuard and their preflight checks; the QUIC and WebSocket
  transports, TLS files and client certificates; OpenID Connect; the NAT detection server's sockets; the HTTP
  gateway's proxying of bytes and the administration endpoints of the relay; SQL text (stores are modelled as
  tables); logging and metrics output. These are calls into libraries and the operating system with little
  state of their own.
\<close>

end
